(* ===== verification/JS_Prelude.thy ===== *)
theory JS_Prelude
  imports Main "HOL-Library.Sublist"
begin

text \<open>
  The part of the JavaScript language and standard library that the modelled sources use,
  and the generic lemmas every component shares.

  A JavaScript string is a list of UTF-16 code units.  The development models the strings
  whose code units are below 256, so a code unit is a HOL character: on that range
  \<open>String.prototype.trim\<close> and \<open>toLowerCase\<close> are the two functions below, exactly.
  \<open>null\<close> and \<open>undefined\<close> are \<open>None\<close>; a thrown error is the left side of a sum.
  An array is a list, a \<open>Set\<close> or \<open>Map\<close> whose iteration order is observed is a
  duplicate-free list in insertion order.
\<close>

named_theorems js_simps \<open>equations that evaluate the JavaScript string functions\<close>

section \<open>Characters\<close>

definition js_space :: "char \<Rightarrow> bool" where
  "js_space c \<longleftrightarrow> (let n = of_char c :: nat in (9 \<le> n \<and> n \<le> 13) \<or> n = 32 \<or> n = 160)"

definition upper_char :: "char \<Rightarrow> bool" where
  "upper_char c \<longleftrightarrow> (let n = of_char c :: nat in (65 \<le> n \<and> n \<le> 90) \<or> (192 \<le> n \<and> n \<le> 222 \<and> n \<noteq> 215))"

definition lower_char :: "char \<Rightarrow> bool" where
  "lower_char c \<longleftrightarrow> (let n = of_char c :: nat in (97 \<le> n \<and> n \<le> 122) \<or> (224 \<le> n \<and> n \<le> 254 \<and> n \<noteq> 247))"

definition to_lower_char :: "char \<Rightarrow> char" where
  "to_lower_char c = (if upper_char c then char_of (of_char c + 32 :: nat) else c)"

definition to_upper_char :: "char \<Rightarrow> char" where
  "to_upper_char c = (if lower_char c then char_of (of_char c - 32 :: nat) else c)"

definition digit_char :: "char \<Rightarrow> bool" where
  "digit_char c \<longleftrightarrow> (let n = of_char c :: nat in 48 \<le> n \<and> n \<le> 57)"

definition alpha_char :: "char \<Rightarrow> bool" where
  "alpha_char c \<longleftrightarrow> (let n = of_char c :: nat in (65 \<le> n \<and> n \<le> 90) \<or> (97 \<le> n \<and> n \<le> 122))"

definition alnum_char :: "char \<Rightarrow> bool" where
  "alnum_char c \<longleftrightarrow> alpha_char c \<or> digit_char c"

definition lower_alpha_char :: "char \<Rightarrow> bool" where
  "lower_alpha_char c \<longleftrightarrow> (let n = of_char c :: nat in 97 \<le> n \<and> n \<le> 122)"

lemma of_char_bound [simp]: "(of_char c :: nat) < 256"
  by (cases c) (simp add: of_char_Char horner_sum_simps split: if_splits)

lemma of_char_lower [simp]: "upper_char c \<Longrightarrow> (of_char (to_lower_char c) :: nat) = of_char c + 32"
  by (auto simp: to_lower_char_def upper_char_def Let_def)

lemma not_upper_lower [simp]: "\<not> upper_char (to_lower_char c)"
proof (cases "upper_char c")
  case True
  then show ?thesis
    by (auto simp: upper_char_def Let_def of_char_lower [OF True])
next
  case False
  then show ?thesis by (simp add: to_lower_char_def)
qed

lemma to_lower_char_idem [simp]: "to_lower_char (to_lower_char c) = to_lower_char c"
  using not_upper_lower [of c] by (simp add: to_lower_char_def [of "to_lower_char c"])

lemma upper_not_space: "upper_char c \<Longrightarrow> \<not> js_space c"
  by (auto simp: upper_char_def js_space_def Let_def)

lemma js_space_lower [simp]: "js_space (to_lower_char c) = js_space c"
proof (cases "upper_char c")
  case True
  then show ?thesis
    by (auto simp: upper_char_def js_space_def Let_def of_char_lower [OF True])
next
  case False
  then show ?thesis by (simp add: to_lower_char_def)
qed

text \<open>The characters the sources test for are not letters, so lowering never makes or removes one.\<close>

lemma to_lower_char_fixed: "\<not> upper_char c \<Longrightarrow> to_lower_char c = c"
  by (simp add: to_lower_char_def)

lemma to_lower_char_eq_iff:
  "\<not> upper_char d \<Longrightarrow> \<not> lower_char d \<Longrightarrow> to_lower_char c = d \<longleftrightarrow> c = d"
proof (cases "upper_char c")
  case True
  assume d: "\<not> upper_char d" "\<not> lower_char d"
  have "lower_char (to_lower_char c)"
    using True by (auto simp: lower_char_def upper_char_def Let_def of_char_lower [OF True])
  with d True show ?thesis by auto
next
  case False
  then show ?thesis by (simp add: to_lower_char_def)
qed

section \<open>Strings\<close>

definition to_lower :: "string \<Rightarrow> string" where
  "to_lower s = map to_lower_char s"

definition to_upper :: "string \<Rightarrow> string" where
  "to_upper s = map to_upper_char s"

definition trim_left :: "string \<Rightarrow> string" where
  "trim_left s = dropWhile js_space s"

definition trim_right :: "string \<Rightarrow> string" where
  "trim_right s = rev (dropWhile js_space (rev s))"

definition js_trim :: "string \<Rightarrow> string" where
  "js_trim s = trim_right (trim_left s)"

definition starts_with :: "string \<Rightarrow> string \<Rightarrow> bool" where
  "starts_with s p \<longleftrightarrow> prefix p s"

definition ends_with :: "string \<Rightarrow> string \<Rightarrow> bool" where
  "ends_with s p \<longleftrightarrow> suffix p s"

definition includes_str :: "string \<Rightarrow> string \<Rightarrow> bool" where
  "includes_str s p \<longleftrightarrow> sublist p s"

definition strip_prefix :: "string \<Rightarrow> string \<Rightarrow> string" where
  "strip_prefix p s = (if prefix p s then drop (length p) s else s)"

definition strip_suffix :: "string \<Rightarrow> string \<Rightarrow> string" where
  "strip_suffix p s = (if suffix p s then take (length s - length p) s else s)"

text \<open>\<open>s.split(c)\<close> for a one-character separator: always at least one part.\<close>

fun split_on :: "char \<Rightarrow> string \<Rightarrow> string list" where
  "split_on c [] = [[]]"
| "split_on c (x # xs) =
     (if x = c then [] # split_on c xs
      else (x # hd (split_on c xs)) # tl (split_on c xs))"

text \<open>
  \<open>s.substring(0, i)\<close> and \<open>s.substring(i + 1)\<close> for \<open>i = s.indexOf(c)\<close>, when \<open>c\<close>
  occurs in \<open>s\<close>.
\<close>

definition before_first :: "char \<Rightarrow> string \<Rightarrow> string" where
  "before_first c s = takeWhile (\<lambda>x. x \<noteq> c) s"

definition after_first :: "char \<Rightarrow> string \<Rightarrow> string" where
  "after_first c s = tl (dropWhile (\<lambda>x. x \<noteq> c) s)"

text \<open>\<open>parts.join(sep)\<close>.\<close>

fun join_with :: "string \<Rightarrow> string list \<Rightarrow> string" where
  "join_with sep [] = []"
| "join_with sep [x] = x"
| "join_with sep (x # y # zs) = x @ sep @ join_with sep (y # zs)"

text \<open>\<open>[...new Set(xs)]\<close>: the first occurrence of each element, in order.\<close>

fun js_unique :: "'a list \<Rightarrow> 'a list" where
  "js_unique [] = []"
| "js_unique (x # xs) = x # filter (\<lambda>y. y \<noteq> x) (js_unique xs)"

lemma to_lower_simps [js_simps, simp]:
  "to_lower [] = []" "to_lower (c # s) = to_lower_char c # to_lower s"
  by (simp_all add: to_lower_def)

lemma to_lower_append [simp]: "to_lower (s @ t) = to_lower s @ to_lower t"
  by (simp add: to_lower_def)

lemma length_to_lower [simp]: "length (to_lower s) = length s"
  by (simp add: to_lower_def)

lemma to_lower_eq_Nil [simp]: "to_lower s = [] \<longleftrightarrow> s = []"
  by (simp add: to_lower_def)

lemma to_lower_idem [simp]: "to_lower (to_lower s) = to_lower s"
  by (induction s) simp_all

lemma to_lower_set: "set (to_lower s) = to_lower_char ` set s"
  by (simp add: to_lower_def)

lemma to_lower_rev: "to_lower (rev s) = rev (to_lower s)"
  by (simp add: to_lower_def rev_map)

lemma dropWhile_space_lower: "dropWhile js_space (to_lower s) = to_lower (dropWhile js_space s)"
  by (induction s) simp_all

lemma js_trim_lower: "js_trim (to_lower s) = to_lower (js_trim s)"
  by (simp add: js_trim_def trim_left_def trim_right_def dropWhile_space_lower
      flip: to_lower_rev)

lemma dropWhile_idem [simp]: "dropWhile P (dropWhile P xs) = dropWhile P xs"
  by (induction xs) simp_all

lemma trim_left_idem [simp]: "trim_left (trim_left s) = trim_left s"
  by (simp add: trim_left_def)

lemma trim_right_idem [simp]: "trim_right (trim_right s) = trim_right s"
  by (simp add: trim_right_def)

lemma dropWhile_hd_id: "xs = [] \<or> \<not> P (hd xs) \<Longrightarrow> dropWhile P xs = xs"
  by (cases xs) auto

lemma trim_left_id_iff: "trim_left s = s \<longleftrightarrow> s = [] \<or> \<not> js_space (hd s)"
proof (cases s)
  case (Cons c t)
  have "length (dropWhile js_space t) \<le> length t"
    by (rule length_dropWhile_le)
  then show ?thesis using Cons
    by (auto simp: trim_left_def)
qed (simp add: trim_left_def)

lemma trim_right_id_iff: "trim_right s = s \<longleftrightarrow> s = [] \<or> \<not> js_space (last s)"
proof -
  have "trim_right s = s \<longleftrightarrow> trim_left (rev s) = rev s"
    by (simp add: trim_right_def trim_left_def rev_swap)
  then show ?thesis by (simp add: trim_left_id_iff hd_rev)
qed

lemma trim_right_prefix: "prefix (trim_right s) s"
  unfolding trim_right_def
  by (metis rev_rev_ident suffix_dropWhile suffix_to_prefix)

lemma js_trim_trimmed: "js_trim s = [] \<or> (\<not> js_space (hd (js_trim s)) \<and> \<not> js_space (last (js_trim s)))"
proof (cases "js_trim s = []")
  case False
  let ?t = "trim_left s"
  have ne: "?t \<noteq> []" using False by (auto simp: js_trim_def trim_right_def)
  have "\<not> js_space (hd ?t)"
    using trim_left_id_iff [of ?t] ne by simp
  moreover have "hd (trim_right ?t) = hd ?t"
    using trim_right_prefix [of ?t] False
    by (metis js_trim_def hd_append2 prefix_def)
  moreover have "\<not> js_space (last (trim_right ?t))"
    using trim_right_id_iff [of "trim_right ?t"] False by (simp add: js_trim_def)
  ultimately show ?thesis by (simp add: js_trim_def)
qed simp

lemma js_trim_id: "s = [] \<or> (\<not> js_space (hd s) \<and> \<not> js_space (last s)) \<Longrightarrow> js_trim s = s"
  by (metis js_trim_def trim_left_id_iff trim_right_id_iff)

lemma js_trim_idem [simp]: "js_trim (js_trim s) = js_trim s"
  by (rule js_trim_id) (rule js_trim_trimmed)

lemma js_trim_no_space: "(\<And>c. c \<in> set s \<Longrightarrow> \<not> js_space c) \<Longrightarrow> js_trim s = s"
  by (rule js_trim_id) auto

lemma js_trim_Nil [simp]: "js_trim [] = []"
  by (simp add: js_trim_def trim_left_def trim_right_def)

lemma set_js_trim: "set (js_trim s) \<subseteq> set s"
  unfolding js_trim_def trim_right_def trim_left_def
  by (metis order_trans set_dropWhileD set_rev subsetI)

lemma sublist_js_trim: "sublist (js_trim s) s"
  unfolding js_trim_def trim_left_def
  by (metis prefix_imp_sublist sublist_order.dual_order.trans suffix_dropWhile
      suffix_imp_sublist trim_right_prefix)

section \<open>Splitting and joining\<close>

lemma split_on_not_Nil [simp]: "split_on c s \<noteq> []"
  by (cases s) simp_all

lemma split_on_code [code]:
  "split_on c [] = [[]]"
  "split_on c (x # xs) =
     (if x = c then [] # split_on c xs
      else case split_on c xs of [] \<Rightarrow> [[x]] | p # ps \<Rightarrow> (x # p) # ps)"
  by (simp_all split: list.split)

lemma split_on_Cons_same: "split_on c (c # xs) = [] # split_on c xs"
  by simp

lemma join_with_Cons: "ys \<noteq> [] \<Longrightarrow> join_with sep (x # ys) = x @ sep @ join_with sep ys"
  by (cases ys) simp_all

lemma join_with_Cons_head: "join_with sep ((c # x) # ys) = c # join_with sep (x # ys)"
  by (cases ys) simp_all

text \<open>Splitting on a character and joining with it again gives the string back.\<close>

lemma join_split_on: "join_with [c] (split_on c s) = s"
proof (induction s)
  case (Cons x xs)
  show ?case
  proof (cases "x = c")
    case True
    then show ?thesis using Cons by (simp add: join_with_Cons)
  next
    case False
    have "hd (split_on c xs) # tl (split_on c xs) = split_on c xs" by simp
    then show ?thesis using False Cons by (simp add: join_with_Cons_head)
  qed
qed simp

lemma split_on_no_sep: "p \<in> set (split_on c s) \<Longrightarrow> c \<notin> set p"
proof (induction s arbitrary: p)
  case (Cons x xs)
  show ?case
  proof (cases "x = c")
    case True
    then show ?thesis using Cons by auto
  next
    case False
    have "hd (split_on c xs) \<in> set (split_on c xs)" by simp
    then have "c \<notin> set (hd (split_on c xs))" by (rule Cons.IH)
    moreover have "q \<in> set (split_on c xs)" if "q \<in> set (tl (split_on c xs))" for q
      using that by (metis list.set_sel(2) split_on_not_Nil)
    ultimately show ?thesis using False Cons by auto
  qed
qed simp

lemma split_on_append_sep: "c \<notin> set p \<Longrightarrow> split_on c (p @ c # s) = p # split_on c s"
  by (induction p) auto

lemma split_on_append: "split_on c (s @ c # t) = split_on c s @ split_on c t"
proof (induction s)
  case (Cons x s)
  then show ?case by (cases "split_on c s") auto
qed simp

lemma split_on_empty_part: "includes_str s [c, c] \<Longrightarrow> [] \<in> set (split_on c s)"
  by (auto simp: includes_str_def sublist_def split_on_append)

lemma split_on_no: "c \<notin> set p \<Longrightarrow> split_on c p = [p]"
  by (induction p) auto

lemma split_on_join:
  "ps \<noteq> [] \<Longrightarrow> (\<And>p. p \<in> set ps \<Longrightarrow> c \<notin> set p) \<Longrightarrow> split_on c (join_with [c] ps) = ps"
proof (induction ps)
  case (Cons p ps)
  then show ?case
    by (cases "ps = []") (simp_all add: split_on_no join_with_Cons split_on_append_sep)
qed simp

lemma length_split_on: "length (split_on c s) = Suc (count_list s c)"
proof (induction s)
  case (Cons x xs)
  then show ?case by (cases "split_on c xs") auto
qed simp

lemma split_on_set_subset: "p \<in> set (split_on c s) \<Longrightarrow> set p \<subseteq> set s"
proof (induction s arbitrary: p)
  case (Cons x xs)
  have hd: "hd (split_on c xs) \<in> set (split_on c xs)" by simp
  have tl: "q \<in> set (split_on c xs)" if "q \<in> set (tl (split_on c xs))" for q
    using that by (metis list.set_sel(2) split_on_not_Nil)
  show ?case
  proof (cases "x = c")
    case True
    then show ?thesis using Cons by auto
  next
    case False
    then have "p = x # hd (split_on c xs) \<or> p \<in> set (split_on c xs)"
      using Cons.prems tl by auto
    then show ?thesis using Cons.IH [OF hd] Cons.IH [of p] by auto
  qed
qed simp

lemma length_join_with: "length (join_with [c] ps) = sum_list (map length ps) + (length ps - 1)"
  by (induction "[c]" ps rule: join_with.induct) simp_all

lemma set_join_with: "set (join_with sep ps) \<subseteq> \<Union> (set ` set ps) \<union> set sep"
  by (induction sep ps rule: join_with.induct) auto

lemma before_after_first: "c \<in> set s \<Longrightarrow> s = before_first c s @ c # after_first c s"
  by (induction s) (auto simp: before_first_def after_first_def)

lemma before_first_no_sep: "c \<notin> set (before_first c s)"
  by (auto simp: before_first_def dest: set_takeWhileD)

lemma before_first_append: "c \<notin> set p \<Longrightarrow> before_first c (p @ c # q) = p"
  by (induction p) (auto simp: before_first_def)

lemma after_first_append: "c \<notin> set p \<Longrightarrow> after_first c (p @ c # q) = q"
  by (induction p) (auto simp: after_first_def)

lemma hd_split_on: "hd (split_on c s) = before_first c s"
  by (induction s) (auto simp: before_first_def)

section \<open>Duplicate removal\<close>

lemma set_js_unique [simp]: "set (js_unique xs) = set xs"
  by (induction xs) auto

lemma distinct_js_unique [simp]: "distinct (js_unique xs)"
  by (induction xs) (auto intro: distinct_filter)

lemma js_unique_id: "distinct xs \<Longrightarrow> js_unique xs = xs"
  by (induction xs) (auto intro: filter_True)

lemma js_unique_idem [simp]: "js_unique (js_unique xs) = js_unique xs"
  by (simp add: js_unique_id)

lemma js_unique_Nil_iff [simp]: "js_unique xs = [] \<longleftrightarrow> xs = []"
  by (cases xs) simp_all

lemma js_unique_snoc: "js_unique (xs @ [x]) = (if x \<in> set xs then js_unique xs else js_unique xs @ [x])"
  by (induction xs) auto

lemma length_js_unique_le: "length (js_unique xs) \<le> length xs"
proof (induction xs)
  case (Cons x xs)
  have "length (filter (\<lambda>y. y \<noteq> x) (js_unique xs)) \<le> length xs"
    using length_filter_le Cons.IH by (rule le_trans)
  then show ?case by simp
qed simp

section \<open>Results\<close>

text \<open>Sequencing of operations that may throw: the left value is the error.\<close>

definition and_then :: "'e + 'a \<Rightarrow> ('a \<Rightarrow> 'e + 'b) \<Rightarrow> 'e + 'b" where
  "and_then x f = (case x of Inl e \<Rightarrow> Inl e | Inr a \<Rightarrow> f a)"

definition throw_if :: "bool \<Rightarrow> 'e \<Rightarrow> 'e + unit" where
  "throw_if b e = (if b then Inl e else Inr ())"

lemma and_then_simps [simp]: "and_then (Inl e) f = Inl e" "and_then (Inr a) f = f a"
  by (simp_all add: and_then_def)

lemma and_then_Inr_iff: "and_then x f = Inr b \<longleftrightarrow> (\<exists>a. x = Inr a \<and> f a = Inr b)"
  by (cases x) simp_all

lemma and_then_Inl_iff: "and_then x f = Inl e \<longleftrightarrow> x = Inl e \<or> (\<exists>a. x = Inr a \<and> f a = Inl e)"
  by (cases x) simp_all

lemma throw_if_simps [simp]:
  "throw_if True e = Inl e" "throw_if False e = Inr ()"
  "throw_if b e = Inr u \<longleftrightarrow> \<not> b" "throw_if b e = Inl e' \<longleftrightarrow> b \<and> e' = e"
  by (auto simp: throw_if_def)

section \<open>Numbers\<close>

definition dec_value :: "string \<Rightarrow> nat" where
  "dec_value s = foldl (\<lambda>n c. 10 * n + (of_char c - 48)) 0 s"

definition hex_digit :: "char \<Rightarrow> nat option" where
  "hex_digit c =
     (let n = of_char c in
      if 48 \<le> n \<and> n \<le> 57 then Some (n - 48)
      else if 97 \<le> n \<and> n \<le> 102 then Some (n - 87)
      else if 65 \<le> n \<and> n \<le> 70 then Some (n - 55)
      else None)"

definition radix_value :: "nat \<Rightarrow> string \<Rightarrow> int option" where
  "radix_value b s =
     (if s \<noteq> [] \<and> list_all (\<lambda>c. case hex_digit c of Some d \<Rightarrow> d < b | None \<Rightarrow> False) s
      then Some (int (foldl (\<lambda>n c. b * n + (case hex_digit c of Some d \<Rightarrow> d | None \<Rightarrow> 0)) 0 s))
      else None)"

definition split_sign :: "string \<Rightarrow> int \<times> string" where
  "split_sign s = (if starts_with s ''-'' then (-1, drop 1 s)
                   else if starts_with s ''+'' then (1, drop 1 s) else (1, s))"

definition exponent_value :: "string \<Rightarrow> int option" where
  "exponent_value s =
     (if s = [] then Some 0
      else if hd s = CHR ''e'' \<or> hd s = CHR ''E'' then
        (let (sg, ds) = split_sign (tl s)
         in if ds \<noteq> [] \<and> list_all digit_char ds then Some (sg * int (dec_value ds)) else None)
      else None)"

definition decimal_literal :: "string \<Rightarrow> int option" where
  "decimal_literal s =
     (let (sg, u) = split_sign s;
          ip = takeWhile digit_char u;
          r = dropWhile digit_char u;
          fp = (if starts_with r ''.'' then takeWhile digit_char (tl r) else []);
          r' = (if starts_with r ''.'' then dropWhile digit_char (tl r) else r);
          m = int (dec_value (ip @ fp))
      in if ip = [] \<and> fp = [] then None
         else case exponent_value r' of
             None \<Rightarrow> None
           | Some e \<Rightarrow>
               (let k = e - int (length fp) in
                if 0 \<le> k then Some (sg * m * 10 ^ nat k)
                else if m mod 10 ^ nat (- k) = 0 then Some (sg * (m div 10 ^ nat (- k)))
                else None))"

text \<open>
  \<open>js_number s\<close> is the integer \<open>Number(s)\<close>, and \<open>None\<close> when \<open>Number(s)\<close> is not an
  integer (\<open>Number.isInteger\<close> is false, as it is for \<open>NaN\<close>).  Values are exact; a literal of
  more than 15 significant digits, which JavaScript rounds, is outside the model.
\<close>

definition js_number :: "string \<Rightarrow> int option" where
  "js_number s =
     (let t = js_trim s in
      if t = [] then Some 0
      else if list_all digit_char t then Some (int (dec_value t))
      else if starts_with t ''0x'' \<or> starts_with t ''0X'' then radix_value 16 (drop 2 t)
      else if starts_with t ''0o'' \<or> starts_with t ''0O'' then radix_value 8 (drop 2 t)
      else if starts_with t ''0b'' \<or> starts_with t ''0B'' then radix_value 2 (drop 2 t)
      else decimal_literal t)"

text \<open>\<open>String(n)\<close> and \<open>padStart(2, '0')\<close>.\<close>

definition digit_of :: "nat \<Rightarrow> char" where
  "digit_of d = char_of (48 + d)"

fun nat_str :: "nat \<Rightarrow> string" where
  "nat_str n = (if n < 10 then [digit_of n] else nat_str (n div 10) @ [digit_of (n mod 10)])"

declare nat_str.simps [simp del]

definition int_str :: "int \<Rightarrow> string" where
  "int_str n = (if n < 0 then CHR ''-'' # nat_str (nat (- n)) else nat_str (nat n))"

definition pad2 :: "string \<Rightarrow> string" where
  "pad2 s = replicate (2 - length s) CHR ''0'' @ s"

lemma of_char_digit_of [simp]: "d < 10 \<Longrightarrow> (of_char (digit_of d) :: nat) = 48 + d"
  by (simp add: digit_of_def)

lemma digit_char_digit_of [simp]: "d < 10 \<Longrightarrow> digit_char (digit_of d)"
  by (simp add: digit_char_def)

lemma digit_not_space: "digit_char c \<Longrightarrow> \<not> js_space c"
  by (auto simp: digit_char_def js_space_def Let_def)

lemma digit_of_zero: "digit_of 0 = CHR ''0''"
  by code_simp

lemma pad2_nat_str: "n < 100 \<Longrightarrow> pad2 (nat_str n) = [digit_of (n div 10), digit_of (n mod 10)]"
  by (simp add: nat_str.simps [of n] nat_str.simps [of "n div 10"] pad2_def digit_of_zero)

lemma js_number_digits: "s \<noteq> [] \<Longrightarrow> list_all digit_char s \<Longrightarrow> js_number s = Some (int (dec_value s))"
proof -
  assume s: "s \<noteq> []" "list_all digit_char s"
  then have "js_trim s = s"
    by (intro js_trim_no_space) (auto simp: list_all_iff digit_not_space)
  with s show ?thesis by (simp add: js_number_def Let_def)
qed

lemma dec_value_two: "dec_value [a, b] = 10 * (of_char a - 48) + (of_char b - 48)"
  by (simp add: dec_value_def)

lemma digit_of_value: "digit_char c \<Longrightarrow> digit_of (of_char c - 48) = c"
  by (auto simp: digit_of_def digit_char_def Let_def)

lemma digit_value_bound: "digit_char c \<Longrightarrow> (of_char c :: nat) - 48 < 10"
  by (auto simp: digit_char_def Let_def)

end
