(* ===== verification/Regex.thy ===== *)
theory Regex
  imports JS_Prelude
begin

text \<open>
  The regular expressions the sources test strings against.  Only the constructs that occur
  there are modelled: literals and character classes, concatenation, alternation, the
  quantifiers \<open>*\<close>, \<open>+\<close>, \<open>?\<close> and \<open>{m,n}\<close>.  \<open>matches\<close> says which strings a
  pattern written \<open>/^...$/\<close> accepts; \<open>regex_test\<close> decides it, one character at a time, and is
  what the models of the sources call.  The two agree (\<open>regex_test_iff\<close>).
\<close>

datatype regex =
    RNone
  | REps
  | RSet "char \<Rightarrow> bool"
  | RAlt regex regex
  | RSeq regex regex
  | RStar regex
  | RUpto nat regex

definition r_char :: "char \<Rightarrow> regex" where
  "r_char c = RSet (\<lambda>x. x = c)"

primrec r_str :: "string \<Rightarrow> regex" where
  "r_str [] = REps"
| "r_str (c # s) = RSeq (r_char c) (r_str s)"

definition r_opt :: "regex \<Rightarrow> regex" where
  "r_opt r = RUpto 1 r"

definition r_plus :: "regex \<Rightarrow> regex" where
  "r_plus r = RSeq r (RStar r)"

primrec r_times :: "nat \<Rightarrow> regex \<Rightarrow> regex" where
  "r_times 0 r = REps"
| "r_times (Suc n) r = RSeq r (r_times n r)"

text \<open>\<open>r{m,n}\<close>.\<close>

definition r_range :: "nat \<Rightarrow> nat \<Rightarrow> regex \<Rightarrow> regex" where
  "r_range m n r = RSeq (r_times m r) (RUpto (n - m) r)"

section \<open>Declarative semantics\<close>

inductive matches :: "regex \<Rightarrow> string \<Rightarrow> bool" where
  eps: "matches REps []"
| set: "P c \<Longrightarrow> matches (RSet P) [c]"
| altL: "matches r s \<Longrightarrow> matches (RAlt r q) s"
| altR: "matches q s \<Longrightarrow> matches (RAlt r q) s"
| seq: "matches r s \<Longrightarrow> matches q t \<Longrightarrow> matches (RSeq r q) (s @ t)"
| starN: "matches (RStar r) []"
| starC: "matches r s \<Longrightarrow> matches (RStar r) t \<Longrightarrow> matches (RStar r) (s @ t)"
| uptoN: "matches (RUpto n r) []"
| uptoC: "matches r s \<Longrightarrow> matches (RUpto n r) t \<Longrightarrow> matches (RUpto (Suc n) r) (s @ t)"

inductive_cases matches_starE: "matches (RStar r) s"
inductive_cases matches_uptoE: "matches (RUpto n r) s"

inductive_simps matches_RNone [simp]: "matches RNone s"
inductive_simps matches_REps [simp]: "matches REps s"
inductive_simps matches_RSet [simp]: "matches (RSet P) s"
inductive_simps matches_RAlt [simp]: "matches (RAlt r q) s"
inductive_simps matches_RSeq: "matches (RSeq r q) s"

lemma matches_upto_zero [simp]: "matches (RUpto 0 r) s \<longleftrightarrow> s = []"
  by (auto elim: matches_uptoE intro: matches.intros)

lemma matches_upto_Suc_mono: "matches (RUpto n r) s \<Longrightarrow> matches (RUpto (Suc n) r) s"
proof (induction n arbitrary: s)
  case (Suc n)
  from Suc.prems show ?case
    by (rule matches_uptoE) (auto intro: matches.intros Suc.IH)
qed (auto intro: matches.intros)

lemma matches_star_Cons:
  "matches (RStar r) w \<Longrightarrow> w = c # v \<Longrightarrow>
   \<exists>s t. v = s @ t \<and> matches r (c # s) \<and> matches (RStar r) t"
proof (induction "RStar r" w arbitrary: v rule: matches.induct)
  case (starC s t)
  then show ?case by (cases s) auto
qed auto

lemma matches_upto_Cons:
  "matches (RUpto n r) (c # v) \<Longrightarrow>
   \<exists>m s t. n = Suc m \<and> v = s @ t \<and> matches r (c # s) \<and> matches (RUpto m r) t"
proof (induction n arbitrary: v)
  case (Suc n)
  from Suc.prems obtain s t where st: "c # v = s @ t" "matches r s" "matches (RUpto n r) t"
    by (auto elim: matches_uptoE)
  show ?case
  proof (cases s)
    case Nil
    then show ?thesis
      using st Suc.IH [of v] by (auto intro: matches_upto_Suc_mono)
  next
    case (Cons x s')
    then show ?thesis using st by auto
  qed
qed simp

section \<open>Deciding a match\<close>

primrec accepts_empty :: "regex \<Rightarrow> bool" where
  "accepts_empty RNone = False"
| "accepts_empty REps = True"
| "accepts_empty (RSet P) = False"
| "accepts_empty (RAlt r q) = (accepts_empty r \<or> accepts_empty q)"
| "accepts_empty (RSeq r q) = (accepts_empty r \<and> accepts_empty q)"
| "accepts_empty (RStar r) = True"
| "accepts_empty (RUpto n r) = True"

text \<open>The smart constructors keep the residual expressions small.\<close>

fun join_alt :: "regex \<Rightarrow> regex \<Rightarrow> regex" where
  "join_alt RNone q = q"
| "join_alt r RNone = r"
| "join_alt r q = RAlt r q"

fun join_seq :: "regex \<Rightarrow> regex \<Rightarrow> regex" where
  "join_seq RNone q = RNone"
| "join_seq REps q = q"
| "join_seq r q = RSeq r q"

primrec residual :: "char \<Rightarrow> regex \<Rightarrow> regex" where
  "residual c RNone = RNone"
| "residual c REps = RNone"
| "residual c (RSet P) = (if P c then REps else RNone)"
| "residual c (RAlt r q) = join_alt (residual c r) (residual c q)"
| "residual c (RSeq r q) =
     (if accepts_empty r then join_alt (join_seq (residual c r) q) (residual c q)
      else join_seq (residual c r) q)"
| "residual c (RStar r) = join_seq (residual c r) (RStar r)"
| "residual c (RUpto n r) = (if n = 0 then RNone else join_seq (residual c r) (RUpto (n - 1) r))"

primrec regex_test :: "regex \<Rightarrow> string \<Rightarrow> bool" where
  "regex_test r [] = accepts_empty r"
| "regex_test r (c # s) = regex_test (residual c r) s"

lemma accepts_empty_iff: "accepts_empty r \<longleftrightarrow> matches r []"
  by (induction r) (auto simp: matches_RSeq intro: matches.intros)

lemma matches_join_alt [simp]: "matches (join_alt r q) s \<longleftrightarrow> matches r s \<or> matches q s"
  by (induction r q rule: join_alt.induct) auto

lemma matches_join_seq [simp]: "matches (join_seq r q) s \<longleftrightarrow> matches (RSeq r q) s"
  by (induction r q rule: join_seq.induct) (auto simp: matches_RSeq)

lemma matches_seq_Cons:
  "matches (RSeq r q) (c # s) \<longleftrightarrow>
     (\<exists>u v. s = u @ v \<and> matches r (c # u) \<and> matches q v) \<or> (matches r [] \<and> matches q (c # s))"
proof
  assume "matches (RSeq r q) (c # s)"
  then obtain u v where "c # s = u @ v" "matches r u" "matches q v"
    by (auto simp: matches_RSeq)
  then show "(\<exists>u v. s = u @ v \<and> matches r (c # u) \<and> matches q v) \<or> (matches r [] \<and> matches q (c # s))"
    by (cases u) auto
next
  assume "(\<exists>u v. s = u @ v \<and> matches r (c # u) \<and> matches q v) \<or> (matches r [] \<and> matches q (c # s))"
  then show "matches (RSeq r q) (c # s)"
    by (metis append_Cons append_Nil seq)
qed

theorem matches_residual: "matches (residual c r) s \<longleftrightarrow> matches r (c # s)"
proof (induction r arbitrary: s)
  case (RSeq r q)
  then show ?case by (auto simp: accepts_empty_iff matches_seq_Cons) (auto simp: matches_RSeq)
next
  case (RStar r)
  show ?case
  proof
    assume "matches (residual c (RStar r)) s"
    then obtain u v where "s = u @ v" "matches r (c # u)" "matches (RStar r) v"
      by (auto simp: matches_RSeq RStar.IH)
    then show "matches (RStar r) (c # s)"
      using starC [of r "c # u" v] by simp
  next
    assume "matches (RStar r) (c # s)"
    then show "matches (residual c (RStar r)) s"
      by (auto simp: matches_RSeq RStar.IH dest: matches_star_Cons)
  qed
next
  case (RUpto n r)
  show ?case
  proof
    assume a: "matches (residual c (RUpto n r)) s"
    then obtain m u v where "n = Suc m" "s = u @ v" "matches r (c # u)" "matches (RUpto m r) v"
      by (cases n) (auto simp: matches_RSeq RUpto.IH)
    then show "matches (RUpto n r) (c # s)"
      using uptoC [of r "c # u" m v] by simp
  next
    assume "matches (RUpto n r) (c # s)"
    then obtain m u v where "n = Suc m" "s = u @ v" "matches r (c # u)" "matches (RUpto m r) v"
      using matches_upto_Cons by blast
    then show "matches (residual c (RUpto n r)) s"
      using seq [of "residual c r" u "RUpto m r" v] by (simp add: RUpto.IH)
  qed
qed auto

theorem regex_test_iff: "regex_test r s \<longleftrightarrow> matches r s"
  by (induction s arbitrary: r) (simp_all add: accepts_empty_iff matches_residual)

section \<open>What the derived forms match\<close>

lemma matches_char [simp]: "matches (r_char c) s \<longleftrightarrow> s = [c]"
  by (auto simp: r_char_def)

lemma matches_str [simp]: "matches (r_str p) s \<longleftrightarrow> s = p"
  by (induction p arbitrary: s) (auto simp: matches_RSeq)

declare r_str.simps [simp del]

lemma matches_opt: "matches (r_opt r) s \<longleftrightarrow> s = [] \<or> matches r s"
proof
  assume "matches (r_opt r) s"
  then show "s = [] \<or> matches r s"
    unfolding r_opt_def by (rule matches_uptoE) auto
next
  assume "s = [] \<or> matches r s"
  then show "matches (r_opt r) s"
    unfolding r_opt_def using uptoC [of r s 0 "[]"] by (auto intro: uptoN)
qed

lemma matches_seq_set: "matches (RSeq (RSet P) q) s \<longleftrightarrow> (\<exists>c t. s = c # t \<and> P c \<and> matches q t)"
  by (cases s) (auto simp: matches_seq_Cons, simp add: matches_RSeq)

lemma matches_seq_char: "matches (RSeq (r_char c) q) s \<longleftrightarrow> (\<exists>t. s = c # t \<and> matches q t)"
  by (auto simp: r_char_def matches_seq_set)

lemma matches_star_set: "matches (RStar (RSet P)) s \<longleftrightarrow> list_all P s"
proof
  show "matches (RStar (RSet P)) s \<Longrightarrow> list_all P s"
    by (induction "RStar (RSet P)" s rule: matches.induct) auto
  show "list_all P s \<Longrightarrow> matches (RStar (RSet P)) s"
    by (induction s) (auto intro: starN starC [where s = "[c]" for c, simplified])
qed

lemma matches_upto_set: "matches (RUpto n (RSet P)) s \<longleftrightarrow> list_all P s \<and> length s \<le> n"
proof (induction n arbitrary: s)
  case (Suc n)
  show ?case
  proof
    assume "matches (RUpto (Suc n) (RSet P)) s"
    then show "list_all P s \<and> length s \<le> Suc n"
      by (rule matches_uptoE) (auto simp: Suc.IH)
  next
    assume "list_all P s \<and> length s \<le> Suc n"
    then show "matches (RUpto (Suc n) (RSet P)) s"
      by (cases s) (auto simp: Suc.IH intro: uptoN uptoC [where s = "[c]" for c, simplified])
  qed
qed auto

lemma matches_times_set: "matches (r_times n (RSet P)) s \<longleftrightarrow> list_all P s \<and> length s = n"
proof (induction n arbitrary: s)
  case (Suc n)
  show ?case
    by (cases s) (auto simp: matches_seq_Cons Suc.IH, simp add: matches_RSeq)
qed auto

lemma matches_range_set:
  "m \<le> n \<Longrightarrow> matches (r_range m n (RSet P)) s \<longleftrightarrow> list_all P s \<and> m \<le> length s \<and> length s \<le> n"
proof
  assume "m \<le> n" "matches (r_range m n (RSet P)) s"
  then show "list_all P s \<and> m \<le> length s \<and> length s \<le> n"
    by (auto simp: r_range_def matches_RSeq matches_times_set matches_upto_set)
next
  assume a: "m \<le> n" "list_all P s \<and> m \<le> length s \<and> length s \<le> n"
  then have "list_all P (take m s)" "list_all P (drop m s)"
    by (auto simp: list_all_iff dest: in_set_takeD in_set_dropD)
  then have "matches (r_times m (RSet P)) (take m s)" "matches (RUpto (n - m) (RSet P)) (drop m s)"
    using a by (auto simp: matches_times_set matches_upto_set)
  then show "matches (r_range m n (RSet P)) s"
    unfolding r_range_def using seq by fastforce
qed

text \<open>\<open>(r)+\<close> is a non-empty sequence of matches of \<open>r\<close>.\<close>

lemma matches_star_concat:
  "matches (RStar r) s \<longleftrightarrow> (\<exists>ps. s = concat ps \<and> list_all (matches r) ps)"
proof
  show "matches (RStar r) s \<Longrightarrow> \<exists>ps. s = concat ps \<and> list_all (matches r) ps"
  proof (induction "RStar r" s rule: matches.induct)
    case starN
    then show ?case by (intro exI [of _ "[]"]) simp
  next
    case (starC s t)
    then obtain ps where "t = concat ps" "list_all (matches r) ps" by auto
    with starC show ?case by (intro exI [of _ "s # ps"]) simp
  qed
  show "\<exists>ps. s = concat ps \<and> list_all (matches r) ps \<Longrightarrow> matches (RStar r) s"
  proof (elim exE conjE)
    fix ps assume "s = concat ps" "list_all (matches r) ps"
    then show "matches (RStar r) s"
      by (induction ps arbitrary: s) (auto intro: starN starC)
  qed
qed

lemma matches_plus_concat:
  "matches (r_plus r) s \<longleftrightarrow> (\<exists>ps. ps \<noteq> [] \<and> s = concat ps \<and> list_all (matches r) ps)"
proof
  assume "matches (r_plus r) s"
  then obtain u ps where "s = u @ concat ps" "matches r u" "list_all (matches r) ps"
    by (auto simp: r_plus_def matches_RSeq matches_star_concat)
  then show "\<exists>ps. ps \<noteq> [] \<and> s = concat ps \<and> list_all (matches r) ps"
    by (intro exI [of _ "u # ps"]) simp
next
  assume "\<exists>ps. ps \<noteq> [] \<and> s = concat ps \<and> list_all (matches r) ps"
  then obtain p ps where "s = p @ concat ps" "matches r p" "list_all (matches r) ps"
    by (auto simp: neq_Nil_conv)
  then show "matches (r_plus r) s"
    unfolding r_plus_def using seq matches_star_concat by blast
qed

end
