(* ===== verification/Rule_Values.thy ===== *)
theory Rule_Values
  imports Regex
begin

text \<open>
  Rule values: \<open>shared/src/rules-validation.ts\<close>, the one implementation the API and the web
  client share.  A rule value is cleaned and then validated by the type of the rule; the
  regular expressions are written as in the source.  The lemmas relate the validators to a
  specification of well-formed host names over the labels of the name.
\<close>

section \<open>Types\<close>

datatype rule_type = Whitelist | Blocked_subdomain | Blocked_path | Allowed_path

datatype rule_validation_code =
    EMPTY
  | DOMAIN_TOO_SHORT | DOMAIN_TOO_LONG | DOMAIN_CONSECUTIVE_DOTS
  | DOMAIN_INVALID_FORMAT | DOMAIN_LABEL_TOO_LONG
  | SUBDOMAIN_TOO_SHORT | SUBDOMAIN_TOO_LONG | SUBDOMAIN_CONSECUTIVE_DOTS
  | SUBDOMAIN_INVALID_FORMAT | SUBDOMAIN_LABEL_TOO_LONG
  | PATH_MISSING_SLASH | PATH_INVALID_DOMAIN | PATH_EMPTY | PATH_INVALID_CHARS

record rule_validation_details =
  domainCode :: "rule_validation_code option"
  domainError :: "string option"

record rule_validation_result =
  rv_valid :: bool
  rv_code :: "rule_validation_code option"
  rv_error :: "string option"
  rv_details :: "rule_validation_details option"

definition rv_ok :: rule_validation_result where
  "rv_ok = \<lparr>rv_valid = True, rv_code = None, rv_error = None, rv_details = None\<rparr>"

definition rv_fail :: "rule_validation_code \<Rightarrow> string \<Rightarrow> rule_validation_result" where
  "rv_fail c e = \<lparr>rv_valid = False, rv_code = Some c, rv_error = Some e, rv_details = None\<rparr>"

lemma rv_simps [simp]:
  "rv_valid rv_ok" "\<not> rv_valid (rv_fail c e)" "rv_code rv_ok = None" "rv_code (rv_fail c e) = Some c"
  "rv_error (rv_fail c e) = Some e"
  by (simp_all add: rv_ok_def rv_fail_def)

section \<open>Patterns\<close>

definition ldh_char :: "char \<Rightarrow> bool" where
  "ldh_char c \<longleftrightarrow> alnum_char c \<or> c = CHR ''-''"

definition LABEL_REGEX :: regex where
  "LABEL_REGEX = RSeq (RSet alnum_char) (r_opt (RSeq (RUpto 61 (RSet ldh_char)) (RSet alnum_char)))"

definition DOMAIN_REGEX :: regex where
  "DOMAIN_REGEX = RSeq (r_plus (RSeq LABEL_REGEX (r_char CHR ''.''))) (r_range 2 63 (RSet alpha_char))"

definition SUBDOMAIN_REGEX :: regex where
  "SUBDOMAIN_REGEX = RSeq (r_opt (r_str ''*.''))
     (RSeq (r_plus (RSeq LABEL_REGEX (r_char CHR ''.''))) (r_range 2 63 (RSet alpha_char)))"

definition PATH_SEGMENT_REGEX :: regex where
  "PATH_SEGMENT_REGEX = r_plus (RSet (\<lambda>c. \<not> js_space c))"

section \<open>Cleaning and validating\<close>

definition cleanRuleValue :: "string \<Rightarrow> bool \<Rightarrow> string" where
  "cleanRuleValue value preservePath =
     (let cleaned = to_lower (js_trim value);
          cleaned = (if starts_with cleaned ''https://'' then drop 8 cleaned
                     else if starts_with cleaned ''http://'' then drop 7 cleaned
                     else cleaned);
          cleaned = strip_prefix ''*://'' cleaned
      in if \<not> preservePath then strip_suffix ''/'' cleaned else cleaned)"

definition validateDomain :: "string \<Rightarrow> rule_validation_result" where
  "validateDomain domain =
     (if length domain < 4 then rv_fail DOMAIN_TOO_SHORT ''Domain too short (minimum 4 characters)''
      else if length domain > 253 then
        rv_fail DOMAIN_TOO_LONG ''Domain exceeds maximum length of 253 characters''
      else if includes_str domain ''..'' then
        rv_fail DOMAIN_CONSECUTIVE_DOTS ''Domain cannot contain consecutive dots (..)''
      else if \<not> regex_test DOMAIN_REGEX domain then
        rv_fail DOMAIN_INVALID_FORMAT ''Invalid domain format. Example: example.com''
      else if list_ex (\<lambda>label. length label > 63) (split_on CHR ''.'' domain) then
        rv_fail DOMAIN_LABEL_TOO_LONG ''Each domain label must be 63 characters or less''
      else rv_ok)"

definition validateSubdomain :: "string \<Rightarrow> rule_validation_result" where
  "validateSubdomain value =
     (if length value < 4 then
        rv_fail SUBDOMAIN_TOO_SHORT ''Subdomain too short (minimum 4 characters)''
      else if length value > 253 then
        rv_fail SUBDOMAIN_TOO_LONG ''Subdomain exceeds maximum length of 253 characters''
      else if includes_str value ''..'' then
        rv_fail SUBDOMAIN_CONSECUTIVE_DOTS ''Subdomain cannot contain consecutive dots (..)''
      else if \<not> regex_test SUBDOMAIN_REGEX value then
        rv_fail SUBDOMAIN_INVALID_FORMAT
          ''Invalid subdomain format. Example: sub.example.com or *.example.com''
      else if list_ex (\<lambda>label. length label > 63)
                (split_on CHR ''.'' (strip_prefix ''*.'' value)) then
        rv_fail SUBDOMAIN_LABEL_TOO_LONG ''Each subdomain label must be 63 characters or less''
      else rv_ok)"

definition invalid_path_domain :: "rule_validation_result \<Rightarrow> rule_validation_result" where
  "invalid_path_domain domainResult =
     \<lparr>rv_valid = False, rv_code = Some PATH_INVALID_DOMAIN,
      rv_error = Some (''Invalid domain in path: '' @
                       (case rv_error domainResult of Some e \<Rightarrow> e | None \<Rightarrow> [])),
      rv_details = Some \<lparr>domainCode = rv_code domainResult, domainError = rv_error domainResult\<rparr>\<rparr>"

definition validatePath :: "string \<Rightarrow> rule_validation_result" where
  "validatePath value =
     (if CHR ''/'' \<notin> set value then
        rv_fail PATH_MISSING_SLASH ''Path must contain a slash (/). Example: example.com/path''
      else
        let domainPart = before_first CHR ''/'' value;
            pathPart = after_first CHR ''/'' value;
            domainResult = validateDomain domainPart
        in if domainPart \<noteq> ''*'' \<and> \<not> rv_valid domainResult then invalid_path_domain domainResult
           else if pathPart = [] then rv_fail PATH_EMPTY ''Path after domain cannot be empty''
           else if \<not> regex_test PATH_SEGMENT_REGEX pathPart then
             rv_fail PATH_INVALID_CHARS ''Path contains invalid characters (whitespace)''
           else rv_ok)"

definition validateAllowedPath :: "string \<Rightarrow> rule_validation_result" where
  "validateAllowedPath value =
     (if CHR ''/'' \<notin> set value then
        rv_fail PATH_MISSING_SLASH ''Path must contain a slash (/). Example: example.com/path''
      else
        let domainPart = before_first CHR ''/'' value;
            pathPart = after_first CHR ''/'' value;
            domainResult = validateDomain domainPart
        in if \<not> rv_valid domainResult then invalid_path_domain domainResult
           else if pathPart = [] then rv_fail PATH_EMPTY ''Path after domain cannot be empty''
           else if \<not> regex_test PATH_SEGMENT_REGEX pathPart then
             rv_fail PATH_INVALID_CHARS ''Path contains invalid characters (whitespace)''
           else rv_ok)"

definition preserves_path :: "rule_type \<Rightarrow> bool" where
  "preserves_path type \<longleftrightarrow> type = Blocked_path \<or> type = Allowed_path"

definition validateRuleValue :: "string \<Rightarrow> rule_type \<Rightarrow> rule_validation_result" where
  "validateRuleValue value type =
     (let cleaned = cleanRuleValue value (preserves_path type)
      in if cleaned = [] then rv_fail EMPTY ''Value cannot be empty''
         else case type of
             Whitelist \<Rightarrow> validateDomain cleaned
           | Blocked_subdomain \<Rightarrow> validateSubdomain cleaned
           | Blocked_path \<Rightarrow> validatePath cleaned
           | Allowed_path \<Rightarrow> validateAllowedPath cleaned)"

section \<open>Well-formed host names\<close>

text \<open>The specification the validators are measured against.\<close>

definition domain_label :: "string \<Rightarrow> bool" where
  "domain_label l \<longleftrightarrow>
     l \<noteq> [] \<and> length l \<le> 63 \<and> list_all ldh_char l \<and> alnum_char (hd l) \<and> alnum_char (last l)"

definition top_label :: "string \<Rightarrow> bool" where
  "top_label l \<longleftrightarrow> 2 \<le> length l \<and> length l \<le> 63 \<and> list_all alpha_char l"

definition host_name :: "string \<Rightarrow> bool" where
  "host_name d \<longleftrightarrow>
     (let ls = split_on CHR ''.'' d
      in 2 \<le> length ls \<and> list_all domain_label (butlast ls) \<and> top_label (last ls))"

lemma matches_label: "matches LABEL_REGEX l \<longleftrightarrow> domain_label l"
proof
  assume "matches LABEL_REGEX l"
  then show "domain_label l"
    by (auto simp: LABEL_REGEX_def matches_RSeq matches_opt matches_upto_set domain_label_def ldh_char_def)
next
  assume l: "domain_label l"
  then obtain c t where ct: "l = c # t" by (cases l) (auto simp: domain_label_def)
  show "matches LABEL_REGEX l"
  proof (cases t rule: rev_cases)
    case Nil
    then show ?thesis using l ct
      by (auto simp: LABEL_REGEX_def matches_seq_Cons matches_opt domain_label_def)
  next
    case (snoc m d)
    then have "matches (RSeq (RUpto 61 (RSet ldh_char)) (RSet alnum_char)) (m @ [d])"
      using l ct by (intro seq) (auto simp: domain_label_def matches_upto_set)
    then show ?thesis using l ct snoc
      by (auto simp: LABEL_REGEX_def matches_seq_Cons matches_opt domain_label_def)
  qed
qed

lemma ldh_not_dot: "ldh_char c \<Longrightarrow> c \<noteq> CHR ''.''"
  by (auto simp: ldh_char_def alnum_char_def alpha_char_def digit_char_def)

lemma ldh_not_space: "ldh_char c \<Longrightarrow> \<not> js_space c"
  by (auto simp: ldh_char_def alnum_char_def alpha_char_def digit_char_def js_space_def Let_def)

lemma alpha_ldh: "alpha_char c \<Longrightarrow> ldh_char c"
  by (simp add: ldh_char_def alnum_char_def)

lemma domain_label_no_dot: "domain_label l \<Longrightarrow> CHR ''.'' \<notin> set l"
  using ldh_not_dot by (fastforce simp: domain_label_def list_all_iff)

lemma top_label_no_dot: "top_label l \<Longrightarrow> CHR ''.'' \<notin> set l"
  using alpha_ldh ldh_not_dot by (fastforce simp: top_label_def list_all_iff)

lemma concat_dotted: "concat (map (\<lambda>l. l @ ''.'') ls) @ t = join_with ''.'' (ls @ [t])"
  by (induction ls) (simp_all add: join_with_Cons)

lemma matches_label_dot:
  "matches (RSeq LABEL_REGEX (r_char CHR ''.'')) p \<longleftrightarrow> (\<exists>l. p = l @ ''.'' \<and> domain_label l)"
  by (auto simp: matches_RSeq matches_label)

lemma matches_dotted:
  "list_all (matches (RSeq LABEL_REGEX (r_char CHR ''.''))) ps \<longleftrightarrow>
     (\<exists>ls. ps = map (\<lambda>l. l @ ''.'') ls \<and> list_all domain_label ls)"
proof
  assume "list_all (matches (RSeq LABEL_REGEX (r_char CHR ''.''))) ps"
  then have "map (\<lambda>p. butlast p @ ''.'') ps = ps" "list_all domain_label (map butlast ps)"
    by (auto simp: list_all_iff matches_label_dot intro!: map_idI)
  then have "ps = map (\<lambda>l. l @ ''.'') (map butlast ps)" "list_all domain_label (map butlast ps)"
    by (simp_all add: comp_def)
  then show "\<exists>ls. ps = map (\<lambda>l. l @ ''.'') ls \<and> list_all domain_label ls" by blast
qed (auto simp: list_all_iff matches_label_dot)

lemma matches_domain_regex: "matches DOMAIN_REGEX d \<longleftrightarrow> host_name d"
proof
  assume "matches DOMAIN_REGEX d"
  then obtain ls t where d: "d = concat (map (\<lambda>l. l @ ''.'') ls) @ t"
    and ls: "ls \<noteq> []" "list_all domain_label ls" and t: "top_label t"
    by (auto simp: DOMAIN_REGEX_def matches_RSeq matches_plus_concat matches_dotted
        matches_range_set top_label_def)
  have "split_on CHR ''.'' d = ls @ [t]"
    unfolding d concat_dotted
    by (rule split_on_join)
      (use ls t domain_label_no_dot top_label_no_dot in \<open>auto simp: list_all_iff\<close>)
  then show "host_name d"
    using ls t by (cases ls) (simp_all add: host_name_def Let_def butlast_append)
next
  assume h: "host_name d"
  define ls where "ls = butlast (split_on CHR ''.'' d)"
  define t where "t = last (split_on CHR ''.'' d)"
  have sp: "split_on CHR ''.'' d = ls @ [t]"
    by (simp add: ls_def t_def)
  have d: "d = concat (map (\<lambda>l. l @ ''.'') ls) @ t"
    unfolding concat_dotted sp [symmetric] by (simp add: join_split_on)
  have "ls \<noteq> []" "list_all domain_label ls" "top_label t"
    using h sp by (auto simp: host_name_def Let_def)
  then have "matches (r_plus (RSeq LABEL_REGEX (r_char CHR ''.''))) (concat (map (\<lambda>l. l @ ''.'') ls))"
    "matches (r_range 2 63 (RSet alpha_char)) t"
    unfolding matches_plus_concat matches_dotted by (auto simp: matches_range_set top_label_def)
  then show "matches DOMAIN_REGEX d"
    unfolding d DOMAIN_REGEX_def by (rule seq)
qed

lemma matches_subdomain_regex:
  "matches SUBDOMAIN_REGEX v \<longleftrightarrow> host_name v \<or> (\<exists>d. v = ''*.'' @ d \<and> host_name d)"
proof -
  have "matches SUBDOMAIN_REGEX v \<longleftrightarrow> (\<exists>s t. v = s @ t \<and> (s = [] \<or> s = ''*.'') \<and> host_name t)"
    unfolding SUBDOMAIN_REGEX_def DOMAIN_REGEX_def [symmetric]
    by (simp add: matches_RSeq matches_opt matches_domain_regex)
  then show ?thesis by (metis append_Nil)
qed

lemma matches_path_segment: "matches PATH_SEGMENT_REGEX p \<longleftrightarrow> p \<noteq> [] \<and> list_all (\<lambda>c. \<not> js_space c) p"
proof (cases p)
  case (Cons c q)
  then show ?thesis
    by (auto simp: PATH_SEGMENT_REGEX_def r_plus_def matches_seq_Cons matches_star_set)
qed (auto simp: PATH_SEGMENT_REGEX_def r_plus_def matches_RSeq)


section \<open>The validators decide the specification\<close>

lemma host_name_labels:
  "host_name d \<Longrightarrow> l \<in> set (split_on CHR ''.'' d) \<Longrightarrow>
   l \<noteq> [] \<and> length l \<le> 63 \<and> list_all ldh_char l"
proof -
  assume h: "host_name d" and l: "l \<in> set (split_on CHR ''.'' d)"
  from l have "l \<in> set (butlast (split_on CHR ''.'' d)) \<or> l = last (split_on CHR ''.'' d)"
    by (cases "split_on CHR ''.'' d" rule: rev_cases) auto
  with h have "domain_label l \<or> top_label l"
    by (auto simp: host_name_def Let_def list_all_iff)
  then show ?thesis
    using alpha_ldh by (auto simp: domain_label_def top_label_def list_all_iff)
qed

lemma host_name_labels_short:
  "host_name d \<Longrightarrow> list_ex (\<lambda>label. length label > 63) (split_on CHR ''.'' d) = False"
  using host_name_labels by (auto simp: list_ex_iff not_less)

lemma host_name_chars: "host_name d \<Longrightarrow> c \<in> set d \<Longrightarrow> ldh_char c \<or> c = CHR ''.''"
proof -
  assume h: "host_name d" and c: "c \<in> set d"
  have "set d \<subseteq> \<Union> (set ` set (split_on CHR ''.'' d)) \<union> set ''.''"
    using set_join_with [of "''.''" "split_on CHR ''.'' d"] by (simp only: join_split_on)
  with c show ?thesis
    using host_name_labels [OF h] by (auto simp: list_all_iff)
qed

lemma host_name_length: "host_name d \<Longrightarrow> 4 \<le> length d"
proof -
  assume h: "host_name d"
  define ls where "ls = split_on CHR ''.'' d"
  have ls: "2 \<le> length ls" "2 \<le> length (last ls)" "\<And>l. l \<in> set ls \<Longrightarrow> l \<noteq> []"
    using h host_name_labels [OF h] by (auto simp: host_name_def ls_def Let_def top_label_def)
  then have "ls = butlast ls @ [last ls]" "butlast ls \<noteq> []"
    by (cases ls; auto)+
  then obtain x xs where x: "ls = x # xs @ [last ls]"
    by (metis append_Cons neq_Nil_conv)
  then have "x \<noteq> []" using ls(3) [of x] by (metis list.set_intros(1))
  then have "1 \<le> length x" by (cases x) auto
  moreover have "length d = sum_list (map length ls) + (length ls - 1)"
    unfolding ls_def by (metis join_split_on length_join_with)
  moreover have "sum_list (map length ls) = length x + sum_list (map length xs) + length (last ls)"
    by (subst x) simp
  ultimately show ?thesis using ls by linarith
qed

lemma host_name_no_dots: "host_name d \<Longrightarrow> \<not> includes_str d ''..''"
  using split_on_empty_part host_name_labels by blast

lemma validateDomain_valid: "rv_valid (validateDomain d) \<longleftrightarrow> host_name d \<and> length d \<le> 253"
proof (cases "host_name d")
  case True
  then show ?thesis
    using host_name_length host_name_no_dots host_name_labels_short
    by (auto simp: validateDomain_def regex_test_iff matches_domain_regex not_less)
qed (auto simp: validateDomain_def regex_test_iff matches_domain_regex)

lemma star_host_dots: "host_name d \<Longrightarrow> \<not> includes_str (''*.'' @ d) ''..''"
proof
  assume h: "host_name d" and "includes_str (''*.'' @ d) ''..''"
  then have "[] \<in> set (split_on CHR ''.'' (''*.'' @ d))"
    using split_on_empty_part by blast
  then show False using host_name_labels [OF h] by auto
qed

lemma not_host_star: "\<not> host_name (CHR ''*'' # d)"
proof
  assume "host_name (CHR ''*'' # d)"
  then have "ldh_char CHR ''*'' \<or> CHR ''*'' = CHR ''.''"
    by (rule host_name_chars) simp
  then show False
    by (auto simp: ldh_char_def alnum_char_def alpha_char_def digit_char_def)
qed

lemma validateSubdomain_valid:
  "rv_valid (validateSubdomain v) \<longleftrightarrow>
     length v \<le> 253 \<and> (host_name v \<or> (\<exists>d. v = ''*.'' @ d \<and> host_name d))"
proof (cases "host_name v \<or> (\<exists>d. v = ''*.'' @ d \<and> host_name d)")
  case True
  then have "4 \<le> length v" "\<not> includes_str v ''..''"
    using host_name_length host_name_no_dots star_host_dots by fastforce+
  moreover have "host_name (strip_prefix ''*.'' v)"
    using True not_host_star by (auto simp: strip_prefix_def prefix_def)
  note host_name_labels_short [OF this]
  ultimately show ?thesis
    using True by (simp add: validateSubdomain_def regex_test_iff matches_subdomain_regex not_less)
next
  case False
  then show ?thesis
    by (simp add: validateSubdomain_def regex_test_iff matches_subdomain_regex)
qed

lemma invalid_path_domain_simps [simp]:
  "\<not> rv_valid (invalid_path_domain r)" "rv_code (invalid_path_domain r) = Some PATH_INVALID_DOMAIN"
  by (simp_all add: invalid_path_domain_def)

definition path_rule :: "(string \<Rightarrow> bool) \<Rightarrow> string \<Rightarrow> bool" where
  "path_rule host v \<longleftrightarrow>
     (\<exists>d p. v = d @ ''/'' @ p \<and> CHR ''/'' \<notin> set d \<and> host d \<and> p \<noteq> [] \<and> list_all (\<lambda>c. \<not> js_space c) p)"

lemma path_rule_alt:
  "path_rule host v \<longleftrightarrow> CHR ''/'' \<in> set v \<and> host (before_first CHR ''/'' v) \<and>
     after_first CHR ''/'' v \<noteq> [] \<and> list_all (\<lambda>c. \<not> js_space c) (after_first CHR ''/'' v)"
proof
  assume "path_rule host v"
  then show "CHR ''/'' \<in> set v \<and> host (before_first CHR ''/'' v) \<and>
     after_first CHR ''/'' v \<noteq> [] \<and> list_all (\<lambda>c. \<not> js_space c) (after_first CHR ''/'' v)"
    by (auto simp: path_rule_def before_first_append after_first_append)
next
  assume a: "CHR ''/'' \<in> set v \<and> host (before_first CHR ''/'' v) \<and>
     after_first CHR ''/'' v \<noteq> [] \<and> list_all (\<lambda>c. \<not> js_space c) (after_first CHR ''/'' v)"
  then have "v = before_first CHR ''/'' v @ ''/'' @ after_first CHR ''/'' v"
    using before_after_first by fastforce
  with a show "path_rule host v"
    unfolding path_rule_def using before_first_no_sep by blast
qed

lemma validatePath_valid:
  "rv_valid (validatePath v) \<longleftrightarrow> path_rule (\<lambda>d. d = ''*'' \<or> rv_valid (validateDomain d)) v"
  by (auto simp: validatePath_def path_rule_alt Let_def regex_test_iff matches_path_segment)

lemma validateAllowedPath_valid:
  "rv_valid (validateAllowedPath v) \<longleftrightarrow> path_rule (\<lambda>d. rv_valid (validateDomain d)) v"
  by (auto simp: validateAllowedPath_def path_rule_alt Let_def regex_test_iff matches_path_segment)

section \<open>Canonical rule values\<close>

lemma to_lower_drop: "to_lower (drop n s) = drop n (to_lower s)"
  by (simp add: to_lower_def drop_map)

lemma to_lower_take: "to_lower (take n s) = take n (to_lower s)"
  by (simp add: to_lower_def take_map)

lemma to_lower_strip [simp]:
  "to_lower s = s \<Longrightarrow> to_lower (strip_prefix p s) = strip_prefix p s"
  "to_lower s = s \<Longrightarrow> to_lower (strip_suffix p s) = strip_suffix p s"
  by (simp_all add: strip_prefix_def strip_suffix_def to_lower_drop to_lower_take)

lemma cleanRuleValue_lower: "to_lower (cleanRuleValue v p) = cleanRuleValue v p"
  by (simp add: cleanRuleValue_def Let_def to_lower_drop)

text \<open>When cleaning changes nothing.\<close>

lemma cleanRuleValue_fixed:
  assumes "to_lower w = w" "js_trim w = w"
    and "\<not> starts_with w ''https://''" "\<not> starts_with w ''http://''" "\<not> starts_with w ''*://''"
    and "preserve \<or> \<not> ends_with w ''/''"
  shows "cleanRuleValue w preserve = w"
  using assms
  by (auto simp: cleanRuleValue_def Let_def strip_prefix_def strip_suffix_def starts_with_def ends_with_def)

definition plain_char :: "char \<Rightarrow> bool" where
  "plain_char c \<longleftrightarrow> \<not> js_space c \<and> c \<noteq> CHR '':'' \<and> c \<noteq> CHR ''/''"

lemma ldh_plain: "ldh_char c \<Longrightarrow> plain_char c"
  by (auto simp: plain_char_def ldh_not_space)
    (auto simp: ldh_char_def alnum_char_def alpha_char_def digit_char_def)

lemma plain_punct [simp]: "plain_char CHR ''.''" "plain_char CHR ''*''"
  by (simp_all add: plain_char_def js_space_def)

lemma host_name_plain: "host_name d \<Longrightarrow> list_all plain_char d"
  using host_name_chars ldh_plain by (fastforce simp: list_all_iff)

lemma plain_not_scheme:
  "list_all plain_char s \<Longrightarrow> \<not> prefix (p @ CHR '':'' # q) s"
  by (auto simp: prefix_def plain_char_def)

lemma cleanRuleValue_plain:
  "list_all plain_char w \<Longrightarrow> to_lower w = w \<Longrightarrow> cleanRuleValue w preserve = w"
proof (rule cleanRuleValue_fixed)
  assume w: "list_all plain_char w"
  show "js_trim w = w"
    using w by (intro js_trim_no_space) (auto simp: list_all_iff plain_char_def)
  show "\<not> starts_with w ''https://''" "\<not> starts_with w ''http://''" "\<not> starts_with w ''*://''"
    using plain_not_scheme [OF w, of "''https''"] plain_not_scheme [OF w, of "''http''"]
      plain_not_scheme [OF w, of "''*''"]
    by (simp_all add: starts_with_def)
  show "preserve \<or> \<not> ends_with w ''/''"
    using w by (auto simp: ends_with_def suffix_def plain_char_def)
qed

lemma cleanRuleValue_path:
  assumes "path_rule host w" "\<And>d. host d \<Longrightarrow> d \<noteq> [] \<and> list_all plain_char d" "to_lower w = w"
  shows "cleanRuleValue w True = w"
proof (rule cleanRuleValue_fixed)
  obtain d p where w: "w = d @ ''/'' @ p" and d: "d \<noteq> []" "list_all plain_char d"
    and p: "p \<noteq> []" "list_all (\<lambda>c. \<not> js_space c) p"
    using assms by (auto simp: path_rule_def)
  show "js_trim w = w"
    using d p by (intro js_trim_id) (auto simp: w list_all_iff plain_char_def)
  have no: "\<not> starts_with w (s @ CHR '':'' # ''//'')" if "CHR ''/'' \<notin> set s" for s
  proof
    assume "starts_with w (s @ CHR '':'' # ''//'')"
    then obtain r where r: "w = (s @ '':'') @ CHR ''/'' # CHR ''/'' # r"
      by (auto simp: starts_with_def prefix_def)
    have "CHR ''/'' \<notin> set d" using d by (auto simp: list_all_iff plain_char_def)
    then have "before_first CHR ''/'' w = d" by (simp add: w before_first_append)
    moreover have "before_first CHR ''/'' w = s @ '':''"
      using that unfolding r by (intro before_first_append) simp
    ultimately show False using d by (auto simp: plain_char_def)
  qed
  show "\<not> starts_with w ''https://''" "\<not> starts_with w ''http://''" "\<not> starts_with w ''*://''"
    using no [of "''https''"] no [of "''http''"] no [of "''*''"] by simp_all
qed (use assms in simp_all)

lemma host_name_not_Nil: "host_name d \<Longrightarrow> d \<noteq> []"
  using host_name_length by fastforce

lemma validateRuleValue_valid_alt:
  "rv_valid (validateRuleValue v t) \<longleftrightarrow>
     (let c = cleanRuleValue v (preserves_path t) in
      case t of
        Whitelist \<Rightarrow> rv_valid (validateDomain c)
      | Blocked_subdomain \<Rightarrow> rv_valid (validateSubdomain c)
      | Blocked_path \<Rightarrow> rv_valid (validatePath c)
      | Allowed_path \<Rightarrow> rv_valid (validateAllowedPath c))"
  by (cases t)
    (simp_all add: validateRuleValue_def Let_def validateDomain_def validateSubdomain_def
      validatePath_def validateAllowedPath_def)

lemma cleanRuleValue_valid_idem:
  assumes "rv_valid (validateRuleValue v t)"
  shows "cleanRuleValue (cleanRuleValue v (preserves_path t)) (preserves_path t) =
         cleanRuleValue v (preserves_path t)"
proof -
  let ?c = "cleanRuleValue v (preserves_path t)"
  have low: "to_lower ?c = ?c" by (rule cleanRuleValue_lower)
  have host: "d \<noteq> [] \<and> list_all plain_char d" if "d = ''*'' \<or> rv_valid (validateDomain d)" for d
    using that host_name_plain host_name_not_Nil by (auto simp: validateDomain_valid)
  show ?thesis
  proof (cases t)
    case Whitelist
    then show ?thesis
      using assms low by (intro cleanRuleValue_plain)
        (auto simp: validateRuleValue_valid_alt validateDomain_valid Let_def intro: host_name_plain)
  next
    case Blocked_subdomain
    then show ?thesis
      using assms low by (intro cleanRuleValue_plain)
        (auto simp: validateRuleValue_valid_alt validateSubdomain_valid Let_def dest: host_name_plain)
  next
    case Blocked_path
    then show ?thesis
      using assms low cleanRuleValue_path [OF _ host]
      by (simp add: validateRuleValue_valid_alt validatePath_valid preserves_path_def Let_def)
  next
    case Allowed_path
    then show ?thesis
      using assms low host cleanRuleValue_path [of "\<lambda>d. rv_valid (validateDomain d)"]
      by (simp add: validateRuleValue_valid_alt validateAllowedPath_valid preserves_path_def Let_def)
  qed
qed

section \<open>Properties\<close>

text \<open>C15: \<open>validateRuleValue\<close> accepts exactly the well-formed rules of each type.  After cleaning, a
  whitelist rule is a host name of at most 253 characters whose labels have at most 63 letters,
  digits and inner hyphens and whose last label is 2 to 63 letters; a blocked subdomain may in
  addition start with \<open>*.\<close>; a blocked path is such a host or \<open>*\<close>, a slash and a non-empty path
  without white space; an allowed path is the same with a concrete host.  Paths may contain control characters that are no
  white space (\<open>control_character_accepted\<close>), which the comment on the path pattern in the source excludes.\<close>
theorem validateRuleValue_valid_iff:
  "rv_valid (validateRuleValue v t) \<longleftrightarrow>
     (let c = cleanRuleValue v (preserves_path t) in
      case t of
        Whitelist \<Rightarrow> host_name c \<and> length c \<le> 253
      | Blocked_subdomain \<Rightarrow> length c \<le> 253 \<and> (host_name c \<or> (\<exists>d. c = ''*.'' @ d \<and> host_name d))
      | Blocked_path \<Rightarrow> path_rule (\<lambda>d. d = ''*'' \<or> host_name d \<and> length d \<le> 253) c
      | Allowed_path \<Rightarrow> path_rule (\<lambda>d. host_name d \<and> length d \<le> 253) c)"
  by (cases t)
    (simp_all add: validateRuleValue_valid_alt Let_def validateDomain_valid validateSubdomain_valid
      validatePath_valid validateAllowedPath_valid)

text \<open>The cleaned form of a rule that validates is canonical: cleaning it again changes nothing and
  validating it again accepts it.  (Cleaning alone is not idempotent: \<open>http://http://x\<close>.)\<close>
theorem valid_rule_canonical:
  assumes "rv_valid (validateRuleValue v t)"
  shows "let c = cleanRuleValue v (preserves_path t) in
         cleanRuleValue c (preserves_path t) = c \<and> validateRuleValue c t = validateRuleValue v t"
  using cleanRuleValue_valid_idem [OF assms]
  by (cases t) (simp_all add: validateRuleValue_def Let_def)

theorem valid_rule_canonical_witness:
  "let c = cleanRuleValue '' HTTPS://Ads.Example.com/Track/'' True in
     c = ''ads.example.com/track/'' \<and> cleanRuleValue c True = c"
proof -
  have c: "cleanRuleValue '' HTTPS://Ads.Example.com/Track/'' True = ''ads.example.com/track/''"
    by code_simp
  have "rv_valid (validateRuleValue '' HTTPS://Ads.Example.com/Track/'' Blocked_path)"
    by code_simp
  from valid_rule_canonical [OF this] c show ?thesis
    by (simp add: preserves_path_def Let_def)
qed

text \<open>A result is valid exactly when it carries no code, and the two label-length codes are never
  reported: the patterns already bound every label.\<close>
theorem validateRuleValue_codes:
  "rv_valid (validateRuleValue v t) = (rv_code (validateRuleValue v t) = None) \<and>
   rv_code (validateRuleValue v t) \<notin> {Some DOMAIN_LABEL_TOO_LONG, Some SUBDOMAIN_LABEL_TOO_LONG}"
proof -
  have d: "rv_valid (validateDomain d) = (rv_code (validateDomain d) = None) \<and>
     rv_code (validateDomain d) \<notin> {Some DOMAIN_LABEL_TOO_LONG, Some SUBDOMAIN_LABEL_TOO_LONG}" for d
    by (auto simp: validateDomain_def regex_test_iff matches_domain_regex host_name_labels_short)
  have "host_name (strip_prefix ''*.'' d)"
    if "host_name d \<or> (\<exists>e. d = ''*.'' @ e \<and> host_name e)" for d
    using that not_host_star by (auto simp: strip_prefix_def prefix_def)
  then have "list_ex (\<lambda>label. length label > 63) (split_on CHR ''.'' (strip_prefix ''*.'' d)) = False"
    if "regex_test SUBDOMAIN_REGEX d" for d
    using that host_name_labels_short by (simp add: regex_test_iff matches_subdomain_regex)
  then have s: "rv_valid (validateSubdomain d) = (rv_code (validateSubdomain d) = None) \<and>
     rv_code (validateSubdomain d) \<notin> {Some DOMAIN_LABEL_TOO_LONG, Some SUBDOMAIN_LABEL_TOO_LONG}" for d
    by (simp add: validateSubdomain_def)
  show ?thesis
    using d s
    by (cases t) (simp_all add: validateRuleValue_def validatePath_def validateAllowedPath_def Let_def)
qed

lemma control_character_accepted:
  "rv_valid (validateRuleValue (''example.com/'' @ [CHR 0x07]) Blocked_path)"
  by code_simp

end
