(* ===== verification/Root_Domain.thy ===== *)
theory Root_Domain
  imports Rule_Values
begin

text \<open>
  Root domains: \<open>shared/src/domain.ts\<close>.  A manually submitted request and the grouped views of
  a rule list are keyed by the root domain of a value, the last two labels of its host, or the
  last three when the last two are a country second-level domain.
\<close>

definition CC_SLDS :: "string list" where
  "CC_SLDS = [
    ''co.uk'', ''org.uk'', ''me.uk'', ''ac.uk'', ''gov.uk'', ''ltd.uk'', ''plc.uk'', ''net.uk'', ''sch.uk'',
    ''com.au'', ''net.au'', ''org.au'', ''edu.au'', ''gov.au'', ''asn.au'', ''id.au'', ''com.br'', ''net.br'',
    ''org.br'', ''gov.br'', ''edu.br'', ''com.ar'', ''net.ar'', ''org.ar'', ''gov.ar'', ''edu.ar'', ''gob.ar'',
    ''com.mx'', ''net.mx'', ''org.mx'', ''gob.mx'', ''edu.mx'', ''com.es'', ''org.es'', ''gob.es'', ''edu.es'',
    ''co.jp'', ''or.jp'', ''ne.jp'', ''ac.jp'', ''go.jp'', ''gr.jp'', ''co.nz'', ''net.nz'', ''org.nz'',
    ''govt.nz'', ''ac.nz'', ''school.nz'', ''co.za'', ''org.za'', ''gov.za'', ''net.za'', ''edu.za'', ''co.in'',
    ''net.in'', ''org.in'', ''gov.in'', ''ac.in'', ''edu.in'', ''com.cn'', ''net.cn'', ''org.cn'', ''gov.cn'',
    ''edu.cn'', ''co.kr'', ''or.kr'', ''ne.kr'', ''go.kr'', ''ac.kr'', ''com.sg'', ''org.sg'', ''edu.sg'',
    ''gov.sg'', ''com.hk'', ''org.hk'', ''edu.hk'', ''gov.hk'', ''com.tw'', ''org.tw'', ''edu.tw'', ''gov.tw'',
    ''com.my'', ''org.my'', ''edu.my'', ''gov.my'', ''com.ph'', ''org.ph'', ''edu.ph'', ''gov.ph'', ''com.vn'',
    ''org.vn'', ''edu.vn'', ''gov.vn'', ''com.tr'', ''org.tr'', ''edu.tr'', ''gov.tr'', ''com.ua'', ''org.ua'',
    ''edu.ua'', ''gov.ua'', ''com.ru'', ''org.ru'', ''edu.ru'', ''gov.ru'', ''com.pl'', ''org.pl'', ''edu.pl'',
    ''gov.pl'']"

text \<open>\<open>xs.slice(-n)\<close>.\<close>

definition last_n :: "nat \<Rightarrow> 'a list \<Rightarrow> 'a list" where
  "last_n n xs = drop (length xs - n) xs"

text \<open>The host a value names: scheme, \<open>www.\<close>, path, query, fragment, port and wildcard removed.\<close>

definition root_host :: "string \<Rightarrow> string" where
  "root_host value =
     (let domain = (if starts_with value ''https://'' then drop 8 value
                    else if starts_with value ''http://'' then drop 7 value else value);
          domain = strip_prefix ''www.'' domain;
          domain = hd (split_on CHR ''/'' domain);
          domain = hd (split_on CHR ''?'' domain);
          domain = hd (split_on CHR ''#'' domain);
          domain = hd (split_on CHR '':'' domain)
      in if starts_with domain ''*.'' then drop 2 domain else strip_prefix ''*'' domain)"

definition getRootDomain :: "string \<Rightarrow> string" where
  "getRootDomain value =
     (let domain = root_host value;
          parts = split_on CHR ''.'' domain
      in if length parts < 2 then domain
         else if length parts \<ge> 3 \<and> join_with ''.'' (last_n 2 parts) \<in> set CC_SLDS
         then join_with ''.'' (last_n 3 parts)
         else join_with ''.'' (last_n 2 parts))"

definition normalizeManualRequestDomain :: "string \<Rightarrow> string" where
  "normalizeManualRequestDomain value = getRootDomain value"

text \<open>\<open>groupByRootDomain\<close> builds a \<open>Map\<close>; it is the association list of its entries in
  insertion order.\<close>

fun map_push :: "'k \<Rightarrow> 'v \<Rightarrow> ('k \<times> 'v list) list \<Rightarrow> ('k \<times> 'v list) list" where
  "map_push k v [] = [(k, [v])]"
| "map_push k v ((k', vs) # m) = (if k' = k then (k', vs @ [v]) # m else (k', vs) # map_push k v m)"

definition groupByRootDomain :: "('r \<Rightarrow> string) \<Rightarrow> 'r list \<Rightarrow> (string \<times> 'r list) list" where
  "groupByRootDomain valueOf rules =
     fold (\<lambda>rule groups. map_push (getRootDomain (valueOf rule)) rule groups) rules []"

section \<open>The root is a suffix of the host\<close>

definition same_family :: "string \<Rightarrow> string \<Rightarrow> bool" where
  "same_family h r \<longleftrightarrow> h = r \<or> ends_with h (CHR ''.'' # r)"

lemma join_with_append:
  "xs \<noteq> [] \<Longrightarrow> ys \<noteq> [] \<Longrightarrow> join_with sep (xs @ ys) = join_with sep xs @ sep @ join_with sep ys"
proof (induction xs)
  case (Cons x xs)
  then show ?case by (cases "xs = []") (simp_all add: join_with_Cons)
qed simp

lemma last_n_append: "xs = take (length xs - n) xs @ last_n n xs"
  by (simp add: last_n_def)

lemma length_last_n [simp]: "length (last_n n xs) = min n (length xs)"
  by (simp add: last_n_def min_def)

lemma set_last_n: "set (last_n n xs) \<subseteq> set xs"
  by (auto simp: last_n_def dest: in_set_dropD)

lemma join_last_n_family:
  "0 < n \<Longrightarrow> same_family h (join_with ''.'' (last_n n (split_on CHR ''.'' h)))"
proof (cases "length (split_on CHR ''.'' h) \<le> n")
  case True
  then have "last_n n (split_on CHR ''.'' h) = split_on CHR ''.'' h" by (simp add: last_n_def)
  then show ?thesis by (simp add: same_family_def join_split_on)
next
  case False
  define ps where "ps = split_on CHR ''.'' h"
  define k where "k = length ps - n"
  assume "0 < n"
  then have "take k ps \<noteq> []" "last_n n ps \<noteq> []"
    using False by (auto simp: ps_def k_def last_n_def)
  moreover have "h = join_with ''.'' (take k ps @ last_n n ps)"
    unfolding k_def last_n_append [symmetric] by (simp add: ps_def join_split_on)
  ultimately have "h = join_with ''.'' (take k ps) @ CHR ''.'' # join_with ''.'' (last_n n ps)"
    by (simp add: join_with_append)
  then show ?thesis
    by (auto simp: same_family_def ends_with_def suffix_def ps_def)
qed

lemma split_join_last_n:
  "0 < n \<Longrightarrow> split_on CHR ''.'' (join_with ''.'' (last_n n (split_on CHR ''.'' h))) =
   last_n n (split_on CHR ''.'' h)"
proof (rule split_on_join)
  assume "0 < n"
  then have "0 < length (last_n n (split_on CHR ''.'' h))" by simp
  then show "last_n n (split_on CHR ''.'' h) \<noteq> []" by (rule length_greater_0_conv [THEN iffD1])
next
  fix p assume "p \<in> set (last_n n (split_on CHR ''.'' h))"
  then show "CHR ''.'' \<notin> set p"
    using set_last_n by (intro split_on_no_sep) fast
qed

definition root_size :: "string list \<Rightarrow> nat" where
  "root_size parts = (if length parts \<ge> 3 \<and> join_with ''.'' (last_n 2 parts) \<in> set CC_SLDS then 3 else 2)"

lemma getRootDomain_alt:
  "getRootDomain v =
     (let parts = split_on CHR ''.'' (root_host v) in join_with ''.'' (last_n (root_size parts) parts))"
proof (cases "length (split_on CHR ''.'' (root_host v)) < 2")
  case True
  then have "last_n 2 (split_on CHR ''.'' (root_host v)) = split_on CHR ''.'' (root_host v)"
    by (simp add: last_n_def)
  with True show ?thesis
    by (simp add: getRootDomain_def root_size_def Let_def join_split_on)
qed (simp add: getRootDomain_def root_size_def Let_def)

lemma root_size_pos: "0 < root_size parts" "root_size parts \<le> 3"
  by (simp_all add: root_size_def)

lemma last_n_Cons: "n \<le> length xs \<Longrightarrow> last_n n (x # xs) = last_n n xs"
  by (simp add: last_n_def Suc_diff_le)

lemma root_size_Cons: "3 \<le> length parts \<Longrightarrow> root_size (l # parts) = root_size parts"
  by (simp add: root_size_def last_n_Cons)

lemma split_on_id: "c \<notin> set s \<Longrightarrow> hd (split_on c s) = s"
  by (simp add: split_on_no)

lemma root_host_plain:
  "host_name d \<Longrightarrow> \<not> starts_with d ''www.'' \<Longrightarrow> root_host d = d"
proof -
  assume h: "host_name d" and w: "\<not> starts_with d ''www.''"
  have cs: "c \<notin> set d" if "\<not> ldh_char c" "c \<noteq> CHR ''.''" for c
    using host_name_chars [OF h] that by blast
  have n: "CHR ''/'' \<notin> set d" "CHR ''?'' \<notin> set d" "CHR ''#'' \<notin> set d" "CHR '':'' \<notin> set d"
    "CHR ''*'' \<notin> set d"
    by (rule cs; simp add: ldh_char_def alnum_char_def alpha_char_def digit_char_def)+
  then have "\<not> starts_with d ''https://''" "\<not> starts_with d ''http://''"
    "\<not> starts_with d ''*.''" "\<not> starts_with d ''*''"
    by (auto simp: starts_with_def prefix_def)
  with n w show ?thesis
    by (simp add: root_host_def strip_prefix_def starts_with_def split_on_id Let_def)
qed

section \<open>Grouping\<close>

lemma map_push_keys:
  "map fst (map_push k v m) = (if k \<in> fst ` set m then map fst m else map fst m @ [k])"
  by (induction k v m rule: map_push.induct) auto

definition groups_of :: "('r \<Rightarrow> 'k) \<Rightarrow> 'r list \<Rightarrow> ('k \<times> 'r list) list" where
  "groups_of key rs = map (\<lambda>k. (k, filter (\<lambda>r. key r = k) rs)) (js_unique (map key rs))"

lemma map_push_map:
  "distinct ks \<Longrightarrow>
   map_push k v (map (\<lambda>k. (k, f k)) ks) =
     map (\<lambda>k'. (k', if k' = k then f k' @ [v] else f k')) ks @ (if k \<in> set ks then [] else [(k, [v])])"
  by (induction ks) auto

lemma groups_of_snoc: "groups_of key (rs @ [r]) = map_push (key r) r (groups_of key rs)"
proof -
  have "filter (\<lambda>r'. key r' = key r) rs = []" if "key r \<notin> key ` set rs"
    using that by (metis (mono_tags, lifting) filter_False image_eqI)
  then show ?thesis
    by (auto simp: groups_of_def js_unique_snoc map_push_map)
qed

lemma groupByRootDomain_groups_of:
  "groupByRootDomain valueOf rules = groups_of (\<lambda>r. getRootDomain (valueOf r)) rules"
  unfolding groupByRootDomain_def
  by (induction rules rule: rev_induct) (simp_all add: groups_of_snoc, simp add: groups_of_def)

section \<open>Properties\<close>

text \<open>The root domain of any value is the host the value names or a parent domain of it, and it
  has at most three labels.\<close>
theorem getRootDomain_parent:
  "same_family (root_host v) (getRootDomain v) \<and> length (split_on CHR ''.'' (getRootDomain v)) \<le> 3"
proof -
  have "min (root_size ps) n \<le> 3" for ps n
    using root_size_pos(2) [of ps] by linarith
  then show ?thesis
    using join_last_n_family split_join_last_n root_size_pos
    by (simp add: getRootDomain_alt Let_def)
qed

text \<open>Every subdomain of a host with at least three labels has the same root domain, so requests
  submitted by hand for different hosts of one site end up as one domain.\<close>
theorem subdomains_share_root:
  assumes "host_name d" "domain_label l" "3 \<le> length (split_on CHR ''.'' d)"
    "\<not> starts_with d ''www.''"
  shows "normalizeManualRequestDomain (l @ ''.'' @ d) = normalizeManualRequestDomain d"
proof (cases "l = ''www''")
  case True
  have "\<not> starts_with (l @ ''.'' @ d) ''https://''" "\<not> starts_with (l @ ''.'' @ d) ''http://''"
    "\<not> starts_with d ''https://''" "\<not> starts_with d ''http://''"
    using True host_name_plain [OF assms(1)] plain_not_scheme [of d "''https''"] plain_not_scheme [of d "''http''"]
    by (auto simp: starts_with_def)
  then have "root_host (l @ ''.'' @ d) = root_host d"
    using True assms(4) by (simp add: root_host_def strip_prefix_def starts_with_def Let_def)
  then show ?thesis by (simp add: normalizeManualRequestDomain_def getRootDomain_def)
next
  case False
  have sp: "split_on CHR ''.'' (l @ ''.'' @ d) = l # split_on CHR ''.'' d"
    using domain_label_no_dot [OF assms(2)] by (simp add: split_on_append_sep)
  then have "host_name (l @ ''.'' @ d)"
    using assms(1,2) by (simp add: host_name_def Let_def)
  moreover have "\<not> starts_with (l @ ''.'' @ d) ''www.''"
  proof
    assume "starts_with (l @ ''.'' @ d) ''www.''"
    then obtain r where "l @ CHR ''.'' # d = ''www'' @ CHR ''.'' # r"
      by (auto simp: starts_with_def prefix_def)
    then have "before_first CHR ''.'' (l @ CHR ''.'' # d) = ''www''"
      by (simp add: before_first_append [of _ "''www''", simplified])
    then show False
      using False domain_label_no_dot [OF assms(2)] by (simp add: before_first_append)
  qed
  ultimately have "root_host (l @ ''.'' @ d) = l @ ''.'' @ d" "root_host d = d"
    using assms root_host_plain by blast+
  moreover have "root_size (split_on CHR ''.'' d) \<le> length (split_on CHR ''.'' d)"
    using root_size_pos(2) assms(3) le_trans by blast
  ultimately show ?thesis
    using assms(3) sp
    by (simp add: normalizeManualRequestDomain_def getRootDomain_alt root_size_Cons last_n_Cons Let_def)
qed

theorem subdomains_share_root_witness:
  "normalizeManualRequestDomain (''mail'' @ ''.'' @ ''shop.bbc.co.uk'') = ''bbc.co.uk''"
proof -
  have "host_name ''shop.bbc.co.uk''" "domain_label ''mail''"
    "3 \<le> length (split_on CHR ''.'' ''shop.bbc.co.uk'')" "\<not> starts_with ''shop.bbc.co.uk'' ''www.''"
    by code_simp+
  then have "normalizeManualRequestDomain (''mail'' @ ''.'' @ ''shop.bbc.co.uk'') =
    normalizeManualRequestDomain ''shop.bbc.co.uk''"
    by (rule subdomains_share_root)
  also have "\<dots> = ''bbc.co.uk''" by code_simp
  finally show ?thesis .
qed

text \<open>Grouping loses, duplicates and reorders nothing: there is one entry per root domain, in the
  order of the first rule of each, and it holds exactly the rules of that root in their order.\<close>
theorem groupByRootDomain_partition:
  "map fst (groupByRootDomain valueOf rules) = js_unique (map (getRootDomain \<circ> valueOf) rules) \<and>
   (\<forall>(root, rs) \<in> set (groupByRootDomain valueOf rules).
      rs = filter (\<lambda>r. getRootDomain (valueOf r) = root) rules)"
  by (auto simp: groupByRootDomain_groups_of groups_of_def comp_def)

theorem groupByRootDomain_partition_witness:
  "groupByRootDomain id [''mail.google.com'', ''bbc.co.uk'', ''google.com''] =
     [(''google.com'', [''mail.google.com'', ''google.com'']), (''bbc.co.uk'', [''bbc.co.uk''])] \<and>
   map fst (groupByRootDomain id [''mail.google.com'', ''bbc.co.uk'', ''google.com'']) =
     [''google.com'', ''bbc.co.uk'']"
proof -
  have "getRootDomain ''mail.google.com'' = ''google.com''" "getRootDomain ''google.com'' = ''google.com''"
    "getRootDomain ''bbc.co.uk'' = ''bbc.co.uk''"
    by code_simp+
  then show ?thesis
    using groupByRootDomain_partition [of id "[''mail.google.com'', ''bbc.co.uk'', ''google.com'']"]
    by (simp add: groupByRootDomain_def)
qed

end
