(* ===== verification/Schedule_Time.thy ===== *)
theory Schedule_Time
  imports Regex
begin

text \<open>
  Times of day: \<open>shared/src/schedule-time.ts\<close>, the copies and validators of
  \<open>api/src/lib/schedule-storage-shared.ts\<close> and the web client's
  \<open>react-spa/src/lib/time-of-day.ts\<close>.  \<open>None\<close> stands for \<open>NaN\<close> in a numeric result and for
  an invalid \<open>Date\<close>.
\<close>

definition SCHEDULE_TIME_STEP_MINUTES :: int where
  "SCHEDULE_TIME_STEP_MINUTES = 5"

definition char_between :: "char \<Rightarrow> char \<Rightarrow> char \<Rightarrow> bool" where
  "char_between a b c \<longleftrightarrow> (of_char a :: nat) \<le> of_char c \<and> (of_char c :: nat) \<le> of_char b"

text \<open>\<open>/^([01]\d|2[0-3]):([0-5]\d)(?::([0-5]\d))?$/\<close>\<close>

definition HOURS_REGEX :: regex where
  "HOURS_REGEX = RAlt (RSeq (RSet (char_between CHR ''0'' CHR ''1'')) (RSet digit_char))
                      (RSeq (r_char CHR ''2'') (RSet (char_between CHR ''0'' CHR ''3'')))"

definition SIXTY_REGEX :: regex where
  "SIXTY_REGEX = RSeq (RSet (char_between CHR ''0'' CHR ''5'')) (RSet digit_char)"

definition TIME_REGEX :: regex where
  "TIME_REGEX = RSeq HOURS_REGEX (RSeq (r_char CHR '':'')
     (RSeq SIXTY_REGEX (r_opt (RSeq (r_char CHR '':'') SIXTY_REGEX))))"

text \<open>The three capture groups have fixed positions; the last is absent in \<open>HH:MM\<close>.\<close>

definition group_hh :: "string \<Rightarrow> string" where
  "group_hh t = take 2 t"

definition group_mm :: "string \<Rightarrow> string" where
  "group_mm t = take 2 (drop 3 t)"

definition group_ss :: "string \<Rightarrow> string option" where
  "group_ss t = (if length t = 8 then Some (drop 6 t) else None)"

definition normalizeTimeHHMM :: "string \<Rightarrow> string" where
  "normalizeTimeHHMM time =
     (if \<not> regex_test TIME_REGEX time then time else group_hh time @ '':'' @ group_mm time)"

definition part_number :: "nat \<Rightarrow> string list \<Rightarrow> int option" where
  "part_number i parts = (if i < length parts then js_number (parts ! i) else None)"

definition parseTimeToMinutes :: "string \<Rightarrow> int option" where
  "parseTimeToMinutes time =
     (let parts = split_on CHR '':'' time in
      case (part_number 0 parts, part_number 1 parts) of
        (Some h, Some m) \<Rightarrow> if h < 0 \<or> h > 23 \<or> m < 0 \<or> m > 59 then None else Some (h * 60 + m)
      | _ \<Rightarrow> None)"

record time_parts =
  tp_hours :: "int option"
  tp_minutes :: "int option"
  tp_seconds :: "int option"

definition parseTimeParts :: "string \<Rightarrow> string + time_parts" where
  "parseTimeParts time =
     (if \<not> regex_test TIME_REGEX time then Inl ''Invalid time format. Use HH:MM (24h)''
      else Inr \<lparr>tp_hours = js_number (group_hh time), tp_minutes = js_number (group_mm time),
                tp_seconds = js_number (case group_ss time of Some s \<Rightarrow> s | None \<Rightarrow> ''0'')\<rparr>)"

definition num_eq :: "int option \<Rightarrow> int \<Rightarrow> bool" where
  "num_eq x n \<longleftrightarrow> x = Some n"

definition assertQuarterHourTime :: "string \<Rightarrow> string + unit" where
  "assertQuarterHourTime time =
     and_then (parseTimeParts time) (\<lambda>p.
     and_then (throw_if (\<not> num_eq (tp_seconds p) 0) ''Time must not include seconds'') (\<lambda>_.
       throw_if (\<not> num_eq (map_option (\<lambda>m. m mod SCHEDULE_TIME_STEP_MINUTES) (tp_minutes p)) 0)
         (''Time must be in '' @ int_str SCHEDULE_TIME_STEP_MINUTES @ ''-minute increments'')))"

definition utc_ms :: "int \<Rightarrow> int" where "utc_ms t = t mod 1000"
definition utc_seconds :: "int \<Rightarrow> int" where "utc_seconds t = t div 1000 mod 60"
definition utc_minutes :: "int \<Rightarrow> int" where "utc_minutes t = t div 60000 mod 60"

definition assertQuarterHourInstant :: "int option \<Rightarrow> string + unit" where
  "assertQuarterHourInstant date =
     (case date of None \<Rightarrow> Inl ''Invalid date''
      | Some t \<Rightarrow>
          and_then (throw_if (utc_seconds t \<noteq> 0 \<or> utc_ms t \<noteq> 0) ''Time must not include seconds'') (\<lambda>_.
            throw_if (utc_minutes t mod SCHEDULE_TIME_STEP_MINUTES \<noteq> 0)
              (''Time must be in '' @ int_str SCHEDULE_TIME_STEP_MINUTES @ ''-minute increments'')))"

section \<open>The API's schedule values\<close>

definition timeToMinutes :: "string \<Rightarrow> int option" where
  "timeToMinutes time = parseTimeToMinutes (normalizeTimeHHMM time)"

text \<open>A comparison with \<open>NaN\<close> is false.\<close>

definition num_less :: "int option \<Rightarrow> int option \<Rightarrow> bool" where
  "num_less x y \<longleftrightarrow> (case (x, y) of (Some a, Some b) \<Rightarrow> a < b | _ \<Rightarrow> False)"

definition num_ge :: "int option \<Rightarrow> int option \<Rightarrow> bool" where
  "num_ge x y \<longleftrightarrow> (case (x, y) of (Some a, Some b) \<Rightarrow> a \<ge> b | _ \<Rightarrow> False)"

definition timesOverlap :: "string \<Rightarrow> string \<Rightarrow> string \<Rightarrow> string \<Rightarrow> bool" where
  "timesOverlap start1 end1 start2 end2 \<longleftrightarrow>
     num_less (timeToMinutes start1) (timeToMinutes end2) \<and>
     num_less (timeToMinutes start2) (timeToMinutes end1)"

definition assertValidScheduleValues :: "int \<Rightarrow> string \<Rightarrow> string \<Rightarrow> string + unit" where
  "assertValidScheduleValues dayOfWeek startTime endTime =
     and_then (throw_if (dayOfWeek < 1 \<or> dayOfWeek > 5)
                ''dayOfWeek must be between 1 (Monday) and 5 (Friday)'') (\<lambda>_.
     and_then (assertQuarterHourTime startTime) (\<lambda>_.
     and_then (assertQuarterHourTime endTime) (\<lambda>_.
       throw_if (num_ge (timeToMinutes startTime) (timeToMinutes endTime))
         ''startTime must be before endTime'')))"

definition assertValidOneOffScheduleValues :: "int option \<Rightarrow> int option \<Rightarrow> string + unit" where
  "assertValidOneOffScheduleValues startAt endAt =
     and_then (assertQuarterHourInstant startAt) (\<lambda>_.
     and_then (assertQuarterHourInstant endAt) (\<lambda>_.
       throw_if (num_ge startAt endAt) ''endAt must be after startAt''))"

section \<open>The web client's times of day\<close>

definition parseTimeOfDayToMinutes :: "string \<Rightarrow> int option" where
  "parseTimeOfDayToMinutes value =
     (let parts = split_on CHR '':'' value in
      case (part_number 0 parts, part_number 1 parts) of
        (Some h, Some m) \<Rightarrow>
          if h < 0 \<or> h > 23 then None else if m < 0 \<or> m > 59 then None else Some (h * 60 + m)
      | _ \<Rightarrow> None)"

definition hh_mm :: "int \<Rightarrow> int \<Rightarrow> string" where
  "hh_mm h m = pad2 (int_str h) @ '':'' @ pad2 (int_str m)"

definition formatMinutesToTimeOfDay :: "int \<Rightarrow> string" where
  "formatMinutesToTimeOfDay totalMinutes =
     (let minutes = max 0 totalMinutes in hh_mm (minutes div 60 mod 24) (minutes mod 60))"

definition compareTimeOfDay :: "string \<Rightarrow> string \<Rightarrow> int option" where
  "compareTimeOfDay a b =
     (case (parseTimeOfDayToMinutes a, parseTimeOfDayToMinutes b) of
        (Some am, Some bm) \<Rightarrow> Some (am - bm) | _ \<Rightarrow> None)"

definition roundTimeOfDayDown :: "string \<Rightarrow> int \<Rightarrow> string option" where
  "roundTimeOfDayDown value stepMinutes =
     (case parseTimeOfDayToMinutes value of None \<Rightarrow> None
      | Some minutes \<Rightarrow>
          if stepMinutes \<le> 0 then None
          else Some (formatMinutesToTimeOfDay (minutes div stepMinutes * stepMinutes)))"

text \<open>The two loops of \<open>buildTimeOfDayOptions\<close>; the inner one breaks at the end hour.\<close>

function minute_loop :: "int \<Rightarrow> bool \<Rightarrow> int \<Rightarrow> int list" where
  "minute_loop step stop m =
     (if m < 60 \<and> 0 < step then (if stop \<and> m > 0 then [] else m # minute_loop step stop (m + step)) else [])"
  by pat_completeness auto
termination by (relation "measure (\<lambda>(step, stop, m). nat (60 - m))") auto

declare minute_loop.simps [simp del]

function hour_loop :: "int \<Rightarrow> int \<Rightarrow> int \<Rightarrow> string list" where
  "hour_loop endHour step h =
     (if h \<le> endHour then map (hh_mm h) (minute_loop step (h = endHour) 0) @ hour_loop endHour step (h + 1)
      else [])"
  by pat_completeness auto
termination by (relation "measure (\<lambda>(e, s, h). nat (e - h + 1))") auto

declare hour_loop.simps [simp del]

definition buildTimeOfDayOptions :: "int \<Rightarrow> int \<Rightarrow> int \<Rightarrow> string list" where
  "buildTimeOfDayOptions startHour endHour stepMinutes =
     (if stepMinutes \<le> 0 then []
      else if startHour < 0 \<or> startHour > 23 then []
      else if endHour < 0 \<or> endHour > 23 then []
      else if endHour < startHour then []
      else hour_loop endHour stepMinutes startHour)"

section \<open>Well-formed times\<close>

text \<open>The specification: a clock time is two digits of hours below 24 and two of minutes below 60.\<close>

definition clock :: "nat \<Rightarrow> nat \<Rightarrow> string" where
  "clock h m = [digit_of (h div 10), digit_of (h mod 10), CHR '':'', digit_of (m div 10), digit_of (m mod 10)]"

lemma matches_two: "matches (RSeq (RSet P) (RSet Q)) s \<longleftrightarrow> (\<exists>a b. s = [a, b] \<and> P a \<and> Q b)"
  by (auto simp: matches_seq_set)

lemma digit_range: "char_between CHR ''0'' d c \<Longrightarrow> digit_char d \<Longrightarrow> digit_char c"
  by (auto simp: char_between_def digit_char_def Let_def)

definition two_digits :: "nat \<Rightarrow> string \<Rightarrow> bool" where
  "two_digits bound s \<longleftrightarrow> (\<exists>n < bound. s = [digit_of (n div 10), digit_of (n mod 10)])"

lemma two_digitsI:
  "digit_char a \<Longrightarrow> digit_char b \<Longrightarrow> 10 * (of_char a - 48) + (of_char b - 48) < bound \<Longrightarrow>
   two_digits bound [a, b]"
  unfolding two_digits_def
  using digit_value_bound [of b]
  by (intro exI [of _ "10 * (of_char a - 48) + (of_char b - 48)"]) (simp add: digit_of_value)

lemma two_digits_number:
  "bound \<le> 100 \<Longrightarrow> two_digits bound s \<Longrightarrow> \<exists>n < bound. s = pad2 (nat_str n) \<and> js_number s = Some (int n)"
proof -
  assume b: "bound \<le> 100" and "two_digits bound s"
  then obtain n where n: "n < bound" "s = [digit_of (n div 10), digit_of (n mod 10)]"
    by (auto simp: two_digits_def)
  then have "js_number s = Some (int n)"
    using b by (simp add: js_number_digits dec_value_two)
  then show ?thesis using n b pad2_nat_str [of n] by auto
qed

lemma matches_hours:
  "matches HOURS_REGEX s \<longleftrightarrow> two_digits 24 s"
proof
  assume "matches HOURS_REGEX s"
  then obtain a b where s: "s = [a, b]" and
    ab: "char_between CHR ''0'' CHR ''1'' a \<and> digit_char b \<or> a = CHR ''2'' \<and> char_between CHR ''0'' CHR ''3'' b"
    by (auto simp: HOURS_REGEX_def matches_two r_char_def)
  then have "digit_char a" "digit_char b"
    by (auto simp: char_between_def digit_char_def Let_def)
  moreover have "10 * (of_char a - 48) + (of_char b - 48) < (24 :: nat)"
    using ab by (auto simp: char_between_def digit_char_def Let_def)
  ultimately show "two_digits 24 s"
    unfolding s by (rule two_digitsI)
next
  assume "two_digits 24 s"
  then obtain n where n: "n < 24" and s: "s = [digit_of (n div 10), digit_of (n mod 10)]"
    by (auto simp: two_digits_def)
  consider "n < 20" | "20 \<le> n" by linarith
  then show "matches HOURS_REGEX s"
  proof cases
    case 1
    then have "n div 10 \<le> 1" by auto
    then show ?thesis using s by (auto simp: HOURS_REGEX_def matches_two char_between_def r_char_def)
  next
    case 2
    then have d: "n div 10 = 2" using n by (intro div_nat_eqI) auto
    then have "n mod 10 \<le> 3" using n by (simp add: modulo_nat_def)
    moreover have "digit_of 2 = CHR ''2''" by code_simp
    ultimately show ?thesis using s d by (auto simp: HOURS_REGEX_def matches_two char_between_def r_char_def)
  qed
qed

lemma matches_minutes:
  "matches SIXTY_REGEX s \<longleftrightarrow> two_digits 60 s"
proof
  assume "matches SIXTY_REGEX s"
  then obtain a b where s: "s = [a, b]" and ab: "char_between CHR ''0'' CHR ''5'' a" "digit_char b"
    by (auto simp: SIXTY_REGEX_def matches_two)
  then have "digit_char a" by (auto simp: char_between_def digit_char_def Let_def)
  moreover have "10 * (of_char a - 48) + (of_char b - 48) < (60 :: nat)"
    using ab by (auto simp: char_between_def digit_char_def Let_def)
  ultimately show "two_digits 60 s"
    unfolding s using ab by (intro two_digitsI)
next
  assume "two_digits 60 s"
  then show "matches SIXTY_REGEX s"
    by (auto simp: SIXTY_REGEX_def two_digits_def matches_two char_between_def)
qed

lemma matches_time:
  "matches TIME_REGEX t \<longleftrightarrow>
     (\<exists>hh mm ss. two_digits 24 hh \<and> two_digits 60 mm \<and> (ss = [] \<or> (\<exists>s. ss = CHR '':'' # s \<and> two_digits 60 s)) \<and>
        t = hh @ CHR '':'' # mm @ ss)"
  unfolding TIME_REGEX_def matches_RSeq [of HOURS_REGEX] matches_RSeq [of SIXTY_REGEX]
    matches_seq_char matches_hours matches_minutes matches_opt
  by blast

definition seconds_suffix :: "nat option \<Rightarrow> string" where
  "seconds_suffix ss = (case ss of None \<Rightarrow> [] | Some s \<Rightarrow> [CHR '':'', digit_of (s div 10), digit_of (s mod 10)])"

lemma valid_time_iff:
  "regex_test TIME_REGEX t \<longleftrightarrow>
     (\<exists>h < 24. \<exists>m < 60. \<exists>ss. (\<forall>s. ss = Some s \<longrightarrow> s < 60) \<and> t = clock h m @ seconds_suffix ss)"
proof
  assume "regex_test TIME_REGEX t"
  then obtain hh mm ss where p: "two_digits 24 hh" "two_digits 60 mm"
    "ss = [] \<or> (\<exists>s. ss = CHR '':'' # s \<and> two_digits 60 s)" and t: "t = hh @ CHR '':'' # mm @ ss"
    by (auto simp: regex_test_iff matches_time)
  then obtain h m where hm: "h < 24" "m < 60" "hh @ CHR '':'' # mm = clock h m"
    by (auto simp: two_digits_def clock_def)
  obtain s where "ss = seconds_suffix s" "\<forall>x. s = Some x \<longrightarrow> x < 60"
  proof (cases "ss = []")
    case True
    with that [of None] show ?thesis by (simp add: seconds_suffix_def)
  next
    case False
    then obtain x where "x < 60" "ss = [CHR '':'', digit_of (x div 10), digit_of (x mod 10)]"
      using p(3) by (auto simp: two_digits_def)
    with that [of "Some x"] show ?thesis by (simp add: seconds_suffix_def)
  qed
  with hm t show "\<exists>h < 24. \<exists>m < 60. \<exists>ss. (\<forall>s. ss = Some s \<longrightarrow> s < 60) \<and> t = clock h m @ seconds_suffix ss"
    by (metis append_Cons append_assoc)
next
  assume "\<exists>h < 24. \<exists>m < 60. \<exists>ss. (\<forall>s. ss = Some s \<longrightarrow> s < 60) \<and> t = clock h m @ seconds_suffix ss"
  then obtain h m ss where hm: "h < 24" "m < 60" "\<forall>s. ss = Some s \<longrightarrow> s < 60" "t = clock h m @ seconds_suffix ss"
    by blast
  let ?two = "\<lambda>n. [digit_of (n div 10), digit_of (n mod 10)]"
  have "two_digits 24 (?two h)" "two_digits 60 (?two m)" "\<forall>s. ss = Some s \<longrightarrow> two_digits 60 (?two s)"
    using hm by (auto simp: two_digits_def)
  then show "regex_test TIME_REGEX t"
    unfolding regex_test_iff matches_time
    using hm(4) by (intro exI [of _ "?two h"] exI [of _ "?two m"] exI [of _ "seconds_suffix ss"])
      (auto simp: clock_def seconds_suffix_def split: option.splits)
qed

lemma valid_time_clock:
  "h < 24 \<Longrightarrow> m < 60 \<Longrightarrow> (\<forall>s. ss = Some s \<longrightarrow> s < 60) \<Longrightarrow>
   regex_test TIME_REGEX (clock h m @ seconds_suffix ss)"
  using valid_time_iff by blast

lemma js_number_two: "n < 100 \<Longrightarrow> js_number [digit_of (n div 10), digit_of (n mod 10)] = Some (int n)"
  by (simp add: js_number_digits dec_value_two)

lemma clock_groups:
  "group_hh (clock h m @ seconds_suffix ss) = [digit_of (h div 10), digit_of (h mod 10)]"
  "group_mm (clock h m @ seconds_suffix ss) = [digit_of (m div 10), digit_of (m mod 10)]"
  "group_ss (clock h m @ seconds_suffix ss) = map_option (\<lambda>s. [digit_of (s div 10), digit_of (s mod 10)]) ss"
  by (auto simp: group_hh_def group_mm_def group_ss_def clock_def seconds_suffix_def split: option.splits)

lemma digit_of_not_colon: "d < 10 \<Longrightarrow> digit_of d \<noteq> CHR '':''"
proof
  assume d: "d < 10" "digit_of d = CHR '':''"
  from d(2) have "(of_char (digit_of d) :: nat) = of_char CHR '':''" by simp
  with d(1) show False by simp
qed

lemma split_clock: "h < 100 \<Longrightarrow> m < 100 \<Longrightarrow>
  split_on CHR '':'' (clock h m) =
    [[digit_of (h div 10), digit_of (h mod 10)], [digit_of (m div 10), digit_of (m mod 10)]]"
  by (simp add: clock_def digit_of_not_colon)

lemma parse_clock: "h < 24 \<Longrightarrow> m < 60 \<Longrightarrow> parseTimeToMinutes (clock h m) = Some (int (60 * h + m))"
  by (simp add: parseTimeToMinutes_def split_clock part_number_def js_number_two)

lemma normalize_clock:
  "h < 24 \<Longrightarrow> m < 60 \<Longrightarrow> (\<forall>s. ss = Some s \<longrightarrow> s < 60) \<Longrightarrow>
   normalizeTimeHHMM (clock h m @ seconds_suffix ss) = clock h m"
  by (simp add: normalizeTimeHHMM_def valid_time_clock clock_groups) (simp add: clock_def)

lemma timeToMinutes_clock:
  "h < 24 \<Longrightarrow> m < 60 \<Longrightarrow> (\<forall>s. ss = Some s \<longrightarrow> s < 60) \<Longrightarrow>
   timeToMinutes (clock h m @ seconds_suffix ss) = Some (int (60 * h + m))"
  by (simp add: timeToMinutes_def normalize_clock parse_clock)

lemma timeToMinutes_valid:
  "regex_test TIME_REGEX t \<Longrightarrow> \<exists>n. timeToMinutes t = Some n \<and> 0 \<le> n \<and> n < 1440"
  by (auto simp: valid_time_iff timeToMinutes_clock)

lemma clock_hh_mm: "0 \<le> h \<Longrightarrow> h < 100 \<Longrightarrow> 0 \<le> m \<Longrightarrow> m < 100 \<Longrightarrow> hh_mm h m = clock (nat h) (nat m)"
  by (simp add: hh_mm_def int_str_def pad2_nat_str clock_def)

lemma format_clock:
  "0 \<le> n \<Longrightarrow> formatMinutesToTimeOfDay n = clock (nat (n div 60 mod 24)) (nat (n mod 60))"
  unfolding formatMinutesToTimeOfDay_def Let_def by (subst clock_hh_mm) (simp_all add: max_def)

lemma parseTimeOfDay_eq: "parseTimeOfDayToMinutes t = parseTimeToMinutes t"
  by (auto simp: parseTimeOfDayToMinutes_def parseTimeToMinutes_def Let_def split: option.splits)

lemma parseTimeParts_clock:
  "h < 24 \<Longrightarrow> m < 60 \<Longrightarrow> (\<forall>s. ss = Some s \<longrightarrow> s < 60) \<Longrightarrow>
   parseTimeParts (clock h m @ seconds_suffix ss) =
     Inr \<lparr>tp_hours = Some (int h), tp_minutes = Some (int m),
          tp_seconds = Some (case ss of None \<Rightarrow> 0 | Some s \<Rightarrow> int s)\<rparr>"
proof -
  assume hm: "h < 24" "m < 60" "\<forall>s. ss = Some s \<longrightarrow> s < 60"
  then have "regex_test TIME_REGEX (clock h m @ seconds_suffix ss)"
    by (rule valid_time_clock)
  moreover have "js_number ''0'' = Some 0" by code_simp
  ultimately show ?thesis
    using hm by (auto simp: parseTimeParts_def clock_groups js_number_two split: option.splits)
qed

lemma assertQuarterHourTime_iff:
  "assertQuarterHourTime t = Inr () \<longleftrightarrow>
     (\<exists>h < 24. \<exists>m < 60. 5 dvd m \<and> (t = clock h m \<or> t = clock h m @ seconds_suffix (Some 0)))"
proof
  assume a: "assertQuarterHourTime t = Inr ()"
  then have "regex_test TIME_REGEX t"
    by (auto simp: assertQuarterHourTime_def parseTimeParts_def split: if_splits)
  then obtain h m ss where hm: "h < 24" "m < 60" "\<forall>s. ss = Some s \<longrightarrow> s < 60"
    and t: "t = clock h m @ seconds_suffix ss"
    using valid_time_iff by blast
  have "ss = None \<or> ss = Some 0" "int m mod 5 = 0"
    using a unfolding t
    by (auto simp: assertQuarterHourTime_def parseTimeParts_clock [OF hm] num_eq_def
        SCHEDULE_TIME_STEP_MINUTES_def and_then_Inr_iff split: option.splits)
  then show "\<exists>h < 24. \<exists>m < 60. 5 dvd m \<and> (t = clock h m \<or> t = clock h m @ seconds_suffix (Some 0))"
    using hm t by (intro exI [of _ h] conjI exI [of _ m]) (auto simp: seconds_suffix_def; presburger)+
next
  assume "\<exists>h < 24. \<exists>m < 60. 5 dvd m \<and> (t = clock h m \<or> t = clock h m @ seconds_suffix (Some 0))"
  then obtain h m where hm: "h < 24" "m < 60" "5 dvd m"
    and "t = clock h m \<or> t = clock h m @ seconds_suffix (Some 0)"
    by blast
  then have "t = clock h m @ seconds_suffix None \<or> t = clock h m @ seconds_suffix (Some 0)"
    by (simp add: seconds_suffix_def)
  then have "parseTimeParts t = Inr \<lparr>tp_hours = Some (int h), tp_minutes = Some (int m), tp_seconds = Some 0\<rparr>"
    using parseTimeParts_clock [OF hm(1,2), of None] parseTimeParts_clock [OF hm(1,2), of "Some 0"] by auto
  then show "assertQuarterHourTime t = Inr ()"
    using hm(3) by (simp add: assertQuarterHourTime_def num_eq_def SCHEDULE_TIME_STEP_MINUTES_def) presburger
qed

lemma assertQuarterHourTime_cases:
  assumes "assertQuarterHourTime t = Inr ()"
  obtains h m ss where "h < 24" "m < 60" "5 dvd m" "ss = None \<or> ss = Some 0"
    "t = clock h m @ seconds_suffix ss"
proof -
  from assms obtain h m where hm: "h < 24" "m < 60" "5 dvd m"
    and "t = clock h m \<or> t = clock h m @ seconds_suffix (Some 0)"
    unfolding assertQuarterHourTime_iff by blast
  then consider "t = clock h m @ seconds_suffix None" | "t = clock h m @ seconds_suffix (Some 0)"
    by (auto simp: seconds_suffix_def)
  then show ?thesis using that [OF hm] by cases blast+
qed

lemma assertQuarterHourTime_valid: "assertQuarterHourTime t = Inr () \<Longrightarrow> regex_test TIME_REGEX t"
  by (auto simp: assertQuarterHourTime_def parseTimeParts_def split: if_splits)

lemma assertValidScheduleValues_iff:
  "assertValidScheduleValues d s e = Inr () \<longleftrightarrow>
     1 \<le> d \<and> d \<le> 5 \<and> assertQuarterHourTime s = Inr () \<and> assertQuarterHourTime e = Inr () \<and>
     num_less (timeToMinutes s) (timeToMinutes e)"
proof -
  have "\<not> num_ge (timeToMinutes s) (timeToMinutes e) \<longleftrightarrow> num_less (timeToMinutes s) (timeToMinutes e)"
    if "assertQuarterHourTime s = Inr ()" "assertQuarterHourTime e = Inr ()"
    using that [THEN assertQuarterHourTime_valid, THEN timeToMinutes_valid]
    by (auto simp: num_ge_def num_less_def)
  then show ?thesis
    by (auto simp: assertValidScheduleValues_def and_then_Inr_iff)
qed

lemma five_minutes_iff:
  "utc_seconds t = 0 \<and> utc_ms t = 0 \<and> utc_minutes t mod 5 = 0 \<longleftrightarrow> t mod 300000 = 0"
proof
  assume a: "utc_seconds t = 0 \<and> utc_ms t = 0 \<and> utc_minutes t mod 5 = 0"
  then obtain x where x: "t = 1000 * x" by (auto simp: utc_ms_def)
  with a have "60 dvd x" by (auto simp: utc_seconds_def)
  then obtain y where y: "x = 60 * y" by (auto elim: dvdE)
  have "y mod 60 mod 5 = 0" using a by (simp add: utc_minutes_def x y)
  then have "5 dvd y" by presburger
  then show "t mod 300000 = 0" by (auto simp: x y elim: dvdE)
next
  assume "t mod 300000 = 0"
  then obtain z where t: "t = 300000 * z" by (auto elim: dvdE)
  have "t div 1000 = 60 * (5 * z)" "t div 60000 = 5 * z" by (simp_all add: t)
  moreover have "5 * z mod 60 mod 5 = 0" by (simp add: mod_mod_cancel)
  ultimately show "utc_seconds t = 0 \<and> utc_ms t = 0 \<and> utc_minutes t mod 5 = 0"
    by (simp add: utc_seconds_def utc_ms_def utc_minutes_def) (simp add: t)
qed

lemma assertQuarterHourInstant_iff:
  "assertQuarterHourInstant d = Inr () \<longleftrightarrow> (\<exists>t. d = Some t \<and> t mod 300000 = 0)"
  by (cases d) (simp_all add: assertQuarterHourInstant_def and_then_Inr_iff SCHEDULE_TIME_STEP_MINUTES_def
      flip: five_minutes_iff)

lemma assertValidOneOff_iff:
  "assertValidOneOffScheduleValues s e = Inr () \<longleftrightarrow>
     (\<exists>a b. s = Some a \<and> e = Some b \<and> a mod 300000 = 0 \<and> b mod 300000 = 0 \<and> a < b)"
  by (auto simp: assertValidOneOffScheduleValues_def and_then_Inr_iff assertQuarterHourInstant_iff num_ge_def)

lemma clock_accepted: "h < 24 \<Longrightarrow> m < 60 \<Longrightarrow> 5 dvd m \<Longrightarrow> assertQuarterHourTime (clock h m) = Inr ()"
  using assertQuarterHourTime_iff by blast

lemma minute_loop_mem:
  "x \<in> set (minute_loop step stop m) \<Longrightarrow> 0 \<le> m \<Longrightarrow> 0 \<le> x \<and> x < 60 \<and> (x - m) mod step = 0"
proof (induction step stop m rule: minute_loop.induct)
  case (1 step stop m)
  show ?case
  proof (cases "x = m")
    case True
    then show ?thesis
      using 1 by (auto simp: minute_loop.simps [of step stop m] split: if_splits)
  next
    case False
    then have "m < 60" "0 < step" "x \<in> set (minute_loop step stop (m + step))" "\<not> (stop \<and> 0 < m)"
      using 1(2) by (auto simp: minute_loop.simps [of step stop m] split: if_splits)
    then have "0 \<le> x \<and> x < 60 \<and> (x - (m + step)) mod step = 0"
      using 1 by auto
    then show ?thesis
      by (metis add.commute diff_diff_eq2 diff_diff_eq minus_mod_self2)
  qed
qed

lemma hour_loop_mem:
  "x \<in> set (hour_loop e step h) \<Longrightarrow> 0 \<le> h \<Longrightarrow>
   \<exists>h' m. x = hh_mm h' m \<and> 0 \<le> h' \<and> h' \<le> e \<and> 0 \<le> m \<and> m < 60 \<and> m mod step = 0"
proof (induction e step h rule: hour_loop.induct)
  case (1 e step h)
  then have "h \<le> e" by (auto simp: hour_loop.simps [of e step h] split: if_splits)
  then consider m where "m \<in> set (minute_loop step (h = e) 0)" "x = hh_mm h m"
    | "x \<in> set (hour_loop e step (h + 1))"
    using 1(2) by (auto simp: hour_loop.simps [of e step h])
  then show ?case
  proof cases
    case 1
    then show ?thesis using \<open>h \<le> e\<close> \<open>0 \<le> h\<close> minute_loop_mem [OF 1(1)]
      by (intro exI [of _ h] exI [of _ m]) simp
  next
    case 2
    then show ?thesis using 1 \<open>h \<le> e\<close> by auto
  qed
qed

section \<open>Properties\<close>

text \<open>Printing a minute of the day and reading it back is the identity, in the client and in the
  API, and the API's normal form of any accepted time (with or without seconds) is what the
  client prints for its minute.\<close>
theorem time_of_day_roundtrip:
  "(0 \<le> n \<and> n < 1440 \<longrightarrow>
      parseTimeOfDayToMinutes (formatMinutesToTimeOfDay n) = Some n \<and>
      timeToMinutes (formatMinutesToTimeOfDay n) = Some n) \<and>
   (regex_test TIME_REGEX t \<longrightarrow>
      (\<exists>k. timeToMinutes t = Some k \<and> 0 \<le> k \<and> k < 1440 \<and> normalizeTimeHHMM t = formatMinutesToTimeOfDay k))"
proof (intro conjI impI)
  assume n: "0 \<le> n \<and> n < 1440"
  then have hm: "nat (n div 60 mod 24) < 24" "nat (n mod 60) < 60"
    by (simp_all add: nat_less_iff)
  have "n div 60 mod 24 = n div 60"
    using n by (intro mod_pos_pos_trivial) auto
  moreover have "0 \<le> n div 60" using n by (simp add: pos_imp_zdiv_nonneg_iff)
  ultimately have "int (60 * nat (n div 60 mod 24) + nat (n mod 60)) = n"
    using n by simp
  then show "parseTimeOfDayToMinutes (formatMinutesToTimeOfDay n) = Some n"
    "timeToMinutes (formatMinutesToTimeOfDay n) = Some n"
    using parse_clock [OF hm] timeToMinutes_clock [OF hm, of None] format_clock [of n] n
    by (simp_all only: parseTimeOfDay_eq seconds_suffix_def option.case append_Nil2) blast+
next
  assume "regex_test TIME_REGEX t"
  then obtain h m ss where hm: "h < 24" "m < 60" "\<forall>s. ss = Some s \<longrightarrow> s < 60"
    and t: "t = clock h m @ seconds_suffix ss"
    using valid_time_iff by blast
  have "nat (int (60 * h + m) div 60 mod 24) = h" "nat (int (60 * h + m) mod 60) = m"
    using hm by auto
  then have "normalizeTimeHHMM t = formatMinutesToTimeOfDay (int (60 * h + m))"
    using normalize_clock [OF hm] by (simp add: t format_clock)
  then show "\<exists>k. timeToMinutes t = Some k \<and> 0 \<le> k \<and> k < 1440 \<and> normalizeTimeHHMM t = formatMinutesToTimeOfDay k"
    using hm timeToMinutes_clock [OF hm] by (intro exI [of _ "int (60 * h + m)"]) (simp add: t)
qed

theorem time_of_day_roundtrip_witness:
  "timeToMinutes (formatMinutesToTimeOfDay 565) = Some 565 \<and>
   (\<exists>k. timeToMinutes ''09:25:00'' = Some k \<and> normalizeTimeHHMM ''09:25:00'' = formatMinutesToTimeOfDay k)"
proof -
  have "regex_test TIME_REGEX ''09:25:00''" by code_simp
  then show ?thesis
    using time_of_day_roundtrip [of 565 "''09:25:00''"] by auto
qed

text \<open>Every time the web client offers (the option list with the schedule step, or a time rounded
  down to the step) is one the API's validator accepts.\<close>
theorem client_times_accepted:
  "(t \<in> set (buildTimeOfDayOptions startHour endHour SCHEDULE_TIME_STEP_MINUTES) \<or>
    roundTimeOfDayDown v SCHEDULE_TIME_STEP_MINUTES = Some t) \<Longrightarrow> assertQuarterHourTime t = Inr ()"
proof (elim disjE)
  assume "t \<in> set (buildTimeOfDayOptions startHour endHour SCHEDULE_TIME_STEP_MINUTES)"
  then obtain h m where "t = hh_mm h m" "0 \<le> h" "h < 24" "0 \<le> m" "m < 60" "m mod 5 = 0"
    using hour_loop_mem by (fastforce simp: buildTimeOfDayOptions_def SCHEDULE_TIME_STEP_MINUTES_def split: if_splits)
  moreover from this have "5 dvd nat m" by presburger
  ultimately show ?thesis
    using clock_hh_mm [of h m] clock_accepted [of "nat h" "nat m"] by (simp add: nat_less_iff)
next
  assume "roundTimeOfDayDown v SCHEDULE_TIME_STEP_MINUTES = Some t"
  then obtain n where n: "parseTimeOfDayToMinutes v = Some n" "t = formatMinutesToTimeOfDay (n div 5 * 5)"
    by (auto simp: roundTimeOfDayDown_def SCHEDULE_TIME_STEP_MINUTES_def split: option.splits)
  then have "0 \<le> n"
    by (auto simp: parseTimeOfDayToMinutes_def Let_def split: option.splits if_splits)
  define k where "k = n div 5 * 5"
  have "0 \<le> k" "5 dvd k" using \<open>0 \<le> n\<close> by (simp_all add: k_def)
  then have "5 dvd k mod 60" by presburger
  then have "int 5 dvd int (nat (k mod 60))" by simp
  then have "5 dvd nat (k mod 60)" by (simp only: int_dvd_int_iff)
  then show ?thesis
    using n(2) format_clock [OF \<open>0 \<le> k\<close>] clock_accepted [of "nat (k div 60 mod 24)" "nat (k mod 60)"]
    by (simp add: k_def nat_less_iff)
qed

theorem client_times_accepted_witness: "assertQuarterHourTime ''08:35'' = Inr ()"
proof (rule client_times_accepted)
  have "roundTimeOfDayDown ''08:37'' SCHEDULE_TIME_STEP_MINUTES = Some ''08:35''" by code_simp
  then show "''08:35'' \<in> set (buildTimeOfDayOptions 0 0 SCHEDULE_TIME_STEP_MINUTES) \<or>
    roundTimeOfDayDown ''08:37'' SCHEDULE_TIME_STEP_MINUTES = Some ''08:35''" ..
qed

end
