(* ===== verification/Db_Tables.thy ===== *)
theory Db_Tables
  imports JS_Prelude "HOL-Library.Product_Lexorder" "HOL-Library.List_Lexorder" "HOL-Library.Char_ord"
begin

text \<open>
  The part of SQL the storage modules use.  A table is the list of its rows, in the order the
  database returns them; \<open>select ... where\<close> is \<open>filter\<close>, \<open>limit 1\<close> the first such row,
  \<open>order by\<close> a stable sort with null last, \<open>update\<close> and \<open>delete\<close> act on every row the
  condition selects.  A date is the number of milliseconds since 1970-01-01 UTC; a nullable
  column is an option, and a comparison with null selects nothing.

  \<open>record_store\<close> is the contract a storage module relies on for a table with a primary key;
  \<open>timetable\<close> the argument by which checking every change against the rows it could clash
  with keeps all rows apart.
\<close>

type_synonym 'row table = "'row list"

definition sel_where :: "('row \<Rightarrow> bool) \<Rightarrow> 'row table \<Rightarrow> 'row list" where
  "sel_where P t = filter P t"

definition sel_first :: "('row \<Rightarrow> bool) \<Rightarrow> 'row table \<Rightarrow> 'row option" where
  "sel_first P t = List.find P t"

definition upd_where :: "('row \<Rightarrow> bool) \<Rightarrow> ('row \<Rightarrow> 'row) \<Rightarrow> 'row table \<Rightarrow> 'row table" where
  "upd_where P f t = map (\<lambda>r. if P r then f r else r) t"

definition del_where :: "('row \<Rightarrow> bool) \<Rightarrow> 'row table \<Rightarrow> 'row table" where
  "del_where P t = filter (\<lambda>r. \<not> P r) t"

definition count_where :: "('row \<Rightarrow> bool) \<Rightarrow> 'row table \<Rightarrow> nat" where
  "count_where P t = length (filter P t)"

definition ins_row :: "'row \<Rightarrow> 'row table \<Rightarrow> 'row table" where
  "ins_row r t = t @ [r]"

text \<open>The sort key of a nullable column in ascending order.\<close>

definition null_last :: "int option \<Rightarrow> bool \<times> int" where
  "null_last x = (case x of None \<Rightarrow> (True, 0) | Some n \<Rightarrow> (False, n))"

definition lt_null :: "int option \<Rightarrow> int option \<Rightarrow> bool" where
  "lt_null x y \<longleftrightarrow> (case (x, y) of (Some a, Some b) \<Rightarrow> a < b | _ \<Rightarrow> False)"

definition le_null :: "int option \<Rightarrow> int option \<Rightarrow> bool" where
  "le_null x y \<longleftrightarrow> (case (x, y) of (Some a, Some b) \<Rightarrow> a \<le> b | _ \<Rightarrow> False)"

definition eq_null :: "'a option \<Rightarrow> 'a option \<Rightarrow> bool" where
  "eq_null x y \<longleftrightarrow> (case (x, y) of (Some a, Some b) \<Rightarrow> a = b | _ \<Rightarrow> False)"

lemmas sql_defs = sel_where_def sel_first_def upd_where_def del_where_def count_where_def ins_row_def

lemma null_cmp_simps [simp]:
  "lt_null (Some a) (Some b) \<longleftrightarrow> a < b" "\<not> lt_null None y" "\<not> lt_null x None"
  "le_null (Some a) (Some b) \<longleftrightarrow> a \<le> b" "\<not> le_null None y" "\<not> le_null x None"
  "eq_null (Some c) (Some d) \<longleftrightarrow> c = d" "\<not> eq_null None z" "\<not> eq_null w None"
  by (simp_all add: lt_null_def le_null_def eq_null_def split: option.splits)

section \<open>Finding rows\<close>

lemma find_SomeD: "List.find P xs = Some x \<Longrightarrow> x \<in> set xs \<and> P x"
  by (induction xs) (auto split: if_splits)

lemma find_None_iff: "List.find P xs = None \<longleftrightarrow> (\<forall>x\<in>set xs. \<not> P x)"
  by (induction xs) auto

lemma find_append: "List.find P (xs @ ys) = (case List.find P xs of Some x \<Rightarrow> Some x | None \<Rightarrow> List.find P ys)"
  by (induction xs) auto

lemma find_filter: "List.find P (filter Q xs) = List.find (\<lambda>x. Q x \<and> P x) xs"
  by (induction xs) auto

lemma find_hd_filter: "List.find P xs = (case filter P xs of [] \<Rightarrow> None | y # _ \<Rightarrow> Some y)"
  by (induction xs) auto

lemma sel_first_SomeD: "sel_first P t = Some r \<Longrightarrow> r \<in> set t \<and> P r"
  by (auto simp: sel_first_def dest: find_SomeD)

lemma sel_first_None_iff: "sel_first P t = None \<longleftrightarrow> (\<forall>r\<in>set t. \<not> P r)"
  by (simp add: sel_first_def find_None_iff)

lemma sel_first_ex: "r \<in> set t \<Longrightarrow> P r \<Longrightarrow> \<exists>r'. sel_first P t = Some r'"
  using sel_first_None_iff by (metis option.exhaust)

section \<open>Primary keys\<close>

definition distinct_key :: "('row \<Rightarrow> 'id) \<Rightarrow> 'row table \<Rightarrow> bool" where
  "distinct_key key t \<longleftrightarrow> distinct (map key t)"

definition row_by :: "('row \<Rightarrow> 'id) \<Rightarrow> 'id \<Rightarrow> 'row table \<Rightarrow> 'row option" where
  "row_by key i t = sel_first (\<lambda>r. key r = i) t"

definition upd_by :: "('row \<Rightarrow> 'id) \<Rightarrow> 'id \<Rightarrow> ('row \<Rightarrow> 'row) \<Rightarrow> 'row table \<Rightarrow> 'row table" where
  "upd_by key i f t = upd_where (\<lambda>r. key r = i) f t"

definition del_by :: "('row \<Rightarrow> 'id) \<Rightarrow> 'id \<Rightarrow> 'row table \<Rightarrow> 'row table" where
  "del_by key i t = del_where (\<lambda>r. key r = i) t"

lemma row_by_SomeD: "row_by key i t = Some r \<Longrightarrow> r \<in> set t \<and> key r = i"
  by (auto simp: row_by_def dest: sel_first_SomeD)

lemma row_by_None_iff: "row_by key i t = None \<longleftrightarrow> i \<notin> key ` set t"
  by (auto simp: row_by_def sel_first_None_iff)

lemma row_by_unique: "distinct_key key t \<Longrightarrow> r \<in> set t \<Longrightarrow> row_by key (key r) t = Some r"
  unfolding row_by_def sel_first_def distinct_key_def
  by (induction t) auto

lemma row_by_ins:
  "row_by key i (ins_row r t) =
     (case row_by key i t of Some x \<Rightarrow> Some x | None \<Rightarrow> if key r = i then Some r else None)"
  by (simp add: row_by_def sel_first_def ins_row_def find_append split: option.splits)

lemma row_by_upd:
  "(\<And>r. key (f r) = key r) \<Longrightarrow>
   row_by key i (upd_by key j f t) = (if i = j then map_option f (row_by key i t) else row_by key i t)"
  unfolding row_by_def upd_by_def upd_where_def sel_first_def
  by (induction t) auto

lemma row_by_del: "row_by key i (del_by key j t) = (if i = j then None else row_by key i t)"
  unfolding row_by_def del_by_def del_where_def sel_first_def
  by (induction t) auto

lemma distinct_key_ins:
  "distinct_key key (ins_row r t) \<longleftrightarrow> distinct_key key t \<and> row_by key (key r) t = None"
  by (auto simp: distinct_key_def ins_row_def row_by_None_iff)

lemma distinct_key_del_where: "distinct_key key t \<Longrightarrow> distinct_key key (del_where P t)"
  by (simp add: distinct_key_def del_where_def distinct_map_filter)

lemma distinct_key_upd_where:
  "(\<And>r. key (f r) = key r) \<Longrightarrow> distinct_key key (upd_where P f t) \<longleftrightarrow> distinct_key key t"
  by (simp add: distinct_key_def upd_where_def comp_def if_distrib cong: if_cong)

lemma distinct_key_del_by: "distinct_key key t \<Longrightarrow> distinct_key key (del_by key i t)"
  by (simp add: del_by_def distinct_key_del_where)

lemma distinct_key_upd_by:
  "(\<And>r. key (f r) = key r) \<Longrightarrow> distinct_key key (upd_by key i f t) \<longleftrightarrow> distinct_key key t"
  by (simp add: upd_by_def distinct_key_upd_where)

lemma upd_by_const:
  "distinct_key key t \<Longrightarrow> row_by key i t = Some r \<Longrightarrow> upd_by key i f t = upd_by key i (\<lambda>_. f r) t"
  unfolding upd_by_def upd_where_def
  by (rule map_cong) (auto dest: row_by_unique [of key t])

lemma row_by_upd_by:
  "row_by key i t = Some r \<Longrightarrow> (\<And>r. key (f r) = key r) \<Longrightarrow> row_by key i (upd_by key i f t) = Some (f r)"
  by (simp add: row_by_upd)

lemma distinct_key_eq: "distinct_key key t \<Longrightarrow> a \<in> set t \<Longrightarrow> b \<in> set t \<Longrightarrow> key a = key b \<Longrightarrow> a = b"
  unfolding distinct_key_def by (metis distinct_map inj_onD)

lemma upd_by_upd_const:
  "(\<And>r. key (f r) = key r) \<Longrightarrow> upd_by key i (\<lambda>_. c) (upd_by key i f t) = upd_by key i (\<lambda>_. c) t"
  by (simp add: upd_by_def upd_where_def comp_def)

lemma del_by_upd: "(\<And>r. key (f r) = key r) \<Longrightarrow> del_by key i (upd_by key i f t) = del_by key i t"
  by (induction t) (auto simp: upd_by_def upd_where_def del_by_def del_where_def)

lemma row_by_del_where:
  "distinct_key key t \<Longrightarrow> row_by key i (del_where P t) = Some r \<Longrightarrow> row_by key i t = Some r"
  using row_by_unique [of key t r] by (auto simp: del_where_def dest!: row_by_SomeD)

locale record_store =
  fixes inv :: "'tab \<Rightarrow> bool"
    and key :: "'row \<Rightarrow> 'id"
    and lookup :: "'id \<Rightarrow> 'tab \<Rightarrow> 'row option"
    and add :: "'row \<Rightarrow> 'tab \<Rightarrow> 'tab"
    and change :: "'id \<Rightarrow> ('row \<Rightarrow> 'row) \<Rightarrow> 'tab \<Rightarrow> 'tab"
    and remove :: "'id \<Rightarrow> 'tab \<Rightarrow> 'tab"
  assumes lookup_key: "lookup i t = Some r \<Longrightarrow> key r = i"
    and lookup_add: "lookup (key r) t = None \<Longrightarrow> lookup i (add r t) = (if i = key r then Some r else lookup i t)"
    and lookup_change: "(\<And>r. key (f r) = key r) \<Longrightarrow>
           lookup i (change j f t) = (if i = j then map_option f (lookup i t) else lookup i t)"
    and lookup_remove: "lookup i (remove j t) = (if i = j then None else lookup i t)"
    and inv_add: "inv t \<Longrightarrow> lookup (key r) t = None \<Longrightarrow> inv (add r t)"
    and inv_change: "inv t \<Longrightarrow> (\<And>r. key (f r) = key r) \<Longrightarrow> inv (change j f t)"
    and inv_remove: "inv t \<Longrightarrow> inv (remove j t)"
begin

lemma remove_add: "lookup (key r) t = None \<Longrightarrow> lookup i (remove (key r) (add r t)) = lookup i t"
  by (simp add: lookup_remove lookup_add)

lemma add_other: "lookup (key r) t = None \<Longrightarrow> i \<noteq> key r \<Longrightarrow> lookup i (add r t) = lookup i t"
  by (simp add: lookup_add)

lemma change_twice:
  "(\<And>r. key (f r) = key r) \<Longrightarrow> (\<And>r. key (g r) = key r) \<Longrightarrow>
   lookup i (change j g (change j f t)) = lookup i (change j (g \<circ> f) t)"
  by (simp add: lookup_change option.map_comp)

lemma remove_change:
  "(\<And>r. key (f r) = key r) \<Longrightarrow> lookup i (remove j (change j f t)) = lookup i (remove j t)"
  by (simp add: lookup_remove lookup_change)

end

lemma record_store_table: "record_store (distinct_key key) key (row_by key) ins_row (upd_by key) (del_by key)"
proof
  show "key r = i" if "row_by key i t = Some r" for i t r
    using row_by_SomeD [OF that] by simp
qed (auto simp: row_by_ins row_by_upd row_by_del distinct_key_ins distinct_key_upd_by
      distinct_key_del_by split: option.splits dest: row_by_SomeD)

section \<open>Rows that must not clash\<close>

definition pairwise_apart :: "('row \<Rightarrow> 'row \<Rightarrow> bool) \<Rightarrow> 'row table \<Rightarrow> bool" where
  "pairwise_apart clash t \<longleftrightarrow> sorted_wrt (\<lambda>a b. \<not> clash a b) t"

locale timetable =
  fixes clash :: "'row \<Rightarrow> 'row \<Rightarrow> bool" and key :: "'row \<Rightarrow> 'id"
  assumes clash_sym: "clash a b \<Longrightarrow> clash b a"
begin

lemma apart_ins:
  "pairwise_apart clash t \<Longrightarrow> (\<And>r. r \<in> set t \<Longrightarrow> \<not> clash new r) \<Longrightarrow> pairwise_apart clash (ins_row new t)"
  using clash_sym by (auto simp: pairwise_apart_def ins_row_def sorted_wrt_append)

lemma apart_del: "pairwise_apart clash t \<Longrightarrow> pairwise_apart clash (del_where P t)"
  by (simp add: pairwise_apart_def del_where_def sorted_wrt_filter)

lemma apart_mem:
  "pairwise_apart clash t \<Longrightarrow> distinct_key key t \<Longrightarrow> a \<in> set t \<Longrightarrow> b \<in> set t \<Longrightarrow> key a \<noteq> key b \<Longrightarrow>
   \<not> clash a b"
  unfolding pairwise_apart_def using clash_sym
  by (induction t) (auto simp: distinct_key_def)

lemma apart_upd:
  assumes "distinct_key key t" "pairwise_apart clash t"
    and "\<And>r. r \<in> set t \<Longrightarrow> key r \<noteq> i \<Longrightarrow> \<not> clash new r" and "key new = i"
  shows "pairwise_apart clash (upd_by key i (\<lambda>_. new) t)"
  using assms
proof (induction t)
  case (Cons x t)
  have tl: "pairwise_apart clash (upd_by key i (\<lambda>_. new) t)"
    using Cons by (auto simp: pairwise_apart_def distinct_key_def)
  show ?case
  proof (cases "key x = i")
    case True
    then have "key r \<noteq> i" if "r \<in> set t" for r
      using Cons.prems(1) that
      by (metis distinct.simps(2) distinct_key_def image_eqI list.simps(9) set_map)
    then show ?thesis
      using True tl Cons.prems(3) by (auto simp: pairwise_apart_def upd_by_def upd_where_def)
  next
    case False
    then have "\<not> clash new x" using Cons.prems(3) by auto
    then have "\<not> clash x new" using clash_sym by blast
    then show ?thesis
      using False tl Cons.prems(2) by (auto simp: pairwise_apart_def upd_by_def upd_where_def)
  qed
qed (simp add: upd_by_def upd_where_def pairwise_apart_def)

end

end
