(* ===== verification/Schedules.thy ===== *)
theory Schedules
  imports Schedule_Time Db_Tables
begin

text \<open>
  Class schedules: \<open>api/src/lib/schedule-storage-shared.ts\<close>, \<open>schedule-storage-command.ts\<close> and
  \<open>schedule-storage-query.ts\<close> over the \<open>schedules\<close> table of \<open>api/src/db/schema.ts\<close>.

  A \<open>time\<close> column holds seconds since midnight and reads back as \<open>HH:MM:SS\<close>.  The server's time
  zone is the function \<open>tz\<close> from an instant to its offset in milliseconds.  The identifier the
  code draws at random and the current time are arguments.  An operation that throws leaves the
  table as it was.
\<close>

record schedule_row =
  sch_id :: string
  sch_classroomId :: string
  sch_teacherId :: string
  sch_groupId :: string
  sch_dayOfWeek :: "int option"
  sch_startTime :: "int option"
  sch_endTime :: "int option"
  sch_startAt :: "int option"
  sch_endAt :: "int option"
  sch_recurrence :: "string option"
  sch_createdAt :: "int option"
  sch_updatedAt :: "int option"

datatype schedule_error = Schedule_error string | Schedule_conflict schedule_row

record create_schedule_input =
  csi_classroomId :: string
  csi_teacherId :: string
  csi_groupId :: string
  csi_dayOfWeek :: int
  csi_startTime :: string
  csi_endTime :: string

record create_one_off_input =
  coi_classroomId :: string
  coi_teacherId :: string
  coi_groupId :: string
  coi_startAt :: "int option"
  coi_endAt :: "int option"

record update_schedule_input =
  usi_dayOfWeek :: "int option"
  usi_startTime :: "string option"
  usi_endTime :: "string option"
  usi_groupId :: "string option"

text \<open>A one-off update carries dates: the outer option is presence, the inner an invalid date.\<close>

record update_one_off_input =
  uoi_startAt :: "int option option"
  uoi_endAt :: "int option option"
  uoi_groupId :: "string option"

section \<open>SQL times\<close>

definition sql_time :: "string \<Rightarrow> int option" where
  "sql_time s =
     (if \<not> regex_test TIME_REGEX s then None
      else case (js_number (group_hh s), js_number (group_mm s),
                 js_number (case group_ss s of Some x \<Rightarrow> x | None \<Rightarrow> ''0'')) of
        (Some h, Some m, Some x) \<Rightarrow> Some (h * 3600 + m * 60 + x)
      | _ \<Rightarrow> None)"

definition time_text :: "int \<Rightarrow> string" where
  "time_text n = hh_mm (n div 3600) (n div 60 mod 60) @ '':'' @ pad2 (int_str (n mod 60))"

text \<open>\<open>(s1, e1) OVERLAPS (s2, e2)\<close>: the ends of each period in order, half-open, and two periods
  with the same start overlap.\<close>

definition sql_overlaps :: "int option \<Rightarrow> int option \<Rightarrow> int option \<Rightarrow> int option \<Rightarrow> bool" where
  "sql_overlaps x1 y1 x2 y2 \<longleftrightarrow>
     (case (x1, y1, x2, y2) of
        (Some a, Some b, Some c, Some d) \<Rightarrow>
          (let s1 = min a b; e1 = max a b; s2 = min c d; e2 = max c d
           in if s1 > s2 then s1 < e2 else if s1 < s2 then s2 < e1 else True)
      | _ \<Rightarrow> False)"

section \<open>Queries\<close>

definition weeklyRecurrence :: "schedule_row \<Rightarrow> bool" where
  "weeklyRecurrence r \<longleftrightarrow> sch_recurrence r = Some ''weekly'' \<or> sch_recurrence r = None"

definition oneOffRecurrence :: "schedule_row \<Rightarrow> bool" where
  "oneOffRecurrence r \<longleftrightarrow> sch_recurrence r = Some ''one_off''"

definition findOneOffConflict ::
  "string \<Rightarrow> int option \<Rightarrow> int option \<Rightarrow> string option \<Rightarrow> schedule_row table \<Rightarrow> schedule_row option" where
  "findOneOffConflict classroomId startAt endAt excludeId t =
     sel_first (\<lambda>r. sch_classroomId r = classroomId \<and> oneOffRecurrence r \<and>
                    lt_null (sch_startAt r) endAt \<and> lt_null startAt (sch_endAt r) \<and>
                    (case excludeId of Some i \<Rightarrow> sch_id r \<noteq> i | None \<Rightarrow> True)) t"

definition findConflict ::
  "string \<Rightarrow> int \<Rightarrow> string \<Rightarrow> string \<Rightarrow> string option \<Rightarrow> schedule_row table \<Rightarrow> schedule_row option" where
  "findConflict classroomId dayOfWeek startTime endTime excludeId t =
     sel_first (\<lambda>r. sch_classroomId r = classroomId \<and> weeklyRecurrence r \<and>
                    sch_dayOfWeek r = Some dayOfWeek \<and>
                    sql_overlaps (sql_time startTime) (sql_time endTime) (sch_startTime r) (sch_endTime r) \<and>
                    (case excludeId of Some i \<Rightarrow> sch_id r \<noteq> i | None \<Rightarrow> True)) t"

definition getScheduleById :: "string \<Rightarrow> schedule_row table \<Rightarrow> schedule_row option" where
  "getScheduleById i t = row_by sch_id i t"

definition weekly_order :: "schedule_row \<Rightarrow> (bool \<times> int) \<times> (bool \<times> int)" where
  "weekly_order r = (null_last (sch_dayOfWeek r), null_last (sch_startTime r))"

definition getSchedulesByClassroom :: "string \<Rightarrow> schedule_row table \<Rightarrow> schedule_row list" where
  "getSchedulesByClassroom classroomId t =
     sort_key weekly_order (sel_where (\<lambda>r. sch_classroomId r = classroomId \<and> weeklyRecurrence r) t)"

definition getSchedulesByTeacher :: "string \<Rightarrow> schedule_row table \<Rightarrow> schedule_row list" where
  "getSchedulesByTeacher teacherId t =
     sort_key weekly_order (sel_where (\<lambda>r. sch_teacherId r = teacherId \<and> weeklyRecurrence r) t)"

definition getOneOffSchedulesByClassroom :: "string \<Rightarrow> schedule_row table \<Rightarrow> schedule_row list" where
  "getOneOffSchedulesByClassroom classroomId t =
     sort_key (\<lambda>r. null_last (sch_startAt r))
       (sel_where (\<lambda>r. sch_classroomId r = classroomId \<and> oneOffRecurrence r) t)"

definition getOneOffSchedulesByTeacher :: "string \<Rightarrow> schedule_row table \<Rightarrow> schedule_row list" where
  "getOneOffSchedulesByTeacher teacherId t =
     sort_key (\<lambda>r. null_last (sch_startAt r))
       (sel_where (\<lambda>r. sch_teacherId r = teacherId \<and> oneOffRecurrence r) t)"

text \<open>\<open>date.getDay()\<close>, \<open>date.toTimeString().slice(0, 5)\<close> and \<open>setSeconds(0, 0)\<close> in the server's zone.\<close>

definition get_day :: "(int \<Rightarrow> int) \<Rightarrow> int \<Rightarrow> int" where
  "get_day tz d = ((d + tz d) div 86400000 + 4) mod 7"

definition local_minute :: "(int \<Rightarrow> int) \<Rightarrow> int \<Rightarrow> int" where
  "local_minute tz d = (d + tz d) mod 86400000 div 60000"

definition time_string_hhmm :: "(int \<Rightarrow> int) \<Rightarrow> int \<Rightarrow> string" where
  "time_string_hhmm tz d = hh_mm (local_minute tz d div 60) (local_minute tz d mod 60)"

definition floor_minute :: "(int \<Rightarrow> int) \<Rightarrow> int \<Rightarrow> int" where
  "floor_minute tz d = d - (d + tz d) mod 60000"

definition one_off_active :: "int \<Rightarrow> schedule_row \<Rightarrow> bool" where
  "one_off_active date r \<longleftrightarrow>
     oneOffRecurrence r \<and> le_null (sch_startAt r) (Some date) \<and> lt_null (Some date) (sch_endAt r)"

definition weekly_active :: "(int \<Rightarrow> int) \<Rightarrow> int \<Rightarrow> schedule_row \<Rightarrow> bool" where
  "weekly_active tz date r \<longleftrightarrow>
     weeklyRecurrence r \<and> sch_dayOfWeek r = Some (get_day tz date) \<and>
     le_null (sch_startTime r) (sql_time (time_string_hhmm tz date)) \<and>
     lt_null (sql_time (time_string_hhmm tz date)) (sch_endTime r)"

definition weekend :: "int \<Rightarrow> bool" where
  "weekend d \<longleftrightarrow> d = 0 \<or> d = 6"

definition first_of :: "'a list \<Rightarrow> 'a option" where
  "first_of xs = (case xs of [] \<Rightarrow> None | x # _ \<Rightarrow> Some x)"

definition getCurrentSchedule ::
  "(int \<Rightarrow> int) \<Rightarrow> string \<Rightarrow> int \<Rightarrow> schedule_row table \<Rightarrow> schedule_row option" where
  "getCurrentSchedule tz classroomId date t =
     (let oneOff = sort_key (\<lambda>r. null_last (sch_startAt r))
            (sel_where (\<lambda>r. sch_classroomId r = classroomId \<and> one_off_active date r) t)
      in case first_of oneOff of
           Some r \<Rightarrow> Some r
         | None \<Rightarrow>
             if weekend (get_day tz date) then None
             else sel_first (\<lambda>r. sch_classroomId r = classroomId \<and> weekly_active tz date r) t)"

text \<open>The loop \<open>if (!result.has(k)) result.set(k, row)\<close> over rows.\<close>

fun put_absent :: "('row \<Rightarrow> 'k) \<Rightarrow> 'row list \<Rightarrow> ('k \<times> 'row) list \<Rightarrow> ('k \<times> 'row) list" where
  "put_absent key [] m = m"
| "put_absent key (r # rs) m =
     put_absent key rs (if map_of m (key r) = None then m @ [(key r, r)] else m)"

definition getCurrentSchedulesByClassroomIds ::
  "(int \<Rightarrow> int) \<Rightarrow> string list \<Rightarrow> int \<Rightarrow> schedule_row table \<Rightarrow> (string \<times> schedule_row) list" where
  "getCurrentSchedulesByClassroomIds tz classroomIds date t =
     (let ids = js_unique (filter (\<lambda>i. length i > 0) classroomIds)
      in if ids = [] then []
         else
           let oneOffRows = sort_key (\<lambda>r. (sch_classroomId r, null_last (sch_startAt r)))
                 (sel_where (\<lambda>r. sch_classroomId r \<in> set ids \<and> one_off_active date r) t);
               result = put_absent sch_classroomId oneOffRows [];
               unresolved = filter (\<lambda>i. map_of result i = None) ids
           in if unresolved = [] \<or> weekend (get_day tz date) then result
              else
                let weeklyRows = sort_key (\<lambda>r. (sch_classroomId r, null_last (sch_startTime r)))
                      (sel_where (\<lambda>r. sch_classroomId r \<in> set unresolved \<and> weekly_active tz date r) t)
                in put_absent sch_classroomId weeklyRows result)"

definition getClassroomIdsWithBoundaryAt ::
  "(int \<Rightarrow> int) \<Rightarrow> int \<Rightarrow> schedule_row table \<Rightarrow> string list" where
  "getClassroomIdsWithBoundaryAt tz date t =
     (let floored = floor_minute tz date;
          oneOffRows = sel_where (\<lambda>r. oneOffRecurrence r \<and>
            (sch_startAt r = Some floored \<or> sch_endAt r = Some floored)) t;
          currentTime = sql_time (time_string_hhmm tz date);
          weeklyRows = (if weekend (get_day tz date) then []
            else sel_where (\<lambda>r. weeklyRecurrence r \<and> sch_dayOfWeek r = Some (get_day tz date) \<and>
              (eq_null (sch_startTime r) currentTime \<or> eq_null (sch_endTime r) currentTime)) t)
      in js_unique (map sch_classroomId (oneOffRows @ weeklyRows)))"

section \<open>Commands\<close>

definition sched_err :: "string + 'a \<Rightarrow> schedule_error + 'a" where
  "sched_err x = (case x of Inl e \<Rightarrow> Inl (Schedule_error e) | Inr a \<Rightarrow> Inr a)"

definition no_conflict :: "schedule_row option \<Rightarrow> schedule_error + unit" where
  "no_conflict c = (case c of Some r \<Rightarrow> Inl (Schedule_conflict r) | None \<Rightarrow> Inr ())"

definition createOneOffSchedule ::
  "string \<Rightarrow> int \<Rightarrow> create_one_off_input \<Rightarrow> schedule_row table \<Rightarrow>
   schedule_error + schedule_row \<times> schedule_row table" where
  "createOneOffSchedule newId now d t =
     and_then (sched_err (assertValidOneOffScheduleValues (coi_startAt d) (coi_endAt d))) (\<lambda>_.
     and_then (no_conflict (findOneOffConflict (coi_classroomId d) (coi_startAt d) (coi_endAt d) None t)) (\<lambda>_.
       let row = \<lparr>sch_id = newId, sch_classroomId = coi_classroomId d, sch_teacherId = coi_teacherId d,
                  sch_groupId = coi_groupId d, sch_dayOfWeek = None, sch_startTime = None,
                  sch_endTime = None, sch_startAt = coi_startAt d, sch_endAt = coi_endAt d,
                  sch_recurrence = Some ''one_off'', sch_createdAt = Some now, sch_updatedAt = Some now\<rparr>
       in Inr (row, ins_row row t)))"

definition createSchedule ::
  "string \<Rightarrow> int \<Rightarrow> create_schedule_input \<Rightarrow> schedule_row table \<Rightarrow>
   schedule_error + schedule_row \<times> schedule_row table" where
  "createSchedule newId now d t =
     and_then (sched_err (assertValidScheduleValues (csi_dayOfWeek d) (csi_startTime d) (csi_endTime d))) (\<lambda>_.
     and_then (no_conflict (findConflict (csi_classroomId d) (csi_dayOfWeek d) (csi_startTime d)
                              (csi_endTime d) None t)) (\<lambda>_.
       let row = \<lparr>sch_id = newId, sch_classroomId = csi_classroomId d, sch_teacherId = csi_teacherId d,
                  sch_groupId = csi_groupId d, sch_dayOfWeek = Some (csi_dayOfWeek d),
                  sch_startTime = sql_time (csi_startTime d), sch_endTime = sql_time (csi_endTime d),
                  sch_startAt = None, sch_endAt = None,
                  sch_recurrence = Some ''weekly'', sch_createdAt = Some now, sch_updatedAt = Some now\<rparr>
       in Inr (row, ins_row row t)))"

definition set_weekly :: "update_schedule_input \<Rightarrow> schedule_row \<Rightarrow> schedule_row" where
  "set_weekly u r = r\<lparr>
     sch_dayOfWeek := (case usi_dayOfWeek u of Some d \<Rightarrow> Some d | None \<Rightarrow> sch_dayOfWeek r),
     sch_startTime := (case usi_startTime u of Some s \<Rightarrow> sql_time s | None \<Rightarrow> sch_startTime r),
     sch_endTime := (case usi_endTime u of Some s \<Rightarrow> sql_time s | None \<Rightarrow> sch_endTime r),
     sch_groupId := (case usi_groupId u of Some g \<Rightarrow> g | None \<Rightarrow> sch_groupId r)\<rparr>"

definition updateSchedule ::
  "string \<Rightarrow> update_schedule_input \<Rightarrow> schedule_row table \<Rightarrow>
   schedule_error + schedule_row option \<times> schedule_row table" where
  "updateSchedule i u t =
     (case getScheduleById i t of
        None \<Rightarrow> Inr (None, t)
      | Some schedule \<Rightarrow>
          if sch_recurrence schedule = Some ''one_off''
          then Inl (Schedule_error ''Cannot update one-off schedule with weekly updater'')
          else (case (sch_dayOfWeek schedule, sch_startTime schedule, sch_endTime schedule) of
            (Some baseDay, Some baseStart, Some baseEnd) \<Rightarrow>
              (let newDay = (case usi_dayOfWeek u of Some d \<Rightarrow> d | None \<Rightarrow> baseDay);
                   newStart = (case usi_startTime u of Some s \<Rightarrow> s | None \<Rightarrow> time_text baseStart);
                   newEnd = (case usi_endTime u of Some s \<Rightarrow> s | None \<Rightarrow> time_text baseEnd)
               in and_then (sched_err (assertValidScheduleValues newDay newStart newEnd)) (\<lambda>_.
                  and_then (no_conflict (findConflict (sch_classroomId schedule) newDay newStart newEnd (Some i) t)) (\<lambda>_.
                    if usi_dayOfWeek u = None \<and> usi_startTime u = None \<and> usi_endTime u = None \<and> usi_groupId u = None
                    then Inr (Some schedule, t)
                    else (let t' = upd_by sch_id i (set_weekly u) t in Inr (row_by sch_id i t', t')))))
          | _ \<Rightarrow> Inl (Schedule_error ''Weekly schedule is missing required fields'')))"

definition set_one_off :: "int \<Rightarrow> update_one_off_input \<Rightarrow> schedule_row \<Rightarrow> schedule_row" where
  "set_one_off now u r = r\<lparr>
     sch_startAt := (case uoi_startAt u of Some d \<Rightarrow> d | None \<Rightarrow> sch_startAt r),
     sch_endAt := (case uoi_endAt u of Some d \<Rightarrow> d | None \<Rightarrow> sch_endAt r),
     sch_groupId := (case uoi_groupId u of Some g \<Rightarrow> g | None \<Rightarrow> sch_groupId r),
     sch_updatedAt := Some now\<rparr>"

definition updateOneOffSchedule ::
  "int \<Rightarrow> string \<Rightarrow> update_one_off_input \<Rightarrow> schedule_row table \<Rightarrow>
   schedule_error + schedule_row option \<times> schedule_row table" where
  "updateOneOffSchedule now i u t =
     (case getScheduleById i t of
        None \<Rightarrow> Inr (None, t)
      | Some schedule \<Rightarrow>
          if sch_recurrence schedule \<noteq> Some ''one_off''
          then Inl (Schedule_error ''Cannot update weekly schedule with one-off updater'')
          else if sch_startAt schedule = None \<or> sch_endAt schedule = None
          then Inl (Schedule_error ''One-off schedule is missing required fields'')
          else
            (let newStart = (case uoi_startAt u of Some d \<Rightarrow> d | None \<Rightarrow> sch_startAt schedule);
                 newEnd = (case uoi_endAt u of Some d \<Rightarrow> d | None \<Rightarrow> sch_endAt schedule)
             in and_then (sched_err (assertValidOneOffScheduleValues newStart newEnd)) (\<lambda>_.
                and_then (no_conflict (findOneOffConflict (sch_classroomId schedule) newStart newEnd (Some i) t)) (\<lambda>_.
                  if uoi_startAt u = None \<and> uoi_endAt u = None \<and> uoi_groupId u = None
                  then Inr (Some schedule, t)
                  else (let t' = upd_by sch_id i (set_one_off now u) t in Inr (row_by sch_id i t', t'))))))"

definition deleteSchedule :: "string \<Rightarrow> schedule_row table \<Rightarrow> bool \<times> schedule_row table" where
  "deleteSchedule i t = (count_where (\<lambda>r. sch_id r = i) t > 0, del_by sch_id i t)"

definition deleteSchedulesByClassroom :: "string \<Rightarrow> schedule_row table \<Rightarrow> nat \<times> schedule_row table" where
  "deleteSchedulesByClassroom c t =
     (count_where (\<lambda>r. sch_classroomId r = c) t, del_where (\<lambda>r. sch_classroomId r = c) t)"


section \<open>Well-formed timetables\<close>

definition weekly_row_ok :: "schedule_row \<Rightarrow> bool" where
  "weekly_row_ok r \<longleftrightarrow> weeklyRecurrence r \<and>
     (case (sch_dayOfWeek r, sch_startTime r, sch_endTime r) of
        (Some d, Some s, Some e) \<Rightarrow>
          1 \<le> d \<and> d \<le> 5 \<and> 0 \<le> s \<and> s < e \<and> e < 86400 \<and> s mod 300 = 0 \<and> e mod 300 = 0
      | _ \<Rightarrow> False)"

definition one_off_row_ok :: "schedule_row \<Rightarrow> bool" where
  "one_off_row_ok r \<longleftrightarrow> oneOffRecurrence r \<and>
     (case (sch_startAt r, sch_endAt r) of
        (Some s, Some e) \<Rightarrow> s < e \<and> s mod 300000 = 0 \<and> e mod 300000 = 0
      | _ \<Rightarrow> False)"

definition weekly_clash :: "schedule_row \<Rightarrow> schedule_row \<Rightarrow> bool" where
  "weekly_clash a b \<longleftrightarrow>
     weeklyRecurrence a \<and> weeklyRecurrence b \<and> sch_classroomId a = sch_classroomId b \<and>
     eq_null (sch_dayOfWeek a) (sch_dayOfWeek b) \<and>
     lt_null (sch_startTime a) (sch_endTime b) \<and> lt_null (sch_startTime b) (sch_endTime a)"

definition one_off_clash :: "schedule_row \<Rightarrow> schedule_row \<Rightarrow> bool" where
  "one_off_clash a b \<longleftrightarrow>
     oneOffRecurrence a \<and> oneOffRecurrence b \<and> sch_classroomId a = sch_classroomId b \<and>
     lt_null (sch_startAt a) (sch_endAt b) \<and> lt_null (sch_startAt b) (sch_endAt a)"

definition timetable_ok :: "schedule_row table \<Rightarrow> bool" where
  "timetable_ok t \<longleftrightarrow>
     distinct_key sch_id t \<and> list_all (\<lambda>r. weekly_row_ok r \<or> one_off_row_ok r) t \<and>
     pairwise_apart weekly_clash t \<and> pairwise_apart one_off_clash t"

lemma eq_null_sym: "eq_null x y \<Longrightarrow> eq_null y x"
  by (auto simp: eq_null_def split: option.splits)

interpretation weekly_tt: timetable weekly_clash sch_id
  by unfold_locales (auto simp: weekly_clash_def intro: eq_null_sym)

interpretation one_off_tt: timetable one_off_clash sch_id
  by unfold_locales (auto simp: one_off_clash_def)

interpretation sched_store: record_store "distinct_key sch_id" sch_id getScheduleById ins_row
  "upd_by sch_id" "del_by sch_id"
proof -
  have "getScheduleById = row_by sch_id" by (simp add: fun_eq_iff getScheduleById_def)
  then show "record_store (distinct_key sch_id) sch_id getScheduleById ins_row (upd_by sch_id) (del_by sch_id)"
    by (metis record_store_table)
qed

lemma weekly_not_one_off: "weeklyRecurrence r \<Longrightarrow> \<not> oneOffRecurrence r"
  by (auto simp: weeklyRecurrence_def oneOffRecurrence_def)

lemma timetable_ok_ins:
  assumes "timetable_ok t" "weekly_row_ok r \<or> one_off_row_ok r" "row_by sch_id (sch_id r) t = None"
    and "\<And>x. x \<in> set t \<Longrightarrow> \<not> weekly_clash r x \<and> \<not> one_off_clash r x"
  shows "timetable_ok (ins_row r t)"
  using assms weekly_tt.apart_ins one_off_tt.apart_ins
  by (auto simp: timetable_ok_def distinct_key_ins) (auto simp: ins_row_def)

lemma timetable_ok_del: "timetable_ok t \<Longrightarrow> timetable_ok (del_where P t)"
  using weekly_tt.apart_del one_off_tt.apart_del
  by (auto simp: timetable_ok_def distinct_key_del_where) (auto simp: del_where_def list_all_iff)

lemma timetable_ok_upd:
  assumes ok: "timetable_ok t" and r: "row_by sch_id i t = Some r"
    and f: "\<And>r. sch_id (f r) = sch_id r" "weekly_row_ok (f r) \<or> one_off_row_ok (f r)"
    and apart: "\<And>x. x \<in> set t \<Longrightarrow> sch_id x \<noteq> i \<Longrightarrow> \<not> weekly_clash (f r) x \<and> \<not> one_off_clash (f r) x"
  shows "timetable_ok (upd_by sch_id i f t)"
proof -
  have i: "sch_id (f r) = i" using row_by_SomeD [OF r] f(1) by simp
  have eq: "upd_by sch_id i f t = upd_by sch_id i (\<lambda>_. f r) t"
    using ok r by (intro upd_by_const) (simp_all add: timetable_ok_def)
  have "list_all (\<lambda>r. weekly_row_ok r \<or> one_off_row_ok r) (upd_by sch_id i (\<lambda>_. f r) t)"
    using ok f(2) by (auto simp: timetable_ok_def upd_by_def upd_where_def list_all_iff)
  moreover have "pairwise_apart weekly_clash (upd_by sch_id i (\<lambda>_. f r) t)"
    by (rule weekly_tt.apart_upd) (use ok apart i in \<open>simp_all add: timetable_ok_def\<close>)
  moreover have "pairwise_apart one_off_clash (upd_by sch_id i (\<lambda>_. f r) t)"
    by (rule one_off_tt.apart_upd) (use ok apart i in \<open>simp_all add: timetable_ok_def\<close>)
  moreover have "distinct_key sch_id (upd_by sch_id i f t)"
    using ok f(1) by (simp add: timetable_ok_def distinct_key_upd_by)
  ultimately show ?thesis by (simp add: timetable_ok_def eq)
qed

section \<open>Times in the table\<close>

lemma sql_time_clock:
  "h < 24 \<Longrightarrow> m < 60 \<Longrightarrow> (\<forall>s. ss = Some s \<longrightarrow> s < 60) \<Longrightarrow>
   sql_time (clock h m @ seconds_suffix ss) =
     Some (int (3600 * h + 60 * m) + (case ss of None \<Rightarrow> 0 | Some s \<Rightarrow> int s))"
proof -
  assume hm: "h < 24" "m < 60" "\<forall>s. ss = Some s \<longrightarrow> s < 60"
  have "js_number ''0'' = Some 0" by code_simp
  then show ?thesis
    using hm valid_time_clock [OF hm]
    by (auto simp: sql_time_def clock_groups js_number_two split: option.splits)
qed

lemma accepted_sql_time:
  assumes "assertQuarterHourTime t = Inr ()"
  shows "\<exists>k. timeToMinutes t = Some k \<and> sql_time t = Some (60 * k) \<and> 0 \<le> k \<and> k < 1440 \<and> k mod 5 = 0"
proof -
  from assms obtain h m ss where hm: "h < 24" "m < 60" "5 dvd m" "ss = None \<or> ss = Some 0"
    and t: "t = clock h m @ seconds_suffix ss"
    by (rule assertQuarterHourTime_cases)
  then have ss: "\<forall>s. ss = Some s \<longrightarrow> s < 60" by auto
  have "(60 * int h + int m) mod 5 = 0" using hm(3) by presburger
  then show ?thesis
    using hm timeToMinutes_clock [OF hm(1,2) ss] sql_time_clock [OF hm(1,2) ss]
    by (intro exI [of _ "int (60 * h + m)"]) (auto simp: t)
qed

lemma time_text_clock:
  assumes "0 \<le> n" "n < 86400" "n mod 60 = 0"
  shows "time_text n = clock (nat (n div 3600)) (nat (n div 60 mod 60)) @ seconds_suffix (Some 0)"
proof -
  have "n div 3600 < 24" "0 \<le> n div 3600" using assms by auto
  then have "hh_mm (n div 3600) (n div 60 mod 60) = clock (nat (n div 3600)) (nat (n div 60 mod 60))"
    by (intro clock_hh_mm) auto
  then show ?thesis
    using assms by (simp add: time_text_def seconds_suffix_def int_str_def pad2_nat_str)
qed

lemma minute_split: "3600 * (k div 60) + 60 * (k mod 60) = 60 * (k :: int)"
proof -
  have "3600 * (k div 60) + 60 * (k mod 60) = 60 * (60 * (k div 60) + k mod 60)"
    by (simp only: algebra_simps)
  then show ?thesis by simp
qed

lemma sql_time_text:
  assumes "0 \<le> n" "n < 86400" "n mod 60 = 0"
  shows "sql_time (time_text n) = Some n"
proof -
  have hm: "nat (n div 3600) < 24" "nat (n div 60 mod 60) < 60"
    using assms by (auto simp: nat_less_iff)
  have "0 \<le> n div 3600" "0 \<le> n div 60 mod 60" using assms by auto
  moreover have "3600 * (n div 3600) + 60 * (n div 60 mod 60) = n"
  proof -
    obtain k where k: "n = 60 * k" using assms(3) by auto
    have "n div 3600 = k div 60" "n div 60 = k" by (simp_all add: k)
    then show ?thesis using minute_split [of k] by (simp add: k)
  qed
  ultimately have "int (3600 * nat (n div 3600) + 60 * nat (n div 60 mod 60)) = n" by simp
  then show ?thesis
    using sql_time_clock [OF hm, of "Some 0"] unfolding time_text_clock [OF assms] by auto
qed

lemma sql_overlaps_iff:
  "a < b \<Longrightarrow> c < d \<Longrightarrow> sql_overlaps (Some a) (Some b) (Some c) (Some d) \<longleftrightarrow> a < d \<and> c < b"
  by (auto simp: sql_overlaps_def Let_def min_def max_def)

section \<open>Every command keeps the timetable well-formed\<close>

lemma sched_err_Inr [simp]: "sched_err x = Inr a \<longleftrightarrow> x = Inr a"
  by (simp add: sched_err_def split: sum.splits)

lemma no_conflict_Inr [simp]: "no_conflict c = Inr u \<longleftrightarrow> c = None"
  by (simp add: no_conflict_def split: option.splits)

lemma valid_schedule_row:
  assumes "assertValidScheduleValues d s e = Inr ()"
    and "weeklyRecurrence r" "sch_dayOfWeek r = Some d" "sch_startTime r = sql_time s" "sch_endTime r = sql_time e"
  shows "weekly_row_ok r"
proof -
  have v: "assertQuarterHourTime s = Inr ()" "assertQuarterHourTime e = Inr ()" "1 \<le> d" "d \<le> 5"
    "num_less (timeToMinutes s) (timeToMinutes e)"
    using assms(1) by (simp_all add: assertValidScheduleValues_iff)
  obtain k where k: "timeToMinutes s = Some k" "sql_time s = Some (60 * k)" "0 \<le> k" "k < 1440" "k mod 5 = 0"
    using accepted_sql_time [OF v(1)] by (elim exE conjE)
  obtain l where l: "timeToMinutes e = Some l" "sql_time e = Some (60 * l)" "0 \<le> l" "l < 1440" "l mod 5 = 0"
    using accepted_sql_time [OF v(2)] by (elim exE conjE)
  have "k < l" using v(5) by (simp add: num_less_def k l)
  moreover have "60 * k mod 300 = 0" "60 * l mod 300 = 0" using k l by (auto simp: mod_eq_0_iff_dvd elim!: dvdE)
  ultimately show ?thesis
    using assms k l v by (simp add: weekly_row_ok_def)
qed

lemma findConflict_apart:
  assumes none: "findConflict c d s e ex t = None" and valid: "assertValidScheduleValues d s e = Inr ()"
    and ok: "timetable_ok t" and x: "x \<in> set t" "\<And>i. ex = Some i \<Longrightarrow> sch_id x \<noteq> i"
    and r: "weeklyRecurrence r" "sch_classroomId r = c" "sch_dayOfWeek r = Some d"
      "sch_startTime r = sql_time s" "sch_endTime r = sql_time e"
  shows "\<not> weekly_clash r x \<and> \<not> one_off_clash r x"
proof
  show "\<not> one_off_clash r x"
    using r(1) weekly_not_one_off by (auto simp: one_off_clash_def)
  show "\<not> weekly_clash r x"
  proof
    assume clash: "weekly_clash r x"
    then have w: "weeklyRecurrence x" "sch_classroomId x = c" "sch_dayOfWeek x = Some d"
      using r by (auto simp: weekly_clash_def eq_null_def split: option.splits)
    then have "weekly_row_ok x"
      using ok x(1) weekly_not_one_off by (auto simp: timetable_ok_def list_all_iff one_off_row_ok_def)
    then obtain p q where pq: "sch_startTime x = Some p" "sch_endTime x = Some q" "p < q"
      by (auto simp: weekly_row_ok_def split: option.splits)
    have "weekly_row_ok r"
      using valid_schedule_row [OF valid] r by blast
    then obtain a b where ab: "sql_time s = Some a" "sql_time e = Some b" "a < b"
      using r by (auto simp: weekly_row_ok_def split: option.splits)
    have "sql_overlaps (sql_time s) (sql_time e) (sch_startTime x) (sch_endTime x)"
      using clash r pq ab by (simp add: weekly_clash_def sql_overlaps_iff)
    then show False
      using none w x by (auto simp: findConflict_def sel_first_None_iff split: option.splits)
  qed
qed

lemma findOneOffConflict_apart:
  assumes none: "findOneOffConflict c s e ex t = None"
    and x: "x \<in> set t" "\<And>i. ex = Some i \<Longrightarrow> sch_id x \<noteq> i"
    and r: "oneOffRecurrence r" "sch_classroomId r = c" "sch_startAt r = s" "sch_endAt r = e"
  shows "\<not> weekly_clash r x \<and> \<not> one_off_clash r x"
  using assms weekly_not_one_off
  by (auto simp: findOneOffConflict_def sel_first_None_iff one_off_clash_def weekly_clash_def split: option.splits)

lemma valid_one_off_row:
  "assertValidOneOffScheduleValues (sch_startAt r) (sch_endAt r) = Inr () \<Longrightarrow> oneOffRecurrence r \<Longrightarrow>
   one_off_row_ok r"
  by (auto simp: one_off_row_ok_def assertValidOneOff_iff)

lemma createSchedule_ok:
  assumes "timetable_ok t" "getScheduleById newId t = None"
    and c: "createSchedule newId now d t = Inr (row, t')"
  shows "timetable_ok t' \<and> getScheduleById newId t' = Some row"
proof -
  have v: "assertValidScheduleValues (csi_dayOfWeek d) (csi_startTime d) (csi_endTime d) = Inr ()"
    and n: "findConflict (csi_classroomId d) (csi_dayOfWeek d) (csi_startTime d) (csi_endTime d) None t = None"
    and t': "t' = ins_row row t"
    using c by (auto simp: createSchedule_def and_then_Inr_iff Let_def)
  have row: "sch_id row = newId" "weeklyRecurrence row" "sch_classroomId row = csi_classroomId d"
    "sch_dayOfWeek row = Some (csi_dayOfWeek d)"
    "sch_startTime row = sql_time (csi_startTime d)" "sch_endTime row = sql_time (csi_endTime d)"
    using c by (auto simp: createSchedule_def and_then_Inr_iff Let_def weeklyRecurrence_def)
  have "timetable_ok t'"
    unfolding t'
    by (rule timetable_ok_ins)
      (use assms(1,2) row valid_schedule_row [OF v] findConflict_apart [OF n v assms(1)] in
        \<open>simp_all add: getScheduleById_def\<close>)
  then show ?thesis
    using assms(2) row(1) sched_store.lookup_add [of row t newId] by (simp add: t')
qed

lemma createOneOffSchedule_ok:
  assumes "timetable_ok t" "getScheduleById newId t = None"
    and c: "createOneOffSchedule newId now d t = Inr (row, t')"
  shows "timetable_ok t' \<and> getScheduleById newId t' = Some row"
proof -
  have v: "assertValidOneOffScheduleValues (coi_startAt d) (coi_endAt d) = Inr ()"
    and n: "findOneOffConflict (coi_classroomId d) (coi_startAt d) (coi_endAt d) None t = None"
    and t': "t' = ins_row row t"
    using c by (auto simp: createOneOffSchedule_def and_then_Inr_iff Let_def)
  have row: "sch_id row = newId" "oneOffRecurrence row" "sch_classroomId row = coi_classroomId d"
    "sch_startAt row = coi_startAt d" "sch_endAt row = coi_endAt d"
    using c by (auto simp: createOneOffSchedule_def and_then_Inr_iff Let_def oneOffRecurrence_def)
  have "timetable_ok t'"
    unfolding t'
    by (rule timetable_ok_ins)
      (use assms(1,2) v row valid_one_off_row [of row] findOneOffConflict_apart [OF n] in
        \<open>simp_all add: getScheduleById_def\<close>)
  then show ?thesis
    using assms(2) row(1) sched_store.lookup_add [of row t newId] by (simp add: t')
qed

lemma updateSchedule_ok:
  assumes ok: "timetable_ok t" and u: "updateSchedule i u t = Inr (res, t')"
  shows "timetable_ok t'"
proof (cases "t' = t")
  case False
  then obtain r bd bs be where r: "row_by sch_id i t = Some r" and rec: "sch_recurrence r \<noteq> Some ''one_off''"
    and base: "sch_dayOfWeek r = Some bd" "sch_startTime r = Some bs" "sch_endTime r = Some be"
    using u by (auto simp: updateSchedule_def getScheduleById_def split: option.splits if_splits)
  let ?d = "case usi_dayOfWeek u of Some d \<Rightarrow> d | None \<Rightarrow> bd"
  let ?s = "case usi_startTime u of Some s \<Rightarrow> s | None \<Rightarrow> time_text bs"
  let ?e = "case usi_endTime u of Some s \<Rightarrow> s | None \<Rightarrow> time_text be"
  have v: "assertValidScheduleValues ?d ?s ?e = Inr ()"
    and n: "findConflict (sch_classroomId r) ?d ?s ?e (Some i) t = None"
    and t': "t' = upd_by sch_id i (set_weekly u) t"
    using u r rec base False
    by (auto simp: updateSchedule_def getScheduleById_def Let_def and_then_Inr_iff split: if_splits)
  have "weekly_row_ok r"
    using ok row_by_SomeD [OF r] rec
    by (auto simp: timetable_ok_def list_all_iff one_off_row_ok_def oneOffRecurrence_def)
  then have w: "weeklyRecurrence r" and bounds: "0 \<le> bs" "bs < 86400" "bs mod 300 = 0" "0 \<le> be" "be < 86400" "be mod 300 = 0"
    using base by (auto simp: weekly_row_ok_def)
  have "bs mod 60 = 0" "be mod 60 = 0" 
    using bounds mod_mod_cancel [of 60 300 bs] mod_mod_cancel [of 60 300 be] by simp_all
  then have tx: "sql_time (time_text bs) = Some bs" "sql_time (time_text be) = Some be"
    using bounds sql_time_text by auto
  have new: "weeklyRecurrence (set_weekly u r)" "sch_classroomId (set_weekly u r) = sch_classroomId r"
    "sch_dayOfWeek (set_weekly u r) = Some ?d"
    "sch_startTime (set_weekly u r) = sql_time ?s" "sch_endTime (set_weekly u r) = sql_time ?e"
    using w base tx by (auto simp: set_weekly_def weeklyRecurrence_def split: option.splits)
  show ?thesis
    unfolding t'
    by (rule timetable_ok_upd [OF ok r])
      (use valid_schedule_row [OF v] new findConflict_apart [OF n v ok] in \<open>simp_all add: set_weekly_def\<close>)
qed (simp add: ok)

lemma updateOneOffSchedule_ok:
  assumes ok: "timetable_ok t" and u: "updateOneOffSchedule now i u t = Inr (res, t')"
  shows "timetable_ok t'"
proof (cases "t' = t")
  case False
  then obtain r where r: "row_by sch_id i t = Some r" and rec: "oneOffRecurrence r"
    using u by (auto simp: updateOneOffSchedule_def getScheduleById_def oneOffRecurrence_def
        split: option.splits if_splits)
  let ?s = "case uoi_startAt u of Some d \<Rightarrow> d | None \<Rightarrow> sch_startAt r"
  let ?e = "case uoi_endAt u of Some d \<Rightarrow> d | None \<Rightarrow> sch_endAt r"
  have v: "assertValidOneOffScheduleValues ?s ?e = Inr ()"
    and n: "findOneOffConflict (sch_classroomId r) ?s ?e (Some i) t = None"
    and t': "t' = upd_by sch_id i (set_one_off now u) t"
    using u r rec False
    by (auto simp: updateOneOffSchedule_def getScheduleById_def Let_def and_then_Inr_iff
        oneOffRecurrence_def split: if_splits)
  have new: "oneOffRecurrence (set_one_off now u r)" "sch_classroomId (set_one_off now u r) = sch_classroomId r"
    "sch_startAt (set_one_off now u r) = ?s" "sch_endAt (set_one_off now u r) = ?e"
    using rec by (auto simp: set_one_off_def oneOffRecurrence_def)
  have "one_off_row_ok (set_one_off now u r)"
    by (rule valid_one_off_row) (simp_all only: new v)
  then show ?thesis
    unfolding t'
    by (intro timetable_ok_upd [OF ok r])
      (use new findOneOffConflict_apart [OF n] in \<open>simp_all add: set_one_off_def\<close>)
qed (simp add: ok)

section \<open>The current schedule\<close>

text \<open>The result of looking for a row with a property, in whatever order the rows come.\<close>

definition picks :: "('row \<Rightarrow> bool) \<Rightarrow> 'row table \<Rightarrow> 'row option \<Rightarrow> bool" where
  "picks P t x \<longleftrightarrow> (case x of Some r \<Rightarrow> r \<in> set t \<and> P r | None \<Rightarrow> \<forall>r\<in>set t. \<not> P r)"

definition unique_such :: "('row \<Rightarrow> bool) \<Rightarrow> 'row table \<Rightarrow> bool" where
  "unique_such P t \<longleftrightarrow> (\<forall>a\<in>set t. \<forall>b\<in>set t. P a \<longrightarrow> P b \<longrightarrow> a = b)"

lemma picks_Some_iff: "unique_such P t \<Longrightarrow> picks P t x \<Longrightarrow> x = Some r \<longleftrightarrow> r \<in> set t \<and> P r"
  by (cases x) (auto simp: unique_such_def picks_def)

lemma picks_unique: "unique_such P t \<Longrightarrow> picks P t x \<Longrightarrow> picks P t y \<Longrightarrow> x = y"
  by (cases x; cases y) (auto simp: unique_such_def picks_def)

lemma picks_sel_first: "picks P t (sel_first P t)"
  using sel_first_SomeD [of P t] sel_first_None_iff [of P t]
  by (cases "sel_first P t") (auto simp: picks_def)

lemma picks_find_sorted: "picks (\<lambda>r. Q r \<and> P r) t (List.find Q (sort_key f (sel_where P t)))"
proof (cases "List.find Q (sort_key f (sel_where P t))")
  case None
  then have "\<forall>r\<in>set t. P r \<longrightarrow> \<not> Q r" by (auto simp: find_None_iff sel_where_def)
  then show ?thesis unfolding None by (auto simp: picks_def)
next
  case (Some r)
  then show ?thesis by (auto simp: picks_def sel_where_def dest!: find_SomeD)
qed

lemma first_of_find: "first_of xs = List.find (\<lambda>_. True) xs"
  by (cases xs) (simp_all add: first_of_def)

lemma picks_first_sorted: "picks P t (first_of (sort_key f (sel_where P t)))"
  using picks_find_sorted [of "\<lambda>_. True" P t f] by (simp add: first_of_find)

lemma timetable_rows: "timetable_ok t \<Longrightarrow> r \<in> set t \<Longrightarrow> weekly_row_ok r \<or> one_off_row_ok r"
  by (auto simp: timetable_ok_def list_all_iff)

lemma timetable_same_row:
  "timetable_ok t \<Longrightarrow> a \<in> set t \<Longrightarrow> b \<in> set t \<Longrightarrow> sch_id a = sch_id b \<Longrightarrow> a = b"
proof -
  assume "timetable_ok t" and ab: "a \<in> set t" "b \<in> set t" and eq: "sch_id a = sch_id b"
  then have d: "distinct_key sch_id t" by (simp add: timetable_ok_def)
  have "Some a = Some b"
    using row_by_unique [OF d ab(1)] row_by_unique [OF d ab(2)] unfolding eq by (rule trans [OF sym])
  then show ?thesis by simp
qed

lemma one_off_active_unique:
  assumes "timetable_ok t"
  shows "unique_such (\<lambda>r. sch_classroomId r = c \<and> one_off_active d r) t"
  unfolding unique_such_def
proof (intro ballI impI, elim conjE)
  fix a b assume ab: "a \<in> set t" "b \<in> set t" "sch_classroomId a = c" "sch_classroomId b = c"
    "one_off_active d a" "one_off_active d b"
  then have "one_off_clash a b"
    by (auto simp: one_off_clash_def one_off_active_def lt_null_def le_null_def split: option.splits)
  then show "a = b"
    using ab assms one_off_tt.apart_mem timetable_same_row by (metis timetable_ok_def)
qed

lemma weekly_active_unique:
  assumes "timetable_ok t"
  shows "unique_such (\<lambda>r. sch_classroomId r = c \<and> weekly_active tz d r) t"
  unfolding unique_such_def
proof (intro ballI impI, elim conjE)
  fix a b assume ab: "a \<in> set t" "b \<in> set t" "sch_classroomId a = c" "sch_classroomId b = c"
    "weekly_active tz d a" "weekly_active tz d b"
  then have "weekly_clash a b"
    by (auto simp: weekly_clash_def weekly_active_def lt_null_def le_null_def split: option.splits)
  then show "a = b"
    using ab assms weekly_tt.apart_mem timetable_same_row by (metis timetable_ok_def)
qed

lemma weekly_active_weekday: "timetable_ok t \<Longrightarrow> r \<in> set t \<Longrightarrow> weekly_active tz d r \<Longrightarrow> \<not> weekend (get_day tz d)"
  using timetable_rows [of t r] weekly_not_one_off [of r]
  by (auto simp: weekly_active_def weekly_row_ok_def one_off_row_ok_def weekend_def split: option.splits)

definition current_row :: "(int \<Rightarrow> int) \<Rightarrow> string \<Rightarrow> int \<Rightarrow> schedule_row table \<Rightarrow> schedule_row \<Rightarrow> bool" where
  "current_row tz c d t r \<longleftrightarrow>
     sch_classroomId r = c \<and>
     (one_off_active d r \<or>
      weekly_active tz d r \<and> (\<forall>x\<in>set t. sch_classroomId x = c \<longrightarrow> \<not> one_off_active d x))"

lemma current_row_unique: "timetable_ok t \<Longrightarrow> unique_such (current_row tz c d t) t"
  using one_off_active_unique [of t c d] weekly_active_unique [of t c tz d]
  by (auto simp: unique_such_def current_row_def)

lemma picks_currentI:
  assumes ok: "timetable_ok t"
    and one: "picks (\<lambda>r. sch_classroomId r = c \<and> one_off_active d r) t x"
    and week: "x = None \<Longrightarrow> \<not> weekend (get_day tz d) \<Longrightarrow>
      picks (\<lambda>r. sch_classroomId r = c \<and> weekly_active tz d r) t y"
  shows "picks (current_row tz c d t) t
           (case x of Some r \<Rightarrow> Some r | None \<Rightarrow> if weekend (get_day tz d) then None else y)"
proof (cases x)
  case None
  then show ?thesis
    using one week weekly_active_weekday [OF ok]
    by (cases y) (auto simp: picks_def current_row_def)
next
  case (Some r)
  then show ?thesis using one by (auto simp: picks_def current_row_def)
qed

lemma picks_getCurrentSchedule: "timetable_ok t \<Longrightarrow> picks (current_row tz c d t) t (getCurrentSchedule tz c d t)"
  unfolding getCurrentSchedule_def Let_def
  by (rule picks_currentI) (simp_all only: picks_first_sorted picks_sel_first)

lemma getCurrentSchedule_iff:
  "timetable_ok t \<Longrightarrow> getCurrentSchedule tz c d t = Some r \<longleftrightarrow> r \<in> set t \<and> current_row tz c d t r"
  by (intro picks_Some_iff current_row_unique picks_getCurrentSchedule)

lemma map_of_put_absent:
  "map_of (put_absent key rs m) k =
     (case map_of m k of Some r \<Rightarrow> Some r | None \<Rightarrow> List.find (\<lambda>r. key r = k) rs)"
  by (induction key rs m rule: put_absent.induct) (auto simp: map_add_def split: option.splits)

lemma picks_batch:
  assumes ok: "timetable_ok t" and c: "c \<in> set ids" "c \<noteq> []"
  shows "picks (current_row tz c d t) t (map_of (getCurrentSchedulesByClassroomIds tz ids d t) c)"
proof -
  define js where "js = js_unique (filter (\<lambda>i. length i > 0) ids)"
  have cj: "c \<in> set js" using c by (auto simp: js_def)
  then have "js \<noteq> []" by auto
  define rows where "rows = sort_key (\<lambda>r. (sch_classroomId r, null_last (sch_startAt r)))
    (sel_where (\<lambda>r. sch_classroomId r \<in> set js \<and> one_off_active d r) t)"
  define res where "res = put_absent sch_classroomId rows []"
  define us where "us = filter (\<lambda>i. map_of res i = None) js"
  define week where "week = sort_key (\<lambda>r. (sch_classroomId r, null_last (sch_startTime r)))
    (sel_where (\<lambda>r. sch_classroomId r \<in> set us \<and> weekly_active tz d r) t)"
  have us: "map_of res c = None \<Longrightarrow> c \<in> set us" using cj by (simp add: us_def)
  have all: "getCurrentSchedulesByClassroomIds tz ids d t =
    (if us = [] \<or> weekend (get_day tz d) then res else put_absent sch_classroomId week res)"
    using \<open>js \<noteq> []\<close>
    unfolding getCurrentSchedulesByClassroomIds_def Let_def js_def [symmetric] rows_def [symmetric]
      res_def [symmetric] us_def [symmetric] week_def [symmetric] by simp
  have "map_of (getCurrentSchedulesByClassroomIds tz ids d t) c =
    (case map_of res c of Some r \<Rightarrow> Some r
     | None \<Rightarrow> if weekend (get_day tz d) then None else List.find (\<lambda>r. sch_classroomId r = c) week)"
    using us unfolding all by (cases "map_of res c") (auto simp: map_of_put_absent)
  moreover have one: "picks (\<lambda>r. sch_classroomId r = c \<and> one_off_active d r) t (map_of res c)"
    using picks_find_sorted [of "\<lambda>r. sch_classroomId r = c"
        "\<lambda>r. sch_classroomId r \<in> set js \<and> one_off_active d r" t
        "\<lambda>r. (sch_classroomId r, null_last (sch_startAt r))"] cj
    by (auto simp: res_def rows_def map_of_put_absent picks_def split: option.splits)
  moreover have "picks (\<lambda>r. sch_classroomId r = c \<and> weekly_active tz d r) t
      (List.find (\<lambda>r. sch_classroomId r = c) week)" if "map_of res c = None"
    using picks_find_sorted [of "\<lambda>r. sch_classroomId r = c"
        "\<lambda>r. sch_classroomId r \<in> set us \<and> weekly_active tz d r" t
        "\<lambda>r. (sch_classroomId r, null_last (sch_startTime r))"] us [OF that]
    by (auto simp: week_def picks_def split: option.splits)
  ultimately show ?thesis
    using picks_currentI [OF ok one] by simp
qed

section \<open>Boundaries\<close>

lemma whole_minute_cases:
  "(60000 :: int) dvd s \<Longrightarrow> 60000 dvd d \<Longrightarrow> (s \<le> d) = (s \<le> d - 60000) \<or> s = d"
proof -
  assume "(60000 :: int) dvd s" "60000 dvd d"
  then obtain x y where "s = 60000 * x" "d = 60000 * y" by (auto elim!: dvdE)
  then show ?thesis by auto
qed

lemma sql_time_string:
  "sql_time (time_string_hhmm tz d) = Some (60 * local_minute tz d)"
proof -
  define n where "n = local_minute tz d"
  have n: "0 \<le> n" "n < 1440"
    by (auto simp: n_def local_minute_def)
  then have "0 \<le> n div 60" "n div 60 < 24" by auto
  then have hm: "nat (n div 60) < 24" "nat (n mod 60) < 60" by (auto simp: nat_less_iff)
  have t: "time_string_hhmm tz d = clock (nat (n div 60)) (nat (n mod 60)) @ seconds_suffix None"
    using \<open>0 \<le> n div 60\<close> \<open>n div 60 < 24\<close>
    by (simp add: time_string_hhmm_def seconds_suffix_def clock_hh_mm flip: n_def)
  have "int (3600 * nat (n div 60) + 60 * nat (n mod 60)) = 60 * n"
    using \<open>0 \<le> n div 60\<close> minute_split [of n] by simp
  then show ?thesis
    using sql_time_clock [OF hm, of None] unfolding t n_def [symmetric] by auto
qed

lemma day_minute_steps:
  fixes L :: int
  assumes "60000 dvd L"
  shows "(L mod 86400000 \<noteq> 0 \<and> (L - 60000) div 86400000 = L div 86400000 \<and>
          (L - 60000) mod 86400000 div 60000 = L mod 86400000 div 60000 - 1) \<or>
         (L mod 86400000 = 0 \<and> (L - 60000) mod 86400000 div 60000 = 1439)"
proof -
  obtain k where k: "L = 60000 * k" using assms by (auto elim: dvdE)
  have a: "L mod 86400000 = 60000 * (k mod 1440)" "L div 86400000 = k div 1440"
    by (simp_all add: k mult_mod_right)
  have b: "(L - 60000) mod 86400000 = 60000 * ((k - 1) mod 1440)" "(L - 60000) div 86400000 = (k - 1) div 1440"
  proof -
    have "L - 60000 = 60000 * (k - 1)" by (simp add: k)
    then show "(L - 60000) mod 86400000 = 60000 * ((k - 1) mod 1440)"
      "(L - 60000) div 86400000 = (k - 1) div 1440"
      by (simp_all add: mult_mod_right)
  qed
  have "k mod 1440 \<noteq> 0 \<and> (k - 1) div 1440 = k div 1440 \<and> (k - 1) mod 1440 = k mod 1440 - 1 \<or>
        k mod 1440 = 0 \<and> (k - 1) mod 1440 = 1439"
  proof (cases "k mod 1440 = 0")
    case True
    then obtain j where "k = 1440 * j" by auto
    then have "k - 1 = 1439 + 1440 * (j - 1)" by simp
    then show ?thesis using True by (simp only: mod_mult_self2) simp
  next
    case False
    have kk: "k - 1 = (k mod 1440 - 1) + 1440 * (k div 1440)" by simp
    have "0 \<le> k mod 1440 - 1" "k mod 1440 - 1 < 1440" using False by simp_all
    then have "(k - 1) div 1440 = k div 1440" "(k - 1) mod 1440 = k mod 1440 - 1"
      by (subst kk, simp)+
    then show ?thesis using False by simp
  qed
  then show ?thesis unfolding a b by auto
qed

lemma weekly_row_cases:
  assumes "weekly_row_ok r"
  obtains day a b where "sch_dayOfWeek r = Some day" "1 \<le> day" "day \<le> 5"
    "sch_startTime r = Some (300 * a)" "sch_endTime r = Some (300 * b)" "0 \<le> a" "a < b" "b < 288"
proof -
  from assms obtain day s e where *: "sch_dayOfWeek r = Some day" "sch_startTime r = Some s" "sch_endTime r = Some e"
    "1 \<le> day" "day \<le> 5" "0 \<le> s" "s < e" "e < 86400" "s mod 300 = 0" "e mod 300 = 0"
    by (auto simp: weekly_row_ok_def split: option.splits)
  then obtain a b where "s = 300 * a" "e = 300 * b" by (auto simp: mod_eq_0_iff_dvd elim!: dvdE)
  with * show ?thesis by (intro that [of day a b]) auto
qed

lemma weekly_active_stable:
  assumes row: "weekly_row_ok r" and L: "60000 dvd d + tz d" and tz: "tz (d - 60000) = tz d"
    and nb: "\<not> (\<not> weekend (get_day tz d) \<and> sch_dayOfWeek r = Some (get_day tz d) \<and>
      (eq_null (sch_startTime r) (sql_time (time_string_hhmm tz d)) \<or>
       eq_null (sch_endTime r) (sql_time (time_string_hhmm tz d))))"
  shows "weekly_active tz (d - 60000) r = weekly_active tz d r"
proof -
  obtain day a b where r: "sch_dayOfWeek r = Some day" "1 \<le> day" "day \<le> 5"
    "sch_startTime r = Some (300 * a)" "sch_endTime r = Some (300 * b)" "0 \<le> a" "a < b" "b < 288"
    using row by (rule weekly_row_cases)
  define n n' where "n = local_minute tz d" and "n' = local_minute tz (d - 60000)"
  have act: "weekly_active tz x r \<longleftrightarrow>
      day = get_day tz x \<and> 300 * a \<le> 60 * local_minute tz x \<and> 60 * local_minute tz x < 300 * b" for x
    using row r by (auto simp: weekly_active_def sql_time_string weekly_row_ok_def)
  have nb': "day \<noteq> get_day tz d \<or> (300 * a \<noteq> 60 * n \<and> 300 * b \<noteq> 60 * n)"
    using nb r by (auto simp: sql_time_string weekend_def n_def)
  have eq: "d - 60000 + tz (d - 60000) = d + tz d - 60000" using tz by simp
  have n': "n' = (d + tz d - 60000) mod 86400000 div 60000" and n: "n = (d + tz d) mod 86400000 div 60000"
    by (simp_all only: n_def n'_def local_minute_def eq)
  consider (same) "get_day tz (d - 60000) = get_day tz d" "n' = n - 1" | (midnight) "n = 0" "n' = 1439"
    using day_minute_steps [OF L] that(1)
  proof (elim disjE conjE)
    assume *: "(d + tz d - 60000) div 86400000 = (d + tz d) div 86400000"
      "(d + tz d - 60000) mod 86400000 div 60000 = (d + tz d) mod 86400000 div 60000 - 1"
    show thesis by (rule that(1)) (simp_all only: n n' * get_day_def eq)
  next
    assume *: "(d + tz d) mod 86400000 = 0" "(d + tz d - 60000) mod 86400000 div 60000 = 1439"
    show thesis by (rule that(2)) (simp_all add: n n' *)
  qed
  then show ?thesis
  proof cases
    case same
    then show ?thesis using nb' unfolding act n_def n'_def by auto
  next
    case midnight
    then show ?thesis using nb' r unfolding act n_def [symmetric] n'_def [symmetric] by auto
  qed
qed

lemma one_off_active_stable:
  assumes row: "one_off_row_ok r" and d: "60000 dvd d"
    and nb: "sch_startAt r \<noteq> Some d" "sch_endAt r \<noteq> Some d"
  shows "one_off_active (d - 60000) r = one_off_active d r"
proof -
  obtain a b where r: "sch_startAt r = Some a" "sch_endAt r = Some b" "300000 dvd a" "300000 dvd b"
    using row by (auto simp: one_off_row_ok_def split: option.splits)
  have "(60000 :: int) dvd 300000" by simp
  then have "60000 dvd a" "60000 dvd b"
    using dvd_trans [OF _ r(3)] dvd_trans [OF _ r(4)] by simp_all
  then have "(a \<le> d) = (a \<le> d - 60000)" "(b \<le> d) = (b \<le> d - 60000)"
    using whole_minute_cases [OF _ d] nb r by auto
  then show ?thesis
    using r by (auto simp: one_off_active_def not_less [symmetric])
qed

lemma floor_minute_id: "60000 dvd d + tz d \<Longrightarrow> floor_minute tz d = d"
  by (simp add: floor_minute_def)

lemma not_boundary:
  assumes "c \<notin> set (getClassroomIdsWithBoundaryAt tz d t)" "r \<in> set t" "sch_classroomId r = c"
    and "60000 dvd d + tz d"
  shows "oneOffRecurrence r \<Longrightarrow> sch_startAt r \<noteq> Some d \<and> sch_endAt r \<noteq> Some d"
    and "weeklyRecurrence r \<Longrightarrow> \<not> (\<not> weekend (get_day tz d) \<and> sch_dayOfWeek r = Some (get_day tz d) \<and>
      (eq_null (sch_startTime r) (sql_time (time_string_hhmm tz d)) \<or>
       eq_null (sch_endTime r) (sql_time (time_string_hhmm tz d))))"
  using assms
  by (auto simp: getClassroomIdsWithBoundaryAt_def Let_def sel_where_def floor_minute_id split: if_splits)

lemma rows_stable:
  assumes ok: "timetable_ok t" and nb: "c \<notin> set (getClassroomIdsWithBoundaryAt tz d t)"
    and r: "r \<in> set t" "sch_classroomId r = c"
    and L: "60000 dvd d + tz d" and tz: "tz (d - 60000) = tz d" and z: "60000 dvd tz d"
  shows "one_off_active (d - 60000) r = one_off_active d r"
    and "weekly_active tz (d - 60000) r = weekly_active tz d r"
proof -
  have d: "60000 dvd d" using L z by (simp add: dvd_add_left_iff)
  note nbr = not_boundary [OF nb r L]
  show "one_off_active (d - 60000) r = one_off_active d r"
  proof (cases "oneOffRecurrence r")
    case True
    then have "one_off_row_ok r"
      using timetable_rows [OF ok r(1)] weekly_not_one_off by (auto simp: weekly_row_ok_def)
    then show ?thesis using one_off_active_stable d nbr(1) [OF True] by blast
  qed (simp add: one_off_active_def)
  show "weekly_active tz (d - 60000) r = weekly_active tz d r"
  proof (cases "weeklyRecurrence r")
    case True
    then have "weekly_row_ok r"
      using timetable_rows [OF ok r(1)] weekly_not_one_off by (auto simp: one_off_row_ok_def)
    then show ?thesis using weekly_active_stable L tz nbr(2) [OF True] by blast
  qed (simp add: weekly_active_def)
qed

section \<open>Reachable timetables\<close>

text \<open>The tables that the commands can produce from an empty one.  The identifier of a new row is
  not in use, as a random UUID is not.\<close>

inductive timetable_reach :: "schedule_row table \<Rightarrow> bool" where
  empty: "timetable_reach []"
| create: "timetable_reach t \<Longrightarrow> getScheduleById i t = None \<Longrightarrow>
    createSchedule i now d t = Inr (r, t') \<Longrightarrow> timetable_reach t'"
| createOneOff: "timetable_reach t \<Longrightarrow> getScheduleById i t = None \<Longrightarrow>
    createOneOffSchedule i now d' t = Inr (r, t') \<Longrightarrow> timetable_reach t'"
| update: "timetable_reach t \<Longrightarrow> updateSchedule i u t = Inr (x, t') \<Longrightarrow> timetable_reach t'"
| updateOneOff: "timetable_reach t \<Longrightarrow> updateOneOffSchedule now i u' t = Inr (x, t') \<Longrightarrow> timetable_reach t'"
| delete: "timetable_reach t \<Longrightarrow> deleteSchedule i t = (b, t') \<Longrightarrow> timetable_reach t'"
| deleteByClassroom: "timetable_reach t \<Longrightarrow> deleteSchedulesByClassroom c t = (n, t') \<Longrightarrow> timetable_reach t'"

lemma timetable_reach_ok: "timetable_reach t \<Longrightarrow> timetable_ok t"
proof (induction rule: timetable_reach.induct)
  case empty
  then show ?case by (simp add: timetable_ok_def distinct_key_def pairwise_apart_def)
next
  case (delete t i b t')
  then show ?case by (auto simp: deleteSchedule_def del_by_def timetable_ok_del)
next
  case (deleteByClassroom t c n t')
  then show ?case by (auto simp: deleteSchedulesByClassroom_def timetable_ok_del)
next
  case (create t i now d r t')
  from createSchedule_ok [OF create.IH create.hyps(2,3)] show ?case ..
next
  case (createOneOff t i now d r t')
  from createOneOffSchedule_ok [OF createOneOff.IH createOneOff.hyps(2,3)] show ?case ..
next
  case (update t i u x t')
  show ?case by (rule updateSchedule_ok [OF update.IH update.hyps(2)])
next
  case (updateOneOff t now i u x t')
  show ?case by (rule updateOneOffSchedule_ok [OF updateOneOff.IH updateOneOff.hyps(2)])
qed

section \<open>Properties\<close>

text \<open>C1: no double booking.  In every timetable the commands can produce, two different schedules of
  one classroom are never active at the same moment, unless one is weekly and the other a one-off.\<close>
theorem no_double_booking:
  assumes "timetable_reach t" "a \<in> set t" "b \<in> set t" "sch_id a \<noteq> sch_id b"
    "sch_classroomId a = sch_classroomId b"
  shows "\<not> (one_off_active date a \<and> one_off_active date b) \<and>
         \<not> (weekly_active tz date a \<and> weekly_active tz date b)"
  using assms one_off_active_unique [OF timetable_reach_ok, of t "sch_classroomId a" date]
    weekly_active_unique [OF timetable_reach_ok, of t "sch_classroomId a" tz date]
  by (auto simp: unique_such_def)

definition demo_a :: create_schedule_input where
  "demo_a = \<lparr>csi_classroomId = ''lab'', csi_teacherId = ''t1'', csi_groupId = ''g1'', csi_dayOfWeek = 1,
             csi_startTime = ''09:00'', csi_endTime = ''10:00''\<rparr>"

definition demo_b :: create_schedule_input where
  "demo_b = demo_a\<lparr>csi_groupId := ''g2'', csi_startTime := ''10:00'', csi_endTime := ''10:55:00''\<rparr>"

definition demo_row :: schedule_row where
  "demo_row = \<lparr>sch_id = ''s1'', sch_classroomId = ''lab'', sch_teacherId = ''t1'', sch_groupId = ''g1'',
     sch_dayOfWeek = Some 1, sch_startTime = Some 32400, sch_endTime = Some 36000, sch_startAt = None,
     sch_endAt = None, sch_recurrence = Some ''weekly'', sch_createdAt = Some 0, sch_updatedAt = Some 0\<rparr>"

definition demo_table :: "schedule_row table" where
  "demo_table = [demo_row, demo_row\<lparr>sch_id := ''s2'', sch_groupId := ''g2'',
     sch_startTime := Some 36000, sch_endTime := Some 39300\<rparr>]"

lemma demo_table_reach: "timetable_reach demo_table"
proof -
  have r: "createSchedule ''s1'' 0 demo_a [] = Inr (demo_row, [demo_row])" by code_simp
  have 1: "timetable_reach [demo_row]"
    by (rule timetable_reach.create [OF timetable_reach.empty _ r]) code_simp
  have r': "createSchedule ''s2'' 0 demo_b [demo_row] = Inr (demo_table ! 1, demo_table)" by code_simp
  show ?thesis
    by (rule timetable_reach.create [OF 1 _ r']) code_simp
qed

theorem no_double_booking_witness:
  "demo_table ! 0 \<in> set demo_table \<and> demo_table ! 1 \<in> set demo_table \<and>
   \<not> (weekly_active (\<lambda>_. 0) 378000000 (demo_table ! 0) \<and> weekly_active (\<lambda>_. 0) 378000000 (demo_table ! 1))"
proof -
  have "demo_table ! 0 \<in> set demo_table" "demo_table ! 1 \<in> set demo_table"
    "sch_id (demo_table ! 0) \<noteq> sch_id (demo_table ! 1)"
    "sch_classroomId (demo_table ! 0) = sch_classroomId (demo_table ! 1)"
    by code_simp+
  then show ?thesis
    using no_double_booking [OF demo_table_reach] by blast
qed

text \<open>C3: \<open>getCurrentSchedule\<close> returns exactly the schedule in force: the one-off that covers the
  moment if there is one, otherwise the weekly schedule of that weekday and minute.\<close>
theorem getCurrentSchedule_correct:
  assumes "timetable_reach t"
  shows "getCurrentSchedule tz c date t = Some r \<longleftrightarrow>
     r \<in> set t \<and> sch_classroomId r = c \<and>
     (one_off_active date r \<or>
      weekly_active tz date r \<and> (\<forall>x\<in>set t. sch_classroomId x = c \<longrightarrow> \<not> one_off_active date x))"
  using getCurrentSchedule_iff [OF timetable_reach_ok [OF assms]] by (auto simp: current_row_def)

theorem getCurrentSchedule_correct_witness:
  "getCurrentSchedule (\<lambda>_. 0) ''lab'' 383100000 demo_table = Some (demo_table ! 1)"
proof -
  have "demo_table ! 1 \<in> set demo_table" "sch_classroomId (demo_table ! 1) = ''lab''"
    "weekly_active (\<lambda>_. 0) 383100000 (demo_table ! 1)"
    "list_all (\<lambda>x. \<not> one_off_active 383100000 x) demo_table"
    by code_simp+
  then show ?thesis
    using getCurrentSchedule_correct [OF demo_table_reach, of "\<lambda>_. 0" "''lab''" 383100000 "demo_table ! 1"]
    by (auto simp: list_all_iff)
qed

text \<open>The batched query used for lists of classrooms answers, for every classroom asked about,
  what the single query answers.\<close>
theorem getCurrentSchedules_batch:
  assumes "timetable_reach t" "c \<in> set ids" "c \<noteq> []"
  shows "map_of (getCurrentSchedulesByClassroomIds tz ids date t) c = getCurrentSchedule tz c date t"
  using assms timetable_reach_ok
  by (intro picks_unique [OF current_row_unique picks_batch picks_getCurrentSchedule])

theorem getCurrentSchedules_batch_witness:
  "map_of (getCurrentSchedulesByClassroomIds (\<lambda>_. 0) [''x'', ''lab''] 383100000 demo_table) ''lab'' =
     getCurrentSchedule (\<lambda>_. 0) ''lab'' 383100000 demo_table"
  by (rule getCurrentSchedules_batch [OF demo_table_reach]) simp_all

lemma schedule_between_boundaries:
  assumes ok: "timetable_ok t" and L: "60000 dvd date + tz date" "60000 dvd tz date" "tz (date - 60000) = tz date"
    and nb: "c \<notin> set (getClassroomIdsWithBoundaryAt tz date t)"
  shows "getCurrentSchedule tz c (date - 60000) t = getCurrentSchedule tz c date t"
proof -
  have st: "one_off_active (date - 60000) r = one_off_active date r"
    "weekly_active tz (date - 60000) r = weekly_active tz date r"
    if "r \<in> set t" "sch_classroomId r = c" for r
    using rows_stable [OF ok nb that L(1,3,2)] by simp_all
  have "getCurrentSchedule tz c (date - 60000) t = Some r \<longleftrightarrow> getCurrentSchedule tz c date t = Some r" for r
    unfolding getCurrentSchedule_iff [OF ok] current_row_def using st by auto
  then show ?thesis by (metis not_None_eq)
qed



end
