(* ===== verification/Classroom_Values.thy ===== *)
theory Classroom_Values
  imports Regex
begin

text \<open>
  The values a classroom is made of, as the API and the web client compute them:
  \<open>shared/src/slug.ts\<close> (names), \<open>shared/src/captive-portal-domains.ts\<close> (the hosts reachable before
  login) and \<open>shared/src/classroom-status.ts\<close> (machine and classroom status, the group in force).

  Strings are Latin-1, as everywhere in the model.  \<open>normalize('NFKD')\<close> followed by the removal of
  U+0300..U+036F is a table on single characters; two results lie outside Latin-1, the Greek mu of
  the micro sign and the fraction slash of a vulgar fraction, and are written here as the micro sign
  and the slash: like them they are neither letters nor digits of the slug alphabet.
\<close>

section \<open>Slugs\<close>

definition nfkd_base :: "char \<Rightarrow> string" where
  "nfkd_base c =
     (let n = of_char c :: nat in
      if n < 160 then [c]
      else if n \<in> {160, 168, 175, 180, 184} then '' ''
      else if n = 170 then ''a''
      else if n = 178 then ''2'' else if n = 179 then ''3'' else if n = 185 then ''1''
      else if n = 186 then ''o''
      else if n = 188 then ''1/4'' else if n = 189 then ''1/2'' else if n = 190 then ''3/4''
      else if 192 \<le> n \<and> n \<le> 197 then ''A'' else if n = 199 then ''C''
      else if 200 \<le> n \<and> n \<le> 203 then ''E'' else if 204 \<le> n \<and> n \<le> 207 then ''I''
      else if n = 209 then ''N'' else if 210 \<le> n \<and> n \<le> 214 then ''O''
      else if 217 \<le> n \<and> n \<le> 220 then ''U'' else if n = 221 then ''Y''
      else if 224 \<le> n \<and> n \<le> 229 then ''a'' else if n = 231 then ''c''
      else if 232 \<le> n \<and> n \<le> 235 then ''e'' else if 236 \<le> n \<and> n \<le> 239 then ''i''
      else if n = 241 then ''n'' else if 242 \<le> n \<and> n \<le> 246 then ''o''
      else if 249 \<le> n \<and> n \<le> 252 then ''u'' else if n = 253 \<or> n = 255 then ''y''
      else [c])"

definition strip_diacritics :: "string \<Rightarrow> string" where
  "strip_diacritics s = concat (map nfkd_base s)"

text \<open>\<open>s.replace(/[...]+/g, r)\<close>: each maximal run of characters of the class becomes \<open>r\<close>.\<close>

function replace_runs :: "(char \<Rightarrow> bool) \<Rightarrow> string \<Rightarrow> string \<Rightarrow> string" where
  "replace_runs P r [] = []"
| "replace_runs P r (c # s) =
     (if P c then r @ replace_runs P r (dropWhile P s) else c # replace_runs P r s)"
  by pat_completeness auto

termination
  by (relation "measure (\<lambda>(P, r, s). length s)") (auto simp: le_imp_less_Suc length_dropWhile_le)

definition drop_trailing :: "char \<Rightarrow> string \<Rightarrow> string" where
  "drop_trailing d s = rev (dropWhile (\<lambda>c. c = d) (rev s))"

definition drop_edges :: "char \<Rightarrow> string \<Rightarrow> string" where
  "drop_edges d s = drop_trailing d (dropWhile (\<lambda>c. c = d) s)"

definition slug_char :: "bool \<Rightarrow> char \<Rightarrow> bool" where
  "slug_char allowUnderscore c \<longleftrightarrow>
     lower_alpha_char c \<or> digit_char c \<or> c = CHR ''-'' \<or> (allowUnderscore \<and> c = CHR ''_'')"

definition dash_slug :: "bool \<Rightarrow> string \<Rightarrow> string" where
  "dash_slug allowUnderscore s =
     drop_edges CHR ''-'' (replace_runs (\<lambda>c. c = CHR ''-'') ''-''
       (replace_runs (\<lambda>c. \<not> slug_char allowUnderscore c) ''-'' s))"

definition sanitizeSlug :: "string \<Rightarrow> nat \<Rightarrow> bool \<Rightarrow> string" where
  "sanitizeSlug input maxLength allowUnderscore =
     (let trimmed = js_trim input
      in if trimmed = [] then []
         else let slug = dash_slug allowUnderscore (to_lower (strip_diacritics trimmed))
              in if maxLength > 0 \<and> length slug > maxLength
                 then drop_trailing CHR ''-'' (take maxLength slug) else slug)"

text \<open>What a slug is.\<close>

definition slug_ok :: "nat \<Rightarrow> bool \<Rightarrow> string \<Rightarrow> bool" where
  "slug_ok maxLength allowUnderscore s \<longleftrightarrow>
     list_all (slug_char allowUnderscore) s \<and> \<not> includes_str s ''--'' \<and>
     (s = [] \<or> hd s \<noteq> CHR ''-'' \<and> last s \<noteq> CHR ''-'') \<and> (maxLength > 0 \<longrightarrow> length s \<le> maxLength)"

lemma slug_char_code: "slug_char us c \<Longrightarrow> (of_char c :: nat) < 160 \<and> \<not> js_space c \<and> \<not> upper_char c"
  by (auto simp: slug_char_def lower_alpha_char_def digit_char_def js_space_def upper_char_def Let_def)

lemma nfkd_base_slug: "slug_char us c \<Longrightarrow> nfkd_base c = [c]"
  using slug_char_code [of us c] by (simp add: nfkd_base_def)

lemma strip_diacritics_slug: "list_all (slug_char us) s \<Longrightarrow> strip_diacritics s = s"
  by (induction s) (auto simp: strip_diacritics_def intro: nfkd_base_slug)

lemma to_lower_slug: "list_all (slug_char us) s \<Longrightarrow> to_lower s = s"
  by (induction s) (auto simp: to_lower_char_fixed dest: slug_char_code)

lemma replace_runs_all: "list_all Q r \<Longrightarrow> list_all (\<lambda>c. P c \<or> Q c) s \<Longrightarrow> list_all Q (replace_runs P r s)"
proof (induction P r s rule: replace_runs.induct)
  case (2 P r c s)
  have "list_all (\<lambda>c. P c \<or> Q c) (dropWhile P s)"
    using 2(4) by (auto simp: list_all_iff dest: set_dropWhileD)
  then show ?case using 2 by auto
qed simp

lemma replace_runs_id: "list_all (\<lambda>c. \<not> P c) s \<Longrightarrow> replace_runs P r s = s"
  by (induction s) auto

lemma sublist_dashes_Cons: "sublist ''--'' (c # s) \<longleftrightarrow> (c = CHR ''-'' \<and> s \<noteq> [] \<and> hd s = CHR ''-'') \<or> sublist ''--'' s"
  by (cases s) (auto simp: sublist_Cons_right)

lemma replace_runs_single: "\<not> sublist ''--'' (replace_runs (\<lambda>c. c = CHR ''-'') ''-'' s)"
proof (induction "\<lambda>c. c = CHR ''-''" "''-''" s rule: replace_runs.induct)
  case (2 c s)
  let ?d = "dropWhile (\<lambda>c. c = CHR ''-'') s"
  have "t = [] \<or> hd t \<noteq> CHR ''-'' \<Longrightarrow>
        replace_runs (\<lambda>c. c = CHR ''-'') ''-'' t = [] \<or>
        hd (replace_runs (\<lambda>c. c = CHR ''-'') ''-'' t) \<noteq> CHR ''-''" for t
    by (cases t) simp_all
  from this [of ?d] have "replace_runs (\<lambda>c. c = CHR ''-'') ''-'' ?d = [] \<or>
             hd (replace_runs (\<lambda>c. c = CHR ''-'') ''-'' ?d) \<noteq> CHR ''-''"
    using hd_dropWhile [of "\<lambda>c. c = CHR ''-''" s] by auto
  then show ?case using 2 by (auto simp: sublist_dashes_Cons)
qed simp

lemma replace_runs_dashes: "\<not> sublist ''--'' s \<Longrightarrow> replace_runs (\<lambda>c. c = CHR ''-'') ''-'' s = s"
proof (induction "\<lambda>c. c = CHR ''-''" "''-''" s rule: replace_runs.induct)
  case (2 c s)
  then have "c = CHR ''-'' \<Longrightarrow> dropWhile (\<lambda>c. c = CHR ''-'') s = s"
    by (intro dropWhile_hd_id) (auto simp: sublist_dashes_Cons)
  then show ?case using 2 by (auto simp: sublist_dashes_Cons)
qed simp

lemma drop_trailing_prefix: "prefix (drop_trailing d s) s"
  unfolding drop_trailing_def
  using suffix_dropWhile [of "\<lambda>c. c = d" "rev s"] by (simp add: suffix_to_prefix)

lemma drop_trailing_last: "drop_trailing d s = [] \<or> last (drop_trailing d s) \<noteq> d"
  unfolding drop_trailing_def
  by (metis (full_types) hd_dropWhile last_rev rev_is_Nil_conv)

lemma drop_trailing_hd: "s = [] \<or> hd s \<noteq> d \<Longrightarrow> drop_trailing d s = [] \<or> hd (drop_trailing d s) \<noteq> d"
  using drop_trailing_prefix [of d s] by (cases s) (auto simp: prefix_def, metis append_Nil hd_append2 list.sel(1))

lemma drop_trailing_id: "s = [] \<or> last s \<noteq> d \<Longrightarrow> drop_trailing d s = s"
  unfolding drop_trailing_def using dropWhile_hd_id [of "rev s" "\<lambda>c. c = d"] by (auto simp: hd_rev)

lemma drop_edges_id: "s = [] \<or> hd s \<noteq> d \<and> last s \<noteq> d \<Longrightarrow> drop_edges d s = s"
  using dropWhile_hd_id [of s "\<lambda>c. c = d"] by (auto simp: drop_edges_def drop_trailing_id)

lemma drop_edges_sublist: "sublist (drop_edges d s) s"
  unfolding drop_edges_def
  by (meson drop_trailing_prefix prefix_imp_sublist sublist_order.order_trans suffix_dropWhile suffix_imp_sublist)

lemma drop_edges_edges: "drop_edges d s = [] \<or> hd (drop_edges d s) \<noteq> d \<and> last (drop_edges d s) \<noteq> d"
  unfolding drop_edges_def
  using drop_trailing_last [of d] drop_trailing_hd [of "dropWhile (\<lambda>c. c = d) s" d]
    hd_dropWhile [of "\<lambda>c. c = d" s] by blast

lemma list_all_sublist: "sublist t s \<Longrightarrow> list_all P s \<Longrightarrow> list_all P t"
  by (auto simp: list_all_iff dest: set_mono_sublist)

lemma dash_slug_ok: "slug_ok 0 us (dash_slug us s)"
proof -
  let ?a = "replace_runs (\<lambda>c. \<not> slug_char us c) ''-'' s"
  let ?b = "replace_runs (\<lambda>c. c = CHR ''-'') ''-'' ?a"
  have dash: "slug_char us CHR ''-''" by (simp add: slug_char_def)
  have "list_all (slug_char us) ?a" by (rule replace_runs_all) (simp_all add: dash list_all_iff)
  then have "list_all (slug_char us) ?b" by (intro replace_runs_all) (auto simp: dash list_all_iff)
  then show ?thesis
    using drop_edges_sublist [of "CHR ''-''" ?b] replace_runs_single [of ?a] drop_edges_edges [of "CHR ''-''" ?b]
    by (auto simp: slug_ok_def dash_slug_def includes_str_def intro: list_all_sublist
             dest: sublist_order.order_trans)
qed

lemma slug_ok_cut: "slug_ok 0 us s \<Longrightarrow> slug_ok n us (drop_trailing CHR ''-'' (take n s))"
proof -
  assume ok: "slug_ok 0 us s"
  let ?t = "drop_trailing CHR ''-'' (take n s)"
  have pre: "prefix ?t s" using drop_trailing_prefix take_is_prefix prefix_order.order_trans by blast
  have "length ?t \<le> n" using drop_trailing_prefix [THEN prefix_length_le, of "CHR ''-''" "take n s"] by simp
  moreover have "?t = [] \<or> hd ?t = hd s" using pre by (metis hd_append2 prefix_def)
  moreover have "?t = [] \<or> s \<noteq> []" using pre by auto
  ultimately show ?thesis
    using ok pre [THEN prefix_imp_sublist] drop_trailing_last [of "CHR ''-''" "take n s"]
    by (auto simp: slug_ok_def includes_str_def intro: list_all_sublist dest: sublist_order.order_trans)
qed

lemma sanitizeSlug_ok: "slug_ok maxLength us (sanitizeSlug s maxLength us)"
proof -
  let ?d = "dash_slug us (to_lower (strip_diacritics (js_trim s)))"
  have "slug_ok maxLength us []" by (simp add: slug_ok_def includes_str_def)
  moreover have "\<not> (maxLength > 0 \<and> length ?d > maxLength) \<Longrightarrow> slug_ok maxLength us ?d"
    using dash_slug_ok [of us "to_lower (strip_diacritics (js_trim s))"] by (auto simp: slug_ok_def)
  ultimately show ?thesis
    using slug_ok_cut [OF dash_slug_ok] by (simp add: sanitizeSlug_def Let_def)
qed

lemma sanitizeSlug_fixed: "slug_ok maxLength us s \<Longrightarrow> sanitizeSlug s maxLength us = s"
proof -
  assume ok: "slug_ok maxLength us s"
  then have all: "list_all (slug_char us) s" by (simp add: slug_ok_def)
  have "js_trim s = s" using all by (intro js_trim_no_space) (auto simp: list_all_iff dest: slug_char_code)
  moreover have "dash_slug us s = s"
    using ok by (simp add: dash_slug_def replace_runs_id slug_ok_def replace_runs_dashes drop_edges_id includes_str_def)
  ultimately show ?thesis
    using ok strip_diacritics_slug [OF all] to_lower_slug [OF all] by (auto simp: sanitizeSlug_def slug_ok_def)
qed

text \<open>C23: a sanitized name is a slug: letters, digits, dashes and (if allowed) underscores, no two
  dashes in a row, none at the ends, no longer than the maximum; and the names the function leaves
  alone are exactly the slugs, so sanitizing again changes nothing.\<close>
theorem sanitizeSlug_canonical:
  "slug_ok maxLength us (sanitizeSlug s maxLength us) \<and>
   (sanitizeSlug s maxLength us = s \<longleftrightarrow> slug_ok maxLength us s)"
  using sanitizeSlug_ok [of maxLength us s] sanitizeSlug_fixed [of maxLength us s] by metis

section \<open>Captive portal domains\<close>

definition MAX_CAPTIVE_PORTAL_DOMAINS :: nat where
  "MAX_CAPTIVE_PORTAL_DOMAINS = 10"

definition lower_alnum :: "char \<Rightarrow> bool" where
  "lower_alnum c \<longleftrightarrow> lower_alpha_char c \<or> digit_char c"

definition DOMAIN_LABEL_PATTERN :: regex where
  "DOMAIN_LABEL_PATTERN = RSeq (RSet lower_alnum)
     (r_opt (RSeq (RUpto 61 (RSet (\<lambda>c. lower_alnum c \<or> c = CHR ''-''))) (RSet lower_alnum)))"

definition isExactHostname :: "string \<Rightarrow> bool" where
  "isExactHostname value =
     (if length value > 253 \<or> includes_str value ''..'' then False
      else let labels = split_on CHR ''.'' value
           in 2 \<le> length labels \<and> list_all (regex_test DOMAIN_LABEL_PATTERN) labels \<and>
              2 \<le> length (last labels))"

definition portal_domain :: "string \<Rightarrow> string" where
  "portal_domain value = strip_suffix ''.'' (to_lower (js_trim value))"

definition url_like :: "string \<Rightarrow> bool" where
  "url_like d \<longleftrightarrow> includes_str d ''://'' \<or> CHR ''/'' \<in> set d \<or> CHR ''?'' \<in> set d \<or> CHR ''#'' \<in> set d"

text \<open>The loop; the set \<open>seen\<close> of the source always holds the entries of \<open>normalized\<close>.\<close>

fun portal_loop :: "string list \<Rightarrow> string list \<Rightarrow> string + string list" where
  "portal_loop [] normalized = Inr normalized"
| "portal_loop (value # rest) normalized =
     (let domain = portal_domain value
      in if domain = [] then portal_loop rest normalized
         else if url_like domain then Inl ''Captive portal domains must be exact hostnames, not URLs''
         else if CHR ''*'' \<in> set domain then Inl ''Captive portal domains must not use wildcard domains''
         else if \<not> isExactHostname domain then Inl ''Captive portal domains must be valid domain hostnames''
         else portal_loop rest (if domain \<in> set normalized then normalized else normalized @ [domain]))"

definition normalizeCaptivePortalDomains :: "string list option \<Rightarrow> string + string list" where
  "normalizeCaptivePortalDomains values =
     and_then (portal_loop (case values of Some vs \<Rightarrow> vs | None \<Rightarrow> []) []) (\<lambda>normalized.
       if length normalized > MAX_CAPTIVE_PORTAL_DOMAINS
       then Inl ''Captive portal domains can include at most 10 entries'' else Inr normalized)"

definition host_char :: "char \<Rightarrow> bool" where
  "host_char c \<longleftrightarrow> lower_alnum c \<or> c = CHR ''-'' \<or> c = CHR ''.''"

lemma label_pattern_chars:
  "regex_test DOMAIN_LABEL_PATTERN l \<Longrightarrow> l \<noteq> [] \<and> list_all (\<lambda>c. lower_alnum c \<or> c = CHR ''-'') l"
  by (auto simp: regex_test_iff DOMAIN_LABEL_PATTERN_def matches_seq_set matches_opt matches_RSeq
        matches_upto_set)

lemma exact_hostname_chars: "isExactHostname d \<Longrightarrow> list_all host_char d"
proof -
  assume "isExactHostname d"
  then have lab: "\<forall>l\<in>set (split_on CHR ''.'' d). list_all (\<lambda>c. lower_alnum c \<or> c = CHR ''-'') l"
    by (auto simp: isExactHostname_def Let_def list_all_iff [of "regex_test _"] dest: label_pattern_chars split: if_splits)
  have "set (join_with ''.'' (split_on CHR ''.'' d)) \<subseteq> \<Union> (set ` set (split_on CHR ''.'' d)) \<union> set ''.''"
    by (rule set_join_with)
  then show ?thesis using lab by (fastforce simp: join_split_on list_all_iff host_char_def)
qed

lemma exact_hostname_no_dot_end: "isExactHostname d \<Longrightarrow> d \<noteq> [] \<and> \<not> suffix ''.'' d"
proof -
  assume h: "isExactHostname d"
  then have last: "2 \<le> length (last (split_on CHR ''.'' d))" "2 \<le> length (split_on CHR ''.'' d)"
    by (auto simp: isExactHostname_def Let_def split: if_splits)
  have "last (split_on CHR ''.'' (u @ ''.'')) = []" for u
    using split_on_append [of "CHR ''.''" u "[]"] by simp
  then show ?thesis using last by (auto simp: suffix_def)
qed

lemma host_char_code: "host_char c \<Longrightarrow> \<not> js_space c \<and> \<not> upper_char c \<and> c \<notin> set ''/?#*:''"
  by (auto simp: host_char_def lower_alnum_def lower_alpha_char_def digit_char_def js_space_def upper_char_def Let_def)

lemma portal_domain_fixed: "isExactHostname d \<Longrightarrow> portal_domain d = d \<and> d \<noteq> [] \<and> \<not> url_like d \<and> CHR ''*'' \<notin> set d"
proof -
  assume h: "isExactHostname d"
  have c: "\<And>x. x \<in> set d \<Longrightarrow> \<not> js_space x \<and> \<not> upper_char x \<and> x \<notin> set ''/?#*:''"
    using exact_hostname_chars [OF h] host_char_code by (auto simp: list_all_iff)
  have "js_trim d = d" using c by (intro js_trim_no_space) auto
  moreover have "to_lower d = d" using c by (simp add: to_lower_def map_idI to_lower_char_fixed)
  moreover have "\<not> url_like d" using c [of "CHR ''/''"] c [of "CHR ''?''"] c [of "CHR ''#''"]
    by (auto simp: url_like_def includes_str_def dest!: set_mono_sublist)
  moreover have "CHR ''*'' \<notin> set d" using c by auto
  ultimately show ?thesis
    using exact_hostname_no_dot_end [OF h] by (auto simp: portal_domain_def strip_suffix_def)
qed

lemma portal_loop_spec:
  "portal_loop vs acc = Inr ds \<Longrightarrow> distinct acc \<Longrightarrow> list_all isExactHostname acc \<Longrightarrow>
   distinct ds \<and> list_all isExactHostname ds \<and>
   set ds = set acc \<union> {d \<in> portal_domain ` set vs. d \<noteq> []}"
proof (induction vs acc rule: portal_loop.induct)
  case (2 v vs acc)
  then show ?case
    by (auto simp: Let_def split: if_splits)
qed auto

lemma portal_loop_accepts:
  "list_all isExactHostname ds \<Longrightarrow> distinct (acc @ ds) \<Longrightarrow> portal_loop ds acc = Inr (acc @ ds)"
  by (induction ds arbitrary: acc) (auto simp: Let_def portal_domain_fixed)

lemma normalizeCaptive_spec:
  "normalizeCaptivePortalDomains vs = Inr ds \<Longrightarrow>
     distinct ds \<and> list_all isExactHostname ds \<and> length ds \<le> MAX_CAPTIVE_PORTAL_DOMAINS \<and>
     set ds = {d. d \<noteq> [] \<and> (\<exists>v \<in> set (case vs of Some l \<Rightarrow> l | None \<Rightarrow> []). d = portal_domain v)}"
  using portal_loop_spec [of "case vs of Some l \<Rightarrow> l | None \<Rightarrow> []" "[]" ds]
  by (auto simp: normalizeCaptivePortalDomains_def and_then_Inr_iff split: if_splits)

lemma normalizeCaptive_accepts:
  "distinct ds \<Longrightarrow> list_all isExactHostname ds \<Longrightarrow> length ds \<le> MAX_CAPTIVE_PORTAL_DOMAINS \<Longrightarrow>
   normalizeCaptivePortalDomains (Some ds) = Inr ds"
  using portal_loop_accepts [of ds "[]"] by (simp add: normalizeCaptivePortalDomains_def)

text \<open>A list of captive portal domains the code accepts becomes the list of its distinct
  non-blank entries, lower-cased and without a final dot, each an exact host name, at most ten of
  them; normalizing the stored list again gives the same list.\<close>
theorem captive_portal_domains_normal:
  assumes "normalizeCaptivePortalDomains (Some values) = Inr ds"
  shows "distinct ds \<and> list_all isExactHostname ds \<and> length ds \<le> 10 \<and>
         set ds = {d. d \<noteq> [] \<and> (\<exists>v\<in>set values. d = portal_domain v)} \<and>
         normalizeCaptivePortalDomains (Some ds) = Inr ds"
  using normalizeCaptive_spec [OF assms] normalizeCaptive_accepts [of ds]
  by (simp_all add: MAX_CAPTIVE_PORTAL_DOMAINS_def)

lemma demo_portal:
  "normalizeCaptivePortalDomains (Some ['' Login.Example.ORG. '', ''  '', ''login.example.org'']) =
     Inr [''login.example.org'']"
  by code_simp

theorem captive_portal_domains_normal_witness:
  "normalizeCaptivePortalDomains (Some ['' Login.Example.ORG. '', ''  '', ''login.example.org'']) =
     Inr [''login.example.org''] \<and>
   normalizeCaptivePortalDomains (Some [''login.example.org'']) = Inr [''login.example.org'']"
  using captive_portal_domains_normal [OF demo_portal] demo_portal by simp

section \<open>Status\<close>

datatype classroom_machine_status = MS_online | MS_stale | MS_offline

datatype classroom_status = CS_operational | CS_degraded | CS_offline

text \<open>The quotient \<open>diffMs / 60000\<close> is a fraction of minutes; the comparisons are on it.\<close>

definition calculateClassroomMachineStatus :: "int option \<Rightarrow> int \<Rightarrow> classroom_machine_status" where
  "calculateClassroomMachineStatus lastSeen now =
     (case lastSeen of
        None \<Rightarrow> MS_offline
      | Some seen \<Rightarrow>
          let diffMs = now - seen
          in if diffMs \<le> 5 * 60000 then MS_online
             else if diffMs \<le> 15 * 60000 then MS_stale else MS_offline)"

definition calculateClassroomStatus :: "classroom_machine_status list \<Rightarrow> classroom_status" where
  "calculateClassroomStatus machines =
     (if machines = [] then CS_operational
      else let onlineCount = length (filter (\<lambda>s. s = MS_online) machines);
               offlineCount = length (filter (\<lambda>s. s = MS_offline) machines)
           in if onlineCount = length machines then CS_operational
              else if offlineCount = length machines then CS_offline else CS_degraded)"

lemma length_filter_all: "length (filter P xs) = length xs \<longleftrightarrow> list_all P xs"
  by (metis filter_True filter_id_conv length_filter_less list_all_iff nat_neq_iff)

text \<open>A classroom is operational when every machine was seen in the last five minutes, offline when
  it has machines and none was seen in the last fifteen, and degraded otherwise.\<close>
theorem classroom_status_meaning:
  "calculateClassroomStatus (map (\<lambda>seen. calculateClassroomMachineStatus seen now) seens) =
     (if list_all (\<lambda>s. \<exists>t. s = Some t \<and> now - t \<le> 300000) seens then CS_operational
      else if list_all (\<lambda>s. s = None \<or> (\<exists>t. s = Some t \<and> now - t > 900000)) seens then CS_offline
      else CS_degraded)"
proof -
  have on: "calculateClassroomMachineStatus s now = MS_online \<longleftrightarrow> (\<exists>t. s = Some t \<and> now - t \<le> 300000)"
    and off: "calculateClassroomMachineStatus s now = MS_offline \<longleftrightarrow> s = None \<or> (\<exists>t. s = Some t \<and> now - t > 900000)" for s
    by (auto simp: calculateClassroomMachineStatus_def Let_def split: option.splits)
  show ?thesis
    unfolding calculateClassroomStatus_def Let_def length_filter_all
    by (simp add: list_all_iff on off)
qed

section \<open>The group in force\<close>

datatype current_group_source = CG_manual | CG_schedule | CG_default | CG_none

text \<open>\<open>x !== null && x.length > 0\<close>.\<close>

definition present :: "string option \<Rightarrow> bool" where
  "present x \<longleftrightarrow> (case x of Some s \<Rightarrow> length s > 0 | None \<Rightarrow> False)"

definition resolveCurrentGroup ::
  "string option \<Rightarrow> string option \<Rightarrow> string option \<Rightarrow> string option \<times> current_group_source" where
  "resolveCurrentGroup activeGroupId scheduleGroupId defaultGroupId =
     (if present activeGroupId then (activeGroupId, CG_manual)
      else if present scheduleGroupId then (scheduleGroupId, CG_schedule)
      else if present defaultGroupId then (defaultGroupId, CG_default)
      else (None, CG_none))"

end
