(* ===== verification/Groups_Storage.thy ===== *)
theory Groups_Storage
  imports Root_Domain Db_Tables
begin

text \<open>
  Whitelist groups and their rules: \<open>api/src/lib/groups-storage-*.ts\<close> over the tables
  \<open>whitelist_groups\<close> and \<open>whitelist_rules\<close> of \<open>api/src/db/schema.ts\<close>, with the constraints the
  schema declares: primary keys, unique group names, unique \<open>(group, type, value)\<close>, the foreign
  key from rules to groups and its cascade.  A statement that breaks a constraint raises.

  \<open>localeCompare\<close> compares collation keys; the function \<open>ck\<close> from a string to its key is a
  parameter.  Random identifiers and the current time are arguments; dates are instants.
\<close>

record group_row =
  grp_id :: string
  grp_name :: string
  grp_displayName :: string
  grp_enabled :: int
  grp_visibility :: string
  grp_ownerUserId :: "string option"
  grp_createdAt :: "int option"
  grp_updatedAt :: "int option"

record rule_row =
  rul_id :: string
  rul_groupId :: string
  rul_type :: rule_type
  rul_value :: string
  rul_enabled :: int
  rul_comment :: "string option"
  rul_createdAt :: "int option"

record group_store =
  gs_groups :: "group_row table"
  gs_rules :: "rule_row table"

datatype db_error = Unique_violation | Foreign_key_violation | App_error string

section \<open>API views of the rows\<close>

record group_with_counts =
  gwc_id :: string
  gwc_name :: string
  gwc_displayName :: string
  gwc_enabled :: bool
  gwc_visibility :: string
  gwc_ownerUserId :: "string option"
  gwc_createdAt :: int
  gwc_updatedAt :: "int option"
  gwc_whitelistCount :: nat
  gwc_blockedSubdomainCount :: nat
  gwc_blockedPathCount :: nat

record group_meta =
  gm_id :: string
  gm_name :: string
  gm_displayName :: string
  gm_enabled :: bool
  gm_visibility :: string
  gm_ownerUserId :: "string option"
  gm_updatedAt :: int

record api_rule =
  ar_id :: string
  ar_groupId :: string
  ar_type :: rule_type
  ar_value :: string
  ar_enabled :: bool
  ar_comment :: "string option"
  ar_createdAt :: int

definition norm_visibility :: "string \<Rightarrow> string" where
  "norm_visibility v = (if v = ''instance_public'' then ''instance_public'' else ''private'')"

definition or_else :: "'a option \<Rightarrow> 'a \<Rightarrow> 'a" where
  "or_else x d = (case x of Some a \<Rightarrow> a | None \<Rightarrow> d)"

definition dbGroupToApi :: "int \<Rightarrow> group_row \<Rightarrow> rule_row list \<Rightarrow> group_with_counts" where
  "dbGroupToApi now g rules =
     \<lparr>gwc_id = grp_id g, gwc_name = grp_name g, gwc_displayName = grp_displayName g,
      gwc_enabled = (grp_enabled g = 1), gwc_visibility = norm_visibility (grp_visibility g),
      gwc_ownerUserId = grp_ownerUserId g, gwc_createdAt = or_else (grp_createdAt g) now,
      gwc_updatedAt = grp_updatedAt g,
      gwc_whitelistCount = count_where (\<lambda>r. rul_type r = Whitelist) rules,
      gwc_blockedSubdomainCount = count_where (\<lambda>r. rul_type r = Blocked_subdomain) rules,
      gwc_blockedPathCount = count_where (\<lambda>r. rul_type r = Blocked_path) rules\<rparr>"

definition dbGroupToMeta :: "int \<Rightarrow> group_row \<Rightarrow> group_meta" where
  "dbGroupToMeta now g =
     \<lparr>gm_id = grp_id g, gm_name = grp_name g, gm_displayName = grp_displayName g,
      gm_enabled = (grp_enabled g = 1), gm_visibility = norm_visibility (grp_visibility g),
      gm_ownerUserId = grp_ownerUserId g, gm_updatedAt = or_else (grp_updatedAt g) now\<rparr>"

definition dbRuleToApi :: "int \<Rightarrow> rule_row \<Rightarrow> api_rule" where
  "dbRuleToApi now r =
     \<lparr>ar_id = rul_id r, ar_groupId = rul_groupId r, ar_type = rul_type r, ar_value = rul_value r,
      ar_enabled = (rul_enabled r = 1), ar_comment = rul_comment r,
      ar_createdAt = or_else (rul_createdAt r) now\<rparr>"

definition normalize_domain :: "string \<Rightarrow> string" where
  "normalize_domain s = js_trim (to_lower s)"

definition normalizeRuleValue :: "rule_type \<Rightarrow> string \<Rightarrow> string" where
  "normalizeRuleValue type value = (if type = Blocked_path then js_trim value else normalize_domain value)"

section \<open>Constraints\<close>

definition rule_key :: "rule_row \<Rightarrow> string \<times> rule_type \<times> string" where
  "rule_key r = (rul_groupId r, rul_type r, rul_value r)"

definition insert_rules :: "rule_row list \<Rightarrow> group_store \<Rightarrow> db_error + group_store" where
  "insert_rules rows s =
     (if list_ex (\<lambda>r. row_by grp_id (rul_groupId r) (gs_groups s) = None) rows then Inl Foreign_key_violation
      else
        let t = gs_rules s @ rows
        in if distinct (map rul_id t) \<and> distinct (map rule_key t) then Inr (s\<lparr>gs_rules := t\<rparr>)
           else Inl Unique_violation)"

definition update_rules :: "(rule_row \<Rightarrow> bool) \<Rightarrow> (rule_row \<Rightarrow> rule_row) \<Rightarrow> group_store \<Rightarrow> db_error + group_store" where
  "update_rules P f s =
     (let t = upd_where P f (gs_rules s)
      in if distinct (map rule_key t) then Inr (s\<lparr>gs_rules := t\<rparr>) else Inl Unique_violation)"

section \<open>Groups\<close>

definition rules_of_group :: "string \<Rightarrow> group_store \<Rightarrow> rule_row list" where
  "rules_of_group gid s = sel_where (\<lambda>r. rul_groupId r = gid) (gs_rules s)"

definition getAllGroups :: "int \<Rightarrow> group_store \<Rightarrow> group_with_counts list" where
  "getAllGroups now s = map (\<lambda>g. dbGroupToApi now g (rules_of_group (grp_id g) s)) (gs_groups s)"

definition getGroupById :: "int \<Rightarrow> string \<Rightarrow> group_store \<Rightarrow> group_with_counts option" where
  "getGroupById now i s =
     map_option (\<lambda>g. dbGroupToApi now g (rules_of_group i s)) (row_by grp_id i (gs_groups s))"

definition getGroupMetaById :: "int \<Rightarrow> string \<Rightarrow> group_store \<Rightarrow> group_meta option" where
  "getGroupMetaById now i s = map_option (dbGroupToMeta now) (row_by grp_id i (gs_groups s))"

definition getGroupMetaByName :: "int \<Rightarrow> string \<Rightarrow> group_store \<Rightarrow> group_meta option" where
  "getGroupMetaByName now n s = map_option (dbGroupToMeta now) (row_by grp_name n (gs_groups s))"

definition getGroupByName :: "int \<Rightarrow> string \<Rightarrow> group_store \<Rightarrow> group_with_counts option" where
  "getGroupByName now n s =
     map_option (\<lambda>g. dbGroupToApi now g (rules_of_group (grp_id g) s)) (row_by grp_name n (gs_groups s))"

definition touchGroupUpdatedAt :: "int \<Rightarrow> string \<Rightarrow> group_store \<Rightarrow> group_store" where
  "touchGroupUpdatedAt now i s =
     s\<lparr>gs_groups := upd_by grp_id i (\<lambda>g. g\<lparr>grp_updatedAt := Some now\<rparr>) (gs_groups s)\<rparr>"

record create_group_opts =
  cgo_enabled :: "bool option"
  cgo_visibility :: "string option"
  cgo_ownerUserId :: "string option"

definition createGroup ::
  "string \<Rightarrow> int \<Rightarrow> string \<Rightarrow> string \<Rightarrow> create_group_opts \<Rightarrow> group_store \<Rightarrow> db_error + string \<times> group_store" where
  "createGroup newId now name displayName opts s =
     (if getGroupByName now name s \<noteq> None then Inl (App_error ''UNIQUE_CONSTRAINT_VIOLATION'')
      else if row_by grp_id newId (gs_groups s) \<noteq> None then Inl Unique_violation
      else
        let g = \<lparr>grp_id = newId, grp_name = name, grp_displayName = displayName,
                 grp_enabled = (if cgo_enabled opts = Some False then 0 else 1),
                 grp_visibility = or_else (cgo_visibility opts) ''private'',
                 grp_ownerUserId = cgo_ownerUserId opts,
                 grp_createdAt = Some now, grp_updatedAt = Some now\<rparr>
        in Inr (newId, s\<lparr>gs_groups := ins_row g (gs_groups s)\<rparr>))"

definition updateGroup ::
  "int \<Rightarrow> string \<Rightarrow> string \<Rightarrow> bool \<Rightarrow> string option \<Rightarrow> group_store \<Rightarrow> group_store" where
  "updateGroup now i displayName enabled visibility s =
     s\<lparr>gs_groups := upd_by grp_id i (\<lambda>g. g\<lparr>grp_displayName := displayName,
        grp_enabled := (if enabled then 1 else 0),
        grp_visibility := (case visibility of Some v \<Rightarrow> if v = [] then grp_visibility g else v | None \<Rightarrow> grp_visibility g),
        grp_updatedAt := Some now\<rparr>) (gs_groups s)\<rparr>"

definition deleteGroup :: "string \<Rightarrow> group_store \<Rightarrow> bool \<times> group_store" where
  "deleteGroup i s =
     (count_where (\<lambda>g. grp_id g = i) (gs_groups s) > 0,
      \<lparr>gs_groups = del_by grp_id i (gs_groups s), gs_rules = del_where (\<lambda>r. rul_groupId r = i) (gs_rules s)\<rparr>)"

record group_stats =
  st_groupCount :: nat
  st_whitelistCount :: nat
  st_blockedCount :: nat

definition getStats :: "group_store \<Rightarrow> group_stats" where
  "getStats s = \<lparr>st_groupCount = length (gs_groups s),
     st_whitelistCount = count_where (\<lambda>r. rul_type r = Whitelist) (gs_rules s),
     st_blockedCount = count_where (\<lambda>r. rul_type r = Blocked_subdomain \<or> rul_type r = Blocked_path) (gs_rules s)\<rparr>"

record system_status =
  ss_enabled :: bool
  ss_totalGroups :: nat
  ss_activeGroups :: nat
  ss_pausedGroups :: nat

definition getSystemStatus :: "group_store \<Rightarrow> system_status" where
  "getSystemStatus s = \<lparr>ss_enabled = list_ex (\<lambda>g. grp_enabled g = 1) (gs_groups s),
     ss_totalGroups = length (gs_groups s),
     ss_activeGroups = count_where (\<lambda>g. grp_enabled g = 1) (gs_groups s),
     ss_pausedGroups = count_where (\<lambda>g. grp_enabled g = 0) (gs_groups s)\<rparr>"

definition toggleSystemStatus :: "int \<Rightarrow> bool \<Rightarrow> group_store \<Rightarrow> system_status \<times> group_store" where
  "toggleSystemStatus now enable s =
     (let s' = s\<lparr>gs_groups := map (\<lambda>g. g\<lparr>grp_enabled := (if enable then 1 else 0), grp_updatedAt := Some now\<rparr>)
                                 (gs_groups s)\<rparr>
      in (getSystemStatus s', s'))"

section \<open>Reading rules\<close>

definition listRuleRowsByGroup :: "string \<Rightarrow> rule_type option \<Rightarrow> group_store \<Rightarrow> rule_row list" where
  "listRuleRowsByGroup gid type s =
     (case type of
        Some ty \<Rightarrow> sel_where (\<lambda>r. rul_groupId r = gid \<and> rul_type r = ty) (gs_rules s)
      | None \<Rightarrow> sel_where (\<lambda>r. rul_groupId r = gid) (gs_rules s))"

definition filterRulesByEnabled :: "rule_row list \<Rightarrow> bool option \<Rightarrow> rule_row list" where
  "filterRulesByEnabled rules enabled =
     (case enabled of None \<Rightarrow> rules | Some b \<Rightarrow> filter (\<lambda>r. (rul_enabled r = 1) = b) rules)"

definition getRulesByGroup ::
  "(string \<Rightarrow> nat list) \<Rightarrow> int \<Rightarrow> string \<Rightarrow> rule_type option \<Rightarrow> bool option \<Rightarrow> group_store \<Rightarrow> api_rule list" where
  "getRulesByGroup ck now gid type enabled s =
     sort_key (\<lambda>r. ck (ar_value r))
       (map (dbRuleToApi now) (filterRulesByEnabled (listRuleRowsByGroup gid type s) enabled))"

record list_rules_options =
  lro_groupId :: string
  lro_type :: "rule_type option"
  lro_enabled :: "bool option"
  lro_limit :: "nat option"
  lro_offset :: "nat option"
  lro_search :: "string option"

record paginated_rules_result =
  prr_rules :: "api_rule list"
  prr_total :: nat
  prr_hasMore :: bool

definition js_slice :: "nat \<Rightarrow> nat \<Rightarrow> 'a list \<Rightarrow> 'a list" where
  "js_slice a b xs = take (b - a) (drop a xs)"

definition filter_search :: "string option \<Rightarrow> rule_row list \<Rightarrow> rule_row list" where
  "filter_search search rules =
     (case search of
        Some q \<Rightarrow> if js_trim q \<noteq> [] then filter (\<lambda>r. includes_str (to_lower (rul_value r)) (js_trim (to_lower q))) rules
                  else rules
      | None \<Rightarrow> rules)"

definition listed_rows :: "list_rules_options \<Rightarrow> group_store \<Rightarrow> rule_row list" where
  "listed_rows options s =
     filter_search (lro_search options)
       (filterRulesByEnabled (listRuleRowsByGroup (lro_groupId options) (lro_type options) s) (lro_enabled options))"

definition getRulesByGroupPaginated ::
  "(string \<Rightarrow> nat list) \<Rightarrow> int \<Rightarrow> list_rules_options \<Rightarrow> group_store \<Rightarrow> paginated_rules_result" where
  "getRulesByGroupPaginated ck now options s =
     (let limit = or_else (lro_limit options) 50;
          offset = or_else (lro_offset options) 0;
          filtered = sort_key (\<lambda>r. ck (rul_value r)) (listed_rows options s)
      in \<lparr>prr_rules = map (dbRuleToApi now) (js_slice offset (offset + limit) filtered),
          prr_total = length filtered,
          prr_hasMore = (offset + limit < length filtered)\<rparr>)"

definition getRuleById :: "int \<Rightarrow> string \<Rightarrow> group_store \<Rightarrow> api_rule option" where
  "getRuleById now i s = map_option (dbRuleToApi now) (row_by rul_id i (gs_rules s))"

definition getRulesByIds :: "int \<Rightarrow> string list \<Rightarrow> group_store \<Rightarrow> api_rule list" where
  "getRulesByIds now ids s =
     (if ids = [] then []
      else
        let rows = sel_where (\<lambda>r. rul_id r \<in> set (js_unique ids)) (gs_rules s)
        in if rows = [] then []
           else List.map_filter (\<lambda>i. map_option (dbRuleToApi now) (List.find (\<lambda>r. rul_id r = i) (rev rows))) ids)"

record blocked_check_result =
  bcr_blocked :: bool
  bcr_matchedRule :: "string option"

definition subdomain_pattern_hit :: "string \<Rightarrow> string \<Rightarrow> bool" where
  "subdomain_pattern_hit domainLower pattern \<longleftrightarrow>
     pattern = domainLower \<or> ends_with domainLower (CHR ''.'' # pattern) \<or>
     (starts_with pattern ''*.'' \<and>
      (let baseDomain = drop 2 pattern in domainLower = baseDomain \<or> ends_with domainLower (CHR ''.'' # baseDomain)))"

definition isDomainBlocked ::
  "(string \<Rightarrow> nat list) \<Rightarrow> int \<Rightarrow> string \<Rightarrow> string \<Rightarrow> group_store \<Rightarrow> blocked_check_result" where
  "isDomainBlocked ck now gid domain s =
     (let rules = getRulesByGroup ck now gid (Some Blocked_subdomain) None s;
          domainLower = normalize_domain domain
      in case List.find (\<lambda>r. subdomain_pattern_hit domainLower (to_lower (ar_value r))) rules of
           Some r \<Rightarrow> \<lparr>bcr_blocked = True, bcr_matchedRule = Some (to_lower (ar_value r))\<rparr>
         | None \<Rightarrow> \<lparr>bcr_blocked = False, bcr_matchedRule = None\<rparr>)"

definition getBlockedSubdomains :: "(string \<Rightarrow> nat list) \<Rightarrow> int \<Rightarrow> string \<Rightarrow> group_store \<Rightarrow> string list" where
  "getBlockedSubdomains ck now gid s = map ar_value (getRulesByGroup ck now gid (Some Blocked_subdomain) None s)"

datatype group_status = Group_allowed | Group_mixed

record domain_group =
  dg_root :: string
  dg_rules :: "api_rule list"
  dg_status :: group_status

record paginated_grouped_result =
  pgr_groups :: "domain_group list"
  pgr_totalGroups :: nat
  pgr_totalRules :: nat
  pgr_hasMore :: bool

definition getRulesByGroupGrouped ::
  "(string \<Rightarrow> nat list) \<Rightarrow> int \<Rightarrow> list_rules_options \<Rightarrow> group_store \<Rightarrow> paginated_grouped_result" where
  "getRulesByGroupGrouped ck now options s =
     (let limit = or_else (lro_limit options) 20;
          offset = or_else (lro_offset options) 0;
          filtered = listed_rows options s;
          groupedMap = groupByRootDomain rul_value filtered;
          sortedRoots = sort_key ck (map fst groupedMap);
          paginatedRoots = js_slice offset (offset + limit) sortedRoots
      in \<lparr>pgr_groups = map (\<lambda>root.
            let groupRules = sort_key (\<lambda>r. ck (rul_value r)) (or_else (map_of groupedMap root) [])
            in \<lparr>dg_root = root, dg_rules = map (dbRuleToApi now) groupRules,
                dg_status = (if list_ex (\<lambda>r. rul_type r = Blocked_subdomain \<or> rul_type r = Blocked_path) groupRules
                             then Group_mixed else Group_allowed)\<rparr>) paginatedRoots,
          pgr_totalGroups = length sortedRoots, pgr_totalRules = length filtered,
          pgr_hasMore = (offset + limit < length sortedRoots)\<rparr>)"

section \<open>Changing rules\<close>

text \<open>
  The commands run against an executor: the database itself, or an open transaction.  In a
  transaction \<open>getRuleById\<close> still reads the committed state, which is then the argument \<open>ambient\<close>.
\<close>

definition read_back :: "int \<Rightarrow> string \<Rightarrow> group_store option \<Rightarrow> group_store \<Rightarrow> api_rule option" where
  "read_back now i ambient s = getRuleById now i (or_else ambient s)"

record update_rule_input =
  uri_id :: string
  uri_value :: "string option"
  uri_comment :: "string option option"

definition set_rule :: "string option \<Rightarrow> string option option \<Rightarrow> rule_row \<Rightarrow> rule_row" where
  "set_rule value comment r = r\<lparr>
     rul_value := or_else value (rul_value r), rul_comment := or_else comment (rul_comment r)\<rparr>"

definition updateRule ::
  "int \<Rightarrow> update_rule_input \<Rightarrow> group_store option \<Rightarrow> group_store \<Rightarrow> db_error + api_rule option \<times> group_store" where
  "updateRule now input ambient s =
     (let i = uri_id input in
      case row_by rul_id i (gs_rules s) of
        None \<Rightarrow> Inr (None, s)
      | Some existing \<Rightarrow>
          (let newValue = map_option (normalizeRuleValue (rul_type existing)) (uri_value input);
               duplicate = (case newValue of
                   None \<Rightarrow> False
                 | Some v \<Rightarrow> (case sel_first (\<lambda>r. rul_groupId r = rul_groupId existing \<and>
                                          rul_type r = rul_type existing \<and> rul_value r = v) (gs_rules s) of
                                Some d \<Rightarrow> rul_id d \<noteq> i | None \<Rightarrow> False))
           in if duplicate then Inr (None, s)
              else if newValue = None \<and> uri_comment input = None then Inr (read_back now i ambient s, s)
              else and_then (update_rules (\<lambda>r. rul_id r = i) (set_rule newValue (uri_comment input)) s) (\<lambda>s1.
                   let s2 = touchGroupUpdatedAt now (rul_groupId existing) s1
                   in Inr (read_back now i ambient s2, s2))))"

datatype create_rule_result = Rule_created string | Rule_rejected string

definition createRule ::
  "string \<Rightarrow> int \<Rightarrow> string \<Rightarrow> rule_type \<Rightarrow> string \<Rightarrow> string option \<Rightarrow> group_store \<Rightarrow>
   db_error + create_rule_result \<times> group_store" where
  "createRule newId now gid type value comment s =
     (let v = normalizeRuleValue type value in
      if sel_first (\<lambda>r. rul_groupId r = gid \<and> rul_type r = type \<and> rul_value r = v) (gs_rules s) \<noteq> None
      then Inr (Rule_rejected ''Rule already exists'', s)
      else and_then (insert_rules [\<lparr>rul_id = newId, rul_groupId = gid, rul_type = type, rul_value = v,
                        rul_enabled = 1, rul_comment = comment, rul_createdAt = Some now\<rparr>] s) (\<lambda>s1.
             Inr (Rule_created newId, touchGroupUpdatedAt now gid s1)))"

definition deleteRule :: "int \<Rightarrow> string \<Rightarrow> group_store \<Rightarrow> bool \<times> group_store" where
  "deleteRule now i s =
     (let existing = row_by rul_id i (gs_rules s);
          deleted = count_where (\<lambda>r. rul_id r = i) (gs_rules s) > 0;
          s1 = s\<lparr>gs_rules := del_by rul_id i (gs_rules s)\<rparr>
      in (deleted, case existing of Some r \<Rightarrow> if deleted then touchGroupUpdatedAt now (rul_groupId r) s1 else s1
                   | None \<Rightarrow> s1))"

definition touch_all :: "int \<Rightarrow> string list \<Rightarrow> group_store \<Rightarrow> group_store" where
  "touch_all now gids s = fold (touchGroupUpdatedAt now) gids s"

definition bulkDeleteRules :: "int \<Rightarrow> string list \<Rightarrow> group_store \<Rightarrow> nat \<times> group_store" where
  "bulkDeleteRules now ids s =
     (if ids = [] then (0, s)
      else
        let uniqueIds = js_unique ids;
            existing = sel_where (\<lambda>r. rul_id r \<in> set uniqueIds) (gs_rules s);
            n = count_where (\<lambda>r. rul_id r \<in> set uniqueIds) (gs_rules s);
            s1 = s\<lparr>gs_rules := del_where (\<lambda>r. rul_id r \<in> set uniqueIds) (gs_rules s)\<rparr>
        in (n, if n > 0 then touch_all now (js_unique (map rul_groupId existing)) s1 else s1))"

definition setRuleEnabled ::
  "int \<Rightarrow> string \<Rightarrow> bool \<Rightarrow> group_store option \<Rightarrow> group_store \<Rightarrow> api_rule option \<times> group_store" where
  "setRuleEnabled now i enabled ambient s =
     (case row_by rul_id i (gs_rules s) of
        None \<Rightarrow> (None, s)
      | Some existing \<Rightarrow>
          (let s1 = s\<lparr>gs_rules := upd_by rul_id i (\<lambda>r. r\<lparr>rul_enabled := (if enabled then 1 else 0)\<rparr>) (gs_rules s)\<rparr>;
               s2 = touchGroupUpdatedAt now (rul_groupId existing) s1
           in (read_back now i ambient s2, s2)))"

definition bulkSetRulesEnabled :: "int \<Rightarrow> string list \<Rightarrow> bool \<Rightarrow> group_store \<Rightarrow> nat \<times> group_store" where
  "bulkSetRulesEnabled now ids enabled s =
     (if ids = [] then (0, s)
      else
        let uniqueIds = js_unique ids;
            existing = sel_where (\<lambda>r. rul_id r \<in> set uniqueIds) (gs_rules s);
            n = count_where (\<lambda>r. rul_id r \<in> set uniqueIds) (gs_rules s);
            s1 = s\<lparr>gs_rules := upd_where (\<lambda>r. rul_id r \<in> set uniqueIds)
                     (\<lambda>r. r\<lparr>rul_enabled := (if enabled then 1 else 0)\<rparr>) (gs_rules s)\<rparr>
        in (n, if n > 0 then touch_all now (js_unique (map rul_groupId existing)) s1 else s1))"

text \<open>Each value of \<open>bulkCreateRules\<close> comes with the identifier its insertion would draw.\<close>

fun bulkCreateRules ::
  "int \<Rightarrow> string \<Rightarrow> rule_type \<Rightarrow> (string \<times> string) list \<Rightarrow> group_store \<Rightarrow> db_error + nat \<times> group_store" where
  "bulkCreateRules now gid type [] s = Inr (0, s)"
| "bulkCreateRules now gid type ((newId, value) # rest) s =
     (let v = normalize_domain value in
      if v = [] then bulkCreateRules now gid type rest s
      else and_then (createRule newId now gid type v None s) (\<lambda>(res, s1).
           and_then (bulkCreateRules now gid type rest s1) (\<lambda>(n, s2).
             Inr (case res of Rule_created _ \<Rightarrow> Suc n | Rule_rejected _ \<Rightarrow> n, s2))))"

text \<open>\<open>copyRulesToGroup\<close> inserts batches of 500 rows; the identifiers are drawn in order.\<close>

definition copy_row :: "int \<Rightarrow> string \<Rightarrow> string \<times> rule_row \<Rightarrow> rule_row" where
  "copy_row now toGid p = (case p of (newId, r) \<Rightarrow>
     \<lparr>rul_id = newId, rul_groupId = toGid, rul_type = rul_type r, rul_value = rul_value r,
      rul_enabled = 1, rul_comment = rul_comment r, rul_createdAt = Some now\<rparr>)"

function copy_batches ::
  "nat \<Rightarrow> rule_row list \<Rightarrow> nat \<Rightarrow> group_store \<Rightarrow> db_error + nat \<times> group_store" where
  "copy_batches bsize rows inserted s =
     (if rows = [] \<or> bsize = 0 then Inr (inserted, s)
      else and_then (insert_rules (take bsize rows) s) (\<lambda>s1.
           copy_batches bsize (drop bsize rows) (inserted + length (take bsize rows)) s1))"
  by pat_completeness auto
termination
  by (relation "measure (\<lambda>(bsize, rows, inserted, s). length rows)") (auto simp: diff_less)

declare copy_batches.simps [simp del]

definition copyRulesToGroup ::
  "(nat \<Rightarrow> string) \<Rightarrow> int \<Rightarrow> string \<Rightarrow> string \<Rightarrow> group_store \<Rightarrow> db_error + nat \<times> group_store" where
  "copyRulesToGroup newIds now fromGid toGid s =
     (let source = sel_where (\<lambda>r. rul_groupId r = fromGid) (gs_rules s)
      in if source = [] then Inr (0, s)
         else copy_batches 500
                (map (copy_row now toGid) (zip (map newIds [0..<length source]) source)) 0 s)"

section \<open>Constraints hold in every reachable store\<close>

definition store_ok :: "group_store \<Rightarrow> bool" where
  "store_ok s \<longleftrightarrow>
     distinct_key grp_id (gs_groups s) \<and> distinct_key grp_name (gs_groups s) \<and>
     distinct_key rul_id (gs_rules s) \<and> distinct_key rule_key (gs_rules s) \<and>
     rul_groupId ` set (gs_rules s) \<subseteq> grp_id ` set (gs_groups s)"

interpretation groups_tab: record_store "distinct_key grp_id" grp_id "row_by grp_id" ins_row
  "upd_by grp_id" "del_by grp_id"
  by (rule record_store_table)

interpretation rules_tab: record_store "distinct_key rul_id" rul_id "row_by rul_id" ins_row
  "upd_by rul_id" "del_by rul_id"
  by (rule record_store_table)

lemma insert_rules_Inr:
  assumes "store_ok s" "insert_rules rows s = Inr s'"
  shows "store_ok s' \<and> s' = s\<lparr>gs_rules := gs_rules s @ rows\<rparr>"
  using assms
  by (auto simp: insert_rules_def store_ok_def Let_def distinct_key_def list_ex_iff row_by_None_iff image_subset_iff
      simp del: distinct_append map_append split: if_splits)

lemma key_image_upd: "(\<And>r. key (f r) = key r) \<Longrightarrow> key ` set (upd_where P f t) = key ` set t"
  by (induction t) (auto simp: upd_where_def)

lemma store_ok_groups_upd:
  assumes "store_ok s" "\<And>g. grp_id (f g) = grp_id g" "\<And>g. grp_name (f g) = grp_name g"
  shows "store_ok (s\<lparr>gs_groups := upd_by grp_id i f (gs_groups s)\<rparr>)"
  using assms by (simp add: store_ok_def distinct_key_upd_where upd_by_def key_image_upd)

lemma store_ok_touch: "store_ok s \<Longrightarrow> store_ok (touchGroupUpdatedAt now i s)"
  unfolding touchGroupUpdatedAt_def by (rule store_ok_groups_upd) simp_all

lemma store_ok_touch_all: "store_ok s \<Longrightarrow> store_ok (touch_all now gids s)"
  unfolding touch_all_def by (induction gids arbitrary: s) (simp_all add: store_ok_touch)

lemma touch_rules [simp]: "gs_rules (touchGroupUpdatedAt now i s) = gs_rules s"
  by (simp add: touchGroupUpdatedAt_def)

lemma touch_all_rules [simp]: "gs_rules (touch_all now gids s) = gs_rules s"
  unfolding touch_all_def by (induction gids arbitrary: s) simp_all

lemma store_ok_rules_del: "store_ok s \<Longrightarrow> store_ok (s\<lparr>gs_rules := del_where P (gs_rules s)\<rparr>)"
  by (simp add: store_ok_def distinct_key_del_where) (auto simp: del_where_def)

lemma store_ok_rules_upd:
  assumes "store_ok s" "\<And>r. rul_id (f r) = rul_id r" "\<And>r. rul_groupId (f r) = rul_groupId r"
    "distinct_key rule_key (upd_where P f (gs_rules s))"
  shows "store_ok (s\<lparr>gs_rules := upd_where P f (gs_rules s)\<rparr>)"
  using assms by (simp add: store_ok_def distinct_key_upd_where key_image_upd)

lemma store_ok_createGroup:
  "store_ok s \<Longrightarrow> createGroup newId now n d opts s = Inr (i, s') \<Longrightarrow> store_ok s'"
  by (auto simp: createGroup_def getGroupByName_def store_ok_def distinct_key_ins Let_def split: if_splits)
    (auto simp: ins_row_def)

lemma store_ok_deleteGroup: "store_ok s \<Longrightarrow> store_ok (snd (deleteGroup i s))"
  unfolding deleteGroup_def snd_conv store_ok_def del_by_def
  by (simp add: distinct_key_del_where) (auto simp: del_where_def)

lemma store_ok_toggle: "store_ok s \<Longrightarrow> store_ok (snd (toggleSystemStatus now b s))"
  by (simp add: toggleSystemStatus_def Let_def store_ok_def distinct_key_def comp_def image_image)

lemma update_rules_Inr:
  "store_ok s \<Longrightarrow> update_rules P (set_rule v c) s = Inr s' \<Longrightarrow> store_ok s'"
  by (auto simp: update_rules_def Let_def distinct_key_def intro!: store_ok_rules_upd split: if_splits)
    (simp_all add: set_rule_def)

lemma store_ok_updateRule:
  "store_ok s \<Longrightarrow> updateRule now input amb s = Inr (x, s') \<Longrightarrow> store_ok s'"
  by (auto simp: updateRule_def Let_def and_then_Inr_iff store_ok_touch update_rules_Inr
      split: option.splits if_splits)

lemma store_ok_createRule:
  "store_ok s \<Longrightarrow> createRule newId now gid ty v c s = Inr (x, s') \<Longrightarrow> store_ok s'"
  using insert_rules_Inr
  by (auto simp: createRule_def Let_def and_then_Inr_iff intro!: store_ok_touch split: if_splits)

lemma store_ok_deleteRule: "store_ok s \<Longrightarrow> store_ok (snd (deleteRule now i s))"
  by (auto simp: deleteRule_def Let_def del_by_def intro!: store_ok_touch store_ok_rules_del split: option.split)

lemma store_ok_bulkDelete: "store_ok s \<Longrightarrow> store_ok (snd (bulkDeleteRules now ids s))"
  by (auto simp: bulkDeleteRules_def Let_def intro!: store_ok_touch_all store_ok_rules_del)

lemma rule_key_enabled [simp]: "rule_key (r\<lparr>rul_enabled := e\<rparr>) = rule_key r"
  by (simp add: rule_key_def)

lemma store_ok_enabled:
  "store_ok s \<Longrightarrow> store_ok (s\<lparr>gs_rules := upd_where P (\<lambda>r. r\<lparr>rul_enabled := e\<rparr>) (gs_rules s)\<rparr>)"
  by (rule store_ok_rules_upd) (simp_all add: distinct_key_upd_where store_ok_def)

lemma store_ok_setRuleEnabled: "store_ok s \<Longrightarrow> store_ok (snd (setRuleEnabled now i b amb s))"
  by (auto simp: setRuleEnabled_def Let_def upd_by_def intro!: store_ok_touch store_ok_enabled split: option.split)

lemma store_ok_bulkSet: "store_ok s \<Longrightarrow> store_ok (snd (bulkSetRulesEnabled now ids b s))"
  by (auto simp: bulkSetRulesEnabled_def Let_def intro!: store_ok_touch_all store_ok_enabled)

lemma store_ok_bulkCreate:
  "store_ok s \<Longrightarrow> bulkCreateRules now gid ty vs s = Inr (n, s') \<Longrightarrow> store_ok s'"
proof (induction now gid ty vs s arbitrary: n s' rule: bulkCreateRules.induct)
  case (2 now gid ty newId val rest s)
  then show ?case
    by (cases "normalize_domain val = []") (auto simp: and_then_Inr_iff Let_def dest: store_ok_createRule)
qed simp

lemma copy_batches_spec:
  "store_ok s \<Longrightarrow> copy_batches k rows n s = Inr (m, s') \<Longrightarrow> 0 < k \<Longrightarrow>
   store_ok s' \<and> s' = s\<lparr>gs_rules := gs_rules s @ rows\<rparr> \<and> m = n + length rows"
proof (induction k rows n s arbitrary: m s' rule: copy_batches.induct)
  case (1 k rows n s)
  show ?case
  proof (cases "rows = []")
    case True
    then show ?thesis using 1 by (simp add: copy_batches.simps)
  next
    case False
    then obtain s1 where s1: "insert_rules (take k rows) s = Inr s1"
      "copy_batches k (drop k rows) (n + length (take k rows)) s1 = Inr (m, s')"
      using 1 by (subst (asm) copy_batches.simps) (auto simp: and_then_Inr_iff)
    then have "store_ok s1" "s1 = s\<lparr>gs_rules := gs_rules s @ take k rows\<rparr>"
      using insert_rules_Inr 1(2) by blast+
    then show ?thesis
      using 1(1) [OF _ _ s1(2)] False 1(4) by auto
  qed
qed

lemma copyRulesToGroup_Inr:
  assumes ok: "store_ok s" and c: "copyRulesToGroup f now g g' s = Inr (k, s')"
  defines "src \<equiv> sel_where (\<lambda>r. rul_groupId r = g) (gs_rules s)"
  shows "store_ok s' \<and> k = length src \<and>
    s' = s\<lparr>gs_rules := gs_rules s @ map (copy_row now g') (zip (map f [0..<length src]) src)\<rparr>"
proof (cases "src = []")
  case True
  then show ?thesis using c ok by (simp add: copyRulesToGroup_def Let_def flip: src_def)
next
  case False
  then have "copy_batches 500 (map (copy_row now g') (zip (map f [0..<length src]) src)) 0 s = Inr (k, s')"
    using c by (simp add: copyRulesToGroup_def Let_def flip: src_def)
  from copy_batches_spec [OF ok this] show ?thesis by auto
qed

lemma store_ok_copy: "store_ok s \<Longrightarrow> copyRulesToGroup f now g g' s = Inr (k, s') \<Longrightarrow> store_ok s'"
  using copyRulesToGroup_Inr by blast

inductive store_reach :: "group_store \<Rightarrow> bool" where
  init: "store_reach \<lparr>gs_groups = [], gs_rules = []\<rparr>"
| group: "store_reach s \<Longrightarrow> createGroup i now n d opts s = Inr (x, s') \<Longrightarrow> store_reach s'"
| group_upd: "store_reach s \<Longrightarrow> store_reach (updateGroup now i d e v s)"
| group_del: "store_reach s \<Longrightarrow> store_reach (snd (deleteGroup i s))"
| toggle: "store_reach s \<Longrightarrow> store_reach (snd (toggleSystemStatus now b s))"
| touch: "store_reach s \<Longrightarrow> store_reach (touchGroupUpdatedAt now i s)"
| rule: "store_reach s \<Longrightarrow> createRule i now g ty val c s = Inr (cr, s') \<Longrightarrow> store_reach s'"
| rule_upd: "store_reach s \<Longrightarrow> updateRule now input amb s = Inr (ur, s') \<Longrightarrow> store_reach s'"
| rule_del: "store_reach s \<Longrightarrow> store_reach (snd (deleteRule now i s))"
| rules_del: "store_reach s \<Longrightarrow> store_reach (snd (bulkDeleteRules now ids s))"
| rule_set: "store_reach s \<Longrightarrow> store_reach (snd (setRuleEnabled now i b amb s))"
| rules_set: "store_reach s \<Longrightarrow> store_reach (snd (bulkSetRulesEnabled now ids b s))"
| rules_create: "store_reach s \<Longrightarrow> bulkCreateRules now g ty vs s = Inr (k, s') \<Longrightarrow> store_reach s'"
| rules_copy: "store_reach s \<Longrightarrow> copyRulesToGroup f now g g' s = Inr (k, s') \<Longrightarrow> store_reach s'"

lemma store_reach_ok: "store_reach s \<Longrightarrow> store_ok s"
proof (induction rule: store_reach.induct)
  case init
  then show ?case by (simp add: store_ok_def distinct_key_def)
next
  case (group_upd s now i d e v)
  then show ?case unfolding updateGroup_def by (intro store_ok_groups_upd) simp_all
next
  case (rules_copy s f now g g' k s')
  from rules_copy.IH rules_copy.hyps(2) show ?case by (rule store_ok_copy)
qed (erule store_ok_deleteGroup store_ok_toggle store_ok_touch store_ok_deleteRule store_ok_bulkDelete
    store_ok_setRuleEnabled store_ok_bulkSet
  | erule (1) store_ok_createGroup | erule (1) store_ok_createRule | erule (1) store_ok_updateRule
  | erule (1) store_ok_bulkCreate)+

section \<open>Uniqueness is never violated by an update\<close>

interpretation rule_keys: timetable "\<lambda>a b. rule_key a = rule_key b" rul_id
  by unfold_locales simp

lemma apart_distinct_key: "pairwise_apart (\<lambda>a b. key a = key b) t \<longleftrightarrow> distinct_key key t"
  unfolding pairwise_apart_def distinct_key_def
  by (induction t) auto

lemma distinct_key_upd_rule:
  assumes "store_ok s" "row_by rul_id i (gs_rules s) = Some r"
    and "\<And>x. x \<in> set (gs_rules s) \<Longrightarrow> rul_id x \<noteq> i \<Longrightarrow> rule_key x \<noteq> rule_key (f r)" "\<And>r. rul_id (f r) = rul_id r"
  shows "distinct_key rule_key (upd_where (\<lambda>r. rul_id r = i) f (gs_rules s))"
proof -
  have d: "distinct_key rul_id (gs_rules s)" "pairwise_apart (\<lambda>a b. rule_key a = rule_key b) (gs_rules s)"
    using assms(1) by (simp_all add: store_ok_def apart_distinct_key)
  have "rul_id (f r) = i" using row_by_SomeD [OF assms(2)] assms(4) by simp
  then have "pairwise_apart (\<lambda>a b. rule_key a = rule_key b) (upd_by rul_id i (\<lambda>_. f r) (gs_rules s))"
    using assms(3) by (intro rule_keys.apart_upd d) (auto dest: sym)
  then show ?thesis
    using upd_by_const [OF d(1) assms(2), of f] by (simp add: apart_distinct_key upd_by_def)
qed

lemma no_duplicate:
  assumes "store_ok s" "row_by rul_id i (gs_rules s) = Some r"
    and nd: "\<not> (case sel_first (\<lambda>x. rul_groupId x = rul_groupId r \<and> rul_type x = rul_type r \<and> rul_value x = v) (gs_rules s) of
           Some d \<Rightarrow> rul_id d \<noteq> i | None \<Rightarrow> False)"
    and x: "x \<in> set (gs_rules s)" "rul_id x \<noteq> i"
  shows "rule_key x \<noteq> (rul_groupId r, rul_type r, v)"
proof
  assume "rule_key x = (rul_groupId r, rul_type r, v)"
  then have m: "rul_groupId x = rul_groupId r" "rul_type x = rul_type r" "rul_value x = v"
    by (simp_all add: rule_key_def)
  then obtain d where d: "sel_first (\<lambda>x. rul_groupId x = rul_groupId r \<and> rul_type x = rul_type r \<and> rul_value x = v) (gs_rules s) = Some d"
    using sel_first_ex [OF x(1), of "\<lambda>x. rul_groupId x = rul_groupId r \<and> rul_type x = rul_type r \<and> rul_value x = v"] by auto
  then have "d \<in> set (gs_rules s)" "rule_key d = rule_key x"
    using m by (auto dest!: sel_first_SomeD simp: rule_key_def)
  moreover have "rul_id d = i" using nd d by simp
  moreover have "pairwise_apart (\<lambda>a b. rule_key a = rule_key b) (gs_rules s)" "distinct_key rul_id (gs_rules s)"
    using assms(1) by (simp_all add: store_ok_def apart_distinct_key)
  ultimately show False
    using rule_keys.apart_mem [of "gs_rules s" d x] x by auto
qed

lemma updateRule_total:
  assumes ok: "store_ok s"
  shows "\<exists>x s'. updateRule now input amb s = Inr (x, s')"
proof (cases "row_by rul_id (uri_id input) (gs_rules s)")
  case None
  then show ?thesis by (simp add: updateRule_def Let_def)
next
  case (Some r)
  let ?v = "map_option (normalizeRuleValue (rul_type r)) (uri_value input)"
  have id: "\<And>q. rul_id (set_rule ?v (uri_comment input) q) = rul_id q" by (simp add: set_rule_def)
  have "\<exists>s1. update_rules (\<lambda>r. rul_id r = uri_id input) (set_rule ?v (uri_comment input)) s = Inr s1"
    if nd: "\<not> (case ?v of None \<Rightarrow> False
             | Some v \<Rightarrow> (case sel_first (\<lambda>x. rul_groupId x = rul_groupId r \<and> rul_type x = rul_type r \<and> rul_value x = v) (gs_rules s) of
                 Some d \<Rightarrow> rul_id d \<noteq> uri_id input | None \<Rightarrow> False))"
  proof -
    have "rule_key x \<noteq> rule_key (set_rule ?v (uri_comment input) r)"
      if x: "x \<in> set (gs_rules s)" "rul_id x \<noteq> uri_id input" for x
    proof (cases ?v)
      case None
      have "rule_key x \<noteq> rule_key r"
        using rule_keys.apart_mem [of "gs_rules s" x r] ok row_by_SomeD [OF Some] x
        by (auto simp: store_ok_def apart_distinct_key)
      then show ?thesis using None by (simp add: rule_key_def set_rule_def or_else_def)
    next
      case v: (Some v)
      show ?thesis
        using no_duplicate [OF ok Some _ x, of v] nd v by (auto simp: rule_key_def set_rule_def or_else_def)
    qed
    from distinct_key_upd_rule [OF ok Some this id] show ?thesis
      by (simp add: update_rules_def Let_def distinct_key_def)
  qed
  then show ?thesis
    by (auto simp: updateRule_def Let_def Some split: if_splits)
qed

section \<open>Properties\<close>

text \<open>C16: every store the operations can reach satisfies the schema's constraints (primary keys, unique
  names, unique group-type-value, rules only in existing groups), and updating a rule never fails
  on them: a value another rule of the group has is refused before the statement runs.\<close>
theorem group_store_constraints:
  assumes "store_reach s"
  shows "store_ok s \<and> (\<exists>x s'. updateRule now input amb s = Inr (x, s') \<and> store_ok s')"
proof -
  have ok: "store_ok s" using assms by (rule store_reach_ok)
  then obtain x s' where "updateRule now input amb s = Inr (x, s')" using updateRule_total by blast
  with ok show ?thesis using store_ok_updateRule by blast
qed

definition no_opts :: create_group_opts where
  "no_opts = \<lparr>cgo_enabled = None, cgo_visibility = None, cgo_ownerUserId = None\<rparr>"

definition demo_group :: group_row where
  "demo_group = \<lparr>grp_id = ''g1'', grp_name = ''lab'', grp_displayName = ''Lab'', grp_enabled = 1,
     grp_visibility = ''private'', grp_ownerUserId = None, grp_createdAt = Some 0, grp_updatedAt = Some 7\<rparr>"

definition demo_rule :: rule_row where
  "demo_rule = \<lparr>rul_id = ''r1'', rul_groupId = ''g1'', rul_type = Blocked_subdomain,
     rul_value = ''ads.example.com'', rul_enabled = 1, rul_comment = None, rul_createdAt = Some 7\<rparr>"

definition demo_store :: group_store where
  "demo_store = \<lparr>gs_groups = [demo_group], gs_rules = [demo_rule]\<rparr>"

lemma demo_store_reach: "store_reach demo_store"
proof -
  have 1: "createGroup ''g1'' 0 ''lab'' ''Lab'' no_opts \<lparr>gs_groups = [], gs_rules = []\<rparr> =
      Inr (''g1'', \<lparr>gs_groups = [demo_group\<lparr>grp_updatedAt := Some 0\<rparr>], gs_rules = []\<rparr>)"
    by code_simp
  have 2: "createRule ''r1'' 7 ''g1'' Blocked_subdomain '' Ads.Example.com'' None
      \<lparr>gs_groups = [demo_group\<lparr>grp_updatedAt := Some 0\<rparr>], gs_rules = []\<rparr> = Inr (Rule_created ''r1'', demo_store)"
    by code_simp
  show ?thesis
    using store_reach.rule [OF store_reach.group [OF store_reach.init 1] 2] .
qed

theorem group_store_constraints_witness:
  "\<exists>x s'. updateRule 9 \<lparr>uri_id = ''r1'', uri_value = Some ''B.example.com'', uri_comment = None\<rparr> None demo_store
            = Inr (x, s') \<and> store_ok s'"
  using group_store_constraints [OF demo_store_reach] by blast

text \<open>Creating a rule stores the normalised value, enabled, under the new identifier and changes no
  other rule; asking for the same rule again, in any spelling that normalises alike, is rejected
  and changes nothing.\<close>
theorem createRule_roundtrip:
  assumes "store_reach s" "createRule newId now gid ty v c s = Inr (Rule_created i, s')"
  shows "i = newId \<and>
    getRuleById now' i s' = Some \<lparr>ar_id = i, ar_groupId = gid, ar_type = ty, ar_value = normalizeRuleValue ty v,
      ar_enabled = True, ar_comment = c, ar_createdAt = now\<rparr> \<and>
    (\<forall>j. j \<noteq> i \<longrightarrow> getRuleById now' j s' = getRuleById now' j s) \<and>
    (\<forall>w. normalizeRuleValue ty w = normalizeRuleValue ty v \<longrightarrow>
       createRule j' now' gid ty w c' s' = Inr (Rule_rejected ''Rule already exists'', s'))"
proof -
  let ?r = "\<lparr>rul_id = newId, rul_groupId = gid, rul_type = ty, rul_value = normalizeRuleValue ty v,
    rul_enabled = 1, rul_comment = c, rul_createdAt = Some now\<rparr>"
  have ok: "store_ok s" using assms(1) by (rule store_reach_ok)
  from assms(2) obtain s1 where ins: "insert_rules [?r] s = Inr s1" and i: "i = newId"
    and s': "s' = touchGroupUpdatedAt now gid s1"
    by (auto simp: createRule_def Let_def and_then_Inr_iff split: if_splits)
  have s1: "s1 = s\<lparr>gs_rules := gs_rules s @ [?r]\<rparr>" "store_ok s1"
    using insert_rules_Inr [OF ok ins] by auto
  have rules: "gs_rules s' = ins_row ?r (gs_rules s)" by (simp add: s' s1 ins_row_def)
  have fresh: "row_by rul_id newId (gs_rules s) = None"
    using s1 by (auto simp: store_ok_def distinct_key_def row_by_None_iff)
  have lookup: "row_by rul_id j (gs_rules s') = (if j = newId then Some ?r else row_by rul_id j (gs_rules s))" for j
    using rules_tab.lookup_add [of ?r "gs_rules s" j] fresh by (simp add: rules)
  have "sel_first (\<lambda>r. rul_groupId r = gid \<and> rul_type r = ty \<and> rul_value r = normalizeRuleValue ty v) (gs_rules s') \<noteq> None"
    by (simp add: rules sel_first_None_iff ins_row_def)
  then show ?thesis
    using lookup i by (auto simp: getRuleById_def dbRuleToApi_def or_else_def createRule_def)
qed

theorem createRule_roundtrip_witness:
  "\<exists>s'. createRule ''r2'' 8 ''g1'' Whitelist ''Example.COM '' None demo_store = Inr (Rule_created ''r2'', s') \<and>
     createRule ''r3'' 9 ''g1'' Whitelist ''example.com'' None s' = Inr (Rule_rejected ''Rule already exists'', s')"
proof -
  define s' where "s' = (case createRule ''r2'' 8 ''g1'' Whitelist ''Example.COM '' None demo_store of
      Inr (_, s) \<Rightarrow> s | Inl _ \<Rightarrow> demo_store)"
  have "map_sum id fst (createRule ''r2'' 8 ''g1'' Whitelist ''Example.COM '' None demo_store) = Inr (Rule_created ''r2'')"
    by code_simp
  then have c: "createRule ''r2'' 8 ''g1'' Whitelist ''Example.COM '' None demo_store = Inr (Rule_created ''r2'', s')"
    by (auto simp: s'_def split: sum.splits)
  have "normalizeRuleValue Whitelist ''example.com'' = normalizeRuleValue Whitelist ''Example.COM ''" by code_simp
  then show ?thesis
    using c createRule_roundtrip [OF demo_store_reach c] by blast
qed

text \<open>Reading the rules of a group page by page, until a page says there is no more, gives every
  rule that matches the filters exactly once, in order.\<close>
theorem pagination_complete:
  assumes "0 < limit"
    "\<not> prr_hasMore (getRulesByGroupPaginated ck now (opts\<lparr>lro_limit := Some limit, lro_offset := Some (n * limit)\<rparr>) s)"
  shows "concat (map (\<lambda>k. prr_rules (getRulesByGroupPaginated ck now
           (opts\<lparr>lro_limit := Some limit, lro_offset := Some (k * limit)\<rparr>) s)) [0..<Suc n]) =
         map (dbRuleToApi now) (sort_key (\<lambda>r. ck (rul_value r)) (listed_rows opts s))"
proof -
  define all where "all = sort_key (\<lambda>r. ck (rul_value r)) (listed_rows opts s)"
  have rows: "listed_rows (opts\<lparr>lro_limit := l, lro_offset := o'\<rparr>) s = listed_rows opts s" for l o'
    by (simp add: listed_rows_def)
  have page: "prr_rules (getRulesByGroupPaginated ck now
      (opts\<lparr>lro_limit := Some limit, lro_offset := Some (k * limit)\<rparr>) s) =
      map (dbRuleToApi now) (take limit (drop (k * limit) all))" for k
    by (simp add: getRulesByGroupPaginated_def Let_def rows or_else_def js_slice_def flip: all_def)
  have "concat (map (\<lambda>k. map (dbRuleToApi now) (take limit (drop (k * limit) all))) [0..<m]) =
      map (dbRuleToApi now) (take (m * limit) all)" for m
  proof (induction m)
    case (Suc m)
    have "take (Suc m * limit) all = take (m * limit) all @ take limit (drop (m * limit) all)"
      using take_add [of "m * limit" limit all] by (simp add: add.commute)
    with Suc show ?case by simp
  qed simp
  moreover have "length all \<le> Suc n * limit"
    using assms(2) by (simp add: getRulesByGroupPaginated_def Let_def rows or_else_def flip: all_def)
  ultimately show ?thesis
    unfolding page all_def [symmetric] by (simp del: upt_Suc)
qed

text \<open>A collation by code units, for examples.\<close>

definition code_unit_key :: "string \<Rightarrow> nat list" where
  "code_unit_key s = map of_char s"

definition all_rules :: list_rules_options where
  "all_rules = \<lparr>lro_groupId = ''g1'', lro_type = None, lro_enabled = None, lro_limit = None,
     lro_offset = None, lro_search = None\<rparr>"

theorem pagination_complete_witness:
  "concat (map (\<lambda>k. prr_rules (getRulesByGroupPaginated code_unit_key 0
      (all_rules\<lparr>lro_limit := Some 1, lro_offset := Some (k * 1)\<rparr>) demo_store)) [0..<Suc 0]) =
   map (dbRuleToApi 0) (sort_key (\<lambda>r. code_unit_key (rul_value r)) (listed_rows all_rules demo_store))"
proof -
  have "\<not> prr_hasMore (getRulesByGroupPaginated code_unit_key 0
      (all_rules\<lparr>lro_limit := Some 1, lro_offset := Some (0 * 1)\<rparr>) demo_store)"
    by (simp add: getRulesByGroupPaginated_def all_rules_def demo_store_def demo_rule_def listed_rows_def
        filter_search_def filterRulesByEnabled_def listRuleRowsByGroup_def sel_where_def or_else_def Let_def)
  from pagination_complete [OF _ this] show ?thesis by simp
qed

text \<open>A domain is blocked exactly when some blocked-subdomain rule of the group names it, names a
  parent of it, or is a wildcard over it or over a parent; so every subdomain of a blocked domain
  is blocked.  The check does not look at whether the rule is enabled.\<close>
theorem isDomainBlocked_iff:
  "bcr_blocked (isDomainBlocked ck now gid domain s) \<longleftrightarrow>
     (\<exists>r \<in> set (gs_rules s). rul_groupId r = gid \<and> rul_type r = Blocked_subdomain \<and>
        (\<exists>base. (base = to_lower (rul_value r) \<or> to_lower (rul_value r) = ''*.'' @ base) \<and>
           same_family (normalize_domain domain) base))"
proof -
  have hit: "subdomain_pattern_hit d p \<longleftrightarrow> (\<exists>base. (base = p \<or> p = ''*.'' @ base) \<and> same_family d base)" for d p
    by (auto simp: subdomain_pattern_hit_def same_family_def starts_with_def prefix_def Let_def)
  have "set (getRulesByGroup ck now gid (Some Blocked_subdomain) None s) =
      dbRuleToApi now ` {r \<in> set (gs_rules s). rul_groupId r = gid \<and> rul_type r = Blocked_subdomain}"
    by (auto simp: getRulesByGroup_def filterRulesByEnabled_def listRuleRowsByGroup_def sel_where_def)
  moreover have "bcr_blocked (isDomainBlocked ck now gid domain s) \<longleftrightarrow>
      (\<exists>r \<in> set (getRulesByGroup ck now gid (Some Blocked_subdomain) None s).
         subdomain_pattern_hit (normalize_domain domain) (to_lower (ar_value r)))"
  proof (cases "List.find (\<lambda>r. subdomain_pattern_hit (normalize_domain domain) (to_lower (ar_value r)))
      (getRulesByGroup ck now gid (Some Blocked_subdomain) None s)")
    case None
    then have "bcr_blocked (isDomainBlocked ck now gid domain s) = False"
      by (simp add: isDomainBlocked_def)
    with None show ?thesis unfolding find_None_iff by simp
  next
    case (Some r)
    then have "bcr_blocked (isDomainBlocked ck now gid domain s)"
      by (simp add: isDomainBlocked_def)
    with find_SomeD [OF Some] show ?thesis by blast
  qed
  ultimately show ?thesis by (auto simp: hit dbRuleToApi_def)
qed

text \<open>Copying rules to another group inserts one new rule per source rule with the same type, value
  and comment, keeps all existing rules, and enables every copy, also that of a disabled rule.\<close>
theorem copyRulesToGroup_copies:
  assumes "store_reach s" "copyRulesToGroup newIds now g g' s = Inr (k, s')"
  shows "\<exists>copies. gs_rules s' = gs_rules s @ copies \<and> gs_groups s' = gs_groups s \<and> k = length copies \<and>
     map (\<lambda>r. (rul_type r, rul_value r, rul_comment r)) copies =
     map (\<lambda>r. (rul_type r, rul_value r, rul_comment r)) (filter (\<lambda>r. rul_groupId r = g) (gs_rules s)) \<and>
     list_all (\<lambda>r. rul_groupId r = g' \<and> rul_enabled r = 1) copies"
proof -
  let ?src = "sel_where (\<lambda>r. rul_groupId r = g) (gs_rules s)"
  let ?copies = "map (copy_row now g') (zip (map newIds [0..<length ?src]) ?src)"
  have "k = length ?src" "s' = s\<lparr>gs_rules := gs_rules s @ ?copies\<rparr>"
    using copyRulesToGroup_Inr [OF store_reach_ok [OF assms(1)] assms(2)] by auto
  moreover have "map (\<lambda>r. (rul_type r, rul_value r, rul_comment r)) ?copies =
      map ((\<lambda>r. (rul_type r, rul_value r, rul_comment r)) \<circ> snd) (zip (map newIds [0..<length ?src]) ?src)"
    by (simp add: copy_row_def split: prod.splits)
  then have "map (\<lambda>r. (rul_type r, rul_value r, rul_comment r)) ?copies =
      map (\<lambda>r. (rul_type r, rul_value r, rul_comment r)) ?src"
    by (simp flip: map_map)
  moreover have "list_all (\<lambda>r. rul_groupId r = g' \<and> rul_enabled r = 1) ?copies"
    by (auto simp: list_all_iff copy_row_def)
  ultimately show ?thesis by (intro exI [of _ ?copies]) (simp add: sel_where_def)
qed

definition demo_store2 :: group_store where
  "demo_store2 = \<lparr>gs_groups = [demo_group, demo_group\<lparr>grp_id := ''g2'', grp_name := ''copy''\<rparr>],
     gs_rules = [demo_rule\<lparr>rul_enabled := 0\<rparr>]\<rparr>"

lemma demo_store2_reach: "store_reach (touchGroupUpdatedAt 7 ''g2'' demo_store2)"
proof -
  have 1: "createGroup ''g2'' 0 ''copy'' ''Lab'' no_opts demo_store =
      Inr (''g2'', \<lparr>gs_groups = [demo_group, demo_group\<lparr>grp_id := ''g2'', grp_name := ''copy'', grp_updatedAt := Some 0\<rparr>],
                   gs_rules = [demo_rule]\<rparr>)"
    by code_simp
  have 2: "snd (setRuleEnabled 7 ''r1'' False None
      \<lparr>gs_groups = [demo_group, demo_group\<lparr>grp_id := ''g2'', grp_name := ''copy'', grp_updatedAt := Some 0\<rparr>],
       gs_rules = [demo_rule]\<rparr>) =
     \<lparr>gs_groups = [demo_group, demo_group\<lparr>grp_id := ''g2'', grp_name := ''copy'', grp_updatedAt := Some 0\<rparr>],
       gs_rules = [demo_rule\<lparr>rul_enabled := 0\<rparr>]\<rparr>"
    by code_simp
  have 3: "touchGroupUpdatedAt 7 ''g2'' demo_store2 = touchGroupUpdatedAt 7 ''g2''
     \<lparr>gs_groups = [demo_group, demo_group\<lparr>grp_id := ''g2'', grp_name := ''copy'', grp_updatedAt := Some 0\<rparr>],
       gs_rules = [demo_rule\<lparr>rul_enabled := 0\<rparr>]\<rparr>"
    by code_simp
  show ?thesis
    unfolding 3 2 [symmetric]
    by (intro store_reach.touch store_reach.rule_set store_reach.group [OF demo_store_reach 1])
qed

theorem copyRulesToGroup_copies_witness:
  "\<exists>k s'. copyRulesToGroup (\<lambda>n. ''n'') 9 ''g1'' ''g2'' (touchGroupUpdatedAt 7 ''g2'' demo_store2) = Inr (k, s') \<and>
     (\<exists>copies. gs_rules s' = [demo_rule\<lparr>rul_enabled := 0\<rparr>] @ copies \<and> k = length copies \<and>
        list_all (\<lambda>r. rul_groupId r = ''g2'' \<and> rul_enabled r = 1) copies)"
proof -
  have "isl (copyRulesToGroup (\<lambda>n. ''n'') 9 ''g1'' ''g2'' (touchGroupUpdatedAt 7 ''g2'' demo_store2)) = False"
    by code_simp
  then obtain k s' where c: "copyRulesToGroup (\<lambda>n. ''n'') 9 ''g1'' ''g2'' (touchGroupUpdatedAt 7 ''g2'' demo_store2) = Inr (k, s')"
    by (cases "copyRulesToGroup (\<lambda>n. ''n'') 9 ''g1'' ''g2'' (touchGroupUpdatedAt 7 ''g2'' demo_store2)") auto
  have "gs_rules (touchGroupUpdatedAt 7 ''g2'' demo_store2) = [demo_rule\<lparr>rul_enabled := 0\<rparr>]"
    by (simp add: demo_store2_def)
  then show ?thesis
    using c copyRulesToGroup_copies [OF demo_store2_reach c] by auto
qed

end
