(* ===== verification/Classrooms.thy ===== *)
theory Classrooms
  imports Classroom_Values Schedules Groups_Storage
begin

text \<open>
  Classrooms and machines: \<open>api/src/lib/classroom-storage-classrooms.ts\<close> and
  \<open>classroom-storage-machines.ts\<close> over the tables of \<open>api/src/db/schema.ts\<close>.

  \<open>school_db\<close> holds the tables a change can reach: a foreign key declared \<open>on delete cascade\<close>
  removes the rows that refer to a removed row, one declared \<open>on delete set null\<close> clears their
  reference, and a statement that would leave a dangling reference or a repeated unique value
  raises.  Of the users only the identifiers matter here.  The columns \<open>config_posture\<close> and
  \<open>firefox_registration\<close> of a machine, which only health reports write, are left out.
\<close>

section \<open>The tables\<close>

record classroom_row =
  cls_id :: string
  cls_name :: string
  cls_displayName :: string
  cls_defaultGroupId :: "string option"
  cls_activeGroupId :: "string option"
  cls_captivePortalDomains :: "string list"
  cls_createdAt :: "int option"
  cls_updatedAt :: "int option"

record machine_row =
  mac_id :: string
  mac_hostname :: string
  mac_reportedHostname :: "string option"
  mac_classroomId :: "string option"
  mac_version :: "string option"
  mac_lastSeen :: "int option"
  mac_downloadTokenHash :: "string option"
  mac_downloadTokenLastRotatedAt :: "int option"
  mac_createdAt :: "int option"
  mac_updatedAt :: "int option"

record exemption_row =
  ex_id :: string
  ex_machineId :: string
  ex_classroomId :: string
  ex_scheduleId :: "string option"
  ex_groupId :: "string option"
  ex_source :: string
  ex_reason :: "string option"
  ex_createdBy :: "string option"
  ex_createdAt :: "int option"
  ex_expiresAt :: int

record school_db =
  db_users :: "string list"
  db_groups :: group_store
  db_classrooms :: "classroom_row table"
  db_machines :: "machine_row table"
  db_schedules :: "schedule_row table"
  db_exemptions :: "exemption_row table"

definition group_ids :: "school_db \<Rightarrow> string list" where
  "group_ids db = map grp_id (gs_groups (db_groups db))"

text \<open>A nullable reference that points to an existing row.\<close>

definition fk :: "string option \<Rightarrow> string list \<Rightarrow> bool" where
  "fk r ids \<longleftrightarrow> (case r of None \<Rightarrow> True | Some i \<Rightarrow> i \<in> set ids)"

text \<open>\<open>ORDER BY c DESC\<close>: null first, then the latest.\<close>

definition desc_key :: "int option \<Rightarrow> bool \<times> int" where
  "desc_key x = (case x of None \<Rightarrow> (False, 0) | Some n \<Rightarrow> (True, - n))"

section \<open>Removing rows\<close>

definition drop_machines :: "(machine_row \<Rightarrow> bool) \<Rightarrow> school_db \<Rightarrow> school_db" where
  "drop_machines P db =
     (let gone = map mac_id (sel_where P (db_machines db))
      in db\<lparr>db_machines := del_where P (db_machines db),
            db_exemptions := del_where (\<lambda>e. ex_machineId e \<in> set gone) (db_exemptions db)\<rparr>)"

definition drop_schedules :: "(schedule_row \<Rightarrow> bool) \<Rightarrow> school_db \<Rightarrow> school_db" where
  "drop_schedules P db =
     (let gone = map sch_id (sel_where P (db_schedules db))
      in db\<lparr>db_schedules := del_where P (db_schedules db),
            db_exemptions := del_where (\<lambda>e. \<exists>i \<in> set gone. ex_scheduleId e = Some i) (db_exemptions db)\<rparr>)"

definition clear_ref :: "string \<Rightarrow> string option \<Rightarrow> string option" where
  "clear_ref i r = (if r = Some i then None else r)"

definition drop_group :: "string \<Rightarrow> school_db \<Rightarrow> school_db" where
  "drop_group i db =
     (let db1 = drop_schedules (\<lambda>r. sch_groupId r = i) db
      in db1\<lparr>db_groups := snd (deleteGroup i (db_groups db1)),
             db_classrooms := map (\<lambda>c. c\<lparr>cls_defaultGroupId := clear_ref i (cls_defaultGroupId c),
                                         cls_activeGroupId := clear_ref i (cls_activeGroupId c)\<rparr>) (db_classrooms db1),
             db_exemptions := map (\<lambda>e. e\<lparr>ex_groupId := clear_ref i (ex_groupId e)\<rparr>) (db_exemptions db1)\<rparr>)"

definition drop_classroom :: "string \<Rightarrow> school_db \<Rightarrow> school_db" where
  "drop_classroom i db =
     (let db1 = drop_schedules (\<lambda>r. sch_classroomId r = i) (drop_machines (\<lambda>m. mac_classroomId m = Some i) db)
      in db1\<lparr>db_classrooms := del_by cls_id i (db_classrooms db1),
             db_exemptions := del_where (\<lambda>e. ex_classroomId e = i) (db_exemptions db1)\<rparr>)"

section \<open>Classrooms\<close>

record classroom_with_count =
  cwc_row :: classroom_row
  cwc_machineCount :: nat

definition getAllClassrooms :: "int \<Rightarrow> school_db \<Rightarrow> classroom_with_count list" where
  "getAllClassrooms now db =
     map (\<lambda>c. \<lparr>cwc_row = c\<lparr>cls_createdAt := Some (or_else (cls_createdAt c) now),
                           cls_updatedAt := Some (or_else (cls_updatedAt c) now)\<rparr>,
               cwc_machineCount = count_where (\<lambda>m. mac_classroomId m = Some (cls_id c)) (db_machines db)\<rparr>)
       (sort_key (\<lambda>c. desc_key (cls_createdAt c)) (db_classrooms db))"

definition getClassroomById :: "string \<Rightarrow> school_db \<Rightarrow> classroom_row option" where
  "getClassroomById i db = row_by cls_id i (db_classrooms db)"

definition getClassroomByName :: "string \<Rightarrow> school_db \<Rightarrow> classroom_row option" where
  "getClassroomByName name db = row_by cls_name (sanitizeSlug name 100 True) (db_classrooms db)"

record create_classroom_data =
  ccd_name :: string
  ccd_displayName :: "string option"
  ccd_defaultGroupId :: "string option"
  ccd_captivePortalDomains :: "string list option"

definition app_err :: "string + 'a \<Rightarrow> db_error + 'a" where
  "app_err x = (case x of Inl e \<Rightarrow> Inl (App_error e) | Inr a \<Rightarrow> Inr a)"

definition insert_classroom :: "classroom_row \<Rightarrow> school_db \<Rightarrow> db_error + school_db" where
  "insert_classroom c db =
     (if row_by cls_id (cls_id c) (db_classrooms db) \<noteq> None \<or> row_by cls_name (cls_name c) (db_classrooms db) \<noteq> None
      then Inl Unique_violation
      else if \<not> fk (cls_defaultGroupId c) (group_ids db) \<or> \<not> fk (cls_activeGroupId c) (group_ids db)
      then Inl Foreign_key_violation
      else Inr (db\<lparr>db_classrooms := ins_row c (db_classrooms db)\<rparr>))"

definition createClassroom ::
  "string \<Rightarrow> int \<Rightarrow> create_classroom_data \<Rightarrow> school_db \<Rightarrow> db_error + classroom_row \<times> school_db" where
  "createClassroom newId now d db =
     (let slug = sanitizeSlug (ccd_name d) 100 True
      in if slug = [] then Inl (App_error ''Classroom name is invalid'')
         else if getClassroomByName slug db \<noteq> None
         then Inl (App_error (''Classroom with name \"'' @ slug @ ''\" already exists''))
         else and_then (app_err (normalizeCaptivePortalDomains (ccd_captivePortalDomains d))) (\<lambda>domains.
           let c = \<lparr>cls_id = newId, cls_name = slug, cls_displayName = or_else (ccd_displayName d) (ccd_name d),
                    cls_defaultGroupId = ccd_defaultGroupId d, cls_activeGroupId = None,
                    cls_captivePortalDomains = domains, cls_createdAt = Some now, cls_updatedAt = Some now\<rparr>
           in and_then (insert_classroom c db) (\<lambda>db'. Inr (c, db'))))"

record update_classroom_data =
  ucd_displayName :: "string option"
  ucd_defaultGroupId :: "string option"
  ucd_captivePortalDomains :: "string list option"

definition update_classroom_row ::
  "string \<Rightarrow> (classroom_row \<Rightarrow> classroom_row) \<Rightarrow> school_db \<Rightarrow> db_error + classroom_row option \<times> school_db" where
  "update_classroom_row i f db =
     (let t = upd_by cls_id i f (db_classrooms db)
      in if list_all (\<lambda>c. fk (cls_defaultGroupId c) (group_ids db) \<and> fk (cls_activeGroupId c) (group_ids db)) t
         then Inr (row_by cls_id i t, db\<lparr>db_classrooms := t\<rparr>)
         else Inl Foreign_key_violation)"

definition updateClassroom ::
  "string \<Rightarrow> update_classroom_data \<Rightarrow> school_db \<Rightarrow> db_error + classroom_row option \<times> school_db" where
  "updateClassroom i u db =
     and_then (case ucd_captivePortalDomains u of
                 None \<Rightarrow> Inr None
               | Some vs \<Rightarrow> and_then (app_err (normalizeCaptivePortalDomains (Some vs))) (\<lambda>ds. Inr (Some ds)))
       (\<lambda>domains.
         if ucd_displayName u = None \<and> ucd_defaultGroupId u = None \<and> domains = None
         then Inr (getClassroomById i db, db)
         else update_classroom_row i (\<lambda>c. c\<lparr>
                cls_displayName := or_else (ucd_displayName u) (cls_displayName c),
                cls_defaultGroupId := (case ucd_defaultGroupId u of Some g \<Rightarrow> Some g | None \<Rightarrow> cls_defaultGroupId c),
                cls_captivePortalDomains := or_else domains (cls_captivePortalDomains c)\<rparr>) db)"

definition setActiveGroup ::
  "string \<Rightarrow> string option \<Rightarrow> school_db \<Rightarrow> db_error + classroom_row option \<times> school_db" where
  "setActiveGroup i groupId db = update_classroom_row i (\<lambda>c. c\<lparr>cls_activeGroupId := groupId\<rparr>) db"

definition getCurrentGroupId :: "string \<Rightarrow> school_db \<Rightarrow> string option" where
  "getCurrentGroupId i db =
     (case getClassroomById i db of
        None \<Rightarrow> None
      | Some c \<Rightarrow> (case cls_activeGroupId c of Some g \<Rightarrow> Some g | None \<Rightarrow> cls_defaultGroupId c))"

definition deleteClassroom :: "string \<Rightarrow> school_db \<Rightarrow> bool \<times> school_db" where
  "deleteClassroom i db = (count_where (\<lambda>c. cls_id c = i) (db_classrooms db) > 0, drop_classroom i db)"

record classroom_stats =
  cst_classrooms :: nat
  cst_machines :: nat
  cst_classroomsWithActiveGroup :: nat

definition getClassroomStats :: "school_db \<Rightarrow> classroom_stats" where
  "getClassroomStats db = \<lparr>cst_classrooms = length (db_classrooms db), cst_machines = length (db_machines db),
     cst_classroomsWithActiveGroup = count_where (\<lambda>c. cls_activeGroupId c \<noteq> None) (db_classrooms db)\<rparr>"

section \<open>Machines\<close>

definition getAllMachines :: "string option \<Rightarrow> school_db \<Rightarrow> machine_row list" where
  "getAllMachines classroomId db =
     sort_key (\<lambda>m. desc_key (mac_createdAt m))
       (case classroomId of
          Some i \<Rightarrow> if i \<noteq> [] then sel_where (\<lambda>m. mac_classroomId m = Some i) (db_machines db) else db_machines db
        | None \<Rightarrow> db_machines db)"

definition getMachineById :: "string \<Rightarrow> school_db \<Rightarrow> machine_row option" where
  "getMachineById i db = row_by mac_id i (db_machines db)"

definition getMachinesByClassroom :: "string \<Rightarrow> school_db \<Rightarrow> machine_row list" where
  "getMachinesByClassroom classroomId db = sel_where (\<lambda>m. mac_classroomId m = Some classroomId) (db_machines db)"

text \<open>A JavaScript map as an association list; \<open>list.push\<close> on the entry of a key.\<close>

definition push_at :: "'k \<Rightarrow> 'v \<Rightarrow> ('k \<times> 'v list) list \<Rightarrow> ('k \<times> 'v list) list" where
  "push_at k v m =
     (if map_of m k = None then m @ [(k, [v])]
      else map (\<lambda>p. if fst p = k then (fst p, snd p @ [v]) else p) m)"

fun group_machines :: "machine_row list \<Rightarrow> (string \<times> machine_row list) list \<Rightarrow> (string \<times> machine_row list) list" where
  "group_machines [] m = m"
| "group_machines (r # rs) m =
     (case mac_classroomId r of
        None \<Rightarrow> group_machines rs m
      | Some c \<Rightarrow> if c = [] then group_machines rs m else group_machines rs (push_at c r m))"

definition getMachinesByClassroomIds :: "string list \<Rightarrow> school_db \<Rightarrow> (string \<times> machine_row list) list" where
  "getMachinesByClassroomIds classroomIds db =
     (let ids = js_unique (filter (\<lambda>i. length i > 0) classroomIds);
          start = map (\<lambda>i. (i, [])) ids
      in if ids = [] then start
         else group_machines (sort_key (\<lambda>m. desc_key (mac_createdAt m))
                (sel_where (\<lambda>m. \<exists>i \<in> set ids. mac_classroomId m = Some i) (db_machines db))) start)"

definition getMachineByHostname :: "string \<Rightarrow> school_db \<Rightarrow> machine_row option" where
  "getMachineByHostname hostname db = row_by mac_hostname (js_trim (to_lower hostname)) (db_machines db)"

definition getMachineOnlyByHostname :: "string \<Rightarrow> school_db \<Rightarrow> machine_row option" where
  "getMachineOnlyByHostname hostname db = row_by mac_hostname (js_trim (to_lower hostname)) (db_machines db)"

record register_machine_data =
  rmd_hostname :: string
  rmd_reportedHostname :: "string option"
  rmd_classroomId :: string
  rmd_version :: "string option"

definition classroom_ids :: "school_db \<Rightarrow> string list" where
  "classroom_ids db = map cls_id (db_classrooms db)"

definition registerMachine ::
  "string \<Rightarrow> int \<Rightarrow> register_machine_data \<Rightarrow> school_db \<Rightarrow> db_error + machine_row \<times> school_db" where
  "registerMachine newId now d db =
     (let host = to_lower (rmd_hostname d);
          reported = (case rmd_reportedHostname d of Some r \<Rightarrow> js_trim r | None \<Rightarrow> host)
      in case getMachineByHostname host db of
           Some existing \<Rightarrow>
             if \<not> fk (Some (rmd_classroomId d)) (classroom_ids db) then Inl Foreign_key_violation
             else
               let t = upd_by mac_id (mac_id existing) (\<lambda>m. m\<lparr>mac_classroomId := Some (rmd_classroomId d),
                         mac_reportedHostname := Some reported,
                         mac_version := (case rmd_version d of Some v \<Rightarrow> Some v | None \<Rightarrow> mac_version existing),
                         mac_lastSeen := Some now\<rparr>) (db_machines db)
               in (case row_by mac_id (mac_id existing) t of
                     None \<Rightarrow> Inl (App_error (''Failed to update machine \"'' @ rmd_hostname d @ ''\"''))
                   | Some m \<Rightarrow> Inr (m, db\<lparr>db_machines := t\<rparr>))
         | None \<Rightarrow>
             let m = \<lparr>mac_id = newId, mac_hostname = host, mac_reportedHostname = Some reported,
                      mac_classroomId = Some (rmd_classroomId d), mac_version = Some (or_else (rmd_version d) ''unknown''),
                      mac_lastSeen = Some now, mac_downloadTokenHash = None, mac_downloadTokenLastRotatedAt = None,
                      mac_createdAt = Some now, mac_updatedAt = Some now\<rparr>
             in if row_by mac_id newId (db_machines db) \<noteq> None \<or> row_by mac_hostname host (db_machines db) \<noteq> None
                then Inl Unique_violation
                else if \<not> fk (Some (rmd_classroomId d)) (classroom_ids db) then Inl Foreign_key_violation
                else Inr (m, db\<lparr>db_machines := ins_row m (db_machines db)\<rparr>))"

definition update_machine :: "string \<Rightarrow> (machine_row \<Rightarrow> machine_row) \<Rightarrow> school_db \<Rightarrow> machine_row option \<times> school_db" where
  "update_machine i f db =
     (let t = upd_by mac_id i f (db_machines db) in (row_by mac_id i t, db\<lparr>db_machines := t\<rparr>))"

definition updateMachineLastSeen :: "int \<Rightarrow> string \<Rightarrow> school_db \<Rightarrow> machine_row option \<times> school_db" where
  "updateMachineLastSeen now hostname db =
     (case getMachineByHostname hostname db of
        None \<Rightarrow> (None, db)
      | Some m \<Rightarrow> update_machine (mac_id m) (\<lambda>m. m\<lparr>mac_lastSeen := Some now\<rparr>) db)"

definition deleteMachine :: "string \<Rightarrow> school_db \<Rightarrow> bool \<times> school_db" where
  "deleteMachine hostname db =
     (case getMachineByHostname hostname db of
        None \<Rightarrow> (False, db)
      | Some m \<Rightarrow> (count_where (\<lambda>x. mac_id x = mac_id m) (db_machines db) > 0,
                    drop_machines (\<lambda>x. mac_id x = mac_id m) db))"

definition removeMachinesByClassroom :: "string \<Rightarrow> school_db \<Rightarrow> nat \<times> school_db" where
  "removeMachinesByClassroom classroomId db =
     (count_where (\<lambda>m. mac_classroomId m = Some classroomId) (db_machines db),
      drop_machines (\<lambda>m. mac_classroomId m = Some classroomId) db)"

definition getMachineByDownloadTokenHash :: "string \<Rightarrow> school_db \<Rightarrow> machine_row option" where
  "getMachineByDownloadTokenHash tokenHash db =
     sel_first (\<lambda>m. mac_downloadTokenHash m = Some tokenHash) (db_machines db)"

definition setMachineDownloadTokenHash ::
  "int \<Rightarrow> string \<Rightarrow> string \<Rightarrow> school_db \<Rightarrow> db_error + machine_row option \<times> school_db" where
  "setMachineDownloadTokenHash now machineId tokenHash db =
     (if getMachineById machineId db \<noteq> None \<and>
         list_ex (\<lambda>m. mac_id m \<noteq> machineId \<and> mac_downloadTokenHash m = Some tokenHash) (db_machines db)
      then Inl Unique_violation
      else Inr (update_machine machineId (\<lambda>m. m\<lparr>mac_downloadTokenHash := Some tokenHash,
             mac_downloadTokenLastRotatedAt := Some now, mac_updatedAt := Some now\<rparr>) db))"

definition getMachineTokenStatus :: "string \<Rightarrow> school_db \<Rightarrow> (bool \<times> int option) option" where
  "getMachineTokenStatus machineId db =
     map_option (\<lambda>m. (mac_downloadTokenHash m \<noteq> None, mac_downloadTokenLastRotatedAt m)) (getMachineById machineId db)"

end
