(* ===== verification/School_State.thy ===== *)
theory School_State
  imports Exemptions
begin

text \<open>
  The states the school's tables can be in.  \<open>school_ok\<close> collects the constraints the schema
  declares together with what the code adds to them (names that are slugs, normalised captive
  portal domains, timetables without double bookings); every operation of the group, classroom,
  machine, schedule and exemption stores keeps it, the cascades of a removal included, so it holds
  in every state of \<open>school_reach\<close>.
\<close>

section \<open>Constraints\<close>

definition token_clash :: "machine_row \<Rightarrow> machine_row \<Rightarrow> bool" where
  "token_clash a b \<longleftrightarrow> eq_null (mac_downloadTokenHash a) (mac_downloadTokenHash b)"

definition classroom_ok :: "school_db \<Rightarrow> classroom_row \<Rightarrow> bool" where
  "classroom_ok db c \<longleftrightarrow>
     slug_ok 100 True (cls_name c) \<and> cls_name c \<noteq> [] \<and>
     distinct (cls_captivePortalDomains c) \<and> list_all isExactHostname (cls_captivePortalDomains c) \<and>
     length (cls_captivePortalDomains c) \<le> MAX_CAPTIVE_PORTAL_DOMAINS \<and>
     fk (cls_defaultGroupId c) (group_ids db) \<and> fk (cls_activeGroupId c) (group_ids db)"

definition machine_ok :: "school_db \<Rightarrow> machine_row \<Rightarrow> bool" where
  "machine_ok db m \<longleftrightarrow> fk (mac_classroomId m) (classroom_ids db)"

definition schedule_refs :: "school_db \<Rightarrow> schedule_row \<Rightarrow> bool" where
  "schedule_refs db r \<longleftrightarrow>
     sch_classroomId r \<in> set (classroom_ids db) \<and> sch_groupId r \<in> set (group_ids db) \<and> sch_teacherId r \<in> set (db_users db)"

definition classrooms_ok :: "school_db \<Rightarrow> bool" where
  "classrooms_ok db \<longleftrightarrow> distinct_key cls_id (db_classrooms db) \<and> distinct_key cls_name (db_classrooms db) \<and>
     list_all (classroom_ok db) (db_classrooms db)"

definition machines_ok :: "school_db \<Rightarrow> bool" where
  "machines_ok db \<longleftrightarrow> distinct_key mac_id (db_machines db) \<and> distinct_key mac_hostname (db_machines db) \<and>
     pairwise_apart token_clash (db_machines db) \<and> list_all (machine_ok db) (db_machines db)"

definition schedules_ok :: "school_db \<Rightarrow> bool" where
  "schedules_ok db \<longleftrightarrow> timetable_ok (db_schedules db) \<and> list_all (schedule_refs db) (db_schedules db)"

text \<open>An exemption for a schedule is in the classroom of the schedule.\<close>

definition exemption_room :: "schedule_row table \<Rightarrow> exemption_row \<Rightarrow> bool" where
  "exemption_room t e \<longleftrightarrow> list_all (\<lambda>r. ex_scheduleId e = Some (sch_id r) \<longrightarrow> sch_classroomId r = ex_classroomId e) t"

definition exemptions_ok :: "school_db \<Rightarrow> bool" where
  "exemptions_ok db \<longleftrightarrow> pairwise_apart exemption_clash (db_exemptions db) \<and>
     list_all (\<lambda>e. exemption_check e \<and> exemption_refs db e \<and> exemption_room (db_schedules db) e) (db_exemptions db)"

definition school_ok :: "school_db \<Rightarrow> bool" where
  "school_ok db \<longleftrightarrow>
     store_ok (db_groups db) \<and> classrooms_ok db \<and> machines_ok db \<and> schedules_ok db \<and> exemptions_ok db"

lemmas school_tables = classrooms_ok_def machines_ok_def schedules_ok_def exemptions_ok_def
lemmas school_rows = classroom_ok_def machine_ok_def schedule_refs_def exemption_refs_def
lemmas school_ids = group_ids_def classroom_ids_def machine_ids_def schedule_ids_def

interpretation tokens: timetable token_clash mac_id
  by unfold_locales (auto simp: token_clash_def intro: eq_null_sym)

interpretation exempt: timetable exemption_clash ex_id
  by unfold_locales (auto simp: exemption_clash_def intro: eq_null_sym)

interpretation classrooms_tab: record_store "distinct_key cls_id" cls_id "row_by cls_id" ins_row "upd_by cls_id" "del_by cls_id"
  by (rule record_store_table)

interpretation machines_tab: record_store "distinct_key mac_id" mac_id "row_by mac_id" ins_row "upd_by mac_id" "del_by mac_id"
  by (rule record_store_table)

lemma pairwise_apart_map: "(\<And>a b. clash (g a) (g b) \<longleftrightarrow> clash a b) \<Longrightarrow> pairwise_apart clash (map g t) \<longleftrightarrow> pairwise_apart clash t"
  by (simp add: pairwise_apart_def sorted_wrt_map)

lemma fk_mono: "fk r ids \<Longrightarrow> set ids \<subseteq> set ids' \<Longrightarrow> fk r ids'"
  by (auto simp: fk_def split: option.splits)

lemma fk_None [simp]: "fk None ids"
  by (simp add: fk_def)

lemma fk_Some [simp]: "fk (Some i) ids \<longleftrightarrow> i \<in> set ids"
  by (simp add: fk_def)

lemma apart_ids: "pairwise_apart exemption_clash t \<Longrightarrow> distinct_key ex_id t"
  by (induction t) (auto simp: pairwise_apart_def distinct_key_def exemption_clash_def)

lemma set_del_where: "set (del_where P t) = {r \<in> set t. \<not> P r}"
  by (auto simp: del_where_def)

lemma set_sel_where: "set (sel_where P t) = {r \<in> set t. P r}"
  by (auto simp: sel_where_def)

lemma set_ins_row: "set (ins_row r t) = insert r (set t)"
  by (simp add: ins_row_def)

lemma list_all_ins: "list_all P (ins_row r t) \<longleftrightarrow> P r \<and> list_all P t"
  by (auto simp: ins_row_def)

section \<open>Removing rows\<close>

lemma drop_machines_left:
  "db_classrooms (drop_machines P db) = db_classrooms db" "db_groups (drop_machines P db) = db_groups db"
  "db_schedules (drop_machines P db) = db_schedules db" "db_users (drop_machines P db) = db_users db"
  "db_machines (drop_machines P db) = del_where P (db_machines db)"
  by (simp_all add: drop_machines_def Let_def)

lemma drop_schedules_left:
  "db_classrooms (drop_schedules P db) = db_classrooms db" "db_groups (drop_schedules P db) = db_groups db"
  "db_machines (drop_schedules P db) = db_machines db" "db_users (drop_schedules P db) = db_users db"
  "db_schedules (drop_schedules P db) = del_where P (db_schedules db)"
  by (simp_all add: drop_schedules_def Let_def)

lemma drop_machines_exemptions:
  "db_exemptions (drop_machines P db) =
     del_where (\<lambda>e. ex_machineId e \<in> mac_id ` set (sel_where P (db_machines db))) (db_exemptions db)"
  by (simp add: drop_machines_def Let_def)

lemma drop_schedules_exemptions:
  "db_exemptions (drop_schedules P db) =
     del_where (\<lambda>e. \<exists>i \<in> sch_id ` set (sel_where P (db_schedules db)). ex_scheduleId e = Some i) (db_exemptions db)"
  by (simp add: drop_schedules_def Let_def)

lemma kept_key: "i \<in> key ` set t \<Longrightarrow> i \<notin> key ` set (sel_where P t) \<Longrightarrow> i \<in> key ` set (del_where P t)"
  by (auto simp: set_del_where set_sel_where)

lemma school_ok_drop_machines: "school_ok db \<Longrightarrow> school_ok (drop_machines P db)"
proof -
  assume ok: "school_ok db"
  have m: "machines_ok (drop_machines P db)"
    using ok tokens.apart_del [of "db_machines db" P]
    by (auto simp: school_ok_def machines_ok_def machine_ok_def school_ids drop_machines_left
          distinct_key_del_where list_all_iff set_del_where)
  have "exemption_refs (drop_machines P db) e"
    if "exemption_refs db e" "ex_machineId e \<notin> mac_id ` set (sel_where P (db_machines db))" for e
    using that kept_key [of "ex_machineId e" mac_id "db_machines db" P]
    by (simp add: exemption_refs_def school_ids drop_machines_left)
  then have "exemptions_ok (drop_machines P db)"
    using ok exempt.apart_del by (auto simp: school_ok_def exemptions_ok_def drop_machines_exemptions drop_machines_left list_all_iff set_del_where)
  with m ok show ?thesis
    by (simp add: school_ok_def classrooms_ok_def schedules_ok_def classroom_ok_def schedule_refs_def
          school_ids drop_machines_left list_all_iff)
qed

lemma school_ok_drop_schedules: "school_ok db \<Longrightarrow> school_ok (drop_schedules P db)"
proof -
  assume ok: "school_ok db"
  have s: "schedules_ok (drop_schedules P db)"
    using ok by (auto simp: school_ok_def schedules_ok_def schedule_refs_def school_ids drop_schedules_left
          timetable_ok_del list_all_iff set_del_where)
  have "exemption_refs (drop_schedules P db) e"
    if "exemption_refs db e" "\<forall>i \<in> sch_id ` set (sel_where P (db_schedules db)). ex_scheduleId e \<noteq> Some i" for e
    using that kept_key [of "the (ex_scheduleId e)" sch_id "db_schedules db" P]
    by (cases "ex_scheduleId e") (auto simp: exemption_refs_def school_ids drop_schedules_left)
  then have "exemptions_ok (drop_schedules P db)"
    using ok exempt.apart_del 
    by (auto simp: school_ok_def exemptions_ok_def drop_schedules_exemptions drop_schedules_left exemption_room_def list_all_iff set_del_where)
  with s ok show ?thesis
    by (simp add: school_ok_def classrooms_ok_def machines_ok_def classroom_ok_def machine_ok_def
          school_ids drop_schedules_left list_all_iff)
qed

lemma school_ok_drop_classroom: "school_ok db \<Longrightarrow> school_ok (drop_classroom i db)"
proof -
  assume "school_ok db"
  define db1 where "db1 = drop_schedules (\<lambda>r. sch_classroomId r = i) (drop_machines (\<lambda>m. mac_classroomId m = Some i) db)"
  have ok: "school_ok db1"
    unfolding db1_def using \<open>school_ok db\<close> by (intro school_ok_drop_schedules school_ok_drop_machines)
  have none: "\<forall>m \<in> set (db_machines db1). mac_classroomId m \<noteq> Some i" "\<forall>r \<in> set (db_schedules db1). sch_classroomId r \<noteq> i"
    by (auto simp: db1_def drop_schedules_left drop_machines_left del_where_def)
  define db2 where "db2 = drop_classroom i db"
  have f: "db_classrooms db2 = del_by cls_id i (db_classrooms db1)"
    "db_exemptions db2 = del_where (\<lambda>e. ex_classroomId e = i) (db_exemptions db1)"
    "db_machines db2 = db_machines db1" "db_schedules db2 = db_schedules db1"
    "db_groups db2 = db_groups db1" "db_users db2 = db_users db1"
    by (simp_all add: db2_def drop_classroom_def Let_def flip: db1_def)
  have ids: "set (classroom_ids db2) = set (classroom_ids db1) - {i}" "group_ids db2 = group_ids db1"
    "machine_ids db2 = machine_ids db1" "schedule_ids db2 = schedule_ids db1"
    by (auto simp: f school_ids del_by_def set_del_where)
  have rooms: "fk r (classroom_ids db1) \<Longrightarrow> r \<noteq> Some i \<Longrightarrow> fk r (classroom_ids db2)" for r
    by (auto simp: fk_def ids split: option.splits)
  have "classrooms_ok db2"
    using ok by (auto simp: school_ok_def classrooms_ok_def classroom_ok_def f ids del_by_def distinct_key_del_where
        list_all_iff set_del_where)
  moreover have "machines_ok db2"
    using ok none(1) rooms by (auto simp: school_ok_def machines_ok_def machine_ok_def f list_all_iff)
  moreover have "schedules_ok db2"
    using ok none(2) by (auto simp: school_ok_def schedules_ok_def schedule_refs_def f ids list_all_iff)
  moreover have "exemptions_ok db2"
    using ok exempt.apart_del
    by (auto simp: school_ok_def exemptions_ok_def exemption_refs_def f ids list_all_iff set_del_where)
  ultimately show ?thesis using ok by (simp add: school_ok_def f flip: db2_def)
qed

lemma fk_clear: "fk r ids \<Longrightarrow> set ids - {i} \<subseteq> set ids' \<Longrightarrow> fk (clear_ref i r) ids'"
  by (auto simp: fk_def clear_ref_def split: option.splits)

lemma school_ok_drop_group: "school_ok db \<Longrightarrow> school_ok (drop_group i db)"
proof -
  assume "school_ok db"
  define db1 where "db1 = drop_schedules (\<lambda>r. sch_groupId r = i) db"
  have ok: "school_ok db1" unfolding db1_def using \<open>school_ok db\<close> by (rule school_ok_drop_schedules)
  have none: "\<forall>r \<in> set (db_schedules db1). sch_groupId r \<noteq> i"
    by (auto simp: db1_def drop_schedules_left del_where_def)
  define db2 where "db2 = drop_group i db"
  have f: "db_classrooms db2 = map (\<lambda>c. c\<lparr>cls_defaultGroupId := clear_ref i (cls_defaultGroupId c),
              cls_activeGroupId := clear_ref i (cls_activeGroupId c)\<rparr>) (db_classrooms db1)"
    "db_exemptions db2 = map (\<lambda>e. e\<lparr>ex_groupId := clear_ref i (ex_groupId e)\<rparr>) (db_exemptions db1)"
    "db_machines db2 = db_machines db1" "db_schedules db2 = db_schedules db1"
    "db_groups db2 = snd (deleteGroup i (db_groups db1))" "db_users db2 = db_users db1"
    by (simp_all add: db2_def drop_group_def Let_def flip: db1_def)
  have ids: "set (group_ids db2) = set (group_ids db1) - {i}" "set (classroom_ids db2) = set (classroom_ids db1)"
    "machine_ids db2 = machine_ids db1" "schedule_ids db2 = schedule_ids db1"
    by (auto simp: f school_ids deleteGroup_def del_by_def del_where_def)
  have clear: "fk r (group_ids db1) \<Longrightarrow> fk (clear_ref i r) (group_ids db2)" for r
    by (erule fk_clear) (simp add: ids)
  have rooms: "fk r (classroom_ids db2) = fk r (classroom_ids db1)" for r
    by (simp add: fk_def ids split: option.splits)
  have c: "classrooms_ok db2"
    using ok clear by (auto simp: school_ok_def classrooms_ok_def classroom_ok_def list_all_iff distinct_key_def f comp_def)
  have e: "exemptions_ok db2"
    using ok clear unfolding school_ok_def exemptions_ok_def
    by (auto simp: f ids exemption_refs_def list_all_iff pairwise_apart_map exemption_clash_def exemption_check_def exemption_room_def)
  have "school_ok db2"
    using ok none c e store_ok_deleteGroup [of "db_groups db1" i]
    by (auto simp: school_ok_def machines_ok_def schedules_ok_def machine_ok_def schedule_refs_def f ids rooms list_all_iff)
  then show ?thesis by (simp add: db2_def)
qed

section \<open>Changing one table\<close>

lemma school_ok_classrooms:
  assumes "school_ok db" "distinct_key cls_id t" "distinct_key cls_name t" "list_all (classroom_ok db) t"
    and "set (classroom_ids db) \<subseteq> cls_id ` set t"
  shows "school_ok (db\<lparr>db_classrooms := t\<rparr>)"
proof -
  have rooms: "fk r (map cls_id t)" if "fk r (classroom_ids db)" for r
    using assms by (intro fk_mono [OF that]) simp
  show ?thesis
    using assms rooms unfolding school_ok_def school_tables
    by (auto simp: school_rows school_ids list_all_iff)
qed

lemma school_ok_machines:
  assumes "school_ok db" "distinct_key mac_id t" "distinct_key mac_hostname t" "pairwise_apart token_clash t"
    and "list_all (machine_ok db) t" "set (machine_ids db) \<subseteq> mac_id ` set t"
  shows "school_ok (db\<lparr>db_machines := t\<rparr>)"
  using assms unfolding school_ok_def school_tables
  by (auto simp: school_rows school_ids list_all_iff)

lemma school_ok_schedules:
  assumes ok: "school_ok db" "timetable_ok t" "list_all (schedule_refs db) t" "set (schedule_ids db) \<subseteq> sch_id ` set t"
    and room: "\<And>r. r \<in> set t \<Longrightarrow> sch_id r \<in> set (schedule_ids db) \<Longrightarrow>
      \<exists>r0 \<in> set (db_schedules db). sch_id r0 = sch_id r \<and> sch_classroomId r0 = sch_classroomId r"
  shows "school_ok (db\<lparr>db_schedules := t\<rparr>)"
proof -
  have "fk r (map sch_id t)" if "fk r (schedule_ids db)" for r
    using assms by (intro fk_mono [OF that]) simp
  moreover have "exemption_room t e" if "e \<in> set (db_exemptions db)" for e
    unfolding exemption_room_def list_all_iff
  proof (intro ballI impI)
    fix r assume r: "r \<in> set t" "ex_scheduleId e = Some (sch_id r)"
    have e: "fk (ex_scheduleId e) (schedule_ids db)" "exemption_room (db_schedules db) e"
      using ok(1) that by (auto simp: school_ok_def exemptions_ok_def exemption_refs_def list_all_iff)
    then obtain r0 where "r0 \<in> set (db_schedules db)" "sch_id r0 = sch_id r" "sch_classroomId r0 = sch_classroomId r"
      using room [OF r(1)] r(2) by auto
    then show "sch_classroomId r = ex_classroomId e" using e(2) r(2) by (auto simp: exemption_room_def list_all_iff)
  qed
  ultimately show ?thesis
    using ok unfolding school_ok_def school_tables
    by (auto simp: school_rows school_ids list_all_iff)
qed

lemma school_ok_exemptions:
  assumes "school_ok db" "pairwise_apart exemption_clash t" "list_all (\<lambda>e. exemption_check e \<and> exemption_refs db e \<and> exemption_room (db_schedules db) e) t"
  shows "school_ok (db\<lparr>db_exemptions := t\<rparr>)"
  using assms unfolding school_ok_def school_tables
  by (auto simp: school_rows school_ids list_all_iff)

lemma school_ok_groups:
  assumes "school_ok db" "store_ok s" "set (group_ids db) \<subseteq> grp_id ` set (gs_groups s)"
  shows "school_ok (db\<lparr>db_groups := s\<rparr>)"
proof -
  have "fk r (map grp_id (gs_groups s))" if "fk r (group_ids db)" for r
    using assms by (intro fk_mono [OF that]) simp
  then show ?thesis
    using assms unfolding school_ok_def school_tables
    by (auto simp: school_rows school_ids list_all_iff)
qed

lemma upd_ids: "(\<And>r. key (f r) = key r) \<Longrightarrow> key ` set (upd_by k i f t) = key ` set t"
  by (auto simp: upd_by_def key_image_upd)

lemma set_upd_byD: "r \<in> set (upd_by key i f t) \<Longrightarrow> r \<in> set t \<or> (\<exists>r0 \<in> set t. key r0 = i \<and> r = f r0)"
  by (auto simp: upd_by_def upd_where_def split: if_splits)

lemma school_ok_machines_upd:
  assumes ok: "school_ok db"
    and f: "\<And>m. mac_id (f m) = mac_id m" "\<And>m. mac_hostname (f m) = mac_hostname m"
    and room: "\<And>m. m \<in> set (db_machines db) \<Longrightarrow> machine_ok db (f m)"
    and tok: "pairwise_apart token_clash (upd_by mac_id i f (db_machines db))"
  shows "school_ok (db\<lparr>db_machines := upd_by mac_id i f (db_machines db)\<rparr>)"
proof (rule school_ok_machines [OF ok _ _ tok])
  show "distinct_key mac_id (upd_by mac_id i f (db_machines db))" "distinct_key mac_hostname (upd_by mac_id i f (db_machines db))"
    using ok f by (simp_all add: school_ok_def machines_ok_def upd_by_def distinct_key_upd_where)
  show "list_all (machine_ok db) (upd_by mac_id i f (db_machines db))"
    using ok room by (auto simp: list_all_iff school_ok_def machines_ok_def dest!: set_upd_byD)
  show "set (machine_ids db) \<subseteq> mac_id ` set (upd_by mac_id i f (db_machines db))"
    using f(1) by (simp add: upd_ids machine_ids_def)
qed

lemma token_upd_same:
  "(\<And>m. mac_downloadTokenHash (f m) = mac_downloadTokenHash m) \<Longrightarrow> pairwise_apart token_clash t \<Longrightarrow>
   pairwise_apart token_clash (upd_by mac_id i f t)"
  by (auto simp: upd_by_def upd_where_def pairwise_apart_map token_clash_def)

section \<open>The operations\<close>

lemma app_err_Inr [simp]: "app_err x = Inr a \<longleftrightarrow> x = Inr a"
  by (cases x) (auto simp: app_err_def)

lemma insert_classroom_Inr:
  "insert_classroom c db = Inr db' \<longleftrightarrow>
     row_by cls_id (cls_id c) (db_classrooms db) = None \<and> row_by cls_name (cls_name c) (db_classrooms db) = None \<and>
     fk (cls_defaultGroupId c) (group_ids db) \<and> fk (cls_activeGroupId c) (group_ids db) \<and>
     db' = db\<lparr>db_classrooms := ins_row c (db_classrooms db)\<rparr>"
  by (auto simp: insert_classroom_def)

lemma school_ok_createClassroom:
  assumes ok: "school_ok db" and c: "createClassroom i now d db = Inr (c, db')"
  shows "school_ok db'"
proof -
  from c obtain ds where ds: "normalizeCaptivePortalDomains (ccd_captivePortalDomains d) = Inr ds"
    "cls_captivePortalDomains c = ds" "cls_name c = sanitizeSlug (ccd_name d) 100 True" "cls_name c \<noteq> []"
    and ins: "insert_classroom c db = Inr db'"
    by (auto simp: createClassroom_def Let_def and_then_Inr_iff split: if_splits)
  from ins have db': "db' = db\<lparr>db_classrooms := ins_row c (db_classrooms db)\<rparr>"
    and new: "row_by cls_id (cls_id c) (db_classrooms db) = None" "row_by cls_name (cls_name c) (db_classrooms db) = None"
    "fk (cls_defaultGroupId c) (group_ids db)" "fk (cls_activeGroupId c) (group_ids db)"
    by (auto simp: insert_classroom_Inr)
  have "classroom_ok db c"
    using normalizeCaptive_spec [OF ds(1)] new(3,4) ds(2,3,4) sanitizeSlug_ok [of 100 True "ccd_name d"]
    by (simp add: classroom_ok_def)
  then show ?thesis
    unfolding db' using ok new
    by (intro school_ok_classrooms)
      (auto simp: school_ok_def classrooms_ok_def distinct_key_ins set_ins_row list_all_ins classroom_ids_def)
qed

lemma school_ok_update_classroom_row:
  assumes ok: "school_ok db" and u: "update_classroom_row i f db = Inr (x, db')"
    and f: "\<And>c. cls_id (f c) = cls_id c" "\<And>c. cls_name (f c) = cls_name c"
    and portal: "\<And>c. classroom_ok db c \<Longrightarrow> distinct (cls_captivePortalDomains (f c)) \<and>
      list_all isExactHostname (cls_captivePortalDomains (f c)) \<and>
      length (cls_captivePortalDomains (f c)) \<le> MAX_CAPTIVE_PORTAL_DOMAINS"
  shows "school_ok db'"
proof -
  let ?t = "upd_by cls_id i f (db_classrooms db)"
  from u have db': "db' = db\<lparr>db_classrooms := ?t\<rparr>"
    and refs: "list_all (\<lambda>c. fk (cls_defaultGroupId c) (group_ids db) \<and> fk (cls_activeGroupId c) (group_ids db)) ?t"
    by (auto simp: update_classroom_row_def Let_def split: if_splits)
  have "classroom_ok db c" if "c \<in> set ?t" for c
  proof -
    have r: "fk (cls_defaultGroupId c) (group_ids db)" "fk (cls_activeGroupId c) (group_ids db)"
      using refs that by (auto simp: list_all_iff)
    have "c \<in> set (db_classrooms db) \<or> (\<exists>c0 \<in> set (db_classrooms db). c = f c0)"
      using set_upd_byD [OF that] by auto
    then show ?thesis
    proof
      assume "c \<in> set (db_classrooms db)"
      then show ?thesis using ok by (auto simp: school_ok_def classrooms_ok_def list_all_iff)
    next
      assume "\<exists>c0 \<in> set (db_classrooms db). c = f c0"
      then obtain c0 where c0: "classroom_ok db c0" "c = f c0"
        using ok by (auto simp: school_ok_def classrooms_ok_def list_all_iff)
      then show ?thesis using portal [of c0] r f by (simp add: classroom_ok_def)
    qed
  qed
  moreover have "distinct_key cls_id ?t" "distinct_key cls_name ?t"
    using ok f by (simp_all add: school_ok_def classrooms_ok_def upd_by_def distinct_key_upd_where)
  moreover have "set (classroom_ids db) \<subseteq> cls_id ` set ?t"
    using f(1) by (simp add: upd_ids classroom_ids_def)
  ultimately show ?thesis
    unfolding db' using ok by (intro school_ok_classrooms) (auto simp: list_all_iff)
qed

lemma school_ok_updateClassroom:
  assumes ok: "school_ok db" and u: "updateClassroom i u db = Inr (x, db')"
  shows "school_ok db'"
proof -
  from u obtain ds where ds: "ds = None \<or> (\<exists>vs l. ds = Some l \<and> normalizeCaptivePortalDomains (Some vs) = Inr l)"
    and cases: "db' = db \<or> update_classroom_row i (\<lambda>c. c\<lparr>
                cls_displayName := or_else (ucd_displayName u) (cls_displayName c),
                cls_defaultGroupId := (case ucd_defaultGroupId u of Some g \<Rightarrow> Some g | None \<Rightarrow> cls_defaultGroupId c),
                cls_captivePortalDomains := or_else ds (cls_captivePortalDomains c)\<rparr>) db = Inr (x, db')"
    by (auto simp: updateClassroom_def and_then_Inr_iff split: option.splits if_splits)
  from cases show ?thesis
  proof (elim disjE)
    assume "update_classroom_row i (\<lambda>c. c\<lparr>
                cls_displayName := or_else (ucd_displayName u) (cls_displayName c),
                cls_defaultGroupId := (case ucd_defaultGroupId u of Some g \<Rightarrow> Some g | None \<Rightarrow> cls_defaultGroupId c),
                cls_captivePortalDomains := or_else ds (cls_captivePortalDomains c)\<rparr>) db = Inr (x, db')"
    then show ?thesis
      by (rule school_ok_update_classroom_row [OF ok])
        (use ds normalizeCaptive_spec in \<open>auto simp: classroom_ok_def or_else_def\<close>)
  qed (use ok in simp)
qed

lemma school_ok_setActiveGroup: "school_ok db \<Longrightarrow> setActiveGroup i g db = Inr (x, db') \<Longrightarrow> school_ok db'"
  unfolding setActiveGroup_def by (erule (1) school_ok_update_classroom_row) (auto simp: classroom_ok_def)


lemma machine_of_row: "school_ok db \<Longrightarrow> m \<in> set (db_machines db) \<Longrightarrow> machine_ok db m"
  by (auto simp: school_ok_def machines_ok_def list_all_iff)

lemma school_ok_registerMachine:
  assumes ok: "school_ok db" and r: "registerMachine i now d db = Inr (m, db')"
  shows "school_ok db'"
proof (cases "getMachineByHostname (to_lower (rmd_hostname d)) db")
  case None
  with r have m: "row_by mac_id (mac_id m) (db_machines db) = None" "row_by mac_hostname (mac_hostname m) (db_machines db) = None"
    "machine_ok db m" "mac_downloadTokenHash m = None" and db': "db' = db\<lparr>db_machines := ins_row m (db_machines db)\<rparr>"
    by (auto simp: registerMachine_def Let_def machine_ok_def split: if_splits option.splits)
  have "pairwise_apart token_clash (ins_row m (db_machines db))"
    using ok m(4) by (intro tokens.apart_ins) (auto simp: school_ok_def machines_ok_def token_clash_def)
  then show ?thesis
    unfolding db' using ok m
    by (intro school_ok_machines)
      (auto simp: school_ok_def machines_ok_def distinct_key_ins set_ins_row list_all_ins machine_ids_def)
next
  case (Some e)
  define f :: "machine_row \<Rightarrow> machine_row" where "f = (\<lambda>x. x\<lparr>mac_classroomId := Some (rmd_classroomId d),
      mac_reportedHostname := Some (case rmd_reportedHostname d of Some r \<Rightarrow> js_trim r | None \<Rightarrow> to_lower (rmd_hostname d)),
      mac_version := (case rmd_version d of Some v \<Rightarrow> Some v | None \<Rightarrow> mac_version e), mac_lastSeen := Some now\<rparr>)"
  from Some r have db': "db' = db\<lparr>db_machines := upd_by mac_id (mac_id e) f (db_machines db)\<rparr>"
    and room: "rmd_classroomId d \<in> set (classroom_ids db)"
    by (auto simp: registerMachine_def Let_def f_def split: if_splits option.splits)
  have "pairwise_apart token_clash (upd_by mac_id (mac_id e) f (db_machines db))"
    using ok by (intro token_upd_same) (auto simp: f_def school_ok_def machines_ok_def)
  then show ?thesis
    unfolding db' by (intro school_ok_machines_upd [OF ok]) (auto simp: f_def machine_ok_def room)
qed

lemma school_ok_updateMachineLastSeen: "school_ok db \<Longrightarrow> school_ok (snd (updateMachineLastSeen now h db))"
  by (auto simp: updateMachineLastSeen_def update_machine_def Let_def machine_ok_def
      intro!: school_ok_machines_upd token_upd_same dest: machine_of_row split: option.splits)
    (auto simp: school_ok_def machines_ok_def)

lemma school_ok_setToken:
  assumes ok: "school_ok db" and r: "setMachineDownloadTokenHash now i h db = Inr (x, db')"
  shows "school_ok db'"
proof -
  define f :: "machine_row \<Rightarrow> machine_row" where "f = (\<lambda>m. m\<lparr>mac_downloadTokenHash := Some h, mac_downloadTokenLastRotatedAt := Some now, mac_updatedAt := Some now\<rparr>)"
  have db': "db' = db\<lparr>db_machines := upd_by mac_id i f (db_machines db)\<rparr>"
    using r by (auto simp: setMachineDownloadTokenHash_def update_machine_def Let_def f_def split: if_splits)
  have keys: "distinct_key mac_id (db_machines db)" "pairwise_apart token_clash (db_machines db)"
    using ok by (simp_all add: school_ok_def machines_ok_def)
  have tok: "pairwise_apart token_clash (upd_by mac_id i f (db_machines db))"
  proof (cases "row_by mac_id i (db_machines db)")
    case None
    then have "upd_by mac_id i f (db_machines db) = db_machines db"
      by (auto simp: row_by_None_iff upd_by_def upd_where_def intro!: map_idI)
    then show ?thesis using keys by simp
  next
    case (Some m)
    then have "\<forall>x \<in> set (db_machines db). mac_id x \<noteq> i \<longrightarrow> mac_downloadTokenHash x \<noteq> Some h"
      using r by (auto simp: setMachineDownloadTokenHash_def getMachineById_def list_ex_iff split: if_splits)
    then have "pairwise_apart token_clash (upd_by mac_id i (\<lambda>_. f m) (db_machines db))"
      using keys row_by_SomeD [OF Some]
      by (intro tokens.apart_upd) (auto simp: token_clash_def f_def eq_null_def split: option.splits)
    then show ?thesis using upd_by_const [OF keys(1) Some] by simp
  qed
  show ?thesis
    unfolding db' using machine_of_row [OF ok]
    by (intro school_ok_machines_upd [OF ok _ _ _ tok]) (auto simp: f_def machine_ok_def)
qed

lemma school_ok_deleteMachine: "school_ok db \<Longrightarrow> school_ok (snd (deleteMachine h db))"
  by (auto simp: deleteMachine_def school_ok_drop_machines split: option.splits)

section \<open>Exemptions\<close>

text \<open>What a successful call returns and stores: a fresh row, or the row that was there with the
  group of this call.\<close>

lemma insertOrReuse_cases:
  assumes "insertOrReuseExemption i now inp db = Inr (e, db')"
  obtains (new) "e = exemption_of i now inp" "exemption_check e" "exemption_refs db e"
      "\<not> list_ex (exemption_clash e) (db_exemptions db)" "db' = db\<lparr>db_exemptions := ins_row e (db_exemptions db)\<rparr>"
  | (same) "e \<in> set (db_exemptions db)" "ex_machineId e = iei_machineId inp" "ex_scheduleId e = iei_scheduleId inp"
      "ex_source e = iei_source inp" "ex_expiresAt e = iei_expiresAt inp" "ex_groupId e = iei_groupId inp" "db' = db"
  | (regroup) e0 where "e0 \<in> set (db_exemptions db)" "ex_machineId e0 = iei_machineId inp" "ex_scheduleId e0 = iei_scheduleId inp"
      "ex_source e0 = iei_source inp" "ex_expiresAt e0 = iei_expiresAt inp" "fk (iei_groupId inp) (group_ids db)"
      "e = or_else (row_by ex_id (ex_id e0) (upd_by ex_id (ex_id e0) (\<lambda>e. e\<lparr>ex_groupId := iei_groupId inp\<rparr>) (db_exemptions db))) e0"
      "db' = db\<lparr>db_exemptions := upd_by ex_id (ex_id e0) (\<lambda>e. e\<lparr>ex_groupId := iei_groupId inp\<rparr>) (db_exemptions db)\<rparr>"
proof -
  let ?row = "exemption_of i now inp"
  let ?same = "\<lambda>e. ex_machineId e = iei_machineId inp \<and> ex_scheduleId e = iei_scheduleId inp \<and>
    ex_source e = iei_source inp \<and> ex_expiresAt e = iei_expiresAt inp"
  have chk: "exemption_check ?row" using assms by (auto simp: insertOrReuseExemption_def Let_def split: if_splits)
  show ?thesis
  proof (cases "list_ex (exemption_clash ?row) (db_exemptions db)")
    case False
    with assms chk new show ?thesis by (auto simp: insertOrReuseExemption_def Let_def split: if_splits)
  next
    case True
    show ?thesis
    proof (cases "sel_first ?same (db_exemptions db)")
      case None
      with assms chk True show ?thesis by (simp add: insertOrReuseExemption_def Let_def)
    next
      case (Some e0)
      have e0: "e0 \<in> set (db_exemptions db)" "?same e0" using sel_first_SomeD [OF Some] by simp_all
      show ?thesis
      proof (cases "ex_groupId e0 = iei_groupId inp")
        case True
        then have "insertOrReuseExemption i now inp db = Inr (e0, db)"
          using chk Some \<open>list_ex _ _\<close> by (simp add: insertOrReuseExemption_def Let_def)
        with assms have "e = e0" "db' = db" by simp_all
        with e0 True show ?thesis by (intro same) simp_all
      next
        case False
        let ?t = "upd_by ex_id (ex_id e0) (\<lambda>e. e\<lparr>ex_groupId := iei_groupId inp\<rparr>) (db_exemptions db)"
        from False have r: "insertOrReuseExemption i now inp db =
            (if \<not> fk (iei_groupId inp) (group_ids db) then Inl (Exemption_db Foreign_key_violation)
             else Inr (or_else (row_by ex_id (ex_id e0) ?t) e0, db\<lparr>db_exemptions := ?t\<rparr>))"
          using chk Some \<open>list_ex _ _\<close> by (simp add: insertOrReuseExemption_def Let_def)
        then have "fk (iei_groupId inp) (group_ids db)" "e = or_else (row_by ex_id (ex_id e0) ?t) e0"
          "db' = db\<lparr>db_exemptions := ?t\<rparr>"
          using assms by (simp_all split: if_splits)
        with e0 show ?thesis by (intro regroup [of e0]) simp_all
      qed
    qed
  qed
qed

lemma clash_regroup: "exemption_clash (e\<lparr>ex_groupId := g\<rparr>) (e'\<lparr>ex_groupId := g'\<rparr>) = exemption_clash e e'"
  "exemption_clash (e\<lparr>ex_groupId := g\<rparr>) e' = exemption_clash e e'"
  "exemption_clash e (e'\<lparr>ex_groupId := g'\<rparr>) = exemption_clash e e'"
  by (simp_all add: exemption_clash_def)

lemma school_ok_insertOrReuse:
  assumes ok: "school_ok db" and r: "insertOrReuseExemption i now inp db = Inr (e, db')"
    and room: "\<And>x. x \<in> set (db_schedules db) \<Longrightarrow> iei_scheduleId inp = Some (sch_id x) \<Longrightarrow> sch_classroomId x = iei_classroomId inp"
  shows "school_ok db'"
  using r
proof (cases rule: insertOrReuse_cases)
  case new
  have "pairwise_apart exemption_clash (ins_row e (db_exemptions db))"
    using ok new(4) by (intro exempt.apart_ins) (auto simp: school_ok_def exemptions_ok_def list_ex_iff)
  moreover have "exemption_room (db_schedules db) e"
    using room by (auto simp: exemption_room_def list_all_iff new(1) exemption_of_def)
  ultimately show ?thesis
    unfolding new(5) using ok new(2,3)
    by (intro school_ok_exemptions) (simp_all add: list_all_ins school_ok_def exemptions_ok_def)
next
  case (regroup e0)
  show ?thesis
    unfolding regroup(8) using ok regroup(6)
    by (intro school_ok_exemptions)
      (auto simp: school_ok_def exemptions_ok_def upd_by_def upd_where_def pairwise_apart_map clash_regroup list_all_iff
         exemption_check_def exemption_refs_def exemption_room_def)
qed (use ok in simp)

lemma school_timetable: "school_ok db \<Longrightarrow> timetable_ok (db_schedules db)"
  by (simp add: school_ok_def schedules_ok_def)

text \<open>A schedule exemption comes from a schedule of the machine's classroom that is active now and ends
  when the exemption does.\<close>

lemma createMachineExemption_cases:
  assumes "createMachineExemption tz utc i now inp db = Inr (e, db')"
  obtains r x where "r \<in> set (db_schedules db)" "sch_id r = cei_scheduleId inp" "sch_classroomId r = cei_classroomId inp"
    "insertOrReuseExemption i now (schedule_exemption inp x) db = Inr (e, db')" "now < x"
    "(one_off_active now r \<and> sch_endAt r = Some x) \<or>
     (weekly_active tz now r \<and> (\<exists>k. sch_endTime r = Some k \<and> buildExpiresAtForScheduleEnd tz utc now (time_text k) = Inr x))"
    "\<exists>m. getMachineById (cei_machineId inp) db = Some m \<and> mac_classroomId m = Some (cei_classroomId inp)"
proof -
  let ?one = "sel_first (\<lambda>r. sch_id r = cei_scheduleId inp \<and> sch_classroomId r = cei_classroomId inp \<and> one_off_active now r) (db_schedules db)"
  let ?week = "sel_first (\<lambda>r. sch_id r = cei_scheduleId inp \<and> sch_classroomId r = cei_classroomId inp \<and> weekly_active tz now r) (db_schedules db)"
  from assms obtain m where m: "getMachineById (cei_machineId inp) db = Some m" "mac_classroomId m = Some (cei_classroomId inp)"
    by (auto simp: createMachineExemption_def and_then_Inr_iff find_exempted_def split: option.splits if_splits)
  then have found: "find_exempted (cei_machineId inp) (cei_classroomId inp) db = Inr m" by (simp add: find_exempted_def)
  show ?thesis
  proof (cases ?one)
    case (Some r)
    then obtain x where "sch_endAt r = Some x" "now < x" "insertOrReuseExemption i now (schedule_exemption inp x) db = Inr (e, db')"
      using assms found by (auto simp: createMachineExemption_def split: option.splits if_splits)
    then show ?thesis using sel_first_SomeD [OF Some] m by (intro that [of r x]) auto
  next
    case None
    then obtain r k x where r: "?week = Some r" "sch_endTime r = Some k"
      "buildExpiresAtForScheduleEnd tz utc now (time_text k) = Inr x"
      "insertOrReuseExemption i now (schedule_exemption inp x) db = Inr (e, db')"
      using assms found by (auto simp: createMachineExemption_def and_then_Inr_iff split: option.splits if_splits)
    have "now < x"
      using r(3) by (auto simp: buildExpiresAtForScheduleEnd_def Let_def split: option.splits if_splits)
    then show ?thesis using sel_first_SomeD [OF r(1)] r m by (intro that [of r x]) auto
  qed
qed

lemma school_ok_createMachineExemption:
  assumes ok: "school_ok db" and c: "createMachineExemption tz utc i now inp db = Inr (e, db')"
  shows "school_ok db'"
  using c
proof (cases rule: createMachineExemption_cases)
  case (1 r x)
  have "distinct_key sch_id (db_schedules db)" using school_timetable [OF ok] by (simp add: timetable_ok_def)
  then have "y = r" if "y \<in> set (db_schedules db)" "sch_id y = sch_id r" for y
    using that row_by_unique [of sch_id "db_schedules db"] 1(1) by (metis option.inject)
  then show ?thesis
    using 1(2,3) by (intro school_ok_insertOrReuse [OF ok 1(4)]) (auto simp: schedule_exemption_def)
qed

lemma school_ok_createOperational:
  "school_ok db \<Longrightarrow> createOperationalMachineExemption i now inp db = Inr (e, db') \<Longrightarrow> school_ok db'"
  by (auto simp: createOperationalMachineExemption_def Let_def and_then_Inr_iff split: option.splits if_splits
      intro: school_ok_insertOrReuse)

lemma school_ok_drop_exemptions:
  assumes ok: "school_ok db"
  shows "school_ok (db\<lparr>db_exemptions := del_where P (db_exemptions db)\<rparr>)"
proof -
  have "pairwise_apart exemption_clash (db_exemptions db)" "list_all (\<lambda>e. exemption_check e \<and> exemption_refs db e \<and> exemption_room (db_schedules db) e) (db_exemptions db)"
    using ok by (simp_all add: school_ok_def exemptions_ok_def)
  then show ?thesis
    using exempt.apart_del by (intro school_ok_exemptions [OF ok]) (auto simp: list_all_iff set_del_where)
qed

lemma school_ok_deleteExemption: "school_ok db \<Longrightarrow> school_ok (snd (deleteMachineExemption i db))"
  unfolding deleteMachineExemption_def snd_conv del_by_def by (rule school_ok_drop_exemptions)

lemma school_ok_expired: "school_ok db \<Longrightarrow> school_ok (snd (deleteExpiredMachineExemptions now db))"
  unfolding deleteExpiredMachineExemptions_def snd_conv by (rule school_ok_drop_exemptions)

section \<open>Reachable states\<close>

text \<open>One rule per operation.  The group store moves by its own operations, a removal of a group apart,
  which cascades; the identifier drawn for a new schedule is not in use, and the database accepts a
  timetable only when its rows refer to existing classrooms, groups and teachers.\<close>

inductive school_reach :: "(int \<Rightarrow> int) \<Rightarrow> (int \<Rightarrow> int) \<Rightarrow> school_db \<Rightarrow> bool" for tz utc where
  empty: "school_reach tz utc \<lparr>db_users = us, db_groups = \<lparr>gs_groups = [], gs_rules = []\<rparr>, db_classrooms = [],
            db_machines = [], db_schedules = [], db_exemptions = []\<rparr>"
| groups: "school_reach tz utc db \<Longrightarrow> store_reach s \<Longrightarrow> set (group_ids db) \<subseteq> grp_id ` set (gs_groups s) \<Longrightarrow>
    school_reach tz utc (db\<lparr>db_groups := s\<rparr>)"
| group_del: "school_reach tz utc db \<Longrightarrow> school_reach tz utc (drop_group i db)"
| classroom: "school_reach tz utc db \<Longrightarrow> createClassroom i now d db = Inr (c, db') \<Longrightarrow> school_reach tz utc db'"
| classroom_upd: "school_reach tz utc db \<Longrightarrow> updateClassroom i u db = Inr (x, db') \<Longrightarrow> school_reach tz utc db'"
| active: "school_reach tz utc db \<Longrightarrow> setActiveGroup i g db = Inr (x, db') \<Longrightarrow> school_reach tz utc db'"
| classroom_del: "school_reach tz utc db \<Longrightarrow> school_reach tz utc (snd (deleteClassroom i db))"
| machine: "school_reach tz utc db \<Longrightarrow> registerMachine i now rd db = Inr (m, db') \<Longrightarrow> school_reach tz utc db'"
| seen: "school_reach tz utc db \<Longrightarrow> school_reach tz utc (snd (updateMachineLastSeen now h db))"
| token: "school_reach tz utc db \<Longrightarrow> setMachineDownloadTokenHash now i h db = Inr (y, db') \<Longrightarrow> school_reach tz utc db'"
| machine_del: "school_reach tz utc db \<Longrightarrow> school_reach tz utc (snd (deleteMachine h db))"
| machines_del: "school_reach tz utc db \<Longrightarrow> school_reach tz utc (snd (removeMachinesByClassroom i db))"
| schedule: "school_reach tz utc db \<Longrightarrow> getScheduleById i (db_schedules db) = None \<Longrightarrow>
    createSchedule i now sd (db_schedules db) = Inr (r, t) \<Longrightarrow> list_all (schedule_refs db) t \<Longrightarrow>
    school_reach tz utc (db\<lparr>db_schedules := t\<rparr>)"
| one_off: "school_reach tz utc db \<Longrightarrow> getScheduleById i (db_schedules db) = None \<Longrightarrow>
    createOneOffSchedule i now od (db_schedules db) = Inr (r, t) \<Longrightarrow> list_all (schedule_refs db) t \<Longrightarrow>
    school_reach tz utc (db\<lparr>db_schedules := t\<rparr>)"
| schedule_upd: "school_reach tz utc db \<Longrightarrow> updateSchedule i su (db_schedules db) = Inr (ro, t) \<Longrightarrow>
    list_all (schedule_refs db) t \<Longrightarrow> school_reach tz utc (db\<lparr>db_schedules := t\<rparr>)"
| one_off_upd: "school_reach tz utc db \<Longrightarrow> updateOneOffSchedule now i ou (db_schedules db) = Inr (ro, t) \<Longrightarrow>
    list_all (schedule_refs db) t \<Longrightarrow> school_reach tz utc (db\<lparr>db_schedules := t\<rparr>)"
| schedule_del: "school_reach tz utc db \<Longrightarrow> school_reach tz utc (drop_schedules (\<lambda>r. sch_id r = i) db)"
| schedules_del: "school_reach tz utc db \<Longrightarrow> school_reach tz utc (drop_schedules (\<lambda>r. sch_classroomId r = c) db)"
| exemption: "school_reach tz utc db \<Longrightarrow> createMachineExemption tz utc i now ei db = Inr (e, db') \<Longrightarrow> school_reach tz utc db'"
| operational: "school_reach tz utc db \<Longrightarrow> createOperationalMachineExemption i now oi db = Inr (e, db') \<Longrightarrow> school_reach tz utc db'"
| exemption_del: "school_reach tz utc db \<Longrightarrow> school_reach tz utc (snd (deleteMachineExemption i db))"
| expired: "school_reach tz utc db \<Longrightarrow> school_reach tz utc (snd (deleteExpiredMachineExemptions now db))"

text \<open>No command moves a schedule to another classroom.\<close>

definition same_rooms :: "schedule_row table \<Rightarrow> schedule_row table \<Rightarrow> bool" where
  "same_rooms t t' \<longleftrightarrow> sch_id ` set t \<subseteq> sch_id ` set t' \<and>
     (\<forall>r \<in> set t'. sch_id r \<in> sch_id ` set t \<longrightarrow> (\<exists>r0 \<in> set t. sch_id r0 = sch_id r \<and> sch_classroomId r0 = sch_classroomId r))"

lemma same_rooms_refl: "same_rooms t t"
  by (auto simp: same_rooms_def)

lemma same_rooms_ins: "getScheduleById (sch_id r) t = None \<Longrightarrow> same_rooms t (ins_row r t)"
  by (auto simp: same_rooms_def set_ins_row getScheduleById_def row_by_None_iff)

lemma same_rooms_upd:
  assumes f: "\<And>r. sch_id (f r) = sch_id r" "\<And>r. sch_classroomId (f r) = sch_classroomId r"
  shows "same_rooms t (upd_by sch_id i f t)"
proof -
  have "\<exists>r0 \<in> set t. sch_id r0 = sch_id r \<and> sch_classroomId r0 = sch_classroomId r"
    if "r \<in> set (upd_by sch_id i f t)" for r
    using set_upd_byD [OF that] f by metis
  then show ?thesis by (simp add: same_rooms_def upd_ids [of sch_id, OF f(1)])
qed

lemma createSchedule_rooms:
  "createSchedule i now d t = Inr (r, t') \<Longrightarrow> getScheduleById i t = None \<Longrightarrow> same_rooms t t'"
  by (auto simp: createSchedule_def and_then_Inr_iff Let_def intro!: same_rooms_ins)

lemma createOneOffSchedule_rooms:
  "createOneOffSchedule i now d t = Inr (r, t') \<Longrightarrow> getScheduleById i t = None \<Longrightarrow> same_rooms t t'"
  by (auto simp: createOneOffSchedule_def and_then_Inr_iff Let_def intro!: same_rooms_ins)

lemma updateSchedule_rooms: "updateSchedule i u t = Inr (x, t') \<Longrightarrow> same_rooms t t'"
  by (auto simp: updateSchedule_def and_then_Inr_iff Let_def set_weekly_def
      intro!: same_rooms_upd same_rooms_refl split: option.splits if_splits)

lemma updateOneOffSchedule_rooms: "updateOneOffSchedule now i u t = Inr (x, t') \<Longrightarrow> same_rooms t t'"
  by (auto simp: updateOneOffSchedule_def and_then_Inr_iff Let_def set_one_off_def
      intro!: same_rooms_upd same_rooms_refl split: option.splits if_splits)

lemma school_ok_new_timetable:
  "school_ok db \<Longrightarrow> timetable_ok t \<Longrightarrow> list_all (schedule_refs db) t \<Longrightarrow> same_rooms (db_schedules db) t \<Longrightarrow>
   school_ok (db\<lparr>db_schedules := t\<rparr>)"
  by (rule school_ok_schedules) (auto simp: schedule_ids_def same_rooms_def)

lemma school_reach_ok: "school_reach tz utc db \<Longrightarrow> school_ok db"
proof (induction rule: school_reach.induct)
  case (empty us)
  then show ?case
    by (simp add: school_ok_def school_tables store_ok_def distinct_key_def pairwise_apart_def timetable_ok_def)
next
  case (schedule db i now sd r t)
  then show ?case
    using createSchedule_ok [OF school_timetable] by (intro school_ok_new_timetable createSchedule_rooms) auto
next
  case (one_off db i now od r t)
  then show ?case
    using createOneOffSchedule_ok [OF school_timetable] by (intro school_ok_new_timetable createOneOffSchedule_rooms) auto
next
  case (schedule_upd db i su ro t)
  then show ?case
    using updateSchedule_ok [OF school_timetable] by (intro school_ok_new_timetable updateSchedule_rooms) auto
next
  case (one_off_upd db now i ou ro t)
  then show ?case
    using updateOneOffSchedule_ok [OF school_timetable] by (intro school_ok_new_timetable updateOneOffSchedule_rooms) auto
qed (auto simp: deleteClassroom_def removeMachinesByClassroom_def store_reach_ok
    intro: school_ok_groups school_ok_drop_group school_ok_createClassroom school_ok_updateClassroom school_ok_setActiveGroup
      school_ok_drop_classroom school_ok_registerMachine school_ok_updateMachineLastSeen school_ok_setToken
      school_ok_deleteMachine school_ok_drop_machines school_ok_drop_schedules school_ok_createMachineExemption
      school_ok_createOperational school_ok_deleteExemption school_ok_expired)

section \<open>A school in use\<close>

definition demo_classroom :: classroom_row where
  "demo_classroom = \<lparr>cls_id = ''lab'', cls_name = ''lab-1'', cls_displayName = ''Lab 1'', cls_defaultGroupId = None,
     cls_activeGroupId = None, cls_captivePortalDomains = [], cls_createdAt = Some 0, cls_updatedAt = Some 0\<rparr>"

definition demo_machine :: machine_row where
  "demo_machine = \<lparr>mac_id = ''m1'', mac_hostname = ''pc1'', mac_reportedHostname = Some ''pc1'', mac_classroomId = Some ''lab'',
     mac_version = Some ''unknown'', mac_lastSeen = Some 0, mac_downloadTokenHash = None,
     mac_downloadTokenLastRotatedAt = None, mac_createdAt = Some 0, mac_updatedAt = Some 0\<rparr>"

definition demo_db :: school_db where
  "demo_db = \<lparr>db_users = [''t1''], db_groups = demo_store, db_classrooms = [demo_classroom],
     db_machines = [demo_machine], db_schedules = [demo_row], db_exemptions = []\<rparr>"

definition demo_class_data :: create_classroom_data where
  "demo_class_data = \<lparr>ccd_name = ''Lab 1'', ccd_displayName = None, ccd_defaultGroupId = None, ccd_captivePortalDomains = None\<rparr>"

definition demo_reg :: register_machine_data where
  "demo_reg = \<lparr>rmd_hostname = ''PC1'', rmd_reportedHostname = None, rmd_classroomId = ''lab'', rmd_version = None\<rparr>"

lemma demo_db_reach: "school_reach tz utc demo_db"
proof -
  let ?db0 = "\<lparr>db_users = [''t1''], db_groups = \<lparr>gs_groups = [], gs_rules = []\<rparr>, db_classrooms = [],
            db_machines = [], db_schedules = [], db_exemptions = []\<rparr>"
  let ?db1 = "?db0\<lparr>db_groups := demo_store\<rparr>"
  let ?db2 = "?db1\<lparr>db_classrooms := [demo_classroom]\<rparr>"
  let ?db3 = "?db2\<lparr>db_machines := [demo_machine]\<rparr>"
  have 1: "school_reach tz utc ?db1"
    by (rule school_reach.groups [OF school_reach.empty demo_store_reach]) (simp add: group_ids_def)
  have c: "createClassroom ''lab'' 0 demo_class_data ?db1 = Inr (demo_classroom, ?db2)" by code_simp
  have r: "registerMachine ''m1'' 0 demo_reg ?db2 = Inr (demo_machine, ?db3)" by code_simp
  have s: "createSchedule ''s1'' 0 demo_a (db_schedules ?db3) = Inr (demo_row, [demo_row])" by code_simp
  have refs: "getScheduleById ''s1'' (db_schedules ?db3) = None" "list_all (schedule_refs ?db3) [demo_row]" by code_simp+
  have "school_reach tz utc (?db3\<lparr>db_schedules := [demo_row]\<rparr>)"
    by (rule school_reach.schedule [OF school_reach.machine [OF school_reach.classroom [OF 1 c] r] refs(1) s refs(2)])
  then show ?thesis by (simp add: demo_db_def)
qed

section \<open>Properties\<close>

text \<open>C20: the constraints of the school's tables hold in every state the operations can reach: unique
  identifiers, classroom names, host names and download tokens; every reference points to an
  existing row, whatever was removed before; classroom names are slugs and captive portal domains
  normalised; no classroom is double-booked; an exemption for a schedule is in its classroom.\<close>
theorem school_constraints:
  assumes "school_reach tz utc db"
  shows "school_ok db"
  by (rule school_reach_ok [OF assms])

theorem school_constraints_witness:
  "school_ok (snd (deleteClassroom ''lab'' demo_db)) \<and> db_machines (snd (deleteClassroom ''lab'' demo_db)) = []"
proof
  show "school_ok (snd (deleteClassroom ''lab'' demo_db))"
    by (rule school_constraints [OF school_reach.classroom_del [OF demo_db_reach]])
  show "db_machines (snd (deleteClassroom ''lab'' demo_db)) = []" by code_simp
qed

lemma getClassroomByName_slug: "getClassroomByName (sanitizeSlug n 100 True) db = getClassroomByName n db"
  by (simp add: getClassroomByName_def sanitizeSlug_fixed sanitizeSlug_ok)

text \<open>C22: with a fresh identifier, creating a classroom never trips over a uniqueness constraint of the
  database; a classroom that was created is found under every spelling with the same slug, and
  creating one under such a spelling again is refused by name.\<close>
theorem createClassroom_unique:
  assumes "getClassroomById i db = None"
  shows "createClassroom i now d db \<noteq> Inl Unique_violation \<and>
    (\<forall>c db' n. createClassroom i now d db = Inr (c, db') \<longrightarrow> sanitizeSlug n 100 True = sanitizeSlug (ccd_name d) 100 True \<longrightarrow>
      getClassroomByName n db' = Some c \<and> getClassroomById i db' = Some c \<and>
      createClassroom j now' (d\<lparr>ccd_name := n\<rparr>) db' =
        Inl (App_error (''Classroom with name \"'' @ cls_name c @ ''\" already exists'')))"
proof (intro conjI allI impI)
  show "createClassroom i now d db \<noteq> Inl Unique_violation"
    using assms sanitizeSlug_fixed [OF sanitizeSlug_ok]
    by (auto simp: createClassroom_def Let_def and_then_Inl_iff insert_classroom_def getClassroomByName_def getClassroomById_def
        app_err_def split: sum.splits if_splits)
next
  fix c db' n
  assume c: "createClassroom i now d db = Inr (c, db')" and n: "sanitizeSlug n 100 True = sanitizeSlug (ccd_name d) 100 True"
  from c have name: "cls_name c = sanitizeSlug (ccd_name d) 100 True" "cls_name c \<noteq> []" "cls_id c = i"
    and ins: "insert_classroom c db = Inr db'"
    by (auto simp: createClassroom_def Let_def and_then_Inr_iff split: if_splits)
  from ins have "row_by cls_name (cls_name c) (db_classrooms db') = Some c" "row_by cls_id (cls_id c) (db_classrooms db') = Some c"
    by (auto simp: insert_classroom_Inr row_by_ins)
  then show by_name: "getClassroomByName n db' = Some c" and "getClassroomById i db' = Some c"
    by (simp_all add: getClassroomByName_def getClassroomById_def n name [symmetric])
  then show "createClassroom j now' (d\<lparr>ccd_name := n\<rparr>) db' =
        Inl (App_error (''Classroom with name \"'' @ cls_name c @ ''\" already exists''))"
    using name getClassroomByName_slug [of n db'] by (simp add: createClassroom_def n)
qed

theorem createClassroom_unique_witness:
  "\<exists>c db'. createClassroom ''r2'' 5 (demo_class_data\<lparr>ccd_name := ''Aula 2''\<rparr>) demo_db = Inr (c, db') \<and>
     getClassroomByName ''  AULA--2 '' db' = Some c"
proof -
  let ?r = "createClassroom ''r2'' 5 (demo_class_data\<lparr>ccd_name := ''Aula 2''\<rparr>) demo_db"
  have "isl ?r = False" by code_simp
  then obtain c db' where r: "?r = Inr (c, db')" by (cases ?r) auto
  have "getClassroomById ''r2'' demo_db = None" "sanitizeSlug ''  AULA--2 '' 100 True = sanitizeSlug ''Aula 2'' 100 True"
    by code_simp+
  then show ?thesis using createClassroom_unique [of "''r2''" demo_db] r by fastforce
qed

text \<open>Registering a machine.  In a reachable school, for a host name without surrounding blanks and an
  existing classroom, registration succeeds; the machine is then found under its name in any
  case, in that classroom and seen now; registering it again changes the row and adds none, keeping its
  identifier and its download token.\<close>
theorem registerMachine_once:
  assumes "school_reach tz utc db" "js_trim (rmd_hostname d) = rmd_hostname d"
    and "rmd_classroomId d \<in> set (classroom_ids db)" "getMachineById i db = None"
  shows "\<exists>m db'. registerMachine i now d db = Inr (m, db') \<and>
    getMachineByHostname (rmd_hostname d) db' = Some m \<and> mac_classroomId m = Some (rmd_classroomId d) \<and> mac_lastSeen m = Some now \<and>
    (case getMachineByHostname (rmd_hostname d) db of
       None \<Rightarrow> mac_id m = i \<and> length (db_machines db') = Suc (length (db_machines db))
     | Some m0 \<Rightarrow> mac_id m = mac_id m0 \<and> mac_downloadTokenHash m = mac_downloadTokenHash m0 \<and>
                  length (db_machines db') = length (db_machines db))"
proof -
  have keys: "distinct_key mac_id (db_machines db)" "distinct_key mac_hostname (db_machines db)"
    using school_reach_ok [OF assms(1)] by (simp_all add: school_ok_def machines_ok_def)
  have host: "js_trim (to_lower (rmd_hostname d)) = to_lower (rmd_hostname d)"
    using assms(2) by (simp add: js_trim_lower)
  show ?thesis
  proof (cases "getMachineByHostname (rmd_hostname d) db")
    case None
    then have new: "row_by mac_hostname (to_lower (rmd_hostname d)) (db_machines db) = None"
      by (simp add: getMachineByHostname_def host)
    then show ?thesis
      using None assms(3,4) unfolding registerMachine_def Let_def
      by (simp add: getMachineByHostname_def host getMachineById_def row_by_ins) (simp add: ins_row_def)
  next
    case (Some m0)
    then have m0: "row_by mac_hostname (to_lower (rmd_hostname d)) (db_machines db) = Some m0"
      by (simp add: getMachineByHostname_def host)
    define f :: "machine_row \<Rightarrow> machine_row" where "f = (\<lambda>x. x\<lparr>mac_classroomId := Some (rmd_classroomId d),
      mac_reportedHostname := Some (case rmd_reportedHostname d of Some r \<Rightarrow> js_trim r | None \<Rightarrow> to_lower (rmd_hostname d)),
      mac_version := (case rmd_version d of Some v \<Rightarrow> Some v | None \<Rightarrow> mac_version m0), mac_lastSeen := Some now\<rparr>)"
    let ?t = "upd_by mac_id (mac_id m0) f (db_machines db)"
    have in0: "m0 \<in> set (db_machines db)" "mac_hostname m0 = to_lower (rmd_hostname d)"
      using row_by_SomeD [OF m0] by simp_all
    have id: "row_by mac_id (mac_id m0) ?t = Some (f m0)"
      using row_by_unique [OF keys(1) in0(1)] by (simp add: row_by_upd_by f_def)
    have "f m0 \<in> set ?t" using row_by_SomeD [OF id] by simp
    moreover have "distinct_key mac_hostname ?t"
      using keys(2) by (simp add: upd_by_def distinct_key_upd_where f_def)
    ultimately have "row_by mac_hostname (to_lower (rmd_hostname d)) ?t = Some (f m0)"
      using row_by_unique [of mac_hostname ?t "f m0"] in0(2) by (simp add: f_def)
    then show ?thesis
      using Some id assms(3)
      by (simp add: registerMachine_def Let_def getMachineByHostname_def host flip: f_def)
        (simp add: f_def upd_by_def upd_where_def)
  qed
qed

theorem registerMachine_once_witness:
  "\<exists>m db'. registerMachine ''m9'' 60 demo_reg demo_db = Inr (m, db') \<and> mac_id m = ''m1'' \<and>
     mac_lastSeen m = Some 60 \<and> length (db_machines db') = 1"
proof -
  have "js_trim (rmd_hostname demo_reg) = rmd_hostname demo_reg" "rmd_classroomId demo_reg \<in> set (classroom_ids demo_db)"
    "getMachineById ''m9'' demo_db = None" "getMachineByHostname (rmd_hostname demo_reg) demo_db = Some demo_machine"
    "mac_id demo_machine = ''m1''" "length (db_machines demo_db) = 1"
    by code_simp+
  then show ?thesis
    using registerMachine_once [OF demo_db_reach [of "\<lambda>_. 0" "\<lambda>_. 0"], of demo_reg "''m9''" 60] by auto
qed

end
