(* ===== verification/Exemption_Rules.thy ===== *)
theory Exemption_Rules
  imports School_State
begin

text \<open>
  What an exemption does: it covers its machine until the schedule it was made for ends and no
  longer, making it twice is making it once, and it can be made whenever the schedule is the
  current one.  The lemmas on \<open>getActiveMachineExemption\<close> are used by the policy.
\<close>

section \<open>The end of the schedule\<close>

lemma parse_time_text:
  assumes "0 \<le> k" "k < 86400" "k mod 60 = 0"
  shows "parseTimeHHMM (time_text k) = Some (k div 3600, k div 60 mod 60)"
proof -
  let ?h = "nat (k div 3600)" and ?m = "nat (k div 60 mod 60)"
  have hm: "?h < 24" "?m < 60" "int ?h = k div 3600" "int ?m = k div 60 mod 60"
    using assms by (auto simp: nat_less_iff)
  have v: "regex_test TIME_REGEX (clock ?h ?m @ seconds_suffix (Some 0))"
    by (rule valid_time_clock) (use hm in auto)
  show ?thesis
    using v hm unfolding time_text_clock [OF assms] parseTimeHHMM_def by (simp add: clock_groups js_number_two)
qed

lemma buildExpires_time_text:
  assumes "0 \<le> k" "k < 86400" "k mod 60 = 0"
  shows "buildExpiresAtForScheduleEnd tz utc now (time_text k) =
    (let x = set_hours tz utc now (k div 3600) (k div 60 mod 60)
     in if x \<le> now then Inl (Exemption_error BAD_REQUEST ''Schedule is not active'') else Inr x)"
  by (simp add: buildExpiresAtForScheduleEnd_def parse_time_text [OF assms])

lemma weekly_end_time:
  assumes "timetable_ok t" "r \<in> set t" "weekly_active tz now r" "sch_endTime r = Some k"
  shows "0 \<le> k \<and> k < 86400 \<and> k mod 60 = 0 \<and> 60 * local_minute tz now < k"
proof -
  have "weekly_row_ok r"
    using timetable_rows [OF assms(1,2)] assms(3) weekly_not_one_off by (auto simp: weekly_active_def one_off_row_ok_def)
  then obtain day a b where "sch_endTime r = Some (300 * b)" "0 \<le> a" "a < b" "b < 288" by (rule weekly_row_cases)
  then show ?thesis using assms(3,4) by (auto simp: weekly_active_def sql_time_string)
qed

text \<open>The instant a schedule active at \<open>now\<close> ends.\<close>

definition schedule_end :: "(int \<Rightarrow> int) \<Rightarrow> (int \<Rightarrow> int) \<Rightarrow> int \<Rightarrow> schedule_row \<Rightarrow> int \<Rightarrow> bool" where
  "schedule_end tz utc now r x \<longleftrightarrow>
     (one_off_active now r \<and> sch_endAt r = Some x) \<or>
     (weekly_active tz now r \<and>
      (\<exists>k. sch_endTime r = Some k \<and> x = set_hours tz utc now (k div 3600) (k div 60 mod 60)))"

lemma createMachineExemption_end:
  assumes ok: "school_ok db" and c: "createMachineExemption tz utc i now inp db = Inr (e, db')"
  obtains r x where "r \<in> set (db_schedules db)" "sch_id r = cei_scheduleId inp" "sch_classroomId r = cei_classroomId inp"
    "insertOrReuseExemption i now (schedule_exemption inp x) db = Inr (e, db')" "now < x" "schedule_end tz utc now r x"
  using c
proof (cases rule: createMachineExemption_cases)
  case (1 r x)
  have "schedule_end tz utc now r x"
    using 1(6)
  proof
    assume "one_off_active now r \<and> sch_endAt r = Some x"
    then show ?thesis by (simp add: schedule_end_def)
  next
    assume w: "weekly_active tz now r \<and> (\<exists>k. sch_endTime r = Some k \<and> buildExpiresAtForScheduleEnd tz utc now (time_text k) = Inr x)"
    then obtain k where k: "sch_endTime r = Some k" "buildExpiresAtForScheduleEnd tz utc now (time_text k) = Inr x" by blast
    then have "0 \<le> k" "k < 86400" "k mod 60 = 0"
      using weekly_end_time [OF school_timetable [OF ok] 1(1)] w by blast+
    then show ?thesis using k w by (auto simp: schedule_end_def buildExpires_time_text Let_def split: if_splits)
  qed
  then show ?thesis using 1 by (intro that) auto
qed

section \<open>The stored row\<close>

lemma insertOrReuse_row:
  assumes ok: "school_ok db" and r: "insertOrReuseExemption i now inp db = Inr (e, db')"
  shows "e \<in> set (db_exemptions db')" "ex_machineId e = iei_machineId inp" "ex_scheduleId e = iei_scheduleId inp"
    "ex_source e = iei_source inp" "ex_expiresAt e = iei_expiresAt inp" "ex_groupId e = iei_groupId inp"
proof -
  have "e \<in> set (db_exemptions db') \<and> ex_machineId e = iei_machineId inp \<and> ex_scheduleId e = iei_scheduleId inp \<and>
    ex_source e = iei_source inp \<and> ex_expiresAt e = iei_expiresAt inp \<and> ex_groupId e = iei_groupId inp"
    using r
  proof (cases rule: insertOrReuse_cases)
    case (regroup e0)
    have "distinct_key ex_id (db_exemptions db)" using ok apart_ids by (auto simp: school_ok_def exemptions_ok_def)
    then have "row_by ex_id (ex_id e0) (db_exemptions db) = Some e0" using regroup(1) by (rule row_by_unique)
    then have t: "row_by ex_id (ex_id e0) (upd_by ex_id (ex_id e0) (\<lambda>e. e\<lparr>ex_groupId := iei_groupId inp\<rparr>) (db_exemptions db))
        = Some (e0\<lparr>ex_groupId := iei_groupId inp\<rparr>)" (is "row_by _ _ ?t = _")
      by (rule row_by_upd_by) simp
    have e: "e = e0\<lparr>ex_groupId := iei_groupId inp\<rparr>" unfolding regroup(7) t or_else_def by simp
    have "db_exemptions db' = ?t" unfolding regroup(8) by simp
    then show ?thesis using row_by_SomeD [OF t] regroup(2-5) unfolding e by simp
  qed (simp_all add: exemption_of_def set_ins_row)
  then show "e \<in> set (db_exemptions db')" "ex_machineId e = iei_machineId inp" "ex_scheduleId e = iei_scheduleId inp"
    "ex_source e = iei_source inp" "ex_expiresAt e = iei_expiresAt inp" "ex_groupId e = iei_groupId inp" by blast+
qed

lemma insertOrReuse_frame:
  assumes "insertOrReuseExemption i now inp db = Inr (e, db')"
  shows "db_schedules db' = db_schedules db" "db_machines db' = db_machines db" "db_classrooms db' = db_classrooms db"
    "db_groups db' = db_groups db"
  using assms by (cases rule: insertOrReuse_cases; simp)+

lemma exemption_row_unique:
  assumes "school_ok db" "e \<in> set (db_exemptions db)" "e' \<in> set (db_exemptions db)" "exemption_clash e e'"
  shows "e' = e"
proof -
  have "pairwise_apart exemption_clash (db_exemptions db)" using assms(1) by (simp add: school_ok_def exemptions_ok_def)
  then have "ex_id e = ex_id e'" and "distinct_key ex_id (db_exemptions db)"
    using exempt.apart_mem [of "db_exemptions db" e e'] apart_ids assms by blast+
  then show ?thesis using row_by_unique assms(2,3) by (metis option.inject)
qed

text \<open>Asking again for an exemption that is there changes nothing.\<close>

lemma insertOrReuse_again:
  assumes ok: "school_ok db" and e: "e \<in> set (db_exemptions db)"
    and same: "ex_machineId e = iei_machineId inp" "ex_scheduleId e = iei_scheduleId inp" "ex_source e = iei_source inp"
      "ex_expiresAt e = iei_expiresAt inp" "ex_groupId e = iei_groupId inp"
  shows "insertOrReuseExemption j now inp db = Inr (e, db)"
proof -
  let ?row = "exemption_of j now inp"
  let ?same = "\<lambda>e. ex_machineId e = iei_machineId inp \<and> ex_scheduleId e = iei_scheduleId inp \<and>
    ex_source e = iei_source inp \<and> ex_expiresAt e = iei_expiresAt inp"
  have chk: "exemption_check e" using ok e by (auto simp: school_ok_def exemptions_ok_def list_all_iff)
  then have row: "exemption_check ?row" "exemption_clash ?row e"
    using same by (auto simp: exemption_check_def exemption_clash_def exemption_of_def)
  then have clash: "list_ex (exemption_clash ?row) (db_exemptions db)" using e by (auto simp: list_ex_iff)
  obtain e' where e': "sel_first ?same (db_exemptions db) = Some e'"
    using sel_first_ex [OF e, of ?same] same by blast
  then have "e' \<in> set (db_exemptions db)" "exemption_clash e e'"
    using sel_first_SomeD [OF e'] chk same by (auto simp: exemption_clash_def exemption_check_def)
  then have "e' = e" using exemption_row_unique [OF ok e] by blast
  then show ?thesis using e' row(1) clash same by (simp add: insertOrReuseExemption_def Let_def)
qed

section \<open>Properties\<close>

lemma exempt_until:
  assumes "e \<in> set (db_exemptions db)" "ex_machineId e = m" "ex_classroomId e = c" "t < ex_expiresAt e"
  shows "isMachineExempt m c t db"
  using assms by (auto simp: isMachineExempt_def sel_first_None_iff active_for_def)

lemma createMachineExemption_classroom:
  assumes ok: "school_ok db'" and e: "e \<in> set (db_exemptions db')" "ex_scheduleId e = Some i"
    and r: "r \<in> set (db_schedules db')" "sch_id r = i"
  shows "ex_classroomId e = sch_classroomId r"
  using assms by (auto simp: school_ok_def exemptions_ok_def exemption_room_def list_all_iff)

lemma createMachineExemption_again:
  assumes ok: "school_ok db" and c: "createMachineExemption tz utc i now inp db = Inr (e, db')"
  shows "createMachineExemption tz utc j now inp db' = Inr (e, db')"
proof -
  from c obtain x where ins: "insertOrReuseExemption i now (schedule_exemption inp x) db = Inr (e, db')"
    by (cases rule: createMachineExemption_cases)
  have ok': "school_ok db'" by (rule school_ok_createMachineExemption [OF ok c])
  have again: "insertOrReuseExemption j now (schedule_exemption inp x) db' = Inr (e, db')" if
    "insertOrReuseExemption i now (schedule_exemption inp x) db = Inr (e, db')" for x
    using insertOrReuse_row [OF ok that] by (intro insertOrReuse_again [OF ok'])
  show ?thesis
    using c insertOrReuse_frame [OF ins] again
    unfolding createMachineExemption_def find_exempted_def getMachineById_def
    by (auto simp: and_then_Inr_iff split: option.splits if_splits)
qed

text \<open>An exemption made for a schedule covers its machine from then until the schedule's end, an instant
  still to come: the end of a one-off, the end time of a weekly schedule on the local day of the
  request.  Asking for it again at that moment, whatever identifier is drawn, returns the same
  exemption and changes nothing.\<close>
theorem exemption_covers_schedule:
  assumes "school_reach tz utc db" "createMachineExemption tz utc i now inp db = Inr (e, db')"
  shows "now < ex_expiresAt e \<and>
    (\<forall>t. t < ex_expiresAt e \<longrightarrow> isMachineExempt (cei_machineId inp) (cei_classroomId inp) t db') \<and>
    (\<exists>r \<in> set (db_schedules db). sch_id r = cei_scheduleId inp \<and> sch_classroomId r = cei_classroomId inp \<and>
       schedule_end tz utc now r (ex_expiresAt e)) \<and>
    createMachineExemption tz utc j now inp db' = Inr (e, db')"
proof -
  have ok: "school_ok db" by (rule school_reach_ok [OF assms(1)])
  have ok': "school_ok db'" by (rule school_ok_createMachineExemption [OF ok assms(2)])
  from ok assms(2) obtain r x where r: "r \<in> set (db_schedules db)" "sch_id r = cei_scheduleId inp"
    "sch_classroomId r = cei_classroomId inp"
    and ins: "insertOrReuseExemption i now (schedule_exemption inp x) db = Inr (e, db')" and x: "now < x" "schedule_end tz utc now r x"
    by (rule createMachineExemption_end)
  note row = insertOrReuse_row [OF ok ins, unfolded schedule_exemption_def, simplified]
  have "ex_classroomId e = cei_classroomId inp"
    using createMachineExemption_classroom [OF ok' row(1,3)] r insertOrReuse_frame(1) [OF ins] by auto
  then show ?thesis
    using row r x exempt_until [OF row(1)] createMachineExemption_again [OF ok assms(2)] by auto
qed

definition demo_exempt :: create_exemption_input where
  "demo_exempt = \<lparr>cei_machineId = ''m1'', cei_classroomId = ''lab'', cei_scheduleId = ''s1'',
     cei_createdBy = Some ''t1'', cei_groupId = None\<rparr>"

definition demo_tz :: "int \<Rightarrow> int" where
  "demo_tz d = 3600000"

definition demo_utc :: "int \<Rightarrow> int" where
  "demo_utc l = l - 3600000"

definition demo_exemption :: exemption_row where
  "demo_exemption = \<lparr>ex_id = ''e1'', ex_machineId = ''m1'', ex_classroomId = ''lab'', ex_scheduleId = Some ''s1'',
     ex_groupId = None, ex_source = ''schedule'', ex_reason = None, ex_createdBy = Some ''t1'',
     ex_createdAt = Some 375300000, ex_expiresAt = 378000000\<rparr>"

lemma demo_exemption_made:
  "createMachineExemption demo_tz demo_utc ''e1'' 375300000 demo_exempt demo_db =
     Inr (demo_exemption, demo_db\<lparr>db_exemptions := [demo_exemption]\<rparr>)"
  by code_simp

theorem exemption_covers_schedule_witness:
  "isMachineExempt ''m1'' ''lab'' 377999999 (demo_db\<lparr>db_exemptions := [demo_exemption]\<rparr>)"
proof -
  have "cei_machineId demo_exempt = ''m1''" "cei_classroomId demo_exempt = ''lab''" "ex_expiresAt demo_exemption = 378000000"
    by (simp_all add: demo_exempt_def demo_exemption_def)
  then show ?thesis
    using exemption_covers_schedule [OF demo_db_reach demo_exemption_made, of "''x''"] by auto
qed

section \<open>An exemption can be made\<close>

lemma local_end_later:
  fixes L k :: int
  assumes "60 * (L mod 86400000 div 60000) < k" "k mod 60 = 0"
  shows "L < L div 86400000 * 86400000 + (k div 3600 * 60 + k div 60 mod 60) * 60000"
proof -
  obtain q where q: "k = 60 * q" using assms(2) by auto
  have "k div 3600 = q div 60" using zdiv_zmult2_eq [of 60 k 60] by (simp add: q)
  then have "k div 3600 * 60 + k div 60 mod 60 = q" by (simp add: q)
  moreover have "L mod 86400000 div 60000 < q" using assms(1) by (simp add: q)
  then have "L mod 86400000 < q * 60000" by (simp add: div_less_iff_less_mult)
  ultimately have "L mod 86400000 < (k div 3600 * 60 + k div 60 mod 60) * 60000" by simp
  then have "L div 86400000 * 86400000 + L mod 86400000 <
      L div 86400000 * 86400000 + (k div 3600 * 60 + k div 60 mod 60) * 60000"
    by (rule add_strict_left_mono)
  then show ?thesis by (simp only: div_mult_mod_eq)
qed

lemma sel_first_key:
  "distinct_key key t \<Longrightarrow> r \<in> set t \<Longrightarrow> key r = i \<Longrightarrow> Q r \<Longrightarrow>
   sel_first (\<lambda>x. key x = i \<and> Q x \<and> P x) t = (if P r then Some r else None)"
  unfolding sel_first_def distinct_key_def by (induction t) (auto simp: find_None_iff, metis image_eqI)

lemma insertOrReuse_succeeds:
  assumes chk: "exemption_check (exemption_of i now inp)" and refs: "exemption_refs db (exemption_of i now inp)"
    and fresh: "row_by ex_id i (db_exemptions db) = None"
  shows "\<exists>e db'. insertOrReuseExemption i now inp db = Inr (e, db')"
proof (cases "list_ex (exemption_clash (exemption_of i now inp)) (db_exemptions db)")
  case True
  let ?same = "\<lambda>e. ex_machineId e = iei_machineId inp \<and> ex_scheduleId e = iei_scheduleId inp \<and>
    ex_source e = iei_source inp \<and> ex_expiresAt e = iei_expiresAt inp"
  from True obtain e where e: "e \<in> set (db_exemptions db)" "exemption_clash (exemption_of i now inp) e"
    by (auto simp: list_ex_iff)
  have "ex_id e \<noteq> i" using fresh e(1) by (auto simp: row_by_None_iff)
  then have "?same e" using e(2) by (auto simp: exemption_clash_def exemption_of_def eq_null_def split: option.splits)
  then obtain e' where "sel_first ?same (db_exemptions db) = Some e'" using sel_first_ex [OF e(1), of ?same] by blast
  then show ?thesis
    using chk refs True by (auto simp: insertOrReuseExemption_def Let_def exemption_refs_def exemption_of_def)
qed (use chk refs in \<open>simp add: insertOrReuseExemption_def Let_def\<close>)

lemma exemption_insertable:
  assumes "school_ok db" "getMachineById (cei_machineId inp) db = Some m" "mac_classroomId m = Some (cei_classroomId inp)"
    and "r \<in> set (db_schedules db)" "sch_id r = cei_scheduleId inp"
    and "fk (cei_groupId inp) (group_ids db)" "fk (cei_createdBy inp) (db_users db)"
    and "row_by ex_id i (db_exemptions db) = None"
  shows "\<exists>e db'. insertOrReuseExemption i now (schedule_exemption inp x) db = Inr (e, db')"
proof (rule insertOrReuse_succeeds [OF _ _ assms(8)])
  show "exemption_check (exemption_of i now (schedule_exemption inp x))"
    by (simp add: exemption_check_def exemption_of_def schedule_exemption_def)
  have m: "m \<in> set (db_machines db)" "mac_id m = cei_machineId inp"
    using assms(2) by (auto simp: getMachineById_def dest: row_by_SomeD)
  have "cei_machineId inp \<in> set (machine_ids db)" unfolding m(2) [symmetric] machine_ids_def using m(1) by simp
  moreover have "cei_classroomId inp \<in> set (classroom_ids db)"
    using machine_of_row [OF assms(1) m(1)] assms(3) by (simp add: machine_ok_def)
  moreover have "cei_scheduleId inp \<in> set (schedule_ids db)"
    unfolding assms(5) [symmetric] schedule_ids_def using assms(4) by simp
  ultimately show "exemption_refs db (exemption_of i now (schedule_exemption inp x))"
    using assms(6,7) by (simp add: exemption_refs_def exemption_of_def schedule_exemption_def)
qed

text \<open>A machine of a classroom can be exempted from the classroom's current schedule at any moment.  In
  a zone with a fixed offset, with a fresh identifier and existing group and teacher, the request
  for the schedule \<open>getCurrentSchedule\<close> returns succeeds, and the machine is exempt at that moment.\<close>
theorem exemption_available:
  assumes "school_reach tz utc db" "tz = (\<lambda>_. off)" "utc = (\<lambda>l. l - off)"
    and "getMachineById (cei_machineId inp) db = Some m" "mac_classroomId m = Some (cei_classroomId inp)"
    and "getCurrentSchedule tz (cei_classroomId inp) now (db_schedules db) = Some r" "sch_id r = cei_scheduleId inp"
    and "fk (cei_groupId inp) (group_ids db)" "fk (cei_createdBy inp) (db_users db)"
    and "row_by ex_id i (db_exemptions db) = None"
  shows "\<exists>e db'. createMachineExemption tz utc i now inp db = Inr (e, db') \<and>
    isMachineExempt (cei_machineId inp) (cei_classroomId inp) now db'"
proof -
  have ok: "school_ok db" by (rule school_reach_ok [OF assms(1)])
  note tt = school_timetable [OF ok]
  have r: "r \<in> set (db_schedules db)" "sch_classroomId r = cei_classroomId inp"
    "one_off_active now r \<or> weekly_active tz now r"
    using getCurrentSchedule_iff [OF tt] assms(6) by (auto simp: current_row_def)
  have ins: "\<exists>e db'. insertOrReuseExemption i now (schedule_exemption inp x) db = Inr (e, db')" for x
    by (rule exemption_insertable [OF ok assms(4,5) r(1) assms(7-10)])
  have found: "find_exempted (cei_machineId inp) (cei_classroomId inp) db = Inr m"
    using assms(4,5) by (simp add: find_exempted_def)
  have sel: "sel_first (\<lambda>r. sch_id r = cei_scheduleId inp \<and> sch_classroomId r = cei_classroomId inp \<and> P r) (db_schedules db) =
      (if P r then Some r else None)" for P
    using tt r(1,2) assms(7) by (intro sel_first_key) (simp_all add: timetable_ok_def)
  have "\<exists>e db'. createMachineExemption tz utc i now inp db = Inr (e, db')"
  proof (cases "one_off_active now r")
    case True
    then obtain x where "sch_endAt r = Some x" "now < x" by (cases "sch_endAt r") (auto simp: one_off_active_def)
    then show ?thesis using ins [of x] True found sel [of "one_off_active now"] by (simp add: createMachineExemption_def)
  next
    case False
    then have w: "weekly_active tz now r" using r(3) by simp
    obtain k where k: "sch_endTime r = Some k" using w by (cases "sch_endTime r") (auto simp: weekly_active_def)
    note k' = weekly_end_time [OF tt r(1) w k]
    let ?x = "set_hours tz utc now (k div 3600) (k div 60 mod 60)"
    have "now < ?x"
      using local_end_later [of "now + off" k] k' by (simp add: set_hours_def local_minute_def assms(2,3))
    then have "buildExpiresAtForScheduleEnd tz utc now (time_text k) = Inr ?x"
      using k' by (simp add: buildExpires_time_text Let_def)
    then show ?thesis
      using ins [of ?x] False w k found sel [of "one_off_active now"] sel [of "weekly_active tz now"]
        weekly_active_weekday [OF tt r(1) w] by (simp add: createMachineExemption_def)
  qed
  then obtain e db' where c: "createMachineExemption tz utc i now inp db = Inr (e, db')" by blast
  from ok c obtain r' x where r': "r' \<in> set (db_schedules db)" "sch_id r' = cei_scheduleId inp"
    "sch_classroomId r' = cei_classroomId inp"
    and insr: "insertOrReuseExemption i now (schedule_exemption inp x) db = Inr (e, db')" and x: "now < x"
    by (rule createMachineExemption_end)
  note row = insertOrReuse_row [OF ok insr, unfolded schedule_exemption_def, simplified]
  have "ex_classroomId e = cei_classroomId inp"
    using createMachineExemption_classroom [OF school_ok_createMachineExemption [OF ok c] row(1,3)] r'
      insertOrReuse_frame(1) [OF insr] by auto
  then show ?thesis using c row x exempt_until [OF row(1)] by blast
qed

theorem exemption_available_witness:
  "\<exists>e db'. createMachineExemption (\<lambda>_. 3600000) (\<lambda>l. l - 3600000) ''e1'' 375300000 demo_exempt demo_db = Inr (e, db') \<and>
     isMachineExempt ''m1'' ''lab'' 375300000 db'"
proof -
  have "getMachineById (cei_machineId demo_exempt) demo_db = Some demo_machine"
    "mac_classroomId demo_machine = Some (cei_classroomId demo_exempt)"
    "getCurrentSchedule (\<lambda>_. 3600000) (cei_classroomId demo_exempt) 375300000 (db_schedules demo_db) = Some demo_row"
    "sch_id demo_row = cei_scheduleId demo_exempt" "fk (cei_groupId demo_exempt) (group_ids demo_db)"
    "fk (cei_createdBy demo_exempt) (db_users demo_db)" "row_by ex_id ''e1'' (db_exemptions demo_db) = None"
    "cei_machineId demo_exempt = ''m1''" "cei_classroomId demo_exempt = ''lab''"
    by code_simp+
  then show ?thesis using exemption_available [OF demo_db_reach refl refl, of demo_exempt] by auto
qed

section \<open>The exemption in force\<close>

lemma first_of_SomeD: "first_of xs = Some x \<Longrightarrow> x \<in> set xs"
  by (cases xs) (auto simp: first_of_def)

text \<open>A machine has an exemption in force exactly when it is exempt, and one with a group is preferred.\<close>

lemma getActiveMachineExemption_group:
  "map_option ae_groupId (getActiveMachineExemption m c now db) = Some g \<Longrightarrow>
   (g \<noteq> None \<longleftrightarrow> (\<exists>e \<in> set (db_exemptions db). active_for m c now e \<and> ex_groupId e \<noteq> None)) \<and>
   (\<exists>e \<in> set (db_exemptions db). active_for m c now e \<and> ex_groupId e = g)"
proof -
  let ?rows = "sort_key (\<lambda>e. desc_key (ex_createdAt e)) (sel_where (active_for m c now) (db_exemptions db))"
  assume a: "map_option ae_groupId (getActiveMachineExemption m c now db) = Some g"
  have rows: "e \<in> set ?rows \<longleftrightarrow> e \<in> set (db_exemptions db) \<and> active_for m c now e" for e
    by (auto simp: sel_where_def)
  show ?thesis
  proof (cases "List.find (\<lambda>e. ex_groupId e \<noteq> None) ?rows")
    case (Some e)
    then have "ex_groupId e = g" using a by (simp add: getActiveMachineExemption_def Let_def)
    then show ?thesis using find_SomeD [OF Some] rows by blast
  next
    case None
    then obtain e where "first_of ?rows = Some e" "ex_groupId e = g"
      using a by (auto simp: getActiveMachineExemption_def Let_def)
    then have "e \<in> set ?rows" "ex_groupId e = g" by (auto dest: first_of_SomeD simp del: set_sort)
    then show ?thesis using None rows by (auto simp: find_None_iff)
  qed
qed

lemma getActiveMachineExemption_iff: "getActiveMachineExemption m c now db = None \<longleftrightarrow> \<not> isMachineExempt m c now db"
proof -
  let ?rows = "sort_key (\<lambda>e. desc_key (ex_createdAt e)) (sel_where (active_for m c now) (db_exemptions db))"
  have "getActiveMachineExemption m c now db = None \<longleftrightarrow> set ?rows = {}"
    by (cases ?rows) (auto simp: getActiveMachineExemption_def Let_def first_of_def split: option.splits)
  then show ?thesis
    by (auto simp: sel_where_def isMachineExempt_def sel_first_None_iff)
qed

end
