(* ===== verification/Whitelist_Export.thy ===== *)
theory Whitelist_Export
  imports Groups_Storage "HOL-Library.Multiset"
begin

text \<open>
  The whitelist file an agent downloads: \<open>exportGroup\<close> and its cache in
  \<open>api/src/lib/groups-storage.ts\<close>, and the reader and writer of the same format in
  \<open>react-spa/src/lib/openpath-parser.ts\<close>.

  The cache is a \<open>Map\<close>: the list of its entries, oldest first.  \<open>toISOString\<close> is the parameter
  \<open>toISO\<close>.  \<open>cache_coherence\<close> is the contract of a cache keyed by a version: if equal versions mean
  equal contents, then whatever the cache holds the answer is the content of the current state.
\<close>

section \<open>Exporting\<close>

definition nl :: char where
  "nl = CHR 0x0A"

definition rule_type_str :: "rule_type \<Rightarrow> string" where
  "rule_type_str ty = (case ty of Whitelist \<Rightarrow> ''whitelist'' | Blocked_subdomain \<Rightarrow> ''blocked_subdomain''
     | Blocked_path \<Rightarrow> ''blocked_path'' | Allowed_path \<Rightarrow> ''allowed_path'')"

definition flag_str :: "bool \<Rightarrow> string" where
  "flag_str b = (if b then ''1'' else ''0'')"

definition rule_version :: "api_rule \<Rightarrow> string" where
  "rule_version r = ar_id r @ '':'' @ rule_type_str (ar_type r) @ '':'' @ ar_value r @ '':'' @
     flag_str (ar_enabled r) @ '':'' @ or_else (ar_comment r) []"

definition export_version :: "(int \<Rightarrow> string) \<Rightarrow> group_meta \<Rightarrow> api_rule list \<Rightarrow> string" where
  "export_version toISO grp rules =
     toISO (gm_updatedAt grp) @ '':'' @ flag_str (gm_enabled grp) @ '':'' @
     join_with ''|'' (sort (map rule_version rules))"

definition export_section :: "string \<Rightarrow> string list \<Rightarrow> string" where
  "export_section header entries =
     (if entries = [] then [] else header @ [nl] @ concat (map (\<lambda>v. v @ [nl]) entries) @ [nl])"

definition enabled_values :: "rule_type \<Rightarrow> api_rule list \<Rightarrow> string list" where
  "enabled_values ty rules = map ar_value (filter (\<lambda>r. ar_type r = ty \<and> ar_enabled r) rules)"

definition export_content :: "group_meta \<Rightarrow> api_rule list \<Rightarrow> string" where
  "export_content grp rules =
     (if \<not> gm_enabled grp then ''#DESACTIVADO'' @ [nl]
      else js_trim (export_section ''## WHITELIST'' (enabled_values Whitelist rules) @
                    export_section ''## BLOCKED-SUBDOMAINS'' (enabled_values Blocked_subdomain rules) @
                    export_section ''## BLOCKED-PATHS'' (enabled_values Blocked_path rules) @
                    export_section ''## ALLOWED-PATHS'' (enabled_values Allowed_path rules)) @ [nl])"

record export_entry =
  ee_version :: string
  ee_content :: string

type_synonym export_cache = "(string \<times> export_entry) list"

text \<open>\<open>delete\<close> and then \<open>set\<close>: the entry moves to the end.\<close>

definition cache_put :: "string \<Rightarrow> export_entry \<Rightarrow> export_cache \<Rightarrow> export_cache" where
  "cache_put gid e c = filter (\<lambda>p. fst p \<noteq> gid) c @ [(gid, e)]"

function evict :: "nat \<Rightarrow> export_cache \<Rightarrow> export_cache" where
  "evict cmax c = (if length c > cmax then evict cmax (tl c) else c)"
  by pat_completeness auto
termination by (relation "measure (\<lambda>(m, c). length c)") auto

declare evict.simps [simp del]

definition exportGroup ::
  "(string \<Rightarrow> nat list) \<Rightarrow> (int \<Rightarrow> string) \<Rightarrow> nat \<Rightarrow> int \<Rightarrow> string \<Rightarrow> group_store \<Rightarrow> export_cache \<Rightarrow>
   string option \<times> export_cache" where
  "exportGroup ck toISO cmax now gid s cache =
     (case getGroupMetaById now gid s of
        None \<Rightarrow> (None, cache)
      | Some grp \<Rightarrow>
          (let rules = getRulesByGroup ck now gid None None s;
               version = export_version toISO grp rules;
               hit = (case map_of cache gid of Some e \<Rightarrow> if ee_version e = version then Some e else None | None \<Rightarrow> None)
           in case hit of
                Some e \<Rightarrow> (Some (ee_content e), cache_put gid e cache)
              | None \<Rightarrow>
                  (let content = export_content grp rules;
                       c = cache_put gid \<lparr>ee_version = version, ee_content = content\<rparr> cache
                   in if \<not> gm_enabled grp then (Some content, c)
                      else (Some content, evict cmax c))))"

fun export_loop ::
  "(string \<Rightarrow> nat list) \<Rightarrow> (int \<Rightarrow> string) \<Rightarrow> nat \<Rightarrow> int \<Rightarrow> group_store \<Rightarrow> group_with_counts list \<Rightarrow> export_cache \<Rightarrow>
   (string \<times> string) list \<times> export_cache" where
  "export_loop ck toISO cmax now s [] cache = ([], cache)"
| "export_loop ck toISO cmax now s (g # gs) cache =
     (case exportGroup ck toISO cmax now (gwc_id g) s cache of (content, cache1) \<Rightarrow>
        (case export_loop ck toISO cmax now s gs cache1 of (rest, cache2) \<Rightarrow>
           (case content of Some c \<Rightarrow> if c \<noteq> [] then (gwc_name g, c) # rest else rest | None \<Rightarrow> rest, cache2)))"

definition exportAllGroups ::
  "(string \<Rightarrow> nat list) \<Rightarrow> (int \<Rightarrow> string) \<Rightarrow> nat \<Rightarrow> int \<Rightarrow> group_store \<Rightarrow> export_cache \<Rightarrow>
   (string \<times> string) list \<times> export_cache" where
  "exportAllGroups ck toISO cmax now s cache = export_loop ck toISO cmax now s (getAllGroups now s) cache"

section \<open>The client's reader and writer\<close>

record group_data =
  gd_enabled :: bool
  gd_whitelist :: "string list"
  gd_blockedSubdomains :: "string list"
  gd_blockedPaths :: "string list"

datatype parser_section = Sec_whitelist | Sec_blockedSubdomains | Sec_blockedPaths

definition push_entry :: "parser_section option \<Rightarrow> string \<Rightarrow> group_data \<Rightarrow> group_data" where
  "push_entry sec e d =
     (case sec of
        None \<Rightarrow> d
      | Some Sec_whitelist \<Rightarrow> d\<lparr>gd_whitelist := gd_whitelist d @ [e]\<rparr>
      | Some Sec_blockedSubdomains \<Rightarrow> d\<lparr>gd_blockedSubdomains := gd_blockedSubdomains d @ [e]\<rparr>
      | Some Sec_blockedPaths \<Rightarrow> d\<lparr>gd_blockedPaths := gd_blockedPaths d @ [e]\<rparr>)"

definition parse_line :: "string \<Rightarrow> parser_section option \<times> group_data \<Rightarrow> parser_section option \<times> group_data" where
  "parse_line line st =
     (let trimmed = js_trim line; sec = fst st; d = snd st in
      if trimmed = [] \<or> (starts_with trimmed ''#'' \<and> \<not> starts_with trimmed ''##'') then st
      else if trimmed = ''## WHITELIST'' then (Some Sec_whitelist, d)
      else if trimmed = ''## BLOCKED-SUBDOMAINS'' then (Some Sec_blockedSubdomains, d)
      else if trimmed = ''## BLOCKED-PATHS'' then (Some Sec_blockedPaths, d)
      else if \<not> starts_with trimmed ''#'' then (sec, push_entry sec (to_lower trimmed) d)
      else st)"

definition empty_data :: group_data where
  "empty_data = \<lparr>gd_enabled = True, gd_whitelist = [], gd_blockedSubdomains = [], gd_blockedPaths = []\<rparr>"

definition parse_whitelist :: "string \<Rightarrow> group_data" where
  "parse_whitelist content =
     (if js_trim content = [] then empty_data
      else
        let lines = split_on nl content;
            disabled = (case List.find (\<lambda>l. js_trim l \<noteq> []) lines of
                          Some l \<Rightarrow> to_upper (js_trim l) = ''#DESACTIVADO'' | None \<Rightarrow> False)
        in snd (fold parse_line lines (None, empty_data\<lparr>gd_enabled := \<not> disabled\<rparr>)))"

definition serialize_whitelist :: "group_data \<Rightarrow> string" where
  "serialize_whitelist d =
     js_trim ((if \<not> gd_enabled d then ''#DESACTIVADO'' @ [nl, nl] else []) @
              export_section ''## WHITELIST'' (sort (gd_whitelist d)) @
              export_section ''## BLOCKED-SUBDOMAINS'' (sort (gd_blockedSubdomains d)) @
              export_section ''## BLOCKED-PATHS'' (sort (gd_blockedPaths d))) @ [nl]"

section \<open>Lines that count\<close>

definition effective_lines :: "string \<Rightarrow> string list" where
  "effective_lines c = filter (\<lambda>l. l \<noteq> []) (map js_trim (split_on nl c))"

lemma nl_space [simp]: "js_space nl"
  by (simp add: nl_def js_space_def)

lemma js_trim_Cons_space: "js_space x \<Longrightarrow> js_trim (x # s) = js_trim s"
  by (simp add: js_trim_def trim_left_def)

lemma js_trim_snoc_space: "js_space x \<Longrightarrow> js_trim (s @ [x]) = js_trim s"
proof (cases "\<forall>c\<in>set s. js_space c")
  case True
  assume "js_space x"
  then have "dropWhile js_space (s @ [x]) = []" "dropWhile js_space s = []"
    using True by (simp_all add: dropWhile_eq_Nil_conv)
  then show ?thesis by (simp only: js_trim_def trim_left_def)
next
  case False
  assume "js_space x"
  moreover have "dropWhile js_space (s @ [x]) = dropWhile js_space s @ [x]"
    using False by (metis dropWhile_append1)
  ultimately show ?thesis by (simp add: js_trim_def trim_left_def trim_right_def)
qed

lemma effective_Cons_space: "js_space x \<Longrightarrow> effective_lines (x # c) = effective_lines c"
  by (cases "split_on nl c") (auto simp: effective_lines_def js_trim_Cons_space)

lemma split_on_snoc:
  "split_on c (s @ [x]) =
     (if x = c then split_on c s @ [[]] else butlast (split_on c s) @ [last (split_on c s) @ [x]])"
proof (induction s)
  case (Cons y s)
  then show ?case by (cases "split_on c s") (auto split: if_splits)
qed simp

lemma effective_snoc_space: "js_space x \<Longrightarrow> effective_lines (c @ [x]) = effective_lines c"
proof -
  assume x: "js_space x"
  obtain ps p where sp: "split_on nl c = ps @ [p]"
    by (metis append_butlast_last_id split_on_not_Nil)
  show ?thesis
    by (simp add: effective_lines_def split_on_snoc sp js_trim_snoc_space [OF x])
qed

lemma effective_trim: "effective_lines (js_trim c) = effective_lines c"
proof -
  have l: "effective_lines (trim_left s) = effective_lines s" for s
    unfolding trim_left_def by (induction s) (simp_all add: effective_Cons_space)
  have "effective_lines (rev (dropWhile js_space r)) = effective_lines (rev r)" for r
    by (induction r) (simp_all add: effective_snoc_space)
  from this [of "rev s" for s] have "effective_lines (trim_right s) = effective_lines s" for s
    by (simp add: trim_right_def)
  with l show ?thesis by (simp add: js_trim_def)
qed

lemma effective_line:
  "nl \<notin> set l \<Longrightarrow> effective_lines (l @ nl # c) = (if js_trim l = [] then [] else [js_trim l]) @ effective_lines c"
  by (simp add: effective_lines_def split_on_append_sep)

lemma effective_Nil [simp]: "effective_lines [] = []"
  by (simp add: effective_lines_def)

lemma effective_empty_iff: "effective_lines c = [] \<longleftrightarrow> js_trim c = []"
proof
  assume "effective_lines c = []"
  then have e: "effective_lines (js_trim c) = []" by (simp add: effective_trim)
  show "js_trim c = []"
  proof (rule ccontr)
    assume ne: "js_trim c \<noteq> []"
    then have "\<not> js_space (hd (js_trim c))" using js_trim_trimmed by blast
    then have "js_trim (hd (split_on nl (js_trim c))) \<noteq> []"
      using ne by (cases "js_trim c") (auto simp: js_trim_def trim_left_def trim_right_def)
    moreover have "hd (split_on nl (js_trim c)) \<in> set (split_on nl (js_trim c))" by simp
    ultimately show False using e by (auto simp: effective_lines_def filter_empty_conv)
  qed
next
  assume "js_trim c = []"
  then show "effective_lines c = []" using effective_trim [of c] by simp
qed

section \<open>Reading back what was written\<close>

lemma parse_line_trim: "parse_line (js_trim l) st = parse_line l st"
  by (simp add: parse_line_def)

lemma parse_line_blank: "js_trim l = [] \<Longrightarrow> parse_line l st = st"
  by (simp add: parse_line_def)

lemma fold_effective: "fold parse_line (split_on nl c) st = fold parse_line (effective_lines c) st"
proof -
  have "fold parse_line ls st = fold parse_line (filter (\<lambda>l. l \<noteq> []) (map js_trim ls)) st" for ls st
    by (induction ls arbitrary: st) (simp_all add: parse_line_blank parse_line_trim)
  then show ?thesis by (simp add: effective_lines_def)
qed

definition disabled_mark :: "string list \<Rightarrow> bool" where
  "disabled_mark ls = (case ls of l # _ \<Rightarrow> to_upper l = ''#DESACTIVADO'' | [] \<Rightarrow> False)"

lemma find_effective:
  "(case List.find (\<lambda>l. js_trim l \<noteq> []) ls of Some l \<Rightarrow> to_upper (js_trim l) = ''#DESACTIVADO'' | None \<Rightarrow> False) =
     disabled_mark (filter (\<lambda>l. l \<noteq> []) (map js_trim ls))"
  by (induction ls) (simp_all add: disabled_mark_def)

lemma parse_alt:
  "parse_whitelist c =
     snd (fold parse_line (effective_lines c) (None, empty_data\<lparr>gd_enabled := \<not> disabled_mark (effective_lines c)\<rparr>))"
proof (cases "js_trim c = []")
  case True
  then have "effective_lines c = []" by (simp add: effective_empty_iff)
  then show ?thesis using True by (simp add: parse_whitelist_def disabled_mark_def empty_data_def)
next
  case False
  then show ?thesis
    by (simp add: parse_whitelist_def Let_def fold_effective find_effective flip: effective_lines_def)
qed

definition export_line :: "string \<Rightarrow> bool" where
  "export_line v \<longleftrightarrow> v \<noteq> [] \<and> js_trim v = v \<and> nl \<notin> set v \<and> hd v \<noteq> CHR ''#''"

lemma effective_entries:
  "list_all export_line es \<Longrightarrow> effective_lines (concat (map (\<lambda>v. v @ [nl]) es) @ c) = es @ effective_lines c"
  by (induction es) (simp_all add: effective_line export_line_def)

definition section_lines :: "string \<Rightarrow> string list \<Rightarrow> string list" where
  "section_lines h es = (if es = [] then [] else h # es)"

definition header_ok :: "string \<Rightarrow> bool" where
  "header_ok h \<longleftrightarrow> nl \<notin> set h \<and> js_trim h = h \<and> h \<noteq> []"

lemma effective_section:
  "list_all export_line es \<Longrightarrow> header_ok h \<Longrightarrow>
   effective_lines (export_section h es @ c) = section_lines h es @ effective_lines c"
  using effective_line [of "[]" c]
  by (simp add: export_section_def effective_line effective_entries header_ok_def section_lines_def)

lemma headers_ok [simp]:
  "header_ok ''## WHITELIST''" "header_ok ''## BLOCKED-SUBDOMAINS''" "header_ok ''## BLOCKED-PATHS''"
  "header_ok ''## ALLOWED-PATHS''" "header_ok ''#DESACTIVADO''"
  by code_simp+

lemma header_trim:
  "js_trim ''## WHITELIST'' = ''## WHITELIST''" "js_trim ''## BLOCKED-SUBDOMAINS'' = ''## BLOCKED-SUBDOMAINS''"
  "js_trim ''## BLOCKED-PATHS'' = ''## BLOCKED-PATHS''" "js_trim ''## ALLOWED-PATHS'' = ''## ALLOWED-PATHS''"
  "js_trim ''#DESACTIVADO'' = ''#DESACTIVADO''"
  using headers_ok by (simp_all only: header_ok_def)

lemma parse_headers:
  "parse_line ''## WHITELIST'' st = (Some Sec_whitelist, snd st)"
  "parse_line ''## BLOCKED-SUBDOMAINS'' st = (Some Sec_blockedSubdomains, snd st)"
  "parse_line ''## BLOCKED-PATHS'' st = (Some Sec_blockedPaths, snd st)"
  "parse_line ''## ALLOWED-PATHS'' st = st"
  "parse_line ''#DESACTIVADO'' st = st"
  by (simp_all add: parse_line_def Let_def starts_with_def header_trim)

lemma not_disabled:
  "\<not> disabled_mark (''## WHITELIST'' # ls)" "\<not> disabled_mark (''## BLOCKED-SUBDOMAINS'' # ls)"
  "\<not> disabled_mark (''## BLOCKED-PATHS'' # ls)" "\<not> disabled_mark (''## ALLOWED-PATHS'' # ls)"
  "disabled_mark (''#DESACTIVADO'' # ls)" "\<not> disabled_mark []"
  by (simp_all add: disabled_mark_def) (code_simp+)

definition push_all :: "parser_section option \<Rightarrow> string list \<Rightarrow> group_data \<Rightarrow> group_data" where
  "push_all sec es d =
     (case sec of
        None \<Rightarrow> d
      | Some Sec_whitelist \<Rightarrow> d\<lparr>gd_whitelist := gd_whitelist d @ map to_lower es\<rparr>
      | Some Sec_blockedSubdomains \<Rightarrow> d\<lparr>gd_blockedSubdomains := gd_blockedSubdomains d @ map to_lower es\<rparr>
      | Some Sec_blockedPaths \<Rightarrow> d\<lparr>gd_blockedPaths := gd_blockedPaths d @ map to_lower es\<rparr>)"

lemma parse_entry: "export_line e \<Longrightarrow> parse_line e (sec, d) = (sec, push_entry sec (to_lower e) d)"
proof -
  assume e: "export_line e"
  then have "\<not> starts_with e ''#''" by (cases e) (auto simp: export_line_def starts_with_def)
  moreover from this have "e \<noteq> ''## WHITELIST''" "e \<noteq> ''## BLOCKED-SUBDOMAINS''" "e \<noteq> ''## BLOCKED-PATHS''"
    by (auto simp: starts_with_def)
  ultimately show ?thesis using e by (simp add: parse_line_def export_line_def)
qed

lemma push_all_Cons: "push_all sec es (push_entry sec (to_lower e) d) = push_all sec (e # es) d"
  by (cases sec) (auto simp: push_all_def push_entry_def split: parser_section.splits)

lemma parse_entries: "list_all export_line es \<Longrightarrow> fold parse_line es (sec, d) = (sec, push_all sec es d)"
proof (induction es arbitrary: d)
  case Nil
  then show ?case by (cases sec) (auto simp: push_all_def split: parser_section.splits)
next
  case (Cons e es)
  then show ?case by (simp add: parse_entry push_all_Cons)
qed

lemma parse_sections:
  assumes "list_all export_line w" "list_all export_line b" "list_all export_line p"
  shows "snd (fold parse_line (section_lines ''## WHITELIST'' w @ section_lines ''## BLOCKED-SUBDOMAINS'' b @
           section_lines ''## BLOCKED-PATHS'' p) (None, empty_data\<lparr>gd_enabled := e\<rparr>)) =
    \<lparr>gd_enabled = e, gd_whitelist = map to_lower w, gd_blockedSubdomains = map to_lower b,
     gd_blockedPaths = map to_lower p\<rparr>"
  using assms
  by (auto simp: section_lines_def parse_headers parse_entries push_all_def empty_data_def)

lemma disabled_mark_sections:
  "\<not> disabled_mark (section_lines ''## WHITELIST'' w @ section_lines ''## BLOCKED-SUBDOMAINS'' b @
     section_lines ''## BLOCKED-PATHS'' p)"
  by (simp add: section_lines_def not_disabled)

lemma effective_file: "effective_lines (js_trim c @ [nl]) = effective_lines c"
  by (simp add: effective_snoc_space effective_trim)

lemma effective_content:
  assumes "list_all export_line w" "list_all export_line b" "list_all export_line p" "list_all export_line a"
  shows "effective_lines (export_section ''## WHITELIST'' w @ export_section ''## BLOCKED-SUBDOMAINS'' b @
      export_section ''## BLOCKED-PATHS'' p @ export_section ''## ALLOWED-PATHS'' a) =
     section_lines ''## WHITELIST'' w @ section_lines ''## BLOCKED-SUBDOMAINS'' b @
     section_lines ''## BLOCKED-PATHS'' p @ section_lines ''## ALLOWED-PATHS'' a"
proof -
  have "effective_lines (export_section ''## ALLOWED-PATHS'' a) = section_lines ''## ALLOWED-PATHS'' a"
    using effective_section [OF assms(4), of "''## ALLOWED-PATHS''" "[]"] by simp
  then show ?thesis using assms by (simp only: effective_section headers_ok)
qed

section \<open>A cache keyed by version\<close>

locale cache_coherence =
  fixes ok :: "'x \<Rightarrow> bool" and version :: "'x \<Rightarrow> 'v" and content :: "'x \<Rightarrow> 'c"
  assumes determines: "ok x \<Longrightarrow> ok y \<Longrightarrow> version x = version y \<Longrightarrow> content x = content y"
begin

text \<open>An entry is justified if some admissible state had its version and its content.\<close>

definition justified :: "'v \<times> 'c \<Rightarrow> bool" where
  "justified e \<longleftrightarrow> (\<exists>x. ok x \<and> version x = fst e \<and> content x = snd e)"

lemma hit_correct: "justified (v, c) \<Longrightarrow> ok x \<Longrightarrow> version x = v \<Longrightarrow> c = content x"
  unfolding justified_def by (metis determines fst_conv snd_conv)

lemma store_justified: "ok x \<Longrightarrow> justified (version x, content x)"
  by (auto simp: justified_def)

end

section \<open>The version of an export\<close>

definition plain_part :: "string \<Rightarrow> bool" where
  "plain_part s \<longleftrightarrow> CHR '':'' \<notin> set s \<and> CHR ''|'' \<notin> set s"

definition plain_rule :: "api_rule \<Rightarrow> bool" where
  "plain_rule r \<longleftrightarrow> plain_part (ar_id r) \<and> plain_part (ar_value r) \<and> plain_part (or_else (ar_comment r) [])"

lemma plain_flags [simp]: "plain_part (rule_type_str ty)" "plain_part (flag_str b)"
  by (cases ty; simp add: plain_part_def rule_type_str_def) (simp add: plain_part_def flag_str_def)

lemma rule_version_parts:
  assumes "plain_rule r"
  shows "split_on CHR '':'' (rule_version r) =
    [ar_id r, rule_type_str (ar_type r), ar_value r, flag_str (ar_enabled r), or_else (ar_comment r) []]"
  using assms plain_flags(1) [of "ar_type r"] plain_flags(2) [of "ar_enabled r"]
  by (simp add: rule_version_def plain_rule_def plain_part_def split_on_append_sep split_on_no)

lemma rule_type_str_inj: "rule_type_str a = rule_type_str b \<Longrightarrow> a = b"
  by (cases a; cases b) (simp_all add: rule_type_str_def)

lemma flag_str_inj: "flag_str a = flag_str b \<Longrightarrow> a = b"
  by (auto simp: flag_str_def split: if_splits)

definition rule_facts :: "api_rule \<Rightarrow> rule_type \<times> string \<times> bool" where
  "rule_facts r = (ar_type r, ar_value r, ar_enabled r)"

lemma rule_version_facts:
  "plain_rule r \<Longrightarrow> plain_rule q \<Longrightarrow> rule_version r = rule_version q \<Longrightarrow> rule_facts r = rule_facts q"
  using rule_version_parts [of r] rule_version_parts [of q]
  by (auto simp: rule_facts_def dest: rule_type_str_inj flag_str_inj)

lemma rule_version_no_bar: "plain_rule r \<Longrightarrow> CHR ''|'' \<notin> set (rule_version r)"
  using plain_flags(1) [of "ar_type r"] plain_flags(2) [of "ar_enabled r"]
  by (auto simp: rule_version_def plain_rule_def plain_part_def)

lemma rule_version_not_Nil: "rule_version r \<noteq> []"
  by (simp add: rule_version_def)

lemma join_bar_inj:
  assumes "join_with ''|'' xs = join_with ''|'' ys"
    and "\<And>x. x \<in> set xs \<union> set ys \<Longrightarrow> x \<noteq> [] \<and> CHR ''|'' \<notin> set x"
  shows "xs = ys"
proof -
  have ne: "join_with ''|'' zs = [] \<longleftrightarrow> zs = []" if "\<And>x. x \<in> set zs \<Longrightarrow> x \<noteq> []" for zs
    using that by (cases zs; cases "tl zs") auto
  show ?thesis
  proof (cases "xs = [] \<or> ys = []")
    case True
    then show ?thesis using assms ne [of xs] ne [of ys] by auto
  next
    case False
    have sp: "split_on CHR ''|'' (join_with ''|'' zs) = zs" if "zs \<noteq> []" "set zs \<subseteq> set xs \<union> set ys" for zs
    proof (rule split_on_join [OF that(1)])
      fix p assume "p \<in> set zs"
      then show "CHR ''|'' \<notin> set p" using assms(2) [of p] that(2) by blast
    qed
    have "xs = split_on CHR ''|'' (join_with ''|'' xs)" using sp [of xs] False by simp
    also have "\<dots> = ys" unfolding assms(1) using sp [of ys] False by simp
    finally show ?thesis .
  qed
qed

definition part_values :: "rule_type \<Rightarrow> string list \<Rightarrow> string list" where
  "part_values ty vs = map (\<lambda>v. split_on CHR '':'' v ! 2)
     (filter (\<lambda>v. split_on CHR '':'' v ! 1 = rule_type_str ty \<and> split_on CHR '':'' v ! 3 = ''1'') vs)"

lemma enabled_values_parts:
  "list_all plain_rule rules \<Longrightarrow> enabled_values ty rules = part_values ty (map rule_version rules)"
proof (induction rules)
  case (Cons r rules)
  then have "split_on CHR '':'' (rule_version r) =
    [ar_id r, rule_type_str (ar_type r), ar_value r, flag_str (ar_enabled r), or_else (ar_comment r) []]"
    by (simp add: rule_version_parts)
  moreover have "rule_type_str (ar_type r) = rule_type_str ty \<longleftrightarrow> ar_type r = ty"
    using rule_type_str_inj by auto
  moreover have "flag_str (ar_enabled r) = ''1'' \<longleftrightarrow> ar_enabled r" by (simp add: flag_str_def)
  ultimately show ?case using Cons by (simp add: enabled_values_def part_values_def)
qed (simp add: enabled_values_def part_values_def)

lemma mset_part_values: "mset vs = mset ws \<Longrightarrow> mset (part_values ty vs) = mset (part_values ty ws)"
  by (simp add: part_values_def mset_filter mset_map)

lemma sorted_by_inj_key:
  fixes ck :: "string \<Rightarrow> nat list"
  assumes "inj ck" "mset xs = mset ys" "sorted (map ck xs)" "sorted (map ck ys)"
  shows "xs = ys"
proof -
  have "mset (map ck xs) = mset (map ck ys)" using assms(2) by simp
  then have "map ck xs = map ck ys" using assms(3,4) by (metis properties_for_sort)
  then show ?thesis using assms(1) by (simp add: inj_map_eq_map)
qed

lemma sorted_enabled_values:
  "sorted (map (\<lambda>r. ck (ar_value r)) rules) \<Longrightarrow> sorted (map ck (enabled_values ty rules))"
  unfolding enabled_values_def map_map comp_def
  by (rule sorted_filter)

definition export_ok :: "(string \<Rightarrow> nat list) \<Rightarrow> (int \<Rightarrow> string) \<Rightarrow> group_meta \<times> api_rule list \<Rightarrow> bool" where
  "export_ok ck toISO x \<longleftrightarrow>
     inj ck \<and> (\<forall>d. length (toISO d) = 24) \<and> list_all plain_rule (snd x) \<and>
     sorted (map (\<lambda>r. ck (ar_value r)) (snd x))"

lemma export_version_determines:
  assumes "export_ok ck toISO x" "export_ok ck toISO y"
    and "export_version toISO (fst x) (snd x) = export_version toISO (fst y) (snd y)"
  shows "export_content (fst x) (snd x) = export_content (fst y) (snd y)"
proof -
  have len: "length (toISO a) = length (toISO b)" for a b
    using assms(1) by (simp add: export_ok_def)
  have e: "flag_str (gm_enabled (fst x)) @ '':'' @ join_with ''|'' (sort (map rule_version (snd x))) =
      flag_str (gm_enabled (fst y)) @ '':'' @ join_with ''|'' (sort (map rule_version (snd y)))"
    using assms(3) len by (simp add: export_version_def)
  then have en: "gm_enabled (fst x) = gm_enabled (fst y)"
    by (auto simp: flag_str_def split: if_splits)
  with e have j: "join_with ''|'' (sort (map rule_version (snd x))) = join_with ''|'' (sort (map rule_version (snd y)))"
    by simp
  have p: "list_all plain_rule (snd x)" "list_all plain_rule (snd y)"
    using assms by (simp_all add: export_ok_def)
  have "sort (map rule_version (snd x)) = sort (map rule_version (snd y))"
    by (rule join_bar_inj [OF j])
      (use p rule_version_no_bar rule_version_not_Nil in \<open>auto simp: list_all_iff\<close>)
  then have "mset (map rule_version (snd x)) = mset (map rule_version (snd y))"
    by (metis mset_sort)
  then have "mset (enabled_values ty (snd x)) = mset (enabled_values ty (snd y))" for ty
    using p mset_part_values by (simp add: enabled_values_parts)
  then have "enabled_values ty (snd x) = enabled_values ty (snd y)" for ty
    using assms(1,2) sorted_by_inj_key sorted_enabled_values unfolding export_ok_def by blast
  then show ?thesis by (simp add: export_content_def en)
qed

interpretation export: cache_coherence "export_ok ck toISO" "\<lambda>x. export_version toISO (fst x) (snd x)"
    "\<lambda>x. export_content (fst x) (snd x)" for ck toISO
  by unfold_locales (rule export_version_determines)

definition cache_justified :: "(string \<Rightarrow> nat list) \<Rightarrow> (int \<Rightarrow> string) \<Rightarrow> export_cache \<Rightarrow> bool" where
  "cache_justified ck toISO c \<longleftrightarrow>
     (\<forall>p \<in> set c. export.justified ck toISO (ee_version (snd p), ee_content (snd p)))"

definition plain_store :: "group_store \<Rightarrow> bool" where
  "plain_store s \<longleftrightarrow> list_all (\<lambda>r. plain_rule (dbRuleToApi 0 r)) (gs_rules s)"

lemma evict_subset: "set (evict n c) \<subseteq> set c"
proof (induction n c rule: evict.induct)
  case (1 n c)
  then show ?case
    by (subst evict.simps) (cases c; auto)
qed

lemma length_evict: "length (evict n c) = min n (length c)"
proof (induction n c rule: evict.induct)
  case (1 n c)
  then show ?case by (subst evict.simps) auto
qed

lemma cache_put_justified:
  "cache_justified ck toISO c \<Longrightarrow> export.justified ck toISO (ee_version e, ee_content e) \<Longrightarrow>
   cache_justified ck toISO (cache_put gid e c)"
  by (auto simp: cache_justified_def cache_put_def)

lemma export_state_ok:
  assumes "inj ck" "\<forall>d. length (toISO d) = 24" "plain_store s"
  shows "export_ok ck toISO (grp, getRulesByGroup ck now gid None None s)"
proof -
  have "plain_rule (dbRuleToApi now r) = plain_rule (dbRuleToApi 0 r)" for r
    by (simp add: plain_rule_def dbRuleToApi_def)
  then have "list_all plain_rule (getRulesByGroup ck now gid None None s)"
    using assms(3) by (auto simp: plain_store_def list_all_iff getRulesByGroup_def filterRulesByEnabled_def
        listRuleRowsByGroup_def sel_where_def)
  moreover have "sorted (map (\<lambda>r. ck (ar_value r)) (getRulesByGroup ck now gid None None s))"
    by (simp add: getRulesByGroup_def)
  ultimately show ?thesis using assms by (simp add: export_ok_def)
qed

text \<open>The caches that exports can build, with the store changing arbitrarily in between.\<close>

inductive cache_reach :: "(string \<Rightarrow> nat list) \<Rightarrow> (int \<Rightarrow> string) \<Rightarrow> nat \<Rightarrow> export_cache \<Rightarrow> bool"
  for ck :: "string \<Rightarrow> nat list" and toISO :: "int \<Rightarrow> string" and cmax :: nat where
  start: "cache_reach ck toISO cmax []"
| export: "cache_reach ck toISO cmax c \<Longrightarrow> plain_store s \<Longrightarrow>
    cache_reach ck toISO cmax (snd (exportGroup ck toISO cmax now gid s c))"

lemma exportGroup_spec:
  assumes "inj ck" "\<forall>d. length (toISO d) = 24" "plain_store s" "cache_justified ck toISO c"
  shows "fst (exportGroup ck toISO cmax now gid s c) =
      map_option (\<lambda>g. export_content g (getRulesByGroup ck now gid None None s)) (getGroupMetaById now gid s)"
    and "cache_justified ck toISO (snd (exportGroup ck toISO cmax now gid s c))"
proof -
  let ?rules = "getRulesByGroup ck now gid None None s"
  have ok: "export_ok ck toISO (g, ?rules)" for g
    using export_state_ok [OF assms(1-3)] .
  have hit: "ee_content e = export_content g ?rules"
    if "map_of c gid = Some e" "ee_version e = export_version toISO g ?rules" for g e
  proof -
    have "export.justified ck toISO (ee_version e, ee_content e)"
      using assms(4) map_of_SomeD [OF that(1)] by (auto simp: cache_justified_def)
    from export.hit_correct [OF this ok [of g]] show ?thesis using that by simp
  qed
  have just: "export.justified ck toISO (export_version toISO g ?rules, export_content g ?rules)" for g
    using export.store_justified [OF ok [of g]] by simp
  have ev: "cache_justified ck toISO d \<Longrightarrow> cache_justified ck toISO (evict cmax d)" for d
    using evict_subset by (fastforce simp: cache_justified_def)
  show "fst (exportGroup ck toISO cmax now gid s c) =
      map_option (\<lambda>g. export_content g ?rules) (getGroupMetaById now gid s)"
    using hit by (auto simp: exportGroup_def Let_def split: option.splits)
  show "cache_justified ck toISO (snd (exportGroup ck toISO cmax now gid s c))"
    using assms(4) hit just
    by (auto simp: exportGroup_def Let_def split: option.splits intro!: ev cache_put_justified)
qed

lemma cache_reach_justified:
  "cache_reach ck toISO cmax c \<Longrightarrow> inj ck \<Longrightarrow> \<forall>d. length (toISO d) = 24 \<Longrightarrow> cache_justified ck toISO c"
proof (induction rule: cache_reach.induct)
  case start
  then show ?case by (simp add: cache_justified_def)
next
  case (export c s now gid)
  show ?case
    by (rule exportGroup_spec(2)) (use export in simp_all)
qed

section \<open>Properties\<close>

text \<open>C17: the export cache is transparent.  However exports and changes of the store are interleaved, an
  export returns the content computed from the current rules, provided the collation tells
  different values apart, ISO dates have 24 characters, and identifiers, values and comments
  contain neither colons nor bars (the version string joins them with these).\<close>
theorem exportGroup_cache_transparent:
  assumes "inj ck" "\<forall>d. length (toISO d) = 24" "cache_reach ck toISO cmax c" "plain_store s"
  shows "fst (exportGroup ck toISO cmax now gid s c) =
    map_option (\<lambda>g. export_content g (getRulesByGroup ck now gid None None s)) (getGroupMetaById now gid s)"
  by (rule exportGroup_spec(1)) (use assms cache_reach_justified in simp_all)

definition demo_iso :: "int \<Rightarrow> string" where
  "demo_iso d = replicate 24 CHR ''0''"

lemma inj_code_unit_key: "inj code_unit_key"
proof (rule injI)
  fix x y assume "code_unit_key x = code_unit_key y"
  moreover have "inj (of_char :: char \<Rightarrow> nat)" by (auto intro: injI)
  ultimately show "x = y" unfolding code_unit_key_def by (simp add: inj_map_eq_map)
qed

theorem exportGroup_cache_transparent_witness:
  "fst (exportGroup code_unit_key demo_iso 1 8 ''g1'' demo_store
      (snd (exportGroup code_unit_key demo_iso 1 8 ''g1'' demo_store []))) =
   Some (''## BLOCKED-SUBDOMAINS'' @ [nl] @ ''ads.example.com'' @ [nl])"
proof -
  have p: "plain_store demo_store" by code_simp
  have "cache_reach code_unit_key demo_iso 1 (snd (exportGroup code_unit_key demo_iso 1 8 ''g1'' demo_store []))"
    by (rule cache_reach.export [OF cache_reach.start p])
  from exportGroup_cache_transparent [OF inj_code_unit_key _ this p, of 8 "''g1''"]
  have "fst (exportGroup code_unit_key demo_iso 1 8 ''g1'' demo_store
      (snd (exportGroup code_unit_key demo_iso 1 8 ''g1'' demo_store []))) =
    map_option (\<lambda>g. export_content g (getRulesByGroup code_unit_key 8 ''g1'' None None demo_store))
      (getGroupMetaById 8 ''g1'' demo_store)"
    by (simp add: demo_iso_def)
  also have "\<dots> = Some (''## BLOCKED-SUBDOMAINS'' @ [nl] @ ''ads.example.com'' @ [nl])"
    by code_simp
  finally show ?thesis .
qed

text \<open>C18: the client reads back what the server exports.  For an enabled group whose enabled rules are
  single trimmed lines that do not start with \<open>#\<close> and include no allowed path, the parsed file
  has exactly the enabled values of each type, lower-cased, in the order of the export; the file
  of a disabled group reads as disabled and empty.\<close>
theorem export_parse:
  assumes "\<And>ty. list_all export_line (enabled_values ty rules)" "enabled_values Allowed_path rules = []"
  shows "parse_whitelist (export_content grp rules) =
    (if gm_enabled grp
     then \<lparr>gd_enabled = True, gd_whitelist = map to_lower (enabled_values Whitelist rules),
           gd_blockedSubdomains = map to_lower (enabled_values Blocked_subdomain rules),
           gd_blockedPaths = map to_lower (enabled_values Blocked_path rules)\<rparr>
     else empty_data\<lparr>gd_enabled := False\<rparr>)"
proof (cases "gm_enabled grp")
  case True
  have "effective_lines (export_content grp rules) =
      section_lines ''## WHITELIST'' (enabled_values Whitelist rules) @
      section_lines ''## BLOCKED-SUBDOMAINS'' (enabled_values Blocked_subdomain rules) @
      section_lines ''## BLOCKED-PATHS'' (enabled_values Blocked_path rules)"
    using True effective_content [OF assms(1) assms(1) assms(1) assms(1), of Whitelist Blocked_subdomain Blocked_path Allowed_path]
    by (simp add: export_content_def effective_file assms(2) section_lines_def)
  then show ?thesis
    using True assms(1) parse_sections [of "enabled_values Whitelist rules" "enabled_values Blocked_subdomain rules"
        "enabled_values Blocked_path rules" True]
    by (simp only: parse_alt disabled_mark_sections if_True not_False_eq_True)
next
  case False
  have "effective_lines (export_content grp rules) = [''#DESACTIVADO'']"
    using False effective_line [of "''#DESACTIVADO''" "[]"] headers_ok(5)
    by (simp add: export_content_def header_trim header_ok_def)
  then show ?thesis
    using False by (simp add: parse_alt not_disabled parse_headers)
qed

theorem export_parse_witness:
  "parse_whitelist (export_content (dbGroupToMeta 0 demo_group) [dbRuleToApi 0 demo_rule]) =
     \<lparr>gd_enabled = True, gd_whitelist = [], gd_blockedSubdomains = [''ads.example.com''], gd_blockedPaths = []\<rparr>"
proof -
  have v: "enabled_values ty [dbRuleToApi 0 demo_rule] = (if ty = Blocked_subdomain then [''ads.example.com''] else [])" for ty
    by (simp add: enabled_values_def dbRuleToApi_def demo_rule_def)
  have l: "export_line ''ads.example.com''" by code_simp
  have "to_lower ''ads.example.com'' = ''ads.example.com''" by code_simp
  then show ?thesis
    using export_parse [of "[dbRuleToApi 0 demo_rule]" "dbGroupToMeta 0 demo_group"]
    by (simp add: v l dbGroupToMeta_def demo_group_def)
qed

text \<open>The client's writer and reader are inverse on data whose entries are single trimmed lower-case
  lines that do not start with \<open>#\<close>, up to the sorting the writer does.\<close>
theorem serialize_parse:
  assumes "list_all (\<lambda>e. export_line e \<and> to_lower e = e) (gd_whitelist d @ gd_blockedSubdomains d @ gd_blockedPaths d)"
  shows "parse_whitelist (serialize_whitelist d) =
    d\<lparr>gd_whitelist := sort (gd_whitelist d), gd_blockedSubdomains := sort (gd_blockedSubdomains d),
      gd_blockedPaths := sort (gd_blockedPaths d)\<rparr>"
proof -
  let ?w = "sort (gd_whitelist d)" and ?b = "sort (gd_blockedSubdomains d)" and ?p = "sort (gd_blockedPaths d)"
  let ?ls = "section_lines ''## WHITELIST'' ?w @ section_lines ''## BLOCKED-SUBDOMAINS'' ?b @
    section_lines ''## BLOCKED-PATHS'' ?p"
  have lines: "list_all export_line ?w" "list_all export_line ?b" "list_all export_line ?p" "list_all export_line []"
    using assms by (simp_all add: list_all_iff)
  have low: "map to_lower ?w = ?w" "map to_lower ?b = ?b" "map to_lower ?p = ?p"
    using assms by (auto simp: list_all_iff intro!: map_idI)
  have body: "effective_lines (export_section ''## WHITELIST'' ?w @ export_section ''## BLOCKED-SUBDOMAINS'' ?b @
      export_section ''## BLOCKED-PATHS'' ?p) = ?ls"
    using effective_content [OF lines] by (simp add: section_lines_def export_section_def)
  have mark: "effective_lines (''#DESACTIVADO'' @ [nl, nl] @ c) = ''#DESACTIVADO'' # effective_lines c" for c
    using effective_line [of "''#DESACTIVADO''" "nl # c"] effective_Cons_space [of nl c] headers_ok(5)
    by (simp add: header_trim header_ok_def)
  have "effective_lines (serialize_whitelist d) = (if gd_enabled d then ?ls else ''#DESACTIVADO'' # ?ls)"
    using mark body by (simp add: serialize_whitelist_def effective_file)
  then have "parse_whitelist (serialize_whitelist d) =
      snd (fold parse_line ?ls (None, empty_data\<lparr>gd_enabled := gd_enabled d\<rparr>))"
    by (cases "gd_enabled d")
      (simp_all only: parse_alt disabled_mark_sections not_disabled parse_headers fold_simps if_True if_False not_False_eq_True not_True_eq_False)
  then show ?thesis
    unfolding parse_sections [OF lines(1-3)] low by simp
qed

theorem serialize_parse_witness:
  "parse_whitelist (serialize_whitelist \<lparr>gd_enabled = False, gd_whitelist = [''b.com'', ''a.com''],
      gd_blockedSubdomains = [], gd_blockedPaths = [''a.com/x'']\<rparr>) =
   \<lparr>gd_enabled = False, gd_whitelist = [''a.com'', ''b.com''], gd_blockedSubdomains = [], gd_blockedPaths = [''a.com/x'']\<rparr>"
proof -
  have "list_all (\<lambda>e. export_line e \<and> to_lower e = e) ([''b.com'', ''a.com''] @ [] @ [''a.com/x''])"
    "sort [''b.com'', ''a.com''] = [''a.com'', ''b.com'']"
    by code_simp+
  then show ?thesis
    using serialize_parse [of "\<lparr>gd_enabled = False, gd_whitelist = [''b.com'', ''a.com''],
      gd_blockedSubdomains = [], gd_blockedPaths = [''a.com/x'']\<rparr>"] by simp
qed

section \<open>Observations\<close>

text \<open>The client's parser does not know the section of allowed paths: an exported allowed path is
  read as an entry of the section before it.\<close>

lemma allowed_path_read_as_blocked:
  "gd_blockedPaths (parse_whitelist (export_content (dbGroupToMeta 0 demo_group)
     (map (dbRuleToApi 0) [demo_rule\<lparr>rul_type := Blocked_path, rul_value := ''a.com/x''\<rparr>,
                           demo_rule\<lparr>rul_type := Allowed_path, rul_value := ''a.com/y''\<rparr>]))) =
   [''a.com/x'', ''a.com/y'']"
  by code_simp

text \<open>Disabled groups are put in the cache without evicting, so the cache outgrows its bound.\<close>

lemma export_cache_outgrows_bound:
  "length (snd (exportAllGroups code_unit_key demo_iso 1 0
      \<lparr>gs_groups = [demo_group\<lparr>grp_enabled := 0\<rparr>, demo_group\<lparr>grp_enabled := 0, grp_id := ''g2''\<rparr>], gs_rules = []\<rparr> [])) = 2"
  by code_simp

text \<open>A comment can make the version of one rule equal to that of two.\<close>

lemma export_version_collision:
  "export_version demo_iso grp [dbRuleToApi 0 (demo_rule\<lparr>rul_comment := Some ''c|r2:whitelist:b.com:1:''\<rparr>)] =
   export_version demo_iso grp [dbRuleToApi 0 (demo_rule\<lparr>rul_comment := Some ''c''\<rparr>),
     dbRuleToApi 0 (demo_rule\<lparr>rul_id := ''r2'', rul_type := Whitelist, rul_value := ''b.com''\<rparr>)]"
proof -
  have "join_with ''|'' (sort (map rule_version [dbRuleToApi 0 (demo_rule\<lparr>rul_comment := Some ''c|r2:whitelist:b.com:1:''\<rparr>)])) =
    join_with ''|'' (sort (map rule_version [dbRuleToApi 0 (demo_rule\<lparr>rul_comment := Some ''c''\<rparr>),
     dbRuleToApi 0 (demo_rule\<lparr>rul_id := ''r2'', rul_type := Whitelist, rul_value := ''b.com''\<rparr>)]))"
    by code_simp
  then show ?thesis by (simp only: export_version_def)
qed

end
