(* ===== verification/Machine_Policy.thy ===== *)
theory Machine_Policy
  imports Exemption_Rules Whitelist_Export
begin

text \<open>
  Which policy a machine gets and how it is delivered: \<open>api/src/lib/classroom-storage-shared.ts\<close>,
  \<open>classroom-storage-policy.ts\<close>, \<open>server-request-machine-auth.ts\<close>, the entity tags of
  \<open>server-asset-http.ts\<close> and \<open>api/src/services/machine-policy.service.ts\<close>.

  The digests are parameters: \<open>sha_hex\<close> and \<open>sha_url\<close> are SHA-256 in hexadecimal and in base64url.
  Each handler runs as one step on the tables and on the export cache.
\<close>

section \<open>Machines by name\<close>

definition toMachineDisplayHostname :: "machine_row \<Rightarrow> string" where
  "toMachineDisplayHostname machine = or_else (map_option js_trim (mac_reportedHostname machine)) (mac_hostname machine)"

definition buildMachineKey :: "(string \<Rightarrow> string) \<Rightarrow> string \<Rightarrow> string \<Rightarrow> string" where
  "buildMachineKey sha_hex classroomId reportedHostname =
     (let normalizedHostname = to_lower (js_trim reportedHostname);
          cut = take 220 (sanitizeSlug normalizedHostname 100 True);
          safeHostname = (if cut = [] then ''machine'' else cut)
      in safeHostname @ ''--'' @ take 12 (sha_hex classroomId))"

definition normalizeWindowsMachineHostname :: "string \<Rightarrow> string" where
  "normalizeWindowsMachineHostname hostname =
     drop_edges CHR ''-'' (replace_runs (\<lambda>c. c = CHR ''-'') ''-''
       (replace_runs (\<lambda>c. \<not> (lower_alpha_char c \<or> digit_char c \<or> c = CHR ''-'')) ''-'' (to_lower (js_trim hostname))))"

definition machineHostnameMatches :: "machine_row \<Rightarrow> string \<Rightarrow> bool" where
  "machineHostnameMatches machine hostname =
     (let candidate = to_lower (js_trim hostname);
          persisted = to_lower (js_trim (mac_hostname machine));
          reported = map_option (\<lambda>h. to_lower (js_trim h)) (mac_reportedHostname machine)
      in if candidate = [] then False
         else if candidate = persisted \<or> Some candidate = reported then True
         else includes_str persisted ''--'' \<and> candidate = normalizeWindowsMachineHostname persisted)"

section \<open>Scopes and contexts\<close>

datatype policy_mode = Grouped | Unrestricted

datatype policy_reason = PR_source current_group_source | PR_exemption

record policy_context =
  epc_classroomId :: string
  epc_classroomName :: string
  epc_groupId :: "string option"
  epc_mode :: policy_mode
  epc_reason :: policy_reason

record policy_scope =
  cps_classroomId :: string
  cps_classroomName :: string
  cps_classroomDisplayName :: string
  cps_defaultGroupId :: "string option"
  cps_activeGroupId :: "string option"
  cps_currentGroupId :: "string option"
  cps_currentGroupSource :: current_group_source
  cps_mode :: policy_mode

record whitelist_url_result =
  wur_groupId :: string
  wur_classroomId :: string
  wur_classroomName :: string

definition buildClassroomPolicyScope :: "classroom_row \<Rightarrow> string option \<Rightarrow> policy_scope" where
  "buildClassroomPolicyScope classroom scheduleGroupId =
     (let currentGroup = resolveCurrentGroup (cls_activeGroupId classroom) scheduleGroupId (cls_defaultGroupId classroom)
      in \<lparr>cps_classroomId = cls_id classroom, cps_classroomName = cls_name classroom,
          cps_classroomDisplayName = cls_displayName classroom, cps_defaultGroupId = cls_defaultGroupId classroom,
          cps_activeGroupId = cls_activeGroupId classroom, cps_currentGroupId = fst currentGroup,
          cps_currentGroupSource = snd currentGroup,
          cps_mode = (if fst currentGroup = None then Unrestricted else Grouped)\<rparr>)"

definition toEffectivePolicyContext :: "policy_scope \<Rightarrow> policy_context" where
  "toEffectivePolicyContext scope =
     \<lparr>epc_classroomId = cps_classroomId scope, epc_classroomName = cps_classroomName scope,
      epc_groupId = cps_currentGroupId scope, epc_mode = cps_mode scope,
      epc_reason = PR_source (cps_currentGroupSource scope)\<rparr>"

definition serializePolicyGroupId :: "policy_context \<Rightarrow> string option" where
  "serializePolicyGroupId context =
     (if epc_mode context = Unrestricted then Some UNRESTRICTED_GROUP_ID else epc_groupId context)"

definition toLegacyWhitelistUrlResult :: "policy_context \<Rightarrow> whitelist_url_result" where
  "toLegacyWhitelistUrlResult context =
     \<lparr>wur_groupId = or_else (serializePolicyGroupId context) [], wur_classroomId = epc_classroomId context,
      wur_classroomName = epc_classroomName context\<rparr>"

record api_machine =
  am_id :: string
  am_hostname :: string
  am_classroomId :: "string option"
  am_version :: "string option"
  am_lastSeen :: "string option"
  am_status :: string

record api_classroom =
  ac_id :: string
  ac_name :: string
  ac_displayName :: string
  ac_captivePortalDomains :: "string list"
  ac_machines :: "api_machine list"
  ac_createdAt :: string
  ac_updatedAt :: string
  ac_defaultGroupId :: "string option"
  ac_activeGroupId :: "string option"

definition toClassroomType :: "(int \<Rightarrow> string) \<Rightarrow> int \<Rightarrow> classroom_row \<Rightarrow> machine_row list \<Rightarrow> api_classroom" where
  "toClassroomType toISO now classroom machineList =
     \<lparr>ac_id = cls_id classroom, ac_name = cls_name classroom, ac_displayName = cls_displayName classroom,
      ac_captivePortalDomains = cls_captivePortalDomains classroom,
      ac_machines = map (\<lambda>m. \<lparr>am_id = mac_id m, am_hostname = toMachineDisplayHostname m, am_classroomId = mac_classroomId m,
                               am_version = mac_version m, am_lastSeen = map_option toISO (mac_lastSeen m),
                               am_status = ''unknown''\<rparr>) machineList,
      ac_createdAt = toISO (or_else (cls_createdAt classroom) now), ac_updatedAt = toISO (or_else (cls_updatedAt classroom) now),
      ac_defaultGroupId = cls_defaultGroupId classroom, ac_activeGroupId = cls_activeGroupId classroom\<rparr>"

section \<open>Resolving the policy\<close>

definition resolveClassroomPolicyScopeForRecord :: "(int \<Rightarrow> int) \<Rightarrow> classroom_row \<Rightarrow> int \<Rightarrow> school_db \<Rightarrow> policy_scope" where
  "resolveClassroomPolicyScopeForRecord tz classroom now db =
     buildClassroomPolicyScope classroom
       (map_option sch_groupId (getCurrentSchedule tz (cls_id classroom) now (db_schedules db)))"

definition resolveClassroomPolicyScope :: "(int \<Rightarrow> int) \<Rightarrow> string \<Rightarrow> int \<Rightarrow> school_db \<Rightarrow> policy_scope option" where
  "resolveClassroomPolicyScope tz classroomId now db =
     map_option (\<lambda>classroom. resolveClassroomPolicyScopeForRecord tz classroom now db) (getClassroomById classroomId db)"

text \<open>\<open>new Map(entries)\<close>: a repeated key keeps its place and takes the later value.\<close>

definition map_put :: "'k \<Rightarrow> 'v \<Rightarrow> ('k \<times> 'v) list \<Rightarrow> ('k \<times> 'v) list" where
  "map_put k v m = (if map_of m k = None then m @ [(k, v)] else map (\<lambda>p. if fst p = k then (k, v) else p) m)"

definition js_map :: "('k \<times> 'v) list \<Rightarrow> ('k \<times> 'v) list" where
  "js_map es = fold (\<lambda>(k, v). map_put k v) es []"

definition resolveClassroomPolicyScopesForClassrooms ::
  "(int \<Rightarrow> int) \<Rightarrow> classroom_row list \<Rightarrow> int \<Rightarrow> school_db \<Rightarrow> (string \<times> policy_scope) list" where
  "resolveClassroomPolicyScopesForClassrooms tz classroomRecords now db =
     (let normalized = filter (\<lambda>c. length (cls_id c) > 0) classroomRecords;
          scheduleMap = getCurrentSchedulesByClassroomIds tz (map cls_id normalized) now (db_schedules db)
      in js_map (map (\<lambda>c. (cls_id c, buildClassroomPolicyScope c (map_option sch_groupId (map_of scheduleMap (cls_id c)))))
           normalized))"

definition resolveEffectiveClassroomPolicyContext :: "(int \<Rightarrow> int) \<Rightarrow> string \<Rightarrow> int \<Rightarrow> school_db \<Rightarrow> policy_context option" where
  "resolveEffectiveClassroomPolicyContext tz classroomId now db =
     map_option toEffectivePolicyContext (resolveClassroomPolicyScope tz classroomId now db)"

text \<open>The machine, its classroom's identifier when there is one and it is not empty, and the classroom.\<close>

definition machine_classroom :: "string \<Rightarrow> school_db \<Rightarrow> (machine_row \<times> string \<times> classroom_row) option" where
  "machine_classroom hostname db =
     (case getMachineByHostname hostname db of
        None \<Rightarrow> None
      | Some machine \<Rightarrow>
          (case mac_classroomId machine of
             None \<Rightarrow> None
           | Some classroomId \<Rightarrow>
               if classroomId = [] then None
               else map_option (\<lambda>classroom. (machine, classroomId, classroom)) (getClassroomById classroomId db)))"

definition resolveEffectiveMachinePolicyContext :: "(int \<Rightarrow> int) \<Rightarrow> string \<Rightarrow> int \<Rightarrow> school_db \<Rightarrow> policy_context option" where
  "resolveEffectiveMachinePolicyContext tz hostname now db =
     (case machine_classroom hostname db of
        None \<Rightarrow> None
      | Some (_, _, classroom) \<Rightarrow>
          Some (toEffectivePolicyContext (resolveClassroomPolicyScopeForRecord tz classroom now db)))"

definition resolveEffectiveMachineEnforcementPolicyContext ::
  "(int \<Rightarrow> int) \<Rightarrow> string \<Rightarrow> int \<Rightarrow> school_db \<Rightarrow> policy_context option" where
  "resolveEffectiveMachineEnforcementPolicyContext tz hostname now db =
     (case machine_classroom hostname db of
        None \<Rightarrow> None
      | Some (machine, classroomId, classroom) \<Rightarrow>
          (case getActiveMachineExemption (mac_id machine) classroomId now db of
             Some active \<Rightarrow>
               if present (ae_groupId active) then
                 Some \<lparr>epc_classroomId = cls_id classroom, epc_classroomName = cls_name classroom,
                       epc_groupId = ae_groupId active, epc_mode = Grouped, epc_reason = PR_exemption\<rparr>
               else
                 Some \<lparr>epc_classroomId = cls_id classroom, epc_classroomName = cls_name classroom,
                       epc_groupId = None, epc_mode = Unrestricted, epc_reason = PR_exemption\<rparr>
           | None \<Rightarrow> Some (toEffectivePolicyContext (resolveClassroomPolicyScopeForRecord tz classroom now db))))"

definition resolveMachineGroupContext :: "(int \<Rightarrow> int) \<Rightarrow> string \<Rightarrow> int \<Rightarrow> school_db \<Rightarrow> whitelist_url_result option" where
  "resolveMachineGroupContext tz hostname now db =
     map_option toLegacyWhitelistUrlResult (resolveEffectiveMachinePolicyContext tz hostname now db)"

definition resolveMachineEnforcementContext :: "(int \<Rightarrow> int) \<Rightarrow> string \<Rightarrow> int \<Rightarrow> school_db \<Rightarrow> whitelist_url_result option" where
  "resolveMachineEnforcementContext tz hostname now db =
     map_option toLegacyWhitelistUrlResult (resolveEffectiveMachineEnforcementPolicyContext tz hostname now db)"

definition resolveClassroomGroupContext :: "(int \<Rightarrow> int) \<Rightarrow> string \<Rightarrow> int \<Rightarrow> school_db \<Rightarrow> whitelist_url_result option" where
  "resolveClassroomGroupContext tz classroomId now db =
     map_option toLegacyWhitelistUrlResult (resolveEffectiveClassroomPolicyContext tz classroomId now db)"

definition getWhitelistUrlForMachine :: "(int \<Rightarrow> int) \<Rightarrow> string \<Rightarrow> int \<Rightarrow> school_db \<Rightarrow> whitelist_url_result option" where
  "getWhitelistUrlForMachine tz hostname now db = resolveMachineEnforcementContext tz hostname now db"

section \<open>Authentication of a machine\<close>

definition getBearerTokenValue :: "string option \<Rightarrow> string option" where
  "getBearerTokenValue authHeader =
     (case authHeader of
        None \<Rightarrow> None
      | Some h \<Rightarrow>
          if \<not> starts_with h ''Bearer '' then None
          else let token = js_trim (drop 7 h) in if length token > 0 then Some token else None)"

definition resolveMachineTokenAccess :: "(string \<Rightarrow> string) \<Rightarrow> string \<Rightarrow> school_db \<Rightarrow> machine_row option" where
  "resolveMachineTokenAccess sha_hex machineToken db =
     (let normalizedToken = js_trim machineToken
      in if normalizedToken = [] then None else getMachineByDownloadTokenHash (sha_hex normalizedToken) db)"

definition validateMachineHostnameAccess :: "machine_row \<Rightarrow> string \<Rightarrow> bool \<times> string" where
  "validateMachineHostnameAccess machine hostname =
     (let requestedHostname = to_lower (js_trim hostname)
      in if requestedHostname = [] then (False, requestedHostname)
         else (machineHostnameMatches machine requestedHostname, requestedHostname))"

datatype hostname_access =
    Access_ok machine_row string
  | Invalid_token string
  | Hostname_mismatch string machine_row

definition resolveMachineTokenHostnameAccess :: "(string \<Rightarrow> string) \<Rightarrow> string \<Rightarrow> string \<Rightarrow> school_db \<Rightarrow> hostname_access" where
  "resolveMachineTokenHostnameAccess sha_hex machineToken hostname db =
     (let requestedHostname = to_lower (js_trim hostname)
      in case resolveMachineTokenAccess sha_hex machineToken db of
           None \<Rightarrow> Invalid_token requestedHostname
         | Some machine \<Rightarrow>
             (case validateMachineHostnameAccess machine requestedHostname of (okay, requested) \<Rightarrow>
                if \<not> okay then Hostname_mismatch requestedHostname machine else Access_ok machine requested))"

section \<open>Delivery\<close>

definition FAIL_OPEN_RESPONSE :: string where
  "FAIL_OPEN_RESPONSE = ''#DESACTIVADO'' @ [nl]"

record content_response =
  cr_body :: string
  cr_cacheControl :: string
  cr_etag :: "string option"
  cr_pragma :: "string option"

datatype whitelist_delivery = Content content_response | Not_modified string string

definition buildWhitelistEtag :: "(string \<Rightarrow> string) \<Rightarrow> (int \<Rightarrow> string) \<Rightarrow> string \<Rightarrow> int \<Rightarrow> bool \<Rightarrow> string option \<Rightarrow> string" where
  "buildWhitelistEtag sha_url toISO groupId updatedAt enabled content =
     (let version = join_with '':'' [groupId, toISO updatedAt, flag_str enabled, or_else content []]
      in CHR 0x22 # sha_url version @ [CHR 0x22])"

definition buildStaticEtag :: "(string \<Rightarrow> string) \<Rightarrow> string \<Rightarrow> string" where
  "buildStaticEtag sha_url key = CHR 0x22 # sha_url key @ [CHR 0x22]"

definition failOpenResponse :: whitelist_delivery where
  "failOpenResponse = Content \<lparr>cr_body = FAIL_OPEN_RESPONSE, cr_cacheControl = ''no-store, max-age=0'',
     cr_etag = None, cr_pragma = Some ''no-cache''\<rparr>"

definition touchMachine :: "int \<Rightarrow> string \<Rightarrow> school_db \<Rightarrow> school_db" where
  "touchMachine now hostname db = snd (updateMachineLastSeen now hostname db)"

definition matchesIfNoneMatchHeader :: "string option \<Rightarrow> string \<Rightarrow> bool" where
  "matchesIfNoneMatchHeader ifNoneMatchHeader etag =
     (case ifNoneMatchHeader of
        None \<Rightarrow> False
      | Some header \<Rightarrow>
          let trimmed = js_trim header
          in if trimmed = ''*'' then True
             else list_ex (\<lambda>v. v = etag \<or> (starts_with v ''W/'' \<and> js_trim (drop 2 v) = etag))
                    (filter (\<lambda>v. v \<noteq> []) (map js_trim (split_on CHR '','' trimmed))))"

definition tagged_delivery :: "string option \<Rightarrow> string \<Rightarrow> string \<Rightarrow> whitelist_delivery" where
  "tagged_delivery ifNoneMatchHeader etag body =
     (if matchesIfNoneMatchHeader ifNoneMatchHeader etag then Not_modified etag ''private, no-cache''
      else Content \<lparr>cr_body = body, cr_cacheControl = ''private, no-cache'', cr_etag = Some etag, cr_pragma = None\<rparr>)"

definition resolveMachineWhitelist ::
  "(string \<Rightarrow> string) \<Rightarrow> (string \<Rightarrow> string) \<Rightarrow> (string \<Rightarrow> nat list) \<Rightarrow> (int \<Rightarrow> string) \<Rightarrow> nat \<Rightarrow> (int \<Rightarrow> int) \<Rightarrow>
   string option \<Rightarrow> int \<Rightarrow> string option \<Rightarrow> int \<Rightarrow> school_db \<Rightarrow> export_cache \<Rightarrow>
   whitelist_delivery \<times> school_db \<times> export_cache" where
  "resolveMachineWhitelist sha_hex sha_url ck toISO cmax tz machineToken evaluationTime ifNoneMatchHeader now db cache =
     (if machineToken = None \<or> machineToken = Some [] then (failOpenResponse, db, cache)
      else case getMachineByDownloadTokenHash (sha_hex (the machineToken)) db of
        None \<Rightarrow> (failOpenResponse, db, cache)
      | Some machine \<Rightarrow>
          (case resolveEffectiveMachineEnforcementPolicyContext tz (mac_hostname machine) evaluationTime db of
             None \<Rightarrow> (failOpenResponse, db, cache)
           | Some context \<Rightarrow>
               if epc_mode context = Unrestricted then
                 (tagged_delivery ifNoneMatchHeader (buildStaticEtag sha_url ''openpath:unrestricted'') FAIL_OPEN_RESPONSE,
                  touchMachine now (mac_hostname machine) db, cache)
               else if \<not> present (epc_groupId context) then (failOpenResponse, db, cache)
               else
                 let groupId = the (epc_groupId context)
                 in (case getGroupMetaById now groupId (db_groups db) of
                       None \<Rightarrow> (failOpenResponse, db, cache)
                     | Some grp \<Rightarrow>
                         (case exportGroup ck toISO cmax now groupId (db_groups db) cache of (content, cache') \<Rightarrow>
                            if content = None \<or> content = Some [] then (failOpenResponse, db, cache')
                            else (tagged_delivery ifNoneMatchHeader
                                    (buildWhitelistEtag sha_url toISO (gm_id grp) (gm_updatedAt grp) (gm_enabled grp) content)
                                    (the content),
                                  touchMachine now (mac_hostname machine) db, cache')))))"

datatype machine_policy_error = MP_unauthorized string | MP_forbidden string | MP_not_found string

definition resolveMachineClientConfig :: "machine_row \<Rightarrow> school_db \<Rightarrow> machine_policy_error + string list" where
  "resolveMachineClientConfig machine db =
     (case mac_classroomId machine of
        None \<Rightarrow> Inl (MP_not_found ''No classroom for this machine'')
      | Some classroomId \<Rightarrow>
          if classroomId = [] then Inl (MP_not_found ''No classroom for this machine'')
          else (case getClassroomById classroomId db of
                  None \<Rightarrow> Inl (MP_not_found ''No classroom for this machine'')
                | Some classroom \<Rightarrow> Inr (cls_captivePortalDomains classroom)))"

text \<open>A query parameter: absent, one value, or several.\<close>

datatype query_param = Q_absent | Q_one string | Q_many "string list"

record events_access =
  eva_machine :: machine_row
  eva_classroomId :: string
  eva_groupId :: string

definition resolveMachineEventsAccess ::
  "(string \<Rightarrow> string) \<Rightarrow> (int \<Rightarrow> int) \<Rightarrow> string option \<Rightarrow> query_param \<Rightarrow> int \<Rightarrow> school_db \<Rightarrow>
   machine_policy_error + events_access" where
  "resolveMachineEventsAccess sha_hex tz authorizationHeader queryToken now db =
     (let machineToken = (case getBearerTokenValue authorizationHeader of
            Some t \<Rightarrow> t
          | None \<Rightarrow> (case queryToken of Q_one q \<Rightarrow> js_trim q | _ \<Rightarrow> []))
      in if machineToken = []
         then Inl (MP_unauthorized ''Machine token required (Authorization: Bearer or query param)'')
         else case resolveMachineTokenAccess sha_hex machineToken db of
           None \<Rightarrow> Inl (MP_forbidden ''Invalid machine token'')
         | Some machine \<Rightarrow>
             (case resolveEffectiveMachineEnforcementPolicyContext tz (mac_hostname machine) now db of
                None \<Rightarrow> Inl (MP_not_found ''No active group for this machine'')
              | Some context \<Rightarrow>
                  (case serializePolicyGroupId context of
                     None \<Rightarrow> Inl (MP_not_found ''No active group for this machine'')
                   | Some groupId \<Rightarrow>
                       if groupId = [] then Inl (MP_not_found ''No active group for this machine'')
                       else Inr \<lparr>eva_machine = machine, eva_classroomId = epc_classroomId context, eva_groupId = groupId\<rparr>)))"

section \<open>Which policy applies\<close>

text \<open>The order of precedence, as a relation between the state and a policy: an exemption, with a group if
  one of those in force has a group; the group a teacher chose; the schedule; the default; nothing.\<close>

definition exempted :: "int \<Rightarrow> school_db \<Rightarrow> machine_row \<Rightarrow> string \<Rightarrow> exemption_row \<Rightarrow> bool" where
  "exempted now db m c e \<longleftrightarrow> e \<in> set (db_exemptions db) \<and> active_for (mac_id m) c now e"

definition scheduled :: "(int \<Rightarrow> int) \<Rightarrow> int \<Rightarrow> school_db \<Rightarrow> string \<Rightarrow> schedule_row \<Rightarrow> bool" where
  "scheduled tz now db c r \<longleftrightarrow> r \<in> set (db_schedules db) \<and> current_row tz c now (db_schedules db) r"

inductive policy_applies ::
  "(int \<Rightarrow> int) \<Rightarrow> int \<Rightarrow> school_db \<Rightarrow> machine_row \<Rightarrow> classroom_row \<Rightarrow> string option \<Rightarrow> policy_reason \<Rightarrow> bool"
  for tz now db m cl where
  exempt_group: "exempted now db m (cls_id cl) e \<Longrightarrow> ex_groupId e = Some g \<Longrightarrow> policy_applies tz now db m cl (Some g) PR_exemption"
| exempt_free: "exempted now db m (cls_id cl) e \<Longrightarrow> (\<And>e. exempted now db m (cls_id cl) e \<Longrightarrow> ex_groupId e = None) \<Longrightarrow>
    policy_applies tz now db m cl None PR_exemption"
| manual: "(\<And>e. \<not> exempted now db m (cls_id cl) e) \<Longrightarrow> cls_activeGroupId cl = Some g \<Longrightarrow>
    policy_applies tz now db m cl (Some g) (PR_source CG_manual)"
| schedule: "(\<And>e. \<not> exempted now db m (cls_id cl) e) \<Longrightarrow> cls_activeGroupId cl = None \<Longrightarrow> scheduled tz now db (cls_id cl) r \<Longrightarrow>
    policy_applies tz now db m cl (Some (sch_groupId r)) (PR_source CG_schedule)"
| default: "(\<And>e. \<not> exempted now db m (cls_id cl) e) \<Longrightarrow> cls_activeGroupId cl = None \<Longrightarrow> (\<And>r. \<not> scheduled tz now db (cls_id cl) r) \<Longrightarrow>
    cls_defaultGroupId cl = Some g \<Longrightarrow> policy_applies tz now db m cl (Some g) (PR_source CG_default)"
| nothing: "(\<And>e. \<not> exempted now db m (cls_id cl) e) \<Longrightarrow> cls_activeGroupId cl = None \<Longrightarrow> (\<And>r. \<not> scheduled tz now db (cls_id cl) r) \<Longrightarrow>
    cls_defaultGroupId cl = None \<Longrightarrow> policy_applies tz now db m cl None (PR_source CG_none)"

lemma exempted_iff: "isMachineExempt (mac_id m) c now db \<longleftrightarrow> (\<exists>e. exempted now db m c e)"
  using sel_first_None_iff [of "active_for (mac_id m) c now" "db_exemptions db"]
  by (auto simp: isMachineExempt_def exempted_def)

lemma scheduled_iff:
  "timetable_ok (db_schedules db) \<Longrightarrow> getCurrentSchedule tz c now (db_schedules db) = Some r \<longleftrightarrow> scheduled tz now db c r"
  by (simp add: getCurrentSchedule_iff scheduled_def)

lemma present_fk: "fk r ids \<Longrightarrow> [] \<notin> set ids \<Longrightarrow> present r \<longleftrightarrow> r \<noteq> None"
  by (auto simp: fk_def present_def split: option.splits)

lemma scope_policy:
  assumes ok: "school_ok db" and ids: "[] \<notin> set (group_ids db)" and cl: "cl \<in> set (db_classrooms db)"
    and free: "\<And>e. \<not> exempted now db m (cls_id cl) e"
  shows "policy_applies tz now db m cl (epc_groupId (toEffectivePolicyContext (resolveClassroomPolicyScopeForRecord tz cl now db)))
    (epc_reason (toEffectivePolicyContext (resolveClassroomPolicyScopeForRecord tz cl now db)))"
proof -
  let ?s = "getCurrentSchedule tz (cls_id cl) now (db_schedules db)"
  have tt: "timetable_ok (db_schedules db)" by (rule school_timetable [OF ok])
  have refs: "fk (cls_activeGroupId cl) (group_ids db)" "fk (cls_defaultGroupId cl) (group_ids db)"
    using ok cl by (auto simp: school_ok_def classrooms_ok_def classroom_ok_def list_all_iff)
  have s: "fk (map_option sch_groupId ?s) (group_ids db)"
    using scheduled_iff [OF tt, of tz "cls_id cl" now] ok
    by (cases ?s) (auto simp: scheduled_def school_ok_def schedules_ok_def schedule_refs_def list_all_iff)
  note pres = present_fk [OF refs(1) ids] present_fk [OF refs(2) ids] present_fk [OF s ids]
  have ctx: "epc_groupId (toEffectivePolicyContext (resolveClassroomPolicyScopeForRecord tz cl now db)) =
      fst (resolveCurrentGroup (cls_activeGroupId cl) (map_option sch_groupId ?s) (cls_defaultGroupId cl))"
    "epc_reason (toEffectivePolicyContext (resolveClassroomPolicyScopeForRecord tz cl now db)) =
      PR_source (snd (resolveCurrentGroup (cls_activeGroupId cl) (map_option sch_groupId ?s) (cls_defaultGroupId cl)))"
    by (simp_all add: toEffectivePolicyContext_def resolveClassroomPolicyScopeForRecord_def buildClassroomPolicyScope_def Let_def)
  show ?thesis
  proof (cases "cls_activeGroupId cl")
    case (Some g)
    then show ?thesis using policy_applies.manual [OF free Some] pres unfolding ctx by (simp add: resolveCurrentGroup_def)
  next
    case None
    note no_manual = None
    show ?thesis
    proof (cases ?s)
      case (Some r)
      then have "scheduled tz now db (cls_id cl) r" using scheduled_iff [OF tt] by blast
      from policy_applies.schedule [OF free None this] show ?thesis
        using None Some pres unfolding ctx by (simp add: resolveCurrentGroup_def)
    next
      case None
      then have no: "\<not> scheduled tz now db (cls_id cl) r" for r using scheduled_iff [OF tt] by (metis option.distinct(1))
      show ?thesis
      proof (cases "cls_defaultGroupId cl")
        case None
        then show ?thesis using policy_applies.nothing [OF free no_manual no None] no_manual \<open>?s = None\<close> pres
          unfolding ctx by (simp add: resolveCurrentGroup_def)
      next
        case (Some g)
        then show ?thesis using policy_applies.default [OF free no_manual no Some] no_manual \<open>?s = None\<close> pres
          unfolding ctx by (simp add: resolveCurrentGroup_def)
      qed
    qed
  qed
qed

lemma exemption_policy:
  assumes ok: "school_ok db" and ids: "[] \<notin> set (group_ids db)"
    and a: "getActiveMachineExemption (mac_id m) (cls_id cl) now db = Some a"
  shows "policy_applies tz now db m cl (ae_groupId a) PR_exemption" "fk (ae_groupId a) (group_ids db)"
proof -
  have g: "(ae_groupId a \<noteq> None \<longleftrightarrow> (\<exists>e. exempted now db m (cls_id cl) e \<and> ex_groupId e \<noteq> None)) \<and>
      (\<exists>e. exempted now db m (cls_id cl) e \<and> ex_groupId e = ae_groupId a)"
    using getActiveMachineExemption_group [of "mac_id m" "cls_id cl" now db "ae_groupId a"] a
    unfolding exempted_def by auto
  then obtain e where e: "exempted now db m (cls_id cl) e" "ex_groupId e = ae_groupId a" by blast
  show "fk (ae_groupId a) (group_ids db)"
    using ok e by (auto simp: exempted_def school_ok_def exemptions_ok_def exemption_refs_def list_all_iff)
  show "policy_applies tz now db m cl (ae_groupId a) PR_exemption"
  proof (cases "ae_groupId a")
    case None
    have "ex_groupId e' = None" if "exempted now db m (cls_id cl) e'" for e'
      using that g None by auto
    from policy_applies.exempt_free [OF e(1) this] show ?thesis by (simp add: None)
  next
    case (Some g')
    then show ?thesis using policy_applies.exempt_group [OF e(1), of g'] e(2) by simp
  qed
qed

lemma machine_room:
  assumes "school_ok db" "getMachineByHostname h db = Some m" "mac_classroomId m = Some c"
  shows "m \<in> set (db_machines db)" "c \<in> set (classroom_ids db)"
proof -
  show "m \<in> set (db_machines db)" using assms(2) by (auto simp: getMachineByHostname_def dest: row_by_SomeD)
  from machine_of_row [OF assms(1) this] show "c \<in> set (classroom_ids db)" using assms(3) by (simp add: machine_ok_def)
qed

lemma machine_classroom_Some:
  assumes ok: "school_ok db" and m: "getMachineByHostname h db = Some m" "mac_classroomId m = Some c" "c \<noteq> []"
  obtains cl where "machine_classroom h db = Some (m, c, cl)" "getClassroomById c db = Some cl"
    "cl \<in> set (db_classrooms db)" "cls_id cl = c"
proof -
  from machine_room(2) [OF ok m(1,2)] obtain cl where cl: "row_by cls_id c (db_classrooms db) = Some cl"
    by (cases "row_by cls_id c (db_classrooms db)") (auto simp: row_by_None_iff classroom_ids_def)
  with m row_by_SomeD [OF cl] show ?thesis
    by (intro that [of cl]) (simp_all add: machine_classroom_def getClassroomById_def)
qed

lemma present_Some: "present (Some g) \<longleftrightarrow> g \<noteq> []"
  by (simp add: present_def)

lemma machine_policy:
  assumes ok: "school_ok db" and ids: "[] \<notin> set (group_ids db)" "[] \<notin> set (classroom_ids db)"
    and "getMachineByHostname h db = Some m" "mac_classroomId m = Some c"
  shows "\<exists>ctx cl. resolveEffectiveMachineEnforcementPolicyContext tz h now db = Some ctx \<and>
    getClassroomById c db = Some cl \<and> epc_classroomId ctx = c \<and> epc_classroomName ctx = cls_name cl \<and>
    policy_applies tz now db m cl (epc_groupId ctx) (epc_reason ctx) \<and>
    (epc_mode ctx = Unrestricted \<longleftrightarrow> epc_groupId ctx = None) \<and> fk (epc_groupId ctx) (group_ids db)"
proof -
  have "c \<noteq> []" using machine_room(2) [OF ok assms(4,5)] assms(3) by auto
  with ok assms(4,5) obtain cl where cl: "machine_classroom h db = Some (m, c, cl)" "getClassroomById c db = Some cl"
    "cl \<in> set (db_classrooms db)" "cls_id cl = c"
    by (rule machine_classroom_Some)
  show ?thesis
  proof (cases "getActiveMachineExemption (mac_id m) c now db")
    case (Some a)
    note ex = exemption_policy [OF ok assms(2), of m cl now a, unfolded cl(4), OF Some]
    show ?thesis
    proof (cases "ae_groupId a")
      case None
      then show ?thesis
        using Some cl ex by (simp add: resolveEffectiveMachineEnforcementPolicyContext_def present_def)
    next
      case (Some g)
      then have "g \<noteq> []" using ex(2) assms(2) by auto
      then show ?thesis
        using Some \<open>getActiveMachineExemption _ _ _ _ = Some a\<close> cl ex
        by (simp add: resolveEffectiveMachineEnforcementPolicyContext_def present_Some)
    qed
  next
    case None
    then have free: "\<not> exempted now db m (cls_id cl) e" for e
      using getActiveMachineExemption_iff exempted_iff cl(4) by metis
    let ?ctx = "toEffectivePolicyContext (resolveClassroomPolicyScopeForRecord tz cl now db)"
    have pol: "policy_applies tz now db m cl (epc_groupId ?ctx) (epc_reason ?ctx)"
      by (rule scope_policy [OF ok assms(2) cl(3) free])
    have "fk (epc_groupId ?ctx) (group_ids db)"
      using pol ok cl(3)
      by cases (auto simp: school_ok_def classrooms_ok_def classroom_ok_def schedules_ok_def schedule_refs_def scheduled_def
          list_all_iff exempted_def exemptions_ok_def exemption_refs_def)
    then show ?thesis
      using None cl pol
      by (simp add: resolveEffectiveMachineEnforcementPolicyContext_def toEffectivePolicyContext_def
          resolveClassroomPolicyScopeForRecord_def buildClassroomPolicyScope_def Let_def)
  qed
qed

text \<open>C19: the policy enforced on a machine is the one the order of precedence gives: an exemption in force
  (a group of one that has a group, else no restriction) before the group a teacher set, before the
  current schedule's, before the default.  Every registered machine with a classroom gets a policy, it is
  unrestricted exactly when it names no group, and a group it names exists.\<close>
theorem policy_precedence:
  assumes "school_reach tz utc db" "[] \<notin> set (group_ids db)" "[] \<notin> set (classroom_ids db)"
    and "getMachineByHostname h db = Some m" "mac_classroomId m = Some c"
  shows "\<exists>ctx cl. resolveEffectiveMachineEnforcementPolicyContext tz h now db = Some ctx \<and>
    getClassroomById c db = Some cl \<and> epc_classroomId ctx = c \<and> epc_classroomName ctx = cls_name cl \<and>
    policy_applies tz now db m cl (epc_groupId ctx) (epc_reason ctx) \<and>
    (epc_mode ctx = Unrestricted \<longleftrightarrow> epc_groupId ctx = None) \<and> fk (epc_groupId ctx) (group_ids db)"
  by (rule machine_policy [OF school_reach_ok [OF assms(1)] assms(2-5)])

theorem policy_precedence_witness:
  "\<exists>ctx. resolveEffectiveMachineEnforcementPolicyContext demo_tz ''PC1'' 375300000 demo_db = Some ctx \<and>
     epc_classroomId ctx = ''lab'' \<and> fk (epc_groupId ctx) (group_ids demo_db)"
proof -
  have "[] \<notin> set (group_ids demo_db)" "[] \<notin> set (classroom_ids demo_db)" "getMachineByHostname ''PC1'' demo_db = Some demo_machine"
    "mac_classroomId demo_machine = Some ''lab''"
    by code_simp+
  from policy_precedence [OF demo_db_reach this] show ?thesis by blast
qed

section \<open>Many classrooms at once\<close>

lemma map_of_map_put: "map_of (map_put k v m) i = (if i = k then Some v else map_of m i)"
proof -
  have "map_of (map (\<lambda>p. if fst p = k then (k, v) else p) m) i =
      (if i = k \<and> map_of m k \<noteq> None then Some v else map_of m i)"
    by (induction m) auto
  then show ?thesis by (auto simp: map_put_def map_add_def split: option.splits)
qed

lemma map_of_js_map: "map_of (js_map es) i = map_of (rev es) i"
proof -
  have "map_of (fold (\<lambda>(k, v). map_put k v) es m) i = (case map_of (rev es) i of Some v \<Rightarrow> Some v | None \<Rightarrow> map_of m i)" for m
    by (induction es arbitrary: m) (auto simp: map_of_map_put map_add_def split: option.splits)
  then show ?thesis by (simp add: js_map_def split: option.splits)
qed

lemma map_of_keyed: "distinct (map key xs) \<Longrightarrow> x \<in> set xs \<Longrightarrow> map_of (rev (map (\<lambda>x. (key x, f x)) xs)) (key x) = Some (f x)"
  by (rule map_of_is_SomeI) (auto simp: rev_map [symmetric] comp_def)

text \<open>The scopes computed for a list of classrooms in one batch are those computed for each classroom on
  its own.\<close>
theorem policy_scopes_batch:
  assumes "school_reach tz utc db" "classroom \<in> set (db_classrooms db)" "cls_id classroom \<noteq> []"
  shows "map_of (resolveClassroomPolicyScopesForClassrooms tz (db_classrooms db) now db) (cls_id classroom) =
     resolveClassroomPolicyScope tz (cls_id classroom) now db"
proof -
  have ok: "school_ok db" by (rule school_reach_ok [OF assms(1)])
  have tt: "timetable_ok (db_schedules db)" by (rule school_timetable [OF ok])
  have key: "distinct (map cls_id (filter (\<lambda>c. length (cls_id c) > 0) (db_classrooms db)))" "distinct_key cls_id (db_classrooms db)"
    using ok by (auto simp: school_ok_def classrooms_ok_def distinct_key_def distinct_map_filter)
  let ?n = "filter (\<lambda>c. length (cls_id c) > 0) (db_classrooms db)"
  have "map_of (getCurrentSchedulesByClassroomIds tz (map cls_id ?n) now (db_schedules db)) (cls_id classroom) =
      getCurrentSchedule tz (cls_id classroom) now (db_schedules db)"
    by (rule picks_unique [OF current_row_unique picks_batch picks_getCurrentSchedule]) (use assms tt in auto)
  note sched = this
  have "map_of (rev (map (\<lambda>c. (cls_id c, f c)) ?n)) (cls_id classroom) = Some (f classroom)" for f :: "classroom_row \<Rightarrow> policy_scope"
    by (rule map_of_keyed [OF key(1)]) (use assms in simp)
  from this [of "\<lambda>c. buildClassroomPolicyScope c (map_option sch_groupId
      (map_of (getCurrentSchedulesByClassroomIds tz (map cls_id ?n) now (db_schedules db)) (cls_id c)))"]
  show ?thesis
    using assms key(2) sched
    by (simp add: resolveClassroomPolicyScopesForClassrooms_def Let_def map_of_js_map resolveClassroomPolicyScope_def
        resolveClassroomPolicyScopeForRecord_def getClassroomById_def row_by_unique)
qed

theorem policy_scopes_batch_witness:
  "map_of (resolveClassroomPolicyScopesForClassrooms demo_tz (db_classrooms demo_db) 375300000 demo_db) (cls_id demo_classroom) =
     resolveClassroomPolicyScope demo_tz (cls_id demo_classroom) 375300000 demo_db"
proof -
  have "demo_classroom \<in> set (db_classrooms demo_db)" "cls_id demo_classroom \<noteq> []" by code_simp+
  then show ?thesis by (rule policy_scopes_batch [OF demo_db_reach])
qed

section \<open>What a machine downloads\<close>

lemma export_not_empty: "export_content grp rules \<noteq> []"
  by (simp add: export_content_def)

lemma context_group:
  assumes "school_ok db" "[] \<notin> set (group_ids db)" "[] \<notin> set (classroom_ids db)"
    and "resolveEffectiveMachineEnforcementPolicyContext tz h now db = Some ctx"
  shows "epc_mode ctx = Unrestricted \<longleftrightarrow> epc_groupId ctx = None" "fk (epc_groupId ctx) (group_ids db)"
proof -
  from assms(4) obtain m c where m: "getMachineByHostname h db = Some m" "mac_classroomId m = Some c"
    by (auto simp: resolveEffectiveMachineEnforcementPolicyContext_def machine_classroom_def split: option.splits)
  from machine_policy [OF assms(1-3) m, of tz now] assms(4)
  show "epc_mode ctx = Unrestricted \<longleftrightarrow> epc_groupId ctx = None" "fk (epc_groupId ctx) (group_ids db)" by auto
qed

text \<open>The machine a token opens, and the file for what a policy names, with its entity tag: the text
  that switches the filter off when it names no group, the current export of a group otherwise.\<close>

definition token_machine :: "(string \<Rightarrow> string) \<Rightarrow> string option \<Rightarrow> school_db \<Rightarrow> machine_row option" where
  "token_machine sha_hex token db =
     (case token of
        Some tok \<Rightarrow> if tok = [] then None else getMachineByDownloadTokenHash (sha_hex tok) db
      | None \<Rightarrow> None)"

inductive policy_file ::
  "(string \<Rightarrow> nat list) \<Rightarrow> (int \<Rightarrow> string) \<Rightarrow> (string \<Rightarrow> string) \<Rightarrow> int \<Rightarrow> group_store \<Rightarrow> string option \<Rightarrow> string \<Rightarrow> string \<Rightarrow> bool"
  for ck :: "string \<Rightarrow> nat list" and toISO :: "int \<Rightarrow> string" and sha_url :: "string \<Rightarrow> string" and now :: int
    and s :: group_store where
  no_filter: "policy_file ck toISO sha_url now s None (''#DESACTIVADO'' @ [nl]) (buildStaticEtag sha_url ''openpath:unrestricted'')"
| group_export: "getGroupMetaById now g s = Some grp \<Longrightarrow>
    content = export_content grp (getRulesByGroup ck now g None None s) \<Longrightarrow>
    policy_file ck toISO sha_url now s (Some g) content
      (buildWhitelistEtag sha_url toISO g (gm_updatedAt grp) (gm_enabled grp) (Some content))"

lemma delivered_group:
  assumes "inj ck" "\<forall>d. length (toISO d) = 24" "cache_reach ck toISO cmax cache" "plain_store (db_groups db)"
    and "token_machine sha_hex token db = Some m"
    and "resolveEffectiveMachineEnforcementPolicyContext tz (mac_hostname m) t db = Some ctx"
    and "epc_mode ctx = Grouped" "epc_groupId ctx = Some g" "g \<noteq> []" "getGroupMetaById now g (db_groups db) = Some grp"
  shows "\<exists>content etag cache'. policy_file ck toISO sha_url now (db_groups db) (Some g) content etag \<and>
    resolveMachineWhitelist sha_hex sha_url ck toISO cmax tz token t inm now db cache =
      (if matchesIfNoneMatchHeader inm etag then Not_modified etag ''private, no-cache''
       else Content \<lparr>cr_body = content, cr_cacheControl = ''private, no-cache'', cr_etag = Some etag, cr_pragma = None\<rparr>,
       snd (updateMachineLastSeen now (mac_hostname m) db), cache')"
proof -
  let ?content = "export_content grp (getRulesByGroup ck now g None None (db_groups db))"
  let ?etag = "buildWhitelistEtag sha_url toISO g (gm_updatedAt grp) (gm_enabled grp) (Some ?content)"
  have just: "cache_justified ck toISO cache" by (rule cache_reach_justified [OF assms(3,1,2)])
  obtain c' where e: "exportGroup ck toISO cmax now g (db_groups db) cache = (Some ?content, c')"
    using exportGroup_spec(1) [OF assms(1,2,4) just, of cmax now g] assms(10)
    by (cases "exportGroup ck toISO cmax now g (db_groups db) cache") auto
  have id: "gm_id grp = g"
    using assms(10) by (auto simp: getGroupMetaById_def dbGroupToMeta_def dest: row_by_SomeD)
  obtain tok where "token = Some tok" "tok \<noteq> []" "getMachineByDownloadTokenHash (sha_hex tok) db = Some m"
    using assms(5) by (auto simp: token_machine_def split: option.splits if_splits)
  then have "resolveMachineWhitelist sha_hex sha_url ck toISO cmax tz token t inm now db cache =
      (tagged_delivery inm ?etag ?content, snd (updateMachineLastSeen now (mac_hostname m) db), c')"
    using assms(6-10) e export_not_empty
    by (simp add: resolveMachineWhitelist_def Let_def present_Some id touchMachine_def)
  moreover have "policy_file ck toISO sha_url now (db_groups db) (Some g) ?content ?etag"
    using assms(10) by (rule policy_file.group_export) simp
  ultimately show ?thesis
    by (intro exI [of _ ?content] exI [of _ ?etag] exI [of _ c']) (simp add: tagged_delivery_def)
qed

text \<open>C21: a machine downloads what its policy names.  In a school the services can build, a machine with a
  valid token and a policy gets the file of that policy, the current export of the group it names or
  the text that switches the filter off when it names none, under its entity tag, or is told it is
  unchanged when the tag it sent matches; it is recorded as seen, and nothing else in the tables
  changes.  Without a valid token or a policy the answer is the text that switches the filter off,
  without a tag, and nothing changes.  As for the export cache, the rules' fields hold neither
  colons nor bars, the collation tells different values apart, dates print in 24 characters, and the
  cache was filled from such stores only; identifiers are not empty.\<close>
theorem whitelist_delivery_correct:
  assumes "inj ck" "\<forall>d. length (toISO d) = 24" "cache_reach ck toISO cmax cache" "plain_store (db_groups db)"
    and "school_reach tz utc db" "[] \<notin> set (group_ids db)" "[] \<notin> set (classroom_ids db)"
    and "served = resolveMachineWhitelist sha_hex sha_url ck toISO cmax tz token t inm now db cache"
  shows "case token_machine sha_hex token db of
      None \<Rightarrow> served = (failOpenResponse, db, cache)
    | Some m \<Rightarrow>
        (case resolveEffectiveMachineEnforcementPolicyContext tz (mac_hostname m) t db of
           None \<Rightarrow> served = (failOpenResponse, db, cache)
         | Some ctx \<Rightarrow>
             \<exists>content etag cache'. policy_file ck toISO sha_url now (db_groups db) (epc_groupId ctx) content etag \<and>
               served =
                 (if matchesIfNoneMatchHeader inm etag then Not_modified etag ''private, no-cache''
                  else Content \<lparr>cr_body = content, cr_cacheControl = ''private, no-cache'', cr_etag = Some etag,
                    cr_pragma = None\<rparr>,
                  snd (updateMachineLastSeen now (mac_hostname m) db), cache'))"
proof (cases "token_machine sha_hex token db")
  case None
  then show ?thesis
    using assms(8)
    by (auto simp: token_machine_def resolveMachineWhitelist_def split: option.splits if_splits)
next
  case (Some m)
  then obtain tok where tok: "token = Some tok" "tok \<noteq> []" "getMachineByDownloadTokenHash (sha_hex tok) db = Some m"
    by (auto simp: token_machine_def split: option.splits if_splits)
  show ?thesis
  proof (cases "resolveEffectiveMachineEnforcementPolicyContext tz (mac_hostname m) t db")
    case None
    then show ?thesis using Some tok assms(8) by (simp add: resolveMachineWhitelist_def)
  next
    case ctx: (Some ctx)
    note grp = context_group [OF school_reach_ok [OF assms(5)] assms(6,7) ctx]
    show ?thesis
    proof (cases "epc_groupId ctx")
      case None
      then have "served = (tagged_delivery inm (buildStaticEtag sha_url ''openpath:unrestricted'') (''#DESACTIVADO'' @ [nl]),
          snd (updateMachineLastSeen now (mac_hostname m) db), cache)"
        using ctx tok grp(1) assms(8)
        by (simp add: resolveMachineWhitelist_def touchMachine_def FAIL_OPEN_RESPONSE_def)
      with None Some ctx policy_file.no_filter show ?thesis
        by (auto simp: tagged_delivery_def intro!: exI)
    next
      case (Some g)
      then have g: "g \<in> set (group_ids db)" using grp(2) by simp
      then obtain row where "row_by grp_id g (gs_groups (db_groups db)) = Some row"
        by (cases "row_by grp_id g (gs_groups (db_groups db))") (auto simp: row_by_None_iff group_ids_def)
      then obtain meta where "getGroupMetaById now g (db_groups db) = Some meta"
        by (simp add: getGroupMetaById_def)
      moreover have "epc_mode ctx = Grouped" using grp(1) Some by (cases "epc_mode ctx") auto
      moreover have "g \<noteq> []" using g assms(6) by auto
      ultimately show ?thesis
        using delivered_group [OF assms(1-4) \<open>token_machine _ _ _ = Some m\<close> ctx _ Some, of now meta sha_url inm]
          \<open>token_machine _ _ _ = Some m\<close> ctx Some assms(8)
        by simp
    qed
  qed
qed

definition demo_served :: school_db where
  "demo_served = demo_db\<lparr>db_machines := [demo_machine\<lparr>mac_downloadTokenHash := Some ''tok'',
     mac_downloadTokenLastRotatedAt := Some 8, mac_updatedAt := Some 8\<rparr>]\<rparr>"

theorem whitelist_delivery_correct_witness:
  "\<exists>etag. fst (resolveMachineWhitelist id id code_unit_key demo_iso 5 demo_tz (Some ''tok'') 375300000 None 9 demo_served []) =
     Content \<lparr>cr_body = ''## BLOCKED-SUBDOMAINS'' @ [nl] @ ''ads.example.com'' @ [nl], cr_cacheControl = ''private, no-cache'',
       cr_etag = Some etag, cr_pragma = None\<rparr>"
proof -
  let ?m = "demo_machine\<lparr>mac_downloadTokenHash := Some ''tok'', mac_downloadTokenLastRotatedAt := Some 8, mac_updatedAt := Some 8\<rparr>"
  have set: "setMachineDownloadTokenHash 8 ''m1'' ''tok'' demo_db = Inr (Some ?m, demo_served)" by code_simp
  have reach: "school_reach demo_tz demo_utc demo_served"
    by (rule school_reach.token [OF demo_db_reach set])
  have h: "plain_store (db_groups demo_served)" "token_machine id (Some ''tok'') demo_served = Some ?m"
    "map_option epc_groupId (resolveEffectiveMachineEnforcementPolicyContext demo_tz (mac_hostname ?m) 375300000 demo_served) =
      Some (Some ''g1'')"
    "[] \<notin> set (group_ids demo_served)" "[] \<notin> set (classroom_ids demo_served)"
    "map_option (\<lambda>grp. export_content grp (getRulesByGroup code_unit_key 9 ''g1'' None None (db_groups demo_served)))
      (getGroupMetaById 9 ''g1'' (db_groups demo_served)) = Some (''## BLOCKED-SUBDOMAINS'' @ [nl] @ ''ads.example.com'' @ [nl])"
    by code_simp+
  from h(3) obtain ctx where ctx: "resolveEffectiveMachineEnforcementPolicyContext demo_tz (mac_hostname ?m) 375300000 demo_served = Some ctx"
    "epc_groupId ctx = Some ''g1''" by auto
  have iso: "\<forall>d. length (demo_iso d) = 24" by (simp add: demo_iso_def)
  from whitelist_delivery_correct [where token = "Some ''tok''" and sha_hex = id and inm = None and sha_url = id and now = 9
      and t = 375300000, OF inj_code_unit_key iso cache_reach.start [of _ _ 5] h(1) reach h(4,5) refl]
  have "\<exists>content etag cache'. policy_file code_unit_key demo_iso id 9 (db_groups demo_served) (Some ''g1'') content etag \<and>
    resolveMachineWhitelist id id code_unit_key demo_iso 5 demo_tz (Some ''tok'') 375300000 None 9 demo_served [] =
      (Content \<lparr>cr_body = content, cr_cacheControl = ''private, no-cache'', cr_etag = Some etag, cr_pragma = None\<rparr>,
       snd (updateMachineLastSeen 9 (mac_hostname ?m) demo_served), cache')"
    unfolding h(2) option.case ctx(1) by (simp add: ctx(2) matchesIfNoneMatchHeader_def)
  then obtain content etag where "policy_file code_unit_key demo_iso id 9 (db_groups demo_served) (Some ''g1'') content etag"
    "fst (resolveMachineWhitelist id id code_unit_key demo_iso 5 demo_tz (Some ''tok'') 375300000 None 9 demo_served []) =
      Content \<lparr>cr_body = content, cr_cacheControl = ''private, no-cache'', cr_etag = Some etag, cr_pragma = None\<rparr>"
    by auto
  moreover from this(1) have "content = ''## BLOCKED-SUBDOMAINS'' @ [nl] @ ''ads.example.com'' @ [nl]"
    by cases (use h(6) in simp)
  ultimately show ?thesis by blast
qed

section \<open>Entity tags\<close>

definition base64url_char :: "char \<Rightarrow> bool" where
  "base64url_char c \<longleftrightarrow> alnum_char c \<or> c = CHR ''-'' \<or> c = CHR ''_''"

lemma base64url_code: "base64url_char c \<Longrightarrow> c \<noteq> CHR '','' \<and> \<not> js_space c"
  by (auto simp: base64url_char_def alnum_char_def alpha_char_def digit_char_def js_space_def Let_def)

lemma quoted_header:
  assumes "list_all base64url_char d" "matchesIfNoneMatchHeader (Some (CHR 0x22 # d @ [CHR 0x22])) etag"
  shows "etag = CHR 0x22 # d @ [CHR 0x22]"
proof -
  let ?h = "CHR 0x22 # d @ [CHR 0x22]"
  have q: "\<not> js_space (CHR 0x22)" by code_simp
  have "js_trim ?h = ?h" by (rule js_trim_id) (simp add: q)
  moreover have "CHR '','' \<notin> set ?h" using assms(1) base64url_code by (auto simp: list_all_iff)
  ultimately have "?h = etag \<or> (starts_with ?h ''W/'' \<and> js_trim (drop 2 ?h) = etag)"
    using assms(2) by (simp add: matchesIfNoneMatchHeader_def Let_def split_on_no)
  then show ?thesis by (auto simp: starts_with_def)
qed

lemma version_injective:
  assumes "CHR '':'' \<notin> set g1" "CHR '':'' \<notin> set g2" "\<And>d. length (toISO d) = 24"
    and eq: "join_with '':'' [g1, toISO u1, flag_str b1, c1] = join_with '':'' [g2, toISO u2, flag_str b2, c2]"
  shows "g1 = g2 \<and> toISO u1 = toISO u2 \<and> b1 = b2 \<and> c1 = c2"
proof -
  let ?r1 = "toISO u1 @ '':'' @ flag_str b1 @ '':'' @ c1" and ?r2 = "toISO u2 @ '':'' @ flag_str b2 @ '':'' @ c2"
  have e: "g1 @ CHR '':'' # ?r1 = g2 @ CHR '':'' # ?r2" using eq by simp
  have "g1 = g2" using before_first_append [OF assms(1), of ?r1] before_first_append [OF assms(2), of ?r2] e by simp
  moreover have "?r1 = ?r2" using after_first_append [OF assms(1), of ?r1] after_first_append [OF assms(2), of ?r2] e by simp
  then have "toISO u1 = toISO u2" "flag_str b1 @ '':'' @ c1 = flag_str b2 @ '':'' @ c2"
    using assms(3) by (simp_all add: append_eq_append_conv)
  ultimately show ?thesis by (auto simp: flag_str_def split: if_splits)
qed

lemma static_version:
  assumes "CHR '':'' \<notin> set g" "\<And>d. length (toISO d) = 24"
  shows "join_with '':'' [g, toISO u, flag_str b, c] \<noteq> ''openpath:unrestricted''"
proof
  assume "join_with '':'' [g, toISO u, flag_str b, c] = ''openpath:unrestricted''"
  then have e: "g @ CHR '':'' # (toISO u @ '':'' @ flag_str b @ '':'' @ c) = ''openpath'' @ CHR '':'' # ''unrestricted''" by simp
  have "toISO u @ '':'' @ flag_str b @ '':'' @ c = ''unrestricted''"
    using after_first_append [OF assms(1), of "toISO u @ '':'' @ flag_str b @ '':'' @ c"]
      after_first_append [of "CHR '':''" "''openpath''" "''unrestricted''"] e by simp
  then have "length (toISO u) \<le> length ''unrestricted''" by (metis length_append le_add1)
  then show False using assms(2) by simp
qed

text \<open>"not modified" is never a lie.  If the digest has no collisions and is written in base64url, group
  identifiers contain no colon and dates print in 24 characters, then the tag of a delivered
  whitelist matches only a whitelist of the same group with the same content, and never the tag of
  the unrestricted answer.\<close>
theorem not_modified_sound:
  assumes "inj sha_url" "\<And>s. list_all base64url_char (sha_url s)" "\<And>d. length (toISO d) = 24"
    and "CHR '':'' \<notin> set g1" "CHR '':'' \<notin> set g2"
  shows "(matchesIfNoneMatchHeader (Some (buildWhitelistEtag sha_url toISO g1 u1 b1 (Some c1)))
           (buildWhitelistEtag sha_url toISO g2 u2 b2 (Some c2)) \<longrightarrow> g1 = g2 \<and> b1 = b2 \<and> c1 = c2) \<and>
    \<not> matchesIfNoneMatchHeader (Some (buildWhitelistEtag sha_url toISO g1 u1 b1 (Some c1)))
        (buildStaticEtag sha_url ''openpath:unrestricted'')"
proof -
  let ?v1 = "join_with '':'' [g1, toISO u1, flag_str b1, c1]"
  have tag: "buildWhitelistEtag sha_url toISO g u b (Some c) =
      CHR 0x22 # sha_url (join_with '':'' [g, toISO u, flag_str b, c]) @ [CHR 0x22]" for g u b c
    by (simp add: buildWhitelistEtag_def Let_def or_else_def)
  have same: "sha_url v = sha_url ?v1"
    if "matchesIfNoneMatchHeader (Some (buildWhitelistEtag sha_url toISO g1 u1 b1 (Some c1))) (CHR 0x22 # sha_url v @ [CHR 0x22])" for v
    using quoted_header [OF assms(2) that [unfolded tag]] by simp
  have ver: "v = ?v1"
    if "matchesIfNoneMatchHeader (Some (buildWhitelistEtag sha_url toISO g1 u1 b1 (Some c1))) (CHR 0x22 # sha_url v @ [CHR 0x22])" for v
    using injD [OF assms(1) same [OF that]] .
  have "?v1 \<noteq> ''openpath:unrestricted''" by (rule static_version [OF assms(4) assms(3)])
  moreover have "g1 = g2 \<and> toISO u1 = toISO u2 \<and> b1 = b2 \<and> c1 = c2"
    if "?v1 = join_with '':'' [g2, toISO u2, flag_str b2, c2]"
    by (rule version_injective [OF assms(4,5) assms(3) that])
  ultimately show ?thesis
    using ver [of "join_with '':'' [g2, toISO u2, flag_str b2, c2]"] ver [of "''openpath:unrestricted''"]
    unfolding tag buildStaticEtag_def by metis
qed

definition three_digits :: "char \<Rightarrow> string" where
  "three_digits c = (let n = of_char c in [digit_of (n div 100), digit_of (n div 10 mod 10), digit_of (n mod 10)])"

definition demo_digest :: "string \<Rightarrow> string" where
  "demo_digest s = concat (map three_digits s)"

lemma three_digits_inj: "three_digits c = three_digits c' \<Longrightarrow> c = c'"
proof -
  assume e: "three_digits c = three_digits c'"
  have d: "digit_of a = digit_of b \<Longrightarrow> a < 10 \<Longrightarrow> b < 10 \<Longrightarrow> a = b" for a b
    using of_char_digit_of by (metis add_left_cancel)
  let ?n = "of_char c :: nat" and ?k = "of_char c' :: nat"
  have "?n < 256" "?k < 256" by (rule of_char_bound)+
  then have "?n div 100 < 10" "?k div 100 < 10" by linarith+
  then have "?n div 100 = ?k div 100" "?n div 10 mod 10 = ?k div 10 mod 10" "?n mod 10 = ?k mod 10"
    using e by (auto simp: three_digits_def Let_def intro: d)
  moreover have "m = 100 * (m div 100) + 10 * (m div 10 mod 10) + m mod 10" for m :: nat
  proof -
    have "m div 100 = m div 10 div 10" by (simp add: div_mult2_eq [symmetric])
    moreover have "10 * (m div 10 div 10) + m div 10 mod 10 = m div 10" "10 * (m div 10) + m mod 10 = m"
      by (rule mult_div_mod_eq)+
    ultimately show ?thesis by linarith
  qed
  ultimately have "?n = ?k" by metis
  then show ?thesis by simp
qed

lemma inj_demo_digest: "inj demo_digest"
proof (rule injI)
  fix s t assume "demo_digest s = demo_digest t"
  then show "s = t"
  proof (induction s arbitrary: t)
    case Nil
    then show ?case by (cases t) (auto simp: demo_digest_def three_digits_def Let_def)
  next
    case (Cons c s)
    then obtain c' t' where t: "t = c' # t'" by (cases t) (auto simp: demo_digest_def three_digits_def Let_def)
    have "three_digits c @ demo_digest s = three_digits c' @ demo_digest t'"
      using Cons.prems by (simp add: t demo_digest_def)
    then have "three_digits c = three_digits c'" "demo_digest s = demo_digest t'"
      by (auto simp: three_digits_def Let_def)
    then show ?case using Cons.IH three_digits_inj t by blast
  qed
qed

lemma demo_digest_chars: "list_all base64url_char (demo_digest s)"
proof -
  have "base64url_char x" if "x \<in> set (three_digits c)" for x c
  proof -
    have "(of_char c :: nat) div 100 < 10" using of_char_bound [of c] by linarith
    then show ?thesis using that by (auto simp: three_digits_def Let_def base64url_char_def alnum_char_def)
  qed
  then show ?thesis by (auto simp: demo_digest_def list_all_iff)
qed

theorem not_modified_sound_witness:
  "\<not> matchesIfNoneMatchHeader (Some (buildWhitelistEtag demo_digest demo_iso ''g1'' 7 True (Some ''a'')))
       (buildWhitelistEtag demo_digest demo_iso ''g1'' 7 True (Some ''b''))"
  using not_modified_sound [OF inj_demo_digest demo_digest_chars, of demo_iso "''g1''" "''g1''" 7 True "''a''" 7 True "''b''"]
  by (auto simp: demo_iso_def)

end
