(* ===== verification/Accounts.thy ===== *)
theory Accounts
  imports Classrooms
begin

text \<open>
  Users and their roles: \<open>shared/src/roles.ts\<close>, \<open>api/src/lib/user-storage-*.ts\<close>,
  \<open>api/src/lib/role-storage-*.ts\<close> and \<open>api/src/services/user-management.service.ts\<close>.

  \<open>account_db\<close> holds the tables \<open>users\<close> and \<open>roles\<close>; the groups a role may name are read
  from the group store.  The password hash is an argument (\<open>hash\<close>, \<open>compare\<close>), and so is the
  condition \<open>kept\<close> under which a row of another table, which refers to a user without a
  delete rule, keeps the user from being deleted.  The column \<open>updated_at\<close> of a role, which nothing reads, is
  left out.
\<close>

section \<open>Roles as text\<close>

datatype user_role = Admin | Teacher | Student

definition normalizeUserRoleString :: "string option \<Rightarrow> user_role option" where
  "normalizeUserRoleString input =
     (case input of
        None \<Rightarrow> None
      | Some s \<Rightarrow>
          (let role = to_lower (js_trim s)
           in if role = ''admin'' then Some Admin else if role = ''teacher'' then Some Teacher
              else if role = ''student'' then Some Student
              else if role = ''openpath-admin'' then Some Admin
              else if role = ''user'' \<or> role = ''viewer'' then Some Student
              else None))"

definition hasNormalizedUserRole :: "string option \<Rightarrow> user_role \<Rightarrow> bool" where
  "hasNormalizedUserRole input expectedRole \<longleftrightarrow> normalizeUserRoleString input = Some expectedRole"

fun getStoredRoleAliases :: "user_role \<Rightarrow> string list" where
  "getStoredRoleAliases Admin = [''admin'', ''openpath-admin'']"
| "getStoredRoleAliases Teacher = [''teacher'']"
| "getStoredRoleAliases Student = [''student'', ''user'', ''viewer'']"

definition getDbRoleValues :: "user_role \<Rightarrow> string list" where
  "getDbRoleValues role = getStoredRoleAliases role"

fun role_text :: "user_role \<Rightarrow> string" where
  "role_text Admin = ''admin''"
| "role_text Teacher = ''teacher''"
| "role_text Student = ''student''"

section \<open>The tables\<close>

record user_row =
  usr_id :: string
  usr_email :: string
  usr_name :: string
  usr_passwordHash :: "string option"
  usr_googleId :: "string option"
  usr_isActive :: bool
  usr_emailVerified :: bool
  usr_createdAt :: "int option"
  usr_updatedAt :: "int option"

record role_row =
  rol_id :: string
  rol_userId :: string
  rol_role :: string
  rol_groupIds :: "string list option"
  rol_createdBy :: "string option"
  rol_createdAt :: "int option"
  rol_expiresAt :: "int option"

record account_db =
  acc_users :: "user_row table"
  acc_roles :: "role_row table"

definition user_ids :: "account_db \<Rightarrow> string list" where
  "user_ids db = map usr_id (acc_users db)"

section \<open>User storage\<close>

definition normalize_email :: "string \<Rightarrow> string" where
  "normalize_email s = js_trim (to_lower s)"

record safe_user =
  su_id :: string
  su_email :: string
  su_name :: string
  su_isActive :: bool
  su_emailVerified :: bool
  su_createdAt :: int
  su_updatedAt :: int

definition toSafeUser :: "int \<Rightarrow> bool option \<Rightarrow> user_row \<Rightarrow> safe_user" where
  "toSafeUser now emailVerified row =
     \<lparr>su_id = usr_id row, su_email = usr_email row, su_name = usr_name row, su_isActive = True,
      su_emailVerified = or_else emailVerified False,
      su_createdAt = or_else (usr_createdAt row) now, su_updatedAt = or_else (usr_updatedAt row) now\<rparr>"

text \<open>An insert or update of users checks the primary key and the two unique columns.\<close>

definition users_unique :: "user_row table \<Rightarrow> bool" where
  "users_unique t \<longleftrightarrow> distinct (map usr_id t) \<and> distinct (map usr_email t) \<and>
     distinct (List.map_filter usr_googleId t)"

definition put_users :: "user_row table \<Rightarrow> account_db \<Rightarrow> db_error + account_db" where
  "put_users t db = (if users_unique t then Inr (db\<lparr>acc_users := t\<rparr>) else Inl Unique_violation)"

definition createGoogleUser ::
  "string \<Rightarrow> int \<Rightarrow> string \<Rightarrow> string \<Rightarrow> string \<Rightarrow> account_db \<Rightarrow> db_error + safe_user \<times> account_db" where
  "createGoogleUser newId now email name googleId db =
     (let row = \<lparr>usr_id = newId, usr_email = normalize_email email, usr_name = js_trim name,
                 usr_passwordHash = None, usr_googleId = Some googleId, usr_isActive = True,
                 usr_emailVerified = True, usr_createdAt = Some now, usr_updatedAt = Some now\<rparr>
      in and_then (put_users (ins_row row (acc_users db)) db) (\<lambda>db1.
           Inr ((toSafeUser now None row)\<lparr>su_emailVerified := True\<rparr>, db1)))"

definition linkGoogleId :: "int \<Rightarrow> string \<Rightarrow> string \<Rightarrow> account_db \<Rightarrow> db_error + bool \<times> account_db" where
  "linkGoogleId now userId googleId db =
     and_then (put_users (upd_by usr_id userId
         (\<lambda>u. u\<lparr>usr_googleId := Some googleId, usr_updatedAt := Some now\<rparr>) (acc_users db)) db) (\<lambda>db1.
       Inr (count_where (\<lambda>u. usr_id u = userId) (acc_users db) > 0, db1))"

record create_user_data =
  cud_email :: string
  cud_name :: string
  cud_password :: string

definition createUser ::
  "(string \<Rightarrow> string) \<Rightarrow> string \<Rightarrow> int \<Rightarrow> create_user_data \<Rightarrow> bool option \<Rightarrow> account_db \<Rightarrow>
   db_error + safe_user \<times> account_db" where
  "createUser hash newId now d emailVerified db =
     (let row = \<lparr>usr_id = newId, usr_email = normalize_email (cud_email d), usr_name = js_trim (cud_name d),
                 usr_passwordHash = Some (hash (cud_password d)), usr_googleId = None, usr_isActive = True,
                 usr_emailVerified = or_else emailVerified False, usr_createdAt = Some now, usr_updatedAt = Some now\<rparr>
      in and_then (put_users (ins_row row (acc_users db)) db) (\<lambda>db1.
           Inr ((toSafeUser now (Some (usr_emailVerified row)) row)\<lparr>su_emailVerified := usr_emailVerified row\<rparr>, db1)))"

record update_user_data =
  uud_email :: "string option"
  uud_name :: "string option"
  uud_password :: "string option"

definition set_user :: "(string \<Rightarrow> string) \<Rightarrow> update_user_data \<Rightarrow> user_row \<Rightarrow> user_row" where
  "set_user hash d u =
     u\<lparr>usr_email := (case uud_email d of Some e \<Rightarrow> normalize_email e | None \<Rightarrow> usr_email u),
       usr_name := (case uud_name d of Some n \<Rightarrow> js_trim n | None \<Rightarrow> usr_name u),
       usr_passwordHash := (case uud_password d of Some p \<Rightarrow> Some (hash p) | None \<Rightarrow> usr_passwordHash u)\<rparr>"

definition updateUser ::
  "(string \<Rightarrow> string) \<Rightarrow> int \<Rightarrow> string \<Rightarrow> update_user_data \<Rightarrow> account_db \<Rightarrow>
   db_error + safe_user option \<times> account_db" where
  "updateUser hash now i d db =
     (if uud_email d = None \<and> uud_name d = None \<and> uud_password d = None
      then Inr (map_option (toSafeUser now None) (row_by usr_id i (acc_users db)), db)
      else and_then (put_users (upd_by usr_id i (set_user hash d) (acc_users db)) db) (\<lambda>db1.
             Inr (map_option (toSafeUser now None) (row_by usr_id i (acc_users db1)), db1)))"

definition touch_user :: "string \<Rightarrow> (user_row \<Rightarrow> user_row) \<Rightarrow> account_db \<Rightarrow> account_db" where
  "touch_user i f db = db\<lparr>acc_users := upd_by usr_id i f (acc_users db)\<rparr>"

definition updateLastLogin :: "int \<Rightarrow> string \<Rightarrow> account_db \<Rightarrow> account_db" where
  "updateLastLogin now i db = touch_user i (\<lambda>u. u\<lparr>usr_updatedAt := Some now\<rparr>) db"

definition verifyEmail :: "int \<Rightarrow> string \<Rightarrow> account_db \<Rightarrow> bool \<times> account_db" where
  "verifyEmail now i db =
     (count_where (\<lambda>u. usr_id u = i) (acc_users db) > 0,
      touch_user i (\<lambda>u. u\<lparr>usr_emailVerified := True, usr_updatedAt := Some now\<rparr>) db)"

text \<open>
  Deleting a user deletes the role of the user; a role another user has, created by this one,
  keeps the statement from running.
\<close>

definition deleteUser :: "(string \<Rightarrow> bool) \<Rightarrow> string \<Rightarrow> account_db \<Rightarrow> db_error + bool \<times> account_db" where
  "deleteUser kept i db =
     (let roles = del_where (\<lambda>r. rol_userId r = i) (acc_roles db);
          found = count_where (\<lambda>u. usr_id u = i) (acc_users db) > 0
      in if found \<and> (kept i \<or> list_ex (\<lambda>r. rol_createdBy r = Some i) roles) then Inl Foreign_key_violation
         else Inr (found, \<lparr>acc_users = del_by usr_id i (acc_users db),
                           acc_roles = (if found then roles else acc_roles db)\<rparr>))"

definition getAllUsers :: "int \<Rightarrow> account_db \<Rightarrow> safe_user list" where
  "getAllUsers now db =
     map (\<lambda>u. \<lparr>su_id = usr_id u, su_email = usr_email u, su_name = usr_name u, su_isActive = usr_isActive u,
                su_emailVerified = usr_emailVerified u, su_createdAt = or_else (usr_createdAt u) now,
                su_updatedAt = or_else (usr_updatedAt u) now\<rparr>)
       (sort_key (\<lambda>u. desc_key (usr_createdAt u)) (acc_users db))"

definition getUserById :: "string \<Rightarrow> account_db \<Rightarrow> user_row option" where
  "getUserById i db = row_by usr_id i (acc_users db)"

definition getUserByEmail :: "string \<Rightarrow> account_db \<Rightarrow> user_row option" where
  "getUserByEmail email db = row_by usr_email (normalize_email email) (acc_users db)"

definition emailExists :: "string \<Rightarrow> account_db \<Rightarrow> bool" where
  "emailExists email db \<longleftrightarrow> row_by usr_email (normalize_email email) (acc_users db) \<noteq> None"

definition getUserByGoogleId :: "string \<Rightarrow> account_db \<Rightarrow> user_row option" where
  "getUserByGoogleId googleId db = row_by usr_googleId (Some googleId) (acc_users db)"

definition verifyPassword :: "(string \<Rightarrow> string \<Rightarrow> bool) \<Rightarrow> user_row \<Rightarrow> string \<Rightarrow> bool" where
  "verifyPassword compare user password = compare password (or_else (usr_passwordHash user) [])"

definition verifyPasswordByEmail ::
  "(string \<Rightarrow> string \<Rightarrow> bool) \<Rightarrow> string \<Rightarrow> string \<Rightarrow> account_db \<Rightarrow> user_row option" where
  "verifyPasswordByEmail compare email password db =
     (case row_by usr_email (normalize_email email) (acc_users db) of
        None \<Rightarrow> None
      | Some user \<Rightarrow>
          (case usr_passwordHash user of
             None \<Rightarrow> None
           | Some h \<Rightarrow> if h = [] \<or> \<not> compare password h then None else Some user))"

record user_stats =
  ust_total :: nat
  ust_active :: nat
  ust_verified :: nat

definition getUserStats :: "account_db \<Rightarrow> user_stats" where
  "getUserStats db = \<lparr>ust_total = length (acc_users db), ust_active = count_where usr_isActive (acc_users db),
     ust_verified = count_where usr_emailVerified (acc_users db)\<rparr>"

section \<open>Role storage\<close>

record api_role =
  arl_id :: string
  arl_userId :: string
  arl_role :: user_role
  arl_groupIds :: "string list"
  arl_createdAt :: int
  arl_expiresAt :: "int option"

definition toRoleType :: "int \<Rightarrow> role_row \<Rightarrow> api_role" where
  "toRoleType now r =
     \<lparr>arl_id = rol_id r, arl_userId = rol_userId r,
      arl_role = or_else (normalizeUserRoleString (Some (rol_role r))) Student,
      arl_groupIds = or_else (rol_groupIds r) [], arl_createdAt = or_else (rol_createdAt r) now,
      arl_expiresAt = None\<rparr>"

definition normalizeAndValidateRoleGroupIds :: "string list \<Rightarrow> group_store \<Rightarrow> db_error + string list" where
  "normalizeAndValidateRoleGroupIds groupIds gs =
     (let normalizedGroupIds = js_unique (filter (\<lambda>g. g \<noteq> []) (map js_trim groupIds))
      in if normalizedGroupIds = [] then Inr []
         else
           let existingIds = map grp_id (sel_where (\<lambda>g. grp_id g \<in> set normalizedGroupIds) (gs_groups gs));
               missingIds = filter (\<lambda>g. g \<notin> set existingIds) normalizedGroupIds
           in if missingIds \<noteq> [] then Inl (App_error (''Unknown group IDs: '' @ join_with '', '' missingIds))
              else Inr normalizedGroupIds)"

definition getUserRoles :: "string \<Rightarrow> account_db \<Rightarrow> role_row list" where
  "getUserRoles userId db = sel_where (\<lambda>r. rol_userId r = userId) (acc_roles db)"

definition getUsersByRole :: "user_role \<Rightarrow> account_db \<Rightarrow> role_row list" where
  "getUsersByRole role db = sel_where (\<lambda>r. rol_role r \<in> set (getDbRoleValues role)) (acc_roles db)"

record teacher_info =
  ti_userId :: string
  ti_groupIds :: "string list"
  ti_createdAt :: int
  ti_createdBy :: string

definition getAllTeachers :: "int \<Rightarrow> account_db \<Rightarrow> teacher_info list" where
  "getAllTeachers now db =
     map (\<lambda>r. \<lparr>ti_userId = rol_userId r, ti_groupIds = or_else (rol_groupIds r) [],
                ti_createdAt = or_else (rol_createdAt r) now, ti_createdBy = or_else (rol_createdBy r) ''unknown''\<rparr>)
       (getUsersByRole Teacher db)"

definition getAllAdmins :: "account_db \<Rightarrow> role_row list" where
  "getAllAdmins db = getUsersByRole Admin db"

definition hasAnyAdmins :: "account_db \<Rightarrow> bool" where
  "hasAnyAdmins db \<longleftrightarrow> sel_first (\<lambda>r. rol_role r \<in> set (getDbRoleValues Admin)) (acc_roles db) \<noteq> None"

definition hasRole :: "string \<Rightarrow> user_role \<Rightarrow> account_db \<Rightarrow> bool" where
  "hasRole userId role db \<longleftrightarrow>
     sel_first (\<lambda>r. rol_userId r = userId \<and> rol_role r \<in> set (getDbRoleValues role)) (acc_roles db) \<noteq> None"

definition isAdmin :: "string \<Rightarrow> account_db \<Rightarrow> bool" where
  "isAdmin userId db = hasRole userId Admin db"

definition has_group :: "string \<Rightarrow> role_row \<Rightarrow> bool" where
  "has_group groupId r \<longleftrightarrow> groupId \<in> set (or_else (rol_groupIds r) [])"

definition canApproveForGroup :: "string \<Rightarrow> string \<Rightarrow> account_db \<Rightarrow> bool" where
  "canApproveForGroup userId groupId db \<longleftrightarrow>
     isAdmin userId db \<or>
     sel_first (\<lambda>r. rol_userId r = userId \<and> rol_role r = ''teacher'' \<and> has_group groupId r) (acc_roles db) \<noteq> None"

datatype approval_groups = All_groups | Only_groups "string list"

definition getApprovalGroupsForUserId :: "string \<Rightarrow> account_db \<Rightarrow> approval_groups" where
  "getApprovalGroupsForUserId userId db =
     (if isAdmin userId db then All_groups
      else Only_groups (case sel_first (\<lambda>r. rol_userId r = userId \<and> rol_role r = ''teacher'') (acc_roles db) of
             Some r \<Rightarrow> or_else (rol_groupIds r) [] | None \<Rightarrow> []))"

definition getRoleById :: "string \<Rightarrow> account_db \<Rightarrow> role_row option" where
  "getRoleById roleId db = row_by rol_id roleId (acc_roles db)"

definition getRolesByUser :: "int \<Rightarrow> string \<Rightarrow> account_db \<Rightarrow> api_role list" where
  "getRolesByUser now userId db = map (toRoleType now) (getUserRoles userId db)"

definition getUsersWithRole :: "user_role \<Rightarrow> account_db \<Rightarrow> string list" where
  "getUsersWithRole role db = map rol_userId (getUsersByRole role db)"

record role_stats =
  rst_total :: nat
  rst_active :: nat
  rst_admins :: nat
  rst_teachers :: nat
  rst_students :: nat

definition add_role_count :: "string \<times> nat \<Rightarrow> role_stats \<Rightarrow> role_stats" where
  "add_role_count row stats =
     (let countValue = snd row; role = normalizeUserRoleString (Some (fst row))
      in \<lparr>rst_total = rst_total stats + countValue, rst_active = rst_active stats + countValue,
          rst_admins = rst_admins stats + (if role = Some Admin then countValue else 0),
          rst_teachers = rst_teachers stats + (if role = Some Teacher then countValue else 0),
          rst_students = rst_students stats + (if role = Some Student then countValue else 0)\<rparr>)"

definition getRoleStats :: "account_db \<Rightarrow> role_stats" where
  "getRoleStats db =
     fold add_role_count
       (map (\<lambda>role. (role, count_where (\<lambda>r. rol_role r = role) (acc_roles db))) (js_unique (map rol_role (acc_roles db))))
       \<lparr>rst_total = 0, rst_active = 0, rst_admins = 0, rst_teachers = 0, rst_students = 0\<rparr>"

record assign_role_data =
  ard_userId :: string
  ard_role :: user_role
  ard_groupIds :: "string list"
  ard_createdBy :: "string option"

definition update_role_row :: "string \<Rightarrow> (role_row \<Rightarrow> role_row) \<Rightarrow> account_db \<Rightarrow> account_db" where
  "update_role_row i f db = db\<lparr>acc_roles := upd_by rol_id i f (acc_roles db)\<rparr>"

definition assignRole ::
  "string \<Rightarrow> int \<Rightarrow> assign_role_data \<Rightarrow> group_store \<Rightarrow> account_db \<Rightarrow> db_error + role_row \<times> account_db" where
  "assignRole newId now d gs db =
     and_then (normalizeAndValidateRoleGroupIds (ard_groupIds d) gs) (\<lambda>groupIds.
       case sel_first (\<lambda>r. rol_userId r = ard_userId d) (acc_roles db) of
         Some existing \<Rightarrow>
           if \<not> fk (ard_createdBy d) (user_ids db) then Inl Foreign_key_violation
           else
             let db1 = update_role_row (rol_id existing) (\<lambda>r. r\<lparr>rol_role := role_text (ard_role d),
                         rol_groupIds := Some groupIds,
                         rol_createdBy := (case ard_createdBy d of Some c \<Rightarrow> Some c | None \<Rightarrow> rol_createdBy r)\<rparr>) db
             in (case row_by rol_id (rol_id existing) (acc_roles db1) of
                   None \<Rightarrow> Inl (App_error (''Failed to update role for user \"'' @ ard_userId d @ ''\"''))
                 | Some updated \<Rightarrow> Inr (updated, db1))
       | None \<Rightarrow>
           let row = \<lparr>rol_id = newId, rol_userId = ard_userId d, rol_role = role_text (ard_role d),
                      rol_groupIds = Some groupIds, rol_createdBy = ard_createdBy d,
                      rol_createdAt = Some now, rol_expiresAt = None\<rparr>
           in if row_by rol_id newId (acc_roles db) \<noteq> None then Inl Unique_violation
              else if \<not> fk (Some (ard_userId d)) (user_ids db) \<or> \<not> fk (ard_createdBy d) (user_ids db)
              then Inl Foreign_key_violation
              else Inr (row, db\<lparr>acc_roles := ins_row row (acc_roles db)\<rparr>))"

definition updateRoleGroups ::
  "string \<Rightarrow> string list \<Rightarrow> group_store \<Rightarrow> account_db \<Rightarrow> db_error + role_row option \<times> account_db" where
  "updateRoleGroups roleId groupIds gs db =
     and_then (normalizeAndValidateRoleGroupIds groupIds gs) (\<lambda>validated.
       let db1 = update_role_row roleId (\<lambda>r. r\<lparr>rol_groupIds := Some validated\<rparr>) db
       in Inr (row_by rol_id roleId (acc_roles db1), db1))"

definition addGroupsToRole ::
  "string \<Rightarrow> string list \<Rightarrow> group_store \<Rightarrow> account_db \<Rightarrow> db_error + role_row option \<times> account_db" where
  "addGroupsToRole roleId groupIds gs db =
     (case getRoleById roleId db of
        None \<Rightarrow> Inr (None, db)
      | Some existing \<Rightarrow>
          updateRoleGroups roleId (js_unique (or_else (rol_groupIds existing) [] @ groupIds)) gs db)"

definition removeGroupsFromRole ::
  "string \<Rightarrow> string list \<Rightarrow> group_store \<Rightarrow> account_db \<Rightarrow> db_error + role_row option \<times> account_db" where
  "removeGroupsFromRole roleId groupIds gs db =
     (case getRoleById roleId db of
        None \<Rightarrow> Inr (None, db)
      | Some existing \<Rightarrow>
          updateRoleGroups roleId (filter (\<lambda>g. g \<notin> set groupIds) (or_else (rol_groupIds existing) [])) gs db)"

definition revokeRole :: "string \<Rightarrow> account_db \<Rightarrow> bool \<times> account_db" where
  "revokeRole roleId db =
     (count_where (\<lambda>r. rol_id r = roleId) (acc_roles db) > 0, db\<lparr>acc_roles := del_by rol_id roleId (acc_roles db)\<rparr>)"

definition revokeAllUserRoles :: "string \<Rightarrow> account_db \<Rightarrow> nat \<times> account_db" where
  "revokeAllUserRoles userId db =
     (count_where (\<lambda>r. rol_userId r = userId) (acc_roles db),
      db\<lparr>acc_roles := del_where (\<lambda>r. rol_userId r = userId) (acc_roles db)\<rparr>)"

definition removeGroupFromAllRoles :: "string \<Rightarrow> account_db \<Rightarrow> nat \<times> account_db" where
  "removeGroupFromAllRoles groupId db =
     (let rolesWithGroup = sel_where (has_group groupId) (acc_roles db)
      in fold (\<lambda>role (n, db1).
           let nextGroups = filter (\<lambda>c. c \<noteq> groupId) (or_else (rol_groupIds role) [])
           in (n + 1, update_role_row (rol_id role) (\<lambda>r. r\<lparr>rol_groupIds := Some nextGroups\<rparr>) db1))
         rolesWithGroup (0, db))"

definition updateRole ::
  "int \<Rightarrow> string \<Rightarrow> string list option \<Rightarrow> group_store \<Rightarrow> account_db \<Rightarrow> db_error + api_role option \<times> account_db" where
  "updateRole now roleId groupIds gs db =
     (case groupIds of
        None \<Rightarrow> Inr (map_option (toRoleType now) (getRoleById roleId db), db)
      | Some gids \<Rightarrow>
          and_then (normalizeAndValidateRoleGroupIds gids gs) (\<lambda>validated.
            let db1 = update_role_row roleId (\<lambda>r. r\<lparr>rol_groupIds := Some validated\<rparr>) db
            in Inr (map_option (toRoleType now) (row_by rol_id roleId (acc_roles db1)), db1)))"

end
