(* ===== verification/Domain_Events.thy ===== *)
theory Domain_Events
  imports JS_Prelude
begin

text \<open>
  The events a command publishes once it has been committed:
  \<open>api/src/services/domain-events/collector.ts\<close>, \<open>dispatcher.ts\<close> and
  \<open>transactional-writer.ts\<close>.  A collector queues events under textual keys and merges those
  that say the same; \<open>coalesce\<close> is what it is meant to send, and \<open>collected_coalesce\<close> shows that
  it does.  A transaction either commits the state its operation returns and sends the queue,
  or throws, keeps the old state and sends nothing.
\<close>

datatype domain_event =
    WhitelistChanged string
  | AllWhitelistsChanged
  | ClassroomChanged string "int option"

section \<open>The collector\<close>

record event_queue =
  q_classroomChanged :: "string \<Rightarrow> domain_event option"
  q_hasAllWhitelistsChanged :: bool
  q_orderedKeys :: "string list"
  q_whitelistChanged :: "string \<Rightarrow> domain_event option"

definition empty_queue :: event_queue where
  "empty_queue = \<lparr>q_classroomChanged = (\<lambda>_. None), q_hasAllWhitelistsChanged = False, q_orderedKeys = [],
                  q_whitelistChanged = (\<lambda>_. None)\<rparr>"

fun queueEvent :: "domain_event \<Rightarrow> event_queue \<Rightarrow> event_queue" where
  "queueEvent (WhitelistChanged groupId) q =
     (if q_hasAllWhitelistsChanged q \<or> q_whitelistChanged q groupId \<noteq> None then q
      else q\<lparr>q_whitelistChanged := (q_whitelistChanged q)(groupId := Some (WhitelistChanged groupId)),
             q_orderedKeys := q_orderedKeys q @ [''whitelist.changed:'' @ groupId]\<rparr>)"
| "queueEvent AllWhitelistsChanged q =
     (if q_hasAllWhitelistsChanged q then q
      else q\<lparr>q_hasAllWhitelistsChanged := True, q_whitelistChanged := (\<lambda>_. None),
             q_orderedKeys := q_orderedKeys q @ [''whitelists.allChanged'']\<rparr>)"
| "queueEvent (ClassroomChanged classroomId now) q =
     (let q1 = (if q_classroomChanged q classroomId = None
                then q\<lparr>q_orderedKeys := q_orderedKeys q @ [''classroom.changed:'' @ classroomId]\<rparr> else q)
      in q1\<lparr>q_classroomChanged := (q_classroomChanged q1)(classroomId := Some (ClassroomChanged classroomId now))\<rparr>)"

definition event_at :: "event_queue \<Rightarrow> string \<Rightarrow> domain_event option" where
  "event_at q key =
     (if key = ''whitelists.allChanged'' then Some AllWhitelistsChanged
      else if starts_with key ''whitelist.changed:'' then
        (if q_hasAllWhitelistsChanged q then None
         else q_whitelistChanged q (drop (length ''whitelist.changed:'') key))
      else if starts_with key ''classroom.changed:'' then
        q_classroomChanged q (drop (length ''classroom.changed:'') key)
      else None)"

definition normalizeEvents :: "event_queue \<Rightarrow> domain_event list" where
  "normalizeEvents q = List.map_filter (event_at q) (q_orderedKeys q)"

section \<open>The transactional writer\<close>

text \<open>
  An operation gets the state of the transaction and the queue.  The result is what the caller
  gets, the committed state and the batch the dispatcher publishes.
\<close>

type_synonym ('db, 'e, 'r) tx_operation = "'db \<Rightarrow> event_queue \<Rightarrow> 'e + 'r \<times> 'db \<times> event_queue"

definition writeTransactionalCommand ::
  "('db, 'e, 'r) tx_operation \<Rightarrow> 'db \<Rightarrow> ('e + 'r) \<times> 'db \<times> domain_event list" where
  "writeTransactionalCommand operation db =
     (case operation db empty_queue of
        Inl e \<Rightarrow> (Inl e, db, [])
      | Inr (r, db', q) \<Rightarrow> (Inr r, db', normalizeEvents q))"

section \<open>What the collector promises\<close>

datatype event_key = Key_whitelist string | Key_all | Key_classroom string

fun ev_key :: "domain_event \<Rightarrow> event_key" where
  "ev_key (WhitelistChanged g) = Key_whitelist g"
| "ev_key AllWhitelistsChanged = Key_all"
| "ev_key (ClassroomChanged c now) = Key_classroom c"

fun key_text :: "event_key \<Rightarrow> string" where
  "key_text (Key_whitelist g) = ''whitelist.changed:'' @ g"
| "key_text Key_all = ''whitelists.allChanged''"
| "key_text (Key_classroom c) = ''classroom.changed:'' @ c"

fun shown :: "bool \<Rightarrow> event_key \<Rightarrow> bool" where
  "shown all (Key_whitelist g) = (\<not> all)"
| "shown all k = True"

definition last_event :: "domain_event list \<Rightarrow> event_key \<Rightarrow> domain_event option" where
  "last_event es k = List.find (\<lambda>e. ev_key e = k) (rev es)"

definition coalesce :: "domain_event list \<Rightarrow> domain_event list" where
  "coalesce es =
     List.map_filter (last_event es)
       (filter (shown (AllWhitelistsChanged \<in> set es)) (js_unique (map ev_key es)))"

lemma last_event_snoc: "last_event (es @ [e]) k = (if ev_key e = k then Some e else last_event es k)"
  by (simp add: last_event_def)

lemma last_event_key: "last_event es k = Some e \<Longrightarrow> e \<in> set es \<and> ev_key e = k"
  by (induction es rule: rev_induct) (auto simp: last_event_def split: if_splits)

lemma last_event_None: "last_event es k = None \<longleftrightarrow> k \<notin> ev_key ` set es"
  by (induction es rule: rev_induct) (auto simp: last_event_def)

lemma event_at_key_text:
  "event_at q (key_text k) =
     (case k of Key_all \<Rightarrow> Some AllWhitelistsChanged
      | Key_whitelist g \<Rightarrow> if q_hasAllWhitelistsChanged q then None else q_whitelistChanged q g
      | Key_classroom c \<Rightarrow> q_classroomChanged q c)"
  by (cases k) (auto simp: event_at_def starts_with_def)

text \<open>The queue after a list of events, in terms of the events.\<close>

definition queue_ok :: "domain_event list \<Rightarrow> event_queue \<Rightarrow> bool" where
  "queue_ok es q \<longleftrightarrow>
     (q_hasAllWhitelistsChanged q \<longleftrightarrow> AllWhitelistsChanged \<in> set es) \<and>
     (\<exists>ks. q_orderedKeys q = map key_text ks \<and>
       filter (shown (AllWhitelistsChanged \<in> set es)) ks =
         filter (shown (AllWhitelistsChanged \<in> set es)) (js_unique (map ev_key es))) \<and>
     (AllWhitelistsChanged \<notin> set es \<longrightarrow> (\<forall>g. q_whitelistChanged q g = last_event es (Key_whitelist g))) \<and>
     (\<forall>c. q_classroomChanged q c = last_event es (Key_classroom c))"

lemma ev_key_eqs [simp]:
  "ev_key e = Key_whitelist g \<longleftrightarrow> e = WhitelistChanged g" "ev_key e = Key_all \<longleftrightarrow> e = AllWhitelistsChanged"
  "Key_whitelist g = ev_key e \<longleftrightarrow> e = WhitelistChanged g" "Key_all = ev_key e \<longleftrightarrow> e = AllWhitelistsChanged"
  by (cases e; auto)+

lemma shown_snoc: "shown (b \<or> c) k \<Longrightarrow> shown b k"
  by (cases k) auto

lemma filter_shown_mono: "filter (shown True) xs = filter (shown True) (filter (shown b) xs)"
  by (induction xs) (auto elim: shown.elims)

lemma queue_ok_empty: "queue_ok [] empty_queue"
  by (simp add: queue_ok_def empty_queue_def last_event_def)

lemma queue_ok_whitelist:
  assumes "queue_ok es q"
  shows "queue_ok (es @ [WhitelistChanged g]) (queueEvent (WhitelistChanged g) q)"
proof -
  from assms obtain ks where ks: "q_orderedKeys q = map key_text ks"
    "filter (shown (AllWhitelistsChanged \<in> set es)) ks =
     filter (shown (AllWhitelistsChanged \<in> set es)) (js_unique (map ev_key es))"
    by (auto simp: queue_ok_def)
  show ?thesis
  proof (cases "AllWhitelistsChanged \<in> set es \<or> q_whitelistChanged q g \<noteq> None")
    case True
    have same: "AllWhitelistsChanged \<notin> set es \<Longrightarrow>
       last_event es (Key_whitelist g) = Some (WhitelistChanged g) \<and> Key_whitelist g \<in> ev_key ` set es"
      using True assms last_event_key [of es "Key_whitelist g"]
      by (fastforce simp: queue_ok_def last_event_None image_iff)
    show ?thesis
      using True assms ks same by (auto simp: queue_ok_def js_unique_snoc last_event_snoc)
  next
    case False
    then have "Key_whitelist g \<notin> ev_key ` set es"
      using assms by (simp add: queue_ok_def last_event_None)
    then show ?thesis
      using False assms ks
      by (auto simp: queue_ok_def js_unique_snoc last_event_snoc intro!: exI [of _ "ks @ [Key_whitelist g]"])
  qed
qed

lemma queue_ok_all:
  assumes "queue_ok es q"
  shows "queue_ok (es @ [AllWhitelistsChanged]) (queueEvent AllWhitelistsChanged q)"
proof -
  from assms obtain ks where ks: "q_orderedKeys q = map key_text ks"
    "filter (shown (AllWhitelistsChanged \<in> set es)) ks =
     filter (shown (AllWhitelistsChanged \<in> set es)) (js_unique (map ev_key es))"
    by (auto simp: queue_ok_def)
  show ?thesis
  proof (cases "AllWhitelistsChanged \<in> set es")
    case True
    then have "Key_all \<in> ev_key ` set es" by force
    then show ?thesis using True assms by (auto simp: queue_ok_def js_unique_snoc last_event_snoc)
  next
    case False
    then have "Key_all \<notin> ev_key ` set es" by auto
    moreover have "filter (shown True) ks = filter (shown True) (js_unique (map ev_key es))"
      using ks(2) False filter_shown_mono [of ks False] filter_shown_mono [of "js_unique (map ev_key es)" False]
      by simp
    ultimately show ?thesis
      using False assms ks(1)
      by (auto simp: queue_ok_def js_unique_snoc last_event_snoc intro!: exI [of _ "ks @ [Key_all]"])
  qed
qed

lemma queue_ok_classroom:
  assumes "queue_ok es q"
  shows "queue_ok (es @ [ClassroomChanged c now]) (queueEvent (ClassroomChanged c now) q)"
proof -
  from assms obtain ks where ks: "q_orderedKeys q = map key_text ks"
    "filter (shown (AllWhitelistsChanged \<in> set es)) ks =
     filter (shown (AllWhitelistsChanged \<in> set es)) (js_unique (map ev_key es))"
    by (auto simp: queue_ok_def)
  have known: "q_classroomChanged q c = None \<longleftrightarrow> Key_classroom c \<notin> ev_key ` set es"
    using assms by (simp add: queue_ok_def last_event_None)
  show ?thesis
  proof (cases "q_classroomChanged q c = None")
    case True
    then show ?thesis
      using assms ks known
      by (auto simp: queue_ok_def js_unique_snoc last_event_snoc Let_def
               intro!: exI [of _ "ks @ [Key_classroom c]"])
  next
    case False
    then show ?thesis
      using assms ks known by (auto simp: queue_ok_def js_unique_snoc last_event_snoc Let_def)
  qed
qed

lemma queue_ok_fold: "queue_ok es (fold queueEvent es empty_queue)"
proof (induction es rule: rev_induct)
  case Nil
  show ?case using queue_ok_empty by simp
next
  case (snoc e es)
  then show ?case
    by (cases e) (simp_all add: queue_ok_whitelist queue_ok_all queue_ok_classroom del: queueEvent.simps)
qed

lemma map_filter_filter: "(\<And>x. x \<in> set xs \<Longrightarrow> \<not> P x \<Longrightarrow> f x = None) \<Longrightarrow> List.map_filter f (filter P xs) = List.map_filter f xs"
  by (induction xs) (auto simp: List.map_filter_simps split: option.splits)

lemma map_filter_cong: "(\<And>x. x \<in> set xs \<Longrightarrow> f x = g x) \<Longrightarrow> List.map_filter f xs = List.map_filter g xs"
  by (induction xs) (auto simp: List.map_filter_simps split: option.splits)

lemma map_filter_map: "List.map_filter f (map g xs) = List.map_filter (f \<circ> g) xs"
  by (induction xs) (auto simp: List.map_filter_simps split: option.splits)

lemma event_at_shown:
  "queue_ok es q \<Longrightarrow> k \<in> ev_key ` set es \<Longrightarrow> shown (AllWhitelistsChanged \<in> set es) k \<Longrightarrow>
   event_at q (key_text k) = last_event es k"
  using last_event_key [of es k] last_event_None [of es k]
  by (cases k) (auto simp: queue_ok_def event_at_key_text simp del: key_text.simps)

lemma collected_coalesce: "normalizeEvents (fold queueEvent es empty_queue) = coalesce es"
proof -
  define q where "q = fold queueEvent es empty_queue"
  define sh where "sh = shown (AllWhitelistsChanged \<in> set es)"
  have ok: "queue_ok es q" unfolding q_def by (rule queue_ok_fold)
  then obtain ks where ks: "q_orderedKeys q = map key_text ks"
    "filter sh ks = filter sh (js_unique (map ev_key es))"
    by (auto simp: queue_ok_def sh_def)
  have "event_at q (key_text k) = None" if "\<not> sh k" for k
    using that ok by (cases k) (auto simp: event_at_key_text sh_def queue_ok_def simp del: key_text.simps)
  then have "normalizeEvents q = List.map_filter (event_at q \<circ> key_text) (filter sh ks)"
    by (simp add: normalizeEvents_def ks(1) map_filter_map map_filter_filter)
  also have "\<dots> = List.map_filter (last_event es) (filter sh (js_unique (map ev_key es)))"
    unfolding ks(2) using event_at_shown [OF ok] by (intro map_filter_cong) (auto simp: sh_def)
  finally show ?thesis by (simp add: coalesce_def q_def sh_def)
qed

text \<open>The collector.  What is sent after a sequence of events is exactly: one event per thing that
  changed, in the order of first mention, the latest event for each; and when all whitelists
  changed, that one event in place of those of single groups.\<close>
theorem collector_sends_coalesced:
  "normalizeEvents (fold queueEvent es empty_queue) =
     List.map_filter (last_event es)
       (filter (shown (AllWhitelistsChanged \<in> set es)) (js_unique (map ev_key es)))"
  using collected_coalesce [of es] by (simp add: coalesce_def)

lemma coalesce_covers:
  assumes "e \<in> set es"
  shows "\<exists>e'\<in>set (coalesce es). ev_key e' = ev_key e \<or> e' = AllWhitelistsChanged"
proof -
  let ?k = "if shown (AllWhitelistsChanged \<in> set es) (ev_key e) then ev_key e else Key_all"
  have "?k \<in> ev_key ` set es"
  proof (cases "shown (AllWhitelistsChanged \<in> set es) (ev_key e)")
    case True
    then show ?thesis using assms by simp
  next
    case False
    then have "AllWhitelistsChanged \<in> set es" by (cases "ev_key e") auto
    then show ?thesis using False by force
  qed
  moreover have "shown (AllWhitelistsChanged \<in> set es) ?k" by simp
  moreover from calculation obtain e' where "last_event es ?k = Some e'" "ev_key e' = ?k"
    using last_event_None [of es ?k] last_event_key [of es ?k] by (metis option.exhaust)
  ultimately have "e' \<in> set (coalesce es)"
    by (auto simp: coalesce_def List.map_filter_def image_iff intro!: bexI [of _ ?k])
  then show ?thesis using \<open>ev_key e' = ?k\<close> by (auto split: if_splits)
qed

lemma publish_one: "normalizeEvents (queueEvent (WhitelistChanged g) empty_queue) = [WhitelistChanged g]"
  by (simp add: normalizeEvents_def event_at_def empty_queue_def starts_with_def)

lemma publish_none [simp]: "normalizeEvents empty_queue = []"
  by (simp add: normalizeEvents_def empty_queue_def)

lemma write_failed:
  "operation db empty_queue = Inl e \<Longrightarrow> writeTransactionalCommand operation db = (Inl e, db, [])"
  by (simp add: writeTransactionalCommand_def)

lemma write_committed:
  "operation db empty_queue = Inr (r, db', q) \<Longrightarrow>
   writeTransactionalCommand operation db = (Inr r, db', normalizeEvents q)"
  by (simp add: writeTransactionalCommand_def)

end
