(* ===== verification/Group_Services.thy ===== *)
theory Group_Services
  imports Whitelist_Export Accounts Domain_Events
begin

text \<open>
  The services that change groups and rules:
  \<open>api/src/services/whitelist-rule-command.service.ts\<close>, \<open>groups-rules-mutations.service.ts\<close> and
  \<open>groups-management-mutations.service.ts\<close>.  Each returns what the caller gets, the new store and
  the events it publishes, from which the machines learn that their whitelist changed.

  \<open>export_change_published\<close> states that no change of an exported whitelist goes unannounced.
  \<open>org_db\<close> joins the groups with the accounts, whose roles name groups.
\<close>

section \<open>Results\<close>

datatype service_error =
    Not_found string | Bad_request string | Conflict string | Forbidden string | Unauthorized string
  | Internal_error string

text \<open>A service returns data or an error, or throws.\<close>

datatype 'a outcome = Ok 'a | Fail service_error | Throws db_error

type_synonym ('a, 's) svc_result = "'a outcome \<times> 's \<times> domain_event list"

definition finish :: "('r \<Rightarrow> 'a outcome) \<Rightarrow> (db_error + 'r) \<times> 's \<times> domain_event list \<Rightarrow> ('a, 's) svc_result" where
  "finish f res = (case res of (r, s, evs) \<Rightarrow> (case r of Inl e \<Rightarrow> Throws e | Inr x \<Rightarrow> f x, s, evs))"

lemma triple: "p = (fst p, fst (snd p), snd (snd p))"
  by simp

definition publish_groups :: "string list \<Rightarrow> event_queue \<Rightarrow> event_queue" where
  "publish_groups gids q = fold (\<lambda>g. queueEvent (WhitelistChanged g)) gids q"

section \<open>Rule commands\<close>

definition createManualWhitelistRule ::
  "string \<Rightarrow> int \<Rightarrow> string \<Rightarrow> rule_type \<Rightarrow> string \<Rightarrow> string option \<Rightarrow> group_store \<Rightarrow>
   (db_error + create_rule_result) \<times> group_store \<times> domain_event list" where
  "createManualWhitelistRule newId now gid type value comment =
     writeTransactionalCommand (\<lambda>tx q.
       and_then (createRule newId now gid type value comment tx) (\<lambda>(created, tx1).
         Inr (created, tx1,
              case created of
                Rule_created i \<Rightarrow> if i \<noteq> [] then queueEvent (WhitelistChanged gid) q else q
              | Rule_rejected _ \<Rightarrow> q)))"

definition deleteWhitelistRule ::
  "int \<Rightarrow> string option \<Rightarrow> string \<Rightarrow> group_store \<Rightarrow> (db_error + bool) \<times> group_store \<times> domain_event list" where
  "deleteWhitelistRule now gid i =
     writeTransactionalCommand (\<lambda>tx q.
       case deleteRule now i tx of (wasDeleted, tx1) \<Rightarrow>
         Inr (wasDeleted, tx1,
              case gid of Some g \<Rightarrow> if wasDeleted \<and> g \<noteq> [] then queueEvent (WhitelistChanged g) q else q | None \<Rightarrow> q))"

definition bulkDeleteWhitelistRules ::
  "int \<Rightarrow> string list \<Rightarrow> api_rule list \<Rightarrow> group_store \<Rightarrow> (db_error + nat) \<times> group_store \<times> domain_event list" where
  "bulkDeleteWhitelistRules now ids rules =
     writeTransactionalCommand (\<lambda>tx q.
       case bulkDeleteRules now ids tx of (deletedCount, tx1) \<Rightarrow>
         Inr (deletedCount, tx1,
              if deletedCount > 0 then publish_groups (js_unique (map ar_groupId rules)) q else q))"

definition ensureGroupExists :: "int \<Rightarrow> string \<Rightarrow> group_store \<Rightarrow> service_error + unit" where
  "ensureGroupExists now gid s =
     (case getGroupById now gid s of None \<Rightarrow> Inl (Not_found ''Group not found'') | Some _ \<Rightarrow> Inr ())"

record create_rule_input =
  cri_groupId :: string
  cri_type :: rule_type
  cri_value :: string
  cri_comment :: "string option"

definition svc_createRule :: "string \<Rightarrow> int \<Rightarrow> create_rule_input \<Rightarrow> group_store \<Rightarrow> (string, group_store) svc_result" where
  "svc_createRule newId now input s =
     (let cleanedValue = cleanRuleValue (cri_value input) (cri_type input = Blocked_path);
          validation = validateRuleValue cleanedValue (cri_type input)
      in if cleanedValue = [] then (Fail (Bad_request ''Value is required''), s, [])
         else if \<not> rv_valid validation then
           (Fail (Bad_request (or_else (rv_error validation) ''Invalid rule value format'')), s, [])
         else (case ensureGroupExists now (cri_groupId input) s of
             Inl e \<Rightarrow> (Fail e, s, [])
           | Inr _ \<Rightarrow>
               finish (\<lambda>result. case result of
                   Rule_rejected msg \<Rightarrow> Fail (Conflict msg)
                 | Rule_created i \<Rightarrow> if i = [] then Fail (Internal_error ''Failed to create rule'') else Ok i)
                 (createManualWhitelistRule newId now (cri_groupId input) (cri_type input) cleanedValue
                    (cri_comment input) s)))"

definition svc_deleteRule :: "int \<Rightarrow> string \<Rightarrow> string option \<Rightarrow> group_store \<Rightarrow> (bool, group_store) svc_result" where
  "svc_deleteRule now i gid s =
     (let ruleGroupId = (case gid of Some g \<Rightarrow> if g = [] then map_option ar_groupId (getRuleById now i s) else Some g
                         | None \<Rightarrow> map_option ar_groupId (getRuleById now i s))
      in finish Ok (deleteWhitelistRule now ruleGroupId i s))"

definition svc_bulkDeleteRules ::
  "int \<Rightarrow> string list \<Rightarrow> api_rule list option \<Rightarrow> group_store \<Rightarrow> (nat \<times> api_rule list, group_store) svc_result" where
  "svc_bulkDeleteRules now ids preloaded s =
     (if ids = [] then (Ok (0, []), s, [])
      else let rules = or_else preloaded (getRulesByIds now ids s)
           in finish (\<lambda>deleted. Ok (deleted, rules)) (bulkDeleteWhitelistRules now ids rules s))"

record update_rule_request =
  urr_id :: string
  urr_groupId :: string
  urr_value :: "string option"
  urr_comment :: "string option option"

definition update_rule_tx ::
  "int \<Rightarrow> update_rule_request \<Rightarrow> string option \<Rightarrow> bool \<Rightarrow> group_store \<Rightarrow>
   (db_error + api_rule option) \<times> group_store \<times> domain_event list" where
  "update_rule_tx now input cleanedValue didChangeExport s =
     writeTransactionalCommand (\<lambda>tx q.
       and_then (updateRule now \<lparr>uri_id = urr_id input, uri_value = cleanedValue, uri_comment = urr_comment input\<rparr>
                   (Some s) tx) (\<lambda>(result, tx1).
         Inr (result, tx1, if result \<noteq> None \<and> didChangeExport
                           then queueEvent (WhitelistChanged (urr_groupId input)) q else q))) s"

definition svc_updateRule :: "int \<Rightarrow> update_rule_request \<Rightarrow> group_store \<Rightarrow> (api_rule, group_store) svc_result" where
  "svc_updateRule now input s =
     (case ensureGroupExists now (urr_groupId input) s of
        Inl e \<Rightarrow> (Fail e, s, [])
      | Inr _ \<Rightarrow>
          (case getRuleById now (urr_id input) s of
             None \<Rightarrow> (Fail (Not_found ''Rule not found''), s, [])
           | Some existingRule \<Rightarrow>
               if ar_groupId existingRule \<noteq> urr_groupId input
               then (Fail (Bad_request ''Rule does not belong to this group''), s, [])
               else
                 let cleanedValue = map_option (\<lambda>v. cleanRuleValue v (ar_type existingRule = Blocked_path)) (urr_value input);
                     didChangeExport = (cleanedValue \<noteq> None \<and> cleanedValue \<noteq> Some (ar_value existingRule));
                     run = finish (\<lambda>updated. case updated of
                               None \<Rightarrow> Fail (Conflict ''A rule with this value already exists'')
                             | Some r \<Rightarrow> Ok r)
                             (update_rule_tx now input cleanedValue didChangeExport s)
                 in (case cleanedValue of
                       None \<Rightarrow> run
                     | Some v \<Rightarrow>
                         let validation = validateRuleValue v (ar_type existingRule)
                         in if v = [] then (Fail (Bad_request ''Value cannot be empty''), s, [])
                            else if \<not> rv_valid validation then
                              (Fail (Bad_request (or_else (rv_error validation) ''Invalid rule value format'')), s, [])
                            else run)))"

definition svc_setRuleEnabled ::
  "int \<Rightarrow> string \<Rightarrow> string \<Rightarrow> bool \<Rightarrow> group_store \<Rightarrow> (api_rule, group_store) svc_result" where
  "svc_setRuleEnabled now i gid enabled s =
     (case getRuleById now i s of
        None \<Rightarrow> (Fail (Not_found ''Rule not found''), s, [])
      | Some existingRule \<Rightarrow>
          if ar_groupId existingRule \<noteq> gid then (Fail (Bad_request ''Rule does not belong to this group''), s, [])
          else
            (case writeTransactionalCommand (\<lambda>tx q.
                case setRuleEnabled now i enabled (Some s) tx of (result, tx1) \<Rightarrow>
                  Inr (result \<noteq> None, tx1,
                       if result \<noteq> None \<and> ar_enabled existingRule \<noteq> enabled
                       then queueEvent (WhitelistChanged gid) q else q)) s of
               (didUpdate, s1, evs) \<Rightarrow>
                 (case didUpdate of
                    Inl e \<Rightarrow> Throws e
                  | Inr False \<Rightarrow> Fail (Not_found ''Rule not found'')
                  | Inr True \<Rightarrow> (case getRuleById now i s1 of
                       None \<Rightarrow> Fail (Not_found ''Rule not found after update'') | Some r \<Rightarrow> Ok r), s1, evs)))"

definition svc_bulkSetRulesEnabled ::
  "int \<Rightarrow> string list \<Rightarrow> bool \<Rightarrow> api_rule list option \<Rightarrow> group_store \<Rightarrow> (nat, group_store) svc_result" where
  "svc_bulkSetRulesEnabled now ids enabled preloaded s =
     (if ids = [] then (Ok 0, s, [])
      else
        let rules = or_else preloaded (getRulesByIds now ids s)
        in finish Ok (writeTransactionalCommand (\<lambda>tx q.
             case bulkSetRulesEnabled now ids enabled tx of (n, tx1) \<Rightarrow>
               Inr (n, tx1, if n > 0 then publish_groups (js_unique (map ar_groupId rules)) q else q)) s))"

text \<open>Each value comes with the identifier its insertion would draw.\<close>

definition svc_bulkCreateRules ::
  "int \<Rightarrow> string \<Rightarrow> rule_type \<Rightarrow> (string \<times> string) list \<Rightarrow> group_store \<Rightarrow> (nat, group_store) svc_result" where
  "svc_bulkCreateRules now gid type values s =
     (case ensureGroupExists now gid s of
        Inl e \<Rightarrow> (Fail e, s, [])
      | Inr _ \<Rightarrow>
          let cleanedValues = map (\<lambda>(i, v). (i, cleanRuleValue v (type = Blocked_path))) values
          in finish Ok (writeTransactionalCommand (\<lambda>tx q.
               and_then (bulkCreateRules now gid type cleanedValues tx) (\<lambda>(createdCount, tx1).
                 Inr (createdCount, tx1, if createdCount > 0 then queueEvent (WhitelistChanged gid) q else q))) s))"

section \<open>Group management\<close>

record org_db =
  org_groups :: group_store
  org_accounts :: account_db

definition sanitizeGroupName :: "string \<Rightarrow> string" where
  "sanitizeGroupName raw = sanitizeSlug raw 100 True"

definition name_candidate :: "string \<Rightarrow> nat \<Rightarrow> string" where
  "name_candidate base i =
     drop_trailing CHR ''-'' (take 100 (base @ (if i = 0 then [] else ''-'' @ nat_str (i + 1))))"

text \<open>\<open>fresh\<close> is the random part of the name of last resort.\<close>

definition findAvailableGroupName :: "int \<Rightarrow> string \<Rightarrow> string \<Rightarrow> group_store \<Rightarrow> string" where
  "findAvailableGroupName now fresh baseName s =
     (let trimmedBase = sanitizeGroupName baseName
      in if trimmedBase = [] then ''group-'' @ fresh
         else (case List.find (\<lambda>c. getGroupMetaByName now c s = None) (map (name_candidate trimmedBase) [0..<50]) of
             Some candidate \<Rightarrow> candidate
           | None \<Rightarrow> drop_trailing CHR ''-'' (take 100 (trimmedBase @ ''-'' @ fresh))))"

record create_group_input =
  cgi_name :: string
  cgi_displayName :: string
  cgi_visibility :: "string option"
  cgi_ownerUserId :: "string option"

definition name_taken :: "db_error \<Rightarrow> 'a outcome" where
  "name_taken e = (if e = App_error ''UNIQUE_CONSTRAINT_VIOLATION''
                   then Fail (Conflict ''A group with this name already exists'') else Throws e)"

definition svc_createGroup ::
  "string \<Rightarrow> int \<Rightarrow> create_group_input \<Rightarrow> group_store \<Rightarrow> (string \<times> string, group_store) svc_result" where
  "svc_createGroup newId now input s =
     (let safeName = sanitizeGroupName (cgi_name input)
      in if js_trim (cgi_name input) = [] then (Fail (Bad_request ''Name is required''), s, [])
         else if js_trim (cgi_displayName input) = [] then (Fail (Bad_request ''Display name is required''), s, [])
         else if safeName = [] then (Fail (Bad_request ''Name is invalid''), s, [])
         else
           let visibility = (case cgi_visibility input of
                   Some v \<Rightarrow> if v = ''private'' \<or> v = ''instance_public'' then Some v else None | None \<Rightarrow> None)
           in (case createGroup newId now safeName (cgi_displayName input)
                     \<lparr>cgo_enabled = None, cgo_visibility = visibility, cgo_ownerUserId = cgi_ownerUserId input\<rparr> s of
                 Inl e \<Rightarrow> (name_taken e, s, [])
               | Inr (i, s1) \<Rightarrow> (Ok (i, safeName), s1, [])))"

record update_group_input =
  ugi_id :: string
  ugi_displayName :: string
  ugi_enabled :: bool
  ugi_visibility :: "string option"

definition svc_updateGroup :: "int \<Rightarrow> update_group_input \<Rightarrow> group_store \<Rightarrow> (group_with_counts, group_store) svc_result" where
  "svc_updateGroup now input s =
     (case getGroupById now (ugi_id input) s of
        None \<Rightarrow> (Fail (Not_found ''Group not found''), s, [])
      | Some existing \<Rightarrow>
          let s1 = updateGroup now (ugi_id input) (ugi_displayName input) (ugi_enabled input) (ugi_visibility input) s
          in (case getGroupById now (ugi_id input) s1 of
                None \<Rightarrow> (Fail (Internal_error ''Failed to fetch updated group''), s1, [])
              | Some refreshed \<Rightarrow>
                  (Ok refreshed, s1, normalizeEvents
                     (if gwc_enabled existing \<noteq> ugi_enabled input
                      then queueEvent (WhitelistChanged (ugi_id input)) empty_queue else empty_queue))))"

definition svc_deleteGroup :: "int \<Rightarrow> string \<Rightarrow> org_db \<Rightarrow> (bool, org_db) svc_result" where
  "svc_deleteGroup now i org =
     (case getGroupById now i (org_groups org) of
        None \<Rightarrow> (Fail (Not_found ''Group not found''), org, [])
      | Some _ \<Rightarrow>
          (case deleteGroup i (org_groups org) of (didDelete, gs) \<Rightarrow>
             if didDelete
             then (Ok True, \<lparr>org_groups = gs, org_accounts = snd (removeGroupFromAllRoles i (org_accounts org))\<rparr>,
                   normalizeEvents (queueEvent (WhitelistChanged i) empty_queue))
             else (Ok False, org\<lparr>org_groups := gs\<rparr>, normalizeEvents empty_queue)))"

record clone_group_input =
  cln_sourceGroupId :: string
  cln_name :: "string option"
  cln_displayName :: string
  cln_ownerUserId :: string

definition svc_cloneGroup ::
  "string \<Rightarrow> (nat \<Rightarrow> string) \<Rightarrow> string \<Rightarrow> int \<Rightarrow> clone_group_input \<Rightarrow> group_store \<Rightarrow>
   (string \<times> string, group_store) svc_result" where
  "svc_cloneGroup newId newIds fresh now input s =
     (case getGroupById now (cln_sourceGroupId input) s of
        None \<Rightarrow> (Fail (Not_found ''Group not found''), s, [])
      | Some source \<Rightarrow>
          let baseName = or_else (map_option js_trim (cln_name input)) (gwc_name source @ ''-copy'');
              name = findAvailableGroupName now fresh baseName s
          in (case writeTransactionalCommand (\<lambda>tx q.
                 and_then (createGroup newId now name (cln_displayName input)
                    \<lparr>cgo_enabled = None, cgo_visibility = Some ''private'', cgo_ownerUserId = Some (cln_ownerUserId input)\<rparr> tx) (\<lambda>(createdId, tx1).
                 and_then (copyRulesToGroup newIds now (gwc_id source) createdId tx1) (\<lambda>(_, tx2).
                   Inr (createdId, touchGroupUpdatedAt now createdId tx2,
                        queueEvent (WhitelistChanged createdId) q)))) s of
                (Inl e, s1, evs) \<Rightarrow> (name_taken e, s1, evs)
              | (Inr i, s1, evs) \<Rightarrow> (Ok (i, name), s1, evs)))"

definition svc_toggleSystemStatus :: "int \<Rightarrow> bool \<Rightarrow> group_store \<Rightarrow> (system_status, group_store) svc_result" where
  "svc_toggleSystemStatus now enable s =
     (case toggleSystemStatus now enable s of (result, s1) \<Rightarrow>
        (Ok result, s1, normalizeEvents (queueEvent AllWhitelistsChanged empty_queue)))"

end
