(* ===== verification/User_Management.thy ===== *)
theory User_Management
  imports Group_Services School_State
begin

text \<open>
  \<open>api/src/services/user-management.service.ts\<close> and \<open>user-query.service.ts\<close>, and what holds of the
  accounts and the groups together: one role per user, roles of existing users only, and every
  group a role names exists.  The last is not a database constraint (the column is an array):
  it holds because each command checks the groups it writes and because deleting a group
  takes it out of all roles.
\<close>

section \<open>The services\<close>

text \<open>\<open>driver\<close> is the message of the database driver for a violated constraint.\<close>

definition getErrorMessage :: "(db_error \<Rightarrow> string) \<Rightarrow> db_error \<Rightarrow> string" where
  "getErrorMessage driver e = (case e of App_error m \<Rightarrow> m | _ \<Rightarrow> driver e)"

definition mapDBRoleToRole :: "int \<Rightarrow> role_row \<Rightarrow> api_role" where
  "mapDBRoleToRole now r =
     \<lparr>arl_id = rol_id r, arl_userId = rol_userId r,
      arl_role = or_else (normalizeUserRoleString (Some (rol_role r))) Student,
      arl_groupIds = or_else (rol_groupIds r) [], arl_createdAt = or_else (rol_createdAt r) now,
      arl_expiresAt = rol_expiresAt r\<rparr>"

record user_with_roles = safe_user +
  uwr_roles :: "api_role list"

definition listUsers :: "int \<Rightarrow> account_db \<Rightarrow> user_with_roles list" where
  "listUsers now db =
     map (\<lambda>u. safe_user.extend u \<lparr>uwr_roles = getRolesByUser now (su_id u) db\<rparr>) (getAllUsers now db)"

definition getUser :: "int \<Rightarrow> string \<Rightarrow> account_db \<Rightarrow> user_with_roles outcome" where
  "getUser now i db =
     (case getUserById i db of
        None \<Rightarrow> Fail (Not_found ''User not found'')
      | Some u \<Rightarrow> Ok \<lparr>su_id = usr_id u, su_email = usr_email u, su_name = usr_name u, su_isActive = usr_isActive u,
                     su_emailVerified = usr_emailVerified u, su_createdAt = or_else (usr_createdAt u) now,
                     su_updatedAt = or_else (usr_updatedAt u) now,
                     uwr_roles = getRolesByUser now (usr_id u) db\<rparr>)"

definition svc_updateUser ::
  "(db_error \<Rightarrow> string) \<Rightarrow> (string \<Rightarrow> string) \<Rightarrow> int \<Rightarrow> string \<Rightarrow> update_user_data \<Rightarrow> account_db \<Rightarrow>
   safe_user outcome \<times> account_db" where
  "svc_updateUser driver hash now i d db =
     (case getUserById i db of
        None \<Rightarrow> (Fail (Not_found ''User not found''), db)
      | Some _ \<Rightarrow>
          (case updateUser hash now i d db of
             Inl e \<Rightarrow> (Fail (Bad_request (getErrorMessage driver e)), db)
           | Inr (None, db1) \<Rightarrow> (Fail (Not_found ''User not found after update''), db1)
           | Inr (Some u, db1) \<Rightarrow> (Ok u, db1)))"

definition svc_deleteUser :: "(string \<Rightarrow> bool) \<Rightarrow> string \<Rightarrow> account_db \<Rightarrow> bool outcome \<times> account_db" where
  "svc_deleteUser kept i db =
     (case getUserById i db of
        None \<Rightarrow> (Fail (Not_found ''User not found''), db)
      | Some _ \<Rightarrow>
          (case deleteUser kept i (snd (revokeAllUserRoles i db)) of
             Inl e \<Rightarrow> (Throws e, db)
           | Inr (_, db1) \<Rightarrow> (Ok True, db1)))"

definition svc_assignRole ::
  "(db_error \<Rightarrow> string) \<Rightarrow> string \<Rightarrow> int \<Rightarrow> string \<Rightarrow> user_role \<Rightarrow> string list \<Rightarrow> org_db \<Rightarrow> api_role outcome \<times> org_db" where
  "svc_assignRole driver newId now userId role groupIds org =
     (case getUserById userId (org_accounts org) of
        None \<Rightarrow> (Fail (Not_found ''User not found''), org)
      | Some _ \<Rightarrow>
          (case assignRole newId now \<lparr>ard_userId = userId, ard_role = role, ard_groupIds = groupIds, ard_createdBy = None\<rparr>
                  (org_groups org) (org_accounts org) of
             Inl e \<Rightarrow> (Fail (Bad_request (getErrorMessage driver e)), org)
           | Inr (r, acc) \<Rightarrow> (Ok (mapDBRoleToRole now r), org\<lparr>org_accounts := acc\<rparr>)))"

definition createUserWithRole ::
  "(db_error \<Rightarrow> string) \<Rightarrow> (string \<Rightarrow> string) \<Rightarrow> string \<Rightarrow> string \<Rightarrow> int \<Rightarrow> create_user_data \<Rightarrow> user_role option \<Rightarrow>
   string list \<Rightarrow> org_db \<Rightarrow> safe_user outcome \<times> org_db" where
  "createUserWithRole driver hash newUserId newRoleId now input role groupIds org =
     (case and_then (createUser hash newUserId now input (Some True) (org_accounts org)) (\<lambda>(user, acc).
        case role of
          None \<Rightarrow> Inr (user, acc)
        | Some r \<Rightarrow>
            and_then (assignRole newRoleId now \<lparr>ard_userId = su_id user, ard_role = r, ard_groupIds = groupIds,
                        ard_createdBy = None\<rparr> (org_groups org) acc) (\<lambda>(_, acc1). Inr (user, acc1))) of
        Inl e \<Rightarrow> (Fail (Bad_request (getErrorMessage driver e)), org)
      | Inr (user, acc) \<Rightarrow> (Ok user, org\<lparr>org_accounts := acc\<rparr>))"

definition createManagedUser ::
  "(db_error \<Rightarrow> string) \<Rightarrow> (string \<Rightarrow> string) \<Rightarrow> string \<Rightarrow> string \<Rightarrow> int \<Rightarrow> create_user_data \<Rightarrow> user_role option \<Rightarrow>
   string list \<Rightarrow> org_db \<Rightarrow> user_with_roles outcome \<times> org_db" where
  "createManagedUser driver hash newUserId newRoleId now input role groupIds org =
     (case getUserByEmail (cud_email input) (org_accounts org) of
        Some _ \<Rightarrow> (Fail (Conflict ''Email exists''), org)
      | None \<Rightarrow>
          (case createUserWithRole driver hash newUserId newRoleId now input role groupIds org of
             (Ok user, org1) \<Rightarrow> (getUser now (su_id user) (org_accounts org1), org1)
           | (Fail e, org1) \<Rightarrow> (Fail e, org1)
           | (Throws e, org1) \<Rightarrow> (Throws e, org1)))"

definition updateManagedUser ::
  "(db_error \<Rightarrow> string) \<Rightarrow> (string \<Rightarrow> string) \<Rightarrow> int \<Rightarrow> string \<Rightarrow> update_user_data \<Rightarrow> account_db \<Rightarrow>
   user_with_roles outcome \<times> account_db" where
  "updateManagedUser driver hash now i d db =
     (case svc_updateUser driver hash now i d db of
        (Ok _, db1) \<Rightarrow> (getUser now i db1, db1)
      | (Fail e, db1) \<Rightarrow> (Fail e, db1)
      | (Throws e, db1) \<Rightarrow> (Throws e, db1))"

definition deleteManagedUser ::
  "(string \<Rightarrow> bool) \<Rightarrow> string \<Rightarrow> string \<Rightarrow> account_db \<Rightarrow> bool outcome \<times> account_db" where
  "deleteManagedUser kept actorUserId targetUserId db =
     (if actorUserId = targetUserId then (Fail (Bad_request ''Cannot delete yourself''), db)
      else svc_deleteUser kept targetUserId db)"

definition svc_revokeRole :: "string \<Rightarrow> account_db \<Rightarrow> bool outcome \<times> account_db" where
  "svc_revokeRole roleId db =
     (case getRoleById roleId db of
        None \<Rightarrow> (Fail (Not_found ''Role not found''), db)
      | Some _ \<Rightarrow> (Ok True, snd (revokeRole roleId db)))"

definition ensureTeacherRoleGroupAccess ::
  "string \<Rightarrow> int \<Rightarrow> string \<Rightarrow> string \<Rightarrow> string \<Rightarrow> org_db \<Rightarrow> unit outcome \<times> org_db" where
  "ensureTeacherRoleGroupAccess newId now userId groupId createdBy org =
     (case List.find (\<lambda>r. rol_role r = ''teacher'') (getUserRoles userId (org_accounts org)) of
        None \<Rightarrow>
          (case assignRole newId now \<lparr>ard_userId = userId, ard_role = Teacher, ard_groupIds = [groupId],
                  ard_createdBy = Some createdBy\<rparr> (org_groups org) (org_accounts org) of
             Inl e \<Rightarrow> (Throws e, org)
           | Inr (_, acc) \<Rightarrow> (Ok (), org\<lparr>org_accounts := acc\<rparr>))
      | Some teacherRole \<Rightarrow>
          if groupId \<in> set (or_else (rol_groupIds teacherRole) []) then (Ok (), org)
          else
            (case addGroupsToRole (rol_id teacherRole) [groupId] (org_groups org) (org_accounts org) of
               Inl e \<Rightarrow> (Throws e, org)
             | Inr (_, acc) \<Rightarrow> (Ok (), org\<lparr>org_accounts := acc\<rparr>)))"

definition register ::
  "(db_error \<Rightarrow> string) \<Rightarrow> (string \<Rightarrow> string) \<Rightarrow> string \<Rightarrow> int \<Rightarrow> create_user_data \<Rightarrow> account_db \<Rightarrow>
   safe_user outcome \<times> account_db" where
  "register driver hash newId now input db =
     (case createUser hash newId now input (Some True) db of
        Inl e \<Rightarrow> (Fail (Bad_request (getErrorMessage driver e)), db)
      | Inr (user, db1) \<Rightarrow> (Ok user, db1))"

section \<open>The invariant\<close>

definition account_ok :: "account_db \<Rightarrow> bool" where
  "account_ok db \<longleftrightarrow>
     users_unique (acc_users db) \<and> distinct_key rol_id (acc_roles db) \<and> distinct_key rol_userId (acc_roles db) \<and>
     (\<forall>r\<in>set (acc_roles db). rol_userId r \<in> set (user_ids db) \<and> fk (rol_createdBy r) (user_ids db) \<and>
        (\<exists>role. rol_role r = role_text role))"

definition store_group_ids :: "group_store \<Rightarrow> string set" where
  "store_group_ids s = grp_id ` set (gs_groups s)"

definition role_groups :: "role_row \<Rightarrow> string set" where
  "role_groups r = set (or_else (rol_groupIds r) [])"

text \<open>The group identifiers a role can name: those the validation leaves as they are.\<close>

definition nameable :: "group_store \<Rightarrow> string set" where
  "nameable s = {g \<in> store_group_ids s. js_trim g = g \<and> g \<noteq> []}"

definition roles_named :: "group_store \<Rightarrow> account_db \<Rightarrow> bool" where
  "roles_named gs db \<longleftrightarrow> (\<forall>r\<in>set (acc_roles db). role_groups r \<subseteq> nameable gs)"

definition acc_inv :: "group_store \<Rightarrow> account_db \<Rightarrow> bool" where
  "acc_inv gs db \<longleftrightarrow> account_ok db \<and> roles_named gs db"

definition org_ok :: "org_db \<Rightarrow> bool" where
  "org_ok org \<longleftrightarrow> store_ok (org_groups org) \<and> acc_inv (org_groups org) (org_accounts org)"

subsection \<open>Users\<close>

lemma account_ok_users:
  assumes "account_ok db" "users_unique t" "set (user_ids db) \<subseteq> usr_id ` set t"
  shows "account_ok (db\<lparr>acc_users := t\<rparr>)"
proof -
  have sub: "set (user_ids db) \<subseteq> set (user_ids (db\<lparr>acc_users := t\<rparr>))"
    using assms(3) by (simp add: user_ids_def)
  show ?thesis
    unfolding account_ok_def
    using assms(1,2) sub fk_mono [OF _ sub] by (auto simp: account_ok_def)
qed

lemma put_users_inv:
  assumes "acc_inv gs db" "put_users t db = Inr db1" "set (user_ids db) \<subseteq> usr_id ` set t"
  shows "acc_inv gs db1"
  using assms by (auto simp: acc_inv_def put_users_def roles_named_def account_ok_users split: if_splits)

lemma ids_upd_by: "(\<And>r. key (f r) = key r) \<Longrightarrow> key ` set (upd_by k i f t) = key ` set t"
  unfolding upd_by_def by (rule key_image_upd)

lemma createUser_inv:
  "acc_inv gs db \<Longrightarrow> createUser hash newId now d v db = Inr (u, db1) \<Longrightarrow> acc_inv gs db1"
  by (auto simp: createUser_def Let_def and_then_Inr_iff user_ids_def set_ins_row elim!: put_users_inv)

lemma createGoogleUser_inv:
  "acc_inv gs db \<Longrightarrow> createGoogleUser newId now e n g db = Inr (u, db1) \<Longrightarrow> acc_inv gs db1"
  by (auto simp: createGoogleUser_def Let_def and_then_Inr_iff user_ids_def set_ins_row elim!: put_users_inv)

lemma linkGoogleId_inv:
  "acc_inv gs db \<Longrightarrow> linkGoogleId now i g db = Inr (u, db1) \<Longrightarrow> acc_inv gs db1"
  by (auto simp: linkGoogleId_def and_then_Inr_iff user_ids_def ids_upd_by elim!: put_users_inv)

lemma updateUser_inv:
  "acc_inv gs db \<Longrightarrow> updateUser hash now i d db = Inr (u, db1) \<Longrightarrow> acc_inv gs db1"
  by (auto simp: updateUser_def and_then_Inr_iff user_ids_def ids_upd_by set_user_def elim!: put_users_inv split: if_splits)

lemma touch_user_inv:
  assumes "acc_inv gs db" "\<And>u. usr_id (f u) = usr_id u" "\<And>u. usr_email (f u) = usr_email u"
    "\<And>u. usr_googleId (f u) = usr_googleId u"
  shows "acc_inv gs (touch_user i f db)"
proof -
  have "map k (upd_by usr_id i f t) = map k t" if "\<And>u. k (f u) = k u" for k :: "user_row \<Rightarrow> string" and t
    using that by (induction t) (auto simp: upd_by_def upd_where_def)
  moreover have "List.map_filter usr_googleId (upd_by usr_id i f t) = List.map_filter usr_googleId t" for t
    using assms(4) by (induction t) (auto simp: upd_by_def upd_where_def split: option.splits)
  ultimately have "users_unique (upd_by usr_id i f (acc_users db))"
    using assms by (simp add: users_unique_def acc_inv_def account_ok_def)
  then show ?thesis
    using assms(1,2) unfolding touch_user_def acc_inv_def
    by (auto simp: roles_named_def intro!: account_ok_users) (simp add: ids_upd_by user_ids_def)
qed

lemma updateLastLogin_inv: "acc_inv gs db \<Longrightarrow> acc_inv gs (updateLastLogin now i db)"
  unfolding updateLastLogin_def by (rule touch_user_inv) simp_all

lemma verifyEmail_inv: "acc_inv gs db \<Longrightarrow> acc_inv gs (snd (verifyEmail now i db))"
  unfolding verifyEmail_def snd_conv by (rule touch_user_inv) simp_all

lemma map_filter_subset: "set (List.map_filter k (filter P xs)) \<subseteq> set (List.map_filter k xs)"
  by (induction xs) (auto split: option.splits)

lemma map_filter_sub: "distinct (List.map_filter k xs) \<Longrightarrow> distinct (List.map_filter k (filter P xs))"
  using map_filter_subset [of k P] by (induction xs) (auto split: option.splits)

lemma users_unique_del: "users_unique t \<Longrightarrow> users_unique (del_where P t)"
  by (auto simp: users_unique_def del_where_def distinct_map_filter map_filter_sub)

lemma deleteUser_inv:
  assumes "acc_inv gs db" "deleteUser kept i db = Inr (b, db1)"
  shows "acc_inv gs db1"
proof (cases "\<exists>u\<in>set (acc_users db). usr_id u = i")
  case True
  then have "0 < count_where (\<lambda>u. usr_id u = i) (acc_users db)"
    by (auto simp: count_where_def filter_empty_conv)
  then have db1: "db1 = \<lparr>acc_users = del_by usr_id i (acc_users db), acc_roles = del_where (\<lambda>r. rol_userId r = i) (acc_roles db)\<rparr>"
    and nc: "\<And>r. r \<in> set (acc_roles db) \<Longrightarrow> rol_userId r \<noteq> i \<Longrightarrow> rol_createdBy r \<noteq> Some i"
    using assms(2) by (auto simp: deleteUser_def Let_def list_ex_iff set_del_where split: if_splits)
  have ids: "set (user_ids db1) = set (user_ids db) - {i}"
    by (auto simp: db1 user_ids_def del_by_def set_del_where)
  show ?thesis
    using assms(1) nc ids unfolding acc_inv_def account_ok_def roles_named_def
    by (auto simp: db1 users_unique_del del_by_def distinct_key_del_where set_del_where fk_def split: option.splits)
next
  case False
  then have "count_where (\<lambda>u. usr_id u = i) (acc_users db) = 0" "del_by usr_id i (acc_users db) = acc_users db"
    by (auto simp: count_where_def filter_empty_conv del_by_def del_where_def filter_id_conv)
  then have "db1 = db" using assms(2) by (auto simp: deleteUser_def Let_def intro: account_db.equality)
  then show ?thesis using assms(1) by simp
qed

subsection \<open>Roles\<close>

lemma validated_groups:
  "normalizeAndValidateRoleGroupIds gids gs = Inr v \<Longrightarrow> set v \<subseteq> nameable gs"
  by (auto simp: normalizeAndValidateRoleGroupIds_def Let_def nameable_def store_group_ids_def sel_where_def
      filter_empty_conv split: if_splits) blast+

lemma role_text_ex [simp]: "\<exists>role'. role_text role = role_text role'"
  by blast

lemma role_groups_Some [simp]: "rol_groupIds r = Some v \<Longrightarrow> role_groups r = set v"
  by (simp add: role_groups_def or_else_def)

lemma role_upd_inv:
  assumes "acc_inv gs db" "\<And>r. rol_id (f r) = rol_id r" "\<And>r. rol_userId (f r) = rol_userId r"
    and "\<And>r. r \<in> set (acc_roles db) \<Longrightarrow> rol_id r = i \<Longrightarrow>
       fk (rol_createdBy (f r)) (user_ids db) \<and> (\<exists>role. rol_role (f r) = role_text role) \<and>
       role_groups (f r) \<subseteq> nameable gs"
  shows "acc_inv gs (update_role_row i f db)"
  using assms
  unfolding acc_inv_def account_ok_def roles_named_def update_role_row_def upd_by_def
  by (auto simp: distinct_key_upd_where user_ids_def) (auto simp: upd_where_def user_ids_def)

lemma set_groups_inv:
  assumes "acc_inv gs db" "set v \<subseteq> nameable gs"
  shows "acc_inv gs (update_role_row i (\<lambda>r. r\<lparr>rol_groupIds := Some v\<rparr>) db)"
  using assms
  by (intro role_upd_inv) (auto simp: acc_inv_def account_ok_def)

lemma updateRoleGroups_inv:
  "acc_inv gs db \<Longrightarrow> updateRoleGroups i gids gs db = Inr (r, db1) \<Longrightarrow> acc_inv gs db1"
  by (auto simp: updateRoleGroups_def and_then_Inr_iff Let_def dest!: validated_groups intro!: set_groups_inv)

lemma addGroupsToRole_inv:
  "acc_inv gs db \<Longrightarrow> addGroupsToRole i gids gs db = Inr (r, db1) \<Longrightarrow> acc_inv gs db1"
  by (auto simp: addGroupsToRole_def split: option.splits dest: updateRoleGroups_inv)

lemma removeGroupsFromRole_inv:
  "acc_inv gs db \<Longrightarrow> removeGroupsFromRole i gids gs db = Inr (r, db1) \<Longrightarrow> acc_inv gs db1"
  by (auto simp: removeGroupsFromRole_def split: option.splits dest: updateRoleGroups_inv)

lemma updateRole_inv:
  "acc_inv gs db \<Longrightarrow> updateRole now i gids gs db = Inr (r, db1) \<Longrightarrow> acc_inv gs db1"
  by (auto simp: updateRole_def and_then_Inr_iff Let_def split: option.splits dest!: validated_groups intro!: set_groups_inv)

lemma roles_del_inv: "acc_inv gs db \<Longrightarrow> acc_inv gs (db\<lparr>acc_roles := del_where P (acc_roles db)\<rparr>)"
  unfolding acc_inv_def account_ok_def roles_named_def
  by (auto simp: distinct_key_del_where set_del_where user_ids_def)

lemma revokeRole_inv: "acc_inv gs db \<Longrightarrow> acc_inv gs (snd (revokeRole i db))"
  by (simp add: revokeRole_def del_by_def roles_del_inv)

lemma revokeAllUserRoles_inv: "acc_inv gs db \<Longrightarrow> acc_inv gs (snd (revokeAllUserRoles i db))"
  by (simp add: revokeAllUserRoles_def roles_del_inv)

lemma assignRole_inv:
  assumes inv: "acc_inv gs db" and a: "assignRole newId now d gs db = Inr (r, db1)"
  shows "acc_inv gs db1"
proof -
  from a obtain v where v: "normalizeAndValidateRoleGroupIds (ard_groupIds d) gs = Inr v"
    by (auto simp: assignRole_def and_then_Inr_iff)
  note sub = validated_groups [OF v]
  show ?thesis
  proof (cases "sel_first (\<lambda>r. rol_userId r = ard_userId d) (acc_roles db)")
    case None
    then show ?thesis
      using inv a v sub
      by (auto simp: assignRole_def Let_def acc_inv_def account_ok_def roles_named_def distinct_key_ins set_ins_row
          row_by_def user_ids_def split: if_splits) blast+
  next
    case (Some e)
    define F where "F = (\<lambda>r :: role_row. r\<lparr>rol_role := role_text (ard_role d), rol_groupIds := Some v,
      rol_createdBy := (case ard_createdBy d of Some c \<Rightarrow> Some c | None \<Rightarrow> rol_createdBy r)\<rparr>)"
    have db1: "db1 = update_role_row (rol_id e) F db" and fk: "fk (ard_createdBy d) (user_ids db)"
      using a v Some by (auto simp: assignRole_def Let_def F_def split: if_splits option.splits)
    show ?thesis
      unfolding db1 using inv sub fk
      by (intro role_upd_inv) (auto simp: F_def acc_inv_def account_ok_def split: option.split)
  qed
qed

subsection \<open>Deleting a group\<close>

definition drop_group_id :: "string \<Rightarrow> role_row \<Rightarrow> nat \<times> account_db \<Rightarrow> nat \<times> account_db" where
  "drop_group_id g role st =
     (case st of (n, db) \<Rightarrow>
        (n + 1, update_role_row (rol_id role)
           (\<lambda>r. r\<lparr>rol_groupIds := Some (filter (\<lambda>c. c \<noteq> g) (or_else (rol_groupIds role) []))\<rparr>) db))"

lemma removeGroup_fold:
  "removeGroupFromAllRoles g db = fold (drop_group_id g) (sel_where (has_group g) (acc_roles db)) (0, db)"
  unfolding removeGroupFromAllRoles_def Let_def drop_group_id_def ..

lemma drop_group_id_inv:
  assumes "acc_inv gs (snd st)" "role_groups x \<subseteq> nameable gs"
  shows "acc_inv gs (snd (drop_group_id g x st))"
proof -
  have "set (filter (\<lambda>c. c \<noteq> g) (or_else (rol_groupIds x) [])) \<subseteq> nameable gs"
    using assms(2) by (auto simp: role_groups_def)
  from set_groups_inv [OF _ this] show ?thesis using assms(1) by (cases st) (simp add: drop_group_id_def)
qed

lemma drop_fold_inv:
  assumes "acc_inv gs (snd st)" "\<And>x. x \<in> set xs \<Longrightarrow> role_groups x \<subseteq> nameable gs"
  shows "acc_inv gs (snd (fold (drop_group_id g) xs st))"
  using assms by (induction xs arbitrary: st) (simp_all add: drop_group_id_inv)

text \<open>A role after the loop either was not in the list, and is unchanged, or has lost the group.\<close>

lemma drop_fold_roles:
  "r \<in> set (acc_roles (snd (fold (drop_group_id g) xs st))) \<Longrightarrow>
   g \<notin> role_groups r \<or> (r \<in> set (acc_roles (snd st)) \<and> rol_id r \<notin> rol_id ` set xs)"
proof (induction xs arbitrary: st)
  case (Cons x xs)
  then have IH: "g \<notin> role_groups r \<or>
     (r \<in> set (acc_roles (snd (drop_group_id g x st))) \<and> rol_id r \<notin> rol_id ` set xs)" by simp
  have "g \<notin> role_groups r \<or> (r \<in> set (acc_roles (snd st)) \<and> rol_id r \<noteq> rol_id x)"
    if "r \<in> set (acc_roles (snd (drop_group_id g x st)))"
    using that by (auto simp: drop_group_id_def update_role_row_def upd_by_def upd_where_def split: prod.splits if_splits)
  with IH show ?case by auto
qed simp

lemma removeGroup_clears:
  assumes "r \<in> set (acc_roles (snd (removeGroupFromAllRoles g db)))"
  shows "g \<notin> role_groups r"
proof -
  have "g \<notin> role_groups r \<or>
      (r \<in> set (acc_roles db) \<and> rol_id r \<notin> rol_id ` set (sel_where (has_group g) (acc_roles db)))"
    using drop_fold_roles [of r g _ "(0, db)"] assms by (simp add: removeGroup_fold)
  then show ?thesis by (auto simp: sel_where_def has_group_def role_groups_def)
qed

lemma removeGroup_inv:
  assumes "acc_inv gs db"
  shows "acc_inv gs (snd (removeGroupFromAllRoles g db))"
  unfolding removeGroup_fold
  using assms by (intro drop_fold_inv) (auto simp: acc_inv_def roles_named_def sel_where_def)

lemma deleteGroup_org:
  assumes "org_ok org" "svc_deleteGroup now i org = (r, org', evs)"
  shows "org_ok org'"
proof (cases "row_by grp_id i (gs_groups (org_groups org))")
  case None
  then show ?thesis using assms by (simp add: svc_deleteGroup_def getGroupById_def)
next
  case (Some g)
  then have "fst (deleteGroup i (org_groups org))"
    using row_by_SomeD [OF Some] by (auto simp: deleteGroup_def count_where_def filter_empty_conv)
  then have org': "org' = \<lparr>org_groups = snd (deleteGroup i (org_groups org)),
                          org_accounts = snd (removeGroupFromAllRoles i (org_accounts org))\<rparr>"
    using assms(2) Some by (auto simp: svc_deleteGroup_def getGroupById_def split: prod.splits if_splits)
  have inv: "acc_inv (org_groups org) (org_accounts org')"
    using assms(1) by (simp add: org' org_ok_def removeGroup_inv)
  have "nameable (org_groups org') = nameable (org_groups org) - {i}"
    by (auto simp: org' deleteGroup_def nameable_def store_group_ids_def del_by_def set_del_where)
  then have "acc_inv (org_groups org') (org_accounts org')"
    using inv removeGroup_clears [of _ i "org_accounts org"] by (fastforce simp: acc_inv_def roles_named_def org')
  then show ?thesis
    using assms(1) by (simp add: org_ok_def org' store_ok_deleteGroup)
qed

section \<open>Reachable states\<close>

inductive account_step :: "group_store \<Rightarrow> account_db \<Rightarrow> account_db \<Rightarrow> bool" for gs :: group_store where
  "createUser hash newId now d v db = Inr (u, db') \<Longrightarrow> account_step gs db db'"
| "createGoogleUser newId now e n g db = Inr (u, db') \<Longrightarrow> account_step gs db db'"
| "linkGoogleId now i g db = Inr (b, db') \<Longrightarrow> account_step gs db db'"
| "updateUser hash now i upd db = Inr (v2, db') \<Longrightarrow> account_step gs db db'"
| "account_step gs db (updateLastLogin now i db)"
| "account_step gs db (snd (verifyEmail now i db))"
| "deleteUser kept i db = Inr (b, db') \<Longrightarrow> account_step gs db db'"
| "assignRole newId now a gs db = Inr (r, db') \<Longrightarrow> account_step gs db db'"
| "updateRoleGroups i gids gs db = Inr (r2, db') \<Longrightarrow> account_step gs db db'"
| "addGroupsToRole i gids gs db = Inr (r2, db') \<Longrightarrow> account_step gs db db'"
| "removeGroupsFromRole i gids gs db = Inr (r2, db') \<Longrightarrow> account_step gs db db'"
| "updateRole now i gids' gs db = Inr (r3, db') \<Longrightarrow> account_step gs db db'"
| "account_step gs db (snd (revokeRole i db))"
| "account_step gs db (snd (revokeAllUserRoles i db))"
| "account_step gs db (snd (removeGroupFromAllRoles g db))"

lemma account_step_inv: "account_step gs db db' \<Longrightarrow> acc_inv gs db \<Longrightarrow> acc_inv gs db'"
  by (induction rule: account_step.induct)
    (erule (1) createUser_inv [rotated] createGoogleUser_inv [rotated] linkGoogleId_inv [rotated]
        updateUser_inv [rotated] deleteUser_inv [rotated] assignRole_inv [rotated] updateRoleGroups_inv [rotated]
        addGroupsToRole_inv [rotated] removeGroupsFromRole_inv [rotated] updateRole_inv [rotated]
      | erule updateLastLogin_inv verifyEmail_inv revokeRole_inv revokeAllUserRoles_inv removeGroup_inv)+

inductive org_reach :: "org_db \<Rightarrow> bool" where
  start: "org_reach \<lparr>org_groups = \<lparr>gs_groups = [], gs_rules = []\<rparr>, org_accounts = \<lparr>acc_users = [], acc_roles = []\<rparr>\<rparr>"
| account: "org_reach org \<Longrightarrow> account_step (org_groups org) (org_accounts org) acc \<Longrightarrow>
    org_reach (org\<lparr>org_accounts := acc\<rparr>)"
| create: "org_reach org \<Longrightarrow> svc_createGroup newId now cg (org_groups org) = (r1, gs, evs) \<Longrightarrow>
    org_reach (org\<lparr>org_groups := gs\<rparr>)"
| update: "org_reach org \<Longrightarrow> svc_updateGroup now ug (org_groups org) = (r2, gs, evs) \<Longrightarrow>
    org_reach (org\<lparr>org_groups := gs\<rparr>)"
| clone: "org_reach org \<Longrightarrow> svc_cloneGroup newId newIds fresh now cl (org_groups org) = (r3, gs, evs) \<Longrightarrow>
    org_reach (org\<lparr>org_groups := gs\<rparr>)"
| toggle: "org_reach org \<Longrightarrow> svc_toggleSystemStatus now b (org_groups org) = (r4, gs, evs) \<Longrightarrow>
    org_reach (org\<lparr>org_groups := gs\<rparr>)"
| delete: "org_reach org \<Longrightarrow> svc_deleteGroup now i org = (r5, org', evs) \<Longrightarrow> org_reach org'"

definition keeps_groups :: "group_store \<Rightarrow> group_store \<Rightarrow> bool" where
  "keeps_groups s s' \<longleftrightarrow> store_ok s' \<and> store_group_ids s \<subseteq> store_group_ids s'"

lemma keeps_refl: "store_ok s \<Longrightarrow> keeps_groups s s"
  by (simp add: keeps_groups_def)

lemma keeps_groups_org:
  "org_ok org \<Longrightarrow> keeps_groups (org_groups org) gs \<Longrightarrow> org_ok (org\<lparr>org_groups := gs\<rparr>)"
  by (fastforce simp: org_ok_def keeps_groups_def acc_inv_def roles_named_def nameable_def)

lemma keeps_createGroup:
  "store_ok s \<Longrightarrow> createGroup newId now n d opts s = Inr (i, s') \<Longrightarrow> keeps_groups s s'"
  unfolding keeps_groups_def
  by (rule conjI, erule (1) store_ok_createGroup)
    (auto simp: createGroup_def Let_def store_group_ids_def set_ins_row split: if_splits)

lemma keeps_svc_createGroup:
  assumes "store_ok s" "svc_createGroup newId now cg s = (r, s', evs)"
  shows "keeps_groups s s'"
  using assms keeps_createGroup [OF assms(1)]
  by (auto simp: svc_createGroup_def Let_def keeps_groups_def split: if_splits sum.splits) fastforce+

lemma store_ids_upd: "(\<And>g. grp_id (f g) = grp_id g) \<Longrightarrow>
   store_group_ids (s\<lparr>gs_groups := upd_by grp_id i f (gs_groups s)\<rparr>) = store_group_ids s"
  by (simp add: store_group_ids_def ids_upd_by)

lemma keeps_svc_updateGroup:
  assumes "store_ok s" "svc_updateGroup now ug s = (r, s', evs)"
  shows "keeps_groups s s'"
proof -
  have "keeps_groups s (updateGroup now i d e v s)" for i d e v
    using assms(1) unfolding updateGroup_def keeps_groups_def
    by (auto simp: store_ids_upd intro: store_ok_groups_upd)
  then show ?thesis
    using assms by (auto simp: svc_updateGroup_def Let_def keeps_refl split: option.splits)
qed

lemma keeps_svc_toggle:
  assumes "store_ok s" "svc_toggleSystemStatus now b s = (r, s', evs)"
  shows "keeps_groups s s'"
  using assms store_ok_toggle [OF assms(1), of now b]
  by (auto simp: svc_toggleSystemStatus_def toggleSystemStatus_def Let_def keeps_groups_def store_group_ids_def image_image)

lemma keeps_svc_clone:
  assumes ok: "store_ok s" and c: "svc_cloneGroup newId newIds fresh now cl s = (r, s', evs)"
  shows "keeps_groups s s'"
proof -
  have tx: "keeps_groups s (fst (snd (writeTransactionalCommand (\<lambda>tx q.
      and_then (createGroup newId now n d opts tx) (\<lambda>(createdId, tx1).
      and_then (copyRulesToGroup newIds now src createdId tx1) (\<lambda>(_, tx2).
        Inr (createdId, touchGroupUpdatedAt now createdId tx2, queueEvent (WhitelistChanged createdId) q)))) s)))"
    for n d opts src
  proof -
    have "keeps_groups s (touchGroupUpdatedAt now i s2)"
      if "createGroup newId now n d opts s = Inr (i, s1)" "copyRulesToGroup newIds now src i s1 = Inr (k, s2)" for i s1 k s2
      using keeps_createGroup [OF ok that(1)] copyRulesToGroup_Inr [OF _ that(2)]
      by (auto simp: keeps_groups_def store_ok_touch) (auto simp: touchGroupUpdatedAt_def store_group_ids_def ids_upd_by)
    then show ?thesis
      using ok by (auto simp: writeTransactionalCommand_def keeps_refl and_then_Inr_iff split: sum.split
          simp del: queueEvent.simps)
  qed
  have relabel: "fst (snd (case w of (Inl e, s1, evs) \<Rightarrow> (f e, s1, evs) | (Inr i, s1, evs) \<Rightarrow> (g i, s1, evs))) = fst (snd w)"
    for w :: "(db_error + string) \<times> group_store \<times> domain_event list"
      and f :: "db_error \<Rightarrow> (string \<times> string) outcome" and g
    by (cases w; cases "fst w") simp_all
  have "s' = fst (snd (svc_cloneGroup newId newIds fresh now cl s))" using c by simp
  then show ?thesis
    using ok tx by (auto simp: svc_cloneGroup_def Let_def relabel keeps_refl split: option.splits
        simp del: queueEvent.simps)
qed

lemma org_reach_ok: "org_reach org \<Longrightarrow> org_ok org"
proof (induction rule: org_reach.induct)
  case start
  show ?case by (simp add: org_ok_def acc_inv_def account_ok_def roles_named_def store_ok_def distinct_key_def users_unique_def)
next
  case (account org acc)
  then show ?case using account_step_inv by (simp add: org_ok_def)
next
  case (delete org now i r5 org' evs)
  then show ?case using deleteGroup_org by blast
qed (rule keeps_groups_org, assumption, rule keeps_svc_createGroup keeps_svc_updateGroup keeps_svc_clone keeps_svc_toggle,
    simp add: org_ok_def, assumption)+

text \<open>C25: roles and groups stay consistent.  In every state the account and group services can produce
  a user has at most one role, the role belongs to an existing user and is one of the three,
  and every group it names exists, although the database checks none of the last.\<close>
theorem roles_consistent:
  assumes "org_reach org" "r \<in> set (acc_roles (org_accounts org))"
  shows "getUserRoles (rol_userId r) (org_accounts org) = [r] \<and>
    getUserById (rol_userId r) (org_accounts org) \<noteq> None \<and>
    rol_role r \<in> {''admin'', ''teacher'', ''student''} \<and>
    (g \<in> set (or_else (rol_groupIds r) []) \<longrightarrow> row_by grp_id g (gs_groups (org_groups org)) \<noteq> None)"
proof -
  have ok: "org_ok org" using assms(1) by (rule org_reach_ok)
  have d: "distinct (map rol_userId (acc_roles (org_accounts org)))"
    using ok by (simp add: org_ok_def acc_inv_def account_ok_def distinct_key_def)
  have "filter (\<lambda>x. rol_userId x = rol_userId r) t = [r]" if "distinct (map rol_userId t)" "r \<in> set t" for t
    using that by (induction t) (auto simp: filter_empty_conv image_iff)
  from this [OF d assms(2)] have "getUserRoles (rol_userId r) (org_accounts org) = [r]"
    by (simp add: getUserRoles_def sel_where_def)
  moreover obtain role where "rol_role r = role_text role"
    using ok assms(2) by (auto simp: org_ok_def acc_inv_def account_ok_def)
  then have "rol_role r \<in> {''admin'', ''teacher'', ''student''}" by (cases role) simp_all
  moreover have "rol_userId r \<in> set (user_ids (org_accounts org))"
    "role_groups r \<subseteq> nameable (org_groups org)"
    using ok assms(2) by (auto simp: org_ok_def acc_inv_def account_ok_def roles_named_def)
  ultimately show ?thesis
    by (auto simp: getUserById_def row_by_None_iff user_ids_def nameable_def store_group_ids_def role_groups_def)
qed

definition demo_org :: org_db where
  "demo_org =
     (let gs = fst (snd (svc_createGroup ''g1'' 0 \<lparr>cgi_name = ''primary'', cgi_displayName = ''Primary'',
                  cgi_visibility = None, cgi_ownerUserId = None\<rparr> \<lparr>gs_groups = [], gs_rules = []\<rparr>));
          acc = \<lparr>acc_users = [\<lparr>usr_id = ''u1'', usr_email = ''ada@school.org'', usr_name = ''Ada'',
                  usr_passwordHash = Some ''secret'', usr_googleId = None, usr_isActive = True,
                  usr_emailVerified = True, usr_createdAt = Some 0, usr_updatedAt = Some 0\<rparr>],
                 acc_roles = [\<lparr>rol_id = ''role1'', rol_userId = ''u1'', rol_role = ''teacher'', rol_groupIds = Some [''g1''],
                  rol_createdBy = None, rol_createdAt = Some 0, rol_expiresAt = None\<rparr>]\<rparr>
      in \<lparr>org_groups = gs, org_accounts = acc\<rparr>)"

lemma demo_org_reach: "org_reach demo_org"
proof -
  let ?cg = "\<lparr>cgi_name = ''primary'', cgi_displayName = ''Primary'', cgi_visibility = None, cgi_ownerUserId = None\<rparr>"
  let ?u = "\<lparr>cud_email = ''Ada@School.org '', cud_name = ''Ada'', cud_password = ''secret''\<rparr>"
  let ?a = "\<lparr>ard_userId = ''u1'', ard_role = Teacher, ard_groupIds = ['' g1''], ard_createdBy = None\<rparr>"
  define gs where "gs = fst (snd (svc_createGroup ''g1'' 0 ?cg \<lparr>gs_groups = [], gs_rules = []\<rparr>))"
  define acc1 where "acc1 = projr (createUser id ''u1'' 0 ?u (Some True) \<lparr>acc_users = [], acc_roles = []\<rparr>)"
  define acc2 where "acc2 = projr (assignRole ''role1'' 0 ?a gs (snd acc1))"
  have g: "org_reach \<lparr>org_groups = gs, org_accounts = \<lparr>acc_users = [], acc_roles = []\<rparr>\<rparr>"
    using org_reach.create [OF org_reach.start triple, of "''g1''" 0 ?cg] by (simp add: gs_def)
  have u: "createUser id ''u1'' 0 ?u (Some True) \<lparr>acc_users = [], acc_roles = []\<rparr> = Inr (fst acc1, snd acc1)"
    unfolding acc1_def by code_simp
  have r: "assignRole ''role1'' 0 ?a gs (snd acc1) = Inr (fst acc2, snd acc2)"
    unfolding acc2_def acc1_def gs_def by code_simp
  from org_reach.account [OF g account_step.intros(1), simplified, OF u]
  have "org_reach \<lparr>org_groups = gs, org_accounts = snd acc1\<rparr>" by simp
  from org_reach.account [OF this account_step.intros(8), simplified, OF r]
  have "org_reach \<lparr>org_groups = gs, org_accounts = snd acc2\<rparr>" by simp
  moreover have "\<lparr>org_groups = gs, org_accounts = snd acc2\<rparr> = demo_org"
    unfolding demo_org_def acc2_def acc1_def gs_def by code_simp
  ultimately show ?thesis by simp
qed

theorem roles_consistent_witness:
  "getUserRoles ''u1'' (org_accounts demo_org) = acc_roles (org_accounts demo_org) \<and>
   row_by grp_id ''g1'' (gs_groups (org_groups demo_org)) \<noteq> None"
proof -
  define r where "r = hd (acc_roles (org_accounts demo_org))"
  have "r \<in> set (acc_roles (org_accounts demo_org))" "acc_roles (org_accounts demo_org) = [r]" "rol_userId r = ''u1''"
    "''g1'' \<in> set (or_else (rol_groupIds r) [])"
    unfolding r_def by code_simp+
  with roles_consistent [OF demo_org_reach, of r "''g1''"] show ?thesis by simp
qed

section \<open>The creator of a group gets access to it\<close>

lemma validate_nameable:
  assumes "set gids \<subseteq> nameable gs"
  shows "normalizeAndValidateRoleGroupIds gids gs = Inr (js_unique gids)"
proof -
  have "map js_trim gids = gids"
    using assms by (intro map_idI) (auto simp: nameable_def)
  moreover have "filter (\<lambda>g. g \<noteq> []) gids = gids"
    using assms by (auto simp: nameable_def filter_id_conv)
  moreover have "filter (\<lambda>g. g \<notin> set (map grp_id (sel_where (\<lambda>g. grp_id g \<in> set (js_unique gids)) (gs_groups gs)))) (js_unique gids) = []"
    using assms by (fastforce simp: filter_empty_conv nameable_def store_group_ids_def sel_where_def)
  ultimately show ?thesis by (simp add: normalizeAndValidateRoleGroupIds_def Let_def del: set_map)
qed

lemma canApprove_teacherI:
  "r \<in> set (acc_roles db) \<Longrightarrow> rol_userId r = u \<Longrightarrow> rol_role r = ''teacher'' \<Longrightarrow> has_group g r \<Longrightarrow> canApproveForGroup u g db"
  using sel_first_ex [of r "acc_roles db" "\<lambda>r. rol_userId r = u \<and> rol_role r = ''teacher'' \<and> has_group g r"]
  by (auto simp: canApproveForGroup_def)

lemma update_role_row_at:
  "row_by rol_id i (acc_roles db) = Some r \<Longrightarrow> (\<And>r. rol_id (f r) = rol_id r) \<Longrightarrow>
   row_by rol_id i (acc_roles (update_role_row i f db)) = Some (f r)"
  by (simp add: update_role_row_def row_by_upd_by)

lemma assignRole_access:
  assumes ok: "org_ok org" and u: "getUserById (ard_userId d) (org_accounts org) \<noteq> None"
    and c: "fk (ard_createdBy d) (user_ids (org_accounts org))"
    and g: "set (ard_groupIds d) \<subseteq> nameable (org_groups org)" and new: "getRoleById newId (org_accounts org) = None"
  shows "\<exists>r acc. assignRole newId now d (org_groups org) (org_accounts org) = Inr (r, acc) \<and> r \<in> set (acc_roles acc) \<and>
    rol_userId r = ard_userId d \<and> rol_role r = role_text (ard_role d) \<and> rol_groupIds r = Some (js_unique (ard_groupIds d))"
proof -
  let ?db = "org_accounts org"
  note v = validate_nameable [OF g]
  have uid: "ard_userId d \<in> set (user_ids ?db)"
    using u unfolding getUserById_def row_by_None_iff user_ids_def by simp
  show ?thesis
  proof (cases "sel_first (\<lambda>r. rol_userId r = ard_userId d) (acc_roles ?db)")
    case None
    then show ?thesis using v uid c new by (simp add: assignRole_def Let_def getRoleById_def set_ins_row)
  next
    case (Some e)
    define F where "F = (\<lambda>r :: role_row. r\<lparr>rol_role := role_text (ard_role d), rol_groupIds := Some (js_unique (ard_groupIds d)),
      rol_createdBy := (case ard_createdBy d of Some x \<Rightarrow> Some x | None \<Rightarrow> rol_createdBy r)\<rparr>)"
    have e: "e \<in> set (acc_roles ?db)" "rol_userId e = ard_userId d" using sel_first_SomeD [OF Some] by auto
    then have "row_by rol_id (rol_id e) (acc_roles ?db) = Some e"
      using ok by (intro row_by_unique) (auto simp: org_ok_def acc_inv_def account_ok_def)
    then have row: "row_by rol_id (rol_id e) (acc_roles (update_role_row (rol_id e) F ?db)) = Some (F e)"
      by (rule update_role_row_at) (simp add: F_def)
    then have "assignRole newId now d (org_groups org) ?db = Inr (F e, update_role_row (rol_id e) F ?db)"
      using Some v c by (simp add: assignRole_def Let_def F_def)
    then show ?thesis using row_by_SomeD [OF row] e by (auto simp: F_def)
  qed
qed

lemma addGroupsToRole_access:
  assumes ok: "org_ok org" and r: "r \<in> set (acc_roles (org_accounts org))" and g: "g \<in> nameable (org_groups org)"
  shows "\<exists>r' acc. addGroupsToRole (rol_id r) [g] (org_groups org) (org_accounts org) = Inr (Some r', acc) \<and>
    r' \<in> set (acc_roles acc) \<and> rol_userId r' = rol_userId r \<and> rol_role r' = rol_role r \<and>
    g \<in> set (or_else (rol_groupIds r') [])"
proof -
  let ?db = "org_accounts org" and ?v = "js_unique (or_else (rol_groupIds r) [] @ [g])"
  have row: "row_by rol_id (rol_id r) (acc_roles ?db) = Some r"
    using ok r by (intro row_by_unique) (auto simp: org_ok_def acc_inv_def account_ok_def)
  have "set ?v \<subseteq> nameable (org_groups org)"
    using ok r g by (auto simp: org_ok_def acc_inv_def roles_named_def role_groups_def)
  note v = validate_nameable [OF this]
  note row1 = update_role_row_at [OF row, of "\<lambda>r. r\<lparr>rol_groupIds := Some ?v\<rparr>", simplified]
  have "addGroupsToRole (rol_id r) [g] (org_groups org) ?db =
      Inr (Some (r\<lparr>rol_groupIds := Some ?v\<rparr>), update_role_row (rol_id r) (\<lambda>r. r\<lparr>rol_groupIds := Some ?v\<rparr>) ?db)"
    using v row row1 by (simp add: addGroupsToRole_def getRoleById_def updateRoleGroups_def Let_def)
  then show ?thesis
    using row_by_SomeD [OF row1] by (intro exI conjI) (assumption, simp_all add: or_else_def)
qed

text \<open>A teacher keeps access to a group created for them.  For an existing user and group
  \<open>ensureTeacherRoleGroupAccess\<close> returns without an error, and afterwards the user may approve
  requests for the group; it can rely on the groups the role already names, all of which still exist.\<close>
theorem teacher_group_access:
  assumes "org_reach org" "getUserById userId (org_accounts org) \<noteq> None"
    "getUserById createdBy (org_accounts org) \<noteq> None" "row_by grp_id g (gs_groups (org_groups org)) \<noteq> None"
    "js_trim g = g" "g \<noteq> []" "getRoleById newId (org_accounts org) = None"
  shows "\<exists>org'. ensureTeacherRoleGroupAccess newId now userId g createdBy org = (Ok (), org') \<and>
    canApproveForGroup userId g (org_accounts org')"
proof -
  let ?db = "org_accounts org"
  have ok: "org_ok org" using assms(1) by (rule org_reach_ok)
  have g: "g \<in> nameable (org_groups org)"
    using assms(4-6) unfolding row_by_None_iff nameable_def store_group_ids_def by simp
  have c: "createdBy \<in> set (user_ids ?db)" using assms(3) unfolding getUserById_def row_by_None_iff user_ids_def by simp
  show ?thesis
  proof (cases "List.find (\<lambda>r. rol_role r = ''teacher'') (getUserRoles userId ?db)")
    case None
    obtain r acc where "assignRole newId now \<lparr>ard_userId = userId, ard_role = Teacher, ard_groupIds = [g],
        ard_createdBy = Some createdBy\<rparr> (org_groups org) ?db = Inr (r, acc)" "r \<in> set (acc_roles acc)"
        "rol_userId r = userId" "rol_role r = ''teacher''" "rol_groupIds r = Some [g]"
      using assignRole_access [OF ok, of "\<lparr>ard_userId = userId, ard_role = Teacher, ard_groupIds = [g], ard_createdBy = Some createdBy\<rparr>"
          newId now] assms(2,7) c g by (auto simp: fk_def)
    then show ?thesis
      using None by (auto simp: ensureTeacherRoleGroupAccess_def has_group_def or_else_def intro!: canApprove_teacherI)
  next
    case (Some r)
    then have r: "r \<in> set (acc_roles ?db)" "rol_userId r = userId" "rol_role r = ''teacher''"
      by (auto simp: getUserRoles_def sel_where_def dest!: find_SomeD)
    show ?thesis
    proof (cases "g \<in> set (or_else (rol_groupIds r) [])")
      case True
      then show ?thesis
        using Some r by (auto simp: ensureTeacherRoleGroupAccess_def has_group_def intro!: canApprove_teacherI)
    next
      case False
      obtain r' acc where "addGroupsToRole (rol_id r) [g] (org_groups org) ?db = Inr (Some r', acc)"
        "r' \<in> set (acc_roles acc)" "rol_userId r' = userId" "rol_role r' = ''teacher''" "g \<in> set (or_else (rol_groupIds r') [])"
        using addGroupsToRole_access [OF ok r(1) g] r by auto
      then show ?thesis
        using Some False
        by (auto simp: ensureTeacherRoleGroupAccess_def has_group_def intro!: canApprove_teacherI [of r'])
    qed
  qed
qed

theorem teacher_group_access_witness:
  "\<exists>org'. ensureTeacherRoleGroupAccess ''role2'' 5 ''u1'' ''g1'' ''u1'' demo_org = (Ok (), org') \<and>
     canApproveForGroup ''u1'' ''g1'' (org_accounts org')"
  by (rule teacher_group_access [OF demo_org_reach]) code_simp+

end
