(* ===== verification/Access_Control.thy ===== *)
theory Access_Control
  imports User_Management Machine_Policy
begin

text \<open>
  Who may do what: \<open>api/src/lib/auth-authorization.ts\<close>, \<open>mapRoleInfo\<close> of
  \<open>api/src/services/auth-shared.ts\<close>, \<open>groups-access.service.ts\<close> and \<open>classroom-access.service.ts\<close>.
  Decisions are taken on the roles in the caller's token; \<open>role_checks_agree\<close> relates them to the
  checks of the role storage, \<open>group_access_iff\<close> gives the decisions on groups in closed form.
\<close>

section \<open>Tokens\<close>

record role_info =
  ri_role :: user_role
  ri_groupIds :: "string list"

record jwt_payload =
  jwt_sub :: string
  jwt_email :: string
  jwt_name :: string
  jwt_roles :: "role_info list option"
  jwt_type :: string
  jwt_exp :: "int option"

definition isAdminToken :: "jwt_payload option \<Rightarrow> bool" where
  "isAdminToken decoded \<longleftrightarrow>
     (case decoded of
        None \<Rightarrow> False
      | Some d \<Rightarrow> (case jwt_roles d of None \<Rightarrow> False | Some roles \<Rightarrow> list_ex (\<lambda>r. ri_role r = Admin) roles))"

definition canApproveGroup :: "jwt_payload option \<Rightarrow> string \<Rightarrow> bool" where
  "canApproveGroup decoded groupId \<longleftrightarrow>
     (case decoded of
        None \<Rightarrow> False
      | Some d \<Rightarrow>
          (case jwt_roles d of
             None \<Rightarrow> False
           | Some roles \<Rightarrow>
               isAdminToken decoded \<or> list_ex (\<lambda>r. ri_role r = Teacher \<and> groupId \<in> set (ri_groupIds r)) roles))"

definition getApprovalGroups :: "jwt_payload option \<Rightarrow> approval_groups" where
  "getApprovalGroups decoded =
     (case decoded of
        None \<Rightarrow> Only_groups []
      | Some d \<Rightarrow>
          (case jwt_roles d of
             None \<Rightarrow> Only_groups []
           | Some roles \<Rightarrow>
               if isAdminToken decoded then All_groups
               else Only_groups (js_unique (concat (map ri_groupIds (filter (\<lambda>r. ri_role r = Teacher) roles))))))"

definition mapRoleInfo :: "role_row list \<Rightarrow> role_info list" where
  "mapRoleInfo roles =
     List.map_filter (\<lambda>r. map_option (\<lambda>role. \<lparr>ri_role = role, ri_groupIds = or_else (rol_groupIds r) []\<rparr>)
       (normalizeUserRoleString (Some (rol_role r)))) roles"

section \<open>Groups\<close>

definition owns_group :: "jwt_payload \<Rightarrow> group_with_counts \<Rightarrow> bool" where
  "owns_group user grp \<longleftrightarrow>
     (case gwc_ownerUserId grp of Some owner \<Rightarrow> owner \<noteq> [] \<and> owner = jwt_sub user | None \<Rightarrow> False)"

definition canUserAccessGroup :: "jwt_payload \<Rightarrow> group_with_counts \<Rightarrow> bool" where
  "canUserAccessGroup user grp \<longleftrightarrow>
     owns_group user grp \<or> canApproveGroup (Some user) (gwc_id grp) \<or> canApproveGroup (Some user) (gwc_name grp)"

definition canUserViewGroup :: "jwt_payload \<Rightarrow> group_with_counts \<Rightarrow> bool" where
  "canUserViewGroup user grp \<longleftrightarrow> canUserAccessGroup user grp \<or> gwc_visibility grp = ''instance_public''"

definition listGroups :: "int \<Rightarrow> group_store \<Rightarrow> group_with_counts list" where
  "listGroups now s = getAllGroups now s"

definition listGroupsVisibleToUser :: "int \<Rightarrow> jwt_payload \<Rightarrow> group_store \<Rightarrow> group_with_counts list" where
  "listGroupsVisibleToUser now user s = filter (canUserAccessGroup user) (listGroups now s)"

definition listLibraryGroups :: "int \<Rightarrow> group_store \<Rightarrow> group_with_counts list" where
  "listLibraryGroups now s = filter (\<lambda>grp. gwc_visibility grp = ''instance_public'') (listGroups now s)"

definition svc_getGroupById :: "int \<Rightarrow> string \<Rightarrow> group_store \<Rightarrow> service_error + group_with_counts" where
  "svc_getGroupById now i s =
     (case getGroupById now i s of None \<Rightarrow> Inl (Not_found ''Group not found'') | Some g \<Rightarrow> Inr g)"

definition svc_getGroupByName :: "int \<Rightarrow> string \<Rightarrow> group_store \<Rightarrow> service_error + group_with_counts" where
  "svc_getGroupByName now n s =
     (case getGroupByName now n s of None \<Rightarrow> Inl (Not_found ''Group not found'') | Some g \<Rightarrow> Inr g)"

abbreviation no_group_access :: service_error where
  "no_group_access \<equiv> Forbidden ''You do not have access to this group''"

definition ensureUserCanAccessGroupId :: "int \<Rightarrow> jwt_payload \<Rightarrow> string \<Rightarrow> group_store \<Rightarrow> service_error + unit" where
  "ensureUserCanAccessGroupId now user groupId s =
     (if canApproveGroup (Some user) groupId then Inr ()
      else (case svc_getGroupById now groupId s of
          Inl e \<Rightarrow> Inl e
        | Inr grp \<Rightarrow>
            if owns_group user grp then Inr ()
            else if canApproveGroup (Some user) (gwc_name grp) then Inr ()
            else Inl no_group_access))"

definition ensureUserCanViewGroupId :: "int \<Rightarrow> jwt_payload \<Rightarrow> string \<Rightarrow> group_store \<Rightarrow> service_error + unit" where
  "ensureUserCanViewGroupId now user groupId s =
     (if canApproveGroup (Some user) groupId then Inr ()
      else (case svc_getGroupById now groupId s of
          Inr grp \<Rightarrow> if canUserViewGroup user grp then Inr () else Inl no_group_access
        | Inl e \<Rightarrow>
            (case e of
               Not_found _ \<Rightarrow>
                 (case svc_getGroupByName now (strip_suffix ''.txt'' groupId) s of
                    Inl e' \<Rightarrow> Inl e'
                  | Inr grp \<Rightarrow> if canUserViewGroup user grp then Inr () else Inl no_group_access)
             | _ \<Rightarrow> Inl e)))"

section \<open>Classrooms\<close>

record access_scope =
  asc_id :: string
  asc_name :: string
  asc_displayName :: string
  asc_defaultGroupId :: "string option"
  asc_activeGroupId :: "string option"
  asc_currentGroupId :: "string option"
  asc_currentGroupSource :: current_group_source

definition canAccessClassroomScope :: "jwt_payload \<Rightarrow> access_scope \<Rightarrow> bool" where
  "canAccessClassroomScope user scope \<longleftrightarrow>
     isAdminToken (Some user) \<or>
     list_ex (canApproveGroup (Some user))
       (filter (\<lambda>g. length g > 0)
         (List.map_filter id [asc_activeGroupId scope, asc_currentGroupId scope, asc_defaultGroupId scope]))"

definition resolveClassroomAccessScope :: "(int \<Rightarrow> int) \<Rightarrow> string \<Rightarrow> int \<Rightarrow> school_db \<Rightarrow> access_scope option" where
  "resolveClassroomAccessScope tz classroomId now db =
     map_option (\<lambda>scope. \<lparr>asc_id = cps_classroomId scope, asc_name = cps_classroomName scope,
         asc_displayName = cps_classroomDisplayName scope, asc_defaultGroupId = cps_defaultGroupId scope,
         asc_activeGroupId = cps_activeGroupId scope, asc_currentGroupId = cps_currentGroupId scope,
         asc_currentGroupSource = cps_currentGroupSource scope\<rparr>)
       (resolveClassroomPolicyScope tz classroomId now db)"

datatype access_purpose = For_view | For_enroll

definition canUseClassroomScope :: "jwt_payload \<Rightarrow> access_scope \<Rightarrow> access_purpose \<Rightarrow> bool" where
  "canUseClassroomScope user scope purpose \<longleftrightarrow>
     (purpose = For_enroll \<and> asc_currentGroupSource scope = CG_none) \<or> canAccessClassroomScope user scope"

definition ensureUserCanUseClassroom ::
  "(int \<Rightarrow> int) \<Rightarrow> jwt_payload \<Rightarrow> string \<Rightarrow> access_purpose \<Rightarrow> int \<Rightarrow> school_db \<Rightarrow> service_error + access_scope" where
  "ensureUserCanUseClassroom tz user classroomId purpose now db =
     (case resolveClassroomAccessScope tz classroomId now db of
        None \<Rightarrow> Inl (Not_found ''Classroom not found'')
      | Some scope \<Rightarrow>
          if \<not> canUseClassroomScope user scope purpose then Inl (Forbidden ''You do not have access to this classroom'')
          else Inr scope)"

definition ensureUserCanAccessClassroom ::
  "(int \<Rightarrow> int) \<Rightarrow> jwt_payload \<Rightarrow> string \<Rightarrow> int \<Rightarrow> school_db \<Rightarrow> service_error + access_scope" where
  "ensureUserCanAccessClassroom tz user classroomId now db = ensureUserCanUseClassroom tz user classroomId For_view now db"

definition ensureUserCanEnrollClassroom ::
  "(int \<Rightarrow> int) \<Rightarrow> jwt_payload \<Rightarrow> string \<Rightarrow> int \<Rightarrow> school_db \<Rightarrow> service_error + access_scope" where
  "ensureUserCanEnrollClassroom tz user classroomId now db = ensureUserCanUseClassroom tz user classroomId For_enroll now db"

section \<open>The token says what the roles table says\<close>

lemma role_text_roundtrip [simp]: "normalizeUserRoleString (Some (role_text role)) = Some role"
proof -
  have "normalizeUserRoleString (Some ''admin'') = Some Admin" "normalizeUserRoleString (Some ''teacher'') = Some Teacher"
    "normalizeUserRoleString (Some ''student'') = Some Student"
    by code_simp+
  then show ?thesis by (cases role) simp_all
qed

lemma db_role_values [simp]: "role_text role \<in> set (getDbRoleValues Admin) \<longleftrightarrow> role = Admin"
  by (cases role) (simp_all add: getDbRoleValues_def)

lemma role_text_teacher [simp]: "role_text role = ''teacher'' \<longleftrightarrow> role = Teacher"
  by (cases role) simp_all

definition in_approval :: "string \<Rightarrow> approval_groups \<Rightarrow> bool" where
  "in_approval g a \<longleftrightarrow> (case a of All_groups \<Rightarrow> True | Only_groups gs \<Rightarrow> g \<in> set gs)"

lemma user_roles_cases:
  assumes "org_ok org"
  obtains (none) "getUserRoles u (org_accounts org) = []"
  | (one) r role where "getUserRoles u (org_accounts org) = [r]" "rol_role r = role_text role" "rol_userId r = u"
proof (cases "getUserRoles u (org_accounts org)")
  case Nil
  then show ?thesis using none by blast
next
  case (Cons r rs)
  have "length (filter (\<lambda>x. rol_userId x = u) t) \<le> 1" if "distinct (map rol_userId t)" for t :: "role_row table"
    using that by (induction t) (auto simp: filter_empty_conv image_iff)
  from this [of "acc_roles (org_accounts org)"] have "length (r # rs) \<le> 1"
    using assms Cons by (simp add: org_ok_def acc_inv_def account_ok_def distinct_key_def getUserRoles_def sel_where_def)
  then have "rs = []" by simp
  moreover have "r \<in> set (getUserRoles u (org_accounts org))" using Cons by simp
  then have "rol_userId r = u" "r \<in> set (acc_roles (org_accounts org))" by (auto simp: getUserRoles_def sel_where_def)
  moreover from this obtain role where "rol_role r = role_text role"
    using assms by (auto simp: org_ok_def acc_inv_def account_ok_def)
  ultimately show ?thesis using one Cons by blast
qed

lemma storage_checks:
  "isAdmin u db \<longleftrightarrow> (\<exists>r\<in>set (getUserRoles u db). rol_role r \<in> set (getDbRoleValues Admin))"
  "canApproveForGroup u g db \<longleftrightarrow>
     isAdmin u db \<or> (\<exists>r\<in>set (getUserRoles u db). rol_role r = ''teacher'' \<and> has_group g r)"
  "getApprovalGroupsForUserId u db =
     (if isAdmin u db then All_groups
      else Only_groups (case List.find (\<lambda>r. rol_role r = ''teacher'') (getUserRoles u db) of
         Some r \<Rightarrow> or_else (rol_groupIds r) [] | None \<Rightarrow> []))"
  by (auto simp: isAdmin_def hasRole_def canApproveForGroup_def getApprovalGroupsForUserId_def getUserRoles_def
      sel_first_None_iff sel_where_def sel_first_def find_filter find_None_iff)

text \<open>The token and the roles table give the same answers.  For a token made from the stored roles of
  a user, the decisions taken on the token (is an administrator, may approve for a group, which groups)
  are those the role storage takes for the user.\<close>
theorem role_checks_agree:
  assumes "org_reach org" "jwt_roles tok = Some (mapRoleInfo (getUserRoles u (org_accounts org)))"
  shows "isAdminToken (Some tok) = isAdmin u (org_accounts org) \<and>
    canApproveGroup (Some tok) g = canApproveForGroup u g (org_accounts org) \<and>
    in_approval g (getApprovalGroups (Some tok)) = in_approval g (getApprovalGroupsForUserId u (org_accounts org)) \<and>
    in_approval g (getApprovalGroups (Some tok)) = canApproveGroup (Some tok) g"
  using org_reach_ok [OF assms(1)]
proof (cases rule: user_roles_cases [of org u])
  case none
  then show ?thesis
    using assms(2)
    by (simp add: storage_checks isAdminToken_def canApproveGroup_def getApprovalGroups_def mapRoleInfo_def in_approval_def)
next
  case (one r role)
  then have roles: "jwt_roles tok = Some [\<lparr>ri_role = role, ri_groupIds = or_else (rol_groupIds r) []\<rparr>]"
    using assms(2) by (simp add: mapRoleInfo_def)
  then show ?thesis
    using one by (cases role) (simp_all add: storage_checks isAdminToken_def canApproveGroup_def getApprovalGroups_def
        in_approval_def has_group_def getDbRoleValues_def)
qed

definition demo_token :: jwt_payload where
  "demo_token = \<lparr>jwt_sub = ''u1'', jwt_email = ''ada@school.org'', jwt_name = ''Ada'',
     jwt_roles = Some [\<lparr>ri_role = Teacher, ri_groupIds = [''g1'']\<rparr>], jwt_type = ''access'', jwt_exp = Some 900\<rparr>"

theorem role_checks_agree_witness:
  "canApproveGroup (Some demo_token) ''g1'' \<and> canApproveForGroup ''u1'' ''g1'' (org_accounts demo_org) \<and>
   \<not> isAdmin ''u1'' (org_accounts demo_org)"
proof -
  have "jwt_roles demo_token = Some (mapRoleInfo (getUserRoles ''u1'' (org_accounts demo_org)))"
    by code_simp
  note agree = role_checks_agree [OF demo_org_reach this, of "''g1''"]
  have "canApproveGroup (Some demo_token) ''g1''" "\<not> isAdminToken (Some demo_token)" by code_simp+
  with agree show ?thesis by simp
qed

section \<open>Access to groups in closed form\<close>

definition may_edit :: "jwt_payload \<Rightarrow> group_with_counts \<Rightarrow> bool" where
  "may_edit user grp \<longleftrightarrow>
     isAdminToken (Some user) \<or> owns_group user grp \<or>
     (\<exists>r\<in>set (or_else (jwt_roles user) []). ri_role r = Teacher \<and>
        (gwc_id grp \<in> set (ri_groupIds r) \<or> gwc_name grp \<in> set (ri_groupIds r)))"

lemma canApproveGroup_iff:
  "canApproveGroup (Some user) g \<longleftrightarrow>
     isAdminToken (Some user) \<or> (\<exists>r\<in>set (or_else (jwt_roles user) []). ri_role r = Teacher \<and> g \<in> set (ri_groupIds r))"
  by (auto simp: canApproveGroup_def isAdminToken_def or_else_def list_ex_iff split: option.splits)

lemma canUserAccessGroup_iff: "canUserAccessGroup user grp \<longleftrightarrow> may_edit user grp"
  by (auto simp: canUserAccessGroup_def may_edit_def canApproveGroup_iff)

lemma getGroupById_listed:
  assumes "store_ok s" "getGroupById now gid s = Some grp"
  shows "grp \<in> set (listGroups now s) \<and> gwc_id grp = gid"
  using assms
  by (auto simp: getGroupById_def listGroups_def getAllGroups_def dbGroupToApi_def dest!: row_by_SomeD)

text \<open>Access to groups.  For an existing group, a user may change it exactly when the token is an
  administrator's, or the user owns the group, or the token has a teacher role naming its identifier or its
  name; the same groups are listed for the user; and viewing is allowed for these and for public groups.\<close>
theorem group_access_iff:
  assumes "store_reach s" "getGroupById now gid s = Some grp"
  shows "(ensureUserCanAccessGroupId now user gid s = Inr () \<longleftrightarrow> may_edit user grp) \<and>
    (grp \<in> set (listGroupsVisibleToUser now user s) \<longleftrightarrow> may_edit user grp) \<and>
    (ensureUserCanViewGroupId now user gid s = Inr () \<longleftrightarrow>
       may_edit user grp \<or> gwc_visibility grp = ''instance_public'')"
proof -
  have listed: "grp \<in> set (listGroups now s)" "gwc_id grp = gid"
    using getGroupById_listed [OF store_reach_ok [OF assms(1)] assms(2)] by auto
  have direct: "canApproveGroup (Some user) gid \<Longrightarrow> may_edit user grp"
    using listed(2) by (auto simp: may_edit_def canApproveGroup_iff)
  have "ensureUserCanAccessGroupId now user gid s = Inr () \<longleftrightarrow> may_edit user grp"
    using assms(2) direct listed(2)
    by (auto simp: ensureUserCanAccessGroupId_def svc_getGroupById_def may_edit_def canApproveGroup_iff)
  moreover have "grp \<in> set (listGroupsVisibleToUser now user s) \<longleftrightarrow> may_edit user grp"
    using listed by (simp add: listGroupsVisibleToUser_def canUserAccessGroup_iff)
  moreover have "ensureUserCanViewGroupId now user gid s = Inr () \<longleftrightarrow>
       may_edit user grp \<or> gwc_visibility grp = ''instance_public''"
    using assms(2) direct
    by (auto simp: ensureUserCanViewGroupId_def svc_getGroupById_def canUserViewGroup_def canUserAccessGroup_iff)
  ultimately show ?thesis by blast
qed

lemma demo_org_store: "store_reach (org_groups demo_org)"
proof -
  have "createGroup ''g1'' 0 ''primary'' ''Primary'' no_opts \<lparr>gs_groups = [], gs_rules = []\<rparr> =
      Inr (''g1'', org_groups demo_org)"
    by code_simp
  then show ?thesis by (rule store_reach.group [OF store_reach.init])
qed

theorem group_access_iff_witness:
  "ensureUserCanAccessGroupId 0 demo_token ''g1'' (org_groups demo_org) = Inr () \<and>
   ensureUserCanViewGroupId 0 demo_token ''g1'' (org_groups demo_org) = Inr ()"
proof -
  define grp where "grp = the (getGroupById 0 ''g1'' (org_groups demo_org))"
  have "getGroupById 0 ''g1'' (org_groups demo_org) = Some grp" unfolding grp_def by code_simp
  note iff = group_access_iff [OF demo_org_store this, of demo_token]
  have "may_edit demo_token grp"
    unfolding grp_def by code_simp
  with iff show ?thesis by blast
qed

section \<open>Access to classrooms\<close>

lemma enroll_weaker:
  "ensureUserCanAccessClassroom tz user c now db = Inr scope \<Longrightarrow> ensureUserCanEnrollClassroom tz user c now db = Inr scope"
  by (auto simp: ensureUserCanAccessClassroom_def ensureUserCanEnrollClassroom_def ensureUserCanUseClassroom_def
      canUseClassroomScope_def split: option.splits if_splits)

lemma enroll_ungoverned:
  "resolveClassroomAccessScope tz c now db = Some scope \<Longrightarrow> asc_currentGroupSource scope = CG_none \<Longrightarrow>
   ensureUserCanEnrollClassroom tz user c now db = Inr scope"
  by (simp add: ensureUserCanEnrollClassroom_def ensureUserCanUseClassroom_def canUseClassroomScope_def)

end
