(* ===== verification/Sessions.thy ===== *)
theory Sessions
  imports Access_Control
begin

text \<open>
  Sessions: \<open>api/src/lib/token-store.ts\<close>, \<open>auth-tokens.ts\<close>, \<open>auth-verify.ts\<close>, \<open>blacklistToken\<close> of
  \<open>auth-authorization.ts\<close> and \<open>api/src/services/auth-session.service.ts\<close>.

  The JWT library and the hash are arguments: \<open>jverify token now\<close> is \<open>jwt.verify\<close> with the
  server's secret and issuer at a time in milliseconds (\<open>None\<close> when it throws), \<open>jdecode\<close> the
  subject \<open>jwt.decode\<close> reads, \<open>sign\<close> is \<open>jwt.sign\<close> for an identifier and a payload, and \<open>hash\<close> the hex
  digest.  \<open>jwt_sound\<close> is what the library documents and the session relies on.  A payload that is
  not an access token carries no roles.
\<close>

section \<open>The token store\<close>

record token_row =
  tk_id :: string
  tk_userId :: string
  tk_tokenHash :: string
  tk_expiresAt :: int

record session_db =
  ses_accounts :: account_db
  ses_tokens :: "token_row table"

definition store_blacklisted ::
  "(string \<Rightarrow> string) \<Rightarrow> (string \<Rightarrow> string option) \<Rightarrow> string \<Rightarrow> int \<Rightarrow> session_db \<Rightarrow> db_error + session_db" where
  "store_blacklisted hash jdecode token expiresAt db =
     (let userId = or_else (jdecode token) ''unknown'';
          tokenHash = hash token;
          row = \<lparr>tk_id = take 32 tokenHash, tk_userId = userId, tk_tokenHash = tokenHash, tk_expiresAt = expiresAt\<rparr>
      in if row_by tk_id (tk_id row) (ses_tokens db) \<noteq> None then Inr db
         else if userId \<notin> set (user_ids (ses_accounts db)) then Inl Foreign_key_violation
         else Inr (db\<lparr>ses_tokens := ins_row row (ses_tokens db)\<rparr>))"

definition isBlacklisted :: "(string \<Rightarrow> string) \<Rightarrow> string \<Rightarrow> int \<Rightarrow> session_db \<Rightarrow> bool" where
  "isBlacklisted hash token now db \<longleftrightarrow>
     (case row_by tk_id (take 32 (hash token)) (ses_tokens db) of
        None \<Rightarrow> False | Some row \<Rightarrow> tk_expiresAt row > now)"

definition cleanup :: "int \<Rightarrow> session_db \<Rightarrow> nat \<times> session_db" where
  "cleanup now db =
     (count_where (\<lambda>r. tk_expiresAt r < now) (ses_tokens db),
      db\<lparr>ses_tokens := del_where (\<lambda>r. tk_expiresAt r < now) (ses_tokens db)\<rparr>)"

section \<open>Verification\<close>

text \<open>Parts of a decoded payload that are not of the expected type are \<open>None\<close>.\<close>

record raw_role =
  rr_role :: "string option"
  rr_groupIds :: "string option list option"

record raw_payload =
  rw_sub :: string
  rw_email :: string
  rw_name :: string
  rw_roles :: "raw_role option list option"
  rw_type :: string
  rw_exp :: "int option"

type_synonym jwt_verifier = "string \<Rightarrow> int \<Rightarrow> raw_payload option"

definition normalizeDecodedRoles :: "raw_role option list option \<Rightarrow> role_info list" where
  "normalizeDecodedRoles rawRoles =
     List.map_filter (\<lambda>raw. case raw of
         None \<Rightarrow> None
       | Some r \<Rightarrow> map_option (\<lambda>role. \<lparr>ri_role = role, ri_groupIds = List.map_filter id (or_else (rr_groupIds r) [])\<rparr>)
                    (normalizeUserRoleString (rr_role r)))
       (or_else rawRoles [])"

definition verifyToken :: "jwt_verifier \<Rightarrow> (string \<Rightarrow> string) \<Rightarrow> string \<Rightarrow> int \<Rightarrow> session_db \<Rightarrow> jwt_payload option" where
  "verifyToken jverify hash token now db =
     (if isBlacklisted hash token now db then None
      else map_option (\<lambda>raw. \<lparr>jwt_sub = rw_sub raw, jwt_email = rw_email raw, jwt_name = rw_name raw,
             jwt_roles = (if rw_type raw = ''access'' then Some (normalizeDecodedRoles (rw_roles raw)) else None),
             jwt_type = rw_type raw, jwt_exp = rw_exp raw\<rparr>) (jverify token now))"

definition verifyAccessToken :: "jwt_verifier \<Rightarrow> (string \<Rightarrow> string) \<Rightarrow> string \<Rightarrow> int \<Rightarrow> session_db \<Rightarrow> jwt_payload option" where
  "verifyAccessToken jverify hash token now db =
     (case verifyToken jverify hash token now db of
        Some d \<Rightarrow> if jwt_type d = ''access'' then Some d else None | None \<Rightarrow> None)"

definition verifyRefreshToken :: "jwt_verifier \<Rightarrow> (string \<Rightarrow> string) \<Rightarrow> string \<Rightarrow> int \<Rightarrow> session_db \<Rightarrow> jwt_payload option" where
  "verifyRefreshToken jverify hash token now db =
     (case verifyToken jverify hash token now db of
        Some d \<Rightarrow> if jwt_type d = ''refresh'' then Some d else None | None \<Rightarrow> None)"

text \<open>Within a transaction the verification still reads the committed state.\<close>

definition blacklistToken ::
  "jwt_verifier \<Rightarrow> (string \<Rightarrow> string) \<Rightarrow> (string \<Rightarrow> string option) \<Rightarrow> string \<Rightarrow> int \<Rightarrow> session_db \<Rightarrow> session_db \<Rightarrow>
   db_error + session_db" where
  "blacklistToken jverify hash jdecode token now committed tx =
     (let inADay = now + 24 * 60 * 60 * 1000;
          expiresAt = (case verifyToken jverify hash token now committed of
            Some d \<Rightarrow> (case jwt_exp d of Some e \<Rightarrow> if e \<noteq> 0 then e * 1000 else inADay | None \<Rightarrow> inADay)
          | None \<Rightarrow> inADay)
      in store_blacklisted hash jdecode token expiresAt tx)"

section \<open>The session service\<close>

record token_pair =
  tp_accessToken :: string
  tp_refreshToken :: string

definition generateAccessToken :: "(string \<Rightarrow> raw_payload \<Rightarrow> string) \<Rightarrow> string \<Rightarrow> user_row \<Rightarrow> role_info list \<Rightarrow> string" where
  "generateAccessToken sign jti user roles =
     sign jti \<lparr>rw_sub = usr_id user, rw_email = usr_email user, rw_name = usr_name user,
        rw_roles = Some (map (\<lambda>r. Some \<lparr>rr_role = Some (role_text (ri_role r)),
                                         rr_groupIds = Some (map Some (ri_groupIds r))\<rparr>) roles),
        rw_type = ''access'', rw_exp = None\<rparr>"

definition generateRefreshToken :: "(string \<Rightarrow> raw_payload \<Rightarrow> string) \<Rightarrow> string \<Rightarrow> user_row \<Rightarrow> string" where
  "generateRefreshToken sign jti user =
     sign jti \<lparr>rw_sub = usr_id user, rw_email = [], rw_name = [], rw_roles = None, rw_type = ''refresh'', rw_exp = None\<rparr>"

definition generateTokens ::
  "(string \<Rightarrow> raw_payload \<Rightarrow> string) \<Rightarrow> string \<times> string \<Rightarrow> user_row \<Rightarrow> role_info list \<Rightarrow> token_pair" where
  "generateTokens sign jtis user roles =
     \<lparr>tp_accessToken = generateAccessToken sign (fst jtis) user roles,
      tp_refreshToken = generateRefreshToken sign (snd jtis) user\<rparr>"

abbreviation verification_required :: string where
  "verification_required \<equiv> ''Email verification required before signing in''"

definition login ::
  "(string \<Rightarrow> raw_payload \<Rightarrow> string) \<Rightarrow> (string \<Rightarrow> string \<Rightarrow> bool) \<Rightarrow> string \<times> string \<Rightarrow> string \<Rightarrow> string \<Rightarrow> session_db \<Rightarrow>
   (token_pair \<times> user_row \<times> role_info list) outcome" where
  "login sign compare jtis email password db =
     (case verifyPasswordByEmail compare email password (ses_accounts db) of
        None \<Rightarrow> Fail (Unauthorized ''Invalid credentials'')
      | Some user \<Rightarrow>
          if \<not> usr_isActive user then Fail (Forbidden ''Account inactive'')
          else if \<not> usr_emailVerified user then Fail (Forbidden verification_required)
          else let roleInfo = mapRoleInfo (getUserRoles (usr_id user) (ses_accounts db))
               in Ok (generateTokens sign jtis user roleInfo, user, roleInfo))"

definition refresh ::
  "jwt_verifier \<Rightarrow> (string \<Rightarrow> string) \<Rightarrow> (string \<Rightarrow> string option) \<Rightarrow> (string \<Rightarrow> raw_payload \<Rightarrow> string) \<Rightarrow> string \<times> string \<Rightarrow>
   string \<Rightarrow> int \<Rightarrow> session_db \<Rightarrow> token_pair outcome \<times> session_db" where
  "refresh jverify hash jdecode sign jtis refreshToken now db =
     (case verifyRefreshToken jverify hash refreshToken now db of
        None \<Rightarrow> (Fail (Unauthorized ''Invalid refresh token''), db)
      | Some decoded \<Rightarrow>
          (case getUserById (jwt_sub decoded) (ses_accounts db) of
             None \<Rightarrow> (Fail (Unauthorized ''User not found or inactive''), db)
           | Some user \<Rightarrow>
               if \<not> usr_isActive user \<or> \<not> usr_emailVerified user then
                 (Fail (Unauthorized (if \<not> usr_emailVerified user then verification_required
                                      else ''User not found or inactive'')), db)
               else (case blacklistToken jverify hash jdecode refreshToken now db db of
                   Inl e \<Rightarrow> (Throws e, db)
                 | Inr db1 \<Rightarrow>
                     (Ok (generateTokens sign jtis user (mapRoleInfo (getUserRoles (usr_id user) (ses_accounts db1)))), db1))))"

definition blacklist_given ::
  "jwt_verifier \<Rightarrow> (string \<Rightarrow> string) \<Rightarrow> (string \<Rightarrow> string option) \<Rightarrow> string option \<Rightarrow> int \<Rightarrow> session_db \<Rightarrow> session_db \<Rightarrow>
   db_error + session_db" where
  "blacklist_given jverify hash jdecode token now committed tx =
     (case token of
        Some t \<Rightarrow> if t \<noteq> [] then blacklistToken jverify hash jdecode t now committed tx else Inr tx
      | None \<Rightarrow> Inr tx)"

definition logout ::
  "jwt_verifier \<Rightarrow> (string \<Rightarrow> string) \<Rightarrow> (string \<Rightarrow> string option) \<Rightarrow> string option \<Rightarrow> string option \<Rightarrow> int \<Rightarrow> session_db \<Rightarrow>
   unit outcome \<times> session_db" where
  "logout jverify hash jdecode accessToken refreshToken now db =
     (case and_then (blacklist_given jverify hash jdecode accessToken now db db) (\<lambda>tx.
             blacklist_given jverify hash jdecode refreshToken now db tx) of
        Inl e \<Rightarrow> (Throws e, db)
      | Inr db1 \<Rightarrow> (Ok (), db1))"

section \<open>What the library promises\<close>

text \<open>
  A verified token has an expiry in the future, in whole seconds, and a token that verifies at some
  time verified at every earlier time with the same payload (the tokens have no \<open>nbf\<close> claim).
\<close>

definition jwt_sound :: "jwt_verifier \<Rightarrow> bool" where
  "jwt_sound jverify \<longleftrightarrow>
     (\<forall>t now p. jverify t now = Some p \<longrightarrow> (\<exists>e. rw_exp p = Some e \<and> now div 1000 < e)) \<and>
     (\<forall>t a b p. a \<le> b \<longrightarrow> jverify t b = Some p \<longrightarrow> jverify t a = Some p)"

definition own_id :: "(string \<Rightarrow> string) \<Rightarrow> string \<Rightarrow> bool" where
  "own_id hash tok \<longleftrightarrow> (\<forall>t. take 32 (hash t) = take 32 (hash tok) \<longrightarrow> t = tok)"

section \<open>Runs\<close>

text \<open>
  What happens to the sessions over time.  Any token can be blacklisted, expired rows are cleaned up, and accounts
  change in any way; the rows of a user who is deleted go with the user (\<open>ON DELETE CASCADE\<close>).
\<close>

definition cascade_tokens :: "account_db \<Rightarrow> session_db \<Rightarrow> session_db" where
  "cascade_tokens acc db =
     db\<lparr>ses_accounts := acc, ses_tokens := sel_where (\<lambda>r. tk_userId r \<in> set (user_ids acc)) (ses_tokens db)\<rparr>"

inductive session_step :: "jwt_verifier \<Rightarrow> (string \<Rightarrow> string) \<Rightarrow> (string \<Rightarrow> string option) \<Rightarrow>
    int \<times> session_db \<Rightarrow> int \<times> session_db \<Rightarrow> bool"
  for jverify :: jwt_verifier and hash :: "string \<Rightarrow> string" and jdecode :: "string \<Rightarrow> string option" where
  wait: "now \<le> later \<Longrightarrow> session_step jverify hash jdecode (now, db) (later, db)"
| refresh: "refresh jverify hash jdecode sign jtis tok now db = (r1, db') \<Longrightarrow>
    session_step jverify hash jdecode (now, db) (now, db')"
| logout: "logout jverify hash jdecode a r now db = (r2, db') \<Longrightarrow>
    session_step jverify hash jdecode (now, db) (now, db')"
| cleanup: "session_step jverify hash jdecode (now, db) (now, snd (cleanup now db))"
| accounts: "session_step jverify hash jdecode (now, db) (now, cascade_tokens acc db)"

definition session_run :: "jwt_verifier \<Rightarrow> (string \<Rightarrow> string) \<Rightarrow> (string \<Rightarrow> string option) \<Rightarrow>
    int \<times> session_db \<Rightarrow> int \<times> session_db \<Rightarrow> bool" where
  "session_run jverify hash jdecode = (session_step jverify hash jdecode)\<^sup>*\<^sup>*"

text \<open>A run after each step of which a user exists.\<close>

inductive keeping_run :: "jwt_verifier \<Rightarrow> (string \<Rightarrow> string) \<Rightarrow> (string \<Rightarrow> string option) \<Rightarrow> string \<Rightarrow>
    int \<times> session_db \<Rightarrow> int \<times> session_db \<Rightarrow> bool"
  for jverify :: jwt_verifier and hash :: "string \<Rightarrow> string" and jdecode :: "string \<Rightarrow> string option" and u :: string where
  stay: "keeping_run jverify hash jdecode u st st"
| next_step: "keeping_run jverify hash jdecode u st st' \<Longrightarrow> session_step jverify hash jdecode st' st'' \<Longrightarrow>
    u \<in> set (user_ids (ses_accounts (snd st''))) \<Longrightarrow> keeping_run jverify hash jdecode u st st''"

text \<open>A row for the token outlives the token.\<close>

definition row_covers :: "jwt_verifier \<Rightarrow> string \<Rightarrow> int \<Rightarrow> token_row \<Rightarrow> bool" where
  "row_covers jverify tok now row \<longleftrightarrow>
     (\<forall>a p e. now \<le> a \<longrightarrow> jverify tok a = Some p \<longrightarrow> rw_exp p = Some e \<longrightarrow> e * 1000 \<le> tk_expiresAt row)"

definition token_owner :: "(string \<Rightarrow> string option) \<Rightarrow> string \<Rightarrow> string" where
  "token_owner jdecode tok = or_else (jdecode tok) ''unknown''"

definition justified_row ::
  "jwt_verifier \<Rightarrow> (string \<Rightarrow> string) \<Rightarrow> (string \<Rightarrow> string option) \<Rightarrow> string \<Rightarrow> int \<times> session_db \<Rightarrow> bool" where
  "justified_row jverify hash jdecode tok st \<longleftrightarrow>
     (\<forall>row\<in>set (ses_tokens (snd st)). tk_id row = take 32 (hash tok) \<longrightarrow>
        row_covers jverify tok (fst st) row \<and> tk_userId row = token_owner jdecode tok)"

definition has_row :: "(string \<Rightarrow> string) \<Rightarrow> string \<Rightarrow> session_db \<Rightarrow> bool" where
  "has_row hash tok db \<longleftrightarrow> row_by tk_id (take 32 (hash tok)) (ses_tokens db) \<noteq> None"

definition dead_token :: "jwt_verifier \<Rightarrow> (string \<Rightarrow> string) \<Rightarrow> string \<Rightarrow> int \<times> session_db \<Rightarrow> bool" where
  "dead_token jverify hash tok st \<longleftrightarrow> has_row hash tok (snd st) \<or> (\<forall>a\<ge>fst st. jverify tok a = None)"

lemma covered_blacklisted:
  assumes "jwt_sound jverify" "row_covers jverify tok now row" "jverify tok now = Some p"
  shows "now < tk_expiresAt row"
proof -
  obtain e where e: "rw_exp p = Some e" "now div 1000 < e" using assms(1,3) unfolding jwt_sound_def by blast
  then have "e * 1000 \<le> tk_expiresAt row" using assms(2,3) unfolding row_covers_def by blast
  then show ?thesis using e(2) by linarith
qed

lemma dead_not_verified:
  assumes "jwt_sound jverify" "justified_row jverify hash jdecode tok (now, db)" "dead_token jverify hash tok (now, db)"
  shows "verifyToken jverify hash tok now db = None"
proof (cases "jverify tok now")
  case None
  then show ?thesis by (simp add: verifyToken_def)
next
  case (Some p)
  then obtain row where row: "row_by tk_id (take 32 (hash tok)) (ses_tokens db) = Some row"
    using assms(3) by (auto simp: dead_token_def has_row_def)
  then have "row_covers jverify tok now row"
    using assms(2) row_by_SomeD [OF row] by (auto simp: justified_row_def)
  from covered_blacklisted [OF assms(1) this Some] show ?thesis
    using row by (simp add: verifyToken_def isBlacklisted_def)
qed

lemma row_covers_later: "row_covers jverify tok now row \<Longrightarrow> now \<le> later \<Longrightarrow> row_covers jverify tok later row"
  unfolding row_covers_def by (meson order_trans)

text \<open>Blacklisting keeps the rows that are there; a new row for the token covers it.\<close>

lemma blacklist_step:
  assumes sound: "jwt_sound jverify" and own: "own_id hash tok" and now: "0 \<le> now"
    and mono: "has_row hash tok committed \<Longrightarrow> has_row hash tok tx"
    and j: "justified_row jverify hash jdecode tok (now, tx)"
    and b: "blacklistToken jverify hash jdecode t now committed tx = Inr db'"
  shows "justified_row jverify hash jdecode tok (now, db') \<and> (has_row hash tok tx \<longrightarrow> has_row hash tok db') \<and> has_row hash t db'"
proof -
  obtain ex where b': "store_blacklisted hash jdecode t ex tx = Inr db'"
    and ex: "\<And>d e. verifyToken jverify hash t now committed = Some d \<Longrightarrow> jwt_exp d = Some e \<Longrightarrow> e \<noteq> 0 \<Longrightarrow> ex = e * 1000"
    using b by (auto simp: blacklistToken_def Let_def)
  define row where "row = \<lparr>tk_id = take 32 (hash t), tk_userId = or_else (jdecode t) ''unknown'', tk_tokenHash = hash t, tk_expiresAt = ex\<rparr>"
  show ?thesis
  proof (cases "has_row hash t tx")
    case True
    then have "db' = tx" using b' by (auto simp: store_blacklisted_def Let_def has_row_def)
    then show ?thesis using True j by simp
  next
    case False
    then have db': "db' = tx\<lparr>ses_tokens := ins_row row (ses_tokens tx)\<rparr>"
      using b' by (auto simp: store_blacklisted_def Let_def has_row_def row_def split: if_splits)
    have t: "t = tok" if "tk_id row = take 32 (hash tok)" using that own by (simp add: row_def own_id_def)
    then have "tk_userId row = token_owner jdecode tok" if "tk_id row = take 32 (hash tok)"
      using that by (simp add: row_def token_owner_def)
    moreover have "row_covers jverify tok now row" if "tk_id row = take 32 (hash tok)"
      unfolding row_covers_def
    proof (intro allI impI)
      fix a p e
      assume a: "now \<le> a" "jverify tok a = Some p" and e: "rw_exp p = Some e"
      have p: "jverify tok now = Some p" using sound a unfolding jwt_sound_def by blast
      note t = t [OF that]
      have "\<not> isBlacklisted hash tok now committed"
        using False mono by (auto simp: t has_row_def isBlacklisted_def split: option.splits)
      then obtain d where d: "verifyToken jverify hash t now committed = Some d" "jwt_exp d = Some e"
        using p e by (auto simp: verifyToken_def t)
      have "now div 1000 < e" using sound p e unfolding jwt_sound_def by (metis option.inject)
      then have "e \<noteq> 0" using now by (auto simp: pos_imp_zdiv_nonneg_iff)
      then show "e * 1000 \<le> tk_expiresAt row" using ex [OF d] by (simp add: row_def)
    qed
    ultimately have "justified_row jverify hash jdecode tok (now, db')"
      using j by (auto simp: db' justified_row_def set_ins_row)
    then show ?thesis by (auto simp: db' has_row_def set_ins_row row_by_ins row_def split: option.splits)
  qed
qed

lemma given_step:
  assumes "jwt_sound jverify" "own_id hash tok" "0 \<le> now" "has_row hash tok committed \<Longrightarrow> has_row hash tok tx"
    "justified_row jverify hash jdecode tok (now, tx)" "blacklist_given jverify hash jdecode t now committed tx = Inr db'"
  shows "justified_row jverify hash jdecode tok (now, db') \<and> (has_row hash tok tx \<longrightarrow> has_row hash tok db') \<and>
    (t = Some tok \<and> tok \<noteq> [] \<longrightarrow> has_row hash tok db')"
  using assms blacklist_step [OF assms(1-3), of committed tx jdecode _ db']
  by (auto simp: blacklist_given_def split: option.splits if_splits)

lemma logout_step:
  assumes "jwt_sound jverify" "own_id hash tok" "0 \<le> now" "justified_row jverify hash jdecode tok (now, db)"
    "logout jverify hash jdecode a r now db = (res, db')"
  shows "justified_row jverify hash jdecode tok (now, db') \<and> (has_row hash tok db \<longrightarrow> has_row hash tok db') \<and>
    (res = Ok () \<and> tok \<noteq> [] \<and> (a = Some tok \<or> r = Some tok) \<longrightarrow> has_row hash tok db')"
proof (cases "and_then (blacklist_given jverify hash jdecode a now db db) (\<lambda>tx. blacklist_given jverify hash jdecode r now db tx)")
  case (Inl e)
  then show ?thesis using assms(4,5) by (auto simp: logout_def)
next
  case (Inr db1)
  then obtain tx where tx: "blacklist_given jverify hash jdecode a now db db = Inr tx"
    "blacklist_given jverify hash jdecode r now db tx = Inr db1"
    by (auto simp: and_then_Inr_iff)
  have "db' = db1" using assms(5) Inr by (simp add: logout_def)
  then show ?thesis
    using given_step [OF assms(1-3) _ assms(4) tx(1)] given_step [OF assms(1-3) _ _ tx(2)] by auto
qed

lemma refresh_step:
  assumes "jwt_sound jverify" "own_id hash tok" "0 \<le> now" "justified_row jverify hash jdecode tok (now, db)"
    "refresh jverify hash jdecode sign jtis t now db = (res, db')"
  shows "justified_row jverify hash jdecode tok (now, db') \<and> (has_row hash tok db \<longrightarrow> has_row hash tok db') \<and>
    (t = tok \<and> (\<exists>x. res = Ok x) \<longrightarrow> has_row hash tok db')"
  using assms(4,5) blacklist_step [OF assms(1-3), of db db jdecode t]
  by (auto simp: refresh_def split: option.splits if_splits sum.splits)

lemma cleanup_dead:
  assumes "jwt_sound jverify" "justified_row jverify hash jdecode tok (now, db)" "dead_token jverify hash tok (now, db)"
  shows "dead_token jverify hash tok (now, snd (cleanup now db))"
proof (cases "has_row hash tok (snd (cleanup now db)) \<or> \<not> has_row hash tok db")
  case True
  then show ?thesis using assms(3) by (auto simp: dead_token_def)
next
  case False
  then obtain row where row: "row \<in> set (ses_tokens db)" "tk_id row = take 32 (hash tok)"
    by (auto simp: has_row_def row_by_None_iff)
  with False have ex: "tk_expiresAt row < now"
    by (auto simp: cleanup_def has_row_def row_by_None_iff set_del_where image_iff)
  have cov: "row_covers jverify tok now row" using assms(2) row by (auto simp: justified_row_def)
  have "jverify tok a = None" if "now \<le> a" for a
  proof (rule ccontr)
    assume "jverify tok a \<noteq> None"
    then obtain p where p: "jverify tok a = Some p" by auto
    from covered_blacklisted [OF assms(1) row_covers_later [OF cov that] p] show False using ex that by linarith
  qed
  then show ?thesis by (simp add: dead_token_def)
qed

lemma session_step_justified:
  assumes "session_step jverify hash jdecode st st'" "jwt_sound jverify" "own_id hash tok" "0 \<le> fst st"
    "justified_row jverify hash jdecode tok st"
  shows "justified_row jverify hash jdecode tok st' \<and> fst st \<le> fst st' \<and>
    (dead_token jverify hash tok st \<and> token_owner jdecode tok \<in> set (user_ids (ses_accounts (snd st'))) \<longrightarrow>
     dead_token jverify hash tok st')"
  using assms
proof (induction rule: session_step.induct)
  case (wait now later db)
  then show ?case by (auto simp: justified_row_def dead_token_def intro: row_covers_later)
next
  case (refresh sign jtis t now db r1 db')
  then show ?case using refresh_step [of jverify hash tok now jdecode db sign jtis t r1 db'] by (auto simp: dead_token_def)
next
  case (logout a r now db r2 db')
  then show ?case using logout_step [of jverify hash tok now jdecode db a r r2 db'] by (auto simp: dead_token_def)
next
  case (cleanup now db)
  then have "justified_row jverify hash jdecode tok (now, snd (Sessions.cleanup now db))"
    by (auto simp: justified_row_def Sessions.cleanup_def set_del_where)
  then show ?case using cleanup cleanup_dead by auto
next
  case (accounts now db acc)
  then show ?case
    by (auto simp: justified_row_def dead_token_def has_row_def cascade_tokens_def row_by_None_iff set_sel_where image_iff) metis
qed

lemma session_run_justified:
  assumes "session_run jverify hash jdecode st st'" "jwt_sound jverify" "own_id hash tok" "0 \<le> fst st"
    "justified_row jverify hash jdecode tok st"
  shows "justified_row jverify hash jdecode tok st' \<and> fst st \<le> fst st'"
  using assms(1) unfolding session_run_def
proof (induction rule: rtranclp_induct)
  case base
  then show ?case using assms(5) by simp
next
  case (step y z)
  then show ?case using session_step_justified [OF step(2) assms(2,3)] assms(4) by auto
qed

lemma keeping_run_dead:
  assumes "keeping_run jverify hash jdecode (token_owner jdecode tok) st st'" "jwt_sound jverify" "own_id hash tok" "0 \<le> fst st"
    "justified_row jverify hash jdecode tok st" "dead_token jverify hash tok st"
  shows "justified_row jverify hash jdecode tok st' \<and> fst st \<le> fst st' \<and> dead_token jverify hash tok st'"
  using assms
proof (induction rule: keeping_run.induct)
  case (next_step st st' st'')
  then have IH: "justified_row jverify hash jdecode tok st' \<and> fst st \<le> fst st' \<and> dead_token jverify hash tok st'" by blast
  then have "0 \<le> fst st'" using next_step.prems(3) by linarith
  from session_step_justified [OF next_step.hyps(2) assms(2,3) this] IH next_step.hyps(3) show ?case by auto
qed simp

text \<open>C26: a token that was logged out or exchanged stays dead as long as its user exists.  Once \<open>logout\<close> has been given a
  token, or \<open>refresh\<close> has exchanged it for a new pair, the token is not verified again at any later time, whatever
  other sessions, cleanups and account changes happen in between, provided the user of the token exists throughout; so a
  refresh token is good for one refresh.  When the user is deleted the row of the token goes too
  (\<open>deletion_revives_token\<close>).\<close>
theorem revoked_tokens_stay_dead:
  assumes "jwt_sound jverify" "own_id hash tok" "tok \<noteq> []" "0 \<le> t0" "ses_tokens db0 = []"
    and "session_run jverify hash jdecode (t0, db0) (t, db)"
    and "logout jverify hash jdecode (Some tok) r t db = (Ok (), db1) \<or>
         logout jverify hash jdecode a (Some tok) t db = (Ok (), db1) \<or>
         refresh jverify hash jdecode sign jtis tok t db = (Ok pair, db1)"
    and "keeping_run jverify hash jdecode (or_else (jdecode tok) ''unknown'') (t, db1) (t', db2)"
  shows "verifyToken jverify hash tok t' db2 = None \<and>
    fst (refresh jverify hash jdecode sign' jtis' tok t' db2) = Fail (Unauthorized ''Invalid refresh token'')"
proof -
  have "justified_row jverify hash jdecode tok (t0, db0)" using assms(5) by (simp add: justified_row_def)
  from session_run_justified [OF assms(6,1,2) _ this]
  have st: "justified_row jverify hash jdecode tok (t, db)" "0 \<le> t" using assms(4) by auto
  have "justified_row jverify hash jdecode tok (t, db1) \<and> has_row hash tok db1"
    using assms(7) logout_step [OF assms(1,2) st(2,1)] refresh_step [OF assms(1,2) st(2,1)] assms(3) by blast
  then have "justified_row jverify hash jdecode tok (t', db2)" "dead_token jverify hash tok (t', db2)"
    using keeping_run_dead [OF assms(8) [folded token_owner_def] assms(1,2)] st(2) by (auto simp: dead_token_def)
  from dead_not_verified [OF assms(1) this] show ?thesis
    by (simp add: refresh_def verifyRefreshToken_def)
qed

definition demo_verify :: jwt_verifier where
  "demo_verify tok now =
     (if tok = ''tok'' \<and> now div 1000 < 900
      then Some \<lparr>rw_sub = ''u1'', rw_email = [], rw_name = [], rw_roles = None, rw_type = ''refresh'', rw_exp = Some 900\<rparr>
      else None)"

definition demo_hash :: "string \<Rightarrow> string" where
  "demo_hash tok = (if tok = ''tok'' then ''1'' else ''0'')"

definition demo_sessions :: session_db where
  "demo_sessions = \<lparr>ses_accounts = org_accounts demo_org, ses_tokens = []\<rparr>"

definition demo_sign :: "string \<Rightarrow> raw_payload \<Rightarrow> string" where
  "demo_sign jti p = jti @ rw_sub p @ rw_type p"

lemma demo_verify_sound: "jwt_sound demo_verify"
  unfolding jwt_sound_def
proof (intro conjI allI impI)
  fix t a b p
  assume ab: "a \<le> b" and v: "demo_verify t b = Some p"
  have "a div 1000 \<le> b div 1000" using ab by (rule zdiv_mono1) simp
  then show "demo_verify t a = Some p" using v by (auto simp: demo_verify_def split: if_splits)
qed (auto simp: demo_verify_def split: if_splits)

theorem revoked_tokens_stay_dead_witness:
  "verifyToken demo_verify demo_hash ''tok'' 5000 demo_sessions \<noteq> None \<and>
   (\<exists>pair db1. refresh demo_verify demo_hash (\<lambda>_. Some ''u1'') demo_sign (''a'', ''b'') ''tok'' 5000 demo_sessions = (Ok pair, db1) \<and>
      verifyToken demo_verify demo_hash ''tok'' 7000 db1 = None)"
proof -
  let ?r = "refresh demo_verify demo_hash (\<lambda>_. Some ''u1'') demo_sign (''a'', ''b'') ''tok'' 5000 demo_sessions"
  have own: "own_id demo_hash ''tok''" by (auto simp: own_id_def demo_hash_def)
  define pair where "pair = (case fst ?r of Ok p \<Rightarrow> p)"
  have "(case fst ?r of Ok _ \<Rightarrow> True | _ \<Rightarrow> False)" by code_simp
  then have ok: "?r = (Ok pair, snd ?r)" by (cases ?r) (simp add: pair_def split: outcome.splits)
  then have r: "logout demo_verify demo_hash (\<lambda>_. Some ''u1'') (Some ''tok'') None 5000 demo_sessions = (Ok (), snd ?r) \<or>
      logout demo_verify demo_hash (\<lambda>_. Some ''u1'') None (Some ''tok'') 5000 demo_sessions = (Ok (), snd ?r) \<or>
      ?r = (Ok pair, snd ?r)" by blast
  have run0: "session_run demo_verify demo_hash (\<lambda>_. Some ''u1'') (5000, demo_sessions) (5000, demo_sessions)"
    by (simp add: session_run_def)
  have "''u1'' \<in> set (user_ids (ses_accounts (snd ?r)))" by code_simp
  then have run: "keeping_run demo_verify demo_hash (\<lambda>_. Some ''u1'') (or_else (Some ''u1'') ''unknown'') (5000, snd ?r) (7000, snd ?r)"
    by (intro keeping_run.next_step [OF keeping_run.stay session_step.wait]) (simp_all add: or_else_def)
  have "verifyToken demo_verify demo_hash ''tok'' 7000 (snd ?r) = None"
    using revoked_tokens_stay_dead [OF demo_verify_sound own _ _ _ run0 r run] by (simp add: demo_sessions_def)
  moreover have "verifyToken demo_verify demo_hash ''tok'' 5000 demo_sessions \<noteq> None" by code_simp
  ultimately show ?thesis using ok by blast
qed

text \<open>When the user is deleted, the row of the exchanged token goes with the user, and the token verifies again.\<close>

lemma deletion_revives_token:
  defines "after \<equiv> snd (refresh demo_verify demo_hash (\<lambda>_. Some ''u1'') demo_sign (''a'', ''b'') ''tok'' 5000 demo_sessions)"
  shows "verifyToken demo_verify demo_hash ''tok'' 7000 after = None"
    and "verifyToken demo_verify demo_hash ''tok'' 7000
      (cascade_tokens (snd (projr (deleteUser (\<lambda>_. False) ''u1'' (ses_accounts after)))) after) \<noteq> None"
  unfolding after_def by code_simp+

section \<open>Signing in\<close>

lemma login_Ok:
  assumes "login sign compare jtis email password db = Ok (pair, user, roles)"
  shows "getUserByEmail email (ses_accounts db) = Some user \<and> usr_isActive user \<and> usr_emailVerified user \<and>
    (\<exists>h. usr_passwordHash user = Some h \<and> compare password h) \<and>
    roles = mapRoleInfo (getUserRoles (usr_id user) (ses_accounts db)) \<and> pair = generateTokens sign jtis user roles"
  using assms
  by (auto simp: login_def verifyPasswordByEmail_def getUserByEmail_def Let_def split: option.splits if_splits)

text \<open>The roles in an access token are read back as they were signed.\<close>

lemma signed_roles_roundtrip:
  "normalizeDecodedRoles (Some (map (\<lambda>r. Some \<lparr>rr_role = Some (role_text (ri_role r)),
      rr_groupIds = Some (map Some (ri_groupIds r))\<rparr>) roles)) = roles"
proof -
  have "List.map_filter id (map Some gs) = gs" for gs :: "string list"
    by (induction gs) simp_all
  then show ?thesis
    by (induction roles) (simp_all add: normalizeDecodedRoles_def or_else_def)
qed

end
