(* ===== verification/Change_Announcement.thy ===== *)
theory Change_Announcement
  imports Group_Services
begin

text \<open>
  Every change of an exported whitelist is announced.  \<open>same_export\<close> says that two stores export
  the same file for a group; each storage command keeps it for the groups it does not name, and
  each service publishes an event for the groups for which it may fail.
\<close>

section \<open>What an export depends on\<close>

definition rule_face :: "rule_row \<Rightarrow> rule_type \<times> string \<times> bool" where
  "rule_face r = (rul_type r, rul_value r, rul_enabled r = 1)"

definition same_export :: "string \<Rightarrow> group_store \<Rightarrow> group_store \<Rightarrow> bool" where
  "same_export gid s s' \<longleftrightarrow>
     map_option (\<lambda>g. grp_enabled g = 1) (row_by grp_id gid (gs_groups s')) =
       map_option (\<lambda>g. grp_enabled g = 1) (row_by grp_id gid (gs_groups s)) \<and>
     map rule_face (rules_of_group gid s') = map rule_face (rules_of_group gid s)"

definition exported :: "(string \<Rightarrow> nat list) \<Rightarrow> int \<Rightarrow> string \<Rightarrow> group_store \<Rightarrow> string option" where
  "exported ck now gid s =
     map_option (\<lambda>g. export_content g (getRulesByGroup ck now gid None None s)) (getGroupMetaById now gid s)"

lemma map_insort_key: "map f (insort_key (\<lambda>x. k (f x)) x xs) = insort_key k (f x) (map f xs)"
  by (induction xs) auto

lemma map_sort_key: "map f (sort_key (\<lambda>x. k (f x)) xs) = sort_key k (map f xs)"
  by (induction xs) (auto simp: map_insort_key)

definition api_face :: "api_rule \<Rightarrow> rule_type \<times> string \<times> bool" where
  "api_face r = (ar_type r, ar_value r, ar_enabled r)"

lemma api_face_db: "api_face (dbRuleToApi now r) = rule_face r"
  by (simp add: api_face_def rule_face_def dbRuleToApi_def)

lemma faces_of_group:
  "map api_face (getRulesByGroup ck now gid None None s) =
     sort_key (\<lambda>f. ck (fst (snd f))) (map rule_face (rules_of_group gid s))"
proof -
  have "map api_face (getRulesByGroup ck now gid None None s) =
      sort_key (\<lambda>f. ck (fst (snd f))) (map api_face (map (dbRuleToApi now) (rules_of_group gid s)))"
    using map_sort_key [of api_face "\<lambda>f. ck (fst (snd f))" "map (dbRuleToApi now) (rules_of_group gid s)"]
    by (simp add: getRulesByGroup_def filterRulesByEnabled_def listRuleRowsByGroup_def rules_of_group_def api_face_def)
  then show ?thesis by (simp add: comp_def api_face_db)
qed

lemma enabled_values_faces:
  "enabled_values ty rules = map (\<lambda>f. fst (snd f)) (filter (\<lambda>f. fst f = ty \<and> snd (snd f)) (map api_face rules))"
  by (induction rules) (auto simp: enabled_values_def api_face_def)

lemma same_export_exported:
  assumes "same_export gid s s'"
  shows "exported ck now' gid s' = exported ck now gid s"
proof -
  have "enabled_values ty (getRulesByGroup ck now' gid None None s') =
        enabled_values ty (getRulesByGroup ck now gid None None s)" for ty
    using assms by (simp add: enabled_values_faces faces_of_group same_export_def)
  then show ?thesis
    using assms
    by (cases "row_by grp_id gid (gs_groups s)"; cases "row_by grp_id gid (gs_groups s')")
      (auto simp: exported_def export_content_def same_export_def getGroupMetaById_def dbGroupToMeta_def)
qed

lemma same_export_refl [simp]: "same_export gid s s"
  by (simp add: same_export_def)

lemma same_export_trans: "same_export gid s s' \<Longrightarrow> same_export gid s' s'' \<Longrightarrow> same_export gid s s''"
  by (simp add: same_export_def)

section \<open>Storage commands\<close>

lemma same_export_touch [simp]: "same_export gid s (touchGroupUpdatedAt now i s')  \<longleftrightarrow> same_export gid s s'"
proof -
  have "row_by grp_id gid (upd_by grp_id i (\<lambda>g :: group_row. g\<lparr>grp_updatedAt := Some now\<rparr>) t) =
    (if gid = i then map_option (\<lambda>g. g\<lparr>grp_updatedAt := Some now\<rparr>) (row_by grp_id gid t) else row_by grp_id gid t)" for t
    by (rule row_by_upd) simp
  then show ?thesis
    by (auto simp: same_export_def touchGroupUpdatedAt_def rules_of_group_def option.map_comp comp_def)
qed

lemma same_export_touch_all [simp]: "same_export gid s (touch_all now gids s') \<longleftrightarrow> same_export gid s s'"
  unfolding touch_all_def by (induction gids arbitrary: s') auto

lemma same_export_rules:
  "map rule_face (filter (\<lambda>r. rul_groupId r = gid) t) = map rule_face (filter (\<lambda>r. rul_groupId r = gid) (gs_rules s)) \<Longrightarrow>
   same_export gid s (s\<lparr>gs_rules := t\<rparr>)"
  by (simp add: same_export_def rules_of_group_def sel_where_def)

lemma faces_upd_where:
  assumes "\<And>r. rul_groupId (f r) = rul_groupId r"
    and "\<And>r. r \<in> set t \<Longrightarrow> P r \<Longrightarrow> rul_groupId r = gid \<Longrightarrow> rule_face (f r) = rule_face r"
  shows "map rule_face (filter (\<lambda>r. rul_groupId r = gid) (upd_where P f t)) =
         map rule_face (filter (\<lambda>r. rul_groupId r = gid) t)"
  using assms(2) unfolding upd_where_def by (induction t) (auto simp: assms(1))

lemma faces_del_where:
  assumes "\<And>r. r \<in> set t \<Longrightarrow> P r \<Longrightarrow> rul_groupId r \<noteq> gid"
  shows "filter (\<lambda>r. rul_groupId r = gid) (del_where P t) = filter (\<lambda>r. rul_groupId r = gid) t"
  using assms unfolding del_where_def filter_filter by (intro filter_cong) auto

lemma insert_rules_shape: "insert_rules rows s = Inr s' \<Longrightarrow> s' = s\<lparr>gs_rules := gs_rules s @ rows\<rparr>"
  by (auto simp: insert_rules_def Let_def split: if_splits)

lemma createRule_same:
  assumes "createRule newId now g ty v c s = Inr (res, s')"
  shows "same_export gid s s' \<or> (gid = g \<and> res = Rule_created newId)"
  using assms
  by (auto simp: createRule_def Let_def and_then_Inr_iff split: if_splits
      dest!: insert_rules_shape intro!: same_export_rules)

lemma bulkCreateRules_same:
  "bulkCreateRules now g ty vs s = Inr (n, s') \<Longrightarrow> same_export gid s s' \<or> (gid = g \<and> 0 < n)"
proof (induction vs arbitrary: n s)
  case (Cons p rest)
  obtain newId v where p: "p = (newId, v)" by (cases p)
  show ?case
  proof (cases "normalize_domain v = []")
    case True
    then show ?thesis using Cons p by simp
  next
    case False
    with Cons.prems p obtain res s1 n1 where
      r: "createRule newId now g ty (normalize_domain v) None s = Inr (res, s1)"
        "bulkCreateRules now g ty rest s1 = Inr (n1, s')"
      and n: "n = (case res of Rule_created _ \<Rightarrow> Suc n1 | Rule_rejected _ \<Rightarrow> n1)"
      by (auto simp: and_then_Inr_iff Let_def)
    show ?thesis
      using createRule_same [OF r(1), of gid] Cons.IH [OF r(2)] n same_export_trans by (cases res) auto
  qed
qed simp

lemma deleteRule_same:
  assumes "store_ok s"
  shows "same_export gid s (snd (deleteRule now i s)) \<or>
         (fst (deleteRule now i s) \<and> (\<exists>r. row_by rul_id i (gs_rules s) = Some r \<and> rul_groupId r = gid))"
proof (cases "\<exists>r. row_by rul_id i (gs_rules s) = Some r \<and> rul_groupId r = gid")
  case True
  then obtain r where r: "row_by rul_id i (gs_rules s) = Some r" "rul_groupId r = gid" by blast
  then have "0 < count_where (\<lambda>r. rul_id r = i) (gs_rules s)"
    using row_by_SomeD [of rul_id i] by (force simp: count_where_def filter_empty_conv)
  then show ?thesis using r by (simp add: deleteRule_def Let_def)
next
  case False
  then have "rul_groupId r \<noteq> gid" if "r \<in> set (gs_rules s)" "rul_id r = i" for r
    using assms that row_by_unique [of rul_id "gs_rules s" r] by (auto simp: store_ok_def)
  then have "same_export gid s (s\<lparr>gs_rules := del_by rul_id i (gs_rules s)\<rparr>)"
    by (intro same_export_rules) (simp add: del_by_def faces_del_where)
  then show ?thesis by (auto simp: deleteRule_def Let_def split: option.splits)
qed

lemma count_where_pos: "0 < count_where P t \<longleftrightarrow> (\<exists>r\<in>set t. P r)"
  by (simp add: count_where_def filter_empty_conv)

lemma bulkDeleteRules_same:
  "same_export gid s (snd (bulkDeleteRules now ids s)) \<or>
   (0 < fst (bulkDeleteRules now ids s) \<and> (\<exists>r\<in>set (gs_rules s). rul_id r \<in> set ids \<and> rul_groupId r = gid))"
proof (cases "\<exists>r\<in>set (gs_rules s). rul_id r \<in> set ids \<and> rul_groupId r = gid")
  case True
  then show ?thesis by (auto simp: bulkDeleteRules_def Let_def count_where_pos)
next
  case False
  then have "same_export gid s (s\<lparr>gs_rules := del_where (\<lambda>r. rul_id r \<in> set ids) (gs_rules s)\<rparr>)"
    by (intro same_export_rules) (subst faces_del_where; auto)
  then show ?thesis by (simp add: bulkDeleteRules_def Let_def)
qed

lemma enabled_face: "(rul_enabled r = 1) = b \<Longrightarrow> rule_face (r\<lparr>rul_enabled := (if b then 1 else 0)\<rparr>) = rule_face r"
  by (auto simp: rule_face_def)

lemma setRuleEnabled_same:
  assumes "store_ok s"
  shows "same_export gid s (snd (setRuleEnabled now i b amb s)) \<or>
         (\<exists>r. row_by rul_id i (gs_rules s) = Some r \<and> rul_groupId r = gid \<and> (rul_enabled r = 1) \<noteq> b)"
proof (cases "\<exists>r. row_by rul_id i (gs_rules s) = Some r \<and> rul_groupId r = gid \<and> (rul_enabled r = 1) \<noteq> b")
  case False
  then have "(rul_enabled r = 1) = b" if "r \<in> set (gs_rules s)" "rul_id r = i" "rul_groupId r = gid" for r
    using assms that row_by_unique [of rul_id "gs_rules s" r] by (auto simp: store_ok_def)
  then have "same_export gid s
      (s\<lparr>gs_rules := upd_by rul_id i (\<lambda>r. r\<lparr>rul_enabled := (if b then 1 else 0)\<rparr>) (gs_rules s)\<rparr>)"
    unfolding upd_by_def by (intro same_export_rules faces_upd_where enabled_face) simp_all
  then show ?thesis by (cases b) (auto simp: setRuleEnabled_def Let_def split: option.split)
qed simp

lemma bulkSetRulesEnabled_same:
  "same_export gid s (snd (bulkSetRulesEnabled now ids b s)) \<or>
   (0 < fst (bulkSetRulesEnabled now ids b s) \<and> (\<exists>r\<in>set (gs_rules s). rul_id r \<in> set ids \<and> rul_groupId r = gid))"
proof (cases "\<exists>r\<in>set (gs_rules s). rul_id r \<in> set ids \<and> rul_groupId r = gid")
  case True
  then show ?thesis by (auto simp: bulkSetRulesEnabled_def Let_def count_where_pos)
next
  case False
  then have "same_export gid s
      (s\<lparr>gs_rules := upd_where (\<lambda>r. rul_id r \<in> set ids) (\<lambda>r. r\<lparr>rul_enabled := (if b then 1 else 0)\<rparr>) (gs_rules s)\<rparr>)"
    by (intro same_export_rules faces_upd_where) auto
  then show ?thesis by (simp add: bulkSetRulesEnabled_def Let_def)
qed

lemma set_rule_face:
  "value = None \<or> value = Some (rul_value r) \<Longrightarrow> rule_face (set_rule value c r) = rule_face r"
  by (auto simp: rule_face_def set_rule_def or_else_def)

lemma updateRule_same:
  assumes ok: "store_ok s" and u: "updateRule now input amb s = Inr (res, s')"
  shows "same_export gid s s' \<or>
     (\<exists>r v. row_by rul_id (uri_id input) (gs_rules s) = Some r \<and> rul_groupId r = gid \<and>
        uri_value input = Some v \<and> normalizeRuleValue (rul_type r) v \<noteq> rul_value r \<and>
        res = getRuleById now (uri_id input) (or_else amb s'))"
proof (cases "row_by rul_id (uri_id input) (gs_rules s)")
  case None
  then show ?thesis using u by (simp add: updateRule_def)
next
  case (Some r)
  define nv where "nv = map_option (normalizeRuleValue (rul_type r)) (uri_value input)"
  define P where "P = (\<lambda>r :: rule_row. rul_id r = uri_id input)"
  have only: "x = r" if "x \<in> set (gs_rules s)" "P x" for x
    using ok that Some row_by_unique [of rul_id "gs_rules s" x] by (auto simp: store_ok_def P_def)
  consider "s' = s" | s1 where "update_rules P (set_rule nv (uri_comment input)) s = Inr s1"
      "s' = touchGroupUpdatedAt now (rul_groupId r) s1" "res = getRuleById now (uri_id input) (or_else amb s')"
    using u Some unfolding nv_def P_def
    by (auto simp: updateRule_def Let_def and_then_Inr_iff read_back_def split: if_splits)
  then show ?thesis
  proof cases
    case 2
    then have s1: "s1 = s\<lparr>gs_rules := upd_where P (set_rule nv (uri_comment input)) (gs_rules s)\<rparr>"
      by (auto simp: update_rules_def Let_def split: if_splits)
    show ?thesis
    proof (cases "rul_groupId r = gid \<and> nv \<noteq> None \<and> nv \<noteq> Some (rul_value r)")
      case True
      then show ?thesis using Some 2(3) by (auto simp: nv_def)
    next
      case False
      have "same_export gid s s1"
        unfolding s1 using False only
        by (intro same_export_rules faces_upd_where set_rule_face) (auto simp: set_rule_def)
      then show ?thesis using 2(2) by simp
    qed
  qed simp
qed

lemma updateGroup_same:
  assumes "store_ok s"
  shows "same_export gid s (updateGroup now i d e v s) \<or>
    (gid = i \<and> (\<forall>g. row_by grp_id i (gs_groups s) = Some g \<longrightarrow> (grp_enabled g = 1) \<noteq> e))"
proof -
  have "row_by grp_id gid (gs_groups (updateGroup now i d e v s)) =
    (if gid = i then map_option (\<lambda>g. g\<lparr>grp_displayName := d, grp_enabled := (if e then 1 else 0),
        grp_visibility := (case v of Some x \<Rightarrow> if x = [] then grp_visibility g else x | None \<Rightarrow> grp_visibility g),
        grp_updatedAt := Some now\<rparr>) (row_by grp_id gid (gs_groups s)) else row_by grp_id gid (gs_groups s))"
    unfolding updateGroup_def by (simp add: row_by_upd)
  moreover have "gs_rules (updateGroup now i d e v s) = gs_rules s" by (simp add: updateGroup_def)
  ultimately show ?thesis
    by (cases "row_by grp_id i (gs_groups s)") (auto simp: same_export_def rules_of_group_def)
qed

lemma deleteGroup_same: "gid \<noteq> i \<Longrightarrow> same_export gid s (snd (deleteGroup i s))"
  by (simp add: same_export_def deleteGroup_def row_by_del rules_of_group_def sel_where_def faces_del_where)

lemma createGroup_same:
  assumes "createGroup newId now n d opts s = Inr (i, s')" "row_by grp_id gid (gs_groups s) \<noteq> None"
  shows "same_export gid s s' \<and> gid \<noteq> i"
  using assms
  by (auto simp: createGroup_def Let_def same_export_def row_by_ins rules_of_group_def split: if_splits option.splits)

lemma copyRules_same:
  assumes "store_ok s" "copyRulesToGroup f now g g' s = Inr (k, s')" "gid \<noteq> g'"
  shows "same_export gid s s'"
proof -
  have "filter (\<lambda>r. rul_groupId r = gid) (map (copy_row now g') xs) = []" for xs
    using assms(3) by (auto simp: filter_empty_conv copy_row_def)
  then show ?thesis
    using copyRulesToGroup_Inr [OF assms(1,2)] by (auto intro!: same_export_rules)
qed

section \<open>Stored values are normal\<close>

definition normal_values :: "rule_row table \<Rightarrow> bool" where
  "normal_values t \<longleftrightarrow> (\<forall>r\<in>set t. normalizeRuleValue (rul_type r) (rul_value r) = rul_value r)"

lemma normalizeRuleValue_idem [simp]: "normalizeRuleValue ty (normalizeRuleValue ty v) = normalizeRuleValue ty v"
  by (simp add: normalizeRuleValue_def normalize_domain_def js_trim_lower)

lemma normal_values_del: "normal_values t \<Longrightarrow> normal_values (del_where P t)"
  by (auto simp: normal_values_def del_where_def)

lemma normal_values_upd:
  assumes "normal_values t"
    and "\<And>r. r \<in> set t \<Longrightarrow> P r \<Longrightarrow> normalizeRuleValue (rul_type (f r)) (rul_value (f r)) = rul_value (f r)"
  shows "normal_values (upd_where P f t)"
  using assms by (auto simp: normal_values_def upd_where_def)

lemma normal_createRule:
  "createRule i now g ty v c s = Inr (res, s') \<Longrightarrow> normal_values (gs_rules s) \<Longrightarrow> normal_values (gs_rules s')"
  by (auto simp: createRule_def Let_def and_then_Inr_iff normal_values_def split: if_splits dest!: insert_rules_shape)

lemma normal_bulkCreateRules:
  "bulkCreateRules now g ty vs s = Inr (n, s') \<Longrightarrow> normal_values (gs_rules s) \<Longrightarrow> normal_values (gs_rules s')"
proof (induction vs arbitrary: n s)
  case (Cons p rest)
  then show ?case
    by (cases p; cases "normalize_domain (snd p) = []") (auto simp: and_then_Inr_iff Let_def dest: normal_createRule)
qed simp

lemma normal_updateRule:
  assumes u: "updateRule now input amb s = Inr (res, s')" and ok: "store_ok s" and n: "normal_values (gs_rules s)"
  shows "normal_values (gs_rules s')"
proof (cases "row_by rul_id (uri_id input) (gs_rules s)")
  case None
  then show ?thesis using u n by (simp add: updateRule_def)
next
  case (Some r)
  define nv where "nv = map_option (normalizeRuleValue (rul_type r)) (uri_value input)"
  define P where "P = (\<lambda>r :: rule_row. rul_id r = uri_id input)"
  have only: "x = r" if "x \<in> set (gs_rules s)" "P x" for x
    using ok that Some row_by_unique [of rul_id "gs_rules s" x] by (auto simp: store_ok_def P_def)
  consider "s' = s" | s1 where "update_rules P (set_rule nv (uri_comment input)) s = Inr s1" "gs_rules s' = gs_rules s1"
    using u Some unfolding nv_def P_def
    by (auto simp: updateRule_def Let_def and_then_Inr_iff split: if_splits)
  then show ?thesis
  proof cases
    case 2
    then have "gs_rules s' = upd_where P (set_rule nv (uri_comment input)) (gs_rules s)"
      by (auto simp: update_rules_def Let_def split: if_splits)
    moreover have "normalizeRuleValue (rul_type r) (or_else nv (rul_value r)) = or_else nv (rul_value r)"
      using n row_by_SomeD [OF Some] by (auto simp: nv_def or_else_def normal_values_def split: option.split)
    ultimately show ?thesis
      using n only by (auto intro!: normal_values_upd simp: set_rule_def)
  qed (use n in simp)
qed

definition good_store :: "group_store \<Rightarrow> bool" where
  "good_store s \<longleftrightarrow> store_ok s \<and> normal_values (gs_rules s)"

lemma good_deleteRule: "good_store s \<Longrightarrow> good_store (snd (deleteRule now i s))"
  by (auto simp: good_store_def store_ok_deleteRule)
    (auto simp: deleteRule_def Let_def del_by_def normal_values_del split: option.split)

lemma good_bulkDelete: "good_store s \<Longrightarrow> good_store (snd (bulkDeleteRules now ids s))"
  by (auto simp: good_store_def store_ok_bulkDelete)
    (auto simp: bulkDeleteRules_def Let_def normal_values_del)

lemma normal_enabled: "normal_values t \<Longrightarrow> normal_values (upd_where P (\<lambda>r. r\<lparr>rul_enabled := e\<rparr>) t)"
  by (auto simp: normal_values_def upd_where_def)

lemma good_setRuleEnabled: "good_store s \<Longrightarrow> good_store (snd (setRuleEnabled now i b amb s))"
  by (simp add: good_store_def store_ok_setRuleEnabled)
    (simp add: setRuleEnabled_def Let_def upd_by_def normal_enabled split: option.split)

lemma good_bulkSet: "good_store s \<Longrightarrow> good_store (snd (bulkSetRulesEnabled now ids b s))"
  by (simp add: good_store_def store_ok_bulkSet) (simp add: bulkSetRulesEnabled_def Let_def normal_enabled)

lemma good_updateGroup: "good_store s \<Longrightarrow> good_store (updateGroup now i d e v s)"
  unfolding updateGroup_def good_store_def by (auto intro: store_ok_groups_upd)

lemma good_toggle: "good_store s \<Longrightarrow> good_store (snd (toggleSystemStatus now b s))"
  by (auto simp: good_store_def store_ok_toggle) (simp add: toggleSystemStatus_def Let_def)

lemma good_deleteGroup: "good_store s \<Longrightarrow> good_store (snd (deleteGroup i s))"
  by (auto simp: good_store_def store_ok_deleteGroup) (simp add: deleteGroup_def normal_values_del)

lemma good_createGroup: "good_store s \<Longrightarrow> createGroup newId now n d opts s = Inr (i, s') \<Longrightarrow> good_store s'"
  by (auto simp: good_store_def dest: store_ok_createGroup) (auto simp: createGroup_def Let_def split: if_splits)

lemma normal_copy_rows: "normal_values t \<Longrightarrow> set (map snd ps) \<subseteq> set t \<Longrightarrow> normal_values (map (copy_row now g) ps)"
  by (auto simp: normal_values_def copy_row_def)

lemma good_copyRules:
  assumes "good_store s" "copyRulesToGroup f now g g' s = Inr (k, s')"
  shows "good_store s'"
proof -
  define src where "src = sel_where (\<lambda>r. rul_groupId r = g) (gs_rules s)"
  have "normal_values (map (copy_row now g') (zip (map f [0..<length src]) src))"
    using assms(1) by (intro normal_copy_rows [of "gs_rules s"]) (auto simp: good_store_def src_def sel_where_def)
  then show ?thesis
    using copyRulesToGroup_Inr [of s f now g g' k s'] assms
    by (auto simp: good_store_def normal_values_def src_def)
qed

lemma good_touch: "good_store s \<Longrightarrow> good_store (touchGroupUpdatedAt now i s)"
  by (simp add: good_store_def store_ok_touch)

section \<open>Services\<close>

definition announced :: "string \<Rightarrow> domain_event list \<Rightarrow> bool" where
  "announced gid evs \<longleftrightarrow> WhitelistChanged gid \<in> set evs \<or> AllWhitelistsChanged \<in> set evs"

text \<open>A service keeps the store well-formed, and announces every group whose export may differ.\<close>

definition tells :: "group_store \<Rightarrow> string \<Rightarrow> 'r \<times> group_store \<times> domain_event list \<Rightarrow> bool" where
  "tells s gid res \<longleftrightarrow>
     good_store (fst (snd res)) \<and> (same_export gid s (fst (snd res)) \<or> announced gid (snd (snd res)))"

lemma tells_unchanged: "good_store s \<Longrightarrow> tells s gid (r, s, evs)"
  by (simp add: tells_def)

lemma announced_one [simp]: "announced gid (normalizeEvents (queueEvent (WhitelistChanged gid) empty_queue))"
  by (simp only: publish_one) (simp add: announced_def)

lemma announced_groups:
  assumes "gid \<in> set gids"
  shows "announced gid (normalizeEvents (publish_groups gids empty_queue))"
proof -
  have "publish_groups gids empty_queue = fold queueEvent (map WhitelistChanged gids) empty_queue"
    by (simp add: publish_groups_def fold_map comp_def)
  then have "normalizeEvents (publish_groups gids empty_queue) = coalesce (map WhitelistChanged gids)"
    by (simp add: collected_coalesce)
  then show ?thesis
    using coalesce_covers [of "WhitelistChanged gid" "map WhitelistChanged gids"] assms
    by (auto simp: announced_def)
qed

lemma tells_finish: "tells s gid res \<Longrightarrow> tells s gid (finish f res)"
  by (cases res) (simp add: finish_def tells_def)

lemma tells_relabel:
  "tells s gid res \<Longrightarrow>
   tells s gid (case res of (Inl e, s1, evs) \<Rightarrow> (f e, s1, evs) | (Inr i, s1, evs) \<Rightarrow> (g i, s1, evs))"
  by (cases res; cases "fst res") (simp_all add: tells_def)

lemma tells_write:
  assumes "good_store s"
    and "\<And>r s' q. operation s empty_queue = Inr (r, s', q) \<Longrightarrow> tells s gid (r, s', normalizeEvents q)"
  shows "tells s gid (writeTransactionalCommand operation s)"
  using assms by (force simp: writeTransactionalCommand_def tells_def split: sum.split)

lemma good_createRule: "good_store s \<Longrightarrow> createRule i now g ty v c s = Inr (res, s') \<Longrightarrow> good_store s'"
  using store_ok_createRule normal_createRule by (auto simp: good_store_def)

lemma good_bulkCreate: "good_store s \<Longrightarrow> bulkCreateRules now g ty vs s = Inr (n, s') \<Longrightarrow> good_store s'"
  using store_ok_bulkCreate normal_bulkCreateRules by (auto simp: good_store_def)

lemma good_updateRule: "good_store s \<Longrightarrow> updateRule now input amb s = Inr (n, s') \<Longrightarrow> good_store s'"
  using store_ok_updateRule normal_updateRule by (auto simp: good_store_def)

lemma tells_createManual:
  assumes "good_store s" "newId \<noteq> []"
  shows "tells s gid (createManualWhitelistRule newId now g ty v c s)"
  unfolding createManualWhitelistRule_def
proof (rule tells_write [OF assms(1)])
  fix r s' q
  assume "and_then (createRule newId now g ty v c s) (\<lambda>(created, tx1). Inr (created, tx1,
      case created of Rule_created i \<Rightarrow> if i \<noteq> [] then queueEvent (WhitelistChanged g) empty_queue else empty_queue
      | Rule_rejected _ \<Rightarrow> empty_queue)) = Inr (r, s', q)"
  then have c: "createRule newId now g ty v c s = Inr (r, s')"
    and q: "r = Rule_created newId \<Longrightarrow> q = queueEvent (WhitelistChanged g) empty_queue"
    using assms(2) by (auto simp: and_then_Inr_iff)
  show "tells s gid (r, s', normalizeEvents q)"
    using createRule_same [OF c, of gid] q good_createRule [OF assms(1) c]
    by (auto simp: tells_def simp del: queueEvent.simps)
qed

lemma tells_createRule:
  assumes "good_store s" "newId \<noteq> []"
  shows "tells s gid (svc_createRule newId now input s)"
  using assms
  by (simp add: svc_createRule_def Let_def tells_unchanged tells_finish tells_createManual split: sum.split)

lemma tells_deleteRule:
  assumes good: "good_store s" and gid: "gid \<noteq> []"
    and g: "g = None \<or> g = Some [] \<or> g = map_option ar_groupId (getRuleById now i s)"
  shows "tells s gid (svc_deleteRule now i g s)"
proof -
  define h where "h = map_option ar_groupId (getRuleById now i s)"
  have "svc_deleteRule now i g s = finish Ok (deleteWhitelistRule now h i s)"
    using g by (auto simp: svc_deleteRule_def h_def split: option.splits)
  moreover have "tells s gid (deleteWhitelistRule now h i s)"
    unfolding deleteWhitelistRule_def
  proof (rule tells_write [OF good])
    fix r s' q
    assume "(case deleteRule now i s of (wasDeleted, tx1) \<Rightarrow> Inr (wasDeleted, tx1,
       case h of Some g \<Rightarrow> if wasDeleted \<and> g \<noteq> [] then queueEvent (WhitelistChanged g) empty_queue else empty_queue
       | None \<Rightarrow> empty_queue)) = (Inr (r, s', q) :: db_error + bool \<times> group_store \<times> event_queue)"
    then have d: "deleteRule now i s = (r, s')"
      and q: "\<And>x. h = Some x \<Longrightarrow> r \<Longrightarrow> x \<noteq> [] \<Longrightarrow> q = queueEvent (WhitelistChanged x) empty_queue"
      by (auto split: prod.splits)
    show "tells s gid (r, s', normalizeEvents q)"
      using deleteRule_same [of s gid now i] good_deleteRule [OF good, of now i] good d q [of gid] gid
      by (auto simp: tells_def h_def good_store_def getRuleById_def dbRuleToApi_def simp del: queueEvent.simps)
  qed
  ultimately show ?thesis by (simp add: tells_finish)
qed

lemma preloaded_groups:
  assumes "good_store s" "r \<in> set (gs_rules s)" "rul_id r \<in> set ids"
  shows "rul_groupId r \<in> ar_groupId ` set (getRulesByIds now ids s)"
proof -
  define rows where "rows = sel_where (\<lambda>r. rul_id r \<in> set ids) (gs_rules s)"
  have r: "r \<in> set rows" using assms by (simp add: rows_def sel_where_def)
  have "distinct (map rul_id rows)"
    using assms(1) by (simp add: good_store_def store_ok_def distinct_key_def rows_def sel_where_def distinct_map_filter)
  then have "distinct_key rul_id (rev rows)" by (simp add: distinct_key_def flip: rev_map)
  then have "List.find (\<lambda>x. rul_id x = rul_id r) (rev rows) = Some r"
    using row_by_unique [of rul_id "rev rows" r] r by (simp add: row_by_def sel_first_def)
  then have "dbRuleToApi now r \<in> set (getRulesByIds now ids s)"
    using assms(3) r
    by (auto simp: getRulesByIds_def Let_def List.map_filter_def image_iff simp flip: rows_def intro!: bexI [of _ "rul_id r"])
  then show ?thesis by (force simp: dbRuleToApi_def)
qed

lemma tells_bulk:
  assumes "good_store s" "good_store s'"
    and "same_export gid s s' \<or> (0 < (n :: nat) \<and> (\<exists>r\<in>set (gs_rules s). rul_id r \<in> set ids \<and> rul_groupId r = gid))"
    and "q = (if n > 0 then publish_groups (js_unique (map ar_groupId (getRulesByIds now ids s))) empty_queue else empty_queue)"
  shows "tells s gid (r, s', normalizeEvents q)"
  using assms preloaded_groups [OF assms(1), of _ ids now]
  by (auto simp: tells_def intro!: announced_groups)

lemma tells_bulkDelete:
  assumes good: "good_store s" and p: "pre = None \<or> pre = Some (getRulesByIds now ids s)"
  shows "tells s gid (svc_bulkDeleteRules now ids pre s)"
proof -
  have "tells s gid (bulkDeleteWhitelistRules now ids (getRulesByIds now ids s) s)"
    unfolding bulkDeleteWhitelistRules_def
  proof (rule tells_write [OF good])
    fix r s' q
    assume "(case bulkDeleteRules now ids s of (deletedCount, tx1) \<Rightarrow> Inr (deletedCount, tx1,
        if deletedCount > 0 then publish_groups (js_unique (map ar_groupId (getRulesByIds now ids s))) empty_queue
        else empty_queue)) = (Inr (r, s', q) :: db_error + nat \<times> group_store \<times> event_queue)"
    then have d: "bulkDeleteRules now ids s = (r, s')"
      and q: "q = (if r > 0 then publish_groups (js_unique (map ar_groupId (getRulesByIds now ids s))) empty_queue
                   else empty_queue)"
      by (auto split: prod.splits)
    show "tells s gid (r, s', normalizeEvents q)"
      by (rule tells_bulk [OF good _ _ q]) (use bulkDeleteRules_same [of gid s now ids] good_bulkDelete [OF good, of now ids] d in auto)
  qed
  moreover have "or_else pre (getRulesByIds now ids s) = getRulesByIds now ids s"
    using p by (auto simp: or_else_def)
  ultimately show ?thesis using good
    by (simp add: svc_bulkDeleteRules_def Let_def tells_unchanged tells_finish)
qed

lemma tells_bulkSet:
  assumes good: "good_store s" and p: "pre = None \<or> pre = Some (getRulesByIds now ids s)"
  shows "tells s gid (svc_bulkSetRulesEnabled now ids b pre s)"
proof -
  have "tells s gid (writeTransactionalCommand (\<lambda>tx q. case bulkSetRulesEnabled now ids b tx of (n, tx1) \<Rightarrow>
      (Inr (n, tx1, if n > 0 then publish_groups (js_unique (map ar_groupId (getRulesByIds now ids s))) q else q)
       :: db_error + nat \<times> group_store \<times> event_queue)) s)"
  proof (rule tells_write [OF good])
    fix r s' q
    assume "(case bulkSetRulesEnabled now ids b s of (n, tx1) \<Rightarrow> Inr (n, tx1,
        if n > 0 then publish_groups (js_unique (map ar_groupId (getRulesByIds now ids s))) empty_queue
        else empty_queue)) = (Inr (r, s', q) :: db_error + nat \<times> group_store \<times> event_queue)"
    then have d: "bulkSetRulesEnabled now ids b s = (r, s')"
      and q: "q = (if r > 0 then publish_groups (js_unique (map ar_groupId (getRulesByIds now ids s))) empty_queue
                   else empty_queue)"
      by (auto split: prod.splits)
    show "tells s gid (r, s', normalizeEvents q)"
      by (rule tells_bulk [OF good _ _ q]) (use bulkSetRulesEnabled_same [of gid s now ids b] good_bulkSet [OF good, of now ids b] d in auto)
  qed
  moreover have "or_else pre (getRulesByIds now ids s) = getRulesByIds now ids s"
    using p by (auto simp: or_else_def)
  ultimately show ?thesis using good
    by (simp add: svc_bulkSetRulesEnabled_def Let_def tells_unchanged tells_finish)
qed

lemma tells_updateRule:
  assumes good: "good_store s"
  shows "tells s gid (svc_updateRule now input s)"
proof -
  have tx: "tells s gid (update_rule_tx now input v (v \<noteq> None \<and> v \<noteq> Some (rul_value r)) s)"
    if r: "row_by rul_id (urr_id input) (gs_rules s) = Some r" "rul_groupId r = urr_groupId input" for v r
    unfolding update_rule_tx_def
  proof (rule tells_write [OF good])
    fix x s' q
    assume "and_then (updateRule now \<lparr>uri_id = urr_id input, uri_value = v, uri_comment = urr_comment input\<rparr> (Some s) s)
      (\<lambda>(result, tx1). Inr (result, tx1, if result \<noteq> None \<and> (v \<noteq> None \<and> v \<noteq> Some (rul_value r))
         then queueEvent (WhitelistChanged (urr_groupId input)) empty_queue else empty_queue)) = Inr (x, s', q)"
    then have u: "updateRule now \<lparr>uri_id = urr_id input, uri_value = v, uri_comment = urr_comment input\<rparr> (Some s) s = Inr (x, s')"
      and q: "x \<noteq> None \<Longrightarrow> v \<noteq> None \<Longrightarrow> v \<noteq> Some (rul_value r) \<Longrightarrow> q = queueEvent (WhitelistChanged (urr_groupId input)) empty_queue"
      by (auto simp: and_then_Inr_iff)
    have nv: "normalizeRuleValue (rul_type r) (rul_value r) = rul_value r"
      using good row_by_SomeD [OF r(1)] by (auto simp: good_store_def normal_values_def)
    consider "same_export gid s s'" | w where "urr_groupId input = gid" "v = Some w" "w \<noteq> rul_value r" "x \<noteq> None"
      using updateRule_same [OF _ u, of gid] good r nv by (auto simp: good_store_def getRuleById_def or_else_def)
    then show "tells s gid (x, s', normalizeEvents q)"
      using good_updateRule [OF good u] q by cases (auto simp: tells_def simp del: queueEvent.simps)
  qed
  show ?thesis
  proof (cases "row_by rul_id (urr_id input) (gs_rules s)")
    case None
    then show ?thesis using good
      by (simp add: svc_updateRule_def getRuleById_def tells_unchanged split: sum.split)
  next
    case (Some r)
    show ?thesis
    proof (cases "rul_groupId r = urr_groupId input")
      case True
      have ar: "ar_value (dbRuleToApi now r) = rul_value r" "ar_groupId (dbRuleToApi now r) = rul_groupId r"
        by (simp_all add: dbRuleToApi_def)
      have "tells s gid (update_rule_tx now input None False s)"
        "\<And>w. tells s gid (update_rule_tx now input (Some w) (w \<noteq> rul_value r) s)"
        using tx [OF Some True, of None] tx [OF Some True, of "Some _"] by simp_all
      then show ?thesis
        using good
        by (auto simp: svc_updateRule_def getRuleById_def Some Let_def tells_unchanged True ar tells_finish
            split: sum.split option.split)
    next
      case False
      then show ?thesis using good Some
        by (simp add: svc_updateRule_def getRuleById_def dbRuleToApi_def tells_unchanged split: sum.split)
    qed
  qed
qed

lemma tells_setRuleEnabled:
  assumes good: "good_store s"
  shows "tells s gid (svc_setRuleEnabled now i g b s)"
proof (cases "row_by rul_id i (gs_rules s)")
  case None
  then show ?thesis using good by (simp add: svc_setRuleEnabled_def getRuleById_def tells_unchanged)
next
  case (Some r)
  define q where "q = (if (rul_enabled r = 1) \<noteq> b then queueEvent (WhitelistChanged g) empty_queue else empty_queue)"
  obtain x s' where x: "setRuleEnabled now i b (Some s) s = (x, s')" by fastforce
  then have xn: "x \<noteq> None" using Some by (auto simp: setRuleEnabled_def Let_def read_back_def or_else_def getRuleById_def)
  have step: "same_export gid s s' \<or> (rul_groupId r = gid \<and> (rul_enabled r = 1) \<noteq> b)" "good_store s'"
    using setRuleEnabled_same [of s gid now i b "Some s"] good_setRuleEnabled [OF good, of now i b "Some s"] good Some x
    by (auto simp: good_store_def)
  show ?thesis
  proof (cases "rul_groupId r = g")
    case True
    have "svc_setRuleEnabled now i g b s =
        (case getRuleById now i s' of None \<Rightarrow> Fail (Not_found ''Rule not found after update'') | Some r \<Rightarrow> Ok r,
         s', normalizeEvents q)"
      using Some True x xn
      by (simp add: svc_setRuleEnabled_def getRuleById_def dbRuleToApi_def writeTransactionalCommand_def q_def
          del: queueEvent.simps)
    then show ?thesis using step True by (auto simp: tells_def q_def simp del: queueEvent.simps)
  next
    case False
    then show ?thesis using good Some
      by (simp add: svc_setRuleEnabled_def getRuleById_def dbRuleToApi_def tells_unchanged)
  qed
qed

lemma tells_bulkCreate:
  assumes good: "good_store s"
  shows "tells s gid (svc_bulkCreateRules now g ty vs s)"
proof -
  have "tells s gid (writeTransactionalCommand (\<lambda>tx q. and_then (bulkCreateRules now g ty ws tx) (\<lambda>(n, tx1).
     Inr (n, tx1, if n > 0 then queueEvent (WhitelistChanged g) q else q))) s)" for ws
  proof (rule tells_write [OF good])
    fix n s' q
    assume "and_then (bulkCreateRules now g ty ws s) (\<lambda>(n, tx1).
      Inr (n, tx1, if n > 0 then queueEvent (WhitelistChanged g) empty_queue else empty_queue)) = Inr (n, s', q)"
    then have c: "bulkCreateRules now g ty ws s = Inr (n, s')"
      and q: "0 < n \<Longrightarrow> q = queueEvent (WhitelistChanged g) empty_queue"
      by (auto simp: and_then_Inr_iff)
    show "tells s gid (n, s', normalizeEvents q)"
      using bulkCreateRules_same [OF c, of gid] good_bulkCreate [OF good c] q
      by (auto simp: tells_def simp del: queueEvent.simps)
  qed
  then show ?thesis using good
    by (simp add: svc_bulkCreateRules_def Let_def tells_unchanged tells_finish split: sum.split)
qed

lemma tells_createGroup:
  assumes "good_store s" "row_by grp_id gid (gs_groups s) \<noteq> None"
  shows "tells s gid (svc_createGroup newId now input s)"
proof -
  have "tells s gid (r, s', [])" if "createGroup newId now n d opts s = Inr (i, s')" for r n d opts i s'
    using createGroup_same [OF that assms(2)] good_createGroup [OF assms(1) that] by (simp add: tells_def)
  then show ?thesis using assms(1)
    by (auto simp: svc_createGroup_def Let_def tells_unchanged split: sum.split)
qed

lemma tells_updateGroup:
  assumes "good_store s"
  shows "tells s gid (svc_updateGroup now input s)"
proof (cases "row_by grp_id (ugi_id input) (gs_groups s)")
  case None
  then show ?thesis using assms by (simp add: svc_updateGroup_def getGroupById_def tells_unchanged)
next
  case (Some g)
  let ?s = "updateGroup now (ugi_id input) (ugi_displayName input) (ugi_enabled input) (ugi_visibility input) s"
  have "row_by grp_id (ugi_id input) (gs_groups ?s) \<noteq> None"
    using Some by (auto simp: updateGroup_def row_by_upd)
  then have "snd (svc_updateGroup now input s) = (?s, normalizeEvents
      (if (grp_enabled g = 1) \<noteq> ugi_enabled input then queueEvent (WhitelistChanged (ugi_id input)) empty_queue else empty_queue))"
    using Some by (auto simp: svc_updateGroup_def getGroupById_def dbGroupToApi_def Let_def simp del: queueEvent.simps)
  moreover have "good_store ?s" by (rule good_updateGroup [OF assms])
  moreover have "same_export gid s ?s \<or> (gid = ugi_id input \<and> (grp_enabled g = 1) \<noteq> ugi_enabled input)"
    using updateGroup_same [of s gid now "ugi_id input" "ugi_displayName input" "ugi_enabled input" "ugi_visibility input"]
      assms Some by (auto simp: good_store_def)
  ultimately show ?thesis by (auto simp: tells_def simp del: queueEvent.simps)
qed

lemma tells_toggle: "good_store s \<Longrightarrow> tells s gid (svc_toggleSystemStatus now b s)"
proof -
  assume "good_store s"
  moreover have "announced gid (normalizeEvents (queueEvent AllWhitelistsChanged empty_queue))"
    by (simp add: announced_def normalizeEvents_def empty_queue_def event_at_def)
  ultimately show ?thesis
    using good_toggle [of s now b] by (auto simp: svc_toggleSystemStatus_def tells_def split: prod.splits simp del: queueEvent.simps)
qed

lemma tells_clone:
  assumes good: "good_store s" and g: "row_by grp_id gid (gs_groups s) \<noteq> None"
  shows "tells s gid (svc_cloneGroup newId newIds fresh now input s)"
proof -
  have "tells s gid (writeTransactionalCommand (\<lambda>tx q.
      and_then (createGroup newId now n d opts tx) (\<lambda>(createdId, tx1).
      and_then (copyRulesToGroup newIds now src createdId tx1) (\<lambda>(_, tx2).
        Inr (createdId, touchGroupUpdatedAt now createdId tx2, queueEvent (WhitelistChanged createdId) q)))) s)" for n d opts src
  proof (rule tells_write [OF good])
    fix i s' q
    assume "and_then (createGroup newId now n d opts s) (\<lambda>(createdId, tx1).
      and_then (copyRulesToGroup newIds now src createdId tx1) (\<lambda>(_, tx2).
        Inr (createdId, touchGroupUpdatedAt now createdId tx2, queueEvent (WhitelistChanged createdId) empty_queue))) = Inr (i, s', q)"
    then obtain s1 k s2 where c: "createGroup newId now n d opts s = Inr (i, s1)"
      "copyRulesToGroup newIds now src i s1 = Inr (k, s2)" "s' = touchGroupUpdatedAt now i s2"
      by (auto simp: and_then_Inr_iff)
    have s1: "same_export gid s s1" "gid \<noteq> i" "good_store s1"
      using createGroup_same [OF c(1) g] good_createGroup [OF good c(1)] by auto
    then have "same_export gid s1 s2" "good_store s2"
      using copyRules_same [OF _ c(2)] good_copyRules [OF _ c(2)] by (auto simp: good_store_def)
    then show "tells s gid (i, s', normalizeEvents q)"
      using s1 same_export_trans good_touch c(3) by (auto simp: tells_def)
  qed
  then show ?thesis
    using good unfolding svc_cloneGroup_def Let_def by (simp add: tells_unchanged tells_relabel split: option.split)
qed

lemma tells_deleteGroup:
  assumes "good_store (org_groups org)"
  shows "case svc_deleteGroup now i org of (r, org', evs) \<Rightarrow> tells (org_groups org) gid (r, org_groups org', evs)"
  using good_deleteGroup [OF assms, of i] deleteGroup_same [of gid i "org_groups org"] assms
  by (cases "gid = i") (auto simp: svc_deleteGroup_def deleteGroup_def tells_def count_where_pos getGroupById_def
      split: option.split dest: row_by_SomeD simp del: queueEvent.simps)

section \<open>The property\<close>

text \<open>
  One request to the services.  A deletion may name any group, as the router passes an administrator's on without
  checking it; the rules a bulk command is given are those it would load itself.  New identifiers are not empty.
\<close>

inductive group_step :: "group_store \<Rightarrow> group_store \<Rightarrow> domain_event list \<Rightarrow> bool" where
  create: "newId \<noteq> [] \<Longrightarrow> svc_createRule newId now input s = (r1, s', evs) \<Longrightarrow> group_step s s' evs"
| delete: "svc_deleteRule now i g s = (r2, s', evs) \<Longrightarrow> group_step s s' evs"
| bulk_delete: "pre = None \<or> pre = Some (getRulesByIds now ids s) \<Longrightarrow>
    svc_bulkDeleteRules now ids pre s = (r3, s', evs) \<Longrightarrow> group_step s s' evs"
| update: "svc_updateRule now upd s = (r4, s', evs) \<Longrightarrow> group_step s s' evs"
| set_enabled: "svc_setRuleEnabled now i g' b s = (r5, s', evs) \<Longrightarrow> group_step s s' evs"
| bulk_set: "pre = None \<or> pre = Some (getRulesByIds now ids s) \<Longrightarrow>
    svc_bulkSetRulesEnabled now ids b pre s = (r6, s', evs) \<Longrightarrow> group_step s s' evs"
| bulk_create: "svc_bulkCreateRules now g' ty vs s = (r7, s', evs) \<Longrightarrow> group_step s s' evs"
| create_group: "svc_createGroup newId now cg s = (r8, s', evs) \<Longrightarrow> group_step s s' evs"
| update_group: "svc_updateGroup now ug s = (r9, s', evs) \<Longrightarrow> group_step s s' evs"
| clone_group: "svc_cloneGroup newId newIds fresh now cl s = (r10, s', evs) \<Longrightarrow> group_step s s' evs"
| delete_group: "svc_deleteGroup now i \<lparr>org_groups = s, org_accounts = acc\<rparr> = (r11, org', evs) \<Longrightarrow>
    group_step s (org_groups org') evs"
| toggle: "svc_toggleSystemStatus now b s = (r12, s', evs) \<Longrightarrow> group_step s s' evs"

lemma tells_iff: "tells s gid (r, s', evs) \<longleftrightarrow> good_store s' \<and> (same_export gid s s' \<or> announced gid evs)"
  by (simp add: tells_def)

text \<open>A rule of the group was deleted by a request that named another group.\<close>

definition misnamed_deletion :: "string \<Rightarrow> group_store \<Rightarrow> group_store \<Rightarrow> domain_event list \<Rightarrow> bool" where
  "misnamed_deletion gid s s' evs \<longleftrightarrow>
     (\<exists>now i g r rule. svc_deleteRule now i (Some g) s = (r, s', evs) \<and> g \<noteq> [] \<and> g \<noteq> gid \<and>
        row_by rul_id i (gs_rules s) = Some rule \<and> rul_groupId rule = gid)"

lemma deleted_store: "fst (snd (svc_deleteRule now i g s)) = snd (deleteRule now i s)"
  by (simp add: svc_deleteRule_def deleteWhitelistRule_def writeTransactionalCommand_def finish_def Let_def split: prod.split)

lemma deletion_tells:
  assumes good: "good_store s" and gid: "gid \<noteq> []" and d: "svc_deleteRule now i g s = (r, s', evs)"
  shows "good_store s' \<and> (same_export gid s s' \<or> announced gid evs \<or> misnamed_deletion gid s s' evs)"
proof (cases "g = None \<or> g = Some [] \<or> g = map_option ar_groupId (getRuleById now i s)")
  case True
  then show ?thesis using tells_deleteRule [OF good gid True] d by (auto simp: tells_iff)
next
  case False
  then obtain x where x: "g = Some x" "x \<noteq> []" by (cases g) auto
  have s': "s' = snd (deleteRule now i s)" using deleted_store [of now i g s] d by simp
  have "good_store s'" using tells_deleteRule [OF good gid, of None now i] deleted_store [of now i None s]
    by (simp add: s' tells_def split: prod.splits)
  moreover have "misnamed_deletion gid s s' evs" if rule: "row_by rul_id i (gs_rules s) = Some rule" "rul_groupId rule = gid" for rule
  proof -
    have "x \<noteq> gid" using False x rule by (simp add: getRuleById_def dbRuleToApi_def)
    with d x rule show ?thesis unfolding misnamed_deletion_def by blast
  qed
  moreover have "same_export gid s s'" if "\<And>rule. row_by rul_id i (gs_rules s) = Some rule \<Longrightarrow> rul_groupId rule \<noteq> gid"
    using deleteRule_same [of s gid now i] good that by (auto simp: s' good_store_def)
  ultimately show ?thesis by blast
qed

lemma group_step_tells:
  assumes "group_step s s' evs" "good_store s" "gid \<noteq> []" "row_by grp_id gid (gs_groups s) \<noteq> None"
  shows "good_store s' \<and> (same_export gid s s' \<or> announced gid evs \<or> misnamed_deletion gid s s' evs)"
  using assms
proof (induction rule: group_step.induct)
  case (create newId now input s r1 s' evs)
  then show ?case using tells_createRule [of s newId gid now input] by (auto simp: tells_iff)
next
  case (delete now i g s r2 s' evs)
  then show ?case using deletion_tells [of s gid now i g] by simp
next
  case (bulk_delete pre now ids s r3 s' evs)
  then show ?case using tells_bulkDelete [of s pre now ids gid] by (auto simp: tells_iff)
next
  case (update now upd s r4 s' evs)
  then show ?case using tells_updateRule [of s gid now upd] by (auto simp: tells_iff)
next
  case (set_enabled now i g' b s r5 s' evs)
  then show ?case using tells_setRuleEnabled [of s gid now i g' b] by (auto simp: tells_iff)
next
  case (bulk_set pre now ids s b r6 s' evs)
  then show ?case using tells_bulkSet [of s pre now ids gid b] by (auto simp: tells_iff)
next
  case (bulk_create now g' ty vs s r7 s' evs)
  then show ?case using tells_bulkCreate [of s gid now g' ty vs] by (auto simp: tells_iff)
next
  case (create_group newId now cg s r8 s' evs)
  then show ?case using tells_createGroup [of s gid newId now cg] by (auto simp: tells_iff)
next
  case (update_group now ug s r9 s' evs)
  then show ?case using tells_updateGroup [of s gid now ug] by (auto simp: tells_iff)
next
  case (clone_group newId newIds fresh now cl s r10 s' evs)
  then show ?case using tells_clone [of s gid newId newIds fresh now cl] by (auto simp: tells_iff)
next
  case (delete_group now i s acc r11 org' evs)
  then show ?case using tells_deleteGroup [of "\<lparr>org_groups = s, org_accounts = acc\<rparr>" gid now i] by (auto simp: tells_iff)
next
  case (toggle now b s r12 s' evs)
  then show ?case using tells_toggle [of s gid now b] by (auto simp: tells_iff)
qed

lemma good_write:
  assumes "good_store s" "\<And>r s' q. operation s empty_queue = Inr (r, s', q) \<Longrightarrow> good_store s'"
  shows "good_store (fst (snd (writeTransactionalCommand operation s)))"
  using assms by (force simp: writeTransactionalCommand_def split: sum.split)

lemma good_relabel:
  "good_store (fst (snd res)) \<Longrightarrow>
   good_store (fst (snd (case res of (Inl e, s1, evs) \<Rightarrow> (f e, s1, evs) | (Inr i, s1, evs) \<Rightarrow> (g i, s1, evs))))"
  by (cases res; cases "fst res") simp_all

lemma good_svc_createGroup: "good_store s \<Longrightarrow> good_store (fst (snd (svc_createGroup newId now input s)))"
proof -
  assume "good_store s"
  then have "good_store s'" if "createGroup newId now n d opts s = Inr (i, s')" for n d opts i s'
    using good_createGroup that by blast
  then show ?thesis using \<open>good_store s\<close> by (simp add: svc_createGroup_def Let_def split: sum.split)
qed

lemma good_svc_cloneGroup: "good_store s \<Longrightarrow> good_store (fst (snd (svc_cloneGroup newId newIds fresh now input s)))"
proof -
  assume good: "good_store s"
  have "good_store (fst (snd (writeTransactionalCommand (\<lambda>tx q.
      and_then (createGroup newId now n d opts tx) (\<lambda>(createdId, tx1).
      and_then (copyRulesToGroup newIds now src createdId tx1) (\<lambda>(_, tx2).
        Inr (createdId, touchGroupUpdatedAt now createdId tx2, queueEvent (WhitelistChanged createdId) q)))) s)))"
    for n d opts src
  proof (rule good_write [OF good])
    fix i s' q
    assume "and_then (createGroup newId now n d opts s) (\<lambda>(createdId, tx1).
      and_then (copyRulesToGroup newIds now src createdId tx1) (\<lambda>(_, tx2).
        Inr (createdId, touchGroupUpdatedAt now createdId tx2, queueEvent (WhitelistChanged createdId) empty_queue))) = Inr (i, s', q)"
    then obtain s1 k s2 where c: "createGroup newId now n d opts s = Inr (i, s1)"
      "copyRulesToGroup newIds now src i s1 = Inr (k, s2)" "s' = touchGroupUpdatedAt now i s2"
      by (auto simp: and_then_Inr_iff)
    show "good_store s'"
      unfolding c(3) by (rule good_touch [OF good_copyRules [OF good_createGroup [OF good c(1)] c(2)]])
  qed
  then show ?thesis using good
    by (simp add: svc_cloneGroup_def Let_def good_relabel split: option.split)
qed

lemma group_step_good: "group_step s s' evs \<Longrightarrow> good_store s \<Longrightarrow> good_store s'"
proof (induction rule: group_step.induct)
  case (create_group newId now cg s r8 s' evs)
  then show ?case using good_svc_createGroup [of s newId now cg] by simp
next
  case (clone_group newId newIds fresh now cl s r10 s' evs)
  then show ?case using good_svc_cloneGroup [of s newId newIds fresh now cl] by simp
next
  case (create newId now input s r1 s' evs)
  then show ?case using tells_createRule [of s newId "''g''" now input] by (simp add: tells_iff)
next
  case (delete now i g s r2 s' evs)
  then show ?case using deletion_tells [of s "''g''" now i g] by simp
next
  case (bulk_delete pre now ids s r3 s' evs)
  then show ?case using tells_bulkDelete [of s pre now ids] by (simp add: tells_iff)
next
  case (update now upd s r4 s' evs)
  then show ?case using tells_updateRule [of s _ now upd] by (simp add: tells_iff)
next
  case (set_enabled now i g' b s r5 s' evs)
  then show ?case using tells_setRuleEnabled [of s _ now i g' b] by (simp add: tells_iff)
next
  case (bulk_set pre now ids s b r6 s' evs)
  then show ?case using tells_bulkSet [of s pre now ids _ b] by (simp add: tells_iff)
next
  case (bulk_create now g' ty vs s r7 s' evs)
  then show ?case using tells_bulkCreate [of s _ now g' ty vs] by (simp add: tells_iff)
next
  case (update_group now ug s r9 s' evs)
  then show ?case using tells_updateGroup [of s _ now ug] by (simp add: tells_iff)
next
  case (delete_group now i s acc r11 org' evs)
  then show ?case using tells_deleteGroup [of "\<lparr>org_groups = s, org_accounts = acc\<rparr>" _ now i] by (simp add: tells_iff)
next
  case (toggle now b s r12 s' evs)
  then show ?case using tells_toggle [of s _ now b] by (simp add: tells_iff)
qed

text \<open>The stores the services can produce.\<close>

inductive service_reach :: "group_store \<Rightarrow> bool" where
  start: "service_reach \<lparr>gs_groups = [], gs_rules = []\<rparr>"
| step: "service_reach s \<Longrightarrow> group_step s s' evs \<Longrightarrow> service_reach s'"

lemma service_reach_good: "service_reach s \<Longrightarrow> good_store s"
proof (induction rule: service_reach.induct)
  case start
  show ?case by (simp add: good_store_def store_ok_def distinct_key_def normal_values_def)
qed (rule group_step_good)

text \<open>C24: every change of a whitelist is announced.  When a request to the rule and group services
  changes the file exported for an existing group, the batch of events it publishes has the
  event of that group or the one for all groups, unless the request deleted a rule of the group and named another
  group, which an administrator can do: then the other group is announced instead (\<open>misnamed_deletion_unannounced\<close>).\<close>
theorem export_change_published:
  assumes "service_reach s" "group_step s s' evs" "gid \<noteq> []" "row_by grp_id gid (gs_groups s) \<noteq> None"
    and "exported ck now gid s' \<noteq> exported ck now gid s"
  shows "WhitelistChanged gid \<in> set evs \<or> AllWhitelistsChanged \<in> set evs \<or>
    (\<exists>t i g r rule. svc_deleteRule t i (Some g) s = (r, s', evs) \<and> g \<noteq> [] \<and> g \<noteq> gid \<and>
       row_by rul_id i (gs_rules s) = Some rule \<and> rul_groupId rule = gid)"
  using group_step_tells [OF assms(2) service_reach_good [OF assms(1)] assms(3,4)]
    same_export_exported [of gid s s' ck now now] assms(5)
  by (auto simp: announced_def misnamed_deletion_def)

definition demo_create :: create_group_input where
  "demo_create = \<lparr>cgi_name = ''Primary'', cgi_displayName = ''Primary'', cgi_visibility = None, cgi_ownerUserId = None\<rparr>"

definition demo_new_rule :: create_rule_input where
  "demo_new_rule = \<lparr>cri_groupId = ''g1'', cri_type = Whitelist, cri_value = ''example.com'', cri_comment = None\<rparr>"

definition demo_before :: group_store where
  "demo_before = fst (snd (svc_createGroup ''g1'' 0 demo_create \<lparr>gs_groups = [], gs_rules = []\<rparr>))"

definition demo_after :: "string outcome \<times> group_store \<times> domain_event list" where
  "demo_after = svc_createRule ''r1'' 0 demo_new_rule demo_before"

lemma demo_before_reach: "service_reach demo_before"
  unfolding demo_before_def
  by (rule service_reach.step [OF service_reach.start group_step.create_group [OF triple]])

lemma demo_eval:
  "row_by grp_id ''g1'' (gs_groups demo_before) \<noteq> None"
  "exported code_unit_key 0 ''g1'' (fst (snd demo_after)) \<noteq> exported code_unit_key 0 ''g1'' demo_before"
  by code_simp+

theorem export_change_published_witness:
  "exported code_unit_key 0 ''g1'' (fst (snd demo_after)) \<noteq> exported code_unit_key 0 ''g1'' demo_before \<and>
   (WhitelistChanged ''g1'' \<in> set (snd (snd demo_after)) \<or> AllWhitelistsChanged \<in> set (snd (snd demo_after)))"
proof -
  have "group_step demo_before (fst (snd demo_after)) (snd (snd demo_after))"
    unfolding demo_after_def by (rule group_step.create [OF _ triple]) simp
  note published = export_change_published [OF demo_before_reach this _ demo_eval]
  have "gs_rules demo_before = []" by code_simp
  then show ?thesis using published demo_eval by (simp add: row_by_def sel_first_def)
qed

text \<open>The exception happens: a rule of the first group is deleted under the name of another group.\<close>

definition demo_misnamed :: "bool outcome \<times> group_store \<times> domain_event list" where
  "demo_misnamed = svc_deleteRule 1 ''r1'' (Some ''g2'') (fst (snd demo_after))"

lemma misnamed_deletion_unannounced:
  "group_step (fst (snd demo_after)) (fst (snd demo_misnamed)) (snd (snd demo_misnamed))"
  "exported code_unit_key 0 ''g1'' (fst (snd demo_misnamed)) \<noteq> exported code_unit_key 0 ''g1'' (fst (snd demo_after))"
  "snd (snd demo_misnamed) = [WhitelistChanged ''g2'']"
proof -
  show "group_step (fst (snd demo_after)) (fst (snd demo_misnamed)) (snd (snd demo_misnamed))"
    unfolding demo_misnamed_def by (rule group_step.delete [OF triple])
qed (code_simp+)

end
