(* ===== verification/Requests.thy ===== *)
theory Requests
  imports Change_Announcement Access_Control
begin

text \<open>
  Requests for access to a domain: the table \<open>requests\<close>, \<open>api/src/lib/request-storage-*.ts\<close>, and
  the services \<open>request-command-*.service.ts\<close>, \<open>request-query.service.ts\<close> and \<open>approveWhitelistRequest\<close> of
  \<open>whitelist-rule-command.service.ts\<close>.

  \<open>meta\<close> tells whether the database has the metadata columns (\<open>hasRequestMetadataColumns\<close>); without them
  a stored request has none of the metadata.  \<open>env\<close> is \<open>DEFAULT_GROUP\<close>.  Notifying the teachers of a new
  request has no effect on the state and is left out.
\<close>

section \<open>The table\<close>

record request_row =
  rq_id :: string
  rq_domain :: string
  rq_reason :: "string option"
  rq_requesterEmail :: "string option"
  rq_groupId :: string
  rq_source :: "string option"
  rq_machineHostname :: "string option"
  rq_originHost :: "string option"
  rq_originPage :: "string option"
  rq_clientVersion :: "string option"
  rq_errorType :: "string option"
  rq_status :: "string option"
  rq_createdAt :: "int option"
  rq_updatedAt :: "int option"
  rq_resolvedAt :: "int option"
  rq_resolvedBy :: "string option"
  rq_resolutionNote :: "string option"

record domain_request =
  dr_id :: string
  dr_domain :: string
  dr_reason :: string
  dr_requesterEmail :: string
  dr_groupId :: string
  dr_source :: string
  dr_machineHostname :: "string option"
  dr_originHost :: "string option"
  dr_originPage :: "string option"
  dr_clientVersion :: "string option"
  dr_errorType :: "string option"
  dr_status :: string
  dr_createdAt :: int
  dr_updatedAt :: int
  dr_resolvedAt :: "int option"
  dr_resolvedBy :: "string option"
  dr_resolutionNote :: string

record request_db =
  req_groups :: group_store
  req_requests :: "request_row table"

definition toStorageType :: "int \<Rightarrow> request_row \<Rightarrow> domain_request" where
  "toStorageType now row =
     \<lparr>dr_id = rq_id row, dr_domain = rq_domain row, dr_reason = or_else (rq_reason row) [],
      dr_requesterEmail = or_else (rq_requesterEmail row) [], dr_groupId = rq_groupId row,
      dr_source = or_else (rq_source row) ''unknown'', dr_machineHostname = rq_machineHostname row,
      dr_originHost = rq_originHost row, dr_originPage = rq_originPage row,
      dr_clientVersion = rq_clientVersion row, dr_errorType = rq_errorType row,
      dr_status = or_else (rq_status row) ''pending'',
      dr_createdAt = or_else (rq_createdAt row) now, dr_updatedAt = or_else (rq_updatedAt row) now,
      dr_resolvedAt = rq_resolvedAt row, dr_resolvedBy = rq_resolvedBy row,
      dr_resolutionNote = or_else (rq_resolutionNote row) []\<rparr>"

definition normalizeRequestDomain :: "string \<Rightarrow> string" where
  "normalizeRequestDomain domain = normalize_domain domain"

section \<open>Storage\<close>

definition findExistingGroupId :: "string \<Rightarrow> group_store \<Rightarrow> string option" where
  "findExistingGroupId rawGroup gs =
     (let trimmed = js_trim rawGroup
      in if trimmed = [] then None
         else (case row_by grp_id trimmed (gs_groups gs) of
             Some g \<Rightarrow> Some (grp_id g)
           | None \<Rightarrow> map_option grp_id (row_by grp_name (strip_suffix ''.txt'' trimmed) (gs_groups gs))))"

definition resolveRequestGroupId :: "string option \<Rightarrow> string option \<Rightarrow> group_store \<Rightarrow> db_error + string" where
  "resolveRequestGroupId env groupId gs =
     (let requestedGroup = or_else (map_option js_trim groupId) [];
          configuredDefaultGroup = or_else (map_option js_trim env) []
      in if requestedGroup \<noteq> [] then
           (case findExistingGroupId requestedGroup gs of
              Some g \<Rightarrow> if g \<noteq> [] then Inr g else Inl (App_error (''Request group \"'' @ requestedGroup @ ''\" does not exist''))
            | None \<Rightarrow> Inl (App_error (''Request group \"'' @ requestedGroup @ ''\" does not exist'')))
         else if configuredDefaultGroup \<noteq> [] then
           (case findExistingGroupId configuredDefaultGroup gs of
              Some g \<Rightarrow> if g \<noteq> [] then Inr g else Inl (App_error (''DEFAULT_GROUP \"'' @ configuredDefaultGroup @ ''\" does not exist''))
            | None \<Rightarrow> Inl (App_error (''DEFAULT_GROUP \"'' @ configuredDefaultGroup @ ''\" does not exist'')))
         else
           (case findExistingGroupId ''default'' gs of
              Some g \<Rightarrow> if g \<noteq> [] then Inr g else Inl (App_error ''No request group is available. Provide groupId or configure DEFAULT_GROUP to an existing whitelist group.'')
            | None \<Rightarrow> Inl (App_error ''No request group is available. Provide groupId or configure DEFAULT_GROUP to an existing whitelist group.'')))"

record request_creation_input =
  rci_clientVersion :: "string option"
  rci_domain :: string
  rci_errorType :: "string option"
  rci_groupId :: "string option"
  rci_machineHostname :: "string option"
  rci_originHost :: "string option"
  rci_originPage :: "string option"
  rci_reason :: "string option"
  rci_requesterEmail :: "string option"
  rci_source :: "string option"

definition new_request :: "bool \<Rightarrow> string \<Rightarrow> int \<Rightarrow> string \<Rightarrow> request_creation_input \<Rightarrow> request_row" where
  "new_request meta newId now groupId d =
     \<lparr>rq_id = newId, rq_domain = normalizeRequestDomain (rci_domain d), rq_reason = Some (or_else (rci_reason d) []),
      rq_requesterEmail = Some (or_else (rci_requesterEmail d) ''anonymous''), rq_groupId = groupId,
      rq_source = (if meta then Some (or_else (rci_source d) ''unknown'') else None),
      rq_machineHostname = (if meta then rci_machineHostname d else None),
      rq_originHost = (if meta then rci_originHost d else None),
      rq_originPage = (if meta then rci_originPage d else None),
      rq_clientVersion = (if meta then rci_clientVersion d else None),
      rq_errorType = (if meta then rci_errorType d else None),
      rq_status = Some ''pending'', rq_createdAt = Some now, rq_updatedAt = Some now,
      rq_resolvedAt = None, rq_resolvedBy = None, rq_resolutionNote = None\<rparr>"

definition createRequest ::
  "bool \<Rightarrow> string option \<Rightarrow> string \<Rightarrow> int \<Rightarrow> request_creation_input \<Rightarrow> request_db \<Rightarrow> db_error + domain_request \<times> request_db" where
  "createRequest meta env newId now d db =
     and_then (resolveRequestGroupId env (rci_groupId d) (req_groups db)) (\<lambda>groupId.
       let row = new_request meta newId now groupId d
       in if row_by rq_id newId (req_requests db) \<noteq> None then Inl Unique_violation
          else if row_by grp_id groupId (gs_groups (req_groups db)) = None then Inl Foreign_key_violation
          else Inr (toStorageType now row, db\<lparr>req_requests := ins_row row (req_requests db)\<rparr>))"

definition updateRequestStatus ::
  "int \<Rightarrow> string \<Rightarrow> string \<Rightarrow> string option \<Rightarrow> string option \<Rightarrow> string option \<Rightarrow> request_db \<Rightarrow> domain_request option \<times> request_db" where
  "updateRequestStatus now i status resolvedBy note expectedStatus db =
     (let chosen = (\<lambda>r. rq_id r = i \<and> (case expectedStatus of Some e \<Rightarrow> rq_status r = Some e | None \<Rightarrow> True));
          f = (\<lambda>r. r\<lparr>rq_status := Some status, rq_resolvedBy := Some (or_else resolvedBy ''admin''), rq_resolvedAt := Some now,
                    rq_resolutionNote := (case note of Some n \<Rightarrow> Some n | None \<Rightarrow> rq_resolutionNote r)\<rparr>)
      in (map_option (\<lambda>r. toStorageType now (f r)) (sel_first chosen (req_requests db)),
          db\<lparr>req_requests := upd_where chosen f (req_requests db)\<rparr>))"

definition deleteRequest :: "string \<Rightarrow> request_db \<Rightarrow> bool \<times> request_db" where
  "deleteRequest i db =
     (count_where (\<lambda>r. rq_id r = i) (req_requests db) > 0, db\<lparr>req_requests := del_by rq_id i (req_requests db)\<rparr>)"

definition getAllRequests :: "int \<Rightarrow> string option \<Rightarrow> request_db \<Rightarrow> domain_request list" where
  "getAllRequests now status db =
     map (toStorageType now) (sort_key (\<lambda>r. desc_key (rq_createdAt r))
       (case status of Some st \<Rightarrow> sel_where (\<lambda>r. rq_status r = Some st) (req_requests db) | None \<Rightarrow> req_requests db))"

definition getRequestsByGroup :: "int \<Rightarrow> string \<Rightarrow> request_db \<Rightarrow> domain_request list" where
  "getRequestsByGroup now groupId db =
     map (toStorageType now) (sort_key (\<lambda>r. desc_key (rq_createdAt r))
       (sel_where (\<lambda>r. rq_groupId r = groupId) (req_requests db)))"

definition getRequestById :: "int \<Rightarrow> string \<Rightarrow> request_db \<Rightarrow> domain_request option" where
  "getRequestById now i db = map_option (toStorageType now) (row_by rq_id i (req_requests db))"

definition hasPendingRequest :: "string \<Rightarrow> string option \<Rightarrow> request_db \<Rightarrow> bool" where
  "hasPendingRequest domain groupId db \<longleftrightarrow>
     sel_first (\<lambda>r. rq_domain r = normalizeRequestDomain domain \<and> rq_status r = Some ''pending'' \<and>
       (case groupId of Some g \<Rightarrow> g = [] \<or> rq_groupId r = g | None \<Rightarrow> True)) (req_requests db) \<noteq> None"

record request_stats =
  rqs_total :: nat
  rqs_pending :: nat
  rqs_approved :: nat
  rqs_rejected :: nat

definition add_status_count :: "string option \<times> nat \<Rightarrow> request_stats \<Rightarrow> request_stats" where
  "add_status_count row stats =
     \<lparr>rqs_total = rqs_total stats + snd row,
      rqs_pending = (if fst row = Some ''pending'' then snd row else rqs_pending stats),
      rqs_approved = (if fst row = Some ''approved'' then snd row else rqs_approved stats),
      rqs_rejected = (if fst row = Some ''rejected'' then snd row else rqs_rejected stats)\<rparr>"

definition getRequestStats :: "request_db \<Rightarrow> request_stats" where
  "getRequestStats db =
     fold add_status_count
       (map (\<lambda>st. (st, count_where (\<lambda>r. rq_status r = st) (req_requests db))) (js_unique (map rq_status (req_requests db))))
       \<lparr>rqs_total = 0, rqs_pending = 0, rqs_approved = 0, rqs_rejected = 0\<rparr>"

end
