(* ===== verification/Request_Review.thy ===== *)
theory Request_Review
  imports Requests
begin

text \<open>
  The services on requests for access: \<open>api/src/services/request-command-shared.ts\<close>,
  \<open>request-command-requests.service.ts\<close>, \<open>request-command-review.service.ts\<close>,
  \<open>request-query.service.ts\<close> and \<open>approveWhitelistRequest\<close> of \<open>whitelist-rule-command.service.ts\<close>.

  \<open>msg\<close> gives the text of an error the database raises.  The requests of a group vanish with it (the
  foreign key cascades), which is the step \<open>groups\<close> of \<open>request_step\<close>.
\<close>

section \<open>Shared helpers\<close>

definition toErrorMessage :: "(db_error \<Rightarrow> string) \<Rightarrow> db_error \<Rightarrow> string" where
  "toErrorMessage msg e = (case e of App_error m \<Rightarrow> m | _ \<Rightarrow> msg e)"

definition isRequestStatus :: "string \<Rightarrow> bool" where
  "isRequestStatus value \<longleftrightarrow> value = ''pending'' \<or> value = ''approved'' \<or> value = ''rejected''"

definition parseStoredRequest :: "domain_request \<Rightarrow> db_error + domain_request" where
  "parseStoredRequest value =
     (if \<not> isRequestStatus (dr_status value) then Inl (App_error ''Invalid request payload'') else Inr value)"

definition parseOptionalStoredRequest :: "domain_request option \<Rightarrow> db_error + domain_request option" where
  "parseOptionalStoredRequest value =
     (case value of None \<Rightarrow> Inr None | Some v \<Rightarrow> and_then (parseStoredRequest v) (\<lambda>r. Inr (Some r)))"

definition createStoredRequest ::
  "bool \<Rightarrow> string option \<Rightarrow> string \<Rightarrow> int \<Rightarrow> request_creation_input \<Rightarrow> request_db \<Rightarrow>
   db_error + domain_request \<times> request_db" where
  "createStoredRequest meta env newId now input db =
     and_then (createRequest meta env newId now input db) (\<lambda>(r, db').
       and_then (parseStoredRequest r) (\<lambda>r'. Inr (r', db')))"

definition getStoredRequestById :: "int \<Rightarrow> string \<Rightarrow> request_db \<Rightarrow> db_error + domain_request option" where
  "getStoredRequestById now i db = parseOptionalStoredRequest (getRequestById now i db)"

definition updateStoredRequestStatus ::
  "int \<Rightarrow> string \<Rightarrow> string \<Rightarrow> string option \<Rightarrow> string option \<Rightarrow> string option \<Rightarrow> request_db \<Rightarrow>
   db_error + domain_request option \<times> request_db" where
  "updateStoredRequestStatus now i status resolvedBy note expectedStatus db =
     (case updateRequestStatus now i status resolvedBy note expectedStatus db of (r, db') \<Rightarrow>
        and_then (parseOptionalStoredRequest r) (\<lambda>r'. Inr (r', db')))"

record resolved_group_target =
  rgt_id :: string
  rgt_name :: string

definition resolveGroupTarget :: "int \<Rightarrow> string \<Rightarrow> group_store \<Rightarrow> resolved_group_target option" where
  "resolveGroupTarget now rawGroup gs =
     (case getGroupById now rawGroup gs of
        Some g \<Rightarrow> Some \<lparr>rgt_id = gwc_id g, rgt_name = gwc_name g\<rparr>
      | None \<Rightarrow> map_option (\<lambda>g. \<lparr>rgt_id = gwc_id g, rgt_name = gwc_name g\<rparr>)
                  (getGroupByName now (strip_suffix ''.txt'' rawGroup) gs))"

definition canApproveResolvedTarget :: "jwt_payload \<Rightarrow> string \<Rightarrow> resolved_group_target \<Rightarrow> bool" where
  "canApproveResolvedTarget user rawGroup target \<longleftrightarrow>
     canApproveGroup (Some user) rawGroup \<or> canApproveGroup (Some user) (rgt_id target) \<or>
     canApproveGroup (Some user) (rgt_name target)"

section \<open>Commands\<close>

definition svc_createRequest ::
  "(db_error \<Rightarrow> string) \<Rightarrow> bool \<Rightarrow> string option \<Rightarrow> string \<Rightarrow> int \<Rightarrow> request_creation_input \<Rightarrow> request_db \<Rightarrow>
   domain_request outcome \<times> request_db" where
  "svc_createRequest msg meta env newId now input db =
     (let normalizedInput = input\<lparr>rci_domain := normalizeManualRequestDomain (rci_domain input)\<rparr>
      in case resolveRequestGroupId env (rci_groupId normalizedInput) (req_groups db) of
           Inl e \<Rightarrow> (Fail (Bad_request (toErrorMessage msg e)), db)
         | Inr resolvedGroupId \<Rightarrow>
             if hasPendingRequest (rci_domain normalizedInput) (Some resolvedGroupId) db
             then (Fail (Conflict ''Pending request exists for this domain''), db)
             else (case createStoredRequest meta env newId now (normalizedInput\<lparr>rci_groupId := Some resolvedGroupId\<rparr>) db of
                     Inl e \<Rightarrow> (Fail (Bad_request (toErrorMessage msg e)), db)
                   | Inr (request, db') \<Rightarrow> (Ok request, db')))"

definition svc_deleteRequest :: "string \<Rightarrow> request_db \<Rightarrow> unit outcome \<times> request_db" where
  "svc_deleteRequest i db =
     (case deleteRequest i db of (deleted, db') \<Rightarrow>
        if \<not> deleted then (Fail (Not_found ''Request not found''), db') else (Ok (), db'))"

definition approveWhitelistRequest ::
  "string \<Rightarrow> int \<Rightarrow> string \<Rightarrow> string \<Rightarrow> string \<Rightarrow> resolved_group_target \<Rightarrow> request_db \<Rightarrow>
   (db_error + bool \<times> domain_request) \<times> request_db \<times> domain_event list" where
  "approveWhitelistRequest newRuleId now domain requestId resolvedBy target =
     writeTransactionalCommand (\<lambda>tx q.
       and_then (createRule newRuleId now (rgt_id target) Whitelist domain None (req_groups tx)) (\<lambda>(ruleResult, gs).
         let success = (case ruleResult of Rule_created _ \<Rightarrow> True | Rule_rejected _ \<Rightarrow> False);
             tx1 = tx\<lparr>req_groups := gs\<rparr>
         in if \<not> success \<and> ruleResult \<noteq> Rule_rejected ''Rule already exists''
            then Inl (App_error (case ruleResult of Rule_rejected m \<Rightarrow> m | _ \<Rightarrow> ''Failed to add domain to whitelist''))
            else and_then (updateStoredRequestStatus now requestId ''approved'' (Some resolvedBy)
                             (Some (''Added to '' @ rgt_name target)) (Some ''pending'') tx1) (\<lambda>(updated, tx2).
                 case updated of
                   None \<Rightarrow> Inl (App_error ''Request is no longer pending'')
                 | Some r \<Rightarrow> Inr ((success, r), tx2,
                     if success then queueEvent (WhitelistChanged (rgt_id target)) q else q))))"

definition approveRequest ::
  "(db_error \<Rightarrow> string) \<Rightarrow> (string \<Rightarrow> nat list) \<Rightarrow> string \<Rightarrow> int \<Rightarrow> string \<Rightarrow> string option \<Rightarrow> jwt_payload \<Rightarrow> request_db \<Rightarrow>
   (domain_request, request_db) svc_result" where
  "approveRequest msg ck newRuleId now i groupId user db =
     (case getStoredRequestById now i db of
        Inl e \<Rightarrow> (Throws e, db, [])
      | Inr None \<Rightarrow> (Fail (Not_found ''Request not found''), db, [])
      | Inr (Some request) \<Rightarrow>
          if dr_status request \<noteq> ''pending''
          then (Fail (Bad_request (''Request is already '' @ dr_status request)), db, [])
          else
            let rawTargetGroup = or_else groupId (dr_groupId request);
                hasRawPermission = canApproveGroup (Some user) rawTargetGroup;
                resolvedTarget = resolveGroupTarget now rawTargetGroup (req_groups db)
            in if \<not> hasRawPermission \<and>
                  (case resolvedTarget of None \<Rightarrow> True | Some t \<Rightarrow> \<not> canApproveResolvedTarget user rawTargetGroup t)
               then (Fail (Forbidden ''You do not have permission to approve for this group''), db, [])
               else (case resolvedTarget of
                   None \<Rightarrow> (Fail (Bad_request ''Target group does not exist''), db, [])
                 | Some target \<Rightarrow>
                     if \<not> isAdminToken (Some user) \<and>
                        bcr_blocked (isDomainBlocked ck now (rgt_id target) (dr_domain request) (req_groups db))
                     then (Fail (Forbidden ''This domain is explicitly blocked''), db, [])
                     else (case approveWhitelistRequest newRuleId now (normalizeManualRequestDomain (dr_domain request))
                                  (dr_id request) (jwt_name user) target db of
                             (Inl e, db', evs) \<Rightarrow> (Fail (Bad_request (toErrorMessage msg e)), db', evs)
                           | (Inr (_, updated), db', evs) \<Rightarrow> (Ok updated, db', evs))))"

definition rejectRequest ::
  "int \<Rightarrow> string \<Rightarrow> string option \<Rightarrow> jwt_payload \<Rightarrow> request_db \<Rightarrow> domain_request outcome \<times> request_db" where
  "rejectRequest now i reason user db =
     (case getStoredRequestById now i db of
        Inl e \<Rightarrow> (Throws e, db)
      | Inr None \<Rightarrow> (Fail (Not_found ''Request not found''), db)
      | Inr (Some request) \<Rightarrow>
          if dr_status request \<noteq> ''pending''
          then (Fail (Bad_request (''Request is already '' @ dr_status request)), db)
          else if \<not> canApproveGroup (Some user) (dr_groupId request)
          then (Fail (Forbidden ''You do not have permission to manage this request''), db)
          else (case updateStoredRequestStatus now (dr_id request) ''rejected'' (Some (jwt_name user)) reason None db of
                  Inl e \<Rightarrow> (Throws e, db)
                | Inr (None, db') \<Rightarrow> (Fail (Not_found ''Failed to update request status''), db')
                | Inr (Some updated, db') \<Rightarrow> (Ok updated, db')))"

section \<open>Queries\<close>

definition getRequestStatus :: "int \<Rightarrow> string \<Rightarrow> request_db \<Rightarrow> service_error + string \<times> string \<times> string" where
  "getRequestStatus now i db =
     (case getRequestById now i db of
        None \<Rightarrow> Inl (Not_found ''Request not found'')
      | Some request \<Rightarrow> Inr (dr_id request, dr_domain request, dr_status request))"

definition listRequests :: "int \<Rightarrow> string option \<Rightarrow> jwt_payload \<Rightarrow> request_db \<Rightarrow> domain_request list" where
  "listRequests now status user db =
     (let requests = getAllRequests now status db
      in case getApprovalGroups (Some user) of
           All_groups \<Rightarrow> requests
         | Only_groups groups \<Rightarrow> filter (\<lambda>r. dr_groupId r \<in> set groups) requests)"

definition getRequest :: "int \<Rightarrow> string \<Rightarrow> jwt_payload \<Rightarrow> request_db \<Rightarrow> service_error + domain_request" where
  "getRequest now i user db =
     (case getRequestById now i db of
        None \<Rightarrow> Inl (Not_found ''Request not found'')
      | Some request \<Rightarrow>
          (case getApprovalGroups (Some user) of
             All_groups \<Rightarrow> Inr request
           | Only_groups groups \<Rightarrow>
               if dr_groupId request \<notin> set groups then Inl (Forbidden ''You do not have access to this request'')
               else Inr request))"

record group_choice =
  gch_id :: string
  gch_name :: string
  gch_path :: string

definition listGroupsForUser :: "int \<Rightarrow> jwt_payload \<Rightarrow> request_db \<Rightarrow> group_choice list" where
  "listGroupsForUser now user db =
     (let allGroups = getAllGroups now (req_groups db);
          filteredGroups = (case getApprovalGroups (Some user) of
              All_groups \<Rightarrow> allGroups
            | Only_groups userGroups \<Rightarrow> filter (\<lambda>g. gwc_name g \<in> set userGroups \<or> gwc_id g \<in> set userGroups) allGroups)
      in map (\<lambda>g. \<lparr>gch_id = gwc_id g, gch_name = gwc_name g, gch_path = gwc_id g\<rparr>) filteredGroups)"

section \<open>The requests that can arise\<close>

definition drop_orphans :: "group_store \<Rightarrow> request_db \<Rightarrow> request_db" where
  "drop_orphans gs db =
     db\<lparr>req_groups := gs,
        req_requests := del_where (\<lambda>r. row_by grp_id (rq_groupId r) (gs_groups gs) = None) (req_requests db)\<rparr>"

definition plain_ids :: "group_store \<Rightarrow> bool" where
  "plain_ids gs \<longleftrightarrow> list_all (\<lambda>g. js_trim (grp_id g) = grp_id g) (gs_groups gs)"

text \<open>A step is a call of one of the services; identifiers of groups are drawn without white space.\<close>

inductive request_step :: "request_db \<Rightarrow> request_db \<Rightarrow> domain_event list \<Rightarrow> bool" where
  create: "svc_createRequest msg meta env newId now input db = (r1, db') \<Longrightarrow> request_step db db' []"
| approve: "approveRequest msg ck newRuleId now i g user db = (r2, db', evs) \<Longrightarrow> request_step db db' evs"
| reject: "rejectRequest now i reason user db = (r3, db') \<Longrightarrow> request_step db db' []"
| delete: "svc_deleteRequest i db = (r4, db') \<Longrightarrow> request_step db db' []"
| groups: "group_step (req_groups db) gs evs \<Longrightarrow> plain_ids gs \<Longrightarrow> request_step db (drop_orphans gs db) evs"

inductive request_reach :: "request_db \<Rightarrow> bool" where
  start: "request_reach \<lparr>req_groups = \<lparr>gs_groups = [], gs_rules = []\<rparr>, req_requests = []\<rparr>"
| step: "request_reach db \<Longrightarrow> request_step db db' evs \<Longrightarrow> request_reach db'"

definition same_pending :: "request_row \<Rightarrow> request_row \<Rightarrow> bool" where
  "same_pending a b \<longleftrightarrow>
     rq_status a = Some ''pending'' \<and> rq_status b = Some ''pending'' \<and> rq_domain a = rq_domain b \<and>
     rq_groupId a = rq_groupId b"

definition row_settled :: "request_row \<Rightarrow> bool" where
  "row_settled r \<longleftrightarrow>
     (\<exists>st. rq_status r = Some st \<and> isRequestStatus st \<and> (st = ''pending'' \<longleftrightarrow> rq_resolvedAt r = None))"

definition requests_ok :: "group_store \<Rightarrow> request_row table \<Rightarrow> bool" where
  "requests_ok gs t \<longleftrightarrow>
     distinct_key rq_id t \<and> pairwise_apart same_pending t \<and> list_all row_settled t \<and>
     rq_groupId ` set t \<subseteq> grp_id ` set (gs_groups gs)"

definition request_ok :: "request_db \<Rightarrow> bool" where
  "request_ok db \<longleftrightarrow>
     good_store (req_groups db) \<and> plain_ids (req_groups db) \<and> requests_ok (req_groups db) (req_requests db)"

interpretation requests_tab: record_store "distinct_key rq_id" rq_id "row_by rq_id" ins_row
  "upd_by rq_id" "del_by rq_id"
  by (rule record_store_table)

interpretation pending_tab: timetable same_pending rq_id
  by unfold_locales (auto simp: same_pending_def)

lemma requests_ok_del: "requests_ok gs t \<Longrightarrow> requests_ok gs (del_where P t)"
  using pending_tab.apart_del
  by (auto simp: requests_ok_def distinct_key_del_where list_all_iff set_del_where)

lemma requests_ok_ins:
  assumes "requests_ok gs t" "row_by rq_id (rq_id r) t = None" "row_settled r"
    and "row_by grp_id (rq_groupId r) (gs_groups gs) \<noteq> None" "\<And>x. x \<in> set t \<Longrightarrow> \<not> same_pending r x"
  shows "requests_ok gs (ins_row r t)"
  using assms pending_tab.apart_ins unfolding row_by_None_iff
  by (auto simp: requests_ok_def distinct_key_ins row_by_None_iff list_all_iff set_ins_row)

lemma requests_ok_upd:
  assumes "requests_ok gs t" "\<And>r. rq_id (f r) = rq_id r" "\<And>r. rq_groupId (f r) = rq_groupId r"
    and "\<And>r. row_settled (f r)" "\<And>r. rq_status (f r) \<noteq> Some ''pending''"
  shows "requests_ok gs (upd_where P f t)"
proof -
  have "pairwise_apart same_pending (upd_where P f t)"
    unfolding pairwise_apart_def upd_where_def sorted_wrt_map
    using assms(1) by (auto simp: requests_ok_def pairwise_apart_def same_pending_def assms(5)
        elim!: sorted_wrt_mono_rel [rotated] split: if_splits)
  moreover have "map rq_groupId (upd_where P f t) = map rq_groupId t"
    by (simp add: upd_where_def assms(3))
  then have "rq_groupId ` set (upd_where P f t) = rq_groupId ` set t"
    by (metis set_map)
  moreover have "list_all row_settled (upd_where P f t)"
    using assms(1,4) by (auto simp: requests_ok_def list_all_iff upd_where_def)
  ultimately show ?thesis
    using assms(1,2) by (simp add: requests_ok_def distinct_key_upd_where)
qed

section \<open>Storage commands keep the requests in order\<close>

definition resolve_row :: "int \<Rightarrow> string \<Rightarrow> string \<Rightarrow> string option \<Rightarrow> request_row \<Rightarrow> request_row" where
  "resolve_row now status who note r =
     r\<lparr>rq_status := Some status, rq_resolvedBy := Some who, rq_resolvedAt := Some now,
       rq_resolutionNote := (case note of Some n \<Rightarrow> Some n | None \<Rightarrow> rq_resolutionNote r)\<rparr>"

lemma updateStored_eq:
  assumes "isRequestStatus status"
  shows "updateStoredRequestStatus now i status (Some who) note expected db =
    Inr (fst (updateRequestStatus now i status (Some who) note expected db),
         snd (updateRequestStatus now i status (Some who) note expected db))"
  using assms
  by (auto simp: updateStoredRequestStatus_def updateRequestStatus_def Let_def parseOptionalStoredRequest_def
      parseStoredRequest_def toStorageType_def or_else_def split: option.splits)

lemma updateRequestStatus_row:
  assumes "distinct_key rq_id (req_requests db)" "row_by rq_id i (req_requests db) = Some r"
    and "expected = None \<or> expected = rq_status r"
  shows "updateRequestStatus now i status (Some who) note expected db =
    (Some (toStorageType now (resolve_row now status who note r)),
     db\<lparr>req_requests := upd_by rq_id i (resolve_row now status who note) (req_requests db)\<rparr>)"
proof -
  have one: "(rq_id x = i \<and> (case expected of Some e \<Rightarrow> rq_status x = Some e | None \<Rightarrow> True)) \<longleftrightarrow> rq_id x = i"
    if "x \<in> set (req_requests db)" for x
    using row_by_unique [OF assms(1) that] assms(2,3) by (auto split: option.splits)
  then have "sel_first (\<lambda>x. rq_id x = i \<and> (case expected of Some e \<Rightarrow> rq_status x = Some e | None \<Rightarrow> True)) (req_requests db) = Some r"
    using assms(2) find_cong [OF refl one, of "req_requests db" "\<lambda>x. x"] by (simp add: row_by_def sel_first_def)
  moreover have "upd_where (\<lambda>x. rq_id x = i \<and> (case expected of Some e \<Rightarrow> rq_status x = Some e | None \<Rightarrow> True)) f (req_requests db)
      = upd_by rq_id i f (req_requests db)" for f
    unfolding upd_by_def upd_where_def using one by (intro map_cong) auto
  ultimately show ?thesis
    by (simp add: updateRequestStatus_def Let_def resolve_row_def [abs_def] or_else_def)
qed

lemma findExisting_row: "findExistingGroupId raw gs = Some g \<Longrightarrow> g \<in> grp_id ` set (gs_groups gs)"
  by (auto simp: findExistingGroupId_def Let_def split: if_splits option.splits dest!: row_by_SomeD)

lemma resolveRequest_row:
  "resolveRequestGroupId env raw gs = Inr g \<Longrightarrow> g \<noteq> [] \<and> row_by grp_id g (gs_groups gs) \<noteq> None"
  unfolding row_by_None_iff
  by (auto simp: resolveRequestGroupId_def Let_def split: if_splits option.splits dest!: findExisting_row)

lemma resolveRequest_again:
  assumes "plain_ids gs" "g \<noteq> []" "row_by grp_id g (gs_groups gs) \<noteq> None"
  shows "resolveRequestGroupId env (Some g) gs = Inr g"
proof -
  obtain r where r: "row_by grp_id g (gs_groups gs) = Some r" using assms(3) by blast
  then have "js_trim g = g" using assms(1) by (auto simp: plain_ids_def list_all_iff dest: row_by_SomeD)
  with r show ?thesis
    using assms(2) row_by_SomeD [OF r]
    by (simp add: resolveRequestGroupId_def findExistingGroupId_def or_else_def)
qed

lemma svc_createRequest_cases:
  assumes "svc_createRequest msg meta env newId now input db = (res, db')" "request_ok db"
  shows "db' = db \<or> (\<exists>row. db' = db\<lparr>req_requests := ins_row row (req_requests db)\<rparr> \<and>
      row_by rq_id (rq_id row) (req_requests db) = None \<and> requests_ok (req_groups db) (ins_row row (req_requests db)))"
proof (cases "db' = db")
  case False
  let ?dom = "normalizeManualRequestDomain (rci_domain input)"
  from False assms(1) obtain g where g: "resolveRequestGroupId env (rci_groupId input) (req_groups db) = Inr g"
    and np: "\<not> hasPendingRequest ?dom (Some g) db"
    and cr: "createStoredRequest meta env newId now (input\<lparr>rci_domain := ?dom, rci_groupId := Some g\<rparr>) db = Inr (or_else (case res of Ok r \<Rightarrow> Some r | _ \<Rightarrow> None) undefined, db')"
    by (auto simp: svc_createRequest_def Let_def or_else_def split: sum.splits if_splits)
  have g': "g \<noteq> []" "row_by grp_id g (gs_groups (req_groups db)) \<noteq> None" using resolveRequest_row [OF g] by auto
  define row where "row = new_request meta newId now g (input\<lparr>rci_domain := ?dom, rci_groupId := Some g\<rparr>)"
  have row: "rq_id row = newId" "rq_groupId row = g" "rq_domain row = normalizeRequestDomain ?dom" "row_settled row"
    by (simp_all add: row_def new_request_def row_settled_def isRequestStatus_def)
  have db': "db' = db\<lparr>req_requests := ins_row row (req_requests db)\<rparr>" "row_by rq_id newId (req_requests db) = None"
    using cr resolveRequest_again [OF _ g', of env] assms(2) g'
    by (auto simp: createStoredRequest_def createRequest_def and_then_Inr_iff Let_def row_def request_ok_def split: if_splits)
  have "\<not> same_pending row x" if "x \<in> set (req_requests db)" for x
    using np that g'(1) row by (auto simp: hasPendingRequest_def sel_first_None_iff same_pending_def)
  then have "requests_ok (req_groups db) (ins_row row (req_requests db))"
    using assms(2) db'(2) g' row by (intro requests_ok_ins) (auto simp: request_ok_def)
  then show ?thesis using db' row(1) by blast
qed simp

lemma stored_pending:
  assumes "getStoredRequestById now i db = Inr (Some d)" "dr_status d = ''pending''" "request_ok db"
  shows "\<exists>r. row_by rq_id i (req_requests db) = Some r \<and> rq_status r = Some ''pending'' \<and> d = toStorageType now r"
proof -
  from assms(1) obtain r where r: "row_by rq_id i (req_requests db) = Some r" "d = toStorageType now r"
    by (auto simp: getStoredRequestById_def getRequestById_def parseOptionalStoredRequest_def parseStoredRequest_def
        and_then_Inr_iff split: option.splits if_splits)
  then have "row_settled r" using assms(3) by (auto simp: request_ok_def requests_ok_def list_all_iff dest: row_by_SomeD)
  then show ?thesis using r assms(2) by (auto simp: toStorageType_def or_else_def row_settled_def)
qed

lemma requests_ok_resolve:
  "requests_ok gs t \<Longrightarrow> status \<in> {''approved'', ''rejected''} \<Longrightarrow> requests_ok gs (upd_by rq_id i (resolve_row now status who note) t)"
  unfolding upd_by_def
  by (rule requests_ok_upd) (auto simp: resolve_row_def row_settled_def isRequestStatus_def)

lemma rejectRequest_cases:
  assumes "rejectRequest now i reason user db = (res, db')" "request_ok db"
  shows "db' = db \<or> (\<exists>r. row_by rq_id i (req_requests db) = Some r \<and> rq_status r = Some ''pending'' \<and>
    db' = db\<lparr>req_requests := upd_by rq_id i (resolve_row now ''rejected'' (jwt_name user) reason) (req_requests db)\<rparr>)"
proof (cases "db' = db")
  case False
  then obtain d where d: "getStoredRequestById now i db = Inr (Some d)" "dr_status d = ''pending''"
    using assms(1) by (auto simp: rejectRequest_def split: sum.splits option.splits if_splits)
  from stored_pending [OF d assms(2)] obtain r where
    r: "row_by rq_id i (req_requests db) = Some r" "rq_status r = Some ''pending''" "d = toStorageType now r" by blast
  have "dr_id d = i" using r row_by_SomeD [OF r(1)] by (simp add: toStorageType_def)
  moreover have "distinct_key rq_id (req_requests db)" using assms(2) by (simp add: request_ok_def requests_ok_def)
  ultimately show ?thesis
    using assms(1) d r updateRequestStatus_row [of db i r None]
    by (auto simp: rejectRequest_def updateStored_eq isRequestStatus_def split: if_splits)
qed simp

section \<open>Approval\<close>

definition target_row :: "string \<Rightarrow> group_store \<Rightarrow> group_row option" where
  "target_row raw gs =
     (case row_by grp_id raw (gs_groups gs) of
        Some g \<Rightarrow> Some g | None \<Rightarrow> row_by grp_name (strip_suffix ''.txt'' raw) (gs_groups gs))"

lemma resolveGroupTarget_row:
  "resolveGroupTarget now raw gs = map_option (\<lambda>g. \<lparr>rgt_id = grp_id g, rgt_name = grp_name g\<rparr>) (target_row raw gs)"
  by (simp add: resolveGroupTarget_def target_row_def getGroupById_def getGroupByName_def dbGroupToApi_def
      option.map_comp comp_def split: option.splits)

lemma target_row_mem: "target_row raw gs = Some g \<Longrightarrow> g \<in> set (gs_groups gs)"
  by (auto simp: target_row_def split: option.splits dest: row_by_SomeD)

text \<open>Who may approve which request for which group.\<close>

definition approvable ::
  "(string \<Rightarrow> nat list) \<Rightarrow> int \<Rightarrow> string option \<Rightarrow> jwt_payload \<Rightarrow> request_db \<Rightarrow> request_row \<Rightarrow> group_row \<Rightarrow> bool" where
  "approvable ck now groupId user db r g \<longleftrightarrow>
     rq_status r = Some ''pending'' \<and> target_row (or_else groupId (rq_groupId r)) (req_groups db) = Some g \<and>
     list_ex (canApproveGroup (Some user)) [or_else groupId (rq_groupId r), grp_id g, grp_name g] \<and>
     (isAdminToken (Some user) \<or> \<not> bcr_blocked (isDomainBlocked ck now (grp_id g) (rq_domain r) (req_groups db)))"

definition listed_rule :: "string \<Rightarrow> string \<Rightarrow> group_store \<Rightarrow> bool" where
  "listed_rule gid value gs \<longleftrightarrow>
     list_ex (\<lambda>r. rul_groupId r = gid \<and> rul_type r = Whitelist \<and> rul_value r = normalizeRuleValue Whitelist value) (gs_rules gs)"

lemma createRule_listed:
  assumes "store_ok gs" "gid \<in> grp_id ` set (gs_groups gs)" "newId \<notin> rul_id ` set (gs_rules gs)"
  shows "\<exists>gs'. createRule newId now gid Whitelist v None gs =
      Inr (if listed_rule gid v gs then Rule_rejected ''Rule already exists'' else Rule_created newId, gs') \<and>
    (listed_rule gid v gs \<longrightarrow> gs' = gs) \<and> listed_rule gid v gs' \<and> set (gs_rules gs) \<subseteq> set (gs_rules gs')"
proof (cases "listed_rule gid v gs")
  case True
  then show ?thesis
    by (auto simp: createRule_def Let_def listed_rule_def list_ex_iff sel_first_None_iff)
next
  case False
  then have new: "sel_first (\<lambda>r. rul_groupId r = gid \<and> rul_type r = Whitelist \<and> rul_value r = normalizeRuleValue Whitelist v)
      (gs_rules gs) = None"
    by (auto simp: listed_rule_def list_ex_iff sel_first_None_iff)
  then have "(gid, Whitelist, normalizeRuleValue Whitelist v) \<notin> rule_key ` set (gs_rules gs)"
    by (auto simp: sel_first_None_iff rule_key_def)
  then show ?thesis
    using False assms new
    by (auto simp: createRule_def Let_def insert_rules_def row_by_None_iff store_ok_def distinct_key_def rule_key_def
        listed_rule_def list_ex_iff)
qed

definition approved_row :: "int \<Rightarrow> jwt_payload \<Rightarrow> group_row \<Rightarrow> request_row \<Rightarrow> request_row" where
  "approved_row now user g = resolve_row now ''approved'' (jwt_name user) (Some (''Added to '' @ grp_name g))"

lemma createRule_result:
  "createRule n now gid ty v c gs = Inr (res, gs') \<Longrightarrow> res = Rule_rejected ''Rule already exists'' \<or> res = Rule_created n"
  by (auto simp: createRule_def Let_def and_then_Inr_iff split: if_splits)

lemma approveWhitelist_eq:
  assumes "request_ok db" "row_by rq_id i (req_requests db) = Some r" "rq_status r = Some ''pending''"
  shows "approveWhitelistRequest n now domain i (jwt_name user) \<lparr>rgt_id = grp_id g, rgt_name = grp_name g\<rparr> db =
    (case createRule n now (grp_id g) Whitelist domain None (req_groups db) of
       Inl e \<Rightarrow> (Inl e, db, [])
     | Inr (res, gs) \<Rightarrow>
         (Inr (res = Rule_created n, toStorageType now (approved_row now user g r)),
          \<lparr>req_groups = gs, req_requests = upd_by rq_id i (approved_row now user g) (req_requests db)\<rparr>,
          if res = Rule_created n then [WhitelistChanged (grp_id g)] else []))"
proof (cases "createRule n now (grp_id g) Whitelist domain None (req_groups db)")
  case (Inr p)
  then obtain res gs where p: "createRule n now (grp_id g) Whitelist domain None (req_groups db) = Inr (res, gs)"
    by (cases p) auto
  have "updateRequestStatus now i ''approved'' (Some (jwt_name user)) (Some (''Added to '' @ grp_name g)) (Some ''pending'')
      (db\<lparr>req_groups := gs\<rparr>) =
    (Some (toStorageType now (approved_row now user g r)),
     \<lparr>req_groups = gs, req_requests = upd_by rq_id i (approved_row now user g) (req_requests db)\<rparr>)"
    using assms updateRequestStatus_row [of "db\<lparr>req_groups := gs\<rparr>" i r "Some ''pending''"]
    by (simp add: request_ok_def requests_ok_def approved_row_def)
  then show ?thesis
    using createRule_result [OF p]
    by (auto simp: approveWhitelistRequest_def writeTransactionalCommand_def p updateStored_eq isRequestStatus_def
        publish_one simp del: queueEvent.simps)
qed (simp add: approveWhitelistRequest_def writeTransactionalCommand_def)

lemma stored_request:
  assumes "request_ok db"
  shows "getStoredRequestById now i db = Inr (map_option (toStorageType now) (row_by rq_id i (req_requests db)))"
proof (cases "row_by rq_id i (req_requests db)")
  case (Some r)
  then have "row_settled r" using assms by (auto simp: request_ok_def requests_ok_def list_all_iff dest: row_by_SomeD)
  then show ?thesis
    using Some by (auto simp: getStoredRequestById_def getRequestById_def parseOptionalStoredRequest_def
        parseStoredRequest_def toStorageType_def or_else_def row_settled_def)
qed (simp add: getStoredRequestById_def getRequestById_def parseOptionalStoredRequest_def)

lemma settled_pending: "row_settled r \<Longrightarrow> dr_status (toStorageType now r) = ''pending'' \<longleftrightarrow> rq_status r = Some ''pending''"
  by (auto simp: toStorageType_def or_else_def row_settled_def)

lemma toStorageType_keys [simp]:
  "dr_id (toStorageType now r) = rq_id r" "dr_domain (toStorageType now r) = rq_domain r"
  "dr_groupId (toStorageType now r) = rq_groupId r"
  by (simp_all add: toStorageType_def)

lemma approve_cases:
  assumes "request_ok db"
  shows "(\<exists>r g. row_by rq_id i (req_requests db) = Some r \<and> approvable ck now groupId user db r g \<and>
      approveRequest msg ck n now i groupId user db =
        (case createRule n now (grp_id g) Whitelist (normalizeManualRequestDomain (rq_domain r)) None (req_groups db) of
           Inl e \<Rightarrow> (Fail (Bad_request (toErrorMessage msg e)), db, [])
         | Inr (res, gs) \<Rightarrow>
             (Ok (toStorageType now (approved_row now user g r)),
              \<lparr>req_groups = gs, req_requests = upd_by rq_id i (approved_row now user g) (req_requests db)\<rparr>,
              if res = Rule_created n then [WhitelistChanged (grp_id g)] else []))) \<or>
    (\<nexists>r g. row_by rq_id i (req_requests db) = Some r \<and> approvable ck now groupId user db r g) \<and>
    (\<exists>e. approveRequest msg ck n now i groupId user db = (Fail e, db, []))"
proof (cases "row_by rq_id i (req_requests db)")
  case None
  then show ?thesis using assms by (simp add: approveRequest_def stored_request)
next
  case (Some r)
  have r: "row_settled r" "rq_id r = i"
    using Some assms by (auto simp: request_ok_def requests_ok_def list_all_iff dest: row_by_SomeD)
  let ?raw = "or_else groupId (rq_groupId r)"
  show ?thesis
  proof (cases "\<exists>g. approvable ck now groupId user db r g")
    case True
    then obtain g where g: "approvable ck now groupId user db r g" by blast
    then have "approveRequest msg ck n now i groupId user db =
        (case createRule n now (grp_id g) Whitelist (normalizeManualRequestDomain (rq_domain r)) None (req_groups db) of
           Inl e \<Rightarrow> (Fail (Bad_request (toErrorMessage msg e)), db, [])
         | Inr (res, gs) \<Rightarrow>
             (Ok (toStorageType now (approved_row now user g r)),
              \<lparr>req_groups = gs, req_requests = upd_by rq_id i (approved_row now user g) (req_requests db)\<rparr>,
              if res = Rule_created n then [WhitelistChanged (grp_id g)] else []))"
      using assms Some r settled_pending [OF r(1), of now] approveWhitelist_eq [OF assms Some, of n now _ user g]
      by (auto simp: approveRequest_def stored_request approvable_def resolveGroupTarget_row canApproveResolvedTarget_def
          split: sum.splits)
    with Some g show ?thesis by blast
  next
    case False
    then have "\<exists>e. approveRequest msg ck n now i groupId user db = (Fail e, db, [])"
      using assms Some settled_pending [OF r(1), of now]
      by (cases "target_row ?raw (req_groups db)")
        (auto simp: approveRequest_def stored_request approvable_def resolveGroupTarget_row canApproveResolvedTarget_def Let_def)
    with Some False show ?thesis by auto
  qed
qed

lemma approve_changes:
  assumes "approveRequest msg ck n now i groupId user db = (res, db', evs)" "request_ok db"
  shows "db' = db \<and> evs = [] \<or>
    (\<exists>r g res' gs. row_by rq_id i (req_requests db) = Some r \<and> rq_status r = Some ''pending'' \<and>
      createRule n now (grp_id g) Whitelist (normalizeManualRequestDomain (rq_domain r)) None (req_groups db) = Inr (res', gs) \<and>
      db' = \<lparr>req_groups = gs, req_requests = upd_by rq_id i (approved_row now user g) (req_requests db)\<rparr>)"
  using approve_cases [OF assms(2), of i ck now groupId user msg n]
proof (elim disjE exE conjE)
  fix r g
  assume r: "row_by rq_id i (req_requests db) = Some r" "approvable ck now groupId user db r g"
    and eq: "approveRequest msg ck n now i groupId user db =
        (case createRule n now (grp_id g) Whitelist (normalizeManualRequestDomain (rq_domain r)) None (req_groups db) of
           Inl e \<Rightarrow> (Fail (Bad_request (toErrorMessage msg e)), db, [])
         | Inr (res, gs) \<Rightarrow>
             (Ok (toStorageType now (approved_row now user g r)),
              \<lparr>req_groups = gs, req_requests = upd_by rq_id i (approved_row now user g) (req_requests db)\<rparr>,
              if res = Rule_created n then [WhitelistChanged (grp_id g)] else []))"
  show ?thesis
  proof (cases "createRule n now (grp_id g) Whitelist (normalizeManualRequestDomain (rq_domain r)) None (req_groups db)")
    case (Inr p)
    obtain res' gs where "p = (res', gs)" by (cases p)
    with Inr show ?thesis using eq r assms(1) by (auto simp: approvable_def)
  qed (use eq assms(1) in simp)
qed (use assms(1) in auto)

section \<open>Every request in every reachable state\<close>

lemma createRule_ids:
  "createRule n now gid ty v c gs = Inr (res, gs') \<Longrightarrow> map grp_id (gs_groups gs') = map grp_id (gs_groups gs)"
  by (auto simp: createRule_def Let_def and_then_Inr_iff touchGroupUpdatedAt_def upd_by_def upd_where_def
      split: if_splits dest!: insert_rules_shape)

lemma ids_only:
  assumes "map grp_id (gs_groups gs') = map grp_id (gs_groups gs)"
  shows "plain_ids gs' = plain_ids gs" "requests_ok gs' t = requests_ok gs t"
proof -
  have "grp_id ` set (gs_groups gs') = grp_id ` set (gs_groups gs)" using assms by (metis set_map)
  then show "requests_ok gs' t = requests_ok gs t" by (simp add: requests_ok_def)
  have "plain_ids gs = list_all (\<lambda>i. js_trim i = i) (map grp_id (gs_groups gs))" for gs :: group_store
    by (simp add: plain_ids_def list_all_iff)
  then show "plain_ids gs' = plain_ids gs" using assms by simp
qed

lemma svc_deleteRequest_eq: "snd (svc_deleteRequest i db) = db\<lparr>req_requests := del_by rq_id i (req_requests db)\<rparr>"
  by (simp add: svc_deleteRequest_def deleteRequest_def)

lemma drop_orphans_ok:
  assumes "requests_ok gs t"
  shows "requests_ok gs' (del_where (\<lambda>r. row_by grp_id (rq_groupId r) (gs_groups gs') = None) t)"
  using requests_ok_del [OF assms]
  by (auto simp: requests_ok_def set_del_where row_by_None_iff)

lemma request_step_ok: "request_step db db' evs \<Longrightarrow> request_ok db \<Longrightarrow> request_ok db'"
proof (induction rule: request_step.induct)
  case (create msg meta env newId now input db r1 db')
  then show ?case using svc_createRequest_cases [OF create.hyps] by (auto simp: request_ok_def)
next
  case (approve msg ck n now i g user db r2 db' evs)
  then show ?case
    using approve_changes [OF approve.hyps approve.prems]
    by (auto simp: request_ok_def ids_only [OF createRule_ids] approved_row_def
        intro: good_createRule intro!: requests_ok_resolve)
next
  case (reject now i reason user db r3 db')
  then show ?case using rejectRequest_cases [OF reject.hyps] by (auto simp: request_ok_def intro: requests_ok_resolve)
next
  case (delete i db r4 db')
  then show ?case
    using svc_deleteRequest_eq [of i db] requests_ok_del by (auto simp: request_ok_def del_by_def)
next
  case (groups db gs evs)
  then show ?case
    using group_step_good [OF groups.hyps(1)] drop_orphans_ok by (auto simp: request_ok_def drop_orphans_def)
qed

lemma request_reach_ok: "request_reach db \<Longrightarrow> request_ok db"
proof (induction rule: request_reach.induct)
  case start
  show ?case
    using service_reach_good [OF service_reach.start]
    by (simp add: request_ok_def plain_ids_def requests_ok_def distinct_key_def pairwise_apart_def)
qed (rule request_step_ok)

text \<open>In every state the request services can reach there is at most one pending request for a domain
  and a group; identifiers are unique, every request names an existing group, its status is one of
  the three, and it has a time of resolution exactly when it is not pending.\<close>
theorem pending_request_unique:
  assumes "request_reach db" "a \<in> set (req_requests db)"
  shows "rq_groupId a \<in> grp_id ` set (gs_groups (req_groups db)) \<and>
    (\<exists>st. rq_status a = Some st \<and> isRequestStatus st \<and> (st = ''pending'' \<longleftrightarrow> rq_resolvedAt a = None)) \<and>
    (\<forall>b \<in> set (req_requests db). rq_id b = rq_id a \<or>
       rq_status a = Some ''pending'' \<and> rq_status b = Some ''pending'' \<and> rq_domain b = rq_domain a \<and>
       rq_groupId b = rq_groupId a \<longrightarrow> b = a)"
proof -
  have ok: "requests_ok (req_groups db) (req_requests db)"
    using request_reach_ok [OF assms(1)] by (simp add: request_ok_def)
  have "b = a" if "b \<in> set (req_requests db)" "rq_id b = rq_id a \<or> same_pending a b" for b
    using that assms(2) ok pending_tab.apart_mem [of "req_requests db" a b] row_by_unique [of rq_id "req_requests db"]
    by (metis option.inject requests_ok_def)
  then show ?thesis
    using ok assms(2) by (auto simp: requests_ok_def list_all_iff row_settled_def same_pending_def)
qed

lemma resolve_row_shape:
  "status \<in> {''approved'', ''rejected''} \<Longrightarrow>
   \<exists>st who at note'. st \<in> {''approved'', ''rejected''} \<and>
     resolve_row now status rv rmk r =
       r\<lparr>rq_status := Some st, rq_resolvedBy := Some who, rq_resolvedAt := Some at, rq_resolutionNote := note'\<rparr>"
  unfolding resolve_row_def by blast

lemma row_by_resolved:
  assumes "row_by rq_id j t = Some r0" "rq_status r0 = Some ''pending''" "status \<in> {''approved'', ''rejected''}"
    and "row_by rq_id i t = Some r" "row_by rq_id i (upd_by rq_id j (resolve_row now status rv rmk) t) = Some r'"
  shows "r' = r \<or> rq_status r = Some ''pending'' \<and>
    (\<exists>st who at note. st \<in> {''approved'', ''rejected''} \<and>
       r' = r\<lparr>rq_status := Some st, rq_resolvedBy := Some who, rq_resolvedAt := Some at, rq_resolutionNote := note\<rparr>)"
proof -
  have "rq_id (resolve_row now status rv rmk x) = rq_id x" for x by (simp add: resolve_row_def)
  then have "r' = r \<or> r = r0 \<and> r' = resolve_row now status rv rmk r"
    using assms(1,4,5) by (auto simp: row_by_upd split: if_splits)
  then show ?thesis using resolve_row_shape [OF assms(3), of now rv rmk r] assms(2) by metis
qed

text \<open>C36: a decision is final.  Whatever service is called, a request that stays in the table either is
  unchanged, or was pending and is now approved or rejected, with the time and the reviewer recorded
  and everything the requester gave kept.\<close>
theorem request_decision_final:
  assumes "request_reach db" "request_step db db' evs"
    and "row_by rq_id i (req_requests db) = Some r" "row_by rq_id i (req_requests db') = Some r'"
  shows "r' = r \<or> rq_status r = Some ''pending'' \<and>
    (\<exists>st who at note. st \<in> {''approved'', ''rejected''} \<and>
       r' = r\<lparr>rq_status := Some st, rq_resolvedBy := Some who, rq_resolvedAt := Some at, rq_resolutionNote := note\<rparr>)"
  using assms(2,3,4) request_reach_ok [OF assms(1)]
proof (induction rule: request_step.induct)
  case (create msg meta env newId now input db r1 db')
  then show ?case using svc_createRequest_cases [OF create.hyps create.prems(3)] by (auto simp: row_by_ins)
next
  case (approve msg ck n now j g user db r2 db' evs)
  then show ?case
    using approve_changes [OF approve.hyps approve.prems(3)] row_by_resolved [of j "req_requests db" _ "''approved''" i r now _ _ r']
    by (auto simp: approved_row_def)
next
  case (reject now j reason user db r3 db')
  then show ?case
    using rejectRequest_cases [OF reject.hyps reject.prems(3)] row_by_resolved [of j "req_requests db" _ "''rejected''" i r now _ _ r']
    by auto
next
  case (delete j db r4 db')
  then show ?case using svc_deleteRequest_eq [of j db] by (auto simp: row_by_del split: if_splits)
next
  case (groups db gs evs)
  then show ?case
    using row_by_del_where [of rq_id "req_requests db"]
    by (auto simp: drop_orphans_def request_ok_def requests_ok_def)
qed

text \<open>Approval of a request, in full.  It succeeds exactly when the request is pending, the target group
  (the one named by the reviewer, else the request's) exists, the reviewer may approve for it, and the
  domain is not blocked in it unless the reviewer is an administrator.  It then approves the request, leaves all
  other requests alone, and the target group has a whitelist rule for the root domain; the group's change is
  announced unless the rule was there before.  Otherwise nothing changes and nothing is announced.\<close>
theorem approveRequest_correct:
  assumes "request_reach db" "n \<notin> rul_id ` set (gs_rules (req_groups db))"
    and "approveRequest msg ck n now i groupId user db = (res, db', evs)"
  shows "if \<exists>r g. row_by rq_id i (req_requests db) = Some r \<and> approvable ck now groupId user db r g
    then \<exists>r g. row_by rq_id i (req_requests db) = Some r \<and> approvable ck now groupId user db r g \<and>
      res = Ok (toStorageType now (approved_row now user g r)) \<and>
      (\<forall>j. row_by rq_id j (req_requests db') =
         (if j = i then Some (approved_row now user g r) else row_by rq_id j (req_requests db))) \<and>
      listed_rule (grp_id g) (normalizeManualRequestDomain (rq_domain r)) (req_groups db') \<and>
      evs = (if listed_rule (grp_id g) (normalizeManualRequestDomain (rq_domain r)) (req_groups db) then []
             else [WhitelistChanged (grp_id g)])
    else (\<exists>e. res = Fail e) \<and> db' = db \<and> evs = []"
proof -
  have ok: "request_ok db" using assms(1) by (rule request_reach_ok)
  show ?thesis
  proof (cases "\<exists>r g. row_by rq_id i (req_requests db) = Some r \<and> approvable ck now groupId user db r g")
    case True
    with approve_cases [OF ok, of i ck now groupId user msg n] obtain r g where
      r: "row_by rq_id i (req_requests db) = Some r" "approvable ck now groupId user db r g"
      and eq: "approveRequest msg ck n now i groupId user db =
        (case createRule n now (grp_id g) Whitelist (normalizeManualRequestDomain (rq_domain r)) None (req_groups db) of
           Inl e \<Rightarrow> (Fail (Bad_request (toErrorMessage msg e)), db, [])
         | Inr (res, gs) \<Rightarrow>
             (Ok (toStorageType now (approved_row now user g r)),
              \<lparr>req_groups = gs, req_requests = upd_by rq_id i (approved_row now user g) (req_requests db)\<rparr>,
              if res = Rule_created n then [WhitelistChanged (grp_id g)] else []))"
      by blast
    have "g \<in> set (gs_groups (req_groups db))" using r(2) target_row_mem by (auto simp: approvable_def)
    then obtain gs where "createRule n now (grp_id g) Whitelist (normalizeManualRequestDomain (rq_domain r)) None (req_groups db) =
        Inr (if listed_rule (grp_id g) (normalizeManualRequestDomain (rq_domain r)) (req_groups db)
             then Rule_rejected ''Rule already exists'' else Rule_created n, gs)"
      and "listed_rule (grp_id g) (normalizeManualRequestDomain (rq_domain r)) gs"
      using createRule_listed [of "req_groups db" "grp_id g" n] assms(2) ok
      by (metis good_store_def image_eqI request_ok_def)
    moreover have "rq_id (approved_row now user g x) = rq_id x" for x by (simp add: approved_row_def resolve_row_def)
    ultimately show ?thesis
      using True r eq assms(3) by (auto simp: row_by_upd)
  next
    case False
    then show ?thesis using approve_cases [OF ok, of i ck now groupId user msg n] assms(3) by auto
  qed
qed

section \<open>Examples\<close>

definition demo_ask :: request_creation_input where
  "demo_ask = \<lparr>rci_clientVersion = None, rci_domain = ''www.example.com'', rci_errorType = None, rci_groupId = Some ''g1'',
     rci_machineHostname = None, rci_originHost = None, rci_originPage = None, rci_reason = None,
     rci_requesterEmail = None, rci_source = None\<rparr>"

definition demo_msg :: "db_error \<Rightarrow> string" where
  "demo_msg e = []"

definition demo_desk :: request_db where
  "demo_desk = drop_orphans demo_before \<lparr>req_groups = \<lparr>gs_groups = [], gs_rules = []\<rparr>, req_requests = []\<rparr>"

definition demo_asked :: request_db where
  "demo_asked = snd (svc_createRequest demo_msg True None ''req1'' 5 demo_ask demo_desk)"

definition demo_approval :: "(domain_request, request_db) svc_result" where
  "demo_approval = approveRequest demo_msg code_unit_key ''r1'' 9 ''req1'' None demo_token demo_asked"

lemma demo_desk_reach: "request_reach demo_desk"
proof -
  have "plain_ids demo_before" by code_simp
  then show ?thesis
    unfolding demo_desk_def
    using group_step.create_group [OF triple [of "svc_createGroup ''g1'' 0 demo_create \<lparr>gs_groups = [], gs_rules = []\<rparr>"]]
    by (intro request_reach.step [OF request_reach.start] request_step.groups) (simp_all add: demo_before_def)
qed

lemma demo_asked_reach: "request_reach demo_asked"
  unfolding demo_asked_def
  by (rule request_reach.step [OF demo_desk_reach request_step.create [OF surjective_pairing]])

lemma demo_asked_rows:
  "map (\<lambda>r. (rq_id r, rq_domain r, rq_status r)) (req_requests demo_asked) = [(''req1'', ''example.com'', Some ''pending'')]"
  by code_simp

lemma demo_asked_row: "\<exists>r. row_by rq_id ''req1'' (req_requests demo_asked) = Some r \<and> rq_status r = Some ''pending''"
proof -
  obtain r where "req_requests demo_asked = [r]" "rq_id r = ''req1''" "rq_status r = Some ''pending''"
    using demo_asked_rows by auto
  then show ?thesis by (simp add: row_by_def sel_first_def)
qed

theorem pending_request_unique_witness:
  "\<exists>a \<in> set (req_requests demo_asked). rq_groupId a \<in> grp_id ` set (gs_groups (req_groups demo_asked)) \<and> rq_resolvedAt a = None"
proof -
  from demo_asked_row obtain r where r: "r \<in> set (req_requests demo_asked)" "rq_status r = Some ''pending''"
    using row_by_SomeD by metis
  with pending_request_unique [OF demo_asked_reach r(1)] show ?thesis by auto
qed

theorem approveRequest_correct_witness:
  "(\<exists>d. fst demo_approval = Ok d) \<and> snd (snd demo_approval) = [WhitelistChanged ''g1'']"
proof -
  have "''r1'' \<notin> rul_id ` set (gs_rules (req_groups demo_asked))" by code_simp
  from approveRequest_correct [OF demo_asked_reach this
      triple [of "approveRequest demo_msg code_unit_key ''r1'' 9 ''req1'' None demo_token demo_asked"]]
  have "(\<exists>e. fst demo_approval = Fail e) \<or> ((\<exists>d. fst demo_approval = Ok d) \<and> length (snd (snd demo_approval)) \<le> 1)"
    unfolding demo_approval_def by (auto split: if_splits)
  moreover have "case fst demo_approval of Ok d \<Rightarrow> dr_status d = ''approved'' | _ \<Rightarrow> False"
    "snd (snd demo_approval) = [WhitelistChanged ''g1'']"
    by code_simp+
  ultimately show ?thesis by auto
qed

theorem request_decision_final_witness:
  "\<exists>r r'. row_by rq_id ''req1'' (req_requests demo_asked) = Some r \<and>
     row_by rq_id ''req1'' (req_requests (fst (snd demo_approval))) = Some r' \<and> r' \<noteq> r \<and>
     rq_status r' \<in> {Some ''approved'', Some ''rejected''}"
proof -
  have "request_step demo_asked (fst (snd demo_approval)) (snd (snd demo_approval))"
    unfolding demo_approval_def by (rule request_step.approve [OF triple])
  note final = request_decision_final [OF demo_asked_reach this, of "''req1''"]
  obtain r where r: "row_by rq_id ''req1'' (req_requests demo_asked) = Some r" "rq_status r = Some ''pending''"
    using demo_asked_row by blast
  have "map (\<lambda>r. (rq_id r, rq_status r)) (req_requests (fst (snd demo_approval))) = [(''req1'', Some ''approved'')]"
    by code_simp
  then obtain r' where "req_requests (fst (snd demo_approval)) = [r']" "rq_id r' = ''req1''" "rq_status r' = Some ''approved''"
    by auto
  then have r': "row_by rq_id ''req1'' (req_requests (fst (snd demo_approval))) = Some r'" "rq_status r' = Some ''approved''"
    by (simp_all add: row_by_def sel_first_def)
  then have "r' \<noteq> r" using r by auto
  with final [OF r(1) r'(1)] r r' show ?thesis by auto
qed

end
