(* ===== verification/Schedule_Services.thy ===== *)
theory Schedule_Services
  imports Access_Control
begin

text \<open>
  What teachers and administrators do with schedules: \<open>api/src/services/schedule-command-shared.ts\<close>,
  \<open>schedule-command-create.service.ts\<close>, \<open>schedule-command-update.service.ts\<close>, \<open>schedule-query.service.ts\<close>,
  \<open>schedule-service-shared.ts\<close> and \<open>withQueuedEvents\<close> of \<open>domain-events.service.ts\<close>.

  A command gives its result, the tables afterwards and the events it publishes.  \<open>parse_date\<close> is what
  \<open>new Date(text)\<close> makes of a text (\<open>None\<close> when the date is invalid), \<open>toISO\<close> is \<open>toISOString\<close> and \<open>msg\<close> gives
  the text of an error of the database.  One command runs at one instant \<open>now\<close>.  \<open>listed_can_edit\<close> relates what a user is
  shown to what the commands let him change; \<open>schedules_of_others_kept\<close> bounds what a teacher can change at all.
\<close>

section \<open>Queued events\<close>

type_synonym ('s, 'e, 'r) queued_operation = "'s \<Rightarrow> event_queue \<Rightarrow> ('e + 'r) \<times> 's \<times> event_queue"

definition withQueuedEvents ::
  "('s, 'e, 'r) queued_operation \<Rightarrow> 's \<Rightarrow> ('e + 'r) \<times> 's \<times> domain_event list" where
  "withQueuedEvents operation s =
     (case operation s empty_queue of
        (Inl e, s', _) \<Rightarrow> (Inl e, s', [])
      | (Inr r, s', q) \<Rightarrow> (Inr r, s', normalizeEvents q))"

text \<open>A change of the tables, then \<open>publishClassroomChanged\<close> for the classroom its result calls for, if any.\<close>

definition stored_then_told ::
  "('s \<Rightarrow> ('e + 'r) \<times> 's) \<Rightarrow> ('r \<Rightarrow> string option) \<Rightarrow> ('s, 'e, 'r) queued_operation" where
  "stored_then_told change tell s q =
     (case change s of
        (Inl e, s') \<Rightarrow> (Inl e, s', q)
      | (Inr r, s') \<Rightarrow> (Inr r, s', case tell r of Some c \<Rightarrow> queueEvent (ClassroomChanged c None) q | None \<Rightarrow> q))"

section \<open>Views\<close>

record weekly_view =
  wv_id :: string
  wv_classroomId :: string
  wv_dayOfWeek :: int
  wv_startTime :: string
  wv_endTime :: string
  wv_groupId :: string
  wv_teacherId :: string
  wv_recurrence :: string
  wv_createdAt :: string
  wv_updatedAt :: "string option"

record one_off_view =
  ov_id :: string
  ov_classroomId :: string
  ov_startAt :: string
  ov_endAt :: string
  ov_groupId :: string
  ov_teacherId :: string
  ov_createdAt :: string
  ov_updatedAt :: "string option"

definition normalizeTime :: "string \<Rightarrow> string" where
  "normalizeTime time =
     (case split_on CHR '':'' time of hours # minutes # _ \<Rightarrow> hours @ '':'' @ minutes | _ \<Rightarrow> time)"

definition mapToWeeklySchedule :: "(int \<Rightarrow> string) \<Rightarrow> int \<Rightarrow> schedule_row \<Rightarrow> string + weekly_view" where
  "mapToWeeklySchedule toISO now s =
     (case (sch_dayOfWeek s, sch_startTime s, sch_endTime s) of
        (Some d, Some b, Some e) \<Rightarrow>
          Inr \<lparr>wv_id = sch_id s, wv_classroomId = sch_classroomId s, wv_dayOfWeek = d,
               wv_startTime = normalizeTime (time_text b), wv_endTime = normalizeTime (time_text e),
               wv_groupId = sch_groupId s, wv_teacherId = sch_teacherId s,
               wv_recurrence = or_else (sch_recurrence s) ''weekly'',
               wv_createdAt = toISO (or_else (sch_createdAt s) now), wv_updatedAt = map_option toISO (sch_updatedAt s)\<rparr>
      | _ \<Rightarrow> Inl ''Weekly schedule is missing required fields'')"

definition mapToOneOffSchedule :: "(int \<Rightarrow> string) \<Rightarrow> int \<Rightarrow> schedule_row \<Rightarrow> string + one_off_view" where
  "mapToOneOffSchedule toISO now s =
     (case (sch_startAt s, sch_endAt s) of
        (Some b, Some e) \<Rightarrow>
          Inr \<lparr>ov_id = sch_id s, ov_classroomId = sch_classroomId s, ov_startAt = toISO b, ov_endAt = toISO e,
               ov_groupId = sch_groupId s, ov_teacherId = sch_teacherId s,
               ov_createdAt = toISO (or_else (sch_createdAt s) now), ov_updatedAt = map_option toISO (sch_updatedAt s)\<rparr>
      | _ \<Rightarrow> Inl ''One-off schedule is missing required fields'')"

section \<open>Checks shared by the commands\<close>

definition conflictResult :: service_error where
  "conflictResult = Conflict ''This time slot is already reserved''"

datatype schedule_failure = Bad_schedule schedule_error | Refused db_error

fun schedule_message :: "(db_error \<Rightarrow> string) \<Rightarrow> schedule_failure \<Rightarrow> string" where
  "schedule_message msg (Bad_schedule (Schedule_error m)) = m"
| "schedule_message msg (Bad_schedule (Schedule_conflict _)) = ''Schedule conflict''"
| "schedule_message msg (Refused e) = msg e"

definition schedule_caught :: "string \<Rightarrow> service_error" where
  "schedule_caught message = (if message = ''Schedule conflict'' then conflictResult else Bad_request message)"

definition ensureScheduleCreationAccess ::
  "(int \<Rightarrow> int) \<Rightarrow> jwt_payload \<Rightarrow> string \<Rightarrow> string \<Rightarrow> int \<Rightarrow> school_db \<Rightarrow> service_error + unit" where
  "ensureScheduleCreationAccess tz user classroomId groupId now db =
     and_then (ensureUserCanAccessClassroom tz user classroomId now db) (\<lambda>_.
       if \<not> isAdminToken (Some user) \<and> \<not> canApproveGroup (Some user) groupId
       then Inl (Forbidden ''You can only create schedules for your assigned groups'') else Inr ())"

definition loadManagedSchedule ::
  "(int \<Rightarrow> int) \<Rightarrow> string \<Rightarrow> jwt_payload \<Rightarrow> int \<Rightarrow> school_db \<Rightarrow> service_error + schedule_row" where
  "loadManagedSchedule tz i user now db =
     (case getScheduleById i (db_schedules db) of
        None \<Rightarrow> Inl (Not_found ''Schedule not found'')
      | Some schedule \<Rightarrow>
          and_then (ensureUserCanAccessClassroom tz user (sch_classroomId schedule) now db) (\<lambda>_.
            if sch_teacherId schedule \<noteq> jwt_sub user \<and> \<not> isAdminToken (Some user)
            then Inl (Forbidden ''You can only manage your own schedules'') else Inr schedule))"

definition validateGroupChange :: "jwt_payload \<Rightarrow> string \<Rightarrow> string option \<Rightarrow> service_error option" where
  "validateGroupChange user currentGroupId nextGroupId =
     (case nextGroupId of
        None \<Rightarrow> None
      | Some g \<Rightarrow>
          if js_trim g = [] then Some (Bad_request ''groupId cannot be empty'')
          else if g \<noteq> currentGroupId \<and> \<not> isAdminToken (Some user) \<and> \<not> canApproveGroup (Some user) g
          then Some (Forbidden ''You can only use your assigned groups'')
          else None)"

record one_off_form =
  of_startAt :: "string option"
  of_endAt :: "string option"
  of_groupId :: "string option"

definition parseOneOffUpdateInput ::
  "(string \<Rightarrow> int option) \<Rightarrow> one_off_form \<Rightarrow> service_error + update_one_off_input" where
  "parseOneOffUpdateInput parse_date input =
     (if of_startAt input \<noteq> None \<and> parse_date (the (of_startAt input)) = None
      then Inl (Bad_request ''startAt must be a valid date'')
      else if of_endAt input \<noteq> None \<and> parse_date (the (of_endAt input)) = None
      then Inl (Bad_request ''endAt must be a valid date'')
      else Inr \<lparr>uoi_startAt = map_option parse_date (of_startAt input), uoi_endAt = map_option parse_date (of_endAt input),
                uoi_groupId = of_groupId input\<rparr>)"

section \<open>Commands\<close>

type_synonym 'a school_result = "(service_error + 'a) \<times> school_db \<times> domain_event list"

text \<open>The database accepts a timetable when its keys are distinct and refer to existing rows.\<close>

definition store_schedules ::
  "schedule_error + 'r \<times> schedule_row table \<Rightarrow> school_db \<Rightarrow> (schedule_failure + 'r) \<times> school_db" where
  "store_schedules res db =
     (case res of
        Inl e \<Rightarrow> (Inl (Bad_schedule e), db)
      | Inr (r, t) \<Rightarrow>
          if \<not> distinct_key sch_id t then (Inl (Refused Unique_violation), db)
          else if \<not> list_all (schedule_refs db) t then (Inl (Refused Foreign_key_violation), db)
          else (Inr r, db\<lparr>db_schedules := t\<rparr>))"

text \<open>The end of every command: an error that was thrown becomes a result, also one of the view.\<close>

definition schedule_reply ::
  "(db_error \<Rightarrow> string) \<Rightarrow> ('r \<Rightarrow> string + 'a) \<Rightarrow> (schedule_failure + 'r) \<times> school_db \<times> domain_event list \<Rightarrow> 'a school_result" where
  "schedule_reply msg view res =
     (case res of (r, db, evs) \<Rightarrow>
        (case r of
           Inl e \<Rightarrow> Inl (schedule_caught (schedule_message msg e))
         | Inr s \<Rightarrow> (case view s of Inl m \<Rightarrow> Inl (schedule_caught m) | Inr v \<Rightarrow> Inr v), db, evs))"

definition schedule_found_reply ::
  "(db_error \<Rightarrow> string) \<Rightarrow> (schedule_row \<Rightarrow> string + 'a) \<Rightarrow>
   (schedule_failure + schedule_row option) \<times> school_db \<times> domain_event list \<Rightarrow> 'a school_result" where
  "schedule_found_reply msg view res =
     (case res of
        (Inr None, db, evs) \<Rightarrow> (Inl (Not_found ''Schedule not found after update''), db, evs)
      | (Inr (Some s), db, evs) \<Rightarrow> schedule_reply msg view (Inr s, db, evs)
      | (Inl e, db, evs) \<Rightarrow> schedule_reply msg view (Inl e, db, evs))"

record schedule_form =
  sf_classroomId :: string
  sf_groupId :: string
  sf_dayOfWeek :: int
  sf_startTime :: string
  sf_endTime :: string

definition svc_createSchedule ::
  "(int \<Rightarrow> string) \<Rightarrow> (db_error \<Rightarrow> string) \<Rightarrow> (int \<Rightarrow> int) \<Rightarrow> string \<Rightarrow> int \<Rightarrow> schedule_form \<Rightarrow> jwt_payload \<Rightarrow>
   school_db \<Rightarrow> weekly_view school_result" where
  "svc_createSchedule toISO msg tz newId now input user db =
     (case ensureScheduleCreationAccess tz user (sf_classroomId input) (sf_groupId input) now db of
        Inl e \<Rightarrow> (Inl e, db, [])
      | Inr _ \<Rightarrow>
          schedule_reply msg (mapToWeeklySchedule toISO now)
            (withQueuedEvents (stored_then_told
               (\<lambda>db. store_schedules (createSchedule newId now
                   \<lparr>csi_classroomId = sf_classroomId input, csi_teacherId = jwt_sub user, csi_groupId = sf_groupId input,
                    csi_dayOfWeek = sf_dayOfWeek input, csi_startTime = sf_startTime input, csi_endTime = sf_endTime input\<rparr>
                   (db_schedules db)) db)
               (\<lambda>_. Some (sf_classroomId input))) db))"

record one_off_create_form =
  ocf_classroomId :: string
  ocf_groupId :: string
  ocf_startAt :: string
  ocf_endAt :: string

definition svc_createOneOffSchedule ::
  "(string \<Rightarrow> int option) \<Rightarrow> (int \<Rightarrow> string) \<Rightarrow> (db_error \<Rightarrow> string) \<Rightarrow> (int \<Rightarrow> int) \<Rightarrow> string \<Rightarrow> int \<Rightarrow> one_off_create_form \<Rightarrow>
   jwt_payload \<Rightarrow> school_db \<Rightarrow> one_off_view school_result" where
  "svc_createOneOffSchedule parse_date toISO msg tz newId now input user db =
     (case ensureScheduleCreationAccess tz user (ocf_classroomId input) (ocf_groupId input) now db of
        Inl e \<Rightarrow> (Inl e, db, [])
      | Inr _ \<Rightarrow>
          if parse_date (ocf_startAt input) = None then (Inl (Bad_request ''startAt must be a valid date''), db, [])
          else if parse_date (ocf_endAt input) = None then (Inl (Bad_request ''endAt must be a valid date''), db, [])
          else
            schedule_reply msg (mapToOneOffSchedule toISO now)
              (withQueuedEvents (stored_then_told
                 (\<lambda>db. store_schedules (createOneOffSchedule newId now
                     \<lparr>coi_classroomId = ocf_classroomId input, coi_teacherId = jwt_sub user, coi_groupId = ocf_groupId input,
                      coi_startAt = parse_date (ocf_startAt input), coi_endAt = parse_date (ocf_endAt input)\<rparr>
                     (db_schedules db)) db)
                 (\<lambda>_. Some (ocf_classroomId input))) db))"

definition svc_updateSchedule ::
  "(int \<Rightarrow> string) \<Rightarrow> (db_error \<Rightarrow> string) \<Rightarrow> (int \<Rightarrow> int) \<Rightarrow> int \<Rightarrow> string \<Rightarrow> update_schedule_input \<Rightarrow> jwt_payload \<Rightarrow>
   school_db \<Rightarrow> weekly_view school_result" where
  "svc_updateSchedule toISO msg tz now i input user db =
     (case loadManagedSchedule tz i user now db of
        Inl e \<Rightarrow> (Inl e, db, [])
      | Inr loaded \<Rightarrow>
          (case validateGroupChange user (sch_groupId loaded) (usi_groupId input) of
             Some e \<Rightarrow> (Inl e, db, [])
           | None \<Rightarrow>
               schedule_found_reply msg (mapToWeeklySchedule toISO now)
                 (withQueuedEvents (stored_then_told
                    (\<lambda>db. store_schedules (updateSchedule i input (db_schedules db)) db)
                    (map_option (\<lambda>_. sch_classroomId loaded))) db)))"

definition svc_updateOneOffSchedule ::
  "(string \<Rightarrow> int option) \<Rightarrow> (int \<Rightarrow> string) \<Rightarrow> (db_error \<Rightarrow> string) \<Rightarrow> (int \<Rightarrow> int) \<Rightarrow> int \<Rightarrow> string \<Rightarrow> one_off_form \<Rightarrow>
   jwt_payload \<Rightarrow> school_db \<Rightarrow> one_off_view school_result" where
  "svc_updateOneOffSchedule parse_date toISO msg tz now i input user db =
     (case loadManagedSchedule tz i user now db of
        Inl e \<Rightarrow> (Inl e, db, [])
      | Inr loaded \<Rightarrow>
          if sch_recurrence loaded \<noteq> Some ''one_off'' then (Inl (Bad_request ''Schedule is not one-off''), db, [])
          else (case validateGroupChange user (sch_groupId loaded) (of_groupId input) of
             Some e \<Rightarrow> (Inl e, db, [])
           | None \<Rightarrow>
               (case parseOneOffUpdateInput parse_date input of
                  Inl e \<Rightarrow> (Inl e, db, [])
                | Inr updates \<Rightarrow>
                    schedule_found_reply msg (mapToOneOffSchedule toISO now)
                      (withQueuedEvents (stored_then_told
                         (\<lambda>db. store_schedules (updateOneOffSchedule now i updates (db_schedules db)) db)
                         (map_option (\<lambda>_. sch_classroomId loaded))) db))))"

text \<open>The exemptions of a schedule go with it.\<close>

definition svc_deleteSchedule ::
  "(int \<Rightarrow> int) \<Rightarrow> int \<Rightarrow> string \<Rightarrow> jwt_payload \<Rightarrow> school_db \<Rightarrow> unit school_result" where
  "svc_deleteSchedule tz now i user db =
     (case loadManagedSchedule tz i user now db of
        Inl e \<Rightarrow> (Inl e, db, [])
      | Inr loaded \<Rightarrow>
          withQueuedEvents (stored_then_told (\<lambda>db. (Inr (), drop_schedules (\<lambda>r. sch_id r = i) db))
            (\<lambda>_. Some (sch_classroomId loaded))) db)"

section \<open>Queries\<close>

fun collect :: "('a \<Rightarrow> 'e + 'b) \<Rightarrow> 'a list \<Rightarrow> 'e + 'b list" where
  "collect f [] = Inr []"
| "collect f (x # xs) = and_then (f x) (\<lambda>y. and_then (collect f xs) (\<lambda>ys. Inr (y # ys)))"

record 'v permitted =
  pv_view :: 'v
  pv_isMine :: bool
  pv_canEdit :: bool

definition with_permissions ::
  "(schedule_row \<Rightarrow> string + 'v) \<Rightarrow> jwt_payload \<Rightarrow> schedule_row \<Rightarrow> string + 'v permitted" where
  "with_permissions view user s =
     and_then (view s) (\<lambda>v. Inr \<lparr>pv_view = v, pv_isMine = (sch_teacherId s = jwt_sub user),
       pv_canEdit = (sch_teacherId s = jwt_sub user \<or> isAdminToken (Some user))\<rparr>)"

record classroom_schedules =
  csr_id :: string
  csr_name :: string
  csr_displayName :: string
  csr_schedules :: "weekly_view permitted list"
  csr_oneOffSchedules :: "one_off_view permitted list"

definition svc_getSchedulesByClassroom ::
  "(int \<Rightarrow> string) \<Rightarrow> (int \<Rightarrow> int) \<Rightarrow> int \<Rightarrow> string \<Rightarrow> jwt_payload \<Rightarrow> school_db \<Rightarrow> classroom_schedules outcome" where
  "svc_getSchedulesByClassroom toISO tz now classroomId user db =
     (case ensureUserCanAccessClassroom tz user classroomId now db of
        Inl e \<Rightarrow> Fail e
      | Inr access \<Rightarrow>
          (case collect (with_permissions (mapToWeeklySchedule toISO now) user)
                  (getSchedulesByClassroom classroomId (db_schedules db)) of
             Inl m \<Rightarrow> Throws (App_error m)
           | Inr weekly \<Rightarrow>
               (case collect (with_permissions (mapToOneOffSchedule toISO now) user)
                       (getOneOffSchedulesByClassroom classroomId (db_schedules db)) of
                  Inl m \<Rightarrow> Throws (App_error m)
                | Inr oneOff \<Rightarrow>
                    Ok \<lparr>csr_id = asc_id access, csr_name = asc_name access, csr_displayName = asc_displayName access,
                        csr_schedules = weekly, csr_oneOffSchedules = oneOff\<rparr>)))"

datatype schedule_view = Weekly_schedule weekly_view | One_off_schedule one_off_view

definition svc_getCurrentSchedule ::
  "(int \<Rightarrow> string) \<Rightarrow> (int \<Rightarrow> int) \<Rightarrow> int \<Rightarrow> string \<Rightarrow> school_db \<Rightarrow> string + schedule_view option" where
  "svc_getCurrentSchedule toISO tz now classroomId db =
     (case getCurrentSchedule tz classroomId now (db_schedules db) of
        None \<Rightarrow> Inr None
      | Some s \<Rightarrow>
          if sch_recurrence s = Some ''one_off''
          then and_then (mapToOneOffSchedule toISO now s) (\<lambda>v. Inr (Some (One_off_schedule v)))
          else and_then (mapToWeeklySchedule toISO now s) (\<lambda>v. Inr (Some (Weekly_schedule v))))"

definition getCurrentScheduleForUser ::
  "(int \<Rightarrow> string) \<Rightarrow> (int \<Rightarrow> int) \<Rightarrow> int \<Rightarrow> string \<Rightarrow> jwt_payload \<Rightarrow> school_db \<Rightarrow> schedule_view option outcome" where
  "getCurrentScheduleForUser toISO tz now classroomId user db =
     (case ensureUserCanAccessClassroom tz user classroomId now db of
        Inl e \<Rightarrow> Fail e
      | Inr _ \<Rightarrow> (case svc_getCurrentSchedule toISO tz now classroomId db of Inl m \<Rightarrow> Throws (App_error m) | Inr v \<Rightarrow> Ok v))"

definition svc_getSchedulesByTeacher ::
  "(int \<Rightarrow> string) \<Rightarrow> int \<Rightarrow> string \<Rightarrow> school_db \<Rightarrow> string + weekly_view list" where
  "svc_getSchedulesByTeacher toISO now teacherId db =
     collect (mapToWeeklySchedule toISO now) (getSchedulesByTeacher teacherId (db_schedules db))"

section \<open>What a command does to the timetable\<close>

lemma publish_classroom_one: "normalizeEvents (queueEvent (ClassroomChanged k now) empty_queue) = [ClassroomChanged k now]"
  by (simp add: normalizeEvents_def event_at_def empty_queue_def starts_with_def)

lemma told:
  "withQueuedEvents (stored_then_told change tell) s =
     (case change s of
        (Inl e, s') \<Rightarrow> (Inl e, s', [])
      | (Inr r, s') \<Rightarrow> (Inr r, s', case tell r of Some c \<Rightarrow> [ClassroomChanged c None] | None \<Rightarrow> []))"
  by (auto simp: withQueuedEvents_def stored_then_told_def publish_classroom_one simp del: queueEvent.simps
      split: prod.split sum.split option.split)

text \<open>
  A change of the timetable of one classroom that its user may make: he has access to the classroom; what he adds is his
  and under a group he may use; what he changes or removes is his, or he is an administrator.
\<close>

definition may_manage :: "(int \<Rightarrow> int) \<Rightarrow> int \<Rightarrow> jwt_payload \<Rightarrow> school_db \<Rightarrow> schedule_row \<Rightarrow> bool" where
  "may_manage tz now user db r \<longleftrightarrow>
     (\<exists>a. ensureUserCanAccessClassroom tz user (sch_classroomId r) now db = Inr a) \<and>
     (sch_teacherId r = jwt_sub user \<or> isAdminToken (Some user))"

inductive schedule_edit :: "(int \<Rightarrow> int) \<Rightarrow> int \<Rightarrow> jwt_payload \<Rightarrow> string \<Rightarrow> school_db \<Rightarrow> school_db \<Rightarrow> bool" for tz now user where
  add: "getScheduleById (sch_id r) (db_schedules db) = None \<Longrightarrow> may_manage tz now user db r \<Longrightarrow> sch_teacherId r = jwt_sub user \<Longrightarrow>
    canApproveGroup (Some user) (sch_groupId r) \<Longrightarrow>
    schedule_edit tz now user (sch_classroomId r) db (db\<lparr>db_schedules := ins_row r (db_schedules db)\<rparr>)"
| change: "getScheduleById (sch_id r) (db_schedules db) = Some r \<Longrightarrow> may_manage tz now user db r \<Longrightarrow> sch_id r' = sch_id r \<Longrightarrow>
    sch_classroomId r' = sch_classroomId r \<Longrightarrow> sch_teacherId r' = sch_teacherId r \<Longrightarrow>
    sch_groupId r' = sch_groupId r \<or> canApproveGroup (Some user) (sch_groupId r') \<Longrightarrow>
    schedule_edit tz now user (sch_classroomId r) db (db\<lparr>db_schedules := upd_by sch_id (sch_id r) (\<lambda>_. r') (db_schedules db)\<rparr>)"
| remove: "getScheduleById (sch_id r) (db_schedules db) = Some r \<Longrightarrow> may_manage tz now user db r \<Longrightarrow>
    schedule_edit tz now user (sch_classroomId r) db (drop_schedules (\<lambda>x. sch_id x = sch_id r) db)"

inductive schedule_command ::
  "(int \<Rightarrow> int) \<Rightarrow> int \<Rightarrow> jwt_payload \<Rightarrow> school_db \<Rightarrow> bool \<Rightarrow> school_db \<Rightarrow> domain_event list \<Rightarrow> bool" for tz now user db where
  create: "svc_createSchedule toISO msg tz newId now form user db = (r1, db', evs) \<Longrightarrow>
    schedule_command tz now user db (\<not> isl r1) db' evs"
| create_one_off: "svc_createOneOffSchedule parse_date toISO msg tz newId now oform user db = (r2, db', evs) \<Longrightarrow>
    schedule_command tz now user db (\<not> isl r2) db' evs"
| update: "svc_updateSchedule toISO msg tz now i input user db = (r1, db', evs) \<Longrightarrow>
    schedule_command tz now user db (\<not> isl r1) db' evs"
| update_one_off: "svc_updateOneOffSchedule parse_date toISO msg tz now i oinput user db = (r2, db', evs) \<Longrightarrow>
    schedule_command tz now user db (\<not> isl r2) db' evs"
| delete: "svc_deleteSchedule tz now i user db = (r3, db', evs) \<Longrightarrow> schedule_command tz now user db (\<not> isl r3) db' evs"

lemma admin_approves: "isAdminToken (Some user) \<Longrightarrow> canApproveGroup (Some user) g"
  by (auto simp: isAdminToken_def canApproveGroup_def split: option.splits)

lemma creation_access:
  "ensureScheduleCreationAccess tz user k g now db = Inr u \<Longrightarrow>
   (\<exists>a. ensureUserCanAccessClassroom tz user k now db = Inr a) \<and> canApproveGroup (Some user) g"
  by (auto simp: ensureScheduleCreationAccess_def and_then_Inr_iff dest: admin_approves split: if_splits)

lemma loaded_managed:
  "loadManagedSchedule tz i user now db = Inr s \<longleftrightarrow> getScheduleById i (db_schedules db) = Some s \<and> may_manage tz now user db s"
  by (auto simp: loadManagedSchedule_def may_manage_def and_then_Inr_iff split: option.splits if_splits)

lemma valid_group_change:
  "validateGroupChange user cur g' = None \<Longrightarrow> g' = None \<or> g' = Some cur \<or> (\<exists>g. g' = Some g \<and> canApproveGroup (Some user) g)"
  using admin_approves by (cases g'; simp add: validateGroupChange_def split: if_splits; blast)

lemma schedule_by_id: "getScheduleById i t = Some s \<Longrightarrow> s \<in> set t \<and> sch_id s = i"
  unfolding getScheduleById_def by (rule row_by_SomeD)

text \<open>In a well-formed timetable every schedule has a view.\<close>

lemma timetable_row: "timetable_ok t \<Longrightarrow> r \<in> set t \<Longrightarrow> weekly_row_ok r \<or> one_off_row_ok r"
  by (simp add: timetable_ok_def list_all_iff)

lemma one_off_not_weekly: "oneOffRecurrence r \<Longrightarrow> \<not> weeklyRecurrence r"
  by (simp add: oneOffRecurrence_def weeklyRecurrence_def)

lemma weekly_has_view:
  assumes "timetable_ok t" "r \<in> set t" "\<not> oneOffRecurrence r"
  shows "\<exists>v. mapToWeeklySchedule toISO now r = Inr v \<and> wv_id v = sch_id r"
  using timetable_row [OF assms(1,2)] assms(3)
  by (auto simp: weekly_row_ok_def one_off_row_ok_def mapToWeeklySchedule_def split: option.splits)

lemma one_off_has_view:
  assumes "timetable_ok t" "r \<in> set t" "oneOffRecurrence r"
  shows "\<exists>v. mapToOneOffSchedule toISO now r = Inr v \<and> ov_id v = sch_id r"
  using timetable_row [OF assms(1,2)] one_off_not_weekly [OF assms(3)]
  by (auto simp: weekly_row_ok_def one_off_row_ok_def mapToOneOffSchedule_def split: option.splits)

lemma upd_by_self: "distinct_key key t \<Longrightarrow> row_by key i t = Some r \<Longrightarrow> upd_by key i (\<lambda>_. r) t = t"
  unfolding upd_by_def upd_where_def
  by (rule map_idI) (auto dest!: row_by_SomeD intro: distinct_key_eq)

lemma created_weekly:
  "createSchedule i now d t = Inr (r, t') \<Longrightarrow>
   t' = ins_row r t \<and> sch_id r = i \<and> sch_classroomId r = csi_classroomId d \<and> sch_teacherId r = csi_teacherId d \<and>
   sch_groupId r = csi_groupId d \<and> \<not> oneOffRecurrence r"
  by (auto simp: createSchedule_def and_then_Inr_iff Let_def oneOffRecurrence_def)

lemma created_one_off:
  "createOneOffSchedule i now d t = Inr (r, t') \<Longrightarrow>
   t' = ins_row r t \<and> sch_id r = i \<and> sch_classroomId r = coi_classroomId d \<and> sch_teacherId r = coi_teacherId d \<and>
   sch_groupId r = coi_groupId d \<and> oneOffRecurrence r"
  by (auto simp: createOneOffSchedule_def and_then_Inr_iff Let_def oneOffRecurrence_def)

text \<open>What an update keeps.\<close>

definition revises :: "string option \<Rightarrow> schedule_row \<Rightarrow> schedule_row \<Rightarrow> bool" where
  "revises g r r' \<longleftrightarrow> sch_id r' = sch_id r \<and> sch_classroomId r' = sch_classroomId r \<and> sch_teacherId r' = sch_teacherId r \<and>
     sch_groupId r' = or_else g (sch_groupId r) \<and> sch_recurrence r' = sch_recurrence r"

lemma updateSchedule_cases:
  assumes "updateSchedule i u t = Inr (res, t')" "getScheduleById i t = Some r"
  shows "sch_recurrence r \<noteq> Some ''one_off'' \<and>
    (t' = t \<and> res = Some r \<and> usi_groupId u = None \<or> t' = upd_by sch_id i (set_weekly u) t \<and> res = row_by sch_id i t')"
proof (cases "sch_recurrence r = Some ''one_off''")
  case False
  obtain d b e where f: "sch_dayOfWeek r = Some d" "sch_startTime r = Some b" "sch_endTime r = Some e"
    using assms(1) unfolding updateSchedule_def assms(2) option.case using False by (simp split: option.splits)
  show ?thesis
    using assms(1) False unfolding updateSchedule_def assms(2) option.case f prod.case Let_def
    by (simp add: and_then_Inr_iff split: if_splits) (elim conjE, simp)
qed (use assms(1) in \<open>simp add: updateSchedule_def assms(2)\<close>)

lemma updateOneOffSchedule_cases:
  assumes "updateOneOffSchedule now i u t = Inr (res, t')" "getScheduleById i t = Some r"
  shows "sch_recurrence r = Some ''one_off'' \<and>
    (t' = t \<and> res = Some r \<and> uoi_groupId u = None \<or> t' = upd_by sch_id i (set_one_off now u) t \<and> res = row_by sch_id i t')"
  using assms(1) unfolding updateOneOffSchedule_def assms(2) option.case Let_def
  by (simp add: and_then_Inr_iff split: if_splits) (elim exE conjE, simp)

lemma revision:
  assumes t: "distinct_key sch_id t" "getScheduleById i t = Some r" and f: "\<And>x. revises g x (f x)"
    and cases: "t' = t \<and> res = Some r \<and> g = None \<or> t' = upd_by sch_id i f t \<and> res = row_by sch_id i t'"
  shows "\<exists>r'. res = Some r' \<and> t' = upd_by sch_id i (\<lambda>_. r') t \<and> getScheduleById i t' = Some r' \<and> revises g r r'"
  using cases
proof
  assume "t' = t \<and> res = Some r \<and> g = None"
  then show ?thesis using t upd_by_self [of sch_id t i r] by (simp add: getScheduleById_def revises_def or_else_def)
next
  assume *: "t' = upd_by sch_id i f t \<and> res = row_by sch_id i t'"
  have "row_by sch_id i (upd_by sch_id i f t) = Some (f r)"
    by (rule row_by_upd_by) (use t f in \<open>simp_all add: getScheduleById_def revises_def\<close>)
  moreover have "upd_by sch_id i f t = upd_by sch_id i (\<lambda>_. f r) t"
    using t upd_by_const [of sch_id t i r f] by (simp add: getScheduleById_def)
  ultimately show ?thesis using * f by (auto simp: getScheduleById_def)
qed

lemma updated_weekly:
  assumes "updateSchedule i u t = Inr (res, t')" "distinct_key sch_id t" "getScheduleById i t = Some r"
  shows "\<exists>r'. res = Some r' \<and> t' = upd_by sch_id i (\<lambda>_. r') t \<and> getScheduleById i t' = Some r' \<and> revises (usi_groupId u) r r' \<and>
    \<not> oneOffRecurrence r'"
proof -
  have "revises (usi_groupId u) x (set_weekly u x)" for x
    by (auto simp: revises_def set_weekly_def or_else_def split: option.split)
  note rev = revision [OF assms(2,3) this conjunct2 [OF updateSchedule_cases [OF assms(1,3)]]]
  show ?thesis using rev conjunct1 [OF updateSchedule_cases [OF assms(1,3)]] unfolding oneOffRecurrence_def revises_def by metis
qed

lemma updated_one_off:
  assumes "updateOneOffSchedule now i u t = Inr (res, t')" "distinct_key sch_id t" "getScheduleById i t = Some r"
  shows "\<exists>r'. res = Some r' \<and> t' = upd_by sch_id i (\<lambda>_. r') t \<and> getScheduleById i t' = Some r' \<and> revises (uoi_groupId u) r r' \<and>
    oneOffRecurrence r'"
proof -
  have "revises (uoi_groupId u) x (set_one_off now u x)" for x
    by (auto simp: revises_def set_one_off_def or_else_def split: option.split)
  note rev = revision [OF assms(2,3) this conjunct2 [OF updateOneOffSchedule_cases [OF assms(1,3)]]]
  show ?thesis using rev conjunct1 [OF updateOneOffSchedule_cases [OF assms(1,3)]] unfolding oneOffRecurrence_def revises_def by metis
qed

lemma store_schedules_cases:
  "(\<exists>e. store_schedules res db = (Inl e, db)) \<or>
   (\<exists>r t. res = Inr (r, t) \<and> store_schedules res db = (Inr r, db\<lparr>db_schedules := t\<rparr>) \<and> distinct_key sch_id t \<and> list_all (schedule_refs db) t)"
  by (auto simp: store_schedules_def split: sum.split)

text \<open>What every command does: nothing, with an error, or an edit, which it announces.\<close>

definition edits_or_fails :: "(int \<Rightarrow> int) \<Rightarrow> int \<Rightarrow> jwt_payload \<Rightarrow> school_db \<Rightarrow> bool \<Rightarrow> school_db \<Rightarrow> domain_event list \<Rightarrow> bool" where
  "edits_or_fails tz now user db ok db' evs \<longleftrightarrow>
     (if ok then \<exists>k. evs = [ClassroomChanged k None] \<and> schedule_edit tz now user k db db' \<and> school_ok db' else db' = db \<and> evs = [])"

lemma fails: "edits_or_fails tz now user db False db []"
  by (simp add: edits_or_fails_def)

lemma added:
  assumes "school_ok db" "ensureScheduleCreationAccess tz user (sch_classroomId r) (sch_groupId r) now db = Inr u"
    and "sch_teacherId r = jwt_sub user" "distinct_key sch_id (ins_row r (db_schedules db))"
    and "list_all (schedule_refs db) (ins_row r (db_schedules db))" "timetable_ok (ins_row r (db_schedules db))"
  shows "edits_or_fails tz now user db True (db\<lparr>db_schedules := ins_row r (db_schedules db)\<rparr>) [ClassroomChanged (sch_classroomId r) None]"
proof -
  have fresh: "getScheduleById (sch_id r) (db_schedules db) = None" using assms(4) by (simp add: distinct_key_ins getScheduleById_def)
  then have "school_ok (db\<lparr>db_schedules := ins_row r (db_schedules db)\<rparr>)"
    using assms by (intro school_ok_new_timetable same_rooms_ins)
  then show ?thesis
    using schedule_edit.add [OF fresh] creation_access [OF assms(2)] assms(3) by (auto simp: edits_or_fails_def may_manage_def)
qed

lemma create_refines:
  assumes "school_ok db" "svc_createSchedule toISO msg tz newId now form user db = (res, db', evs)"
  shows "edits_or_fails tz now user db (\<not> isl res) db' evs"
proof (cases "ensureScheduleCreationAccess tz user (sf_classroomId form) (sf_groupId form) now db")
  case (Inr u)
  define d where "d = \<lparr>csi_classroomId = sf_classroomId form, csi_teacherId = jwt_sub user, csi_groupId = sf_groupId form,
    csi_dayOfWeek = sf_dayOfWeek form, csi_startTime = sf_startTime form, csi_endTime = sf_endTime form\<rparr>"
  let ?c = "createSchedule newId now d (db_schedules db)"
  have eq: "svc_createSchedule toISO msg tz newId now form user db = schedule_reply msg (mapToWeeklySchedule toISO now)
      (withQueuedEvents (stored_then_told (\<lambda>db. store_schedules (createSchedule newId now d (db_schedules db)) db)
         (\<lambda>_. Some (sf_classroomId form))) db)"
    by (simp add: svc_createSchedule_def Inr d_def)
  from store_schedules_cases [of ?c db] show ?thesis
  proof
    assume "\<exists>e. store_schedules ?c db = (Inl e, db)"
    then show ?thesis using assms(2) by (auto simp: eq told schedule_reply_def fails)
  next
    assume "\<exists>r t. ?c = Inr (r, t) \<and> store_schedules ?c db = (Inr r, db\<lparr>db_schedules := t\<rparr>) \<and> distinct_key sch_id t \<and> list_all (schedule_refs db) t"
    then obtain r t where r: "?c = Inr (r, t)" "store_schedules ?c db = (Inr r, db\<lparr>db_schedules := t\<rparr>)" "distinct_key sch_id t"
      "list_all (schedule_refs db) t" by blast
    note new = created_weekly [OF r(1)]
    have tt: "timetable_ok t"
      using createSchedule_ok [OF school_timetable [OF assms(1)] _ r(1)] r(3) new by (simp add: distinct_key_ins getScheduleById_def)
    have "r \<in> set t" using new by (simp add: set_ins_row)
    with weekly_has_view [OF tt] new obtain v where "mapToWeeklySchedule toISO now r = Inr v" by blast
    then have "(res, db', evs) = (Inr v, db\<lparr>db_schedules := t\<rparr>, [ClassroomChanged (sf_classroomId form) None])"
      using assms(2) r(2) by (simp add: eq told schedule_reply_def)
    then show ?thesis using added [OF assms(1), of tz user r now] Inr new r(3,4) tt by (simp add: d_def)
  qed
qed (use assms(2) in \<open>auto simp: svc_createSchedule_def fails\<close>)

lemma create_one_off_refines:
  assumes "school_ok db" "svc_createOneOffSchedule parse_date toISO msg tz newId now form user db = (res, db', evs)"
  shows "edits_or_fails tz now user db (\<not> isl res) db' evs"
proof (cases "ensureScheduleCreationAccess tz user (ocf_classroomId form) (ocf_groupId form) now db")
  case (Inr u)
  define d where "d = \<lparr>coi_classroomId = ocf_classroomId form, coi_teacherId = jwt_sub user, coi_groupId = ocf_groupId form,
    coi_startAt = parse_date (ocf_startAt form), coi_endAt = parse_date (ocf_endAt form)\<rparr>"
  let ?c = "createOneOffSchedule newId now d (db_schedules db)"
  show ?thesis
  proof (cases "parse_date (ocf_startAt form) = None \<or> parse_date (ocf_endAt form) = None")
    case False
    have eq: "svc_createOneOffSchedule parse_date toISO msg tz newId now form user db = schedule_reply msg (mapToOneOffSchedule toISO now)
        (withQueuedEvents (stored_then_told (\<lambda>db. store_schedules (createOneOffSchedule newId now d (db_schedules db)) db)
           (\<lambda>_. Some (ocf_classroomId form))) db)"
      using False by (auto simp: svc_createOneOffSchedule_def Inr d_def)
    from store_schedules_cases [of ?c db] show ?thesis
    proof
      assume "\<exists>e. store_schedules ?c db = (Inl e, db)"
      then show ?thesis using assms(2) by (auto simp: eq told schedule_reply_def fails)
    next
      assume "\<exists>r t. ?c = Inr (r, t) \<and> store_schedules ?c db = (Inr r, db\<lparr>db_schedules := t\<rparr>) \<and> distinct_key sch_id t \<and> list_all (schedule_refs db) t"
      then obtain r t where r: "?c = Inr (r, t)" "store_schedules ?c db = (Inr r, db\<lparr>db_schedules := t\<rparr>)" "distinct_key sch_id t"
        "list_all (schedule_refs db) t" by blast
      note new = created_one_off [OF r(1)]
      have tt: "timetable_ok t"
        using createOneOffSchedule_ok [OF school_timetable [OF assms(1)] _ r(1)] r(3) new by (simp add: distinct_key_ins getScheduleById_def)
      have "r \<in> set t" using new by (simp add: set_ins_row)
      with one_off_has_view [OF tt] new obtain v where "mapToOneOffSchedule toISO now r = Inr v" by blast
      then have "(res, db', evs) = (Inr v, db\<lparr>db_schedules := t\<rparr>, [ClassroomChanged (ocf_classroomId form) None])"
        using assms(2) r(2) by (simp add: eq told schedule_reply_def)
      then show ?thesis using added [OF assms(1), of tz user r now] Inr new r(3,4) tt by (simp add: d_def)
    qed
  qed (use assms(2) Inr in \<open>auto simp: svc_createOneOffSchedule_def fails split: if_splits\<close>)
qed (use assms(2) in \<open>auto simp: svc_createOneOffSchedule_def fails\<close>)

text \<open>Both updates: the storage gives the revised row, which has a view.\<close>

lemma changed:
  assumes "school_ok db" "loadManagedSchedule tz i user now db = Inr s" "validateGroupChange user (sch_groupId s) g = None"
    and "store_schedules (Inr (res, t)) db = (Inr res, db\<lparr>db_schedules := t\<rparr>)" "list_all (schedule_refs db) t" "timetable_ok t"
    and "res = Some r'" "t = upd_by sch_id i (\<lambda>_. r') (db_schedules db)" "revises g s r'" "same_rooms (db_schedules db) t"
  shows "edits_or_fails tz now user db True (db\<lparr>db_schedules := t\<rparr>) [ClassroomChanged (sch_classroomId s) None]"
proof -
  have s: "getScheduleById i (db_schedules db) = Some s" "may_manage tz now user db s" using assms(2) by (simp_all add: loaded_managed)
  have "sch_groupId r' = sch_groupId s \<or> canApproveGroup (Some user) (sch_groupId r')"
    using valid_group_change [OF assms(3)] assms(9) by (auto simp: revises_def or_else_def)
  then have "schedule_edit tz now user (sch_classroomId s) db (db\<lparr>db_schedules := t\<rparr>)"
    using schedule_edit.change [of s db tz now user r'] s schedule_by_id [OF s(1)] assms(8,9) by (simp add: revises_def)
  then show ?thesis
    using school_ok_new_timetable [OF assms(1,6,5,10)] by (auto simp: edits_or_fails_def)
qed

lemma distinct_school: "school_ok db \<Longrightarrow> distinct_key sch_id (db_schedules db)"
  using school_timetable by (simp add: timetable_ok_def)

lemma update_refines:
  assumes "school_ok db" "svc_updateSchedule toISO msg tz now i input user db = (res, db', evs)"
  shows "edits_or_fails tz now user db (\<not> isl res) db' evs"
proof (cases "loadManagedSchedule tz i user now db")
  case (Inr s)
  let ?c = "updateSchedule i input (db_schedules db)"
  have s: "getScheduleById i (db_schedules db) = Some s" using Inr by (simp add: loaded_managed)
  show ?thesis
  proof (cases "validateGroupChange user (sch_groupId s) (usi_groupId input)")
    case None
    have eq: "svc_updateSchedule toISO msg tz now i input user db = schedule_found_reply msg (mapToWeeklySchedule toISO now)
       (withQueuedEvents (stored_then_told (\<lambda>db. store_schedules (updateSchedule i input (db_schedules db)) db)
          (map_option (\<lambda>_. sch_classroomId s))) db)"
      by (simp add: svc_updateSchedule_def Inr None)
    from store_schedules_cases [of ?c db] show ?thesis
    proof
      assume "\<exists>e. store_schedules ?c db = (Inl e, db)"
      then show ?thesis using assms(2) by (auto simp: eq told schedule_found_reply_def schedule_reply_def fails)
    next
      assume "\<exists>r t. ?c = Inr (r, t) \<and> store_schedules ?c db = (Inr r, db\<lparr>db_schedules := t\<rparr>) \<and> distinct_key sch_id t \<and> list_all (schedule_refs db) t"
      then obtain ro t where r: "?c = Inr (ro, t)" "store_schedules ?c db = (Inr ro, db\<lparr>db_schedules := t\<rparr>)"
        "list_all (schedule_refs db) t" by blast
      obtain r' where r': "ro = Some r'" "t = upd_by sch_id i (\<lambda>_. r') (db_schedules db)" "getScheduleById i t = Some r'"
        "revises (usi_groupId input) s r'" "\<not> oneOffRecurrence r'"
        using updated_weekly [OF r(1) distinct_school [OF assms(1)] s] by blast
      have tt: "timetable_ok t" by (rule updateSchedule_ok [OF school_timetable [OF assms(1)] r(1)])
      obtain v where "mapToWeeklySchedule toISO now r' = Inr v"
        using weekly_has_view [OF tt _ r'(5)] schedule_by_id [OF r'(3)] by blast
      then have "(res, db', evs) = (Inr v, db\<lparr>db_schedules := t\<rparr>, [ClassroomChanged (sch_classroomId s) None])"
        using assms(2) r(2) by (simp add: eq told schedule_found_reply_def schedule_reply_def r'(1))
      then show ?thesis
        using changed [OF assms(1) Inr None _ r(3) tt r'(1,2,4) updateSchedule_rooms [OF r(1)]] r(1,2) by simp
    qed
  qed (use assms(2) Inr in \<open>auto simp: svc_updateSchedule_def fails\<close>)
qed (use assms(2) in \<open>auto simp: svc_updateSchedule_def fails\<close>)

lemma update_one_off_refines:
  assumes "school_ok db" "svc_updateOneOffSchedule parse_date toISO msg tz now i input user db = (res, db', evs)"
  shows "edits_or_fails tz now user db (\<not> isl res) db' evs"
proof (cases "loadManagedSchedule tz i user now db")
  case (Inr s)
  have s: "getScheduleById i (db_schedules db) = Some s" using Inr by (simp add: loaded_managed)
  show ?thesis
  proof (cases "sch_recurrence s = Some ''one_off'' \<and> validateGroupChange user (sch_groupId s) (of_groupId input) = None \<and>
      (\<exists>u. parseOneOffUpdateInput parse_date input = Inr u)")
    case True
    then obtain u where u: "parseOneOffUpdateInput parse_date input = Inr u" and g: "uoi_groupId u = of_groupId input"
      by (auto simp: parseOneOffUpdateInput_def split: if_splits)
    let ?c = "updateOneOffSchedule now i u (db_schedules db)"
    have valid: "validateGroupChange user (sch_groupId s) (uoi_groupId u) = None" using True g by simp
    have eq: "svc_updateOneOffSchedule parse_date toISO msg tz now i input user db = schedule_found_reply msg (mapToOneOffSchedule toISO now)
       (withQueuedEvents (stored_then_told (\<lambda>db. store_schedules (updateOneOffSchedule now i u (db_schedules db)) db)
          (map_option (\<lambda>_. sch_classroomId s))) db)"
      using True by (simp add: svc_updateOneOffSchedule_def Inr u)
    from store_schedules_cases [of ?c db] show ?thesis
    proof
      assume "\<exists>e. store_schedules ?c db = (Inl e, db)"
      then show ?thesis using assms(2) by (auto simp: eq told schedule_found_reply_def schedule_reply_def fails)
    next
      assume "\<exists>r t. ?c = Inr (r, t) \<and> store_schedules ?c db = (Inr r, db\<lparr>db_schedules := t\<rparr>) \<and> distinct_key sch_id t \<and> list_all (schedule_refs db) t"
      then obtain ro t where r: "?c = Inr (ro, t)" "store_schedules ?c db = (Inr ro, db\<lparr>db_schedules := t\<rparr>)"
        "list_all (schedule_refs db) t" by blast
      obtain r' where r': "ro = Some r'" "t = upd_by sch_id i (\<lambda>_. r') (db_schedules db)" "getScheduleById i t = Some r'"
        "revises (uoi_groupId u) s r'" "oneOffRecurrence r'"
        using updated_one_off [OF r(1) distinct_school [OF assms(1)] s] by blast
      have tt: "timetable_ok t" by (rule updateOneOffSchedule_ok [OF school_timetable [OF assms(1)] r(1)])
      obtain v where "mapToOneOffSchedule toISO now r' = Inr v"
        using one_off_has_view [OF tt _ r'(5)] schedule_by_id [OF r'(3)] by blast
      then have "(res, db', evs) = (Inr v, db\<lparr>db_schedules := t\<rparr>, [ClassroomChanged (sch_classroomId s) None])"
        using assms(2) r(2) by (simp add: eq told schedule_found_reply_def schedule_reply_def r'(1))
      then show ?thesis
        using changed [OF assms(1) Inr valid _ r(3) tt r'(1,2,4) updateOneOffSchedule_rooms [OF r(1)]] r(1,2) by simp
    qed
  next
    case False
    then have "\<exists>e. svc_updateOneOffSchedule parse_date toISO msg tz now i input user db = (Inl e, db, [])"
      by (auto simp: svc_updateOneOffSchedule_def Inr split: option.split sum.split)
    then show ?thesis using assms(2) by (auto simp: fails)
  qed
qed (use assms(2) in \<open>auto simp: svc_updateOneOffSchedule_def fails\<close>)

lemma delete_refines:
  assumes "school_ok db" "svc_deleteSchedule tz now i user db = (res, db', evs)"
  shows "edits_or_fails tz now user db (\<not> isl res) db' evs"
proof (cases "loadManagedSchedule tz i user now db")
  case (Inr s)
  then have s: "getScheduleById i (db_schedules db) = Some s" "may_manage tz now user db s" by (simp_all add: loaded_managed)
  then have "schedule_edit tz now user (sch_classroomId s) db (drop_schedules (\<lambda>r. sch_id r = i) db)"
    using schedule_edit.remove [of s db tz now user] schedule_by_id [OF s(1)] by simp
  then show ?thesis
    using assms school_ok_drop_schedules [OF assms(1)] by (auto simp: svc_deleteSchedule_def Inr told edits_or_fails_def)
qed (use assms(2) in \<open>auto simp: svc_deleteSchedule_def fails\<close>)

text \<open>The five commands keep one contract, and a caller can rely on it without looking at the command.\<close>

lemma command_contract: "school_ok db \<Longrightarrow> schedule_command tz now user db ok db' evs \<Longrightarrow> edits_or_fails tz now user db ok db' evs"
  by (erule schedule_command.cases)
    (blast intro: create_refines create_one_off_refines update_refines update_one_off_refines delete_refines)+

text \<open>C9: the schedule commands implement the timetable edits.  In a reachable state a command that gives an error leaves
  the tables as they were and publishes nothing.  A command that succeeds makes exactly one edit that its user may make
  (an addition of his own under a group he may use, a change or a removal of his own schedule or, for administrators,
  of any, in a classroom he has access to), keeps the constraints of the schema, and publishes the change of that classroom.\<close>
theorem schedule_commands_refine:
  assumes "school_reach tz utc db" "schedule_command tz now user db ok db' evs"
  shows "if ok then \<exists>k. evs = [ClassroomChanged k None] \<and> schedule_edit tz now user k db db' \<and> school_ok db' else db' = db \<and> evs = []"
  using command_contract [OF school_reach_ok [OF assms(1)] assms(2)] by (simp add: edits_or_fails_def)

definition demo_teacher :: jwt_payload where
  "demo_teacher = \<lparr>jwt_sub = ''t1'', jwt_email = ''t1@school.org'', jwt_name = ''Tea'',
     jwt_roles = Some [\<lparr>ri_role = Teacher, ri_groupIds = [''g1'']\<rparr>], jwt_type = ''access'', jwt_exp = Some 900\<rparr>"

definition demo_removal :: "(service_error + unit) \<times> school_db \<times> domain_event list" where
  "demo_removal = svc_deleteSchedule (\<lambda>_. 3600000) 374400000 ''s1'' demo_teacher demo_db"

lemma demo_removal_step:
  "schedule_command (\<lambda>_. 3600000) 374400000 demo_teacher demo_db True (fst (snd demo_removal)) (snd (snd demo_removal))"
proof -
  have "schedule_command (\<lambda>_. 3600000) 374400000 demo_teacher demo_db (\<not> isl (fst demo_removal)) (fst (snd demo_removal)) (snd (snd demo_removal))"
    by (rule schedule_command.delete [of _ _ "''s1''"]) (simp add: demo_removal_def)
  moreover have "\<not> isl (fst demo_removal)" by code_simp
  ultimately show ?thesis by simp
qed

theorem schedule_commands_refine_witness:
  "snd (snd demo_removal) = [ClassroomChanged ''lab'' None] \<and> db_schedules (fst (snd demo_removal)) = [] \<and> school_ok (fst (snd demo_removal))"
proof -
  have "snd (snd demo_removal) = [ClassroomChanged ''lab'' None]" "db_schedules (fst (snd demo_removal)) = []" by code_simp+
  then show ?thesis using schedule_commands_refine [OF demo_db_reach demo_removal_step] by auto
qed

text \<open>C14: the schedules of others are safe.  Whatever a schedule command of a user who is no administrator does in a
  reachable state, a schedule it removes or changes is his own, and so is one it adds; each schedule that is new or changed
  is under the group it had before or under one he may approve.  Classrooms, machines and groups stay as they are.\<close>
theorem schedules_of_others_kept:
  assumes "school_reach tz utc db" "schedule_command tz now user db ok db' evs" "\<not> isAdminToken (Some user)"
  shows "(\<forall>r. r \<in> set (db_schedules db) \<and> r \<notin> set (db_schedules db') \<longrightarrow> sch_teacherId r = jwt_sub user) \<and>
    (\<forall>r. r \<in> set (db_schedules db') \<and> r \<notin> set (db_schedules db) \<longrightarrow> sch_teacherId r = jwt_sub user \<and>
       (canApproveGroup (Some user) (sch_groupId r) \<or>
        (\<exists>r0 \<in> set (db_schedules db). sch_id r0 = sch_id r \<and> sch_groupId r0 = sch_groupId r))) \<and>
    db_classrooms db' = db_classrooms db \<and> db_machines db' = db_machines db \<and> db_groups db' = db_groups db"
proof (cases ok)
  case True
  then obtain k where "schedule_edit tz now user k db db'"
    using command_contract [OF school_reach_ok [OF assms(1)] assms(2)] by (auto simp: edits_or_fails_def)
  then show ?thesis
  proof cases
    case (add r)
    then show ?thesis by (auto simp: set_ins_row)
  next
    case (change r r')
    have own: "sch_teacherId r = jwt_sub user" using change(4) assms(3) by (simp add: may_manage_def)
    have r: "r \<in> set (db_schedules db)" using schedule_by_id [OF change(3)] by simp
    have keep: "x \<in> set (db_schedules db')" if "x \<in> set (db_schedules db)" "x \<noteq> r" for x
    proof -
      have "sch_id x \<noteq> sch_id r"
        using that r distinct_key_eq [OF distinct_school [OF school_reach_ok [OF assms(1)]]] by blast
      then show ?thesis using that change(2) by (force simp: upd_by_def upd_where_def image_iff)
    qed
    have new: "x = r' \<or> x \<in> set (db_schedules db)" if "x \<in> set (db_schedules db')" for x
      using that change(2) set_upd_byD [of x sch_id "sch_id r" "\<lambda>_. r'" "db_schedules db"] by auto
    show ?thesis using change own r keep new by auto metis+
  next
    case (remove r)
    have "sch_teacherId r = jwt_sub user" using remove(4) assms(3) by (simp add: may_manage_def)
    moreover have "x = r" if "x \<in> set (db_schedules db)" "sch_id x = sch_id r" for x
      using that schedule_by_id [OF remove(3)] distinct_key_eq [OF distinct_school [OF school_reach_ok [OF assms(1)]]] by blast
    ultimately show ?thesis
      using remove(2) by (auto simp: drop_schedules_def set_del_where)
  qed
qed (use command_contract [OF school_reach_ok [OF assms(1)] assms(2)] in \<open>simp add: edits_or_fails_def\<close>)

theorem schedules_of_others_kept_witness:
  "demo_row \<notin> set (db_schedules (fst (snd demo_removal))) \<and> sch_teacherId demo_row = ''t1''"
proof -
  have "demo_row \<notin> set (db_schedules (fst (snd demo_removal)))" "\<not> isAdminToken (Some demo_teacher)" "demo_row \<in> set (db_schedules demo_db)"
    "jwt_sub demo_teacher = ''t1''"
    by code_simp+
  then show ?thesis using schedules_of_others_kept [OF demo_db_reach demo_removal_step] by auto
qed

section \<open>What a user is shown\<close>

lemma collect_all:
  "(\<And>x. x \<in> set xs \<Longrightarrow> \<exists>y. f x = Inr y \<and> P x y) \<Longrightarrow> \<exists>ys. collect f xs = Inr ys \<and> list_all2 P xs ys"
proof (induction xs)
  case (Cons x xs)
  then obtain y ys where "f x = Inr y" "P x y" "collect f xs = Inr ys" "list_all2 P xs ys" by (metis list.set_intros)
  then show ?case by (simp add: and_then_def)
qed simp

definition shows_row :: "('v \<Rightarrow> string) \<Rightarrow> jwt_payload \<Rightarrow> schedule_row \<Rightarrow> 'v permitted \<Rightarrow> bool" where
  "shows_row vid user r p \<longleftrightarrow> vid (pv_view p) = sch_id r \<and>
     (pv_canEdit p \<longleftrightarrow> sch_teacherId r = jwt_sub user \<or> isAdminToken (Some user))"

lemma shown_row:
  "view r = Inr v \<Longrightarrow> vid v = sch_id r \<Longrightarrow> \<exists>p. with_permissions view user r = Inr p \<and> shows_row vid user r p"
  by (simp add: with_permissions_def and_then_def shows_row_def)

lemma shown_all: "list_all2 (shows_row vid user) rs ps \<Longrightarrow> map (\<lambda>p. vid (pv_view p)) ps = map sch_id rs"
  by (induction rs ps rule: list_all2_induct) (simp_all add: shows_row_def)

lemma shown_editable:
  assumes "list_all2 (shows_row vid user) rs ps" "p \<in> set ps" "school_ok db" "ensureUserCanAccessClassroom tz user k now db = Inr a"
    and rs: "\<And>r. r \<in> set rs \<Longrightarrow> r \<in> set (db_schedules db) \<and> sch_classroomId r = k"
  shows "pv_canEdit p \<longleftrightarrow> (\<exists>r. loadManagedSchedule tz (vid (pv_view p)) user now db = Inr r)"
proof -
  obtain i where "i < length ps" "p = ps ! i" using assms(2) by (metis in_set_conv_nth)
  then obtain r where r: "r \<in> set rs" "shows_row vid user r p"
    using assms(1) by (metis list_all2_lengthD list_all2_nthD2 nth_mem)
  then have "getScheduleById (sch_id r) (db_schedules db) = Some r"
    using row_by_unique [OF distinct_school [OF assms(3)]] rs by (auto simp: getScheduleById_def)
  then show ?thesis using r rs [OF r(1)] assms(4) by (auto simp: shows_row_def loaded_managed may_manage_def)
qed

text \<open>The timetable a user is shown.  In a reachable state the list of a classroom's schedules never fails on a row: a user
  with access gets every weekly and every one-off schedule of the classroom, in order, and one is marked as editable
  exactly when the commands that change or remove it would let him.\<close>
theorem listed_can_edit:
  assumes "school_reach tz utc db"
  shows "case svc_getSchedulesByClassroom toISO tz now k user db of
      Fail e \<Rightarrow> ensureUserCanAccessClassroom tz user k now db = Inl e
    | Throws e \<Rightarrow> False
    | Ok res \<Rightarrow>
        map (\<lambda>p. wv_id (pv_view p)) (csr_schedules res) = map sch_id (getSchedulesByClassroom k (db_schedules db)) \<and>
        map (\<lambda>p. ov_id (pv_view p)) (csr_oneOffSchedules res) = map sch_id (getOneOffSchedulesByClassroom k (db_schedules db)) \<and>
        (\<forall>p \<in> set (csr_schedules res). pv_canEdit p \<longleftrightarrow> (\<exists>r. loadManagedSchedule tz (wv_id (pv_view p)) user now db = Inr r)) \<and>
        (\<forall>p \<in> set (csr_oneOffSchedules res). pv_canEdit p \<longleftrightarrow> (\<exists>r. loadManagedSchedule tz (ov_id (pv_view p)) user now db = Inr r))"
proof (cases "ensureUserCanAccessClassroom tz user k now db")
  case (Inr a)
  have ok: "school_ok db" by (rule school_reach_ok [OF assms])
  note tt = school_timetable [OF ok]
  have weekly: "r \<in> set (db_schedules db) \<and> sch_classroomId r = k \<and> weeklyRecurrence r" if "r \<in> set (getSchedulesByClassroom k (db_schedules db))" for r
    using that by (simp add: getSchedulesByClassroom_def set_sel_where)
  have oneoff: "r \<in> set (db_schedules db) \<and> sch_classroomId r = k \<and> oneOffRecurrence r" if "r \<in> set (getOneOffSchedulesByClassroom k (db_schedules db))" for r
    using that by (simp add: getOneOffSchedulesByClassroom_def set_sel_where)
  have "\<exists>p. with_permissions (mapToWeeklySchedule toISO now) user r = Inr p \<and> shows_row wv_id user r p"
    if "r \<in> set (getSchedulesByClassroom k (db_schedules db))" for r
  proof -
    have "r \<in> set (db_schedules db)" "\<not> oneOffRecurrence r" using weekly [OF that] one_off_not_weekly [of r] by auto
    from weekly_has_view [OF tt this] obtain v where "mapToWeeklySchedule toISO now r = Inr v" "wv_id v = sch_id r" by blast
    then show ?thesis by (rule shown_row)
  qed
  then obtain ws where ws: "collect (with_permissions (mapToWeeklySchedule toISO now) user) (getSchedulesByClassroom k (db_schedules db)) = Inr ws"
    "list_all2 (shows_row wv_id user) (getSchedulesByClassroom k (db_schedules db)) ws"
    using collect_all by blast
  have "\<exists>p. with_permissions (mapToOneOffSchedule toISO now) user r = Inr p \<and> shows_row ov_id user r p"
    if "r \<in> set (getOneOffSchedulesByClassroom k (db_schedules db))" for r
  proof -
    have "r \<in> set (db_schedules db)" "oneOffRecurrence r" using oneoff [OF that] by auto
    from one_off_has_view [OF tt this] obtain v where "mapToOneOffSchedule toISO now r = Inr v" "ov_id v = sch_id r" by blast
    then show ?thesis by (rule shown_row)
  qed
  then obtain os where os: "collect (with_permissions (mapToOneOffSchedule toISO now) user) (getOneOffSchedulesByClassroom k (db_schedules db)) = Inr os"
    "list_all2 (shows_row ov_id user) (getOneOffSchedulesByClassroom k (db_schedules db)) os"
    using collect_all by blast
  have "pv_canEdit p \<longleftrightarrow> (\<exists>r. loadManagedSchedule tz (wv_id (pv_view p)) user now db = Inr r)" if "p \<in> set ws" for p
    using shown_editable [OF ws(2) that ok Inr] weekly by blast
  moreover have "pv_canEdit p \<longleftrightarrow> (\<exists>r. loadManagedSchedule tz (ov_id (pv_view p)) user now db = Inr r)" if "p \<in> set os" for p
    using shown_editable [OF os(2) that ok Inr] oneoff by blast
  ultimately show ?thesis
    using shown_all [OF ws(2)] shown_all [OF os(2)] by (simp add: svc_getSchedulesByClassroom_def Inr ws(1) os(1))
qed (simp add: svc_getSchedulesByClassroom_def)

theorem listed_can_edit_witness:
  "\<exists>res. svc_getSchedulesByClassroom (\<lambda>_. ''2026'') (\<lambda>_. 3600000) 374400000 ''lab'' demo_teacher demo_db = Ok res \<and>
     map (\<lambda>p. wv_id (pv_view p)) (csr_schedules res) = [''s1'']"
proof -
  have "(case svc_getSchedulesByClassroom (\<lambda>_. ''2026'') (\<lambda>_. 3600000) 374400000 ''lab'' demo_teacher demo_db of Ok _ \<Rightarrow> True | _ \<Rightarrow> False)"
    "map sch_id (getSchedulesByClassroom ''lab'' (db_schedules demo_db)) = [''s1'']"
    by code_simp+
  with listed_can_edit [OF demo_db_reach [of "\<lambda>_. 3600000" id], where toISO = "\<lambda>_. ''2026''" and now = 374400000 and k = "''lab''"
      and user = demo_teacher] show ?thesis
    by (auto split: outcome.splits)
qed

end
