(* ===== verification/Classroom_Services.thy ===== *)
theory Classroom_Services
  imports Schedule_Services
begin

text \<open>
  What users do with classrooms, machines and exemptions:
  \<open>api/src/services/classroom-classroom-command.service.ts\<close>, \<open>classroom-exemption-command.service.ts\<close>,
  \<open>classroom-machine-command.service.ts\<close>, \<open>classroom-query.service.ts\<close>, \<open>classroom-service-shared.ts\<close> and
  \<open>buildWhitelistUrl\<close> of \<open>api/src/lib/machine-download-token.ts\<close>.

  A command gives its outcome, the tables afterwards and the events it publishes; an error that it does not
  catch is \<open>Throws\<close>.  The posture reports of the agents, which the server only stores and shows, are not in the views.
\<close>

section \<open>Views\<close>

record machine_info =
  mi_id :: string
  mi_hostname :: string
  mi_lastSeen :: "string option"
  mi_status :: classroom_machine_status

definition toMachineInfo :: "(int \<Rightarrow> string) \<Rightarrow> int \<Rightarrow> machine_row \<Rightarrow> machine_info" where
  "toMachineInfo toISO now machine =
     \<lparr>mi_id = mac_id machine, mi_hostname = mac_hostname machine, mi_lastSeen = map_option toISO (mac_lastSeen machine),
      mi_status = calculateClassroomMachineStatus (mac_lastSeen machine) now\<rparr>"

record classroom_with_machines =
  cwm_id :: string
  cwm_name :: string
  cwm_displayName :: string
  cwm_defaultGroupId :: "string option"
  cwm_activeGroupId :: "string option"
  cwm_captivePortalDomains :: "string list"
  cwm_createdAt :: string
  cwm_updatedAt :: string
  cwm_currentGroupId :: "string option"
  cwm_currentGroupSource :: current_group_source
  cwm_machines :: "machine_info list"
  cwm_machineCount :: nat
  cwm_status :: classroom_status
  cwm_onlineMachineCount :: nat

definition buildClassroomWithMachines ::
  "(int \<Rightarrow> string) \<Rightarrow> int \<Rightarrow> classroom_row \<Rightarrow> machine_row list \<Rightarrow> policy_scope option \<Rightarrow> classroom_with_machines" where
  "buildClassroomWithMachines toISO now classroom rawMachines scope =
     (let machines = map (toMachineInfo toISO now) rawMachines
      in \<lparr>cwm_id = cls_id classroom, cwm_name = cls_name classroom, cwm_displayName = cls_displayName classroom,
          cwm_defaultGroupId = cls_defaultGroupId classroom, cwm_activeGroupId = cls_activeGroupId classroom,
          cwm_captivePortalDomains = cls_captivePortalDomains classroom,
          cwm_createdAt = toISO (or_else (cls_createdAt classroom) now),
          cwm_updatedAt = toISO (or_else (cls_updatedAt classroom) now),
          cwm_currentGroupId = (case scope of Some s \<Rightarrow> cps_currentGroupId s | None \<Rightarrow> None),
          cwm_currentGroupSource = (case scope of Some s \<Rightarrow> cps_currentGroupSource s | None \<Rightarrow> CG_none),
          cwm_machines = machines, cwm_machineCount = length machines,
          cwm_status = calculateClassroomStatus (map mi_status machines),
          cwm_onlineMachineCount = length (filter (\<lambda>m. mi_status m = MS_online) machines)\<rparr>)"

text \<open>The view passes for the scope it was built from.\<close>

definition view_scope :: "classroom_with_machines \<Rightarrow> access_scope" where
  "view_scope v =
     \<lparr>asc_id = cwm_id v, asc_name = cwm_name v, asc_displayName = cwm_displayName v, asc_defaultGroupId = cwm_defaultGroupId v,
      asc_activeGroupId = cwm_activeGroupId v, asc_currentGroupId = cwm_currentGroupId v,
      asc_currentGroupSource = cwm_currentGroupSource v\<rparr>"

record exemption_info =
  ei_id :: string
  ei_machineId :: string
  ei_machineHostname :: "string option"
  ei_classroomId :: string
  ei_scheduleId :: "string option"
  ei_groupId :: "string option"
  ei_source :: string
  ei_reason :: "string option"
  ei_createdBy :: "string option"
  ei_createdAt :: "string option"
  ei_expiresAt :: string

definition toMachineExemptionInfo :: "(int \<Rightarrow> string) \<Rightarrow> exemption_row \<Rightarrow> string option \<Rightarrow> exemption_info" where
  "toMachineExemptionInfo toISO e machineHostname =
     \<lparr>ei_id = ex_id e, ei_machineId = ex_machineId e, ei_machineHostname = machineHostname, ei_classroomId = ex_classroomId e,
      ei_scheduleId = ex_scheduleId e, ei_groupId = ex_groupId e,
      ei_source = (if ex_source e = ''operational'' then ''operational'' else ''schedule''),
      ei_reason = ex_reason e, ei_createdBy = ex_createdBy e, ei_createdAt = map_option toISO (ex_createdAt e),
      ei_expiresAt = toISO (ex_expiresAt e)\<rparr>"

record machine_list_item =
  mli_id :: string
  mli_hostname :: string
  mli_classroomId :: "string option"
  mli_version :: "string option"
  mli_lastSeen :: "string option"
  mli_hasDownloadToken :: bool
  mli_downloadTokenLastRotatedAt :: "string option"

definition toClassroomMachineListItem :: "(int \<Rightarrow> string) \<Rightarrow> machine_row \<Rightarrow> machine_list_item" where
  "toClassroomMachineListItem toISO machine =
     \<lparr>mli_id = mac_id machine, mli_hostname = mac_hostname machine, mli_classroomId = mac_classroomId machine,
      mli_version = mac_version machine, mli_lastSeen = map_option toISO (mac_lastSeen machine),
      mli_hasDownloadToken = (mac_downloadTokenHash machine \<noteq> None),
      mli_downloadTokenLastRotatedAt = map_option toISO (mac_downloadTokenLastRotatedAt machine)\<rparr>"

section \<open>Queries\<close>

definition listClassrooms ::
  "(int \<Rightarrow> string) \<Rightarrow> (int \<Rightarrow> int) \<Rightarrow> int \<Rightarrow> jwt_payload option \<Rightarrow> school_db \<Rightarrow> classroom_with_machines list" where
  "listClassrooms toISO tz now user db =
     (let classrooms = map cwc_row (getAllClassrooms now db);
          machinesByClassroomId = getMachinesByClassroomIds (map cls_id classrooms) db;
          scopeByClassroomId = resolveClassroomPolicyScopesForClassrooms tz classrooms now db;
          result = map (\<lambda>c. buildClassroomWithMachines toISO now c (or_else (map_of machinesByClassroomId (cls_id c)) [])
                         (map_of scopeByClassroomId (cls_id c))) classrooms
      in case user of
           None \<Rightarrow> result
         | Some u \<Rightarrow> if isAdminToken user then result else filter (\<lambda>v. canAccessClassroomScope u (view_scope v)) result)"

definition getClassroom ::
  "(int \<Rightarrow> string) \<Rightarrow> (int \<Rightarrow> int) \<Rightarrow> int \<Rightarrow> string \<Rightarrow> jwt_payload option \<Rightarrow> school_db \<Rightarrow> service_error + classroom_with_machines" where
  "getClassroom toISO tz now i user db =
     (case getClassroomById i db of
        None \<Rightarrow> Inl (Not_found ''Classroom not found'')
      | Some classroom \<Rightarrow>
          (let result = buildClassroomWithMachines toISO now classroom (getMachinesByClassroom i db)
                 (resolveClassroomPolicyScope tz i now db)
           in case user of
                None \<Rightarrow> Inr result
              | Some u \<Rightarrow>
                  if \<not> canAccessClassroomScope u (view_scope result)
                  then Inl (Forbidden ''You do not have access to this classroom'') else Inr result))"

definition listMachines :: "(int \<Rightarrow> string) \<Rightarrow> string option \<Rightarrow> school_db \<Rightarrow> machine_list_item list" where
  "listMachines toISO classroomId db = map (toClassroomMachineListItem toISO) (getAllMachines classroomId db)"

definition listExemptionsForClassroom ::
  "(int \<Rightarrow> string) \<Rightarrow> (int \<Rightarrow> int) \<Rightarrow> int \<Rightarrow> jwt_payload \<Rightarrow> string \<Rightarrow> school_db \<Rightarrow> service_error + string \<times> exemption_info list" where
  "listExemptionsForClassroom toISO tz now user classroomId db =
     and_then (ensureUserCanAccessClassroom tz user classroomId now db) (\<lambda>_.
       Inr (classroomId, map (\<lambda>(e, hostname). toMachineExemptionInfo toISO e (Some hostname))
              (getActiveMachineExemptionsByClassroom classroomId now db)))"

section \<open>Classroom commands\<close>

definition formatErrorMessage :: "(db_error \<Rightarrow> string) \<Rightarrow> db_error \<Rightarrow> string" where
  "formatErrorMessage msg e = (case e of App_error m \<Rightarrow> m | _ \<Rightarrow> msg e)"

definition svc_createClassroom ::
  "(db_error \<Rightarrow> string) \<Rightarrow> string \<Rightarrow> int \<Rightarrow> create_classroom_data \<Rightarrow> school_db \<Rightarrow> (classroom_row, school_db) svc_result" where
  "svc_createClassroom msg newId now input db =
     (case createClassroom newId now input db of
        Inr (created, db') \<Rightarrow> (Ok created, db', [])
      | Inl e \<Rightarrow>
          (let m = formatErrorMessage msg e
           in (if includes_str m ''already exists'' then Fail (Conflict m)
               else if includes_str m ''invalid'' then Fail (Bad_request m)
               else if includes_str m ''Captive portal domains'' then Fail (Bad_request m)
               else Fail (Internal_error ''Failed to create classroom''), db, [])))"

text \<open>A change that may throw, as a change that says so in its result.\<close>

definition change_of :: "('s \<Rightarrow> 'e + 'r \<times> 's) \<Rightarrow> 's \<Rightarrow> ('e + 'r) \<times> 's" where
  "change_of f s = (case f s of Inl e \<Rightarrow> (Inl e, s) | Inr (r, s') \<Rightarrow> (Inr r, s'))"

definition svc_updateClassroom ::
  "(db_error \<Rightarrow> string) \<Rightarrow> string \<Rightarrow> update_classroom_data \<Rightarrow> school_db \<Rightarrow> (classroom_row, school_db) svc_result" where
  "svc_updateClassroom msg i updates db =
     (case withQueuedEvents (stored_then_told (change_of (updateClassroom i updates))
             (\<lambda>refreshed. if ucd_defaultGroupId updates \<noteq> None then map_option cls_id refreshed else None)) db of
        (Inr (Some updated), db', evs) \<Rightarrow> (Ok updated, db', evs)
      | (Inr None, db', evs) \<Rightarrow> (Fail (Not_found ''Classroom not found''), db', evs)
      | (Inl e, db', evs) \<Rightarrow>
          (if includes_str (formatErrorMessage msg e) ''Captive portal domains''
           then Fail (Bad_request (formatErrorMessage msg e))
           else Fail (Internal_error ''Failed to update classroom''), db', evs))"

definition setClassroomActiveGroup ::
  "(int \<Rightarrow> string) \<Rightarrow> (int \<Rightarrow> int) \<Rightarrow> int \<Rightarrow> jwt_payload \<Rightarrow> string \<Rightarrow> string option \<Rightarrow> school_db \<Rightarrow>
   (classroom_with_machines \<times> string option, school_db) svc_result" where
  "setClassroomActiveGroup toISO tz now user i groupId db =
     (case ensureUserCanAccessClassroom tz user i now db of
        Inl e \<Rightarrow> (Fail e, db, [])
      | Inr _ \<Rightarrow>
          if (case groupId of None \<Rightarrow> False | Some g \<Rightarrow> \<not> isAdminToken (Some user) \<and> \<not> canApproveGroup (Some user) g)
          then (Fail (Forbidden ''You can only set groups within your assigned scope''), db, [])
          else (case withQueuedEvents (stored_then_told (change_of (setActiveGroup i groupId)) (map_option cls_id)) db of
             (Inl e, db', evs) \<Rightarrow> (Throws e, db', evs)
           | (Inr None, db', evs) \<Rightarrow> (Fail (Not_found ''Classroom not found''), db', evs)
           | (Inr (Some _), db', evs) \<Rightarrow>
               (case getClassroom toISO tz now i (Some user) db' of
                  Inl e \<Rightarrow> (Fail e, db', evs)
                | Inr v \<Rightarrow> (Ok (v, cwm_currentGroupId v), db', evs))))"

definition svc_deleteClassroom :: "string \<Rightarrow> school_db \<Rightarrow> (unit, school_db) svc_result" where
  "svc_deleteClassroom i db =
     (case deleteClassroom i db of (deleted, db') \<Rightarrow>
        (if deleted then Ok () else Fail (Not_found ''Classroom not found''), db', []))"

section \<open>Exemption commands\<close>

fun exemption_code_error :: "exemption_code \<Rightarrow> string \<Rightarrow> service_error" where
  "exemption_code_error NOT_FOUND m = Not_found m"
| "exemption_code_error BAD_REQUEST m = Bad_request m"
| "exemption_code_error CONFLICT m = Conflict m"

definition exemption_reply ::
  "(int \<Rightarrow> string) \<Rightarrow> string \<Rightarrow> (exemption_error + exemption_row) \<times> school_db \<times> domain_event list \<Rightarrow> (exemption_info, school_db) svc_result" where
  "exemption_reply toISO failed res =
     (case res of (r, db, evs) \<Rightarrow>
        (case r of
           Inr created \<Rightarrow> Ok (toMachineExemptionInfo toISO created None)
         | Inl (Exemption_error code m) \<Rightarrow> Fail (exemption_code_error code m)
         | Inl _ \<Rightarrow> Fail (Internal_error failed), db, evs))"

definition createExemptionForClassroom ::
  "(int \<Rightarrow> string) \<Rightarrow> (int \<Rightarrow> int) \<Rightarrow> (int \<Rightarrow> int) \<Rightarrow> string \<Rightarrow> int \<Rightarrow> jwt_payload \<Rightarrow> create_exemption_input \<Rightarrow> school_db \<Rightarrow>
   (exemption_info, school_db) svc_result" where
  "createExemptionForClassroom toISO tz utc newId now user input db =
     (case ensureUserCanAccessClassroom tz user (cei_classroomId input) now db of
        Inl e \<Rightarrow> (Fail e, db, [])
      | Inr access \<Rightarrow>
          if asc_currentGroupSource access \<noteq> CG_schedule
          then (Fail (Bad_request ''Machine exemptions are only available while a schedule controls the classroom''), db, [])
          else if map_option sch_id (getCurrentSchedule tz (cei_classroomId input) now (db_schedules db)) \<noteq> Some (cei_scheduleId input)
          then (Fail (Bad_request ''Schedule is not active for this classroom''), db, [])
          else if (case cei_groupId input of None \<Rightarrow> False | Some g \<Rightarrow> g \<noteq> [] \<and> \<not> canApproveGroup (Some user) g)
          then (Fail (Forbidden ''You cannot apply this group''), db, [])
          else exemption_reply toISO ''Failed to create machine exemption''
                 (withQueuedEvents (stored_then_told (change_of (createMachineExemption tz utc newId now input))
                    (\<lambda>_. Some (cei_classroomId input))) db))"

definition createOperationalExemptionForClassroom ::
  "(int \<Rightarrow> string) \<Rightarrow> (int \<Rightarrow> int) \<Rightarrow> string \<Rightarrow> int \<Rightarrow> jwt_payload \<Rightarrow> create_operational_input \<Rightarrow> school_db \<Rightarrow>
   (exemption_info, school_db) svc_result" where
  "createOperationalExemptionForClassroom toISO tz newId now user input db =
     (if \<not> isAdminToken (Some user)
      then (Fail (Forbidden ''Only administrators can create operational exemptions''), db, [])
      else case ensureUserCanAccessClassroom tz user (cop_classroomId input) now db of
        Inl e \<Rightarrow> (Fail e, db, [])
      | Inr _ \<Rightarrow>
          exemption_reply toISO ''Failed to create operational machine exemption''
            (withQueuedEvents (stored_then_told (change_of (createOperationalMachineExemption newId now input))
               (\<lambda>_. Some (cop_classroomId input))) db))"

definition deleteExemptionForClassroom ::
  "(int \<Rightarrow> int) \<Rightarrow> int \<Rightarrow> jwt_payload \<Rightarrow> string \<Rightarrow> school_db \<Rightarrow> (unit, school_db) svc_result" where
  "deleteExemptionForClassroom tz now user exemptionId db =
     (case getMachineExemptionById exemptionId db of
        None \<Rightarrow> (Fail (Not_found ''Exemption not found''), db, [])
      | Some (_, classroomId, source) \<Rightarrow>
          (case ensureUserCanAccessClassroom tz user classroomId now db of
             Inl e \<Rightarrow> (Fail e, db, [])
           | Inr _ \<Rightarrow>
               if source = ''operational'' \<and> \<not> isAdminToken (Some user)
               then (Fail (Forbidden ''Only administrators can revoke operational exemptions''), db, [])
               else (case withQueuedEvents (stored_then_told
                       (\<lambda>db. case deleteMachineExemption exemptionId db of (removed, db') \<Rightarrow> (Inr removed, db')) id) db of
                  (Inl e, db', evs) \<Rightarrow> (Throws e, db', evs)
                | (Inr None, db', evs) \<Rightarrow> (Fail (Not_found ''Exemption not found''), db', evs)
                | (Inr (Some _), db', evs) \<Rightarrow> (Ok (), db', evs))))"

section \<open>Machine commands\<close>

record register_machine_input =
  rmi_hostname :: string
  rmi_classroomId :: "string option"
  rmi_classroomName :: "string option"
  rmi_version :: "string option"

record machine_registration =
  mr_hostname :: string
  mr_classroomId :: string
  mr_classroomName :: string
  mr_version :: "string option"
  mr_lastSeen :: string

definition given :: "string option \<Rightarrow> string option" where
  "given x = (case x of Some s \<Rightarrow> if s = [] then None else Some s | None \<Rightarrow> None)"

definition svc_registerMachine ::
  "(string \<Rightarrow> string) \<Rightarrow> (int \<Rightarrow> string) \<Rightarrow> string \<Rightarrow> int \<Rightarrow> register_machine_input \<Rightarrow> school_db \<Rightarrow> (machine_registration, school_db) svc_result" where
  "svc_registerMachine sha_hex toISO newId now input db =
     (if js_trim (rmi_hostname input) = [] then (Fail (Bad_request ''Hostname required''), db, [])
      else case (case (given (rmi_classroomId input), given (rmi_classroomName input)) of
                   (Some i, _) \<Rightarrow> Some i
                 | (None, Some name) \<Rightarrow> given (map_option cls_id (getClassroomByName name db))
                 | (None, None) \<Rightarrow> None) of
        None \<Rightarrow> (Fail (Not_found ''Valid classroom_id or classroom_name is required''), db, [])
      | Some classroomId \<Rightarrow>
          (case getClassroomById classroomId db of
             None \<Rightarrow> (Fail (Not_found ''Classroom not found''), db, [])
           | Some classroom \<Rightarrow>
               (let reportedHostname = js_trim (rmi_hostname input);
                    machineHostname = buildMachineKey sha_hex (cls_id classroom) reportedHostname
                in case registerMachine newId now \<lparr>rmd_hostname = machineHostname, rmd_reportedHostname = Some reportedHostname,
                          rmd_classroomId = cls_id classroom, rmd_version = given (rmi_version input)\<rparr> db of
                     Inl e \<Rightarrow> (Throws e, db, [])
                   | Inr (machine, db') \<Rightarrow>
                       (Ok \<lparr>mr_hostname = or_else (mac_reportedHostname machine) reportedHostname,
                            mr_classroomId = or_else (mac_classroomId machine) (cls_id classroom),
                            mr_classroomName = cls_name classroom, mr_version = mac_version machine,
                            mr_lastSeen = toISO (or_else (mac_lastSeen machine) now)\<rparr>, db', []))))"

definition svc_deleteMachine :: "string \<Rightarrow> school_db \<Rightarrow> (unit, school_db) svc_result" where
  "svc_deleteMachine hostname db =
     (case deleteMachine hostname db of (deleted, db') \<Rightarrow>
        (if deleted then Ok () else Fail (Not_found ''Machine not found''), db', []))"

definition buildWhitelistUrl :: "string \<Rightarrow> string \<Rightarrow> string" where
  "buildWhitelistUrl publicUrl token = drop_trailing CHR ''/'' publicUrl @ ''/w/'' @ token @ ''/whitelist.txt''"

text \<open>The new token comes from the random source; \<open>publicUrl\<close> is the configured address of the server.\<close>

definition rotateMachineToken ::
  "(string \<Rightarrow> string) \<Rightarrow> string \<Rightarrow> string \<Rightarrow> int \<Rightarrow> string \<Rightarrow> school_db \<Rightarrow> (string, school_db) svc_result" where
  "rotateMachineToken sha_hex publicUrl token now machineId db =
     (case getMachineById machineId db of
        None \<Rightarrow> (Fail (Not_found ''Machine not found''), db, [])
      | Some _ \<Rightarrow>
          (case setMachineDownloadTokenHash now machineId (sha_hex token) db of
             Inl e \<Rightarrow> (Throws e, db, [])
           | Inr (_, db') \<Rightarrow> (Ok (buildWhitelistUrl publicUrl token), db', [])))"

end
