(* ===== verification/Event_Hub.thy ===== *)
theory Event_Hub
  imports Machine_Policy Domain_Events
begin

text \<open>
  How a change reaches the machines: \<open>api/src/lib/sse-hub.ts\<close>, \<open>rule-events.ts\<close>, \<open>db-event-bridge.ts\<close>,
  \<open>api/src/services/domain-events/dispatcher.ts\<close>, \<open>machine-events.service.ts\<close>,
  \<open>schedule-change-delivery.service.ts\<close> and the tick of \<open>schedule-boundary-ticker.ts\<close>.

  A hub keeps the connected clients and two indexes of their identifiers, by group and by classroom.
  Its operations return the new hub and what was written, as pairs of a client's identifier and the text.
  \<open>ok\<close> says for which clients writing to the stream does not throw; a client whose stream throws is dropped.

  \<open>hub_ok\<close> is the invariant that ties the indexes to the clients; the locale \<open>delivery\<close> derives from the
  effect of one write what a whole round does, and is interpreted for each of the four kinds of round.
\<close>

section \<open>Messages\<close>

definition json_char :: "char \<Rightarrow> string" where
  "json_char c =
     (let n = of_char c :: nat; backslash = CHR 0x5C
      in if n = 0x22 \<or> n = 0x5C then [backslash, c]
         else if n = 0x08 then [backslash, CHR ''b'']
         else if n = 0x09 then [backslash, CHR ''t'']
         else if n = 0x0A then [backslash, CHR ''n'']
         else if n = 0x0C then [backslash, CHR ''f'']
         else if n = 0x0D then [backslash, CHR ''r'']
         else if n < 0x20 then backslash # ''u00'' @ [digit_of (n div 16), ''0123456789abcdef'' ! (n mod 16)]
         else [c])"

definition json_string :: "string \<Rightarrow> string" where
  "json_string s = CHR 0x22 # concat (map json_char s) @ [CHR 0x22]"

definition changed_payload :: "string \<Rightarrow> string" where
  "changed_payload groupId =
     ''data: {\"event\":\"whitelist-changed\",\"groupId\":'' @ json_string groupId @ ''}'' @ [nl, nl]"

definition keep_alive_payload :: string where
  "keep_alive_payload = '': keep-alive'' @ [nl, nl]"

definition connected_payload :: "string \<Rightarrow> string \<Rightarrow> string" where
  "connected_payload groupId hostname =
     ''data: {\"event\":\"connected\",\"groupId\":'' @ json_string groupId @ '',\"hostname\":'' @ json_string hostname @ ''}'' @ [nl, nl]"

section \<open>The hub\<close>

record sse_client =
  sc_id :: string
  sc_hostname :: string
  sc_classroomId :: string
  sc_groupId :: string
  sc_lastWriteAt :: int

type_synonym hub_index = "string \<Rightarrow> string list option"

record sse_hub =
  hub_clients :: "sse_client table"
  hub_byGroup :: hub_index
  hub_byClassroom :: hub_index
  hub_keepAlive :: bool

type_synonym hub_io = "sse_hub \<times> (string \<times> string) list"

definition KEEP_ALIVE_IDLE_MS :: int where
  "KEEP_ALIVE_IDLE_MS = 25000"

definition empty_hub :: sse_hub where
  "empty_hub = \<lparr>hub_clients = [], hub_byGroup = (\<lambda>_. None), hub_byClassroom = (\<lambda>_. None), hub_keepAlive = False\<rparr>"

definition indexAdd :: "hub_index \<Rightarrow> string \<Rightarrow> string \<Rightarrow> hub_index" where
  "indexAdd index key i =
     (case index key of
        Some s \<Rightarrow> index(key := Some (if i \<in> set s then s else s @ [i]))
      | None \<Rightarrow> index(key := Some [i]))"

definition indexRemove :: "hub_index \<Rightarrow> string \<Rightarrow> string \<Rightarrow> hub_index" where
  "indexRemove index key i =
     (case index key of
        None \<Rightarrow> index
      | Some s \<Rightarrow> let s' = removeAll i s in if s' = [] then index(key := None) else index(key := Some s'))"

definition stopKeepAliveIfIdle :: "sse_hub \<Rightarrow> sse_hub" where
  "stopKeepAliveIfIdle h = (if hub_clients h \<noteq> [] then h else h\<lparr>hub_keepAlive := False\<rparr>)"

definition removeSseClient :: "string \<Rightarrow> sse_hub \<Rightarrow> sse_hub" where
  "removeSseClient i h =
     (case row_by sc_id i (hub_clients h) of
        None \<Rightarrow> h
      | Some client \<Rightarrow>
          stopKeepAliveIfIdle (h\<lparr>hub_clients := del_by sc_id i (hub_clients h),
            hub_byGroup := indexRemove (hub_byGroup h) (sc_groupId client) i,
            hub_byClassroom := indexRemove (hub_byClassroom h) (sc_classroomId client) i\<rparr>))"

text \<open>Every write, of a message or of a keep-alive comment, is tried in this way.\<close>

definition tryWrite :: "(string \<Rightarrow> bool) \<Rightarrow> int \<Rightarrow> sse_client \<Rightarrow> string \<Rightarrow> sse_hub \<Rightarrow> hub_io" where
  "tryWrite ok now client payload h =
     (if ok (sc_id client)
      then (h\<lparr>hub_clients := upd_by sc_id (sc_id client) (\<lambda>c. c\<lparr>sc_lastWriteAt := now\<rparr>) (hub_clients h)\<rparr>,
            [(sc_id client, payload)])
      else (removeSseClient (sc_id client) h, []))"

text \<open>A loop over identifiers: those without a client any more are skipped.\<close>

primrec for_clients :: "(sse_client \<Rightarrow> sse_hub \<Rightarrow> hub_io) \<Rightarrow> string list \<Rightarrow> sse_hub \<Rightarrow> hub_io" where
  "for_clients step [] h = (h, [])"
| "for_clients step (i # ids) h =
     (case row_by sc_id i (hub_clients h) of
        None \<Rightarrow> for_clients step ids h
      | Some client \<Rightarrow>
          (case step client h of (h1, w1) \<Rightarrow>
             (case for_clients step ids h1 of (h2, w2) \<Rightarrow> (h2, w1 @ w2))))"

definition keep_alive_step :: "(string \<Rightarrow> bool) \<Rightarrow> int \<Rightarrow> sse_client \<Rightarrow> sse_hub \<Rightarrow> hub_io" where
  "keep_alive_step ok now client h =
     (if now - sc_lastWriteAt client < KEEP_ALIVE_IDLE_MS then (h, [])
      else tryWrite ok now client keep_alive_payload h)"

definition keepAliveTick :: "(string \<Rightarrow> bool) \<Rightarrow> int \<Rightarrow> sse_hub \<Rightarrow> hub_io" where
  "keepAliveTick ok now h = for_clients (keep_alive_step ok now) (map sc_id (hub_clients h)) h"

definition registerSseClient :: "string \<Rightarrow> int \<Rightarrow> string \<Rightarrow> string \<Rightarrow> string \<Rightarrow> sse_hub \<Rightarrow> sse_hub" where
  "registerSseClient newId now hostname classroomId groupId h =
     (let client = \<lparr>sc_id = newId, sc_hostname = hostname, sc_classroomId = classroomId, sc_groupId = groupId,
                    sc_lastWriteAt = now\<rparr>
      in h\<lparr>hub_clients := (if row_by sc_id newId (hub_clients h) = None then ins_row client (hub_clients h)
                           else upd_by sc_id newId (\<lambda>_. client) (hub_clients h)),
           hub_byGroup := indexAdd (hub_byGroup h) groupId newId,
           hub_byClassroom := indexAdd (hub_byClassroom h) classroomId newId,
           hub_keepAlive := True\<rparr>)"

definition getSseClientCount :: "sse_hub \<Rightarrow> nat" where
  "getSseClientCount h = length (hub_clients h)"

definition publishGroupChangedLocal :: "(string \<Rightarrow> bool) \<Rightarrow> int \<Rightarrow> string \<Rightarrow> sse_hub \<Rightarrow> hub_io" where
  "publishGroupChangedLocal ok now groupId h =
     (case hub_byGroup h groupId of
        None \<Rightarrow> (h, [])
      | Some ids \<Rightarrow> for_clients (\<lambda>client. tryWrite ok now client (changed_payload groupId)) ids h)"

definition publishBroadcastLocal :: "(string \<Rightarrow> bool) \<Rightarrow> int \<Rightarrow> sse_hub \<Rightarrow> hub_io" where
  "publishBroadcastLocal ok now h =
     for_clients (\<lambda>client. tryWrite ok now client (changed_payload (sc_groupId client)))
       (map sc_id (hub_clients h)) h"

definition next_group :: "string \<Rightarrow> string list \<Rightarrow> string option \<Rightarrow> sse_client \<Rightarrow> string option" where
  "next_group unrestrictedGroupId exemptHostnames baseGroupId client =
     (let nextGroupId = (if sc_hostname client \<in> set exemptHostnames then Some unrestrictedGroupId else baseGroupId)
      in case nextGroupId of
           None \<Rightarrow> None
         | Some g \<Rightarrow> if g = [] \<or> sc_groupId client = g then None else Some g)"

definition retarget :: "(string \<Rightarrow> bool) \<Rightarrow> int \<Rightarrow> (sse_client \<Rightarrow> string option) \<Rightarrow> sse_client \<Rightarrow> sse_hub \<Rightarrow> hub_io" where
  "retarget ok now next client h =
     (case next client of
        None \<Rightarrow> (h, [])
      | Some g \<Rightarrow>
          tryWrite ok now (client\<lparr>sc_groupId := g\<rparr>) (changed_payload g)
            (h\<lparr>hub_byGroup := indexAdd (indexRemove (hub_byGroup h) (sc_groupId client) (sc_id client)) g (sc_id client),
               hub_clients := upd_by sc_id (sc_id client) (\<lambda>c. c\<lparr>sc_groupId := g\<rparr>) (hub_clients h)\<rparr>))"

text \<open>The two resolvers are looked up in the database; they are arguments, as they are of \<open>createSseHub\<close>.\<close>

definition publishClassroomChangedLocal ::
  "(string \<Rightarrow> int \<Rightarrow> policy_context option) \<Rightarrow> (string \<Rightarrow> int \<Rightarrow> string list) \<Rightarrow> string \<Rightarrow>
   (string \<Rightarrow> bool) \<Rightarrow> int \<Rightarrow> string \<Rightarrow> int \<Rightarrow> sse_hub \<Rightarrow> hub_io" where
  "publishClassroomChangedLocal resolveContext resolveExempt unrestrictedGroupId ok wall classroomId now h =
     (case hub_byClassroom h classroomId of
        None \<Rightarrow> (h, [])
      | Some ids \<Rightarrow>
          let baseContext = resolveContext classroomId now;
              exemptHostnames = resolveExempt classroomId now
          in if baseContext = None \<and> exemptHostnames = [] then (h, [])
             else
               let baseGroupId = (case baseContext of Some ctx \<Rightarrow> serializePolicyGroupId ctx | None \<Rightarrow> None)
               in for_clients (retarget ok wall (next_group unrestrictedGroupId exemptHostnames baseGroupId)) ids h)"

section \<open>The indexes agree with the clients\<close>

definition indexed :: "hub_index \<Rightarrow> (sse_client \<Rightarrow> string) \<Rightarrow> sse_client table \<Rightarrow> bool" where
  "indexed index key cs \<longleftrightarrow>
     (\<forall>k. case index k of
        None \<Rightarrow> \<forall>c \<in> set cs. key c \<noteq> k
      | Some ids \<Rightarrow> ids \<noteq> [] \<and> distinct ids \<and> set ids = sc_id ` {c \<in> set cs. key c = k})"

definition hub_ok :: "sse_hub \<Rightarrow> bool" where
  "hub_ok h \<longleftrightarrow>
     distinct_key sc_id (hub_clients h) \<and> indexed (hub_byGroup h) sc_groupId (hub_clients h) \<and>
     indexed (hub_byClassroom h) sc_classroomId (hub_clients h) \<and> (hub_keepAlive h \<longleftrightarrow> hub_clients h \<noteq> [])"

interpretation clients_tab: record_store "distinct_key sc_id" sc_id "row_by sc_id" ins_row "upd_by sc_id" "del_by sc_id"
  by (rule record_store_table)

definition ids_at :: "hub_index \<Rightarrow> string \<Rightarrow> string set" where
  "ids_at index k = (case index k of None \<Rightarrow> {} | Some ids \<Rightarrow> set ids)"

definition index_wf :: "hub_index \<Rightarrow> bool" where
  "index_wf index \<longleftrightarrow> (\<forall>k ids. index k = Some ids \<longrightarrow> ids \<noteq> [] \<and> distinct ids)"

lemma indexed_alt:
  "indexed index key cs \<longleftrightarrow>
     index_wf index \<and> (\<forall>k i. i \<in> ids_at index k \<longleftrightarrow> (\<exists>c \<in> set cs. key c = k \<and> sc_id c = i))"
proof -
  have k: "(case index k of None \<Rightarrow> \<forall>c \<in> set cs. key c \<noteq> k
       | Some ids \<Rightarrow> ids \<noteq> [] \<and> distinct ids \<and> set ids = sc_id ` {c \<in> set cs. key c = k}) \<longleftrightarrow>
     (\<forall>ids. index k = Some ids \<longrightarrow> ids \<noteq> [] \<and> distinct ids) \<and>
     (\<forall>i. i \<in> ids_at index k \<longleftrightarrow> (\<exists>c \<in> set cs. key c = k \<and> sc_id c = i))" for k
  proof -
    have "sc_id ` {c \<in> set cs. key c = k} = {i. \<exists>c \<in> set cs. key c = k \<and> sc_id c = i}" by auto
    then show ?thesis by (cases "index k") (simp_all add: ids_at_def set_eq_iff, blast)
  qed
  show ?thesis by (simp only: indexed_def index_wf_def k all_conj_distrib)
qed

lemma removeAll_Nil_iff: "removeAll i s = [] \<longleftrightarrow> set s \<subseteq> {i}"
  by (induction s) auto

lemma index_wf_add: "index_wf index \<Longrightarrow> index_wf (indexAdd index k i)"
  by (auto simp: index_wf_def indexAdd_def split: option.splits if_splits)

lemma index_wf_remove: "index_wf index \<Longrightarrow> index_wf (indexRemove index k i)"
  by (auto simp: index_wf_def indexRemove_def Let_def distinct_removeAll split: option.splits if_splits)

lemma ids_at_add: "ids_at (indexAdd index k i) k' = (if k' = k then insert i (ids_at index k) else ids_at index k')"
  by (auto simp: ids_at_def indexAdd_def split: option.splits)

lemma ids_at_remove: "ids_at (indexRemove index k i) k' = (if k' = k then ids_at index k - {i} else ids_at index k')"
  by (auto simp: ids_at_def indexRemove_def Let_def removeAll_Nil_iff split: option.splits)

lemma indexed_ins:
  assumes "indexed index key cs"
  shows "indexed (indexAdd index (key c) (sc_id c)) key (ins_row c cs)"
  using assms by (auto simp: indexed_alt index_wf_add ids_at_add ins_row_def)

lemma indexed_del:
  assumes "indexed index key cs" "distinct_key sc_id cs" "c \<in> set cs"
  shows "indexed (indexRemove index (key c) (sc_id c)) key (del_by sc_id (sc_id c) cs)"
proof -
  have "c' = c" if "c' \<in> set cs" "sc_id c' = sc_id c" for c'
    using that assms(2,3) by (intro distinct_key_eq [of sc_id cs])
  then show ?thesis
    using assms(1) by (auto simp: indexed_alt index_wf_remove ids_at_remove del_by_def del_where_def)
qed

lemma indexed_move:
  assumes "indexed index key cs" "distinct_key sc_id cs" "c \<in> set cs" "sc_id (f c) = sc_id c"
  shows "indexed (indexAdd (indexRemove index (key c) (sc_id c)) (key (f c)) (sc_id c)) key (upd_by sc_id (sc_id c) f cs)"
proof -
  have uniq: "c' = c" if "c' \<in> set cs" "sc_id c' = sc_id c" for c'
    using that assms(2,3) by (intro distinct_key_eq [of sc_id cs])
  have up: "set (upd_by sc_id (sc_id c) f cs) = insert (f c) {c' \<in> set cs. sc_id c' \<noteq> sc_id c}"
    using uniq assms(3) by (auto simp: upd_by_def upd_where_def)
  have new: "(\<exists>c' \<in> set (upd_by sc_id (sc_id c) f cs). key c' = k \<and> sc_id c' = i) \<longleftrightarrow>
      (k = key (f c) \<and> i = sc_id c) \<or> (i \<noteq> sc_id c \<and> (\<exists>c' \<in> set cs. key c' = k \<and> sc_id c' = i))" for k i
    unfolding up by (auto simp: assms(4))
  have ids: "i \<in> ids_at index k \<longleftrightarrow> (\<exists>c' \<in> set cs. key c' = k \<and> sc_id c' = i)" for k i
    using assms(1) by (simp add: indexed_alt)
  have "k = key c" if "sc_id c \<in> ids_at index k" for k
    using that unfolding ids by (auto dest: uniq)
  then have "i \<in> ids_at (indexAdd (indexRemove index (key c) (sc_id c)) (key (f c)) (sc_id c)) k \<longleftrightarrow>
      (k = key (f c) \<and> i = sc_id c) \<or> (i \<noteq> sc_id c \<and> i \<in> ids_at index k)" for k i
    by (auto simp: ids_at_add ids_at_remove)
  then show ?thesis
    using assms(1) unfolding indexed_alt new ids by (simp add: index_wf_add index_wf_remove)
qed

lemma indexed_same:
  assumes "indexed index key cs" "\<And>c. key (f c) = key c" "\<And>c. sc_id (f c) = sc_id c"
  shows "indexed index key (upd_by sc_id i f cs)"
proof -
  have "(\<exists>c \<in> set (upd_by sc_id i f cs). key c = k \<and> sc_id c = j) \<longleftrightarrow> (\<exists>c \<in> set cs. key c = k \<and> sc_id c = j)" for k j
  proof -
    have "key (if b then f c else c) = key c" "sc_id (if b then f c else c) = sc_id c" for b c
      using assms(2,3) by simp_all
    then show ?thesis by (simp add: upd_by_def upd_where_def del: if_image_distrib)
  qed
  then show ?thesis using assms(1) by (simp add: indexed_alt)
qed

lemma hub_ok_empty: "hub_ok empty_hub"
  by (simp add: hub_ok_def empty_hub_def indexed_def distinct_key_def)

lemma hub_ok_register:
  "hub_ok h \<Longrightarrow> row_by sc_id newId (hub_clients h) = None \<Longrightarrow> hub_ok (registerSseClient newId now hn c g h)"
  using indexed_ins [of "hub_byGroup h" sc_groupId "hub_clients h"
      "\<lparr>sc_id = newId, sc_hostname = hn, sc_classroomId = c, sc_groupId = g, sc_lastWriteAt = now\<rparr>"]
    indexed_ins [of "hub_byClassroom h" sc_classroomId "hub_clients h"
      "\<lparr>sc_id = newId, sc_hostname = hn, sc_classroomId = c, sc_groupId = g, sc_lastWriteAt = now\<rparr>"]
  by (simp add: hub_ok_def registerSseClient_def distinct_key_ins) (simp add: ins_row_def)

lemma removeSseClient_clients: "hub_clients (removeSseClient i h) = del_by sc_id i (hub_clients h)"
proof (cases "row_by sc_id i (hub_clients h)")
  case None
  then have "del_by sc_id i (hub_clients h) = hub_clients h"
    by (auto simp: row_by_None_iff del_by_def del_where_def filter_id_conv)
  with None show ?thesis by (simp add: removeSseClient_def)
qed (simp add: removeSseClient_def stopKeepAliveIfIdle_def)

lemma hub_ok_remove: "hub_ok h \<Longrightarrow> hub_ok (removeSseClient i h)"
proof (cases "row_by sc_id i (hub_clients h)")
  case (Some c)
  assume "hub_ok h"
  then show ?thesis
    using Some row_by_SomeD [OF Some] indexed_del [of "hub_byGroup h" sc_groupId "hub_clients h" c]
      indexed_del [of "hub_byClassroom h" sc_classroomId "hub_clients h" c]
    distinct_key_del_by [of sc_id "hub_clients h" "sc_id c"]
    by (auto simp: hub_ok_def removeSseClient_def stopKeepAliveIfIdle_def)
qed (simp add: removeSseClient_def)

section \<open>Rounds\<close>

text \<open>
  What a round does to the connected clients and what it writes, given for each client whether it is
  addressed: with which group it goes on and what is written to it.
\<close>

definition after_write :: "(string \<Rightarrow> bool) \<Rightarrow> int \<Rightarrow> (sse_client \<Rightarrow> (string \<times> string) option) \<Rightarrow> sse_client \<Rightarrow> sse_client option" where
  "after_write ok now act c =
     (case act c of
        None \<Rightarrow> Some c
      | Some (g, _) \<Rightarrow> if ok (sc_id c) then Some (c\<lparr>sc_groupId := g, sc_lastWriteAt := now\<rparr>) else None)"

definition written :: "(string \<Rightarrow> bool) \<Rightarrow> (sse_client \<Rightarrow> (string \<times> string) option) \<Rightarrow> sse_client \<Rightarrow> (string \<times> string) list" where
  "written ok act c = (case act c of Some (_, p) \<Rightarrow> if ok (sc_id c) then [(sc_id c, p)] else [] | None \<Rightarrow> [])"

definition round :: "(string \<Rightarrow> bool) \<Rightarrow> int \<Rightarrow> (sse_client \<Rightarrow> (string \<times> string) option) \<Rightarrow> sse_client table \<Rightarrow> sse_client table" where
  "round ok now act cs = List.map_filter (after_write ok now act) cs"

definition messages :: "(string \<Rightarrow> bool) \<Rightarrow> (sse_client \<Rightarrow> (string \<times> string) option) \<Rightarrow> sse_client table \<Rightarrow> (string \<times> string) set" where
  "messages ok act cs = (\<Union>c \<in> set cs. set (written ok act c))"

lemma after_write_id: "after_write ok now act c = Some c' \<Longrightarrow> sc_id c' = sc_id c"
  by (auto simp: after_write_def split: option.splits if_splits)

lemma map_filter_Some: "List.map_filter (\<lambda>c. if P c then f c else Some c) cs = cs" if "\<And>c. c \<in> set cs \<Longrightarrow> \<not> P c"
  using that by (induction cs) (auto simp: List.map_filter_simps)

lemma round_one:
  assumes "distinct_key sc_id cs" "c \<in> set cs"
  shows "List.map_filter (\<lambda>x. if sc_id x = sc_id c then after_write ok now act x else Some x) cs =
    (case after_write ok now act c of
       None \<Rightarrow> del_by sc_id (sc_id c) cs | Some c' \<Rightarrow> upd_by sc_id (sc_id c) (\<lambda>_. c') cs)"
  using assms
proof (induction cs)
  case (Cons x cs)
  show ?case
  proof (cases "x = c")
    case True
    then have "sc_id y \<noteq> sc_id c" if "y \<in> set cs" for y
      using Cons.prems(1) True imageI [OF that, of sc_id] by (auto simp: distinct_key_def)
    then have "List.map_filter (\<lambda>x. if sc_id x = sc_id c then after_write ok now act x else Some x) cs = cs"
      "del_by sc_id (sc_id c) cs = cs" "upd_by sc_id (sc_id c) f cs = cs" for f
      by (auto simp: map_filter_Some del_by_def del_where_def upd_by_def upd_where_def filter_id_conv intro: map_idI)
    then show ?thesis
      using True by (auto simp: List.map_filter_simps del_by_def del_where_def upd_by_def upd_where_def split: option.splits)
  next
    case False
    then have "c \<in> set cs" "sc_id x \<noteq> sc_id c" using Cons.prems by (auto simp: distinct_key_def)
    then show ?thesis
      using Cons by (auto simp: List.map_filter_simps distinct_key_def del_by_def del_where_def upd_by_def upd_where_def
          split: option.splits)
  qed
qed simp

locale delivery =
  fixes step :: "sse_client \<Rightarrow> sse_hub \<Rightarrow> hub_io" and ok :: "string \<Rightarrow> bool" and now :: int
    and act :: "sse_client \<Rightarrow> (string \<times> string) option"
  assumes step_skip: "act c = None \<Longrightarrow> step c h = (h, [])"
    and step_writes: "snd (step c h) = written ok act c"
    and step_clients: "hub_ok h \<Longrightarrow> row_by sc_id (sc_id c) (hub_clients h) = Some c \<Longrightarrow> act c \<noteq> None \<Longrightarrow>
      hub_clients (fst (step c h)) =
        (case after_write ok now act c of
           None \<Rightarrow> del_by sc_id (sc_id c) (hub_clients h)
         | Some c' \<Rightarrow> upd_by sc_id (sc_id c) (\<lambda>_. c') (hub_clients h))"
    and step_ok: "hub_ok h \<Longrightarrow> row_by sc_id (sc_id c) (hub_clients h) = Some c \<Longrightarrow> hub_ok (fst (step c h))"
begin

lemma one_client:
  assumes "hub_ok h" "row_by sc_id i (hub_clients h) = Some c"
  shows "hub_clients (fst (step c h)) =
    List.map_filter (\<lambda>x. if sc_id x = i then after_write ok now act x else Some x) (hub_clients h)"
proof (cases "act c")
  case None
  have c: "c \<in> set (hub_clients h)" "sc_id c = i" "distinct_key sc_id (hub_clients h)"
    using assms row_by_SomeD [OF assms(2)] by (auto simp: hub_ok_def)
  then have "upd_by sc_id i (\<lambda>_. c) (hub_clients h) = hub_clients h"
    using distinct_key_eq [OF c(3)] by (auto simp: upd_by_def upd_where_def intro!: map_idI)
  then show ?thesis
    using None c round_one [OF c(3,1), of ok now act] step_skip by (simp add: after_write_def)
next
  case (Some p)
  then show ?thesis
    using assms row_by_SomeD [OF assms(2)] round_one [of "hub_clients h" c ok now act] step_clients [of h c]
    by (auto simp: hub_ok_def)
qed

lemma for_clients_round:
  assumes "hub_ok h" "distinct ids"
  shows "hub_ok (fst (for_clients step ids h)) \<and>
    hub_clients (fst (for_clients step ids h)) =
      List.map_filter (\<lambda>x. if sc_id x \<in> set ids then after_write ok now act x else Some x) (hub_clients h) \<and>
    set (snd (for_clients step ids h)) = messages ok act (filter (\<lambda>x. sc_id x \<in> set ids) (hub_clients h))"
  using assms
proof (induction ids arbitrary: h)
  case Nil
  then show ?case by (simp add: messages_def List.map_filter_def)
next
  case (Cons i ids)
  show ?case
  proof (cases "row_by sc_id i (hub_clients h)")
    case None
    then have "sc_id x \<noteq> i" if "x \<in> set (hub_clients h)" for x using that by (auto simp: row_by_None_iff)
    then have "List.map_filter (\<lambda>x. if sc_id x = i \<or> sc_id x \<in> set ids then after_write ok now act x else Some x) (hub_clients h) =
        List.map_filter (\<lambda>x. if sc_id x \<in> set ids then after_write ok now act x else Some x) (hub_clients h)"
      "filter (\<lambda>x. sc_id x = i \<or> sc_id x \<in> set ids) (hub_clients h) = filter (\<lambda>x. sc_id x \<in> set ids) (hub_clients h)"
      by (auto intro: map_filter_cong filter_cong)
    then show ?thesis using Cons None by simp
  next
    case (Some c)
    have c: "c \<in> set (hub_clients h)" "sc_id c = i" using row_by_SomeD [OF Some] by auto
    define h1 where "h1 = fst (step c h)"
    have step: "step c h = (h1, written ok act c)" using step_writes [of c h] by (metis h1_def prod.collapse)
    have h1: "hub_ok h1" "hub_clients h1 =
        List.map_filter (\<lambda>x. if sc_id x = i then after_write ok now act x else Some x) (hub_clients h)"
      unfolding h1_def using step_ok [of h c] one_client [OF Cons.prems(1) Some] Cons.prems(1) Some c by auto
    note IH = Cons.IH [OF h1(1)]
    have clients: "List.map_filter (\<lambda>x. if sc_id x \<in> set ids then after_write ok now act x else Some x)
        (List.map_filter (\<lambda>x. if sc_id x = i then after_write ok now act x else Some x) cs) =
      List.map_filter (\<lambda>x. if sc_id x = i \<or> sc_id x \<in> set ids then after_write ok now act x else Some x) cs" for cs
      using Cons.prems(2) after_write_id [of ok now act]
      by (induction cs) (auto simp: List.map_filter_simps split: option.splits)
    have others: "filter (\<lambda>x. sc_id x \<in> set ids)
        (List.map_filter (\<lambda>x. if sc_id x = i then after_write ok now act x else Some x) cs) =
      filter (\<lambda>x. sc_id x \<in> set ids) cs" for cs
      using Cons.prems(2) after_write_id [of ok now act]
      by (induction cs) (auto simp: List.map_filter_simps split: option.splits)
    have uniq: "x = c" if "x \<in> set (hub_clients h)" "sc_id x = i" for x
      using distinct_key_eq [of sc_id "hub_clients h" x c] Cons.prems(1) c that by (auto simp: hub_ok_def)
    have "set (filter (\<lambda>x. sc_id x = i \<or> sc_id x \<in> set ids) (hub_clients h)) =
        insert c (set (filter (\<lambda>x. sc_id x \<in> set ids) (hub_clients h)))"
      using c by (auto dest: uniq)
    then have "messages ok act (filter (\<lambda>x. sc_id x = i \<or> sc_id x \<in> set ids) (hub_clients h)) =
        set (written ok act c) \<union> messages ok act (filter (\<lambda>x. sc_id x \<in> set ids) (hub_clients h))"
      by (simp only: messages_def UN_insert)
    moreover have "for_clients step (i # ids) h =
        (fst (for_clients step ids h1), written ok act c @ snd (for_clients step ids h1))"
      by (simp add: Some step split: prod.split)
    ultimately show ?thesis
      using IH Cons.prems(2) by (simp add: h1(2) clients others del: for_clients.simps)
  qed
qed

lemma addressed_round:
  assumes "hub_ok h" "distinct ids" "\<And>x. x \<in> set (hub_clients h) \<Longrightarrow> sc_id x \<in> set ids \<longleftrightarrow> P x"
  shows "hub_ok (fst (for_clients step ids h)) \<and>
    hub_clients (fst (for_clients step ids h)) = round ok now (\<lambda>c. if P c then act c else None) (hub_clients h) \<and>
    set (snd (for_clients step ids h)) = messages ok (\<lambda>c. if P c then act c else None) (hub_clients h)"
proof -
  have "List.map_filter (\<lambda>x. if sc_id x \<in> set ids then after_write ok now act x else Some x) (hub_clients h) =
      round ok now (\<lambda>c. if P c then act c else None) (hub_clients h)"
    unfolding round_def using assms(3) by (intro map_filter_cong) (simp add: after_write_def)
  moreover have "messages ok act (filter (\<lambda>x. sc_id x \<in> set ids) (hub_clients h)) =
      messages ok (\<lambda>c. if P c then act c else None) (hub_clients h)"
  proof -
    have "written ok (\<lambda>c. if P c then act c else None) x = (if P x then written ok act x else [])" for x
      by (simp add: written_def)
    then show ?thesis using assms(3) by (auto simp: messages_def split: if_splits)
  qed
  ultimately show ?thesis using for_clients_round [OF assms(1,2)] by simp
qed

end

lemma same_group [simp]: "c\<lparr>sc_groupId := sc_groupId c, sc_lastWriteAt := t\<rparr> = c\<lparr>sc_lastWriteAt := t\<rparr>"
  by (cases c) simp

lemma tryWrite_clients:
  assumes "hub_ok h" "row_by sc_id (sc_id c) (hub_clients h) = Some c"
  shows "hub_clients (fst (tryWrite ok now c p h)) =
      (if ok (sc_id c) then upd_by sc_id (sc_id c) (\<lambda>_. c\<lparr>sc_lastWriteAt := now\<rparr>) (hub_clients h)
       else del_by sc_id (sc_id c) (hub_clients h))"
    and "hub_ok (fst (tryWrite ok now c p h))"
proof -
  have d: "distinct_key sc_id (hub_clients h)" using assms(1) by (simp add: hub_ok_def)
  show "hub_clients (fst (tryWrite ok now c p h)) =
      (if ok (sc_id c) then upd_by sc_id (sc_id c) (\<lambda>_. c\<lparr>sc_lastWriteAt := now\<rparr>) (hub_clients h)
       else del_by sc_id (sc_id c) (hub_clients h))"
    using upd_by_const [OF d assms(2), of "\<lambda>c. c\<lparr>sc_lastWriteAt := now\<rparr>"]
    by (simp add: tryWrite_def removeSseClient_clients)
  have "hub_ok (h\<lparr>hub_clients := upd_by sc_id (sc_id c) (\<lambda>c. c\<lparr>sc_lastWriteAt := now\<rparr>) (hub_clients h)\<rparr>)"
    using assms(1) by (auto simp: hub_ok_def distinct_key_upd_by indexed_same)
      (simp_all add: upd_by_def upd_where_def)
  then show "hub_ok (fst (tryWrite ok now c p h))"
    using hub_ok_remove [OF assms(1)] by (simp add: tryWrite_def)
qed

lemma tryWrite_writes: "snd (tryWrite ok now c p h) = (if ok (sc_id c) then [(sc_id c, p)] else [])"
  by (simp add: tryWrite_def)

definition to_everyone :: "(sse_client \<Rightarrow> string) \<Rightarrow> sse_client \<Rightarrow> (string \<times> string) option" where
  "to_everyone payload c = Some (sc_groupId c, payload c)"

definition to_idle :: "int \<Rightarrow> sse_client \<Rightarrow> (string \<times> string) option" where
  "to_idle now c = (if now - sc_lastWriteAt c < KEEP_ALIVE_IDLE_MS then None else Some (sc_groupId c, keep_alive_payload))"

definition to_moved :: "(sse_client \<Rightarrow> string option) \<Rightarrow> sse_client \<Rightarrow> (string \<times> string) option" where
  "to_moved next c = map_option (\<lambda>g. (g, changed_payload g)) (next c)"

interpretation fixed_payload: delivery "\<lambda>c. tryWrite ok now c (payload c)" ok now "to_everyone payload" for ok now payload
  by unfold_locales
    (simp_all add: to_everyone_def after_write_def written_def tryWrite_clients tryWrite_writes)

interpretation keep_alive: delivery "keep_alive_step ok now" ok now "to_idle now" for ok now
  by unfold_locales
    (simp_all add: to_idle_def keep_alive_step_def after_write_def written_def tryWrite_clients tryWrite_writes split: if_splits)

lemma hub_ok_move:
  assumes "hub_ok h" "row_by sc_id (sc_id c) (hub_clients h) = Some c"
  shows "hub_ok (h\<lparr>hub_byGroup := indexAdd (indexRemove (hub_byGroup h) (sc_groupId c) (sc_id c)) g (sc_id c),
    hub_clients := upd_by sc_id (sc_id c) (\<lambda>c. c\<lparr>sc_groupId := g\<rparr>) (hub_clients h)\<rparr>)"
  using assms row_by_SomeD [OF assms(2)]
    indexed_move [of "hub_byGroup h" sc_groupId "hub_clients h" c "\<lambda>c. c\<lparr>sc_groupId := g\<rparr>"]
  by (auto simp: hub_ok_def distinct_key_upd_by indexed_same) (simp_all add: upd_by_def upd_where_def)

lemma retarget_moves:
  assumes "hub_ok h" "row_by sc_id (sc_id c) (hub_clients h) = Some c" "next c = Some g"
  shows "hub_clients (fst (retarget ok now next c h)) =
      (if ok (sc_id c) then upd_by sc_id (sc_id c) (\<lambda>_. c\<lparr>sc_groupId := g, sc_lastWriteAt := now\<rparr>) (hub_clients h)
       else del_by sc_id (sc_id c) (hub_clients h))"
    and "hub_ok (fst (retarget ok now next c h))"
proof -
  let ?h = "h\<lparr>hub_byGroup := indexAdd (indexRemove (hub_byGroup h) (sc_groupId c) (sc_id c)) g (sc_id c),
    hub_clients := upd_by sc_id (sc_id c) (\<lambda>c. c\<lparr>sc_groupId := g\<rparr>) (hub_clients h)\<rparr>"
  have row: "row_by sc_id (sc_id (c\<lparr>sc_groupId := g\<rparr>)) (hub_clients ?h) = Some (c\<lparr>sc_groupId := g\<rparr>)"
    using assms(2) by (simp add: row_by_upd)
  note w = tryWrite_clients [OF hub_ok_move [OF assms(1,2)] row, of ok now "changed_payload g"]
  show "hub_ok (fst (retarget ok now next c h))" using w(2) assms(3) by (simp add: retarget_def)
  show "hub_clients (fst (retarget ok now next c h)) =
      (if ok (sc_id c) then upd_by sc_id (sc_id c) (\<lambda>_. c\<lparr>sc_groupId := g, sc_lastWriteAt := now\<rparr>) (hub_clients h)
       else del_by sc_id (sc_id c) (hub_clients h))"
    using w(1) assms(3) by (simp add: retarget_def upd_by_upd_const del_by_upd)
qed

interpretation moved: delivery "retarget ok now next" ok now "to_moved next" for ok now "next"
proof unfold_locales
  fix c h
  show "retarget ok now next c h = (h, [])" if "to_moved next c = None"
    using that by (simp add: to_moved_def retarget_def)
  show "snd (retarget ok now next c h) = written ok (to_moved next) c"
    by (auto simp: to_moved_def retarget_def written_def tryWrite_writes split: option.splits)
  assume h: "hub_ok h" "row_by sc_id (sc_id c) (hub_clients h) = Some c"
  show "hub_ok (fst (retarget ok now next c h))"
    using h retarget_moves(2) [OF h] by (cases "next c") (simp_all add: retarget_def)
  show "hub_clients (fst (retarget ok now next c h)) =
      (case after_write ok now (to_moved next) c of
         None \<Rightarrow> del_by sc_id (sc_id c) (hub_clients h) | Some c' \<Rightarrow> upd_by sc_id (sc_id c) (\<lambda>_. c') (hub_clients h))"
    if "to_moved next c \<noteq> None"
    using that retarget_moves(1) [OF h] by (auto simp: to_moved_def after_write_def)
qed

section \<open>What each operation does\<close>

definition to_group :: "string \<Rightarrow> sse_client \<Rightarrow> (string \<times> string) option" where
  "to_group g c = (if sc_groupId c = g then Some (g, changed_payload g) else None)"

definition to_classroom :: "string \<Rightarrow> (sse_client \<Rightarrow> string option) \<Rightarrow> sse_client \<Rightarrow> (string \<times> string) option" where
  "to_classroom classroomId next c = (if sc_classroomId c = classroomId then to_moved next c else None)"

lemma round_none: "(\<And>c. c \<in> set cs \<Longrightarrow> act c = None) \<Longrightarrow> round ok now act cs = cs \<and> messages ok act cs = {}"
proof -
  assume none: "\<And>c. c \<in> set cs \<Longrightarrow> act c = None"
  then have "round ok now act cs = cs"
    unfolding round_def by (induction cs) (auto simp: List.map_filter_simps after_write_def)
  then show ?thesis using none by (simp add: messages_def written_def)
qed

lemma indexed_lookup:
  assumes "indexed index key cs" "distinct_key sc_id cs" "index k = Some ids"
  shows "distinct ids" "c \<in> set cs \<Longrightarrow> sc_id c \<in> set ids \<longleftrightarrow> key c = k"
proof -
  have i: "distinct ids" "set ids = sc_id ` {c \<in> set cs. key c = k}"
    using assms(1,3) unfolding indexed_def by (auto split: option.splits)
  show "distinct ids" by (rule i(1))
  show "sc_id c \<in> set ids \<longleftrightarrow> key c = k" if "c \<in> set cs"
    unfolding i(2) using that distinct_key_eq [OF assms(2)] by blast
qed

lemma hub_okD:
  assumes "hub_ok h"
  shows "distinct_key sc_id (hub_clients h)" "indexed (hub_byGroup h) sc_groupId (hub_clients h)"
    "indexed (hub_byClassroom h) sc_classroomId (hub_clients h)"
  using assms by (simp_all add: hub_ok_def)

lemma indexed_absent: "indexed index key cs \<Longrightarrow> index k = None \<Longrightarrow> c \<in> set cs \<Longrightarrow> key c \<noteq> k"
  unfolding indexed_def by (force split: option.splits)

text \<open>The result of an operation as a round over the clients of a hub.\<close>

definition is_round :: "(string \<Rightarrow> bool) \<Rightarrow> int \<Rightarrow> (sse_client \<Rightarrow> (string \<times> string) option) \<Rightarrow> sse_hub \<Rightarrow> hub_io \<Rightarrow> bool" where
  "is_round ok now act h res \<longleftrightarrow>
     hub_ok (fst res) \<and> hub_clients (fst res) = round ok now act (hub_clients h) \<and>
     set (snd res) = messages ok act (hub_clients h)"

lemma is_round_skip: "hub_ok h \<Longrightarrow> (\<And>c. c \<in> set (hub_clients h) \<Longrightarrow> act c = None) \<Longrightarrow> is_round ok now act h (h, [])"
  using round_none [of "hub_clients h" act ok now] by (simp add: is_round_def)

lemma publishGroup_round:
  assumes "hub_ok h"
  shows "is_round ok now (to_group g) h (publishGroupChangedLocal ok now g h)"
proof (cases "hub_byGroup h g")
  case None
  then have "to_group g c = None" if "c \<in> set (hub_clients h)" for c
    using that assms indexed_absent [of "hub_byGroup h" sc_groupId "hub_clients h" g c] by (simp add: to_group_def hub_ok_def)
  with None is_round_skip [OF assms] show ?thesis by (simp add: publishGroupChangedLocal_def)
next
  case (Some ids)
  have "(\<lambda>c. if sc_groupId c = g then to_everyone (\<lambda>_. changed_payload g) c else None) = to_group g"
    by (auto simp: to_everyone_def to_group_def)
  then show ?thesis
    using Some indexed_lookup [OF hub_okD(2,1) [OF assms], of g ids]
      fixed_payload.addressed_round [OF assms, of ids "\<lambda>c. sc_groupId c = g" ok now "\<lambda>_. changed_payload g"]
    by (simp add: publishGroupChangedLocal_def is_round_def)
qed

lemma all_clients_round:
  assumes "hub_ok h"
  shows "is_round ok now (to_everyone payload) h (for_clients (\<lambda>c. tryWrite ok now c (payload c)) (map sc_id (hub_clients h)) h)"
    and "is_round ok now (to_idle now) h (keepAliveTick ok now h)"
  using hub_okD(1) [OF assms] fixed_payload.addressed_round [OF assms, of "map sc_id (hub_clients h)" "\<lambda>_. True" ok now payload]
    keep_alive.addressed_round [OF assms, of "map sc_id (hub_clients h)" "\<lambda>_. True" ok now]
  by (simp_all add: is_round_def distinct_key_def keepAliveTick_def)

lemma publishBroadcast_round:
  "hub_ok h \<Longrightarrow> is_round ok now (to_everyone (\<lambda>c. changed_payload (sc_groupId c))) h (publishBroadcastLocal ok now h)"
  unfolding publishBroadcastLocal_def by (rule all_clients_round)

lemma publishClassroom_round:
  assumes "hub_ok h"
  shows "is_round ok wall
    (to_classroom classroomId (next_group unrestricted (exempt classroomId now)
       (case ctx classroomId now of Some x \<Rightarrow> serializePolicyGroupId x | None \<Rightarrow> None))) h
    (publishClassroomChangedLocal ctx exempt unrestricted ok wall classroomId now h)"
proof (cases "hub_byClassroom h classroomId")
  case None
  then have "to_classroom classroomId next c = None" if "c \<in> set (hub_clients h)" for c "next"
    using that assms indexed_absent [of "hub_byClassroom h" sc_classroomId "hub_clients h" classroomId c]
    by (simp add: to_classroom_def hub_ok_def)
  with None is_round_skip [OF assms] show ?thesis by (simp add: publishClassroomChangedLocal_def)
next
  case (Some ids)
  show ?thesis
  proof (cases "ctx classroomId now = None \<and> exempt classroomId now = []")
    case True
    then have "to_classroom classroomId (next_group unrestricted (exempt classroomId now) None) c = None" for c
      by (simp add: to_classroom_def to_moved_def next_group_def)
    with True Some is_round_skip [OF assms] show ?thesis by (simp add: publishClassroomChangedLocal_def)
  next
    case False
    let ?next = "next_group unrestricted (exempt classroomId now)
       (case ctx classroomId now of Some x \<Rightarrow> serializePolicyGroupId x | None \<Rightarrow> None)"
    have "(\<lambda>c. if sc_classroomId c = classroomId then to_moved ?next c else None) = to_classroom classroomId ?next"
      by (auto simp: to_classroom_def)
    then show ?thesis
      using Some False indexed_lookup [OF hub_okD(3,1) [OF assms], of classroomId ids]
        moved.addressed_round [OF assms, of ids "\<lambda>c. sc_classroomId c = classroomId" ok wall ?next]
      by (auto simp: publishClassroomChangedLocal_def is_round_def Let_def)
  qed
qed

section \<open>The hub and the list of its clients\<close>

inductive hub_reach :: "sse_hub \<Rightarrow> bool" where
  start: "hub_reach empty_hub"
| connect: "hub_reach h \<Longrightarrow> row_by sc_id newId (hub_clients h) = None \<Longrightarrow> hub_reach (registerSseClient newId now hn c g h)"
| disconnect: "hub_reach h \<Longrightarrow> hub_reach (removeSseClient i h)"
| keep_alive: "hub_reach h \<Longrightarrow> hub_reach (fst (keepAliveTick ok now h))"
| group_changed: "hub_reach h \<Longrightarrow> hub_reach (fst (publishGroupChangedLocal ok now g h))"
| broadcast: "hub_reach h \<Longrightarrow> hub_reach (fst (publishBroadcastLocal ok now h))"
| classroom_changed: "hub_reach h \<Longrightarrow>
    hub_reach (fst (publishClassroomChangedLocal ctx exempt unrestricted ok wall c now h))"

lemmas hub_rounds = publishGroup_round publishBroadcast_round all_clients_round(2) publishClassroom_round

lemma hub_reach_ok: "hub_reach h \<Longrightarrow> hub_ok h"
  by (induction rule: hub_reach.induct)
    (use hub_rounds in \<open>auto simp: is_round_def hub_ok_empty intro: hub_ok_register hub_ok_remove\<close>)

text \<open>C5: the hub with its two indexes behaves as the plain list of its clients.  A change of a group is written
  to exactly the clients of that group, a broadcast to all, a keep-alive comment to those idle for 25 seconds, a change
  of a classroom to exactly those of its clients whose group changes, who then listen to the new group; whoever's stream
  throws is dropped, and nobody else's entry changes.\<close>
theorem hub_is_client_list:
  assumes "hub_reach h"
  shows "(hub_clients (fst (publishGroupChangedLocal ok now g h)), set (snd (publishGroupChangedLocal ok now g h))) =
      (round ok now (to_group g) (hub_clients h), messages ok (to_group g) (hub_clients h)) \<and>
    (hub_clients (fst (publishBroadcastLocal ok now h)), set (snd (publishBroadcastLocal ok now h))) =
      (round ok now (to_everyone (\<lambda>c. changed_payload (sc_groupId c))) (hub_clients h),
       messages ok (to_everyone (\<lambda>c. changed_payload (sc_groupId c))) (hub_clients h)) \<and>
    (hub_clients (fst (keepAliveTick ok now h)), set (snd (keepAliveTick ok now h))) =
      (round ok now (to_idle now) (hub_clients h), messages ok (to_idle now) (hub_clients h)) \<and>
    (let res = publishClassroomChangedLocal ctx exempt unrestricted ok wall k now h;
         act = to_classroom k (next_group unrestricted (exempt k now)
           (case ctx k now of Some x \<Rightarrow> serializePolicyGroupId x | None \<Rightarrow> None))
     in (hub_clients (fst res), set (snd res)) = (round ok wall act (hub_clients h), messages ok act (hub_clients h)))"
  using hub_rounds [OF hub_reach_ok [OF assms]] by (simp add: is_round_def Let_def)

definition demo_hub :: sse_hub where
  "demo_hub = registerSseClient ''c2'' 0 ''pc2'' ''lab'' ''g2'' (registerSseClient ''c1'' 0 ''pc1'' ''lab'' ''g1'' empty_hub)"

lemma demo_hub_reach: "hub_reach demo_hub"
  unfolding demo_hub_def by (intro hub_reach.connect hub_reach.start) code_simp+

theorem hub_is_client_list_witness:
  "set (snd (publishGroupChangedLocal (\<lambda>_. True) 5 ''g1'' demo_hub)) = {(''c1'', changed_payload ''g1'')} \<and>
   map sc_id (hub_clients (fst (publishBroadcastLocal (\<lambda>i. i \<noteq> ''c1'') 5 demo_hub))) = [''c2'']"
proof -
  note all = hub_is_client_list [OF demo_hub_reach, of "\<lambda>_. True" 5 "''g1''"] hub_is_client_list [OF demo_hub_reach, of "\<lambda>i. i \<noteq> ''c1''" 5]
  have "messages (\<lambda>_. True) (to_group ''g1'') (hub_clients demo_hub) = {(''c1'', changed_payload ''g1'')}"
    "map sc_id (round (\<lambda>i. i \<noteq> ''c1'') 5 (to_everyone (\<lambda>c. changed_payload (sc_groupId c))) (hub_clients demo_hub)) = [''c2'']"
    by code_simp+
  with all show ?thesis by simp
qed

end
