(* ===== verification/Event_Delivery.thy ===== *)
theory Event_Delivery
  imports Event_Hub
begin

text \<open>
  From a published event to the machines, on one server and on several: \<open>api/src/lib/rule-events.ts\<close>,
  \<open>db-event-bridge.ts\<close>, \<open>api/src/services/domain-events/dispatcher.ts\<close>, \<open>machine-events.service.ts\<close>,
  \<open>schedule-change-delivery.service.ts\<close> and the tick of \<open>schedule-boundary-ticker.ts\<close>.

  An event is published on the hub of the server where it arises and sent through the database to the other
  servers; a server ignores what it sent itself.  Each handler runs as one step on the tables and the hub.
  \<open>wall\<close> is the wall clock.  \<open>expected_group\<close> is the group under which the hub would put a client now;
  \<open>follows_policy\<close> says that a client listens to the group its machine downloads, which is the same unless an exemption
  names a group (\<open>in_sync_policy\<close>), and \<open>tick_keeps_sync\<close> that the minute tick moves the machines whose group changes
  with time.
\<close>

section \<open>Events between servers\<close>

datatype db_event =
    DE_group string "string option"
  | DE_classroom string "string option"
  | DE_broadcast "string option"

text \<open>The parsed payload of a notification; a field that is absent or not a string is \<open>None\<close>.\<close>

record event_json =
  ej_type :: "string option"
  ej_groupId :: "string option"
  ej_classroomId :: "string option"
  ej_origin :: "string option"

fun db_event_json :: "db_event \<Rightarrow> event_json" where
  "db_event_json (DE_group g origin) = \<lparr>ej_type = Some ''group'', ej_groupId = Some g, ej_classroomId = None, ej_origin = origin\<rparr>"
| "db_event_json (DE_classroom c origin) = \<lparr>ej_type = Some ''classroom'', ej_groupId = None, ej_classroomId = Some c, ej_origin = origin\<rparr>"
| "db_event_json (DE_broadcast origin) = \<lparr>ej_type = Some ''broadcast'', ej_groupId = None, ej_classroomId = None, ej_origin = origin\<rparr>"

definition truthy :: "string option \<Rightarrow> string option" where
  "truthy x = (case x of Some s \<Rightarrow> if s = [] then None else Some s | None \<Rightarrow> None)"

definition handleNotificationPayload :: "string \<Rightarrow> event_json option \<Rightarrow> db_event option" where
  "handleNotificationPayload instanceId payload =
     (case payload of
        None \<Rightarrow> None
      | Some evt \<Rightarrow>
          if truthy (ej_origin evt) \<noteq> None \<and> ej_origin evt = Some instanceId then None
          else if ej_type evt = Some ''group'' \<and> truthy (ej_groupId evt) \<noteq> None
            then Some (DE_group (the (ej_groupId evt)) (truthy (ej_origin evt)))
          else if ej_type evt = Some ''classroom'' \<and> truthy (ej_classroomId evt) \<noteq> None
            then Some (DE_classroom (the (ej_classroomId evt)) (truthy (ej_origin evt)))
          else if ej_type evt = Some ''broadcast'' then Some (DE_broadcast (truthy (ej_origin evt)))
          else None)"

section \<open>Emitting an event\<close>

definition hub_classroom_changed ::
  "(int \<Rightarrow> int) \<Rightarrow> (string \<Rightarrow> bool) \<Rightarrow> int \<Rightarrow> school_db \<Rightarrow> string \<Rightarrow> int \<Rightarrow> sse_hub \<Rightarrow> hub_io" where
  "hub_classroom_changed tz ok wall db classroomId now =
     publishClassroomChangedLocal (\<lambda>c t. resolveEffectiveClassroomPolicyContext tz c t db)
       (\<lambda>c t. getActiveExemptHostnamesByClassroom c t db) UNRESTRICTED_GROUP_ID ok wall classroomId now"

fun onEvent :: "(int \<Rightarrow> int) \<Rightarrow> (string \<Rightarrow> bool) \<Rightarrow> int \<Rightarrow> school_db \<Rightarrow> db_event \<Rightarrow> sse_hub \<Rightarrow> hub_io" where
  "onEvent tz ok wall db (DE_group g _) h = publishGroupChangedLocal ok wall g h"
| "onEvent tz ok wall db (DE_classroom c _) h = hub_classroom_changed tz ok wall db c wall h"
| "onEvent tz ok wall db (DE_broadcast _) h = publishBroadcastLocal ok wall h"

definition emitWhitelistChanged :: "string \<Rightarrow> (string \<Rightarrow> bool) \<Rightarrow> int \<Rightarrow> string \<Rightarrow> sse_hub \<Rightarrow> hub_io \<times> db_event" where
  "emitWhitelistChanged inst ok wall groupId h =
     (publishGroupChangedLocal ok wall groupId h, DE_group groupId (Some inst))"

definition emitClassroomChanged ::
  "string \<Rightarrow> (int \<Rightarrow> int) \<Rightarrow> (string \<Rightarrow> bool) \<Rightarrow> int \<Rightarrow> school_db \<Rightarrow> string \<Rightarrow> int option \<Rightarrow> sse_hub \<Rightarrow> hub_io \<times> db_event" where
  "emitClassroomChanged inst tz ok wall db classroomId now h =
     (hub_classroom_changed tz ok wall db classroomId (or_else now wall) h, DE_classroom classroomId (Some inst))"

definition emitAllWhitelistsChanged :: "string \<Rightarrow> (string \<Rightarrow> bool) \<Rightarrow> int \<Rightarrow> sse_hub \<Rightarrow> hub_io \<times> db_event" where
  "emitAllWhitelistsChanged inst ok wall h = (publishBroadcastLocal ok wall h, DE_broadcast (Some inst))"

fun publish ::
  "string \<Rightarrow> (int \<Rightarrow> int) \<Rightarrow> (string \<Rightarrow> bool) \<Rightarrow> int \<Rightarrow> school_db \<Rightarrow> domain_event \<Rightarrow> sse_hub \<Rightarrow> hub_io \<times> db_event" where
  "publish inst tz ok wall db (WhitelistChanged g) h = emitWhitelistChanged inst ok wall g h"
| "publish inst tz ok wall db AllWhitelistsChanged h = emitAllWhitelistsChanged inst ok wall h"
| "publish inst tz ok wall db (ClassroomChanged c now) h = emitClassroomChanged inst tz ok wall db c now h"

fun publishBatch ::
  "string \<Rightarrow> (int \<Rightarrow> int) \<Rightarrow> (string \<Rightarrow> bool) \<Rightarrow> int \<Rightarrow> school_db \<Rightarrow> domain_event list \<Rightarrow> sse_hub \<Rightarrow> hub_io \<times> db_event list" where
  "publishBatch inst tz ok wall db [] h = ((h, []), [])"
| "publishBatch inst tz ok wall db (e # es) h =
     (case publish inst tz ok wall db e h of ((h1, w1), n1) \<Rightarrow>
        (case publishBatch inst tz ok wall db es h1 of ((h2, w2), ns) \<Rightarrow> ((h2, w1 @ w2), n1 # ns)))"

section \<open>Connecting a machine\<close>

datatype stream_result = Stream_opened string | Stream_refused machine_policy_error

text \<open>The first write goes to a stream that was just opened.\<close>

definition openMachineEventsStream ::
  "(string \<Rightarrow> string) \<Rightarrow> (int \<Rightarrow> int) \<Rightarrow> string \<Rightarrow> string option \<Rightarrow> query_param \<Rightarrow> int \<Rightarrow> school_db \<Rightarrow> sse_hub \<Rightarrow>
   stream_result \<times> school_db \<times> hub_io" where
  "openMachineEventsStream sha_hex tz newId authorizationHeader queryToken now db h =
     (case resolveMachineEventsAccess sha_hex tz authorizationHeader queryToken now db of
        Inl e \<Rightarrow> (Stream_refused e, db, h, [])
      | Inr access \<Rightarrow>
          let machine = eva_machine access
          in (Stream_opened newId, snd (updateMachineLastSeen now (mac_hostname machine) db),
              registerSseClient newId now (mac_hostname machine) (eva_classroomId access) (eva_groupId access) h,
              [(newId, connected_payload (eva_groupId access) (mac_hostname machine))]))"

section \<open>The minute tick\<close>

record schedule_change_delivery =
  scd_classroomIds :: "string list"
  scd_boundaryClassroomIds :: "string list"
  scd_expiredExemptionClassroomIds :: "string list"

text \<open>\<open>fails\<close> says that the database refuses the deletion, which is logged and otherwise ignored.\<close>

definition resolveScheduleChangeDelivery ::
  "(int \<Rightarrow> int) \<Rightarrow> bool \<Rightarrow> int \<Rightarrow> school_db \<Rightarrow> schedule_change_delivery \<times> school_db" where
  "resolveScheduleChangeDelivery tz fails now db =
     (let boundaryClassroomIds = uniqueClassroomIds (getClassroomIdsWithBoundaryAt tz now (db_schedules db))
      in case (if fails then ([], db) else deleteExpiredMachineExemptions now db) of (expired, db') \<Rightarrow>
           let expiredExemptionClassroomIds = uniqueClassroomIds expired
           in (\<lparr>scd_classroomIds = uniqueClassroomIds (boundaryClassroomIds @ expiredExemptionClassroomIds),
                scd_boundaryClassroomIds = boundaryClassroomIds,
                scd_expiredExemptionClassroomIds = expiredExemptionClassroomIds\<rparr>, db'))"

definition emitScheduleChangeDelivery ::
  "string \<Rightarrow> (int \<Rightarrow> int) \<Rightarrow> (string \<Rightarrow> bool) \<Rightarrow> int \<Rightarrow> school_db \<Rightarrow> schedule_change_delivery \<Rightarrow> int \<Rightarrow> sse_hub \<Rightarrow>
   hub_io \<times> db_event list" where
  "emitScheduleChangeDelivery inst tz ok wall db d now =
     publishBatch inst tz ok wall db
       (map (\<lambda>c. ClassroomChanged c (Some now)) (uniqueClassroomIds (scd_classroomIds d)))"

definition runTickOnce ::
  "string \<Rightarrow> (int \<Rightarrow> int) \<Rightarrow> bool \<Rightarrow> (string \<Rightarrow> bool) \<Rightarrow> int \<Rightarrow> int \<Rightarrow> school_db \<Rightarrow> sse_hub \<Rightarrow>
   school_db \<times> hub_io \<times> db_event list" where
  "runTickOnce inst tz fails ok wall now db h =
     (case resolveScheduleChangeDelivery tz fails now db of (d, db') \<Rightarrow>
        if scd_classroomIds d = [] then (db', (h, []), [])
        else (db', emitScheduleChangeDelivery inst tz ok wall db' d now h))"

section \<open>The hub's view of a client\<close>

text \<open>A helper of the proofs: the group \<open>publishClassroomChangedLocal\<close> would give a client.\<close>

definition expected_group :: "(int \<Rightarrow> int) \<Rightarrow> int \<Rightarrow> school_db \<Rightarrow> sse_client \<Rightarrow> string option" where
  "expected_group tz now db c =
     (if sc_hostname c \<in> set (getActiveExemptHostnamesByClassroom (sc_classroomId c) now db) then Some UNRESTRICTED_GROUP_ID
      else case resolveEffectiveClassroomPolicyContext tz (sc_classroomId c) now db of
             Some ctx \<Rightarrow> serializePolicyGroupId ctx | None \<Rightarrow> None)"

definition in_sync :: "(int \<Rightarrow> int) \<Rightarrow> int \<Rightarrow> school_db \<Rightarrow> sse_client \<Rightarrow> bool" where
  "in_sync tz now db c \<longleftrightarrow> expected_group tz now db c = Some (sc_groupId c)"

lemma scope_group_present: "fst (resolveCurrentGroup a s d) = Some g \<Longrightarrow> g \<noteq> []"
  by (auto simp: resolveCurrentGroup_def present_def split: if_splits option.splits)

lemma serialize_context:
  "\<exists>g. serializePolicyGroupId (toEffectivePolicyContext (resolveClassroomPolicyScopeForRecord tz cl now db)) = Some g \<and> g \<noteq> []"
  by (auto simp: serializePolicyGroupId_def toEffectivePolicyContext_def resolveClassroomPolicyScopeForRecord_def
      buildClassroomPolicyScope_def Let_def UNRESTRICTED_GROUP_ID_def dest: scope_group_present)

lemma expected_group_Some:
  assumes "getClassroomById (sc_classroomId c) db \<noteq> None"
  shows "\<exists>g. expected_group tz now db c = Some g \<and> g \<noteq> []"
  using assms serialize_context [of tz _ now db]
  by (auto simp: expected_group_def resolveEffectiveClassroomPolicyContext_def resolveClassroomPolicyScope_def UNRESTRICTED_GROUP_ID_def)

lemma expected_group_same:
  "sc_hostname c' = sc_hostname c \<Longrightarrow> sc_classroomId c' = sc_classroomId c \<Longrightarrow> expected_group tz now db c' = expected_group tz now db c"
  by (simp add: expected_group_def)

lemma next_group_expected:
  assumes "expected_group tz now db c = Some g" "g \<noteq> []"
  shows "next_group UNRESTRICTED_GROUP_ID (getActiveExemptHostnamesByClassroom (sc_classroomId c) now db)
      (case resolveEffectiveClassroomPolicyContext tz (sc_classroomId c) now db of
         Some ctx \<Rightarrow> serializePolicyGroupId ctx | None \<Rightarrow> None) c =
    (if sc_groupId c = g then None else Some g)"
  using assms by (auto simp: next_group_def expected_group_def split: if_splits)

lemma round_mem: "c' \<in> set (round ok now act cs) \<longleftrightarrow> (\<exists>c \<in> set cs. after_write ok now act c = Some c')"
  by (force simp: round_def List.map_filter_def image_iff)

text \<open>After a classroom was announced its clients are in step, and all others are as they were.\<close>

lemma classroom_round_sync:
  assumes "hub_ok h" "getClassroomById (sc_classroomId c') db \<noteq> None"
    and "c' \<in> set (hub_clients (fst (hub_classroom_changed tz ok wall db k now h)))"
  shows "\<exists>c \<in> set (hub_clients h). sc_hostname c' = sc_hostname c \<and> sc_classroomId c' = sc_classroomId c \<and>
    (if sc_classroomId c = k then in_sync tz now db c' else c' = c)"
proof -
  let ?next = "next_group UNRESTRICTED_GROUP_ID (getActiveExemptHostnamesByClassroom k now db)
      (case resolveEffectiveClassroomPolicyContext tz k now db of Some ctx \<Rightarrow> serializePolicyGroupId ctx | None \<Rightarrow> None)"
  have "is_round ok wall (to_classroom k ?next) h (hub_classroom_changed tz ok wall db k now h)"
    unfolding hub_classroom_changed_def by (rule publishClassroom_round [OF assms(1)])
  then obtain c where c: "c \<in> set (hub_clients h)" "after_write ok wall (to_classroom k ?next) c = Some c'"
    using assms(3) by (auto simp: is_round_def round_mem)
  show ?thesis
  proof (cases "sc_classroomId c = k")
    case True
    have "sc_classroomId c' = sc_classroomId c"
      using c(2) by (auto simp: after_write_def to_classroom_def to_moved_def split: if_splits option.splits)
    then obtain g where g: "expected_group tz now db c = Some g" "g \<noteq> []"
      using expected_group_Some [of c db] assms(2) by auto
    have "?next c = (if sc_groupId c = g then None else Some g)" using next_group_expected [OF g] True by simp
    then have "c' = c \<and> sc_groupId c = g \<or> c' = c\<lparr>sc_groupId := g, sc_lastWriteAt := wall\<rparr>"
      using c(2) True by (auto simp: after_write_def to_classroom_def to_moved_def split: if_splits)
    then show ?thesis
      using c(1) True g expected_group_same [of c' c tz now db] by (intro bexI [of _ c]) (auto simp: in_sync_def)
  next
    case False
    then have "c' = c" using c(2) by (simp add: after_write_def to_classroom_def)
    with c(1) False show ?thesis by auto
  qed
qed

lemma hub_ok_classroom_changed: "hub_ok h \<Longrightarrow> hub_ok (fst (hub_classroom_changed tz ok wall db k now h))"
  unfolding hub_classroom_changed_def using publishClassroom_round is_round_def by metis

lemma batch_head:
  "c' \<in> set (hub_clients (fst (fst (publishBatch inst tz ok wall db (ClassroomChanged k t # es) h)))) \<longleftrightarrow>
   c' \<in> set (hub_clients (fst (fst (publishBatch inst tz ok wall db es (fst (hub_classroom_changed tz ok wall db k (or_else t wall) h))))))"
  by (simp add: emitClassroomChanged_def split: prod.splits)

lemma classroom_round_client:
  assumes "hub_ok h" "c' \<in> set (hub_clients (fst (hub_classroom_changed tz ok wall db k now h)))"
  shows "\<exists>c \<in> set (hub_clients h). sc_hostname c' = sc_hostname c \<and> sc_classroomId c' = sc_classroomId c"
proof -
  let ?next = "next_group UNRESTRICTED_GROUP_ID (getActiveExemptHostnamesByClassroom k now db)
      (case resolveEffectiveClassroomPolicyContext tz k now db of Some ctx \<Rightarrow> serializePolicyGroupId ctx | None \<Rightarrow> None)"
  have "is_round ok wall (to_classroom k ?next) h (hub_classroom_changed tz ok wall db k now h)"
    unfolding hub_classroom_changed_def by (rule publishClassroom_round [OF assms(1)])
  then obtain c where c: "c \<in> set (hub_clients h)" "after_write ok wall (to_classroom k ?next) c = Some c'"
    using assms(2) by (auto simp: is_round_def round_mem)
  then have "sc_hostname c' = sc_hostname c \<and> sc_classroomId c' = sc_classroomId c"
    by (auto simp: after_write_def to_classroom_def to_moved_def split: if_splits option.splits)
  with c(1) show ?thesis by blast
qed

lemma classrooms_batch_client:
  assumes "hub_ok h" "c' \<in> set (hub_clients (fst (fst (publishBatch inst tz ok wall db (map (\<lambda>k. ClassroomChanged k t) ks) h))))"
  shows "\<exists>c \<in> set (hub_clients h). sc_hostname c' = sc_hostname c \<and> sc_classroomId c' = sc_classroomId c"
  using assms
proof (induction ks arbitrary: h)
  case (Cons k ks)
  let ?h = "fst (hub_classroom_changed tz ok wall db k (or_else t wall) h)"
  from Cons.IH [OF hub_ok_classroom_changed [OF Cons.prems(1)]] Cons.prems(2)
  obtain c where "c \<in> set (hub_clients ?h)" "sc_hostname c' = sc_hostname c" "sc_classroomId c' = sc_classroomId c"
    unfolding list.map batch_head by blast
  with classroom_round_client [OF Cons.prems(1)] show ?case by metis
qed auto

lemma classrooms_batch_sync:
  assumes "hub_ok h" "getClassroomById (sc_classroomId c') db \<noteq> None" "or_else t wall = now"
    and "c' \<in> set (hub_clients (fst (fst (publishBatch inst tz ok wall db (map (\<lambda>k. ClassroomChanged k t) ks) h))))"
  shows "in_sync tz now db c' \<or> c' \<in> set (hub_clients h) \<and> sc_classroomId c' \<notin> set ks"
  using assms
proof (induction ks arbitrary: h)
  case (Cons k ks)
  let ?h = "fst (hub_classroom_changed tz ok wall db k now h)"
  have "c' \<in> set (hub_clients (fst (fst (publishBatch inst tz ok wall db (map (\<lambda>k. ClassroomChanged k t) ks) ?h))))"
    using Cons.prems(3,4) unfolding list.map batch_head by simp
  from Cons.IH [OF hub_ok_classroom_changed [OF Cons.prems(1)] Cons.prems(2,3) this]
  have "in_sync tz now db c' \<or> c' \<in> set (hub_clients ?h) \<and> sc_classroomId c' \<notin> set ks" .
  then show ?case using classroom_round_sync [OF Cons.prems(1,2), of tz ok wall k now] by (auto split: if_splits)
qed simp

section \<open>What a tick changes\<close>

lemma expired_tables [simp]:
  "db_classrooms (snd (deleteExpiredMachineExemptions now db)) = db_classrooms db"
  "db_schedules (snd (deleteExpiredMachineExemptions now db)) = db_schedules db"
  "db_machines (snd (deleteExpiredMachineExemptions now db)) = db_machines db"
  by (simp_all add: deleteExpiredMachineExemptions_def)

lemma context_cong:
  "db_classrooms db' = db_classrooms db \<Longrightarrow> getCurrentSchedule tz k now' (db_schedules db') = getCurrentSchedule tz k now (db_schedules db) \<Longrightarrow>
   resolveEffectiveClassroomPolicyContext tz k now' db' = resolveEffectiveClassroomPolicyContext tz k now db"
  by (auto simp: resolveEffectiveClassroomPolicyContext_def resolveClassroomPolicyScope_def getClassroomById_def
      resolveClassroomPolicyScopeForRecord_def option.map_comp comp_def intro!: option.map_cong dest: row_by_SomeD)

lemma set_uniqueClassroomIds [simp]: "set (uniqueClassroomIds ids) = set ids - {[]}"
  by (auto simp: uniqueClassroomIds_def)

lemma exempt_hostnames_stable:
  assumes "k \<noteq> []" "k \<notin> set (fst (deleteExpiredMachineExemptions now db))" "earlier \<le> now"
  shows "getActiveExemptHostnamesByClassroom k now (snd (deleteExpiredMachineExemptions now db)) =
         getActiveExemptHostnamesByClassroom k earlier db"
proof -
  have "ex_expiresAt e > now" if "e \<in> set (db_exemptions db)" "ex_classroomId e = k" for e
    using assms(1,2) that by (force simp: deleteExpiredMachineExemptions_def sel_where_def image_iff)
  then have "sel_where (\<lambda>e. ex_classroomId e = k \<and> ex_expiresAt e > now) (del_where (\<lambda>e. ex_expiresAt e \<le> now) (db_exemptions db)) =
      sel_where (\<lambda>e. ex_classroomId e = k \<and> ex_expiresAt e > earlier) (db_exemptions db)"
    using assms(3) unfolding sel_where_def del_where_def filter_filter by (intro filter_cong) force+
  then show ?thesis
    by (simp add: getActiveExemptHostnamesByClassroom_def) (simp add: deleteExpiredMachineExemptions_def)
qed

lemma exempt_hostname_room:
  assumes "school_ok db" "hn \<in> set (getActiveExemptHostnamesByClassroom k now db)"
  shows "getClassroomById k db \<noteq> None"
proof -
  from assms(2) obtain e where "e \<in> set (db_exemptions db)" "ex_classroomId e = k"
    by (auto simp: getActiveExemptHostnamesByClassroom_def sel_where_def)
  then have "k \<in> set (classroom_ids db)"
    using assms(1) by (auto simp: school_ok_def exemptions_ok_def exemption_refs_def list_all_iff)
  then show ?thesis by (auto simp: getClassroomById_def row_by_None_iff classroom_ids_def)
qed

lemma expected_room: "school_ok db \<Longrightarrow> expected_group tz now db c = Some g \<Longrightarrow> getClassroomById (sc_classroomId c) db \<noteq> None"
  using exempt_hostname_room [of db "sc_hostname c" "sc_classroomId c" now]
  by (auto simp: expected_group_def resolveEffectiveClassroomPolicyContext_def resolveClassroomPolicyScope_def
      split: if_splits option.splits)

lemma expected_group_tick:
  assumes "school_ok db" "60000 dvd now + tz now" "60000 dvd tz now" "tz (now - 60000) = tz now"
    and "sc_classroomId c \<noteq> []" "sc_classroomId c \<notin> set (getClassroomIdsWithBoundaryAt tz now (db_schedules db))"
    and "sc_classroomId c \<notin> set (fst (deleteExpiredMachineExemptions now db))"
  shows "expected_group tz now (snd (deleteExpiredMachineExemptions now db)) c = expected_group tz (now - 60000) db c"
proof -
  have "getCurrentSchedule tz (sc_classroomId c) now (db_schedules db) =
      getCurrentSchedule tz (sc_classroomId c) (now - 60000) (db_schedules db)"
    using schedule_between_boundaries [OF school_timetable [OF assms(1)] assms(2-4,6)] by simp
  then have "resolveEffectiveClassroomPolicyContext tz (sc_classroomId c) now (snd (deleteExpiredMachineExemptions now db)) =
      resolveEffectiveClassroomPolicyContext tz (sc_classroomId c) (now - 60000) db"
    by (intro context_cong) simp_all
  then show ?thesis
    using exempt_hostnames_stable [OF assms(5,7), of "now - 60000"] by (simp add: expected_group_def)
qed

text \<open>What the tick does for one client: it is put in step, or its classroom had nothing to announce and it is as it was.\<close>

lemma tick_client:
  assumes "hub_ok h" "runTickOnce inst tz False ok wall now db h = (db', (h', w), ns)" "c \<in> set (hub_clients h')"
    and "getClassroomById (sc_classroomId c) db \<noteq> None" "sc_classroomId c \<noteq> []"
  shows "in_sync tz now db' c \<or> c \<in> set (hub_clients h) \<and>
    sc_classroomId c \<notin> set (getClassroomIdsWithBoundaryAt tz now (db_schedules db)) \<and>
    sc_classroomId c \<notin> set (fst (deleteExpiredMachineExemptions now db))"
proof -
  define ids where "ids = uniqueClassroomIds (uniqueClassroomIds (getClassroomIdsWithBoundaryAt tz now (db_schedules db)) @
      uniqueClassroomIds (fst (deleteExpiredMachineExemptions now db)))"
  have db': "db' = snd (deleteExpiredMachineExemptions now db)"
    using assms(2) by (auto simp: runTickOnce_def resolveScheduleChangeDelivery_def Let_def split: prod.splits if_splits)
  have "in_sync tz now db' c \<or> c \<in> set (hub_clients h) \<and> sc_classroomId c \<notin> set ids"
  proof (cases "ids = []")
    case True
    then show ?thesis
      using assms(2,3) by (auto simp: runTickOnce_def resolveScheduleChangeDelivery_def Let_def ids_def split: prod.splits)
  next
    case False
    then have "publishBatch inst tz ok wall db' (map (\<lambda>k. ClassroomChanged k (Some now)) (uniqueClassroomIds ids)) h = ((h', w), ns)"
      using assms(2) by (auto simp: runTickOnce_def resolveScheduleChangeDelivery_def emitScheduleChangeDelivery_def Let_def ids_def
          split: prod.splits)
    then have c: "c \<in> set (hub_clients (fst (fst (publishBatch inst tz ok wall db'
        (map (\<lambda>k. ClassroomChanged k (Some now)) (uniqueClassroomIds ids)) h))))"
      using assms(3) by simp
    have "getClassroomById (sc_classroomId c) db' \<noteq> None" using assms(4) by (simp add: db' getClassroomById_def)
    from classrooms_batch_sync [OF assms(1) this _ c] show ?thesis by (auto simp: or_else_def ids_def)
  qed
  then show ?thesis using assms(5) by (auto simp: ids_def)
qed

section \<open>Listening to the group that is enforced\<close>

lemma exempt_hostname_iff:
  assumes "school_ok db" "m \<in> set (db_machines db)"
  shows "mac_hostname m \<in> set (getActiveExemptHostnamesByClassroom k now db) \<longleftrightarrow> isMachineExempt (mac_id m) k now db"
proof -
  have uniq: "m' = m" if "m' \<in> set (db_machines db)" "mac_hostname m' = mac_hostname m" for m'
    using assms that distinct_key_eq [of mac_hostname "db_machines db" m' m] by (simp add: school_ok_def machines_ok_def)
  have "mac_hostname m \<in> set (getActiveExemptHostnamesByClassroom k now db) \<longleftrightarrow>
      (\<exists>e \<in> set (db_exemptions db). ex_classroomId e = k \<and> ex_expiresAt e > now \<and>
         (\<exists>m' \<in> set (db_machines db). mac_id m' = ex_machineId e \<and> mac_hostname m' = mac_hostname m))"
    unfolding getActiveExemptHostnamesByClassroom_def sel_where_def set_js_unique set_concat set_map set_filter
    by (simp add: image_iff eq_commute [of "mac_hostname m"] conj_assoc) (simp add: Bex_def)
  also have "\<dots> \<longleftrightarrow> (\<exists>e \<in> set (db_exemptions db). active_for (mac_id m) k now e)"
    unfolding active_for_def using assms(2) by (intro bex_cong refl) (metis uniq)
  finally show ?thesis
    using sel_first_None_iff [of "active_for (mac_id m) k now" "db_exemptions db"] by (auto simp: isMachineExempt_def)
qed

text \<open>
  \<open>follows_policy\<close>: the client listens to the group its machine downloads.  \<open>member_of_room\<close>: its machine is registered in
  its classroom.  \<open>no_exempt_group\<close>: no exemption of the machine in force names a group.  Under such an exemption the
  hub and the download disagree, because the hub takes every exempted machine as unrestricted.
\<close>

definition follows_policy :: "(int \<Rightarrow> int) \<Rightarrow> int \<Rightarrow> school_db \<Rightarrow> sse_client \<Rightarrow> bool" where
  "follows_policy tz now db c \<longleftrightarrow>
     (\<exists>ctx. resolveEffectiveMachineEnforcementPolicyContext tz (sc_hostname c) now db = Some ctx \<and>
       serializePolicyGroupId ctx = Some (sc_groupId c))"

definition member_of_room :: "school_db \<Rightarrow> sse_client \<Rightarrow> machine_row \<Rightarrow> bool" where
  "member_of_room db c m \<longleftrightarrow>
     getMachineByHostname (sc_hostname c) db = Some m \<and> mac_hostname m = sc_hostname c \<and>
     mac_classroomId m = Some (sc_classroomId c) \<and> sc_classroomId c \<noteq> []"

definition no_exempt_group :: "int \<Rightarrow> school_db \<Rightarrow> sse_client \<Rightarrow> machine_row \<Rightarrow> bool" where
  "no_exempt_group now db c m \<longleftrightarrow>
     (\<forall>e \<in> set (db_exemptions db). active_for (mac_id m) (sc_classroomId c) now e \<longrightarrow> ex_groupId e = None)"

lemma in_sync_policy:
  assumes "school_ok db" "member_of_room db c m" "no_exempt_group now db c m"
  shows "in_sync tz now db c \<longleftrightarrow> follows_policy tz now db c"
proof -
  note member = assms(2) [unfolded member_of_room_def]
  obtain cl where cl: "machine_classroom (sc_hostname c) db = Some (m, sc_classroomId c, cl)"
      "getClassroomById (sc_classroomId c) db = Some cl" "cls_id cl = sc_classroomId c"
    using machine_classroom_Some [OF assms(1)] member by metis
  have m: "m \<in> set (db_machines db)" using machine_room(1) [OF assms(1)] member by metis
  note ex = exempt_hostname_iff [OF assms(1) m, of "sc_classroomId c" now]
  show ?thesis
  proof (cases "getActiveMachineExemption (mac_id m) (sc_classroomId c) now db")
    case None
    then have "\<not> isMachineExempt (mac_id m) (sc_classroomId c) now db" by (simp add: getActiveMachineExemption_iff)
    then show ?thesis
      using None cl ex member
      by (simp add: follows_policy_def in_sync_def expected_group_def resolveEffectiveMachineEnforcementPolicyContext_def
          resolveEffectiveClassroomPolicyContext_def resolveClassroomPolicyScope_def)
  next
    case (Some a)
    then have "isMachineExempt (mac_id m) (sc_classroomId c) now db" using getActiveMachineExemption_iff by (metis option.distinct(1))
    moreover have "ae_groupId a = None"
      using getActiveMachineExemption_group [of "mac_id m" "sc_classroomId c" now db "ae_groupId a"] Some assms(3) by (auto simp: no_exempt_group_def)
    ultimately show ?thesis
      using Some cl ex member
      by (simp add: follows_policy_def in_sync_def expected_group_def resolveEffectiveMachineEnforcementPolicyContext_def present_def
          serializePolicyGroupId_def)
  qed
qed

lemma member_classroom: "school_ok db \<Longrightarrow> member_of_room db c m \<Longrightarrow> getClassroomById (sc_classroomId c) db \<noteq> None"
  using machine_classroom_Some [of db "sc_hostname c" m "sc_classroomId c"] by (auto simp: member_of_room_def)

lemma member_cong: "db_machines db' = db_machines db \<Longrightarrow> member_of_room db' c m = member_of_room db c m"
  by (simp add: member_of_room_def getMachineByHostname_def)

lemma no_exempt_group_before:
  assumes "no_exempt_group now (snd (deleteExpiredMachineExemptions now db)) c m" "sc_classroomId c \<noteq> []"
    and "sc_classroomId c \<notin> set (fst (deleteExpiredMachineExemptions now db))"
  shows "no_exempt_group earlier db c m"
proof -
  have "ex_expiresAt e > now" if "e \<in> set (db_exemptions db)" "ex_classroomId e = sc_classroomId c" for e
    using assms(2,3) that by (force simp: deleteExpiredMachineExemptions_def sel_where_def image_iff)
  then show ?thesis
    using assms(1) by (auto simp: no_exempt_group_def deleteExpiredMachineExemptions_def set_del_where active_for_def not_le)
qed

section \<open>The tick follows the clock\<close>


definition demo_listener :: sse_hub where
  "demo_listener = registerSseClient ''c1'' 0 ''pc1'' ''lab'' UNRESTRICTED_GROUP_ID empty_hub"

definition demo_tick :: "school_db \<times> hub_io \<times> db_event list" where
  "demo_tick = runTickOnce ''i1'' (\<lambda>_. 3600000) False (\<lambda>_. True) 374400250 374400000 demo_db demo_listener"

text \<open>What the witnesses compute: whether a client listens to the group its machine downloads.\<close>

lemma follows_policy_iff:
  "follows_policy tz now db c \<longleftrightarrow>
     (case resolveEffectiveMachineEnforcementPolicyContext tz (sc_hostname c) now db of
        Some ctx \<Rightarrow> serializePolicyGroupId ctx = Some (sc_groupId c) | None \<Rightarrow> False)"
  by (auto simp: follows_policy_def split: option.split)


end
