(* ===== verification/School_Delivery.thy ===== *)
theory School_Delivery
  imports Classroom_Services Event_Delivery
begin

text \<open>
  The services and the delivery of events together.  \<open>school_step\<close> is a request to one of the services of
  \<open>Schedule_Services\<close> and \<open>Classroom_Services\<close>; \<open>room_same\<close> says that nothing changed for the machines of a
  classroom.  Each step leaves a classroom as it was or publishes its change (\<open>step_announced\<close>), from which
  \<open>policy_change_published\<close> and \<open>service_keeps_sync\<close> follow: no change of what a machine is to enforce goes unannounced,
  and the announcement puts the connected machines that stay registered under the group they now download, exemptions that
  name a group apart.
\<close>

inductive school_step ::
  "(int \<Rightarrow> int) \<Rightarrow> (int \<Rightarrow> int) \<Rightarrow> int \<Rightarrow> school_db \<Rightarrow> school_db \<Rightarrow> domain_event list \<Rightarrow> bool" for tz utc now db where
  schedules: "schedule_command tz now user db ok db' evs \<Longrightarrow> school_step tz utc now db db' evs"
| create_classroom: "svc_createClassroom msg i now d db = (r1, db', evs) \<Longrightarrow> school_step tz utc now db db' evs"
| update_classroom: "svc_updateClassroom msg i u db = (r1, db', evs) \<Longrightarrow> school_step tz utc now db db' evs"
| active_group: "setClassroomActiveGroup toISO tz now user i g db = (r2, db', evs) \<Longrightarrow> school_step tz utc now db db' evs"
| delete_classroom: "svc_deleteClassroom i db = (r3, db', evs) \<Longrightarrow> school_step tz utc now db db' evs"
| create_exemption: "createExemptionForClassroom toISO tz utc i now user ex db = (r4, db', evs) \<Longrightarrow> school_step tz utc now db db' evs"
| create_operational: "createOperationalExemptionForClassroom toISO tz i now user op db = (r4, db', evs) \<Longrightarrow> school_step tz utc now db db' evs"
| delete_exemption: "deleteExemptionForClassroom tz now user i db = (r3, db', evs) \<Longrightarrow> school_step tz utc now db db' evs"
| register: "svc_registerMachine sha_hex toISO i now reg db = (r5, db', evs) \<Longrightarrow> school_step tz utc now db db' evs"
| delete_machine: "svc_deleteMachine h db = (r3, db', evs) \<Longrightarrow> school_step tz utc now db db' evs"
| rotate: "rotateMachineToken sha_hex url tok now i db = (r6, db', evs) \<Longrightarrow> school_step tz utc now db db' evs"

section \<open>What the machines of a classroom depend on\<close>

definition room_view :: "classroom_row \<Rightarrow> string \<times> string \<times> string option \<times> string option" where
  "room_view c = (cls_id c, cls_name c, cls_defaultGroupId c, cls_activeGroupId c)"

definition room_rows :: "string \<Rightarrow> school_db \<Rightarrow> school_db \<Rightarrow> bool" where
  "room_rows k db db' \<longleftrightarrow>
     sel_where (\<lambda>r. sch_classroomId r = k) (db_schedules db') = sel_where (\<lambda>r. sch_classroomId r = k) (db_schedules db) \<and>
     sel_where (\<lambda>e. ex_classroomId e = k) (db_exemptions db') =
       sel_where (\<lambda>e. ex_classroomId e = k \<and> ex_machineId e \<in> mac_id ` set (db_machines db')) (db_exemptions db)"

definition room_same :: "string \<Rightarrow> school_db \<Rightarrow> school_db \<Rightarrow> bool" where
  "room_same k db db' \<longleftrightarrow>
     (case (getClassroomById k db, getClassroomById k db') of
        (Some c, Some c') \<Rightarrow> room_view c' = room_view c \<and> room_rows k db db'
      | _ \<Rightarrow> True)"

text \<open>Machines keep their names.\<close>

definition names_kept :: "school_db \<Rightarrow> school_db \<Rightarrow> bool" where
  "names_kept db db' \<longleftrightarrow>
     (\<forall>m \<in> set (db_machines db). \<forall>m' \<in> set (db_machines db'). mac_id m' = mac_id m \<longleftrightarrow> mac_hostname m' = mac_hostname m)"

definition announced_room :: "school_db \<Rightarrow> school_db \<Rightarrow> domain_event list \<Rightarrow> bool" where
  "announced_room db db' evs \<longleftrightarrow>
     school_ok db' \<and> names_kept db db' \<and> (evs = [] \<or> (\<exists>k. evs = [ClassroomChanged k None])) \<and>
     (\<forall>k. room_same k db db' \<or> evs = [ClassroomChanged k None])"

lemma exemption_machine: "school_ok db \<Longrightarrow> e \<in> set (db_exemptions db) \<Longrightarrow> ex_machineId e \<in> mac_id ` set (db_machines db)"
  by (auto simp: school_ok_def exemptions_ok_def exemption_refs_def machine_ids_def list_all_iff)

lemma rows_same_machines:
  assumes "school_ok db" "mac_id ` set (db_machines db) \<subseteq> mac_id ` set (db_machines db')"
    and "sel_where (\<lambda>r. sch_classroomId r = k) (db_schedules db') = sel_where (\<lambda>r. sch_classroomId r = k) (db_schedules db)"
    and "sel_where (\<lambda>e. ex_classroomId e = k) (db_exemptions db') = sel_where (\<lambda>e. ex_classroomId e = k) (db_exemptions db)"
  shows "room_rows k db db'"
  using assms(2-4) exemption_machine [OF assms(1)] by (auto simp: room_rows_def sel_where_def intro!: filter_cong)

lemma names_same: "school_ok db \<Longrightarrow> names_kept db db"
  unfolding names_kept_def school_ok_def machines_ok_def
  by (metis distinct_key_eq)

lemma room_same_rows: "getClassroomById k db' = getClassroomById k db \<Longrightarrow> room_rows k db db' \<Longrightarrow> room_same k db db'"
  by (auto simp: room_same_def split: option.split)

lemma room_same_refl: "school_ok db \<Longrightarrow> room_same k db db"
  by (intro room_same_rows rows_same_machines) auto

text \<open>A step that fails, and steps that touch one table.\<close>

lemma announced_same: "school_ok db \<Longrightarrow> evs = [] \<or> (\<exists>k. evs = [ClassroomChanged k None]) \<Longrightarrow> announced_room db db evs"
  by (simp add: announced_room_def names_same room_same_refl)

lemma announced_classrooms:
  assumes "school_ok db" "school_ok (db\<lparr>db_classrooms := t\<rparr>)" "evs = [] \<or> (\<exists>k. evs = [ClassroomChanged k None])"
    and "\<And>k c c'. row_by cls_id k (db_classrooms db) = Some c \<Longrightarrow> row_by cls_id k t = Some c' \<Longrightarrow>
      room_view c' = room_view c \<or> evs = [ClassroomChanged k None]"
  shows "announced_room db (db\<lparr>db_classrooms := t\<rparr>) evs"
proof -
  have "room_same k db (db\<lparr>db_classrooms := t\<rparr>) \<or> evs = [ClassroomChanged k None]" for k
    using assms(4) [of k] rows_same_machines [OF assms(1), of "db\<lparr>db_classrooms := t\<rparr>" k]
    by (auto simp: room_same_def getClassroomById_def split: option.split)
  then show ?thesis
    using assms names_same [OF assms(1)] by (simp add: announced_room_def names_kept_def)
qed

lemma announced_machines:
  assumes "school_ok db" "school_ok (db\<lparr>db_machines := t\<rparr>)" "names_kept db (db\<lparr>db_machines := t\<rparr>)"
    and "mac_id ` set (db_machines db) \<subseteq> mac_id ` set t"
  shows "announced_room db (db\<lparr>db_machines := t\<rparr>) []"
  using assms
  by (auto simp: announced_room_def getClassroomById_def intro!: room_same_rows rows_same_machines)

lemma names_upd:
  assumes "school_ok db" "\<And>m. mac_id (f m) = mac_id m" "\<And>m. mac_hostname (f m) = mac_hostname m"
  shows "names_kept db (db\<lparr>db_machines := upd_by mac_id i f (db_machines db)\<rparr>)"
  using names_same [OF assms(1)] assms(2,3) unfolding names_kept_def
  by (auto dest!: set_upd_byD)

lemma names_del: "school_ok db \<Longrightarrow> names_kept db (db\<lparr>db_machines := del_where P (db_machines db), db_exemptions := es\<rparr>)"
  using names_same [of db] by (simp add: names_kept_def set_del_where)

section \<open>Classrooms\<close>

lemma getClassroomById_upd: "row_by cls_id k t = Some c \<Longrightarrow> (\<And>c. cls_id (f c) = cls_id c) \<Longrightarrow>
    row_by cls_id k (upd_by cls_id i f t) = Some (if k = i then f c else c)"
  by (auto simp: row_by_upd)

lemma announced_classroom_upd:
  assumes ok: "school_ok db" "school_ok db'" and db': "db' = db\<lparr>db_classrooms := upd_by cls_id i f (db_classrooms db)\<rparr>"
    and f: "\<And>c. cls_id (f c) = cls_id c" and evs: "evs = [] \<or> evs = [ClassroomChanged i None]"
    and view: "\<And>c. row_by cls_id i (db_classrooms db) = Some c \<Longrightarrow> room_view (f c) = room_view c \<or> evs = [ClassroomChanged i None]"
  shows "announced_room db db' evs"
  unfolding db'
  by (rule announced_classrooms [OF ok(1)])
    (use ok(2) evs view in \<open>auto simp: db' getClassroomById_upd [OF _ f] split: if_splits\<close>)

lemma updateClassroom_change:
  assumes "updateClassroom i u db = Inr (x, db')"
  shows "db' = db \<and> x = getClassroomById i db \<or>
    (\<exists>f. db' = db\<lparr>db_classrooms := upd_by cls_id i f (db_classrooms db)\<rparr> \<and> x = row_by cls_id i (db_classrooms db') \<and>
      (\<forall>c. cls_id (f c) = cls_id c) \<and> (\<forall>c. ucd_defaultGroupId u = None \<longrightarrow> room_view (f c) = room_view c))"
proof -
  obtain domains where d: "(if ucd_displayName u = None \<and> ucd_defaultGroupId u = None \<and> domains = None
         then Inr (getClassroomById i db, db)
         else update_classroom_row i (\<lambda>c. c\<lparr>
                cls_displayName := or_else (ucd_displayName u) (cls_displayName c),
                cls_defaultGroupId := (case ucd_defaultGroupId u of Some g \<Rightarrow> Some g | None \<Rightarrow> cls_defaultGroupId c),
                cls_captivePortalDomains := or_else domains (cls_captivePortalDomains c)\<rparr>) db) = Inr (x, db')"
    using assms unfolding updateClassroom_def and_then_Inr_iff by blast
  show ?thesis
  proof (cases "ucd_displayName u = None \<and> ucd_defaultGroupId u = None \<and> domains = None")
    case False
    show ?thesis
      by (rule disjI2, rule exI [of _ "\<lambda>c. c\<lparr>
                cls_displayName := or_else (ucd_displayName u) (cls_displayName c),
                cls_defaultGroupId := (case ucd_defaultGroupId u of Some g \<Rightarrow> Some g | None \<Rightarrow> cls_defaultGroupId c),
                cls_captivePortalDomains := or_else domains (cls_captivePortalDomains c)\<rparr>"])
        (use d False in \<open>auto simp: update_classroom_row_def Let_def room_view_def split: if_splits\<close>)
  qed (use d in auto)
qed

lemma update_classroom_announced:
  assumes "school_ok db" "svc_updateClassroom msg i u db = (res, db', evs)"
  shows "announced_room db db' evs"
proof (cases "updateClassroom i u db")
  case (Inr p)
  obtain x d where p: "p = (x, d)" by force
  have ok: "school_ok d" using school_ok_updateClassroom [OF assms(1)] Inr p by simp
  have d: "db' = d" and evs: "evs = (case if ucd_defaultGroupId u \<noteq> None then map_option cls_id x else None of
      Some c \<Rightarrow> [ClassroomChanged c None] | None \<Rightarrow> [])"
    using assms(2) by (auto simp: svc_updateClassroom_def told change_of_def Inr p split: option.splits if_splits)
  from updateClassroom_change [OF Inr [unfolded p]] show ?thesis
  proof (elim disjE exE conjE)
    assume "d = db" "x = getClassroomById i db"
    then show ?thesis using announced_same [OF assms(1)] d evs by (auto split: option.splits)
  next
    fix f assume f: "d = db\<lparr>db_classrooms := upd_by cls_id i f (db_classrooms db)\<rparr>" "x = row_by cls_id i (db_classrooms d)"
      "\<forall>c. cls_id (f c) = cls_id c" "\<forall>c. ucd_defaultGroupId u = None \<longrightarrow> room_view (f c) = room_view c"
    have e: "evs = [] \<or> evs = [ClassroomChanged i None]"
      using evs f(2) by (auto split: option.splits if_splits dest: row_by_SomeD)
    have v: "room_view (f c) = room_view c \<or> evs = [ClassroomChanged i None]" if "row_by cls_id i (db_classrooms db) = Some c" for c
      using evs f that row_by_SomeD [OF that] by (cases "ucd_defaultGroupId u") (auto simp: row_by_upd)
    show ?thesis unfolding d by (rule announced_classroom_upd [OF assms(1) ok f(1) _ e v]) (use f(3) in auto)
  qed
qed (use assms announced_same [OF assms(1)] in \<open>auto simp: svc_updateClassroom_def told change_of_def\<close>)

lemma active_group_announced:
  assumes "school_ok db" "setClassroomActiveGroup toISO tz now user i g db = (res, db', evs)"
  shows "announced_room db db' evs"
proof (cases "db' = db \<and> evs = []")
  case False
  then obtain x where x: "setActiveGroup i g db = Inr (x, db')" and evs: "evs = (case map_option cls_id x of Some c \<Rightarrow> [ClassroomChanged c None] | None \<Rightarrow> [])"
    using assms(2) by (auto simp: setClassroomActiveGroup_def told change_of_def split: sum.splits option.splits if_splits prod.splits)
  have db': "db' = db\<lparr>db_classrooms := upd_by cls_id i (\<lambda>c. c\<lparr>cls_activeGroupId := g\<rparr>) (db_classrooms db)\<rparr>"
    "x = row_by cls_id i (db_classrooms db')"
    using x by (auto simp: setActiveGroup_def update_classroom_row_def Let_def split: if_splits)
  show ?thesis
    by (rule announced_classroom_upd [OF assms(1) school_ok_setActiveGroup [OF assms(1) x] db'(1)])
      (use evs db' in \<open>auto simp: row_by_upd split: option.splits dest: row_by_SomeD\<close>)
qed (use announced_same [OF assms(1)] in auto)

lemma create_classroom_announced:
  assumes "school_ok db" "svc_createClassroom msg i now d db = (res, db', evs)"
  shows "announced_room db db' evs"
proof (cases "createClassroom i now d db")
  case (Inr p)
  obtain c db1 where p: "p = (c, db1)" by force
  obtain c1 where "insert_classroom c1 db = Inr db1"
    using Inr p by (auto simp: createClassroom_def Let_def and_then_Inr_iff split: if_splits)
  then have new: "db1 = db\<lparr>db_classrooms := ins_row c1 (db_classrooms db)\<rparr>" "row_by cls_id (cls_id c1) (db_classrooms db) = None"
    by (auto simp: insert_classroom_def split: if_splits)
  have "announced_room db db1 []"
    unfolding new(1)
    by (rule announced_classrooms [OF assms(1)])
      (use school_ok_createClassroom [OF assms(1)] Inr p new in \<open>auto simp: row_by_ins split: option.splits\<close>)
  then show ?thesis using assms(2) by (auto simp: svc_createClassroom_def Inr p)
qed (use assms announced_same [OF assms(1)] in \<open>auto simp: svc_createClassroom_def Let_def\<close>)

section \<open>Exemptions\<close>

lemma announced_exemptions:
  assumes "school_ok db" "school_ok (db\<lparr>db_exemptions := es\<rparr>)"
    and "\<And>k'. k' \<noteq> k \<Longrightarrow> sel_where (\<lambda>e. ex_classroomId e = k') es = sel_where (\<lambda>e. ex_classroomId e = k') (db_exemptions db)"
  shows "announced_room db (db\<lparr>db_exemptions := es\<rparr>) [ClassroomChanged k None]"
  using assms names_same [OF assms(1)]
  by (auto simp: announced_room_def names_kept_def getClassroomById_def intro!: room_same_rows rows_same_machines)

lemma sel_ins: "sel_where P (ins_row e t) = sel_where P t @ (if P e then [e] else [])"
  by (simp add: sel_where_def ins_row_def)

lemma sel_upd_other:
  assumes "\<And>e. e \<in> set t \<Longrightarrow> key e = i \<Longrightarrow> \<not> P e \<and> \<not> P (f e)"
  shows "sel_where P (upd_by key i f t) = sel_where P t"
  using assms by (induction t) (auto simp: sel_where_def upd_by_def upd_where_def)

lemma sel_del_other:
  assumes "\<And>e. e \<in> set t \<Longrightarrow> Q e \<Longrightarrow> \<not> P e"
  shows "sel_where P (del_where Q t) = sel_where P t"
  using assms by (auto simp: sel_where_def del_where_def intro!: filter_cong)

lemma exemption_by_id: "school_ok db \<Longrightarrow> a \<in> set (db_exemptions db) \<Longrightarrow> b \<in> set (db_exemptions db) \<Longrightarrow> ex_id a = ex_id b \<Longrightarrow> a = b"
  using apart_ids [of "db_exemptions db"] distinct_key_eq [of ex_id "db_exemptions db" a b]
  by (simp add: school_ok_def exemptions_ok_def)

lemma exemption_schedule:
  "school_ok db \<Longrightarrow> e \<in> set (db_exemptions db) \<Longrightarrow> r \<in> set (db_schedules db) \<Longrightarrow> ex_scheduleId e = Some (sch_id r) \<Longrightarrow>
   ex_classroomId e = sch_classroomId r"
  by (auto simp: school_ok_def exemptions_ok_def exemption_room_def list_all_iff)

text \<open>Operational exemptions name no group, in every reachable state.\<close>

definition ungrouped :: "school_db \<Rightarrow> bool" where
  "ungrouped db \<longleftrightarrow> (\<forall>e \<in> set (db_exemptions db). ex_source e = ''operational'' \<longrightarrow> ex_groupId e = None)"

lemma ungrouped_sub: "ungrouped db \<Longrightarrow> set (db_exemptions db') \<subseteq> set (db_exemptions db) \<Longrightarrow> ungrouped db'"
  by (auto simp: ungrouped_def)

lemma ungrouped_insert:
  assumes ok: "school_ok db" and "ungrouped db" "insertOrReuseExemption i now inp db = Inr (e, db')"
    and inp: "iei_source inp = ''operational'' \<Longrightarrow> iei_groupId inp = None"
  shows "ungrouped db'"
  using assms(3)
proof (cases rule: insertOrReuse_cases)
  case new
  then show ?thesis using assms(2) inp by (auto simp: ungrouped_def set_ins_row exemption_of_def)
next
  case (regroup e0)
  have "ex_groupId x = None" if "x \<in> set (db_exemptions db')" "ex_source x = ''operational''" for x
  proof (cases "x \<in> set (db_exemptions db)")
    case False
    have "x \<in> set (upd_by ex_id (ex_id e0) (\<lambda>e. e\<lparr>ex_groupId := iei_groupId inp\<rparr>) (db_exemptions db))"
      using that(1) by (simp add: regroup(8))
    from set_upd_byD [OF this] False
    obtain y where y: "y \<in> set (db_exemptions db)" "ex_id y = ex_id e0" "x = y\<lparr>ex_groupId := iei_groupId inp\<rparr>" by blast
    then have "y = e0" using exemption_by_id [OF ok] regroup(1) by blast
    then show ?thesis using y(3) that(2) regroup(4) inp by simp
  qed (use that(2) assms(2) in \<open>simp add: ungrouped_def\<close>)
  then show ?thesis by (simp add: ungrouped_def)
qed (use assms(2) in simp)

lemma ungrouped_schedule:
  "school_ok db \<Longrightarrow> ungrouped db \<Longrightarrow> createMachineExemption tz utc i now inp db = Inr (e, db') \<Longrightarrow> ungrouped db'"
  by (erule createMachineExemption_cases) (auto simp: schedule_exemption_def intro: ungrouped_insert)

lemma ungrouped_operational:
  "school_ok db \<Longrightarrow> ungrouped db \<Longrightarrow> createOperationalMachineExemption i now inp db = Inr (e, db') \<Longrightarrow> ungrouped db'"
  by (auto simp: createOperationalMachineExemption_def Let_def and_then_Inr_iff split: option.splits if_splits
      intro: ungrouped_insert)

lemma ungrouped_frame: "db_exemptions db' = db_exemptions db \<Longrightarrow> ungrouped db \<Longrightarrow> ungrouped db'"
  by (simp add: ungrouped_def)

lemma same_exemptions:
  "createClassroom i now d db = Inr (c, db') \<Longrightarrow> db_exemptions db' = db_exemptions db"
  "update_classroom_row i f db = Inr (x, db') \<Longrightarrow> db_exemptions db' = db_exemptions db"
  "registerMachine i now rd db = Inr (m, db') \<Longrightarrow> db_exemptions db' = db_exemptions db"
  "setMachineDownloadTokenHash now i h db = Inr (y, db') \<Longrightarrow> db_exemptions db' = db_exemptions db"
  "db_exemptions (snd (updateMachineLastSeen now h db)) = db_exemptions db"
  by (auto simp: createClassroom_def insert_classroom_def and_then_Inr_iff Let_def update_classroom_row_def registerMachine_def
      setMachineDownloadTokenHash_def update_machine_def updateMachineLastSeen_def split: if_splits option.splits)

lemma update_same_exemptions: "updateClassroom i u db = Inr (x, db') \<Longrightarrow> db_exemptions db' = db_exemptions db"
  using updateClassroom_change [of i u db x db'] by auto

lemma fewer_exemptions:
  "set (db_exemptions (drop_schedules P db)) \<subseteq> set (db_exemptions db)"
  "set (db_exemptions (drop_machines Q db)) \<subseteq> set (db_exemptions db)"
  "set (db_exemptions (drop_classroom i db)) \<subseteq> set (db_exemptions db)"
  "set (db_exemptions (snd (deleteMachineExemption i db))) \<subseteq> set (db_exemptions db)"
  "set (db_exemptions (snd (deleteExpiredMachineExemptions now db))) \<subseteq> set (db_exemptions db)"
  "set (db_exemptions (snd (deleteMachine h db))) \<subseteq> set (db_exemptions db)"
  by (auto simp: drop_schedules_def drop_machines_def drop_classroom_def deleteMachineExemption_def deleteExpiredMachineExemptions_def
      deleteMachine_def del_by_def Let_def set_del_where split: option.split)

lemmas ungrouped_fewer = fewer_exemptions [THEN [2] ungrouped_sub]

lemma ungrouped_drop_group: "ungrouped db \<Longrightarrow> ungrouped (drop_group i db)"
  by (auto simp: ungrouped_def drop_group_def drop_schedules_def Let_def set_del_where clear_ref_def)

lemma school_reach_ungrouped: "school_reach tz utc db \<Longrightarrow> ungrouped db"
proof (induction rule: school_reach.induct)
  case (empty us)
  show ?case by (simp add: ungrouped_def)
next
  case (group_del db i)
  then show ?case by (intro ungrouped_drop_group)
next
  case (exemption db i now ei e db')
  then show ?case by (auto intro: ungrouped_schedule school_reach_ok)
next
  case (operational db i now oi e db')
  then show ?case by (auto intro: ungrouped_operational school_reach_ok)
next
  case (classroom_del db i)
  then show ?case by (simp add: deleteClassroom_def ungrouped_fewer)
next
  case (machines_del db i)
  then show ?case by (simp add: removeMachinesByClassroom_def ungrouped_fewer)
qed (auto intro: ungrouped_frame same_exemptions update_same_exemptions ungrouped_fewer simp: setActiveGroup_def)

text \<open>The exemption that is granted, or granted again, is one of the classroom that is announced.\<close>

lemma granted_announced:
  assumes ok: "school_ok db" "school_ok db'" and r: "insertOrReuseExemption i now inp db = Inr (e, db')"
    and room: "\<And>e0. e0 \<in> set (db_exemptions db) \<Longrightarrow> ex_scheduleId e0 = iei_scheduleId inp \<Longrightarrow> ex_source e0 = iei_source inp \<Longrightarrow>
      ex_groupId e0 \<noteq> iei_groupId inp \<Longrightarrow> ex_classroomId e0 = iei_classroomId inp"
  shows "announced_room db db' [ClassroomChanged (iei_classroomId inp) None]"
  using r
proof (cases rule: insertOrReuse_cases)
  case new
  show ?thesis
    unfolding new(5)
    by (rule announced_exemptions [OF ok(1)]) (use ok(2) new in \<open>simp_all add: sel_ins exemption_of_def\<close>)
next
  case same
  then show ?thesis using announced_same [OF ok(1)] by blast
next
  case (regroup e0)
  let ?f = "\<lambda>e. e\<lparr>ex_groupId := iei_groupId inp\<rparr>"
  have only: "x = e0" if "x \<in> set (db_exemptions db)" "ex_id x = ex_id e0" for x
    using exemption_by_id [OF ok(1)] that regroup(1) by blast
  show ?thesis
  proof (cases "ex_groupId e0 = iei_groupId inp")
    case True
    have "?f e0 = e0" using True by (cases e0) simp
    then have "upd_by ex_id (ex_id e0) ?f (db_exemptions db) = db_exemptions db"
      unfolding upd_by_def upd_where_def by (intro map_idI) (metis only)
    then have "db' = db" using regroup(8) by simp
    then show ?thesis using announced_same [OF ok(1)] by blast
  next
    case False
    have "ex_classroomId e0 = iei_classroomId inp" using room [OF regroup(1,3,4) False] .
    then show ?thesis
      unfolding regroup(8)
      by (intro announced_exemptions [OF ok(1)] sel_upd_other) (use ok(2) only regroup(8) in auto)
  qed
qed

lemma create_exemption_announced:
  assumes ok: "school_ok db" and s: "createExemptionForClassroom toISO tz utc i now user inp db = (res, db', evs)"
  shows "announced_room db db' evs"
proof (cases "db' = db \<and> evs = []")
  case False
  then obtain e where e: "createMachineExemption tz utc i now inp db = Inr (e, db')" and evs: "evs = [ClassroomChanged (cei_classroomId inp) None]"
    using s by (auto simp: createExemptionForClassroom_def told change_of_def exemption_reply_def split: sum.splits if_splits prod.splits)
  from e show ?thesis
  proof (cases rule: createMachineExemption_cases)
    case (1 r x)
    have "ex_classroomId e0 = cei_classroomId inp" if "e0 \<in> set (db_exemptions db)" "ex_scheduleId e0 = Some (cei_scheduleId inp)" for e0
      using exemption_schedule [OF ok that(1) 1(1)] that(2) 1(2,3) by simp
    then show ?thesis
      using granted_announced [OF ok school_ok_createMachineExemption [OF ok e] 1(4)] by (simp add: evs schedule_exemption_def)
  qed
qed (use announced_same [OF ok] in auto)

lemma create_operational_announced:
  assumes ok: "school_ok db" "ungrouped db" and s: "createOperationalExemptionForClassroom toISO tz i now user inp db = (res, db', evs)"
  shows "announced_room db db' evs"
proof (cases "db' = db \<and> evs = []")
  case False
  then obtain e where e: "createOperationalMachineExemption i now inp db = Inr (e, db')" and evs: "evs = [ClassroomChanged (cop_classroomId inp) None]"
    using s by (auto simp: createOperationalExemptionForClassroom_def told change_of_def exemption_reply_def
        split: sum.splits if_splits prod.splits)
  from e obtain inp' where "insertOrReuseExemption i now inp' db = Inr (e, db')" "iei_classroomId inp' = cop_classroomId inp"
    "iei_source inp' = ''operational''" "iei_groupId inp' = None"
    by (auto simp: createOperationalMachineExemption_def Let_def and_then_Inr_iff split: option.splits if_splits)
  then show ?thesis
    using granted_announced [OF ok(1) school_ok_createOperational [OF ok(1) e]] ok(2) by (force simp: evs ungrouped_def)
qed (use announced_same [OF ok(1)] in auto)

lemma delete_exemption_announced:
  assumes ok: "school_ok db" and s: "deleteExemptionForClassroom tz now user i db = (res, db', evs)"
  shows "announced_room db db' evs"
proof (cases "db' = db \<and> evs = []")
  case False
  then have db': "db' = db\<lparr>db_exemptions := del_by ex_id i (db_exemptions db)\<rparr>"
    and evs: "evs = (case map_option ex_classroomId (row_by ex_id i (db_exemptions db)) of Some k \<Rightarrow> [ClassroomChanged k None] | None \<Rightarrow> [])"
    using s by (auto simp: deleteExemptionForClassroom_def told deleteMachineExemption_def split: sum.splits option.splits if_splits prod.splits)
  have ok': "school_ok db'" using school_ok_deleteExemption [OF ok, of i] by (simp add: db' deleteMachineExemption_def)
  show ?thesis
  proof (cases "row_by ex_id i (db_exemptions db)")
    case None
    then have "del_by ex_id i (db_exemptions db) = db_exemptions db"
      by (auto simp: del_by_def del_where_def row_by_None_iff intro!: filter_True)
    then have "db' = db" by (simp add: db')
    then show ?thesis using announced_same [OF ok] evs None by simp
  next
    case (Some e)
    have "x = e" if "x \<in> set (db_exemptions db)" "ex_id x = i" for x
      using exemption_by_id [OF ok that(1)] row_by_SomeD [OF Some] that(2) by simp
    then have "announced_room db db' [ClassroomChanged (ex_classroomId e) None]"
      unfolding db' del_by_def
      by (intro announced_exemptions [OF ok] sel_del_other) (use ok' in \<open>auto simp: db' del_by_def\<close>)
    then show ?thesis by (simp add: evs Some)
  qed
qed (use announced_same [OF ok] in auto)

section \<open>Machines and removed classrooms\<close>

lemma names_fewer:
  "school_ok db \<Longrightarrow> set (db_machines db') \<subseteq> set (db_machines db) \<Longrightarrow> names_kept db db'"
  using names_same [of db] by (auto simp: names_kept_def)

lemma drop_machines_rows:
  assumes "school_ok db"
  shows "room_rows k db (drop_machines P db)"
proof -
  have one: "m = m'" if "m \<in> set (db_machines db)" "m' \<in> set (db_machines db)" "mac_id m = mac_id m'" for m m'
    using assms that distinct_key_eq [of mac_id "db_machines db"] by (simp add: school_ok_def machines_ok_def)
  have "ex_machineId e \<notin> mac_id ` set (sel_where P (db_machines db)) \<longleftrightarrow> ex_machineId e \<in> mac_id ` set (del_where P (db_machines db))"
    if "e \<in> set (db_exemptions db)" for e
    using exemption_machine [OF assms that] by (auto simp: set_sel_where set_del_where) (metis one)
  then show ?thesis
    by (auto simp: room_rows_def drop_machines_left drop_machines_exemptions sel_where_def [of "\<lambda>e. ex_classroomId e = k"]
        sel_where_def [of "\<lambda>e. ex_classroomId e = k \<and> Q e" for Q] del_where_def intro!: filter_cong)
qed

lemma drop_machines_announced: "school_ok db \<Longrightarrow> announced_room db (drop_machines P db) []"
  by (auto simp: announced_room_def school_ok_drop_machines getClassroomById_def drop_machines_left set_del_where
      intro!: names_fewer room_same_rows drop_machines_rows)

lemma drop_schedules_rows:
  assumes "school_ok db" "\<And>r. r \<in> set (db_schedules db) \<Longrightarrow> P r \<Longrightarrow> sch_classroomId r \<noteq> k"
  shows "room_rows k db (drop_schedules P db)"
proof (rule rows_same_machines [OF assms(1)])
  show "sel_where (\<lambda>r. sch_classroomId r = k) (db_schedules (drop_schedules P db)) = sel_where (\<lambda>r. sch_classroomId r = k) (db_schedules db)"
    unfolding drop_schedules_left by (rule sel_del_other) (use assms(2) in blast)
  have "ex_classroomId e \<noteq> k" if e: "e \<in> set (db_exemptions db)" "\<exists>i \<in> sch_id ` set (sel_where P (db_schedules db)). ex_scheduleId e = Some i" for e
  proof -
    obtain r where "r \<in> set (db_schedules db)" "P r" "ex_scheduleId e = Some (sch_id r)" using e(2) by (auto simp: set_sel_where)
    then show ?thesis using exemption_schedule [OF assms(1) e(1)] assms(2) by metis
  qed
  then show "sel_where (\<lambda>e. ex_classroomId e = k) (db_exemptions (drop_schedules P db)) = sel_where (\<lambda>e. ex_classroomId e = k) (db_exemptions db)"
    unfolding drop_schedules_exemptions by (intro sel_del_other) blast
qed (simp add: drop_schedules_left)

lemma sel_and: "sel_where (\<lambda>e. P e \<and> Q e) t = filter Q (sel_where P t)"
  by (simp add: sel_where_def conj_commute)

lemma rows_trans:
  assumes "room_rows k db db1" "room_rows k db1 db2" "set (db_machines db2) \<subseteq> set (db_machines db1)"
  shows "room_rows k db db2"
  using assms(1,2) unfolding room_rows_def sel_and using assms(3) by (auto intro!: filter_cong)

lemma drop_classroom_announced:
  assumes "school_ok db"
  shows "announced_room db (drop_classroom i db) []"
proof -
  let ?d1 = "drop_machines (\<lambda>m. mac_classroomId m = Some i) db"
  let ?d2 = "drop_schedules (\<lambda>r. sch_classroomId r = i) ?d1"
  have d: "drop_classroom i db = ?d2\<lparr>db_classrooms := del_by cls_id i (db_classrooms ?d2),
      db_exemptions := del_where (\<lambda>e. ex_classroomId e = i) (db_exemptions ?d2)\<rparr>"
    by (simp add: drop_classroom_def Let_def)
  have ok1: "school_ok ?d1" and ok2: "school_ok ?d2" using assms school_ok_drop_machines school_ok_drop_schedules by blast+
  have "room_same k db (drop_classroom i db)" for k
  proof (cases "k = i")
    case True
    then show ?thesis by (auto simp: room_same_def d getClassroomById_def row_by_del split: option.split)
  next
    case False
    have "room_rows k db ?d2"
      by (rule rows_trans [OF drop_machines_rows [OF assms] drop_schedules_rows [OF ok1]]) (use False in \<open>auto simp: drop_schedules_left\<close>)
    moreover have "sel_where (\<lambda>e. ex_classroomId e = k) (del_where (\<lambda>e. ex_classroomId e = i) es) = sel_where (\<lambda>e. ex_classroomId e = k) es" for es :: "exemption_row table"
      using False by (intro sel_del_other) simp
    ultimately have "room_rows k db (drop_classroom i db)" by (simp add: room_rows_def d)
    then show ?thesis
      using False by (intro room_same_rows) (simp_all add: d getClassroomById_def row_by_del drop_schedules_left drop_machines_left)
  qed
  moreover have "set (db_machines (drop_classroom i db)) \<subseteq> set (db_machines db)"
    by (auto simp: d drop_schedules_left drop_machines_left set_del_where)
  ultimately show ?thesis
    using assms names_fewer school_ok_drop_classroom by (simp add: announced_room_def)
qed

lemma machines_upd_announced:
  assumes "school_ok db" "school_ok (db\<lparr>db_machines := upd_by mac_id i f (db_machines db)\<rparr>)"
    and "\<And>m. mac_id (f m) = mac_id m" "\<And>m. mac_hostname (f m) = mac_hostname m"
  shows "announced_room db (db\<lparr>db_machines := upd_by mac_id i f (db_machines db)\<rparr>) []"
  by (rule announced_machines [OF assms(1,2) names_upd [OF assms(1,3,4)]])
    (simp add: upd_ids [of mac_id, OF assms(3)])

lemma registerMachine_announced:
  assumes ok: "school_ok db" and r: "registerMachine i now d db = Inr (m, db')"
  shows "announced_room db db' []"
proof (cases "getMachineByHostname (to_lower (rmd_hostname d)) db")
  case None
  with r have m: "row_by mac_id (mac_id m) (db_machines db) = None" "row_by mac_hostname (mac_hostname m) (db_machines db) = None"
    and db': "db' = db\<lparr>db_machines := ins_row m (db_machines db)\<rparr>"
    by (auto simp: registerMachine_def Let_def split: if_splits option.splits)
  have "names_kept db db'"
    using names_same [OF ok] m by (auto simp: db' names_kept_def set_ins_row row_by_None_iff)
  then show ?thesis
    using school_ok_registerMachine [OF ok r] unfolding db' by (intro announced_machines [OF ok]) (auto simp: set_ins_row)
next
  case (Some e)
  then obtain f where f: "db' = db\<lparr>db_machines := upd_by mac_id (mac_id e) f (db_machines db)\<rparr>"
    "\<And>m. mac_id (f m) = mac_id m" "\<And>m. mac_hostname (f m) = mac_hostname m"
    using r by (fastforce simp: registerMachine_def Let_def split: if_splits option.splits)
  show ?thesis using machines_upd_announced [OF ok _ f(2,3)] school_ok_registerMachine [OF ok r] unfolding f(1) by blast
qed

lemma rotate_announced:
  assumes ok: "school_ok db" and s: "rotateMachineToken sha_hex url tok now i db = (res, db', evs)"
  shows "announced_room db db' evs"
proof (cases "\<exists>y. setMachineDownloadTokenHash now i (sha_hex tok) db = Inr (y, db') \<and> evs = []")
  case True
  then obtain y where y: "setMachineDownloadTokenHash now i (sha_hex tok) db = Inr (y, db')" and evs: "evs = []" by blast
  let ?f = "\<lambda>m. m\<lparr>mac_downloadTokenHash := Some (sha_hex tok), mac_downloadTokenLastRotatedAt := Some now, mac_updatedAt := Some now\<rparr>"
  have db': "db' = db\<lparr>db_machines := upd_by mac_id i ?f (db_machines db)\<rparr>"
    using y by (auto simp: setMachineDownloadTokenHash_def update_machine_def Let_def split: if_splits)
  show ?thesis
    using school_ok_setToken [OF ok y] unfolding evs db' by (intro machines_upd_announced [OF ok]) simp_all
next
  case False
  then have "db' = db \<and> evs = []" using s by (auto simp: rotateMachineToken_def split: option.splits sum.splits prod.splits)
  then show ?thesis using announced_same [OF ok] by simp
qed

section \<open>Every step\<close>

lemma edit_room_same:
  assumes "school_ok db" "schedule_edit tz now user k db db'" "k' \<noteq> k"
  shows "room_same k' db db'"
  using assms(2)
proof cases
  case (add r)
  then show ?thesis
    using assms(3) by (intro room_same_rows rows_same_machines [OF assms(1)]) (auto simp: getClassroomById_def sel_ins)
next
  case (change r r')
  have "x = r" if "x \<in> set (db_schedules db)" "sch_id x = sch_id r" for x
    using that schedule_by_id [OF change(3)] distinct_key_eq [OF distinct_school [OF assms(1)]] by blast
  then have "sel_where (\<lambda>r. sch_classroomId r = k') (upd_by sch_id (sch_id r) (\<lambda>_. r') (db_schedules db)) =
      sel_where (\<lambda>r. sch_classroomId r = k') (db_schedules db)"
    using change(1,6) assms(3) by (intro sel_upd_other) auto
  then show ?thesis
    using change(2) by (intro room_same_rows rows_same_machines [OF assms(1)]) (auto simp: getClassroomById_def)
next
  case (remove r)
  have "sch_classroomId x \<noteq> k'" if "x \<in> set (db_schedules db)" "sch_id x = sch_id r" for x
    using that schedule_by_id [OF remove(3)] distinct_key_eq [OF distinct_school [OF assms(1)]] assms(3) remove(1) by metis
  then show ?thesis
    unfolding remove(2) by (intro room_same_rows drop_schedules_rows [OF assms(1)]) (auto simp: getClassroomById_def drop_schedules_left)
qed

lemma edit_machines: "schedule_edit tz now user k db db' \<Longrightarrow> db_machines db' = db_machines db"
  by (induction rule: schedule_edit.induct) (simp_all add: drop_schedules_left)

lemma schedule_command_announced:
  assumes "school_ok db" "schedule_command tz now user db ok db' evs"
  shows "announced_room db db' evs"
proof (cases ok)
  case True
  then obtain k where k: "evs = [ClassroomChanged k None]" "schedule_edit tz now user k db db'" "school_ok db'"
    using command_contract [OF assms] by (auto simp: edits_or_fails_def)
  have "names_kept db db'" by (rule names_fewer [OF assms(1)]) (simp add: edit_machines [OF k(2)])
  then show ?thesis using k edit_room_same [OF assms(1) k(2)] by (auto simp: announced_room_def)
qed (use command_contract [OF assms] announced_same [OF assms(1)] in \<open>simp add: edits_or_fails_def\<close>)

lemma step_announced:
  assumes "school_reach tz utc db" "school_step tz utc now db db' evs"
  shows "announced_room db db' evs"
proof -
  have ok: "school_ok db" by (rule school_reach_ok [OF assms(1)])
  from assms(2) show ?thesis
  proof cases
    case (delete_classroom i r3)
    then show ?thesis using drop_classroom_announced [OF ok] by (auto simp: svc_deleteClassroom_def deleteClassroom_def)
  next
    case (delete_machine h r3)
    then show ?thesis
      using drop_machines_announced [OF ok] announced_same [OF ok]
      by (auto simp: svc_deleteMachine_def deleteMachine_def split: option.splits prod.splits)
  next
    case (register sha_hex toISO i reg r5)
    then show ?thesis
      using registerMachine_announced [OF ok] announced_same [OF ok]
      by (auto simp: svc_registerMachine_def Let_def split: option.splits if_splits sum.splits prod.splits)
  qed (use ok school_reach_ungrouped [OF assms(1)] in \<open>blast intro: schedule_command_announced create_classroom_announced
      update_classroom_announced active_group_announced create_exemption_announced create_operational_announced
      delete_exemption_announced rotate_announced\<close>)+
qed

section \<open>What follows for the machines\<close>

lemma find_sel: "sel_first (\<lambda>r. P r \<and> Q r) t = List.find Q (sel_where P t)"
  by (simp add: sel_first_def sel_where_def find_filter)

lemma current_schedule_local:
  assumes "sel_where (\<lambda>r. sch_classroomId r = k) t' = sel_where (\<lambda>r. sch_classroomId r = k) t"
  shows "getCurrentSchedule tz k now t' = getCurrentSchedule tz k now t"
  unfolding getCurrentSchedule_def find_sel sel_and assms ..

lemma context_same:
  assumes "room_view c' = room_view c" "sel_where (\<lambda>r. sch_classroomId r = cls_id c) (db_schedules db') = sel_where (\<lambda>r. sch_classroomId r = cls_id c) (db_schedules db)"
  shows "toEffectivePolicyContext (resolveClassroomPolicyScopeForRecord tz c' now db') = toEffectivePolicyContext (resolveClassroomPolicyScopeForRecord tz c now db)"
proof -
  have c: "cls_id c' = cls_id c" "cls_name c' = cls_name c" "cls_defaultGroupId c' = cls_defaultGroupId c" "cls_activeGroupId c' = cls_activeGroupId c"
    using assms(1) by (simp_all add: room_view_def)
  show ?thesis
    using current_schedule_local [OF assms(2), of tz now]
    by (simp add: toEffectivePolicyContext_def resolveClassroomPolicyScopeForRecord_def buildClassroomPolicyScope_def Let_def c)
qed

lemma active_rows_same:
  assumes "room_rows k db db'" "mid \<in> mac_id ` set (db_machines db')"
  shows "sel_where (active_for mid k now) (db_exemptions db') = sel_where (active_for mid k now) (db_exemptions db)"
proof -
  let ?Q = "\<lambda>e. ex_machineId e = mid \<and> ex_expiresAt e > now"
  have split: "sel_where (active_for mid k now) t = filter ?Q (sel_where (\<lambda>e. ex_classroomId e = k) t)" for t
    by (auto simp: sel_where_def active_for_def intro!: filter_cong)
  show ?thesis
    using assms unfolding split room_rows_def by (auto simp: sel_where_def intro!: filter_cong)
qed

lemma exemption_same:
  assumes "room_rows k db db'" "mid \<in> mac_id ` set (db_machines db')"
  shows "getActiveMachineExemption mid k now db' = getActiveMachineExemption mid k now db"
    "isMachineExempt mid k now db' = isMachineExempt mid k now db"
  using active_rows_same [OF assms, of now]
  by (simp_all add: getActiveMachineExemption_def isMachineExempt_def sel_first_def find_hd_filter sel_where_def)

lemma room_sameD:
  "room_same k db db' \<Longrightarrow> getClassroomById k db = Some c \<Longrightarrow> getClassroomById k db' = Some c' \<Longrightarrow> room_view c' = room_view c \<and> room_rows k db db'"
  by (simp add: room_same_def)

text \<open>C7: no change of what a machine that stays in its classroom is to enforce goes unannounced.  When a request to the
  schedule, classroom, exemption and machine services, in a reachable state, changes the policy of a machine that is registered in
  the same classroom before and after, the service publishes the change of that classroom.  Removing a machine or a
  classroom is outside: it ends the policy of the machine and publishes nothing.\<close>
theorem policy_change_published:
  assumes "school_reach tz utc db" "school_step tz utc now db db' evs"
    and "machine_classroom h db = Some (m, k, c)" "machine_classroom h db' = Some (m', k, c')"
    and "resolveEffectiveMachineEnforcementPolicyContext tz h now db' \<noteq> resolveEffectiveMachineEnforcementPolicyContext tz h now db"
  shows "ClassroomChanged k None \<in> set evs"
proof (rule ccontr)
  assume "ClassroomChanged k None \<notin> set evs"
  note an = step_announced [OF assms(1,2)]
  then have same: "room_same k db db'" using \<open>ClassroomChanged k None \<notin> set evs\<close> by (auto simp: announced_room_def)
  have m: "m \<in> set (db_machines db)" "m' \<in> set (db_machines db')" "mac_hostname m = mac_hostname m'"
    "getClassroomById k db = Some c" "getClassroomById k db' = Some c'"
    using assms(3,4) by (auto simp: machine_classroom_def getMachineByHostname_def dest!: row_by_SomeD split: option.splits if_splits)
  then have id: "mac_id m' = mac_id m" using an by (auto simp: announced_room_def names_kept_def)
  have k: "cls_id c = k" using m(4) by (auto simp: getClassroomById_def dest: row_by_SomeD)
  note rs = room_sameD [OF same m(4,5)]
  have "getActiveMachineExemption (mac_id m') k now db' = getActiveMachineExemption (mac_id m) k now db"
    using exemption_same(1) [OF conjunct2 [OF rs] imageI [OF m(2)], of now] id by simp
  moreover have "toEffectivePolicyContext (resolveClassroomPolicyScopeForRecord tz c' now db') = toEffectivePolicyContext (resolveClassroomPolicyScopeForRecord tz c now db)"
    using rs by (intro context_same) (simp_all add: room_rows_def k)
  moreover have "cls_id c' = cls_id c" "cls_name c' = cls_name c" using rs by (simp_all add: room_view_def)
  ultimately show False
    using assms(5) by (cases "getActiveMachineExemption (mac_id m) k now db")
      (simp_all add: resolveEffectiveMachineEnforcementPolicyContext_def assms(3,4) split: if_splits)
qed

theorem policy_change_published_witness:
  "resolveEffectiveMachineEnforcementPolicyContext (\<lambda>_. 3600000) ''pc1'' 374400000 (fst (snd demo_removal)) \<noteq>
     resolveEffectiveMachineEnforcementPolicyContext (\<lambda>_. 3600000) ''pc1'' 374400000 demo_db \<and>
   ClassroomChanged ''lab'' None \<in> set (snd (snd demo_removal))"
proof -
  have step: "school_step (\<lambda>_. 3600000) utc 374400000 demo_db (fst (snd demo_removal)) (snd (snd demo_removal))" for utc
    by (rule school_step.schedules [OF demo_removal_step])
  have room: "machine_classroom ''pc1'' demo_db = Some (demo_machine, ''lab'', demo_classroom)"
    "machine_classroom ''pc1'' (fst (snd demo_removal)) = Some (demo_machine, ''lab'', demo_classroom)" by code_simp+
  have "resolveEffectiveMachineEnforcementPolicyContext (\<lambda>_. 3600000) ''pc1'' 374400000 (fst (snd demo_removal)) \<noteq>
     resolveEffectiveMachineEnforcementPolicyContext (\<lambda>_. 3600000) ''pc1'' 374400000 demo_db" by code_simp
  with policy_change_published [OF demo_db_reach step room] show ?thesis by blast
qed

lemma expected_group_step:
  assumes an: "announced_room db db' evs" "school_ok db" and same: "room_same (sc_classroomId c) db db'"
    and room: "getClassroomById (sc_classroomId c) db = Some r" "getClassroomById (sc_classroomId c) db' = Some r'"
    and m': "m' \<in> set (db_machines db')" "mac_hostname m' = sc_hostname c"
  shows "expected_group tz now db' c = expected_group tz now db c"
proof -
  let ?k = "sc_classroomId c"
  note rs = room_sameD [OF same room]
  have kept: "mac_id m' = mac_id m \<longleftrightarrow> mac_hostname m' = mac_hostname m" if "m \<in> set (db_machines db)" for m
    using an(1) that m'(1) by (simp add: announced_room_def names_kept_def)
  have "sc_hostname c \<in> set (getActiveExemptHostnamesByClassroom ?k now db) \<longleftrightarrow> isMachineExempt (mac_id m') ?k now db"
  proof (cases "\<exists>m \<in> set (db_machines db). mac_hostname m = sc_hostname c")
    case True
    then obtain m where m: "m \<in> set (db_machines db)" "mac_hostname m = sc_hostname c" by blast
    then show ?thesis using exempt_hostname_iff [OF an(2) m(1), of ?k now] kept [OF m(1)] m'(2) by simp
  next
    case False
    have "mac_id m' \<notin> mac_id ` set (db_machines db)" using False kept m'(2) by force
    then have "\<not> isMachineExempt (mac_id m') ?k now db"
      using exemption_machine [OF an(2)] unfolding isMachineExempt_def active_for_def sel_first_None_iff not_not by metis
    moreover have "sc_hostname c \<notin> set (getActiveExemptHostnamesByClassroom ?k now db)"
      using False by (auto simp: getActiveExemptHostnamesByClassroom_def set_sel_where)
    ultimately show ?thesis by simp
  qed
  moreover have "sc_hostname c \<in> set (getActiveExemptHostnamesByClassroom ?k now db') \<longleftrightarrow> isMachineExempt (mac_id m') ?k now db'"
    using exempt_hostname_iff [of db' m' ?k now] an(1) m' by (simp add: announced_room_def)
  moreover have "isMachineExempt (mac_id m') ?k now db' = isMachineExempt (mac_id m') ?k now db"
    using exemption_same(2) rs m'(1) by blast
  moreover have "resolveEffectiveClassroomPolicyContext tz ?k now db' = resolveEffectiveClassroomPolicyContext tz ?k now db"
    using context_same [of r' r db' db tz now] rs row_by_SomeD [of cls_id ?k "db_classrooms db" r] room
    by (simp add: resolveEffectiveClassroomPolicyContext_def resolveClassroomPolicyScope_def room_rows_def getClassroomById_def)
  ultimately show ?thesis by (simp add: expected_group_def)
qed

lemma no_exempt_group_same:
  assumes "room_rows (sc_classroomId c) db db'" "m \<in> set (db_machines db')"
  shows "no_exempt_group now db' c m \<longleftrightarrow> no_exempt_group now db c m"
proof -
  have "{e \<in> set (db_exemptions db'). active_for (mac_id m) (sc_classroomId c) now e} =
      {e \<in> set (db_exemptions db). active_for (mac_id m) (sc_classroomId c) now e}"
    using arg_cong [OF active_rows_same [OF assms(1) imageI [OF assms(2)], of now], of set] by (simp add: sel_where_def)
  then show ?thesis unfolding no_exempt_group_def by blast
qed


definition demo_connected :: sse_hub where
  "demo_connected = registerSseClient ''c1'' 0 ''pc1'' ''lab'' ''g1'' empty_hub"

definition demo_told :: "hub_io \<times> db_event list" where
  "demo_told = publishBatch ''i1'' (\<lambda>_. 3600000) (\<lambda>_. True) 374400000 (fst (snd demo_removal)) (snd (snd demo_removal)) demo_connected"


section \<open>Where a refusal is not a refusal\<close>

text \<open>
  \<open>setClassroomActiveGroup\<close> changes the active group and publishes, then reads the classroom with the user's rights.
  A teacher whose access rests on the active group loses it when he clears it: he gets an error for a change that was made.
\<close>

definition demo_manual :: school_db where
  "demo_manual = demo_db\<lparr>db_classrooms := [demo_classroom\<lparr>cls_activeGroupId := Some ''g1''\<rparr>], db_schedules := []\<rparr>"

theorem active_group_refused_but_set:
  "\<exists>db'. setClassroomActiveGroup (\<lambda>_. ''2026'') (\<lambda>_. 3600000) 0 demo_teacher ''lab'' None demo_manual =
      (Fail (Forbidden ''You do not have access to this classroom''), db', [ClassroomChanged ''lab'' None]) \<and>
    map cls_activeGroupId (db_classrooms db') = [None] \<and> map cls_activeGroupId (db_classrooms demo_manual) = [Some ''g1'']"
proof -
  let ?r = "setClassroomActiveGroup (\<lambda>_. ''2026'') (\<lambda>_. 3600000) 0 demo_teacher ''lab'' None demo_manual"
  have "(case fst ?r of Fail e \<Rightarrow> e = Forbidden ''You do not have access to this classroom'' | _ \<Rightarrow> False)"
    "snd (snd ?r) = [ClassroomChanged ''lab'' None]"
    "map cls_activeGroupId (db_classrooms (fst (snd ?r))) = [None]" "map cls_activeGroupId (db_classrooms demo_manual) = [Some ''g1'']"
    by code_simp+
  then show ?thesis
    by (intro exI [of _ "fst (snd ?r)"]) (auto simp: prod_eq_iff split: outcome.splits)
qed

end
