(* ===== verification/Url_Rules.thy ===== *)
theory Url_Rules
  imports Regex
begin

text \<open>
  The rules the browser extension decides web requests by
  (\<open>firefox-extension/src/lib/path-blocking.ts\<close>, \<open>subdomain-blocking.ts\<close>,
  \<open>allowed-path.ts\<close>, \<open>google-game-blocking.ts\<close>): how the raw rules delivered to the
  machine are compiled, and when a request is let through, cancelled or redirected to the
  blocked page.

  The browser's \<open>URL\<close> class is a parameter, the record \<open>web_api\<close>: \<open>wa_parse u\<close> is
  \<open>new URL(u)\<close>, \<open>None\<close> when that throws; \<open>wa_href path base ps\<close> is the text of
  \<open>new URL(path, base)\<close> after \<open>searchParams.set\<close> of each pair of \<open>ps\<close>.  The translated
  text for a host that is not known is its last field.
\<close>

section \<open>The browser's interface\<close>

record parsed_url =
  pu_hostname :: string
  pu_pathname :: string
  pu_port :: string
  pu_portless :: string
  pu_protocol :: string
  pu_origin :: string
  pu_param :: "string \<Rightarrow> string option"

record web_api =
  wa_parse :: "string \<Rightarrow> parsed_url option"
  wa_href :: "string \<Rightarrow> string \<Rightarrow> (string \<times> string) list \<Rightarrow> string"
  wa_unknownDomain :: string

record evaluation_details =
  ed_type :: "string option"
  ed_url :: string
  ed_originUrl :: "string option"
  ed_documentUrl :: "string option"

record evaluation_result =
  er_cancel :: bool
  er_redirectUrl :: "string option"
  er_reason :: string

definition nonempty_string :: "string option \<Rightarrow> string option" where
  "nonempty_string x = (if x = Some [] then None else x)"

definition BLOCKED_SCREEN_PATH :: string where
  "BLOCKED_SCREEN_PATH = ''blocked/blocked.html''"

definition ROUTE_BLOCK_REASON :: string where
  "ROUTE_BLOCK_REASON = ''BLOCKED_PATH_POLICY''"

definition PATH_BLOCKING_FILTER_TYPES :: "string list" where
  "PATH_BLOCKING_FILTER_TYPES = [''main_frame'', ''sub_frame'', ''xmlhttprequest'', ''fetch'']"

definition MAX_BLOCKED_PATH_RULES :: nat where
  "MAX_BLOCKED_PATH_RULES = 500"

definition isExtensionUrl :: "string \<Rightarrow> bool" where
  "isExtensionUrl url \<longleftrightarrow> starts_with url ''moz-extension://'' \<or> starts_with url ''chrome-extension://''"

definition buildBlockedScreenRedirectUrl ::
  "web_api \<Rightarrow> string \<Rightarrow> string \<Rightarrow> string \<Rightarrow> string option \<Rightarrow> string" where
  "buildBlockedScreenRedirectUrl web extensionOrigin hostname error origin =
     wa_href web BLOCKED_SCREEN_PATH extensionOrigin
       ([(''domain'', hostname), (''error'', error)] @
        (case nonempty_string origin of Some h \<Rightarrow> [(''origin'', h)] | None \<Rightarrow> []))"

definition extractHostname :: "web_api \<Rightarrow> string \<Rightarrow> string option" where
  "extractHostname web url = map_option pu_hostname (wa_parse web url)"

definition known_hostname :: "web_api \<Rightarrow> string \<Rightarrow> string" where
  "known_hostname web url = (case extractHostname web url of Some h \<Rightarrow> h | None \<Rightarrow> wa_unknownDomain web)"

definition referrer_url :: "evaluation_details \<Rightarrow> string" where
  "referrer_url d =
     (case ed_originUrl d of Some u \<Rightarrow> u
      | None \<Rightarrow> (case ed_documentUrl d of Some u \<Rightarrow> u | None \<Rightarrow> []))"

section \<open>Patterns of a path rule\<close>

definition strip_scheme :: "string \<Rightarrow> string" where
  "strip_scheme raw =
     (if starts_with raw ''http://'' then drop 7 raw
      else if starts_with raw ''https://'' then drop 8 raw
      else if starts_with raw ''*://'' then drop 4 raw
      else raw)"

definition close_pattern :: "string \<Rightarrow> string" where
  "close_pattern clean =
     (if CHR ''/'' \<notin> set clean \<and> CHR ''.'' \<notin> set clean \<and> CHR ''*'' \<notin> set clean
      then ''*'' @ clean @ ''*''
      else if \<not> ends_with clean ''*'' then clean @ ''*''
      else clean)"

definition buildPathRulePatterns :: "string \<Rightarrow> string list" where
  "buildPathRulePatterns rawRule =
     (let raw = to_lower (js_trim rawRule) in
      if raw = [] then []
      else let clean = close_pattern (strip_scheme raw) in
        if starts_with clean ''*.'' then [''*://'' @ clean, ''*://'' @ drop 2 clean]
        else if starts_with clean ''*/'' then [''*://*'' @ drop 1 clean]
        else if CHR ''.'' \<in> set clean \<and> CHR ''/'' \<in> set clean then [''*://*.'' @ clean, ''*://'' @ clean]
        else [''*://'' @ clean])"

text \<open>
  The regular expression of a pattern has the flag \<open>i\<close>.  A character that \<open>escapeRegexChar\<close>
  escapes stands for itself, as every other does, up to its case.
\<close>

definition folded_char :: "char \<Rightarrow> regex" where
  "folded_char c = RSet (\<lambda>x. to_lower_char x = to_lower_char c)"

definition line_char :: "char \<Rightarrow> bool" where
  "line_char c \<longleftrightarrow> c \<noteq> CHR 0x0A \<and> c \<noteq> CHR 0x0D"

definition path_char :: "char \<Rightarrow> bool" where
  "path_char c \<longleftrightarrow> c \<noteq> CHR ''?'' \<and> c \<noteq> CHR ''#''"

definition scheme_char :: "char \<Rightarrow> bool" where
  "scheme_char c \<longleftrightarrow> alnum_char c \<or> c = CHR ''+'' \<or> c = CHR ''.'' \<or> c = CHR ''-''"

definition scheme_regex :: regex where
  "scheme_regex = RSeq (RSet alpha_char) (RSeq (RStar (RSet scheme_char)) (r_str ''://''))"

fun glob_regex :: "string \<Rightarrow> regex" where
  "glob_regex [] = REps"
| "glob_regex (c # rest) =
     (if starts_with (c # rest) ''*://'' then RSeq scheme_regex (glob_regex (drop 3 rest))
      else if c = CHR ''*'' then
        RSeq (RStar (RSet (if rest = [] then line_char else path_char))) (glob_regex rest)
      else RSeq (folded_char c) (glob_regex rest))"

definition globPatternToRegex :: "string \<Rightarrow> regex" where
  "globPatternToRegex globPattern = glob_regex globPattern"

section \<open>Blocked paths\<close>

record compiled_path_rule =
  cpr_rawRule :: string
  cpr_compiledPatterns :: "string list"
  cpr_regexes :: "regex list"

text \<open>\<open>patterns.filter(...)\<close> with the set of the patterns seen so far.\<close>

fun fresh_patterns :: "string list \<Rightarrow> string list \<Rightarrow> string list \<times> string list" where
  "fresh_patterns seen [] = ([], seen)"
| "fresh_patterns seen (p # ps) =
     (if p \<in> set seen then fresh_patterns seen ps
      else let (qs, seen') = fresh_patterns (p # seen) ps in (p # qs, seen'))"

fun compile_paths :: "string list \<Rightarrow> string list \<Rightarrow> compiled_path_rule list" where
  "compile_paths seen [] = []"
| "compile_paths seen (rawPath # rest) =
     (let (patterns, seen') = fresh_patterns seen (buildPathRulePatterns rawPath) in
      if patterns = [] then compile_paths seen' rest
      else \<lparr>cpr_rawRule = rawPath, cpr_compiledPatterns = patterns,
             cpr_regexes = map globPatternToRegex patterns\<rparr> # compile_paths seen' rest)"

definition compileBlockedPathRules :: "string list \<Rightarrow> nat option \<Rightarrow> compiled_path_rule list" where
  "compileBlockedPathRules paths maxRules =
     compile_paths [] (take (case maxRules of Some m \<Rightarrow> m | None \<Rightarrow> MAX_BLOCKED_PATH_RULES) paths)"

definition shouldEnforcePathBlocking :: "string option \<Rightarrow> bool" where
  "shouldEnforcePathBlocking ty \<longleftrightarrow> (case nonempty_string ty of Some t \<Rightarrow> t \<in> set PATH_BLOCKING_FILTER_TYPES | None \<Rightarrow> False)"

definition candidate_urls :: "web_api \<Rightarrow> string \<Rightarrow> string list" where
  "candidate_urls web requestUrl =
     requestUrl # (case wa_parse web requestUrl of
         Some parsed \<Rightarrow> if pu_port parsed \<noteq> [] then [pu_portless parsed] else []
       | None \<Rightarrow> [])"

definition findMatchingBlockedPathRule ::
  "web_api \<Rightarrow> string \<Rightarrow> compiled_path_rule list \<Rightarrow> compiled_path_rule option" where
  "findMatchingBlockedPathRule web requestUrl rules =
     List.find (\<lambda>rule. list_ex (\<lambda>r. list_ex (regex_test r) (candidate_urls web requestUrl)) (cpr_regexes rule)) rules"

definition blocked_outcome ::
  "web_api \<Rightarrow> string option \<Rightarrow> evaluation_details \<Rightarrow> string \<Rightarrow> string \<Rightarrow> evaluation_result" where
  "blocked_outcome web extensionOrigin details hostname reason =
     (case nonempty_string extensionOrigin of
        None \<Rightarrow> \<lparr>er_cancel = True, er_redirectUrl = None, er_reason = reason\<rparr>
      | Some ext \<Rightarrow>
          \<lparr>er_cancel = False,
           er_redirectUrl = Some (buildBlockedScreenRedirectUrl web ext hostname reason
             (extractHostname web (referrer_url details))),
           er_reason = reason\<rparr>)"

definition cancel_outcome :: "string \<Rightarrow> evaluation_result" where
  "cancel_outcome reason = \<lparr>er_cancel = True, er_redirectUrl = None, er_reason = reason\<rparr>"

definition evaluatePathBlocking ::
  "web_api \<Rightarrow> evaluation_details \<Rightarrow> compiled_path_rule list \<Rightarrow> string option \<Rightarrow> evaluation_result option" where
  "evaluatePathBlocking web details rules extensionOrigin =
     (if \<not> shouldEnforcePathBlocking (ed_type details) then None
      else if isExtensionUrl (ed_url details) then None
      else case findMatchingBlockedPathRule web (ed_url details) rules of
          None \<Rightarrow> None
        | Some matchedRule \<Rightarrow>
            (let hostname = known_hostname web (ed_url details);
                 reason = ROUTE_BLOCK_REASON @ '':'' @ cpr_rawRule matchedRule
             in Some (if ed_type details = Some ''main_frame''
                      then blocked_outcome web extensionOrigin details hostname reason
                      else cancel_outcome reason)))"

section \<open>Blocked subdomains\<close>

record compiled_subdomain_rule =
  csr_rawRule :: string
  csr_normalizedRule :: string

definition BLOCKED_SUBDOMAIN_REASON :: string where
  "BLOCKED_SUBDOMAIN_REASON = ''BLOCKED_SUBDOMAIN_POLICY''"

definition MAX_BLOCKED_SUBDOMAIN_RULES :: nat where
  "MAX_BLOCKED_SUBDOMAIN_RULES = 1000"

definition normalized_subdomain_rule :: "string \<Rightarrow> string" where
  "normalized_subdomain_rule rawRule = strip_prefix ''*.'' (to_lower (js_trim rawRule))"

fun compile_subdomains :: "string list \<Rightarrow> string list \<Rightarrow> compiled_subdomain_rule list" where
  "compile_subdomains seen [] = []"
| "compile_subdomains seen (rawRule # rest) =
     (let normalizedRule = normalized_subdomain_rule rawRule in
      if normalizedRule = [] \<or> normalizedRule \<in> set seen then compile_subdomains seen rest
      else \<lparr>csr_rawRule = to_lower (js_trim rawRule), csr_normalizedRule = normalizedRule\<rparr> #
           compile_subdomains (normalizedRule # seen) rest)"

definition compileBlockedSubdomainRules :: "string list \<Rightarrow> nat option \<Rightarrow> compiled_subdomain_rule list" where
  "compileBlockedSubdomainRules rules maxRules =
     compile_subdomains [] (take (case maxRules of Some m \<Rightarrow> m | None \<Rightarrow> MAX_BLOCKED_SUBDOMAIN_RULES) rules)"

definition subdomain_rule_hit :: "string \<Rightarrow> compiled_subdomain_rule \<Rightarrow> bool" where
  "subdomain_rule_hit hostname rule \<longleftrightarrow>
     hostname = csr_normalizedRule rule \<or> ends_with hostname (CHR ''.'' # csr_normalizedRule rule)"

definition findMatchingBlockedSubdomainRule ::
  "web_api \<Rightarrow> string \<Rightarrow> compiled_subdomain_rule list \<Rightarrow> compiled_subdomain_rule option" where
  "findMatchingBlockedSubdomainRule web requestUrl rules =
     (case nonempty_string (map_option to_lower (extractHostname web requestUrl)) of
        None \<Rightarrow> None
      | Some hostname \<Rightarrow> List.find (subdomain_rule_hit hostname) rules)"

definition evaluateSubdomainBlocking ::
  "web_api \<Rightarrow> evaluation_details \<Rightarrow> compiled_subdomain_rule list \<Rightarrow> string option \<Rightarrow> evaluation_result option" where
  "evaluateSubdomainBlocking web details rules extensionOrigin =
     (if isExtensionUrl (ed_url details) then None
      else case findMatchingBlockedSubdomainRule web (ed_url details) rules of
          None \<Rightarrow> None
        | Some matchedRule \<Rightarrow>
            (let hostname = known_hostname web (ed_url details);
                 reason = BLOCKED_SUBDOMAIN_REASON @ '':'' @ csr_rawRule matchedRule
             in Some (if ed_type details = Some ''main_frame''
                      then blocked_outcome web extensionOrigin details hostname reason
                      else cancel_outcome reason)))"

section \<open>Allowed paths\<close>

record compiled_allowed_rule =
  car_rawRule :: string
  car_host :: string
  car_compiledPatterns :: "string list"
  car_regexes :: "regex list"

definition ALLOWED_PATH_BLOCK_REASON :: string where
  "ALLOWED_PATH_BLOCK_REASON = ''ALLOWED_PATH_POLICY''"

definition MAX_ALLOWED_PATH_RULES :: nat where
  "MAX_ALLOWED_PATH_RULES = 500"

definition shouldEnforceAllowedPath :: "string option \<Rightarrow> bool" where
  "shouldEnforceAllowedPath ty \<longleftrightarrow> ty = Some ''main_frame''"

definition extractAllowedRuleHost :: "string \<Rightarrow> string option" where
  "extractAllowedRuleHost rawRule =
     (let raw = to_lower (js_trim rawRule) in
      if raw = [] then None
      else let clean = strip_scheme raw in
        if CHR ''/'' \<notin> set clean \<or> starts_with clean ''/'' then None
        else let host = strip_prefix ''*.'' (before_first (CHR ''/'') clean) in
          if host = [] \<or> host = ''*'' \<or> CHR ''.'' \<notin> set host then None else Some host)"

text \<open>
  The loop keeps the patterns seen, and adds a rule and its host when one of its patterns is
  new.  The set of managed hosts is iterated in insertion order.
\<close>

definition add_last :: "'a \<Rightarrow> 'a list \<Rightarrow> 'a list" where
  "add_last x xs = (if x \<in> set xs then xs else xs @ [x])"

fun compile_allowed ::
  "string list \<Rightarrow> string list \<Rightarrow> string list \<Rightarrow> compiled_allowed_rule list \<times> string list" where
  "compile_allowed seen hosts [] = ([], hosts)"
| "compile_allowed seen hosts (rawPath # rest) =
     (case extractAllowedRuleHost rawPath of
        None \<Rightarrow> compile_allowed seen hosts rest
      | Some host \<Rightarrow>
          (let (patterns, seen') = fresh_patterns seen (buildPathRulePatterns rawPath) in
           if patterns = [] then compile_allowed seen' hosts rest
           else let (rules, hosts') = compile_allowed seen' (add_last host hosts) rest in
             (\<lparr>car_rawRule = rawPath, car_host = host, car_compiledPatterns = patterns,
               car_regexes = map globPatternToRegex patterns\<rparr> # rules, hosts')))"

definition compileAllowedPathRules ::
  "string list \<Rightarrow> nat option \<Rightarrow> compiled_allowed_rule list \<times> string list" where
  "compileAllowedPathRules paths maxRules =
     compile_allowed [] [] (take (case maxRules of Some m \<Rightarrow> m | None \<Rightarrow> MAX_ALLOWED_PATH_RULES) paths)"

definition isHostManaged :: "string \<Rightarrow> string list \<Rightarrow> bool" where
  "isHostManaged hostname managedHosts \<longleftrightarrow>
     (let host = to_lower hostname in
      list_ex (\<lambda>managed. host = managed \<or> ends_with host (CHR ''.'' # managed)) managedHosts)"

definition urlMatchesAllowedRule :: "web_api \<Rightarrow> string \<Rightarrow> compiled_allowed_rule list \<Rightarrow> bool" where
  "urlMatchesAllowedRule web requestUrl rules \<longleftrightarrow>
     list_ex (\<lambda>rule. list_ex (\<lambda>r. list_ex (regex_test r) (candidate_urls web requestUrl)) (car_regexes rule)) rules"

definition evaluateAllowedPath ::
  "web_api \<Rightarrow> evaluation_details \<Rightarrow> compiled_allowed_rule list \<Rightarrow> string list \<Rightarrow> string option \<Rightarrow>
   evaluation_result option" where
  "evaluateAllowedPath web details rules managedHosts extensionOrigin =
     (if \<not> shouldEnforceAllowedPath (ed_type details) then None
      else if isExtensionUrl (ed_url details) then None
      else if managedHosts = [] then None
      else case nonempty_string (extractHostname web (ed_url details)) of
          None \<Rightarrow> None
        | Some hostname \<Rightarrow>
            if \<not> isHostManaged hostname managedHosts then None
            else if urlMatchesAllowedRule web (ed_url details) rules then None
            else Some (blocked_outcome web extensionOrigin details hostname
                         (ALLOWED_PATH_BLOCK_REASON @ '':'' @ hostname)))"

section \<open>Games of the search engine\<close>

datatype google_game = Doodles | Logo_game | Snake

definition GOOGLE_GAME_POLICY_REASON :: string where
  "GOOGLE_GAME_POLICY_REASON = ''GOOGLE_GAME_POLICY''"

definition game_kind :: "google_game \<Rightarrow> string" where
  "game_kind g = (case g of Doodles \<Rightarrow> ''doodles'' | Logo_game \<Rightarrow> ''logo-game'' | Snake \<Rightarrow> ''snake'')"

definition folded_str :: "string \<Rightarrow> regex" where
  "folded_str s = foldr (\<lambda>c r. RSeq (folded_char c) r) s REps"

definition word_gap :: regex where
  "word_gap = r_opt (RSet (\<lambda>c. js_space c \<or> c = CHR ''.'' \<or> c = CHR ''_'' \<or> c = CHR ''-''))"

definition GOOGLE_GAME_LOGO_PATTERN :: regex where
  "GOOGLE_GAME_LOGO_PATTERN =
     RAlt (folded_str ''snake'')
    (RAlt (RSeq (folded_str ''pac'') (RSeq word_gap (folded_str ''man'')))
    (RAlt (folded_str ''solitaire'')
    (RAlt (RSeq (folded_str ''tic'') (RSeq word_gap (RSeq (folded_str ''tac'') (RSeq word_gap (folded_str ''toe'')))))
    (RAlt (folded_str ''minesweeper'')
    (RAlt (folded_str ''memory'')
    (RAlt (folded_str ''arcade'') (folded_str ''game'')))))))"

text \<open>\<open>pattern.test(s)\<close> for a pattern without anchors.\<close>

definition regex_search :: "regex \<Rightarrow> string \<Rightarrow> bool" where
  "regex_search r s \<longleftrightarrow> regex_test (RSeq (RStar (RSet (\<lambda>_. True))) (RSeq r (RStar (RSet (\<lambda>_. True))))) s"

definition isGoogleHost :: "string \<Rightarrow> bool" where
  "isGoogleHost hostname =
     regex_test (RSeq (r_opt (RSeq (r_plus (RSet line_char)) (r_char (CHR ''.''))))
       (RSeq (folded_str ''google.'') (r_plus (RSet (\<lambda>c. alpha_char c \<or> c = CHR ''.''))))) hostname"

definition isDoodlesHost :: "string \<Rightarrow> bool" where
  "isDoodlesHost hostname \<longleftrightarrow> hostname = ''doodles.google'' \<or> ends_with hostname ''.doodles.google''"

definition isGoogleGameUrl :: "web_api \<Rightarrow> string \<Rightarrow> google_game option" where
  "isGoogleGameUrl web url =
     (case wa_parse web url of
        None \<Rightarrow> None
      | Some parsed \<Rightarrow>
          (let hostname = to_lower (pu_hostname parsed) in
           if isDoodlesHost hostname then Some Doodles
           else if \<not> isGoogleHost hostname then None
           else if pu_pathname parsed = ''/fbx'' \<and>
             to_lower (case pu_param parsed ''fbx'' of Some v \<Rightarrow> v | None \<Rightarrow> []) = ''snake_arcade'' then Some Snake
           else if starts_with (pu_pathname parsed) ''/logos/'' \<and>
             regex_search GOOGLE_GAME_LOGO_PATTERN (pu_pathname parsed) then Some Logo_game
           else None))"

definition evaluateGoogleGameBlocking ::
  "web_api \<Rightarrow> evaluation_details \<Rightarrow> string option \<Rightarrow> evaluation_result option" where
  "evaluateGoogleGameBlocking web details extensionOrigin =
     (case isGoogleGameUrl web (ed_url details) of
        None \<Rightarrow> None
      | Some g \<Rightarrow>
          (let reason = GOOGLE_GAME_POLICY_REASON @ '':'' @ game_kind g in
           Some (case (ed_type details = Some ''main_frame'', extensionOrigin, extractHostname web (ed_url details)) of
               (True, Some ext, Some hostname) \<Rightarrow>
                 \<lparr>er_cancel = False,
                  er_redirectUrl = Some (buildBlockedScreenRedirectUrl web ext hostname reason (Some (ed_url details))),
                  er_reason = reason\<rparr>
             | _ \<Rightarrow> cancel_outcome reason)))"

definition isGoogleGamePolicyOutcome :: "evaluation_result option \<Rightarrow> bool" where
  "isGoogleGamePolicyOutcome outcome \<longleftrightarrow>
     (case outcome of Some r \<Rightarrow> starts_with (er_reason r) (GOOGLE_GAME_POLICY_REASON @ '':'') | None \<Rightarrow> False)"

section \<open>What a pattern matches\<close>

declare glob_regex.simps [simp del]

lemma glob_regex_empty [simp]: "glob_regex [] = REps"
  by (simp add: glob_regex.simps)

lemma folded_literal:
  "CHR ''*'' \<notin> set p \<Longrightarrow>
   matches (glob_regex (p @ q)) s \<longleftrightarrow> (\<exists>u v. s = u @ v \<and> to_lower u = to_lower p \<and> matches (glob_regex q) v)"
proof (induction p arbitrary: s)
  case (Cons c p)
  then have c: "c \<noteq> CHR ''*''" "CHR ''*'' \<notin> set p" by auto
  then have "matches (glob_regex ((c # p) @ q)) s \<longleftrightarrow>
      (\<exists>x t. s = x # t \<and> to_lower_char x = to_lower_char c \<and> matches (glob_regex (p @ q)) t)"
    by (simp add: glob_regex.simps starts_with_def folded_char_def matches_seq_set)
  also have "\<dots> \<longleftrightarrow> (\<exists>u v. s = u @ v \<and> to_lower u = to_lower (c # p) \<and> matches (glob_regex q) v)"
  proof
    assume "\<exists>x t. s = x # t \<and> to_lower_char x = to_lower_char c \<and> matches (glob_regex (p @ q)) t"
    then obtain x u v where "s = (x # u) @ v" "to_lower (x # u) = to_lower (c # p)" "matches (glob_regex q) v"
      using Cons.IH [OF c(2)] by auto
    then show "\<exists>u v. s = u @ v \<and> to_lower u = to_lower (c # p) \<and> matches (glob_regex q) v" by blast
  next
    assume "\<exists>u v. s = u @ v \<and> to_lower u = to_lower (c # p) \<and> matches (glob_regex q) v"
    then obtain u v where uv: "s = u @ v" "to_lower u = to_lower (c # p)" "matches (glob_regex q) v" by blast
    then obtain x u' where "u = x # u'" by (cases u) auto
    with uv show "\<exists>x t. s = x # t \<and> to_lower_char x = to_lower_char c \<and> matches (glob_regex (p @ q)) t"
      using Cons.IH [OF c(2)] by auto
  qed
  finally show ?case .
qed simp

lemma matches_last_star: "matches (glob_regex ''*'') s \<longleftrightarrow> list_all line_char s"
  by (auto simp: glob_regex.simps starts_with_def matches_RSeq matches_star_set)

lemma matches_inner_star:
  "q \<noteq> [] \<Longrightarrow> \<not> prefix ''://'' q \<Longrightarrow>
   matches (glob_regex (CHR ''*'' # q)) s \<longleftrightarrow> (\<exists>u v. s = u @ v \<and> list_all path_char u \<and> matches (glob_regex q) v)"
  by (auto simp: glob_regex.simps(2) [of "CHR ''*''"] starts_with_def matches_RSeq matches_star_set)

definition scheme_text :: "string \<Rightarrow> bool" where
  "scheme_text sch \<longleftrightarrow> sch \<noteq> [] \<and> alpha_char (hd sch) \<and> list_all scheme_char (tl sch)"

lemma matches_scheme: "matches scheme_regex s \<longleftrightarrow> (\<exists>sch. s = sch @ ''://'' \<and> scheme_text sch)"
proof -
  have "matches scheme_regex s \<longleftrightarrow>
      (\<exists>c u. s = (c # u) @ ''://'' \<and> alpha_char c \<and> list_all scheme_char u)"
    unfolding scheme_regex_def matches_seq_set by (auto simp: matches_RSeq matches_star_set)
  also have "\<dots> \<longleftrightarrow> (\<exists>sch. s = sch @ ''://'' \<and> scheme_text sch)"
    by (auto simp: scheme_text_def) (metis append_Cons list.collapse)
  finally show ?thesis .
qed

lemma matches_scheme_pattern:
  "matches (glob_regex (''*://'' @ q)) s \<longleftrightarrow>
   (\<exists>sch v. s = sch @ ''://'' @ v \<and> scheme_text sch \<and> matches (glob_regex q) v)"
proof -
  have "glob_regex (''*://'' @ q) = RSeq scheme_regex (glob_regex q)"
    by (simp add: glob_regex.simps(2) [of "CHR ''*''"] starts_with_def)
  then have "matches (glob_regex (''*://'' @ q)) s \<longleftrightarrow>
      (\<exists>u v. s = u @ v \<and> (\<exists>sch. u = sch @ ''://'' \<and> scheme_text sch) \<and> matches (glob_regex q) v)"
    by (simp add: matches_RSeq flip: matches_scheme)
  also have "\<dots> \<longleftrightarrow> (\<exists>sch v. s = sch @ ''://'' @ v \<and> scheme_text sch \<and> matches (glob_regex q) v)"
    by (metis append_assoc)
  finally show ?thesis .
qed

lemmas matches_scheme_cons = matches_scheme_pattern [simplified append_Cons append_Nil]

text \<open>The URLs that the patterns of a rule \<open>host/path\<close> without a star match.  The text before the
  host may hold slashes, which lets in pages of other hosts; \<open>rule_hits\<close> and \<open>rule_strays\<close> below tell
  the two apart.\<close>

definition covers :: "string \<Rightarrow> string \<Rightarrow> bool" where
  "covers rule url \<longleftrightarrow>
     (\<exists>sch mid body tail. url = sch @ ''://'' @ mid @ body @ tail \<and> scheme_text sch \<and>
        (mid = [] \<or> (list_all path_char mid \<and> last mid = CHR ''.'')) \<and>
        to_lower body = rule \<and> list_all line_char tail)"

definition plain_path_rule :: "string \<Rightarrow> bool" where
  "plain_path_rule rule \<longleftrightarrow>
     js_trim rule = rule \<and> to_lower rule = rule \<and> CHR ''*'' \<notin> set rule \<and>
     CHR ''.'' \<in> set rule \<and> CHR ''/'' \<in> set rule \<and>
     \<not> starts_with rule ''http://'' \<and> \<not> starts_with rule ''https://''"

lemma plain_rule_patterns:
  assumes "plain_path_rule rule"
  shows "buildPathRulePatterns rule = [''*://*.'' @ rule @ ''*'', ''*://'' @ rule @ ''*'']"
proof -
  have r: "rule \<noteq> []" "\<not> suffix ''*'' rule" "\<not> prefix ''*'' rule"
    using assms by (auto simp: plain_path_rule_def suffix_def prefix_def)
  then have "strip_scheme rule = rule"
    using assms by (auto simp: plain_path_rule_def strip_scheme_def starts_with_def prefix_def)
  moreover have "close_pattern rule = rule @ ''*''"
    using assms r by (simp add: plain_path_rule_def close_pattern_def ends_with_def)
  moreover have "\<not> prefix ''*.'' (rule @ ''*'')" "\<not> prefix ''*/'' (rule @ ''*'')"
    using r by (cases rule; auto simp: prefix_def)+
  ultimately show ?thesis
    using assms by (auto simp: plain_path_rule_def buildPathRulePatterns_def starts_with_def Let_def)
qed

lemma plain_pattern_matches:
  "CHR ''*'' \<notin> set rule \<Longrightarrow>
   matches (glob_regex (''*://'' @ rule @ ''*'')) s \<longleftrightarrow>
   (\<exists>sch body tail. s = sch @ ''://'' @ body @ tail \<and> scheme_text sch \<and>
      to_lower body = to_lower rule \<and> list_all line_char tail)"
  by (simp add: matches_scheme_cons folded_literal matches_last_star) blast

lemma dot_split: "mid \<noteq> [] \<and> last mid = c \<longleftrightarrow> (\<exists>u. mid = u @ [c])"
  by (metis append_butlast_last_id last_snoc snoc_eq_iff_butlast)

lemma subdomain_pattern_matches:
  assumes "CHR ''*'' \<notin> set rule"
  shows "matches (glob_regex (''*://*.'' @ rule @ ''*'')) s \<longleftrightarrow>
   (\<exists>sch mid body tail. s = sch @ ''://'' @ mid @ body @ tail \<and> scheme_text sch \<and>
      mid \<noteq> [] \<and> list_all path_char mid \<and> last mid = CHR ''.'' \<and>
      to_lower body = to_lower rule \<and> list_all line_char tail)"
    (is "_ \<longleftrightarrow> ?rhs")
proof -
  have dot: "to_lower u = to_lower ''.'' \<longleftrightarrow> u = ''.''" for u
  proof (cases u)
    case (Cons c t)
    have "to_lower_char (CHR ''.'') = CHR ''.''"
      by (simp add: to_lower_char_fixed upper_char_def)
    then have "to_lower_char c = to_lower_char (CHR ''.'') \<longleftrightarrow> c = CHR ''.''"
      using to_lower_char_eq_iff [of "CHR ''.''" c] by (simp add: upper_char_def lower_char_def)
    with Cons show ?thesis by simp
  qed simp
  have lit: "matches (glob_regex (''.'' @ rule @ ''*'')) v \<longleftrightarrow>
      (\<exists>body tail. v = ''.'' @ body @ tail \<and> to_lower body = to_lower rule \<and> list_all line_char tail)" for v
    using assms
    by (subst folded_literal) (simp_all add: folded_literal matches_last_star dot del: to_lower_simps, blast)
  have star: "matches (glob_regex (CHR ''*'' # ''.'' @ rule @ ''*'')) v \<longleftrightarrow>
      (\<exists>u w. v = u @ w \<and> list_all path_char u \<and> matches (glob_regex (''.'' @ rule @ ''*'')) w)" for v
    by (rule matches_inner_star) (auto simp: prefix_def)
  have "matches (glob_regex (''*://*.'' @ rule @ ''*'')) s \<longleftrightarrow>
    (\<exists>sch v. s = sch @ ''://'' @ v \<and> scheme_text sch \<and> matches (glob_regex (CHR ''*'' # ''.'' @ rule @ ''*'')) v)"
    using matches_scheme_pattern [of "CHR ''*'' # ''.'' @ rule @ ''*''" s] by simp
  also have "\<dots> \<longleftrightarrow> (\<exists>sch u body tail. s = sch @ ''://'' @ (u @ ''.'') @ body @ tail \<and> scheme_text sch \<and>
      list_all path_char u \<and> to_lower body = to_lower rule \<and> list_all line_char tail)"
    unfolding star lit append_assoc by blast
  also have "\<dots> \<longleftrightarrow> ?rhs"
  proof
    assume "\<exists>sch u body tail. s = sch @ ''://'' @ (u @ ''.'') @ body @ tail \<and> scheme_text sch \<and>
      list_all path_char u \<and> to_lower body = to_lower rule \<and> list_all line_char tail"
    then obtain sch u body tail where "s = sch @ ''://'' @ (u @ ''.'') @ body @ tail" "scheme_text sch"
      "list_all path_char u" "to_lower body = to_lower rule" "list_all line_char tail" by blast
    then show ?rhs
      by (intro exI [of _ sch] exI [of _ "u @ ''.''"] exI [of _ body] exI [of _ tail])
        (simp add: path_char_def)
  next
    assume ?rhs
    then obtain sch mid body tail where a: "s = sch @ ''://'' @ mid @ body @ tail" "scheme_text sch"
      "mid \<noteq> []" "list_all path_char mid" "last mid = CHR ''.''"
      "to_lower body = to_lower rule" "list_all line_char tail" by blast
    then obtain u where "mid = u @ ''.''" using dot_split [of mid] by blast
    with a show "\<exists>sch u body tail. s = sch @ ''://'' @ (u @ ''.'') @ body @ tail \<and> scheme_text sch \<and>
      list_all path_char u \<and> to_lower body = to_lower rule \<and> list_all line_char tail"
      by (intro exI [of _ sch] exI [of _ u] exI [of _ body] exI [of _ tail]) simp
  qed
  finally show ?thesis .
qed

lemma plain_rule_covers:
  assumes "plain_path_rule rule"
  shows "(\<exists>p \<in> set (buildPathRulePatterns rule). matches (globPatternToRegex p) url) \<longleftrightarrow> covers rule url"
proof -
  have r: "CHR ''*'' \<notin> set rule" "to_lower rule = rule"
    using assms by (simp_all add: plain_path_rule_def)
  have "(\<exists>p \<in> set (buildPathRulePatterns rule). matches (globPatternToRegex p) url) \<longleftrightarrow>
      matches (glob_regex (''*://*.'' @ rule @ ''*'')) url \<or> matches (glob_regex (''*://'' @ rule @ ''*'')) url"
    by (simp add: plain_rule_patterns [OF assms] globPatternToRegex_def)
  also have "\<dots> \<longleftrightarrow> covers rule url"
  proof
    assume "matches (glob_regex (''*://*.'' @ rule @ ''*'')) url \<or> matches (glob_regex (''*://'' @ rule @ ''*'')) url"
    then obtain sch mid body tail where "url = sch @ ''://'' @ mid @ body @ tail" "scheme_text sch"
      "mid = [] \<or> list_all path_char mid \<and> last mid = CHR ''.''" "to_lower body = rule" "list_all line_char tail"
    proof (elim disjE)
      assume "matches (glob_regex (''*://'' @ rule @ ''*'')) url"
      then show thesis
        unfolding plain_pattern_matches [OF r(1)] r(2) using that [where mid = "[]"] by auto
    next
      assume "matches (glob_regex (''*://*.'' @ rule @ ''*'')) url"
      then show thesis
        unfolding subdomain_pattern_matches [OF r(1)] r(2) using that by blast
    qed
    then show "covers rule url" unfolding covers_def by blast
  next
    assume "covers rule url"
    then obtain sch mid body tail where u: "url = sch @ ''://'' @ mid @ body @ tail" "scheme_text sch"
      "mid = [] \<or> list_all path_char mid \<and> last mid = CHR ''.''" "to_lower body = rule" "list_all line_char tail"
      unfolding covers_def by blast
    show "matches (glob_regex (''*://*.'' @ rule @ ''*'')) url \<or> matches (glob_regex (''*://'' @ rule @ ''*'')) url"
    proof (cases "mid = []")
      case True
      with u have "matches (glob_regex (''*://'' @ rule @ ''*'')) url"
        unfolding plain_pattern_matches [OF r(1)] r(2) by (metis append_Nil)
      then show ?thesis ..
    next
      case False
      with u have "matches (glob_regex (''*://*.'' @ rule @ ''*'')) url"
        unfolding subdomain_pattern_matches [OF r(1)] r(2) by blast
      then show ?thesis ..
    qed
  qed
  finally show ?thesis .
qed

section \<open>Compilation loses no pattern\<close>

lemma fresh_patterns_sets:
  "fresh_patterns seen ps = (qs, seen') \<Longrightarrow> set qs = set ps - set seen \<and> set seen' = set seen \<union> set ps"
proof (induction seen ps arbitrary: qs seen' rule: fresh_patterns.induct)
  case (2 seen p ps)
  show ?case
  proof (cases "p \<in> set seen")
    case True
    then have "fresh_patterns seen ps = (qs, seen')" using "2.prems" by simp
    from "2.IH"(1) [OF True this] True show ?thesis by auto
  next
    case False
    obtain rs s where f: "fresh_patterns (p # seen) ps = (rs, s)" by fastforce
    then have "qs = p # rs" "seen' = s" using "2.prems" False by simp_all
    with "2.IH"(2) [OF False f] False show ?thesis by auto
  qed
qed simp

lemma compile_paths_patterns:
  "(\<Union>rule \<in> set (compile_paths seen raws). set (cpr_compiledPatterns rule)) =
   (\<Union>raw \<in> set raws. set (buildPathRulePatterns raw)) - set seen"
proof (induction seen raws rule: compile_paths.induct)
  case (2 seen raw rest)
  obtain ps seen' where f: "fresh_patterns seen (buildPathRulePatterns raw) = (ps, seen')" by fastforce
  from fresh_patterns_sets [OF this]
  have s: "set ps = set (buildPathRulePatterns raw) - set seen"
    "set seen' = set seen \<union> set (buildPathRulePatterns raw)" by auto
  have IH: "(\<Union>rule \<in> set (compile_paths seen' rest). set (cpr_compiledPatterns rule)) =
      (\<Union>raw \<in> set rest. set (buildPathRulePatterns raw)) - set seen'"
    using "2.IH" [OF f [symmetric] refl] by (cases "ps = []") (use "2.IH" f in auto)
  show ?case
  proof (cases "ps = []")
    case True
    with f IH s show ?thesis by auto
  next
    case False
    with f IH s show ?thesis by auto
  qed
qed simp

lemma compile_paths_regexes:
  "rule \<in> set (compile_paths seen raws) \<Longrightarrow> cpr_regexes rule = map globPatternToRegex (cpr_compiledPatterns rule)"
  by (induction seen raws rule: compile_paths.induct) (auto simp: Let_def split: prod.splits if_splits)

definition url_blocked :: "web_api \<Rightarrow> string \<Rightarrow> compiled_path_rule list \<Rightarrow> bool" where
  "url_blocked web url rules \<longleftrightarrow> findMatchingBlockedPathRule web url rules \<noteq> None"

lemma url_blocked_compiled:
  "url_blocked web url (compile_paths [] raws) \<longleftrightarrow>
   (\<exists>u \<in> set (candidate_urls web url). \<exists>raw \<in> set raws. \<exists>p \<in> set (buildPathRulePatterns raw).
      matches (globPatternToRegex p) u)"
proof -
  have "url_blocked web url (compile_paths [] raws) \<longleftrightarrow>
      (\<exists>rule \<in> set (compile_paths [] raws). \<exists>r \<in> set (cpr_regexes rule).
         \<exists>u \<in> set (candidate_urls web url). matches r u)"
    by (auto simp: url_blocked_def findMatchingBlockedPathRule_def find_None_iff list_ex_iff regex_test_iff)
  also have "\<dots> \<longleftrightarrow> (\<exists>u \<in> set (candidate_urls web url).
      \<exists>p \<in> (\<Union>rule \<in> set (compile_paths [] raws). set (cpr_compiledPatterns rule)).
         matches (globPatternToRegex p) u)"
    by (force simp: compile_paths_regexes)
  finally show ?thesis unfolding compile_paths_patterns by auto
qed

section \<open>What a rule stands for\<close>

text \<open>
  The reading of a rule on texts, without patterns or expressions.  A star stands for text
  without a query or a fragment, and \<open>*://\<close> for a scheme; every other character for itself, in
  any case.
\<close>

inductive fills :: "string \<Rightarrow> string \<Rightarrow> bool" where
  fills_end: "fills [] []"
| fills_char: "c \<noteq> CHR ''*'' \<Longrightarrow> to_lower_char x = to_lower_char c \<Longrightarrow> fills p v \<Longrightarrow> fills (c # p) (x # v)"
| fills_scheme: "scheme_text sch \<Longrightarrow> fills p v \<Longrightarrow> fills (''*://'' @ p) (sch @ ''://'' @ v)"
| fills_star: "\<not> prefix ''://'' p \<Longrightarrow> list_all path_char u \<Longrightarrow> fills p v \<Longrightarrow> fills (CHR ''*'' # p) (u @ v)"

inductive_simps fills_Nil [simp]: "fills [] v"
inductive_simps fills_Cons: "fills (c # p) v"

definition open_end :: "string \<Rightarrow> string" where
  "open_end body = (if suffix ''*'' body then butlast body else body)"

definition bare_word :: "string \<Rightarrow> bool" where
  "bare_word body \<longleftrightarrow> set body \<inter> {CHR ''/'', CHR ''.'', CHR ''*''} = {}"

definition host_char :: "char \<Rightarrow> bool" where
  "host_char c \<longleftrightarrow> c \<noteq> CHR ''/'' \<and> path_char c"

text \<open>A rule for a site, \<open>host/path\<close> or \<open>*.host\<close> with a path or without, is about the part after \<open>*.\<close>.\<close>

inductive site_rule :: "string \<Rightarrow> string \<Rightarrow> bool" where
  starred: "site_rule (''*.'' @ body) (open_end body)"
| plain: "CHR ''.'' \<in> set body \<Longrightarrow> CHR ''/'' \<in> set body \<Longrightarrow> \<not> prefix ''*.'' body \<Longrightarrow> \<not> prefix ''*/'' body \<Longrightarrow>
    site_rule body (open_end body)"

text \<open>
  The part of a URL after the scheme is hit by a word anywhere before the query; by a rule for
  a site when it begins with the rule, or with the name of a subdomain and the rule; by any
  other rule, \<open>*/path\<close> among them, when it begins with the rule.  The rest of the URL is free.
\<close>

inductive rule_hits :: "string \<Rightarrow> string \<Rightarrow> bool" where
  word: "bare_word body \<Longrightarrow> list_all path_char front \<Longrightarrow> fills body found \<Longrightarrow> list_all line_char tail \<Longrightarrow>
    rule_hits body (front @ found @ tail)"
| site: "site_rule body place \<Longrightarrow> sub = [] \<or> (list_all host_char sub \<and> last sub = CHR ''.'') \<Longrightarrow>
    fills place found \<Longrightarrow> list_all line_char tail \<Longrightarrow> rule_hits body (sub @ found @ tail)"
| other: "\<not> bare_word body \<Longrightarrow> (\<nexists>place. site_rule body place) \<Longrightarrow> fills (open_end body) found \<Longrightarrow>
    list_all line_char tail \<Longrightarrow> rule_hits body (found @ tail)"

text \<open>
  A URL strays into a rule for a site when text with a slash stands before the rule: the page
  is one of another host.
\<close>

inductive rule_strays :: "string \<Rightarrow> string \<Rightarrow> bool" where
  "site_rule body place \<Longrightarrow> list_all path_char front \<Longrightarrow> CHR ''/'' \<in> set front \<Longrightarrow> last front = CHR ''.'' \<Longrightarrow>
    fills place found \<Longrightarrow> list_all line_char tail \<Longrightarrow> rule_strays body (front @ found @ tail)"

definition stands_for :: "(string \<Rightarrow> string \<Rightarrow> bool) \<Rightarrow> string \<Rightarrow> string \<Rightarrow> bool" where
  "stands_for hit rule url \<longleftrightarrow> js_trim rule \<noteq> [] \<and>
     (\<exists>sch rest. url = sch @ ''://'' @ rest \<and> scheme_text sch \<and> hit (strip_scheme (to_lower (js_trim rule))) rest)"

lemma glob_fills:
  "matches (glob_regex (p @ ''*'')) s \<longleftrightarrow> (\<exists>v tail. s = v @ tail \<and> fills p v \<and> list_all line_char tail)"
proof (induction p arbitrary: s rule: glob_regex.induct)
  case 1
  then show ?case by (simp add: matches_last_star [simplified])
next
  case (2 c rest)
  show ?case
  proof (cases "starts_with (c # rest) ''*://''")
    case True
    then obtain q where q: "c = CHR ''*''" "rest = ''://'' @ q" by (auto simp: starts_with_def prefix_def)
    have "matches (glob_regex (''*://'' @ q @ ''*'')) s \<longleftrightarrow>
        (\<exists>sch v. s = sch @ ''://'' @ v \<and> scheme_text sch \<and> (\<exists>w tail. v = w @ tail \<and> fills q w \<and> list_all line_char tail))"
      unfolding matches_scheme_pattern using "2.IH"(1) [OF True] q(2) by simp
    also have "\<dots> \<longleftrightarrow> (\<exists>v tail. s = v @ tail \<and> fills (''*://'' @ q) v \<and> list_all line_char tail)"
      by (auto simp: fills_Cons) (metis append_Cons append_Nil append_assoc)+
    finally show ?thesis using q by simp
  next
    case False
    show ?thesis
    proof (cases "c = CHR ''*''")
      case True
      with False have np: "\<not> prefix ''://'' rest" by (simp add: starts_with_def)
      then have "\<not> prefix ''://'' (rest @ ''*'')" by (auto simp: prefix_def append_eq_Cons_conv)
      then have "matches (glob_regex (CHR ''*'' # rest @ ''*'')) s \<longleftrightarrow>
          (\<exists>u v. s = u @ v \<and> list_all path_char u \<and> (\<exists>w tail. v = w @ tail \<and> fills rest w \<and> list_all line_char tail))"
        using matches_inner_star [of "rest @ ''*''" s] "2.IH"(2) [OF False True] by simp
      also have "\<dots> \<longleftrightarrow> (\<exists>v tail. s = v @ tail \<and> fills (CHR ''*'' # rest) v \<and> list_all line_char tail)"
        using np by (auto simp: fills_Cons prefix_def) (metis append_assoc)+
      finally show ?thesis using True by simp
    next
      case ch: False
      with False have "glob_regex ((c # rest) @ ''*'') = RSeq (folded_char c) (glob_regex (rest @ ''*''))"
        by (simp add: glob_regex.simps(2) starts_with_def)
      then show ?thesis
        using "2.IH"(3) [OF False ch] ch
        by (auto simp: folded_char_def matches_seq_set fills_Cons) (metis append_Cons)+
    qed
  qed
qed

lemma glob_scheme_fills:
  "matches (glob_regex (''*://'' @ p @ ''*'')) s \<longleftrightarrow>
   (\<exists>sch v tail. s = sch @ ''://'' @ v @ tail \<and> scheme_text sch \<and> fills p v \<and> list_all line_char tail)"
  unfolding matches_scheme_pattern glob_fills by blast

text \<open>The bodies of the patterns of a rule: each pattern is \<open>*://\<close>, a body and a last star.\<close>

definition pattern_bodies :: "string \<Rightarrow> string list" where
  "pattern_bodies body =
     (if bare_word body then [CHR ''*'' # body]
      else if prefix ''*.'' body then [open_end body, open_end (drop 2 body)]
      else if prefix ''*/'' body then [open_end body]
      else if CHR ''.'' \<in> set body \<and> CHR ''/'' \<in> set body then [''*.'' @ open_end body, open_end body]
      else [open_end body])"

lemma open_end_set: "c \<noteq> CHR ''*'' \<Longrightarrow> c \<in> set (open_end body) \<longleftrightarrow> c \<in> set body"
  by (auto simp: open_end_def suffix_def)

lemma open_end_prefix:
  assumes "c \<noteq> CHR ''*''"
  shows "prefix [CHR ''*'', c] (open_end body) \<longleftrightarrow> prefix [CHR ''*'', c] body"
proof (cases "suffix ''*'' body")
  case True
  then obtain b where b: "body = b @ ''*''" by (auto simp: suffix_def)
  with assms show ?thesis by (auto simp: open_end_def prefix_def append_eq_Cons_conv)
qed (simp add: open_end_def)

lemma open_end_drop:
  assumes "c \<noteq> CHR ''*''" "prefix [CHR ''*'', c] body"
  shows "open_end body = CHR ''*'' # c # open_end (drop 2 body)"
proof -
  obtain b where b: "body = CHR ''*'' # c # b" using assms(2) by (auto simp: prefix_def)
  show ?thesis
  proof (cases "b = []")
    case False
    then have "suffix ''*'' body \<longleftrightarrow> suffix ''*'' b" using assms(1) b by (auto simp: suffix_Cons)
    with False b show ?thesis by (simp add: open_end_def)
  qed (use assms(1) b in \<open>simp add: open_end_def suffix_Cons\<close>)
qed

lemma close_pattern_open:
  "close_pattern body = (if bare_word body then CHR ''*'' # body @ ''*'' else open_end body @ ''*'')"
proof -
  have "bare_word body \<longleftrightarrow> CHR ''/'' \<notin> set body \<and> CHR ''.'' \<notin> set body \<and> CHR ''*'' \<notin> set body"
    by (auto simp: bare_word_def)
  then show ?thesis
    by (auto simp: close_pattern_def open_end_def ends_with_def suffix_def)
qed

lemma patterns_of_rule:
  assumes "js_trim rule \<noteq> []"
  shows "buildPathRulePatterns rule =
    map (\<lambda>b. ''*://'' @ b @ ''*'') (pattern_bodies (strip_scheme (to_lower (js_trim rule))))"
proof -
  define body where "body = strip_scheme (to_lower (js_trim rule))"
  have build: "buildPathRulePatterns rule =
      (let clean = close_pattern body in
        if starts_with clean ''*.'' then [''*://'' @ clean, ''*://'' @ drop 2 clean]
        else if starts_with clean ''*/'' then [''*://*'' @ drop 1 clean]
        else if CHR ''.'' \<in> set clean \<and> CHR ''/'' \<in> set clean then [''*://*.'' @ clean, ''*://'' @ clean]
        else [''*://'' @ clean])"
    using assms by (simp add: buildPathRulePatterns_def body_def Let_def)
  have star: "prefix [CHR ''*'', c] (b @ ''*'') \<longleftrightarrow> prefix [CHR ''*'', c] b" if "c \<noteq> CHR ''*''" for b c
    using that by (auto simp: prefix_def append_eq_Cons_conv)
  show ?thesis
  proof (cases "bare_word body")
    case True
    then have "CHR ''.'' \<notin> set body" "CHR ''/'' \<notin> set body" by (auto simp: bare_word_def)
    moreover from this have "\<not> prefix ''*.'' (CHR ''*'' # body @ ''*'')" "\<not> prefix ''*/'' (CHR ''*'' # body @ ''*'')"
      by (cases body; auto)+
    ultimately show ?thesis
      unfolding build using True
      by (simp add: close_pattern_open Let_def starts_with_def pattern_bodies_def flip: body_def)
  next
    case False
    then have clean: "close_pattern body = open_end body @ ''*''" by (simp add: close_pattern_open)
    have starts: "starts_with (close_pattern body) ''*.'' \<longleftrightarrow> prefix ''*.'' body"
      "starts_with (close_pattern body) ''*/'' \<longleftrightarrow> prefix ''*/'' body"
      unfolding clean starts_with_def using star open_end_prefix by simp_all
    have chars: "CHR ''.'' \<in> set (close_pattern body) \<longleftrightarrow> CHR ''.'' \<in> set body"
      "CHR ''/'' \<in> set (close_pattern body) \<longleftrightarrow> CHR ''/'' \<in> set body"
      by (simp_all add: clean open_end_set)
    consider (dot) "prefix ''*.'' body" | (slash) "\<not> prefix ''*.'' body" "prefix ''*/'' body"
      | (none) "\<not> prefix ''*.'' body" "\<not> prefix ''*/'' body" by blast
    then show ?thesis
    proof cases
      case dot
      with open_end_drop [OF _ dot] show ?thesis
        unfolding build Let_def starts pattern_bodies_def body_def [symmetric] by (simp add: False clean)
    next
      case slash
      with open_end_drop [OF _ slash(2)] show ?thesis
        unfolding build Let_def starts pattern_bodies_def body_def [symmetric] by (simp add: False clean)
    next
      case none
      then show ?thesis
        unfolding build Let_def starts chars pattern_bodies_def body_def [symmetric] by (simp add: False clean)
    qed
  qed
qed

lemma fills_word: "fills (CHR ''*'' # body) v \<longleftrightarrow> (\<exists>u w. v = u @ w \<and> list_all path_char u \<and> fills body w)"
  if "bare_word body"
proof -
  have "\<not> prefix ''://'' body" using that by (auto simp: bare_word_def prefix_def)
  then show ?thesis by (auto simp: fills_Cons prefix_def)
qed

lemma fills_sub:
  "fills (''*.'' @ place) v \<longleftrightarrow>
   (\<exists>front w. v = front @ w \<and> front \<noteq> [] \<and> list_all path_char front \<and> last front = CHR ''.'' \<and> fills place w)"
proof -
  have dot: "to_lower_char x = to_lower_char (CHR ''.'') \<longleftrightarrow> x = CHR ''.''" for x
    using to_lower_char_eq_iff [of "CHR ''.''" x] to_lower_char_fixed [of "CHR ''.''"]
    by (simp add: upper_char_def lower_char_def)
  have "fills (''*.'' @ place) v \<longleftrightarrow> (\<exists>u w. v = (u @ ''.'') @ w \<and> list_all path_char u \<and> fills place w)"
    by (auto simp: fills_Cons dot)
  also have "\<dots> \<longleftrightarrow>
      (\<exists>front w. v = front @ w \<and> front \<noteq> [] \<and> list_all path_char front \<and> last front = CHR ''.'' \<and> fills place w)"
  proof
    assume "\<exists>u w. v = (u @ ''.'') @ w \<and> list_all path_char u \<and> fills place w"
    then obtain u w where "v = (u @ ''.'') @ w" "list_all path_char u" "fills place w" by blast
    then show "\<exists>front w. v = front @ w \<and> front \<noteq> [] \<and> list_all path_char front \<and> last front = CHR ''.'' \<and> fills place w"
      by (intro exI [of _ "u @ ''.''"] exI [of _ w]) (simp add: path_char_def)
  next
    assume "\<exists>front w. v = front @ w \<and> front \<noteq> [] \<and> list_all path_char front \<and> last front = CHR ''.'' \<and> fills place w"
    then obtain front w where f: "v = front @ w" "front \<noteq> []" "list_all path_char front" "last front = CHR ''.''"
      "fills place w" by blast
    moreover from f(2,4) obtain u where "front = u @ ''.''" using dot_split by metis
    ultimately show "\<exists>u w. v = (u @ ''.'') @ w \<and> list_all path_char u \<and> fills place w" by auto
  qed
  finally show ?thesis .
qed

lemma site_rule_unique: "site_rule body place \<Longrightarrow> site_rule body place' \<Longrightarrow> place = place'"
  by (auto elim!: site_rule.cases)

lemma site_rule_not_bare: "site_rule body place \<Longrightarrow> \<not> bare_word body"
  by (auto elim!: site_rule.cases simp: bare_word_def)

lemma site_hits_or_strays:
  assumes site: "site_rule body place"
  shows "(\<exists>b \<in> {''*.'' @ place, place}. \<exists>v tail. rest = v @ tail \<and> fills b v \<and> list_all line_char tail) \<longleftrightarrow>
    rule_hits body rest \<or> rule_strays body rest"
proof -
  let ?rest = "\<lambda>front found tail. rest = front @ found @ tail \<and> fills place found \<and> list_all line_char tail"
  have hits: "rule_hits body rest \<longleftrightarrow>
      (\<exists>front found tail. ?rest front found tail \<and> (front = [] \<or> list_all host_char front \<and> last front = CHR ''.''))"
    using site site_rule_not_bare [OF site] site_rule_unique [OF site]
    by (subst rule_hits.simps) blast
  have strays: "rule_strays body rest \<longleftrightarrow>
      (\<exists>front found tail. ?rest front found tail \<and> list_all path_char front \<and> CHR ''/'' \<in> set front \<and>
         last front = CHR ''.'')"
    using site site_rule_unique [OF site] by (subst rule_strays.simps) blast
  have host: "list_all host_char front \<longleftrightarrow> list_all path_char front \<and> CHR ''/'' \<notin> set front" for front
    by (auto simp: list_all_iff host_char_def)
  have "(\<exists>b \<in> {''*.'' @ place, place}. \<exists>v tail. rest = v @ tail \<and> fills b v \<and> list_all line_char tail) \<longleftrightarrow>
      (\<exists>front found tail. ?rest front found tail \<and>
         (front = [] \<or> front \<noteq> [] \<and> list_all path_char front \<and> last front = CHR ''.''))"
    (is "?l \<longleftrightarrow> ?r")
  proof
    assume ?l
    then obtain v tail where v: "rest = v @ tail" "list_all line_char tail" "fills (''*.'' @ place) v \<or> fills place v"
      by blast
    then obtain front found where "v = front @ found" "fills place found"
      "front = [] \<or> front \<noteq> [] \<and> list_all path_char front \<and> last front = CHR ''.''"
      using fills_sub [of place v] by (metis append_Nil)
    with v show ?r by (metis append_assoc)
  next
    assume ?r
    then obtain front found tail where f: "?rest front found tail"
      "front = [] \<or> front \<noteq> [] \<and> list_all path_char front \<and> last front = CHR ''.''" by blast
    then have "fills (''*.'' @ place) (front @ found) \<or> fills place (front @ found)"
      using fills_sub [of place "front @ found"] by auto
    with f(1) show ?l by (metis append_assoc insertI1 insertI2 singletonI)
  qed
  then show ?thesis unfolding hits strays host by blast
qed

lemma rule_bodies_hit:
  "(\<exists>b \<in> set (pattern_bodies body). \<exists>v tail. rest = v @ tail \<and> fills b v \<and> list_all line_char tail) \<longleftrightarrow>
   rule_hits body rest \<or> rule_strays body rest"
proof -
  consider (bare) "bare_word body"
    | (site) place where "site_rule body place" "set (pattern_bodies body) = {''*.'' @ place, place}"
    | (none) "\<not> bare_word body" "\<nexists>place. site_rule body place" "pattern_bodies body = [open_end body]"
  proof -
    assume bare: "bare_word body \<Longrightarrow> thesis"
      and site: "\<And>place. site_rule body place \<Longrightarrow> set (pattern_bodies body) = {''*.'' @ place, place} \<Longrightarrow> thesis"
      and none: "\<not> bare_word body \<Longrightarrow> \<nexists>place. site_rule body place \<Longrightarrow> pattern_bodies body = [open_end body] \<Longrightarrow> thesis"
    show thesis
    proof (cases "bare_word body")
      case nb: False
      consider "prefix ''*.'' body" | "\<not> prefix ''*.'' body" "\<not> prefix ''*/'' body" "CHR ''.'' \<in> set body" "CHR ''/'' \<in> set body"
        | "\<not> prefix ''*.'' body" "prefix ''*/'' body \<or> CHR ''.'' \<notin> set body \<or> CHR ''/'' \<notin> set body" by blast
      then show thesis
      proof cases
        case 1
        with open_end_drop [OF _ 1] nb show thesis
          using site_rule.starred [of "drop 2 body"]
          by (intro site [of "open_end (drop 2 body)"]) (auto simp: prefix_def pattern_bodies_def)
      next
        case 2
        with nb show thesis
          by (intro site [of "open_end body"]) (auto simp: pattern_bodies_def intro: site_rule.plain)
      next
        case 3
        with nb show thesis
          by (intro none) (auto simp: pattern_bodies_def elim!: site_rule.cases)
      qed
    qed (rule bare)
  qed
  then show ?thesis
  proof cases
    case bare
    then have "\<nexists>place. site_rule body place" using site_rule_not_bare by blast
    then have "rule_strays body rest \<longleftrightarrow> False" "rule_hits body rest \<longleftrightarrow>
        (\<exists>u w tail. rest = u @ w @ tail \<and> list_all path_char u \<and> fills body w \<and> list_all line_char tail)"
      using bare by (auto simp: rule_hits.simps rule_strays.simps)
    moreover have "(\<exists>v tail. rest = v @ tail \<and> fills (CHR ''*'' # body) v \<and> list_all line_char tail) \<longleftrightarrow>
        (\<exists>u w tail. rest = u @ w @ tail \<and> list_all path_char u \<and> fills body w \<and> list_all line_char tail)"
      unfolding fills_word [OF bare] by (metis append_assoc)
    moreover have "set (pattern_bodies body) = {CHR ''*'' # body}" using bare by (simp add: pattern_bodies_def)
    ultimately show ?thesis by simp
  next
    case site
    then show ?thesis using site_hits_or_strays [OF site(1), of rest] by simp
  next
    case none
    then have "rule_strays body rest \<longleftrightarrow> False" "rule_hits body rest \<longleftrightarrow>
        (\<exists>v tail. rest = v @ tail \<and> fills (open_end body) v \<and> list_all line_char tail)"
      by (auto simp: rule_hits.simps rule_strays.simps)
    then show ?thesis by (simp add: none(3))
  qed
qed

lemma rule_patterns_hit:
  "(\<exists>p \<in> set (buildPathRulePatterns rule). matches (globPatternToRegex p) url) \<longleftrightarrow>
   stands_for rule_hits rule url \<or> stands_for rule_strays rule url"
proof (cases "js_trim rule = []")
  case True
  then show ?thesis by (simp add: buildPathRulePatterns_def stands_for_def)
next
  case False
  define body where "body = strip_scheme (to_lower (js_trim rule))"
  have "(\<exists>p \<in> set (buildPathRulePatterns rule). matches (globPatternToRegex p) url) \<longleftrightarrow>
      (\<exists>b \<in> set (pattern_bodies body). \<exists>sch v tail. url = sch @ ''://'' @ v @ tail \<and> scheme_text sch \<and> fills b v \<and>
         list_all line_char tail)"
    by (simp add: patterns_of_rule [OF False] globPatternToRegex_def glob_scheme_fills [simplified] flip: body_def)
  also have "\<dots> \<longleftrightarrow> (\<exists>sch rest. url = sch @ ''://'' @ rest \<and> scheme_text sch \<and>
      (\<exists>b \<in> set (pattern_bodies body). \<exists>v tail. rest = v @ tail \<and> fills b v \<and> list_all line_char tail))"
    by blast
  finally show ?thesis
    unfolding rule_bodies_hit stands_for_def using False by (auto simp flip: body_def)
qed

text \<open>C37: the blocked paths are what the rules say, but for one fault.  Over the rules that are
  compiled, the first five hundred, whatever their form, a URL is blocked exactly when it, or it
  without its port, is hit by a rule or strays into one.  A rule hits a URL as written down in
  \<open>rule_hits\<close>: \<open>host/path\<close> and \<open>*.host\<close> the pages of the host and of its subdomains, \<open>*/path\<close>
  those of every host, a word every URL that has it before the query.  A URL strays into a rule
  for a site when it is a page of another host whose path holds the rule after a dot.\<close>

theorem blocked_paths_exact:
  "findMatchingBlockedPathRule web url (compileBlockedPathRules paths None) \<noteq> None \<longleftrightarrow>
    (\<exists>rule \<in> set (take 500 paths). \<exists>u \<in> set (candidate_urls web url).
       stands_for rule_hits rule u \<or> stands_for rule_strays rule u)"
proof -
  have "url_blocked web url (compile_paths [] (take 500 paths)) \<longleftrightarrow>
      (\<exists>u \<in> set (candidate_urls web url). \<exists>rule \<in> set (take 500 paths).
         stands_for rule_hits rule u \<or> stands_for rule_strays rule u)"
    unfolding url_blocked_compiled rule_patterns_hit ..
  then show ?thesis
    by (auto simp: url_blocked_def compileBlockedPathRules_def MAX_BLOCKED_PATH_RULES_def)
qed

text \<open>A hit of a rule \<open>host/path\<close> without a star is a page of that host or of a subdomain.\<close>

lemma site_hit_host:
  assumes "rule_hits (host @ CHR ''/'' # path) rest" "list_all host_char host" "CHR ''.'' \<in> set host"
    and "CHR ''*'' \<notin> set (host @ path)"
  shows "\<exists>sub name. before_first (CHR ''/'') rest = sub @ name \<and> to_lower name = to_lower host \<and>
    (sub = [] \<or> last sub = CHR ''.'')"
proof -
  let ?rule = "host @ CHR ''/'' # path"
  have lit: "fills p v \<Longrightarrow> CHR ''*'' \<notin> set p \<Longrightarrow> to_lower v = to_lower p" for p v
    by (induction rule: fills.induct) auto
  have "\<not> suffix ''*'' ?rule"
  proof
    assume "suffix ''*'' ?rule"
    then obtain zs where "?rule = zs @ ''*''" unfolding suffix_def by blast
    moreover have "CHR ''*'' \<in> set (zs @ ''*'')" by simp
    ultimately have "CHR ''*'' \<in> set ?rule" by metis
    with assms(4) show False by simp
  qed
  then have "open_end ?rule = ?rule" by (simp add: open_end_def)
  moreover have "\<not> prefix ''*.'' ?rule" "\<not> prefix ''*/'' ?rule"
    using assms(3,4) by (cases host; auto)+
  ultimately have site: "site_rule ?rule ?rule"
    using site_rule.plain [of ?rule] assms(3) by simp
  with assms(1) obtain sub found tail where f: "rest = sub @ found @ tail" "fills ?rule found"
    "sub = [] \<or> list_all host_char sub \<and> last sub = CHR ''.''"
    using site_rule_not_bare [OF site] site_rule_unique [OF site]
    by (auto simp: rule_hits.simps [of ?rule rest])
  have low: "to_lower found = to_lower ?rule" using lit [OF f(2)] assms(4) by simp
  have slash: "to_lower_char x = CHR ''/'' \<longleftrightarrow> x = CHR ''/''" for x
    using to_lower_char_eq_iff [of "CHR ''/''" x] to_lower_char_fixed [of "CHR ''/''"]
    by (simp add: upper_char_def lower_char_def)
  from low have "map to_lower_char found = to_lower host @ to_lower_char (CHR ''/'') # to_lower path"
    by (simp add: to_lower_def)
  then obtain name more where "found = name @ more" and name: "to_lower name = to_lower host"
    and "map to_lower_char more = to_lower_char (CHR ''/'') # to_lower path"
    by (auto simp: map_eq_append_conv to_lower_def)
  then obtain c m where "more = c # m" "to_lower_char c = to_lower_char (CHR ''/'')" by (cases more) auto
  then have found: "found = name @ CHR ''/'' # m"
    using \<open>found = name @ more\<close> slash [of c] slash [of "CHR ''/''"] by simp
  have "CHR ''/'' \<notin> set name"
  proof
    assume "CHR ''/'' \<in> set name"
    then have "to_lower_char (CHR ''/'') \<in> set (to_lower host)" using name by (metis imageI to_lower_set)
    then obtain x where "x \<in> set host" "to_lower_char x = to_lower_char (CHR ''/'')"
      by (auto simp only: to_lower_set image_iff)
    with slash [of x] slash [of "CHR ''/''"] have "CHR ''/'' \<in> set host" by simp
    with assms(2) show False by (auto simp: list_all_iff host_char_def)
  qed
  moreover have "CHR ''/'' \<notin> set sub" using f(3) by (auto simp: list_all_iff host_char_def)
  ultimately have "before_first (CHR ''/'') rest = sub @ name"
    using before_first_append [of "CHR ''/''" "sub @ name" "m @ tail"] f(1) found by simp
  with name f(3) show ?thesis by blast
qed

definition example_url :: "string \<Rightarrow> string \<Rightarrow> string \<Rightarrow> parsed_url" where
  "example_url host path text =
     \<lparr>pu_hostname = host, pu_pathname = path, pu_port = [], pu_portless = text,
      pu_protocol = ''https:'', pu_origin = ''https://'' @ host, pu_param = (\<lambda>_. None)\<rparr>"

definition example_web :: web_api where
  "example_web =
     \<lparr>wa_parse = (\<lambda>u. if starts_with u ''https://'' then
          Some (example_url (before_first (CHR ''/'') (drop 8 u)) (CHR ''/'' # after_first (CHR ''/'') (drop 8 u)) u)
        else None),
      wa_href = (\<lambda>path base ps. base @ path),
      wa_unknownDomain = ''?''\<rparr>"

lemma blocked_paths_exact_witness:
  "findMatchingBlockedPathRule example_web ''https://m.a.com/Games''
     (compileBlockedPathRules [''*.a.com/games''] None) \<noteq> None"
proof -
  have rule: "js_trim ''*.a.com/games'' = ''*.a.com/games''"
    "strip_scheme (to_lower ''*.a.com/games'') = ''*.'' @ ''a.com/games''" "open_end ''a.com/games'' = ''a.com/games''"
    by code_simp+
  have "to_lower_char (CHR ''G'') = to_lower_char (CHR ''g'')" by code_simp
  then have "fills ''a.com/games'' ''a.com/Games''" by (simp add: fills_Cons)
  moreover have "site_rule (''*.'' @ ''a.com/games'') ''a.com/games''"
    using site_rule.starred [of "''a.com/games''"] unfolding rule(3) .
  moreover have "list_all host_char ''m.''" "list_all line_char []" "scheme_text ''https''" by code_simp+
  ultimately have "rule_hits (''*.'' @ ''a.com/games'') (''m.'' @ ''a.com/Games'' @ [])"
    by (intro rule_hits.site) simp_all
  with \<open>scheme_text ''https''\<close> have "stands_for rule_hits ''*.a.com/games'' ''https://m.a.com/Games''"
    unfolding stands_for_def rule
    by (intro conjI exI [of _ "''https''"] exI [of _ "''m.a.com/Games''"]) simp_all
  then show ?thesis
    using blocked_paths_exact [of example_web "''https://m.a.com/Games''" "[''*.a.com/games'']"]
    by (simp add: candidate_urls_def)
qed

text \<open>The text before the dot may hold slashes: a page of another host strays into the rule.\<close>

lemma other_host_strays: "stands_for rule_strays ''a.com/games'' ''https://b.org/x.a.com/games''"
proof -
  have rule: "js_trim ''a.com/games'' = ''a.com/games''" "strip_scheme (to_lower ''a.com/games'') = ''a.com/games''"
    "open_end ''a.com/games'' = ''a.com/games''"
    by code_simp+
  have "site_rule ''a.com/games'' (open_end ''a.com/games'')" by (rule site_rule.plain) simp_all
  moreover have "fills ''a.com/games'' ''a.com/games''" by (simp add: fills_Cons)
  moreover have "list_all path_char ''b.org/x.''" "list_all line_char []" by code_simp+
  ultimately have "rule_strays ''a.com/games'' (''b.org/x.'' @ ''a.com/games'' @ [])"
    unfolding rule(3) by (intro rule_strays.intros) simp_all
  then have "rule_strays ''a.com/games'' ''b.org/x.a.com/games''" by simp
  moreover have "scheme_text ''https''" by code_simp
  ultimately show ?thesis
    unfolding stands_for_def rule by (intro conjI exI [of _ "''https''"] exI [of _ "''b.org/x.a.com/games''"]) simp_all
qed

text \<open>So does a page of the same host, which is how the gate of the allowed paths reads its rules.\<close>

lemma other_host_blocked: "covers ''a.com/games'' ''https://b.org/x.a.com/games''"
  unfolding covers_def
  by (intro exI [of _ "''https''"] exI [of _ "''b.org/x.''"] exI [of _ "''a.com/games''"] exI [of _ "[]"]) code_simp

section \<open>The gate of the allowed paths\<close>

lemma plain_rule_strip: "plain_path_rule rule \<Longrightarrow> strip_scheme (to_lower (js_trim rule)) = rule"
  by (auto simp: plain_path_rule_def strip_scheme_def starts_with_def prefix_def)

lemma plain_rule_first:
  assumes "plain_path_rule rule" "p \<in> set (buildPathRulePatterns rule)" "plain_path_rule other"
  shows "p = ''*://'' @ other @ ''*'' \<Longrightarrow> rule = other"
proof -
  assume p: "p = ''*://'' @ other @ ''*''"
  have "CHR ''*'' \<notin> set other" using assms(3) by (simp add: plain_path_rule_def)
  then show ?thesis
    using assms(2) p by (auto simp: plain_rule_patterns [OF assms(1)] Cons_eq_append_conv append_eq_Cons_conv)
qed

definition ruled_host :: "string list \<Rightarrow> string \<Rightarrow> bool" where
  "ruled_host paths h \<longleftrightarrow> (\<exists>rule \<in> set paths. extractAllowedRuleHost rule = Some h)"

lemma compile_allowed_hosts:
  "list_all plain_path_rule paths \<Longrightarrow>
   (\<And>p. p \<in> set seen \<Longrightarrow> \<exists>rule h. plain_path_rule rule \<and> extractAllowedRuleHost rule = Some h \<and>
        h \<in> set hosts \<and> p \<in> set (buildPathRulePatterns rule)) \<Longrightarrow>
   h \<in> set (snd (compile_allowed seen hosts paths)) \<longleftrightarrow> h \<in> set hosts \<or> ruled_host paths h"
proof (induction seen hosts paths rule: compile_allowed.induct)
  case (2 seen hosts raw rest)
  have plain: "plain_path_rule raw" "list_all plain_path_rule rest" using "2.prems"(1) by simp_all
  show ?case
  proof (cases "extractAllowedRuleHost raw")
    case None
    with 2 plain show ?thesis by (simp add: ruled_host_def)
  next
    case (Some host)
    obtain ps seen' where f: "fresh_patterns seen (buildPathRulePatterns raw) = (ps, seen')" by fastforce
    from fresh_patterns_sets [OF this]
    have s: "set ps = set (buildPathRulePatterns raw) - set seen"
      "set seen' = set seen \<union> set (buildPathRulePatterns raw)" by auto
    show ?thesis
    proof (cases "ps = []")
      case True
      have "''*://'' @ raw @ ''*'' \<in> set seen"
        using s(1) True plain_rule_patterns [OF plain(1)] by auto
      then obtain rule h' where "plain_path_rule rule" "extractAllowedRuleHost rule = Some h'"
        "h' \<in> set hosts" "''*://'' @ raw @ ''*'' \<in> set (buildPathRulePatterns rule)"
        using "2.prems"(2) by blast
      with plain_rule_first [OF _ _ plain(1)] have "host \<in> set hosts" using Some by force
      moreover have "set seen' = set seen" using s True by auto
      then have "h \<in> set (snd (compile_allowed seen' hosts rest)) \<longleftrightarrow> h \<in> set hosts \<or> ruled_host rest h"
        using "2.IH"(2) [OF Some f [symmetric] refl True plain(2)] "2.prems"(2) by simp
      ultimately show ?thesis using Some f True by (auto simp: ruled_host_def)
    next
      case False
      have "\<exists>rule h. plain_path_rule rule \<and> extractAllowedRuleHost rule = Some h \<and>
          h \<in> set (add_last host hosts) \<and> p \<in> set (buildPathRulePatterns rule)" if "p \<in> set seen'" for p
        using that s(2) "2.prems"(2) [of p] plain(1) Some by (auto simp: add_last_def)
      then have "h \<in> set (snd (compile_allowed seen' (add_last host hosts) rest)) \<longleftrightarrow>
          h \<in> set (add_last host hosts) \<or> ruled_host rest h"
        using "2.IH"(3) [OF Some f [symmetric] refl False plain(2)] by blast
      then show ?thesis
        using Some f False by (auto simp: ruled_host_def add_last_def split: prod.splits)
    qed
  qed
qed (simp add: ruled_host_def)

lemma compile_allowed_patterns:
  "(\<Union>rule \<in> set (fst (compile_allowed seen hosts raws)). set (car_compiledPatterns rule)) =
   (\<Union>raw \<in> {raw \<in> set raws. extractAllowedRuleHost raw \<noteq> None}. set (buildPathRulePatterns raw)) - set seen"
proof (induction seen hosts raws rule: compile_allowed.induct)
  case (2 seen hosts raw rest)
  show ?case
  proof (cases "extractAllowedRuleHost raw")
    case None
    then have "{r \<in> set (raw # rest). extractAllowedRuleHost r \<noteq> None} =
        {r \<in> set rest. extractAllowedRuleHost r \<noteq> None}" by auto
    with "2.IH"(1) [OF None] None show ?thesis by simp
  next
    case (Some host)
    then have sel: "{r \<in> set (raw # rest). extractAllowedRuleHost r \<noteq> None} =
        insert raw {r \<in> set rest. extractAllowedRuleHost r \<noteq> None}" by auto
    obtain ps seen' where f: "fresh_patterns seen (buildPathRulePatterns raw) = (ps, seen')" by fastforce
    from fresh_patterns_sets [OF this]
    have s: "set ps = set (buildPathRulePatterns raw) - set seen"
      "set seen' = set seen \<union> set (buildPathRulePatterns raw)" by auto
    show ?thesis
    proof (cases "ps = []")
      case True
      then have "set (buildPathRulePatterns raw) \<subseteq> set seen" "set seen' = set seen" using s by auto
      with True Some f "2.IH"(2) [OF Some f [symmetric] refl True] show ?thesis
        unfolding sel by auto
    next
      case False
      have "fst (compile_allowed seen hosts (raw # rest)) =
          \<lparr>car_rawRule = raw, car_host = host, car_compiledPatterns = ps,
            car_regexes = map globPatternToRegex ps\<rparr> # fst (compile_allowed seen' (add_last host hosts) rest)"
        using False Some f by (simp split: prod.splits)
      with "2.IH"(3) [OF Some f [symmetric] refl False] s show ?thesis
        unfolding sel by auto
    qed
  qed
qed simp

lemma compile_allowed_regexes:
  "rule \<in> set (fst (compile_allowed seen hosts raws)) \<Longrightarrow>
   car_regexes rule = map globPatternToRegex (car_compiledPatterns rule)"
  by (induction seen hosts raws rule: compile_allowed.induct)
    (auto simp: Let_def split: prod.splits option.splits if_splits)

lemma url_allowed_compiled:
  assumes "list_all plain_path_rule raws"
  shows "urlMatchesAllowedRule web url (fst (compile_allowed [] [] raws)) \<longleftrightarrow>
    (\<exists>raw \<in> set raws. extractAllowedRuleHost raw \<noteq> None \<and> (\<exists>u \<in> set (candidate_urls web url). covers raw u))"
proof -
  have "urlMatchesAllowedRule web url (fst (compile_allowed [] [] raws)) \<longleftrightarrow>
      (\<exists>u \<in> set (candidate_urls web url).
        \<exists>p \<in> (\<Union>rule \<in> set (fst (compile_allowed [] [] raws)). set (car_compiledPatterns rule)).
          matches (globPatternToRegex p) u)"
    by (force simp: urlMatchesAllowedRule_def list_ex_iff regex_test_iff compile_allowed_regexes)
  also have "\<dots> \<longleftrightarrow> (\<exists>raw \<in> set raws. extractAllowedRuleHost raw \<noteq> None \<and>
      (\<exists>u \<in> set (candidate_urls web url). \<exists>p \<in> set (buildPathRulePatterns raw). matches (globPatternToRegex p) u))"
    unfolding compile_allowed_patterns by auto
  finally show ?thesis
    using assms by (auto simp: list_all_iff plain_rule_covers)
qed

text \<open>On a host that has allowed paths, only they open.  For rules \<open>host/path\<close> without a
  star, up to the maximum number of rules, a page of a known host is let through exactly when
  neither the host nor a parent of it has a rule, or a rule covers the page; repeated rules
  change nothing.\<close>

theorem allowed_paths_exact:
  assumes "list_all plain_path_rule paths" "length paths \<le> MAX_ALLOWED_PATH_RULES"
    and "ed_type d = Some ''main_frame''" "\<not> isExtensionUrl (ed_url d)"
    and "extractHostname web (ed_url d) = Some host" "host \<noteq> []"
  shows "(let (rules, hosts) = compileAllowedPathRules paths None
          in evaluateAllowedPath web d rules hosts ext = None) \<longleftrightarrow>
    \<not> (\<exists>rule \<in> set paths. \<exists>h. extractAllowedRuleHost rule = Some h \<and>
          (to_lower host = h \<or> suffix (CHR ''.'' # h) (to_lower host))) \<or>
    (\<exists>rule \<in> set paths. extractAllowedRuleHost rule \<noteq> None \<and>
          (\<exists>u \<in> set (candidate_urls web (ed_url d)). covers rule u))"
proof -
  define hosts where "hosts = snd (compile_allowed [] [] paths)"
  have h: "h \<in> set hosts \<longleftrightarrow> ruled_host paths h" for h
    unfolding hosts_def using compile_allowed_hosts [OF assms(1), of "[]" "[]"] by simp
  have "isHostManaged host hosts \<longleftrightarrow> (\<exists>rule \<in> set paths. \<exists>h. extractAllowedRuleHost rule = Some h \<and>
          (to_lower host = h \<or> suffix (CHR ''.'' # h) (to_lower host)))"
    unfolding isHostManaged_def list_ex_iff ends_with_def Let_def Bex_def h ruled_host_def by blast
  moreover have "compileAllowedPathRules paths None = (fst (compile_allowed [] [] paths), hosts)"
    using assms(2) by (simp add: compileAllowedPathRules_def hosts_def)
  moreover have "\<not> isHostManaged host []" by (simp add: isHostManaged_def)
  ultimately show ?thesis
    using assms(3-6) url_allowed_compiled [OF assms(1), of web "ed_url d"]
    by (auto simp: evaluateAllowedPath_def shouldEnforceAllowedPath_def nonempty_string_def)
qed

lemma allowed_paths_exact_witness:
  "(let (rules, hosts) = compileAllowedPathRules [''a.com/watch'', ''b.com/x'', ''a.com/watch''] None
    in evaluateAllowedPath example_web
         \<lparr>ed_type = Some ''main_frame'', ed_url = ''https://c.org/'', ed_originUrl = None, ed_documentUrl = None\<rparr>
         rules hosts None = None)"
proof -
  have "list_all plain_path_rule [''a.com/watch'', ''b.com/x'', ''a.com/watch'']" by code_simp
  moreover have "extractHostname example_web ''https://c.org/'' = Some ''c.org''" by code_simp
  moreover have "extractAllowedRuleHost ''a.com/watch'' = Some ''a.com''" by code_simp
  moreover have "extractAllowedRuleHost ''b.com/x'' = Some ''b.com''" by code_simp
  moreover have "\<not> isExtensionUrl ''https://c.org/''" by code_simp
  moreover have "to_lower ''c.org'' = ''c.org''" by code_simp
  moreover have "\<not> suffix ''.a.com'' ''c.org''" "\<not> suffix ''.b.com'' ''c.org''" by code_simp+
  ultimately show ?thesis
    using allowed_paths_exact [of "[''a.com/watch'', ''b.com/x'', ''a.com/watch'']"
        "\<lparr>ed_type = Some ''main_frame'', ed_url = ''https://c.org/'', ed_originUrl = None, ed_documentUrl = None\<rparr>"
        example_web "''c.org''" None]
    by (simp add: MAX_ALLOWED_PATH_RULES_def del: to_lower_simps)
qed

text \<open>A forbidden page of a host with allowed paths opens when its address ends like an allowed one.\<close>

lemma gate_bypass: "covers ''a.com/watch'' ''https://a.com/forbidden/.a.com/watch''"
  unfolding covers_def
  by (intro exI [of _ "''https''"] exI [of _ "''a.com/forbidden/.''"] exI [of _ "''a.com/watch''"] exI [of _ "[]"]) code_simp

end
