(* ===== verification/Policy_Decision.thy ===== *)
theory Policy_Decision
  imports Url_Rules
begin

text \<open>
  What the extension believes of the native host's verdicts
  (\<open>firefox-extension/src/lib/policy-decision.ts\<close>) and the short memory of confirmed blocks in
  front of it (\<open>blocked-screen-confirmer.ts\<close>).

  A confirmation is asynchronous.  Its parts are steps of the state \<open>confirmer\<close>: \<open>confirm\<close>
  answers from the memory, joins a question under way or asks the host; \<open>settle\<close> is what
  happens when the host answers, fails, or the hard time limit passes; \<open>clearCache\<close> forgets
  everything and starts a new epoch.  A question under way is known by its number.
\<close>

section \<open>Verdicts\<close>

datatype js_field = Undef | F_bool bool | F_str string | F_other

record verify_result =
  vr_domain :: string
  vr_error :: js_field
  vr_policyActive :: js_field
  vr_policyDecision :: js_field
  vr_policyReason :: js_field
  vr_policyVersion :: js_field
  vr_portalRecoveryEligible :: "bool option"

datatype policy_verdict = Allowed | Blocked | Unknown

record policy_decision =
  pd_active :: "bool option"
  pd_decision :: policy_verdict
  pd_error :: "string option"
  pd_reason :: "string option"
  pd_version :: "string option"

definition bool_field :: "js_field \<Rightarrow> bool option" where
  "bool_field f = (case f of F_bool b \<Rightarrow> Some b | _ \<Rightarrow> None)"

definition text_field :: "js_field \<Rightarrow> string option" where
  "text_field f = (case f of F_str s \<Rightarrow> if s \<noteq> [] then Some s else None | _ \<Rightarrow> None)"

definition normalizePolicyDecision :: "verify_result \<Rightarrow> policy_decision" where
  "normalizePolicyDecision input =
     \<lparr>pd_active = bool_field (vr_policyActive input),
      pd_decision =
        (if vr_policyDecision input = F_str ''allowed'' then Allowed
         else if vr_policyDecision input = F_str ''blocked'' then Blocked
         else Unknown),
      pd_error = text_field (vr_error input),
      pd_reason = text_field (vr_policyReason input),
      pd_version = text_field (vr_policyVersion input)\<rparr>"

definition permitsPolicyRedirect :: "policy_decision \<Rightarrow> string option \<Rightarrow> bool" where
  "permitsPolicyRedirect verdict expectedVersion \<longleftrightarrow>
     pd_active verdict = Some True \<and> pd_decision verdict = Blocked \<and> pd_error verdict = None \<and>
     pd_reason verdict \<noteq> None \<and> pd_version verdict \<noteq> None \<and>
     (expectedVersion = None \<or> pd_version verdict = expectedVersion)"

definition isNativePolicyBlockedResult :: "verify_result option \<Rightarrow> bool" where
  "isNativePolicyBlockedResult result \<longleftrightarrow>
     (case result of Some r \<Rightarrow> permitsPolicyRedirect (normalizePolicyDecision r) None | None \<Rightarrow> False)"

text \<open>Only an unambiguous verdict redirects.\<close>

lemma block_verdict_iff:
  "isNativePolicyBlockedResult (Some r) \<longleftrightarrow>
   vr_policyActive r = F_bool True \<and> vr_policyDecision r = F_str ''blocked'' \<and>
   (\<exists>reason. vr_policyReason r = F_str reason \<and> reason \<noteq> []) \<and>
   (\<exists>version. vr_policyVersion r = F_str version \<and> version \<noteq> []) \<and>
   \<not> (\<exists>e. vr_error r = F_str e \<and> e \<noteq> [])"
  by (auto simp: isNativePolicyBlockedResult_def permitsPolicyRedirect_def normalizePolicyDecision_def
      bool_field_def text_field_def split: js_field.splits if_splits)

section \<open>The memory of confirmed blocks\<close>

record confirmation =
  cf_blocked :: bool
  cf_portalRecoveryEligible :: "bool option"

record cached_decision =
  cd_confirmation :: confirmation
  cd_expiresAt :: int

record question =
  qu_key :: string
  qu_epoch :: nat

record confirmer =
  co_decisionCache :: "string \<Rightarrow> cached_decision option"
  co_inFlight :: "string \<Rightarrow> nat option"
  co_policyEpoch :: nat
  co_questions :: "question list"

record verify_response =
  ve_success :: bool
  ve_results :: "verify_result list"

datatype confirm_outcome = Answered confirmation | Joined nat | Asked nat

definition BLOCKED_SCREEN_DECISION_TTL_MS :: int where
  "BLOCKED_SCREEN_DECISION_TTL_MS = 5000"

definition createBlockedScreenConfirmer :: confirmer where
  "createBlockedScreenConfirmer =
     \<lparr>co_decisionCache = (\<lambda>_. None), co_inFlight = (\<lambda>_. None), co_policyEpoch = 0, co_questions = []\<rparr>"

definition confirm_key :: "string \<Rightarrow> string" where
  "confirm_key hostname = to_lower (js_trim hostname)"

definition ask_host :: "string \<Rightarrow> confirmer \<Rightarrow> confirmer \<times> confirm_outcome" where
  "ask_host cacheKey st =
     (case co_inFlight st cacheKey of
        Some q \<Rightarrow> (st, Joined q)
      | None \<Rightarrow>
          (let q = length (co_questions st) in
           (st\<lparr>co_inFlight := (co_inFlight st)(cacheKey \<mapsto> q),
               co_questions := co_questions st @ [\<lparr>qu_key = cacheKey, qu_epoch = co_policyEpoch st\<rparr>]\<rparr>,
            Asked q)))"

definition confirm :: "string \<Rightarrow> int \<Rightarrow> confirmer \<Rightarrow> confirmer \<times> confirm_outcome" where
  "confirm hostname now st =
     (let cacheKey = confirm_key hostname in
      case co_decisionCache st cacheKey of
        Some cached \<Rightarrow>
          if cd_expiresAt cached > now then (st, Answered (cd_confirmation cached)) else ask_host cacheKey st
      | None \<Rightarrow> ask_host cacheKey st)"

text \<open>\<open>response\<close> is what won the race: the host's answer, or a failure for an error of the
  native connection or the hard time limit.\<close>

definition decide_answer :: "question \<Rightarrow> verify_response \<Rightarrow> confirmation" where
  "decide_answer q response =
     (let result = List.find (\<lambda>item. confirm_key (vr_domain item) = qu_key q) (ve_results response)
      in \<lparr>cf_blocked = isNativePolicyBlockedResult result,
          cf_portalRecoveryEligible =
            (case result of Some r \<Rightarrow> vr_portalRecoveryEligible r | None \<Rightarrow> None)\<rparr>)"

definition settle ::
  "nat \<Rightarrow> verify_response \<Rightarrow> int \<Rightarrow> confirmer \<Rightarrow> confirmer \<times> confirmation \<times> (string \<times> bool) option" where
  "settle k response now st =
     (let q = co_questions st ! k;
          done = (\<lambda>s. if co_inFlight s (qu_key q) = Some k then s\<lparr>co_inFlight := (co_inFlight s)(qu_key q := None)\<rparr> else s)
      in if \<not> ve_success response \<or> qu_epoch q \<noteq> co_policyEpoch st
         then (done st, \<lparr>cf_blocked = False, cf_portalRecoveryEligible = None\<rparr>, None)
         else
           let decision = decide_answer q response;
               cache = (if cf_blocked decision
                 then (co_decisionCache st)(qu_key q \<mapsto>
                   \<lparr>cd_confirmation = decision, cd_expiresAt = now + BLOCKED_SCREEN_DECISION_TTL_MS\<rparr>)
                 else (co_decisionCache st)(qu_key q := None))
           in (done (st\<lparr>co_decisionCache := cache\<rparr>), decision,
               map_option (\<lambda>e. (qu_key q, e)) (cf_portalRecoveryEligible decision)))"

definition clearCache :: "confirmer \<Rightarrow> confirmer" where
  "clearCache st =
     st\<lparr>co_policyEpoch := co_policyEpoch st + 1, co_decisionCache := (\<lambda>_. None), co_inFlight := (\<lambda>_. None)\<rparr>"

section \<open>Histories\<close>

datatype confirm_event =
    Ask string int
  | Settle nat verify_response int
  | Clear

fun confirm_event_step :: "confirm_event \<Rightarrow> confirmer \<Rightarrow> confirmer" where
  "confirm_event_step (Ask hostname now) st = fst (confirm hostname now st)"
| "confirm_event_step (Settle k response now) st = fst (settle k response now st)"
| "confirm_event_step Clear st = clearCache st"

text \<open>The questions that a history answers are questions that were asked.\<close>

inductive confirm_history :: "confirm_event list \<Rightarrow> confirmer \<Rightarrow> bool" where
  start: "confirm_history [] createBlockedScreenConfirmer"
| step: "confirm_history es st \<Longrightarrow>
    (\<And>k response now. e = Settle k response now \<Longrightarrow> k < length (co_questions st)) \<Longrightarrow>
    confirm_history (es @ [e]) (confirm_event_step e st)"

lemma confirm_parts:
  "co_decisionCache (fst (confirm hostname now st)) = co_decisionCache st"
  "co_policyEpoch (fst (confirm hostname now st)) = co_policyEpoch st"
  by (simp_all add: confirm_def ask_host_def Let_def split: option.split)

text \<open>The host was asked about the name, and the policy has not changed since.\<close>

definition asked :: "confirm_event list \<Rightarrow> string \<Rightarrow> bool" where
  "asked es key \<longleftrightarrow> (\<exists>start h t middle. es = start @ Ask h t # middle \<and> Clear \<notin> set middle \<and> confirm_key h = key)"

lemma asked_snoc: "asked es key \<Longrightarrow> e \<noteq> Clear \<Longrightarrow> asked (es @ [e]) key"
  unfolding asked_def by fastforce

lemma asked_now: "confirm_key h = key \<Longrightarrow> asked (es @ [Ask h t]) key"
  unfolding asked_def by fastforce

lemma confirm_questions:
  "co_questions (fst (confirm hostname now st)) = co_questions st \<or>
   co_questions (fst (confirm hostname now st)) =
     co_questions st @ [\<lparr>qu_key = confirm_key hostname, qu_epoch = co_policyEpoch st\<rparr>]"
  by (simp add: confirm_def ask_host_def Let_def split: option.split)

lemma settle_questions:
  "co_questions (fst (settle k response now st)) = co_questions st"
  "co_policyEpoch (fst (settle k response now st)) = co_policyEpoch st"
  by (simp_all add: settle_def Let_def)

lemma questions_asked:
  "confirm_history es st \<Longrightarrow>
   \<forall>q \<in> set (co_questions st). qu_epoch q \<le> co_policyEpoch st \<and> (qu_epoch q = co_policyEpoch st \<longrightarrow> asked es (qu_key q))"
proof (induction rule: confirm_history.induct)
  case start
  then show ?case by (simp add: createBlockedScreenConfirmer_def)
next
  case (step es st e)
  show ?case
  proof (cases e)
    case (Ask hostname now)
    have "set (co_questions (fst (confirm hostname now st))) \<subseteq>
        set (co_questions st) \<union> {\<lparr>qu_key = confirm_key hostname, qu_epoch = co_policyEpoch st\<rparr>}"
      using confirm_questions [of hostname now st] by auto
    with step.IH show ?thesis
      by (auto simp: Ask confirm_parts asked_now intro: asked_snoc dest!: subsetD)
  next
    case Clear
    with step.IH show ?thesis by (auto simp: clearCache_def)
  next
    case (Settle k response now)
    with step.IH show ?thesis by (auto simp: settle_questions asked_snoc)
  qed
qed

definition backed :: "confirm_event list \<Rightarrow> string \<Rightarrow> cached_decision \<Rightarrow> bool" where
  "backed es key c \<longleftrightarrow>
     (\<exists>before later k response t. es = before @ Settle k response t # later \<and> Clear \<notin> set later \<and> asked before key \<and>
        cd_expiresAt c = t + BLOCKED_SCREEN_DECISION_TTL_MS \<and> ve_success response \<and>
        (\<exists>r \<in> set (ve_results response). confirm_key (vr_domain r) = key \<and> isNativePolicyBlockedResult (Some r) \<and>
           cf_portalRecoveryEligible (cd_confirmation c) = vr_portalRecoveryEligible r) \<and>
        cf_blocked (cd_confirmation c))"

lemma backed_snoc:
  assumes "backed es key c" "e \<noteq> Clear"
  shows "backed (es @ [e]) key c"
proof -
  from assms(1) obtain before later k response t where
    b: "es = before @ Settle k response t # later" "Clear \<notin> set later" "asked before key"
      "cd_expiresAt c = t + BLOCKED_SCREEN_DECISION_TTL_MS" "ve_success response"
      "\<exists>r \<in> set (ve_results response). confirm_key (vr_domain r) = key \<and> isNativePolicyBlockedResult (Some r) \<and>
         cf_portalRecoveryEligible (cd_confirmation c) = vr_portalRecoveryEligible r"
      "cf_blocked (cd_confirmation c)"
    unfolding backed_def by blast
  moreover have "es @ [e] = before @ Settle k response t # (later @ [e])" "Clear \<notin> set (later @ [e])"
    using b(1,2) assms(2) by auto
  ultimately show ?thesis unfolding backed_def by blast
qed

lemma decide_answer_result:
  assumes "cf_blocked (decide_answer q response)"
  shows "\<exists>r \<in> set (ve_results response). confirm_key (vr_domain r) = qu_key q \<and> isNativePolicyBlockedResult (Some r) \<and>
     cf_portalRecoveryEligible (decide_answer q response) = vr_portalRecoveryEligible r"
proof (cases "List.find (\<lambda>item. confirm_key (vr_domain item) = qu_key q) (ve_results response)")
  case None
  with assms show ?thesis by (simp add: decide_answer_def isNativePolicyBlockedResult_def)
next
  case (Some r)
  then have "r \<in> set (ve_results response)" "confirm_key (vr_domain r) = qu_key q"
    by (auto simp: find_Some_iff)
  with Some assms show ?thesis by (auto simp: decide_answer_def)
qed

lemma settle_cache:
  "co_decisionCache (fst (settle k response now st)) key = Some c \<Longrightarrow>
   co_decisionCache st key = Some c \<or>
   (key = qu_key (co_questions st ! k) \<and> qu_epoch (co_questions st ! k) = co_policyEpoch st \<and> ve_success response \<and>
    c = \<lparr>cd_confirmation = decide_answer (co_questions st ! k) response,
         cd_expiresAt = now + BLOCKED_SCREEN_DECISION_TTL_MS\<rparr> \<and>
    cf_blocked (decide_answer (co_questions st ! k) response))"
  by (auto simp: settle_def Let_def split: if_splits)

lemma cache_backed:
  "confirm_history es st \<Longrightarrow> co_decisionCache st key = Some c \<Longrightarrow> backed es key c"
proof (induction arbitrary: c rule: confirm_history.induct)
  case start
  then show ?case by (simp add: createBlockedScreenConfirmer_def)
next
  case (step es st e)
  show ?case
  proof (cases e)
    case (Ask hostname now)
    with step show ?thesis by (simp add: confirm_parts backed_snoc)
  next
    case Clear
    with step.prems show ?thesis by (simp add: clearCache_def)
  next
    case (Settle k response now)
    with step.prems have "co_decisionCache (fst (settle k response now st)) key = Some c" by simp
    from settle_cache [OF this] show ?thesis
    proof
      assume "co_decisionCache st key = Some c"
      with step.IH Settle show ?thesis by (simp add: backed_snoc)
    next
      assume c: "key = qu_key (co_questions st ! k) \<and> qu_epoch (co_questions st ! k) = co_policyEpoch st \<and>
        ve_success response \<and>
        c = \<lparr>cd_confirmation = decide_answer (co_questions st ! k) response,
             cd_expiresAt = now + BLOCKED_SCREEN_DECISION_TTL_MS\<rparr> \<and>
        cf_blocked (decide_answer (co_questions st ! k) response)"
      then have "cf_blocked (decide_answer (co_questions st ! k) response)" by blast
      note r = decide_answer_result [OF this]
      have "co_questions st ! k \<in> set (co_questions st)" using step.hyps(2) [OF Settle] by simp
      with c questions_asked [OF step.hyps(1)] have "asked es key" by auto
      show ?thesis
        unfolding backed_def Settle
        by (rule exI [of _ es], rule exI [of _ "[]"], rule exI [of _ k], rule exI [of _ response], rule exI [of _ now])
          (use c r \<open>asked es key\<close> in simp)
    qed
  qed
qed

text \<open>C13: a remembered block is recent and of the policy in force.  Whenever a confirmation is
  answered from the memory, it says blocked, and the host said so for this domain, in an
  unambiguous verdict, less than five seconds before, to a question asked after the last change
  of policy.\<close>

theorem remembered_block_backed:
  assumes "confirm_history es st" "confirm hostname now st = (st', Answered c)"
  shows "cf_blocked c \<and>
    (\<exists>before h t0 middle k response t later.
       es = before @ Ask h t0 # middle @ Settle k response t # later \<and> Clear \<notin> set (middle @ later) \<and>
       confirm_key h = confirm_key hostname \<and> now < t + 5000 \<and> ve_success response \<and>
       (\<exists>r \<in> set (ve_results response). confirm_key (vr_domain r) = confirm_key hostname \<and>
          isNativePolicyBlockedResult (Some r)))"
proof -
  obtain d where d: "co_decisionCache st (confirm_key hostname) = Some d" "now < cd_expiresAt d" "c = cd_confirmation d"
    using assms(2) by (auto simp: confirm_def ask_host_def Let_def split: option.splits if_splits)
  from cache_backed [OF assms(1) d(1)] obtain es' later k response t where
    b: "es = es' @ Settle k response t # later" "Clear \<notin> set later" "asked es' (confirm_key hostname)"
      "cd_expiresAt d = t + 5000" "ve_success response" "cf_blocked (cd_confirmation d)"
      "\<exists>r \<in> set (ve_results response). confirm_key (vr_domain r) = confirm_key hostname \<and>
         isNativePolicyBlockedResult (Some r)"
    unfolding backed_def BLOCKED_SCREEN_DECISION_TTL_MS_def by blast
  from b(3) obtain before h t0 middle where
    a: "es' = before @ Ask h t0 # middle" "Clear \<notin> set middle" "confirm_key h = confirm_key hostname"
    unfolding asked_def by blast
  have "es = before @ Ask h t0 # middle @ Settle k response t # later \<and> Clear \<notin> set (middle @ later) \<and>
      confirm_key h = confirm_key hostname \<and> now < t + 5000 \<and> ve_success response \<and>
      (\<exists>r \<in> set (ve_results response). confirm_key (vr_domain r) = confirm_key hostname \<and>
         isNativePolicyBlockedResult (Some r))"
    using a b d(2) by simp
  with b(6) d(3) show ?thesis by blast
qed

definition example_verdict :: verify_result where
  "example_verdict =
     \<lparr>vr_domain = ''a.com'', vr_error = Undef, vr_policyActive = F_bool True, vr_policyDecision = F_str ''blocked'',
      vr_policyReason = F_str ''r'', vr_policyVersion = F_str ''v'', vr_portalRecoveryEligible = None\<rparr>"

lemma remembered_block_backed_witness:
  "\<exists>before h t0 middle k response t later.
     [Ask ''a.com'' 0, Settle 0 \<lparr>ve_success = True, ve_results = [example_verdict]\<rparr> 10] =
       before @ Ask h t0 # middle @ Settle k response t # later \<and> Clear \<notin> set (middle @ later) \<and>
     confirm_key h = confirm_key ''A.com'' \<and> 4000 < t + 5000 \<and> ve_success response \<and>
     (\<exists>r \<in> set (ve_results response). confirm_key (vr_domain r) = confirm_key ''A.com'' \<and>
        isNativePolicyBlockedResult (Some r))"
proof -
  let ?r = "\<lparr>ve_success = True, ve_results = [example_verdict]\<rparr>"
  let ?s1 = "confirm_event_step (Ask ''a.com'' 0) createBlockedScreenConfirmer"
  let ?s2 = "confirm_event_step (Settle 0 ?r 10) ?s1"
  have key: "confirm_key ''a.com'' = ''a.com''" "confirm_key ''A.com'' = ''a.com''" by code_simp+
  have "confirm_history ([] @ [Ask ''a.com'' 0]) ?s1"
    by (rule confirm_history.step [OF confirm_history.start]) simp
  then have "confirm_history (([] @ [Ask ''a.com'' 0]) @ [Settle 0 ?r 10]) ?s2"
    by (rule confirm_history.step) (simp add: confirm_def ask_host_def createBlockedScreenConfirmer_def Let_def)
  moreover have "isNativePolicyBlockedResult (Some example_verdict)"
    by (simp add: block_verdict_iff example_verdict_def)
  then have "confirm ''A.com'' 4000 ?s2 = (?s2, Answered \<lparr>cf_blocked = True, cf_portalRecoveryEligible = None\<rparr>)"
    by (simp add: confirm_def ask_host_def settle_def decide_answer_def createBlockedScreenConfirmer_def key Let_def
        BLOCKED_SCREEN_DECISION_TTL_MS_def example_verdict_def)
  ultimately show ?thesis
    using remembered_block_backed [of "[Ask ''a.com'' 0, Settle 0 ?r 10]" ?s2 "''A.com''" 4000] by fastforce
qed

end
