(* ===== verification/Navigation_State.thy ===== *)
theory Navigation_State
  imports JS_Prelude
begin

text \<open>
  The registry of the navigations of the tabs (\<open>firefox-extension/src/lib/navigation-state.ts\<close>).
  A navigation has a generation, a number that is never used again; one redirect to the blocked
  page can be reserved for it, released, or marked as shown.  Its two clients, the navigation
  controller and the reconciliation of open tabs, rely on it to redirect a navigation once.
\<close>

datatype nav_source = Error_source | Preflight | Reconciliation

datatype redirect_state = Idle | Pending | Shown

record nav_identity =
  ni_generation :: nat
  ni_source :: nav_source
  ni_tabId :: int
  ni_url :: string

record nav_entry =
  ne_identity :: nav_identity
  ne_redirect :: redirect_state

record nav_state =
  ns_entries :: "int \<Rightarrow> nav_entry option"
  ns_nextGeneration :: nat

definition createNavigationState :: nav_state where
  "createNavigationState = \<lparr>ns_entries = (\<lambda>_. None), ns_nextGeneration = 0\<rparr>"

definition nav_current :: "nav_state \<Rightarrow> nav_identity \<Rightarrow> nav_entry option" where
  "nav_current st identity =
     (case ns_entries st (ni_tabId identity) of
        Some entry \<Rightarrow>
          if ni_generation (ne_identity entry) = ni_generation identity \<and>
             ni_url (ne_identity entry) = ni_url identity then Some entry else None
      | None \<Rightarrow> None)"

definition nav_begin :: "int \<Rightarrow> string \<Rightarrow> nav_source \<Rightarrow> nav_state \<Rightarrow> nav_state \<times> nav_identity" where
  "nav_begin tabId url source st =
     (let generation = ns_nextGeneration st + 1;
          identity = \<lparr>ni_generation = generation, ni_source = source, ni_tabId = tabId, ni_url = url\<rparr>
      in (st\<lparr>ns_entries := (ns_entries st)(tabId \<mapsto> \<lparr>ne_identity = identity, ne_redirect = Idle\<rparr>),
             ns_nextGeneration := generation\<rparr>, identity))"

definition nav_dispose :: "int \<Rightarrow> nav_state \<Rightarrow> nav_state" where
  "nav_dispose tabId st = st\<lparr>ns_entries := (ns_entries st)(tabId := None)\<rparr>"

definition nav_get :: "int \<Rightarrow> nav_state \<Rightarrow> nav_identity option" where
  "nav_get tabId st = map_option ne_identity (ns_entries st tabId)"

definition isCurrent :: "nav_identity \<Rightarrow> nav_state \<Rightarrow> bool" where
  "isCurrent identity st \<longleftrightarrow> nav_current st identity \<noteq> None"

definition set_redirect :: "nav_identity \<Rightarrow> redirect_state \<Rightarrow> nav_state \<Rightarrow> nav_state" where
  "set_redirect identity r st =
     (case nav_current st identity of
        Some entry \<Rightarrow> st\<lparr>ns_entries := (ns_entries st)(ni_tabId identity \<mapsto> entry\<lparr>ne_redirect := r\<rparr>)\<rparr>
      | None \<Rightarrow> st)"

definition redirect_of :: "nav_state \<Rightarrow> nav_identity \<Rightarrow> redirect_state option" where
  "redirect_of st identity = map_option ne_redirect (nav_current st identity)"

definition markShown :: "nav_identity \<Rightarrow> nav_state \<Rightarrow> nav_state \<times> bool" where
  "markShown identity st =
     (if redirect_of st identity \<noteq> Some Pending then (st, False) else (set_redirect identity Shown st, True))"

definition nav_match :: "int \<Rightarrow> string \<Rightarrow> nav_state \<Rightarrow> nav_identity option" where
  "nav_match tabId url st =
     (case ns_entries st tabId of
        Some entry \<Rightarrow> if ni_url (ne_identity entry) = url then Some (ne_identity entry) else None
      | None \<Rightarrow> None)"

definition releaseRedirect :: "nav_identity \<Rightarrow> nav_state \<Rightarrow> nav_state" where
  "releaseRedirect identity st =
     (if redirect_of st identity = Some Pending then set_redirect identity Idle st else st)"

definition reserveRedirect :: "nav_identity \<Rightarrow> nav_state \<Rightarrow> nav_state \<times> bool" where
  "reserveRedirect identity st =
     (if redirect_of st identity \<noteq> Some Idle then (st, False) else (set_redirect identity Pending st, True))"

section \<open>Well-formed registries\<close>

text \<open>Every entry is kept under its tab, its generation was given out, and no two share one.\<close>

definition nav_ok :: "nav_state \<Rightarrow> bool" where
  "nav_ok st \<longleftrightarrow>
     (\<forall>t i. nav_get t st = Some i \<longrightarrow> ni_tabId i = t \<and> ni_generation i \<le> ns_nextGeneration st) \<and>
     (\<forall>t i t' i'. nav_get t st = Some i \<longrightarrow> nav_get t' st = Some i' \<longrightarrow>
        ni_generation i = ni_generation i' \<longrightarrow> t = t')"

text \<open>The identities that were handed out: those whose generation is not new.\<close>

definition nav_issued :: "nav_state \<Rightarrow> nav_identity \<Rightarrow> bool" where
  "nav_issued st identity \<longleftrightarrow>
     ni_generation identity \<le> ns_nextGeneration st \<and>
     (\<forall>t i. nav_get t st = Some i \<longrightarrow> ni_generation i = ni_generation identity \<longrightarrow> i = identity)"

lemma nav_current_set:
  "nav_current (set_redirect i r st) j =
     (if ni_tabId j = ni_tabId i \<and> nav_current st i \<noteq> None
      then map_option (\<lambda>e. e\<lparr>ne_redirect := r\<rparr>) (nav_current st j) else nav_current st j)"
  by (auto simp: nav_current_def set_redirect_def split: option.splits if_splits)

lemma set_redirect_next [simp]: "ns_nextGeneration (set_redirect i r st) = ns_nextGeneration st"
  by (simp add: set_redirect_def split: option.split)

lemma nav_get_set [simp]: "nav_get t (set_redirect i r st) = nav_get t st"
  by (auto simp: nav_get_def set_redirect_def nav_current_def split: option.splits if_splits)

lemma nav_ok_set [simp]: "nav_ok (set_redirect i r st) = nav_ok st"
  by (simp add: nav_ok_def)

lemma nav_issued_set [simp]: "nav_issued (set_redirect i r st) j = nav_issued st j"
  by (simp add: nav_issued_def)

lemma nav_get_begin:
  "nav_get t' (fst (nav_begin t u s st)) =
     (if t' = t then Some (snd (nav_begin t u s st)) else nav_get t' st)"
  by (simp add: nav_get_def nav_begin_def Let_def)

lemma nav_begin_simps [simp]:
  "ns_nextGeneration (fst (nav_begin t u s st)) = Suc (ns_nextGeneration st)"
  "ni_generation (snd (nav_begin t u s st)) = Suc (ns_nextGeneration st)"
  "ni_tabId (snd (nav_begin t u s st)) = t"
  "ni_url (snd (nav_begin t u s st)) = u"
  "ni_source (snd (nav_begin t u s st)) = s"
  by (simp_all add: nav_begin_def Let_def)

lemma nav_get_dispose: "nav_get t' (nav_dispose t st) = (if t' = t then None else nav_get t' st)"
  by (simp add: nav_get_def nav_dispose_def)

lemma nav_dispose_next [simp]: "ns_nextGeneration (nav_dispose t st) = ns_nextGeneration st"
  by (simp add: nav_dispose_def)

lemma nav_current_get:
  "nav_current st i \<noteq> None \<longleftrightarrow>
   (\<exists>j. nav_get (ni_tabId i) st = Some j \<and> ni_generation j = ni_generation i \<and> ni_url j = ni_url i)"
  by (auto simp: nav_current_def nav_get_def split: option.splits if_splits)

lemma nav_current_issued:
  "nav_issued st i \<Longrightarrow> nav_current st i \<noteq> None \<Longrightarrow> nav_get (ni_tabId i) st = Some i"
  unfolding nav_current_get nav_issued_def by blast

lemma redirect_of_set:
  assumes "nav_issued st i" "nav_issued st j"
  shows "redirect_of (set_redirect i r st) j =
     (if ni_generation j = ni_generation i \<and> redirect_of st i \<noteq> None then Some r else redirect_of st j)"
proof (cases "nav_current st i = None")
  case True
  then show ?thesis by (simp add: redirect_of_def nav_current_set)
next
  case False
  then have i: "nav_get (ni_tabId i) st = Some i" by (rule nav_current_issued [OF assms(1)])
  show ?thesis
  proof (cases "ni_generation j = ni_generation i")
    case True
    then have "i = j" using i assms(2) by (auto simp: nav_issued_def)
    with False show ?thesis by (auto simp: redirect_of_def nav_current_set)
  next
    case other: False
    have "nav_current st j = None" if "ni_tabId j = ni_tabId i"
      using that i other nav_current_get [of st j] by auto
    with other show ?thesis by (auto simp: redirect_of_def nav_current_set)
  qed
qed

lemma nav_ok_create: "nav_ok createNavigationState"
  by (simp add: nav_ok_def createNavigationState_def nav_get_def)

lemma nav_ok_begin: "nav_ok st \<Longrightarrow> nav_ok (fst (nav_begin t u s st))"
  by (fastforce simp: nav_ok_def nav_get_begin split: if_splits)

lemma nav_ok_dispose: "nav_ok st \<Longrightarrow> nav_ok (nav_dispose t st)"
  by (auto simp: nav_ok_def nav_get_dispose split: if_splits)

lemma nav_issued_begin: "nav_issued st i \<Longrightarrow> nav_issued (fst (nav_begin t u s st)) i"
  by (auto simp: nav_issued_def nav_get_begin split: if_splits)

lemma nav_issued_new: "nav_ok st \<Longrightarrow> nav_issued (fst (nav_begin t u s st)) (snd (nav_begin t u s st))"
  by (fastforce simp: nav_ok_def nav_issued_def nav_get_begin split: if_splits)

lemma nav_issued_dispose: "nav_issued st i \<Longrightarrow> nav_issued (nav_dispose t st) i"
  by (auto simp: nav_issued_def nav_get_dispose split: if_splits)

lemma nav_issued_get: "nav_ok st \<Longrightarrow> nav_get t st = Some i \<Longrightarrow> nav_issued st i"
  unfolding nav_ok_def nav_issued_def by (metis option.inject)

lemma nav_match_get: "nav_match t u st = Some i \<Longrightarrow> nav_get t st = Some i \<and> ni_url i = u"
  by (auto simp: nav_match_def nav_get_def split: option.splits if_splits)

lemma nav_issued_match: "nav_ok st \<Longrightarrow> nav_match t u st = Some i \<Longrightarrow> nav_issued st i"
  using nav_match_get nav_issued_get by blast

text \<open>A new navigation, or the end of one, changes the redirect of no other, except to end it.\<close>

lemma redirect_begin:
  assumes "nav_issued st i"
  shows "redirect_of (fst (nav_begin t u s st)) i = (if ni_tabId i = t then None else redirect_of st i)"
proof -
  have "ni_generation i \<noteq> Suc (ns_nextGeneration st)" using assms by (auto simp: nav_issued_def)
  then show ?thesis
    by (auto simp: redirect_of_def nav_current_def nav_begin_def Let_def)
qed

lemma redirect_dispose:
  "redirect_of (nav_dispose t st) i = (if ni_tabId i = t then None else redirect_of st i)"
  by (auto simp: redirect_of_def nav_current_def nav_dispose_def split: option.splits)

lemma redirect_new: "redirect_of (fst (nav_begin t u s st)) (snd (nav_begin t u s st)) = Some Idle"
  by (simp add: redirect_of_def nav_current_def nav_begin_def Let_def)

lemma isCurrent_redirect: "isCurrent i st \<longleftrightarrow> redirect_of st i \<noteq> None"
  by (simp add: isCurrent_def redirect_of_def)

end
