(* ===== verification/Blocked_Screen.thy ===== *)
theory Blocked_Screen
  imports Url_Rules Policy_Decision Navigation_State "HOL-Library.Multiset"
begin

text \<open>
  When a tab is sent to the blocked page
  (\<open>firefox-extension/src/lib/blocked-screen-navigation-controller.ts\<close> and
  \<open>background-tab-reconciliation.ts\<close>).  Both clients are asynchronous: each call of
  \<open>redirectToBlockedScreenOnce\<close> is a process that stops at every \<open>await\<close>, each call of
  \<open>reconcileOpenTabs\<close> another, and all share the registry of navigations.  A step of the
  system is an event of the browser or the answer to one \<open>await\<close>; any interleaving is
  possible.  The dependencies are those that \<open>background-runtime.ts\<close> supplies, so the optional
  ones are present.
\<close>

section \<open>The navigation controller\<close>

definition BLOCKING_ERRORS :: "string list" where
  "BLOCKING_ERRORS =
     [''NS_ERROR_UNKNOWN_HOST'', ''NS_ERROR_CONNECTION_REFUSED'', ''NS_ERROR_NET_TIMEOUT'',
      ''NS_ERROR_PROXY_CONNECTION_REFUSED'']"

definition IGNORED_ERRORS :: "string list" where
  "IGNORED_ERRORS = [''NS_BINDING_ABORTED'', ''NS_ERROR_ABORT'']"

definition NATIVE_CONFIRMED_BLOCKED_SCREEN_ERRORS :: "string list" where
  "NATIVE_CONFIRMED_BLOCKED_SCREEN_ERRORS =
     [''NS_ERROR_UNKNOWN_HOST'', ''NS_ERROR_CONNECTION_REFUSED'', ''NS_ERROR_NET_TIMEOUT'',
      ''NS_ERROR_PROXY_CONNECTION_REFUSED'']"

definition NATIVE_POLICY_BLOCKED_ERROR :: string where
  "NATIVE_POLICY_BLOCKED_ERROR = ''OPENPATH_NATIVE_POLICY_BLOCKED''"

definition CAPTIVE_PORTAL_RECOVERY_ERRORS :: "string list" where
  "CAPTIVE_PORTAL_RECOVERY_ERRORS =
     [''NS_ERROR_UNKNOWN_HOST'', ''NS_ERROR_CONNECTION_REFUSED'', ''NS_ERROR_NET_TIMEOUT'',
      NATIVE_POLICY_BLOCKED_ERROR]"

record navigation_details =
  nd_tabId :: int
  nd_frameId :: "int option"
  nd_type :: "string option"
  nd_url :: string
  nd_error :: string
  nd_originUrl :: "string option"
  nd_documentUrl :: "string option"

record screen_context =
  sc_tabId :: int
  sc_hostname :: string
  sc_error :: string
  sc_origin :: "string option"
  sc_url :: string

definition isTopFrameNavigation :: "navigation_details \<Rightarrow> bool" where
  "isTopFrameNavigation d =
     (case nd_type d of Some t \<Rightarrow> t = ''main_frame'' | None \<Rightarrow> nd_frameId d = Some 0)"

definition shouldConfirmBlockedScreenNavigation :: "navigation_details \<Rightarrow> bool" where
  "shouldConfirmBlockedScreenNavigation d \<longleftrightarrow>
     isTopFrameNavigation d \<and> nd_error d \<in> set NATIVE_CONFIRMED_BLOCKED_SCREEN_ERRORS \<and> \<not> isExtensionUrl (nd_url d)"

definition buildBlockedScreenContext :: "web_api \<Rightarrow> navigation_details \<Rightarrow> screen_context option" where
  "buildBlockedScreenContext web d =
     (case nonempty_string (extractHostname web (nd_url d)) of
        None \<Rightarrow> None
      | Some hostname \<Rightarrow>
          if nd_tabId d < 0 then None
          else Some \<lparr>sc_tabId = nd_tabId d, sc_hostname = hostname, sc_error = nd_error d,
            sc_origin = extractHostname web
              (case nd_originUrl d of Some u \<Rightarrow> u | None \<Rightarrow> (case nd_documentUrl d of Some u \<Rightarrow> u | None \<Rightarrow> [])),
            sc_url = nd_url d\<rparr>)"

definition isSameBlockedScreenUrl :: "web_api \<Rightarrow> string \<Rightarrow> string \<Rightarrow> string \<Rightarrow> bool" where
  "isSameBlockedScreenUrl web currentUrl blockedScreenUrl hostname =
     (case (wa_parse web currentUrl, wa_parse web blockedScreenUrl) of
        (Some current, Some blockedScreen) \<Rightarrow>
          pu_origin current = pu_origin blockedScreen \<and> pu_pathname current = pu_pathname blockedScreen \<and>
          pu_param current ''domain'' = Some hostname
      | _ \<Rightarrow> False)"

text \<open>Where a call of \<open>redirectToBlockedScreenOnce\<close> waits.  \<open>Await_recovery True\<close> is the wait
  after which the blocked page is shown unless the captive portal is being recovered.\<close>

datatype phase = Await_tab | Await_confirm | Await_recovery bool | Await_redirect | Finished

record process =
  pr_context :: screen_context
  pr_identity :: nav_identity
  pr_record :: bool
  pr_confirm :: bool
  pr_phase :: phase

datatype answer =
    Tab_url "string option"
  | Confirmed confirmation
  | Recovered bool
  | Redirect_done
  | Lookup_failed
  | Failed
  | Checked verify_response

datatype effect =
    Add_blocked int string string "string option"
  | Save_context int string string
  | Redirect nav_identity string string "string option"

definition recoverable :: "process \<Rightarrow> bool" where
  "recoverable p \<longleftrightarrow> sc_error (pr_context p) \<in> set CAPTIVE_PORTAL_RECOVERY_ERRORS"

definition finish_process :: "process \<Rightarrow> nav_state \<Rightarrow> process \<times> nav_state \<times> effect list" where
  "finish_process p nav = (p\<lparr>pr_phase := Finished\<rparr>, releaseRedirect (pr_identity p) nav, [])"

definition wait_in :: "phase \<Rightarrow> process \<Rightarrow> nav_state \<Rightarrow> process \<times> nav_state \<times> effect list" where
  "wait_in ph p nav = (p\<lparr>pr_phase := ph\<rparr>, nav, [])"

definition show_screen :: "process \<Rightarrow> nav_state \<Rightarrow> process \<times> nav_state \<times> effect list" where
  "show_screen p nav =
     (if \<not> isCurrent (pr_identity p) nav then finish_process p nav
      else let c = pr_context p in
        (p\<lparr>pr_phase := Await_redirect\<rparr>, nav,
         (if pr_record p then [Add_blocked (sc_tabId c) (sc_hostname c) (sc_error c) (sc_origin c)] else []) @
         [Save_context (sc_tabId c) (sc_hostname c) (sc_url c),
          Redirect (pr_identity p) (sc_hostname c) (sc_error c) (sc_origin c)]))"

definition after_tab :: "web_api \<Rightarrow> string \<Rightarrow> string option \<Rightarrow> process \<Rightarrow> nav_state \<Rightarrow> process \<times> nav_state \<times> effect list" where
  "after_tab web screenUrl tabUrl p nav =
     (if (case tabUrl of Some u \<Rightarrow> isSameBlockedScreenUrl web u screenUrl (sc_hostname (pr_context p)) | None \<Rightarrow> False)
      then finish_process p nav
      else if pr_confirm p then wait_in Await_confirm p nav
      else if isCurrent (pr_identity p) nav \<and> recoverable p then wait_in (Await_recovery True) p nav
      else show_screen p nav)"

definition after_confirm :: "confirmation \<Rightarrow> process \<Rightarrow> nav_state \<Rightarrow> process \<times> nav_state \<times> effect list" where
  "after_confirm c p nav =
     (if \<not> cf_blocked c then
        (if \<not> isCurrent (pr_identity p) nav then finish_process p nav
         else if recoverable p then wait_in (Await_recovery False) p nav
         else finish_process p nav)
      else if cf_portalRecoveryEligible c = Some True \<and> isCurrent (pr_identity p) nav \<and> recoverable p
        then wait_in (Await_recovery True) p nav
      else show_screen p nav)"

text \<open>The continuation of a process; \<open>None\<close> when the answer is not the one it waits for.\<close>

fun continue_process ::
  "web_api \<Rightarrow> string \<Rightarrow> answer \<Rightarrow> process \<Rightarrow> nav_state \<Rightarrow> (process \<times> nav_state \<times> effect list) option" where
  "continue_process web screenUrl a p nav =
     (case (pr_phase p, a) of
        (Await_tab, Tab_url u) \<Rightarrow> Some (after_tab web screenUrl u p nav)
      | (Await_tab, Lookup_failed) \<Rightarrow> Some (after_tab web screenUrl None p nav)
      | (Await_confirm, Confirmed c) \<Rightarrow> Some (after_confirm c p nav)
      | (Await_recovery go, Recovered r) \<Rightarrow> Some (if go \<and> \<not> r then show_screen p nav else finish_process p nav)
      | (Await_redirect, Redirect_done) \<Rightarrow> Some (finish_process p (fst (markShown (pr_identity p) nav)))
      | (Await_confirm, Failed) \<Rightarrow> Some (finish_process p nav)
      | (Await_recovery _, Failed) \<Rightarrow> Some (finish_process p nav)
      | (Await_redirect, Failed) \<Rightarrow> Some (finish_process p nav)
      | _ \<Rightarrow> None)"

text \<open>The start of \<open>redirectToBlockedScreenOnce\<close>.\<close>

definition redirectToBlockedScreenOnce ::
  "screen_context \<Rightarrow> nav_identity \<Rightarrow> bool \<Rightarrow> nav_state \<Rightarrow> nav_state \<times> process list" where
  "redirectToBlockedScreenOnce context identity recordBlocked nav =
     (let (nav', reserved) = reserveRedirect identity nav in
      if \<not> reserved then (nav', [])
      else (nav', [\<lparr>pr_context = context, pr_identity = identity, pr_record = recordBlocked,
                    pr_confirm = True, pr_phase = Await_tab\<rparr>]))"

definition redirect_new_navigation ::
  "screen_context \<Rightarrow> nav_source \<Rightarrow> bool \<Rightarrow> nav_state \<Rightarrow> nav_state \<times> process list" where
  "redirect_new_navigation context source recordBlocked nav =
     (let (nav', identity) = nav_begin (sc_tabId context) (sc_url context) source nav
      in redirectToBlockedScreenOnce context identity recordBlocked nav')"

definition handleNativePolicyNavigationPreflight ::
  "web_api \<Rightarrow> navigation_details \<Rightarrow> nav_state \<Rightarrow> nav_state \<times> process list" where
  "handleNativePolicyNavigationPreflight web d nav =
     (if nd_frameId d \<noteq> Some 0 then (nav, [])
      else if isExtensionUrl (nd_url d) then (nav_dispose (nd_tabId d) nav, [])
      else case buildBlockedScreenContext web
          (d\<lparr>nd_error := NATIVE_POLICY_BLOCKED_ERROR, nd_originUrl := None, nd_documentUrl := None\<rparr>) of
          None \<Rightarrow> (nav, [])
        | Some context \<Rightarrow> redirect_new_navigation context Preflight True nav)"

definition redirect_after_error ::
  "screen_context \<Rightarrow> bool \<Rightarrow> nav_state \<Rightarrow> nav_state \<times> process list" where
  "redirect_after_error context recordBlocked nav =
     (case nav_get (sc_tabId context) nav of
        Some existing \<Rightarrow>
          if ni_source existing = Preflight \<and> ni_url existing \<noteq> sc_url context then (nav, [])
          else if ni_url existing = sc_url context
            then redirectToBlockedScreenOnce context existing recordBlocked nav
          else redirect_new_navigation context Error_source recordBlocked nav
      | None \<Rightarrow> redirect_new_navigation context Error_source recordBlocked nav)"

definition handleBlockedScreenNavigationError ::
  "web_api \<Rightarrow> navigation_details \<Rightarrow> bool \<Rightarrow> nav_state \<Rightarrow> nav_state \<times> process list \<times> effect list" where
  "handleBlockedScreenNavigationError web d recordBlocked nav =
     (if nd_error d \<in> set IGNORED_ERRORS then (nav, [], [])
      else if nd_error d \<notin> set BLOCKING_ERRORS then (nav, [], [])
      else case buildBlockedScreenContext web d of
          None \<Rightarrow> (nav, [], [])
        | Some context \<Rightarrow>
            (let effects =
               (if recordBlocked \<and> \<not> isTopFrameNavigation d
                then [Add_blocked (nd_tabId d) (sc_hostname context) (nd_error d)
                        (case nd_originUrl d of Some u \<Rightarrow> Some u | None \<Rightarrow> nd_documentUrl d)] else []);
                 (nav', ps) = (if shouldConfirmBlockedScreenNavigation d
                   then redirect_after_error context recordBlocked nav else (nav, []))
             in (nav', ps, effects)))"

section \<open>The reconciliation of open tabs\<close>

definition WHITELIST_POLICY_REMOVED_REASON :: string where
  "WHITELIST_POLICY_REMOVED_REASON = ''POLICY_BLOCKED''"

record open_tab =
  ot_id :: "int option"
  ot_url :: "string option"

record rec_entry =
  re_tabId :: int
  re_host :: string
  re_identity :: nav_identity

datatype rec_phase = Rec_check | Rec_url | Rec_redirect | Rec_done bool

record rec_process =
  rc_version :: string
  rc_entries :: "rec_entry list"
  rc_results :: "verify_result list"
  rc_phase :: rec_phase

definition extractHttpHost :: "web_api \<Rightarrow> string option \<Rightarrow> string option" where
  "extractHttpHost web rawUrl =
     (case nonempty_string rawUrl of
        None \<Rightarrow> None
      | Some u \<Rightarrow>
          (case wa_parse web u of
             None \<Rightarrow> None
           | Some parsed \<Rightarrow>
               if pu_protocol parsed \<noteq> ''http:'' \<and> pu_protocol parsed \<noteq> ''https:'' then None
               else nonempty_string (Some (to_lower (pu_hostname parsed)))))"

fun identify_tabs :: "web_api \<Rightarrow> open_tab list \<Rightarrow> nav_state \<Rightarrow> nav_state \<times> rec_entry list" where
  "identify_tabs web [] nav = (nav, [])"
| "identify_tabs web (candidate # tabs) nav =
     (case (extractHttpHost web (ot_url candidate), ot_id candidate, ot_url candidate) of
        (Some host, Some tabId, Some url) \<Rightarrow>
          (let (nav', identity) =
             (case nav_match tabId url nav of
                Some i \<Rightarrow> (nav, i)
              | None \<Rightarrow> nav_begin tabId url Reconciliation nav);
               (nav'', entries) = identify_tabs web tabs nav'
           in (nav'', \<lparr>re_tabId = tabId, re_host = host, re_identity = identity\<rparr> # entries))
      | _ \<Rightarrow> identify_tabs web tabs nav)"

definition reconcileOpenTabs :: "web_api \<Rightarrow> string \<Rightarrow> open_tab list \<Rightarrow> nav_state \<Rightarrow> nav_state \<times> rec_process" where
  "reconcileOpenTabs web policyVersion tabs nav =
     (let (nav', entries) = identify_tabs web tabs nav in
      (nav', \<lparr>rc_version = policyVersion, rc_entries = entries, rc_results = [],
              rc_phase = (if entries = [] then Rec_done True else Rec_check)\<rparr>))"

definition tab_blocked :: "rec_process \<Rightarrow> rec_entry \<Rightarrow> bool" where
  "tab_blocked r entry \<longleftrightarrow>
     (case List.find (\<lambda>result. to_lower (vr_domain result) = re_host entry) (rev (rc_results r)) of
        Some result \<Rightarrow> permitsPolicyRedirect (normalizePolicyDecision result) (Some (rc_version r))
      | None \<Rightarrow> False)"

text \<open>The loop over the tabs runs up to the next tab that is asked for its URL.\<close>

definition next_tab :: "rec_process \<Rightarrow> nav_state \<Rightarrow> rec_process" where
  "next_tab r nav =
     (let rest = dropWhile (\<lambda>entry. \<not> (tab_blocked r entry \<and> isCurrent (re_identity entry) nav)) (rc_entries r)
      in r\<lparr>rc_entries := rest, rc_phase := (if rest = [] then Rec_done True else Rec_url)\<rparr>)"

definition skip_tab :: "rec_process \<Rightarrow> nav_state \<Rightarrow> rec_process" where
  "skip_tab r nav = next_tab (r\<lparr>rc_entries := tl (rc_entries r)\<rparr>) nav"

definition current_entry :: "rec_process \<Rightarrow> rec_entry" where
  "current_entry r = hd (rc_entries r)"

fun continue_reconciliation ::
  "answer \<Rightarrow> rec_process \<Rightarrow> nav_state \<Rightarrow> (rec_process \<times> nav_state \<times> effect list) option" where
  "continue_reconciliation a r nav =
     (let identity = re_identity (current_entry r) in
      case (rc_phase r, a) of
        (Rec_check, Checked response) \<Rightarrow>
          if \<not> ve_success response then Some (r\<lparr>rc_phase := Rec_done False\<rparr>, nav, [])
          else Some (next_tab (r\<lparr>rc_results := ve_results response\<rparr>) nav, nav, [])
      | (Rec_check, Failed) \<Rightarrow> Some (r\<lparr>rc_phase := Rec_done False\<rparr>, nav, [])
      | (Rec_url, Tab_url currentUrl) \<Rightarrow>
          if currentUrl \<noteq> Some (ni_url identity) \<or> \<not> isCurrent identity nav then Some (skip_tab r nav, nav, [])
          else (let (nav', reserved) = reserveRedirect identity nav in
            if \<not> reserved then Some (skip_tab r nav', nav', [])
            else Some (r\<lparr>rc_phase := Rec_redirect\<rparr>, nav',
              [Redirect identity (re_host (current_entry r)) WHITELIST_POLICY_REMOVED_REASON None]))
      | (Rec_url, Lookup_failed) \<Rightarrow>
          (let nav' = releaseRedirect identity nav in Some (skip_tab r nav', nav', []))
      | (Rec_redirect, Redirect_done) \<Rightarrow>
          (let nav' = fst (markShown identity nav) in Some (skip_tab r nav', nav', []))
      | (Rec_redirect, Failed) \<Rightarrow>
          (let nav' = releaseRedirect identity nav in Some (skip_tab r nav', nav', []))
      | _ \<Rightarrow> None)"

text \<open>\<open>refresh\<close> around it: what is done with the version the host gives, and at the end.\<close>

datatype refresh_plan = Give_up | Up_to_date | Reconcile_now string bool

definition plan_refresh :: "bool \<Rightarrow> (bool \<times> string option) option \<Rightarrow> string \<Rightarrow> refresh_plan" where
  "plan_refresh force answer version =
     (case answer of
        None \<Rightarrow> Give_up
      | Some (success, given) \<Rightarrow>
          if \<not> success then Give_up
          else let new = (case given of Some v \<Rightarrow> v | None \<Rightarrow> []) in
            if \<not> force \<and> new = version then Up_to_date
            else Reconcile_now new (new \<noteq> version))"

definition end_refresh :: "rec_process \<Rightarrow> string \<Rightarrow> string \<times> bool" where
  "end_refresh r version = (if rc_phase r = Rec_done True then (rc_version r, True) else (version, False))"

section \<open>The system\<close>

record bs_state =
  bs_nav :: nav_state
  bs_processes :: "process list"
  bs_reconciliations :: "rec_process list"
  bs_answers :: "(nat \<times> answer) list"
  bs_effects :: "(nat \<times> effect) list"
  bs_shown :: "nav_identity list"

datatype bs_event =
    Navigate navigation_details
  | Nav_error navigation_details bool
  | Continue nat answer
  | Reconcile string "open_tab list"
  | Continue_rec nat answer
  | Close_tab int

definition bs_initial :: bs_state where
  "bs_initial =
     \<lparr>bs_nav = createNavigationState, bs_processes = [], bs_reconciliations = [], bs_answers = [], bs_effects = [],
      bs_shown = []\<rparr>"

text \<open>
  The effects of the processes of the controller are kept with the number of the process, and so
  are the answers it got; \<open>bs_shown\<close> lists the navigations whose redirect the browser has done.
\<close>

fun bs_step :: "web_api \<Rightarrow> string \<Rightarrow> bs_event \<Rightarrow> bs_state \<Rightarrow> bs_state option" where
  "bs_step web screenUrl (Navigate d) st =
     (let (nav, ps) = handleNativePolicyNavigationPreflight web d (bs_nav st)
      in Some (st\<lparr>bs_nav := nav, bs_processes := bs_processes st @ ps\<rparr>))"
| "bs_step web screenUrl (Nav_error d recordBlocked) st =
     (let (nav, ps, effects) = handleBlockedScreenNavigationError web d recordBlocked (bs_nav st)
      in Some (st\<lparr>bs_nav := nav, bs_processes := bs_processes st @ ps\<rparr>))"
| "bs_step web screenUrl (Continue k a) st =
     (if k < length (bs_processes st) then
        (case continue_process web screenUrl a (bs_processes st ! k) (bs_nav st) of
           None \<Rightarrow> None
         | Some (p, nav, effects) \<Rightarrow>
             Some (st\<lparr>bs_nav := nav, bs_processes := (bs_processes st)[k := p],
               bs_answers := bs_answers st @ [(k, a)],
               bs_effects := bs_effects st @ map (Pair k) effects,
               bs_shown := (if a = Redirect_done then pr_identity p # bs_shown st else bs_shown st)\<rparr>))
      else None)"
| "bs_step web screenUrl (Reconcile version tabs) st =
     (let (nav, r) = reconcileOpenTabs web version tabs (bs_nav st)
      in Some (st\<lparr>bs_nav := nav, bs_reconciliations := bs_reconciliations st @ [r]\<rparr>))"
| "bs_step web screenUrl (Continue_rec k a) st =
     (if k < length (bs_reconciliations st) then
        (case continue_reconciliation a (bs_reconciliations st ! k) (bs_nav st) of
           None \<Rightarrow> None
         | Some (r, nav, effects) \<Rightarrow>
             Some (st\<lparr>bs_nav := nav, bs_reconciliations := (bs_reconciliations st)[k := r],
               bs_shown := (if a = Redirect_done
                 then re_identity (current_entry (bs_reconciliations st ! k)) # bs_shown st else bs_shown st)\<rparr>))
      else None)"
| "bs_step web screenUrl (Close_tab tabId) st = Some (st\<lparr>bs_nav := nav_dispose tabId (bs_nav st)\<rparr>)"

fun bs_run :: "web_api \<Rightarrow> string \<Rightarrow> bs_event list \<Rightarrow> bs_state \<Rightarrow> bs_state option" where
  "bs_run web screenUrl [] st = Some st"
| "bs_run web screenUrl (e # es) st =
     (case bs_step web screenUrl e st of None \<Rightarrow> None | Some st' \<Rightarrow> bs_run web screenUrl es st')"

definition redirecting :: "bs_state \<Rightarrow> nav_identity list" where
  "redirecting st =
     map pr_identity (filter (\<lambda>p. pr_phase p = Await_redirect) (bs_processes st)) @
     map (\<lambda>r. re_identity (current_entry r)) (filter (\<lambda>r. rc_phase r = Rec_redirect) (bs_reconciliations st))"

section \<open>One redirect per navigation\<close>

text \<open>
  The discipline of the reservations: the identities that processes hold (\<open>h\<close>) and those whose
  redirect is done (\<open>d\<close>) are all of different generations; a held one is pending or has ended,
  a done one is shown or has ended.
\<close>

definition lock_inv :: "nav_state \<Rightarrow> nav_identity multiset \<Rightarrow> nav_identity multiset \<Rightarrow> bool" where
  "lock_inv nav h d \<longleftrightarrow>
     nav_ok nav \<and> (\<forall>i \<in># h + d. nav_issued nav i) \<and>
     (\<forall>g. count (image_mset ni_generation (h + d)) g \<le> 1) \<and>
     (\<forall>i \<in># h. redirect_of nav i = Some Pending \<or> redirect_of nav i = None) \<and>
     (\<forall>i \<in># d. redirect_of nav i = Some Shown \<or> redirect_of nav i = None)"

lemma lock_invI:
  "nav_ok nav \<Longrightarrow> (\<And>i. i \<in># h + d \<Longrightarrow> nav_issued nav i) \<Longrightarrow>
   (\<And>g. count (image_mset ni_generation (h + d)) g \<le> 1) \<Longrightarrow>
   (\<And>i. i \<in># h \<Longrightarrow> redirect_of nav i = Some Pending \<or> redirect_of nav i = None) \<Longrightarrow>
   (\<And>i. i \<in># d \<Longrightarrow> redirect_of nav i = Some Shown \<or> redirect_of nav i = None) \<Longrightarrow>
   lock_inv nav h d"
  by (simp add: lock_inv_def)

lemma lock_ok: "lock_inv nav h d \<Longrightarrow> nav_ok nav"
  by (simp add: lock_inv_def)

lemma lock_issued: "lock_inv nav h d \<Longrightarrow> i \<in># h + d \<Longrightarrow> nav_issued nav i"
  unfolding lock_inv_def by blast

lemma lock_begin: "lock_inv nav h d \<Longrightarrow> lock_inv (fst (nav_begin t u s nav)) h d"
  unfolding lock_inv_def by (auto simp: nav_ok_begin nav_issued_begin redirect_begin)

lemma lock_dispose: "lock_inv nav h d \<Longrightarrow> lock_inv (nav_dispose t nav) h d"
  unfolding lock_inv_def by (auto simp: nav_ok_dispose nav_issued_dispose redirect_dispose)

lemma issued_unique:
  "nav_issued nav i \<Longrightarrow> nav_issued nav j \<Longrightarrow> redirect_of nav i \<noteq> None \<Longrightarrow>
   ni_generation j = ni_generation i \<Longrightarrow> j = i"
  using nav_current_issued [of nav i] unfolding redirect_of_def nav_issued_def by auto

lemma count_generation_member: "count (image_mset ni_generation M) g = 0 \<longleftrightarrow> (\<forall>i \<in># M. ni_generation i \<noteq> g)"
  by (auto simp: count_eq_zero_iff)

lemma lock_reserve:
  assumes "lock_inv nav h d" "nav_issued nav i" "redirect_of nav i = Some Idle"
  shows "lock_inv (set_redirect i Pending nav) (add_mset i h) d"
proof -
  let ?nav = "set_redirect i Pending nav"
  have other: "ni_generation j \<noteq> ni_generation i" if "j \<in># h + d" for j
  proof
    assume "ni_generation j = ni_generation i"
    then have "j = i"
      using issued_unique [OF assms(2) lock_issued [OF assms(1) that]] assms(3) by simp
    with that assms(1,3) show False by (auto simp: lock_inv_def)
  qed
  then have fresh: "count (image_mset ni_generation (h + d)) (ni_generation i) = 0"
    unfolding count_generation_member by blast
  have same: "redirect_of ?nav j = redirect_of nav j" if "j \<in># h + d" for j
    using redirect_of_set [OF assms(2) lock_issued [OF assms(1) that]] other [OF that] by simp
  have i: "redirect_of ?nav i = Some Pending"
    using redirect_of_set [OF assms(2,2)] assms(3) by simp
  have "count (image_mset ni_generation (add_mset i h + d)) g \<le> 1" for g
    using assms(1) fresh by (cases "g = ni_generation i") (simp_all add: lock_inv_def)
  moreover have "redirect_of ?nav j = Some Pending \<or> redirect_of ?nav j = None" if "j \<in># add_mset i h" for j
  proof (cases "j = i")
    case False
    with that have "j \<in># h" by simp
    with same [of j] assms(1) show ?thesis by (simp add: lock_inv_def)
  qed (simp add: i)
  moreover have "redirect_of ?nav j = Some Shown \<or> redirect_of ?nav j = None" if "j \<in># d" for j
    using same [of j] assms(1) that by (simp add: lock_inv_def)
  moreover have "nav_issued ?nav j" if "j \<in># add_mset i h + d" for j
    using that assms(2) lock_issued [OF assms(1), of j] by auto
  ultimately show ?thesis
    using lock_ok [OF assms(1)] unfolding lock_inv_def by simp
qed

lemma generation_once:
  assumes "lock_inv nav h d" "i \<in># h" "j \<in># (h - {#i#}) + d"
  shows "ni_generation j \<noteq> ni_generation i"
proof
  assume g: "ni_generation j = ni_generation i"
  have "h = add_mset i (h - {#i#})" using assms(2) by simp
  then have "image_mset ni_generation (h + d) =
      add_mset (ni_generation i) (image_mset ni_generation ((h - {#i#}) + d))"
    by (metis image_mset_add_mset union_mset_add_mset_left)
  moreover have "count (image_mset ni_generation (h + d)) (ni_generation i) \<le> 1"
    using assms(1) by (simp add: lock_inv_def)
  ultimately have "count (image_mset ni_generation ((h - {#i#}) + d)) (ni_generation i) = 0" by simp
  with assms(3) g show False unfolding count_generation_member by blast
qed

lemma lock_drop:
  assumes "lock_inv nav h d" "i \<in># h"
  shows "lock_inv (set_redirect i r nav) (h - {#i#}) d"
    and "r = Shown \<Longrightarrow> lock_inv (set_redirect i r nav) (h - {#i#}) (add_mset i d)"
proof -
  have i: "nav_issued nav i" using lock_issued [OF assms(1)] assms(2) by simp
  have same: "redirect_of (set_redirect i r nav) j = redirect_of nav j" if "j \<in># (h - {#i#}) + d" for j
  proof -
    have "nav_issued nav j" using that lock_issued [OF assms(1), of j] by (auto dest: in_diffD)
    then show ?thesis
      using redirect_of_set [OF i] generation_once [OF assms that] by simp
  qed
  have sub: "j \<in># h" if "j \<in># h - {#i#}" for j using that by (rule in_diffD)
  have h: "h + d = add_mset i ((h - {#i#}) + d)" using assms(2) by simp
  have le: "count (image_mset ni_generation ((h - {#i#}) + d)) g \<le> count (image_mset ni_generation (h + d)) g" for g
    unfolding h by simp
  let ?nav = "set_redirect i r nav"
  have pending: "redirect_of ?nav j = Some Pending \<or> redirect_of ?nav j = None" if "j \<in># h - {#i#}" for j
    using same [of j] sub [OF that] that assms(1) by (simp add: lock_inv_def)
  have shown: "redirect_of ?nav j = Some Shown \<or> redirect_of ?nav j = None" if "j \<in># d" for j
    using same [of j] that assms(1) by (simp add: lock_inv_def)
  have issued: "nav_issued ?nav j" if "j \<in># h + d" for j
    using lock_issued [OF assms(1) that] by simp
  have once: "count (image_mset ni_generation (h + d)) g \<le> 1" for g
    using assms(1) by (simp add: lock_inv_def)
  have "nav_ok ?nav" using lock_ok [OF assms(1)] by simp
  moreover have "nav_issued ?nav j" if "j \<in># (h - {#i#}) + d" for j
    using that sub issued [of j] by auto
  moreover have "count (image_mset ni_generation ((h - {#i#}) + d)) g \<le> 1" for g
    using le once by (rule le_trans)
  ultimately show "lock_inv ?nav (h - {#i#}) d"
    using pending shown by (rule lock_invI)
  assume r: "r = Shown"
  have "redirect_of ?nav i = Some Shown \<or> redirect_of ?nav i = None"
    using redirect_of_set [OF i i, of r] r by (auto simp: redirect_of_def nav_current_set)
  then have "redirect_of ?nav j = Some Shown \<or> redirect_of ?nav j = None" if "j \<in># add_mset i d" for j
    using that shown [of j] by (cases "j = i") simp_all
  moreover have "(h - {#i#}) + add_mset i d = h + d" unfolding h by simp
  ultimately show "lock_inv ?nav (h - {#i#}) (add_mset i d)"
    using \<open>nav_ok ?nav\<close> issued once pending by (intro lock_invI) (simp_all only:)
qed

lemma set_redirect_none: "redirect_of nav i = None \<Longrightarrow> set_redirect i r nav = nav"
  by (simp add: redirect_of_def set_redirect_def)

lemma lock_pending: "lock_inv nav h d \<Longrightarrow> i \<in># h \<Longrightarrow> redirect_of nav i = Some Pending \<or> redirect_of nav i = None"
  by (simp add: lock_inv_def)

lemma lock_reserveRedirect:
  "lock_inv nav h d \<Longrightarrow> nav_issued nav i \<Longrightarrow> reserveRedirect i nav = (nav', reserved) \<Longrightarrow>
   lock_inv nav' (if reserved then add_mset i h else h) d"
  by (auto simp: reserveRedirect_def lock_reserve split: if_splits)

lemma lock_release:
  assumes "lock_inv nav h d" "i \<in># h"
  shows "lock_inv (releaseRedirect i nav) (h - {#i#}) d"
proof -
  have "releaseRedirect i nav = set_redirect i Idle nav"
    using lock_pending [OF assms] by (auto simp: releaseRedirect_def set_redirect_none)
  then show ?thesis using lock_drop(1) [OF assms] by simp
qed

lemma markShown_held: "lock_inv nav h d \<Longrightarrow> i \<in># h \<Longrightarrow> fst (markShown i nav) = set_redirect i Shown nav"
  using lock_pending by (fastforce simp: markShown_def set_redirect_none)

lemma lock_mark:
  "lock_inv nav h d \<Longrightarrow> i \<in># h \<Longrightarrow> lock_inv (fst (markShown i nav)) (h - {#i#}) (add_mset i d)"
  by (simp add: markShown_held lock_drop(2))

lemma release_shown:
  assumes "lock_inv nav h d" "i \<in># h"
  shows "releaseRedirect i (fst (markShown i nav)) = fst (markShown i nav)"
proof -
  have "i \<in># add_mset i d" by simp
  then have "redirect_of (fst (markShown i nav)) i \<noteq> Some Pending"
    using lock_mark [OF assms] unfolding lock_inv_def by fastforce
  then show ?thesis by (simp add: releaseRedirect_def)
qed

lemma issued_reserve [simp]: "nav_issued (fst (reserveRedirect i nav)) j = nav_issued nav j"
  by (simp add: reserveRedirect_def)

lemma issued_release [simp]: "nav_issued (releaseRedirect i nav) j = nav_issued nav j"
  by (simp add: releaseRedirect_def)

lemma issued_mark [simp]: "nav_issued (fst (markShown i nav)) j = nav_issued nav j"
  by (simp add: markShown_def)

subsection \<open>The processes of the controller\<close>

definition held_by :: "process list \<Rightarrow> nav_identity multiset" where
  "held_by ps = image_mset pr_identity (filter_mset (\<lambda>p. pr_phase p \<noteq> Finished) (mset ps))"

lemma held_by_simps [simp]:
  "held_by [] = {#}" "held_by (ps @ qs) = held_by ps + held_by qs"
  "held_by [p] = (if pr_phase p \<noteq> Finished then {#pr_identity p#} else {#})"
  by (simp_all add: held_by_def)

lemma held_by_update:
  "k < length ps \<Longrightarrow> held_by (ps[k := p]) = held_by ps - held_by [ps ! k] + held_by [p]"
  by (simp add: held_by_def mset_update filter_mset_add_mset nth_mem_mset image_mset_Diff)

lemma held_by_nth: "k < length ps \<Longrightarrow> pr_phase (ps ! k) \<noteq> Finished \<Longrightarrow> pr_identity (ps ! k) \<in># held_by ps"
  by (auto simp: held_by_def)

text \<open>What every operation on the registry preserves: the discipline, and what was issued.\<close>

definition locked :: "nav_state \<Rightarrow> nav_state \<Rightarrow> nav_identity multiset \<Rightarrow> nav_identity multiset \<Rightarrow> bool" where
  "locked nav nav' h d \<longleftrightarrow> lock_inv nav' h d \<and> (\<forall>j. nav_issued nav j \<longrightarrow> nav_issued nav' j)"

lemma locked_refl: "lock_inv nav h d \<Longrightarrow> locked nav nav h d"
  by (simp add: locked_def)

lemma lock_start:
  assumes "lock_inv nav h d" "nav_issued nav i" "redirectToBlockedScreenOnce c i b nav = (nav', ps)"
  shows "locked nav nav' (h + held_by ps) d"
proof -
  obtain nav1 reserved where r: "reserveRedirect i nav = (nav1, reserved)" by fastforce
  have "nav_issued nav1 j = nav_issued nav j" for j
    using issued_reserve [of i nav j] r by simp
  moreover have "lock_inv nav1 (if reserved then add_mset i h else h) d"
    using lock_reserveRedirect [OF assms(1,2) r] .
  ultimately show ?thesis
    using assms(3) r by (auto simp: locked_def redirectToBlockedScreenOnce_def split: if_splits)
qed

lemma lock_new:
  assumes "lock_inv nav h d" "redirect_new_navigation c s b nav = (nav', ps)"
  shows "locked nav nav' (h + held_by ps) d"
proof -
  obtain nav1 i where n: "nav_begin (sc_tabId c) (sc_url c) s nav = (nav1, i)" by fastforce
  have "lock_inv nav1 h d" using lock_begin [OF assms(1)] n by (metis fst_conv)
  moreover have "nav_issued nav1 i"
    using nav_issued_new [OF lock_ok [OF assms(1)]] n by (metis fst_conv snd_conv)
  moreover have "redirectToBlockedScreenOnce c i b nav1 = (nav', ps)"
    using assms(2) n by (simp add: redirect_new_navigation_def)
  ultimately have "locked nav1 nav' (h + held_by ps) d" by (rule lock_start)
  moreover have "nav_issued nav j \<Longrightarrow> nav_issued nav1 j" for j
    using nav_issued_begin n by (metis fst_conv)
  ultimately show ?thesis by (simp add: locked_def)
qed

lemma preflight_cases:
  "(nav', ps) = handleNativePolicyNavigationPreflight web e nav \<Longrightarrow>
   (nav', ps) = (nav, []) \<or> (nav', ps) = (nav_dispose (nd_tabId e) nav, []) \<or>
   (\<exists>c. (nav', ps) = redirect_new_navigation c Preflight True nav)"
  unfolding handleNativePolicyNavigationPreflight_def by (simp split: if_splits option.splits) blast+

lemma after_error_cases:
  "(nav', ps) = redirect_after_error c b nav \<Longrightarrow>
   (nav', ps) = (nav, []) \<or> (\<exists>s. (nav', ps) = redirect_new_navigation c s b nav) \<or>
   (\<exists>i. nav_get (sc_tabId c) nav = Some i \<and> (nav', ps) = redirectToBlockedScreenOnce c i b nav)"
  unfolding redirect_after_error_def by (simp split: if_splits option.splits) blast+

lemma nav_error_cases:
  "(nav', ps, es) = handleBlockedScreenNavigationError web e b nav \<Longrightarrow>
   (nav', ps) = (nav, []) \<or> (\<exists>c. (nav', ps) = redirect_after_error c b nav)"
  unfolding handleBlockedScreenNavigationError_def Let_def
  by (simp split: if_splits option.splits prod.splits) metis+

lemma lock_preflight:
  assumes "lock_inv nav h d" "handleNativePolicyNavigationPreflight web e nav = (nav', ps)"
  shows "locked nav nav' (h + held_by ps) d"
  using preflight_cases [OF assms(2) [symmetric]]
proof (elim disjE exE)
  assume "(nav', ps) = (nav, [])"
  then show ?thesis using assms(1) by (simp add: locked_refl)
next
  assume "(nav', ps) = (nav_dispose (nd_tabId e) nav, [])"
  then show ?thesis using lock_dispose [OF assms(1)] nav_issued_dispose by (simp add: locked_def)
next
  fix c assume "(nav', ps) = redirect_new_navigation c Preflight True nav"
  then show ?thesis using lock_new [OF assms(1)] by metis
qed

lemma lock_after_error:
  assumes "lock_inv nav h d" "redirect_after_error c b nav = (nav', ps)"
  shows "locked nav nav' (h + held_by ps) d"
  using after_error_cases [OF assms(2) [symmetric]]
proof (elim disjE exE conjE)
  assume "(nav', ps) = (nav, [])"
  then show ?thesis using assms(1) by (simp add: locked_refl)
next
  fix s assume "(nav', ps) = redirect_new_navigation c s b nav"
  then show ?thesis using lock_new [OF assms(1)] by metis
next
  fix i assume i: "nav_get (sc_tabId c) nav = Some i" "(nav', ps) = redirectToBlockedScreenOnce c i b nav"
  from nav_issued_get [OF lock_ok [OF assms(1)] i(1)] i(2) [symmetric]
  show ?thesis by (rule lock_start [OF assms(1)])
qed

lemma lock_nav_error:
  assumes "lock_inv nav h d" "handleBlockedScreenNavigationError web e b nav = (nav', ps, es)"
  shows "locked nav nav' (h + held_by ps) d"
  using nav_error_cases [OF assms(2) [symmetric]]
proof (elim disjE exE)
  assume "(nav', ps) = (nav, [])"
  then show ?thesis using assms(1) by (simp add: locked_refl)
next
  fix c assume "(nav', ps) = redirect_after_error c b nav"
  from this [symmetric] show ?thesis by (rule lock_after_error [OF assms(1)])
qed

text \<open>A process that goes on keeps its reservation, or gives it up at its end.\<close>

lemma show_screen_cases:
  "show_screen p nav = (p', nav', es) \<Longrightarrow>
   pr_identity p' = pr_identity p \<and>
   ((pr_phase p' = Finished \<and> nav' = releaseRedirect (pr_identity p) nav) \<or> (pr_phase p' \<noteq> Finished \<and> nav' = nav))"
  by (auto simp: show_screen_def finish_process_def Let_def split: if_splits)

lemma continue_cases:
  assumes "continue_process web screenUrl a p nav = Some (p', nav', es)"
  shows "pr_identity p' = pr_identity p \<and> pr_phase p \<noteq> Finished \<and>
    (if a = Redirect_done
     then pr_phase p' = Finished \<and> nav' = releaseRedirect (pr_identity p) (fst (markShown (pr_identity p) nav))
     else (pr_phase p' = Finished \<and> nav' = releaseRedirect (pr_identity p) nav) \<or> (pr_phase p' \<noteq> Finished \<and> nav' = nav))"
  using assms show_screen_cases [of p nav p' nav' es]
  by (cases "pr_phase p"; cases a)
    (auto simp: after_tab_def after_confirm_def finish_process_def wait_in_def split: if_splits)

lemma lock_continue:
  assumes "lock_inv nav h d" "continue_process web screenUrl a p nav = Some (p', nav', es)" "pr_identity p \<in># h"
  shows "locked nav nav' (h - {#pr_identity p#} + held_by [p'])
    (if a = Redirect_done then add_mset (pr_identity p') d else d)"
proof -
  note c = continue_cases [OF assms(2)]
  show ?thesis
  proof (cases "a = Redirect_done")
    case True
    then show ?thesis
      using c release_shown [OF assms(1,3)] lock_mark [OF assms(1,3)] by (simp add: locked_def)
  next
    case False
    then show ?thesis
      using c lock_release [OF assms(1,3)] assms(1,3) by (auto simp: locked_def)
  qed
qed

subsection \<open>The reconciliations\<close>

definition held_rec :: "rec_process list \<Rightarrow> nav_identity multiset" where
  "held_rec rs = image_mset (\<lambda>r. re_identity (current_entry r)) (filter_mset (\<lambda>r. rc_phase r = Rec_redirect) (mset rs))"

lemma held_rec_simps [simp]:
  "held_rec [] = {#}" "held_rec (rs @ qs) = held_rec rs + held_rec qs"
  "held_rec [r] = (if rc_phase r = Rec_redirect then {#re_identity (current_entry r)#} else {#})"
  by (simp_all add: held_rec_def)

lemma held_rec_update:
  "k < length rs \<Longrightarrow> held_rec (rs[k := r]) = held_rec rs - held_rec [rs ! k] + held_rec [r]"
  by (simp add: held_rec_def mset_update filter_mset_add_mset nth_mem_mset image_mset_Diff)

lemma held_rec_nth: "k < length rs \<Longrightarrow> held_rec [rs ! k] \<subseteq># held_rec rs"
  by (auto simp: held_rec_def)

definition rec_ok :: "nav_state \<Rightarrow> rec_process \<Rightarrow> bool" where
  "rec_ok nav r \<longleftrightarrow>
     (\<forall>e \<in> set (rc_entries r). nav_issued nav (re_identity e)) \<and>
     (rc_phase r = Rec_url \<or> rc_phase r = Rec_redirect \<longrightarrow> rc_entries r \<noteq> [])"

lemma rec_ok_locked: "locked nav nav' h d \<Longrightarrow> rec_ok nav r \<Longrightarrow> rec_ok nav' r"
  by (auto simp: locked_def rec_ok_def)

lemma next_tab_facts:
  "set (rc_entries (next_tab r nav)) \<subseteq> set (rc_entries r)"
  "rc_phase (next_tab r nav) \<noteq> Rec_redirect"
  "rc_phase (next_tab r nav) = Rec_url \<Longrightarrow> rc_entries (next_tab r nav) \<noteq> []"
  by (auto simp: next_tab_def Let_def dest: set_dropWhileD split: if_splits)

lemma rec_ok_next: "rec_ok nav r \<Longrightarrow> rec_ok nav (next_tab r nav')"
  using next_tab_facts [of r nav'] unfolding rec_ok_def by blast

lemma rec_ok_skip:
  assumes "rec_ok nav r"
  shows "rec_ok nav (skip_tab r nav')"
proof -
  let ?r = "r\<lparr>rc_entries := tl (rc_entries r)\<rparr>"
  have "set (tl (rc_entries r)) \<subseteq> set (rc_entries r)" by (cases "rc_entries r") auto
  then have "e \<in> set (rc_entries (skip_tab r nav')) \<Longrightarrow> e \<in> set (rc_entries r)" for e
    using next_tab_facts(1) [of ?r nav'] by (auto simp: skip_tab_def)
  then show ?thesis
    using assms next_tab_facts(2,3) [of ?r nav'] unfolding rec_ok_def skip_tab_def by blast
qed

lemma skip_not_held [simp]: "held_rec [skip_tab r nav] = {#}" "held_rec [next_tab r nav] = {#}"
  using next_tab_facts(2) by (simp_all add: skip_tab_def)

lemma lock_identify:
  "lock_inv nav h d \<Longrightarrow> identify_tabs web tabs nav = (nav', es) \<Longrightarrow>
   locked nav nav' h d \<and> (\<forall>e \<in> set es. nav_issued nav' (re_identity e))"
proof (induction tabs arbitrary: nav nav' es)
  case Nil
  then show ?case by (simp add: locked_refl)
next
  case (Cons c tabs)
  show ?case
  proof (cases "\<exists>host t u. extractHttpHost web (ot_url c) = Some host \<and> ot_id c = Some t \<and> ot_url c = Some u")
    case False
    then have "identify_tabs web tabs nav = (nav', es)"
      using Cons.prems(2) by (auto split: option.splits)
    from Cons.IH [OF Cons.prems(1) this] show ?thesis .
  next
    case True
    then obtain host t u where c: "extractHttpHost web (ot_url c) = Some host" "ot_id c = Some t" "ot_url c = Some u"
      by blast
    obtain nav1 i where i: "(case nav_match t u nav of Some i \<Rightarrow> (nav, i)
        | None \<Rightarrow> nav_begin t u Reconciliation nav) = (nav1, i)" by fastforce
    obtain nav2 es2 where rest: "identify_tabs web tabs nav1 = (nav2, es2)" by fastforce
    have one: "locked nav nav1 h d \<and> nav_issued nav1 i"
    proof (cases "nav_match t u nav")
      case None
      with i have b: "nav1 = fst (nav_begin t u Reconciliation nav)" "i = snd (nav_begin t u Reconciliation nav)"
        by auto
      show ?thesis
        using lock_begin [OF Cons.prems(1)] nav_issued_new [OF lock_ok [OF Cons.prems(1)]] nav_issued_begin
        unfolding b locked_def by blast
    next
      case (Some j)
      with i nav_issued_match [OF lock_ok [OF Cons.prems(1)] Some] Cons.prems(1) show ?thesis
        by (simp add: locked_refl)
    qed
    then have "lock_inv nav1 h d" by (simp add: locked_def)
    from Cons.IH [OF this rest] one
    have "locked nav nav2 h d" "nav_issued nav2 i" "\<forall>e \<in> set es2. nav_issued nav2 (re_identity e)"
      by (auto simp: locked_def)
    moreover have "nav' = nav2" "es = \<lparr>re_tabId = t, re_host = host, re_identity = i\<rparr> # es2"
      using Cons.prems(2) c i rest by auto
    ultimately show ?thesis by simp
  qed
qed

lemma lock_reconcile:
  assumes "lock_inv nav h d" "reconcileOpenTabs web v tabs nav = (nav', r)"
  shows "locked nav nav' h d \<and> rec_ok nav' r \<and> held_rec [r] = {#}"
proof -
  obtain nav1 es where i: "identify_tabs web tabs nav = (nav1, es)" by fastforce
  with lock_identify [OF assms(1) i] assms(2) show ?thesis
    by (auto simp: reconcileOpenTabs_def rec_ok_def split: if_splits)
qed

lemma continue_check:
  "rc_phase r = Rec_check \<Longrightarrow> Some (r', nav', es) = continue_reconciliation a r nav \<Longrightarrow>
   nav' = nav \<and> a \<noteq> Redirect_done \<and>
   (r' = r\<lparr>rc_phase := Rec_done False\<rparr> \<or> (\<exists>results. r' = next_tab (r\<lparr>rc_results := results\<rparr>) nav))"
  by (cases a) (simp_all split: if_splits, metis)

lemma continue_redirect:
  "rc_phase r = Rec_redirect \<Longrightarrow> Some (r', nav', es) = continue_reconciliation a r nav \<Longrightarrow>
   r' = skip_tab r nav' \<and>
   (a = Redirect_done \<and> nav' = fst (markShown (re_identity (current_entry r)) nav) \<or>
    a = Failed \<and> nav' = releaseRedirect (re_identity (current_entry r)) nav)"
  by (cases a) (simp_all add: Let_def)

lemma lock_continue_rec:
  assumes "lock_inv nav h d" "rec_ok nav r" "held_rec [r] \<subseteq># h" "a \<noteq> Lookup_failed"
    and "continue_reconciliation a r nav = Some (r', nav', es)"
  shows "locked nav nav' (h - held_rec [r] + held_rec [r'])
      (if a = Redirect_done then add_mset (re_identity (current_entry r)) d else d) \<and> rec_ok nav' r'"
proof (cases "rc_phase r")
  case Rec_check
  from continue_check [OF Rec_check assms(5) [symmetric]]
  have c: "nav' = nav" "a \<noteq> Redirect_done"
    "r' = r\<lparr>rc_phase := Rec_done False\<rparr> \<or> (\<exists>results. r' = next_tab (r\<lparr>rc_results := results\<rparr>) nav)" by auto
  have n: "rec_ok nav (next_tab (r\<lparr>rc_results := results\<rparr>) nav)" for results
    using assms(2) by (intro rec_ok_next) (simp add: rec_ok_def)
  have d: "rec_ok nav (r\<lparr>rc_phase := Rec_done False\<rparr>)" using assms(2) by (simp add: rec_ok_def)
  have "rec_ok nav r'" "held_rec [r'] = {#}"
    using c(3) n d by (auto simp: next_tab_facts(2))
  moreover have "held_rec [r] = {#}" using Rec_check by simp
  ultimately show ?thesis using c(1,2) assms(1) by (simp add: locked_refl)
next
  case Rec_url
  let ?i = "re_identity (current_entry r)"
  have i: "nav_issued nav ?i" using assms(2) Rec_url by (simp add: rec_ok_def current_entry_def)
  obtain nav1 reserved where res: "reserveRedirect ?i nav = (nav1, reserved)" by fastforce
  have n1: "nav_issued nav1 j = nav_issued nav j" for j using issued_reserve [of ?i nav j] res by simp
  have l1: "lock_inv nav1 (if reserved then add_mset ?i h else h) d"
    using lock_reserveRedirect [OF assms(1) i res] .
  have ok1: "rec_ok nav1 r" using assms(2) n1 by (simp add: rec_ok_def)
  obtain u where a: "a = Tab_url u" using assms(4,5) Rec_url by (cases a) auto
  show ?thesis
  proof (cases "u \<noteq> Some (ni_url ?i) \<or> \<not> isCurrent ?i nav")
    case True
    with a Rec_url assms(5) have "r' = skip_tab r nav" "nav' = nav" by auto
    with a Rec_url assms(1,2) skip_not_held(1) [of r nav] show ?thesis by (simp add: locked_refl rec_ok_skip)
  next
    case False
    show ?thesis
    proof (cases reserved)
      case True
      with False a Rec_url assms(5) res have r: "r' = r\<lparr>rc_phase := Rec_redirect\<rparr>" "nav' = nav1" by auto
      have "locked nav nav1 (add_mset ?i h) d" using l1 n1 True by (simp add: locked_def)
      moreover have "rec_ok nav1 (r\<lparr>rc_phase := Rec_redirect\<rparr>)"
        using ok1 Rec_url by (simp add: rec_ok_def)
      ultimately show ?thesis using r a Rec_url by (simp add: current_entry_def)
    next
      case no: False
      with False a Rec_url assms(5) res have r: "r' = skip_tab r nav1" "nav' = nav1" by auto
      have "locked nav nav1 h d" using l1 n1 no by (simp add: locked_def)
      with r a Rec_url ok1 skip_not_held(1) [of r nav1] show ?thesis by (simp add: rec_ok_skip)
    qed
  qed
next
  case Rec_redirect
  let ?i = "re_identity (current_entry r)"
  have h: "?i \<in># h" using assms(3) Rec_redirect by simp
  note c = continue_redirect [OF Rec_redirect assms(5) [symmetric]]
  then have issued: "nav_issued nav' j = nav_issued nav j" for j by auto
  then have "rec_ok nav' r'" using assms(2) c by (simp add: rec_ok_skip rec_ok_def [of nav' r] rec_ok_def [of nav r])
  moreover have "held_rec [r'] = {#}" using c skip_not_held(1) by simp
  moreover have "held_rec [r] = {#?i#}" using Rec_redirect by simp
  ultimately show ?thesis
    using c lock_mark [OF assms(1) h] lock_release [OF assms(1) h] issued by (auto simp: locked_def)
next
  case (Rec_done b)
  with assms(5) show ?thesis by (cases a) auto
qed

subsection \<open>The whole system\<close>

definition sys_inv :: "bs_state \<Rightarrow> bool" where
  "sys_inv st \<longleftrightarrow>
     lock_inv (bs_nav st) (held_by (bs_processes st) + held_rec (bs_reconciliations st)) (mset (bs_shown st)) \<and>
     (\<forall>r \<in> set (bs_reconciliations st). rec_ok (bs_nav st) r)"

lemma sys_inv_initial: "sys_inv bs_initial"
  by (simp add: sys_inv_def bs_initial_def lock_inv_def nav_ok_create)

lemma sys_inv_locked:
  assumes "locked (bs_nav st) nav' (held_by ps + held_rec (bs_reconciliations st)) (mset shown)" "sys_inv st"
  shows "sys_inv (st\<lparr>bs_nav := nav', bs_processes := ps, bs_answers := an, bs_effects := ef, bs_shown := shown\<rparr>)"
proof -
  have "rec_ok nav' r" if "r \<in> set (bs_reconciliations st)" for r
    using rec_ok_locked [OF assms(1)] assms(2) that unfolding sys_inv_def by blast
  with assms(1) show ?thesis by (simp add: sys_inv_def locked_def)
qed

lemma sys_inv_locked_rec:
  "locked (bs_nav st) nav' (held_by (bs_processes st) + held_rec rs) (mset shown) \<Longrightarrow>
   (\<And>r. r \<in> set rs \<Longrightarrow> rec_ok nav' r) \<Longrightarrow>
   sys_inv (st\<lparr>bs_nav := nav', bs_reconciliations := rs, bs_shown := shown\<rparr>)"
  by (simp add: sys_inv_def locked_def)

lemma mset_update_held: "M \<subseteq># h \<Longrightarrow> (h :: 'a multiset) + k - M + n = (h - M + n) + k"
proof -
  assume "M \<subseteq># h"
  then obtain h' where h: "h = M + h'" by (metis mset_subset_eq_exists_conv)
  have "M + h' + k - M = h' + k" by (simp add: add.assoc)
  with h show ?thesis by (simp add: ac_simps)
qed

lemma sys_inv_continue:
  assumes "sys_inv st" "bs_step web screenUrl (Continue k a) st = Some st'"
  shows "sys_inv st'"
proof -
  from assms(2) obtain p nav es where k: "k < length (bs_processes st)"
    and c: "continue_process web screenUrl a (bs_processes st ! k) (bs_nav st) = Some (p, nav, es)"
    and st': "st' = st\<lparr>bs_nav := nav, bs_processes := (bs_processes st)[k := p],
        bs_answers := bs_answers st @ [(k, a)], bs_effects := bs_effects st @ map (Pair k) es,
        bs_shown := (if a = Redirect_done then pr_identity p # bs_shown st else bs_shown st)\<rparr>"
    by (auto split: if_splits option.splits)
  let ?p = "bs_processes st ! k"
  let ?h = "held_by (bs_processes st)" and ?hr = "held_rec (bs_reconciliations st)"
  have live: "pr_phase ?p \<noteq> Finished" using continue_cases [OF c] by simp
  then have i: "pr_identity ?p \<in># ?h" using held_by_nth [OF k] by simp
  have inv: "lock_inv (bs_nav st) (?h + ?hr) (mset (bs_shown st))" using assms(1) by (simp add: sys_inv_def)
  have "locked (bs_nav st) nav (?h + ?hr - {#pr_identity ?p#} + held_by [p])
      (if a = Redirect_done then add_mset (pr_identity p) (mset (bs_shown st)) else mset (bs_shown st))"
    using lock_continue [OF inv c] i by simp
  moreover have "?h + ?hr - {#pr_identity ?p#} + held_by [p] = held_by ((bs_processes st)[k := p]) + ?hr"
    unfolding held_by_update [OF k] using live i by (subst mset_update_held) simp_all
  moreover have "(if a = Redirect_done then add_mset (pr_identity p) (mset (bs_shown st)) else mset (bs_shown st)) =
      mset (if a = Redirect_done then pr_identity p # bs_shown st else bs_shown st)" by simp
  ultimately have "locked (bs_nav st) nav (held_by ((bs_processes st)[k := p]) + ?hr)
      (mset (if a = Redirect_done then pr_identity p # bs_shown st else bs_shown st))" by (simp only:)
  from sys_inv_locked [OF this assms(1)] show ?thesis unfolding st' .
qed

lemma sys_inv_continue_rec:
  assumes "sys_inv st" "bs_step web screenUrl (Continue_rec k a) st = Some st'" "a \<noteq> Lookup_failed"
  shows "sys_inv st'"
proof -
  let ?r = "bs_reconciliations st ! k"
  from assms(2) obtain r nav es where k: "k < length (bs_reconciliations st)"
    and c: "continue_reconciliation a ?r (bs_nav st) = Some (r, nav, es)"
    and st': "st' = st\<lparr>bs_nav := nav, bs_reconciliations := (bs_reconciliations st)[k := r],
        bs_shown := (if a = Redirect_done then re_identity (current_entry ?r) # bs_shown st else bs_shown st)\<rparr>"
    by (auto simp del: continue_reconciliation.simps split: if_splits option.splits)
  let ?h = "held_by (bs_processes st)" and ?hr = "held_rec (bs_reconciliations st)"
  have inv: "lock_inv (bs_nav st) (?h + ?hr) (mset (bs_shown st))"
    and ok: "\<And>q. q \<in> set (bs_reconciliations st) \<Longrightarrow> rec_ok (bs_nav st) q"
    using assms(1) by (simp_all add: sys_inv_def)
  have sub: "held_rec [?r] \<subseteq># ?hr" using held_rec_nth [OF k] .
  then have "held_rec [?r] \<subseteq># ?h + ?hr" by (simp add: subset_mset.add_increasing)
  from lock_continue_rec [OF inv ok [OF nth_mem [OF k]] this assms(3) c]
  have l: "locked (bs_nav st) nav (?h + ?hr - held_rec [?r] + held_rec [r])
      (if a = Redirect_done then add_mset (re_identity (current_entry ?r)) (mset (bs_shown st)) else mset (bs_shown st))"
    and r: "rec_ok nav r" by auto
  have h: "?h + ?hr - held_rec [?r] + held_rec [r] = ?h + held_rec ((bs_reconciliations st)[k := r])"
    unfolding held_rec_update [OF k] using mset_update_held [OF sub, of ?h "held_rec [r]"]
    by (simp only: add.commute)
  have shown: "(if a = Redirect_done then add_mset (re_identity (current_entry ?r)) (mset (bs_shown st))
      else mset (bs_shown st)) =
      mset (if a = Redirect_done then re_identity (current_entry ?r) # bs_shown st else bs_shown st)" by simp
  have "rec_ok nav q" if "q \<in> set ((bs_reconciliations st)[k := r])" for q
    using set_update_subset_insert [of "bs_reconciliations st" k r] that r rec_ok_locked [OF l] ok by blast
  with l show ?thesis unfolding st' h shown by (rule sys_inv_locked_rec)
qed

lemma sys_inv_step:
  assumes "sys_inv st" "bs_step web screenUrl e st = Some st'" "\<And>k. e \<noteq> Continue_rec k Lookup_failed"
  shows "sys_inv st'"
proof (cases e)
  let ?h = "held_by (bs_processes st)" and ?hr = "held_rec (bs_reconciliations st)"
  have inv: "lock_inv (bs_nav st) (?h + ?hr) (mset (bs_shown st))"
    and ok: "\<And>q. q \<in> set (bs_reconciliations st) \<Longrightarrow> rec_ok (bs_nav st) q"
    using assms(1) by (simp_all add: sys_inv_def)
  {
    case (Navigate d)
    obtain nav ps where p: "handleNativePolicyNavigationPreflight web d (bs_nav st) = (nav, ps)" by fastforce
    then have "st' = st\<lparr>bs_nav := nav, bs_processes := bs_processes st @ ps\<rparr>" using assms(2) Navigate by simp
    with sys_inv_locked [OF _ assms(1), where nav' = nav and ps = "bs_processes st @ ps" and shown = "bs_shown st"
        and an = "bs_answers st" and ef = "bs_effects st"]
      lock_preflight [OF inv p] show ?thesis by (simp add: ac_simps)
  next
    case (Nav_error d b)
    obtain nav ps es where p: "handleBlockedScreenNavigationError web d b (bs_nav st) = (nav, ps, es)"
      using prod_cases3 by blast
    then have "st' = st\<lparr>bs_nav := nav, bs_processes := bs_processes st @ ps\<rparr>" using assms(2) Nav_error by simp
    with sys_inv_locked [OF _ assms(1), where nav' = nav and ps = "bs_processes st @ ps" and shown = "bs_shown st"
        and an = "bs_answers st" and ef = "bs_effects st"]
      lock_nav_error [OF inv p] show ?thesis by (simp add: ac_simps)
  next
    case (Continue k a)
    with assms(1,2) show ?thesis using sys_inv_continue by blast
  next
    case (Reconcile v tabs)
    obtain nav r where p: "reconcileOpenTabs web v tabs (bs_nav st) = (nav, r)" by fastforce
    then have "st' = st\<lparr>bs_nav := nav, bs_reconciliations := bs_reconciliations st @ [r]\<rparr>"
      using assms(2) Reconcile by simp
    moreover have "rec_ok nav q" if "q \<in> set (bs_reconciliations st @ [r])" for q
      using that lock_reconcile [OF inv p] rec_ok_locked ok by auto
    ultimately show ?thesis
      using sys_inv_locked_rec [of st nav "bs_reconciliations st @ [r]" "bs_shown st"] lock_reconcile [OF inv p]
      by (simp del: held_rec_simps(3))
  next
    case (Continue_rec k a)
    with assms show ?thesis using sys_inv_continue_rec by blast
  next
    case (Close_tab t)
    then have "st' = st\<lparr>bs_nav := nav_dispose t (bs_nav st)\<rparr>" using assms(2) by simp
    moreover have "locked (bs_nav st) (nav_dispose t (bs_nav st)) (?h + ?hr) (mset (bs_shown st))"
      using lock_dispose [OF inv] nav_issued_dispose by (simp add: locked_def)
    ultimately show ?thesis
      using sys_inv_locked [OF _ assms(1), where nav' = "nav_dispose t (bs_nav st)" and ps = "bs_processes st"
        and shown = "bs_shown st" and an = "bs_answers st" and ef = "bs_effects st"] by simp
  }
qed

lemma sys_inv_run:
  "bs_run web screenUrl es st = Some st' \<Longrightarrow> sys_inv st \<Longrightarrow>
   (\<And>k. Continue_rec k Lookup_failed \<notin> set es) \<Longrightarrow> sys_inv st'"
proof (induction es arbitrary: st)
  case (Cons e es)
  then obtain st1 where s: "bs_step web screenUrl e st = Some st1" "bs_run web screenUrl es st1 = Some st'"
    by (auto split: option.splits)
  have "sys_inv st1" by (rule sys_inv_step [OF Cons.prems(2) s(1)]) (use Cons.prems(3) in auto)
  with Cons.IH [OF s(2)] Cons.prems(3) show ?case by auto
qed simp

lemma redirecting_held:
  "mset (redirecting st) \<subseteq># held_by (bs_processes st) + held_rec (bs_reconciliations st)"
proof -
  have "filter_mset (\<lambda>p. pr_phase p = Await_redirect) (mset (bs_processes st))
      \<subseteq># filter_mset (\<lambda>p. pr_phase p \<noteq> Finished) (mset (bs_processes st))"
    by (rule mset_subset_eqI) simp
  then show ?thesis
    by (simp add: redirecting_def held_by_def held_rec_def image_mset_subseteq_mono flip: mset_filter)
qed

text \<open>C10: a navigation is redirected once.  However navigations, errors, answers, reconciliations
  and closed tabs interleave, as long as no reconciliation fails to look a tab up, the redirects
  to the blocked page that are under way and those already done, of the controller and of the
  reconciliations together, are of different navigations.\<close>

theorem navigation_redirected_once:
  assumes "bs_run web screenUrl es bs_initial = Some st" "\<forall>k. Continue_rec k Lookup_failed \<notin> set es"
  shows "distinct (map ni_generation (redirecting st @ bs_shown st))"
proof -
  have inv: "sys_inv st" using sys_inv_run [OF assms(1) sys_inv_initial] assms(2) by blast
  have sub: "mset (redirecting st @ bs_shown st) \<subseteq>#
      held_by (bs_processes st) + held_rec (bs_reconciliations st) + mset (bs_shown st)"
    using redirecting_held by simp
  have "count (mset (map ni_generation (redirecting st @ bs_shown st))) g \<le> 1" for g
  proof -
    have "count (image_mset ni_generation (mset (redirecting st @ bs_shown st))) g \<le>
        count (image_mset ni_generation (held_by (bs_processes st) + held_rec (bs_reconciliations st) + mset (bs_shown st))) g"
      by (rule mset_subset_eq_count [OF image_mset_subseteq_mono [OF sub]])
    also have "\<dots> \<le> 1" using inv unfolding sys_inv_def lock_inv_def by blast
    finally show ?thesis by simp
  qed
  moreover have "1 \<le> count (mset xs) x" if "x \<in> set xs" for xs :: "nat list" and x
    using that by (metis One_nat_def Suc_leI count_greater_zero_iff set_mset_mset)
  ultimately show ?thesis
    unfolding distinct_count_atmost_1 by (auto intro: le_antisym simp: not_in_iff simp del: mset_map map_append)
qed

section \<open>The blocked page needs the host's word\<close>

definition word_given :: "bs_state \<Rightarrow> nat \<Rightarrow> bool" where
  "word_given st k \<longleftrightarrow> (\<exists>c. (k, Confirmed c) \<in> set (bs_answers st) \<and> cf_blocked c)"

definition confirmed_inv :: "bs_state \<Rightarrow> bool" where
  "confirmed_inv st \<longleftrightarrow>
     (\<forall>k < length (bs_processes st).
        pr_confirm (bs_processes st ! k) \<and>
        (pr_phase (bs_processes st ! k) = Await_recovery True \<longrightarrow> word_given st k)) \<and>
     (\<forall>k i h e w. (k, Redirect i h e w) \<in> set (bs_effects st) \<longrightarrow> word_given st k)"

lemma start_confirms: "redirectToBlockedScreenOnce c i b nav = (nav', ps) \<Longrightarrow>
   list_all (\<lambda>p. pr_confirm p \<and> pr_phase p = Await_tab) ps"
  by (auto simp: redirectToBlockedScreenOnce_def split: prod.splits if_splits)

lemma new_confirms: "redirect_new_navigation c s b nav = (nav', ps) \<Longrightarrow>
   list_all (\<lambda>p. pr_confirm p \<and> pr_phase p = Await_tab) ps"
  using start_confirms by (auto simp: redirect_new_navigation_def split: prod.splits)

lemma preflight_confirms:
  assumes "handleNativePolicyNavigationPreflight web d nav = (nav', ps)"
  shows "list_all (\<lambda>p. pr_confirm p \<and> pr_phase p = Await_tab) ps"
  using preflight_cases [OF assms [symmetric]] new_confirms [OF sym] by auto

lemma after_error_confirms:
  assumes "redirect_after_error c b nav = (nav', ps)"
  shows "list_all (\<lambda>p. pr_confirm p \<and> pr_phase p = Await_tab) ps"
  using after_error_cases [OF assms [symmetric]] new_confirms [OF sym] start_confirms [OF sym] by auto

lemma nav_error_confirms:
  assumes "handleBlockedScreenNavigationError web d b nav = (nav', ps, es)"
  shows "list_all (\<lambda>p. pr_confirm p \<and> pr_phase p = Await_tab) ps"
  using nav_error_cases [OF assms [symmetric]] after_error_confirms [OF sym] by auto

lemma show_screen_confirms:
  "show_screen p nav = (p', nav', es) \<Longrightarrow> pr_confirm p' = pr_confirm p \<and> pr_phase p' \<noteq> Await_recovery True"
  by (auto simp: show_screen_def finish_process_def Let_def split: if_splits)

lemma continue_confirms:
  assumes "continue_process web screenUrl a p nav = Some (p', nav', es)" "pr_confirm p"
  shows "pr_confirm p' \<and>
    (pr_phase p' = Await_recovery True \<or> (\<exists>i h e w. Redirect i h e w \<in> set es) \<longrightarrow>
      pr_phase p = Await_recovery True \<or> (\<exists>c. a = Confirmed c \<and> cf_blocked c))"
  using assms show_screen_confirms [of p nav p' nav' es]
  by (cases "pr_phase p"; cases a)
    (auto simp: after_tab_def after_confirm_def finish_process_def wait_in_def split: if_splits)

lemma confirmed_inv_start:
  assumes "confirmed_inv st" "list_all (\<lambda>p. pr_confirm p \<and> pr_phase p = Await_tab) ps"
  shows "confirmed_inv (st\<lparr>bs_nav := nav, bs_processes := bs_processes st @ ps\<rparr>)"
  using assms by (auto simp: confirmed_inv_def word_given_def nth_append list_all_length)

lemma confirmed_inv_continue:
  assumes "confirmed_inv st" "bs_step web screenUrl (Continue k a) st = Some st'"
  shows "confirmed_inv st'"
proof -
  from assms(2) obtain p nav es where k: "k < length (bs_processes st)"
    and c: "continue_process web screenUrl a (bs_processes st ! k) (bs_nav st) = Some (p, nav, es)"
    and st': "bs_processes st' = (bs_processes st)[k := p]" "bs_answers st' = bs_answers st @ [(k, a)]"
      "bs_effects st' = bs_effects st @ map (Pair k) es"
    by (auto simp del: continue_process.simps split: if_splits option.splits)
  let ?p = "bs_processes st ! k"
  have mono: "word_given st j \<Longrightarrow> word_given st' j" for j
    using st'(2) by (auto simp: word_given_def)
  have conf: "pr_confirm ?p" using assms(1) k by (simp add: confirmed_inv_def)
  note step = continue_confirms [OF c conf]
  have word: "word_given st' k" if "pr_phase ?p = Await_recovery True \<or> (\<exists>c. a = Confirmed c \<and> cf_blocked c)"
    using that assms(1) k st'(2) mono by (auto simp: confirmed_inv_def word_given_def)
  have "pr_confirm (bs_processes st' ! j) \<and>
      (pr_phase (bs_processes st' ! j) = Await_recovery True \<longrightarrow> word_given st' j)"
    if "j < length (bs_processes st')" for j
    using that assms(1) st'(1) k step word mono [of j] by (cases "j = k") (auto simp: confirmed_inv_def)
  moreover have "word_given st' j" if "(j, Redirect i h e w) \<in> set (bs_effects st')" for j i h e w
  proof -
    have "(j, Redirect i h e w) \<in> set (bs_effects st) \<or> (j = k \<and> Redirect i h e w \<in> set es)"
      using that st'(3) by auto
    then show ?thesis
    proof (elim disjE conjE)
      assume "(j, Redirect i h e w) \<in> set (bs_effects st)"
      then have "word_given st j" using assms(1) unfolding confirmed_inv_def by blast
      then show ?thesis by (rule mono)
    next
      assume "j = k" "Redirect i h e w \<in> set es"
      with step word show ?thesis by blast
    qed
  qed
  ultimately show ?thesis unfolding confirmed_inv_def by blast
qed

lemma confirmed_inv_frame:
  "confirmed_inv st \<Longrightarrow> bs_processes st' = bs_processes st \<Longrightarrow> bs_answers st' = bs_answers st \<Longrightarrow>
   bs_effects st' = bs_effects st \<Longrightarrow> confirmed_inv st'"
  by (simp add: confirmed_inv_def word_given_def)

lemma confirmed_inv_step:
  assumes "confirmed_inv st" "bs_step web screenUrl e st = Some st'"
  shows "confirmed_inv st'"
proof (cases e)
  case (Navigate d)
  with assms show ?thesis
    by (auto intro: confirmed_inv_start preflight_confirms split: prod.splits)
next
  case (Nav_error d b)
  with assms show ?thesis
    by (auto intro: confirmed_inv_start nav_error_confirms split: prod.splits)
next
  case (Continue k a)
  with assms show ?thesis using confirmed_inv_continue by blast
next
  case (Reconcile v tabs)
  with assms show ?thesis
    by (auto intro: confirmed_inv_frame split: prod.splits)
next
  case (Continue_rec k a)
  with assms show ?thesis
    by (auto intro: confirmed_inv_frame simp del: continue_reconciliation.simps split: prod.splits if_splits option.splits)
next
  case (Close_tab t)
  with assms show ?thesis by (auto intro: confirmed_inv_frame)
qed

lemma answers_step:
  "bs_step web screenUrl e st = Some st' \<Longrightarrow> x \<in> set (bs_answers st') \<Longrightarrow>
   x \<in> set (bs_answers st) \<or> (\<exists>k a. x = (k, a) \<and> e = Continue k a)"
  by (cases e)
    (auto simp del: continue_process.simps continue_reconciliation.simps split: prod.splits if_splits option.splits)

lemma confirmed_inv_run:
  "bs_run web screenUrl es st = Some st' \<Longrightarrow> confirmed_inv st \<Longrightarrow>
   confirmed_inv st' \<and> (\<forall>k a. (k, a) \<in> set (bs_answers st') \<longrightarrow> (k, a) \<in> set (bs_answers st) \<or> Continue k a \<in> set es)"
proof (induction es arbitrary: st)
  case (Cons e es)
  then obtain st1 where s: "bs_step web screenUrl e st = Some st1" "bs_run web screenUrl es st1 = Some st'"
    by (auto split: option.splits)
  from Cons.IH [OF s(2) confirmed_inv_step [OF Cons.prems(2) s(1)]] answers_step [OF s(1)]
  show ?case by fastforce
qed simp

text \<open>C12: the blocked page is never shown on an error alone.  Whenever the navigation controller
  redirects a tab, the same process had been told by the native host that the page is blocked.\<close>

theorem redirect_needs_word:
  assumes "bs_run web screenUrl es bs_initial = Some st" "(k, Redirect i h e w) \<in> set (bs_effects st)"
  shows "\<exists>c. Continue k (Confirmed c) \<in> set es \<and> cf_blocked c"
proof -
  have "confirmed_inv bs_initial" by (simp add: confirmed_inv_def bs_initial_def)
  from confirmed_inv_run [OF assms(1) this] assms(2) show ?thesis
    by (fastforce simp: confirmed_inv_def word_given_def bs_initial_def)
qed

section \<open>Runs\<close>

definition page :: "string \<Rightarrow> navigation_details" where
  "page url = \<lparr>nd_tabId = 1, nd_frameId = Some 0, nd_type = None, nd_url = url,
     nd_error = ''NS_ERROR_UNKNOWN_HOST'', nd_originUrl = None, nd_documentUrl = None\<rparr>"

definition blocked_word :: confirmation where
  "blocked_word = \<lparr>cf_blocked = True, cf_portalRecoveryEligible = None\<rparr>"

definition example_run :: "bs_event list" where
  "example_run =
     [Navigate (page ''https://a.com/''), Continue 0 (Tab_url None), Nav_error (page ''https://a.com/'') True,
      Continue 0 (Confirmed blocked_word), Continue 0 Redirect_done]"

lemma example_run_ends:
  "map_option (\<lambda>st. (map ni_generation (bs_shown st), map fst (bs_effects st))) (bs_run example_web ''ext'' example_run bs_initial) =
     Some ([1], [0, 0, 0])"
  by code_simp

lemma example_run_state: "\<exists>st. bs_run example_web ''ext'' example_run bs_initial = Some st"
  using example_run_ends by (cases "bs_run example_web ''ext'' example_run bs_initial") auto

lemma example_run_looks_up: "\<forall>k. Continue_rec k Lookup_failed \<notin> set example_run"
  by (simp add: example_run_def)

lemma navigation_redirected_once_witness:
  "\<exists>st. bs_run example_web ''ext'' example_run bs_initial = Some st \<and>
     distinct (map ni_generation (redirecting st @ bs_shown st))"
  using example_run_state navigation_redirected_once [OF _ example_run_looks_up] by blast

definition is_redirect :: "effect \<Rightarrow> bool" where
  "is_redirect e = (case e of Redirect _ _ _ _ \<Rightarrow> True | _ \<Rightarrow> False)"

lemma redirect_needs_word_witness:
  "\<exists>c. Continue 0 (Confirmed c) \<in> set example_run \<and> cf_blocked c"
proof -
  obtain st where st: "bs_run example_web ''ext'' example_run bs_initial = Some st" using example_run_state by blast
  have "map_option (\<lambda>st. list_ex (\<lambda>(k, e). k = 0 \<and> is_redirect e) (bs_effects st))
      (bs_run example_web ''ext'' example_run bs_initial) = Some True"
    by code_simp
  then obtain e where e: "(0, e) \<in> set (bs_effects st)" "is_redirect e"
    using st by (auto simp: list_ex_iff)
  then obtain i h t w where "e = Redirect i h t w" by (cases e) (auto simp: is_redirect_def)
  with e have "(0, Redirect i h t w) \<in> set (bs_effects st)" by simp
  with st show ?thesis by (rule redirect_needs_word)
qed

text \<open>
  The hypothesis on the look-ups is needed.  When a reconciliation fails to look up a tab it
  gives up a reservation it does not hold, so that the same navigation can be redirected by two
  processes at a time.
\<close>

definition lookup_failure_run :: "bs_event list" where
  "lookup_failure_run =
     [Navigate (page ''https://a.com/''),
      Reconcile ''v'' [\<lparr>ot_id = Some 1, ot_url = Some ''https://a.com/''\<rparr>],
      Continue_rec 0 (Checked \<lparr>ve_success = True, ve_results = [example_verdict]\<rparr>),
      Continue 0 (Tab_url None), Continue 0 (Confirmed blocked_word),
      Continue_rec 0 Lookup_failed,
      Nav_error (page ''https://a.com/'') True, Continue 1 (Tab_url None), Continue 1 (Confirmed blocked_word)]"

lemma lookup_failure_redirects_twice:
  "map_option (\<lambda>st. map ni_generation (redirecting st)) (bs_run example_web ''ext'' lookup_failure_run bs_initial) =
     Some [1, 1]"
  by code_simp

end
