(* ===== verification/Ip_Literals.thy ===== *)
theory Ip_Literals
  imports Url_Rules "HOL-Library.Word"
begin

text \<open>
  Addresses typed as numbers (\<open>firefox-extension/src/lib/background-ip-literal-rules.ts\<close>).  A
  page whose host is a public IP address skips the name service the policy is enforced in, so
  the extension stops it; private and link-local addresses stay reachable.  An octet or a
  16-bit group of an address is a natural number; the shifts and masks of the source never
  leave 32 bits.
\<close>

unbundle bit_operations_syntax

definition PUBLIC_IP_LITERAL_REASON :: string where
  "PUBLIC_IP_LITERAL_REASON = ''PUBLIC_IP_LITERAL_POLICY''"

definition octet_text :: "string \<Rightarrow> bool" where
  "octet_text s \<longleftrightarrow> list_all digit_char s \<and> 1 \<le> length s \<and> length s \<le> 3"

definition parseIpv4 :: "string \<Rightarrow> nat list option" where
  "parseIpv4 host =
     (let parts = split_on (CHR ''.'') host in
      if length parts = 4 \<and> list_all octet_text parts then
        (let octets = map dec_value parts in if list_all (\<lambda>octet. octet \<le> 255) octets then Some octets else None)
      else None)"

definition group_at :: "nat list \<Rightarrow> nat \<Rightarrow> nat" where
  "group_at gs i = (if i < length gs then gs ! i else 0)"

definition isNonPublicIpv4 :: "nat list \<Rightarrow> bool" where
  "isNonPublicIpv4 octets \<longleftrightarrow>
     (let a = group_at octets 0; b = group_at octets 1 in
      a = 0 \<or> a = 10 \<or> a = 127 \<or> (a = 100 \<and> b \<ge> 64 \<and> b \<le> 127) \<or> (a = 169 \<and> b = 254) \<or>
      (a = 172 \<and> b \<ge> 16 \<and> b \<le> 31) \<or> (a = 192 \<and> b = 168))"

text \<open>\<open>text.split('::')\<close>.\<close>

fun split_double_colon :: "string \<Rightarrow> string list" where
  "split_double_colon [] = [[]]"
| "split_double_colon [c] = [[c]]"
| "split_double_colon (c # d # s) =
     (if c = CHR '':'' \<and> d = CHR '':'' then [] # split_double_colon s
      else (c # hd (split_double_colon (d # s))) # tl (split_double_colon (d # s)))"

definition group_text :: "string \<Rightarrow> bool" where
  "group_text s \<longleftrightarrow> list_all (\<lambda>c. hex_digit c \<noteq> None) s \<and> 1 \<le> length s \<and> length s \<le> 4"

definition hex_value :: "string \<Rightarrow> nat" where
  "hex_value s = foldl (\<lambda>n c. 16 * n + (case hex_digit c of Some d \<Rightarrow> d | None \<Rightarrow> 0)) 0 s"

definition parseGroups :: "string \<Rightarrow> nat list option" where
  "parseGroups part =
     (if part = [] then Some []
      else let groups = split_on (CHR '':'') part in
        if list_all group_text groups then Some (map hex_value groups) else None)"

definition after_last :: "char \<Rightarrow> string \<Rightarrow> string" where
  "after_last c s = rev (takeWhile (\<lambda>x. x \<noteq> c) (rev s))"

definition upto_last :: "char \<Rightarrow> string \<Rightarrow> string" where
  "upto_last c s = take (length s - length (after_last c s)) s"

definition ipv6_groups :: "string \<Rightarrow> nat list \<Rightarrow> nat list option" where
  "ipv6_groups text tail =
     (let halves = split_double_colon text in
      if length halves > 2 then None
      else case (parseGroups (hd halves), if length halves = 2 then parseGroups (halves ! 1) else Some []) of
        (Some head, Some rest) \<Rightarrow>
          (let explicit = length head + length rest + length tail in
           if length halves = 1 then (if explicit = 8 then Some (head @ tail) else None)
           else if explicit > 7 then None
           else Some (head @ replicate (8 - explicit) 0 @ rest @ tail))
      | _ \<Rightarrow> None)"

definition parseIpv6 :: "string \<Rightarrow> nat list option" where
  "parseIpv6 host =
     (if CHR '':'' \<notin> set host then None
      else case parseIpv4 (after_last (CHR '':'') host) of
          Some embedded \<Rightarrow>
            (let text = upto_last (CHR '':'') host in
             ipv6_groups (if ends_with text ''::'' then text else butlast text)
               [push_bit 8 (group_at embedded 0) OR group_at embedded 1,
                push_bit 8 (group_at embedded 2) OR group_at embedded 3])
        | None \<Rightarrow> if CHR ''.'' \<in> set host then None else ipv6_groups host [])"

definition isNonPublicIpv6 :: "nat list \<Rightarrow> bool" where
  "isNonPublicIpv6 groups \<longleftrightarrow>
     (let first = group_at groups 0 in
      if list_all (\<lambda>g. g = 0) (take 5 groups) \<and> group_at groups 5 = 0xffff then
        (let high = group_at groups 6; low = group_at groups 7
         in isNonPublicIpv4 [drop_bit 8 high, high AND 0xff, drop_bit 8 low, low AND 0xff])
      else if list_all (\<lambda>g. g = 0) (take 7 groups) \<and> group_at groups 7 \<le> 1 then True
      else first AND 0xfe00 = 0xfc00 \<or> first AND 0xffc0 = 0xfe80)"

definition unbracket :: "string \<Rightarrow> string" where
  "unbracket hostname =
     (if 2 \<le> length hostname \<and> starts_with hostname ''['' \<and> ends_with hostname '']'' \<and>
         list_all line_char (butlast (tl hostname))
      then butlast (tl hostname) else hostname)"

definition isPublicIpLiteralHost :: "string \<Rightarrow> bool" where
  "isPublicIpLiteralHost hostname =
     (let host = to_lower (unbracket hostname) in
      case parseIpv4 host of
        Some ipv4 \<Rightarrow> \<not> isNonPublicIpv4 ipv4
      | None \<Rightarrow> (case parseIpv6 host of Some ipv6 \<Rightarrow> \<not> isNonPublicIpv6 ipv6 | None \<Rightarrow> False))"

definition evaluatePublicIpLiteral ::
  "web_api \<Rightarrow> evaluation_details \<Rightarrow> string option \<Rightarrow> evaluation_result option" where
  "evaluatePublicIpLiteral web details extensionOrigin =
     (if isExtensionUrl (ed_url details) then None
      else case nonempty_string (extractHostname web (ed_url details)) of
          None \<Rightarrow> None
        | Some hostname \<Rightarrow>
            if \<not> isPublicIpLiteralHost hostname then None
            else let reason = PUBLIC_IP_LITERAL_REASON @ '':'' @ hostname in
              Some (if ed_type details = Some ''main_frame''
                    then blocked_outcome web extensionOrigin details hostname reason
                    else cancel_outcome reason))"

section \<open>Texts of numbers\<close>

lemma dec_value_snoc: "dec_value (s @ [c]) = 10 * dec_value s + (of_char c - 48)"
  by (simp add: dec_value_def)

lemma dec_value_single: "dec_value [c] = of_char c - 48"
  by (simp add: dec_value_def)

lemma dec_value_nat_str [simp]: "dec_value (nat_str n) = n"
proof (induction n rule: nat_str.induct)
  case (1 n)
  show ?case
    using 1 by (subst nat_str.simps) (auto simp: dec_value_snoc dec_value_single)
qed

lemma digits_nat_str: "list_all digit_char (nat_str n)"
proof (induction n rule: nat_str.induct)
  case (1 n)
  then show ?case by (subst nat_str.simps) auto
qed

lemma length_nat_str_octet: "n < 256 \<Longrightarrow> 1 \<le> length (nat_str n) \<and> length (nat_str n) \<le> 3"
  by (simp add: nat_str.simps [of n] nat_str.simps [of "n div 10"] nat_str.simps [of "n div 10 div 10"])

definition dotted :: "nat list \<Rightarrow> string" where
  "dotted octets = join_with ''.'' (map nat_str octets)"

lemma dot_not_digit: "list_all digit_char s \<Longrightarrow> CHR ''.'' \<notin> set s"
  by (auto simp: list_all_iff digit_char_def)

lemma parseIpv4_dotted:
  "length octets = 4 \<Longrightarrow> list_all (\<lambda>x. x < 256) octets \<Longrightarrow> parseIpv4 (dotted octets) = Some octets"
proof -
  assume o: "length octets = 4" "list_all (\<lambda>x. x < 256) octets"
  then have "split_on (CHR ''.'') (dotted octets) = map nat_str octets"
    unfolding dotted_def using dot_not_digit [OF digits_nat_str]
    by (intro split_on_join) auto
  moreover have "list_all octet_text (map nat_str octets)"
    using o(2) length_nat_str_octet digits_nat_str by (auto simp: list_all_iff octet_text_def)
  moreover have "map (dec_value \<circ> nat_str) octets = octets" by (simp add: map_idI)
  ultimately show ?thesis
    using o by (auto simp: parseIpv4_def Let_def list_all_iff)
qed

section \<open>The private address blocks\<close>

definition ipv4_word :: "nat list \<Rightarrow> 32 word" where
  "ipv4_word octets = foldl (\<lambda>w x. push_bit 8 w + of_nat x) 0 octets"

definition in_block :: "nat list \<times> nat \<Rightarrow> 32 word \<Rightarrow> bool" where
  "in_block block w \<longleftrightarrow> drop_bit (32 - snd block) w = drop_bit (32 - snd block) (ipv4_word (fst block))"

definition private_blocks :: "(nat list \<times> nat) list" where
  "private_blocks =
     [([0, 0, 0, 0], 8), ([10, 0, 0, 0], 8), ([127, 0, 0, 0], 8), ([100, 64, 0, 0], 10),
      ([169, 254, 0, 0], 16), ([172, 16, 0, 0], 12), ([192, 168, 0, 0], 16)]"

lemma unat_ipv4_word:
  "a < 256 \<Longrightarrow> b < 256 \<Longrightarrow> c < 256 \<Longrightarrow> d < 256 \<Longrightarrow>
   unat (ipv4_word [a, b, c, d]) = 16777216 * a + 65536 * b + 256 * c + d"
proof -
  assume l: "a < 256" "b < 256" "c < 256" "d < 256"
  have "ipv4_word [a, b, c, d] = of_nat (16777216 * a + 65536 * b + 256 * c + d)"
    by (simp add: ipv4_word_def push_bit_eq_mult algebra_simps)
  moreover have "unat (of_nat k :: 32 word) = k" if "k < 2 ^ 32" for k
    using that by (simp add: unat_of_nat)
  moreover have "16777216 * a + 65536 * b + 256 * c + d < 2 ^ 32" using l by simp
  ultimately show ?thesis by (simp only:)
qed

lemma in_block_div:
  "in_block block w \<longleftrightarrow>
   unat w div 2 ^ (32 - snd block) = unat (ipv4_word (fst block)) div 2 ^ (32 - snd block)"
  unfolding in_block_def word_unat_eq_iff unat_drop_bit_eq by (simp only: drop_bit_eq_div)

lemma div_block: "x < k \<Longrightarrow> (k * q + x) div k = (q :: nat)"
  by simp

lemma digits_unique: "x < k \<Longrightarrow> k * q + x = n \<longleftrightarrow> q = n div k \<and> x = n mod (k :: nat)"
  by (auto simp: div_block)

lemma isNonPublicIpv4_blocks:
  assumes "a < 256" "b < 256" "c < 256" "d < 256"
  shows "isNonPublicIpv4 [a, b, c, d] \<longleftrightarrow> (\<exists>block \<in> set private_blocks. in_block block (ipv4_word [a, b, c, d]))"
proof -
  define n where "n = 16777216 * a + 65536 * b + 256 * c + d"
  have n: "unat (ipv4_word [a, b, c, d]) = n" using unat_ipv4_word assms by (simp add: n_def)
  have d8: "n div 16777216 = a" and d16: "n div 65536 = 256 * a + b"
    using div_block [of "65536 * b + 256 * c + d" 16777216 a] div_block [of "256 * c + d" 65536 "256 * a + b"]
      assms by (simp_all add: n_def algebra_simps)
  define q r s t where "q = b div 64" and "r = b mod 64" and "s = b div 16" and "t = b mod 16"
  have qr: "b = 64 * q + r" "r < 64" and st: "b = 16 * s + t" "t < 16"
    by (simp_all add: q_def r_def s_def t_def)
  have small: "65536 * r + 256 * c + d < 4194304" "65536 * t + 256 * c + d < 1048576"
    using assms qr(2) st(2) by linarith+
  have "n = 4194304 * (4 * a + q) + (65536 * r + 256 * c + d)"
    unfolding n_def qr(1) by (simp add: algebra_simps)
  moreover have "n = 1048576 * (16 * a + s) + (65536 * t + 256 * c + d)"
    unfolding n_def st(1) by (simp add: algebra_simps)
  ultimately have "n div 4194304 = 4 * a + q" "n div 1048576 = 16 * a + s"
    using div_block small by metis+
  then have d10: "n div 4194304 = 4 * a + b div 64" and d12: "n div 1048576 = 16 * a + b div 16"
    by (simp_all add: q_def s_def)
  have "q < 4" "s < 16" using assms(2) qr(1) st(1) by linarith+
  then have "4 * a + q = 401 \<longleftrightarrow> a = 100 \<and> q = 1" "16 * a + s = 2753 \<longleftrightarrow> a = 172 \<and> s = 1"
    by (simp_all add: digits_unique)
  moreover have "q = 1 \<longleftrightarrow> 64 \<le> b \<and> b \<le> 127" "s = 1 \<longleftrightarrow> 16 \<le> b \<and> b \<le> 31"
    using qr st \<open>q < 4\<close> \<open>s < 16\<close> by linarith+
  moreover have "256 * a + b = 43518 \<longleftrightarrow> a = 169 \<and> b = 254" "256 * a + b = 49320 \<longleftrightarrow> a = 192 \<and> b = 168"
    using assms(2) by (simp_all add: digits_unique)
  ultimately have "4 * a + b div 64 = 401 \<longleftrightarrow> a = 100 \<and> 64 \<le> b \<and> b \<le> 127"
    "16 * a + b div 16 = 2753 \<longleftrightarrow> a = 172 \<and> 16 \<le> b \<and> b \<le> 31"
    "256 * a + b = 43518 \<longleftrightarrow> a = 169 \<and> b = 254" "256 * a + b = 49320 \<longleftrightarrow> a = 192 \<and> b = 168"
    by (simp_all only: q_def [symmetric] s_def [symmetric])
  then show ?thesis
    by (simp add: private_blocks_def in_block_div n unat_ipv4_word d8 d16 d10 d12 isNonPublicIpv4_def group_at_def)
qed

definition address_char :: "char \<Rightarrow> bool" where
  "address_char c \<longleftrightarrow> digit_char c \<or> c = CHR ''.'' \<or> c = CHR '':'' \<or> (97 \<le> (of_char c :: nat) \<and> (of_char c :: nat) \<le> 102)"

lemma address_char_lower: "list_all address_char s \<Longrightarrow> to_lower s = s"
proof (induction s)
  case (Cons c s)
  then have "\<not> upper_char c"
    by (auto simp: address_char_def digit_char_def upper_char_def Let_def)
  with Cons show ?case by (simp add: to_lower_char_fixed)
qed simp

lemma unbracket_plain: "list_all address_char s \<Longrightarrow> unbracket s = s"
  by (cases s) (auto simp: unbracket_def starts_with_def address_char_def digit_char_def)

lemma unbracket_bracketed:
  assumes "list_all address_char s"
  shows "unbracket (''['' @ s @ '']'') = s"
proof -
  have "list_all line_char s"
    using assms by (auto simp: list_all_iff address_char_def line_char_def digit_char_def)
  then show ?thesis by (simp add: unbracket_def starts_with_def ends_with_def suffix_def butlast_append)
qed

lemma dotted_chars: "list_all address_char (dotted octets)"
proof -
  have "c \<in> set (dotted octets) \<Longrightarrow> address_char c" for c
  proof -
    assume "c \<in> set (dotted octets)"
    then have "c = CHR ''.'' \<or> (\<exists>n. c \<in> set (nat_str n))"
      using set_join_with [of "''.''" "map nat_str octets"] by (auto simp: dotted_def)
    then show "address_char c"
      using digits_nat_str by (auto simp: address_char_def list_all_iff)
  qed
  then show ?thesis by (simp add: list_all_iff)
qed

lemma public_dotted:
  "length octets = 4 \<Longrightarrow> list_all (\<lambda>x. x < 256) octets \<Longrightarrow>
   isPublicIpLiteralHost (dotted octets) \<longleftrightarrow> \<not> isNonPublicIpv4 octets"
  by (simp add: isPublicIpLiteralHost_def unbracket_plain address_char_lower dotted_chars parseIpv4_dotted)

text \<open>Which IPv4 addresses are stopped.  An address written in dotted form is public for the
  extension exactly when its 32-bit value lies in none of the private, loopback, shared and
  link-local blocks.\<close>

theorem public_ipv4_exact:
  assumes "length octets = 4" "list_all (\<lambda>x. x < 256) octets"
  shows "isPublicIpLiteralHost (dotted octets) \<longleftrightarrow>
    (\<forall>block \<in> set private_blocks. \<not> in_block block (ipv4_word octets))"
proof -
  obtain a b c d where "octets = [a, b, c, d]"
    using assms(1) by (auto simp: numeral_eq_Suc length_Suc_conv)
  with assms show ?thesis
    by (simp add: public_dotted isNonPublicIpv4_blocks)
qed

lemma public_ipv4_exact_witness:
  "isPublicIpLiteralHost (dotted [172, 32, 0, 1]) \<longleftrightarrow>
    (\<forall>block \<in> set private_blocks. \<not> in_block block (ipv4_word [172, 32, 0, 1]))"
  by (rule public_ipv4_exact) simp_all

section \<open>IPv6\<close>

lemma hex_digit_bound: "hex_digit c = Some d \<Longrightarrow> d < 16"
  by (auto simp: hex_digit_def Let_def split: if_splits)

lemma hex_value_snoc: "hex_value (s @ [c]) = 16 * hex_value s + (case hex_digit c of Some d \<Rightarrow> d | None \<Rightarrow> 0)"
  by (simp add: hex_value_def)

lemma hex_value_bound: "list_all (\<lambda>c. hex_digit c \<noteq> None) s \<Longrightarrow> hex_value s < 16 ^ length s"
proof (induction s rule: rev_induct)
  case (snoc c s)
  then obtain d where "hex_digit c = Some d" "hex_value s < 16 ^ length s" by auto
  with hex_digit_bound [of c d] show ?case by (simp add: hex_value_snoc)
qed (simp add: hex_value_def)

lemma group_value_bound:
  assumes "group_text s"
  shows "hex_value s < 65536"
proof -
  have "hex_value s < 16 ^ length s" "length s \<le> 4"
    using assms hex_value_bound by (auto simp: group_text_def)
  moreover from this(2) have "(16 :: nat) ^ length s \<le> 16 ^ 4" by (rule power_increasing) simp
  ultimately show ?thesis by simp
qed

lemma parseGroups_bound: "parseGroups part = Some gs \<Longrightarrow> list_all (\<lambda>g. g < 65536) gs"
  by (auto simp: parseGroups_def Let_def list_all_iff group_value_bound split: if_splits)

lemma or_octets: "b < 256 \<Longrightarrow> push_bit 8 a OR b = 256 * a + (b :: nat)"
proof -
  assume "b < 256"
  then have b: "take_bit 8 b = b" by (simp add: take_bit_eq_mod)
  have "push_bit 8 a AND take_bit 8 b = 0" by (simp add: bit_eq_iff bit_simps)
  then have "push_bit 8 a OR b = push_bit 8 a + b" by (simp add: b disjunctive_add_eq_or)
  then show ?thesis by (simp add: push_bit_eq_mult)
qed

lemma low_octet: "b < 256 \<Longrightarrow> (256 * a + b) AND 0xff = (b :: nat)"
proof -
  assume "b < 256"
  then have "take_bit 8 (256 * a + b) = b" by (simp add: take_bit_eq_mod)
  moreover have "mask 8 = (0xff :: nat)" by (simp add: mask_eq_exp_minus_1)
  ultimately show ?thesis by (metis take_bit_eq_mask)
qed

lemma high_octet: "b < 256 \<Longrightarrow> drop_bit 8 (256 * a + b) = (a :: nat)"
  by (simp add: drop_bit_eq_div)

lemma parseIpv4_bound: "parseIpv4 host = Some octets \<Longrightarrow> length octets = 4 \<and> list_all (\<lambda>x. x < 256) octets"
  by (auto simp: parseIpv4_def Let_def list_all_iff less_Suc_eq_le [of _ 255, simplified] split: if_splits)

lemma group_at_bound: "list_all (\<lambda>x. x < k) gs \<Longrightarrow> 0 < k \<Longrightarrow> group_at gs i < k"
  by (simp add: group_at_def list_all_length)

lemma ipv6_groups_bound:
  "ipv6_groups body tail = Some gs \<Longrightarrow> list_all (\<lambda>g. g < 65536) tail \<Longrightarrow>
   length gs = 8 \<and> list_all (\<lambda>g. g < 65536) gs"
  by (auto simp: ipv6_groups_def Let_def list_all_iff split: option.splits if_splits
      dest!: parseGroups_bound)

text \<open>An address is 128 bits.  Whatever text is read as an IPv6 address, with an embedded
  IPv4 address or not, gives eight groups of 16 bits.\<close>

theorem ipv6_eight_groups:
  assumes "parseIpv6 host = Some groups"
  shows "length groups = 8 \<and> (\<forall>g \<in> set groups. g < 65536)"
proof (cases "parseIpv4 (after_last (CHR '':'') host)")
  case None
  then have "ipv6_groups host [] = Some groups"
    using assms by (auto simp: parseIpv6_def split: if_splits)
  from ipv6_groups_bound [OF this] show ?thesis by (simp add: list_all_iff)
next
  case (Some octets)
  let ?pair = "\<lambda>i j. push_bit 8 (group_at octets i) OR group_at octets j"
  from Some have "group_at octets i < 256" for i
    using parseIpv4_bound group_at_bound by fastforce
  then have "?pair i j < 65536" for i j
  proof -
    have "?pair i j = 256 * group_at octets i + group_at octets j"
      using or_octets \<open>group_at octets j < 256\<close> .
    with \<open>group_at octets i < 256\<close> \<open>group_at octets j < 256\<close> show ?thesis by linarith
  qed
  moreover obtain body where "ipv6_groups body [?pair 0 1, ?pair 2 3] = Some groups"
    using assms Some by (auto simp: parseIpv6_def Let_def split: if_splits)
  ultimately show ?thesis
    using ipv6_groups_bound [of body "[?pair 0 1, ?pair 2 3]" groups] by (simp add: list_all_iff)
qed

lemma ipv6_eight_groups_witness:
  "length [0, 0, 0, 0, 0, 0, 0, 1 :: nat] = 8 \<and> (\<forall>g \<in> set [0, 0, 0, 0, 0, 0, 0, 1 :: nat]. g < 65536)"
proof -
  have "parseIpv6 ''::1'' = Some [0, 0, 0, 0, 0, 0, 0, 1]" by code_simp
  then show ?thesis by (rule ipv6_eight_groups)
qed

section \<open>Public addresses\<close>

text \<open>
  What the comments of \<open>public-ip-literal.ts\<close> call a public address, in terms of the address
  blocks: an IPv4 address in none of the private blocks, or an IPv6 address that maps none of
  those, is neither the unspecified nor the loopback address, and lies neither in
  \<open>fc00::/7\<close> nor in \<open>fe80::/10\<close>.
\<close>

definition private_ipv4 :: "nat list \<Rightarrow> bool" where
  "private_ipv4 octets \<longleftrightarrow> (\<exists>block \<in> set private_blocks. in_block block (ipv4_word octets))"

definition private_ipv6 :: "nat list \<Rightarrow> bool" where
  "private_ipv6 groups \<longleftrightarrow>
     (\<exists>high low. groups = [0, 0, 0, 0, 0, 0xffff, high, low] \<and>
        private_ipv4 [high div 256, high mod 256, low div 256, low mod 256]) \<or>
     (\<exists>last_group. groups = [0, 0, 0, 0, 0, 0, 0, last_group] \<and> last_group \<le> 1) \<or>
     (0xfc00 \<le> hd groups \<and> hd groups \<le> 0xfdff) \<or> (0xfe80 \<le> hd groups \<and> hd groups \<le> 0xfebf)"

definition public_address :: "string \<Rightarrow> bool" where
  "public_address hostname \<longleftrightarrow>
     (let host = to_lower (unbracket hostname) in
      (\<exists>octets. parseIpv4 host = Some octets \<and> \<not> private_ipv4 octets) \<or>
      (\<exists>groups. parseIpv4 host = None \<and> parseIpv6 host = Some groups \<and> \<not> private_ipv6 groups))"

lemma and_high_bits: "x AND push_bit n k = push_bit n (drop_bit n x AND (k :: nat))"
  by (rule bit_eqI) (auto simp: bit_simps)

lemma and_prefix:
  assumes "x < 2 ^ (n + m)"
  shows "x AND push_bit n (mask m) = 2 ^ n * (x div 2 ^ n :: nat)"
proof -
  have "x div 2 ^ n < 2 ^ m" using assms by (simp add: less_mult_imp_div_less power_add mult.commute)
  then have "take_bit m (drop_bit n x) = x div 2 ^ n"
    by (simp add: drop_bit_eq_div take_bit_nat_eq_self)
  then have "drop_bit n x AND mask m = x div 2 ^ n" by (simp only: take_bit_eq_mask)
  then have "x AND push_bit n (mask m) = push_bit n (x div 2 ^ n)" by (simp only: and_high_bits)
  then show ?thesis by (simp add: push_bit_eq_mult)
qed

lemma and_fe00: "x < 65536 \<Longrightarrow> x AND 0xfe00 = (0xfc00 :: nat) \<longleftrightarrow> 0xfc00 \<le> x \<and> x \<le> 0xfdff"
proof -
  assume "x < 65536"
  then have "x AND push_bit 9 (mask 7) = 512 * (x div 512)" using and_prefix [of x 9 7] by simp
  moreover have "push_bit 9 (mask 7) = (0xfe00 :: nat)" by (simp add: mask_eq_exp_minus_1 push_bit_eq_mult)
  ultimately show ?thesis by simp linarith
qed

lemma and_ffc0: "x < 65536 \<Longrightarrow> x AND 0xffc0 = (0xfe80 :: nat) \<longleftrightarrow> 0xfe80 \<le> x \<and> x \<le> 0xfebf"
proof -
  assume "x < 65536"
  then have "x AND push_bit 6 (mask 10) = 64 * (x div 64)" using and_prefix [of x 6 10] by simp
  moreover have "push_bit 6 (mask 10) = (0xffc0 :: nat)" by (simp add: mask_eq_exp_minus_1 push_bit_eq_mult)
  ultimately show ?thesis by simp linarith
qed

lemma and_ff: "x AND 0xff = x mod (256 :: nat)"
proof -
  have "mask 8 = (0xff :: nat)" by (simp add: mask_eq_exp_minus_1)
  then show ?thesis using take_bit_eq_mask [of 8 x] by (simp add: take_bit_eq_mod)
qed

lemma isNonPublicIpv4_private:
  assumes "length octets = 4" "list_all (\<lambda>x. x < 256) octets"
  shows "isNonPublicIpv4 octets \<longleftrightarrow> private_ipv4 octets"
proof -
  obtain a b c d where "octets = [a, b, c, d]"
    using assms(1) by (auto simp: numeral_eq_Suc length_Suc_conv)
  with assms(2) show ?thesis by (simp add: private_ipv4_def isNonPublicIpv4_blocks)
qed

lemma isNonPublicIpv6_private:
  assumes "length groups = 8" "\<forall>g \<in> set groups. g < 65536"
  shows "isNonPublicIpv6 groups \<longleftrightarrow> private_ipv6 groups"
proof -
  obtain a b c d e f g h where l: "groups = [a, b, c, d, e, f, g, h]"
    using assms(1) by (auto simp: numeral_eq_Suc length_Suc_conv)
  then have bounds: "a < 65536" "g < 65536" "h < 65536" using assms(2) by auto
  have mapped: "isNonPublicIpv4 [g div 256, g mod 256, h div 256, h mod 256] \<longleftrightarrow>
      private_ipv4 [g div 256, g mod 256, h div 256, h mod 256]"
    using bounds by (intro isNonPublicIpv4_private) auto
  have "isNonPublicIpv6 groups \<longleftrightarrow>
      (if [a, b, c, d, e, f] = [0, 0, 0, 0, 0, 0xffff] then private_ipv4 [g div 256, g mod 256, h div 256, h mod 256]
       else [a, b, c, d, e, f, g] = [0, 0, 0, 0, 0, 0, 0] \<and> h \<le> 1 \<or>
         (0xfc00 \<le> a \<and> a \<le> 0xfdff) \<or> (0xfe80 \<le> a \<and> a \<le> 0xfebf))"
    by (simp add: l isNonPublicIpv6_def group_at_def Let_def and_fe00 and_ffc0 and_ff bounds drop_bit_eq_div mapped
        take_Cons' conj_assoc)
  also have "\<dots> \<longleftrightarrow> private_ipv6 groups"
    by (auto simp: l private_ipv6_def)
  finally show ?thesis .
qed

lemma isPublicIpLiteralHost_iff: "isPublicIpLiteralHost hostname \<longleftrightarrow> public_address hostname"
  by (auto simp: isPublicIpLiteralHost_def public_address_def Let_def split: option.splits
      dest!: parseIpv4_bound ipv6_eight_groups simp: isNonPublicIpv4_private isNonPublicIpv6_private)

section \<open>Mapped addresses\<close>

definition hex_digit_of :: "nat \<Rightarrow> char" where
  "hex_digit_of d = (if d < 10 then char_of (48 + d) else char_of (87 + d))"

fun hex_str :: "nat \<Rightarrow> string" where
  "hex_str n = (if n < 16 then [hex_digit_of n] else hex_str (n div 16) @ [hex_digit_of (n mod 16)])"

declare hex_str.simps [simp del]

lemma hex_digit_hex_digit_of: "d < 16 \<Longrightarrow> hex_digit (hex_digit_of d) = Some d"
  by (simp add: hex_digit_def hex_digit_of_def Let_def)

lemma hex_value_hex_str: "hex_value (hex_str n) = n \<and> list_all (\<lambda>c. hex_digit c \<noteq> None) (hex_str n)"
proof (induction n rule: hex_str.induct)
  case (1 n)
  show ?case
  proof (cases "n < 16")
    case True
    then show ?thesis by (simp add: hex_str.simps [of n] hex_value_def hex_digit_hex_digit_of)
  next
    case False
    with 1 show ?thesis
      by (simp add: hex_str.simps [of n] hex_value_snoc hex_digit_hex_digit_of)
  qed
qed

lemma length_hex_str: "n < 65536 \<Longrightarrow> 1 \<le> length (hex_str n) \<and> length (hex_str n) \<le> 4"
  by (simp add: hex_str.simps [of n] hex_str.simps [of "n div 16"] hex_str.simps [of "n div 16 div 16"]
      hex_str.simps [of "n div 16 div 16 div 16"])

lemma hex_char_plain: "hex_digit c \<noteq> None \<Longrightarrow> c \<noteq> CHR '':'' \<and> c \<noteq> CHR ''.'' \<and> c \<noteq> CHR '']''"
  by (auto simp: hex_digit_def)

lemma hex_digit_of_address: "d < 16 \<Longrightarrow> address_char (hex_digit_of d)"
  by (cases "d < 10") (auto simp: hex_digit_of_def address_char_def digit_char_def)

lemma hex_str_address: "list_all address_char (hex_str n)"
proof (induction n rule: hex_str.induct)
  case (1 n)
  then show ?case
    by (cases "n < 16") (simp_all add: hex_str.simps [of n] hex_digit_of_address)
qed

lemma hex_str_no_colon: "CHR '':'' \<notin> set (hex_str n)" "CHR ''.'' \<notin> set (hex_str n)"
  using hex_value_hex_str [of n] hex_char_plain by (fastforce simp: list_all_iff)+

lemma group_text_hex_str: "n < 65536 \<Longrightarrow> group_text (hex_str n)"
  using hex_value_hex_str length_hex_str by (simp add: group_text_def)

lemma split_double_literal:
  "CHR '':'' \<notin> set p \<Longrightarrow>
   split_double_colon (p @ s) = (p @ hd (split_double_colon s)) # tl (split_double_colon s)"
proof (induction p)
  case Nil
  have "split_double_colon s \<noteq> []" by (induction s rule: split_double_colon.induct) auto
  then show ?case by simp
next
  case (Cons c p)
  then show ?case by (cases "p @ s") auto
qed

lemma split_double_single:
  "d \<noteq> CHR '':'' \<Longrightarrow> split_double_colon (CHR '':'' # d # s) =
     (CHR '':'' # hd (split_double_colon (d # s))) # tl (split_double_colon (d # s))"
  by simp

definition mapped_text :: "nat \<Rightarrow> nat \<Rightarrow> string" where
  "mapped_text high low = ''::ffff:'' @ hex_str high @ '':'' @ hex_str low"

lemma parse_mapped:
  assumes "high < 65536" "low < 65536"
  shows "parseIpv6 (mapped_text high low) = Some [0, 0, 0, 0, 0, 0xffff, high, low]"
proof -
  obtain c u where high: "hex_str high = c # u" using length_hex_str [OF assms(1)] by (cases "hex_str high") auto
  obtain d v where low: "hex_str low = d # v" using length_hex_str [OF assms(2)] by (cases "hex_str low") auto
  have cd: "c \<noteq> CHR '':''" "d \<noteq> CHR '':''"
    using hex_str_no_colon(1) [of high] hex_str_no_colon(1) [of low] high low by auto
  have dot: "CHR ''.'' \<notin> set (mapped_text high low)"
    using hex_str_no_colon(2) by (simp add: mapped_text_def)
  have "after_last (CHR '':'') (p @ CHR '':'' # hex_str low) = hex_str low" for p
  proof -
    have "takeWhile (\<lambda>x. x \<noteq> CHR '':'') (rev (hex_str low) @ CHR '':'' # rev p) = rev (hex_str low)"
      using hex_str_no_colon(1) by (subst takeWhile_append2) auto
    then show ?thesis by (simp add: after_last_def)
  qed
  from this [of "''::ffff:'' @ hex_str high"]
  have last: "after_last (CHR '':'') (mapped_text high low) = hex_str low"
    by (simp add: mapped_text_def)
  have "split_on (CHR ''.'') (hex_str low) = [hex_str low]"
    using hex_str_no_colon(2) by (rule split_on_no)
  then have "parseIpv4 (hex_str low) = None" by (simp add: parseIpv4_def)
  moreover have single: "split_double_colon (hex_str n) = [hex_str n]" for n
    using split_double_literal [OF hex_str_no_colon(1), of n "[]"] by simp
  have "split_double_colon (CHR '':'' # hex_str low) = [CHR '':'' # hex_str low]"
    using split_double_single [OF cd(2), of v] single [of low] low by simp
  then have "split_double_colon (hex_str high @ CHR '':'' # hex_str low) = [hex_str high @ CHR '':'' # hex_str low]"
    using split_double_literal [OF hex_str_no_colon(1), of high] by simp
  then have "split_double_colon (CHR '':'' # hex_str high @ CHR '':'' # hex_str low) =
      [CHR '':'' # hex_str high @ CHR '':'' # hex_str low]"
    using split_double_single [OF cd(1), of "u @ CHR '':'' # hex_str low"] high by simp
  then have "split_double_colon (mapped_text high low) = [[], ''ffff:'' @ hex_str high @ '':'' @ hex_str low]"
    using split_double_literal [of "''ffff''" "CHR '':'' # hex_str high @ CHR '':'' # hex_str low"]
    by (simp add: mapped_text_def)
  moreover have "split_on (CHR '':'') (''ffff:'' @ hex_str high @ '':'' @ hex_str low) =
      [''ffff'', hex_str high, hex_str low]"
    using split_on_append_sep [OF hex_str_no_colon(1), of high "hex_str low"] split_on_no [OF hex_str_no_colon(1), of low]
    by simp
  moreover have "group_text ''ffff''" "hex_value ''ffff'' = 0xffff"
    by (simp_all add: group_text_def hex_value_def hex_digit_def)
  moreover have "parseGroups [] = Some []" "replicate 5 0 = [0, 0, 0, 0, 0 :: nat]"
    by (simp_all add: parseGroups_def eval_nat_numeral)
  ultimately have "ipv6_groups (mapped_text high low) [] = Some [0, 0, 0, 0, 0, 0xffff, high, low]"
    using assms
    by (simp add: ipv6_groups_def parseGroups_def group_text_hex_str hex_value_hex_str)
  then show ?thesis
    using dot last \<open>parseIpv4 (hex_str low) = None\<close>
    by (simp add: parseIpv6_def) (simp add: mapped_text_def)
qed

text \<open>Writing an IPv4 address as a mapped IPv6 address does not evade the check.  The mapped
  literal, in the form a browser gives it, is public exactly when the dotted address is.\<close>

theorem mapped_address_same:
  assumes "a < 256" "b < 256" "c < 256" "d < 256"
  shows "isPublicIpLiteralHost (''['' @ mapped_text (256 * a + b) (256 * c + d) @ '']'') =
    isPublicIpLiteralHost (dotted [a, b, c, d])"
proof -
  let ?t = "mapped_text (256 * a + b) (256 * c + d)"
  have "256 * a + b < 65536" "256 * c + d < 65536" using assms by linarith+
  note p = parse_mapped [OF this]
  have chars: "list_all address_char ?t"
    using hex_str_address by (simp add: mapped_text_def address_char_def)
  have "\<not> digit_char (CHR '':'')" by (simp add: digit_char_def)
  moreover have "CHR '':'' \<in> set ?t" by (simp add: mapped_text_def)
  ultimately have "parseIpv4 ?t = None"
    using join_split_on [of "CHR ''.''" ?t] set_join_with [of "''.''" "split_on (CHR ''.'') ?t"]
    by (force simp: parseIpv4_def octet_text_def list_all_iff Let_def)
  moreover have "to_lower (unbracket (''['' @ ?t @ '']'')) = ?t"
    by (simp only: unbracket_bracketed [OF chars] address_char_lower [OF chars])
  ultimately have "isPublicIpLiteralHost (''['' @ ?t @ '']'') \<longleftrightarrow>
      \<not> isNonPublicIpv6 [0, 0, 0, 0, 0, 0xffff, 256 * a + b, 256 * c + d]"
    unfolding isPublicIpLiteralHost_def using p by (simp only: Let_def option.case)
  also have "isNonPublicIpv6 [0, 0, 0, 0, 0, 0xffff, 256 * a + b, 256 * c + d] \<longleftrightarrow> isNonPublicIpv4 [a, b, c, d]"
    using assms by (simp add: isNonPublicIpv6_def group_at_def high_octet low_octet isNonPublicIpv4_def)
  finally show ?thesis using assms by (simp add: public_dotted)
qed

lemma mapped_address_same_witness:
  "isPublicIpLiteralHost (''['' @ mapped_text (256 * 8 + 8) (256 * 4 + 4) @ '']'') =
    isPublicIpLiteralHost (dotted [8, 8, 4, 4])"
  by (rule mapped_address_same) simp_all

end
