(* ===== verification/Rule_Refresh.thy ===== *)
theory Rule_Refresh
  imports Url_Rules
begin

text \<open>
  How the rules of the extension are kept up to date
  (\<open>firefox-extension/src/lib/background-path-rules.ts\<close>, \<open>background-subdomain-rules.ts\<close>,
  \<open>background-allowed-path-rules.ts\<close>).  Each controller asks the native host for its rules, at
  start with a bounded number of retries and then every minute, and compiles an answer whose
  version differs from the one in use.  An answer of the host is \<open>None\<close> when asking throws.
  The three controllers have one contract, the locale \<open>rule_feed\<close>.
\<close>

record native_rules_response =
  nrr_success :: bool
  nrr_items :: "string list option"
  nrr_hash :: "string option"
  nrr_mtime :: "int option"

text \<open>\<open>getBlockedPathRulesVersion\<close>, and its two copies for the other kinds of rules.\<close>

definition getBlockedPathRulesVersion :: "native_rules_response \<Rightarrow> string" where
  "getBlockedPathRulesVersion payload =
     (case nonempty_string (nrr_hash payload) of
        Some h \<Rightarrow> h
      | None \<Rightarrow> (case nrr_mtime payload of
            Some m \<Rightarrow> int_str m
          | None \<Rightarrow> (case nrr_items payload of Some items \<Rightarrow> join_with [CHR 0x0A] items | None \<Rightarrow> [])))"

definition getBlockedSubdomainRulesVersion :: "native_rules_response \<Rightarrow> string" where
  "getBlockedSubdomainRulesVersion payload =
     (case nonempty_string (nrr_hash payload) of
        Some h \<Rightarrow> h
      | None \<Rightarrow> (case nrr_mtime payload of
            Some m \<Rightarrow> int_str m
          | None \<Rightarrow> (case nrr_items payload of Some items \<Rightarrow> join_with [CHR 0x0A] items | None \<Rightarrow> [])))"

definition getAllowedPathRulesVersion :: "native_rules_response \<Rightarrow> string" where
  "getAllowedPathRulesVersion payload =
     (case nonempty_string (nrr_hash payload) of
        Some h \<Rightarrow> h
      | None \<Rightarrow> (case nrr_mtime payload of
            Some m \<Rightarrow> int_str m
          | None \<Rightarrow> (case nrr_items payload of Some items \<Rightarrow> join_with [CHR 0x0A] items | None \<Rightarrow> [])))"

definition items_of :: "native_rules_response \<Rightarrow> string list" where
  "items_of response = (case nrr_items response of Some items \<Rightarrow> items | None \<Rightarrow> [])"

section \<open>The three controllers\<close>

record path_rules_state =
  prs_version :: string
  prs_rules :: "compiled_path_rule list"

record subdomain_rules_state =
  srs_version :: string
  srs_rules :: "compiled_subdomain_rule list"

record allowed_rules_state =
  ars_version :: string
  ars_rules :: "compiled_allowed_rule list"
  ars_managedHosts :: "string list"

definition initial_path_rules :: path_rules_state where
  "initial_path_rules = \<lparr>prs_version = [], prs_rules = []\<rparr>"

definition initial_subdomain_rules :: subdomain_rules_state where
  "initial_subdomain_rules = \<lparr>srs_version = [], srs_rules = []\<rparr>"

definition initial_allowed_rules :: allowed_rules_state where
  "initial_allowed_rules = \<lparr>ars_version = [], ars_rules = [], ars_managedHosts = []\<rparr>"

definition path_refresh ::
  "bool \<Rightarrow> native_rules_response option \<Rightarrow> path_rules_state \<Rightarrow> path_rules_state \<times> bool" where
  "path_refresh force answer st =
     (case answer of
        None \<Rightarrow> (st, False)
      | Some response \<Rightarrow>
          if \<not> nrr_success response then (st, False)
          else let version = getBlockedPathRulesVersion response in
            if \<not> force \<and> prs_version st = version then (st, True)
            else (\<lparr>prs_version = version,
                   prs_rules = compileBlockedPathRules (items_of response) (Some MAX_BLOCKED_PATH_RULES)\<rparr>, True))"

definition subdomain_refresh ::
  "bool \<Rightarrow> native_rules_response option \<Rightarrow> subdomain_rules_state \<Rightarrow> subdomain_rules_state \<times> bool" where
  "subdomain_refresh force answer st =
     (case answer of
        None \<Rightarrow> (st, False)
      | Some response \<Rightarrow>
          if \<not> nrr_success response then (st, False)
          else let version = getBlockedSubdomainRulesVersion response in
            if \<not> force \<and> srs_version st = version then (st, True)
            else (\<lparr>srs_version = version,
                   srs_rules = compileBlockedSubdomainRules (items_of response) (Some MAX_BLOCKED_SUBDOMAIN_RULES)\<rparr>, True))"

definition allowed_refresh ::
  "bool \<Rightarrow> native_rules_response option \<Rightarrow> allowed_rules_state \<Rightarrow> allowed_rules_state \<times> bool" where
  "allowed_refresh force answer st =
     (case answer of
        None \<Rightarrow> (st, False)
      | Some response \<Rightarrow>
          if \<not> nrr_success response then (st, False)
          else let version = getAllowedPathRulesVersion response in
            if \<not> force \<and> ars_version st = version then (st, True)
            else let (rules, managedHosts) = compileAllowedPathRules (items_of response) (Some MAX_ALLOWED_PATH_RULES)
              in (\<lparr>ars_version = version, ars_rules = rules, ars_managedHosts = managedHosts\<rparr>, True))"

text \<open>
  \<open>init\<close>: \<open>answers k\<close> is what the host answers to the request of attempt \<open>k\<close>.  The result
  is the state, whether rules were loaded, the number of requests and the milliseconds waited.
\<close>

definition MAX_RETRIES :: nat where
  "MAX_RETRIES = 3"

definition INITIAL_RETRY_DELAY_MS :: nat where
  "INITIAL_RETRY_DELAY_MS = 2000"

function init_loop ::
  "(bool \<Rightarrow> 'p option \<Rightarrow> 's \<Rightarrow> 's \<times> bool) \<Rightarrow> (nat \<Rightarrow> 'p option) \<Rightarrow> nat \<Rightarrow> 's \<Rightarrow> 's \<times> bool \<times> nat \<times> nat" where
  "init_loop refresh answers attempt st =
     (if attempt < MAX_RETRIES then
        (let (st', ok) = refresh True (answers attempt) st in
         if ok then (st', True, 1, 0)
         else let delay = INITIAL_RETRY_DELAY_MS * 2 ^ attempt;
                  (st'', loaded, requests, waited) = init_loop refresh answers (attempt + 1) st'
              in (st'', loaded, requests + 1, waited + delay))
      else (st, False, 0, 0))"
  by pat_completeness auto

termination
  by (relation "measure (\<lambda>(refresh, answers, attempt, st). MAX_RETRIES - attempt)") auto

declare init_loop.simps [simp del]

definition path_init where
  "path_init answers = init_loop path_refresh answers 0"

definition subdomain_init where
  "subdomain_init answers = init_loop subdomain_refresh answers 0"

definition allowed_init where
  "allowed_init answers = init_loop allowed_refresh answers 0"

section \<open>The contract of a controller\<close>

text \<open>One request of the refresh loop, or of a command that forces it: the flag and the answer.\<close>

type_synonym 'p refresh_event = "bool \<times> 'p option"

definition run_refreshes ::
  "(bool \<Rightarrow> 'p option \<Rightarrow> 's \<Rightarrow> 's \<times> bool) \<Rightarrow> 'p refresh_event list \<Rightarrow> 's \<Rightarrow> 's" where
  "run_refreshes refresh events st = foldl (\<lambda>s (force, answer). fst (refresh force answer s)) st events"

definition successes :: "('p \<Rightarrow> bool) \<Rightarrow> 'p refresh_event list \<Rightarrow> 'p list" where
  "successes ok events = filter ok (List.map_filter snd events)"

locale rule_feed =
  fixes refresh :: "bool \<Rightarrow> 'p option \<Rightarrow> 's \<Rightarrow> 's \<times> bool"
    and ok :: "'p \<Rightarrow> bool"
    and version :: "'p \<Rightarrow> string"
    and current :: "'s \<Rightarrow> string"
    and build :: "'p \<Rightarrow> 's"
  assumes no_answer: "refresh force None st = (st, False)"
    and refused: "\<not> ok p \<Longrightarrow> refresh force (Some p) st = (st, False)"
    and unchanged: "ok p \<Longrightarrow> current st = version p \<Longrightarrow> refresh False (Some p) st = (st, True)"
    and loaded: "ok p \<Longrightarrow> force \<or> current st \<noteq> version p \<Longrightarrow> refresh force (Some p) st = (build p, True)"
    and build_version: "current (build p) = version p"
begin

definition good :: "'p option \<Rightarrow> bool" where
  "good answer \<longleftrightarrow> (case answer of Some p \<Rightarrow> ok p | None \<Rightarrow> False)"

lemma forced: "refresh True answer st = (if good answer then (build (the answer), True) else (st, False))"
  by (cases answer) (auto simp: good_def no_answer refused loaded)

text \<open>The state after any sequence of requests is that of the last successful answer.\<close>

lemma run_latest:
  assumes "\<And>p q. p \<in> set (successes ok events) \<Longrightarrow> q \<in> set (successes ok events) \<Longrightarrow>
      version p = version q \<Longrightarrow> build p = build q"
    and "\<And>p. p \<in> set (successes ok events) \<Longrightarrow> version p = current st0 \<Longrightarrow> build p = st0"
  shows "run_refreshes refresh events st0 =
    (if successes ok events = [] then st0 else build (last (successes ok events)))"
  using assms
proof (induction events rule: rev_induct)
  case (snoc e events)
  obtain force answer where e: "e = (force, answer)" by fastforce
  let ?s = "run_refreshes refresh events st0"
  have step: "run_refreshes refresh (events @ [e]) st0 = fst (refresh force answer ?s)"
    by (simp add: run_refreshes_def e)
  have succ: "successes ok (events @ [e]) =
      successes ok events @ (case answer of Some p \<Rightarrow> if ok p then [p] else [] | None \<Rightarrow> [])"
    by (simp add: successes_def e List.map_filter_def split: option.split)
  have IH: "?s = (if successes ok events = [] then st0 else build (last (successes ok events)))"
  proof (rule snoc.IH)
    have sub: "p \<in> set (successes ok (events @ [e]))" if "p \<in> set (successes ok events)" for p
      using that succ by simp
    show "build p = build q"
      if "p \<in> set (successes ok events)" "q \<in> set (successes ok events)" "version p = version q" for p q
      using snoc.prems(1) sub that by blast
    show "build p = st0" if "p \<in> set (successes ok events)" "version p = current st0" for p
      using snoc.prems(2) sub that by blast
  qed
  show ?case
  proof (cases "good answer")
    case False
    then show ?thesis
      using IH step succ by (cases answer) (auto simp: good_def no_answer refused)
  next
    case True
    then obtain p where p: "answer = Some p" "ok p" by (cases answer) (auto simp: good_def)
    have "refresh force answer ?s = (build p, True)"
    proof (cases "force \<or> current ?s \<noteq> version p")
      case True
      with p show ?thesis by (simp add: loaded)
    next
      case False
      have "?s = build p"
      proof (cases "successes ok events = []")
        case True
        then have "version p = current st0" using False IH by simp
        moreover have "p \<in> set (successes ok (events @ [e]))" using succ p by simp
        ultimately have "build p = st0" using snoc.prems(2) by blast
        with IH True show ?thesis by simp
      next
        case nonempty: False
        let ?q = "last (successes ok events)"
        have "version ?q = version p" using False IH nonempty by (simp add: build_version)
        moreover have "?q \<in> set (successes ok (events @ [e]))" "p \<in> set (successes ok (events @ [e]))"
          using nonempty succ p by auto
        ultimately have "build ?q = build p" using snoc.prems(1) by blast
        with IH nonempty show ?thesis by simp
      qed
      with False p show ?thesis using unchanged [of p "build p"] by auto
    qed
    with step succ p show ?thesis by simp
  qed
qed (simp add: run_refreshes_def successes_def map_filter_simps)

lemma run_no_success: "successes ok events = [] \<Longrightarrow> run_refreshes refresh events st0 = st0"
  by (subst run_latest) auto

text \<open>What \<open>init\<close> does: it stops at the first success, or after three requests.\<close>

lemma init_outcome:
  "init_loop refresh answers 0 st =
     (if good (answers 0) then (build (the (answers 0)), True, 1, 0)
      else if good (answers 1) then (build (the (answers 1)), True, 2, 2000)
      else if good (answers 2) then (build (the (answers 2)), True, 3, 6000)
      else (st, False, 3, 14000))"
  by (simp add: init_loop.simps [of _ _ 0] init_loop.simps [of _ _ 1] init_loop.simps [of _ _ 2]
      init_loop.simps [of _ _ 3] init_loop.simps [of _ _ "Suc 0"] init_loop.simps [of _ _ "Suc (Suc 0)"]
      init_loop.simps [of _ _ "Suc (Suc (Suc 0))"] forced MAX_RETRIES_def INITIAL_RETRY_DELAY_MS_def numeral_2_eq_2)

end

definition path_build :: "native_rules_response \<Rightarrow> path_rules_state" where
  "path_build response =
     \<lparr>prs_version = getBlockedPathRulesVersion response,
      prs_rules = compileBlockedPathRules (items_of response) (Some MAX_BLOCKED_PATH_RULES)\<rparr>"

definition subdomain_build :: "native_rules_response \<Rightarrow> subdomain_rules_state" where
  "subdomain_build response =
     \<lparr>srs_version = getBlockedSubdomainRulesVersion response,
      srs_rules = compileBlockedSubdomainRules (items_of response) (Some MAX_BLOCKED_SUBDOMAIN_RULES)\<rparr>"

definition allowed_build :: "native_rules_response \<Rightarrow> allowed_rules_state" where
  "allowed_build response =
     \<lparr>ars_version = getAllowedPathRulesVersion response,
      ars_rules = fst (compileAllowedPathRules (items_of response) (Some MAX_ALLOWED_PATH_RULES)),
      ars_managedHosts = snd (compileAllowedPathRules (items_of response) (Some MAX_ALLOWED_PATH_RULES))\<rparr>"

interpretation path_feed: rule_feed path_refresh nrr_success getBlockedPathRulesVersion prs_version path_build
  by unfold_locales (auto simp: path_refresh_def path_build_def Let_def)

interpretation subdomain_feed:
  rule_feed subdomain_refresh nrr_success getBlockedSubdomainRulesVersion srs_version subdomain_build
  by unfold_locales (auto simp: subdomain_refresh_def subdomain_build_def Let_def)

interpretation allowed_feed:
  rule_feed allowed_refresh nrr_success getAllowedPathRulesVersion ars_version allowed_build
  by unfold_locales (auto simp: allowed_refresh_def allowed_build_def Let_def split: prod.splits)

section \<open>Start and refresh of the rules\<close>

definition answered :: "native_rules_response option \<Rightarrow> bool" where
  "answered answer \<longleftrightarrow> (case answer of Some response \<Rightarrow> nrr_success response | None \<Rightarrow> False)"

definition failures_first :: "(nat \<Rightarrow> native_rules_response option) \<Rightarrow> nat" where
  "failures_first answers = length (takeWhile (\<lambda>k. \<not> answered (answers k)) [0, 1, 2])"

lemma init_of_feed:
  assumes "rule_feed refresh nrr_success version current build"
  shows "init_loop refresh answers 0 st =
    (let k = failures_first answers in
     if k < MAX_RETRIES
     then (build (the (answers k)), True, k + 1, INITIAL_RETRY_DELAY_MS * (2 ^ k - 1))
     else (st, False, MAX_RETRIES, INITIAL_RETRY_DELAY_MS * (2 ^ MAX_RETRIES - 1)))"
proof -
  have "rule_feed.good nrr_success a = answered a" for a
    by (simp add: rule_feed.good_def [OF assms] answered_def)
  then show ?thesis
    unfolding rule_feed.init_outcome [OF assms]
    by (simp add: failures_first_def MAX_RETRIES_def INITIAL_RETRY_DELAY_MS_def Let_def flip: numeral_2_eq_2)
qed

text \<open>C39: starting always ends.  Each of the three controllers makes at most three requests and
  waits at most 14 seconds between them; it stops at the first answer that succeeds, with the
  rules of that answer, and keeps its state when none does.\<close>

theorem init_ends:
  "path_init answers st =
      (let k = failures_first answers in
       if k < MAX_RETRIES
       then (path_build (the (answers k)), True, k + 1, INITIAL_RETRY_DELAY_MS * (2 ^ k - 1))
       else (st, False, MAX_RETRIES, INITIAL_RETRY_DELAY_MS * (2 ^ MAX_RETRIES - 1))) \<and>
   subdomain_init answers st' =
      (let k = failures_first answers in
       if k < MAX_RETRIES
       then (subdomain_build (the (answers k)), True, k + 1, INITIAL_RETRY_DELAY_MS * (2 ^ k - 1))
       else (st', False, MAX_RETRIES, INITIAL_RETRY_DELAY_MS * (2 ^ MAX_RETRIES - 1))) \<and>
   allowed_init answers st'' =
      (let k = failures_first answers in
       if k < MAX_RETRIES
       then (allowed_build (the (answers k)), True, k + 1, INITIAL_RETRY_DELAY_MS * (2 ^ k - 1))
       else (st'', False, MAX_RETRIES, INITIAL_RETRY_DELAY_MS * (2 ^ MAX_RETRIES - 1)))"
  unfolding path_init_def subdomain_init_def allowed_init_def
  by (intro conjI; rule init_of_feed, unfold_locales)

definition identified :: "(native_rules_response \<Rightarrow> string) \<Rightarrow> native_rules_response list \<Rightarrow> bool" where
  "identified version answers \<longleftrightarrow>
     (\<forall>p \<in> set answers. \<forall>q \<in> set answers. version p = version q \<longrightarrow> items_of p = items_of q) \<and>
     (\<forall>p \<in> set answers. version p = [] \<longrightarrow> items_of p = [])"

lemma compile_nothing [simp]: "compileBlockedPathRules [] m = []"
  by (simp add: compileBlockedPathRules_def)

lemma path_rules_latest:
  assumes "identified getBlockedPathRulesVersion (successes nrr_success events)"
  shows "prs_rules (run_refreshes path_refresh events initial_path_rules) =
    compileBlockedPathRules (case rev (successes nrr_success events) of p # _ \<Rightarrow> items_of p | [] \<Rightarrow> [])
      (Some MAX_BLOCKED_PATH_RULES)"
proof -
  have "run_refreshes path_refresh events initial_path_rules =
    (if successes nrr_success events = [] then initial_path_rules
     else path_build (last (successes nrr_success events)))"
  proof (rule path_feed.run_latest)
    show "path_build p = path_build q"
      if "p \<in> set (successes nrr_success events)" "q \<in> set (successes nrr_success events)"
        "getBlockedPathRulesVersion p = getBlockedPathRulesVersion q" for p q
    proof -
      have "items_of p = items_of q" using assms that unfolding identified_def by blast
      with that(3) show ?thesis by (simp add: path_build_def)
    qed
    show "path_build p = initial_path_rules"
      if "p \<in> set (successes nrr_success events)"
        "getBlockedPathRulesVersion p = prs_version initial_path_rules" for p
    proof -
      have "getBlockedPathRulesVersion p = []" using that(2) by (simp add: initial_path_rules_def)
      moreover from this have "items_of p = []" using assms that(1) unfolding identified_def by blast
      ultimately show ?thesis by (simp add: path_build_def initial_path_rules_def)
    qed
  qed
  then show ?thesis
    by (cases "successes nrr_success events" rule: rev_cases)
      (simp_all add: initial_path_rules_def path_build_def)
qed

text \<open>The rules in force are those of the last answer.  Whatever requests were made, forced
  or not, answered or failed, when the version of an answer identifies its rules the blocked
  pages are exactly those the rules of the last successful answer cover.\<close>

theorem path_rules_current:
  assumes "identified getBlockedPathRulesVersion (successes nrr_success events)"
    and "successes nrr_success events = earlier @ [answer]"
    and "list_all plain_path_rule (items_of answer)" "length (items_of answer) \<le> MAX_BLOCKED_PATH_RULES"
  shows "findMatchingBlockedPathRule web url (prs_rules (run_refreshes path_refresh events initial_path_rules)) \<noteq> None \<longleftrightarrow>
    (\<exists>rule \<in> set (items_of answer). \<exists>u \<in> set (candidate_urls web url). covers rule u)"
proof -
  have "prs_rules (run_refreshes path_refresh events initial_path_rules) =
      compile_paths [] (items_of answer)"
    using path_rules_latest [OF assms(1)] assms(2,4) by (simp add: compileBlockedPathRules_def)
  moreover have "url_blocked web url (compile_paths [] (items_of answer)) \<longleftrightarrow>
      (\<exists>rule \<in> set (items_of answer). \<exists>u \<in> set (candidate_urls web url). covers rule u)"
    unfolding url_blocked_compiled using assms(3) by (auto simp: list_all_iff plain_rule_covers)
  ultimately show ?thesis by (simp add: url_blocked_def)
qed

definition example_answer :: "string list \<Rightarrow> native_rules_response" where
  "example_answer items = \<lparr>nrr_success = True, nrr_items = Some items, nrr_hash = None, nrr_mtime = None\<rparr>"

lemma path_rules_current_witness:
  "findMatchingBlockedPathRule example_web ''https://b.org/y''
     (prs_rules (run_refreshes path_refresh
       [(True, Some (example_answer [''b.org/y''])), (False, None), (False, Some (example_answer [''a.com/x'']))]
       initial_path_rules)) \<noteq> None \<longleftrightarrow>
   (\<exists>rule \<in> set (items_of (example_answer [''a.com/x''])).
      \<exists>u \<in> set (candidate_urls example_web ''https://b.org/y''). covers rule u)"
proof (rule path_rules_current)
  show "successes nrr_success
      [(True, Some (example_answer [''b.org/y''])), (False, None), (False, Some (example_answer [''a.com/x'']))] =
    [example_answer [''b.org/y'']] @ [example_answer [''a.com/x'']]"
    by (simp add: successes_def List.map_filter_def example_answer_def)
  then show "identified getBlockedPathRulesVersion (successes nrr_success
      [(True, Some (example_answer [''b.org/y''])), (False, None), (False, Some (example_answer [''a.com/x'']))])"
    by (simp add: identified_def getBlockedPathRulesVersion_def example_answer_def nonempty_string_def items_of_def)
  show "list_all plain_path_rule (items_of (example_answer [''a.com/x'']))" by code_simp
  show "length (items_of (example_answer [''a.com/x''])) \<le> MAX_BLOCKED_PATH_RULES"
    by (simp add: items_of_def example_answer_def MAX_BLOCKED_PATH_RULES_def)
qed

section \<open>What the controllers report\<close>

record rules_debug_state =
  rds_version :: string
  rds_count :: nat
  rds_rawRules :: "string list"
  rds_compiledPatterns :: "string list"
  rds_managedHosts :: "string list"

definition path_getDebugState :: "path_rules_state \<Rightarrow> rules_debug_state" where
  "path_getDebugState st =
     \<lparr>rds_version = prs_version st, rds_count = length (prs_rules st),
      rds_rawRules = map cpr_rawRule (prs_rules st),
      rds_compiledPatterns = concat (map cpr_compiledPatterns (prs_rules st)), rds_managedHosts = []\<rparr>"

definition subdomain_getDebugState :: "subdomain_rules_state \<Rightarrow> rules_debug_state" where
  "subdomain_getDebugState st =
     \<lparr>rds_version = srs_version st, rds_count = length (srs_rules st),
      rds_rawRules = map csr_rawRule (srs_rules st), rds_compiledPatterns = [], rds_managedHosts = []\<rparr>"

definition allowed_getDebugState :: "allowed_rules_state \<Rightarrow> rules_debug_state" where
  "allowed_getDebugState st =
     \<lparr>rds_version = ars_version st, rds_count = length (ars_rules st),
      rds_rawRules = map car_rawRule (ars_rules st),
      rds_compiledPatterns = concat (map car_compiledPatterns (ars_rules st)),
      rds_managedHosts = ars_managedHosts st\<rparr>"

definition path_forceRefresh ::
  "native_rules_response option \<Rightarrow> path_rules_state \<Rightarrow> path_rules_state \<times> (string + unit)" where
  "path_forceRefresh answer st =
     (let (st', success) = path_refresh True answer st
      in (st', if success then Inr () else Inl ''No se pudieron refrescar las reglas de ruta''))"

definition subdomain_forceRefresh ::
  "native_rules_response option \<Rightarrow> subdomain_rules_state \<Rightarrow> subdomain_rules_state \<times> (string + unit)" where
  "subdomain_forceRefresh answer st =
     (let (st', success) = subdomain_refresh True answer st
      in (st', if success then Inr () else Inl ''No se pudieron refrescar las reglas de subdominio''))"

definition allowed_forceRefresh ::
  "native_rules_response option \<Rightarrow> allowed_rules_state \<Rightarrow> allowed_rules_state \<times> (string + unit)" where
  "allowed_forceRefresh answer st =
     (let (st', success) = allowed_refresh True answer st
      in (st', if success then Inr () else Inl ''No se pudieron refrescar las reglas allowed-path''))"

end
