(* ===== verification/Request_Decision.thy ===== *)
theory Request_Decision
  imports Ip_Literals Rule_Refresh "HOL-Library.AList"
begin

text \<open>
  What the extension does with a web request
  (\<open>firefox-extension/src/lib/background-listeners.ts\<close>), the record of what it blocked
  (\<open>blocked-monitor-state.ts\<close>), and how long it holds a request whose host is being allowed
  (\<open>runtime-dependency-protocol.ts\<close>).  A JavaScript \<open>Map\<close> is an association list in insertion
  order, a map from tabs a function.  Diagnostics and logging are left out.
\<close>

section \<open>Blocked domains of a tab\<close>

record blocked_domain =
  bd_errors :: "string list"
  bd_origin :: "string option"
  bd_timestamp :: int

record domain_status =
  ds_state :: string
  ds_updatedAt :: int
  ds_messageKey :: string

record monitor_state =
  ms_blockedDomains :: "int \<Rightarrow> (string \<times> blocked_domain) list option"
  ms_domainStatuses :: "int \<Rightarrow> (string \<times> domain_status) list option"
  ms_inFlight :: "string list"

definition createBlockedMonitorState :: monitor_state where
  "createBlockedMonitorState =
     \<lparr>ms_blockedDomains = (\<lambda>_. None), ms_domainStatuses = (\<lambda>_. None), ms_inFlight = []\<rparr>"

definition stored :: "'a list option \<Rightarrow> 'a list" where
  "stored x = (case x of Some l \<Rightarrow> l | None \<Rightarrow> [])"

definition ensureTabStorage :: "int \<Rightarrow> monitor_state \<Rightarrow> monitor_state" where
  "ensureTabStorage tabId st =
     st\<lparr>ms_blockedDomains := (ms_blockedDomains st)(tabId \<mapsto> stored (ms_blockedDomains st tabId))\<rparr>"

definition setDomainStatus :: "int \<Rightarrow> string \<Rightarrow> domain_status \<Rightarrow> monitor_state \<Rightarrow> monitor_state" where
  "setDomainStatus tabId hostname status st =
     st\<lparr>ms_domainStatuses := (ms_domainStatuses st)
       (tabId \<mapsto> AList.update hostname status (stored (ms_domainStatuses st tabId)))\<rparr>"

definition badge_text :: "int \<Rightarrow> monitor_state \<Rightarrow> string" where
  "badge_text tabId st =
     (let count = length (stored (ms_blockedDomains st tabId)) in if count > 0 then nat_str count else [])"

definition tab_prefix :: "int \<Rightarrow> string" where
  "tab_prefix tabId = int_str tabId @ '':''"

definition clearInFlightRequests :: "int \<Rightarrow> monitor_state \<Rightarrow> monitor_state" where
  "clearInFlightRequests tabId st =
     st\<lparr>ms_inFlight := filter (\<lambda>key. \<not> starts_with key (tab_prefix tabId)) (ms_inFlight st)\<rparr>"

definition clearTabRuntimeState :: "int \<Rightarrow> monitor_state \<Rightarrow> monitor_state" where
  "clearTabRuntimeState tabId st =
     clearInFlightRequests tabId
       (st\<lparr>ms_blockedDomains := (ms_blockedDomains st)(tabId := map_option (\<lambda>_. []) (ms_blockedDomains st tabId)),
           ms_domainStatuses := (ms_domainStatuses st)(tabId := map_option (\<lambda>_. []) (ms_domainStatuses st tabId))\<rparr>)"

definition addBlockedDomain ::
  "web_api \<Rightarrow> int \<Rightarrow> int \<Rightarrow> string \<Rightarrow> string \<Rightarrow> string option \<Rightarrow> monitor_state \<Rightarrow> monitor_state" where
  "addBlockedDomain web now tabId hostname err originUrl st =
     (let st1 = ensureTabStorage tabId st;
          originHostname = (case nonempty_string originUrl of Some u \<Rightarrow> extractHostname web u | None \<Rightarrow> None);
          known = stored (ms_blockedDomains st1 tabId);
          st2 = (if map_of known hostname = None
            then setDomainStatus tabId hostname
              \<lparr>ds_state = ''detected'', ds_updatedAt = now, ds_messageKey = ''popupStatusDetected''\<rparr> st1
            else st1);
          entry = (case map_of known hostname of
              Some e \<Rightarrow> e
            | None \<Rightarrow> \<lparr>bd_errors = [], bd_origin = originHostname, bd_timestamp = now\<rparr>)
      in st2\<lparr>ms_blockedDomains := (ms_blockedDomains st2)
           (tabId \<mapsto> AList.update hostname (entry\<lparr>bd_errors := add_last err (bd_errors entry)\<rparr>) known)\<rparr>)"

definition disposeTab :: "int \<Rightarrow> monitor_state \<Rightarrow> monitor_state" where
  "disposeTab tabId st =
     (clearInFlightRequests tabId st)
       \<lparr>ms_blockedDomains := (ms_blockedDomains st)(tabId := None),
        ms_domainStatuses := (ms_domainStatuses st)(tabId := None)\<rparr>"

definition getBlockedDomainsForTab :: "int \<Rightarrow> monitor_state \<Rightarrow> (string \<times> blocked_domain) list" where
  "getBlockedDomainsForTab tabId st = stored (ms_blockedDomains st tabId)"

definition getDomainStatusesForTab :: "int \<Rightarrow> monitor_state \<Rightarrow> (string \<times> domain_status) list" where
  "getDomainStatusesForTab tabId st = stored (ms_domainStatuses st tabId)"

section \<open>Hosts for the recovery of a captive portal\<close>

definition MAX_CAPTIVE_PORTAL_RECOVERY_HOSTS :: nat where
  "MAX_CAPTIVE_PORTAL_RECOVERY_HOSTS = 16"

definition extractRequestHostname :: "web_api \<Rightarrow> string option \<Rightarrow> string option" where
  "extractRequestHostname web url =
     (case nonempty_string url of
        None \<Rightarrow> None
      | Some u \<Rightarrow> map_option (\<lambda>p. to_lower (pu_hostname p)) (wa_parse web u))"

definition isDependencyRequestType :: "string option \<Rightarrow> bool" where
  "isDependencyRequestType ty \<longleftrightarrow> (case ty of Some t \<Rightarrow> t \<noteq> [] \<and> t \<noteq> ''main_frame'' | None \<Rightarrow> False)"

definition host_alnum :: "char \<Rightarrow> bool" where
  "host_alnum c \<longleftrightarrow> lower_alpha_char c \<or> digit_char c"

definition label_regex :: regex where
  "label_regex =
     RSeq (RSet host_alnum)
       (r_opt (RSeq (r_range 0 61 (RSet (\<lambda>c. host_alnum c \<or> c = CHR ''-''))) (RSet host_alnum)))"

definition recovery_host_regex :: regex where
  "recovery_host_regex = RSeq label_regex (r_plus (RSeq (r_char (CHR ''.'')) label_regex))"

definition ipv4_shape :: regex where
  "ipv4_shape =
     RSeq (r_range 1 3 (RSet digit_char)) (r_times 3 (RSeq (r_char (CHR ''.'')) (r_range 1 3 (RSet digit_char))))"

definition ipv6_shape :: regex where
  "ipv6_shape =
     RSeq (r_char (CHR ''['')) (RSeq (r_plus (RSet (\<lambda>c. hex_digit c \<noteq> None \<or> c = CHR '':''))) (r_char (CHR '']'')))"

definition normalizeCaptivePortalRecoveryHost :: "string option \<Rightarrow> string option" where
  "normalizeCaptivePortalRecoveryHost hostname =
     (let normalized = to_lower (strip_suffix ''.'' (js_trim (case hostname of Some h \<Rightarrow> h | None \<Rightarrow> []))) in
      if normalized = [] \<or> length normalized > 253 \<or> starts_with normalized ''*.'' then None
      else if CHR ''.'' \<notin> set normalized \<or> ends_with normalized ''.local'' then None
      else if regex_test ipv4_shape normalized \<or> regex_test ipv6_shape normalized then None
      else if \<not> regex_test recovery_host_regex normalized then None
      else Some normalized)"

type_synonym recovery_hosts = "int \<Rightarrow> string list option"

definition rememberCaptivePortalRecoveryHost ::
  "int \<Rightarrow> string option \<Rightarrow> recovery_hosts \<Rightarrow> recovery_hosts" where
  "rememberCaptivePortalRecoveryHost tabId hostname hostsByTab =
     (if tabId < 0 then hostsByTab
      else case normalizeCaptivePortalRecoveryHost hostname of
          None \<Rightarrow> hostsByTab
        | Some normalized \<Rightarrow>
            (let hosts = stored (hostsByTab tabId) in
             if length hosts < MAX_CAPTIVE_PORTAL_RECOVERY_HOSTS \<or> normalized \<in> set hosts
             then hostsByTab(tabId \<mapsto> add_last normalized hosts) else hostsByTab))"

definition startCaptivePortalRecoveryNavigation ::
  "int \<Rightarrow> string option \<Rightarrow> recovery_hosts \<Rightarrow> recovery_hosts" where
  "startCaptivePortalRecoveryNavigation tabId hostname hostsByTab =
     (if tabId < 0 then hostsByTab
      else rememberCaptivePortalRecoveryHost tabId hostname (hostsByTab(tabId := None)))"

definition getCaptivePortalRecoveryHosts :: "int \<Rightarrow> string \<Rightarrow> recovery_hosts \<Rightarrow> string list" where
  "getCaptivePortalRecoveryHosts tabId triggerHost hostsByTab =
     (let hosts = stored (hostsByTab tabId) in
      take MAX_CAPTIVE_PORTAL_RECOVERY_HOSTS
        (case normalizeCaptivePortalRecoveryHost (Some triggerHost) of
           Some h \<Rightarrow> add_last h hosts | None \<Rightarrow> hosts))"

section \<open>The decision on a request\<close>

record web_request =
  wr_details :: evaluation_details
  wr_tabId :: int
  wr_frameId :: int
  wr_requestId :: "string option"

record policy_rules =
  po_paths :: path_rules_state
  po_subdomains :: subdomain_rules_state
  po_allowed :: allowed_rules_state

definition nullish :: "'a option \<Rightarrow> 'a option \<Rightarrow> 'a option" where
  "nullish x y = (case x of Some a \<Rightarrow> Some a | None \<Rightarrow> y)"

text \<open>The chain of \<open>??\<close> at the head of the listener.\<close>

definition policy_outcome ::
  "web_api \<Rightarrow> string \<Rightarrow> policy_rules \<Rightarrow> evaluation_details \<Rightarrow> evaluation_result option" where
  "policy_outcome web ext po d =
     nullish (evaluatePathBlocking web d (prs_rules (po_paths po)) (Some ext))
    (nullish (evaluatePublicIpLiteral web d (Some ext))
    (nullish (evaluateSubdomainBlocking web d (srs_rules (po_subdomains po)) (Some ext))
    (nullish (evaluateAllowedPath web d (ars_rules (po_allowed po)) (ars_managedHosts (po_allowed po)) (Some ext))
             (evaluateGoogleGameBlocking web d (Some ext)))))"

record page_contexts =
  pc_byTabAndDomain :: "(string \<times> (string \<times> string)) list"
  pc_latestByDomain :: "(string \<times> (string \<times> string)) list"

definition context_domain :: "string \<Rightarrow> string" where
  "context_domain domain = to_lower (js_trim domain)"

definition buildBlockedPageContextKey :: "int \<Rightarrow> string \<Rightarrow> string" where
  "buildBlockedPageContextKey tabId domain = int_str tabId @ '':'' @ context_domain domain"

definition saveBlockedPageContext :: "int \<Rightarrow> string \<Rightarrow> string option \<Rightarrow> page_contexts \<Rightarrow> page_contexts" where
  "saveBlockedPageContext tabId domain originalUrl pc =
     (let normalizedDomain = context_domain domain in
      case nonempty_string originalUrl of
        None \<Rightarrow> pc
      | Some url \<Rightarrow>
          if tabId < 0 \<or> normalizedDomain = [] then pc
          else pc\<lparr>pc_byTabAndDomain :=
                    AList.update (buildBlockedPageContextKey tabId normalizedDomain) (normalizedDomain, url) (pc_byTabAndDomain pc),
                  pc_latestByDomain := AList.update normalizedDomain (normalizedDomain, url) (pc_latestByDomain pc)\<rparr>)"

definition getBlockedPageContext :: "int option \<Rightarrow> string \<Rightarrow> page_contexts \<Rightarrow> (string \<times> string) option" where
  "getBlockedPageContext tabId domain pc =
     (let normalizedDomain = context_domain domain in
      if normalizedDomain = [] then None
      else nullish
        (case tabId of
           Some t \<Rightarrow> map_of (pc_byTabAndDomain pc) (buildBlockedPageContextKey t normalizedDomain)
         | None \<Rightarrow> None)
        (map_of (pc_latestByDomain pc) normalizedDomain))"

record listener_state =
  ls_tabAnchorHosts :: "int \<Rightarrow> string option"
  ls_recoveryHosts :: recovery_hosts
  ls_cancelledPending :: "(string \<times> int) list"
  ls_monitor :: monitor_state
  ls_contexts :: page_contexts

record dependency =
  dp_anchorHost :: string
  dp_dependencyHost :: string
  dp_requestType :: string

datatype request_action = Let_through | Hold dependency | Redirect_to string | Cancel_request

definition resolveAnchorHost :: "web_api \<Rightarrow> web_request \<Rightarrow> listener_state \<Rightarrow> string option" where
  "resolveAnchorHost web r st =
     nullish (if wr_tabId r \<ge> 0 then ls_tabAnchorHosts st (wr_tabId r) else None)
    (nullish (extractRequestHostname web (ed_documentUrl (wr_details r)))
             (extractRequestHostname web (ed_originUrl (wr_details r))))"

definition start_navigation :: "int \<Rightarrow> string \<Rightarrow> listener_state \<Rightarrow> listener_state" where
  "start_navigation tabId host st =
     st\<lparr>ls_tabAnchorHosts := (ls_tabAnchorHosts st)(tabId \<mapsto> host),
        ls_recoveryHosts := startCaptivePortalRecoveryNavigation tabId (Some host) (ls_recoveryHosts st)\<rparr>"

definition remember_hosts :: "int \<Rightarrow> string list \<Rightarrow> listener_state \<Rightarrow> listener_state" where
  "remember_hosts tabId hosts st =
     st\<lparr>ls_recoveryHosts :=
       foldl (\<lambda>m h. rememberCaptivePortalRecoveryHost tabId (Some h) m) (ls_recoveryHosts st) hosts\<rparr>"

text \<open>\<open>anchorHost && dependencyHost && anchorHost !== dependencyHost\<close>: both, when they differ.\<close>

definition cross_hosts :: "string option \<Rightarrow> string option \<Rightarrow> (string \<times> string) option" where
  "cross_hosts anchorHost dependencyHost =
     (case (nonempty_string anchorHost, nonempty_string dependencyHost) of
        (Some a, Some d) \<Rightarrow> if a \<noteq> d then Some (a, d) else None
      | _ \<Rightarrow> None)"

definition main_frame_host :: "web_request \<Rightarrow> string option \<Rightarrow> string option" where
  "main_frame_host r dependencyHost =
     (if ed_type (wr_details r) = Some ''main_frame'' \<and> wr_tabId r \<ge> 0 then nonempty_string dependencyHost else None)"

definition allowed_request ::
  "web_api \<Rightarrow> web_request \<Rightarrow> listener_state \<Rightarrow> listener_state \<times> request_action" where
  "allowed_request web r st =
     (let dependencyHost = extractRequestHostname web (Some (ed_url (wr_details r)));
          anchorHost = resolveAnchorHost web r st
      in case main_frame_host r dependencyHost of
           Some host \<Rightarrow> (start_navigation (wr_tabId r) host st, Let_through)
         | None \<Rightarrow>
             (case cross_hosts anchorHost dependencyHost of
                None \<Rightarrow> (st, Let_through)
              | Some (a, d) \<Rightarrow>
                  (let st' = remember_hosts (wr_tabId r) [a, d] st in
                   case ed_type (wr_details r) of
                     Some t \<Rightarrow>
                       if isDependencyRequestType (Some t) \<and> wr_tabId r \<ge> 0
                       then (st', Hold \<lparr>dp_anchorHost = a, dp_dependencyHost = d, dp_requestType = t\<rparr>)
                       else (st', Let_through)
                   | None \<Rightarrow> (st', Let_through))))"

definition blocked_request ::
  "web_api \<Rightarrow> int \<Rightarrow> web_request \<Rightarrow> evaluation_result \<Rightarrow> listener_state \<Rightarrow> listener_state \<times> request_action" where
  "blocked_request web now r result st =
     (let d = wr_details r;
          st1 = (case main_frame_host r (extractRequestHostname web (Some (ed_url d))) of
              Some host \<Rightarrow> start_navigation (wr_tabId r) host st
            | None \<Rightarrow> st);
          hostname = known_hostname web (ed_url d);
          st2 = (if wr_tabId r \<ge> 0
            then st1\<lparr>ls_monitor := addBlockedDomain web now (wr_tabId r) hostname (er_reason result)
                       (nullish (ed_originUrl d) (ed_documentUrl d)) (ls_monitor st1),
                     ls_contexts := saveBlockedPageContext (wr_tabId r) hostname (Some (ed_url d)) (ls_contexts st1)\<rparr>
            else st1)
      in (st2, case nonempty_string (er_redirectUrl result) of Some u \<Rightarrow> Redirect_to u | None \<Rightarrow> Cancel_request))"

definition onBeforeRequest ::
  "web_api \<Rightarrow> string \<Rightarrow> policy_rules \<Rightarrow> int \<Rightarrow> web_request \<Rightarrow> listener_state \<Rightarrow> listener_state \<times> request_action" where
  "onBeforeRequest web ext po now r st =
     (case policy_outcome web ext po (wr_details r) of
        None \<Rightarrow> allowed_request web r st
      | Some result \<Rightarrow> blocked_request web now r result st)"

section \<open>The other listeners\<close>

definition CANCELLED_PENDING_REQUEST_TTL_MS :: int where
  "CANCELLED_PENDING_REQUEST_TTL_MS = 15000"

definition rememberCancelledPendingRequest ::
  "int \<Rightarrow> string option \<Rightarrow> (string \<times> int) list \<Rightarrow> (string \<times> int) list" where
  "rememberCancelledPendingRequest now requestId cancelled =
     (case nonempty_string requestId of
        None \<Rightarrow> cancelled
      | Some i \<Rightarrow>
          AList.update i now
            (filter (\<lambda>(_, cancelledAt). \<not> now - cancelledAt > CANCELLED_PENDING_REQUEST_TTL_MS) cancelled))"

definition wasCancelledPendingRequest ::
  "int \<Rightarrow> string option \<Rightarrow> (string \<times> int) list \<Rightarrow> (string \<times> int) list \<times> bool" where
  "wasCancelledPendingRequest now requestId cancelled =
     (case nonempty_string requestId of
        None \<Rightarrow> (cancelled, False)
      | Some i \<Rightarrow>
          (case map_of cancelled i of
             None \<Rightarrow> (cancelled, False)
           | Some cancelledAt \<Rightarrow>
               if now - cancelledAt > CANCELLED_PENDING_REQUEST_TTL_MS then (AList.delete i cancelled, False)
               else (cancelled, True)))"

text \<open>
  \<open>webRequest.onErrorOccurred\<close>: the flag says whether the error goes on to the navigation
  controller.
\<close>

definition onRequestError :: "web_api \<Rightarrow> int \<Rightarrow> web_request \<Rightarrow> listener_state \<Rightarrow> listener_state \<times> bool" where
  "onRequestError web now r st =
     (let (cancelled, cancelledPending) = wasCancelledPendingRequest now (wr_requestId r) (ls_cancelledPending st);
          anchorHost = resolveAnchorHost web r st;
          dependencyHost = extractRequestHostname web (Some (ed_url (wr_details r)));
          st1 = st\<lparr>ls_cancelledPending := cancelled\<rparr>;
          st2 = (case cross_hosts anchorHost dependencyHost of
              Some (a, d) \<Rightarrow> remember_hosts (wr_tabId r) [a, d] st1
            | None \<Rightarrow>
                (case nonempty_string dependencyHost of
                   Some d \<Rightarrow> if wr_frameId r = 0 then remember_hosts (wr_tabId r) [d] st1 else st1
                 | None \<Rightarrow> st1))
      in (st2, \<not> cancelledPending \<and> nonempty_string (extractHostname web (ed_url (wr_details r))) \<noteq> None \<and>
               wr_tabId r \<ge> 0))"

definition shouldClearBlockedMonitorStateOnNavigate :: "web_api \<Rightarrow> int \<Rightarrow> string \<Rightarrow> string \<Rightarrow> bool" where
  "shouldClearBlockedMonitorStateOnNavigate web frameId url blockedScreenUrl \<longleftrightarrow>
     frameId = 0 \<and>
     (case (wa_parse web url, wa_parse web blockedScreenUrl) of
        (Some target, Some blockedScreen) \<Rightarrow>
          pu_origin target \<noteq> pu_origin blockedScreen \<or> pu_pathname target \<noteq> pu_pathname blockedScreen
      | _ \<Rightarrow> True)"

definition onBeforeNavigate :: "web_api \<Rightarrow> string \<Rightarrow> int \<Rightarrow> int \<Rightarrow> string \<Rightarrow> listener_state \<Rightarrow> listener_state" where
  "onBeforeNavigate web blockedScreenUrl tabId frameId url st =
     (let st1 = (case nonempty_string (extractRequestHostname web (Some url)) of
          Some host \<Rightarrow> if frameId = 0 then start_navigation tabId host st else st
        | None \<Rightarrow> st)
      in if shouldClearBlockedMonitorStateOnNavigate web frameId url blockedScreenUrl
         then st1\<lparr>ls_monitor := clearTabRuntimeState tabId (ls_monitor st1)\<rparr> else st1)"

text \<open>A history update of the page itself is judged as a navigation, by the allowed paths only.\<close>

definition onHistoryStateUpdated ::
  "web_api \<Rightarrow> string \<Rightarrow> policy_rules \<Rightarrow> int \<Rightarrow> int \<Rightarrow> int \<Rightarrow> string \<Rightarrow> listener_state \<Rightarrow>
   listener_state \<times> string option" where
  "onHistoryStateUpdated web ext po now tabId frameId url st =
     (if frameId \<noteq> 0 then (st, None)
      else case evaluateAllowedPath web
          \<lparr>ed_type = Some ''main_frame'', ed_url = url, ed_originUrl = None, ed_documentUrl = None\<rparr>
          (ars_rules (po_allowed po)) (ars_managedHosts (po_allowed po)) (Some ext) of
          None \<Rightarrow> (st, None)
        | Some result \<Rightarrow>
            (case nonempty_string (er_redirectUrl result) of
               None \<Rightarrow> (st, None)
             | Some redirectUrl \<Rightarrow>
                 (if tabId \<ge> 0
                  then st\<lparr>ls_monitor := addBlockedDomain web now tabId (known_hostname web url) (er_reason result) None
                         (ls_monitor st)\<rparr>
                  else st, Some redirectUrl)))"

definition onNavigationError :: "web_api \<Rightarrow> int \<Rightarrow> int \<Rightarrow> string \<Rightarrow> listener_state \<Rightarrow> listener_state" where
  "onNavigationError web tabId frameId url st =
     (case nonempty_string (extractRequestHostname web (Some url)) of
        Some host \<Rightarrow> if frameId = 0 then remember_hosts tabId [host] st else st
      | None \<Rightarrow> st)"

definition onTabRemoved :: "int \<Rightarrow> listener_state \<Rightarrow> listener_state" where
  "onTabRemoved tabId st =
     st\<lparr>ls_tabAnchorHosts := (ls_tabAnchorHosts st)(tabId := None),
        ls_recoveryHosts := (ls_recoveryHosts st)(tabId := None),
        ls_monitor := disposeTab tabId (ls_monitor st),
        ls_contexts := (ls_contexts st)\<lparr>pc_byTabAndDomain :=
          filter (\<lambda>(key, _). \<not> starts_with key (tab_prefix tabId)) (pc_byTabAndDomain (ls_contexts st))\<rparr>\<rparr>"

section \<open>Held requests\<close>

datatype readiness = Ready | Still_pending | Terminal

record dependency_response =
  dr_queued :: bool
  dr_state :: "string option"
  dr_success :: "bool option"

text \<open>\<open>None\<close> is an answer that is not an object.\<close>

definition resolveRuntimeDependencyReadiness :: "dependency_response option \<Rightarrow> readiness" where
  "resolveRuntimeDependencyReadiness response =
     (case response of
        None \<Rightarrow> Terminal
      | Some candidate \<Rightarrow>
          if dr_state candidate = Some ''ready'' then Ready
          else if dr_state candidate = Some ''pending'' \<or> dr_state candidate = Some ''queued'' then Still_pending
          else if dr_state candidate = Some ''denied'' \<or> dr_state candidate = Some ''error'' then Terminal
          else if dr_queued candidate then Still_pending
          else if dr_success candidate = Some False then Terminal
          else Still_pending)"

definition isPendingRuntimeDependencyResponse :: "dependency_response option \<Rightarrow> bool" where
  "isPendingRuntimeDependencyResponse response \<longleftrightarrow> resolveRuntimeDependencyReadiness response = Still_pending"

definition persistent_timeouts :: "(string \<times> nat) list" where
  "persistent_timeouts =
     [(''fetch'', 8000), (''xmlhttprequest'', 8000), (''image'', 8000), (''imageset'', 8000),
      (''script'', 10000), (''stylesheet'', 10000), (''font'', 10000)]"

definition soft_timeouts :: "(string \<times> nat) list" where
  "soft_timeouts =
     [(''fetch'', 5000), (''xmlhttprequest'', 5000), (''image'', 5000), (''imageset'', 5000),
      (''script'', 6000), (''stylesheet'', 6000), (''font'', 6000)]"

definition resolveLocalRuntimeDependencySoftTimeoutMs :: "string \<Rightarrow> nat option \<Rightarrow> bool \<Rightarrow> nat" where
  "resolveLocalRuntimeDependencySoftTimeoutMs requestType overrideMs persistent =
     (case overrideMs of
        Some t \<Rightarrow> t
      | None \<Rightarrow>
          (let normalizedType = to_lower requestType in
           if persistent then (case map_of persistent_timeouts normalizedType of Some t \<Rightarrow> t | None \<Rightarrow> 8000)
           else (case map_of soft_timeouts normalizedType of Some t \<Rightarrow> t | None \<Rightarrow> 5000)))"

text \<open>
  A held request is decided by the first event that decides: an answer that is not pending, a
  failure of the question, or the end of the time.
\<close>

datatype hold_event = Dependency_answer "dependency_response option" | Dependency_failed | Time_over bool

datatype hold_decision = Released | Cancelled

definition hold_event_decision :: "hold_event \<Rightarrow> hold_decision option" where
  "hold_event_decision e =
     (case e of
        Dependency_answer response \<Rightarrow>
          if isPendingRuntimeDependencyResponse response then None else Some Released
      | Dependency_failed \<Rightarrow> Some Released
      | Time_over shouldCancel \<Rightarrow> Some (if shouldCancel then Cancelled else Released))"

fun waitForLocalRuntimeDependencyDecision :: "hold_event list \<Rightarrow> hold_decision option" where
  "waitForLocalRuntimeDependencyDecision [] = None"
| "waitForLocalRuntimeDependencyDecision (e # es) =
     (case hold_event_decision e of
        Some d \<Rightarrow> Some d
      | None \<Rightarrow> waitForLocalRuntimeDependencyDecision es)"

section \<open>What is blocked, and how\<close>

text \<open>The page shown for a blocked navigation, and the tab's record of it.\<close>

definition shows_blocked_page :: "web_api \<Rightarrow> string \<Rightarrow> web_request \<Rightarrow> string \<Rightarrow> request_action \<Rightarrow> bool" where
  "shows_blocked_page web ext r reason act \<longleftrightarrow>
     (\<exists>origin. act = Redirect_to
        (buildBlockedScreenRedirectUrl web ext (known_hostname web (ed_url (wr_details r))) reason origin))"

definition recorded :: "web_api \<Rightarrow> web_request \<Rightarrow> string \<Rightarrow> listener_state \<Rightarrow> bool" where
  "recorded web r reason st \<longleftrightarrow>
     (\<exists>e. map_of (getBlockedDomainsForTab (wr_tabId r) (ls_monitor st))
            (known_hostname web (ed_url (wr_details r))) = Some e \<and> reason \<in> set (bd_errors e))"

lemma nonempty_string_iff [simp]: "nonempty_string x = Some s \<longleftrightarrow> x = Some s \<and> s \<noteq> []"
  by (auto simp: nonempty_string_def)

lemma nonempty_string_None [simp]: "nonempty_string x = None \<longleftrightarrow> x = None \<or> x = Some []"
  by (auto simp: nonempty_string_def)

text \<open>What an outcome of any of the five rules looks like.\<close>

definition screen_outcome :: "web_api \<Rightarrow> string \<Rightarrow> evaluation_details \<Rightarrow> evaluation_result \<Rightarrow> bool" where
  "screen_outcome web ext d r \<longleftrightarrow>
     (if ed_type d = Some ''main_frame''
      then \<exists>origin. er_redirectUrl r =
          Some (buildBlockedScreenRedirectUrl web ext (known_hostname web (ed_url d)) (er_reason r) origin)
      else er_redirectUrl r = None)"

lemma blocked_outcome_screen:
  "ext \<noteq> [] \<Longrightarrow> ed_type d = Some ''main_frame'' \<Longrightarrow> host = known_hostname web (ed_url d) \<Longrightarrow>
   screen_outcome web ext d (blocked_outcome web (Some ext) d host reason)"
  by (auto simp: screen_outcome_def blocked_outcome_def nonempty_string_def)

lemma cancel_outcome_screen:
  "ed_type d \<noteq> Some ''main_frame'' \<Longrightarrow> screen_outcome web ext d (cancel_outcome reason)"
  by (simp add: screen_outcome_def cancel_outcome_def)

lemmas screen_outcomes = blocked_outcome_screen cancel_outcome_screen

lemma path_screen:
  "ext \<noteq> [] \<Longrightarrow> evaluatePathBlocking web d rules (Some ext) = Some r \<Longrightarrow> screen_outcome web ext d r"
  by (auto simp: evaluatePathBlocking_def Let_def screen_outcomes split: if_splits option.splits)

lemma subdomain_screen:
  "ext \<noteq> [] \<Longrightarrow> evaluateSubdomainBlocking web d rules (Some ext) = Some r \<Longrightarrow> screen_outcome web ext d r"
  by (auto simp: evaluateSubdomainBlocking_def Let_def screen_outcomes split: if_splits option.splits)

lemma ip_screen:
  "ext \<noteq> [] \<Longrightarrow> evaluatePublicIpLiteral web d (Some ext) = Some r \<Longrightarrow> screen_outcome web ext d r"
  by (auto simp: evaluatePublicIpLiteral_def Let_def screen_outcomes known_hostname_def split: if_splits option.splits)

lemma allowed_screen:
  "ext \<noteq> [] \<Longrightarrow> evaluateAllowedPath web d rules hosts (Some ext) = Some r \<Longrightarrow> screen_outcome web ext d r"
  by (auto simp: evaluateAllowedPath_def shouldEnforceAllowedPath_def screen_outcomes known_hostname_def
      split: if_splits option.splits)

lemma game_screen:
  assumes "evaluateGoogleGameBlocking web d (Some ext) = Some r"
  shows "screen_outcome web ext d r"
proof -
  from assms obtain host where "extractHostname web (ed_url d) = Some host"
    by (auto simp: evaluateGoogleGameBlocking_def isGoogleGameUrl_def extractHostname_def split: option.splits)
  with assms show ?thesis
    by (auto simp: evaluateGoogleGameBlocking_def Let_def screen_outcome_def cancel_outcome_def known_hostname_def
        split: option.splits if_splits)
qed

lemma policy_screen:
  "ext \<noteq> [] \<Longrightarrow> policy_outcome web ext po d = Some r \<Longrightarrow> screen_outcome web ext d r"
  by (auto simp: policy_outcome_def nullish_def path_screen subdomain_screen ip_screen allowed_screen game_screen
      split: option.splits)

lemma addBlockedDomain_recorded:
  "\<exists>e. map_of (getBlockedDomainsForTab tabId (addBlockedDomain web now tabId host err origin st)) host = Some e \<and>
       err \<in> set (bd_errors e)"
  by (auto simp: addBlockedDomain_def getBlockedDomainsForTab_def stored_def Let_def update_conv add_last_def)

lemma allowed_request_action:
  "snd (allowed_request web r st) = Let_through \<or> (\<exists>dep. snd (allowed_request web r st) = Hold dep)"
  by (auto simp: allowed_request_def Let_def split: option.splits)

lemma blocked_request_action:
  "snd (blocked_request web now r result st) =
     (case nonempty_string (er_redirectUrl result) of Some u \<Rightarrow> Redirect_to u | None \<Rightarrow> Cancel_request)"
  by (simp add: blocked_request_def Let_def)

lemma blocked_request_recorded:
  "wr_tabId r \<ge> 0 \<Longrightarrow> recorded web r (er_reason result) (fst (blocked_request web now r result st))"
  using addBlockedDomain_recorded by (simp add: blocked_request_def recorded_def Let_def)

section \<open>When a rule catches a request\<close>

text \<open>
  The five kinds of rules, in the order in which they are asked, stated without the functions
  that evaluate them.  First the games of the search engine: a doodle host, or a Google host
  with the snake page or a logo whose path names a game.
\<close>

definition game_titles :: "string list list" where
  "game_titles =
     [[''snake''], [''pac'', ''man''], [''solitaire''], [''tic'', ''tac'', ''toe''], [''minesweeper''], [''memory''],
      [''arcade''], [''game'']]"

fun titled :: "string list \<Rightarrow> string \<Rightarrow> bool" where
  "titled [] s \<longleftrightarrow> s = []"
| "titled [w] s \<longleftrightarrow> to_lower s = w"
| "titled (w # v # ws) s \<longleftrightarrow>
     (\<exists>u gap t. s = u @ gap @ t \<and> to_lower u = w \<and>
        (gap = [] \<or> (\<exists>c. gap = [c] \<and> (js_space c \<or> c \<in> set ''._-''))) \<and> titled (v # ws) t)"

definition google_site :: "string \<Rightarrow> bool" where
  "google_site host \<longleftrightarrow>
     (\<exists>front rest. host = front @ ''google.'' @ rest \<and>
        (front = [] \<or> (\<exists>p. front = p @ ''.'' \<and> p \<noteq> [] \<and> list_all line_char p)) \<and>
        rest \<noteq> [] \<and> list_all (\<lambda>c. alpha_char c \<or> c = CHR ''.'') rest)"

definition game_page :: "parsed_url \<Rightarrow> string \<Rightarrow> bool" where
  "game_page page kind \<longleftrightarrow>
     (let host = to_lower (pu_hostname page); path = pu_pathname page in
      if host = ''doodles.google'' \<or> suffix ''.doodles.google'' host then kind = ''doodles''
      else google_site host \<and>
        (path = ''/fbx'' \<and> (\<exists>v. pu_param page ''fbx'' = Some v \<and> to_lower v = ''snake_arcade'') \<and> kind = ''snake'' \<or>
         prefix ''/logos/'' path \<and> (\<exists>u w v. path = u @ w @ v \<and> (\<exists>title \<in> set game_titles. titled title w)) \<and>
           kind = ''logo-game''))"

datatype rule_kind = Path_rule | Public_address | Subdomain_rule | Allowed_path_gate | Search_game

definition rule_kinds :: "rule_kind list" where
  "rule_kinds = [Path_rule, Public_address, Subdomain_rule, Allowed_path_gate, Search_game]"

text \<open>
  Each kind with the reason it gives.  A path rule catches four types of requests, the gate of
  the allowed paths navigations only; the pages of the extension itself are free from all but
  the last kind.
\<close>

definition rule_matches :: "web_api \<Rightarrow> evaluation_details \<Rightarrow> regex list \<Rightarrow> bool" where
  "rule_matches web d regexes \<longleftrightarrow> (\<exists>rx \<in> set regexes. \<exists>u \<in> set (candidate_urls web (ed_url d)). matches rx u)"

definition host_within :: "string \<Rightarrow> string \<Rightarrow> bool" where
  "host_within domain host \<longleftrightarrow> to_lower host = domain \<or> suffix (CHR ''.'' # domain) (to_lower host)"

inductive catches :: "web_api \<Rightarrow> policy_rules \<Rightarrow> evaluation_details \<Rightarrow> rule_kind \<Rightarrow> string \<Rightarrow> bool"
  for web :: web_api and po :: policy_rules and d :: evaluation_details where
  by_path:
    "ed_type d \<in> Some ` {''main_frame'', ''sub_frame'', ''xmlhttprequest'', ''fetch''} \<Longrightarrow> \<not> isExtensionUrl (ed_url d) \<Longrightarrow>
     rule \<in> set (prs_rules (po_paths po)) \<Longrightarrow> rule_matches web d (cpr_regexes rule) \<Longrightarrow>
     catches web po d Path_rule (''BLOCKED_PATH_POLICY:'' @ cpr_rawRule rule)"
| by_address:
    "\<not> isExtensionUrl (ed_url d) \<Longrightarrow> wa_parse web (ed_url d) = Some page \<Longrightarrow> pu_hostname page \<noteq> [] \<Longrightarrow>
     public_address (pu_hostname page) \<Longrightarrow>
     catches web po d Public_address (''PUBLIC_IP_LITERAL_POLICY:'' @ pu_hostname page)"
| by_subdomain:
    "\<not> isExtensionUrl (ed_url d) \<Longrightarrow> wa_parse web (ed_url d) = Some page \<Longrightarrow> pu_hostname page \<noteq> [] \<Longrightarrow>
     rule \<in> set (srs_rules (po_subdomains po)) \<Longrightarrow> host_within (csr_normalizedRule rule) (pu_hostname page) \<Longrightarrow>
     catches web po d Subdomain_rule (''BLOCKED_SUBDOMAIN_POLICY:'' @ csr_rawRule rule)"
| by_gate:
    "ed_type d = Some ''main_frame'' \<Longrightarrow> \<not> isExtensionUrl (ed_url d) \<Longrightarrow>
     wa_parse web (ed_url d) = Some page \<Longrightarrow> pu_hostname page \<noteq> [] \<Longrightarrow>
     managed \<in> set (ars_managedHosts (po_allowed po)) \<Longrightarrow> host_within managed (pu_hostname page) \<Longrightarrow>
     (\<And>rule. rule \<in> set (ars_rules (po_allowed po)) \<Longrightarrow> \<not> rule_matches web d (car_regexes rule)) \<Longrightarrow>
     catches web po d Allowed_path_gate (''ALLOWED_PATH_POLICY:'' @ pu_hostname page)"
| by_game:
    "wa_parse web (ed_url d) = Some page \<Longrightarrow> game_page page kind \<Longrightarrow>
     catches web po d Search_game (''GOOGLE_GAME_POLICY:'' @ kind)"

inductive_simps catches_path: "catches web po d Path_rule reason"
inductive_simps catches_address: "catches web po d Public_address reason"
inductive_simps catches_subdomain: "catches web po d Subdomain_rule reason"
inductive_simps catches_gate: "catches web po d Allowed_path_gate reason"
inductive_simps catches_game: "catches web po d Search_game reason"

text \<open>An evaluator finds exactly the requests of its kind, and gives a reason of that kind.\<close>

definition finds :: "evaluation_result option \<Rightarrow> (string \<Rightarrow> bool) \<Rightarrow> bool" where
  "finds found caught \<longleftrightarrow>
     (case found of None \<Rightarrow> \<forall>reason. \<not> caught reason | Some r \<Rightarrow> caught (er_reason r))"

lemma er_reason_outcomes [simp]:
  "er_reason (blocked_outcome web origin d host reason) = reason"
  "er_reason (cancel_outcome reason) = reason"
  by (simp_all add: blocked_outcome_def cancel_outcome_def split: option.splits)

lemma enforced_types:
  "shouldEnforcePathBlocking ty \<longleftrightarrow> ty \<in> Some ` {''main_frame'', ''sub_frame'', ''xmlhttprequest'', ''fetch''}"
  by (cases ty) (auto simp: shouldEnforcePathBlocking_def nonempty_string_def PATH_BLOCKING_FILTER_TYPES_def)

lemma rule_matches_test:
  "list_ex (\<lambda>r. list_ex (regex_test r) (candidate_urls web (ed_url d))) regexes \<longleftrightarrow> rule_matches web d regexes"
  by (simp add: rule_matches_def list_ex_iff regex_test_iff)

lemma find_finds:
  assumes "\<And>x. x \<in> set xs \<Longrightarrow> P x \<Longrightarrow> caught (er_reason (g x))"
    and "\<And>reason. caught reason \<Longrightarrow> \<exists>x \<in> set xs. P x"
  shows "finds (case List.find P xs of None \<Rightarrow> None | Some x \<Rightarrow> Some (g x)) caught"
proof (cases "List.find P xs")
  case None
  then have "\<not> (\<exists>x \<in> set xs. P x)" by (auto simp: find_None_iff)
  with assms(2) None show ?thesis by (auto simp: finds_def)
next
  case (Some x)
  then have "x \<in> set xs" "P x" by (auto simp: find_Some_iff)
  with assms(1) Some show ?thesis by (simp add: finds_def)
qed

lemma path_finds:
  "finds (evaluatePathBlocking web d (prs_rules (po_paths po)) (Some ext)) (catches web po d Path_rule)"
proof (cases "shouldEnforcePathBlocking (ed_type d) \<and> \<not> isExtensionUrl (ed_url d)")
  case False
  then show ?thesis by (auto simp: evaluatePathBlocking_def finds_def catches_path enforced_types)
next
  case True
  then show ?thesis
    unfolding evaluatePathBlocking_def findMatchingBlockedPathRule_def rule_matches_test Let_def
    by (auto intro!: find_finds simp: catches_path enforced_types ROUTE_BLOCK_REASON_def)
qed

lemma address_finds: "finds (evaluatePublicIpLiteral web d (Some ext)) (catches web po d Public_address)"
proof (cases "wa_parse web (ed_url d)")
  case None
  then show ?thesis
    by (simp add: evaluatePublicIpLiteral_def finds_def catches_address extractHostname_def nonempty_string_def)
next
  case (Some page)
  then show ?thesis
    by (auto simp: evaluatePublicIpLiteral_def finds_def catches_address extractHostname_def nonempty_string_def
        isPublicIpLiteralHost_iff PUBLIC_IP_LITERAL_REASON_def Let_def)
qed

lemma subdomain_finds:
  "finds (evaluateSubdomainBlocking web d (srs_rules (po_subdomains po)) (Some ext)) (catches web po d Subdomain_rule)"
proof (cases "wa_parse web (ed_url d)")
  case None
  then show ?thesis
    by (simp add: evaluateSubdomainBlocking_def findMatchingBlockedSubdomainRule_def finds_def catches_subdomain
        extractHostname_def nonempty_string_def)
next
  case (Some page)
  have hit: "subdomain_rule_hit (to_lower (pu_hostname page)) =
      (\<lambda>rule. host_within (csr_normalizedRule rule) (pu_hostname page))"
    by (rule ext) (simp add: subdomain_rule_hit_def host_within_def ends_with_def)
  have empty: "to_lower (pu_hostname page) = [] \<longleftrightarrow> pu_hostname page = []" by (simp add: to_lower_def)
  show ?thesis
  proof (cases "isExtensionUrl (ed_url d) \<or> pu_hostname page = []")
    case True
    with Some show ?thesis
      by (auto simp: evaluateSubdomainBlocking_def findMatchingBlockedSubdomainRule_def finds_def catches_subdomain
          extractHostname_def nonempty_string_def)
  next
    case False
    then have "findMatchingBlockedSubdomainRule web (ed_url d) (srs_rules (po_subdomains po)) =
        List.find (\<lambda>rule. host_within (csr_normalizedRule rule) (pu_hostname page)) (srs_rules (po_subdomains po))"
      using Some hit by (simp add: findMatchingBlockedSubdomainRule_def extractHostname_def nonempty_string_def empty)
    with Some False show ?thesis
      unfolding evaluateSubdomainBlocking_def Let_def
      by (auto intro!: find_finds simp: catches_subdomain BLOCKED_SUBDOMAIN_REASON_def)
  qed
qed

lemma gate_finds:
  "finds (evaluateAllowedPath web d (ars_rules (po_allowed po)) (ars_managedHosts (po_allowed po)) (Some ext))
     (catches web po d Allowed_path_gate)"
proof (cases "wa_parse web (ed_url d)")
  case None
  then show ?thesis
    by (simp add: evaluateAllowedPath_def finds_def catches_gate extractHostname_def nonempty_string_def)
next
  case (Some page)
  have "isHostManaged (pu_hostname page) hosts \<longleftrightarrow> (\<exists>managed \<in> set hosts. host_within managed (pu_hostname page))"
    for hosts
    by (simp add: isHostManaged_def host_within_def ends_with_def list_ex_iff Let_def)
  moreover have "urlMatchesAllowedRule web (ed_url d) rules \<longleftrightarrow> (\<exists>rule \<in> set rules. rule_matches web d (car_regexes rule))"
    for rules
    by (simp only: urlMatchesAllowedRule_def rule_matches_test) (simp add: list_ex_iff)
  ultimately show ?thesis using Some
    by (auto simp: evaluateAllowedPath_def finds_def catches_gate extractHostname_def nonempty_string_def
        shouldEnforceAllowedPath_def ALLOWED_PATH_BLOCK_REASON_def)
qed

lemma matches_folded_str: "matches (folded_str w) s \<longleftrightarrow> to_lower s = to_lower w"
proof (induction w arbitrary: s)
  case (Cons c w)
  then show ?case
    by (cases s) (auto simp: folded_str_def folded_char_def matches_seq_set)
qed (simp add: folded_str_def)

lemma matches_word_gap:
  "matches word_gap s \<longleftrightarrow> s = [] \<or> (\<exists>c. s = [c] \<and> (js_space c \<or> c \<in> set ''._-''))"
  by (auto simp: word_gap_def matches_opt)

lemma logo_pattern_titles: "matches GOOGLE_GAME_LOGO_PATTERN s \<longleftrightarrow> (\<exists>title \<in> set game_titles. titled title s)"
proof -
  have lower: "to_lower ''snake'' = ''snake''" "to_lower ''pac'' = ''pac''" "to_lower ''man'' = ''man''"
    "to_lower ''solitaire'' = ''solitaire''" "to_lower ''tic'' = ''tic''" "to_lower ''tac'' = ''tac''"
    "to_lower ''toe'' = ''toe''" "to_lower ''minesweeper'' = ''minesweeper''" "to_lower ''memory'' = ''memory''"
    "to_lower ''arcade'' = ''arcade''" "to_lower ''game'' = ''game''"
    by code_simp+
  have seq: "matches (RSeq (folded_str w) (RSeq word_gap r)) s \<longleftrightarrow>
      (\<exists>u gap t. s = u @ gap @ t \<and> to_lower u = to_lower w \<and>
        (gap = [] \<or> (\<exists>c. gap = [c] \<and> (js_space c \<or> c \<in> set ''._-''))) \<and> matches r t)" for w r s
    unfolding matches_RSeq matches_folded_str matches_word_gap by blast
  show ?thesis
    unfolding GOOGLE_GAME_LOGO_PATTERN_def matches_RAlt seq matches_folded_str lower game_titles_def
    by (simp only: list.set insert_iff bex_simps titled.simps empty_iff simp_thms)
qed

lemma regex_search_iff: "regex_search r s \<longleftrightarrow> (\<exists>u w v. s = u @ w @ v \<and> matches r w)"
  by (auto simp: regex_search_def regex_test_iff matches_RSeq matches_star_set list_all_iff)

lemma isGoogleHost_site: "isGoogleHost (to_lower h) \<longleftrightarrow> google_site (to_lower h)"
proof -
  have fixed: "to_lower u = u" if "to_lower h = front @ u @ rest" for front u rest
  proof -
    have "to_lower (to_lower h) = to_lower h" by simp
    with that show ?thesis by (metis append_eq_append_conv length_to_lower to_lower_append)
  qed
  have lower: "to_lower ''google.'' = ''google.''" by code_simp
  have plus: "matches (r_plus (RSet P)) t \<longleftrightarrow> t \<noteq> [] \<and> list_all P t" for P t
    by (cases t) (auto simp: r_plus_def matches_seq_set matches_star_set)
  have front: "matches (r_opt (RSeq (r_plus (RSet line_char)) (r_char (CHR ''.'')))) f \<longleftrightarrow>
      f = [] \<or> (\<exists>p. f = p @ ''.'' \<and> p \<noteq> [] \<and> list_all line_char p)" for f
    by (auto simp: matches_opt matches_RSeq [of _ "r_char _"] plus)
  have "isGoogleHost (to_lower h) \<longleftrightarrow>
      (\<exists>f u t. to_lower h = f @ u @ t \<and> (f = [] \<or> (\<exists>p. f = p @ ''.'' \<and> p \<noteq> [] \<and> list_all line_char p)) \<and>
         to_lower u = ''google.'' \<and> t \<noteq> [] \<and> list_all (\<lambda>c. alpha_char c \<or> c = CHR ''.'') t)"
    unfolding isGoogleHost_def regex_test_iff matches_RSeq [of _ "RSeq _ _"] matches_RSeq [of "folded_str _"]
      front plus matches_folded_str lower by blast
  also have "\<dots> \<longleftrightarrow> google_site (to_lower h)"
  proof
    assume "\<exists>f u t. to_lower h = f @ u @ t \<and> (f = [] \<or> (\<exists>p. f = p @ ''.'' \<and> p \<noteq> [] \<and> list_all line_char p)) \<and>
         to_lower u = ''google.'' \<and> t \<noteq> [] \<and> list_all (\<lambda>c. alpha_char c \<or> c = CHR ''.'') t"
    then obtain f u t where u: "to_lower h = f @ u @ t" "to_lower u = ''google.''"
      and "f = [] \<or> (\<exists>p. f = p @ ''.'' \<and> p \<noteq> [] \<and> list_all line_char p)"
        "t \<noteq> []" "list_all (\<lambda>c. alpha_char c \<or> c = CHR ''.'') t" by blast
    moreover have "u = ''google.''" using fixed [OF u(1)] u(2) by simp
    ultimately show "google_site (to_lower h)" unfolding google_site_def by blast
  next
    assume "google_site (to_lower h)"
    then show "\<exists>f u t. to_lower h = f @ u @ t \<and> (f = [] \<or> (\<exists>p. f = p @ ''.'' \<and> p \<noteq> [] \<and> list_all line_char p)) \<and>
         to_lower u = ''google.'' \<and> t \<noteq> [] \<and> list_all (\<lambda>c. alpha_char c \<or> c = CHR ''.'') t"
      unfolding google_site_def using lower by blast
  qed
  finally show ?thesis .
qed

lemma game_found:
  assumes "wa_parse web url = Some page"
  shows "case isGoogleGameUrl web url of
      None \<Rightarrow> \<forall>kind. \<not> game_page page kind
    | Some g \<Rightarrow> game_page page (game_kind g)"
proof -
  have doodles: "isDoodlesHost host \<longleftrightarrow> host = ''doodles.google'' \<or> suffix ''.doodles.google'' host" for host
    by (simp add: isDoodlesHost_def ends_with_def)
  have snake: "to_lower (case v of Some x \<Rightarrow> x | None \<Rightarrow> []) = ''snake_arcade'' \<longleftrightarrow>
      (\<exists>x. v = Some x \<and> to_lower x = ''snake_arcade'')" for v
    by (cases v) auto
  have logo: "starts_with (pu_pathname page) ''/logos/'' \<and> regex_search GOOGLE_GAME_LOGO_PATTERN (pu_pathname page) \<longleftrightarrow>
      prefix ''/logos/'' (pu_pathname page) \<and>
      (\<exists>u w v. pu_pathname page = u @ w @ v \<and> (\<exists>title \<in> set game_titles. titled title w))"
    by (simp add: starts_with_def regex_search_iff logo_pattern_titles)
  show ?thesis
    unfolding isGoogleGameUrl_def assms option.case Let_def doodles isGoogleHost_site snake logo game_page_def
    by (simp add: game_kind_def)
qed

lemma game_finds: "finds (evaluateGoogleGameBlocking web d (Some ext)) (catches web po d Search_game)"
proof (cases "wa_parse web (ed_url d)")
  case None
  then show ?thesis by (simp add: evaluateGoogleGameBlocking_def isGoogleGameUrl_def finds_def catches_game)
next
  case (Some page)
  show ?thesis
  proof (cases "isGoogleGameUrl web (ed_url d)")
    case None
    with game_found [OF Some] Some show ?thesis
      by (simp add: evaluateGoogleGameBlocking_def finds_def catches_game)
  next
    case (Some g)
    have "\<exists>r. evaluateGoogleGameBlocking web d (Some ext) = Some r \<and>
        er_reason r = ''GOOGLE_GAME_POLICY:'' @ game_kind g"
      using Some
      by (auto simp: evaluateGoogleGameBlocking_def Let_def GOOGLE_GAME_POLICY_REASON_def split: option.split bool.split)
    moreover have "game_page page (game_kind g)"
      using game_found [OF \<open>wa_parse web (ed_url d) = Some page\<close>] Some by simp
    ultimately show ?thesis
      using \<open>wa_parse web (ed_url d) = Some page\<close> by (auto simp: finds_def catches_game)
  qed
qed

text \<open>A kind of rule catches a request first when no kind before it catches the request.\<close>

definition first_catch :: "web_api \<Rightarrow> policy_rules \<Rightarrow> evaluation_details \<Rightarrow> string \<Rightarrow> bool" where
  "first_catch web po d reason \<longleftrightarrow>
     (\<exists>before kind later. rule_kinds = before @ kind # later \<and> catches web po d kind reason \<and>
        (\<forall>k \<in> set before. \<forall>reason'. \<not> catches web po d k reason'))"

lemma policy_outcome_first:
  "case policy_outcome web ext po d of
     None \<Rightarrow> \<forall>kind reason. \<not> catches web po d kind reason
   | Some r \<Rightarrow> first_catch web po d (er_reason r)"
proof -
  let ?c = "catches web po d"
  have firstI: "first_catch web po d reason"
    if "rule_kinds = before @ kind # later" "?c kind reason" "\<And>k reason'. k \<in> set before \<Longrightarrow> \<not> ?c k reason'"
    for before kind later reason
    unfolding first_catch_def using that by blast
  note finds = path_finds [of web d po ext] address_finds [of web d ext po] subdomain_finds [of web d po ext]
    gate_finds [of web d po ext] game_finds [of web d ext po]
  have kinds: "(\<forall>kind. P kind) \<longleftrightarrow> P Path_rule \<and> P Public_address \<and> P Subdomain_rule \<and> P Allowed_path_gate \<and> P Search_game"
    for P by (metis rule_kind.exhaust)
  have "?c Path_rule reason \<Longrightarrow> first_catch web po d reason" for reason
    by (rule firstI [of "[]"]) (simp_all add: rule_kinds_def)
  moreover have "\<forall>reason. \<not> ?c Path_rule reason \<Longrightarrow> ?c Public_address reason \<Longrightarrow> first_catch web po d reason" for reason
    by (rule firstI [of "[Path_rule]"]) (auto simp: rule_kinds_def)
  moreover have "\<forall>reason. \<not> ?c Path_rule reason \<Longrightarrow> \<forall>reason. \<not> ?c Public_address reason \<Longrightarrow>
      ?c Subdomain_rule reason \<Longrightarrow> first_catch web po d reason" for reason
    by (rule firstI [of "[Path_rule, Public_address]"]) (auto simp: rule_kinds_def)
  moreover have "\<forall>reason. \<not> ?c Path_rule reason \<Longrightarrow> \<forall>reason. \<not> ?c Public_address reason \<Longrightarrow>
      \<forall>reason. \<not> ?c Subdomain_rule reason \<Longrightarrow> ?c Allowed_path_gate reason \<Longrightarrow> first_catch web po d reason" for reason
    by (rule firstI [of "[Path_rule, Public_address, Subdomain_rule]"]) (auto simp: rule_kinds_def)
  moreover have "\<forall>reason. \<not> ?c Path_rule reason \<Longrightarrow> \<forall>reason. \<not> ?c Public_address reason \<Longrightarrow>
      \<forall>reason. \<not> ?c Subdomain_rule reason \<Longrightarrow> \<forall>reason. \<not> ?c Allowed_path_gate reason \<Longrightarrow>
      ?c Search_game reason \<Longrightarrow> first_catch web po d reason" for reason
    by (rule firstI [of "[Path_rule, Public_address, Subdomain_rule, Allowed_path_gate]"]) (auto simp: rule_kinds_def)
  ultimately show ?thesis
    using finds unfolding policy_outcome_def nullish_def finds_def kinds
    by (simp split: option.splits)
qed

text \<open>C11: the policy decides every request.  A request that no rule catches is let through, or
  held when it is a resource of another host than the page's; one that a rule catches never is:
  a navigation of the page goes to the blocked page, every other request is cancelled, and the
  tab's list of blocked domains has the host, with the reason given by a rule that catches the
  request, of the first kind that does.  When a rule of each kind catches a request is stated
  apart from the code: a compiled path rule by its expressions, a public address by the address
  blocks, a blocked subdomain by its name, the gate of the allowed paths by the managed hosts
  and the allowed expressions, the games by their addresses.\<close>

theorem request_decided:
  assumes "ext \<noteq> []" "\<And>base ps. wa_href web BLOCKED_SCREEN_PATH base ps \<noteq> []"
    and "onBeforeRequest web ext po now r st = (st', act)"
  shows "if \<exists>kind reason. catches web po (wr_details r) kind reason
    then \<exists>reason. first_catch web po (wr_details r) reason \<and>
      (if ed_type (wr_details r) = Some ''main_frame'' then shows_blocked_page web ext r reason act
       else act = Cancel_request) \<and>
      (wr_tabId r \<ge> 0 \<longrightarrow> recorded web r reason st')
    else act = Let_through \<or> (\<exists>dep. act = Hold dep)"
proof (cases "policy_outcome web ext po (wr_details r)")
  case None
  with policy_outcome_first [of web po "wr_details r" ext]
  have "\<not> (\<exists>kind reason. catches web po (wr_details r) kind reason)" by simp
  moreover have "act = Let_through \<or> (\<exists>dep. act = Hold dep)"
    using None assms(3) allowed_request_action [of web r st] by (simp add: onBeforeRequest_def)
  ultimately show ?thesis by simp
next
  case (Some result)
  then have first: "first_catch web po (wr_details r) (er_reason result)"
    using policy_outcome_first [of web po "wr_details r" ext] by simp
  then have "\<exists>kind reason. catches web po (wr_details r) kind reason" by (auto simp: first_catch_def)
  moreover from Some have "blocked_request web now r result st = (st', act)"
    using assms(3) by (simp add: onBeforeRequest_def)
  then have st: "st' = fst (blocked_request web now r result st)"
    and act: "act = snd (blocked_request web now r result st)" by simp_all
  have "[] \<noteq> buildBlockedScreenRedirectUrl web ext host reason origin" for host reason origin
    unfolding buildBlockedScreenRedirectUrl_def by (rule assms(2) [symmetric])
  with policy_screen [OF assms(1) Some] have
    "if ed_type (wr_details r) = Some ''main_frame'' then shows_blocked_page web ext r (er_reason result) act
     else act = Cancel_request"
    by (auto simp: act blocked_request_action shows_blocked_page_def screen_outcome_def nonempty_string_def
        split: if_splits)
  moreover have "wr_tabId r \<ge> 0 \<longrightarrow> recorded web r (er_reason result) st'"
    using blocked_request_recorded by (simp add: st)
  ultimately show ?thesis using first by (auto intro!: exI [of _ "er_reason result"])
qed

definition initial_listener :: listener_state where
  "initial_listener =
     \<lparr>ls_tabAnchorHosts = (\<lambda>_. None), ls_recoveryHosts = (\<lambda>_. None), ls_cancelledPending = [],
      ls_monitor = createBlockedMonitorState, ls_contexts = \<lparr>pc_byTabAndDomain = [], pc_latestByDomain = []\<rparr>\<rparr>"

definition no_rules :: policy_rules where
  "no_rules =
     \<lparr>po_paths = initial_path_rules, po_subdomains = initial_subdomain_rules, po_allowed = initial_allowed_rules\<rparr>"

definition ads_rules :: policy_rules where
  "ads_rules = no_rules\<lparr>po_subdomains := \<lparr>srs_version = ''1'', srs_rules = compileBlockedSubdomainRules [''*.ads.com''] None\<rparr>\<rparr>"

definition example_image :: web_request where
  "example_image =
     \<lparr>wr_details = \<lparr>ed_type = Some ''image'', ed_url = ''https://x.ads.com/p.png'', ed_originUrl = None,
        ed_documentUrl = Some ''https://a.com/''\<rparr>, wr_tabId = 1, wr_frameId = 0, wr_requestId = None\<rparr>"

lemma request_decided_witness:
  "\<exists>st' act. onBeforeRequest example_web ''ext'' ads_rules 0 example_image initial_listener = (st', act) \<and>
     act = Cancel_request \<and> (\<exists>reason. recorded example_web example_image reason st')"
proof -
  obtain st' act where step: "onBeforeRequest example_web ''ext'' ads_rules 0 example_image initial_listener = (st', act)"
    by (rule prod.exhaust)
  let ?d = "wr_details example_image"
  have "srs_rules (po_subdomains ads_rules) = [\<lparr>csr_rawRule = ''*.ads.com'', csr_normalizedRule = ''ads.com''\<rparr>]"
    by code_simp
  moreover have "\<not> isExtensionUrl (ed_url ?d)" by code_simp
  moreover have "wa_parse example_web (ed_url ?d) = Some (example_url ''x.ads.com'' ''/p.png'' ''https://x.ads.com/p.png'')"
  proof -
    have "starts_with (ed_url ?d) ''https://''" "before_first (CHR ''/'') (drop 8 (ed_url ?d)) = ''x.ads.com''"
      "after_first (CHR ''/'') (drop 8 (ed_url ?d)) = ''p.png''" "ed_url ?d = ''https://x.ads.com/p.png''"
      by code_simp+
    then show ?thesis by (simp add: example_web_def)
  qed
  moreover have "to_lower ''x.ads.com'' = ''x.ads.com''" by code_simp
  then have "host_within ''ads.com'' ''x.ads.com''" by (simp add: host_within_def suffix_def)
  ultimately have "catches example_web ads_rules ?d Subdomain_rule (''BLOCKED_SUBDOMAIN_POLICY:'' @ ''*.ads.com'')"
    by (auto simp: catches_subdomain example_url_def)
  then have caught: "\<exists>kind reason. catches example_web ads_rules ?d kind reason" by blast
  have "wa_href example_web BLOCKED_SCREEN_PATH base ps \<noteq> []" for base ps
    by (simp add: example_web_def BLOCKED_SCREEN_PATH_def)
  from request_decided [OF _ this step] caught step show ?thesis
    by (auto simp: example_image_def)
qed

section \<open>The hosts remembered for a tab\<close>

definition recovery_char :: "char \<Rightarrow> bool" where
  "recovery_char c \<longleftrightarrow> host_alnum c \<or> c = CHR ''-'' \<or> c = CHR ''.''"

definition host_text :: "string \<Rightarrow> bool" where
  "host_text s \<longleftrightarrow> s \<noteq> [] \<and> list_all recovery_char s \<and> host_alnum (last s)"

lemma label_host_text: "matches label_regex s \<Longrightarrow> host_text s"
  by (auto simp: label_regex_def matches_seq_set matches_opt matches_RSeq matches_range_set host_text_def recovery_char_def
      list_all_iff)

lemma recovery_host_text: "matches recovery_host_regex s \<Longrightarrow> host_text s"
proof -
  assume "matches recovery_host_regex s"
  then obtain u ps where s: "s = u @ concat ps" "ps \<noteq> []" and u: "matches label_regex u"
    and ps: "list_all (matches (RSeq (r_char (CHR ''.'')) label_regex)) ps"
    by (auto simp: recovery_host_regex_def matches_RSeq matches_plus_concat)
  have "host_text p" if "p \<in> set ps" for p
  proof -
    from that ps obtain t where "p = CHR ''.'' # t" "matches label_regex t"
      by (auto simp: list_all_iff matches_seq_char)
    with label_host_text [of t] show ?thesis by (simp add: host_text_def recovery_char_def)
  qed
  with s(2) have "host_text (concat ps)"
    by (induction ps rule: list_nonempty_induct) (auto simp: host_text_def list_all_iff)
  with label_host_text [OF u] show ?thesis by (simp add: s host_text_def)
qed

lemma recovery_char_plain: "recovery_char c \<Longrightarrow> \<not> js_space c \<and> to_lower_char c = c"
  by (auto simp: recovery_char_def host_alnum_def lower_alpha_char_def digit_char_def js_space_def to_lower_char_def
      upper_char_def Let_def)

lemma host_text_plain:
  assumes "host_text s"
  shows "js_trim s = s \<and> strip_suffix ''.'' s = s \<and> to_lower s = s"
proof -
  have "\<not> js_space c" "to_lower_char c = c" if "c \<in> set s" for c
    using that assms recovery_char_plain by (auto simp: host_text_def list_all_iff)
  moreover from this(2) have "to_lower s = s" by (simp add: to_lower_def map_idI)
  moreover have "\<not> suffix ''.'' s"
  proof
    assume "suffix ''.'' s"
    then have "last s = CHR ''.''" by (auto simp: suffix_def)
    with assms show False by (simp add: host_text_def host_alnum_def lower_alpha_char_def digit_char_def)
  qed
  ultimately show ?thesis by (simp add: js_trim_no_space strip_suffix_def)
qed

lemma normalize_recovery_text: "normalizeCaptivePortalRecoveryHost x = Some h \<Longrightarrow> host_text h"
  by (auto simp: normalizeCaptivePortalRecoveryHost_def Let_def regex_test_iff recovery_host_text split: if_splits)

lemma normalize_recovery_idem:
  assumes "normalizeCaptivePortalRecoveryHost x = Some h"
  shows "normalizeCaptivePortalRecoveryHost (Some h) = Some h"
  using assms host_text_plain [OF normalize_recovery_text [OF assms]]
  by (auto simp: normalizeCaptivePortalRecoveryHost_def Let_def split: if_splits)

text \<open>The listeners share their state and run one after the other, in any order of events.\<close>

datatype listener_event =
    Request_start policy_rules int web_request
  | Request_error int web_request
  | Hold_cancelled int "string option"
  | Navigation_start int int string
  | History_update policy_rules int int int string
  | Navigation_error int int string
  | Tab_closed int

fun listener_step :: "web_api \<Rightarrow> string \<Rightarrow> string \<Rightarrow> listener_event \<Rightarrow> listener_state \<Rightarrow> listener_state" where
  "listener_step web ext screenUrl (Request_start po now r) st = fst (onBeforeRequest web ext po now r st)"
| "listener_step web ext screenUrl (Request_error now r) st = fst (onRequestError web now r st)"
| "listener_step web ext screenUrl (Hold_cancelled now requestId) st =
     st\<lparr>ls_cancelledPending := rememberCancelledPendingRequest now requestId (ls_cancelledPending st)\<rparr>"
| "listener_step web ext screenUrl (Navigation_start tabId frameId url) st =
     onBeforeNavigate web screenUrl tabId frameId url st"
| "listener_step web ext screenUrl (History_update po now tabId frameId url) st =
     fst (onHistoryStateUpdated web ext po now tabId frameId url st)"
| "listener_step web ext screenUrl (Navigation_error tabId frameId url) st = onNavigationError web tabId frameId url st"
| "listener_step web ext screenUrl (Tab_closed tabId) st = onTabRemoved tabId st"

inductive listener_reachable :: "web_api \<Rightarrow> string \<Rightarrow> string \<Rightarrow> listener_state \<Rightarrow> bool"
  for web :: web_api and ext screenUrl :: string where
  start: "listener_reachable web ext screenUrl initial_listener"
| step: "listener_reachable web ext screenUrl st \<Longrightarrow>
    listener_reachable web ext screenUrl (listener_step web ext screenUrl e st)"

definition recovery_hosts_ok :: "recovery_hosts \<Rightarrow> bool" where
  "recovery_hosts_ok m \<longleftrightarrow>
     (\<forall>tabId hosts. m tabId = Some hosts \<longrightarrow>
        0 \<le> tabId \<and> length hosts \<le> MAX_CAPTIVE_PORTAL_RECOVERY_HOSTS \<and> distinct hosts \<and>
        (\<forall>h \<in> set hosts. normalizeCaptivePortalRecoveryHost (Some h) = Some h))"

lemma recovery_ok_remember:
  "recovery_hosts_ok m \<Longrightarrow> recovery_hosts_ok (rememberCaptivePortalRecoveryHost tabId h m)"
  by (cases "m tabId")
    (auto simp: recovery_hosts_ok_def rememberCaptivePortalRecoveryHost_def Let_def stored_def add_last_def
      MAX_CAPTIVE_PORTAL_RECOVERY_HOSTS_def dest: normalize_recovery_idem split: option.split)

lemma recovery_ok_forget: "recovery_hosts_ok m \<Longrightarrow> recovery_hosts_ok (m(tabId := None))"
  by (simp add: recovery_hosts_ok_def)

lemma recovery_ok_start:
  "recovery_hosts_ok m \<Longrightarrow> recovery_hosts_ok (startCaptivePortalRecoveryNavigation tabId h m)"
  by (simp add: startCaptivePortalRecoveryNavigation_def recovery_ok_remember recovery_ok_forget)

lemma recovery_ok_hosts:
  "recovery_hosts_ok (ls_recoveryHosts st) \<Longrightarrow> recovery_hosts_ok (ls_recoveryHosts (remember_hosts tabId hs st))"
  unfolding remember_hosts_def by (induction hs arbitrary: st rule: rev_induct) (simp_all add: recovery_ok_remember)

lemma recovery_ok_navigation:
  "recovery_hosts_ok (ls_recoveryHosts st) \<Longrightarrow> recovery_hosts_ok (ls_recoveryHosts (start_navigation tabId h st))"
  by (simp add: start_navigation_def recovery_ok_start)

lemmas recovery_ok = recovery_ok_forget recovery_ok_hosts recovery_ok_navigation

lemma recovery_ok_step:
  assumes "recovery_hosts_ok (ls_recoveryHosts st)"
  shows "recovery_hosts_ok (ls_recoveryHosts (listener_step web ext screenUrl e st))"
proof (cases e)
  case (Request_start po now r)
  with assms show ?thesis
    by (auto simp: onBeforeRequest_def allowed_request_def blocked_request_def Let_def recovery_ok split: option.split)
next
  case (Request_error now r)
  have "recovery_hosts_ok (ls_recoveryHosts (st\<lparr>ls_cancelledPending := c\<rparr>))" for c using assms by simp
  with Request_error show ?thesis
    by (auto simp: onRequestError_def Let_def recovery_ok_hosts split: option.split prod.split)
next
  case (Navigation_start tabId frameId url)
  with assms show ?thesis by (auto simp: onBeforeNavigate_def Let_def recovery_ok split: option.split)
next
  case (History_update po now tabId frameId url)
  with assms show ?thesis by (auto simp: onHistoryStateUpdated_def split: option.split)
next
  case (Navigation_error tabId frameId url)
  with assms show ?thesis by (auto simp: onNavigationError_def recovery_ok split: option.split)
qed (use assms in \<open>simp_all add: onTabRemoved_def recovery_ok\<close>)

lemma recovery_ok_reachable:
  "listener_reachable web ext screenUrl st \<Longrightarrow> recovery_hosts_ok (ls_recoveryHosts st)"
proof (induction rule: listener_reachable.induct)
  case start
  show ?case by (simp add: initial_listener_def recovery_hosts_ok_def)
next
  case (step st e)
  show ?case using step.IH by (rule recovery_ok_step)
qed

text \<open>C40: after any events, the hosts offered for the recovery of a captive portal are at most
  sixteen, all different, and each is a complete host name in normal form: several labels of
  lower-case letters, digits and inner hyphens, no address, no local name.\<close>

theorem recovery_hosts_bounded:
  assumes "listener_reachable web ext screenUrl st"
  shows "length (getCaptivePortalRecoveryHosts tabId host (ls_recoveryHosts st)) \<le> 16 \<and>
    distinct (getCaptivePortalRecoveryHosts tabId host (ls_recoveryHosts st)) \<and>
    (\<forall>h \<in> set (getCaptivePortalRecoveryHosts tabId host (ls_recoveryHosts st)).
       normalizeCaptivePortalRecoveryHost (Some h) = Some h \<and> host_text h)"
proof -
  define hosts where "hosts = stored (ls_recoveryHosts st tabId)"
  define all where "all = (case normalizeCaptivePortalRecoveryHost (Some host) of
      Some h \<Rightarrow> add_last h hosts | None \<Rightarrow> hosts)"
  have "distinct hosts \<and> (\<forall>h \<in> set hosts. normalizeCaptivePortalRecoveryHost (Some h) = Some h)"
    using recovery_ok_reachable [OF assms]
    by (auto simp: hosts_def recovery_hosts_ok_def stored_def split: option.split)
  then have "distinct all \<and> (\<forall>h \<in> set all. normalizeCaptivePortalRecoveryHost (Some h) = Some h)"
    by (auto simp: all_def add_last_def dest: normalize_recovery_idem split: option.split)
  then have "distinct (take 16 all) \<and> (\<forall>h \<in> set (take 16 all). normalizeCaptivePortalRecoveryHost (Some h) = Some h)"
    by (auto dest: in_set_takeD)
  moreover have "getCaptivePortalRecoveryHosts tabId host (ls_recoveryHosts st) = take 16 all"
    unfolding getCaptivePortalRecoveryHosts_def all_def hosts_def MAX_CAPTIVE_PORTAL_RECOVERY_HOSTS_def Let_def by simp
  ultimately show ?thesis using normalize_recovery_text by auto
qed

lemma recovery_hosts_bounded_witness:
  "\<exists>st. listener_reachable example_web ''ext'' ''https://s/'' st \<and>
     getCaptivePortalRecoveryHosts 1 ''B.org.'' (ls_recoveryHosts st) = [''a.com'', ''b.org''] \<and>
     length (getCaptivePortalRecoveryHosts 1 ''B.org.'' (ls_recoveryHosts st)) \<le> 16"
proof -
  let ?st = "listener_step example_web ''ext'' ''https://s/'' (Navigation_start 1 0 ''https://a.com/'') initial_listener"
  have st: "listener_reachable example_web ''ext'' ''https://s/'' ?st"
    by (intro listener_reachable.intros)
  moreover have "getCaptivePortalRecoveryHosts 1 ''B.org.'' (ls_recoveryHosts ?st) = [''a.com'', ''b.org'']"
    by code_simp
  ultimately show ?thesis using recovery_hosts_bounded [OF st] by blast
qed

text \<open>With sixteen hosts remembered, the host of the navigation itself is not among those offered.\<close>

lemma trigger_host_left_out:
  assumes "length (stored (m tabId)) = 16" "h \<notin> set (stored (m tabId))" "normalizeCaptivePortalRecoveryHost (Some host) = Some h"
  shows "h \<notin> set (getCaptivePortalRecoveryHosts tabId host m)"
  using assms
  by (simp add: getCaptivePortalRecoveryHosts_def add_last_def MAX_CAPTIVE_PORTAL_RECOVERY_HOSTS_def)

section \<open>The end of a held request\<close>

lemma hold_pending_prefix:
  "\<forall>e \<in> set before. hold_event_decision e = None \<Longrightarrow>
   waitForLocalRuntimeDependencyDecision (before @ es) = waitForLocalRuntimeDependencyDecision es"
  by (induction before) simp_all

lemma hold_decided:
  "waitForLocalRuntimeDependencyDecision es = Some d \<longleftrightarrow>
   (\<exists>before e later. es = before @ e # later \<and> (\<forall>x \<in> set before. hold_event_decision x = None) \<and>
      hold_event_decision e = Some d)"
  (is "_ \<longleftrightarrow> ?decided es")
proof
  show "waitForLocalRuntimeDependencyDecision es = Some d \<Longrightarrow> ?decided es"
  proof (induction es)
    case (Cons e es)
    show ?case
    proof (cases "hold_event_decision e")
      case None
      with Cons obtain before x later where "es = before @ x # later" "\<forall>y \<in> set before. hold_event_decision y = None"
        "hold_event_decision x = Some d" by auto
      with None show ?thesis by (intro exI [of _ "e # before"] exI [of _ x] exI [of _ later]) simp
    next
      case (Some d')
      with Cons.prems show ?thesis by (intro exI [of _ "[]"]) simp
    qed
  qed simp
qed (auto simp: hold_pending_prefix)

lemma soft_timeout_bound: "resolveLocalRuntimeDependencySoftTimeoutMs requestType None persistent \<le> 10000"
proof -
  have "t \<le> 10000" if "map_of persistent_timeouts ty = Some t \<or> map_of soft_timeouts ty = Some t" for ty t
  proof -
    from that have "(ty, t) \<in> set persistent_timeouts \<or> (ty, t) \<in> set soft_timeouts"
      using map_of_SomeD by metis
    then show ?thesis by (auto simp: persistent_timeouts_def soft_timeouts_def)
  qed
  then show ?thesis
    by (auto simp: resolveLocalRuntimeDependencySoftTimeoutMs_def Let_def split: option.split)
qed

text \<open>A held request is decided as soon as its time is over, and cancelled only then, while
  every answer so far left it open; the time is never more than ten seconds unless it is set by
  hand.\<close>

theorem held_request_decided:
  assumes "Time_over b \<in> set es"
  shows "\<exists>d. waitForLocalRuntimeDependencyDecision es = Some d \<and>
    (d = Cancelled \<longleftrightarrow> (\<exists>before later. es = before @ Time_over True # later \<and>
       (\<forall>x \<in> set before. \<exists>response. x = Dependency_answer response \<and>
          resolveRuntimeDependencyReadiness response = Still_pending))) \<and>
    resolveLocalRuntimeDependencySoftTimeoutMs requestType None persistent \<le> 10000"
proof -
  have none: "hold_event_decision x = None \<longleftrightarrow> (\<exists>response. x = Dependency_answer response \<and>
      resolveRuntimeDependencyReadiness response = Still_pending)" for x
    by (cases x) (auto simp: hold_event_decision_def isPendingRuntimeDependencyResponse_def)
  have cancelled: "hold_event_decision x = Some Cancelled \<longleftrightarrow> x = Time_over True" for x
    by (cases x) (auto simp: hold_event_decision_def)
  from assms obtain before later where es: "es = before @ Time_over b # later"
    by (auto dest: split_list)
  have "waitForLocalRuntimeDependencyDecision es \<noteq> None"
    unfolding es by (induction before) (auto simp: hold_event_decision_def split: option.split)
  then obtain d where d: "waitForLocalRuntimeDependencyDecision es = Some d" by blast
  have "d = Cancelled \<longleftrightarrow> waitForLocalRuntimeDependencyDecision es = Some Cancelled"
    by (auto simp: d)
  also have "\<dots> \<longleftrightarrow> (\<exists>before later. es = before @ Time_over True # later \<and>
      (\<forall>x \<in> set before. \<exists>response. x = Dependency_answer response \<and>
         resolveRuntimeDependencyReadiness response = Still_pending))"
    unfolding hold_decided none cancelled by blast
  finally show ?thesis using d soft_timeout_bound by blast
qed

lemma held_request_decided_witness:
  "\<exists>d. waitForLocalRuntimeDependencyDecision
     [Dependency_answer (Some \<lparr>dr_queued = True, dr_state = None, dr_success = None\<rparr>), Time_over True] = Some d \<and>
     resolveLocalRuntimeDependencySoftTimeoutMs ''script'' None True \<le> 10000"
proof -
  let ?es = "[Dependency_answer (Some \<lparr>dr_queued = True, dr_state = None, dr_success = None\<rparr>), Time_over True]"
  have "Time_over True \<in> set ?es" by simp
  from held_request_decided [OF this, of "''script''" True] show ?thesis by blast
qed

end
