(* ===== verification/Extension_Agreement.thy ===== *)
theory Extension_Agreement
  imports Groups_Storage Url_Rules
begin

text \<open>
  Server and extension on blocked subdomains.  The server refuses to approve a request for a
  host its own check \<open>isDomainBlocked\<close> finds blocked
  (\<open>api/src/lib/groups-storage-rules-query.ts\<close>); the extension compiles the same rules and
  judges every request with them (\<open>firefox-extension/src/lib/subdomain-blocking.ts\<close>).  The two
  are written differently; here they are compared.
\<close>

text \<open>A rule as the server stores it: trimmed, and not only a wildcard.\<close>

definition blocked_rule_value :: "string \<Rightarrow> bool" where
  "blocked_rule_value v \<longleftrightarrow> js_trim v = v \<and> normalized_subdomain_rule v \<noteq> []"

lemma subdomain_hit_same:
  assumes "CHR ''*'' \<notin> set host" "js_trim v = v"
  shows "subdomain_pattern_hit host (to_lower v) \<longleftrightarrow>
    host = normalized_subdomain_rule v \<or> ends_with host (CHR ''.'' # normalized_subdomain_rule v)"
proof (cases "prefix ''*.'' (to_lower v)")
  case True
  then obtain base where v: "to_lower v = ''*.'' @ base" by (auto simp: prefix_def)
  have "host \<noteq> ''*.'' @ base" "\<not> suffix (CHR ''.'' # ''*.'' @ base) host"
    using assms(1) by (auto simp: suffix_def)
  with assms(2) show ?thesis
    by (simp add: subdomain_pattern_hit_def normalized_subdomain_rule_def v starts_with_def ends_with_def
        strip_prefix_def)
next
  case False
  with assms(2) show ?thesis
    by (auto simp: subdomain_pattern_hit_def normalized_subdomain_rule_def starts_with_def strip_prefix_def)
qed

lemma compiled_subdomains:
  "list_all blocked_rule_value rules \<Longrightarrow>
   csr_normalizedRule ` set (compile_subdomains seen rules) = normalized_subdomain_rule ` set rules - set seen"
  by (induction rules arbitrary: seen) (auto simp: blocked_rule_value_def Let_def)

lemma find_hit: "List.find P xs \<noteq> None \<longleftrightarrow> (\<exists>x \<in> set xs. P x)"
  by (simp add: Db_Tables.find_None_iff)

lemma subdomain_blocked_iff:
  assumes "\<not> isExtensionUrl (ed_url d)" "extractHostname web (ed_url d) = Some host" "host \<noteq> []" "to_lower host = host"
  shows "evaluateSubdomainBlocking web d rules ext \<noteq> None \<longleftrightarrow>
    (\<exists>rule \<in> csr_normalizedRule ` set rules. host = rule \<or> ends_with host (CHR ''.'' # rule))"
proof -
  have "evaluateSubdomainBlocking web d rules ext \<noteq> None \<longleftrightarrow> List.find (subdomain_rule_hit host) rules \<noteq> None"
    using assms
    by (simp add: evaluateSubdomainBlocking_def findMatchingBlockedSubdomainRule_def nonempty_string_def Let_def
        split: option.split)
  then show ?thesis unfolding find_hit by (simp add: subdomain_rule_hit_def)
qed

lemma isDomainBlocked_rules:
  "bcr_blocked (isDomainBlocked ck now gid domain s) \<longleftrightarrow>
   (\<exists>v \<in> set (getBlockedSubdomains ck now gid s). subdomain_pattern_hit (normalize_domain domain) (to_lower v))"
proof -
  let ?hit = "\<lambda>r. subdomain_pattern_hit (normalize_domain domain) (to_lower (ar_value r))"
  have "bcr_blocked (isDomainBlocked ck now gid domain s) \<longleftrightarrow>
      List.find ?hit (getRulesByGroup ck now gid (Some Blocked_subdomain) None s) \<noteq> None"
    by (simp add: isDomainBlocked_def Let_def split: option.split)
  then show ?thesis unfolding find_hit by (simp add: getBlockedSubdomains_def)
qed


definition example_request :: evaluation_details where
  "example_request =
     \<lparr>ed_type = Some ''main_frame'', ed_url = ''https://x.ads.example.com/'', ed_originUrl = None, ed_documentUrl = None\<rparr>"


end
