(* ===== verification/Account_Recovery.thy ===== *)
theory Account_Recovery
  imports Sessions
begin

text \<open>
  Ways into an account besides the login: reset of a password and verification of an e-mail
  address (\<open>api/src/lib/reset-token-storage.ts\<close>, \<open>email-verification-token-storage.ts\<close>,
  \<open>api/src/services/auth-account-recovery.service.ts\<close>), registration (\<open>register\<close> of
  \<open>auth-session.service.ts\<close>), the profile (\<open>auth-profile.service.ts\<close>) and the login with Google
  (\<open>auth-google.service.ts\<close>).

  Both storages keep the hashes of tokens that are good for one use; the locale
  \<open>one_time_tokens\<close> is what the services rely on.  \<open>hash\<close> and \<open>compare\<close> are those of \<open>bcrypt\<close>, the
  texts of tokens and identifiers are arguments, and \<open>verify\<close> is the check of a Google identity,
  an error message when it fails or takes too long.
\<close>

section \<open>The tables of tokens\<close>

record one_time_row =
  otr_id :: string
  otr_userId :: string
  otr_tokenHash :: string
  otr_expiresAt :: int

record recovery_db =
  rdb_accounts :: account_db
  rdb_resets :: "one_time_row table"
  rdb_verifications :: "one_time_row table"

text \<open>\<open>date.setHours(date.getHours() + n)\<close>.\<close>

definition add_hours :: "(int \<Rightarrow> int) \<Rightarrow> (int \<Rightarrow> int) \<Rightarrow> int \<Rightarrow> int \<Rightarrow> int" where
  "add_hours tz utc n d = utc (d + tz d + n * 3600000)"

definition put_token :: "string list \<Rightarrow> one_time_row \<Rightarrow> one_time_row table \<Rightarrow> db_error + one_time_row table" where
  "put_token users row t =
     (if row_by otr_id (otr_id row) t \<noteq> None then Inl Unique_violation
      else if otr_userId row \<notin> set users then Inl Foreign_key_violation
      else Inr (ins_row row t))"

definition createResetToken ::
  "(string \<Rightarrow> string) \<Rightarrow> (int \<Rightarrow> int) \<Rightarrow> (int \<Rightarrow> int) \<Rightarrow> int \<Rightarrow> string \<Rightarrow> string \<Rightarrow> string list \<Rightarrow> string \<Rightarrow>
   one_time_row table \<Rightarrow> db_error + one_time_row table" where
  "createResetToken hash tz utc now newId token users userId t =
     put_token users
       \<lparr>otr_id = newId, otr_userId = userId, otr_tokenHash = hash token, otr_expiresAt = add_hours tz utc 1 now\<rparr> t"

definition token_found :: "(string \<Rightarrow> string \<Rightarrow> bool) \<Rightarrow> int \<Rightarrow> string \<Rightarrow> string \<Rightarrow> one_time_row table \<Rightarrow> bool" where
  "token_found compare now userId token t \<longleftrightarrow>
     list_ex (\<lambda>row. compare token (otr_tokenHash row))
       (sel_where (\<lambda>r. otr_userId r = userId \<and> otr_expiresAt r > now) t)"

definition deleteUserTokens :: "string \<Rightarrow> one_time_row table \<Rightarrow> one_time_row table" where
  "deleteUserTokens userId t = del_where (\<lambda>r. otr_userId r = userId) t"

definition verifyResetToken ::
  "(string \<Rightarrow> string \<Rightarrow> bool) \<Rightarrow> int \<Rightarrow> string \<Rightarrow> string \<Rightarrow> one_time_row table \<Rightarrow> bool \<times> one_time_row table" where
  "verifyResetToken compare now userId token t =
     (if token_found compare now userId token t then (True, deleteUserTokens userId t) else (False, t))"

definition EMAIL_VERIFICATION_TTL_HOURS :: int where
  "EMAIL_VERIFICATION_TTL_HOURS = 24"

definition deleteUserEmailVerificationTokens :: "string \<Rightarrow> one_time_row table \<Rightarrow> one_time_row table" where
  "deleteUserEmailVerificationTokens userId t = del_where (\<lambda>r. otr_userId r = userId) t"

definition createEmailVerificationToken ::
  "(string \<Rightarrow> string) \<Rightarrow> (int \<Rightarrow> int) \<Rightarrow> (int \<Rightarrow> int) \<Rightarrow> int \<Rightarrow> string \<Rightarrow> string \<Rightarrow> string list \<Rightarrow> string \<Rightarrow>
   one_time_row table \<Rightarrow> db_error + one_time_row table" where
  "createEmailVerificationToken hash tz utc now newId token users userId t =
     put_token users
       \<lparr>otr_id = newId, otr_userId = userId, otr_tokenHash = hash token,
        otr_expiresAt = add_hours tz utc EMAIL_VERIFICATION_TTL_HOURS now\<rparr>
       (deleteUserEmailVerificationTokens userId t)"

definition verifyEmailVerificationToken ::
  "(string \<Rightarrow> string \<Rightarrow> bool) \<Rightarrow> int \<Rightarrow> string \<Rightarrow> string \<Rightarrow> one_time_row table \<Rightarrow> bool \<times> one_time_row table" where
  "verifyEmailVerificationToken compare now userId token t =
     (if token_found compare now userId token t then (True, deleteUserEmailVerificationTokens userId t) else (False, t))"

section \<open>The services\<close>

text \<open>An error inside the \<open>try\<close> of a service is returned with its message.\<close>

definition unauthorized :: "(db_error \<Rightarrow> string) \<Rightarrow> db_error \<Rightarrow> 'a outcome" where
  "unauthorized driver e = Fail (Unauthorized (getErrorMessage driver e))"

definition rdb_user_ids :: "recovery_db \<Rightarrow> string list" where
  "rdb_user_ids db = user_ids (rdb_accounts db)"

record verification_response =
  vrs_email :: string
  vrs_token :: string
  vrs_expiresAt :: int

definition issueEmailVerificationToken ::
  "(string \<Rightarrow> string) \<Rightarrow> (int \<Rightarrow> int) \<Rightarrow> (int \<Rightarrow> int) \<Rightarrow> int \<Rightarrow> string \<Rightarrow> string \<Rightarrow> string \<Rightarrow> string \<Rightarrow> recovery_db \<Rightarrow>
   db_error + verification_response \<times> recovery_db" where
  "issueEmailVerificationToken hash tz utc now newId token userId email db =
     and_then (createEmailVerificationToken hash tz utc now newId token (rdb_user_ids db) userId (rdb_verifications db)) (\<lambda>t.
       Inr (\<lparr>vrs_email = email, vrs_token = token,
             vrs_expiresAt = add_hours tz utc EMAIL_VERIFICATION_TTL_HOURS now\<rparr>,
            db\<lparr>rdb_verifications := t\<rparr>))"

definition generateEmailVerificationToken ::
  "(db_error \<Rightarrow> string) \<Rightarrow> (string \<Rightarrow> string) \<Rightarrow> (int \<Rightarrow> int) \<Rightarrow> (int \<Rightarrow> int) \<Rightarrow> int \<Rightarrow> string \<Rightarrow> string \<Rightarrow> string \<Rightarrow>
   recovery_db \<Rightarrow> verification_response outcome \<times> recovery_db" where
  "generateEmailVerificationToken driver hash tz utc now newId token email db =
     (case getUserByEmail email (rdb_accounts db) of
        None \<Rightarrow> (Fail (Not_found ''User not found''), db)
      | Some user \<Rightarrow>
          if usr_emailVerified user then (Fail (Conflict ''Email is already verified''), db)
          else (case issueEmailVerificationToken hash tz utc now newId token (usr_id user) (usr_email user) db of
              Inl e \<Rightarrow> (unauthorized driver e, db)
            | Inr (response, db1) \<Rightarrow> (Ok response, db1)))"

definition svc_verifyEmail ::
  "(string \<Rightarrow> string \<Rightarrow> bool) \<Rightarrow> int \<Rightarrow> string \<Rightarrow> string \<Rightarrow> recovery_db \<Rightarrow> unit outcome \<times> recovery_db" where
  "svc_verifyEmail compare now email token db =
     (case getUserByEmail email (rdb_accounts db) of
        None \<Rightarrow> (Fail (Not_found ''User not found''), db)
      | Some user \<Rightarrow>
          if usr_emailVerified user then (Ok (), db)
          else
            let (isValid, t) = verifyEmailVerificationToken compare now (usr_id user) token (rdb_verifications db);
                (verified, acc) = verifyEmail now (usr_id user) (rdb_accounts db)
            in if \<not> isValid then (Fail (Bad_request ''Invalid or expired verification token''), db)
               else (if verified then Ok () else Fail (Bad_request ''Invalid or expired verification token''),
                     db\<lparr>rdb_verifications := t, rdb_accounts := acc\<rparr>))"

definition generateResetToken ::
  "(db_error \<Rightarrow> string) \<Rightarrow> (string \<Rightarrow> string) \<Rightarrow> (int \<Rightarrow> int) \<Rightarrow> (int \<Rightarrow> int) \<Rightarrow> int \<Rightarrow> string \<Rightarrow> string \<Rightarrow> string \<Rightarrow>
   recovery_db \<Rightarrow> string outcome \<times> recovery_db" where
  "generateResetToken driver hash tz utc now newId token email db =
     (case getUserByEmail email (rdb_accounts db) of
        None \<Rightarrow> (Fail (Not_found ''User not found''), db)
      | Some user \<Rightarrow>
          (case createResetToken hash tz utc now newId token (rdb_user_ids db) (usr_id user) (rdb_resets db) of
             Inl e \<Rightarrow> (unauthorized driver e, db)
           | Inr t \<Rightarrow> (Ok token, db\<lparr>rdb_resets := t\<rparr>)))"

definition new_password :: "string \<Rightarrow> update_user_data" where
  "new_password p = \<lparr>uud_email = None, uud_name = None, uud_password = Some p\<rparr>"

definition resetPassword ::
  "(db_error \<Rightarrow> string) \<Rightarrow> (string \<Rightarrow> string) \<Rightarrow> (string \<Rightarrow> string \<Rightarrow> bool) \<Rightarrow> int \<Rightarrow> string \<Rightarrow> string \<Rightarrow> string \<Rightarrow> recovery_db \<Rightarrow>
   unit outcome \<times> recovery_db" where
  "resetPassword driver hash compare now email token newPassword db =
     (case getUserByEmail email (rdb_accounts db) of
        None \<Rightarrow> (Fail (Not_found ''User not found''), db)
      | Some user \<Rightarrow>
          let (isValid, t) = verifyResetToken compare now (usr_id user) token (rdb_resets db)
          in if \<not> isValid then (Fail (Unauthorized ''Invalid or expired token''), db)
             else (case updateUser hash now (usr_id user) (new_password newPassword) (rdb_accounts db) of
                 Inl e \<Rightarrow> (unauthorized driver e, db)
               | Inr (updated, acc) \<Rightarrow>
                   (if updated \<noteq> None then Ok () else Fail (Unauthorized ''Invalid or expired token''),
                    db\<lparr>rdb_resets := t, rdb_accounts := acc\<rparr>)))"

definition auth_register ::
  "(db_error \<Rightarrow> string) \<Rightarrow> (string \<Rightarrow> string) \<Rightarrow> (int \<Rightarrow> int) \<Rightarrow> (int \<Rightarrow> int) \<Rightarrow> int \<Rightarrow> string \<Rightarrow> string \<Rightarrow> string \<Rightarrow>
   create_user_data \<Rightarrow> recovery_db \<Rightarrow> (safe_user \<times> role_info list \<times> verification_response) outcome \<times> recovery_db" where
  "auth_register driver hash tz utc now newId newTokenId token input db =
     (if emailExists (cud_email input) (rdb_accounts db) then (Fail (Conflict ''Email already registered''), db)
      else case and_then (createUser hash newId now input (Some False) (rdb_accounts db)) (\<lambda>(user, acc).
          and_then (issueEmailVerificationToken hash tz utc now newTokenId token (su_id user) (su_email user)
            (db\<lparr>rdb_accounts := acc\<rparr>)) (\<lambda>(response, db1). Inr (user, response, db1))) of
          Inl e \<Rightarrow> (unauthorized driver e, db)
        | Inr (user, response, db1) \<Rightarrow>
            (Ok (user, mapRoleInfo (getUserRoles (su_id user) (rdb_accounts db1)), response), db1))"

definition getProfile :: "string \<Rightarrow> account_db \<Rightarrow> (user_row \<times> role_info list) outcome" where
  "getProfile userId db =
     (case getUserById userId db of
        None \<Rightarrow> Fail (Not_found ''User not found'')
      | Some user \<Rightarrow> Ok (user, mapRoleInfo (getUserRoles (usr_id user) db)))"

definition changePassword ::
  "(db_error \<Rightarrow> string) \<Rightarrow> (string \<Rightarrow> string) \<Rightarrow> (string \<Rightarrow> string \<Rightarrow> bool) \<Rightarrow> int \<Rightarrow> string \<Rightarrow> string \<Rightarrow> string \<Rightarrow> account_db \<Rightarrow>
   unit outcome \<times> account_db" where
  "changePassword driver hash compare now userId currentPassword newPassword db =
     (if currentPassword = [] \<or> newPassword = []
      then (Fail (Bad_request ''Current and new password are required''), db)
      else if length newPassword < 8 then (Fail (Bad_request ''New password must be at least 8 characters''), db)
      else case getUserById userId db of
          None \<Rightarrow> (Fail (Not_found ''User not found''), db)
        | Some user \<Rightarrow>
            if \<not> verifyPassword compare user currentPassword
            then (Fail (Bad_request ''Current password is incorrect''), db)
            else (case updateUser hash now (usr_id user) (new_password newPassword) db of
                Inl e \<Rightarrow> (unauthorized driver e, db)
              | Inr (_, db1) \<Rightarrow> (Ok (), db1)))"

section \<open>Login with Google\<close>

record google_payload =
  gp_email :: string
  gp_sub :: string

definition google_error :: "string \<Rightarrow> service_error" where
  "google_error m =
     Unauthorized (if includes_str m ''timed out'' then ''Google verification timed out. Please try again.''
                   else ''Google authentication failed'')"

text \<open>The account for a Google identity: the linked one, or the one with the address, which is then linked.\<close>

definition google_account ::
  "int \<Rightarrow> google_payload \<Rightarrow> account_db \<Rightarrow> db_error + (bool \<times> user_row option) \<times> account_db" where
  "google_account now p db =
     (case getUserByGoogleId (gp_sub p) db of
        Some user \<Rightarrow> Inr ((True, Some user), db)
      | None \<Rightarrow>
          (case getUserByEmail (gp_email p) db of
             None \<Rightarrow> Inr ((False, None), db)
           | Some existing \<Rightarrow>
               and_then (linkGoogleId now (usr_id existing) (gp_sub p) db) (\<lambda>(_, db1).
                 let db2 = (if usr_emailVerified existing then db1 else snd (verifyEmail now (usr_id existing) db1))
                 in Inr ((True, getUserById (usr_id existing) db2), db2))))"

definition loginWithGoogle ::
  "(db_error \<Rightarrow> string) \<Rightarrow> (string \<Rightarrow> raw_payload \<Rightarrow> string) \<Rightarrow> string \<times> string \<Rightarrow> string \<Rightarrow>
   (string \<Rightarrow> string + google_payload option) \<Rightarrow> int \<Rightarrow> string \<Rightarrow> account_db \<Rightarrow>
   (token_pair \<times> user_row \<times> role_info list) outcome \<times> account_db" where
  "loginWithGoogle driver sign jtis googleClientId verify now idToken db =
     (if googleClientId = [] then (Fail (Unauthorized ''Google OAuth not configured''), db)
      else case verify idToken of
          Inl m \<Rightarrow> (Fail (google_error m), db)
        | Inr None \<Rightarrow> (Fail (Unauthorized ''Invalid Google token''), db)
        | Inr (Some p) \<Rightarrow>
            if gp_email p = [] \<or> gp_sub p = [] then (Fail (Unauthorized ''Invalid Google token''), db)
            else (case google_account now p db of
                Inl e \<Rightarrow> (Fail (google_error (getErrorMessage driver e)), db)
              | Inr ((known, found), db1) \<Rightarrow>
                  (if \<not> known
                   then Fail (Forbidden ''Google sign-in is only available for existing or preapproved accounts'')
                   else case found of
                       None \<Rightarrow> Fail (Unauthorized ''Failed to create or find user'')
                     | Some user \<Rightarrow>
                         if \<not> usr_isActive user then Fail (Forbidden ''Account inactive'')
                         else if \<not> usr_emailVerified user then Fail (Forbidden verification_required)
                         else let roleInfo = mapRoleInfo (getUserRoles (usr_id user) db1)
                              in Ok (generateTokens sign jtis user roleInfo, user, roleInfo),
                   db1)))"

section \<open>The contract of one-time tokens\<close>

text \<open>
  \<open>valid\<close> says that a token would be accepted for a user now, \<open>redeem\<close> accepts it, \<open>issue\<close> stores
  a new one.
\<close>

datatype 'i token_event = Issue 'i string | Redeem int string string

locale one_time_tokens =
  fixes valid :: "int \<Rightarrow> string \<Rightarrow> string \<Rightarrow> 't \<Rightarrow> bool"
    and redeem :: "int \<Rightarrow> string \<Rightarrow> string \<Rightarrow> 't \<Rightarrow> bool \<times> 't"
    and issue :: "'i \<Rightarrow> string \<Rightarrow> 't \<Rightarrow> db_error + 't"
  assumes redeem_valid: "fst (redeem now u tok t) \<longleftrightarrow> valid now u tok t"
    and redeem_uses: "valid now u tok t \<Longrightarrow> \<not> valid now' u tok' (snd (redeem now u tok t))"
    and redeem_invalid: "\<not> valid now u tok t \<Longrightarrow> snd (redeem now u tok t) = t"
    and redeem_other: "u' \<noteq> u \<Longrightarrow> valid now' u' tok' (snd (redeem now u tok t)) \<longleftrightarrow> valid now' u' tok' t"
    and issue_other: "issue i u t = Inr t' \<Longrightarrow> u' \<noteq> u \<Longrightarrow> valid now' u' tok' t' \<longleftrightarrow> valid now' u' tok' t"
begin

definition closed :: "string \<Rightarrow> 't \<Rightarrow> bool" where
  "closed u t \<longleftrightarrow> (\<forall>now tok. \<not> valid now u tok t)"

lemma redeemed_closed: "fst (redeem now u tok t) \<Longrightarrow> closed u (snd (redeem now u tok t))"
  by (simp add: closed_def redeem_valid redeem_uses)

lemma closed_redeem: "closed u t \<Longrightarrow> closed u (snd (redeem now u' tok t))"
  unfolding closed_def by (metis redeem_uses redeem_invalid redeem_other)

lemma closed_issue: "closed u t \<Longrightarrow> issue i u' t = Inr t' \<Longrightarrow> u' \<noteq> u \<Longrightarrow> closed u t'"
  unfolding closed_def using issue_other by metis

lemma closed_refuses: "closed u t \<Longrightarrow> \<not> fst (redeem now u tok t)"
  by (simp add: closed_def redeem_valid)

end

lemma token_found_iff:
  "token_found compare now u tok t \<longleftrightarrow>
   (\<exists>r \<in> set t. otr_userId r = u \<and> now < otr_expiresAt r \<and> compare tok (otr_tokenHash r))"
  by (auto simp: token_found_def list_ex_iff sel_where_def)

lemma put_token_set: "put_token users row t = Inr t' \<Longrightarrow> set t' = insert row (set t)"
  by (auto simp: put_token_def set_ins_row split: if_splits)

text \<open>Both storages keep it; what is issued is described by the arguments of the storage.\<close>

interpretation reset_tokens: one_time_tokens "token_found compare" "verifyResetToken compare"
  "\<lambda>(hash, tz, utc, now, newId, token, users) u t. createResetToken hash tz utc now newId token users u t"
  by unfold_locales
    (auto simp: verifyResetToken_def token_found_iff deleteUserTokens_def set_del_where createResetToken_def
      dest!: put_token_set split: prod.splits)

interpretation verification_tokens: one_time_tokens "token_found compare" "verifyEmailVerificationToken compare"
  "\<lambda>(hash, tz, utc, now, newId, token, users) u t. createEmailVerificationToken hash tz utc now newId token users u t"
  by unfold_locales
    (auto simp: verifyEmailVerificationToken_def token_found_iff deleteUserEmailVerificationTokens_def set_del_where
      createEmailVerificationToken_def dest!: put_token_set split: prod.splits)

section \<open>Runs of the services\<close>

text \<open>
  What can happen between two requests: any service of this theory, and any other change of the
  accounts, where the tokens of a deleted user go with the user.
\<close>

datatype recovery_event =
    Ask_reset int string string string
  | Reset int string string string
  | Ask_verification int string string string
  | Verify_mail int string string
  | Register int string string string create_user_data
  | Accounts_changed account_db

definition keep_users :: "account_db \<Rightarrow> one_time_row table \<Rightarrow> one_time_row table" where
  "keep_users acc t = filter (\<lambda>r. otr_userId r \<in> set (user_ids acc)) t"

fun recovery_step ::
  "(db_error \<Rightarrow> string) \<Rightarrow> (string \<Rightarrow> string) \<Rightarrow> (string \<Rightarrow> string \<Rightarrow> bool) \<Rightarrow> (int \<Rightarrow> int) \<Rightarrow> (int \<Rightarrow> int) \<Rightarrow>
   recovery_event \<Rightarrow> recovery_db \<Rightarrow> recovery_db" where
  "recovery_step driver hash compare tz utc (Ask_reset now newId token email) db =
     snd (generateResetToken driver hash tz utc now newId token email db)"
| "recovery_step driver hash compare tz utc (Reset now email token p) db =
     snd (resetPassword driver hash compare now email token p db)"
| "recovery_step driver hash compare tz utc (Ask_verification now newId token email) db =
     snd (generateEmailVerificationToken driver hash tz utc now newId token email db)"
| "recovery_step driver hash compare tz utc (Verify_mail now email token) db =
     snd (svc_verifyEmail compare now email token db)"
| "recovery_step driver hash compare tz utc (Register now newId newTokenId token input) db =
     snd (auth_register driver hash tz utc now newId newTokenId token input db)"
| "recovery_step driver hash compare tz utc (Accounts_changed acc) db =
     \<lparr>rdb_accounts = acc, rdb_resets = keep_users acc (rdb_resets db),
      rdb_verifications = keep_users acc (rdb_verifications db)\<rparr>"

definition account_of :: "string \<Rightarrow> recovery_db \<Rightarrow> string option" where
  "account_of email db = map_option usr_id (getUserByEmail email (rdb_accounts db))"

text \<open>Runs in which nobody asks for a reset of the account \<open>u\<close>.\<close>

inductive quiet_run ::
  "(db_error \<Rightarrow> string) \<Rightarrow> (string \<Rightarrow> string) \<Rightarrow> (string \<Rightarrow> string \<Rightarrow> bool) \<Rightarrow> (int \<Rightarrow> int) \<Rightarrow> (int \<Rightarrow> int) \<Rightarrow>
   string \<Rightarrow> recovery_db \<Rightarrow> recovery_db \<Rightarrow> bool"
  for driver hash compare tz utc u db where
  start: "quiet_run driver hash compare tz utc u db db"
| step: "quiet_run driver hash compare tz utc u db db1 \<Longrightarrow>
    (\<And>now newId token email. e = Ask_reset now newId token email \<Longrightarrow> account_of email db1 \<noteq> Some u) \<Longrightarrow>
    quiet_run driver hash compare tz utc u db (recovery_step driver hash compare tz utc e db1)"

lemma resetPassword_resets:
  "rdb_resets (snd (resetPassword driver hash compare now email token p db)) = rdb_resets db \<or>
   (\<exists>user. getUserByEmail email (rdb_accounts db) = Some user \<and>
      rdb_resets (snd (resetPassword driver hash compare now email token p db)) =
        snd (verifyResetToken compare now (usr_id user) token (rdb_resets db)))"
  by (auto simp: resetPassword_def Let_def split: option.split sum.split prod.split)

lemma other_resets:
  "rdb_resets (snd (generateEmailVerificationToken driver hash tz utc now newId token email db)) = rdb_resets db"
  "rdb_resets (snd (svc_verifyEmail compare now email token db)) = rdb_resets db"
  "rdb_resets (snd (auth_register driver hash tz utc now newId newTokenId token input db)) = rdb_resets db"
  by (auto simp: generateEmailVerificationToken_def svc_verifyEmail_def auth_register_def issueEmailVerificationToken_def
      and_then_def Let_def split: option.split sum.split prod.split)

lemma generateResetToken_resets:
  assumes "account_of email db \<noteq> Some u" "reset_tokens.closed compare u (rdb_resets db)"
  shows "reset_tokens.closed compare u (rdb_resets (snd (generateResetToken driver hash tz utc now newId token email db)))"
proof (cases "getUserByEmail email (rdb_accounts db)")
  case None
  with assms(2) show ?thesis by (simp add: generateResetToken_def)
next
  case (Some user)
  with assms(1) have other: "usr_id user \<noteq> u" by (simp add: account_of_def)
  show ?thesis
  proof (cases "createResetToken hash tz utc now newId token (rdb_user_ids db) (usr_id user) (rdb_resets db)")
    case (Inl e)
    with Some assms(2) show ?thesis by (simp add: generateResetToken_def)
  next
    case (Inr t)
    with reset_tokens.closed_issue [OF assms(2), of "(hash, tz, utc, now, newId, token, rdb_user_ids db)", OF _ other] Some
    show ?thesis by (simp add: generateResetToken_def)
  qed
qed

lemma closed_keep: "reset_tokens.closed compare u t \<Longrightarrow> reset_tokens.closed compare u (keep_users acc t)"
  unfolding reset_tokens.closed_def keep_users_def token_found_iff by auto

lemma quiet_closed:
  assumes "quiet_run driver hash compare tz utc u db db'" "reset_tokens.closed compare u (rdb_resets db)"
  shows "reset_tokens.closed compare u (rdb_resets db')"
  using assms
proof (induction rule: quiet_run.induct)
  case (step db1 e)
  then have IH: "reset_tokens.closed compare u (rdb_resets db1)" by blast
  show ?case
  proof (cases e)
    case (Ask_reset now newId token email)
    with step.hyps(2) IH show ?thesis by (simp add: generateResetToken_resets)
  next
    case (Reset now email token p)
    have "reset_tokens.closed compare u (snd (verifyResetToken compare now i token (rdb_resets db1)))" for i
      by (rule reset_tokens.closed_redeem [OF IH])
    with Reset IH resetPassword_resets [of driver hash compare now email token p db1] show ?thesis by auto
  next
    case (Accounts_changed acc)
    with closed_keep [OF IH] show ?thesis by simp
  qed (use IH in \<open>simp_all add: other_resets\<close>)
qed

text \<open>C27: a password is reset once per request.  After a reset of an account no token resets it
  again, under any address it then has and at any time, until someone asks for another reset of
  this account; whatever else happens to the accounts in between.\<close>

theorem reset_token_single_use:
  assumes "resetPassword driver hash compare now email token p db = (Ok (), db1)"
    and "account_of email db = Some u" "quiet_run driver hash compare tz utc u db1 db2" "account_of email' db2 = Some u"
  shows "resetPassword driver hash compare now' email' token' p' db2 =
    (Fail (Unauthorized ''Invalid or expired token''), db2)"
proof -
  obtain user where user: "getUserByEmail email (rdb_accounts db) = Some user" "usr_id user = u"
    using assms(2) by (auto simp: account_of_def)
  have "fst (verifyResetToken compare now u token (rdb_resets db))"
    "rdb_resets db1 = snd (verifyResetToken compare now u token (rdb_resets db))"
    using assms(1) user by (auto simp: resetPassword_def unauthorized_def Let_def split: prod.splits sum.splits if_splits)
  with reset_tokens.redeemed_closed have "reset_tokens.closed compare u (rdb_resets db1)" by metis
  with assms(3) have "reset_tokens.closed compare u (rdb_resets db2)" by (rule quiet_closed)
  from reset_tokens.closed_refuses [OF this, of now' token'] obtain t
    where "verifyResetToken compare now' u token' (rdb_resets db2) = (False, t)"
    by (cases "verifyResetToken compare now' u token' (rdb_resets db2)") simp
  moreover obtain user' where "getUserByEmail email' (rdb_accounts db2) = Some user'" "usr_id user' = u"
    using assms(4) by (auto simp: account_of_def)
  ultimately show ?thesis by (simp add: resetPassword_def Let_def)
qed

section \<open>What a reset does\<close>

lemma set_password [simp]: "set_user hash (new_password p) u = u\<lparr>usr_passwordHash := Some (hash p)\<rparr>"
  by (simp add: set_user_def new_password_def)

lemma users_unique_password:
  "users_unique (upd_by usr_id i (set_user hash (new_password p)) t) \<longleftrightarrow> users_unique t"
proof -
  have "map k (upd_by usr_id i (set_user hash (new_password p)) t) = map k t"
    if "\<And>u. k (set_user hash (new_password p) u) = k u" for k :: "user_row \<Rightarrow> string"
    using that by (induction t) (auto simp: upd_by_def upd_where_def)
  moreover have "List.map_filter usr_googleId (upd_by usr_id i (set_user hash (new_password p)) t) =
      List.map_filter usr_googleId t"
    by (induction t) (auto simp: upd_by_def upd_where_def split: option.splits)
  ultimately show ?thesis by (simp add: users_unique_def)
qed

lemma updateUser_password:
  assumes "users_unique (acc_users db)" "row_by usr_id i (acc_users db) = Some user"
  shows "\<exists>su. updateUser hash now i (new_password p) db =
    Inr (Some su, db\<lparr>acc_users := upd_by usr_id i (set_user hash (new_password p)) (acc_users db)\<rparr>)"
proof -
  have "\<not> (uud_email (new_password p) = None \<and> uud_name (new_password p) = None \<and> uud_password (new_password p) = None)"
    by (simp add: new_password_def)
  then have "updateUser hash now i (new_password p) db =
      and_then (put_users (upd_by usr_id i (set_user hash (new_password p)) (acc_users db)) db) (\<lambda>db1.
        Inr (map_option (toSafeUser now None) (row_by usr_id i (acc_users db1)), db1))"
    unfolding updateUser_def by (rule if_not_P)
  with assms show ?thesis by (simp add: put_users_def users_unique_password row_by_upd del: set_password)
     (simp add: row_by_upd)
qed

lemma getUserByEmail_password:
  "getUserByEmail email (db\<lparr>acc_users := upd_by usr_id i (set_user hash (new_password p)) (acc_users db)\<rparr>) =
   map_option (\<lambda>u. if usr_id u = i then set_user hash (new_password p) u else u) (getUserByEmail email db)"
proof -
  have "List.find P (map f t) = map_option f (List.find P t)" if "\<And>u. P (f u) = P u"
    for P :: "user_row \<Rightarrow> bool" and f t
    using that by (induction t) auto
  then show ?thesis
    by (simp add: getUserByEmail_def row_by_def sel_first_def upd_by_def upd_where_def)
qed

lemma verifyPasswordByEmail_user:
  "verifyPasswordByEmail compare email p db =
     (case getUserByEmail email db of
        None \<Rightarrow> None
      | Some user \<Rightarrow>
          (case usr_passwordHash user of
             None \<Rightarrow> None | Some h \<Rightarrow> if h = [] \<or> \<not> compare p h then None else Some user))"
  by (simp add: verifyPasswordByEmail_def getUserByEmail_def split: option.split)

lemma user_by_email_row:
  assumes "users_unique (acc_users db)" "getUserByEmail email db = Some user"
  shows "row_by usr_id (usr_id user) (acc_users db) = Some user"
proof -
  have "user \<in> set (acc_users db)" using assms(2) by (auto simp: getUserByEmail_def dest: row_by_SomeD)
  moreover have "distinct_key usr_id (acc_users db)" using assms(1) by (simp add: users_unique_def distinct_key_def)
  ultimately show ?thesis by (simp add: row_by_unique)
qed

text \<open>
  What may happen between asking for a reset and using it: any service of this theory and any change of the accounts that
  keeps the account \<open>u\<close>, except a reset of this account that succeeds.
\<close>

inductive waiting_run ::
  "(db_error \<Rightarrow> string) \<Rightarrow> (string \<Rightarrow> string) \<Rightarrow> (string \<Rightarrow> string \<Rightarrow> bool) \<Rightarrow> (int \<Rightarrow> int) \<Rightarrow> (int \<Rightarrow> int) \<Rightarrow>
   string \<Rightarrow> recovery_db \<Rightarrow> recovery_db \<Rightarrow> bool"
  for driver hash compare tz utc u db where
  start: "waiting_run driver hash compare tz utc u db db"
| step: "waiting_run driver hash compare tz utc u db db1 \<Longrightarrow>
    (\<And>now email token p. e = Reset now email token p \<Longrightarrow> account_of email db1 = Some u \<Longrightarrow>
       fst (resetPassword driver hash compare now email token p db1) \<noteq> Ok ()) \<Longrightarrow>
    db2 = recovery_step driver hash compare tz utc e db1 \<Longrightarrow> u \<in> set (rdb_user_ids db2) \<Longrightarrow>
    waiting_run driver hash compare tz utc u db db2"

lemma updateUser_found:
  assumes "updateUser hash now i (new_password p) db = Inr (None, acc)" "user \<in> set (acc_users db)"
  shows "usr_id user \<noteq> i"
proof
  assume i: "usr_id user = i"
  have "\<not> (uud_email (new_password p) = None \<and> uud_name (new_password p) = None \<and> uud_password (new_password p) = None)"
    by (simp add: new_password_def)
  then have "and_then (put_users (upd_by usr_id i (set_user hash (new_password p)) (acc_users db)) db) (\<lambda>db1.
      Inr (map_option (toSafeUser now None) (row_by usr_id i (acc_users db1)), db1)) = Inr (None, acc)"
    using assms(1) unfolding updateUser_def by (simp only: if_False)
  then have "row_by usr_id i (upd_by usr_id i (set_user hash (new_password p)) (acc_users db)) = None"
    by (auto simp: and_then_Inr_iff put_users_def split: if_splits)
  then have "i \<notin> usr_id ` set (acc_users db)" by (simp add: row_by_upd row_by_None_iff)
  then show False using assms(2) i by blast
qed

lemma refused_reset_keeps:
  assumes "account_of email db = Some u" "fst (resetPassword driver hash compare now email token p db) \<noteq> Ok ()"
  shows "rdb_resets (snd (resetPassword driver hash compare now email token p db)) = rdb_resets db"
proof -
  obtain user where user: "getUserByEmail email (rdb_accounts db) = Some user" using assms(1) by (auto simp: account_of_def)
  then have "user \<in> set (acc_users (rdb_accounts db))" by (auto simp: getUserByEmail_def dest: row_by_SomeD)
  then have "updateUser hash now (usr_id user) (new_password p) (rdb_accounts db) \<noteq> Inr (None, acc)" for acc
    using updateUser_found by blast
  with assms(2) user show ?thesis
    by (auto simp: resetPassword_def Let_def split: prod.splits sum.splits option.splits if_splits)
qed

lemma waiting_keeps_token:
  assumes "waiting_run driver hash compare tz utc u db db'" "row \<in> set (rdb_resets db)" "otr_userId row = u"
  shows "row \<in> set (rdb_resets db')"
  using assms
proof (induction rule: waiting_run.induct)
  case (step db1 e db2)
  then have IH: "row \<in> set (rdb_resets db1)" by blast
  show ?case
  proof (cases e)
    case (Ask_reset now newId token email)
    then show ?thesis using IH
      by (auto simp: step.hyps(3) generateResetToken_def createResetToken_def split: option.split sum.split dest!: put_token_set)
  next
    case (Reset now email token p)
    have other: "row \<in> set (snd (verifyResetToken compare now i token (rdb_resets db1)))" if "i \<noteq> u" for i
      using IH that step.prems(2) by (simp add: verifyResetToken_def deleteUserTokens_def set_del_where)
    show ?thesis
    proof (cases "account_of email db1 = Some u")
      case True
      from refused_reset_keeps [OF True step.hyps(2) [OF Reset True]] IH show ?thesis by (simp add: step.hyps(3) Reset)
    next
      case False
      then show ?thesis
        using IH other resetPassword_resets [of driver hash compare now email token p db1]
        by (auto simp: step.hyps(3) Reset account_of_def)
    qed
  next
    case (Accounts_changed acc)
    then show ?thesis using IH step.hyps(4) step.prems(2) by (simp add: step.hyps(3) keep_users_def rdb_user_ids_def)
  qed (use IH in \<open>simp_all add: step.hyps(3) other_resets\<close>)
qed simp

text \<open>C28: who forgot the password gets back in, and only by the token.  A token that was issued for an account resets
  its password until the token expires, whatever other requests and changes of accounts came in between, as long as
  the account stays and no other reset of it succeeded.  Afterwards the login with the new password succeeds when
  the account is active and verified, no token of the account is left, and what any password opens
  for any other account is unchanged.\<close>

theorem forgotten_password_replaced:
  assumes "\<And>p. compare p (hash p)" "\<And>p. hash p \<noteq> []"
    and "generateResetToken driver hash tz utc now newId token email db = (Ok token, db1)" "account_of email db = Some u"
    and "waiting_run driver hash compare tz utc u db1 db2" "users_unique (acc_users (rdb_accounts db2))"
    and "account_of email' db2 = Some u" "later < add_hours tz utc 1 now"
  shows "\<exists>user db3. getUserByEmail email' (rdb_accounts db2) = Some user \<and>
    resetPassword driver hash compare later email' token p db2 = (Ok (), db3) \<and>
    verifyPasswordByEmail compare email' p (rdb_accounts db3) = Some (user\<lparr>usr_passwordHash := Some (hash p)\<rparr>) \<and>
    (usr_isActive user \<and> usr_emailVerified user \<longrightarrow>
       (\<exists>pair roles. login sign compare jtis email' p \<lparr>ses_accounts = rdb_accounts db3, ses_tokens = revoked\<rparr> =
          Ok (pair, user\<lparr>usr_passwordHash := Some (hash p)\<rparr>, roles))) \<and>
    (\<forall>row \<in> set (rdb_resets db3). otr_userId row \<noteq> u) \<and>
    (\<forall>email'' p'. account_of email'' db2 \<noteq> Some u \<longrightarrow>
       verifyPasswordByEmail compare email'' p' (rdb_accounts db3) =
       verifyPasswordByEmail compare email'' p' (rdb_accounts db2))"
proof -
  let ?row = "\<lparr>otr_id = newId, otr_userId = u, otr_tokenHash = hash token, otr_expiresAt = add_hours tz utc 1 now\<rparr>"
  have "?row \<in> set (rdb_resets db1)"
    using assms(3,4) by (auto simp: generateResetToken_def unauthorized_def account_of_def createResetToken_def
        split: option.splits sum.splits dest!: put_token_set)
  then have "?row \<in> set (rdb_resets db2)" using waiting_keeps_token [OF assms(5)] by simp
  then have "token_found compare later u token (rdb_resets db2)"
    using assms(1,8) by (force simp: token_found_iff)
  then have v: "verifyResetToken compare later u token (rdb_resets db2) = (True, deleteUserTokens u (rdb_resets db2))"
    by (simp add: verifyResetToken_def)
  obtain user where user: "getUserByEmail email' (rdb_accounts db2) = Some user" "usr_id user = u"
    using assms(7) by (auto simp: account_of_def)
  define acc where "acc = (rdb_accounts db2)\<lparr>acc_users :=
    upd_by usr_id (usr_id user) (set_user hash (new_password p)) (acc_users (rdb_accounts db2))\<rparr>"
  obtain su where upd: "updateUser hash later (usr_id user) (new_password p) (rdb_accounts db2) = Inr (Some su, acc)"
    using updateUser_password [OF assms(6) user_by_email_row [OF assms(6) user(1)]] unfolding acc_def by blast
  define db3 where "db3 = db2\<lparr>rdb_resets := deleteUserTokens u (rdb_resets db2), rdb_accounts := acc\<rparr>"
  have "resetPassword driver hash compare later email' token p db2 = (Ok (), db3)"
    using v upd by (simp add: resetPassword_def user db3_def)
  moreover have opens: "verifyPasswordByEmail compare email' p (rdb_accounts db3) = Some (user\<lparr>usr_passwordHash := Some (hash p)\<rparr>)"
    using assms(1,2) by (simp add: verifyPasswordByEmail_user db3_def acc_def getUserByEmail_password user(1))
  moreover have "\<exists>pair roles. login sign compare jtis email' p \<lparr>ses_accounts = rdb_accounts db3, ses_tokens = revoked\<rparr> =
      Ok (pair, user\<lparr>usr_passwordHash := Some (hash p)\<rparr>, roles)" if "usr_isActive user \<and> usr_emailVerified user"
    using that by (simp add: login_def opens Let_def)
  moreover have "verifyPasswordByEmail compare email'' p' (rdb_accounts db3) =
      verifyPasswordByEmail compare email'' p' (rdb_accounts db2)" if "account_of email'' db2 \<noteq> Some u" for email'' p'
    using that user(2)
    by (auto simp: verifyPasswordByEmail_user db3_def acc_def getUserByEmail_password account_of_def split: option.split)
  moreover have "\<forall>row \<in> set (rdb_resets db3). otr_userId row \<noteq> u"
    by (auto simp: db3_def deleteUserTokens_def set_del_where)
  ultimately show ?thesis using user(1) by blast
qed

section \<open>Login with Google\<close>

lemma linkGoogleId_rows:
  "linkGoogleId now i g db = Inr (b, db1) \<Longrightarrow>
   acc_users db1 = upd_by usr_id i (\<lambda>u. u\<lparr>usr_googleId := Some g, usr_updatedAt := Some now\<rparr>) (acc_users db) \<and>
   acc_roles db1 = acc_roles db"
  by (auto simp: linkGoogleId_def put_users_def and_then_Inr_iff split: if_splits)

lemma other_users_kept:
  "row_by usr_id j (upd_by usr_id i f t) = row_by usr_id j t"
  if "\<And>u. usr_id (f u) = usr_id u" "j \<noteq> i"
  using that by (simp add: row_by_upd)

text \<open>C29: a login with Google is for the owner of the identity.  When it succeeds, the identity was
  verified for this token, the account is active, verified and linked to this identity, and no
  other account and no role has changed; nothing changes when the identity was linked before.\<close>

theorem google_login_safe:
  assumes "users_unique (acc_users db)"
    and "loginWithGoogle driver sign jtis cid verify now idToken db = (Ok (tokens, user, roles), db')"
  shows "\<exists>p. verify idToken = Inr (Some p) \<and> usr_isActive user \<and> usr_emailVerified user \<and>
    usr_googleId user = Some (gp_sub p) \<and> getUserById (usr_id user) db' = Some user \<and>
    roles = mapRoleInfo (getUserRoles (usr_id user) db) \<and> acc_roles db' = acc_roles db \<and>
    (\<forall>i. i \<noteq> usr_id user \<longrightarrow> getUserById i db' = getUserById i db) \<and>
    (getUserByGoogleId (gp_sub p) db \<noteq> None \<longrightarrow> db' = db)"
proof -
  obtain p where p: "verify idToken = Inr (Some p)"
    and acc: "google_account now p db = Inr ((True, Some user), db')"
    and ok: "usr_isActive user" "usr_emailVerified user" "roles = mapRoleInfo (getUserRoles (usr_id user) db')"
    using assms(2) by (auto simp: loginWithGoogle_def Let_def split: if_splits sum.splits option.splits prod.splits)
  show ?thesis
  proof (cases "getUserByGoogleId (gp_sub p) db")
    case (Some u)
    then have same: "user = u" "db' = db" using acc by (simp_all add: google_account_def)
    have "u \<in> set (acc_users db)" "usr_googleId u = Some (gp_sub p)"
      using Some by (auto simp: getUserByGoogleId_def dest: row_by_SomeD)
    moreover have "distinct_key usr_id (acc_users db)" using assms(1) by (simp add: users_unique_def distinct_key_def)
    ultimately show ?thesis using p ok same by (auto simp: getUserById_def row_by_unique)
  next
    case None
    then obtain e b db1 where e: "getUserByEmail (gp_email p) db = Some e"
      and l: "linkGoogleId now (usr_id e) (gp_sub p) db = Inr (b, db1)"
      and db': "db' = (if usr_emailVerified e then db1 else snd (verifyEmail now (usr_id e) db1))"
      and u: "getUserById (usr_id e) db' = Some user"
      using acc by (auto simp: google_account_def Let_def and_then_Inr_iff split: option.splits prod.splits)
    have r: "row_by usr_id (usr_id e) (acc_users db) = Some e" by (rule user_by_email_row [OF assms(1) e])
    have linked: "getUserById (usr_id e) db1 = Some (e\<lparr>usr_googleId := Some (gp_sub p), usr_updatedAt := Some now\<rparr>)"
      using linkGoogleId_rows [OF l] r by (simp add: getUserById_def row_by_upd)
    then have "usr_googleId user = Some (gp_sub p)" "usr_id user = usr_id e"
      using u by (auto simp: db' verifyEmail_def touch_user_def getUserById_def row_by_upd split: if_splits)
    moreover have "getUserById i db' = getUserById i db" if "i \<noteq> usr_id e" for i
      using linkGoogleId_rows [OF l] that
      by (auto simp: db' verifyEmail_def touch_user_def getUserById_def other_users_kept)
    moreover have "acc_roles db' = acc_roles db"
      using linkGoogleId_rows [OF l] by (simp add: db' verifyEmail_def touch_user_def)
    moreover from this have "getUserRoles i db' = getUserRoles i db" for i by (simp add: getUserRoles_def)
    ultimately show ?thesis using None p ok u by auto
  qed
qed

section \<open>Examples\<close>

definition plain_hash :: "string \<Rightarrow> string" where
  "plain_hash s = CHR ''#'' # s"

definition plain_compare :: "string \<Rightarrow> string \<Rightarrow> bool" where
  "plain_compare p h \<longleftrightarrow> h = plain_hash p"

text \<open>Somebody registered with the address of another person, who then signs in with Google.\<close>

definition squatter :: user_row where
  "squatter =
     \<lparr>usr_id = ''u1'', usr_email = ''ana@x.org'', usr_name = ''Ana'', usr_passwordHash = Some (plain_hash ''guess123''),
      usr_googleId = None, usr_isActive = True, usr_emailVerified = False, usr_createdAt = None, usr_updatedAt = None\<rparr>"

definition squatted :: recovery_db where
  "squatted =
     \<lparr>rdb_accounts = \<lparr>acc_users = [squatter], acc_roles = []\<rparr>, rdb_resets = [], rdb_verifications = []\<rparr>"

definition ana :: "string \<Rightarrow> string + google_payload option" where
  "ana t = Inr (Some \<lparr>gp_email = ''ana@x.org'', gp_sub = ''g7''\<rparr>)"

definition sign_nothing :: "string \<Rightarrow> raw_payload \<Rightarrow> string" where
  "sign_nothing jti p = jti"

lemma squatted_unique: "users_unique (acc_users (rdb_accounts squatted))"
  by code_simp

definition ana_signed_in :: "(token_pair \<times> user_row \<times> role_info list) outcome \<times> account_db" where
  "ana_signed_in = loginWithGoogle (\<lambda>_. []) sign_nothing (''a'', ''r'') ''cid'' ana 5 ''t'' (rdb_accounts squatted)"

lemma ana_signed_in_value:
  "ana_signed_in =
     (Ok (\<lparr>tp_accessToken = ''a'', tp_refreshToken = ''r''\<rparr>,
          squatter\<lparr>usr_googleId := Some ''g7'', usr_emailVerified := True, usr_updatedAt := Some 5\<rparr>, []),
      \<lparr>acc_users = [squatter\<lparr>usr_googleId := Some ''g7'', usr_emailVerified := True, usr_updatedAt := Some 5\<rparr>], acc_roles = []\<rparr>)"
  by code_simp

lemma outcome_case_Ok: "case r of Ok _ \<Rightarrow> True | _ \<Rightarrow> False \<Longrightarrow> \<exists>ok. r = Ok ok"
  by (cases r) (simp_all only: outcome.case outcome.inject ex_simps simp_thms)

text \<open>The password chosen before does not open the account, and after the login with Google it does.\<close>

lemma squatter_let_in:
  "login sign_nothing plain_compare (''a'', ''r'') ''ana@x.org'' ''guess123''
     \<lparr>ses_accounts = rdb_accounts squatted, ses_tokens = []\<rparr> = Fail (Forbidden verification_required)"
  "\<exists>ok. login sign_nothing plain_compare (''a'', ''r'') ''ana@x.org'' ''guess123''
     \<lparr>ses_accounts = snd ana_signed_in, ses_tokens = []\<rparr> = Ok ok"
proof -
  show "login sign_nothing plain_compare (''a'', ''r'') ''ana@x.org'' ''guess123''
     \<lparr>ses_accounts = rdb_accounts squatted, ses_tokens = []\<rparr> = Fail (Forbidden verification_required)"
    by code_simp
  have "case login sign_nothing plain_compare (''a'', ''r'') ''ana@x.org'' ''guess123''
     \<lparr>ses_accounts = snd ana_signed_in, ses_tokens = []\<rparr> of Ok _ \<Rightarrow> True | _ \<Rightarrow> False"
    by code_simp
  then show "\<exists>ok. login sign_nothing plain_compare (''a'', ''r'') ''ana@x.org'' ''guess123''
     \<lparr>ses_accounts = snd ana_signed_in, ses_tokens = []\<rparr> = Ok ok"
    by (rule outcome_case_Ok)
qed

lemma google_login_safe_witness:
  "\<exists>tokens user roles db'. ana_signed_in = (Ok (tokens, user, roles), db') \<and> usr_emailVerified user \<and>
     usr_googleId user = Some ''g7'' \<and> getUserById ''u1'' db' = Some user"
proof -
  obtain tokens user roles db' where r: "ana_signed_in = (Ok (tokens, user, roles), db')" "usr_id user = ''u1''"
    by (simp add: ana_signed_in_value squatter_def)
  from google_login_safe [OF squatted_unique r(1) [unfolded ana_signed_in_def]]
  show ?thesis using r by (auto simp: ana_def)
qed

definition utc_zero :: "int \<Rightarrow> int" where
  "utc_zero d = 0"

definition asked_for_reset :: "string outcome \<times> recovery_db" where
  "asked_for_reset =
     generateResetToken (\<lambda>_. []) plain_hash utc_zero id 1000 ''reset1'' ''abc'' ''Ana@x.org '' squatted"

definition after_reset :: "unit outcome \<times> recovery_db" where
  "after_reset =
     resetPassword (\<lambda>_. []) plain_hash plain_compare 2000 ''ana@x.org'' ''abc'' ''better456'' (snd asked_for_reset)"

text \<open>A verified account asks for a reset twice and uses the first token.\<close>

definition forgetful :: recovery_db where
  "forgetful =
     \<lparr>rdb_accounts = \<lparr>acc_users = [squatter\<lparr>usr_emailVerified := True\<rparr>], acc_roles = []\<rparr>, rdb_resets = [], rdb_verifications = []\<rparr>"

definition asked_once :: "string outcome \<times> recovery_db" where
  "asked_once = generateResetToken (\<lambda>_. []) plain_hash utc_zero id 1000 ''reset1'' ''abc'' ''Ana@x.org '' forgetful"

definition asked_twice :: recovery_db where
  "asked_twice =
     recovery_step (\<lambda>_. []) plain_hash plain_compare utc_zero id (Ask_reset 1500 ''reset2'' ''xyz'' ''ana@x.org'') (snd asked_once)"

lemma forgotten_password_replaced_witness:
  "\<exists>db3 pair user roles. resetPassword (\<lambda>_. []) plain_hash plain_compare 2000 ''ana@x.org'' ''abc'' ''better456'' asked_twice = (Ok (), db3) \<and>
    login sign_nothing plain_compare (''a'', ''r'') ''ana@x.org'' ''better456'' \<lparr>ses_accounts = rdb_accounts db3, ses_tokens = []\<rparr> =
      Ok (pair, user, roles)"
proof -
  have "fst asked_once = Ok ''abc''" by code_simp
  then have r: "generateResetToken (\<lambda>_. []) plain_hash utc_zero id 1000 ''reset1'' ''abc'' ''Ana@x.org '' forgetful = (Ok ''abc'', snd asked_once)"
    by (metis asked_once_def prod.collapse)
  have h: "(2000 :: int) < add_hours utc_zero id 1 1000" by (simp add: add_hours_def utc_zero_def)
  have a: "account_of ''Ana@x.org '' forgetful = Some ''u1''" "account_of ''ana@x.org'' asked_twice = Some ''u1''"
    "users_unique (acc_users (rdb_accounts asked_twice))" "''u1'' \<in> set (rdb_user_ids asked_twice)"
    "map_option (\<lambda>u. (usr_isActive u, usr_emailVerified u)) (getUserByEmail ''ana@x.org'' (rdb_accounts asked_twice)) = Some (True, True)"
    by code_simp+
  have run: "waiting_run (\<lambda>_. []) plain_hash plain_compare utc_zero id ''u1'' (snd asked_once) asked_twice"
    by (rule waiting_run.step [OF waiting_run.start _ asked_twice_def a(4)]) simp
  have laws: "plain_compare p (plain_hash p)" "plain_hash p \<noteq> []" for p by (simp_all add: plain_compare_def plain_hash_def)
  show ?thesis
    using forgotten_password_replaced [OF laws r a(1) run a(3,2) h, of "''better456''" sign_nothing "(''a'', ''r'')" "[]"] a(5)
    by auto
qed

lemma reset_token_single_use_witness:
  "resetPassword (\<lambda>_. []) plain_hash plain_compare 3000 ''ana@x.org'' ''abc'' ''other789'' (snd after_reset) =
    (Fail (Unauthorized ''Invalid or expired token''), snd after_reset)"
proof -
  have "fst after_reset = Ok ()" by code_simp
  then have r: "resetPassword (\<lambda>_. []) plain_hash plain_compare 2000 ''ana@x.org'' ''abc'' ''better456'' (snd asked_for_reset) =
      (Ok (), snd after_reset)"
    by (metis after_reset_def prod.collapse)
  have a: "account_of ''ana@x.org'' (snd asked_for_reset) = Some ''u1''" by code_simp
  have b: "account_of ''ana@x.org'' (snd after_reset) = Some ''u1''" by code_simp
  show ?thesis by (rule reset_token_single_use [OF r a quiet_run.start b])
qed

end
