(* ===== verification/Setup.thy ===== *)
theory Setup
  imports Account_Recovery
begin

text \<open>
  The first start of a server: \<open>api/src/lib/setup-storage.ts\<close>, \<open>api/src/services/setup-management.service.ts\<close>,
  \<open>setup-query.service.ts\<close> and \<open>default-admin.service.ts\<close>.

  The first administrator is created once, and with it the registration token by which machines
  are enrolled.  What the random source gives (identifiers and the bytes of the token) are arguments.
\<close>

section \<open>Settings\<close>

record setting_row =
  set_key :: string
  set_value :: string

record setup_data =
  sd_registrationToken :: string
  sd_setupCompletedAt :: string
  sd_setupByUserId :: string

record setup_db =
  sdb_accounts :: account_db
  sdb_groups :: group_store
  sdb_settings :: "setting_row table"

text \<open>\<open>insert ... on conflict do update\<close>.\<close>

definition put_setting :: "string \<Rightarrow> string \<Rightarrow> setting_row table \<Rightarrow> setting_row table" where
  "put_setting k v t =
     (if row_by set_key k t = None then ins_row \<lparr>set_key = k, set_value = v\<rparr> t
      else upd_by set_key k (\<lambda>r. r\<lparr>set_value := v\<rparr>) t)"

definition setup_keys :: "string list" where
  "setup_keys = [''registration_token'', ''setup_completed_at'', ''setup_by_user_id'']"

text \<open>A JavaScript object filled from rows: the last value of a key counts.\<close>

definition settings_object :: "setting_row list \<Rightarrow> string \<Rightarrow> string option" where
  "settings_object rows k = map_of (rev (map (\<lambda>r. (set_key r, set_value r)) rows)) k"

definition getSetupData :: "string \<Rightarrow> setting_row table \<Rightarrow> setup_data option" where
  "getSetupData nowISO t =
     (let rows = sel_where (\<lambda>r. set_key r \<in> set setup_keys) t
      in if rows = [] then None
         else
           let data = settings_object rows
           in if data ''registration_token'' = None \<or> data ''registration_token'' = Some [] then None
              else Some \<lparr>sd_registrationToken = the (data ''registration_token''),
                         sd_setupCompletedAt = or_else (data ''setup_completed_at'') nowISO,
                         sd_setupByUserId = or_else (data ''setup_by_user_id'') ''unknown''\<rparr>)"

definition saveSetupData :: "setup_data \<Rightarrow> setting_row table \<Rightarrow> setting_row table" where
  "saveSetupData data t =
     put_setting ''setup_by_user_id'' (sd_setupByUserId data)
       (put_setting ''setup_completed_at'' (sd_setupCompletedAt data)
         (put_setting ''registration_token'' (sd_registrationToken data) t))"

definition isSetupComplete :: "string \<Rightarrow> setting_row table \<Rightarrow> bool" where
  "isSetupComplete nowISO t \<longleftrightarrow> getSetupData nowISO t \<noteq> None"

definition getRegistrationToken :: "string \<Rightarrow> setting_row table \<Rightarrow> string option" where
  "getRegistrationToken nowISO t = map_option sd_registrationToken (getSetupData nowISO t)"

definition hex_text_char :: "nat \<Rightarrow> char" where
  "hex_text_char d = (if d < 10 then char_of (48 + d) else char_of (87 + d))"

text \<open>\<open>toString('hex')\<close> of the bytes the random source gives.\<close>

definition generateRegistrationToken :: "nat list \<Rightarrow> string" where
  "generateRegistrationToken bytes = concat (map (\<lambda>b. [hex_text_char (b div 16), hex_text_char (b mod 16)]) bytes)"

definition regenerateRegistrationToken :: "string \<Rightarrow> nat list \<Rightarrow> setting_row table \<Rightarrow> string option \<times> setting_row table" where
  "regenerateRegistrationToken nowISO bytes t =
     (case getSetupData nowISO t of
        None \<Rightarrow> (None, t)
      | Some data \<Rightarrow>
          let newToken = generateRegistrationToken bytes
          in (Some newToken, saveSetupData (data\<lparr>sd_registrationToken := newToken\<rparr>) t))"

definition utf8 :: "string \<Rightarrow> nat list" where
  "utf8 s = concat (map (\<lambda>c. let n = of_char c in if n < 128 then [n] else [192 + n div 64, 128 + n mod 64]) s)"

definition validateRegistrationToken :: "string \<Rightarrow> string \<Rightarrow> setting_row table \<Rightarrow> bool" where
  "validateRegistrationToken nowISO token t =
     (case getRegistrationToken nowISO t of
        None \<Rightarrow> False
      | Some storedToken \<Rightarrow>
          if token = [] then False
          else if length (utf8 token) \<noteq> length (utf8 storedToken) then False
          else utf8 token = utf8 storedToken)"

section \<open>The services\<close>

datatype setup_error =
    Setup_already_completed string
  | Email_exists string
  | Invalid_input string string
  | Setup_not_completed string

datatype 'a setup_outcome = Done 'a | Refused setup_error | Raised db_error

definition first_admin_refused :: "create_user_data \<Rightarrow> setup_db \<Rightarrow> setup_error option" where
  "first_admin_refused input db =
     (if CHR ''@'' \<notin> set (cud_email input) then Some (Invalid_input ''Invalid email address'' ''email'')
      else if js_trim (cud_name input) = [] then Some (Invalid_input ''Name is required'' ''name'')
      else if length (cud_password input) < 8
      then Some (Invalid_input ''Password must be at least 8 characters'' ''password'')
      else if hasAnyAdmins (sdb_accounts db) then Some (Setup_already_completed ''Setup already completed'')
      else if emailExists (cud_email input) (sdb_accounts db) then Some (Email_exists ''Email already registered'')
      else None)"

text \<open>What happens in the transaction.  The checks before it are not part of it.\<close>

definition first_admin_stored ::
  "(string \<Rightarrow> string) \<Rightarrow> string \<Rightarrow> string \<Rightarrow> int \<Rightarrow> string \<Rightarrow> string \<Rightarrow> create_user_data \<Rightarrow> setup_db \<Rightarrow>
   db_error + safe_user \<times> setup_db" where
  "first_admin_stored hash newUserId newRoleId now nowISO token input db =
     and_then (createUser hash newUserId now input (Some True) (sdb_accounts db)) (\<lambda>(user, acc1).
       and_then (assignRole newRoleId now
           \<lparr>ard_userId = su_id user, ard_role = Admin, ard_groupIds = [], ard_createdBy = Some (su_id user)\<rparr>
           (sdb_groups db) acc1) (\<lambda>(_, acc2).
         Inr (user, db\<lparr>sdb_accounts := acc2,
           sdb_settings := saveSetupData
             \<lparr>sd_registrationToken = token, sd_setupCompletedAt = nowISO, sd_setupByUserId = su_id user\<rparr>
             (sdb_settings db)\<rparr>)))"

record first_admin =
  fa_registrationToken :: string
  fa_userId :: string
  fa_email :: string
  fa_name :: string

definition createFirstAdmin ::
  "(string \<Rightarrow> string) \<Rightarrow> string \<Rightarrow> string \<Rightarrow> int \<Rightarrow> string \<Rightarrow> nat list \<Rightarrow> create_user_data \<Rightarrow> setup_db \<Rightarrow>
   first_admin setup_outcome \<times> setup_db" where
  "createFirstAdmin hash newUserId newRoleId now nowISO bytes input db =
     (case first_admin_refused input db of
        Some e \<Rightarrow> (Refused e, db)
      | None \<Rightarrow>
          let registrationToken = generateRegistrationToken bytes
          in (case first_admin_stored hash newUserId newRoleId now nowISO registrationToken input db of
                Inl e \<Rightarrow> (Raised e, db)
              | Inr (user, db1) \<Rightarrow>
                  (Done \<lparr>fa_registrationToken = registrationToken, fa_userId = su_id user, fa_email = su_email user,
                         fa_name = su_name user\<rparr>, db1)))"

definition regenerateToken :: "string \<Rightarrow> nat list \<Rightarrow> setup_db \<Rightarrow> string setup_outcome \<times> setup_db" where
  "regenerateToken nowISO bytes db =
     (case regenerateRegistrationToken nowISO bytes (sdb_settings db) of (newToken, t) \<Rightarrow>
        (if newToken = None \<or> newToken = Some [] then Refused (Setup_not_completed ''Setup not completed'')
         else Done (the newToken), db\<lparr>sdb_settings := t\<rparr>))"

record setup_status =
  sst_needsSetup :: bool
  sst_hasAdmin :: bool

definition setup_getStatus :: "setup_db \<Rightarrow> setup_status" where
  "setup_getStatus db =
     (let hasAdmin = hasAnyAdmins (sdb_accounts db) in \<lparr>sst_needsSetup = (\<not> hasAdmin), sst_hasAdmin = hasAdmin\<rparr>)"

definition setup_validateToken :: "string \<Rightarrow> string \<Rightarrow> setup_db \<Rightarrow> bool" where
  "setup_validateToken nowISO token db =
     (if js_trim token = [] then False else validateRegistrationToken nowISO token (sdb_settings db))"

definition setup_getRegistrationToken :: "string \<Rightarrow> setup_db \<Rightarrow> string setup_outcome" where
  "setup_getRegistrationToken nowISO db =
     (case getRegistrationToken nowISO (sdb_settings db) of
        None \<Rightarrow> Refused (Setup_not_completed ''Setup not completed'')
      | Some token \<Rightarrow>
          if token = [] then Refused (Setup_not_completed ''Setup not completed'') else Done token)"

text \<open>The administrator named by the environment; an error is only logged, and a user stays who got no role.\<close>

definition ensureDefaultAdminFromEnv ::
  "(string \<Rightarrow> string) \<Rightarrow> string \<Rightarrow> string \<Rightarrow> int \<Rightarrow> (string \<Rightarrow> string option) \<Rightarrow> setup_db \<Rightarrow> setup_db" where
  "ensureDefaultAdminFromEnv hash newUserId newRoleId now env db =
     (let email = or_else (env ''ADMIN_EMAIL'') []; password = or_else (env ''ADMIN_PASSWORD'') []
      in if email = [] \<or> password = [] then db
         else if getUserByEmail email (sdb_accounts db) \<noteq> None then db
         else (case createUser hash newUserId now \<lparr>cud_email = email, cud_name = ''System Admin'', cud_password = password\<rparr>
                 (Some True) (sdb_accounts db) of
             Inl e \<Rightarrow> db
           | Inr (admin, acc1) \<Rightarrow>
               (case assignRole newRoleId now
                   \<lparr>ard_userId = su_id admin, ard_role = Admin, ard_groupIds = [], ard_createdBy = None\<rparr>
                   (sdb_groups db) acc1 of
                  Inl e \<Rightarrow> db\<lparr>sdb_accounts := acc1\<rparr>
                | Inr (_, acc2) \<Rightarrow> db\<lparr>sdb_accounts := acc2\<rparr>)))"

section \<open>Tokens\<close>

lemma utf8_inj: "utf8 s = utf8 s' \<longleftrightarrow> s = s'"
proof
  show "utf8 s = utf8 s' \<Longrightarrow> s = s'"
  proof (induction s arbitrary: s')
    case Nil
    then show ?case by (cases s') (auto simp: utf8_def Let_def split: if_splits)
  next
    case (Cons c s)
    then obtain c' r where s': "s' = c' # r" by (cases s') (auto simp: utf8_def Let_def split: if_splits)
    let ?n = "of_char c :: nat" and ?m = "of_char c' :: nat"
    have b: "?n < 256" "?m < 256" by (simp_all add: of_char_of)
    have eq: "(if ?n < 128 then [?n] else [192 + ?n div 64, 128 + ?n mod 64]) @ utf8 s =
        (if ?m < 128 then [?m] else [192 + ?m div 64, 128 + ?m mod 64]) @ utf8 r"
      using Cons.prems by (simp add: s' utf8_def Let_def)
    have "?n = ?m \<and> utf8 s = utf8 r"
    proof (cases "?n < 128 \<or> ?m < 128")
      case True
      then show ?thesis using eq b by (auto split: if_splits)
    next
      case False
      then have "?n div 64 = ?m div 64" "?n mod 64 = ?m mod 64" "utf8 s = utf8 r" using eq by auto
      moreover from this have "?n = ?m" by (metis div_mult_mod_eq)
      ultimately show ?thesis by simp
    qed
    then show ?case using Cons.IH s' by (simp add: of_char_eq_iff)
  qed
qed simp

lemma validate_iff:
  "validateRegistrationToken nowISO token t \<longleftrightarrow> token \<noteq> [] \<and> getRegistrationToken nowISO t = Some token"
  by (auto simp: validateRegistrationToken_def utf8_inj split: option.splits)

lemma hex_token_chars: "list_all (\<lambda>b. b < 256) bytes \<Longrightarrow> list_all (\<lambda>c. \<not> js_space c) (generateRegistrationToken bytes)"
proof (induction bytes)
  case (Cons b bytes)
  have h: "\<not> js_space (hex_text_char d)" if "d < 16" for d
    using that by (auto simp: js_space_def hex_text_char_def Let_def)
  from Cons have "b div 16 < 16" "b mod 16 < 16" by auto
  with Cons h show ?case by (simp add: generateRegistrationToken_def)
qed (simp add: generateRegistrationToken_def)

lemma length_hex_token [simp]: "length (generateRegistrationToken bytes) = 2 * length bytes"
  by (induction bytes) (simp_all add: generateRegistrationToken_def)

section \<open>Settings as a map\<close>

text \<open>The value of a setting; on a table with distinct keys this is what the object of the code holds.\<close>

definition setting :: "string \<Rightarrow> setting_row table \<Rightarrow> string option" where
  "setting k t = map_option set_value (row_by set_key k t)"

lemma setting_put: "setting k' (put_setting k v t) = (if k' = k then Some v else setting k' t)"
  by (auto simp: setting_def put_setting_def row_by_upd row_by_ins dest: row_by_SomeD split: option.splits)

lemma distinct_put: "distinct_key set_key t \<Longrightarrow> distinct_key set_key (put_setting k v t)"
  by (simp add: put_setting_def distinct_key_ins distinct_key_upd_by)

lemma setting_map_of: "setting k t = map_of (map (\<lambda>r. (set_key r, set_value r)) t) k"
  by (induction t) (simp_all add: setting_def row_by_def sel_first_def)

lemma map_of_reversed: "distinct (map fst xs) \<Longrightarrow> map_of (rev xs) = map_of xs"
  by (induction xs) (force simp: map_add_def fun_eq_iff dest: map_of_SomeD split: option.splits)+

lemma object_setting:
  assumes "distinct_key set_key t" "k \<in> set ks"
  shows "settings_object (sel_where (\<lambda>r. set_key r \<in> set ks) t) k = setting k t"
proof -
  have "distinct (map set_key (sel_where (\<lambda>r. set_key r \<in> set ks) t))"
    using assms(1) by (simp add: distinct_key_def sel_where_def distinct_map_filter)
  then have "settings_object (sel_where (\<lambda>r. set_key r \<in> set ks) t) k = setting k (sel_where (\<lambda>r. set_key r \<in> set ks) t)"
    by (simp add: settings_object_def setting_map_of map_of_reversed comp_def)
  moreover have "setting k (sel_where (\<lambda>r. set_key r \<in> set ks) t) = setting k t"
    using assms(2) by (induction t) (auto simp: setting_def row_by_def sel_first_def sel_where_def)
  ultimately show ?thesis by simp
qed

lemma registration_setting:
  assumes "distinct_key set_key t"
  shows "getRegistrationToken nowISO t =
    (case setting ''registration_token'' t of None \<Rightarrow> None | Some v \<Rightarrow> if v = [] then None else Some v)"
proof -
  let ?rows = "sel_where (\<lambda>r. set_key r \<in> set setup_keys) t"
  have obj: "settings_object ?rows ''registration_token'' = setting ''registration_token'' t"
    by (rule object_setting [OF assms]) (simp add: setup_keys_def)
  moreover have "settings_object [] ''registration_token'' = None" by (simp add: settings_object_def)
  ultimately have "setting ''registration_token'' t = None" if "?rows = []" using that by simp
  with obj show ?thesis
    by (auto simp: getRegistrationToken_def getSetupData_def Let_def split: option.splits)
qed

lemma saved_settings:
  "setting k (saveSetupData d t) =
     (if k = ''registration_token'' then Some (sd_registrationToken d)
      else if k = ''setup_completed_at'' then Some (sd_setupCompletedAt d)
      else if k = ''setup_by_user_id'' then Some (sd_setupByUserId d) else setting k t)"
  by (simp add: saveSetupData_def setting_put)

lemma distinct_saved: "distinct_key set_key t \<Longrightarrow> distinct_key set_key (saveSetupData d t)"
  by (simp add: saveSetupData_def distinct_put)

section \<open>What the first administrator gets\<close>

lemma no_groups_valid [simp]: "normalizeAndValidateRoleGroupIds [] gs = Inr []"
  by (simp add: normalizeAndValidateRoleGroupIds_def)

definition first_user :: "(string \<Rightarrow> string) \<Rightarrow> string \<Rightarrow> int \<Rightarrow> create_user_data \<Rightarrow> user_row" where
  "first_user hash uid now input =
     \<lparr>usr_id = uid, usr_email = normalize_email (cud_email input), usr_name = js_trim (cud_name input),
      usr_passwordHash = Some (hash (cud_password input)), usr_googleId = None, usr_isActive = True,
      usr_emailVerified = True, usr_createdAt = Some now, usr_updatedAt = Some now\<rparr>"

definition first_role :: "string \<Rightarrow> string \<Rightarrow> int \<Rightarrow> role_row" where
  "first_role rid uid now =
     \<lparr>rol_id = rid, rol_userId = uid, rol_role = ''admin'', rol_groupIds = Some [], rol_createdBy = Some uid,
      rol_createdAt = Some now, rol_expiresAt = None\<rparr>"

definition roles_owned :: "account_db \<Rightarrow> bool" where
  "roles_owned db \<longleftrightarrow> (\<forall>r \<in> set (acc_roles db). rol_userId r \<in> set (user_ids db))"

lemma first_user_created:
  assumes "createUser hash uid now input (Some True) db = Inr (user, db1)"
  shows "su_id user = uid \<and> su_email user = normalize_email (cud_email input) \<and> su_name user = js_trim (cud_name input) \<and>
    users_unique (ins_row (first_user hash uid now input) (acc_users db)) \<and>
    db1 = db\<lparr>acc_users := ins_row (first_user hash uid now input) (acc_users db)\<rparr>"
  using assms by (auto simp: createUser_def put_users_def and_then_Inr_iff first_user_def toSafeUser_def Let_def or_else_def split: if_splits)

lemma first_role_assigned:
  assumes "assignRole rid now \<lparr>ard_userId = uid, ard_role = Admin, ard_groupIds = [], ard_createdBy = Some uid\<rparr> gs db = Inr (role, db1)"
    and "\<forall>r \<in> set (acc_roles db). rol_userId r \<noteq> uid"
  shows "db1 = db\<lparr>acc_roles := ins_row (first_role rid uid now) (acc_roles db)\<rparr>"
proof -
  have "sel_first (\<lambda>r. rol_userId r = uid) (acc_roles db) = None" using assms(2) by (auto simp: sel_first_None_iff)
  with assms(1) show ?thesis
    by (auto simp: assignRole_def and_then_Inr_iff first_role_def Let_def split: if_splits)
qed

lemma first_admin_accepted:
  assumes "createFirstAdmin hash uid rid now nowISO bytes input db = (Done r, db1)" "roles_owned (sdb_accounts db)"
  shows "\<not> hasAnyAdmins (sdb_accounts db) \<and> \<not> emailExists (cud_email input) (sdb_accounts db) \<and>
    users_unique (ins_row (first_user hash uid now input) (acc_users (sdb_accounts db))) \<and>
    r = \<lparr>fa_registrationToken = generateRegistrationToken bytes, fa_userId = uid,
       fa_email = normalize_email (cud_email input), fa_name = js_trim (cud_name input)\<rparr> \<and>
    db1 = db\<lparr>sdb_accounts := \<lparr>acc_users = ins_row (first_user hash uid now input) (acc_users (sdb_accounts db)),
        acc_roles = ins_row (first_role rid uid now) (acc_roles (sdb_accounts db))\<rparr>,
      sdb_settings := saveSetupData \<lparr>sd_registrationToken = generateRegistrationToken bytes,
        sd_setupCompletedAt = nowISO, sd_setupByUserId = uid\<rparr> (sdb_settings db)\<rparr>"
proof -
  let ?t = "generateRegistrationToken bytes"
  have free: "first_admin_refused input db = None" using assms(1) by (auto simp: createFirstAdmin_def split: option.splits)
  obtain user where st: "first_admin_stored hash uid rid now nowISO ?t input db = Inr (user, db1)"
    and r: "r = \<lparr>fa_registrationToken = ?t, fa_userId = su_id user, fa_email = su_email user, fa_name = su_name user\<rparr>"
    using assms(1) free by (auto simp: createFirstAdmin_def Let_def split: sum.splits)
  then obtain acc1 role acc2 where
    u: "createUser hash uid now input (Some True) (sdb_accounts db) = Inr (user, acc1)"
    and a: "assignRole rid now \<lparr>ard_userId = su_id user, ard_role = Admin, ard_groupIds = [], ard_createdBy = Some (su_id user)\<rparr>
      (sdb_groups db) acc1 = Inr (role, acc2)"
    and db1: "db1 = db\<lparr>sdb_accounts := acc2, sdb_settings := saveSetupData
      \<lparr>sd_registrationToken = ?t, sd_setupCompletedAt = nowISO, sd_setupByUserId = su_id user\<rparr> (sdb_settings db)\<rparr>"
    by (auto simp: first_admin_stored_def and_then_Inr_iff)
  note user = first_user_created [OF u]
  have "uid \<notin> set (user_ids (sdb_accounts db))"
    using user by (auto simp: users_unique_def ins_row_def user_ids_def first_user_def)
  with assms(2) have "\<forall>x \<in> set (acc_roles acc1). rol_userId x \<noteq> uid"
    using user by (auto simp: roles_owned_def)
  from first_role_assigned [OF _ this] a user
  have "acc2 = acc1\<lparr>acc_roles := ins_row (first_role rid uid now) (acc_roles acc1)\<rparr>" by simp
  then show ?thesis using free user db1 r
    by (auto simp: first_admin_refused_def split: if_splits)
qed

lemma hasAnyAdmins_iff: "hasAnyAdmins db \<longleftrightarrow> (\<exists>r \<in> set (acc_roles db). rol_role r \<in> set (getDbRoleValues Admin))"
  by (auto simp: hasAnyAdmins_def sel_first_None_iff)

text \<open>C31: the first set-up makes a working administrator, and none is made while there is one.  When it succeeds there
  was no administrator; now the password given opens a verified account with the administrator's
  role, the token returned enrols machines, the server reports that it is set up, and other users and
  their roles are as they were.  In this and in every other state in which some user has the administrator's role, a
  first set-up is refused and changes nothing.  Calls run one after another; two that overlap can both succeed, since the
  check is outside the transaction, and without the last administrator set-up is open again.\<close>

theorem first_admin_ready:
  assumes "createFirstAdmin hash uid rid now nowISO bytes input db = (Done r, db1)"
    and "roles_owned (sdb_accounts db)" "distinct_key set_key (sdb_settings db)"
    and "\<And>p. compare p (hash p)" "\<And>p. hash p \<noteq> []"
    and "bytes \<noteq> []" "list_all (\<lambda>b. b < 256) bytes"
  shows "\<not> hasAnyAdmins (sdb_accounts db) \<and>
    (\<exists>user. verifyPasswordByEmail compare (cud_email input) (cud_password input) (sdb_accounts db1) = Some user \<and>
       usr_id user = fa_userId r \<and> usr_emailVerified user \<and> usr_isActive user) \<and>
    isAdmin (fa_userId r) (sdb_accounts db1) \<and>
    setup_validateToken later (fa_registrationToken r) db1 \<and>
    \<not> sst_needsSetup (setup_getStatus db1) \<and>
    (\<forall>i. i \<noteq> fa_userId r \<longrightarrow> getUserById i (sdb_accounts db1) = getUserById i (sdb_accounts db) \<and>
       getUserRoles i (sdb_accounts db1) = getUserRoles i (sdb_accounts db)) \<and>
    (\<exists>role \<in> set (acc_roles (sdb_accounts db1)). rol_userId role = fa_userId r \<and> rol_role role = ''admin'') \<and>
    ((\<exists>role \<in> set (acc_roles (sdb_accounts db2)). rol_role role = ''admin'') \<longrightarrow>
       (\<exists>e. createFirstAdmin hash2 uid2 rid2 now2 iso2 bytes2 input2 db2 = (Refused e, db2)))"
proof -
  note acc = first_admin_accepted [OF assms(1,2)]
  let ?u = "first_user hash uid now input"
  have none: "row_by usr_email (normalize_email (cud_email input)) (acc_users (sdb_accounts db)) = None"
    using acc by (simp add: emailExists_def)
  have user: "verifyPasswordByEmail compare (cud_email input) (cud_password input) (sdb_accounts db1) = Some ?u"
    using acc none assms(4,5)
    by (simp add: verifyPasswordByEmail_user getUserByEmail_def row_by_ins first_user_def)
  have admin: "hasAnyAdmins (sdb_accounts db1)"
    using acc by (simp add: hasAnyAdmins_iff set_ins_row first_role_def getDbRoleValues_def)
  have "isAdmin uid (sdb_accounts db1)"
    using acc by (auto simp: isAdmin_def hasRole_def sel_first_None_iff set_ins_row first_role_def getDbRoleValues_def)
  moreover have "setup_validateToken later (generateRegistrationToken bytes) db1"
  proof -
    have "generateRegistrationToken bytes \<noteq> []" using assms(6) length_hex_token [of bytes] by fastforce
    moreover have "js_trim (generateRegistrationToken bytes) = generateRegistrationToken bytes"
      using hex_token_chars [OF assms(7)] by (simp add: js_trim_no_space list_all_iff)
    ultimately show ?thesis
      using acc assms(3)
      by (simp add: setup_validateToken_def validate_iff registration_setting distinct_saved saved_settings)
  qed
  moreover have "getUserById i (sdb_accounts db1) = getUserById i (sdb_accounts db) \<and>
      getUserRoles i (sdb_accounts db1) = getUserRoles i (sdb_accounts db)" if "i \<noteq> uid" for i
  proof
    show "getUserById i (sdb_accounts db1) = getUserById i (sdb_accounts db)"
      using acc that by (simp add: getUserById_def row_by_ins first_user_def split: option.splits)
    show "getUserRoles i (sdb_accounts db1) = getUserRoles i (sdb_accounts db)"
      using acc that by (simp add: getUserRoles_def sel_where_def ins_row_def first_role_def)
  qed
  moreover have "\<exists>e. createFirstAdmin hash2 uid2 rid2 now2 iso2 bytes2 input2 db2 = (Refused e, db2)"
    if "\<exists>role \<in> set (acc_roles (sdb_accounts db2)). rol_role role = ''admin''"
  proof -
    have "hasAnyAdmins (sdb_accounts db2)" using that by (auto simp: hasAnyAdmins_iff getDbRoleValues_def)
    then show ?thesis by (simp add: createFirstAdmin_def first_admin_refused_def)
  qed
  moreover have "\<exists>role \<in> set (acc_roles (sdb_accounts db1)). rol_userId role = uid \<and> rol_role role = ''admin''"
    using acc by (auto simp: set_ins_row first_role_def)
  ultimately show ?thesis using acc user admin
    by (simp add: setup_getStatus_def first_user_def)
qed

section \<open>One registration token at a time\<close>

text \<open>
  Runs of the set-up services together with any other change of the accounts, the groups and the
  other settings.  The last argument is the registration token that was given out last.
\<close>

inductive setup_run :: "(string \<Rightarrow> string) \<Rightarrow> setup_db \<Rightarrow> string option \<Rightarrow> bool" for hash where
  start: "distinct_key set_key t \<Longrightarrow> setting ''registration_token'' t = None \<Longrightarrow>
    setup_run hash \<lparr>sdb_accounts = acc, sdb_groups = gs, sdb_settings = t\<rparr> None"
| first: "setup_run hash db lst \<Longrightarrow> createFirstAdmin hash uid rid now nowISO bytes input db = (res, db') \<Longrightarrow>
    length bytes = 32 \<Longrightarrow> list_all (\<lambda>b. b < 256) bytes \<Longrightarrow>
    setup_run hash db' (case res of Done r \<Rightarrow> Some (fa_registrationToken r) | _ \<Rightarrow> lst)"
| again: "setup_run hash db lst \<Longrightarrow> regenerateToken nowISO bytes db = (res, db') \<Longrightarrow>
    length bytes = 32 \<Longrightarrow> list_all (\<lambda>b. b < 256) bytes \<Longrightarrow>
    setup_run hash db' (case res of Done token \<Rightarrow> Some token | _ \<Rightarrow> lst)"
| env_admin: "setup_run hash db lst \<Longrightarrow> setup_run hash (ensureDefaultAdminFromEnv hash uid rid now env db) lst"
| others: "setup_run hash db lst \<Longrightarrow> setup_run hash (db\<lparr>sdb_accounts := acc, sdb_groups := gs\<rparr>) lst"
| other_setting: "setup_run hash db lst \<Longrightarrow> k \<notin> set setup_keys \<Longrightarrow>
    setup_run hash (db\<lparr>sdb_settings := put_setting k v (sdb_settings db)\<rparr>) lst"

lemma hex_token_usable:
  assumes "length bytes = 32" "list_all (\<lambda>b. b < 256) bytes"
  shows "js_trim (generateRegistrationToken bytes) \<noteq> []"
proof -
  have "js_trim (generateRegistrationToken bytes) = generateRegistrationToken bytes"
    using hex_token_chars [OF assms(2)] by (simp add: js_trim_no_space list_all_iff)
  moreover have "length (generateRegistrationToken bytes) = 64" using assms(1) by simp
  ultimately show ?thesis by fastforce
qed

lemma createFirstAdmin_settings:
  assumes "createFirstAdmin hash uid rid now nowISO bytes input db = (res, db')"
  shows "(case res of
      Done r \<Rightarrow> fa_registrationToken r = generateRegistrationToken bytes \<and>
        (\<exists>u. sdb_settings db' = saveSetupData \<lparr>sd_registrationToken = generateRegistrationToken bytes,
          sd_setupCompletedAt = nowISO, sd_setupByUserId = u\<rparr> (sdb_settings db))
    | _ \<Rightarrow> db' = db)"
  using assms by (auto simp: createFirstAdmin_def first_admin_stored_def and_then_Inr_iff Let_def
      split: option.splits sum.splits prod.splits)

lemma default_admin_settings [simp]:
  "sdb_settings (ensureDefaultAdminFromEnv hash uid rid now env db) = sdb_settings db"
  by (auto simp: ensureDefaultAdminFromEnv_def Let_def split: sum.split prod.split)

lemma regenerate_cases:
  assumes "regenerateToken nowISO bytes db = (res, db')" "bytes \<noteq> []"
  shows "(res = Refused (Setup_not_completed ''Setup not completed'') \<and> db' = db \<and> getRegistrationToken nowISO (sdb_settings db) = None) \<or>
    (\<exists>d. res = Done (generateRegistrationToken bytes) \<and>
       db' = db\<lparr>sdb_settings := saveSetupData (d\<lparr>sd_registrationToken := generateRegistrationToken bytes\<rparr>) (sdb_settings db)\<rparr>)"
proof (cases "getSetupData nowISO (sdb_settings db)")
  case None
  with assms(1) show ?thesis by (auto simp: regenerateToken_def regenerateRegistrationToken_def getRegistrationToken_def)
next
  case (Some d)
  have "generateRegistrationToken bytes \<noteq> []" using assms(2) length_hex_token [of bytes] by fastforce
  with Some assms(1) show ?thesis by (auto simp: regenerateToken_def regenerateRegistrationToken_def Let_def)
qed

lemma setup_run_setting:
  assumes "setup_run hash db lst"
  shows "distinct_key set_key (sdb_settings db) \<and> setting ''registration_token'' (sdb_settings db) = lst \<and>
    (\<forall>t. lst = Some t \<longrightarrow> js_trim t \<noteq> [])"
  using assms
proof (induction rule: setup_run.induct)
  case (first db lst uid rid now nowISO bytes input res db')
  from createFirstAdmin_settings [OF first.hyps(2)] show ?case
    using first.IH hex_token_usable [OF first.hyps(3,4)]
    by (cases res) (auto simp: distinct_saved saved_settings)
next
  case (again db lst nowISO bytes res db')
  have "bytes \<noteq> []" using again.hyps(3) by auto
  from regenerate_cases [OF again.hyps(2) this] show ?case
    using again.IH hex_token_usable [OF again.hyps(3,4)]
    by (auto simp: distinct_saved saved_settings)
next
  case (other_setting db lst k v)
  then show ?case by (auto simp: distinct_put setting_put setup_keys_def)
qed simp_all

text \<open>C32: exactly one registration token is good.  Whatever is done with the set-up services, in
  whatever order and mixed with other changes of the tables, a machine's registration token is
  accepted if and only if it is the one that was given out last; before the first set-up none is.\<close>

theorem registration_token_last:
  assumes "setup_run hash db lst"
  shows "(setup_validateToken nowISO token db \<longleftrightarrow> lst = Some token) \<and>
    setup_getRegistrationToken nowISO db =
      (case lst of None \<Rightarrow> Refused (Setup_not_completed ''Setup not completed'') | Some t \<Rightarrow> Done t)"
  using setup_run_setting [OF assms]
  by (auto simp: setup_validateToken_def validate_iff registration_setting setup_getRegistrationToken_def split: option.splits)

section \<open>Examples\<close>

definition new_server :: setup_db where
  "new_server =
     \<lparr>sdb_accounts = \<lparr>acc_users = [], acc_roles = []\<rparr>, sdb_groups = \<lparr>gs_groups = [], gs_rules = []\<rparr>, sdb_settings = []\<rparr>"

definition founder :: create_user_data where
  "founder = \<lparr>cud_email = ''Eva@School.org'', cud_name = '' Eva '', cud_password = ''longenough''\<rparr>"

definition rival :: create_user_data where
  "rival = \<lparr>cud_email = ''max@school.org'', cud_name = ''Max'', cud_password = ''otherword''\<rparr>"

definition some_bytes :: "nat list" where
  "some_bytes = replicate 32 171"

definition founded :: "first_admin setup_outcome \<times> setup_db" where
  "founded = createFirstAdmin plain_hash ''u1'' ''r1'' 5 ''T'' some_bytes founder new_server"

definition founder_result :: first_admin where
  "founder_result =
     \<lparr>fa_registrationToken = generateRegistrationToken some_bytes, fa_userId = ''u1'', fa_email = ''eva@school.org'',
      fa_name = ''Eva''\<rparr>"

lemma founded_result: "founded = (Done founder_result, snd founded)"
proof -
  have "fst founded = Done founder_result" by code_simp
  then show ?thesis by (metis prod.collapse)
qed

lemma first_admin_ready_witness:
  "isAdmin ''u1'' (sdb_accounts (snd founded)) \<and>
   setup_validateToken ''T'' (generateRegistrationToken some_bytes) (snd founded) \<and>
   (\<exists>e. createFirstAdmin plain_hash ''u2'' ''r2'' 6 ''T'' some_bytes rival (snd founded) = (Refused e, snd founded))"
proof -
  have b: "some_bytes \<noteq> []" "list_all (\<lambda>b. b < 256) some_bytes" by (simp_all add: some_bytes_def list_all_iff)
  have d: "roles_owned (sdb_accounts new_server)" "distinct_key set_key (sdb_settings new_server)"
    by (simp_all add: roles_owned_def distinct_key_def new_server_def)
  have "fa_userId founder_result = ''u1''" "fa_registrationToken founder_result = generateRegistrationToken some_bytes"
    by (simp_all add: founder_result_def)
  with first_admin_ready [OF founded_result [unfolded founded_def] d _ _ b, of plain_compare, folded founded_def,
      where later = "''T''" and ?db2.0 = "snd founded" and ?hash2.0 = plain_hash and ?uid2.0 = "''u2''" and ?rid2.0 = "''r2''"
        and ?now2.0 = 6 and ?iso2.0 = "''T''" and ?bytes2.0 = some_bytes and ?input2.0 = rival]
  show ?thesis by (fastforce simp: plain_compare_def plain_hash_def)
qed

lemma registration_token_last_witness:
  "\<forall>token. setup_validateToken ''T'' token (snd founded) \<longleftrightarrow> token = generateRegistrationToken some_bytes"
proof -
  have s: "setup_run plain_hash new_server None"
    unfolding new_server_def by (rule setup_run.start) (simp_all add: distinct_key_def setting_map_of)
  have b: "length some_bytes = 32" "list_all (\<lambda>b. b < 256) some_bytes" by (simp_all add: some_bytes_def list_all_iff)
  from setup_run.first [OF s founded_result [unfolded founded_def] b]
  have "setup_run plain_hash (snd founded) (Some (generateRegistrationToken some_bytes))"
    by (simp add: founder_result_def founded_def)
  from registration_token_last [OF this] show ?thesis by auto
qed

text \<open>
  The checks of two requests for the first set-up may both come before either transaction; then
  both succeed, and the token given to the first is no longer good.
\<close>

definition raced :: "db_error + setup_db" where
  "raced =
     and_then (first_admin_stored plain_hash ''u1'' ''r1'' 5 ''T'' ''aa'' founder new_server) (\<lambda>(_, db1).
       and_then (first_admin_stored plain_hash ''u2'' ''r2'' 5 ''T'' ''bb'' rival db1) (\<lambda>(_, db2). Inr db2))"

lemma two_first_admins:
  "first_admin_refused founder new_server = None \<and> first_admin_refused rival new_server = None \<and>
   (case raced of
      Inl _ \<Rightarrow> False
    | Inr db \<Rightarrow> isAdmin ''u1'' (sdb_accounts db) \<and> isAdmin ''u2'' (sdb_accounts db) \<and>
        setup_validateToken ''T'' ''bb'' db \<and> \<not> setup_validateToken ''T'' ''aa'' db)"
  by code_simp

end
