(* ===== verification/Enrollment.thy ===== *)
theory Enrollment
  imports Setup Classroom_Services
begin

text \<open>
  How a computer becomes a machine of a classroom: the enrolment tokens
  (\<open>api/src/lib/enrollment-token.ts\<close>), who gets one and what it opens
  (\<open>api/src/services/enrollment-access.service.ts\<close>, \<open>enrollment-service-shared.ts\<close>,
  \<open>api/src/lib/server-request-enrollment-auth.ts\<close>), the registration that turns it into a token for
  downloads (\<open>api/src/services/machine-registration.service.ts\<close>) and the proof of a host name
  (\<open>api/src/lib/machine-proof.ts\<close>).

  Signing, checking and decoding a token are the functions of \<open>jsonwebtoken\<close> with the secret of the
  server.  Lifetimes are exact integers; where a number of JavaScript would round, it is far
  above any ceiling.
\<close>

section \<open>Enrolment tokens\<close>

definition ENROLLMENT_TOKEN_ISSUER :: string where
  "ENROLLMENT_TOKEN_ISSUER = ''openpath-api''"

definition ENROLLMENT_TOKEN_AUDIENCE :: string where
  "ENROLLMENT_TOKEN_AUDIENCE = ''openpath-enroll''"

definition DEFAULT_EXPIRES_IN :: string where
  "DEFAULT_EXPIRES_IN = ''2h''"

record enroll_claims =
  ecl_typ :: "string option"
  ecl_classroomId :: "string option"

record sign_options =
  sgo_expiresIn :: string
  sgo_issuer :: string
  sgo_audience :: string

text \<open>\<open>jwt.sign\<close> at a time, \<open>jwt.verify\<close> with issuer and audience (no claims when it throws or the
  payload is no object), and the \<open>exp\<close> claim that \<open>jwt.decode\<close> finds.\<close>

type_synonym enroll_signer = "enroll_claims \<Rightarrow> sign_options \<Rightarrow> int \<Rightarrow> string"
type_synonym enroll_checker = "string \<Rightarrow> string \<Rightarrow> int \<Rightarrow> string \<Rightarrow> enroll_claims option"

definition TTL_UNIT_SECONDS :: "char \<Rightarrow> nat option" where
  "TTL_UNIT_SECONDS u =
     (if u = CHR ''s'' then Some 1 else if u = CHR ''m'' then Some 60
      else if u = CHR ''h'' then Some (60 * 60) else if u = CHR ''d'' then Some (24 * 60 * 60) else None)"

definition digits :: "string \<Rightarrow> bool" where
  "digits s \<longleftrightarrow> s \<noteq> [] \<and> list_all digit_char s"

definition digits_value :: "string \<Rightarrow> nat" where
  "digits_value s = foldl (\<lambda>n c. 10 * n + (of_char c - 48)) 0 s"

definition parseExpiresInSeconds :: "string \<Rightarrow> nat option" where
  "parseExpiresInSeconds expiresIn =
     (if digits expiresIn then Some (digits_value expiresIn)
      else if expiresIn \<noteq> [] \<and> digits (butlast expiresIn) \<and> last expiresIn \<in> set ''smhd''
      then map_option (\<lambda>unitSeconds. digits_value (butlast expiresIn) * unitSeconds) (TTL_UNIT_SECONDS (last expiresIn))
      else None)"

text \<open>The message of an \<open>EnrollmentTokenTtlError\<close>, or that the lifetime is allowed.\<close>

definition assertWithinEnrollmentTtlCeiling :: "nat \<Rightarrow> string \<Rightarrow> string + unit" where
  "assertWithinEnrollmentTtlCeiling maxHours expiresIn =
     (case parseExpiresInSeconds expiresIn of
        None \<Rightarrow> Inl (''Unsupported enrollment token expiresIn format: '' @ expiresIn @
                  ''. Use seconds or a value like \"45m\", \"12h\", or \"7d\".'')
      | Some seconds \<Rightarrow>
          if seconds \<le> 0
          then Inl (''Unsupported enrollment token expiresIn format: '' @ expiresIn @
                  ''. Use seconds or a value like \"45m\", \"12h\", or \"7d\".'')
          else if seconds > maxHours * 60 * 60
          then Inl (''Requested enrollment token lifetime exceeds the configured maximum of '' @ nat_str maxHours @ '' hours.'')
          else Inr ())"

definition generateEnrollmentToken :: "nat \<Rightarrow> enroll_signer \<Rightarrow> int \<Rightarrow> string \<Rightarrow> string \<Rightarrow> string + string" where
  "generateEnrollmentToken maxHours sign now classroomId expiresIn =
     (case assertWithinEnrollmentTtlCeiling maxHours expiresIn of
        Inl e \<Rightarrow> Inl e
      | Inr _ \<Rightarrow> Inr (sign \<lparr>ecl_typ = Some ''enroll'', ecl_classroomId = Some classroomId\<rparr>
          \<lparr>sgo_expiresIn = expiresIn, sgo_issuer = ENROLLMENT_TOKEN_ISSUER, sgo_audience = ENROLLMENT_TOKEN_AUDIENCE\<rparr> now))"

definition getEnrollmentTokenExpiresAt :: "(string \<Rightarrow> int option) \<Rightarrow> (int \<Rightarrow> string) \<Rightarrow> string \<Rightarrow> string + string" where
  "getEnrollmentTokenExpiresAt decode_exp toISO token =
     (case decode_exp token of
        None \<Rightarrow> Inl ''Issued enrollment token has no usable exp claim''
      | Some seconds \<Rightarrow> Inr (toISO (seconds * 1000)))"

definition generateEnrollmentTokenWithExpiry ::
  "nat \<Rightarrow> enroll_signer \<Rightarrow> (string \<Rightarrow> int option) \<Rightarrow> (int \<Rightarrow> string) \<Rightarrow> int \<Rightarrow> string \<Rightarrow> string option \<Rightarrow> string + string \<times> string" where
  "generateEnrollmentTokenWithExpiry maxHours sign decode_exp toISO now classroomId expiresIn =
     (case generateEnrollmentToken maxHours sign now classroomId (or_else expiresIn DEFAULT_EXPIRES_IN) of
        Inl e \<Rightarrow> Inl e
      | Inr enrollmentToken \<Rightarrow>
          (case getEnrollmentTokenExpiresAt decode_exp toISO enrollmentToken of
             Inl e \<Rightarrow> Inl e | Inr expiresAt \<Rightarrow> Inr (enrollmentToken, expiresAt)))"

text \<open>The classroom an enrolment token is for.\<close>

definition verifyEnrollmentToken :: "enroll_checker \<Rightarrow> int \<Rightarrow> string \<Rightarrow> string option" where
  "verifyEnrollmentToken check now token =
     (case check ENROLLMENT_TOKEN_ISSUER ENROLLMENT_TOKEN_AUDIENCE now token of
        None \<Rightarrow> None
      | Some rec \<Rightarrow>
          if ecl_typ rec \<noteq> Some ''enroll'' then None
          else (case ecl_classroomId rec of None \<Rightarrow> None | Some c \<Rightarrow> if length c = 0 then None else Some c))"

section \<open>Access\<close>

definition hasEnrollmentRole :: "role_info list \<Rightarrow> bool" where
  "hasEnrollmentRole roles \<longleftrightarrow> list_ex (\<lambda>r. ri_role r = Admin \<or> ri_role r = Teacher) roles"

text \<open>What follows \<open>Bearer\<close> in the header, untrimmed.\<close>

definition bearer_part :: "string option \<Rightarrow> string option" where
  "bearer_part header =
     (case header of None \<Rightarrow> None | Some h \<Rightarrow> if starts_with h ''Bearer '' then Some (drop 7 h) else None)"

definition resolveEnrollmentContext ::
  "enroll_checker \<Rightarrow> int \<Rightarrow> string option \<Rightarrow> string \<Rightarrow> school_db \<Rightarrow> service_error + classroom_row \<times> string" where
  "resolveEnrollmentContext check now header classroomId db =
     (if classroomId = [] then Inl (Bad_request ''Missing classroomId'')
      else case bearer_part header of
        None \<Rightarrow> Inl (Unauthorized ''Authorization header required'')
      | Some enrollmentToken \<Rightarrow>
          (case verifyEnrollmentToken check now enrollmentToken of
             None \<Rightarrow> Inl (Forbidden ''Invalid enrollment token'')
           | Some tokenClassroom \<Rightarrow>
               if tokenClassroom \<noteq> classroomId then Inl (Forbidden ''Enrollment token does not match classroom'')
               else (case getClassroomById classroomId db of
                   None \<Rightarrow> Inl (Not_found ''Classroom not found'')
                 | Some classroom \<Rightarrow> Inr (classroom, enrollmentToken))))"

definition resolveEnrollmentTokenAccess ::
  "enroll_checker \<Rightarrow> int \<Rightarrow> string option \<Rightarrow> school_db \<Rightarrow> service_error + string \<times> string" where
  "resolveEnrollmentTokenAccess check now header db =
     (case bearer_part header of
        None \<Rightarrow> Inl (Unauthorized ''Authorization header required'')
      | Some enrollmentToken \<Rightarrow>
          (case verifyEnrollmentToken check now enrollmentToken of
             None \<Rightarrow> Inl (Forbidden ''Invalid enrollment token'')
           | Some tokenClassroom \<Rightarrow>
               (case getClassroomById tokenClassroom db of
                  None \<Rightarrow> Inl (Not_found ''Classroom not found'')
                | Some classroom \<Rightarrow> Inr (cls_id classroom, cls_name classroom))))"

text \<open>The same check on an HTTP request: status and message of the reply that refuses it.\<close>

record authenticated_enrollment =
  aen_classroomId :: string
  aen_classroomName :: string
  aen_enrollmentToken :: string

definition authenticateEnrollmentToken ::
  "enroll_checker \<Rightarrow> int \<Rightarrow> string option \<Rightarrow> school_db \<Rightarrow> (nat \<times> string) + authenticated_enrollment" where
  "authenticateEnrollmentToken check now header db =
     (case bearer_part header of
        None \<Rightarrow> Inl (401, ''Authorization header required'')
      | Some enrollmentToken \<Rightarrow>
          if enrollmentToken = [] then Inl (401, ''Enrollment token required'')
          else (case verifyEnrollmentToken check now enrollmentToken of
             None \<Rightarrow> Inl (403, ''Invalid enrollment token'')
           | Some tokenClassroom \<Rightarrow>
               (case getClassroomById tokenClassroom db of
                  None \<Rightarrow> Inl (404, ''Classroom not found'')
                | Some classroom \<Rightarrow>
                    Inr \<lparr>aen_classroomId = cls_id classroom, aen_classroomName = cls_name classroom,
                         aen_enrollmentToken = enrollmentToken\<rparr>)))"

record enrollment_ticket =
  etk_classroomId :: string
  etk_classroomName :: string
  etk_enrollmentToken :: string
  etk_expiresAt :: string

definition issueEnrollmentTicket ::
  "nat \<Rightarrow> enroll_signer \<Rightarrow> (string \<Rightarrow> int option) \<Rightarrow> (int \<Rightarrow> string) \<Rightarrow> (int \<Rightarrow> int) \<Rightarrow> int \<Rightarrow> string \<Rightarrow> jwt_payload \<Rightarrow>
   string option \<Rightarrow> school_db \<Rightarrow> service_error + enrollment_ticket" where
  "issueEnrollmentTicket maxHours sign decode_exp toISO tz now classroomId user expiresIn db =
     (if \<not> hasEnrollmentRole (or_else (jwt_roles user) []) then Inl (Forbidden ''Teacher access required'')
      else if classroomId = [] then Inl (Bad_request ''classroomId parameter required'')
      else case (case expiresIn of None \<Rightarrow> Inr () | Some e \<Rightarrow> assertWithinEnrollmentTtlCeiling maxHours e) of
        Inl m \<Rightarrow> Inl (Bad_request m)
      | Inr _ \<Rightarrow>
          (case ensureUserCanEnrollClassroom tz user classroomId now db of
             Inl e \<Rightarrow> Inl e
           | Inr access \<Rightarrow>
               (case generateEnrollmentTokenWithExpiry maxHours sign decode_exp toISO now (asc_id access) expiresIn of
                  Inl m \<Rightarrow> Inl (Bad_request m)
                | Inr (enrollmentToken, expiresAt) \<Rightarrow>
                    Inr \<lparr>etk_classroomId = asc_id access, etk_classroomName = asc_name access,
                         etk_enrollmentToken = enrollmentToken, etk_expiresAt = expiresAt\<rparr>)))"

section \<open>Proof of a host name\<close>

definition normalizeHostInput :: "string \<Rightarrow> string" where
  "normalizeHostInput value = to_lower (js_trim value)"

definition computeMachineProofToken :: "(string \<Rightarrow> string) \<Rightarrow> string \<Rightarrow> string \<Rightarrow> string" where
  "computeMachineProofToken sha_b64 hostname secret = sha_b64 (hostname @ secret)"

definition isValidMachineProofToken :: "(string \<Rightarrow> string) \<Rightarrow> string \<Rightarrow> string \<Rightarrow> string \<Rightarrow> bool" where
  "isValidMachineProofToken sha_b64 hostname token secret =
     (let expected = computeMachineProofToken sha_b64 hostname secret
      in if length token \<noteq> length expected then False
         else if length (utf8 token) \<noteq> length (utf8 expected) then False
         else utf8 token = utf8 expected)"

section \<open>Registration\<close>

definition getPublicUrl :: "string option \<Rightarrow> string \<Rightarrow> nat \<Rightarrow> string" where
  "getPublicUrl publicUrl host port = or_else publicUrl (''http://'' @ host @ '':'' @ nat_str port)"

definition issueMachineDownloadToken ::
  "(string \<Rightarrow> string) \<Rightarrow> string \<Rightarrow> string \<Rightarrow> int \<Rightarrow> string \<Rightarrow> school_db \<Rightarrow> db_error + string \<times> school_db" where
  "issueMachineDownloadToken sha_hex publicUrl token now machineId db =
     and_then (setMachineDownloadTokenHash now machineId (sha_hex token) db) (\<lambda>(_, db').
       Inr (buildWhitelistUrl publicUrl token, db'))"

record register_input =
  rgi_authorizationHeader :: "string option"
  rgi_classroomId :: "string option"
  rgi_classroomName :: "string option"
  rgi_hostname :: "string option"
  rgi_version :: "string option"

record register_output =
  rgo_classroomId :: string
  rgo_classroomName :: string
  rgo_machineHostname :: string
  rgo_reportedHostname :: string
  rgo_whitelistUrl :: string

text \<open>The classroom that the token of a registration opens.\<close>

definition registration_classroom ::
  "enroll_checker \<Rightarrow> string \<Rightarrow> int \<Rightarrow> register_input \<Rightarrow> string \<Rightarrow> setting_row table \<Rightarrow> school_db \<Rightarrow> service_error + classroom_row" where
  "registration_classroom check nowISO now input providedToken settings db =
     (case verifyEnrollmentToken check now providedToken of
        Some tokenClassroom \<Rightarrow>
          if given (rgi_classroomId input) \<noteq> None \<and> rgi_classroomId input \<noteq> Some tokenClassroom
          then Inl (Forbidden ''Enrollment token does not match classroom'')
          else (case getClassroomById tokenClassroom db of
              None \<Rightarrow> Inl (Not_found ''Classroom not found'')
            | Some classroom \<Rightarrow> Inr classroom)
      | None \<Rightarrow>
          if \<not> validateRegistrationToken nowISO providedToken settings
          then Inl (Forbidden ''Invalid registration token'')
          else (case given (rgi_classroomName input) of
              None \<Rightarrow> Inl (Bad_request ''classroomName is required'')
            | Some name \<Rightarrow>
                (case getClassroomByName name db of
                   None \<Rightarrow> Inl (Not_found (''Classroom \"'' @ name @ ''\" not found''))
                 | Some classroom \<Rightarrow> Inr classroom)))"

definition registerMachineWithToken ::
  "enroll_checker \<Rightarrow> (string \<Rightarrow> string) \<Rightarrow> string \<Rightarrow> string \<Rightarrow> string \<Rightarrow> string \<Rightarrow> int \<Rightarrow> register_input \<Rightarrow> setting_row table \<Rightarrow>
   school_db \<Rightarrow> register_output outcome \<times> school_db" where
  "registerMachineWithToken check sha_hex publicUrl nowISO newId newToken now input settings db =
     (case bearer_part (rgi_authorizationHeader input) of
        None \<Rightarrow> (Fail (Unauthorized ''Authorization header required''), db)
      | Some providedToken \<Rightarrow>
          (case given (rgi_hostname input) of
             None \<Rightarrow> (Fail (Bad_request ''hostname is required''), db)
           | Some hostname \<Rightarrow>
               (case registration_classroom check nowISO now input providedToken settings db of
                  Inl e \<Rightarrow> (Fail e, db)
                | Inr classroom \<Rightarrow>
                    (case registerMachine newId now
                        \<lparr>rmd_hostname = buildMachineKey sha_hex (cls_id classroom) hostname,
                         rmd_reportedHostname = Some hostname, rmd_classroomId = cls_id classroom,
                         rmd_version = given (rgi_version input)\<rparr> db of
                       Inl e \<Rightarrow> (Throws e, db)
                     | Inr (machine, db1) \<Rightarrow>
                         (case issueMachineDownloadToken sha_hex publicUrl newToken now (mac_id machine) db1 of
                            Inl e \<Rightarrow> (Throws e, db1)
                          | Inr (whitelistUrl, db2) \<Rightarrow>
                              (Ok \<lparr>rgo_classroomId = cls_id classroom, rgo_classroomName = cls_name classroom,
                                   rgo_machineHostname = mac_hostname machine,
                                   rgo_reportedHostname = or_else (mac_reportedHostname machine) hostname,
                                   rgo_whitelistUrl = whitelistUrl\<rparr>, db2))))))"

definition rotateMachineDownloadToken ::
  "(string \<Rightarrow> string) \<Rightarrow> string \<Rightarrow> string \<Rightarrow> int \<Rightarrow> string \<Rightarrow> school_db \<Rightarrow> string outcome \<times> school_db" where
  "rotateMachineDownloadToken sha_hex publicUrl newToken now machineId db =
     (case issueMachineDownloadToken sha_hex publicUrl newToken now machineId db of
        Inl e \<Rightarrow> (Throws e, db) | Inr (whitelistUrl, db') \<Rightarrow> (Ok whitelistUrl, db'))"

section \<open>A ticket\<close>

text \<open>
  What \<open>jsonwebtoken\<close> documents.  A lifetime is a number with a unit, or a number alone, which means milliseconds; strings of
  more than a hundred characters have no meaning.  The token gets the time it is issued and the time it expires in whole
  seconds.  It checks for its issuer and audience, with the claims that were signed, as long as the current second is before the
  one of its expiry.
\<close>

definition lifetime_ms :: "string \<Rightarrow> nat option" where
  "lifetime_ms e =
     (if length e > 100 \<or> e = [] then None
      else if digits e then Some (digits_value e)
      else if \<not> digits (butlast e) then None
      else if last e = CHR ''s'' then Some (digits_value (butlast e) * 1000)
      else if last e = CHR ''m'' then Some (digits_value (butlast e) * 60000)
      else if last e = CHR ''h'' then Some (digits_value (butlast e) * 3600000)
      else if last e = CHR ''d'' then Some (digits_value (butlast e) * 86400000)
      else None)"

definition jwt_law :: "enroll_signer \<Rightarrow> enroll_checker \<Rightarrow> bool" where
  "jwt_law sign check \<longleftrightarrow>
     (\<forall>c e ms t t'. lifetime_ms e = Some ms \<longrightarrow>
        (let claims = \<lparr>ecl_typ = Some ''enroll'', ecl_classroomId = Some c\<rparr>;
             opts = \<lparr>sgo_expiresIn = e, sgo_issuer = ENROLLMENT_TOKEN_ISSUER, sgo_audience = ENROLLMENT_TOKEN_AUDIENCE\<rparr>
         in check ENROLLMENT_TOKEN_ISSUER ENROLLMENT_TOKEN_AUDIENCE t' (sign claims opts t) =
              (if t' div 1000 < t div 1000 + int (ms div 1000) then Some claims else None)))"

lemma enroll_scope_id:
  assumes "ensureUserCanEnrollClassroom tz user classroomId now db = Inr scope"
  shows "asc_id scope = classroomId"
  using assms
  by (auto simp: ensureUserCanEnrollClassroom_def ensureUserCanUseClassroom_def resolveClassroomAccessScope_def
      resolveClassroomPolicyScope_def resolveClassroomPolicyScopeForRecord_def buildClassroomPolicyScope_def
      getClassroomById_def Let_def
      dest!: row_by_SomeD split: option.splits if_splits)

lemma enroll_scope_room:
  assumes "getClassroomById c db = Some room"
  shows "cls_id room = c"
  using assms by (auto simp: getClassroomById_def dest: row_by_SomeD)

lemma ceiling_ok:
  assumes "assertWithinEnrollmentTtlCeiling maxHours e = Inr u"
  shows "\<exists>n. parseExpiresInSeconds e = Some n \<and> 0 < n \<and> n \<le> maxHours * 60 * 60"
  using assms by (auto simp: assertWithinEnrollmentTtlCeiling_def split: option.splits if_splits)

text \<open>What was accepted as a lifetime is at most the ceiling in the library's reading.\<close>

lemma ceiling_lifetime:
  assumes "assertWithinEnrollmentTtlCeiling maxHours e = Inr u" "length e \<le> 100"
  shows "\<exists>ms. lifetime_ms e = Some ms \<and> 0 < ms \<and> ms \<le> maxHours * 3600000"
proof -
  obtain n where n: "parseExpiresInSeconds e = Some n" "0 < n" "n \<le> maxHours * 60 * 60"
    using ceiling_ok [OF assms(1)] by blast
  then have "e \<noteq> []" by (auto simp: parseExpiresInSeconds_def digits_def)
  with n assms(2) show ?thesis
    by (auto simp: parseExpiresInSeconds_def lifetime_ms_def TTL_UNIT_SECONDS_def split: if_splits)
qed

lemma ticket_issued:
  assumes "issueEnrollmentTicket maxHours sign decode_exp toISO tz now classroomId user expiresIn db = Inr ticket"
  obtains scope where
    "hasEnrollmentRole (or_else (jwt_roles user) [])" "classroomId \<noteq> []"
    "ensureUserCanEnrollClassroom tz user classroomId now db = Inr scope"
    "assertWithinEnrollmentTtlCeiling maxHours (or_else expiresIn DEFAULT_EXPIRES_IN) = Inr ()"
    "etk_classroomId ticket = classroomId"
    "etk_enrollmentToken ticket = sign \<lparr>ecl_typ = Some ''enroll'', ecl_classroomId = Some classroomId\<rparr>
       \<lparr>sgo_expiresIn = or_else expiresIn DEFAULT_EXPIRES_IN, sgo_issuer = ENROLLMENT_TOKEN_ISSUER,
        sgo_audience = ENROLLMENT_TOKEN_AUDIENCE\<rparr> now"
proof -
  have r: "hasEnrollmentRole (or_else (jwt_roles user) [])" "classroomId \<noteq> []"
    using assms by (auto simp: issueEnrollmentTicket_def split: if_splits)
  obtain scope where sc: "ensureUserCanEnrollClassroom tz user classroomId now db = Inr scope"
    using assms r by (auto simp: issueEnrollmentTicket_def split: sum.splits)
  obtain token at where g: "generateEnrollmentTokenWithExpiry maxHours sign decode_exp toISO now (asc_id scope) expiresIn = Inr (token, at)"
    and t: "etk_enrollmentToken ticket = token" "etk_classroomId ticket = asc_id scope"
    using assms r sc by (auto simp: issueEnrollmentTicket_def split: sum.splits)
  from g have "generateEnrollmentToken maxHours sign now (asc_id scope) (or_else expiresIn DEFAULT_EXPIRES_IN) = Inr token"
    by (auto simp: generateEnrollmentTokenWithExpiry_def split: sum.splits)
  then have "assertWithinEnrollmentTtlCeiling maxHours (or_else expiresIn DEFAULT_EXPIRES_IN) = Inr ()"
    "token = sign \<lparr>ecl_typ = Some ''enroll'', ecl_classroomId = Some (asc_id scope)\<rparr>
       \<lparr>sgo_expiresIn = or_else expiresIn DEFAULT_EXPIRES_IN, sgo_issuer = ENROLLMENT_TOKEN_ISSUER,
        sgo_audience = ENROLLMENT_TOKEN_AUDIENCE\<rparr> now"
    by (auto simp: generateEnrollmentToken_def split: sum.splits)
  with that r sc t enroll_scope_id [OF sc] show ?thesis by metis
qed

lemma bearer_of: "bearer_part (Some (''Bearer '' @ token)) = Some token"
  by (simp add: bearer_part_def starts_with_def)

text \<open>C33: an enrolment ticket opens one classroom for a limited time.  A ticket is only issued to
  an administrator or a teacher who may enrol machines of the classroom.  Its token opens exactly this classroom, as
  long as the classroom exists and the lifetime asked for, as \<open>jsonwebtoken\<close> reads it, is not over; after that it opens
  nothing, and in no case does it open anything once the configured hours have passed.  Lifetimes of more than a hundred
  characters, which the library refuses, are left out.\<close>

theorem ticket_opens_classroom:
  assumes "jwt_law sign check"
    and "issueEnrollmentTicket maxHours sign decode_exp toISO tz now classroomId user expiresIn db = Inr ticket"
    and "length (or_else expiresIn DEFAULT_EXPIRES_IN) \<le> 100"
  defines "header \<equiv> Some (''Bearer '' @ etk_enrollmentToken ticket)"
  shows "(\<exists>role \<in> set (or_else (jwt_roles user) []). ri_role role = Admin \<or> ri_role role = Teacher) \<and>
    (\<exists>scope. ensureUserCanEnrollClassroom tz user classroomId now db = Inr scope) \<and>
    (\<exists>ms. lifetime_ms (or_else expiresIn DEFAULT_EXPIRES_IN) = Some ms \<and> 0 < ms \<and>
      (\<forall>later room later_db. later div 1000 < now div 1000 + int (ms div 1000) \<longrightarrow> getClassroomById classroomId later_db = Some room \<longrightarrow>
         resolveEnrollmentTokenAccess check later header later_db = Inr (classroomId, cls_name room) \<and>
         (\<forall>c. c \<noteq> [] \<longrightarrow> resolveEnrollmentContext check later header c later_db =
            (if c = classroomId then Inr (room, etk_enrollmentToken ticket)
             else Inl (Forbidden ''Enrollment token does not match classroom'')))) \<and>
      (\<forall>later later_db. now div 1000 + int (ms div 1000) \<le> later div 1000 \<longrightarrow>
         resolveEnrollmentTokenAccess check later header later_db = Inl (Forbidden ''Invalid enrollment token''))) \<and>
    (\<forall>later later_db. now + int maxHours * 3600000 \<le> later \<longrightarrow>
       resolveEnrollmentTokenAccess check later header later_db = Inl (Forbidden ''Invalid enrollment token''))"
proof -
  define lifetime where "lifetime = or_else expiresIn DEFAULT_EXPIRES_IN"
  from assms(2) obtain scope where t:
    "hasEnrollmentRole (or_else (jwt_roles user) [])" "classroomId \<noteq> []"
    "ensureUserCanEnrollClassroom tz user classroomId now db = Inr scope"
    "assertWithinEnrollmentTtlCeiling maxHours lifetime = Inr ()"
    "etk_enrollmentToken ticket = sign \<lparr>ecl_typ = Some ''enroll'', ecl_classroomId = Some classroomId\<rparr>
       \<lparr>sgo_expiresIn = lifetime, sgo_issuer = ENROLLMENT_TOKEN_ISSUER, sgo_audience = ENROLLMENT_TOKEN_AUDIENCE\<rparr> now"
    unfolding lifetime_def by (rule ticket_issued)
  obtain ms where ms: "lifetime_ms lifetime = Some ms" "0 < ms" "ms \<le> maxHours * 3600000"
    using ceiling_lifetime [OF t(4)] assms(3) by (auto simp: lifetime_def)
  have v: "verifyEnrollmentToken check later (etk_enrollmentToken ticket) =
      (if later div 1000 < now div 1000 + int (ms div 1000) then Some classroomId else None)" for later
  proof -
    from assms(1) ms(1) have "check ENROLLMENT_TOKEN_ISSUER ENROLLMENT_TOKEN_AUDIENCE later (etk_enrollmentToken ticket) =
        (if later div 1000 < now div 1000 + int (ms div 1000)
         then Some \<lparr>ecl_typ = Some ''enroll'', ecl_classroomId = Some classroomId\<rparr> else None)"
      unfolding jwt_law_def t(5) by (simp add: Let_def)
    then show ?thesis using t(2) by (simp add: verifyEnrollmentToken_def)
  qed
  have role: "\<exists>role \<in> set (or_else (jwt_roles user) []). ri_role role = Admin \<or> ri_role role = Teacher"
    using t(1) by (simp add: hasEnrollmentRole_def list_ex_iff)
  have b: "bearer_part header = Some (etk_enrollmentToken ticket)" unfolding header_def by (rule bearer_of)
  have opens: "resolveEnrollmentTokenAccess check later header later_db = Inr (classroomId, cls_name room) \<and>
      (\<forall>c. c \<noteq> [] \<longrightarrow> resolveEnrollmentContext check later header c later_db =
          (if c = classroomId then Inr (room, etk_enrollmentToken ticket)
           else Inl (Forbidden ''Enrollment token does not match classroom'')))"
    if "later div 1000 < now div 1000 + int (ms div 1000)" "getClassroomById classroomId later_db = Some room" for later later_db room
    using that enroll_scope_room [OF that(2)] by (simp add: resolveEnrollmentTokenAccess_def resolveEnrollmentContext_def b v)
  have closed: "resolveEnrollmentTokenAccess check later header later_db = Inl (Forbidden ''Invalid enrollment token'')"
    if "now div 1000 + int (ms div 1000) \<le> later div 1000" for later later_db
    using that by (simp add: resolveEnrollmentTokenAccess_def b v)
  have "now div 1000 + int (ms div 1000) \<le> later div 1000" if "now + int maxHours * 3600000 \<le> later" for later
    using that ms(3) by linarith
  with closed have "\<forall>later later_db. now + int maxHours * 3600000 \<le> later \<longrightarrow>
      resolveEnrollmentTokenAccess check later header later_db = Inl (Forbidden ''Invalid enrollment token'')" by blast
  with role t(3) ms opens closed show ?thesis unfolding lifetime_def by blast
qed

section \<open>A registration\<close>

text \<open>Digests in hexadecimal.\<close>

definition hex_digest :: "(string \<Rightarrow> string) \<Rightarrow> bool" where
  "hex_digest sha_hex \<longleftrightarrow> (\<forall>s. sha_hex s \<noteq> [] \<and> list_all (\<lambda>c. digit_char c \<or> lower_alpha_char c) (sha_hex s))"

lemma lower_alnum_plain: "digit_char c \<or> lower_alpha_char c \<Longrightarrow> \<not> js_space c \<and> \<not> upper_char c"
  by (auto simp: digit_char_def lower_alpha_char_def js_space_def upper_char_def Let_def)

lemma machine_key_plain:
  assumes "hex_digest sha_hex"
  shows "list_all (\<lambda>c. \<not> js_space c \<and> \<not> upper_char c) (buildMachineKey sha_hex classroomId hostname)"
proof -
  have "list_all (\<lambda>c. \<not> js_space c \<and> \<not> upper_char c) (take 12 (sha_hex classroomId))"
    using assms lower_alnum_plain by (auto simp: hex_digest_def list_all_iff dest!: in_set_takeD)
  moreover have "list_all (\<lambda>c. \<not> js_space c \<and> \<not> upper_char c) (take 220 (sanitizeSlug h 100 True))" for h
    using sanitizeSlug_ok [of 100 True h] slug_char_code by (auto simp: slug_ok_def list_all_iff dest!: in_set_takeD)
  moreover have "list_all (\<lambda>c. \<not> js_space c \<and> \<not> upper_char c) ''machine''"
    "list_all (\<lambda>c. \<not> js_space c \<and> \<not> upper_char c) ''--''"
    by code_simp+
  ultimately show ?thesis by (simp add: buildMachineKey_def Let_def)
qed

lemma machine_key_id:
  assumes "hex_digest sha_hex"
  shows "to_lower (buildMachineKey sha_hex c h) = buildMachineKey sha_hex c h"
    "js_trim (buildMachineKey sha_hex c h) = buildMachineKey sha_hex c h"
  using machine_key_plain [OF assms, of c h]
  by (auto simp: to_lower_def to_lower_char_def list_all_iff intro!: js_trim_no_space map_idI)

text \<open>The row a registration leaves, and what stays.\<close>

lemma registered_row:
  assumes ok: "school_ok db" and r: "registerMachine newId now d db = Inr (m, db1)"
    and host: "to_lower (rmd_hostname d) = key" "js_trim key = key"
  shows "db1 = db\<lparr>db_machines := db_machines db1\<rparr>" "row_by mac_id (mac_id m) (db_machines db1) = Some m"
    "mac_hostname m = key" "mac_classroomId m = Some (rmd_classroomId d)"
    "mac_reportedHostname m = Some (case rmd_reportedHostname d of Some r \<Rightarrow> js_trim r | None \<Rightarrow> key)"
    "x \<in> set (db_machines db1) \<Longrightarrow> x = m \<or> (x \<in> set (db_machines db) \<and> mac_hostname x \<noteq> key)"
    "x \<in> set (db_machines db) \<Longrightarrow> mac_hostname x \<noteq> key \<Longrightarrow> x \<in> set (db_machines db1)"
    "x \<in> set (db_machines db) \<Longrightarrow> mac_hostname x = key \<Longrightarrow> mac_id x = mac_id m"
proof -
  have keys: "distinct_key mac_id (db_machines db)" "distinct_key mac_hostname (db_machines db)"
    using ok by (simp_all add: school_ok_def machines_ok_def)
  have low: "to_lower key = key" using host(1) by (metis to_lower_idem)
  have "db1 = db\<lparr>db_machines := db_machines db1\<rparr> \<and> row_by mac_id (mac_id m) (db_machines db1) = Some m \<and>
    mac_hostname m = key \<and> mac_classroomId m = Some (rmd_classroomId d) \<and>
    mac_reportedHostname m = Some (case rmd_reportedHostname d of Some r \<Rightarrow> js_trim r | None \<Rightarrow> key) \<and>
    (x \<in> set (db_machines db1) \<longrightarrow> x = m \<or> (x \<in> set (db_machines db) \<and> mac_hostname x \<noteq> key)) \<and>
    (x \<in> set (db_machines db) \<longrightarrow> mac_hostname x \<noteq> key \<longrightarrow> x \<in> set (db_machines db1)) \<and>
    (x \<in> set (db_machines db) \<longrightarrow> mac_hostname x = key \<longrightarrow> mac_id x = mac_id m)" for x
  proof (cases "row_by mac_hostname key (db_machines db)")
    case None
    then have "x \<in> set (db_machines db) \<Longrightarrow> mac_hostname x \<noteq> key" for x by (auto simp: row_by_None_iff)
    with None r host low show ?thesis
      by (auto simp: registerMachine_def Let_def getMachineByHostname_def row_by_ins set_ins_row split: if_splits)
  next
    case (Some e)
    define f :: "machine_row \<Rightarrow> machine_row" where "f = (\<lambda>x. x\<lparr>mac_classroomId := Some (rmd_classroomId d),
        mac_reportedHostname := Some (case rmd_reportedHostname d of Some r \<Rightarrow> js_trim r | None \<Rightarrow> key),
        mac_version := (case rmd_version d of Some v \<Rightarrow> Some v | None \<Rightarrow> mac_version e), mac_lastSeen := Some now\<rparr>)"
    have e: "e \<in> set (db_machines db)" "mac_hostname e = key" using row_by_SomeD [OF Some] by simp_all
    have "row_by mac_id (mac_id e) (upd_by mac_id (mac_id e) f (db_machines db)) = Some (f e)"
      using row_by_unique [OF keys(1) e(1)] by (simp add: row_by_upd_by f_def)
    then have m: "m = f e" "db1 = db\<lparr>db_machines := upd_by mac_id (mac_id e) f (db_machines db)\<rparr>"
      using r Some host low
      by (auto simp: registerMachine_def Let_def getMachineByHostname_def f_def [symmetric] split: if_splits)
    have id: "mac_id (f e) = mac_id e" "mac_hostname (f e) = key" "mac_classroomId (f e) = Some (rmd_classroomId d)"
      "mac_reportedHostname (f e) = Some (case rmd_reportedHostname d of Some r \<Rightarrow> js_trim r | None \<Rightarrow> key)"
      using e by (simp_all add: f_def)
    have other: "y \<in> set (db_machines db) \<Longrightarrow> mac_id y = mac_id e \<longleftrightarrow> y = e" for y
      using distinct_key_eq [OF keys(1) _ e(1), of y] by auto
    have host_other: "y \<in> set (db_machines db) \<Longrightarrow> mac_hostname y = key \<longleftrightarrow> y = e" for y
      using distinct_key_eq [OF keys(2) _ e(1), of y] e(2) by auto
    have "row_by mac_id (mac_id m) (db_machines db1) = Some m"
      using row_by_unique [OF keys(1) e(1)] by (simp add: m id row_by_upd_by f_def)
    then show ?thesis using id other host_other by (auto simp: m upd_by_def upd_where_def)
  qed
  then show "db1 = db\<lparr>db_machines := db_machines db1\<rparr>" "row_by mac_id (mac_id m) (db_machines db1) = Some m"
    "mac_hostname m = key" "mac_classroomId m = Some (rmd_classroomId d)"
    "mac_reportedHostname m = Some (case rmd_reportedHostname d of Some r \<Rightarrow> js_trim r | None \<Rightarrow> key)"
    "x \<in> set (db_machines db1) \<Longrightarrow> x = m \<or> (x \<in> set (db_machines db) \<and> mac_hostname x \<noteq> key)"
    "x \<in> set (db_machines db) \<Longrightarrow> mac_hostname x \<noteq> key \<Longrightarrow> x \<in> set (db_machines db1)"
    "x \<in> set (db_machines db) \<Longrightarrow> mac_hostname x = key \<Longrightarrow> mac_id x = mac_id m"
    by blast+
qed

lemma registration_steps:
  assumes "registerMachineWithToken check sha_hex publicUrl nowISO newId newToken now input settings db = (Ok out, db')"
  obtains tok hostname room m db1 y where
    "bearer_part (rgi_authorizationHeader input) = Some tok" "given (rgi_hostname input) = Some hostname"
    "registration_classroom check nowISO now input tok settings db = Inr room"
    "registerMachine newId now \<lparr>rmd_hostname = buildMachineKey sha_hex (cls_id room) hostname,
       rmd_reportedHostname = Some hostname, rmd_classroomId = cls_id room, rmd_version = given (rgi_version input)\<rparr> db = Inr (m, db1)"
    "setMachineDownloadTokenHash now (mac_id m) (sha_hex newToken) db1 = Inr (y, db')"
    "out = \<lparr>rgo_classroomId = cls_id room, rgo_classroomName = cls_name room, rgo_machineHostname = mac_hostname m,
       rgo_reportedHostname = or_else (mac_reportedHostname m) hostname, rgo_whitelistUrl = buildWhitelistUrl publicUrl newToken\<rparr>"
  using assms
  by (auto simp: registerMachineWithToken_def issueMachineDownloadToken_def and_then_Inr_iff
      split: option.splits sum.splits prod.splits)

lemma registration_room:
  assumes "school_ok db" "registration_classroom check nowISO now input tok settings db = Inr room"
  shows "getClassroomById (cls_id room) db = Some room"
    "verifyEnrollmentToken check now tok = Some (cls_id room) \<or>
     (verifyEnrollmentToken check now tok = None \<and> validateRegistrationToken nowISO tok settings \<and>
      (\<exists>name. rgi_classroomName input = Some name \<and> getClassroomByName name db = Some room))"
proof -
  have keys: "distinct_key cls_id (db_classrooms db)" using assms(1) by (simp add: school_ok_def classrooms_ok_def)
  have "room \<in> set (db_classrooms db)"
    using assms(2) by (auto simp: registration_classroom_def getClassroomById_def getClassroomByName_def
        dest: row_by_SomeD split: option.splits if_splits)
  with keys show "getClassroomById (cls_id room) db = Some room"
    by (simp add: getClassroomById_def row_by_unique)
  show "verifyEnrollmentToken check now tok = Some (cls_id room) \<or>
     (verifyEnrollmentToken check now tok = None \<and> validateRegistrationToken nowISO tok settings \<and>
      (\<exists>name. rgi_classroomName input = Some name \<and> getClassroomByName name db = Some room))"
    using assms(2) enroll_scope_room
    by (auto simp: registration_classroom_def given_def split: option.splits if_splits)
qed

lemma token_row_found:
  assumes "school_ok db" "m \<in> set (db_machines db)" "mac_downloadTokenHash m = Some h"
  shows "getMachineByDownloadTokenHash h db = Some m"
proof -
  have keys: "distinct_key mac_id (db_machines db)" "pairwise_apart token_clash (db_machines db)"
    using assms(1) by (simp_all add: school_ok_def machines_ok_def)
  obtain x where x: "getMachineByDownloadTokenHash h db = Some x" "x \<in> set (db_machines db)" "mac_downloadTokenHash x = Some h"
    using assms(2,3) by (cases "getMachineByDownloadTokenHash h db")
      (auto simp: getMachineByDownloadTokenHash_def sel_first_None_iff dest: sel_first_SomeD)
  have "mac_id x = mac_id m"
    using tokens.apart_mem [OF keys(2,1) x(2) assms(2)] x(3) assms(3) by (auto simp: token_clash_def)
  with x distinct_key_eq [OF keys(1) x(2) assms(2)] show ?thesis by simp
qed

lemma token_stored:
  assumes "setMachineDownloadTokenHash now i h db = Inr (y, db')" "row_by mac_id i (db_machines db) = Some m"
  shows "db' = db\<lparr>db_machines := db_machines db'\<rparr>"
    "m\<lparr>mac_downloadTokenHash := Some h, mac_downloadTokenLastRotatedAt := Some now, mac_updatedAt := Some now\<rparr> \<in> set (db_machines db')"
    "x \<in> set (db_machines db) \<Longrightarrow> mac_id x \<noteq> i \<Longrightarrow> x \<in> set (db_machines db')"
  using assms row_by_SomeD [OF assms(2)]
  by (auto simp: setMachineDownloadTokenHash_def update_machine_def Let_def upd_by_def upd_where_def split: if_splits)

text \<open>C34: a registration admits one machine, to a classroom its token is for.  It succeeds only with an
  enrolment token of the classroom or with the registration token of the server and the name of
  the classroom.  Afterwards the token in the address it returns belongs to the machine, which
  is in that classroom and is recognised under the host name it gave; every machine with another
  key is untouched, and so is every other table.\<close>

theorem registration_admits_machine:
  assumes "school_reach tz utc db" "hex_digest sha_hex" "newToken \<noteq> []" "js_trim newToken = newToken"
    and "registerMachineWithToken check sha_hex publicUrl nowISO newId newToken now input settings db = (Ok out, db')"
  shows "\<exists>tok hostname room m.
    bearer_part (rgi_authorizationHeader input) = Some tok \<and> rgi_hostname input = Some hostname \<and>
    (verifyEnrollmentToken check now tok = Some (cls_id room) \<or>
      validateRegistrationToken nowISO tok settings \<and>
      (\<exists>name. rgi_classroomName input = Some name \<and> getClassroomByName name db = Some room)) \<and>
    getClassroomById (cls_id room) db = Some room \<and> rgo_classroomId out = cls_id room \<and>
    rgo_whitelistUrl out = buildWhitelistUrl publicUrl newToken \<and>
    resolveMachineTokenAccess sha_hex newToken db' = Some m \<and> mac_classroomId m = Some (cls_id room) \<and>
    mac_hostname m = buildMachineKey sha_hex (cls_id room) hostname \<and>
    (js_trim hostname \<noteq> [] \<longrightarrow>
      resolveMachineTokenHostnameAccess sha_hex newToken hostname db' = Access_ok m (to_lower (js_trim hostname))) \<and>
    (\<forall>x \<in> set (db_machines db). mac_hostname x \<noteq> mac_hostname m \<longrightarrow> x \<in> set (db_machines db')) \<and>
    db' = db\<lparr>db_machines := db_machines db'\<rparr> \<and> school_reach tz utc db'"
proof -
  have ok: "school_ok db" by (rule school_reach_ok [OF assms(1)])
  obtain tok hostname room m db1 y where st: "bearer_part (rgi_authorizationHeader input) = Some tok"
    "given (rgi_hostname input) = Some hostname" "registration_classroom check nowISO now input tok settings db = Inr room"
    and r: "registerMachine newId now \<lparr>rmd_hostname = buildMachineKey sha_hex (cls_id room) hostname,
       rmd_reportedHostname = Some hostname, rmd_classroomId = cls_id room, rmd_version = given (rgi_version input)\<rparr> db = Inr (m, db1)"
    and t: "setMachineDownloadTokenHash now (mac_id m) (sha_hex newToken) db1 = Inr (y, db')"
    and out: "out = \<lparr>rgo_classroomId = cls_id room, rgo_classroomName = cls_name room, rgo_machineHostname = mac_hostname m,
       rgo_reportedHostname = or_else (mac_reportedHostname m) hostname, rgo_whitelistUrl = buildWhitelistUrl publicUrl newToken\<rparr>"
    by (rule registration_steps [OF assms(5)])
  note row = registered_row [OF ok r, of "buildMachineKey sha_hex (cls_id room) hostname", simplified, OF machine_key_id [OF assms(2)]]
  note stored = token_stored [OF t row(2)]
  have reach: "school_reach tz utc db'" by (rule school_reach.token [OF school_reach.machine [OF assms(1) r] t])
  let ?m = "m\<lparr>mac_downloadTokenHash := Some (sha_hex newToken), mac_downloadTokenLastRotatedAt := Some now, mac_updatedAt := Some now\<rparr>"
  have access: "resolveMachineTokenAccess sha_hex newToken db' = Some ?m"
    using token_row_found [OF school_reach_ok [OF reach] stored(2)] assms(3,4)
    by (simp add: resolveMachineTokenAccess_def)
  then have host: "js_trim hostname \<noteq> [] \<longrightarrow>
      resolveMachineTokenHostnameAccess sha_hex newToken hostname db' = Access_ok ?m (to_lower (js_trim hostname))"
    by (simp add: resolveMachineTokenHostnameAccess_def validateMachineHostnameAccess_def machineHostnameMatches_def
        row(5) Let_def js_trim_lower)
  have others: "x \<in> set (db_machines db')" if "x \<in> set (db_machines db)" "mac_hostname x \<noteq> mac_hostname ?m" for x
  proof -
    have x1: "x \<in> set (db_machines db1)" using row(3,7) that by simp
    have "mac_id x \<noteq> mac_id m"
    proof
      assume "mac_id x = mac_id m"
      moreover have "distinct_key mac_id (db_machines db1)"
        using school_ok_registerMachine [OF ok r] by (simp add: school_ok_def machines_ok_def)
      ultimately have "x = m" using row_by_unique x1 row(2) by fastforce
      with that(2) show False by simp
    qed
    with x1 show ?thesis by (rule stored(3))
  qed
  have "db' = db\<lparr>db_machines := db_machines db'\<rparr>" using stored(1) row(1) by (metis school_db.surjective school_db.update_convs(4))
  moreover have "rgi_hostname input = Some hostname"
    using st(2) by (auto simp: given_def split: option.splits if_splits)
  ultimately show ?thesis
    using st(1) out access host others reach registration_room [OF ok st(3)] row(3,4)
    by (intro exI [of _ tok] exI [of _ hostname] exI [of _ room] exI [of _ ?m]) auto
qed

section \<open>Examples\<close>

lemmas ttl_simps = parseExpiresInSeconds_def digits_def digits_value_def TTL_UNIT_SECONDS_def digit_char_def Let_def

definition note_time :: "int \<Rightarrow> string" where
  "note_time d = (if d < 0 then CHR ''-'' else CHR ''+'') # replicate (nat \<bar>d\<bar>) CHR ''1''"

definition noted_time :: "string \<Rightarrow> int" where
  "noted_time s =
     (let n = int (length (takeWhile (\<lambda>c. c = CHR ''1'') (tl s))) in if hd s = CHR ''-'' then - n else n)"

definition demo_ticket_sign :: enroll_signer where
  "demo_ticket_sign claims opts t =
     note_time (t div 1000 + int (or_else (lifetime_ms (sgo_expiresIn opts)) 0 div 1000)) @ CHR '';'' # or_else (ecl_classroomId claims) []"

definition demo_ticket_check :: enroll_checker where
  "demo_ticket_check issuer audience t token =
     (if issuer = ENROLLMENT_TOKEN_ISSUER \<and> audience = ENROLLMENT_TOKEN_AUDIENCE \<and> t div 1000 < noted_time token
      then Some \<lparr>ecl_typ = Some ''enroll'', ecl_classroomId = Some (tl (dropWhile (\<lambda>c. c = CHR ''1'') (tl token)))\<rparr>
      else None)"

lemma noted_time_note: "noted_time (note_time d @ CHR '';'' # s) = d"
  by (simp add: noted_time_def note_time_def takeWhile_append)

lemma noted_rest: "tl (dropWhile (\<lambda>c. c = CHR ''1'') (tl (note_time d @ CHR '';'' # s))) = s"
  by (simp add: note_time_def dropWhile_append)

lemma demo_ticket_law: "jwt_law demo_ticket_sign demo_ticket_check"
  by (simp add: jwt_law_def Let_def demo_ticket_sign_def demo_ticket_check_def noted_time_note noted_rest or_else_def)

lemma twelve_hours_allowed: "assertWithinEnrollmentTtlCeiling 48 (or_else (Some ''12h'') DEFAULT_EXPIRES_IN) = Inr ()"
  "assertWithinEnrollmentTtlCeiling 48 ''12h'' = Inr ()"
  by (simp_all add: assertWithinEnrollmentTtlCeiling_def ttl_simps or_else_def)

definition demo_ticket :: "service_error + enrollment_ticket" where
  "demo_ticket =
     issueEnrollmentTicket 48 demo_ticket_sign (\<lambda>_. Some 1) (\<lambda>_. ''T'') (\<lambda>_. 0) 5 ''lab'' demo_token (Some ''12h'') demo_db"

lemma ticket_opens_classroom_witness:
  "\<exists>ticket. demo_ticket = Inr ticket \<and>
     resolveEnrollmentTokenAccess demo_ticket_check 43199999 (Some (''Bearer '' @ etk_enrollmentToken ticket)) demo_db = Inr (''lab'', ''lab-1'') \<and>
     resolveEnrollmentTokenAccess demo_ticket_check 43200000 (Some (''Bearer '' @ etk_enrollmentToken ticket)) demo_db =
       Inl (Forbidden ''Invalid enrollment token'')"
proof -
  have "isl (ensureUserCanEnrollClassroom (\<lambda>_. 0) demo_token ''lab'' 5 demo_db) = False"
    "hasEnrollmentRole (or_else (jwt_roles demo_token) []) = True"
    by code_simp+
  then obtain ticket where t: "demo_ticket = Inr ticket"
    by (cases "ensureUserCanEnrollClassroom (\<lambda>_. 0) demo_token ''lab'' 5 demo_db")
      (auto simp: demo_ticket_def issueEnrollmentTicket_def twelve_hours_allowed generateEnrollmentTokenWithExpiry_def
        generateEnrollmentToken_def getEnrollmentTokenExpiresAt_def)
  have room: "getClassroomById ''lab'' demo_db = Some demo_classroom" "cls_name demo_classroom = ''lab-1''" by code_simp+
  have l: "lifetime_ms (or_else (Some ''12h'') DEFAULT_EXPIRES_IN) = Some 43200000" "length (or_else (Some ''12h'') DEFAULT_EXPIRES_IN) \<le> 100"
    by (simp_all add: lifetime_ms_def or_else_def ttl_simps)
  from ticket_opens_classroom [OF demo_ticket_law t [unfolded demo_ticket_def] l(2)] l(1)
  have opens: "\<And>later room later_db. later div 1000 < 43200 \<Longrightarrow> getClassroomById ''lab'' later_db = Some room \<Longrightarrow>
      resolveEnrollmentTokenAccess demo_ticket_check later (Some (''Bearer '' @ etk_enrollmentToken ticket)) later_db = Inr (''lab'', cls_name room)"
    "\<And>later later_db. 43200 \<le> later div 1000 \<Longrightarrow>
      resolveEnrollmentTokenAccess demo_ticket_check later (Some (''Bearer '' @ etk_enrollmentToken ticket)) later_db =
        Inl (Forbidden ''Invalid enrollment token'')"
    by auto
  have "resolveEnrollmentTokenAccess demo_ticket_check 43199999 (Some (''Bearer '' @ etk_enrollmentToken ticket)) demo_db = Inr (''lab'', ''lab-1'')"
    using opens(1) [OF _ room(1), of 43199999] room(2) by simp
  moreover have "resolveEnrollmentTokenAccess demo_ticket_check 43200000 (Some (''Bearer '' @ etk_enrollmentToken ticket)) demo_db =
      Inl (Forbidden ''Invalid enrollment token'')"
    by (rule opens(2)) simp
  ultimately show ?thesis using t by blast
qed

definition demo_register :: register_input where
  "demo_register =
     \<lparr>rgi_authorizationHeader = Some (''Bearer '' @ generateRegistrationToken some_bytes), rgi_classroomId = None,
      rgi_classroomName = Some ''Lab 1'', rgi_hostname = Some ''PC-7'', rgi_version = None\<rparr>"

definition demo_registered :: "register_output outcome \<times> school_db" where
  "demo_registered =
     registerMachineWithToken (\<lambda>_ _ _ _. None) (\<lambda>_. ''0123456789ab'') ''https://x.org/'' ''T'' ''m7'' ''tok7'' 60 demo_register
       (sdb_settings (snd founded)) demo_db"

lemma registration_admits_machine_witness:
  "\<exists>out m. fst demo_registered = Ok out \<and> rgo_whitelistUrl out = buildWhitelistUrl ''https://x.org/'' ''tok7'' \<and>
     resolveMachineTokenHostnameAccess (\<lambda>_. ''0123456789ab'') ''tok7'' ''PC-7'' (snd demo_registered) = Access_ok m ''pc-7''"
proof -
  have "case fst demo_registered of Ok _ \<Rightarrow> True | _ \<Rightarrow> False" by code_simp
  then obtain out where o: "fst demo_registered = Ok out" using outcome_case_Ok by blast
  then have r: "demo_registered = (Ok out, snd demo_registered)" by (metis prod.collapse)
  have "list_all (\<lambda>c. digit_char c \<or> lower_alpha_char c) ''0123456789ab''" by code_simp
  then have h: "hex_digest (\<lambda>_. ''0123456789ab'')" by (simp only: hex_digest_def list.distinct) simp
  have host: "rgi_hostname demo_register = Some ''PC-7''" "to_lower (js_trim ''PC-7'') = ''pc-7''" "js_trim ''PC-7'' \<noteq> []"
    "''tok7'' \<noteq> []" "js_trim ''tok7'' = ''tok7''"
    by code_simp+
  from registration_admits_machine [OF demo_db_reach [of "\<lambda>_. 0" "\<lambda>_. 0"] h host(4,5) r [unfolded demo_registered_def]]
  obtain hostname m where "rgi_hostname demo_register = Some hostname"
    "rgo_whitelistUrl out = buildWhitelistUrl ''https://x.org/'' ''tok7''"
    "js_trim hostname \<noteq> [] \<longrightarrow> resolveMachineTokenHostnameAccess (\<lambda>_. ''0123456789ab'') ''tok7'' hostname (snd demo_registered) =
       Access_ok m (to_lower (js_trim hostname))"
    unfolding demo_registered_def by blast
  with o host(1-3) show ?thesis by auto
qed

text \<open>
  A bare number is read as seconds here, while \<open>jsonwebtoken\<close> reads a string without unit as milliseconds; and with a
  ceiling of one hour a ticket without a stated lifetime is refused, because the default is two hours.
\<close>

lemma bare_number_seconds: "parseExpiresInSeconds ''3600'' = parseExpiresInSeconds ''60m''"
  by (simp add: ttl_simps)

lemma bare_number_milliseconds: "lifetime_ms ''3600'' = Some 3600"
  by (simp add: lifetime_ms_def ttl_simps)

lemma default_above_low_ceiling: "isl (assertWithinEnrollmentTtlCeiling 1 DEFAULT_EXPIRES_IN)"
  by (simp add: assertWithinEnrollmentTtlCeiling_def DEFAULT_EXPIRES_IN_def ttl_simps)

end
