(* ===== verification/Machine_Requests.thy ===== *)
theory Machine_Requests
  imports Enrollment Request_Review
begin

text \<open>
  Requests for access that come from a machine: what the server reads from the body
  (\<open>api/src/lib/public-request-input.ts\<close>), the route (\<open>POST /api/requests/submit\<close> of \<open>api/src/routes/public-requests.ts\<close>)
  and the admission (\<open>api/src/services/machine-request-admission.service.ts\<close>, \<open>public-request.service.ts\<close>), which
  leads to the service of \<open>Request_Review\<close>.

  The body is a JSON value.  Of an object the model keeps the properties it has itself, each once.
\<close>

section \<open>The body of a request\<close>

datatype json_value =
    Json_null
  | Json_bool bool
  | Json_number int
  | Json_string string
  | Json_array "json_value list"
  | Json_object "(string \<times> json_value) list"

type_synonym json_record = "(string \<times> json_value) list"

text \<open>An array has no property with a name that is looked up here.\<close>

fun asRecord :: "json_value option \<Rightarrow> json_record" where
  "asRecord (Some (Json_object members)) = members"
| "asRecord _ = []"

definition string_field :: "json_record \<Rightarrow> string \<Rightarrow> string option" where
  "string_field rec key = (case map_of rec key of Some (Json_string s) \<Rightarrow> Some s | _ \<Rightarrow> None)"

definition getStringField :: "json_record \<Rightarrow> string \<Rightarrow> string" where
  "getStringField rec key = or_else (string_field rec key) []"

fun getFirstStringField :: "json_record \<Rightarrow> string list \<Rightarrow> string" where
  "getFirstStringField rec [] = []"
| "getFirstStringField rec (key # keys) =
     (case string_field rec key of Some s \<Rightarrow> s | None \<Rightarrow> getFirstStringField rec keys)"

fun getFirstField :: "json_record \<Rightarrow> string list \<Rightarrow> json_value option" where
  "getFirstField rec [] = None"
| "getFirstField rec (key # keys) =
     (case map_of rec key of Some v \<Rightarrow> Some v | None \<Rightarrow> getFirstField rec keys)"

definition DIAGNOSTIC_CONTEXT_KEYS :: "(string \<times> string) list" where
  "DIAGNOSTIC_CONTEXT_KEYS =
     [(''correlation_id'', ''correlationId''), (''probe_id'', ''probeId''), (''request_type'', ''requestType''),
      (''target_hostname'', ''targetHostname'')]"

definition sanitizeDiagnosticValue :: "json_value option \<Rightarrow> string" where
  "sanitizeDiagnosticValue v =
     (case v of
        Some (Json_string s) \<Rightarrow>
          take 80 (replace_runs js_space '' ''
            (map (\<lambda>c. if c \<in> {CHR '';'', CHR 0x0D, nl, CHR ''=''} then CHR '' '' else c) (js_trim s)))
      | _ \<Rightarrow> [])"

text \<open>\<open>a ?? b\<close> on properties.\<close>

definition nullish_field :: "json_value option \<Rightarrow> json_value option \<Rightarrow> json_value option" where
  "nullish_field a b = (if a = None \<or> a = Some Json_null then b else a)"

definition normalizeDiagnosticContext :: "json_value option \<Rightarrow> string option" where
  "normalizeDiagnosticContext v =
     (case v of
        Some (Json_string s) \<Rightarrow>
          (let sanitized = take 300 (sanitizeDiagnosticValue v) in if sanitized = [] then None else Some sanitized)
      | Some (Json_object rec) \<Rightarrow>
          (let parts = concat (map (\<lambda>(snakeKey, camelKey).
                 let sanitized = sanitizeDiagnosticValue (nullish_field (map_of rec snakeKey) (map_of rec camelKey))
                 in if sanitized = [] then [] else [snakeKey @ ''='' @ sanitized]) DIAGNOSTIC_CONTEXT_KEYS);
               serialized = take 300 (join_with ''; '' parts)
           in if serialized = [] then None else Some serialized)
      | _ \<Rightarrow> None)"

record auto_request_input =
  ari_domainRaw :: string
  ari_hostnameRaw :: string
  ari_token :: string
  ari_originPageRaw :: string
  ari_targetUrlRaw :: string
  ari_reasonRaw :: string
  ari_diagnosticContextRaw :: "json_value option"

definition parseAutoRequestPayload :: "json_value option \<Rightarrow> auto_request_input" where
  "parseAutoRequestPayload body =
     (let rec = asRecord body
      in \<lparr>ari_domainRaw = getStringField rec ''domain'', ari_hostnameRaw = getStringField rec ''hostname'',
          ari_token = getStringField rec ''token'',
          ari_originPageRaw = getFirstStringField rec [''origin_page'', ''originPage''],
          ari_targetUrlRaw = getFirstStringField rec [''target_url'', ''targetUrl''],
          ari_reasonRaw = js_trim (getStringField rec ''reason''),
          ari_diagnosticContextRaw = getFirstField rec [''diagnostic_context'', ''diagnosticContext'']\<rparr>)"

record submit_request_input =
  sri_domainRaw :: string
  sri_hostnameRaw :: string
  sri_token :: string
  sri_reasonRaw :: string
  sri_originHostRaw :: string
  sri_originPageRaw :: string
  sri_clientVersionRaw :: string
  sri_errorTypeRaw :: string

definition parseSubmitRequestPayload :: "json_value option \<Rightarrow> submit_request_input" where
  "parseSubmitRequestPayload body =
     (let rec = asRecord body
      in \<lparr>sri_domainRaw = getStringField rec ''domain'', sri_hostnameRaw = getStringField rec ''hostname'',
          sri_token = getStringField rec ''token'', sri_reasonRaw = js_trim (getStringField rec ''reason''),
          sri_originHostRaw = getFirstStringField rec [''origin_host'', ''originHost''],
          sri_originPageRaw = getFirstStringField rec [''origin_page'', ''originPage''],
          sri_clientVersionRaw = getFirstStringField rec [''client_version'', ''clientVersion''],
          sri_errorTypeRaw = getFirstStringField rec [''error_type'', ''errorType'']\<rparr>)"

definition parseWhitelistDomain :: "string \<Rightarrow> string + string" where
  "parseWhitelistDomain domainRaw =
     (let normalizedDomain = cleanRuleValue domainRaw False
      in if normalizedDomain = [] then Inl ''Domain is required''
         else
           let validation = validateRuleValue normalizedDomain Whitelist
           in if \<not> rv_valid validation then Inl (or_else (rv_error validation) ''Invalid domain format'')
              else Inr normalizedDomain)"

section \<open>Admission\<close>

record machine_request_context =
  mrc_domain :: string
  mrc_groupId :: string
  mrc_machineHostname :: string

definition resolveMachineRequestAdmission ::
  "(string \<Rightarrow> string) \<Rightarrow> (int \<Rightarrow> int) \<Rightarrow> int \<Rightarrow> string \<Rightarrow> string \<Rightarrow> string \<Rightarrow> school_db \<Rightarrow> service_error + machine_request_context" where
  "resolveMachineRequestAdmission sha_hex tz now domainRaw hostnameRaw token db =
     (case resolveMachineTokenHostnameAccess sha_hex token (normalizeHostInput hostnameRaw) db of
        Invalid_token _ \<Rightarrow> Inl (Forbidden ''Invalid machine token'')
      | Hostname_mismatch _ _ \<Rightarrow> Inl (Forbidden ''Token is not valid for this hostname'')
      | Access_ok machine _ \<Rightarrow>
          (case parseWhitelistDomain domainRaw of
             Inl e \<Rightarrow> Inl (Bad_request e)
           | Inr domain \<Rightarrow>
               (case resolveEffectiveMachinePolicyContext tz (mac_hostname machine) now db of
                  None \<Rightarrow> Inl (Not_found ''No active group found for machine hostname'')
                | Some context \<Rightarrow>
                    if epc_mode context = Unrestricted \<or> \<not> present (epc_groupId context)
                    then Inl (Bad_request ''Machine classroom is unrestricted and does not require access requests'')
                    else Inr \<lparr>mrc_domain = domain, mrc_groupId = the (epc_groupId context),
                              mrc_machineHostname = mac_hostname machine\<rparr>)))"

record submitted_request =
  smr_domainRaw :: string
  smr_hostnameRaw :: string
  smr_token :: string
  smr_reason :: "string option"
  smr_originHost :: "string option"
  smr_originPage :: "string option"
  smr_clientVersion :: "string option"
  smr_errorType :: "string option"

record pending_outcome =
  pco_domain :: string
  pco_groupId :: string
  pco_requestId :: string
  pco_requestStatus :: string
  pco_source :: string

definition machine_creation_input :: "submitted_request \<Rightarrow> machine_request_context \<Rightarrow> request_creation_input" where
  "machine_creation_input input context =
     \<lparr>rci_clientVersion = given (smr_clientVersion input), rci_domain = normalizeManualRequestDomain (mrc_domain context),
      rci_errorType = given (smr_errorType input), rci_groupId = Some (mrc_groupId context),
      rci_machineHostname = Some (mrc_machineHostname context), rci_originHost = given (smr_originHost input),
      rci_originPage = given (smr_originPage input),
      rci_reason = Some (or_else (smr_reason input) ''Submitted via Firefox extension''),
      rci_requesterEmail = None, rci_source = Some ''firefox-extension''\<rparr>"

text \<open>The requests are those of the school's groups.\<close>

definition createMachineRequestFromContext ::
  "(db_error \<Rightarrow> string) \<Rightarrow> bool \<Rightarrow> string option \<Rightarrow> string \<Rightarrow> int \<Rightarrow> submitted_request \<Rightarrow> machine_request_context \<Rightarrow>
   request_db \<Rightarrow> pending_outcome outcome \<times> request_db" where
  "createMachineRequestFromContext msg meta env newId now input context rdb =
     (case svc_createRequest msg meta env newId now (machine_creation_input input context) rdb of
        (Fail e, rdb') \<Rightarrow> (Fail e, rdb')
      | (Throws e, rdb') \<Rightarrow> (Throws e, rdb')
      | (Ok created, rdb') \<Rightarrow>
          (Ok \<lparr>pco_domain = normalizeManualRequestDomain (mrc_domain context), pco_groupId = mrc_groupId context,
               pco_requestId = dr_id created, pco_requestStatus = dr_status created, pco_source = ''firefox-extension''\<rparr>, rdb'))"

definition createSubmittedMachineRequest ::
  "(db_error \<Rightarrow> string) \<Rightarrow> (string \<Rightarrow> string) \<Rightarrow> (int \<Rightarrow> int) \<Rightarrow> bool \<Rightarrow> string option \<Rightarrow> string \<Rightarrow> int \<Rightarrow> submitted_request \<Rightarrow>
   school_db \<Rightarrow> request_row table \<Rightarrow> pending_outcome outcome \<times> request_row table" where
  "createSubmittedMachineRequest msg sha_hex tz meta env newId now input db requests =
     (case resolveMachineRequestAdmission sha_hex tz now (smr_domainRaw input) (smr_hostnameRaw input) (smr_token input) db of
        Inl e \<Rightarrow> (Fail e, requests)
      | Inr context \<Rightarrow>
          (case createMachineRequestFromContext msg meta env newId now input context
              \<lparr>req_groups = db_groups db, req_requests = requests\<rparr> of
             (result, rdb) \<Rightarrow> (result, req_requests rdb)))"

section \<open>The route\<close>

definition or_undefined :: "string \<Rightarrow> string option" where
  "or_undefined s = (if s = [] then None else Some s)"

fun request_status_code :: "service_error \<Rightarrow> nat" where
  "request_status_code (Conflict _) = 409"
| "request_status_code (Not_found _) = 404"
| "request_status_code (Forbidden _) = 403"
| "request_status_code (Bad_request _) = 400"
| "request_status_code _ = 400"

datatype submit_reply = Accepted pending_outcome | Rejected_reply nat service_error | Missing_fields | Server_error

definition submit_route ::
  "(db_error \<Rightarrow> string) \<Rightarrow> (string \<Rightarrow> string) \<Rightarrow> (int \<Rightarrow> int) \<Rightarrow> bool \<Rightarrow> string option \<Rightarrow> string \<Rightarrow> int \<Rightarrow> json_value option \<Rightarrow>
   school_db \<Rightarrow> request_row table \<Rightarrow> submit_reply \<times> request_row table" where
  "submit_route msg sha_hex tz meta env newId now raw db requests =
     (let body = parseSubmitRequestPayload raw
      in if sri_domainRaw body = [] \<or> sri_hostnameRaw body = [] \<or> sri_token body = [] then (Missing_fields, requests)
         else (case createSubmittedMachineRequest msg sha_hex tz meta env newId now
             \<lparr>smr_domainRaw = sri_domainRaw body, smr_hostnameRaw = sri_hostnameRaw body, smr_token = sri_token body,
              smr_reason = or_undefined (take 200 (sri_reasonRaw body)),
              smr_originHost = or_undefined (take 255 (sri_originHostRaw body)),
              smr_originPage = or_undefined (take 2048 (sri_originPageRaw body)),
              smr_clientVersion = or_undefined (take 50 (sri_clientVersionRaw body)),
              smr_errorType = or_undefined (take 100 (sri_errorTypeRaw body))\<rparr> db requests of
             (Fail e, requests') \<Rightarrow> (Rejected_reply (request_status_code e) e, requests')
           | (Throws _, requests') \<Rightarrow> (Server_error, requests')
           | (Ok created, requests') \<Rightarrow> (Accepted created, requests')))"

section \<open>What an admitted request is\<close>

lemma context_group_exists:
  assumes "school_ok db" "resolveEffectiveMachinePolicyContext tz h now db = Some ctx" "present (epc_groupId ctx)"
  shows "the (epc_groupId ctx) \<in> set (group_ids db)"
proof -
  obtain cl where cl: "cl \<in> set (db_classrooms db)"
    and ctx: "ctx = toEffectivePolicyContext (resolveClassroomPolicyScopeForRecord tz cl now db)"
    using assms(2) by (auto simp: resolveEffectiveMachinePolicyContext_def machine_classroom_def getClassroomById_def
        dest!: row_by_SomeD split: option.splits if_splits)
  let ?s = "getCurrentSchedule tz (cls_id cl) now (db_schedules db)"
  have "fk (cls_activeGroupId cl) (group_ids db)" "fk (cls_defaultGroupId cl) (group_ids db)"
    using assms(1) cl by (auto simp: school_ok_def classrooms_ok_def classroom_ok_def list_all_iff)
  moreover have "fk (map_option sch_groupId ?s) (group_ids db)"
    using scheduled_iff [OF school_timetable [OF assms(1)], of tz "cls_id cl" now] assms(1)
    by (cases ?s) (auto simp: scheduled_def school_ok_def schedules_ok_def schedule_refs_def list_all_iff fk_def)
  moreover have "epc_groupId ctx = fst (resolveCurrentGroup (cls_activeGroupId cl) (map_option sch_groupId ?s) (cls_defaultGroupId cl))"
    by (simp add: ctx toEffectivePolicyContext_def resolveClassroomPolicyScopeForRecord_def buildClassroomPolicyScope_def Let_def)
  ultimately show ?thesis using assms(3)
    by (auto simp: resolveCurrentGroup_def fk_def present_def split: if_splits option.splits)
qed

lemma created_request:
  assumes "plain_ids (req_groups rdb)" "rci_groupId input = Some g" "g \<noteq> []" "g \<in> grp_id ` set (gs_groups (req_groups rdb))"
    and "svc_createRequest msg meta env newId now input rdb = (res, rdb')"
  shows "case res of
      Ok created \<Rightarrow>
        (\<exists>row. row = new_request meta newId now g (input\<lparr>rci_domain := normalizeManualRequestDomain (rci_domain input)\<rparr>) \<and>
          rdb' = rdb\<lparr>req_requests := ins_row row (req_requests rdb)\<rparr> \<and> dr_id created = newId \<and> dr_status created = ''pending'' \<and>
          row_by rq_id newId (req_requests rdb) = None \<and> (\<forall>x \<in> set (req_requests rdb). \<not> same_pending row x))
    | _ \<Rightarrow> rdb' = rdb"
proof -
  let ?d = "normalizeManualRequestDomain (rci_domain input)"
  have g: "row_by grp_id g (gs_groups (req_groups rdb)) \<noteq> None" using assms(4) by (auto simp: row_by_None_iff)
  note again = resolveRequest_again [OF assms(1,3) g, of env]
  show ?thesis
  proof (cases "hasPendingRequest ?d (Some g) rdb")
    case True
    then show ?thesis using assms(5) again by (auto simp: svc_createRequest_def Let_def assms(2))
  next
    case False
    let ?row = "new_request meta newId now g (input\<lparr>rci_domain := ?d\<rparr>)"
    have np: "\<forall>x \<in> set (req_requests rdb). \<not> same_pending ?row x"
      using False assms(3)
      by (auto simp: hasPendingRequest_def sel_first_None_iff same_pending_def new_request_def)
    have same: "new_request meta newId now g (input\<lparr>rci_domain := ?d, rci_groupId := Some g\<rparr>) = ?row"
      by (simp add: new_request_def)
    show ?thesis
      using assms(5) False again g np
      by (auto simp: svc_createRequest_def Let_def assms(2) createStoredRequest_def createRequest_def and_then_Inr_iff same
          parseStoredRequest_def toStorageType_def new_request_def or_else_def and_then_def
          split: sum.splits if_splits)
  qed
qed

lemma host_input_same:
  "resolveMachineTokenHostnameAccess sha_hex token (normalizeHostInput h) db = resolveMachineTokenHostnameAccess sha_hex token h db"
  by (simp add: resolveMachineTokenHostnameAccess_def normalizeHostInput_def js_trim_lower)

text \<open>
  The conditions of an admission, said without the calls that check them.  \<open>speaks_for\<close>: the machine's stored hash is
  that of the token, and the name given is its name, the name it reported, or what comes before \<open>--\<close> in a name
  of that form.  \<open>valid_domain\<close>: well-formed labels and at most 253 characters.  \<open>room_group\<close>: the group a teacher set, else that of the current schedule, else the default.
\<close>

definition speaks_for :: "(string \<Rightarrow> string) \<Rightarrow> string \<Rightarrow> string \<Rightarrow> machine_row \<Rightarrow> school_db \<Rightarrow> bool" where
  "speaks_for sha_hex token host m db \<longleftrightarrow>
     m \<in> set (db_machines db) \<and> js_trim token \<noteq> [] \<and> mac_downloadTokenHash m = Some (sha_hex (js_trim token)) \<and>
     (let given = to_lower (js_trim host); own = to_lower (js_trim (mac_hostname m))
      in given \<noteq> [] \<and>
        (given = own \<or> Some given = map_option (\<lambda>h. to_lower (js_trim h)) (mac_reportedHostname m) \<or>
         includes_str own ''--'' \<and> given = normalizeWindowsMachineHostname own))"

definition valid_domain :: "string \<Rightarrow> bool" where
  "valid_domain d \<longleftrightarrow> host_name d \<and> length d \<le> 253"

definition room_group :: "(int \<Rightarrow> int) \<Rightarrow> int \<Rightarrow> school_db \<Rightarrow> classroom_row \<Rightarrow> string \<Rightarrow> bool" where
  "room_group tz now db cl g \<longleftrightarrow>
     g \<noteq> [] \<and>
     (cls_activeGroupId cl = Some g \<or>
      cls_activeGroupId cl \<in> {None, Some []} \<and>
        ((\<exists>r. scheduled tz now db (cls_id cl) r \<and> sch_groupId r = g) \<or>
         (\<forall>r. scheduled tz now db (cls_id cl) r \<longrightarrow> sch_groupId r = []) \<and> cls_defaultGroupId cl = Some g))"

lemma access_speaks:
  "resolveMachineTokenHostnameAccess sha_hex token h db = Access_ok m host \<Longrightarrow> speaks_for sha_hex token h m db"
  by (auto simp: resolveMachineTokenHostnameAccess_def resolveMachineTokenAccess_def getMachineByDownloadTokenHash_def
      validateMachineHostnameAccess_def machineHostnameMatches_def speaks_for_def Let_def js_trim_lower
      dest!: sel_first_SomeD split: if_splits option.splits prod.splits)

lemma context_room:
  assumes ok: "school_ok db"
    and c: "resolveEffectiveMachinePolicyContext tz h now db = Some ctx" "epc_groupId ctx = Some g" "g \<noteq> []"
  shows "\<exists>m \<in> set (db_machines db). \<exists>cl \<in> set (db_classrooms db).
    mac_hostname m = js_trim (to_lower h) \<and> mac_classroomId m = Some (cls_id cl) \<and> room_group tz now db cl g"
proof -
  obtain m cl where m: "m \<in> set (db_machines db)" "mac_hostname m = js_trim (to_lower h)"
      "cl \<in> set (db_classrooms db)" "mac_classroomId m = Some (cls_id cl)"
    and ctx: "ctx = toEffectivePolicyContext (resolveClassroomPolicyScopeForRecord tz cl now db)"
    using c(1) by (auto simp: resolveEffectiveMachinePolicyContext_def machine_classroom_def getClassroomById_def
        getMachineByHostname_def dest!: row_by_SomeD split: option.splits if_splits)
  let ?s = "getCurrentSchedule tz (cls_id cl) now (db_schedules db)"
  have "Some g = fst (resolveCurrentGroup (cls_activeGroupId cl) (map_option sch_groupId ?s) (cls_defaultGroupId cl))"
    using c(2) by (simp add: ctx toEffectivePolicyContext_def resolveClassroomPolicyScopeForRecord_def buildClassroomPolicyScope_def Let_def)
  then have "room_group tz now db cl g"
    using c(3)
    by (cases ?s) (auto simp: room_group_def resolveCurrentGroup_def present_def
        simp flip: scheduled_iff [OF school_timetable [OF ok]] split: if_splits option.splits)
  with m show ?thesis by blast
qed

lemma parsed_domain:
  "parseWhitelistDomain raw = Inr d \<Longrightarrow> d = cleanRuleValue raw False \<and> valid_domain (cleanRuleValue (cleanRuleValue raw False) False)"
  using validateRuleValue_valid_alt [of "cleanRuleValue raw False" Whitelist]
  by (auto simp: parseWhitelistDomain_def Let_def validateDomain_valid preserves_path_def valid_domain_def split: if_splits)

lemma admission_steps:
  assumes "resolveMachineRequestAdmission sha_hex tz now domainRaw hostnameRaw token db = Inr cx"
  shows "\<exists>m ctx. speaks_for sha_hex token hostnameRaw m db \<and>
    parseWhitelistDomain domainRaw = Inr (mrc_domain cx) \<and>
    resolveEffectiveMachinePolicyContext tz (mac_hostname m) now db = Some ctx \<and>
    epc_groupId ctx = Some (mrc_groupId cx) \<and> mrc_groupId cx \<noteq> [] \<and> mrc_machineHostname cx = mac_hostname m"
proof -
  obtain m host where m: "resolveMachineTokenHostnameAccess sha_hex token hostnameRaw db = Access_ok m host"
    using assms by (auto simp: resolveMachineRequestAdmission_def host_input_same split: hostname_access.splits)
  obtain d where d: "parseWhitelistDomain domainRaw = Inr d"
    using assms m by (auto simp: resolveMachineRequestAdmission_def host_input_same split: sum.splits)
  obtain ctx where ctx: "resolveEffectiveMachinePolicyContext tz (mac_hostname m) now db = Some ctx"
    using assms m d by (auto simp: resolveMachineRequestAdmission_def host_input_same split: option.splits)
  then obtain g where "epc_groupId ctx = Some g" "g \<noteq> []"
    "cx = \<lparr>mrc_domain = d, mrc_groupId = g, mrc_machineHostname = mac_hostname m\<rparr>"
    using assms m d
    by (cases "epc_mode ctx") (auto simp: resolveMachineRequestAdmission_def host_input_same present_def split: if_splits option.splits)
  with access_speaks [OF m] d ctx show ?thesis by auto
qed

lemma machine_admission:
  assumes "school_reach tz utc db" "plain_ids (db_groups db)"
    and "submit_route msg sha_hex tz meta env newId now raw db requests = (reply, requests')"
  defines "body \<equiv> parseSubmitRequestPayload raw"
  shows "case reply of
      Accepted out \<Rightarrow>
        (\<exists>m m' cl g row domain.
          speaks_for sha_hex (sri_token body) (sri_hostnameRaw body) m db \<and>
          m' \<in> set (db_machines db) \<and> mac_hostname m' = js_trim (to_lower (mac_hostname m)) \<and>
          cl \<in> set (db_classrooms db) \<and> mac_classroomId m' = Some (cls_id cl) \<and> room_group tz now db cl g \<and>
          domain = cleanRuleValue (sri_domainRaw body) False \<and> valid_domain (cleanRuleValue domain False) \<and>
          g \<in> set (group_ids db) \<and> pco_groupId out = g \<and> pco_requestId out = newId \<and>
          pco_domain out = normalizeManualRequestDomain domain \<and>
          requests' = ins_row row requests \<and> rq_id row = newId \<and> rq_groupId row = g \<and> rq_status row = Some ''pending'' \<and>
          rq_domain row = normalizeRequestDomain (normalizeManualRequestDomain (pco_domain out)) \<and>
          (meta \<longrightarrow> rq_machineHostname row = Some (mac_hostname m)) \<and> (\<forall>x \<in> set requests. \<not> same_pending row x))
    | _ \<Rightarrow> requests' = requests"
proof -
  have ok: "school_ok db" by (rule school_reach_ok [OF assms(1)])
  let ?input = "\<lparr>smr_domainRaw = sri_domainRaw body, smr_hostnameRaw = sri_hostnameRaw body, smr_token = sri_token body,
      smr_reason = or_undefined (take 200 (sri_reasonRaw body)), smr_originHost = or_undefined (take 255 (sri_originHostRaw body)),
      smr_originPage = or_undefined (take 2048 (sri_originPageRaw body)),
      smr_clientVersion = or_undefined (take 50 (sri_clientVersionRaw body)),
      smr_errorType = or_undefined (take 100 (sri_errorTypeRaw body))\<rparr>"
  let ?adm = "resolveMachineRequestAdmission sha_hex tz now (sri_domainRaw body) (sri_hostnameRaw body) (sri_token body) db"
  show ?thesis
  proof (cases "sri_domainRaw body = [] \<or> sri_hostnameRaw body = [] \<or> sri_token body = [] \<or> isl ?adm")
    case True
    then show ?thesis using assms(3)
      by (auto simp: submit_route_def createSubmittedMachineRequest_def Let_def body_def isl_def split: if_splits)
  next
    case False
    then obtain cx where c: "?adm = Inr cx" by (cases ?adm) auto
    from admission_steps [OF c] obtain m ctx where
      m: "speaks_for sha_hex (sri_token body) (sri_hostnameRaw body) m db"
      and d: "parseWhitelistDomain (sri_domainRaw body) = Inr (mrc_domain cx)"
      and ctx: "resolveEffectiveMachinePolicyContext tz (mac_hostname m) now db = Some ctx"
        "epc_groupId ctx = Some (mrc_groupId cx)" "mrc_groupId cx \<noteq> []" "mrc_machineHostname cx = mac_hostname m"
      by blast
    have g: "mrc_groupId cx \<in> set (group_ids db)"
      using context_group_exists [OF ok ctx(1)] ctx(2,3) by (simp add: present_def)
    from context_room [OF ok ctx(1-3)] obtain m' cl where room: "m' \<in> set (db_machines db)" "cl \<in> set (db_classrooms db)"
      "mac_hostname m' = js_trim (to_lower (mac_hostname m))" "mac_classroomId m' = Some (cls_id cl)"
      "room_group tz now db cl (mrc_groupId cx)"
      by blast
    let ?rdb = "\<lparr>req_groups = db_groups db, req_requests = requests\<rparr>"
    obtain res rdb' where r: "svc_createRequest msg meta env newId now (machine_creation_input ?input cx) ?rdb = (res, rdb')"
      by (cases "svc_createRequest msg meta env newId now (machine_creation_input ?input cx) ?rdb")
    have said: "reply = (case res of
        Ok created \<Rightarrow> Accepted \<lparr>pco_domain = normalizeManualRequestDomain (mrc_domain cx), pco_groupId = mrc_groupId cx,
          pco_requestId = dr_id created, pco_requestStatus = dr_status created, pco_source = ''firefox-extension''\<rparr>
      | Fail e \<Rightarrow> Rejected_reply (request_status_code e) e | Throws _ \<Rightarrow> Server_error) \<and> requests' = req_requests rdb'"
      using assms(3) False c r
      by (auto simp: submit_route_def createSubmittedMachineRequest_def createMachineRequestFromContext_def Let_def
          body_def [symmetric] split: outcome.splits)
    have made: "case res of Ok created \<Rightarrow>
        (\<exists>row. row = new_request meta newId now (mrc_groupId cx) ((machine_creation_input ?input cx)
              \<lparr>rci_domain := normalizeManualRequestDomain (normalizeManualRequestDomain (mrc_domain cx))\<rparr>) \<and>
          rdb' = ?rdb\<lparr>req_requests := ins_row row requests\<rparr> \<and> dr_id created = newId \<and> dr_status created = ''pending'' \<and>
          (\<forall>x \<in> set requests. \<not> same_pending row x))
      | _ \<Rightarrow> rdb' = ?rdb"
      using created_request [OF _ _ ctx(3) _ r] assms(2) g
      by (cases res) (auto simp: machine_creation_input_def group_ids_def)
    show ?thesis
    proof (cases res)
      case (Ok created)
      with said made obtain row where row: "row = new_request meta newId now (mrc_groupId cx) ((machine_creation_input ?input cx)
              \<lparr>rci_domain := normalizeManualRequestDomain (normalizeManualRequestDomain (mrc_domain cx))\<rparr>)"
        and res: "requests' = ins_row row requests" "\<forall>x \<in> set requests. \<not> same_pending row x"
          "reply = Accepted \<lparr>pco_domain = normalizeManualRequestDomain (mrc_domain cx), pco_groupId = mrc_groupId cx,
            pco_requestId = newId, pco_requestStatus = ''pending'', pco_source = ''firefox-extension''\<rparr>"
        by auto
      have "rq_id row = newId" "rq_groupId row = mrc_groupId cx" "rq_status row = Some ''pending''"
        "rq_domain row = normalizeRequestDomain (normalizeManualRequestDomain (normalizeManualRequestDomain (mrc_domain cx)))"
        "meta \<longrightarrow> rq_machineHostname row = Some (mac_hostname m)"
        by (simp_all add: row machine_creation_input_def new_request_def ctx(4))
      then show ?thesis
        unfolding res(3) submit_reply.case
        using m parsed_domain [OF d] g room res(1,2)
        by - (rule exI [of _ m], rule exI [of _ m'], rule exI [of _ cl], rule exI [of _ "mrc_groupId cx"], rule exI [of _ row],
            rule exI [of _ "mrc_domain cx"], simp)
    qed (use said made in simp_all)
  qed
qed

text \<open>C30: what a machine can ask for.  A request is accepted only with the token whose hash a machine has
  stored, under a host name of that machine, for a domain that is, once cleaned, a host name of
  well-formed labels and at most 253 characters, and while the machine's classroom is under a group, which is the one a teacher set, else the
  current schedule's, else the default; it then adds one pending request for the root domain, addressed to
  that group, where none was pending for the same domain and group.  Any other answer leaves the requests
  as they were.\<close>

theorem machine_request_admitted:
  assumes "school_reach tz utc db" "plain_ids (db_groups db)"
    and "submit_route msg sha_hex tz meta env newId now raw db requests = (reply, requests')"
  defines "body \<equiv> parseSubmitRequestPayload raw"
  shows "case reply of
      Accepted out \<Rightarrow>
        (\<exists>m m' cl g row domain.
          speaks_for sha_hex (sri_token body) (sri_hostnameRaw body) m db \<and>
          m' \<in> set (db_machines db) \<and> mac_hostname m' = js_trim (to_lower (mac_hostname m)) \<and>
          cl \<in> set (db_classrooms db) \<and> mac_classroomId m' = Some (cls_id cl) \<and> room_group tz now db cl g \<and>
          domain = cleanRuleValue (sri_domainRaw body) False \<and> valid_domain (cleanRuleValue domain False) \<and>
          g \<in> set (group_ids db) \<and> pco_groupId out = g \<and> pco_requestId out = newId \<and>
          pco_domain out = normalizeManualRequestDomain domain \<and>
          requests' = ins_row row requests \<and> rq_id row = newId \<and> rq_groupId row = g \<and> rq_status row = Some ''pending'' \<and>
          rq_domain row = normalizeRequestDomain (normalizeManualRequestDomain (pco_domain out)) \<and>
          (meta \<longrightarrow> rq_machineHostname row = Some (mac_hostname m)) \<and> (\<forall>x \<in> set requests. \<not> same_pending row x))
    | _ \<Rightarrow> requests' = requests"
  unfolding body_def by (rule machine_admission [OF assms(1-3)])

section \<open>From the question to the whitelist\<close>

lemma submitted_reach:
  assumes "request_reach \<lparr>req_groups = db_groups db, req_requests = requests\<rparr>"
    and "submit_route msg sha_hex tz meta env newId now raw db requests = (reply, requests')"
  shows "request_reach \<lparr>req_groups = db_groups db, req_requests = requests'\<rparr>"
proof -
  have "requests' = requests \<or> (\<exists>input res rdb'. svc_createRequest msg meta env newId now input
      \<lparr>req_groups = db_groups db, req_requests = requests\<rparr> = (res, rdb') \<and> requests' = req_requests rdb')"
    using assms(2)
    by (auto simp: submit_route_def createSubmittedMachineRequest_def createMachineRequestFromContext_def Let_def
        split: outcome.splits sum.splits prod.splits if_splits)
  moreover have "req_groups rdb' = db_groups db"
    if "svc_createRequest msg meta env newId now input \<lparr>req_groups = db_groups db, req_requests = requests\<rparr> = (res, rdb')"
    for input res rdb'
    using svc_createRequest_cases [OF that request_reach_ok [OF assms(1)]] by auto
  ultimately show ?thesis
    using assms(1) request_reach.step [OF assms(1) request_step.create] by (metis request_db.surjective old.unit.exhaust)
qed

lemma new_rule_exported:
  assumes "createRule n now gid Whitelist v None gs = Inr (res, gs')" "\<not> listed_rule gid v gs"
  shows "res = Rule_created n \<and>
    normalizeRuleValue Whitelist v \<in> set (enabled_values Whitelist (getRulesByGroup ck t gid None None gs'))"
proof -
  let ?r = "\<lparr>rul_id = n, rul_groupId = gid, rul_type = Whitelist, rul_value = normalizeRuleValue Whitelist v,
    rul_enabled = 1, rul_comment = None, rul_createdAt = Some now\<rparr>"
  have "sel_first (\<lambda>r. rul_groupId r = gid \<and> rul_type r = Whitelist \<and> rul_value r = normalizeRuleValue Whitelist v) (gs_rules gs) = None"
    using assms(2) by (auto simp: listed_rule_def list_ex_iff sel_first_None_iff)
  with assms(1) have r: "res = Rule_created n" "?r \<in> set (gs_rules gs')"
    by (auto simp: createRule_def Let_def and_then_Inr_iff insert_rules_def split: if_splits)
  then have "dbRuleToApi t ?r \<in> set (getRulesByGroup ck t gid None None gs')"
    by (auto simp: getRulesByGroup_def listRuleRowsByGroup_def filterRulesByEnabled_def sel_where_def)
  then show ?thesis
    using r(1) by (force simp: enabled_values_def dbRuleToApi_def)
qed

text \<open>
  Reading a whitelist file: the entries under a header are the lines up to the next line that starts with \<open>#\<close>.
  \<open>coherent_cache\<close>: a server that has just started, or whose exports met the conditions of the export cache
  (\<open>exportGroup_spec\<close>).
\<close>

definition listed_under :: "string \<Rightarrow> string \<Rightarrow> string list" where
  "listed_under header file =
     takeWhile (\<lambda>l. \<not> starts_with l ''#'') (tl (dropWhile (\<lambda>l. l \<noteq> header) (effective_lines file)))"

definition coherent_cache :: "(string \<Rightarrow> nat list) \<Rightarrow> (int \<Rightarrow> string) \<Rightarrow> nat \<Rightarrow> group_store \<Rightarrow> export_cache \<Rightarrow> bool" where
  "coherent_cache ck toISO cmax s cache \<longleftrightarrow>
     cache = [] \<or> inj ck \<and> (\<forall>d. length (toISO d) = 24) \<and> plain_store s \<and> cache_reach ck toISO cmax cache"

lemma coherent_export:
  assumes "coherent_cache ck toISO cmax s cache"
  shows "fst (exportGroup ck toISO cmax now gid s cache) =
    map_option (\<lambda>g. export_content g (getRulesByGroup ck now gid None None s)) (getGroupMetaById now gid s)"
proof (cases "cache = []")
  case True
  then show ?thesis by (simp add: exportGroup_def Let_def split: option.splits)
next
  case False
  then have c: "inj ck" "\<forall>d. length (toISO d) = 24" "plain_store s" "cache_reach ck toISO cmax cache"
    using assms by (auto simp: coherent_cache_def)
  show ?thesis by (rule exportGroup_spec(1) [OF c(1-3) cache_reach_justified [OF c(4,1,2)]])
qed

lemma takeWhile_sections:
  assumes "list_all export_line w"
  shows "takeWhile (\<lambda>l. \<not> starts_with l ''#'') (w @ section_lines ''## BLOCKED-SUBDOMAINS'' b @
    section_lines ''## BLOCKED-PATHS'' p @ section_lines ''## ALLOWED-PATHS'' a) = w"
proof -
  have "\<not> starts_with l ''#''" if "export_line l" for l
    using that by (cases l) (auto simp: export_line_def starts_with_def)
  with assms show ?thesis
    by (induction w) (auto simp: section_lines_def starts_with_def)
qed

lemma whitelist_listed:
  assumes "\<And>ty. list_all export_line (enabled_values ty rules)" "gm_enabled grp" "v \<in> set (enabled_values Whitelist rules)"
  shows "v \<in> set (listed_under ''## WHITELIST'' (export_content grp rules))"
proof -
  have "enabled_values Whitelist rules \<noteq> []" using assms(3) by auto
  then have "effective_lines (export_content grp rules) = ''## WHITELIST'' # enabled_values Whitelist rules @
      section_lines ''## BLOCKED-SUBDOMAINS'' (enabled_values Blocked_subdomain rules) @
      section_lines ''## BLOCKED-PATHS'' (enabled_values Blocked_path rules) @
      section_lines ''## ALLOWED-PATHS'' (enabled_values Allowed_path rules)"
    using effective_content [OF assms(1) assms(1) assms(1) assms(1), of Whitelist Blocked_subdomain Blocked_path Allowed_path]
    by (simp add: export_content_def effective_file assms(2) section_lines_def [of "''## WHITELIST''"])
  then show ?thesis using assms(3) by (simp add: listed_under_def takeWhile_sections [OF assms(1)])
qed

lemma export_values_lines:
  assumes "list_all (\<lambda>r. export_line (rul_value r)) (gs_rules s)"
  shows "list_all export_line (enabled_values ty (getRulesByGroup ck t gid None None s))"
  using assms by (auto simp: enabled_values_def getRulesByGroup_def listRuleRowsByGroup_def filterRulesByEnabled_def sel_where_def
      dbRuleToApi_def list_all_iff)

lemma createRule_group:
  assumes "createRule n now gid ty v c gs = Inr (res, gs')" "row_by grp_id gid (gs_groups gs) = Some grp"
  shows "\<exists>grp'. row_by grp_id gid (gs_groups gs') = Some grp' \<and> grp_enabled grp' = grp_enabled grp"
proof -
  have "row_by grp_id gid (upd_by grp_id gid f (gs_groups gs)) = Some (f grp)" if "\<And>g. grp_id (f g) = grp_id g" for f
    using assms(2) that by (simp add: row_by_upd_by)
  then show ?thesis using assms
    by (auto simp: createRule_def Let_def and_then_Inr_iff insert_rules_def touchGroupUpdatedAt_def split: if_splits)
qed


section \<open>Examples\<close>

definition room_made :: "db_error + classroom_row \<times> school_db" where
  "room_made =
     createClassroom ''lab'' 0
       \<lparr>ccd_name = ''Lab 1'', ccd_displayName = None, ccd_defaultGroupId = Some ''g1'', ccd_captivePortalDomains = None\<rparr>
       \<lparr>db_users = [''t1''], db_groups = demo_before, db_classrooms = [], db_machines = [], db_schedules = [], db_exemptions = []\<rparr>"

definition machine_made :: "db_error + machine_row \<times> school_db" where
  "machine_made =
     registerMachine ''m1'' 0
       \<lparr>rmd_hostname = ''pc1'', rmd_reportedHostname = Some ''PC1'', rmd_classroomId = ''lab'', rmd_version = None\<rparr>
       (snd (projr room_made))"

definition token_made :: "db_error + machine_row option \<times> school_db" where
  "token_made = setMachineDownloadTokenHash 0 ''m1'' ''tok'' (snd (projr machine_made))"

definition ask_school :: school_db where
  "ask_school = snd (projr token_made)"

lemma projr_pair: "isl x = False \<Longrightarrow> x = Inr (fst (projr x), snd (projr x))"
  by (cases x) simp_all

lemma ask_school_reach: "school_reach tz utc ask_school"
proof -
  have "store_reach demo_before"
  proof -
    have "createGroup ''g1'' 0 ''primary'' ''Primary'' no_opts \<lparr>gs_groups = [], gs_rules = []\<rparr> = Inr (''g1'', demo_before)"
      by code_simp
    then show ?thesis by (rule store_reach.group [OF store_reach.init])
  qed
  note groups = this
  have "school_reach tz utc \<lparr>db_users = [''t1''], db_groups = \<lparr>gs_groups = [], gs_rules = []\<rparr>, db_classrooms = [],
      db_machines = [], db_schedules = [], db_exemptions = []\<rparr>"
    by (rule school_reach.empty)
  from school_reach.groups [OF this groups]
  have 1: "school_reach tz utc \<lparr>db_users = [''t1''], db_groups = demo_before, db_classrooms = [], db_machines = [],
      db_schedules = [], db_exemptions = []\<rparr>"
    by (simp add: group_ids_def)
  have l: "isl room_made = False" "isl machine_made = False" "isl token_made = False" by code_simp+
  have 2: "school_reach tz utc (snd (projr room_made))"
    by (rule school_reach.classroom [OF 1 projr_pair [OF l(1), unfolded room_made_def], folded room_made_def])
  have 3: "school_reach tz utc (snd (projr machine_made))"
    by (rule school_reach.machine [OF 2 projr_pair [OF l(2), unfolded machine_made_def], folded machine_made_def])
  show ?thesis unfolding ask_school_def
    by (rule school_reach.token [OF 3 projr_pair [OF l(3), unfolded token_made_def], folded token_made_def])
qed

definition ask_body :: "string \<Rightarrow> json_value option" where
  "ask_body domain =
     Some (Json_object [(''domain'', Json_string domain), (''hostname'', Json_string ''PC1''), (''token'', Json_string ''tok'')])"

definition asked_route :: "string \<Rightarrow> submit_reply \<times> request_row table" where
  "asked_route domain = submit_route demo_msg id (\<lambda>_. 0) True None ''req1'' 5 (ask_body domain) ask_school []"

lemma asked_route_value:
  "map (\<lambda>r. (rq_domain r, rq_groupId r)) (snd (asked_route ''www.example.com'')) = [(''example.com'', ''g1'')]"
  by code_simp

lemma ask_school_groups: "db_groups ask_school = demo_before"
  by code_simp

lemma ask_desk_reach: "request_reach \<lparr>req_groups = db_groups ask_school, req_requests = []\<rparr>"
  using demo_desk_reach by (simp add: demo_desk_def drop_orphans_def del_where_def ask_school_groups)

lemma asked_accepted:
  obtains out where "asked_route ''www.example.com'' = (Accepted out, snd (asked_route ''www.example.com''))"
    "pco_domain out = ''example.com''" "pco_groupId out = ''g1''"
proof -
  have "case fst (asked_route ''www.example.com'') of
      Accepted out \<Rightarrow> pco_domain out = ''example.com'' \<and> pco_groupId out = ''g1'' | _ \<Rightarrow> False"
    by code_simp
  then show ?thesis using that
    by (cases "asked_route ''www.example.com''") (auto split: submit_reply.splits)
qed

lemma machine_request_admitted_witness:
  "\<exists>m row. speaks_for id ''tok'' ''PC1'' m ask_school \<and> valid_domain ''www.example.com'' \<and>
     snd (asked_route ''www.example.com'') = [row] \<and> rq_groupId row = ''g1'' \<and> rq_machineHostname row = Some (mac_hostname m)"
proof -
  obtain out where out: "asked_route ''www.example.com'' = (Accepted out, snd (asked_route ''www.example.com''))"
    "pco_groupId out = ''g1''"
    by (rule asked_accepted)
  have p: "plain_ids (db_groups ask_school)" by code_simp
  have body: "sri_token (parseSubmitRequestPayload (ask_body ''www.example.com'')) = ''tok''"
    "sri_hostnameRaw (parseSubmitRequestPayload (ask_body ''www.example.com'')) = ''PC1''"
    "cleanRuleValue (sri_domainRaw (parseSubmitRequestPayload (ask_body ''www.example.com''))) False = ''www.example.com''"
    "cleanRuleValue ''www.example.com'' False = ''www.example.com''"
    by code_simp+
  have "submit_route demo_msg id (\<lambda>_. 0) True None ''req1'' 5 (ask_body ''www.example.com'') ask_school [] =
      (Accepted out, snd (asked_route ''www.example.com''))"
    unfolding asked_route_def [symmetric] by (rule out(1))
  from machine_request_admitted [OF ask_school_reach [of "\<lambda>_. 0" "\<lambda>_. 0"] p this, unfolded body]
  show ?thesis using out(2) by (auto simp: ins_row_def body(4))
qed

definition approved_ask :: "(domain_request, request_db) svc_result" where
  "approved_ask =
     approveRequest demo_msg code_unit_key ''r1'' 9 ''req1'' None demo_token
       \<lparr>req_groups = db_groups ask_school, req_requests = snd (asked_route ''www.example.com'')\<rparr>"


text \<open>
  A host \<open>www\<close> directly below a public suffix: the prefix is cut off before the labels are counted, so what is asked
  for, and what an approval puts on the whitelist, is the suffix itself with everything below it.
\<close>

lemma www_below_suffix:
  "rv_valid (validateRuleValue ''www.com'' Whitelist)"
  "normalizeManualRequestDomain ''www.com'' = ''com''"
  "map (\<lambda>r. (rq_domain r, rq_status r)) (snd (asked_route ''www.com'')) = [(''com'', Some ''pending'')]"
  by code_simp+

text \<open>The value is cleaned, and cleaned again before it is validated: what is admitted need not be what was
  validated, and may even be empty.\<close>

lemma cleaned_twice:
  "parseWhitelistDomain ''*://*://example.com'' = Inr ''*://example.com''"
  "map (\<lambda>r. (rq_domain r, rq_status r)) (snd (asked_route ''*://*://example.com'')) = [([], Some ''pending'')]"
  by code_simp+

end
