(* ===== verification/Enrollment_Scripts.thy ===== *)
theory Enrollment_Scripts
  imports Enrollment
begin

text \<open>
  The scripts a computer runs to enrol itself (\<open>api/src/lib/enrollment-script.ts\<close>,
  \<open>api/src/services/enrollment-service-shared.ts\<close>), the services that hand them out
  (\<open>api/src/services/enrollment-bootstrap.service.ts\<close>) and the version of the agent they install, which is
  looked up in the package lists of an APT repository (\<open>api/src/lib/server-asset-linux.ts\<close>).

  The scripts are given in full.  To say what they do with the values put into them, \<open>sh_prologue\<close> and
  \<open>ps_prologue\<close> read the assignments at the start of a script the way the shell and PowerShell read them,
  and stop at the first command.  The repository is the function \<open>served\<close>: what it answers to a request for an
  address at a given time.  \<open>parse_url\<close> is the class \<open>URL\<close>: protocol and host name of a text that is a URL.
\<close>

section \<open>Quoting\<close>

definition qt :: char where
  "qt = CHR 0x27"

definition bsl :: char where
  "bsl = CHR 0x5C"

definition atc :: char where
  "atc = CHR 0x40"

definition dq :: char where
  "dq = CHR 0x22"

definition bashSingleQuote :: "string \<Rightarrow> string" where
  "bashSingleQuote value = [qt] @ concat (map (\<lambda>c. if c = qt then [qt, bsl, qt, qt] else [c]) value) @ [qt]"

definition quotePowerShellSingle :: "string \<Rightarrow> string" where
  "quotePowerShellSingle value = [qt] @ concat (map (\<lambda>c. if c = qt then [qt, qt] else [c]) value) @ [qt]"

text \<open>The lines of a file, each with its end.\<close>

definition file_text :: "string list \<Rightarrow> string" where
  "file_text lines = concat (map (\<lambda>l. l @ [nl]) lines)"

section \<open>The script for Linux\<close>

definition LOCAL_HTTP_HOSTS :: "string list" where
  "LOCAL_HTTP_HOSTS = [''localhost'', ''127.0.0.1'', ''[::1]'', ''::1'']"

definition isTestFixtureHost :: "string \<Rightarrow> bool" where
  "isTestFixtureHost hostname \<longleftrightarrow> hostname = ''example'' \<or> ends_with hostname ''.example'' \<or> ends_with hostname ''.test''"

definition assertSafeEnrollmentUrl ::
  "(string \<Rightarrow> (string \<times> string) option) \<Rightarrow> bool \<Rightarrow> string \<Rightarrow> string \<Rightarrow> string + unit" where
  "assertSafeEnrollmentUrl parse_url test_env value label =
     (case parse_url value of
        None \<Rightarrow> Inl (label @ '' must be a valid URL'')
      | Some (protocol, hostname) \<Rightarrow>
          if protocol \<noteq> ''http:'' then Inr ()
          else if test_env then Inr ()
          else if hostname \<in> set LOCAL_HTTP_HOSTS \<or> isTestFixtureHost hostname then Inr ()
          else Inl (label @ '' must use HTTPS outside local or test environments''))"

record linux_script_params =
  lsp_publicUrl :: string
  lsp_classroomId :: string
  lsp_classroomName :: string
  lsp_enrollmentToken :: string
  lsp_aptRepoUrl :: string
  lsp_linuxAgentVersion :: string
  lsp_linuxAgentAptSuite :: string

text \<open>The lines up to the first command, and the rest, which depends on two flags only.\<close>

definition linux_settings :: "linux_script_params \<Rightarrow> string \<Rightarrow> string list" where
  "linux_settings p aptSuite =
     [''#!/bin/bash'',
      ''set -euo pipefail'',
      [],
      ''API_URL='' @ bashSingleQuote (lsp_publicUrl p),
      ''CLASSROOM_ID='' @ bashSingleQuote (lsp_classroomId p),
      ''CLASSROOM_NAME='' @ bashSingleQuote (lsp_classroomName p),
      ''ENROLLMENT_TOKEN='' @ bashSingleQuote (lsp_enrollmentToken p),
      ''APT_BOOTSTRAP_URL='' @ bashSingleQuote (lsp_aptRepoUrl p @ ''/apt-bootstrap.sh''),
      ''OPENPATH_APT_REPO_URL='' @ bashSingleQuote (lsp_aptRepoUrl p),
      ''export OPENPATH_APT_REPO_URL'',
      ''LINUX_AGENT_APT_SUITE='' @ bashSingleQuote aptSuite,
      (if lsp_linuxAgentVersion p = [] then [] else ''LINUX_AGENT_VERSION='' @ bashSingleQuote (lsp_linuxAgentVersion p)),
      []]"

definition linux_commands :: "bool \<Rightarrow> bool \<Rightarrow> string list" where
  "linux_commands unstable pinned =
     ['' echo '' @ [qt] @ [qt],
      ''echo '' @ [qt] @ ''==============================================='' @ [qt],
      ''echo '' @ [qt] @ '' OpenPath Enrollment: '' @ [qt] @ ''\"$CLASSROOM_NAME\"'',
      ''echo '' @ [qt] @ ''==============================================='' @ [qt],
      ''echo '' @ [qt] @ [qt],
      [],
      ''if [ \"$(id -u)\" -ne 0 ]; then'',
      ''    echo \"ERROR: Run with sudo\"'',
      ''    exit 1'',
      ''fi'',
      [],
      ''echo \"[1/2] Instalando y registrando en aula...\"'',
      ''tmpfile=\"$(mktemp)\"'',
      ''trap '' @ [qt] @ ''rm -f \"$tmpfile\"'' @ [qt] @ '' EXIT'',
      ''curl -fsSL --proto '' @ [qt] @ ''=https'' @ [qt] @ '' --tlsv1.2 \"$APT_BOOTSTRAP_URL\" -o \"$tmpfile\"'',
      ''bootstrap_cmd=(bash \"$tmpfile\")'',
      (if unstable then ''bootstrap_cmd+=(--unstable)'' else []),
      (if pinned then ''bootstrap_cmd+=(--package-version \"$LINUX_AGENT_VERSION\")'' else []),
      ''bootstrap_cmd+=(--api-url \"$API_URL\" --classroom \"$CLASSROOM_NAME\" --classroom-id \"$CLASSROOM_ID\" --enrollment-token \"$ENROLLMENT_TOKEN\")'',
      ''\"${bootstrap_cmd['' @ [atc] @ '']}\"'',
      [],
      ''echo \"[2/2] Verificando...\"'',
      ''openpath health'',
      [],
      ''echo \"\"'',
      ''echo \"=========================================\"'',
      ''echo \"  OK - Equipo listo en aula: $CLASSROOM_NAME\"'',
      ''echo \"=========================================\"'',
      ''echo \"\"'']"

definition buildLinuxEnrollmentScript ::
  "(string \<Rightarrow> (string \<times> string) option) \<Rightarrow> bool \<Rightarrow> linux_script_params \<Rightarrow> string + string" where
  "buildLinuxEnrollmentScript parse_url test_env p =
     and_then (assertSafeEnrollmentUrl parse_url test_env (lsp_publicUrl p) ''publicUrl'') (\<lambda>_.
     and_then (assertSafeEnrollmentUrl parse_url test_env (lsp_aptRepoUrl p) ''aptRepoUrl'') (\<lambda>_.
       let aptSuite = if lsp_linuxAgentAptSuite p = ''unstable'' then ''unstable'' else ''stable''
       in Inr (file_text (linux_settings p aptSuite @
            linux_commands (aptSuite = ''unstable'') (lsp_linuxAgentVersion p \<noteq> [])))))"

section \<open>The script for Windows\<close>

record windows_script_params =
  wsp_classroomId :: string
  wsp_enrollmentToken :: string
  wsp_captivePortalDomains :: "string list option"
  wsp_firefoxExtensionInstallUrl :: "string option"
  wsp_publicUrl :: string

definition captivePortalDomainEntries :: "string list option \<Rightarrow> string" where
  "captivePortalDomainEntries domains =
     join_with '', '' (map (\<lambda>d. [dq] @ concat (map (\<lambda>c. if c = dq then [CHR 0x60, dq] else [c]) d) @ [dq]) (or_else domains []))"

definition windows_settings :: "windows_script_params \<Rightarrow> string list" where
  "windows_settings p =
     [''$ErrorActionPreference = '' @ [qt] @ ''Stop'' @ [qt],
      ''$WarningPreference = '' @ [qt] @ ''SilentlyContinue'' @ [qt],
      ''$InformationPreference = '' @ [qt] @ ''SilentlyContinue'' @ [qt],
      ''[Net.ServicePointManager]::SecurityProtocol = [Net.SecurityProtocolType]::Tls12'',
      [],
      ''$ApiUrl = '' @ quotePowerShellSingle (wsp_publicUrl p),
      ''$ClassroomId = '' @ quotePowerShellSingle (wsp_classroomId p),
      ''$EnrollmentToken = '' @ quotePowerShellSingle (wsp_enrollmentToken p),
      ''$FirefoxExtensionInstallUrl = '' @ quotePowerShellSingle (js_trim (or_else (wsp_firefoxExtensionInstallUrl p) [])),
      ''$CaptivePortalDomains = '' @ [atc] @ ''('' @ captivePortalDomainEntries (wsp_captivePortalDomains p) @ '')'']"

definition windows_prepare :: "string list" where
  "windows_prepare =
     [''$Headers = '' @ [atc] @ ''{ Authorization = \"Bearer $EnrollmentToken\" }'',
      [],
      ''$principal = New-Object Security.Principal.WindowsPrincipal([Security.Principal.WindowsIdentity]::GetCurrent())'',
      ''if (-not $principal.IsInRole([Security.Principal.WindowsBuiltInRole]::Administrator)) {'',
      ''    throw '' @ [qt] @ ''Run PowerShell as Administrator'' @ [qt],
      ''}'',
      [],
      ''$TempRoot = Join-Path $env:TEMP (\"openpath-bootstrap-\" + [Guid]::NewGuid().ToString('' @ [qt] @ ''N'' @ [qt] @ ''))'',
      ''$WindowsRoot = Join-Path $TempRoot '' @ [qt] @ ''windows'' @ [qt],
      ''$InstallTimingPath = '' @ [qt] @ ''C:'' @ [bsl] @ ''OpenPath'' @ [bsl] @ ''data'' @ [bsl] @ ''logs'' @ [bsl] @ ''install-timings.json'' @ [qt],
      ''$null = New-Item -ItemType Directory -Path (Join-Path $WindowsRoot '' @ [qt] @ ''lib'' @ [qt] @ '') -Force'',
      ''$null = New-Item -ItemType Directory -Path (Join-Path $WindowsRoot '' @ [qt] @ ''scripts'' @ [qt] @ '') -Force'',
      [],
      ''$manifest = Invoke-RestMethod -Uri \"$ApiUrl/api/agent/windows/bootstrap/manifest\" -Headers $Headers -Method Get'',
      ''if (-not $manifest.success -or -not $manifest.files) {'',
      ''    throw '' @ [qt] @ ''Bootstrap manifest unavailable'' @ [qt],
      ''}'',
      [],
      ''function Test-OpenPathBootstrapFilesPresent {'',
      ''    param('',
      ''        [Parameter(Mandatory = $true)]'',
      ''        [string]$Root,'',
      [],
      ''        [Parameter(Mandatory = $true)]'',
      ''        [object[]]$ManifestFiles'',
      ''    )'',
      [],
      ''    foreach ($file in $ManifestFiles) {'',
      ''        $relativePath = [string]$file.path'',
      ''        if (-not $relativePath) {'',
      ''            continue'',
      ''        }'',
      []]"

definition windows_bundle :: "string list" where
  "windows_bundle =
     [''        if (-not (Test-Path (Join-Path $Root $relativePath))) {'',
      ''            return $false'',
      ''        }'',
      ''    }'',
      [],
      ''    return $true'',
      ''}'',
      [],
      ''if ($manifest.version) {'',
      ''    $env:OPENPATH_VERSION = [string]$manifest.version'',
      ''}'',
      [],
      ''$bundleApplied = $false'',
      ''if ($manifest.bundle) {'',
      ''    $bundlePath = Join-Path $TempRoot '' @ [qt] @ ''windows-bootstrap.zip'' @ [qt],
      ''    $bundleUrl = [string]$manifest.bundle.path'',
      ''    if (-not $bundleUrl) {'',
      ''        $bundleUrl = '' @ [qt] @ ''/api/agent/windows/bootstrap/bundle.zip'' @ [qt],
      ''    }'',
      ''    if ($bundleUrl -notmatch '' @ [qt] @ ''^https?://'' @ [qt] @ '') {'',
      ''        $bundleUrl = \"$ApiUrl$bundleUrl\"'',
      ''    }'',
      [],
      ''    Invoke-WebRequest -Uri $bundleUrl -Headers $Headers -OutFile $bundlePath -UseBasicParsing'',
      [],
      ''    if ($manifest.bundle.sha256) {'',
      ''        $expectedBundleHash = ([string]$manifest.bundle.sha256).ToLowerInvariant()'',
      ''        $actualBundleHash = (Get-FileHash -Path $bundlePath -Algorithm SHA256).Hash.ToLowerInvariant()'',
      ''        if ($actualBundleHash -ne $expectedBundleHash) {'',
      ''            throw '' @ [qt] @ ''Checksum mismatch for Windows bootstrap bundle'' @ [qt],
      ''        }'',
      ''    }'',
      []]"

definition windows_files :: "string list" where
  "windows_files =
     [''    Expand-Archive -LiteralPath $bundlePath -DestinationPath $WindowsRoot -Force'',
      ''    $bundleApplied = Test-OpenPathBootstrapFilesPresent -Root $WindowsRoot -ManifestFiles '' @ [atc] @ ''($manifest.files)'',
      ''}'',
      [],
      ''if (-not $bundleApplied) {'',
      ''    foreach ($file in $manifest.files) {'',
      ''        $relativePath = [string]$file.path'',
      ''        if (-not $relativePath) {'',
      ''            continue'',
      ''        }'',
      [],
      ''        $destinationPath = Join-Path $WindowsRoot $relativePath'',
      ''        $destinationDir = Split-Path $destinationPath -Parent'',
      ''        if (-not (Test-Path $destinationDir)) {'',
      ''            $null = New-Item -ItemType Directory -Path $destinationDir -Force'',
      ''        }'',
      [],
      ''        $encodedPath = (($relativePath -split '' @ [qt] @ ''/'' @ [qt] @ '') | ForEach-Object { [uri]::EscapeDataString($_) }) -join '' @ [qt] @ ''/'' @ [qt],
      ''        $fileUrl = \"$ApiUrl/api/agent/windows/bootstrap/files/$encodedPath\"'',
      ''        Invoke-WebRequest -Uri $fileUrl -Headers $Headers -OutFile $destinationPath -UseBasicParsing'',
      [],
      ''        if ($file.sha256) {'',
      ''            $expectedHash = ([string]$file.sha256).ToLowerInvariant()'',
      ''            $actualHash = (Get-FileHash -Path $destinationPath -Algorithm SHA256).Hash.ToLowerInvariant()'',
      ''            if ($actualHash -ne $expectedHash) {'',
      ''                throw \"Checksum mismatch for $relativePath\"'',
      ''            }'',
      ''        }'',
      ''    }'',
      ''}'',
      [],
      ''Push-Location $WindowsRoot'',
      ''try {'',
      ''    $InstallArgs = '' @ [atc] @ ''('',
      ''        '' @ [qt] @ ''-ApiUrl'' @ [qt] @ '', $ApiUrl,'',
      ''        '' @ [qt] @ ''-ClassroomId'' @ [qt] @ '', $ClassroomId,'',
      ''        '' @ [qt] @ ''-EnrollmentToken'' @ [qt] @ '', $EnrollmentToken,'',
      ''        '' @ [qt] @ ''-Unattended'' @ [qt] @ '','',
      ''        '' @ [qt] @ ''-SkipPreflight'' @ [qt] @ '','',
      ''        '' @ [qt] @ ''-TimingOutputPath'' @ [qt] @ '', $InstallTimingPath'',
      ''    )'',
      ''    if ($CaptivePortalDomains.Count -gt 0) {'',
      ''        $InstallArgs += '' @ [atc] @ ''('' @ [qt] @ ''-CaptivePortalDomains'' @ [qt] @ '', $CaptivePortalDomains)'',
      ''    }'',
      []]"

definition windows_install :: "string list" where
  "windows_install =
     [''    if ($FirefoxExtensionInstallUrl) {'',
      ''        $metadataPath = Join-Path $WindowsRoot '' @ [qt] @ ''browser-extension/firefox-release/metadata.json'' @ [qt],
      ''        if (-not (Test-Path $metadataPath)) {'',
      ''            throw '' @ [qt] @ ''Firefox release metadata unavailable for explicit install_url'' @ [qt],
      ''        }'',
      [],
      ''        $FirefoxExtensionId = [string]((Get-Content -LiteralPath $metadataPath -Raw | ConvertFrom-Json).extensionId)'',
      ''        if (-not $FirefoxExtensionId) {'',
      ''            throw '' @ [qt] @ ''Firefox release metadata does not include extensionId'' @ [qt],
      ''        }'',
      [],
      ''        $InstallArgs += '' @ [atc] @ ''('',
      ''            '' @ [qt] @ ''-FirefoxExtensionId'' @ [qt] @ '', $FirefoxExtensionId,'',
      ''            '' @ [qt] @ ''-FirefoxExtensionInstallUrl'' @ [qt] @ '', $FirefoxExtensionInstallUrl'',
      ''        )'',
      ''    }'',
      [],
      ''    & powershell.exe -NoProfile -ExecutionPolicy Bypass -File (Join-Path $WindowsRoot '' @ [qt] @ ''Install-OpenPath.ps1'' @ [qt] @ '') '' @ [atc] @ ''InstallArgs'',
      ''    $installExitCode = $LASTEXITCODE'',
      ''    if ($installExitCode -ne 0) {'',
      ''        throw \"Install-OpenPath.ps1 exited with code $installExitCode\"'',
      ''    }'',
      ''}'',
      ''finally {'',
      ''    Pop-Location'',
      ''    Remove-Item $TempRoot -Recurse -Force -ErrorAction SilentlyContinue'',
      ''}'']"

definition windows_commands :: "string list" where
  "windows_commands = windows_prepare @ windows_bundle @ windows_files @ windows_install"

definition buildWindowsEnrollmentScript :: "windows_script_params \<Rightarrow> string" where
  "buildWindowsEnrollmentScript p = file_text (windows_settings p @ windows_commands)"

section \<open>What the shell reads\<close>

text \<open>
  A word of the shell: quoted and unquoted parts up to the end of the line.  The flag says whether a
  quote is open.  A character with a meaning of its own outside quotes is refused, and so is a null, which
  the shell drops.
\<close>

definition sh_plain :: "char \<Rightarrow> bool" where
  "sh_plain c \<longleftrightarrow> alnum_char c \<or> c \<in> set ''_-./:''"

definition read_more :: "char \<Rightarrow> (string \<times> string) option \<Rightarrow> (string \<times> string) option" where
  "read_more c r = map_option (\<lambda>(w, rest). (c # w, rest)) r"

fun sh_word :: "bool \<Rightarrow> string \<Rightarrow> (string \<times> string) option" where
  "sh_word quoted [] = (if quoted then None else Some ([], []))"
| "sh_word True (c # s) =
     (if c = qt then sh_word False s
      else if c = CHR 0x00 then None
      else read_more c (sh_word True s))"
| "sh_word False (c # s) =
     (if c = nl then Some ([], s)
      else if c = qt then sh_word True s
      else if c = bsl then (case s of [] \<Rightarrow> None | d # s' \<Rightarrow> if d = nl \<or> d = CHR 0x00 then None else read_more d (sh_word False s'))
      else if sh_plain c then read_more c (sh_word False s)
      else None)"

text \<open>The name before \<open>=\<close>, and what follows it.\<close>

definition name_char :: "char \<Rightarrow> bool" where
  "name_char c \<longleftrightarrow> alnum_char c \<or> c = CHR ''_''"

definition sh_assignment :: "string \<Rightarrow> (string \<times> string) option" where
  "sh_assignment s =
     (let name = takeWhile name_char s; rest = dropWhile name_char s
      in if name \<noteq> [] \<and> \<not> digit_char (hd name) \<and> rest \<noteq> [] \<and> hd rest = CHR ''='' then Some (name, tl rest) else None)"

text \<open>A comment, an empty line and the two builtins leave the variables as they are.\<close>

definition sh_passive :: "string \<Rightarrow> bool" where
  "sh_passive s \<longleftrightarrow>
     (let l = before_first nl s
      in l = [] \<or> starts_with l ''#'' \<or> l = ''set -euo pipefail'' \<or>
         (starts_with l ''export '' \<and> list_all name_char (drop 7 l)))"

lemma sh_word_shorter: "sh_word q s = Some (w, r) \<Longrightarrow> length r \<le> length s"
  by (induction q s arbitrary: w r rule: sh_word.induct)
    (fastforce simp: read_more_def split: if_splits list.splits)+

lemma after_first_shorter: "s \<noteq> [] \<Longrightarrow> length (after_first c s) < length s"
  using length_dropWhile_le [of "\<lambda>x. x \<noteq> c" "tl s"] by (cases s) (auto simp: after_first_def)

lemma sh_assignment_shorter: "sh_assignment s = Some (n, r) \<Longrightarrow> length r < length s"
  using length_dropWhile_le [of name_char s]
  by (cases "dropWhile name_char s") (auto simp: sh_assignment_def Let_def split: if_splits)

text \<open>The variables after the assignments, and what is left of the script from its first command on.\<close>

function sh_prologue :: "(string \<rightharpoonup> string) \<Rightarrow> string \<Rightarrow> (string \<rightharpoonup> string) \<times> string" where
  "sh_prologue env s =
     (case sh_assignment s of
        Some (name, r) \<Rightarrow>
          (case sh_word False r of Some (w, rest) \<Rightarrow> sh_prologue (env(name \<mapsto> w)) rest | None \<Rightarrow> (env, s))
      | None \<Rightarrow> if s \<noteq> [] \<and> sh_passive s then sh_prologue env (after_first nl s) else (env, s))"
  by pat_completeness auto
termination
  by (relation "measure (\<lambda>(env, s). length s)")
    (auto dest!: sh_word_shorter sh_assignment_shorter simp: after_first_shorter)

declare sh_prologue.simps [simp del]

lemma char_codes [simp]: "qt \<noteq> nl" "nl \<noteq> qt" "bsl \<noteq> nl" "dq \<noteq> nl" "bsl \<noteq> qt" "qt \<noteq> bsl" "dq \<noteq> qt" "qt \<noteq> CHR 0x00" "qt \<noteq> dq"
  by (simp_all add: qt_def nl_def bsl_def dq_def)

lemma read_more_simps [simp]: "read_more c (Some (w, r)) = Some (c # w, r)" "read_more c None = None"
  by (simp_all add: read_more_def)

lemma sh_word_quoted:
  "CHR 0x00 \<notin> set v \<Longrightarrow>
   sh_word True (concat (map (\<lambda>c. if c = qt then [qt, bsl, qt, qt] else [c]) v) @ qt # nl # rest) = Some (v, rest)"
  by (induction v) auto

lemma sh_word_bashSingleQuote: "CHR 0x00 \<notin> set v \<Longrightarrow> sh_word False (bashSingleQuote v @ nl # rest) = Some (v, rest)"
  using sh_word_quoted [of v rest] by (simp add: bashSingleQuote_def)

lemma sh_assign:
  assumes "list_all name_char n" "n \<noteq> []" "\<not> digit_char (hd n)" "CHR 0x00 \<notin> set v"
  shows "sh_prologue env (n @ CHR ''='' # bashSingleQuote v @ nl # rest) = sh_prologue (env(n \<mapsto> v)) rest"
proof -
  have eq: "\<not> name_char CHR ''=''" by code_simp
  have "sh_assignment (n @ CHR ''='' # bashSingleQuote v @ nl # rest) = Some (n, bashSingleQuote v @ nl # rest)"
    using assms(1-3) eq by (simp add: sh_assignment_def Let_def takeWhile_append dropWhile_append list_all_iff)
  then show ?thesis using sh_word_bashSingleQuote [OF assms(4), of rest]
    by (subst sh_prologue.simps) simp
qed

lemma sh_skip:
  assumes "sh_assignment (l @ nl # rest) = None" "sh_passive (l @ nl # rest)" "nl \<notin> set l"
  shows "sh_prologue env (l @ nl # rest) = sh_prologue env rest"
  using assms by (subst sh_prologue.simps) (simp add: after_first_append)

lemma sh_stop:
  assumes "sh_assignment s = None" "\<not> sh_passive s"
  shows "sh_prologue env s = (env, s)"
  using assms by (subst sh_prologue.simps) simp

lemma file_text_simps [simp]: "file_text [] = []" "file_text (l # ls) = l @ nl # file_text ls"
  "file_text (xs @ ys) = file_text xs @ file_text ys"
  by (simp_all add: file_text_def)

lemma no_sh_assignment:
  assumes "list_all name_char p" "\<not> name_char c" "c \<noteq> CHR ''=''"
  shows "sh_assignment (p @ c # s) = None"
  using assms by (simp add: sh_assignment_def Let_def takeWhile_append dropWhile_append list_all_iff)

lemma not_name_chars: "\<not> name_char nl" "\<not> name_char CHR ''#''" "\<not> name_char CHR '' ''" "\<not> name_char CHR ''$''"
    "nl \<noteq> CHR ''=''" "nl \<noteq> CHR '' ''"
  by code_simp+

text \<open>The lines of a script the reader passes over.\<close>

lemma sh_skip_blank: "sh_prologue env (nl # rest) = sh_prologue env rest"
  using sh_skip [of "[]" rest env] no_sh_assignment [of "[]" nl rest] not_name_chars
  by (simp add: sh_passive_def before_first_def)

lemma sh_skip_comment:
  assumes "nl \<notin> set l"
  shows "sh_prologue env (CHR ''#'' # l @ nl # rest) = sh_prologue env rest"
proof -
  have h: "nl \<noteq> CHR ''#''" by code_simp
  have "sh_passive ((CHR ''#'' # l) @ nl # rest)"
    unfolding sh_passive_def Let_def using before_first_append [of nl "CHR ''#'' # l" rest] assms h
    by (simp add: starts_with_def)
  then show ?thesis
    using sh_skip [of "CHR ''#'' # l" rest env] no_sh_assignment [of "[]" "CHR ''#''" "l @ nl # rest"] not_name_chars assms h
    by simp
qed

lemma sh_skip_builtin:
  assumes "list_all name_char p" "nl \<notin> set l" "sh_passive ((p @ CHR '' '' # l) @ nl # rest)"
  shows "sh_prologue env (p @ CHR '' '' # l @ nl # rest) = sh_prologue env rest"
proof -
  have "nl \<notin> set p" "nl \<noteq> CHR '' ''" using assms(1) not_name_chars by (auto simp: list_all_iff)
  then show ?thesis
    using sh_skip [of "p @ CHR '' '' # l" rest env] no_sh_assignment [OF assms(1), of "CHR '' ''" "l @ nl # rest"]
      not_name_chars assms by simp
qed

text \<open>The two lines that are built in, and the names the script uses.\<close>

lemma sh_skip_lines:
  "sh_prologue env (''set -euo pipefail'' @ nl # rest) = sh_prologue env rest"
  "sh_prologue env (''export OPENPATH_APT_REPO_URL'' @ nl # rest) = sh_prologue env rest"
proof -
  have names: "list_all name_char ''set''" "list_all name_char ''export''" "nl \<notin> set ''-euo pipefail''"
    "nl \<notin> set ''OPENPATH_APT_REPO_URL''" "nl \<notin> set ''set -euo pipefail''" "nl \<notin> set ''export OPENPATH_APT_REPO_URL''"
    "list_all name_char (drop 7 ''export OPENPATH_APT_REPO_URL'')"
    by code_simp+
  have "sh_passive (''set -euo pipefail'' @ nl # rest)"
    unfolding sh_passive_def Let_def before_first_append [OF names(5)] by blast
  then show "sh_prologue env (''set -euo pipefail'' @ nl # rest) = sh_prologue env rest"
    using sh_skip_builtin [OF names(1,3), of rest env] by simp
  have "sh_passive (''export OPENPATH_APT_REPO_URL'' @ nl # rest)"
    unfolding sh_passive_def Let_def before_first_append [OF names(6)] using names(7) by (simp add: starts_with_def)
  then show "sh_prologue env (''export OPENPATH_APT_REPO_URL'' @ nl # rest) = sh_prologue env rest"
    using sh_skip_builtin [OF names(2,4), of rest env] by simp
qed

lemma sh_assign_line:
  assumes "list_all name_char n \<and> n \<noteq> [] \<and> \<not> digit_char (hd n)" "CHR 0x00 \<notin> set v"
  shows "sh_prologue env ((n @ ''='') @ bashSingleQuote v @ nl # rest) = sh_prologue (env(n \<mapsto> v)) rest"
  using sh_assign [of n v env rest] assms by simp

lemma linux_names:
  "list_all name_char ''API_URL'' \<and> ''API_URL'' \<noteq> [] \<and> \<not> digit_char (hd ''API_URL'')"
  "list_all name_char ''CLASSROOM_ID'' \<and> ''CLASSROOM_ID'' \<noteq> [] \<and> \<not> digit_char (hd ''CLASSROOM_ID'')"
  "list_all name_char ''CLASSROOM_NAME'' \<and> ''CLASSROOM_NAME'' \<noteq> [] \<and> \<not> digit_char (hd ''CLASSROOM_NAME'')"
  "list_all name_char ''ENROLLMENT_TOKEN'' \<and> ''ENROLLMENT_TOKEN'' \<noteq> [] \<and> \<not> digit_char (hd ''ENROLLMENT_TOKEN'')"
  "list_all name_char ''APT_BOOTSTRAP_URL'' \<and> ''APT_BOOTSTRAP_URL'' \<noteq> [] \<and> \<not> digit_char (hd ''APT_BOOTSTRAP_URL'')"
  "list_all name_char ''OPENPATH_APT_REPO_URL'' \<and> ''OPENPATH_APT_REPO_URL'' \<noteq> [] \<and> \<not> digit_char (hd ''OPENPATH_APT_REPO_URL'')"
  "list_all name_char ''LINUX_AGENT_APT_SUITE'' \<and> ''LINUX_AGENT_APT_SUITE'' \<noteq> [] \<and> \<not> digit_char (hd ''LINUX_AGENT_APT_SUITE'')"
  "list_all name_char ''LINUX_AGENT_VERSION'' \<and> ''LINUX_AGENT_VERSION'' \<noteq> [] \<and> \<not> digit_char (hd ''LINUX_AGENT_VERSION'')"
  by code_simp+

lemmas linux_assign = linux_names [THEN sh_assign_line, unfolded append.simps]

text \<open>What the script sets.\<close>

definition linux_variables :: "linux_script_params \<Rightarrow> string \<Rightarrow> string \<rightharpoonup> string" where
  "linux_variables p aptSuite =
     [''API_URL'' \<mapsto> lsp_publicUrl p, ''CLASSROOM_ID'' \<mapsto> lsp_classroomId p, ''CLASSROOM_NAME'' \<mapsto> lsp_classroomName p,
      ''ENROLLMENT_TOKEN'' \<mapsto> lsp_enrollmentToken p, ''APT_BOOTSTRAP_URL'' \<mapsto> lsp_aptRepoUrl p @ ''/apt-bootstrap.sh'',
      ''OPENPATH_APT_REPO_URL'' \<mapsto> lsp_aptRepoUrl p, ''LINUX_AGENT_APT_SUITE'' \<mapsto> aptSuite]
     ++ (if lsp_linuxAgentVersion p = [] then Map.empty else [''LINUX_AGENT_VERSION'' \<mapsto> lsp_linuxAgentVersion p])"

definition no_null :: "string \<Rightarrow> bool" where
  "no_null s \<longleftrightarrow> CHR 0x00 \<notin> set s"

lemma linux_commands_stop: "sh_prologue env (file_text (linux_commands u v)) = (env, file_text (linux_commands u v))"
proof (rule sh_stop)
  obtain t where t: "file_text (linux_commands u v) = CHR '' '' # CHR ''e'' # t" by (simp add: linux_commands_def)
  then show "sh_assignment (file_text (linux_commands u v)) = None"
    using no_sh_assignment [of "[]" "CHR '' ''" "CHR ''e'' # t"] not_name_chars by simp
  have "before_first nl (file_text (linux_commands u v)) = CHR '' '' # CHR ''e'' # takeWhile (\<lambda>x. x \<noteq> nl) t"
    using t by (simp add: before_first_def nl_def)
  then show "\<not> sh_passive (file_text (linux_commands u v))"
    by (simp add: sh_passive_def starts_with_def)
qed

lemma linux_prologue:
  assumes "no_null (lsp_publicUrl p)" "no_null (lsp_classroomId p)" "no_null (lsp_classroomName p)"
    "no_null (lsp_enrollmentToken p)" "no_null (lsp_aptRepoUrl p)" "no_null (lsp_linuxAgentVersion p)" "no_null aptSuite"
  shows "sh_prologue Map.empty (file_text (linux_settings p aptSuite @ linux_commands u v)) =
    (linux_variables p aptSuite, file_text (linux_commands u v))"
proof -
  have tail: "CHR 0x00 \<notin> set (lsp_aptRepoUrl p @ ''/apt-bootstrap.sh'')"
    using assms(5) by (simp add: no_null_def)
  have sh: "sh_prologue env (''#!/bin/bash'' @ nl # rest) = sh_prologue env rest" for env rest
    using sh_skip_comment [of "''!/bin/bash''" env rest] by (simp add: nl_def)
  note steps = sh [unfolded append.simps] sh_skip_lines [unfolded append.simps] sh_skip_blank linux_assign linux_commands_stop
  show ?thesis
    using assms tail
    unfolding linux_settings_def
    by (simp add: no_null_def steps linux_variables_def)
qed

section \<open>What PowerShell reads\<close>

text \<open>
  A literal in single quotes, from behind the quote that opens it; one in double quotes, in which \<open>$\<close> would
  start an expansion, refused here, and a grave accent takes away the meaning of a quote; a list of these.
\<close>

datatype ps_value = Ps_string string | Ps_array "string list"

fun ps_single :: "string \<Rightarrow> (string \<times> string) option" where
  "ps_single [] = None"
| "ps_single (c # s) =
     (if c \<noteq> qt then read_more c (ps_single s)
      else case s of d # s' \<Rightarrow> if d = qt then read_more qt (ps_single s') else Some ([], s) | [] \<Rightarrow> Some ([], []))"

fun ps_double :: "string \<Rightarrow> (string \<times> string) option" where
  "ps_double [] = None"
| "ps_double (c # s) =
     (if c = dq then Some ([], s)
      else if c = CHR ''$'' then None
      else if c = CHR 0x60 then (case s of d # s' \<Rightarrow> if d = dq then read_more dq (ps_double s') else None | [] \<Rightarrow> None)
      else read_more c (ps_double s))"

lemma ps_double_shorter: "ps_double s = Some (w, r) \<Longrightarrow> length r < length s"
  by (induction s arbitrary: w r rule: ps_double.induct)
    (fastforce simp: read_more_def split: if_splits list.splits)+

lemma length_strip_prefix: "length (strip_prefix p s) \<le> length s"
  by (simp add: strip_prefix_def)

function ps_items :: "string \<Rightarrow> (string list \<times> string) option" where
  "ps_items [] = None"
| "ps_items (c # s) =
     (if c = CHR '')'' then Some ([], s)
      else if c = dq
      then (case ps_double s of
              None \<Rightarrow> None
            | Some (w, r) \<Rightarrow> map_option (\<lambda>(ws, rest). (w # ws, rest)) (ps_items (strip_prefix '', '' r)))
      else None)"
  by pat_completeness auto
termination
proof (relation "measure length")
  fix c :: char and s w r and x :: "string \<times> string"
  assume "ps_double s = Some x" "(w, r) = x"
  then have "length r < length s" using ps_double_shorter by metis
  then show "(strip_prefix '', '' r, c # s) \<in> measure length"
    using length_strip_prefix [of "'', ''" r] by simp
qed simp

text \<open>\<open>$name = value\<close>, up to the end of the line.\<close>

definition ps_assignment :: "string \<Rightarrow> (string \<times> ps_value \<times> string) option" where
  "ps_assignment s =
     (let name = takeWhile name_char (tl s); rest = dropWhile name_char (tl s)
      in if s = [] \<or> hd s \<noteq> CHR ''$'' \<or> name = [] then None
         else if starts_with rest ('' = '' @ [qt])
         then (case ps_single (drop 4 rest) of
                 Some (w, c # r) \<Rightarrow> if c = nl then Some (name, Ps_string w, r) else None
               | _ \<Rightarrow> None)
         else if starts_with rest ('' = '' @ [atc] @ ''('')
         then (case ps_items (drop 5 rest) of
                 Some (ws, c # r) \<Rightarrow> if c = nl then Some (name, Ps_array ws, r) else None
               | _ \<Rightarrow> None)
         else None)"

lemma ps_single_shorter: "ps_single s = Some (w, r) \<Longrightarrow> length r < length s"
  by (induction s arbitrary: w r rule: ps_single.induct)
    (fastforce simp: read_more_def split: if_splits list.splits)+

lemma ps_items_shorter: "ps_items s = Some (ws, r) \<Longrightarrow> length r < length s"
proof (induction s arbitrary: ws r rule: ps_items.induct)
  case (2 c s)
  show ?case
  proof (cases "c = CHR '')''")
    case False
    with "2.prems" obtain w r' ws' where d: "c = dq" "ps_double s = Some (w, r')" "ps_items (strip_prefix '', '' r') = Some (ws', r)"
      by (auto split: if_splits option.splits)
    show ?thesis using "2.IH" [OF False d(1,2) refl d(3)] ps_double_shorter [OF d(2)] length_strip_prefix [of "'', ''" r']
      by simp
  qed (use "2.prems" in auto)
qed simp

lemma ps_assignment_shorter:
  assumes "ps_assignment s = Some (n, v, r)"
  shows "length r < length s"
proof -
  let ?rest = "dropWhile name_char (tl s)"
  have le: "length ?rest \<le> length s" using length_dropWhile_le [of name_char "tl s"] by simp
  from assms consider
    (string) w where "ps_single (drop 4 ?rest) = Some (w, nl # r)" | (items) ws where "ps_items (drop 5 ?rest) = Some (ws, nl # r)"
    by (auto simp: ps_assignment_def Let_def split: if_splits option.splits list.splits)
  then show ?thesis
    by cases (use le in \<open>auto dest!: ps_single_shorter ps_items_shorter\<close>)
qed

text \<open>An empty line and an assignment to a property of a .NET class leave the variables as they are.\<close>

definition ps_passive :: "string \<Rightarrow> bool" where
  "ps_passive s \<longleftrightarrow>
     (let l = before_first nl s
      in l = [] \<or> l = ''[Net.ServicePointManager]::SecurityProtocol = [Net.SecurityProtocolType]::Tls12'')"

function ps_prologue :: "(string \<rightharpoonup> ps_value) \<Rightarrow> string \<Rightarrow> (string \<rightharpoonup> ps_value) \<times> string" where
  "ps_prologue env s =
     (case ps_assignment s of
        Some (name, v, rest) \<Rightarrow> ps_prologue (env(name \<mapsto> v)) rest
      | None \<Rightarrow> if s \<noteq> [] \<and> ps_passive s then ps_prologue env (after_first nl s) else (env, s))"
  by pat_completeness auto
termination
  by (relation "measure (\<lambda>(env, s). length s)")
    (auto dest!: ps_assignment_shorter simp: after_first_shorter)

declare ps_prologue.simps [simp del]

lemma ps_single_quoted:
  "ps_single (concat (map (\<lambda>c. if c = qt then [qt, qt] else [c]) v) @ qt # nl # rest) = Some (v, nl # rest)"
  by (induction v) auto

lemma ps_double_quoted:
  "CHR ''$'' \<notin> set d \<Longrightarrow> CHR 0x60 \<notin> set d \<Longrightarrow>
   ps_double (concat (map (\<lambda>c. if c = dq then [CHR 0x60, dq] else [c]) d) @ dq # rest) = Some (d, rest)"
  by (induction d) (auto simp: dq_def)

lemma ps_items_entries:
  "(\<And>d. d \<in> set ds \<Longrightarrow> CHR ''$'' \<notin> set d \<and> CHR 0x60 \<notin> set d) \<Longrightarrow>
   ps_items (captivePortalDomainEntries (Some ds) @ CHR '')'' # rest) = Some (ds, rest)"
proof (induction ds)
  case (Cons d ds)
  have paren: "dq \<noteq> CHR '')''" by (simp add: dq_def)
  have d: "ps_double (concat (map (\<lambda>c. if c = dq then [CHR 0x60, dq] else [c]) d) @ dq # more) = Some (d, more)" for more
    using Cons.prems by (intro ps_double_quoted) auto
  show ?case
  proof (cases ds)
    case Nil
    then show ?thesis using d [of "CHR '')'' # rest"] paren
      by (simp add: captivePortalDomainEntries_def or_else_def strip_prefix_def)
  next
    case (Cons d2 ds2)
    let ?more = "captivePortalDomainEntries (Some ds) @ CHR '')'' # rest"
    have "ps_items ?more = Some (ds, rest)" using Cons.IH Cons.prems by auto
    moreover have "captivePortalDomainEntries (Some (d # ds)) =
        dq # concat (map (\<lambda>c. if c = dq then [CHR 0x60, dq] else [c]) d) @ dq # '', '' @ captivePortalDomainEntries (Some ds)"
      using Cons by (simp add: captivePortalDomainEntries_def or_else_def)
    ultimately show ?thesis using d [of "'', '' @ ?more"] paren by (simp add: strip_prefix_def)
  qed
qed (simp add: captivePortalDomainEntries_def or_else_def)

lemma ps_name:
  assumes "list_all name_char n" "n \<noteq> []"
  shows "takeWhile name_char (n @ CHR '' '' # s) = n" "dropWhile name_char (n @ CHR '' '' # s) = CHR '' '' # s"
  using assms not_name_chars by (simp_all add: takeWhile_append dropWhile_append list_all_iff)

lemma ps_assign:
  assumes "list_all name_char n" "n \<noteq> []"
  shows "ps_prologue env (CHR ''$'' # n @ '' = '' @ quotePowerShellSingle v @ nl # rest) = ps_prologue (env(n \<mapsto> Ps_string v)) rest"
proof -
  have "ps_assignment (CHR ''$'' # n @ '' = '' @ quotePowerShellSingle v @ nl # rest) = Some (n, Ps_string v, rest)"
    using assms ps_single_quoted [of v rest]
    by (simp add: ps_assignment_def Let_def ps_name quotePowerShellSingle_def starts_with_def)
  then show ?thesis by (subst ps_prologue.simps) simp
qed

lemma ps_assign_items:
  assumes "list_all name_char n" "n \<noteq> []" "\<And>d. d \<in> set ds \<Longrightarrow> CHR ''$'' \<notin> set d \<and> CHR 0x60 \<notin> set d"
  shows "ps_prologue env (CHR ''$'' # n @ '' = '' @ [atc] @ ''('' @ captivePortalDomainEntries (Some ds) @ '')'' @ nl # rest) =
    ps_prologue (env(n \<mapsto> Ps_array ds)) rest"
proof -
  have h: "atc \<noteq> qt" by code_simp
  have i: "ps_items (captivePortalDomainEntries (Some ds) @ '')'' @ nl # rest) = Some (ds, nl # rest)"
    using ps_items_entries [of ds "nl # rest"] assms(3) by simp
  have "ps_assignment (CHR ''$'' # n @ '' = '' @ [atc] @ ''('' @ captivePortalDomainEntries (Some ds) @ '')'' @ nl # rest) =
      Some (n, Ps_array ds, rest)"
    using assms i h by (simp add: ps_assignment_def Let_def ps_name starts_with_def)
  then show ?thesis by (subst ps_prologue.simps) simp
qed

lemma ps_skip:
  assumes "nl \<notin> set l" "l = [] \<or> l = ''[Net.ServicePointManager]::SecurityProtocol = [Net.SecurityProtocolType]::Tls12''"
  shows "ps_prologue env (l @ nl # rest) = ps_prologue env rest"
proof -
  have "nl \<noteq> CHR ''$''" by code_simp
  then have "ps_assignment (l @ nl # rest) = None" using assms(2) by (auto simp: ps_assignment_def)
  moreover have "ps_passive (l @ nl # rest)" using assms by (simp add: ps_passive_def Let_def before_first_append)
  ultimately show ?thesis using after_first_append [OF assms(1)] by (subst ps_prologue.simps) simp
qed

definition windows_variables :: "windows_script_params \<Rightarrow> string \<rightharpoonup> ps_value" where
  "windows_variables p =
     [''ErrorActionPreference'' \<mapsto> Ps_string ''Stop'', ''WarningPreference'' \<mapsto> Ps_string ''SilentlyContinue'',
      ''InformationPreference'' \<mapsto> Ps_string ''SilentlyContinue'', ''ApiUrl'' \<mapsto> Ps_string (wsp_publicUrl p),
      ''ClassroomId'' \<mapsto> Ps_string (wsp_classroomId p), ''EnrollmentToken'' \<mapsto> Ps_string (wsp_enrollmentToken p),
      ''FirefoxExtensionInstallUrl'' \<mapsto> Ps_string (js_trim (or_else (wsp_firefoxExtensionInstallUrl p) [])),
      ''CaptivePortalDomains'' \<mapsto> Ps_array (or_else (wsp_captivePortalDomains p) [])]"

lemma windows_names:
  "list_all name_char ''ErrorActionPreference''" "list_all name_char ''WarningPreference''"
  "list_all name_char ''InformationPreference''" "list_all name_char ''ApiUrl''" "list_all name_char ''ClassroomId''"
  "list_all name_char ''EnrollmentToken''" "list_all name_char ''FirefoxExtensionInstallUrl''"
  by code_simp+

lemmas windows_assign = windows_names [THEN ps_assign, OF list.distinct(2), unfolded append.simps]

lemma windows_commands_stop: "ps_prologue env (file_text windows_commands) = (env, file_text windows_commands)"
proof -
  have h: "list_all name_char ''Headers''" "atc \<noteq> qt" by code_simp+
  obtain t where t: "file_text windows_commands = CHR ''$'' # ''Headers'' @ '' = '' @ [atc] @ CHR ''{'' # t"
    by (simp add: windows_commands_def windows_prepare_def)
  have "takeWhile name_char (''Headers'' @ CHR '' '' # s) = ''Headers''" "dropWhile name_char (''Headers'' @ CHR '' '' # s) = CHR '' '' # s" for s
    using ps_name [OF h(1)] by simp_all
  then have "ps_assignment (file_text windows_commands) = None"
    using h t by (simp add: ps_assignment_def Let_def starts_with_def)
  moreover have "\<not> ps_passive (file_text windows_commands)"
    using t by (simp add: ps_passive_def Let_def before_first_def nl_def)
  ultimately show ?thesis by (subst ps_prologue.simps) simp
qed

lemma windows_prologue:
  assumes "list_all isExactHostname (or_else (wsp_captivePortalDomains p) [])"
  shows "ps_prologue Map.empty (buildWindowsEnrollmentScript p) = (windows_variables p, file_text windows_commands)"
proof -
  let ?ds = "or_else (wsp_captivePortalDomains p) []"
  have plain: "CHR ''$'' \<notin> set d \<and> CHR 0x60 \<notin> set d" if d: "d \<in> set ?ds" for d
  proof -
    have "\<not> host_char CHR ''$''" "\<not> host_char CHR 0x60" by code_simp+
    moreover have "list_all host_char d" using assms d by (intro exact_hostname_chars) (auto simp: list_all_iff)
    ultimately show ?thesis by (auto simp: list_all_iff)
  qed
  have entries: "captivePortalDomainEntries (wsp_captivePortalDomains p) = captivePortalDomainEntries (Some ?ds)"
    by (simp add: captivePortalDomainEntries_def or_else_def)
  have strings: "[qt] @ ''Stop'' @ [qt] = quotePowerShellSingle ''Stop''"
    "[qt] @ ''SilentlyContinue'' @ [qt] = quotePowerShellSingle ''SilentlyContinue''"
    by (simp_all add: quotePowerShellSingle_def qt_def)
  have lines: "nl \<notin> set ''[Net.ServicePointManager]::SecurityProtocol = [Net.SecurityProtocolType]::Tls12''" by code_simp
  have name: "list_all name_char ''CaptivePortalDomains''" by code_simp
  note steps = windows_assign ps_skip [of "[]", unfolded append.simps, simplified] ps_skip [OF lines, unfolded append.simps, simplified]
    ps_assign_items [OF name list.distinct(2) plain, unfolded append.simps] windows_commands_stop
  show ?thesis
    unfolding buildWindowsEnrollmentScript_def windows_settings_def entries strings
    by (simp add: steps windows_variables_def)
qed

section \<open>The version of the agent\<close>

text \<open>What the repository answers: a document, a status that is not one of success, or no answer.\<close>

datatype apt_response = Apt_document string | Apt_status nat string | Apt_unreachable string

type_synonym apt_repository = "int \<Rightarrow> string \<Rightarrow> apt_response"

definition APT_METADATA_CACHE_TTL_MS :: int where
  "APT_METADATA_CACHE_TTL_MS = 5 * 60 * 1000"

text \<open>The cache: when the list at an address was fetched, and what it was.\<close>

type_synonym apt_cache = "string \<rightharpoonup> int \<times> string"

definition normalizeLinuxAgentAptSuite :: "string option \<Rightarrow> string + string" where
  "normalizeLinuxAgentAptSuite value =
     (let trimmed = js_trim (or_else value []); suite = if trimmed = [] then ''stable'' else trimmed
      in if suite = ''stable'' \<or> suite = ''unstable'' then Inr suite
         else Inl (''Unsupported OPENPATH_LINUX_AGENT_APT_SUITE: '' @ suite))"

definition getLinuxAgentAptSuiteCandidates :: "string option \<Rightarrow> string + string list" where
  "getLinuxAgentAptSuiteCandidates value =
     and_then (normalizeLinuxAgentAptSuite value) (\<lambda>suite.
       Inr (if suite = ''stable'' then [''stable'', ''unstable''] else [''unstable'', ''stable'']))"

definition drop_end :: "(char \<Rightarrow> bool) \<Rightarrow> string \<Rightarrow> string" where
  "drop_end p s = rev (dropWhile p (rev s))"

definition buildAptPackagesUrl :: "string \<Rightarrow> string \<Rightarrow> string" where
  "buildAptPackagesUrl aptRepoUrl suite =
     drop_end (\<lambda>c. c = CHR ''/'') aptRepoUrl @ ''/dists/'' @ suite @ ''/main/binary-amd64/Packages''"

definition buildAptPackageUrl :: "string \<Rightarrow> string \<Rightarrow> string" where
  "buildAptPackageUrl aptRepoUrl filename =
     drop_end (\<lambda>c. c = CHR ''/'') aptRepoUrl @ ''/'' @ dropWhile (\<lambda>c. c = CHR ''/'') filename"

text \<open>\<open>split(/\r?\n/)\<close>: a return before the end of a line belongs to the separator.\<close>

definition cr :: char where
  "cr = CHR 0x0D"

fun drop_return :: "string list \<Rightarrow> string list" where
  "drop_return (l # m # ls) = (if l \<noteq> [] \<and> last l = cr then butlast l else l) # drop_return (m # ls)"
| "drop_return ls = ls"

definition split_lines :: "string \<Rightarrow> string list" where
  "split_lines s = drop_return (split_on nl s)"

text \<open>\<open>/\r?\n\r?\n+/\<close> at the start of a text: what follows the longest match.\<close>

definition after_blank :: "string \<Rightarrow> string option" where
  "after_blank s =
     (let s1 = strip_prefix [cr] s
      in case s1 of c # s2 \<Rightarrow>
           if c \<noteq> nl then None
           else (case strip_prefix [cr] s2 of d # s3 \<Rightarrow> if d = nl then Some (dropWhile (\<lambda>x. x = nl) s3) else None | [] \<Rightarrow> None)
         | [] \<Rightarrow> None)"

lemma after_blank_shorter:
  assumes "after_blank s = Some r"
  shows "length r < length s"
proof -
  from assms obtain s2 s3 where s: "strip_prefix [cr] s = nl # s2" "strip_prefix [cr] s2 = nl # s3" "r = dropWhile (\<lambda>x. x = nl) s3"
    by (auto simp: after_blank_def Let_def split: list.splits if_splits)
  then show ?thesis
    using length_strip_prefix [of "[cr]" s] length_strip_prefix [of "[cr]" s2] length_dropWhile_le [of "\<lambda>x. x = nl" s3] by simp
qed

function split_blocks :: "string \<Rightarrow> string \<Rightarrow> string list" where
  "split_blocks current [] = [rev current]"
| "split_blocks current (c # s) =
     (case after_blank (c # s) of
        Some rest \<Rightarrow> rev current # split_blocks [] rest
      | None \<Rightarrow> split_blocks (c # current) s)"
  by pat_completeness auto
termination
  by (relation "measure (\<lambda>(current, s). length s)") (auto dest: after_blank_shorter)

text \<open>The fields of a package: the last value of a key counts.\<close>

definition parse_field :: "string \<Rightarrow> (string \<rightharpoonup> string) \<Rightarrow> string \<rightharpoonup> string" where
  "parse_field rawLine pkg =
     (if CHR '':'' \<notin> set rawLine then pkg
      else let key = js_trim (before_first CHR '':'' rawLine)
           in if key = [] then pkg else pkg(key \<mapsto> js_trim (after_first CHR '':'' rawLine)))"

definition parseAptPackageBlock :: "string \<Rightarrow> string \<rightharpoonup> string" where
  "parseAptPackageBlock block = fold parse_field (split_lines block) Map.empty"

text \<open>\<open>replace(/-[^-]+$/, '')\<close>.\<close>

definition normalizeDebianPackageVersion :: "string \<Rightarrow> string" where
  "normalizeDebianPackageVersion version =
     (let v = js_trim version; upstream = drop_end (\<lambda>c. c \<noteq> CHR ''-'') v
      in if upstream = [] \<or> upstream = v then v else butlast upstream)"

definition aptMetadataAdvertisesLinuxAgentVersion :: "string \<Rightarrow> string \<Rightarrow> bool" where
  "aptMetadataAdvertisesLinuxAgentVersion content version \<longleftrightarrow>
     (let targetVersion = js_trim version
      in targetVersion \<noteq> [] \<and>
         list_ex (\<lambda>block.
           let pkg = parseAptPackageBlock block
           in pkg ''Package'' = Some ''openpath-dnsmasq'' \<and>
              normalizeDebianPackageVersion (or_else (pkg ''Version'') []) = targetVersion)
         (split_blocks [] content))"

definition downloadAptPackagesManifest ::
  "apt_repository \<Rightarrow> int \<Rightarrow> string \<Rightarrow> string \<Rightarrow> apt_cache \<Rightarrow> (string + string) \<times> apt_cache" where
  "downloadAptPackagesManifest served now aptRepoUrl suite cache =
     (let packagesUrl = buildAptPackagesUrl aptRepoUrl suite;
          fetched =
            (case served now packagesUrl of
               Apt_document content \<Rightarrow> (Inr content, cache(packagesUrl \<mapsto> (now, content)))
             | Apt_status n statusText \<Rightarrow>
                 (Inl (''Failed to fetch '' @ suite @ '' APT metadata ('' @ nat_str n @ '' '' @ statusText @ '')''), cache)
             | Apt_unreachable m \<Rightarrow> (Inl m, cache))
      in case cache packagesUrl of
           Some (fetchedAt, content) \<Rightarrow>
             if now - fetchedAt < APT_METADATA_CACHE_TTL_MS then (Inr content, cache) else fetched
         | None \<Rightarrow> fetched)"

text \<open>The loop over the suites: the first that has the version.\<close>

fun pin_loop ::
  "apt_repository \<Rightarrow> int \<Rightarrow> string \<Rightarrow> string \<Rightarrow> string list \<Rightarrow> apt_cache \<Rightarrow> (string + string option) \<times> apt_cache" where
  "pin_loop served now aptRepoUrl version [] cache = (Inr None, cache)"
| "pin_loop served now aptRepoUrl version (suite # suites) cache =
     (case downloadAptPackagesManifest served now aptRepoUrl suite cache of
        (Inl e, cache') \<Rightarrow> (Inl e, cache')
      | (Inr manifest, cache') \<Rightarrow>
          if aptMetadataAdvertisesLinuxAgentVersion manifest version then (Inr (Some suite), cache')
          else pin_loop served now aptRepoUrl version suites cache')"

text \<open>Version and suite.\<close>

definition resolveEnrollmentLinuxAgentVersionPin ::
  "apt_repository \<Rightarrow> int \<Rightarrow> string \<Rightarrow> string \<Rightarrow> string \<Rightarrow> apt_cache \<Rightarrow> (string + string \<times> string) \<times> apt_cache" where
  "resolveEnrollmentLinuxAgentVersionPin served now aptRepoUrl configuredVersion configuredSuite cache =
     (let version = js_trim configuredVersion
      in case normalizeLinuxAgentAptSuite (Some configuredSuite) of
           Inl e \<Rightarrow> (Inl e, cache)
         | Inr primarySuite \<Rightarrow>
             (case getLinuxAgentAptSuiteCandidates (Some primarySuite) of
                Inl e \<Rightarrow> (Inl e, cache)
              | Inr candidates \<Rightarrow>
                  if version = [] then (Inr ([], primarySuite), cache)
                  else (case pin_loop served now aptRepoUrl version candidates cache of
                          (Inl e, cache') \<Rightarrow> (Inl e, cache')
                        | (Inr (Some suite), cache') \<Rightarrow> (Inr (version, suite), cache')
                        | (Inr None, cache') \<Rightarrow>
                            (Inl (''OPENPATH_LINUX_AGENT_VERSION '' @ version @ '' is not advertised by APT suites '' @
                                  join_with '', '' candidates), cache'))))"

section \<open>The services\<close>

datatype bootstrap_error = Context_refused service_error | Misconfigured string

text \<open>What the service reads of the environment of the server.\<close>

record bootstrap_env =
  ben_test :: bool
  ben_aptRepoUrl :: string
  ben_linuxAgentVersion :: "string option"
  ben_linuxAgentAptSuite :: "string option"
  ben_firefoxExtensionInstallUrl :: "string option"

definition buildLinuxEnrollmentBootstrap ::
  "apt_repository \<Rightarrow> (string \<Rightarrow> (string \<times> string) option) \<Rightarrow> enroll_checker \<Rightarrow> bootstrap_env \<Rightarrow> int \<Rightarrow> string option \<Rightarrow>
   string \<Rightarrow> string \<Rightarrow> school_db \<Rightarrow> apt_cache \<Rightarrow> (bootstrap_error + string) \<times> apt_cache" where
  "buildLinuxEnrollmentBootstrap served parse_url check env now header classroomId publicUrl db cache =
     (case resolveEnrollmentContext check now header classroomId db of
        Inl e \<Rightarrow> (Inl (Context_refused e), cache)
      | Inr (classroom, enrollmentToken) \<Rightarrow>
          if ben_aptRepoUrl env = [] then (Inl (Misconfigured ''APT repo URL not configured''), cache)
          else (case normalizeLinuxAgentAptSuite (ben_linuxAgentAptSuite env) of
              Inl e \<Rightarrow> (Inl (Misconfigured e), cache)
            | Inr suite \<Rightarrow>
                (case resolveEnrollmentLinuxAgentVersionPin served now (ben_aptRepoUrl env)
                    (or_else (map_option js_trim (ben_linuxAgentVersion env)) []) suite cache of
                   (Inl e, cache') \<Rightarrow> (Inl (Misconfigured e), cache')
                 | (Inr (version, pinned_suite), cache') \<Rightarrow>
                     (case buildLinuxEnrollmentScript parse_url (ben_test env)
                         \<lparr>lsp_publicUrl = publicUrl, lsp_classroomId = cls_id classroom, lsp_classroomName = cls_name classroom,
                          lsp_enrollmentToken = enrollmentToken, lsp_aptRepoUrl = ben_aptRepoUrl env,
                          lsp_linuxAgentVersion = version, lsp_linuxAgentAptSuite = pinned_suite\<rparr> of
                        Inl e \<Rightarrow> (Inl (Misconfigured e), cache')
                      | Inr script \<Rightarrow> (Inr script, cache')))))"

definition buildWindowsEnrollmentBootstrap ::
  "enroll_checker \<Rightarrow> bootstrap_env \<Rightarrow> int \<Rightarrow> string option \<Rightarrow> string \<Rightarrow> string \<Rightarrow> school_db \<Rightarrow> bootstrap_error + string" where
  "buildWindowsEnrollmentBootstrap check env now header classroomId publicUrl db =
     (case resolveEnrollmentContext check now header classroomId db of
        Inl e \<Rightarrow> Inl (Context_refused e)
      | Inr (classroom, enrollmentToken) \<Rightarrow>
          let url = or_else (map_option js_trim (ben_firefoxExtensionInstallUrl env)) []
          in Inr (buildWindowsEnrollmentScript
            \<lparr>wsp_classroomId = cls_id classroom, wsp_enrollmentToken = enrollmentToken,
             wsp_captivePortalDomains = Some (cls_captivePortalDomains classroom),
             wsp_firefoxExtensionInstallUrl = (if url = [] then None else Some url), wsp_publicUrl = publicUrl\<rparr>))"

section \<open>The package of the agent\<close>

record apt_package =
  apk_fileName :: string
  apk_filename :: string
  apk_sha256 :: string
  apk_size :: int
  apk_version :: string

definition path_basename :: "string \<Rightarrow> string" where
  "path_basename p = rev (takeWhile (\<lambda>c. c \<noteq> CHR ''/'') (rev (drop_end (\<lambda>c. c = CHR ''/'') p)))"

text \<open>\<open>Number.parseInt(s, 10)\<close>: the number at the start of a text.\<close>

definition parse_int :: "string \<Rightarrow> int option" where
  "parse_int s =
     (let t = trim_left s;
          sign = (if t \<noteq> [] \<and> hd t = CHR ''-'' then -1 else 1);
          u = (if t \<noteq> [] \<and> (hd t = CHR ''-'' \<or> hd t = CHR ''+'') then tl t else t);
          ds = takeWhile digit_char u
      in if ds = [] then None else Some (sign * int (dec_value ds)))"

fun find_package :: "string \<Rightarrow> string list \<Rightarrow> apt_package option" where
  "find_package targetVersion [] = None"
| "find_package targetVersion (block # blocks) =
     (let pkg = parseAptPackageBlock block
      in if pkg ''Package'' \<noteq> Some ''openpath-dnsmasq'' then find_package targetVersion blocks
         else if normalizeDebianPackageVersion (or_else (pkg ''Version'') []) \<noteq> targetVersion then find_package targetVersion blocks
         else
           let filename = js_trim (or_else (pkg ''Filename'') []); sha256 = js_trim (or_else (pkg ''SHA256'') [])
           in if filename = [] \<or> sha256 = [] then None
              else (case parse_int (or_else (pkg ''Size'') []) of
                      None \<Rightarrow> None
                    | Some bytes \<Rightarrow>
                        if bytes < 1 then None
                        else Some \<lparr>apk_fileName = path_basename filename, apk_filename = filename, apk_sha256 = sha256,
                                   apk_size = bytes, apk_version = targetVersion\<rparr>))"

definition findLinuxAgentAptPackage :: "string \<Rightarrow> string \<Rightarrow> apt_package option" where
  "findLinuxAgentAptPackage content version =
     (let targetVersion = js_trim version
      in if targetVersion = [] then None else find_package targetVersion (split_blocks [] content))"

fun package_loop ::
  "apt_repository \<Rightarrow> int \<Rightarrow> string \<Rightarrow> string \<Rightarrow> string list \<Rightarrow> apt_cache \<Rightarrow>
   (string + (apt_package \<times> string) option) \<times> apt_cache" where
  "package_loop served now aptRepoUrl version [] cache = (Inr None, cache)"
| "package_loop served now aptRepoUrl version (suite # suites) cache =
     (case downloadAptPackagesManifest served now aptRepoUrl suite cache of
        (Inl e, cache') \<Rightarrow> (Inl e, cache')
      | (Inr manifest, cache') \<Rightarrow>
          (case findLinuxAgentAptPackage manifest version of
             Some p \<Rightarrow> (Inr (Some (p, suite)), cache')
           | None \<Rightarrow> package_loop served now aptRepoUrl version suites cache'))"

definition readLinuxAgentVersion :: "string option \<Rightarrow> string \<Rightarrow> string" where
  "readLinuxAgentVersion env_version server_version =
     (let envVersion = js_trim (or_else env_version []) in if envVersion = [] then server_version else envVersion)"

text \<open>\<open>encodeURIComponent\<close>.\<close>

definition hex_upper :: "nat \<Rightarrow> char" where
  "hex_upper d = (if d < 10 then digit_of d else char_of (55 + d))"

definition encodeURIComponent :: "string \<Rightarrow> string" where
  "encodeURIComponent s =
     concat (map (\<lambda>c. if alnum_char c \<or> c \<in> set ''-_.!~*()'' \<or> c = qt then [c]
       else concat (map (\<lambda>b. [CHR ''%'', hex_upper (b div 16), hex_upper (b mod 16)]) (utf8 [c]))) s)"

record linux_package_entry =
  lpe_version :: string
  lpe_packageFileName :: string
  lpe_downloadUrl :: string
  lpe_sha256 :: string
  lpe_size :: int
  lpe_minSupportedVersion :: string
  lpe_minDirectUpgradeVersion :: string
  lpe_bridgeVersions :: "string list"
  lpe_downloadPath :: string

definition parseLinuxBridgeVersions :: "string option \<Rightarrow> string list" where
  "parseLinuxBridgeVersions env_value =
     (let rawValue = js_trim (or_else env_value [])
      in if rawValue = [] then [] else filter (\<lambda>v. v \<noteq> []) (map js_trim (split_on CHR '','' rawValue)))"

definition version_or_zero :: "string option \<Rightarrow> string" where
  "version_or_zero env_value = (let v = js_trim (or_else env_value []) in if v = [] then ''0.0.0'' else v)"

record package_env =
  pen_linuxAgentVersion :: "string option"
  pen_serverVersion :: string
  pen_minSupportedVersion :: "string option"
  pen_minDirectUpgradeVersion :: "string option"
  pen_bridgeVersions :: "string option"

definition buildLinuxAgentPackageManifestFromApt ::
  "apt_repository \<Rightarrow> package_env \<Rightarrow> int \<Rightarrow> string \<Rightarrow> string option \<Rightarrow> apt_cache \<Rightarrow>
   (string + linux_package_entry option) \<times> apt_cache" where
  "buildLinuxAgentPackageManifestFromApt served env now aptRepoUrl configuredSuite cache =
     (let version = readLinuxAgentVersion (pen_linuxAgentVersion env) (pen_serverVersion env)
      in case getLinuxAgentAptSuiteCandidates configuredSuite of
           Inl e \<Rightarrow> (Inl e, cache)
         | Inr suites \<Rightarrow>
             (case package_loop served now aptRepoUrl version suites cache of
                (Inl e, cache') \<Rightarrow> (Inl e, cache')
              | (Inr None, cache') \<Rightarrow> (Inr None, cache')
              | (Inr (Some (p, _)), cache') \<Rightarrow>
                  (Inr (Some \<lparr>lpe_version = version, lpe_packageFileName = apk_fileName p,
                     lpe_downloadUrl = buildAptPackageUrl aptRepoUrl (apk_filename p), lpe_sha256 = apk_sha256 p,
                     lpe_size = apk_size p, lpe_minSupportedVersion = version_or_zero (pen_minSupportedVersion env),
                     lpe_minDirectUpgradeVersion = version_or_zero (pen_minDirectUpgradeVersion env),
                     lpe_bridgeVersions = parseLinuxBridgeVersions (pen_bridgeVersions env),
                     lpe_downloadPath = ''/api/agent/linux/packages/'' @ encodeURIComponent version\<rparr>), cache')))"

text \<open>The body of the package and its file name.\<close>

definition downloadLinuxAgentPackageFromApt ::
  "apt_repository \<Rightarrow> int \<Rightarrow> string \<Rightarrow> string \<Rightarrow> string option \<Rightarrow> apt_cache \<Rightarrow>
   (string + (string \<times> string) option) \<times> apt_cache" where
  "downloadLinuxAgentPackageFromApt served now aptRepoUrl version configuredSuite cache =
     (case getLinuxAgentAptSuiteCandidates configuredSuite of
        Inl e \<Rightarrow> (Inl e, cache)
      | Inr suites \<Rightarrow>
          (case package_loop served now aptRepoUrl version suites cache of
             (Inl e, cache') \<Rightarrow> (Inl e, cache')
           | (Inr None, cache') \<Rightarrow> (Inr None, cache')
           | (Inr (Some (p, _)), cache') \<Rightarrow>
               (case served now (buildAptPackageUrl aptRepoUrl (apk_filename p)) of
                  Apt_document body \<Rightarrow> (Inr (Some (body, apk_fileName p)), cache')
                | Apt_status n statusText \<Rightarrow>
                    (Inl (''Failed to fetch Linux agent package '' @ version @ '' ('' @ nat_str n @ '' '' @ statusText @ '')''), cache')
                | Apt_unreachable m \<Rightarrow> (Inl m, cache'))))"

text \<open>A package is only found in a list that advertises its version.\<close>

lemma find_package_advertised:
  "find_package v blocks = Some p \<Longrightarrow>
   list_ex (\<lambda>block. parseAptPackageBlock block ''Package'' = Some ''openpath-dnsmasq'' \<and>
     normalizeDebianPackageVersion (or_else (parseAptPackageBlock block ''Version'') []) = v) blocks"
  by (induction blocks) (auto simp: Let_def split: if_splits)

lemma package_advertised:
  "findLinuxAgentAptPackage content version = Some p \<Longrightarrow> aptMetadataAdvertisesLinuxAgentVersion content version"
  by (auto simp: findLinuxAgentAptPackage_def aptMetadataAdvertisesLinuxAgentVersion_def Let_def
      dest: find_package_advertised split: if_splits)

section \<open>What the cache holds\<close>

inductive apt_reach :: "apt_repository \<Rightarrow> int \<Rightarrow> apt_cache \<Rightarrow> bool" for served where
  apt_start: "apt_reach served now Map.empty"
| apt_download: "apt_reach served t cache \<Longrightarrow> t \<le> now \<Longrightarrow>
    downloadAptPackagesManifest served now aptRepoUrl suite cache = (result, cache') \<Longrightarrow> apt_reach served now cache'"

definition recently_served :: "apt_repository \<Rightarrow> int \<Rightarrow> string \<Rightarrow> string \<Rightarrow> bool" where
  "recently_served served now url content \<longleftrightarrow> (\<exists>t. t \<le> now \<and> now - t < 300000 \<and> served t url = Apt_document content)"

definition apt_kept :: "apt_repository \<Rightarrow> int \<Rightarrow> apt_cache \<Rightarrow> bool" where
  "apt_kept served now cache \<longleftrightarrow> (\<forall>url t content. cache url = Some (t, content) \<longrightarrow> t \<le> now \<and> served t url = Apt_document content)"

lemma apt_kept_later: "apt_kept served t cache \<Longrightarrow> t \<le> now \<Longrightarrow> apt_kept served now cache"
  unfolding apt_kept_def by (meson order_trans)

lemma download_kept:
  "apt_kept served now cache \<Longrightarrow> downloadAptPackagesManifest served now aptRepoUrl suite cache = (result, cache') \<Longrightarrow>
   apt_kept served now cache'"
  by (auto simp: downloadAptPackagesManifest_def Let_def apt_kept_def split: option.splits apt_response.splits if_splits prod.splits)

lemma download_recent:
  "apt_kept served now cache \<Longrightarrow> downloadAptPackagesManifest served now aptRepoUrl suite cache = (Inr content, cache') \<Longrightarrow>
   recently_served served now (buildAptPackagesUrl aptRepoUrl suite) content"
  by (auto simp: downloadAptPackagesManifest_def Let_def apt_kept_def recently_served_def APT_METADATA_CACHE_TTL_MS_def
      split: option.splits apt_response.splits if_splits prod.splits intro: exI [of _ now])

lemma apt_reach_kept: "apt_reach served now cache \<Longrightarrow> apt_kept served now cache"
proof (induction rule: apt_reach.induct)
  case (apt_download t cache now aptRepoUrl suite result cache')
  then show ?case using apt_kept_later download_kept by blast
qed (simp add: apt_kept_def)

text \<open>The suite that is chosen has the version, and those asked before it have not.\<close>

lemma pin_loop_found:
  "apt_kept served now cache \<Longrightarrow> pin_loop served now aptRepoUrl version suites cache = (Inr (Some suite), cache') \<Longrightarrow>
   (\<exists>before rest. suites = before @ suite # rest \<and>
     (\<forall>s \<in> set before. \<exists>m. recently_served served now (buildAptPackagesUrl aptRepoUrl s) m \<and>
        \<not> aptMetadataAdvertisesLinuxAgentVersion m version)) \<and>
   (\<exists>m. recently_served served now (buildAptPackagesUrl aptRepoUrl suite) m \<and> aptMetadataAdvertisesLinuxAgentVersion m version)"
proof (induction suites arbitrary: cache)
  case (Cons s suites)
  from Cons.prems(2) obtain manifest cache1 where d: "downloadAptPackagesManifest served now aptRepoUrl s cache = (Inr manifest, cache1)"
    by (auto split: prod.splits sum.splits)
  note recent = download_recent [OF Cons.prems(1) d]
  show ?case
  proof (cases "aptMetadataAdvertisesLinuxAgentVersion manifest version")
    case True
    then have "suite = s" using Cons.prems(2) d by simp
    then have "s # suites = [] @ suite # suites \<and> (\<forall>q \<in> set []. \<exists>m. recently_served served now (buildAptPackagesUrl aptRepoUrl q) m \<and>
        \<not> aptMetadataAdvertisesLinuxAgentVersion m version)" by simp
    then show ?thesis using True recent \<open>suite = s\<close> by blast
  next
    case False
    then have "pin_loop served now aptRepoUrl version suites cache1 = (Inr (Some suite), cache')"
      using Cons.prems(2) d by simp
    from Cons.IH [OF download_kept [OF Cons.prems(1) d] this]
    obtain before rest where "suites = before @ suite # rest"
      "\<forall>q \<in> set before. \<exists>m. recently_served served now (buildAptPackagesUrl aptRepoUrl q) m \<and>
        \<not> aptMetadataAdvertisesLinuxAgentVersion m version"
      and m: "\<exists>m. recently_served served now (buildAptPackagesUrl aptRepoUrl suite) m \<and>
        aptMetadataAdvertisesLinuxAgentVersion m version"
      by blast
    then have "s # suites = (s # before) @ suite # rest \<and>
      (\<forall>q \<in> set (s # before). \<exists>m. recently_served served now (buildAptPackagesUrl aptRepoUrl q) m \<and>
        \<not> aptMetadataAdvertisesLinuxAgentVersion m version)"
      using False recent by auto
    then show ?thesis using m by blast
  qed
qed simp

text \<open>A pinned version is one the chosen suite lists, and the configured suite is left only when it does not.\<close>

definition pinned_ok :: "apt_repository \<Rightarrow> int \<Rightarrow> string \<Rightarrow> string \<Rightarrow> string \<Rightarrow> string \<Rightarrow> bool" where
  "pinned_ok served now aptRepoUrl configured version suite \<longleftrightarrow>
     (if version = [] then suite = configured
      else (\<exists>m. recently_served served now (buildAptPackagesUrl aptRepoUrl suite) m \<and>
              aptMetadataAdvertisesLinuxAgentVersion m version) \<and>
           (suite \<noteq> configured \<longrightarrow>
             (\<exists>m. recently_served served now (buildAptPackagesUrl aptRepoUrl configured) m \<and>
                \<not> aptMetadataAdvertisesLinuxAgentVersion m version)))"

lemma normalize_suite: "normalizeLinuxAgentAptSuite v = Inr s \<Longrightarrow> s = ''stable'' \<or> s = ''unstable''"
  by (auto simp: normalizeLinuxAgentAptSuite_def Let_def split: if_splits)

lemma normalize_suite_again: "s = ''stable'' \<or> s = ''unstable'' \<Longrightarrow> normalizeLinuxAgentAptSuite (Some s) = Inr s"
proof -
  have "normalizeLinuxAgentAptSuite (Some ''stable'') = Inr ''stable''" "normalizeLinuxAgentAptSuite (Some ''unstable'') = Inr ''unstable''"
    by code_simp+
  then show "s = ''stable'' \<or> s = ''unstable'' \<Longrightarrow> normalizeLinuxAgentAptSuite (Some s) = Inr s" by blast
qed

lemma pin_ok:
  assumes "apt_kept served now cache" "configured = ''stable'' \<or> configured = ''unstable''"
    and "resolveEnrollmentLinuxAgentVersionPin served now aptRepoUrl configuredVersion configured cache = (Inr (version, suite), cache')"
  shows "version = js_trim configuredVersion \<and> (suite = ''stable'' \<or> suite = ''unstable'') \<and>
    pinned_ok served now aptRepoUrl configured version suite"
proof -
  let ?candidates = "if configured = ''stable'' then [''stable'', ''unstable''] else [''unstable'', ''stable'']"
  note n = normalize_suite_again [OF assms(2)]
  have cands: "getLinuxAgentAptSuiteCandidates (Some configured) = Inr ?candidates"
    by (simp only: getLinuxAgentAptSuiteCandidates_def n and_then_simps)
  note def = resolveEnrollmentLinuxAgentVersionPin_def [of served now aptRepoUrl configuredVersion configured cache, unfolded Let_def n cands sum.case]
  show ?thesis
  proof (cases "js_trim configuredVersion = []")
    case True
    then have "version = [] \<and> suite = configured" using assms(3) unfolding def by simp
    then show ?thesis using assms(2) True by (simp add: pinned_ok_def)
  next
    case False
    let ?loop = "pin_loop served now aptRepoUrl (js_trim configuredVersion) ?candidates cache"
    obtain r c where lp: "?loop = (r, c)" by (rule prod.exhaust)
    from assms(3) False have "r = Inr (Some suite) \<and> c = cache' \<and> version = js_trim configuredVersion"
      unfolding def by (simp add: lp split: sum.splits option.splits)
    then have v: "version = js_trim configuredVersion"
      and loop: "pin_loop served now aptRepoUrl version ?candidates cache = (Inr (Some suite), cache')"
      using lp by simp_all
    from pin_loop_found [OF assms(1) loop] obtain before rest where c: "?candidates = before @ suite # rest"
      and b: "\<forall>s \<in> set before. \<exists>m. recently_served served now (buildAptPackagesUrl aptRepoUrl s) m \<and>
        \<not> aptMetadataAdvertisesLinuxAgentVersion m version"
      and m: "\<exists>m. recently_served served now (buildAptPackagesUrl aptRepoUrl suite) m \<and> aptMetadataAdvertisesLinuxAgentVersion m version"
      by blast
    have hd: "hd ?candidates = configured" using assms(2) by auto
    have "suite \<in> set ?candidates" unfolding c by simp
    moreover have "suite \<noteq> configured \<Longrightarrow> configured \<in> set before" using c hd by (cases before) auto
    moreover have "set ?candidates = {''stable'', ''unstable''}" by auto
    ultimately show ?thesis using v False b m unfolding pinned_ok_def by (metis (no_types, lifting) insertE singletonD)
  qed
qed

section \<open>What a computer is told to run\<close>

lemma context_given:
  assumes "resolveEnrollmentContext check now header classroomId db = Inr (classroom, token)"
  shows "header = Some (''Bearer '' @ token) \<and> verifyEnrollmentToken check now token = Some classroomId \<and>
    getClassroomById classroomId db = Some classroom \<and> cls_id classroom = classroomId"
proof -
  have "h = ''Bearer '' @ drop 7 h" if "prefix ''Bearer '' h" for h
    using that by (auto elim: prefixE)
  then show ?thesis
    using assms by (auto simp: resolveEnrollmentContext_def bearer_part_def starts_with_def getClassroomById_def
        split: if_splits option.splits dest!: row_by_SomeD)
qed

text \<open>The classroom, the token and the rest of what the script is made from.\<close>

definition linux_params :: "bootstrap_env \<Rightarrow> string \<Rightarrow> classroom_row \<Rightarrow> string \<Rightarrow> string \<Rightarrow> string \<Rightarrow> linux_script_params" where
  "linux_params env publicUrl classroom token version suite =
     \<lparr>lsp_publicUrl = publicUrl, lsp_classroomId = cls_id classroom, lsp_classroomName = cls_name classroom,
      lsp_enrollmentToken = token, lsp_aptRepoUrl = ben_aptRepoUrl env,
      lsp_linuxAgentVersion = version, lsp_linuxAgentAptSuite = suite\<rparr>"

text \<open>C35: what the Linux enrolment script does.  It is handed out only for a valid enrolment token of an
  existing classroom.  The shell that runs it reads the address, the classroom, the token and the rest exactly as they
  are, whatever characters they contain, and then runs commands that do not depend on them.  A pinned
  version is one that the chosen suite of the repository listed in the last five minutes, and another suite than
  the configured one is chosen only when that one did not list it.\<close>

theorem linux_bootstrap_faithful:
  assumes "apt_reach served t cache" "t \<le> now"
    and "buildLinuxEnrollmentBootstrap served parse_url check env now header classroomId publicUrl db cache = (Inr script, cache')"
    and "no_null publicUrl" "no_null (ben_aptRepoUrl env)" "\<forall>v. ben_linuxAgentVersion env = Some v \<longrightarrow> no_null v"
    and "\<forall>h. header = Some h \<longrightarrow> no_null h" "\<forall>c \<in> set (db_classrooms db). no_null (cls_id c) \<and> no_null (cls_name c)"
  shows "\<exists>classroom token version configured suite.
    header = Some (''Bearer '' @ token) \<and> verifyEnrollmentToken check now token = Some classroomId \<and>
    getClassroomById classroomId db = Some classroom \<and>
    sh_prologue Map.empty script =
      (linux_variables (linux_params env publicUrl classroom token version suite) suite,
       file_text (linux_commands (suite = ''unstable'') (version \<noteq> []))) \<and>
    version = js_trim (or_else (ben_linuxAgentVersion env) []) \<and>
    normalizeLinuxAgentAptSuite (ben_linuxAgentAptSuite env) = Inr configured \<and>
    pinned_ok served now (ben_aptRepoUrl env) configured version suite"
proof -
  from assms(3) obtain classroom token where ctx: "resolveEnrollmentContext check now header classroomId db = Inr (classroom, token)"
    by (auto simp: buildLinuxEnrollmentBootstrap_def split: sum.splits)
  note given = context_given [OF ctx]
  let ?v = "or_else (map_option js_trim (ben_linuxAgentVersion env)) []"
  have trim: "js_trim ?v = js_trim (or_else (ben_linuxAgentVersion env) [])"
    by (simp add: or_else_def split: option.split)
  from assms(3) ctx obtain configured version suite where
    n: "normalizeLinuxAgentAptSuite (ben_linuxAgentAptSuite env) = Inr configured"
    and pin: "resolveEnrollmentLinuxAgentVersionPin served now (ben_aptRepoUrl env) ?v configured cache = (Inr (version, suite), cache')"
    and build: "buildLinuxEnrollmentScript parse_url (ben_test env) (linux_params env publicUrl classroom token version suite) = Inr script"
    by (auto simp: buildLinuxEnrollmentBootstrap_def linux_params_def split: sum.splits if_splits prod.splits)
  note p = pin_ok [OF apt_kept_later [OF apt_reach_kept [OF assms(1)] assms(2)] normalize_suite [OF n] pin]
  have script: "script = file_text (linux_settings (linux_params env publicUrl classroom token version suite) suite @
      linux_commands (suite = ''unstable'') (version \<noteq> []))"
    using build p by (auto simp: buildLinuxEnrollmentScript_def and_then_Inr_iff Let_def linux_params_def)
  have row: "classroom \<in> set (db_classrooms db)" using given by (auto simp: getClassroomById_def dest!: row_by_SomeD)
  have version: "no_null version"
    using p assms(6) set_js_trim [of "or_else (ben_linuxAgentVersion env) []"] trim
    by (auto simp: no_null_def or_else_def split: option.splits)
  have token: "no_null token" using assms(7) given by (auto simp: no_null_def)
  have suite: "no_null suite" using p by (auto simp: no_null_def)
  have "sh_prologue Map.empty script =
      (linux_variables (linux_params env publicUrl classroom token version suite) suite,
       file_text (linux_commands (suite = ''unstable'') (version \<noteq> [])))"
    unfolding script
    by (rule linux_prologue) (use assms(4,5,8) row version token suite in \<open>auto simp: linux_params_def\<close>)
  then show ?thesis using given n p trim by blast
qed

text \<open>What the Windows enrolment script does.  It is handed out only for a valid enrolment token of an
  existing classroom; PowerShell reads the address, the classroom, the token and the captive portal domains
  exactly as they are, and then runs commands that do not depend on them.\<close>

theorem windows_bootstrap_faithful:
  assumes "school_reach tz utc db"
    and "buildWindowsEnrollmentBootstrap check env now header classroomId publicUrl db = Inr script"
  shows "\<exists>classroom token vars.
    header = Some (''Bearer '' @ token) \<and> verifyEnrollmentToken check now token = Some classroomId \<and>
    getClassroomById classroomId db = Some classroom \<and>
    ps_prologue Map.empty script = (vars, file_text windows_commands) \<and>
    vars ''ApiUrl'' = Some (Ps_string publicUrl) \<and> vars ''ClassroomId'' = Some (Ps_string classroomId) \<and>
    vars ''EnrollmentToken'' = Some (Ps_string token) \<and>
    vars ''FirefoxExtensionInstallUrl'' = Some (Ps_string (js_trim (or_else (ben_firefoxExtensionInstallUrl env) []))) \<and>
    vars ''CaptivePortalDomains'' = Some (Ps_array (cls_captivePortalDomains classroom))"
proof -
  from assms(2) obtain classroom token where ctx: "resolveEnrollmentContext check now header classroomId db = Inr (classroom, token)"
    by (auto simp: buildWindowsEnrollmentBootstrap_def split: sum.splits)
  note given = context_given [OF ctx]
  let ?url = "or_else (map_option js_trim (ben_firefoxExtensionInstallUrl env)) []"
  let ?p = "\<lparr>wsp_classroomId = cls_id classroom, wsp_enrollmentToken = token,
    wsp_captivePortalDomains = Some (cls_captivePortalDomains classroom),
    wsp_firefoxExtensionInstallUrl = (if ?url = [] then None else Some ?url), wsp_publicUrl = publicUrl\<rparr>"
  have script: "script = buildWindowsEnrollmentScript ?p"
    using assms(2) ctx by (simp add: buildWindowsEnrollmentBootstrap_def Let_def)
  have row: "classroom \<in> set (db_classrooms db)" using given by (auto simp: getClassroomById_def dest!: row_by_SomeD)
  have "classroom_ok db classroom" using school_reach_ok [OF assms(1)] row
    by (auto simp: school_ok_def classrooms_ok_def list_all_iff)
  then have "list_all isExactHostname (or_else (wsp_captivePortalDomains ?p) [])"
    by (simp add: classroom_ok_def or_else_def)
  from windows_prologue [OF this] have "ps_prologue Map.empty script = (windows_variables ?p, file_text windows_commands)"
    unfolding script .
  moreover have "js_trim (or_else (wsp_firefoxExtensionInstallUrl ?p) []) = js_trim (or_else (ben_firefoxExtensionInstallUrl env) [])"
    by (auto simp: or_else_def split: option.split)
  moreover have "or_else (wsp_captivePortalDomains ?p) [] = cls_captivePortalDomains classroom" by (simp add: or_else_def)
  ultimately show ?thesis using given
    by (intro exI [of _ classroom] exI [of _ token] exI [of _ "windows_variables ?p"]) (simp add: windows_variables_def)
qed

section \<open>An example\<close>

definition demo_check :: enroll_checker where
  "demo_check issuer audience t token =
     (if token = ''tok7'' then Some \<lparr>ecl_typ = Some ''enroll'', ecl_classroomId = Some ''lab''\<rparr> else None)"

text \<open>Only the unstable suite has version 5.0.\<close>

definition demo_repository :: apt_repository where
  "demo_repository t url =
     (if url = ''https://apt.org/dists/unstable/main/binary-amd64/Packages''
      then Apt_document (''Package: openpath-dnsmasq'' @ [nl] @ ''Version: 5.0-1'' @ [nl])
      else Apt_document ''Package: other'')"

definition demo_env :: bootstrap_env where
  "demo_env = \<lparr>ben_test = False, ben_aptRepoUrl = ''https://apt.org'', ben_linuxAgentVersion = Some '' 5.0'',
     ben_linuxAgentAptSuite = None, ben_firefoxExtensionInstallUrl = None\<rparr>"

text \<open>An address that tries to end the quotes.\<close>

definition sly_url :: string where
  "sly_url = ''https://x.org/'' @ [qt] @ '';reboot;'' @ [qt]"

definition demo_linux :: "(bootstrap_error + string) \<times> apt_cache" where
  "demo_linux =
     buildLinuxEnrollmentBootstrap demo_repository (\<lambda>_. Some (''https:'', ''x.org'')) demo_check demo_env 60
       (Some ''Bearer tok7'') ''lab'' sly_url demo_db Map.empty"

lemma linux_bootstrap_faithful_witness:
  "\<exists>script vars rest. fst demo_linux = Inr script \<and> sh_prologue Map.empty script = (vars, rest) \<and>
     vars ''API_URL'' = Some sly_url \<and> vars ''CLASSROOM_ID'' = Some ''lab'' \<and> vars ''LINUX_AGENT_VERSION'' = Some ''5.0''"
proof -
  have "\<not> isl (fst demo_linux)" by code_simp
  then obtain script where s: "fst demo_linux = Inr script" by (cases "fst demo_linux") auto
  then have r: "buildLinuxEnrollmentBootstrap demo_repository (\<lambda>_. Some (''https:'', ''x.org'')) demo_check demo_env 60
       (Some ''Bearer tok7'') ''lab'' sly_url demo_db Map.empty = (Inr script, snd demo_linux)"
    unfolding demo_linux_def by (metis prod.collapse)
  have nulls: "no_null sly_url" "no_null (ben_aptRepoUrl demo_env)" "no_null '' 5.0''" "no_null ''Bearer tok7''"
    "\<forall>c \<in> set (db_classrooms demo_db). no_null (cls_id c) \<and> no_null (cls_name c)"
    and env: "ben_linuxAgentVersion demo_env = Some '' 5.0''" "js_trim '' 5.0'' = ''5.0''"
    by code_simp+
  have n: "\<forall>v. ben_linuxAgentVersion demo_env = Some v \<longrightarrow> no_null v" "\<forall>h. Some ''Bearer tok7'' = Some h \<longrightarrow> no_null h"
    using nulls env by simp_all
  from linux_bootstrap_faithful [OF apt_start [of demo_repository 0] _ r nulls(1,2) n nulls(5)]
  obtain classroom token suite where c: "getClassroomById ''lab'' demo_db = Some classroom"
    and p: "sh_prologue Map.empty script =
      (linux_variables (linux_params demo_env sly_url classroom token ''5.0'' suite) suite,
       file_text (linux_commands (suite = ''unstable'') True))"
    using env by (auto simp: or_else_def)
  have "cls_id classroom = ''lab''" using c by (auto simp: getClassroomById_def dest!: row_by_SomeD)
  then show ?thesis using s p by (simp add: linux_variables_def linux_params_def)
qed

definition demo_windows :: "bootstrap_error + string" where
  "demo_windows = buildWindowsEnrollmentBootstrap demo_check demo_env 60 (Some ''Bearer tok7'') ''lab'' sly_url demo_db"

lemma windows_bootstrap_faithful_witness:
  "\<exists>script vars. demo_windows = Inr script \<and> ps_prologue Map.empty script = (vars, file_text windows_commands) \<and>
     vars ''ApiUrl'' = Some (Ps_string sly_url)"
proof -
  have "\<not> isl (resolveEnrollmentContext demo_check 60 (Some ''Bearer tok7'') ''lab'' demo_db)" by code_simp
  then obtain script where s: "demo_windows = Inr script"
    by (cases "resolveEnrollmentContext demo_check 60 (Some ''Bearer tok7'') ''lab'' demo_db")
      (auto simp: demo_windows_def buildWindowsEnrollmentBootstrap_def Let_def split: prod.splits)
  from windows_bootstrap_faithful [OF demo_db_reach [of "\<lambda>_. 0" "\<lambda>_. 0"] s [unfolded demo_windows_def]]
  show ?thesis using s by blast
qed

text \<open>
  The check of the addresses lets a plain \<open>http\<close> address of the machine itself pass, and any protocol other than
  \<open>http\<close>; the script, however, fetches its installer over HTTPS only.
\<close>

lemma unchecked_protocols:
  "assertSafeEnrollmentUrl (\<lambda>_. Some (''ftp:'', ''x.org'')) False url label = Inr ()"
  "assertSafeEnrollmentUrl (\<lambda>_. Some (''http:'', ''localhost'')) False url label = Inr ()"
  by (simp_all add: assertSafeEnrollmentUrl_def LOCAL_HTTP_HOSTS_def)

end
