(* ===== verification/Spec2Isabelle.thy ===== *)
theory Spec2Isabelle
  imports Rule_Values Root_Domain Schedules Machine_Policy Sessions Request_Review School_Delivery Blocked_Screen
    Request_Decision Extension_Agreement Machine_Requests Enrollment_Scripts
begin

text \<open>
  A verification development for OpenPath, which gives the computers of a classroom access to a list of sites and to
  nothing else.  The code modelled is the server (\<open>api/src\<close>), the rules it shares with its clients
  (\<open>shared/src\<close>), two pure modules of the web client (\<open>react-spa/src/lib\<close>) and the decisions of the browser extension
  (\<open>firefox-extension/src/lib\<close>).

  \<^bold>\<open>The program.\<close>  A group is a whitelist: a row with rules, exported as a text file.  A classroom has a default group,
  an active group that a teacher sets by hand, and schedules that put it under a group at certain times.  A machine
  belongs to a classroom, downloads the whitelist of the group in force, and listens on a stream of events for changes;
  it can be exempted for the rest of a lesson or for some hours.  Users are administrators or teachers of groups, and hold
  signed tokens.  Students ask for a site with a request, which a teacher approves into a rule.  A command changes the
  tables, queues events, and sends them when it has committed; the hub passes them to the machines that are connected
  and, through the database, to the hubs of the other servers.  On the machine the browser extension reads the rules from
  a native host, judges every request with them, and sends tabs to a blocked page, after a navigation error only when the
  host confirms that the page is blocked.

  \<^bold>\<open>Theories.\<close>
  \<^item> \<open>JS_Prelude\<close>, \<open>Regex\<close>, \<open>Db_Tables\<close>: what the source uses of its language and database.  Strings, numbers, sets and
    loops of JavaScript; regular expressions as a datatype with a matcher; tables as lists of rows with \<open>SELECT\<close>, \<open>INSERT\<close>,
    \<open>UPDATE\<close>, \<open>DELETE\<close>, nulls and unique keys, and the locales \<open>record_store\<close> and \<open>timetable\<close> for what they promise.
  \<^item> \<open>Rule_Values\<close>, \<open>Root_Domain\<close>, \<open>Schedule_Time\<close>, \<open>Classroom_Values\<close>: the shared value rules (\<open>shared/src/rules-validation.ts\<close>,
    \<open>domain.ts\<close>, \<open>schedule-time.ts\<close>, \<open>slug.ts\<close>, \<open>captive-portal-domains.ts\<close>, \<open>classroom-status.ts\<close>) and the client's times of day.
    Lemmas give each validator a closed form, show that cleaning is idempotent and that printing and reading agree.
  \<^item> \<open>Groups_Storage\<close>, \<open>Whitelist_Export\<close>: the tables of groups and rules (\<open>api/src/lib/groups-storage*.ts\<close>), the exported
    file with its cache, and the client's parser (\<open>react-spa/src/lib/openpath-parser.ts\<close>).
  \<^item> \<open>Schedules\<close>, \<open>Classrooms\<close>, \<open>Exemptions\<close>, \<open>School_State\<close>: the tables of a school (\<open>api/src/lib/schedule-storage*.ts\<close>,
    \<open>classroom-storage*.ts\<close>, \<open>exemption-storage*.ts\<close>) with the cascades of \<open>api/src/db/schema.ts\<close>.  \<open>school_reach\<close> is the set of
    states their operations reach, \<open>school_ok\<close> the constraints that hold in all of them.
  \<^item> \<open>Machine_Policy\<close>, \<open>Exemption_Rules\<close>: which group a machine is under and what it downloads
    (\<open>api/src/lib/classroom-storage-policy.ts\<close>, \<open>api/src/services/machine-policy.service.ts\<close>).  \<open>policy_applies\<close> states the
    precedence of exemption, active group, schedule and default group as rules, \<open>policy_file\<close> the file and the entity tag
    that go with a policy.
  \<^item> \<open>Domain_Events\<close>, \<open>Event_Hub\<close>, \<open>Event_Delivery\<close>: the queue of events (\<open>api/src/services/domain-events/\<close>), the hub of
    connected machines (\<open>api/src/lib/sse-hub.ts\<close>), the events between servers (\<open>rule-events.ts\<close>, \<open>db-event-bridge.ts\<close>)
    and the tick at the start of every minute (\<open>schedule-boundary-ticker.ts\<close>).  The hub refines a list of clients; the locale
    \<open>delivery\<close> is what its three loops share.  \<open>follows_policy\<close> compares a client with what its machine downloads; the hub
    differs from that for a machine under an exemption that names a group (\<open>no_exempt_group\<close>).
  \<^item> \<open>Accounts\<close>, \<open>User_Management\<close>, \<open>Access_Control\<close>, \<open>Sessions\<close>: users and roles, the services that manage them, decisions on
    tokens, and issuing and revoking tokens.  A token that was revoked stays dead while its user exists: deleting a user
    deletes its token rows, as the schema's cascade does (\<open>cascade_tokens\<close>).
  \<^item> \<open>Group_Services\<close>, \<open>Change_Announcement\<close>: the commands on groups and rules, and the proof that no change of an exported
    whitelist goes unannounced, but for a deletion in which an administrator names another group (\<open>group_step\<close>).
  \<^item> \<open>Schedule_Services\<close>, \<open>Classroom_Services\<close>, \<open>School_Delivery\<close>: the commands and queries on schedules, classrooms, exemptions and
    machines (\<open>api/src/services/schedule-*.ts\<close>, \<open>classroom-*.ts\<close>), the contract the schedule commands implement, and the proof
    that a change of the policy of a machine that stays in its classroom is announced and reaches the machine when it is
    connected.
  \<^item> \<open>Account_Recovery\<close>: password reset and address verification (\<open>auth-account-recovery.service.ts\<close> and its two tables),
    registration, change of password, and login with Google (\<open>auth-google.service.ts\<close>).  The lemmas show that a reset token
    works once, that it does work, and which accounts an external identity opens.
  \<^item> \<open>Setup\<close>, \<open>Enrollment\<close>: the first administrator and the registration token (\<open>setup-storage.ts\<close>,
    \<open>setup-management.service.ts\<close>, \<open>default-admin.service.ts\<close>), enrolment tickets (\<open>enrollment-token.ts\<close>,
    \<open>enrollment-access.service.ts\<close>) and the registration of machines (\<open>machine-registration.service.ts\<close>, \<open>machine-proof.ts\<close>).
    \<open>lifetime_ms\<close> is the documented reading of a lifetime and \<open>jwt_law\<close> the documented expiry in whole seconds of the library
    that signs the tickets.
  \<^item> \<open>Enrollment_Scripts\<close>: the two scripts a computer runs to enrol itself (\<open>enrollment-script.ts\<close>,
    \<open>enrollment-service-shared.ts\<close>), who gets them (\<open>enrollment-bootstrap.service.ts\<close>) and the version they install
    (\<open>server-asset-linux.ts\<close>).  Readers of the assignments of the shell and of PowerShell show that values stay values.
  \<^item> \<open>Requests\<close>, \<open>Request_Review\<close>, \<open>Machine_Requests\<close>: requests for access, from submission to decision; the last is the way in
    from a machine (\<open>public-request-input.ts\<close>, \<open>machine-request-admission.service.ts\<close>, \<open>routes/public-requests.ts\<close>) and the
    proof that what a machine asked for is in its whitelist once it is approved.
  \<^item> \<open>Url_Rules\<close>, \<open>Ip_Literals\<close>, \<open>Rule_Refresh\<close>: the rules of the extension (\<open>path-blocking.ts\<close>, \<open>subdomain-blocking.ts\<close>,
    \<open>allowed-path.ts\<close>, \<open>google-game-blocking.ts\<close>, \<open>background-ip-literal-rules.ts\<close>), how they are compiled and matched, and the
    three controllers that load them (\<open>background-path-rules.ts\<close> and its two siblings), which satisfy one locale,
    \<open>rule_feed\<close>.  The lemmas give the URLs that the compiled patterns match (\<open>rule_hits\<close> says what a rule of
    any form stands for, \<open>rule_strays\<close> the pages of other hosts that it catches as well) and the addresses that are stopped
    (\<open>public_address\<close>, over the address blocks).
  \<^item> \<open>Navigation_State\<close>, \<open>Policy_Decision\<close>, \<open>Blocked_Screen\<close>: the registry of navigations (\<open>navigation-state.ts\<close>), the
    verdicts of the host and their short memory (\<open>policy-decision.ts\<close>, \<open>blocked-screen-confirmer.ts\<close>), and the two
    asynchronous clients that redirect tabs (\<open>blocked-screen-navigation-controller.ts\<close>,
    \<open>background-tab-reconciliation.ts\<close>), as processes of which any interleaving is considered.
  \<^item> \<open>Request_Decision\<close>: the listeners of the extension and what they remember (\<open>background-listeners.ts\<close>,
    \<open>blocked-monitor-state.ts\<close>, \<open>runtime-dependency-protocol.ts\<close>, the page contexts of \<open>background-runtime.ts\<close>).
    \<open>catches\<close> states, apart from the evaluators of the code, when a rule of each of the five kinds catches a request.
  \<^item> \<open>Extension_Agreement\<close>: server and extension decide blocked subdomains alike.

  \<^bold>\<open>Reading the model.\<close>  A table is a list of rows in insertion order; a state is a record of tables.  A function of the code that
  reads and writes is a function from the state to its result and the new state, a command of a service also gives the
  events it publishes.  A thrown error is the left side of a sum and leaves the state as it was; \<open>outcome\<close> separates the errors
  a service returns from those it throws.  Time is in milliseconds since 1970.  What the platform provides is an argument
  of the definitions that use it: the offset of the local time zone (\<open>tz\<close>) and its inverse (\<open>utc\<close>), \<open>toISOString\<close> (\<open>toISO\<close>),
  the reading of a date from a text (\<open>parse_date\<close>), digests (\<open>sha_hex\<close>, \<open>sha_url\<close>), password hashes, signing and checking a
  token, the collation of the database (\<open>ck\<close>), the text of a database error (\<open>msg\<close>), random identifiers (\<open>newId\<close>) and
  bytes, whether a stream accepts a write (\<open>ok\<close>), the wall clock (\<open>wall\<close>), the browser's \<open>URL\<close> class (\<open>web\<close>) and the check of
  a Google token.  A theorem that needs something of such an argument says so in its premises, and its witness has a
  concrete one.

  \<^bold>\<open>Reachable states.\<close>  \<open>timetable_reach\<close>, \<open>store_reach\<close>, \<open>school_reach\<close>, \<open>cache_reach\<close>, \<open>hub_reach\<close>, \<open>service_reach\<close> and their like start from
  the empty tables and close under the operations; most properties are about all states they hold of.  An identifier drawn
  for a new row is assumed not to be in use where the code relies on it.

  \<^bold>\<open>Bounds.\<close>  No definition uses fuel.  Recursion that is not structural has a measure.  The widths of the schema's integer
  columns are not modelled: no operation computes on them but reads and compares.

  \<^bold>\<open>Not modelled.\<close>  The offline installer and the delivery of agent files, which assemble files and run processes; push
  notifications and health reports; the wiring of services to HTTP, one route apart; the views of the web client; of the extension, the
  connection to the native host, the reload of pages and the views; the agents on the machines (shell, PowerShell, C#);
  build, release and test scripts.
  Two requests to the server that interleave inside one command are not modelled either: a command is one step, as the
  transaction makes it for the commands that have one.
\<close>

end
